(* ===== verification/Prelude.thy ===== *)
theory Prelude
  imports Main "HOL-Library.Word" "HOL-Library.Char_ord" "HOL-Library.List_Lexorder"
begin

text \<open>
  The shared vocabulary of the development: Rust results and the question-mark operator,
  database tables as lists of rows with the SELECT/UPDATE shapes the repositories use,
  checked 64-bit integer arithmetic, the string operations of the Rust standard library
  that validation code calls, and the two interfaces that several components share: the
  storage codec of a closed vocabulary (\<open>as_str\<close> / \<open>from_storage_str\<close>)
  and the life cycle of a guarded state machine.
\<close>

named_theorems res_simps \<open>rewrite rules for results and the question-mark operator\<close>
named_theorems tbl_simps \<open>rewrite rules for tables as lists of rows\<close>

section \<open>Results\<close>

text \<open>
  \<open>Result<T, E>\<close> is the sum type with \<open>Inl\<close> for the error. \<open>and_then\<close>
  is what the \<open>?\<close> operator does: the first error ends the function.
\<close>

definition and_then :: "'e + 'a \<Rightarrow> ('a \<Rightarrow> 'e + 'b) \<Rightarrow> 'e + 'b" where
  "and_then r f = (case r of Inl e \<Rightarrow> Inl e | Inr x \<Rightarrow> f x)"

definition map_err :: "('e \<Rightarrow> 'f) \<Rightarrow> 'e + 'a \<Rightarrow> 'f + 'a" where
  "map_err g r = (case r of Inl e \<Rightarrow> Inl (g e) | Inr x \<Rightarrow> Inr x)"

definition ok_or :: "'e \<Rightarrow> 'a option \<Rightarrow> 'e + 'a" where
  "ok_or e r = (case r of None \<Rightarrow> Inl e | Some x \<Rightarrow> Inr x)"

definition check :: "bool \<Rightarrow> 'e \<Rightarrow> 'e + unit" where
  \<comment> \<open>the early return \<open>if bad { return Err(e) }\<close>\<close>
  "check ok e = (if ok then Inr () else Inl e)"

definition is_ok :: "'e + 'a \<Rightarrow> bool" where
  "is_ok r = (case r of Inl _ \<Rightarrow> False | Inr _ \<Rightarrow> True)"

lemma and_then_Inl [simp, res_simps]: "and_then (Inl e) f = Inl e"
  by (simp add: and_then_def)

lemma and_then_Inr [simp, res_simps]: "and_then (Inr x) f = f x"
  by (simp add: and_then_def)

lemma and_then_eq_Inr [res_simps]:
  "and_then r f = Inr y \<longleftrightarrow> (\<exists>x. r = Inr x \<and> f x = Inr y)"
  by (cases r) simp_all

lemma and_then_eq_Inl [res_simps]:
  "and_then r f = Inl e \<longleftrightarrow> r = Inl e \<or> (\<exists>x. r = Inr x \<and> f x = Inl e)"
  by (cases r) simp_all

lemma and_then_assoc: "and_then (and_then r f) g = and_then r (\<lambda>x. and_then (f x) g)"
  by (cases r) simp_all

lemma and_then_OkE:
  assumes "and_then r f = Inr y"
  obtains x where "r = Inr x" "f x = Inr y"
  using assms by (auto simp: res_simps)

lemma map_err_Inl [simp, res_simps]: "map_err g (Inl e) = Inl (g e)"
  by (simp add: map_err_def)

lemma map_err_Inr [simp, res_simps]: "map_err g (Inr x) = Inr x"
  by (simp add: map_err_def)

lemma map_err_eq_Inr [simp, res_simps]: "map_err g r = Inr x \<longleftrightarrow> r = Inr x"
  by (cases r) simp_all

lemma ok_or_eq_Inr [simp, res_simps]: "ok_or e r = Inr x \<longleftrightarrow> r = Some x"
  by (cases r) (simp_all add: ok_or_def)

lemma ok_or_Some [simp]: "ok_or e (Some x) = Inr x"
  by (simp add: ok_or_def)

lemma ok_or_None [simp]: "ok_or e None = Inl e"
  by (simp add: ok_or_def)

lemma check_eq_Inr [simp, res_simps]: "check b e = Inr u \<longleftrightarrow> b"
  by (simp add: check_def)

lemma check_True [simp]: "check True e = Inr ()"
  by (simp add: check_def)

lemma check_False [simp]: "check False e = Inl e"
  by (simp add: check_def)

lemma is_ok_Inr [simp]: "is_ok (Inr x)"
  by (simp add: is_ok_def)

lemma is_ok_Inl [simp]: "\<not> is_ok (Inl e)"
  by (simp add: is_ok_def)

lemma is_ok_iff: "is_ok r \<longleftrightarrow> (\<exists>x. r = Inr x)"
  by (cases r) simp_all

text \<open>A fallible step run over a list, stopping at the first error (a \<open>for\<close> loop with \<open>?\<close>).\<close>

fun fold_res :: "('a \<Rightarrow> 's \<Rightarrow> 'e + 's) \<Rightarrow> 'a list \<Rightarrow> 's \<Rightarrow> 'e + 's" where
  "fold_res f [] s = Inr s"
| "fold_res f (x # xs) s = and_then (f x s) (fold_res f xs)"

lemma fold_res_inv:
  assumes "fold_res f xs s = Inr s'" and "P s"
    and "\<And>x s s'. x \<in> set xs \<Longrightarrow> P s \<Longrightarrow> f x s = Inr s' \<Longrightarrow> P s'"
  shows "P s'"
  using assms
proof (induction xs arbitrary: s)
  case Nil
  then show ?case by simp
next
  case (Cons x xs)
  from Cons.prems(1) obtain t where t: "f x s = Inr t" "fold_res f xs t = Inr s'"
    by (auto simp: res_simps)
  have "P t" using Cons.prems(2,3) t(1) by auto
  then show ?case using Cons.IH [OF t(2)] Cons.prems(3) by auto
qed

lemma fold_res_append:
  "fold_res f (xs @ ys) s = and_then (fold_res f xs s) (fold_res f ys)"
  by (induction xs arbitrary: s) (auto simp: and_then_def split: sum.splits)

text \<open>Collecting the results of a fallible map (\<open>for row in rows { out.push(row?) }\<close>).\<close>

fun collect_res :: "('e + 'a) list \<Rightarrow> 'e + 'a list" where
  "collect_res [] = Inr []"
| "collect_res (r # rs) = and_then r (\<lambda>x. and_then (collect_res rs) (\<lambda>xs. Inr (x # xs)))"

lemma collect_res_map_Inr: "(\<And>x. x \<in> set xs \<Longrightarrow> f x = Inr (g x)) \<Longrightarrow> collect_res (map f xs) = Inr (map g xs)"
  by (induction xs) simp_all

lemma collect_res_length: "collect_res rs = Inr xs \<Longrightarrow> length xs = length rs"
  by (induction rs arbitrary: xs) (auto simp: res_simps)

lemma collect_res_Inr_iff:
  "collect_res rs = Inr xs \<longleftrightarrow> rs = map Inr xs"
  by (induction rs arbitrary: xs) (auto simp: res_simps)

section \<open>Tables\<close>

text \<open>
  A database table is the list of its rows. \<open>select_one p\<close> is a query with
  \<open>WHERE p LIMIT 1\<close>, \<open>update_where p f\<close> is an \<open>UPDATE ... WHERE p\<close>,
  \<open>count_where\<close> is \<open>COUNT(*)\<close>.
\<close>

definition select_one :: "('r \<Rightarrow> bool) \<Rightarrow> 'r list \<Rightarrow> 'r option" where
  "select_one p t = find p t"

definition exists_row :: "('r \<Rightarrow> bool) \<Rightarrow> 'r list \<Rightarrow> bool" where
  "exists_row p t = list_ex p t"

definition update_where :: "('r \<Rightarrow> bool) \<Rightarrow> ('r \<Rightarrow> 'r) \<Rightarrow> 'r list \<Rightarrow> 'r list" where
  "update_where p f t = map (\<lambda>r. if p r then f r else r) t"

definition count_where :: "('r \<Rightarrow> bool) \<Rightarrow> 'r list \<Rightarrow> nat" where
  "count_where p t = length (filter p t)"

lemma select_one_Some: "select_one p t = Some r \<Longrightarrow> r \<in> set t \<and> p r"
  by (auto simp: select_one_def find_Some_iff)

lemma select_one_None [tbl_simps]: "select_one p t = None \<longleftrightarrow> (\<forall>r \<in> set t. \<not> p r)"
  by (auto simp: select_one_def find_None_iff)

lemma select_one_Nil [simp]: "select_one p [] = None"
  by (simp add: select_one_def)

lemma select_one_Cons [simp]: "select_one p (r # t) = (if p r then Some r else select_one p t)"
  by (simp add: select_one_def)

lemma select_one_append [tbl_simps]:
  "select_one p (t @ u) = (case select_one p t of Some r \<Rightarrow> Some r | None \<Rightarrow> select_one p u)"
  by (induction t) simp_all

lemma exists_row_iff [simp, tbl_simps]: "exists_row p t \<longleftrightarrow> (\<exists>r \<in> set t. p r)"
  by (auto simp: exists_row_def list_ex_iff)

lemma length_update_where [simp, tbl_simps]: "length (update_where p f t) = length t"
  by (simp add: update_where_def)

lemma set_update_where [tbl_simps]:
  "set (update_where p f t) = (\<lambda>r. if p r then f r else r) ` set t"
  by (simp add: update_where_def)

lemma update_where_append [simp, tbl_simps]:
  "update_where p f (t @ u) = update_where p f t @ update_where p f u"
  by (simp add: update_where_def)

lemma update_where_id: "\<forall>r \<in> set t. \<not> p r \<Longrightarrow> update_where p f t = t"
  by (simp add: update_where_def map_idI)

lemma map_update_where_same:
  "(\<And>r. r \<in> set t \<Longrightarrow> p r \<Longrightarrow> g (f r) = g r) \<Longrightarrow> map g (update_where p f t) = map g t"
  by (simp add: update_where_def)

lemma filter_update_where:
  "(\<And>r. r \<in> set t \<Longrightarrow> p r \<Longrightarrow> q (f r) = q r) \<Longrightarrow>
   filter q (update_where p f t) = update_where p f (filter q t)"
  by (induction t) (auto simp: update_where_def)

lemma ball_update_where:
  "(\<forall>r \<in> set (update_where p f t). Q r) \<longleftrightarrow> (\<forall>r \<in> set t. Q (if p r then f r else r))"
  by (auto simp: update_where_def)

lemma filter_update_where_other:
  "(\<And>r. r \<in> set t \<Longrightarrow> p r \<Longrightarrow> \<not> q (f r) \<and> \<not> q r) \<Longrightarrow> filter q (update_where p f t) = filter q t"
  by (induction t) (auto simp: update_where_def)

lemma select_one_update_where:
  assumes "\<And>r. p r \<Longrightarrow> q (f r) = q r"
  shows "select_one q (update_where p f t) =
    map_option (\<lambda>r. if p r then f r else r) (select_one q t)"
  using assms by (induction t) (auto simp: update_where_def)

text \<open>A unique key makes \<open>LIMIT 1\<close> deterministic.\<close>

lemma select_one_unique:
  assumes "distinct (map k t)" and "r \<in> set t" and "p r" and "\<And>r'. p r' \<Longrightarrow> k r' = k r"
  shows "select_one p t = Some r"
  using assms
proof (induction t)
  case Nil
  then show ?case by simp
next
  case (Cons x t)
  show ?case
  proof (cases "p x")
    case True
    then have "k x = k r" by (rule Cons.prems(4))
    then have "x = r" using Cons.prems(1,2) by (auto simp: image_iff)
    then show ?thesis using True by simp
  next
    case False
    then have "r \<in> set t" using Cons.prems(2,3) by auto
    moreover have "distinct (map k t)" using Cons.prems(1) by simp
    ultimately have "select_one p t = Some r"
      using Cons.prems(3,4) by (intro Cons.IH)
    with False show ?thesis by simp
  qed
qed

section \<open>Machine integers\<close>

type_synonym byte = "8 word"
type_synonym u64 = "64 word"

definition i64_min :: int where "i64_min = - (2 ^ 63)"
definition i64_max :: int where "i64_max = 2 ^ 63 - 1"
definition u64_max :: nat where "u64_max = 2 ^ 64 - 1"
definition u32_max :: nat where "u32_max = 2 ^ 32 - 1"

definition i64_checked :: "int \<Rightarrow> int option" where
  \<comment> \<open>the result of \<open>checked_add\<close> and its kin on \<open>i64\<close>: the exact value, or None\<close>
  "i64_checked n = (if i64_min \<le> n \<and> n \<le> i64_max then Some n else None)"

definition in_i64 :: "int \<Rightarrow> bool" where
  "in_i64 n \<longleftrightarrow> i64_min \<le> n \<and> n \<le> i64_max"

definition tdiv :: "int \<Rightarrow> int \<Rightarrow> int" where
  \<comment> \<open>Rust's integer division truncates towards zero\<close>
  "tdiv a b = sgn a * sgn b * (\<bar>a\<bar> div \<bar>b\<bar>)"

lemma i64_checked_Some [simp]: "i64_checked n = Some m \<longleftrightarrow> m = n \<and> in_i64 n"
  by (auto simp: i64_checked_def in_i64_def)

lemma i64_checked_None [simp]: "i64_checked n = None \<longleftrightarrow> \<not> in_i64 n"
  by (auto simp: i64_checked_def in_i64_def)

lemma tdiv_nonneg: "0 \<le> a \<Longrightarrow> 0 < b \<Longrightarrow> tdiv a b = a div b"
  by (cases "a = 0") (simp_all add: tdiv_def)

lemma tdiv_neg: "a < 0 \<Longrightarrow> 0 < b \<Longrightarrow> tdiv a b = - ((- a) div b)"
  by (simp add: tdiv_def)

lemma tdiv_minus: "tdiv (- a) b = - tdiv a b"
  by (simp add: tdiv_def sgn_minus)

lemma tdiv_bound: "0 < b \<Longrightarrow> \<bar>tdiv a b\<bar> \<le> \<bar>a\<bar>"
proof -
  assume b: "0 < b"
  have "0 \<le> \<bar>a\<bar> div b" using b by (simp add: pos_imp_zdiv_nonneg_iff)
  moreover have "\<bar>a\<bar> div b \<le> \<bar>a\<bar>" using b zdiv_mono2 [of "\<bar>a\<bar>" 1 b] by simp
  ultimately show ?thesis using b by (auto simp: tdiv_def abs_mult abs_sgn_eq)
qed

lemma unat_inject: "unat (a :: 'n::len word) = unat b \<longleftrightarrow> a = b"
  by (auto intro: unsigned_word_eqI)

lemma unat_of_nat64: "n < 2 ^ 64 \<Longrightarrow> unat (of_nat n :: u64) = n"
  by (simp add: unsigned_of_nat take_bit_nat_eq_self)

lemma sint_of_nat64: "n < 2 ^ 63 \<Longrightarrow> sint (of_nat n :: u64) = int n"
  by (simp add: signed_of_nat signed_take_bit_eq_if_positive bit_iff_odd take_bit_int_eq_self)

section \<open>Strings\<close>

text \<open>
  A Rust string is modelled by a HOL string whose characters are its code points; the
  development only uses code points below 256. \<open>rust_trim\<close> is \<open>str::trim\<close>
  with the \<open>White_Space\<close> code points of that range.
\<close>

definition is_whitespace :: "char \<Rightarrow> bool" where
  "is_whitespace c \<longleftrightarrow>
     (let n = (of_char c :: nat) in (9 \<le> n \<and> n \<le> 13) \<or> n = 32 \<or> n = 133 \<or> n = 160)"

definition rust_trim :: "string \<Rightarrow> string" where
  "rust_trim s = rev (dropWhile is_whitespace (rev (dropWhile is_whitespace s)))"

definition is_blank :: "string \<Rightarrow> bool" where
  \<comment> \<open>\<open>s.trim().is_empty()\<close>\<close>
  "is_blank s \<longleftrightarrow> rust_trim s = []"

definition bytes_of :: "string \<Rightarrow> byte list" where
  \<comment> \<open>\<open>str::as_bytes\<close> on the ASCII strings the hashed fields hold\<close>
  "bytes_of s = map of_char s"

definition strip_prefix :: "string \<Rightarrow> string \<Rightarrow> string option" where
  "strip_prefix p s = (if take (length p) s = p then Some (drop (length p) s) else None)"

lemma strip_prefix_append [simp]: "strip_prefix p (p @ s) = Some s"
  by (simp add: strip_prefix_def)

lemma strip_prefix_Some: "strip_prefix p s = Some t \<longleftrightarrow> s = p @ t"
  by (auto simp: strip_prefix_def split: if_splits) (metis append_take_drop_id)

lemma is_blank_iff: "is_blank s \<longleftrightarrow> (\<forall>c \<in> set s. is_whitespace c)"
proof -
  have "rust_trim s = [] \<longleftrightarrow> (\<forall>c \<in> set (dropWhile is_whitespace s). is_whitespace c)"
    by (simp add: rust_trim_def dropWhile_eq_Nil_conv)
  also have "\<dots> \<longleftrightarrow> (\<forall>c \<in> set s. is_whitespace c)"
  proof (induction s)
    case Nil
    then show ?case by simp
  next
    case (Cons a s)
    then show ?case by auto
  qed
  finally show ?thesis by (simp add: is_blank_def)
qed

lemma length_bytes_of [simp]: "length (bytes_of s) = length s"
  by (simp add: bytes_of_def)

lemma of_char_byte_inject: "(of_char c :: byte) = of_char d \<longleftrightarrow> c = d"
proof
  assume "(of_char c :: byte) = of_char d"
  then have "unat (of_nat (of_char c :: nat) :: byte) = unat (of_nat (of_char d :: nat) :: byte)"
    by (simp only: of_nat_of_char)
  moreover have "unat (of_nat (of_char x :: nat) :: byte) = (of_char x :: nat)" for x
    by (simp only: unsigned_of_nat) (simp add: take_bit_eq_mod)
  ultimately have "(of_char c :: nat) = of_char d" by simp
  then show "c = d" by simp
qed simp

lemma bytes_of_inject [simp]: "bytes_of s = bytes_of t \<longleftrightarrow> s = t"
  by (auto simp: bytes_of_def inj_map_eq_map inj_def of_char_byte_inject)

section \<open>The storage codec of a closed vocabulary\<close>

text \<open>
  Every enumeration of the code has a canonical string (\<open>as_str\<close>, the stored
  column value) and a parser that rejects anything else (\<open>from_storage_str\<close>). The
  laws make stored columns unambiguous: the parser inverts the printer, and a string that
  parses is the printed form of its value.
\<close>

locale storage_codec =
  fixes as_str :: "'a \<Rightarrow> string"
    and from_str :: "string \<Rightarrow> 'e + 'a"
  assumes from_as: "from_str (as_str x) = Inr x"
    and as_from: "from_str s = Inr x \<Longrightarrow> as_str x = s"
begin

lemma from_str_iff: "from_str s = Inr x \<longleftrightarrow> s = as_str x"
  using from_as as_from by blast

lemma as_str_inject: "as_str x = as_str y \<longleftrightarrow> x = y"
  using from_as by (metis sum.inject(2))

lemma from_str_rejects: "(\<exists>e. from_str s = Inl e) \<longleftrightarrow> s \<notin> range as_str"
  by (cases "from_str s") (auto simp: from_str_iff from_as)

lemma from_str_functional: "from_str s = Inr x \<Longrightarrow> from_str t = Inr x \<Longrightarrow> s = t"
  by (simp add: from_str_iff)

end

section \<open>Life cycles\<close>

text \<open>
  A guarded transition function answers an action with the next state or an error.
  \<open>run_actions\<close> applies a sequence of actions and stops at the first refusal.
\<close>

definition run_actions :: "('s \<Rightarrow> 'a \<Rightarrow> 'e + 's) \<Rightarrow> 'a list \<Rightarrow> 's \<Rightarrow> 'e + 's" where
  "run_actions nxt = fold_res (\<lambda>a s. nxt s a)"

inductive reaches :: "('s \<Rightarrow> 'a \<Rightarrow> 'e + 's) \<Rightarrow> 's \<Rightarrow> 's \<Rightarrow> bool" for nxt where
  reaches_refl: "reaches nxt s s"
| reaches_step: "nxt s a = Inr t \<Longrightarrow> reaches nxt t u \<Longrightarrow> reaches nxt s u"

lemma reaches_iff_run: "reaches nxt s t \<longleftrightarrow> (\<exists>as. run_actions nxt as s = Inr t)"
proof
  assume "reaches nxt s t"
  then show "\<exists>as. run_actions nxt as s = Inr t"
  proof induction
    case (reaches_refl s)
    have "run_actions nxt [] s = Inr s" by (simp add: run_actions_def)
    then show ?case ..
  next
    case (reaches_step s a t u)
    then obtain as where "run_actions nxt as t = Inr u" by blast
    with reaches_step.hyps(1) have "run_actions nxt (a # as) s = Inr u"
      by (simp add: run_actions_def)
    then show ?case ..
  qed
next
  assume "\<exists>as. run_actions nxt as s = Inr t"
  then obtain as where "run_actions nxt as s = Inr t" ..
  then show "reaches nxt s t"
  proof (induction as arbitrary: s)
    case Nil
    then show ?case by (simp add: run_actions_def reaches_refl)
  next
    case (Cons a as)
    then show ?case by (auto simp: run_actions_def res_simps intro: reaches_step)
  qed
qed

locale lifecycle =
  fixes nxt :: "'s \<Rightarrow> 'a \<Rightarrow> 'e + 's"
    and terminal :: "'s \<Rightarrow> bool"
  assumes terminal_stuck: "terminal s \<Longrightarrow> nxt s a \<noteq> Inr t"
    and live_moves: "\<not> terminal s \<Longrightarrow> \<exists>a t. nxt s a = Inr t"
begin

lemma terminal_iff_stuck: "terminal s \<longleftrightarrow> (\<forall>a t. nxt s a \<noteq> Inr t)"
  using terminal_stuck live_moves by blast

lemma run_terminal: "terminal s \<Longrightarrow> run_actions nxt as s = Inr t \<longleftrightarrow> as = [] \<and> t = s"
  by (cases as) (auto simp: run_actions_def res_simps terminal_stuck)

lemma reaches_terminal: "terminal s \<Longrightarrow> reaches nxt s t \<longleftrightarrow> t = s"
  by (auto simp: reaches_iff_run run_terminal intro: exI [of _ "[]"])

lemma run_stops_at_terminal:
  assumes "run_actions nxt (as @ bs) s = Inr t" and "run_actions nxt as s = Inr m" and "terminal m"
  shows "bs = [] \<and> t = m"
proof -
  from assms(1,2) have "run_actions nxt bs m = Inr t"
    by (simp add: run_actions_def fold_res_append)
  with assms(3) show ?thesis by (simp add: run_terminal)
qed

end

end
