(* ===== verification/Event_Kind.thy ===== *)
theory Event_Kind
  imports Prelude
begin

text \<open>
  The closed vocabulary of audit events (crates/audit-ledger/src/entry/event_kind.rs): the 198
  variants of \<open>EventKind\<close> under their source names, grouped into families by the first part
  of their storage string (quoting, the largest, in two halves), the storage string of each,
  the parser's table and the list of all kinds.
\<close>

datatype invoice_event =
    Test | InvoiceSequenceReserved | InvoiceDraftCreated | InvoiceSubmissionAttempt |
    InvoiceSubmissionResponse | InvoiceAckStatus | InvoiceRetryRequested |
    InvoiceMarkedAbandoned | InvoiceStornoIssued | InvoiceModificationIssued |
    InvoiceTechnicalAnnulmentRequested | InvoiceAnnulmentSubmissionAttempt |
    InvoiceAnnulmentSubmissionResponse | InvoiceAnnulmentAckStatus |
    InvoiceAnnulmentReceiverConfirmation | InvoiceSubmissionAttemptFailed |
    InvoiceCheckPerformed | InvoicePaymentRecorded | InvoiceEmailedSent | InvoiceStaged |
    InvoiceDraftDeleted | InvoicePickedUpFromQuote | EmailRelayQueued | EmailRelaySent |
    EmailRelayFailed | InvoiceLocalOnlyEmitted

datatype quote_event =
    MaterialCatalogueChanged | MaterialCataloguePushed | ComplexityRulesChanged |
    ToleranceMultipliersChanged | ParametersChanged | StockAdjustmentsChanged |
    QuoteStockAlertTriggered | QuoteDealIssued | QuoteSalesOrderCreated |
    QuoteWorkOrderCreated | QuotePricingFetched | QuotePricingExtracted | QuotePricingPriced |
    QuotePricingRendered | QuotePricingPosted | QuotePricingFailed | PipelinePythonResolved |
    QuotePricingDaemonPanicked | QuotePricingJobsIndexMigrated |
    QuotePricingFailureClassified | QuotePricedWritebackOutcome | QuotePollOutcome |
    QuotePricingCycleOutcome | QuotePricingJobRetried

datatype quote_line_event =
    QuotePricingMaterialEdited | QuotePricingFailureDeleted | QuotePricingOperatorAccepted |
    QuoteOperatorRefused | EmailOutboxFetched | EmailOutboxClaimed | EmailOutboxSent |
    EmailOutboxFailed | QuotePdfRerenderEnqueued | QuotePdfRerendered |
    QuotePdfRerenderFailed | QuoteLeadTimeOverridden | QuotingMachinesEmptyFallback |
    MarginProfileCreated | MarginProfileEdited | MarginProfileArchived |
    QuoteMarginBelowFloor | QuoteUsingGlobalMargin | QuoteMarginOverridden |
    QuoteMarginFloorOverridden | QuoteCalibrationSampleRecorded |
    QuoteCalibrationSampleSkipped | QuoteCalibrationApplied |
    QuoteCalibrationCoefficientShifted

datatype shop_event =
    MesAdapterEvent | StockMovementRecorded | WorkOrderCreated | WorkOrderStateChanged |
    RoutingOpStateChanged | QaInspectionCreated | QaInspectionDecided | DispatchCreated |
    DispatchShipped | AdapterAdded | AdapterUpdated | AdapterRemoved |
    AdapterHealthTransitioned | MaterialReserved | MaterialCommitted | MaterialConsumed |
    MaterialReleased | MaterialCertAttached | MaterialHeatLotAssigned |
    MaterialWoBlockedNoHeatLot | MaterialMtrUploaded | MaterialTraceabilityViewed |
    MachineCreated | MachineEdited | MachineArchived

datatype session_event =
    SnapshotCreated | SnapshotValidationFailed | SnapshotRestored | SnapshotPruned |
    EvidenceArchived | DbAutoRecovered | DapLoginInitiated | DapLoginCompleted |
    DapLoginFailed | DapLoginFallback | SessionOpened | SessionClosed | SessionCrashRecovered |
    TimestampAnchorTaken | TimestampAnchorDelayed | ServiceSessionOpened |
    ServiceSessionEndorsed | ServiceSessionClosed

datatype system_event =
    FirstProdLaunchAcknowledged | UpgradeSnapshotMismatch | IncomingInvoiceIngested |
    IncomingInvoiceStatusChanged | IncomingInvoiceSyncCycleCompleted | InvoiceRestoredFromNav |
    QuoteIntakePollCompleted | DaemonShutdownCompleted | RestoreBuyerBackfillCycleCompleted |
    ExtNavPartnerManualLink | RestoreFromNavRun | QuoteIntakePollAttempted |
    QuoteIntakeRowAdded | QuoteIntakePollFailed | NumberingTemplateChanged | TenantCreated |
    TenantSwitchRequested | TenantSwitched | TenantArchived | TenantRestored |
    TenantDemoSeeded | TenantNavToggled | TenantSellerSetupOptional |
    TenantSellerRegionConfigured

datatype procurement_event =
    SupplierDpasPrioritySet | SupplierExportScreened | AvlVendorAdded |
    AvlVendorStatusChanged | AvlVendorRevoked | AvlScreeningOverdue | PoBlockedByVendorStatus |
    PartnerCustomerTypeChanged | PoCreated | PoLineAdded | PoIssued | PoReceiptRecorded |
    PoPartiallyReceived | PoReceived | PoClosed | PoCancelled | PoIncomingInspectionFailed

datatype quality_event =
    NcrCreated | NcrStateChanged | NcrEscalated | NcrClosed | WoBlockedByOpenNcr |
    NcrShipmentWaiverGranted | NcrShipmentWaiverRevoked | CapaCreated | CapaApproved |
    CapaEffectivenessReviewed | CapaClosed | QcInspectionRecorded | QcInspectionPassed |
    QcInspectionFailed | QcAutoNcrCreated | QcProbeCalibrationStaleWarning |
    QcProbeIngestionFailed | QcReportDrafted | QcReportIssued | QcReportAttachedToShipment |
    QcReportRendered | QcReportShipmentBlocked | QcReportVoided

datatype record_event =
    PersonnelIdRegistered | PersonnelSignatureApplied | PersonnelAccessGranted |
    PersonnelAccessDenied | PartSerialAssigned | PartUidMarked | WoBlockedNoPartUid |
    PartTraceabilityViewed | ExportClassificationSet | ExportAccessCheck |
    ExportShipmentLogged | CuiMarkingApplied | CuiAccessEvent | IncidentCyberDetected |
    CadBlobKeyProvisioned | CadBlobRead | CadBlobLegacyPlaintextRead

datatype event_kind =
    InvoiceEvent invoice_event | QuoteEvent quote_event | QuoteLineEvent quote_line_event |
    ShopEvent shop_event | SessionEvent session_event | SystemEvent system_event |
    ProcurementEvent procurement_event | QualityEvent quality_event | RecordEvent record_event

primrec invoice_event_as_str :: "invoice_event \<Rightarrow> string" where
  "invoice_event_as_str Test = ''test''"
| "invoice_event_as_str InvoiceSequenceReserved = ''invoice.sequence_reserved''"
| "invoice_event_as_str InvoiceDraftCreated = ''invoice.draft_created''"
| "invoice_event_as_str InvoiceSubmissionAttempt = ''invoice.submission_attempt''"
| "invoice_event_as_str InvoiceSubmissionResponse = ''invoice.submission_response''"
| "invoice_event_as_str InvoiceAckStatus = ''invoice.ack_status''"
| "invoice_event_as_str InvoiceRetryRequested = ''invoice.retry_requested''"
| "invoice_event_as_str InvoiceMarkedAbandoned = ''invoice.marked_abandoned''"
| "invoice_event_as_str InvoiceStornoIssued = ''invoice.storno_issued''"
| "invoice_event_as_str InvoiceModificationIssued = ''invoice.modification_issued''"
| "invoice_event_as_str InvoiceTechnicalAnnulmentRequested = ''invoice.technical_annulment_requested''"
| "invoice_event_as_str InvoiceAnnulmentSubmissionAttempt = ''invoice.annulment_submission_attempt''"
| "invoice_event_as_str InvoiceAnnulmentSubmissionResponse = ''invoice.annulment_submission_response''"
| "invoice_event_as_str InvoiceAnnulmentAckStatus = ''invoice.annulment_ack_status''"
| "invoice_event_as_str InvoiceAnnulmentReceiverConfirmation = ''invoice.annulment_receiver_confirmation''"
| "invoice_event_as_str InvoiceSubmissionAttemptFailed = ''invoice.submission_attempt_failed''"
| "invoice_event_as_str InvoiceCheckPerformed = ''invoice.check_performed''"
| "invoice_event_as_str InvoicePaymentRecorded = ''invoice.payment_recorded''"
| "invoice_event_as_str InvoiceEmailedSent = ''invoice.emailed_sent''"
| "invoice_event_as_str InvoiceStaged = ''invoice.staged''"
| "invoice_event_as_str InvoiceDraftDeleted = ''invoice.draft_deleted''"
| "invoice_event_as_str InvoicePickedUpFromQuote = ''invoice.picked_up_from_quote''"
| "invoice_event_as_str EmailRelayQueued = ''email.relay_queued''"
| "invoice_event_as_str EmailRelaySent = ''email.relay_sent''"
| "invoice_event_as_str EmailRelayFailed = ''email.relay_failed''"
| "invoice_event_as_str InvoiceLocalOnlyEmitted = ''invoice.local_only_emitted''"

primrec quote_event_as_str :: "quote_event \<Rightarrow> string" where
  "quote_event_as_str MaterialCatalogueChanged = ''quote.material_catalogue_changed''"
| "quote_event_as_str MaterialCataloguePushed = ''quote.material_catalogue_pushed''"
| "quote_event_as_str ComplexityRulesChanged = ''quote.complexity_rules_changed''"
| "quote_event_as_str ToleranceMultipliersChanged = ''quote.tolerance_multipliers_changed''"
| "quote_event_as_str ParametersChanged = ''quote.parameters_changed''"
| "quote_event_as_str StockAdjustmentsChanged = ''quote.stock_adjustments_changed''"
| "quote_event_as_str QuoteStockAlertTriggered = ''quote.stock_alert_triggered''"
| "quote_event_as_str QuoteDealIssued = ''quote.deal_issued''"
| "quote_event_as_str QuoteSalesOrderCreated = ''quote.sales_order_created''"
| "quote_event_as_str QuoteWorkOrderCreated = ''quote.work_order_created''"
| "quote_event_as_str QuotePricingFetched = ''quote.pricing_fetched''"
| "quote_event_as_str QuotePricingExtracted = ''quote.pricing_extracted''"
| "quote_event_as_str QuotePricingPriced = ''quote.pricing_priced''"
| "quote_event_as_str QuotePricingRendered = ''quote.pricing_rendered''"
| "quote_event_as_str QuotePricingPosted = ''quote.pricing_posted''"
| "quote_event_as_str QuotePricingFailed = ''quote.pricing_failed''"
| "quote_event_as_str PipelinePythonResolved = ''quote.pipeline_python_resolved''"
| "quote_event_as_str QuotePricingDaemonPanicked = ''quote.pricing_daemon_panicked''"
| "quote_event_as_str QuotePricingJobsIndexMigrated = ''quote.pricing_jobs_index_migrated''"
| "quote_event_as_str QuotePricingFailureClassified = ''quote.pricing_failure_classified''"
| "quote_event_as_str QuotePricedWritebackOutcome = ''quote.priced_writeback_outcome''"
| "quote_event_as_str QuotePollOutcome = ''quote.poll_outcome''"
| "quote_event_as_str QuotePricingCycleOutcome = ''quote.pricing_cycle_outcome''"
| "quote_event_as_str QuotePricingJobRetried = ''quote.pricing_job_retried''"

primrec quote_line_event_as_str :: "quote_line_event \<Rightarrow> string" where
  "quote_line_event_as_str QuotePricingMaterialEdited = ''quote.material_grade_edited''"
| "quote_line_event_as_str QuotePricingFailureDeleted = ''quote.pricing_failure_deleted''"
| "quote_line_event_as_str QuotePricingOperatorAccepted = ''quote.operator_accepted''"
| "quote_line_event_as_str QuoteOperatorRefused = ''quote.operator_refused''"
| "quote_line_event_as_str EmailOutboxFetched = ''quote.email_outbox_fetched''"
| "quote_line_event_as_str EmailOutboxClaimed = ''quote.email_outbox_claimed''"
| "quote_line_event_as_str EmailOutboxSent = ''quote.email_outbox_sent''"
| "quote_line_event_as_str EmailOutboxFailed = ''quote.email_outbox_failed''"
| "quote_line_event_as_str QuotePdfRerenderEnqueued = ''quote.pdf_rerender_enqueued''"
| "quote_line_event_as_str QuotePdfRerendered = ''quote.pdf_rerendered''"
| "quote_line_event_as_str QuotePdfRerenderFailed = ''quote.pdf_rerender_failed''"
| "quote_line_event_as_str QuoteLeadTimeOverridden = ''quote.lead_time_overridden''"
| "quote_line_event_as_str QuotingMachinesEmptyFallback = ''quote.machines_empty_fallback''"
| "quote_line_event_as_str MarginProfileCreated = ''quote.margin_profile_created''"
| "quote_line_event_as_str MarginProfileEdited = ''quote.margin_profile_edited''"
| "quote_line_event_as_str MarginProfileArchived = ''quote.margin_profile_archived''"
| "quote_line_event_as_str QuoteMarginBelowFloor = ''quote.margin_below_floor''"
| "quote_line_event_as_str QuoteUsingGlobalMargin = ''quote.using_global_margin''"
| "quote_line_event_as_str QuoteMarginOverridden = ''quote.margin_overridden''"
| "quote_line_event_as_str QuoteMarginFloorOverridden = ''quote.margin_floor_overridden''"
| "quote_line_event_as_str QuoteCalibrationSampleRecorded = ''quote.calibration_sample_recorded''"
| "quote_line_event_as_str QuoteCalibrationSampleSkipped = ''quote.calibration_sample_skipped''"
| "quote_line_event_as_str QuoteCalibrationApplied = ''quote.calibration_applied''"
| "quote_line_event_as_str QuoteCalibrationCoefficientShifted = ''quote.calibration_coefficient_shifted''"

primrec shop_event_as_str :: "shop_event \<Rightarrow> string" where
  "shop_event_as_str MesAdapterEvent = ''mes.adapter_event''"
| "shop_event_as_str StockMovementRecorded = ''mes.stock_movement_recorded''"
| "shop_event_as_str WorkOrderCreated = ''mes.work_order_created''"
| "shop_event_as_str WorkOrderStateChanged = ''mes.work_order_state_changed''"
| "shop_event_as_str RoutingOpStateChanged = ''mes.routing_op_state_changed''"
| "shop_event_as_str QaInspectionCreated = ''mes.qa_inspection_created''"
| "shop_event_as_str QaInspectionDecided = ''mes.qa_inspection_decided''"
| "shop_event_as_str DispatchCreated = ''mes.dispatch_created''"
| "shop_event_as_str DispatchShipped = ''mes.dispatch_shipped''"
| "shop_event_as_str AdapterAdded = ''mes.adapter_added''"
| "shop_event_as_str AdapterUpdated = ''mes.adapter_updated''"
| "shop_event_as_str AdapterRemoved = ''mes.adapter_removed''"
| "shop_event_as_str AdapterHealthTransitioned = ''mes.adapter_health_transitioned''"
| "shop_event_as_str MaterialReserved = ''inventory.material_reserved''"
| "shop_event_as_str MaterialCommitted = ''inventory.material_committed''"
| "shop_event_as_str MaterialConsumed = ''inventory.material_consumed''"
| "shop_event_as_str MaterialReleased = ''inventory.material_released''"
| "shop_event_as_str MaterialCertAttached = ''material.cert_attached''"
| "shop_event_as_str MaterialHeatLotAssigned = ''material.heat_lot_assigned''"
| "shop_event_as_str MaterialWoBlockedNoHeatLot = ''material.wo_blocked_no_heat_lot''"
| "shop_event_as_str MaterialMtrUploaded = ''material.mtr_uploaded''"
| "shop_event_as_str MaterialTraceabilityViewed = ''material.traceability_viewed''"
| "shop_event_as_str MachineCreated = ''mes.machine_created''"
| "shop_event_as_str MachineEdited = ''mes.machine_edited''"
| "shop_event_as_str MachineArchived = ''mes.machine_archived''"

primrec session_event_as_str :: "session_event \<Rightarrow> string" where
  "session_event_as_str SnapshotCreated = ''snapshot.created''"
| "session_event_as_str SnapshotValidationFailed = ''snapshot.validation_failed''"
| "session_event_as_str SnapshotRestored = ''snapshot.restored''"
| "session_event_as_str SnapshotPruned = ''snapshot.pruned''"
| "session_event_as_str EvidenceArchived = ''evidence.archived''"
| "session_event_as_str DbAutoRecovered = ''db.auto_recovered''"
| "session_event_as_str DapLoginInitiated = ''auth.dap_login_initiated''"
| "session_event_as_str DapLoginCompleted = ''auth.dap_login_completed''"
| "session_event_as_str DapLoginFailed = ''auth.dap_login_failed''"
| "session_event_as_str DapLoginFallback = ''auth.dap_login_fallback''"
| "session_event_as_str SessionOpened = ''auth.session_opened''"
| "session_event_as_str SessionClosed = ''auth.session_closed''"
| "session_event_as_str SessionCrashRecovered = ''auth.session_crash_recovered''"
| "session_event_as_str TimestampAnchorTaken = ''audit.timestamp_anchor_taken''"
| "session_event_as_str TimestampAnchorDelayed = ''audit.timestamp_anchor_delayed''"
| "session_event_as_str ServiceSessionOpened = ''auth.service_session_opened''"
| "session_event_as_str ServiceSessionEndorsed = ''auth.service_session_endorsed''"
| "session_event_as_str ServiceSessionClosed = ''auth.service_session_closed''"

primrec system_event_as_str :: "system_event \<Rightarrow> string" where
  "system_event_as_str FirstProdLaunchAcknowledged = ''system.first_prod_launch_acknowledged''"
| "system_event_as_str UpgradeSnapshotMismatch = ''system.upgrade_snapshot_mismatch''"
| "system_event_as_str IncomingInvoiceIngested = ''system.incoming_invoice_ingested''"
| "system_event_as_str IncomingInvoiceStatusChanged = ''system.incoming_invoice_status_changed''"
| "system_event_as_str IncomingInvoiceSyncCycleCompleted = ''system.incoming_invoice_sync_cycle_completed''"
| "system_event_as_str InvoiceRestoredFromNav = ''system.invoice_restored_from_nav''"
| "system_event_as_str QuoteIntakePollCompleted = ''system.quote_intake_poll_completed''"
| "system_event_as_str DaemonShutdownCompleted = ''system.daemon_shutdown_completed''"
| "system_event_as_str RestoreBuyerBackfillCycleCompleted = ''system.restore_buyer_backfill_cycle_completed''"
| "system_event_as_str RestoreFromNavRun = ''system.restore_from_nav_run''"
| "system_event_as_str ExtNavPartnerManualLink = ''system.extnav_partner_manual_link''"
| "system_event_as_str QuoteIntakePollAttempted = ''system.quote_intake_poll_attempted''"
| "system_event_as_str QuoteIntakeRowAdded = ''system.quote_intake_row_added''"
| "system_event_as_str QuoteIntakePollFailed = ''system.quote_intake_poll_failed''"
| "system_event_as_str NumberingTemplateChanged = ''system.numbering_template_changed''"
| "system_event_as_str TenantCreated = ''tenant.created''"
| "system_event_as_str TenantSwitchRequested = ''tenant.switch_requested''"
| "system_event_as_str TenantSwitched = ''tenant.switched''"
| "system_event_as_str TenantArchived = ''tenant.archived''"
| "system_event_as_str TenantRestored = ''tenant.restored''"
| "system_event_as_str TenantDemoSeeded = ''tenant.demo_seeded''"
| "system_event_as_str TenantNavToggled = ''tenant.nav_toggled''"
| "system_event_as_str TenantSellerSetupOptional = ''tenant.seller_setup_optional''"
| "system_event_as_str TenantSellerRegionConfigured = ''tenant.seller_region_configured''"

primrec procurement_event_as_str :: "procurement_event \<Rightarrow> string" where
  "procurement_event_as_str SupplierDpasPrioritySet = ''supplier.dpas_priority_set''"
| "procurement_event_as_str SupplierExportScreened = ''supplier.export_screened''"
| "procurement_event_as_str AvlVendorAdded = ''supplier.avl_vendor_added''"
| "procurement_event_as_str AvlVendorStatusChanged = ''supplier.avl_vendor_status_changed''"
| "procurement_event_as_str AvlVendorRevoked = ''supplier.avl_vendor_revoked''"
| "procurement_event_as_str AvlScreeningOverdue = ''supplier.avl_screening_overdue''"
| "procurement_event_as_str PoBlockedByVendorStatus = ''supplier.po_blocked_by_vendor_status''"
| "procurement_event_as_str PartnerCustomerTypeChanged = ''partner.customer_type_changed''"
| "procurement_event_as_str PoCreated = ''po.created''"
| "procurement_event_as_str PoLineAdded = ''po.line_added''"
| "procurement_event_as_str PoIssued = ''po.issued''"
| "procurement_event_as_str PoReceiptRecorded = ''po.receipt_recorded''"
| "procurement_event_as_str PoPartiallyReceived = ''po.partially_received''"
| "procurement_event_as_str PoReceived = ''po.received''"
| "procurement_event_as_str PoClosed = ''po.closed''"
| "procurement_event_as_str PoCancelled = ''po.cancelled''"
| "procurement_event_as_str PoIncomingInspectionFailed = ''po.incoming_inspection_failed''"

primrec quality_event_as_str :: "quality_event \<Rightarrow> string" where
  "quality_event_as_str NcrCreated = ''ncr.created''"
| "quality_event_as_str NcrStateChanged = ''ncr.state_changed''"
| "quality_event_as_str NcrEscalated = ''ncr.escalated''"
| "quality_event_as_str NcrClosed = ''ncr.closed''"
| "quality_event_as_str WoBlockedByOpenNcr = ''ncr.wo_blocked_by_open_ncr''"
| "quality_event_as_str NcrShipmentWaiverGranted = ''ncr.shipment_waiver_granted''"
| "quality_event_as_str NcrShipmentWaiverRevoked = ''ncr.shipment_waiver_revoked''"
| "quality_event_as_str CapaCreated = ''capa.created''"
| "quality_event_as_str CapaApproved = ''capa.approved''"
| "quality_event_as_str CapaEffectivenessReviewed = ''capa.effectiveness_reviewed''"
| "quality_event_as_str CapaClosed = ''capa.closed''"
| "quality_event_as_str QcInspectionRecorded = ''qc.inspection_recorded''"
| "quality_event_as_str QcInspectionPassed = ''qc.inspection_passed''"
| "quality_event_as_str QcInspectionFailed = ''qc.inspection_failed''"
| "quality_event_as_str QcAutoNcrCreated = ''qc.auto_ncr_created''"
| "quality_event_as_str QcProbeCalibrationStaleWarning = ''qc.probe_calibration_stale_warning''"
| "quality_event_as_str QcProbeIngestionFailed = ''qc.probe_ingestion_failed''"
| "quality_event_as_str QcReportDrafted = ''qcr.report_drafted''"
| "quality_event_as_str QcReportIssued = ''qcr.report_issued''"
| "quality_event_as_str QcReportAttachedToShipment = ''qcr.report_attached_to_shipment''"
| "quality_event_as_str QcReportRendered = ''qcr.report_rendered''"
| "quality_event_as_str QcReportShipmentBlocked = ''qcr.report_shipment_blocked''"
| "quality_event_as_str QcReportVoided = ''qcr.report_voided''"

primrec record_event_as_str :: "record_event \<Rightarrow> string" where
  "record_event_as_str PersonnelIdRegistered = ''personnel.id_registered''"
| "record_event_as_str PersonnelSignatureApplied = ''personnel.signature_applied''"
| "record_event_as_str PersonnelAccessGranted = ''personnel.access_granted''"
| "record_event_as_str PersonnelAccessDenied = ''personnel.access_denied''"
| "record_event_as_str PartSerialAssigned = ''part.serial_assigned''"
| "record_event_as_str PartUidMarked = ''part.uid_marked''"
| "record_event_as_str WoBlockedNoPartUid = ''part.wo_blocked_no_uid''"
| "record_event_as_str PartTraceabilityViewed = ''part.traceability_viewed''"
| "record_event_as_str ExportClassificationSet = ''export.classification_set''"
| "record_event_as_str ExportAccessCheck = ''export.access_check''"
| "record_event_as_str ExportShipmentLogged = ''export.shipment_logged''"
| "record_event_as_str CuiMarkingApplied = ''cui.marking_applied''"
| "record_event_as_str CuiAccessEvent = ''cui.access_event''"
| "record_event_as_str IncidentCyberDetected = ''incident.cyber_detected''"
| "record_event_as_str CadBlobKeyProvisioned = ''cad.blob_key_provisioned''"
| "record_event_as_str CadBlobRead = ''cad.blob_read''"
| "record_event_as_str CadBlobLegacyPlaintextRead = ''cad.blob_legacy_plaintext_read''"

fun event_kind_as_str :: "event_kind \<Rightarrow> string" where
  "event_kind_as_str (InvoiceEvent e) = invoice_event_as_str e"
| "event_kind_as_str (QuoteEvent e) = quote_event_as_str e"
| "event_kind_as_str (QuoteLineEvent e) = quote_line_event_as_str e"
| "event_kind_as_str (ShopEvent e) = shop_event_as_str e"
| "event_kind_as_str (SessionEvent e) = session_event_as_str e"
| "event_kind_as_str (SystemEvent e) = system_event_as_str e"
| "event_kind_as_str (ProcurementEvent e) = procurement_event_as_str e"
| "event_kind_as_str (QualityEvent e) = quality_event_as_str e"
| "event_kind_as_str (RecordEvent e) = record_event_as_str e"

definition event_kind_table :: "(string \<times> event_kind) list" where
  "event_kind_table =
   [(''test'', InvoiceEvent Test),
    (''invoice.sequence_reserved'', InvoiceEvent InvoiceSequenceReserved),
    (''invoice.draft_created'', InvoiceEvent InvoiceDraftCreated),
    (''invoice.submission_attempt'', InvoiceEvent InvoiceSubmissionAttempt),
    (''invoice.submission_response'', InvoiceEvent InvoiceSubmissionResponse),
    (''invoice.ack_status'', InvoiceEvent InvoiceAckStatus),
    (''invoice.retry_requested'', InvoiceEvent InvoiceRetryRequested),
    (''invoice.marked_abandoned'', InvoiceEvent InvoiceMarkedAbandoned),
    (''invoice.storno_issued'', InvoiceEvent InvoiceStornoIssued),
    (''invoice.modification_issued'', InvoiceEvent InvoiceModificationIssued),
    (''invoice.technical_annulment_requested'', InvoiceEvent InvoiceTechnicalAnnulmentRequested),
    (''invoice.annulment_submission_attempt'', InvoiceEvent InvoiceAnnulmentSubmissionAttempt),
    (''invoice.annulment_submission_response'', InvoiceEvent InvoiceAnnulmentSubmissionResponse),
    (''invoice.annulment_ack_status'', InvoiceEvent InvoiceAnnulmentAckStatus),
    (''invoice.annulment_receiver_confirmation'', InvoiceEvent InvoiceAnnulmentReceiverConfirmation),
    (''invoice.submission_attempt_failed'', InvoiceEvent InvoiceSubmissionAttemptFailed),
    (''invoice.check_performed'', InvoiceEvent InvoiceCheckPerformed),
    (''invoice.payment_recorded'', InvoiceEvent InvoicePaymentRecorded),
    (''invoice.emailed_sent'', InvoiceEvent InvoiceEmailedSent),
    (''system.first_prod_launch_acknowledged'', SystemEvent FirstProdLaunchAcknowledged),
    (''system.upgrade_snapshot_mismatch'', SystemEvent UpgradeSnapshotMismatch),
    (''system.incoming_invoice_ingested'', SystemEvent IncomingInvoiceIngested),
    (''system.incoming_invoice_status_changed'', SystemEvent IncomingInvoiceStatusChanged),
    (''system.incoming_invoice_sync_cycle_completed'', SystemEvent IncomingInvoiceSyncCycleCompleted),
    (''system.invoice_restored_from_nav'', SystemEvent InvoiceRestoredFromNav),
    (''system.quote_intake_poll_completed'', SystemEvent QuoteIntakePollCompleted),
    (''system.daemon_shutdown_completed'', SystemEvent DaemonShutdownCompleted),
    (''system.restore_buyer_backfill_cycle_completed'', SystemEvent RestoreBuyerBackfillCycleCompleted),
    (''system.restore_from_nav_run'', SystemEvent RestoreFromNavRun),
    (''system.extnav_partner_manual_link'', SystemEvent ExtNavPartnerManualLink),
    (''mes.adapter_event'', ShopEvent MesAdapterEvent),
    (''mes.stock_movement_recorded'', ShopEvent StockMovementRecorded),
    (''mes.work_order_created'', ShopEvent WorkOrderCreated),
    (''mes.work_order_state_changed'', ShopEvent WorkOrderStateChanged),
    (''mes.routing_op_state_changed'', ShopEvent RoutingOpStateChanged),
    (''mes.qa_inspection_created'', ShopEvent QaInspectionCreated),
    (''mes.qa_inspection_decided'', ShopEvent QaInspectionDecided),
    (''mes.dispatch_created'', ShopEvent DispatchCreated),
    (''mes.dispatch_shipped'', ShopEvent DispatchShipped),
    (''invoice.staged'', InvoiceEvent InvoiceStaged),
    (''invoice.draft_deleted'', InvoiceEvent InvoiceDraftDeleted),
    (''invoice.picked_up_from_quote'', InvoiceEvent InvoicePickedUpFromQuote),
    (''system.quote_intake_poll_attempted'', SystemEvent QuoteIntakePollAttempted),
    (''system.quote_intake_row_added'', SystemEvent QuoteIntakeRowAdded),
    (''system.quote_intake_poll_failed'', SystemEvent QuoteIntakePollFailed),
    (''mes.adapter_added'', ShopEvent AdapterAdded),
    (''mes.adapter_updated'', ShopEvent AdapterUpdated),
    (''mes.adapter_removed'', ShopEvent AdapterRemoved),
    (''mes.adapter_health_transitioned'', ShopEvent AdapterHealthTransitioned),
    (''quote.material_catalogue_changed'', QuoteEvent MaterialCatalogueChanged),
    (''quote.material_catalogue_pushed'', QuoteEvent MaterialCataloguePushed),
    (''quote.complexity_rules_changed'', QuoteEvent ComplexityRulesChanged),
    (''quote.tolerance_multipliers_changed'', QuoteEvent ToleranceMultipliersChanged),
    (''quote.parameters_changed'', QuoteEvent ParametersChanged),
    (''quote.stock_adjustments_changed'', QuoteEvent StockAdjustmentsChanged),
    (''quote.stock_alert_triggered'', QuoteEvent QuoteStockAlertTriggered),
    (''quote.deal_issued'', QuoteEvent QuoteDealIssued),
    (''quote.sales_order_created'', QuoteEvent QuoteSalesOrderCreated),
    (''quote.work_order_created'', QuoteEvent QuoteWorkOrderCreated),
    (''inventory.material_reserved'', ShopEvent MaterialReserved),
    (''inventory.material_committed'', ShopEvent MaterialCommitted),
    (''inventory.material_consumed'', ShopEvent MaterialConsumed),
    (''inventory.material_released'', ShopEvent MaterialReleased),
    (''quote.pricing_fetched'', QuoteEvent QuotePricingFetched),
    (''quote.pricing_extracted'', QuoteEvent QuotePricingExtracted),
    (''quote.pricing_priced'', QuoteEvent QuotePricingPriced),
    (''quote.pricing_rendered'', QuoteEvent QuotePricingRendered),
    (''quote.pricing_posted'', QuoteEvent QuotePricingPosted),
    (''quote.pricing_failed'', QuoteEvent QuotePricingFailed),
    (''email.relay_queued'', InvoiceEvent EmailRelayQueued),
    (''email.relay_sent'', InvoiceEvent EmailRelaySent),
    (''email.relay_failed'', InvoiceEvent EmailRelayFailed),
    (''quote.pipeline_python_resolved'', QuoteEvent PipelinePythonResolved),
    (''quote.pricing_daemon_panicked'', QuoteEvent QuotePricingDaemonPanicked),
    (''quote.pricing_jobs_index_migrated'', QuoteEvent QuotePricingJobsIndexMigrated),
    (''quote.pricing_failure_classified'', QuoteEvent QuotePricingFailureClassified),
    (''quote.priced_writeback_outcome'', QuoteEvent QuotePricedWritebackOutcome),
    (''quote.material_grade_edited'', QuoteLineEvent QuotePricingMaterialEdited),
    (''quote.pricing_failure_deleted'', QuoteLineEvent QuotePricingFailureDeleted),
    (''quote.operator_accepted'', QuoteLineEvent QuotePricingOperatorAccepted),
    (''quote.operator_refused'', QuoteLineEvent QuoteOperatorRefused),
    (''quote.poll_outcome'', QuoteEvent QuotePollOutcome),
    (''quote.pricing_cycle_outcome'', QuoteEvent QuotePricingCycleOutcome),
    (''quote.pricing_job_retried'', QuoteEvent QuotePricingJobRetried),
    (''quote.email_outbox_fetched'', QuoteLineEvent EmailOutboxFetched),
    (''quote.email_outbox_claimed'', QuoteLineEvent EmailOutboxClaimed),
    (''quote.email_outbox_sent'', QuoteLineEvent EmailOutboxSent),
    (''quote.email_outbox_failed'', QuoteLineEvent EmailOutboxFailed),
    (''quote.pdf_rerender_enqueued'', QuoteLineEvent QuotePdfRerenderEnqueued),
    (''quote.pdf_rerendered'', QuoteLineEvent QuotePdfRerendered),
    (''quote.pdf_rerender_failed'', QuoteLineEvent QuotePdfRerenderFailed),
    (''personnel.id_registered'', RecordEvent PersonnelIdRegistered),
    (''personnel.signature_applied'', RecordEvent PersonnelSignatureApplied),
    (''personnel.access_granted'', RecordEvent PersonnelAccessGranted),
    (''personnel.access_denied'', RecordEvent PersonnelAccessDenied),
    (''material.cert_attached'', ShopEvent MaterialCertAttached),
    (''material.heat_lot_assigned'', ShopEvent MaterialHeatLotAssigned),
    (''material.wo_blocked_no_heat_lot'', ShopEvent MaterialWoBlockedNoHeatLot),
    (''material.mtr_uploaded'', ShopEvent MaterialMtrUploaded),
    (''material.traceability_viewed'', ShopEvent MaterialTraceabilityViewed),
    (''part.serial_assigned'', RecordEvent PartSerialAssigned),
    (''part.uid_marked'', RecordEvent PartUidMarked),
    (''part.wo_blocked_no_uid'', RecordEvent WoBlockedNoPartUid),
    (''part.traceability_viewed'', RecordEvent PartTraceabilityViewed),
    (''export.classification_set'', RecordEvent ExportClassificationSet),
    (''export.access_check'', RecordEvent ExportAccessCheck),
    (''export.shipment_logged'', RecordEvent ExportShipmentLogged),
    (''cui.marking_applied'', RecordEvent CuiMarkingApplied),
    (''cui.access_event'', RecordEvent CuiAccessEvent),
    (''supplier.dpas_priority_set'', ProcurementEvent SupplierDpasPrioritySet),
    (''supplier.export_screened'', ProcurementEvent SupplierExportScreened),
    (''supplier.avl_vendor_added'', ProcurementEvent AvlVendorAdded),
    (''supplier.avl_vendor_status_changed'', ProcurementEvent AvlVendorStatusChanged),
    (''supplier.avl_vendor_revoked'', ProcurementEvent AvlVendorRevoked),
    (''supplier.avl_screening_overdue'', ProcurementEvent AvlScreeningOverdue),
    (''supplier.po_blocked_by_vendor_status'', ProcurementEvent PoBlockedByVendorStatus),
    (''incident.cyber_detected'', RecordEvent IncidentCyberDetected),
    (''system.numbering_template_changed'', SystemEvent NumberingTemplateChanged),
    (''snapshot.created'', SessionEvent SnapshotCreated),
    (''snapshot.validation_failed'', SessionEvent SnapshotValidationFailed),
    (''snapshot.restored'', SessionEvent SnapshotRestored),
    (''snapshot.pruned'', SessionEvent SnapshotPruned),
    (''evidence.archived'', SessionEvent EvidenceArchived),
    (''db.auto_recovered'', SessionEvent DbAutoRecovered),
    (''mes.machine_created'', ShopEvent MachineCreated),
    (''mes.machine_edited'', ShopEvent MachineEdited),
    (''mes.machine_archived'', ShopEvent MachineArchived),
    (''quote.lead_time_overridden'', QuoteLineEvent QuoteLeadTimeOverridden),
    (''quote.machines_empty_fallback'', QuoteLineEvent QuotingMachinesEmptyFallback),
    (''partner.customer_type_changed'', ProcurementEvent PartnerCustomerTypeChanged),
    (''quote.margin_profile_created'', QuoteLineEvent MarginProfileCreated),
    (''quote.margin_profile_edited'', QuoteLineEvent MarginProfileEdited),
    (''quote.margin_profile_archived'', QuoteLineEvent MarginProfileArchived),
    (''quote.margin_below_floor'', QuoteLineEvent QuoteMarginBelowFloor),
    (''quote.using_global_margin'', QuoteLineEvent QuoteUsingGlobalMargin),
    (''quote.margin_overridden'', QuoteLineEvent QuoteMarginOverridden),
    (''quote.margin_floor_overridden'', QuoteLineEvent QuoteMarginFloorOverridden),
    (''quote.calibration_sample_recorded'', QuoteLineEvent QuoteCalibrationSampleRecorded),
    (''quote.calibration_sample_skipped'', QuoteLineEvent QuoteCalibrationSampleSkipped),
    (''quote.calibration_applied'', QuoteLineEvent QuoteCalibrationApplied),
    (''quote.calibration_coefficient_shifted'', QuoteLineEvent QuoteCalibrationCoefficientShifted),
    (''cad.blob_key_provisioned'', RecordEvent CadBlobKeyProvisioned),
    (''cad.blob_read'', RecordEvent CadBlobRead),
    (''cad.blob_legacy_plaintext_read'', RecordEvent CadBlobLegacyPlaintextRead),
    (''tenant.created'', SystemEvent TenantCreated),
    (''tenant.switch_requested'', SystemEvent TenantSwitchRequested),
    (''tenant.switched'', SystemEvent TenantSwitched),
    (''tenant.archived'', SystemEvent TenantArchived),
    (''tenant.restored'', SystemEvent TenantRestored),
    (''tenant.demo_seeded'', SystemEvent TenantDemoSeeded),
    (''tenant.nav_toggled'', SystemEvent TenantNavToggled),
    (''tenant.seller_setup_optional'', SystemEvent TenantSellerSetupOptional),
    (''tenant.seller_region_configured'', SystemEvent TenantSellerRegionConfigured),
    (''invoice.local_only_emitted'', InvoiceEvent InvoiceLocalOnlyEmitted),
    (''ncr.created'', QualityEvent NcrCreated),
    (''ncr.state_changed'', QualityEvent NcrStateChanged),
    (''ncr.escalated'', QualityEvent NcrEscalated), (''ncr.closed'', QualityEvent NcrClosed),
    (''ncr.wo_blocked_by_open_ncr'', QualityEvent WoBlockedByOpenNcr),
    (''ncr.shipment_waiver_granted'', QualityEvent NcrShipmentWaiverGranted),
    (''ncr.shipment_waiver_revoked'', QualityEvent NcrShipmentWaiverRevoked),
    (''capa.created'', QualityEvent CapaCreated),
    (''capa.approved'', QualityEvent CapaApproved),
    (''capa.effectiveness_reviewed'', QualityEvent CapaEffectivenessReviewed),
    (''capa.closed'', QualityEvent CapaClosed), (''po.created'', ProcurementEvent PoCreated),
    (''po.line_added'', ProcurementEvent PoLineAdded),
    (''po.issued'', ProcurementEvent PoIssued),
    (''po.receipt_recorded'', ProcurementEvent PoReceiptRecorded),
    (''po.partially_received'', ProcurementEvent PoPartiallyReceived),
    (''po.received'', ProcurementEvent PoReceived), (''po.closed'', ProcurementEvent PoClosed),
    (''po.cancelled'', ProcurementEvent PoCancelled),
    (''po.incoming_inspection_failed'', ProcurementEvent PoIncomingInspectionFailed),
    (''auth.dap_login_initiated'', SessionEvent DapLoginInitiated),
    (''auth.dap_login_completed'', SessionEvent DapLoginCompleted),
    (''auth.dap_login_failed'', SessionEvent DapLoginFailed),
    (''auth.dap_login_fallback'', SessionEvent DapLoginFallback),
    (''auth.session_opened'', SessionEvent SessionOpened),
    (''auth.session_closed'', SessionEvent SessionClosed),
    (''auth.session_crash_recovered'', SessionEvent SessionCrashRecovered),
    (''audit.timestamp_anchor_taken'', SessionEvent TimestampAnchorTaken),
    (''audit.timestamp_anchor_delayed'', SessionEvent TimestampAnchorDelayed),
    (''auth.service_session_opened'', SessionEvent ServiceSessionOpened),
    (''auth.service_session_endorsed'', SessionEvent ServiceSessionEndorsed),
    (''auth.service_session_closed'', SessionEvent ServiceSessionClosed),
    (''qc.inspection_recorded'', QualityEvent QcInspectionRecorded),
    (''qc.inspection_passed'', QualityEvent QcInspectionPassed),
    (''qc.inspection_failed'', QualityEvent QcInspectionFailed),
    (''qc.auto_ncr_created'', QualityEvent QcAutoNcrCreated),
    (''qc.probe_calibration_stale_warning'', QualityEvent QcProbeCalibrationStaleWarning),
    (''qc.probe_ingestion_failed'', QualityEvent QcProbeIngestionFailed),
    (''qcr.report_drafted'', QualityEvent QcReportDrafted),
    (''qcr.report_issued'', QualityEvent QcReportIssued),
    (''qcr.report_attached_to_shipment'', QualityEvent QcReportAttachedToShipment),
    (''qcr.report_rendered'', QualityEvent QcReportRendered),
    (''qcr.report_shipment_blocked'', QualityEvent QcReportShipmentBlocked),
    (''qcr.report_voided'', QualityEvent QcReportVoided)]"

definition event_kind_from_storage_str :: "string \<Rightarrow> string + event_kind" where
  "event_kind_from_storage_str s =
     ok_or ''unknown EventKind storage string'' (map_of event_kind_table s)"

definition event_kinds :: "event_kind list" where
  "event_kinds =
   [InvoiceEvent Test, InvoiceEvent InvoiceSequenceReserved, InvoiceEvent InvoiceDraftCreated,
    InvoiceEvent InvoiceSubmissionAttempt, InvoiceEvent InvoiceSubmissionResponse,
    InvoiceEvent InvoiceAckStatus, InvoiceEvent InvoiceRetryRequested,
    InvoiceEvent InvoiceMarkedAbandoned, InvoiceEvent InvoiceStornoIssued,
    InvoiceEvent InvoiceModificationIssued, InvoiceEvent InvoiceTechnicalAnnulmentRequested,
    InvoiceEvent InvoiceAnnulmentSubmissionAttempt,
    InvoiceEvent InvoiceAnnulmentSubmissionResponse, InvoiceEvent InvoiceAnnulmentAckStatus,
    InvoiceEvent InvoiceAnnulmentReceiverConfirmation,
    InvoiceEvent InvoiceSubmissionAttemptFailed, InvoiceEvent InvoiceCheckPerformed,
    InvoiceEvent InvoicePaymentRecorded, InvoiceEvent InvoiceEmailedSent,
    SystemEvent FirstProdLaunchAcknowledged, SystemEvent UpgradeSnapshotMismatch,
    SystemEvent IncomingInvoiceIngested, SystemEvent IncomingInvoiceStatusChanged,
    SystemEvent IncomingInvoiceSyncCycleCompleted, SystemEvent InvoiceRestoredFromNav,
    SystemEvent QuoteIntakePollCompleted, SystemEvent DaemonShutdownCompleted,
    SystemEvent RestoreBuyerBackfillCycleCompleted, SystemEvent RestoreFromNavRun,
    SystemEvent ExtNavPartnerManualLink, ShopEvent MesAdapterEvent,
    ShopEvent StockMovementRecorded, ShopEvent WorkOrderCreated,
    ShopEvent WorkOrderStateChanged, ShopEvent RoutingOpStateChanged,
    ShopEvent QaInspectionCreated, ShopEvent QaInspectionDecided, ShopEvent DispatchCreated,
    ShopEvent DispatchShipped, InvoiceEvent InvoiceStaged, InvoiceEvent InvoiceDraftDeleted,
    InvoiceEvent InvoicePickedUpFromQuote, SystemEvent QuoteIntakePollAttempted,
    SystemEvent QuoteIntakeRowAdded, SystemEvent QuoteIntakePollFailed, ShopEvent AdapterAdded,
    ShopEvent AdapterUpdated, ShopEvent AdapterRemoved, ShopEvent AdapterHealthTransitioned,
    QuoteEvent MaterialCatalogueChanged, QuoteEvent MaterialCataloguePushed,
    QuoteEvent ComplexityRulesChanged, QuoteEvent ToleranceMultipliersChanged,
    QuoteEvent ParametersChanged, QuoteEvent StockAdjustmentsChanged,
    QuoteEvent QuoteStockAlertTriggered, QuoteEvent QuoteDealIssued,
    QuoteEvent QuoteSalesOrderCreated, QuoteEvent QuoteWorkOrderCreated,
    ShopEvent MaterialReserved, ShopEvent MaterialCommitted, ShopEvent MaterialConsumed,
    ShopEvent MaterialReleased, QuoteEvent QuotePricingFetched,
    QuoteEvent QuotePricingExtracted, QuoteEvent QuotePricingPriced,
    QuoteEvent QuotePricingRendered, QuoteEvent QuotePricingPosted,
    QuoteEvent QuotePricingFailed, InvoiceEvent EmailRelayQueued, InvoiceEvent EmailRelaySent,
    InvoiceEvent EmailRelayFailed, QuoteEvent PipelinePythonResolved,
    QuoteEvent QuotePricingDaemonPanicked, QuoteEvent QuotePricingJobsIndexMigrated,
    QuoteEvent QuotePricingFailureClassified, QuoteEvent QuotePricedWritebackOutcome,
    QuoteLineEvent QuotePricingMaterialEdited, QuoteLineEvent QuotePricingFailureDeleted,
    QuoteLineEvent QuotePricingOperatorAccepted, QuoteLineEvent QuoteOperatorRefused,
    QuoteEvent QuotePollOutcome, QuoteEvent QuotePricingCycleOutcome,
    QuoteEvent QuotePricingJobRetried, QuoteLineEvent EmailOutboxFetched,
    QuoteLineEvent EmailOutboxClaimed, QuoteLineEvent EmailOutboxSent,
    QuoteLineEvent EmailOutboxFailed, QuoteLineEvent QuotePdfRerenderEnqueued,
    QuoteLineEvent QuotePdfRerendered, QuoteLineEvent QuotePdfRerenderFailed,
    RecordEvent PersonnelIdRegistered, RecordEvent PersonnelSignatureApplied,
    RecordEvent PersonnelAccessGranted, RecordEvent PersonnelAccessDenied,
    ShopEvent MaterialCertAttached, ShopEvent MaterialHeatLotAssigned,
    ShopEvent MaterialWoBlockedNoHeatLot, ShopEvent MaterialMtrUploaded,
    ShopEvent MaterialTraceabilityViewed, RecordEvent PartSerialAssigned,
    RecordEvent PartUidMarked, RecordEvent WoBlockedNoPartUid,
    RecordEvent PartTraceabilityViewed, RecordEvent ExportClassificationSet,
    RecordEvent ExportAccessCheck, RecordEvent ExportShipmentLogged,
    RecordEvent CuiMarkingApplied, RecordEvent CuiAccessEvent,
    ProcurementEvent SupplierDpasPrioritySet, ProcurementEvent SupplierExportScreened,
    ProcurementEvent AvlVendorAdded, ProcurementEvent AvlVendorStatusChanged,
    ProcurementEvent AvlVendorRevoked, ProcurementEvent AvlScreeningOverdue,
    ProcurementEvent PoBlockedByVendorStatus, RecordEvent IncidentCyberDetected,
    SystemEvent NumberingTemplateChanged, SessionEvent SnapshotCreated,
    SessionEvent SnapshotValidationFailed, SessionEvent SnapshotRestored,
    SessionEvent SnapshotPruned, SessionEvent EvidenceArchived, SessionEvent DbAutoRecovered,
    ShopEvent MachineCreated, ShopEvent MachineEdited, ShopEvent MachineArchived,
    QuoteLineEvent QuoteLeadTimeOverridden, QuoteLineEvent QuotingMachinesEmptyFallback,
    ProcurementEvent PartnerCustomerTypeChanged, QuoteLineEvent MarginProfileCreated,
    QuoteLineEvent MarginProfileEdited, QuoteLineEvent MarginProfileArchived,
    QuoteLineEvent QuoteMarginBelowFloor, QuoteLineEvent QuoteUsingGlobalMargin,
    QuoteLineEvent QuoteMarginOverridden, QuoteLineEvent QuoteMarginFloorOverridden,
    QuoteLineEvent QuoteCalibrationSampleRecorded,
    QuoteLineEvent QuoteCalibrationSampleSkipped, QuoteLineEvent QuoteCalibrationApplied,
    QuoteLineEvent QuoteCalibrationCoefficientShifted, RecordEvent CadBlobKeyProvisioned,
    RecordEvent CadBlobRead, RecordEvent CadBlobLegacyPlaintextRead, SystemEvent TenantCreated,
    SystemEvent TenantSwitchRequested, SystemEvent TenantSwitched, SystemEvent TenantArchived,
    SystemEvent TenantRestored, SystemEvent TenantDemoSeeded, SystemEvent TenantNavToggled,
    SystemEvent TenantSellerSetupOptional, SystemEvent TenantSellerRegionConfigured,
    InvoiceEvent InvoiceLocalOnlyEmitted, QualityEvent NcrCreated,
    QualityEvent NcrStateChanged, QualityEvent NcrEscalated, QualityEvent NcrClosed,
    QualityEvent WoBlockedByOpenNcr, QualityEvent NcrShipmentWaiverGranted,
    QualityEvent NcrShipmentWaiverRevoked, QualityEvent CapaCreated, QualityEvent CapaApproved,
    QualityEvent CapaEffectivenessReviewed, QualityEvent CapaClosed,
    ProcurementEvent PoCreated, ProcurementEvent PoLineAdded, ProcurementEvent PoIssued,
    ProcurementEvent PoReceiptRecorded, ProcurementEvent PoPartiallyReceived,
    ProcurementEvent PoReceived, ProcurementEvent PoClosed, ProcurementEvent PoCancelled,
    ProcurementEvent PoIncomingInspectionFailed, SessionEvent DapLoginInitiated,
    SessionEvent DapLoginCompleted, SessionEvent DapLoginFailed, SessionEvent DapLoginFallback,
    SessionEvent SessionOpened, SessionEvent SessionClosed, SessionEvent SessionCrashRecovered,
    SessionEvent TimestampAnchorTaken, SessionEvent TimestampAnchorDelayed,
    SessionEvent ServiceSessionOpened, SessionEvent ServiceSessionEndorsed,
    SessionEvent ServiceSessionClosed, QualityEvent QcInspectionRecorded,
    QualityEvent QcInspectionPassed, QualityEvent QcInspectionFailed,
    QualityEvent QcAutoNcrCreated, QualityEvent QcProbeCalibrationStaleWarning,
    QualityEvent QcProbeIngestionFailed, QualityEvent QcReportDrafted,
    QualityEvent QcReportIssued, QualityEvent QcReportAttachedToShipment,
    QualityEvent QcReportRendered, QualityEvent QcReportShipmentBlocked,
    QualityEvent QcReportVoided]"

lemma event_kind_table_eq:
  "event_kind_table = map (\<lambda>k. (event_kind_as_str k, k)) event_kinds"
  by (simp add: event_kind_table_def event_kinds_def)

text \<open>The members of each family, in the order of \<open>event_kinds\<close>.\<close>

lemma invoice_event_kinds:
  "filter (\<lambda>k. case k of InvoiceEvent e \<Rightarrow> True | _ \<Rightarrow> False) event_kinds = map InvoiceEvent
   [Test, InvoiceSequenceReserved, InvoiceDraftCreated, InvoiceSubmissionAttempt,
    InvoiceSubmissionResponse, InvoiceAckStatus, InvoiceRetryRequested, InvoiceMarkedAbandoned,
    InvoiceStornoIssued, InvoiceModificationIssued, InvoiceTechnicalAnnulmentRequested,
    InvoiceAnnulmentSubmissionAttempt, InvoiceAnnulmentSubmissionResponse,
    InvoiceAnnulmentAckStatus, InvoiceAnnulmentReceiverConfirmation,
    InvoiceSubmissionAttemptFailed, InvoiceCheckPerformed, InvoicePaymentRecorded,
    InvoiceEmailedSent, InvoiceStaged, InvoiceDraftDeleted, InvoicePickedUpFromQuote,
    EmailRelayQueued, EmailRelaySent, EmailRelayFailed, InvoiceLocalOnlyEmitted]"
  by (simp add: event_kinds_def)

lemma quote_event_kinds:
  "filter (\<lambda>k. case k of QuoteEvent e \<Rightarrow> True | _ \<Rightarrow> False) event_kinds = map QuoteEvent
   [MaterialCatalogueChanged, MaterialCataloguePushed, ComplexityRulesChanged,
    ToleranceMultipliersChanged, ParametersChanged, StockAdjustmentsChanged,
    QuoteStockAlertTriggered, QuoteDealIssued, QuoteSalesOrderCreated, QuoteWorkOrderCreated,
    QuotePricingFetched, QuotePricingExtracted, QuotePricingPriced, QuotePricingRendered,
    QuotePricingPosted, QuotePricingFailed, PipelinePythonResolved, QuotePricingDaemonPanicked,
    QuotePricingJobsIndexMigrated, QuotePricingFailureClassified, QuotePricedWritebackOutcome,
    QuotePollOutcome, QuotePricingCycleOutcome, QuotePricingJobRetried]"
  by (simp add: event_kinds_def)

lemma quote_line_event_kinds:
  "filter (\<lambda>k. case k of QuoteLineEvent e \<Rightarrow> True | _ \<Rightarrow> False) event_kinds = map QuoteLineEvent
   [QuotePricingMaterialEdited, QuotePricingFailureDeleted, QuotePricingOperatorAccepted,
    QuoteOperatorRefused, EmailOutboxFetched, EmailOutboxClaimed, EmailOutboxSent,
    EmailOutboxFailed, QuotePdfRerenderEnqueued, QuotePdfRerendered, QuotePdfRerenderFailed,
    QuoteLeadTimeOverridden, QuotingMachinesEmptyFallback, MarginProfileCreated,
    MarginProfileEdited, MarginProfileArchived, QuoteMarginBelowFloor, QuoteUsingGlobalMargin,
    QuoteMarginOverridden, QuoteMarginFloorOverridden, QuoteCalibrationSampleRecorded,
    QuoteCalibrationSampleSkipped, QuoteCalibrationApplied, QuoteCalibrationCoefficientShifted]"
  by (simp add: event_kinds_def)

lemma shop_event_kinds:
  "filter (\<lambda>k. case k of ShopEvent e \<Rightarrow> True | _ \<Rightarrow> False) event_kinds = map ShopEvent
   [MesAdapterEvent, StockMovementRecorded, WorkOrderCreated, WorkOrderStateChanged,
    RoutingOpStateChanged, QaInspectionCreated, QaInspectionDecided, DispatchCreated,
    DispatchShipped, AdapterAdded, AdapterUpdated, AdapterRemoved, AdapterHealthTransitioned,
    MaterialReserved, MaterialCommitted, MaterialConsumed, MaterialReleased,
    MaterialCertAttached, MaterialHeatLotAssigned, MaterialWoBlockedNoHeatLot,
    MaterialMtrUploaded, MaterialTraceabilityViewed, MachineCreated, MachineEdited,
    MachineArchived]"
  by (simp add: event_kinds_def)

lemma session_event_kinds:
  "filter (\<lambda>k. case k of SessionEvent e \<Rightarrow> True | _ \<Rightarrow> False) event_kinds = map SessionEvent
   [SnapshotCreated, SnapshotValidationFailed, SnapshotRestored, SnapshotPruned,
    EvidenceArchived, DbAutoRecovered, DapLoginInitiated, DapLoginCompleted, DapLoginFailed,
    DapLoginFallback, SessionOpened, SessionClosed, SessionCrashRecovered,
    TimestampAnchorTaken, TimestampAnchorDelayed, ServiceSessionOpened, ServiceSessionEndorsed,
    ServiceSessionClosed]"
  by (simp add: event_kinds_def)

lemma system_event_kinds:
  "filter (\<lambda>k. case k of SystemEvent e \<Rightarrow> True | _ \<Rightarrow> False) event_kinds = map SystemEvent
   [FirstProdLaunchAcknowledged, UpgradeSnapshotMismatch, IncomingInvoiceIngested,
    IncomingInvoiceStatusChanged, IncomingInvoiceSyncCycleCompleted, InvoiceRestoredFromNav,
    QuoteIntakePollCompleted, DaemonShutdownCompleted, RestoreBuyerBackfillCycleCompleted,
    RestoreFromNavRun, ExtNavPartnerManualLink, QuoteIntakePollAttempted, QuoteIntakeRowAdded,
    QuoteIntakePollFailed, NumberingTemplateChanged, TenantCreated, TenantSwitchRequested,
    TenantSwitched, TenantArchived, TenantRestored, TenantDemoSeeded, TenantNavToggled,
    TenantSellerSetupOptional, TenantSellerRegionConfigured]"
  by (simp add: event_kinds_def)

lemma procurement_event_kinds:
  "filter (\<lambda>k. case k of ProcurementEvent e \<Rightarrow> True | _ \<Rightarrow> False) event_kinds = map ProcurementEvent
   [SupplierDpasPrioritySet, SupplierExportScreened, AvlVendorAdded, AvlVendorStatusChanged,
    AvlVendorRevoked, AvlScreeningOverdue, PoBlockedByVendorStatus, PartnerCustomerTypeChanged,
    PoCreated, PoLineAdded, PoIssued, PoReceiptRecorded, PoPartiallyReceived, PoReceived,
    PoClosed, PoCancelled, PoIncomingInspectionFailed]"
  by (simp add: event_kinds_def)

lemma quality_event_kinds:
  "filter (\<lambda>k. case k of QualityEvent e \<Rightarrow> True | _ \<Rightarrow> False) event_kinds = map QualityEvent
   [NcrCreated, NcrStateChanged, NcrEscalated, NcrClosed, WoBlockedByOpenNcr,
    NcrShipmentWaiverGranted, NcrShipmentWaiverRevoked, CapaCreated, CapaApproved,
    CapaEffectivenessReviewed, CapaClosed, QcInspectionRecorded, QcInspectionPassed,
    QcInspectionFailed, QcAutoNcrCreated, QcProbeCalibrationStaleWarning,
    QcProbeIngestionFailed, QcReportDrafted, QcReportIssued, QcReportAttachedToShipment,
    QcReportRendered, QcReportShipmentBlocked, QcReportVoided]"
  by (simp add: event_kinds_def)

lemma record_event_kinds:
  "filter (\<lambda>k. case k of RecordEvent e \<Rightarrow> True | _ \<Rightarrow> False) event_kinds = map RecordEvent
   [PersonnelIdRegistered, PersonnelSignatureApplied, PersonnelAccessGranted,
    PersonnelAccessDenied, PartSerialAssigned, PartUidMarked, WoBlockedNoPartUid,
    PartTraceabilityViewed, ExportClassificationSet, ExportAccessCheck, ExportShipmentLogged,
    CuiMarkingApplied, CuiAccessEvent, IncidentCyberDetected, CadBlobKeyProvisioned,
    CadBlobRead, CadBlobLegacyPlaintextRead]"
  by (simp add: event_kinds_def)

lemma invoice_event_all: "e \<in> set
   [Test, InvoiceSequenceReserved, InvoiceDraftCreated, InvoiceSubmissionAttempt,
    InvoiceSubmissionResponse, InvoiceAckStatus, InvoiceRetryRequested, InvoiceMarkedAbandoned,
    InvoiceStornoIssued, InvoiceModificationIssued, InvoiceTechnicalAnnulmentRequested,
    InvoiceAnnulmentSubmissionAttempt, InvoiceAnnulmentSubmissionResponse,
    InvoiceAnnulmentAckStatus, InvoiceAnnulmentReceiverConfirmation,
    InvoiceSubmissionAttemptFailed, InvoiceCheckPerformed, InvoicePaymentRecorded,
    InvoiceEmailedSent, InvoiceStaged, InvoiceDraftDeleted, InvoicePickedUpFromQuote,
    EmailRelayQueued, EmailRelaySent, EmailRelayFailed, InvoiceLocalOnlyEmitted]"
  by (cases e) simp_all

lemma quote_event_all: "e \<in> set
   [MaterialCatalogueChanged, MaterialCataloguePushed, ComplexityRulesChanged,
    ToleranceMultipliersChanged, ParametersChanged, StockAdjustmentsChanged,
    QuoteStockAlertTriggered, QuoteDealIssued, QuoteSalesOrderCreated, QuoteWorkOrderCreated,
    QuotePricingFetched, QuotePricingExtracted, QuotePricingPriced, QuotePricingRendered,
    QuotePricingPosted, QuotePricingFailed, PipelinePythonResolved, QuotePricingDaemonPanicked,
    QuotePricingJobsIndexMigrated, QuotePricingFailureClassified, QuotePricedWritebackOutcome,
    QuotePollOutcome, QuotePricingCycleOutcome, QuotePricingJobRetried]"
  by (cases e) simp_all

lemma quote_line_event_all: "e \<in> set
   [QuotePricingMaterialEdited, QuotePricingFailureDeleted, QuotePricingOperatorAccepted,
    QuoteOperatorRefused, EmailOutboxFetched, EmailOutboxClaimed, EmailOutboxSent,
    EmailOutboxFailed, QuotePdfRerenderEnqueued, QuotePdfRerendered, QuotePdfRerenderFailed,
    QuoteLeadTimeOverridden, QuotingMachinesEmptyFallback, MarginProfileCreated,
    MarginProfileEdited, MarginProfileArchived, QuoteMarginBelowFloor, QuoteUsingGlobalMargin,
    QuoteMarginOverridden, QuoteMarginFloorOverridden, QuoteCalibrationSampleRecorded,
    QuoteCalibrationSampleSkipped, QuoteCalibrationApplied, QuoteCalibrationCoefficientShifted]"
  by (cases e) simp_all

lemma shop_event_all: "e \<in> set
   [MesAdapterEvent, StockMovementRecorded, WorkOrderCreated, WorkOrderStateChanged,
    RoutingOpStateChanged, QaInspectionCreated, QaInspectionDecided, DispatchCreated,
    DispatchShipped, AdapterAdded, AdapterUpdated, AdapterRemoved, AdapterHealthTransitioned,
    MaterialReserved, MaterialCommitted, MaterialConsumed, MaterialReleased,
    MaterialCertAttached, MaterialHeatLotAssigned, MaterialWoBlockedNoHeatLot,
    MaterialMtrUploaded, MaterialTraceabilityViewed, MachineCreated, MachineEdited,
    MachineArchived]"
  by (cases e) simp_all

lemma session_event_all: "e \<in> set
   [SnapshotCreated, SnapshotValidationFailed, SnapshotRestored, SnapshotPruned,
    EvidenceArchived, DbAutoRecovered, DapLoginInitiated, DapLoginCompleted, DapLoginFailed,
    DapLoginFallback, SessionOpened, SessionClosed, SessionCrashRecovered,
    TimestampAnchorTaken, TimestampAnchorDelayed, ServiceSessionOpened, ServiceSessionEndorsed,
    ServiceSessionClosed]"
  by (cases e) simp_all

lemma system_event_all: "e \<in> set
   [FirstProdLaunchAcknowledged, UpgradeSnapshotMismatch, IncomingInvoiceIngested,
    IncomingInvoiceStatusChanged, IncomingInvoiceSyncCycleCompleted, InvoiceRestoredFromNav,
    QuoteIntakePollCompleted, DaemonShutdownCompleted, RestoreBuyerBackfillCycleCompleted,
    RestoreFromNavRun, ExtNavPartnerManualLink, QuoteIntakePollAttempted, QuoteIntakeRowAdded,
    QuoteIntakePollFailed, NumberingTemplateChanged, TenantCreated, TenantSwitchRequested,
    TenantSwitched, TenantArchived, TenantRestored, TenantDemoSeeded, TenantNavToggled,
    TenantSellerSetupOptional, TenantSellerRegionConfigured]"
  by (cases e) simp_all

lemma procurement_event_all: "e \<in> set
   [SupplierDpasPrioritySet, SupplierExportScreened, AvlVendorAdded, AvlVendorStatusChanged,
    AvlVendorRevoked, AvlScreeningOverdue, PoBlockedByVendorStatus, PartnerCustomerTypeChanged,
    PoCreated, PoLineAdded, PoIssued, PoReceiptRecorded, PoPartiallyReceived, PoReceived,
    PoClosed, PoCancelled, PoIncomingInspectionFailed]"
  by (cases e) simp_all

lemma quality_event_all: "e \<in> set
   [NcrCreated, NcrStateChanged, NcrEscalated, NcrClosed, WoBlockedByOpenNcr,
    NcrShipmentWaiverGranted, NcrShipmentWaiverRevoked, CapaCreated, CapaApproved,
    CapaEffectivenessReviewed, CapaClosed, QcInspectionRecorded, QcInspectionPassed,
    QcInspectionFailed, QcAutoNcrCreated, QcProbeCalibrationStaleWarning,
    QcProbeIngestionFailed, QcReportDrafted, QcReportIssued, QcReportAttachedToShipment,
    QcReportRendered, QcReportShipmentBlocked, QcReportVoided]"
  by (cases e) simp_all

lemma record_event_all: "e \<in> set
   [PersonnelIdRegistered, PersonnelSignatureApplied, PersonnelAccessGranted,
    PersonnelAccessDenied, PartSerialAssigned, PartUidMarked, WoBlockedNoPartUid,
    PartTraceabilityViewed, ExportClassificationSet, ExportAccessCheck, ExportShipmentLogged,
    CuiMarkingApplied, CuiAccessEvent, IncidentCyberDetected, CadBlobKeyProvisioned,
    CadBlobRead, CadBlobLegacyPlaintextRead]"
  by (cases e) simp_all

lemma invoice_event_distinct: "distinct (map invoice_event_as_str
   [Test, InvoiceSequenceReserved, InvoiceDraftCreated, InvoiceSubmissionAttempt,
    InvoiceSubmissionResponse, InvoiceAckStatus, InvoiceRetryRequested, InvoiceMarkedAbandoned,
    InvoiceStornoIssued, InvoiceModificationIssued, InvoiceTechnicalAnnulmentRequested,
    InvoiceAnnulmentSubmissionAttempt, InvoiceAnnulmentSubmissionResponse,
    InvoiceAnnulmentAckStatus, InvoiceAnnulmentReceiverConfirmation,
    InvoiceSubmissionAttemptFailed, InvoiceCheckPerformed, InvoicePaymentRecorded,
    InvoiceEmailedSent, InvoiceStaged, InvoiceDraftDeleted, InvoicePickedUpFromQuote,
    EmailRelayQueued, EmailRelaySent, EmailRelayFailed, InvoiceLocalOnlyEmitted])"
  by code_simp

lemma invoice_event_as_str_inj: "invoice_event_as_str k = invoice_event_as_str l \<longleftrightarrow> k = l"
  using invoice_event_distinct unfolding distinct_map
  by (meson inj_on_eq_iff invoice_event_all)

lemma quote_event_distinct: "distinct (map quote_event_as_str
   [MaterialCatalogueChanged, MaterialCataloguePushed, ComplexityRulesChanged,
    ToleranceMultipliersChanged, ParametersChanged, StockAdjustmentsChanged,
    QuoteStockAlertTriggered, QuoteDealIssued, QuoteSalesOrderCreated, QuoteWorkOrderCreated,
    QuotePricingFetched, QuotePricingExtracted, QuotePricingPriced, QuotePricingRendered,
    QuotePricingPosted, QuotePricingFailed, PipelinePythonResolved, QuotePricingDaemonPanicked,
    QuotePricingJobsIndexMigrated, QuotePricingFailureClassified, QuotePricedWritebackOutcome,
    QuotePollOutcome, QuotePricingCycleOutcome, QuotePricingJobRetried])"
  by code_simp

lemma quote_event_as_str_inj: "quote_event_as_str k = quote_event_as_str l \<longleftrightarrow> k = l"
  using quote_event_distinct unfolding distinct_map
  by (meson inj_on_eq_iff quote_event_all)

lemma quote_line_event_distinct: "distinct (map quote_line_event_as_str
   [QuotePricingMaterialEdited, QuotePricingFailureDeleted, QuotePricingOperatorAccepted,
    QuoteOperatorRefused, EmailOutboxFetched, EmailOutboxClaimed, EmailOutboxSent,
    EmailOutboxFailed, QuotePdfRerenderEnqueued, QuotePdfRerendered, QuotePdfRerenderFailed,
    QuoteLeadTimeOverridden, QuotingMachinesEmptyFallback, MarginProfileCreated,
    MarginProfileEdited, MarginProfileArchived, QuoteMarginBelowFloor, QuoteUsingGlobalMargin,
    QuoteMarginOverridden, QuoteMarginFloorOverridden, QuoteCalibrationSampleRecorded,
    QuoteCalibrationSampleSkipped, QuoteCalibrationApplied, QuoteCalibrationCoefficientShifted])"
  by code_simp

lemma quote_line_event_as_str_inj: "quote_line_event_as_str k = quote_line_event_as_str l \<longleftrightarrow> k = l"
  using quote_line_event_distinct unfolding distinct_map
  by (meson inj_on_eq_iff quote_line_event_all)

lemma shop_event_distinct: "distinct (map shop_event_as_str
   [MesAdapterEvent, StockMovementRecorded, WorkOrderCreated, WorkOrderStateChanged,
    RoutingOpStateChanged, QaInspectionCreated, QaInspectionDecided, DispatchCreated,
    DispatchShipped, AdapterAdded, AdapterUpdated, AdapterRemoved, AdapterHealthTransitioned,
    MaterialReserved, MaterialCommitted, MaterialConsumed, MaterialReleased,
    MaterialCertAttached, MaterialHeatLotAssigned, MaterialWoBlockedNoHeatLot,
    MaterialMtrUploaded, MaterialTraceabilityViewed, MachineCreated, MachineEdited,
    MachineArchived])"
  by code_simp

lemma shop_event_as_str_inj: "shop_event_as_str k = shop_event_as_str l \<longleftrightarrow> k = l"
  using shop_event_distinct unfolding distinct_map
  by (meson inj_on_eq_iff shop_event_all)

lemma session_event_distinct: "distinct (map session_event_as_str
   [SnapshotCreated, SnapshotValidationFailed, SnapshotRestored, SnapshotPruned,
    EvidenceArchived, DbAutoRecovered, DapLoginInitiated, DapLoginCompleted, DapLoginFailed,
    DapLoginFallback, SessionOpened, SessionClosed, SessionCrashRecovered,
    TimestampAnchorTaken, TimestampAnchorDelayed, ServiceSessionOpened, ServiceSessionEndorsed,
    ServiceSessionClosed])"
  by code_simp

lemma session_event_as_str_inj: "session_event_as_str k = session_event_as_str l \<longleftrightarrow> k = l"
  using session_event_distinct unfolding distinct_map
  by (meson inj_on_eq_iff session_event_all)

lemma system_event_distinct: "distinct (map system_event_as_str
   [FirstProdLaunchAcknowledged, UpgradeSnapshotMismatch, IncomingInvoiceIngested,
    IncomingInvoiceStatusChanged, IncomingInvoiceSyncCycleCompleted, InvoiceRestoredFromNav,
    QuoteIntakePollCompleted, DaemonShutdownCompleted, RestoreBuyerBackfillCycleCompleted,
    RestoreFromNavRun, ExtNavPartnerManualLink, QuoteIntakePollAttempted, QuoteIntakeRowAdded,
    QuoteIntakePollFailed, NumberingTemplateChanged, TenantCreated, TenantSwitchRequested,
    TenantSwitched, TenantArchived, TenantRestored, TenantDemoSeeded, TenantNavToggled,
    TenantSellerSetupOptional, TenantSellerRegionConfigured])"
  by code_simp

lemma system_event_as_str_inj: "system_event_as_str k = system_event_as_str l \<longleftrightarrow> k = l"
  using system_event_distinct unfolding distinct_map
  by (meson inj_on_eq_iff system_event_all)

lemma procurement_event_distinct: "distinct (map procurement_event_as_str
   [SupplierDpasPrioritySet, SupplierExportScreened, AvlVendorAdded, AvlVendorStatusChanged,
    AvlVendorRevoked, AvlScreeningOverdue, PoBlockedByVendorStatus, PartnerCustomerTypeChanged,
    PoCreated, PoLineAdded, PoIssued, PoReceiptRecorded, PoPartiallyReceived, PoReceived,
    PoClosed, PoCancelled, PoIncomingInspectionFailed])"
  by code_simp

lemma procurement_event_as_str_inj: "procurement_event_as_str k = procurement_event_as_str l \<longleftrightarrow> k = l"
  using procurement_event_distinct unfolding distinct_map
  by (meson inj_on_eq_iff procurement_event_all)

lemma quality_event_distinct: "distinct (map quality_event_as_str
   [NcrCreated, NcrStateChanged, NcrEscalated, NcrClosed, WoBlockedByOpenNcr,
    NcrShipmentWaiverGranted, NcrShipmentWaiverRevoked, CapaCreated, CapaApproved,
    CapaEffectivenessReviewed, CapaClosed, QcInspectionRecorded, QcInspectionPassed,
    QcInspectionFailed, QcAutoNcrCreated, QcProbeCalibrationStaleWarning,
    QcProbeIngestionFailed, QcReportDrafted, QcReportIssued, QcReportAttachedToShipment,
    QcReportRendered, QcReportShipmentBlocked, QcReportVoided])"
  by code_simp

lemma quality_event_as_str_inj: "quality_event_as_str k = quality_event_as_str l \<longleftrightarrow> k = l"
  using quality_event_distinct unfolding distinct_map
  by (meson inj_on_eq_iff quality_event_all)

lemma record_event_distinct: "distinct (map record_event_as_str
   [PersonnelIdRegistered, PersonnelSignatureApplied, PersonnelAccessGranted,
    PersonnelAccessDenied, PartSerialAssigned, PartUidMarked, WoBlockedNoPartUid,
    PartTraceabilityViewed, ExportClassificationSet, ExportAccessCheck, ExportShipmentLogged,
    CuiMarkingApplied, CuiAccessEvent, IncidentCyberDetected, CadBlobKeyProvisioned,
    CadBlobRead, CadBlobLegacyPlaintextRead])"
  by code_simp

lemma record_event_as_str_inj: "record_event_as_str k = record_event_as_str l \<longleftrightarrow> k = l"
  using record_event_distinct unfolding distinct_map
  by (meson inj_on_eq_iff record_event_all)

text \<open>The families are told apart by what precedes the dot, the two halves of quoting by their names.\<close>

definition kind_prefix :: "string \<Rightarrow> string" where
  "kind_prefix s = takeWhile (\<lambda>c. c \<noteq> CHR ''.'') s"

definition prefix_family :: "string \<Rightarrow> nat" where
  "prefix_family p =
    (if p \<in> set [''test'', ''invoice'', ''email''] then 0
     else if p = ''quote'' then 1
     else if p \<in> set [''mes'', ''inventory'', ''material''] then 2
     else if p \<in> set [''auth'', ''audit'', ''snapshot'', ''evidence'', ''db''] then 3
     else if p \<in> set [''system'', ''tenant''] then 4
     else if p \<in> set [''po'', ''supplier'', ''partner''] then 5
     else if p \<in> set [''ncr'', ''qc'', ''qcr'', ''capa''] then 6
     else if p \<in> set [''personnel'', ''part'', ''export'', ''cad'', ''cui'', ''incident''] then 7
     else 8)"

fun kind_family :: "event_kind \<Rightarrow> nat" where
  "kind_family (InvoiceEvent e) = 0"
| "kind_family (QuoteEvent e) = 1"
| "kind_family (QuoteLineEvent e) = 1"
| "kind_family (ShopEvent e) = 2"
| "kind_family (SessionEvent e) = 3"
| "kind_family (SystemEvent e) = 4"
| "kind_family (ProcurementEvent e) = 5"
| "kind_family (QualityEvent e) = 6"
| "kind_family (RecordEvent e) = 7"

lemma invoice_event_family: "prefix_family (kind_prefix (invoice_event_as_str e)) = 0"
  by (cases e) (simp_all add: kind_prefix_def prefix_family_def)

lemma quote_event_family: "prefix_family (kind_prefix (quote_event_as_str e)) = 1"
  by (cases e) (simp_all add: kind_prefix_def prefix_family_def)

lemma quote_line_event_family: "prefix_family (kind_prefix (quote_line_event_as_str e)) = 1"
  by (cases e) (simp_all add: kind_prefix_def prefix_family_def)

lemma shop_event_family: "prefix_family (kind_prefix (shop_event_as_str e)) = 2"
  by (cases e) (simp_all add: kind_prefix_def prefix_family_def)

lemma session_event_family: "prefix_family (kind_prefix (session_event_as_str e)) = 3"
  by (cases e) (simp_all add: kind_prefix_def prefix_family_def)

lemma system_event_family: "prefix_family (kind_prefix (system_event_as_str e)) = 4"
  by (cases e) (simp_all add: kind_prefix_def prefix_family_def)

lemma procurement_event_family: "prefix_family (kind_prefix (procurement_event_as_str e)) = 5"
  by (cases e) (simp_all add: kind_prefix_def prefix_family_def)

lemma quality_event_family: "prefix_family (kind_prefix (quality_event_as_str e)) = 6"
  by (cases e) (simp_all add: kind_prefix_def prefix_family_def)

lemma record_event_family: "prefix_family (kind_prefix (record_event_as_str e)) = 7"
  by (cases e) (simp_all add: kind_prefix_def prefix_family_def)

lemma quote_halves_distinct:
  "list_all (\<lambda>s. list_all (\<lambda>t. s \<noteq> t) (map quote_line_event_as_str
   [QuotePricingMaterialEdited, QuotePricingFailureDeleted, QuotePricingOperatorAccepted,
    QuoteOperatorRefused, EmailOutboxFetched, EmailOutboxClaimed, EmailOutboxSent,
    EmailOutboxFailed, QuotePdfRerenderEnqueued, QuotePdfRerendered, QuotePdfRerenderFailed,
    QuoteLeadTimeOverridden, QuotingMachinesEmptyFallback, MarginProfileCreated,
    MarginProfileEdited, MarginProfileArchived, QuoteMarginBelowFloor, QuoteUsingGlobalMargin,
    QuoteMarginOverridden, QuoteMarginFloorOverridden, QuoteCalibrationSampleRecorded,
    QuoteCalibrationSampleSkipped, QuoteCalibrationApplied, QuoteCalibrationCoefficientShifted]))
   (map quote_event_as_str
   [MaterialCatalogueChanged, MaterialCataloguePushed, ComplexityRulesChanged,
    ToleranceMultipliersChanged, ParametersChanged, StockAdjustmentsChanged,
    QuoteStockAlertTriggered, QuoteDealIssued, QuoteSalesOrderCreated, QuoteWorkOrderCreated,
    QuotePricingFetched, QuotePricingExtracted, QuotePricingPriced, QuotePricingRendered,
    QuotePricingPosted, QuotePricingFailed, PipelinePythonResolved, QuotePricingDaemonPanicked,
    QuotePricingJobsIndexMigrated, QuotePricingFailureClassified, QuotePricedWritebackOutcome,
    QuotePollOutcome, QuotePricingCycleOutcome, QuotePricingJobRetried])"
  by simp

lemma quote_halves_apart: "quote_event_as_str k \<noteq> quote_line_event_as_str l"
proof -
  note all = quote_halves_distinct [unfolded list_all_iff set_map]
  show ?thesis
    by (rule bspec [OF bspec [OF all imageI [OF quote_event_all]] imageI [OF quote_line_event_all]])
qed

lemma event_kind_as_str_inj: "event_kind_as_str k = event_kind_as_str l \<Longrightarrow> k = l"
proof -
  assume eq: "event_kind_as_str k = event_kind_as_str l"
  have "prefix_family (kind_prefix (event_kind_as_str k)) = kind_family k" for k
    by (cases k) (simp_all add: invoice_event_family quote_event_family quote_line_event_family shop_event_family session_event_family system_event_family procurement_event_family quality_event_family record_event_family)
  from this [of k] this [of l] eq have "kind_family k = kind_family l" by simp
  then show ?thesis
    using eq quote_halves_apart quote_halves_apart [symmetric]
    by (cases k; cases l)
      (simp_all add:
        invoice_event_as_str_inj quote_event_as_str_inj quote_line_event_as_str_inj
        shop_event_as_str_inj session_event_as_str_inj system_event_as_str_inj
        procurement_event_as_str_inj quality_event_as_str_inj record_event_as_str_inj)
qed

lemma event_kinds_complete: "k \<in> set event_kinds"
proof (cases k)
  case (InvoiceEvent e)
  have "InvoiceEvent e \<in> set (filter (\<lambda>k. case k of InvoiceEvent e \<Rightarrow> True | _ \<Rightarrow> False) event_kinds)"
    unfolding invoice_event_kinds set_map by (rule imageI) (rule invoice_event_all)
  then show ?thesis by (simp add: InvoiceEvent)
next
  case (QuoteEvent e)
  have "QuoteEvent e \<in> set (filter (\<lambda>k. case k of QuoteEvent e \<Rightarrow> True | _ \<Rightarrow> False) event_kinds)"
    unfolding quote_event_kinds set_map by (rule imageI) (rule quote_event_all)
  then show ?thesis by (simp add: QuoteEvent)
next
  case (QuoteLineEvent e)
  have "QuoteLineEvent e \<in> set (filter (\<lambda>k. case k of QuoteLineEvent e \<Rightarrow> True | _ \<Rightarrow> False) event_kinds)"
    unfolding quote_line_event_kinds set_map by (rule imageI) (rule quote_line_event_all)
  then show ?thesis by (simp add: QuoteLineEvent)
next
  case (ShopEvent e)
  have "ShopEvent e \<in> set (filter (\<lambda>k. case k of ShopEvent e \<Rightarrow> True | _ \<Rightarrow> False) event_kinds)"
    unfolding shop_event_kinds set_map by (rule imageI) (rule shop_event_all)
  then show ?thesis by (simp add: ShopEvent)
next
  case (SessionEvent e)
  have "SessionEvent e \<in> set (filter (\<lambda>k. case k of SessionEvent e \<Rightarrow> True | _ \<Rightarrow> False) event_kinds)"
    unfolding session_event_kinds set_map by (rule imageI) (rule session_event_all)
  then show ?thesis by (simp add: SessionEvent)
next
  case (SystemEvent e)
  have "SystemEvent e \<in> set (filter (\<lambda>k. case k of SystemEvent e \<Rightarrow> True | _ \<Rightarrow> False) event_kinds)"
    unfolding system_event_kinds set_map by (rule imageI) (rule system_event_all)
  then show ?thesis by (simp add: SystemEvent)
next
  case (ProcurementEvent e)
  have "ProcurementEvent e \<in> set (filter (\<lambda>k. case k of ProcurementEvent e \<Rightarrow> True | _ \<Rightarrow> False) event_kinds)"
    unfolding procurement_event_kinds set_map by (rule imageI) (rule procurement_event_all)
  then show ?thesis by (simp add: ProcurementEvent)
next
  case (QualityEvent e)
  have "QualityEvent e \<in> set (filter (\<lambda>k. case k of QualityEvent e \<Rightarrow> True | _ \<Rightarrow> False) event_kinds)"
    unfolding quality_event_kinds set_map by (rule imageI) (rule quality_event_all)
  then show ?thesis by (simp add: QualityEvent)
next
  case (RecordEvent e)
  have "RecordEvent e \<in> set (filter (\<lambda>k. case k of RecordEvent e \<Rightarrow> True | _ \<Rightarrow> False) event_kinds)"
    unfolding record_event_kinds set_map by (rule imageI) (rule record_event_all)
  then show ?thesis by (simp add: RecordEvent)
qed

lemma event_kind_table_iff: "(s, k) \<in> set event_kind_table \<longleftrightarrow> s = event_kind_as_str k"
  by (auto simp: event_kind_table_eq event_kinds_complete)

lemma event_kind_from_as: "event_kind_from_storage_str (event_kind_as_str k) = Inr k"
proof -
  obtain k' where k': "map_of event_kind_table (event_kind_as_str k) = Some k'"
    using weak_map_of_SomeI [of "event_kind_as_str k" k event_kind_table]
    by (auto simp: event_kind_table_iff)
  have "event_kind_as_str k = event_kind_as_str k'"
    using map_of_SomeD [OF k'] by (simp only: event_kind_table_iff)
  then show ?thesis
    using k' event_kind_as_str_inj [of k k'] by (simp add: event_kind_from_storage_str_def)
qed

lemma event_kind_from_iff: "event_kind_from_storage_str s = Inr k \<longleftrightarrow> s = event_kind_as_str k"
proof
  assume "event_kind_from_storage_str s = Inr k"
  then have "map_of event_kind_table s = Some k" by (simp only: event_kind_from_storage_str_def ok_or_eq_Inr)
  from map_of_SomeD [OF this] show "s = event_kind_as_str k" by (simp only: event_kind_table_iff)
next
  assume "s = event_kind_as_str k"
  then show "event_kind_from_storage_str s = Inr k" by (simp only: event_kind_from_as)
qed

interpretation kind_codec: storage_codec event_kind_as_str event_kind_from_storage_str
  by unfold_locales (simp_all add: event_kind_from_iff)

end
