(* ===== verification/Audit_Entry.thy ===== *)
theory Audit_Entry
  imports Event_Kind
begin

text \<open>
  The audit-ledger entry (crates/audit-ledger/src/entry, canonical.rs): identifiers,
  actor, the entry record, the canonical CBOR value that is hashed, and the
  record \<open>ledger_env\<close> of the third-party functions the ledger calls (SHA-256, the CBOR
  writer, ULID, RFC 3339, JSON, hex, base64, Ed25519), with \<open>env_ok\<close>, the documented
  laws of those functions.
\<close>

section \<open>Identifiers\<close>

type_synonym hash32 = "byte list"

definition seq_first :: u64 where "seq_first = 1"

definition sequence_new :: "u64 \<Rightarrow> u64 option" where
  "sequence_new v = (if 1 \<le> v then Some v else None)"

definition seq_next :: "u64 \<Rightarrow> u64 option" where
  \<comment> \<open>\<open>checked_add(1).expect(..)\<close>: None is the panic\<close>
  "seq_next s = (if s = - 1 then None else Some (s + 1))"

definition tenant_new :: "string \<Rightarrow> string option" where
  "tenant_new s = (if s = [] \<or> CHR 0x00 \<in> set s then None else Some s)"

record actor =
  actor_session_id :: string
  actor_user_id :: string
  capabilities :: "string list" \<comment> \<open>a \<open>BTreeSet\<close>: strictly ascending\<close>

definition btree_set :: "string list \<Rightarrow> string list" where
  "btree_set xs = sorted_list_of_set (set xs)"

definition actor_from_local_cli :: "string \<Rightarrow> string \<Rightarrow> actor" where
  "actor_from_local_cli sid login =
     \<lparr>actor_session_id = sid, actor_user_id = login,
      capabilities = btree_set [''audit.append'', ''billing.issue_invoice'']\<rparr>"

lemma actor_capabilities_ordered:
  "sorted (capabilities (actor_from_local_cli sid login)) \<and>
   distinct (capabilities (actor_from_local_cli sid login))"
  by (simp add: actor_from_local_cli_def btree_set_def)

section \<open>Entries\<close>

record entry =
  eid :: nat \<comment> \<open>the 128-bit ULID\<close>
  seq :: u64
  prev_hash :: hash32
  time_wall :: int \<comment> \<open>nanoseconds since the epoch, UTC\<close>
  time_mono :: u64
  actor :: actor
  binary_hash :: hash32
  tenant_id :: string
  kind :: event_kind
  payload :: "byte list"
  idempotency_key :: "string option"
  entry_hash :: hash32
  session_id :: "string option"
  session_pubkey :: "string option"
  event_sig :: "string option"

text \<open>The values \<open>ciborium::Value\<close> that the encoder builds.\<close>

datatype cbor_value =
    CNull
  | CInteger nat
  | CBytes "byte list"
  | CText string
  | CArray "cbor_value list"
  | CMap "(cbor_value \<times> cbor_value) list"

record ledger_env =
  sha256 :: "byte list \<Rightarrow> hash32"
  cbor_writer :: "cbor_value \<Rightarrow> byte list"
  rfc3339_format :: "int \<Rightarrow> string"
  rfc3339_parse :: "string \<Rightarrow> int option"
  ulid_to_string :: "nat \<Rightarrow> string"
  ulid_from_string :: "string \<Rightarrow> nat option"
  actor_to_json :: "actor \<Rightarrow> string"
  actor_from_json :: "string \<Rightarrow> actor option"
  hex_encode :: "byte list \<Rightarrow> string"
  hex_decode :: "string \<Rightarrow> byte list option"
  base64_encode :: "byte list \<Rightarrow> string"
  base64_decode :: "string \<Rightarrow> byte list option"
  ed25519_sign :: "nat \<Rightarrow> byte list \<Rightarrow> byte list"
  ed25519_pubkey_hex :: "nat \<Rightarrow> string"
  ed25519_verify_hex :: "string \<Rightarrow> byte list \<Rightarrow> string \<Rightarrow> bool"

text \<open>
  What the ledger relies on: a 32-byte digest, parsers that invert their printers, and
  signatures that verify under the key that made them.
\<close>

definition env_ok :: "ledger_env \<Rightarrow> bool" where
  "env_ok env \<longleftrightarrow>
     (\<forall>bs. length (sha256 env bs) = 32) \<and>
     (\<forall>t. rfc3339_parse env (rfc3339_format env t) = Some t) \<and>
     (\<forall>u. ulid_from_string env (ulid_to_string env u) = Some u) \<and>
     (\<forall>a. actor_from_json env (actor_to_json env a) = Some a) \<and>
     (\<forall>bs. hex_decode env (hex_encode env bs) = Some bs) \<and>
     (\<forall>bs. base64_decode env (base64_encode env bs) = Some bs) \<and>
     (\<forall>k msg. ed25519_verify_hex env (ed25519_pubkey_hex env k) msg
                (hex_encode env (ed25519_sign env k msg)))"

definition cbor_faithful :: "ledger_env \<Rightarrow> bool" where
  \<comment> \<open>CBOR is decodable: distinct values have distinct encodings\<close>
  "cbor_faithful env \<longleftrightarrow> inj (cbor_writer env)"

lemma env_ok_simps:
  assumes "env_ok env"
  shows "length (sha256 env bs) = 32"
    and "rfc3339_parse env (rfc3339_format env t) = Some t"
    and "ulid_from_string env (ulid_to_string env u) = Some u"
    and "actor_from_json env (actor_to_json env a) = Some a"
    and "hex_decode env (hex_encode env bs) = Some bs"
    and "base64_decode env (base64_encode env bs) = Some bs"
    and "ed25519_verify_hex env (ed25519_pubkey_hex env k) msg
           (hex_encode env (ed25519_sign env k msg))"
  using assms by (auto simp: env_ok_def)

lemma hex_encode_inject: "env_ok env \<Longrightarrow> hex_encode env a = hex_encode env b \<longleftrightarrow> a = b"
  by (metis env_ok_simps(5) option.inject)

lemma rfc3339_inject: "env_ok env \<Longrightarrow> rfc3339_format env a = rfc3339_format env b \<longleftrightarrow> a = b"
  by (metis env_ok_simps(2) option.inject)

lemma ulid_inject: "env_ok env \<Longrightarrow> ulid_to_string env a = ulid_to_string env b \<longleftrightarrow> a = b"
  by (metis env_ok_simps(3) option.inject)

definition entry_id_prefixed :: "ledger_env \<Rightarrow> nat \<Rightarrow> string" where
  "entry_id_prefixed env u = ''aud_'' @ ulid_to_string env u"

section \<open>The canonical encoding\<close>

definition encode_actor :: "actor \<Rightarrow> cbor_value" where
  "encode_actor a =
     CMap [(CText ''user_id'', CText (actor_user_id a)),
           (CText ''session_id'', CText (actor_session_id a)),
           (CText ''capabilities'', CArray (map CText (capabilities a)))]"

definition canonical_value :: "ledger_env \<Rightarrow> entry \<Rightarrow> cbor_value" where
  "canonical_value env e =
     CMap
      [(CText ''id'', CText (entry_id_prefixed env (eid e))),
       (CText ''seq'', CInteger (unat (seq e))),
       (CText ''kind'', CText (event_kind_as_str (kind e))),
       (CText ''actor'', encode_actor (actor e)),
       (CText ''payload'', CBytes (payload e)),
       (CText ''prev_hash'', CBytes (prev_hash e)),
       (CText ''tenant_id'', CText (tenant_id e)),
       (CText ''time_mono'', CInteger (unat (time_mono e))),
       (CText ''time_wall'', CText (rfc3339_format env (time_wall e))),
       (CText ''binary_hash'', CBytes (binary_hash e)),
       (CText ''idempotency_key'',
          (case idempotency_key e of Some s \<Rightarrow> CText s | None \<Rightarrow> CNull))]"

definition canonical_bytes_for_hashing :: "ledger_env \<Rightarrow> entry \<Rightarrow> byte list" where
  "canonical_bytes_for_hashing env e = cbor_writer env (canonical_value env e)"

text \<open>The fields the hash covers: everything but the hash itself and the session columns.\<close>

definition same_hashed_fields :: "entry \<Rightarrow> entry \<Rightarrow> bool" where
  "same_hashed_fields a b \<longleftrightarrow>
     a\<lparr>entry_hash := [], session_id := None, session_pubkey := None, event_sig := None\<rparr> =
     b\<lparr>entry_hash := [], session_id := None, session_pubkey := None, event_sig := None\<rparr>"

lemma map_CText_inject: "map CText xs = map CText ys \<longleftrightarrow> xs = ys"
  by (simp add: inj_map_eq_map inj_def)

lemma encode_actor_inject: "encode_actor a = encode_actor b \<longleftrightarrow> a = b"
  by (cases a; cases b) (auto simp: encode_actor_def map_CText_inject)

lemma canonical_value_inject:
  assumes "env_ok env" and "canonical_value env a = canonical_value env b"
  shows "same_hashed_fields a b"
proof -
  have key: "idempotency_key a = idempotency_key b"
    using assms(2) by (auto simp: canonical_value_def split: option.splits)
  show ?thesis using assms key
    by (cases a; cases b)
       (auto simp: same_hashed_fields_def canonical_value_def entry_id_prefixed_def
          encode_actor_inject kind_codec.as_str_inject rfc3339_inject ulid_inject
          unat_inject entry.defs)
qed

lemma canonical_value_cong:
  "same_hashed_fields a b \<Longrightarrow> canonical_value env a = canonical_value env b"
  by (cases a; cases b) (auto simp: same_hashed_fields_def canonical_value_def entry.defs)

text \<open>Keys are ordered by length, then bytewise (RFC 8949, section 4.2.1).\<close>

definition cbor_key_less :: "string \<Rightarrow> string \<Rightarrow> bool" where
  "cbor_key_less a b \<longleftrightarrow> length a < length b \<or> (length a = length b \<and> a < b)"

fun cbor_key :: "cbor_value \<Rightarrow> string" where
  "cbor_key (CText s) = s"
| "cbor_key _ = []"

fun map_keys :: "cbor_value \<Rightarrow> string list" where
  "map_keys (CMap kvs) = map (cbor_key \<circ> fst) kvs"
| "map_keys _ = []"

lemma canonical_keys_ordered:
  "sorted_wrt cbor_key_less (map_keys (canonical_value env e)) \<and>
   sorted_wrt cbor_key_less (map_keys (encode_actor a))"
  by (simp add: canonical_value_def encode_actor_def cbor_key_less_def)

end
