(* ===== verification/Audit_Chain.thy ===== *)
theory Audit_Chain
  imports Audit_Entry
begin

text \<open>
  The hash chain (crates/audit-ledger/src/chain: genesis.rs, compute.rs, verify.rs):
  the genesis hash of a tenant, the hash of an entry, the head-derived fields of the next
  entry, and \<open>verify_chain\<close>, whose loop carries the expected sequence number and
  previous hash. \<open>chained\<close> is the abstract specification the loop decides.
\<close>

section \<open>Definitions\<close>

definition genesis_magic :: "byte list" where
  "genesis_magic = bytes_of ''aberp-audit-ledger-v1-genesis'' @ [0]"

definition genesis_hash :: "ledger_env \<Rightarrow> string \<Rightarrow> hash32" where
  "genesis_hash env tenant = sha256 env (genesis_magic @ bytes_of tenant)"

definition compute_entry_hash :: "ledger_env \<Rightarrow> entry \<Rightarrow> hash32" where
  "compute_entry_hash env e = sha256 env (canonical_bytes_for_hashing env e)"

definition next_prev_hash :: "ledger_env \<Rightarrow> string \<Rightarrow> entry option \<Rightarrow> hash32" where
  "next_prev_hash env tenant head =
     (case head of None \<Rightarrow> genesis_hash env tenant | Some e \<Rightarrow> entry_hash e)"

definition next_seq :: "entry option \<Rightarrow> u64 option" where
  \<comment> \<open>None is the overflow panic\<close>
  "next_seq head = (case head of None \<Rightarrow> Some seq_first | Some e \<Rightarrow> seq_next (seq e))"

datatype verify_error =
    OutOfOrder u64 u64 \<comment> \<open>expected, found\<close>
  | ChainBroken u64
  | TamperedAt u64
  | SignatureInvalid u64
  | SignatureMissingInSignedSession u64
  | AnchorTampered string
  | SequenceOverflowPanic

fun verify_loop :: "ledger_env \<Rightarrow> u64 \<Rightarrow> hash32 \<Rightarrow> nat \<Rightarrow> entry list \<Rightarrow> verify_error + nat" where
  "verify_loop env expected prev cnt [] = Inr cnt"
| "verify_loop env expected prev cnt (e # es) =
     (if seq e \<noteq> expected then Inl (OutOfOrder expected (seq e))
      else if prev_hash e \<noteq> prev then Inl (ChainBroken (seq e))
      else if compute_entry_hash env e \<noteq> entry_hash e then Inl (TamperedAt (seq e))
      else case seq_next expected of
             None \<Rightarrow> Inl SequenceOverflowPanic
           | Some expected' \<Rightarrow> verify_loop env expected' (entry_hash e) (cnt + 1) es)"

definition verify_chain :: "ledger_env \<Rightarrow> string \<Rightarrow> entry list \<Rightarrow> verify_error + nat" where
  "verify_chain env tenant es = verify_loop env 1 (genesis_hash env tenant) 0 es"

section \<open>The specification\<close>

fun chained :: "ledger_env \<Rightarrow> nat \<Rightarrow> hash32 \<Rightarrow> entry list \<Rightarrow> bool" where
  "chained env n prev [] = True"
| "chained env n prev (e # es) =
     (seq e = of_nat n \<and> prev_hash e = prev \<and> compute_entry_hash env e = entry_hash e \<and>
      chained env (Suc n) (entry_hash e) es)"

definition chain_valid :: "ledger_env \<Rightarrow> string \<Rightarrow> entry list \<Rightarrow> bool" where
  "chain_valid env tenant es \<longleftrightarrow>
     chained env 1 (genesis_hash env tenant) es \<and> length es < 2 ^ 64 - 1"

definition head_hash :: "hash32 \<Rightarrow> entry list \<Rightarrow> hash32" where
  "head_hash prev es = (if es = [] then prev else entry_hash (last es))"

lemma seq_next_of_nat:
  "Suc n < 2 ^ 64 \<Longrightarrow> seq_next (of_nat n) = Some (of_nat (Suc n))"
proof -
  assume n: "Suc n < 2 ^ 64"
  have "(of_nat n :: u64) \<noteq> - 1"
  proof
    assume "(of_nat n :: u64) = - 1"
    then have "unat (of_nat n :: u64) = unat (- 1 :: u64)" by simp
    then have "n = 2 ^ 64 - 1"
      using n by (simp add: unat_of_nat64 unsigned_minus_1_eq_mask mask_eq_exp_minus_1)
    with n show False by simp
  qed
  then show ?thesis by (simp add: seq_next_def add.commute)
qed

lemma seq_next_max: "seq_next (of_nat (2 ^ 64 - 1)) = None"
  by (simp add: seq_next_def)

lemma verify_loop_iff:
  assumes "n + length es < 2 ^ 64"
  shows "verify_loop env (of_nat n) prev c es = Inr m \<longleftrightarrow>
         chained env n prev es \<and> m = c + length es"
  using assms
proof (induction es arbitrary: n prev c)
  case Nil
  then show ?case by auto
next
  case (Cons e es)
  have step: "seq_next (of_nat n) = Some (of_nat (Suc n))"
    using Cons.prems by (intro seq_next_of_nat) simp
  have IH: "verify_loop env (of_nat (Suc n)) (entry_hash e) (c + 1) es = Inr m \<longleftrightarrow>
      chained env (Suc n) (entry_hash e) es \<and> m = c + 1 + length es"
    using Cons.prems by (intro Cons.IH) simp
  show ?case using IH step by auto
qed

lemma verify_chain_iff:
  assumes "length es < 2 ^ 64 - 1"
  shows "verify_chain env tenant es = Inr m \<longleftrightarrow> chain_valid env tenant es \<and> m = length es"
  using verify_loop_iff [of 1 es env "genesis_hash env tenant" 0 m] assms
  by (simp add: verify_chain_def chain_valid_def)

lemma chained_append:
  "chained env n prev (es @ fs) \<longleftrightarrow>
   chained env n prev es \<and> chained env (n + length es) (head_hash prev es) fs"
  by (induction es arbitrary: n prev) (auto simp: head_hash_def)

lemma chain_valid_prefix: "chain_valid env tenant (es @ fs) \<Longrightarrow> chain_valid env tenant es"
  by (simp add: chain_valid_def chained_append)

lemma chained_nth:
  assumes "chained env n prev es" and "i < length es"
  shows "seq (es ! i) = of_nat (n + i)"
    and "prev_hash (es ! i) = head_hash prev (take i es)"
    and "compute_entry_hash env (es ! i) = entry_hash (es ! i)"
proof -
  have "chained env n prev (take i es @ es ! i # drop (Suc i) es)"
    using assms by (simp flip: id_take_nth_drop)
  then have *: "chained env (n + i) (head_hash prev (take i es)) (es ! i # drop (Suc i) es)"
    using assms(2) by (simp only: chained_append) simp
  then show "seq (es ! i) = of_nat (n + i)"
    and "prev_hash (es ! i) = head_hash prev (take i es)"
    and "compute_entry_hash env (es ! i) = entry_hash (es ! i)"
    by simp_all
qed

lemma chained_seqs:
  "chained env n prev es \<Longrightarrow> map seq es = map (\<lambda>i. of_nat (n + i)) [0..<length es]"
  by (rule nth_equalityI) (simp_all add: chained_nth(1))

text \<open>A next entry built from the head extends a valid chain.\<close>

lemma chained_snoc:
  "chained env n prev (es @ [e]) \<longleftrightarrow>
   chained env n prev es \<and> seq e = of_nat (n + length es) \<and>
   prev_hash e = head_hash prev es \<and> compute_entry_hash env e = entry_hash e"
  by (simp add: chained_append)

lemma compute_entry_hash_cong:
  "same_hashed_fields a b \<Longrightarrow> compute_entry_hash env a = compute_entry_hash env b"
  by (simp add: compute_entry_hash_def canonical_bytes_for_hashing_def canonical_value_cong)

section \<open>Tamper evidence\<close>

text \<open>
  \<open>collides env a b\<close>: the canonical encodings of two entries are different and have
  the same digest, an explicit SHA-256 collision found inside the two chains. (That some
  collision exists is true of every 32-byte digest and would say nothing.)
\<close>

definition collides :: "ledger_env \<Rightarrow> entry \<Rightarrow> entry \<Rightarrow> bool" where
  "collides env a b \<longleftrightarrow>
     canonical_bytes_for_hashing env a \<noteq> canonical_bytes_for_hashing env b \<and>
     sha256 env (canonical_bytes_for_hashing env a) = sha256 env (canonical_bytes_for_hashing env b)"

lemma equal_hash_same_fields:
  assumes "env_ok env" "cbor_faithful env"
    and "compute_entry_hash env a = compute_entry_hash env b" and "\<not> collides env a b"
  shows "same_hashed_fields a b"
proof -
  have "canonical_bytes_for_hashing env a = canonical_bytes_for_hashing env b"
    using assms(3,4) by (auto simp: collides_def compute_entry_hash_def)
  then have "canonical_value env a = canonical_value env b"
    using assms(2) by (simp add: canonical_bytes_for_hashing_def cbor_faithful_def inj_eq)
  then show ?thesis using canonical_value_inject assms(1) by blast
qed

lemma same_hashed_fields_prev: "same_hashed_fields a b \<Longrightarrow> prev_hash a = prev_hash b"
  by (cases a; cases b) (simp add: same_hashed_fields_def entry.defs)

lemma chained_same_head:
  assumes "env_ok env" "cbor_faithful env"
    and "chained env n prev es" "chained env n prev fs"
    and "length es = length fs" and "head_hash prev es = head_hash prev fs"
    and "\<forall>i < length es. \<not> collides env (es ! i) (fs ! i)"
  shows "list_all2 same_hashed_fields es fs"
  using assms(3-)
proof (induction es arbitrary: fs rule: rev_induct)
  case Nil
  then show ?case by simp
next
  case (snoc a es)
  then obtain b gs where fs: "fs = gs @ [b]" by (cases fs rule: rev_cases) auto
  have len: "length es = length gs" using snoc.prems(3) fs by simp
  have heads: "entry_hash a = entry_hash b" using snoc.prems(4) fs by (simp add: head_hash_def)
  then have hash: "compute_entry_hash env a = compute_entry_hash env b"
    using snoc.prems(1,2) fs by (simp add: chained_snoc)
  have "\<not> collides env a b"
    using snoc.prems(5) [rule_format, of "length es"] fs len by (simp add: nth_append)
  with hash have same: "same_hashed_fields a b"
    by (rule equal_hash_same_fields [OF assms(1,2)])
  have "head_hash prev es = head_hash prev gs"
    using snoc.prems(1,2) fs same_hashed_fields_prev [OF same] by (simp add: chained_snoc)
  moreover have "\<not> collides env (es ! i) (gs ! i)" if "i < length es" for i
    using snoc.prems(5) [rule_format, of i] that fs len by (simp add: nth_append)
  ultimately have "list_all2 same_hashed_fields es gs"
    using snoc.prems fs len by (intro snoc.IH) (simp_all add: chained_snoc)
  then show ?case using same fs by (simp add: list_all2_appendI)
qed

text \<open>The position of the first inconsistency is what the verifier reports.\<close>

lemma verify_loop_append:
  assumes "chained env n prev es" and "n + length es < 2 ^ 64"
  shows "verify_loop env (of_nat n) prev c (es @ fs) =
         verify_loop env (of_nat (n + length es)) (head_hash prev es) (c + length es) fs"
  using assms
proof (induction es arbitrary: n prev c)
  case Nil
  then show ?case by (simp add: head_hash_def)
next
  case (Cons e es)
  have step: "seq_next (of_nat n) = Some (of_nat (Suc n))"
    using Cons.prems by (intro seq_next_of_nat) simp
  have "verify_loop env (of_nat (Suc n)) (entry_hash e) (c + 1) (es @ fs) =
      verify_loop env (of_nat (Suc n + length es)) (head_hash (entry_hash e) es)
        (c + 1 + length es) fs"
    using Cons.prems by (intro Cons.IH) auto
  then show ?case using Cons.prems step by (auto simp: head_hash_def)
qed

end
