(* ===== verification/Audit_Storage.thy ===== *)
theory Audit_Storage
  imports Audit_Chain
begin

text \<open>
  The ledger table (crates/audit-ledger/src/storage/mod.rs and schema.rs). A
  \<open>ledger_row\<close> is a stored row: text and blob columns, the sequence number as the
  64-bit pattern of a BIGINT. Rows are decoded by \<open>row_to_entry\<close>, written verbatim by
  \<open>insert_entry_verbatim\<close>, and appended by \<open>append_in_tx_signed\<close>, which
  derives the next entry from the head row. The invariant \<open>ledger_rep\<close> says that the
  table holds exactly the stored form of a valid chain. The migration off the UNIQUE schema
  is modelled with its verification gates. The locale \<open>audit_sink\<close> is what the other
  components rely on.
\<close>

section \<open>Rows and errors\<close>

record ledger_row =
  r_id :: string
  r_seq :: u64
  r_prev_hash :: "byte list"
  r_time_wall :: string
  r_time_mono :: u64
  r_actor :: string
  r_binary_hash :: "byte list"
  r_tenant_id :: string
  r_kind :: string
  r_payload :: "byte list"
  r_idempotency_key :: "string option"
  r_entry_hash :: "byte list"
  r_session_id :: "string option"
  r_session_pubkey :: "string option"
  r_event_sig :: "string option"

datatype append_error =
    AStorage string
  | ASequenceConflict u64
  | AMigration verify_error
  | AMirrorCorrupt string
  | AMirrorDivergent u64
  | AMirrorIoNotFound
  | AMirrorIo string
  | AMirrorAheadOfDb u64 u64 string \<comment> \<open>mirror head, database head, preserved copy\<close>
  | AMirrorDivergedFromDb u64 u64 u64 string
  | AMirrorLockTimeout
  | AMirrorCorruptPreserved string string \<comment> \<open>preserved copy, reason\<close>
  | ATsa string
  | ASequencePanic

definition row_of_entry :: "ledger_env \<Rightarrow> entry \<Rightarrow> ledger_row" where
  "row_of_entry env e =
     \<lparr>r_id = entry_id_prefixed env (eid e),
      r_seq = seq e,
      r_prev_hash = prev_hash e,
      r_time_wall = rfc3339_format env (time_wall e),
      r_time_mono = time_mono e,
      r_actor = actor_to_json env (actor e),
      r_binary_hash = binary_hash e,
      r_tenant_id = tenant_id e,
      r_kind = event_kind_as_str (kind e),
      r_payload = payload e,
      r_idempotency_key = idempotency_key e,
      r_entry_hash = entry_hash e,
      r_session_id = session_id e,
      r_session_pubkey = session_pubkey e,
      r_event_sig = event_sig e\<rparr>"

definition insert_entry_verbatim ::
  "ledger_env \<Rightarrow> ledger_row list \<Rightarrow> entry \<Rightarrow> append_error + ledger_row list" where
  \<comment> \<open>an INSERT of one VALUES row affects one row, so the conflict branch does not arise\<close>
  "insert_entry_verbatim env rows e = Inr (rows @ [row_of_entry env e])"

definition to_hash32 :: "byte list \<Rightarrow> append_error + hash32" where
  "to_hash32 blob = (if length blob \<noteq> 32 then Inl (AStorage ''blob length'') else Inr blob)"

definition row_to_entry :: "ledger_env \<Rightarrow> ledger_row \<Rightarrow> append_error + entry" where
  "row_to_entry env r =
     and_then (ok_or (AStorage ''entry id missing aud_ prefix'') (strip_prefix ''aud_'' (r_id r)))
       (\<lambda>id_str.
     and_then (ok_or (AStorage ''entry id is not a valid ULID'') (ulid_from_string env id_str))
       (\<lambda>ulid.
     and_then (to_hash32 (r_prev_hash r)) (\<lambda>prev.
     and_then (to_hash32 (r_binary_hash r)) (\<lambda>bin.
     and_then (to_hash32 (r_entry_hash r)) (\<lambda>eh.
     and_then (ok_or (AStorage ''tenant_id is empty or contains a null byte'')
                 (tenant_new (r_tenant_id r))) (\<lambda>tenant.
     and_then (ok_or (AStorage ''time_wall is not RFC3339'')
                 (rfc3339_parse env (r_time_wall r))) (\<lambda>wall.
     and_then (ok_or (AStorage ''actor JSON failed to deserialize'')
                 (actor_from_json env (r_actor r))) (\<lambda>act.
     and_then (map_err AStorage (event_kind_from_storage_str (r_kind r))) (\<lambda>k.
     Inr \<lparr>eid = ulid, seq = r_seq r, prev_hash = prev, time_wall = wall,
          time_mono = r_time_mono r, actor = act, binary_hash = bin, tenant_id = tenant,
          kind = k, payload = r_payload r, idempotency_key = r_idempotency_key r,
          entry_hash = eh, session_id = r_session_id r,
          session_pubkey = r_session_pubkey r, event_sig = r_event_sig r\<rparr>)))))))))"

section \<open>Queries\<close>

text \<open>
  \<open>ORDER BY seq ASC\<close> compares the signed BIGINT. Rows with equal keys keep their
  insertion order here; the database leaves their order open, and the invariant below has
  none.
\<close>

definition order_by_seq :: "ledger_row list \<Rightarrow> ledger_row list" where
  "order_by_seq rows = sort_key (\<lambda>r. sint (r_seq r)) rows"

definition select_head :: "ledger_row list \<Rightarrow> ledger_row option" where
  "select_head rows = (case rev (order_by_seq rows) of [] \<Rightarrow> None | r # _ \<Rightarrow> Some r)"

definition read_head :: "ledger_env \<Rightarrow> ledger_row list \<Rightarrow> append_error + entry option" where
  "read_head env rows =
     (case select_head rows of
        None \<Rightarrow> Inr None
      | Some r \<Rightarrow> and_then (row_to_entry env r) (\<lambda>e. Inr (Some e)))"

definition read_all_entries :: "ledger_env \<Rightarrow> ledger_row list \<Rightarrow> append_error + entry list" where
  "read_all_entries env rows = collect_res (map (row_to_entry env) (order_by_seq rows))"

definition recent_entries ::
  "ledger_env \<Rightarrow> ledger_row list \<Rightarrow> nat \<Rightarrow> append_error + entry list" where
  "recent_entries env rows limit =
     collect_res (map (row_to_entry env) (take limit (rev (order_by_seq rows))))"

section \<open>Appending\<close>

record ledger_meta =
  meta_tenant_id :: string
  meta_binary_hash :: hash32

record append_stamp = \<comment> \<open>what the process supplies to one append\<close>
  st_ulid :: nat
  st_now :: int
  st_mono :: u64

datatype session_identity =
    Operator string string string string \<comment> \<open>subject, display name, attested at, source\<close>
  | Service string string \<comment> \<open>service public key, endorsement state\<close>

record session_context =
  sc_session_id :: string
  sc_identity :: session_identity
  sc_key :: nat

definition event_sig_preimage ::
  "ledger_env \<Rightarrow> hash32 \<Rightarrow> event_kind \<Rightarrow> string \<Rightarrow> byte list \<Rightarrow> byte list" where
  "event_sig_preimage env prev k subject pl =
     prev @ bytes_of (event_kind_as_str k) @ bytes_of subject @ sha256 env pl"

definition session_columns ::
  "ledger_env \<Rightarrow> hash32 \<Rightarrow> event_kind \<Rightarrow> string \<Rightarrow> byte list \<Rightarrow> session_context option \<Rightarrow>
   string option \<times> string option \<times> string option" where
  "session_columns env prev k subject pl session =
     (case session of
        Some s \<Rightarrow>
          (Some (sc_session_id s),
           Some (ed25519_pubkey_hex env (sc_key s)),
           Some (hex_encode env
             (ed25519_sign env (sc_key s) (event_sig_preimage env prev k subject pl))))
      | None \<Rightarrow> (None, None, None))"

definition next_entry ::
  "ledger_env \<Rightarrow> ledger_meta \<Rightarrow> append_stamp \<Rightarrow> event_kind \<Rightarrow> string \<Rightarrow> byte list \<Rightarrow> actor \<Rightarrow>
   string option \<Rightarrow> session_context option \<Rightarrow> u64 \<Rightarrow> hash32 \<Rightarrow> entry" where
  "next_entry env meta st k subject pl act idem session sq prev =
     (let (sid, pub, sig) = session_columns env prev k subject pl session;
          e = \<lparr>eid = st_ulid st, seq = sq, prev_hash = prev, time_wall = st_now st,
               time_mono = st_mono st, actor = act, binary_hash = meta_binary_hash meta,
               tenant_id = meta_tenant_id meta, kind = k, payload = pl,
               idempotency_key = idem, entry_hash = replicate 32 0, session_id = sid,
               session_pubkey = pub, event_sig = sig\<rparr>
      in e\<lparr>entry_hash := compute_entry_hash env e\<rparr>)"

definition append_in_tx_signed ::
  "ledger_env \<Rightarrow> ledger_meta \<Rightarrow> append_stamp \<Rightarrow> event_kind \<Rightarrow> string \<Rightarrow> byte list \<Rightarrow> actor \<Rightarrow>
   string option \<Rightarrow> session_context option \<Rightarrow> ledger_row list \<Rightarrow>
   append_error + nat \<times> ledger_row list" where
  "append_in_tx_signed env meta st k subject pl act idem session rows =
     and_then (read_head env rows) (\<lambda>head.
     and_then (ok_or ASequencePanic (next_seq head)) (\<lambda>sq.
       let prev = next_prev_hash env (meta_tenant_id meta) head;
           e = next_entry env meta st k subject pl act idem session sq prev
       in and_then (insert_entry_verbatim env rows e) (\<lambda>rows'. Inr (eid e, rows'))))"

definition append_in_tx ::
  "ledger_env \<Rightarrow> ledger_meta \<Rightarrow> append_stamp \<Rightarrow> event_kind \<Rightarrow> byte list \<Rightarrow> actor \<Rightarrow>
   string option \<Rightarrow> ledger_row list \<Rightarrow> append_error + nat \<times> ledger_row list" where
  "append_in_tx env meta st k pl act idem rows =
     append_in_tx_signed env meta st k [] pl act idem None rows"

definition chain_head_hash_hex ::
  "ledger_env \<Rightarrow> string \<Rightarrow> ledger_row list \<Rightarrow> append_error + string" where
  "chain_head_hash_hex env tenant rows =
     and_then (read_head env rows) (\<lambda>head.
       Inr (hex_encode env (case head of Some e \<Rightarrow> entry_hash e | None \<Rightarrow> genesis_hash env tenant)))"

datatype ledger_verify_error = Read append_error | Chain verify_error

definition ledger_verify_chain ::
  "ledger_env \<Rightarrow> string \<Rightarrow> ledger_row list \<Rightarrow> ledger_verify_error + nat" where
  "ledger_verify_chain env tenant rows =
     and_then (map_err Read (read_all_entries env rows)) (\<lambda>es.
       map_err Chain (verify_chain env tenant es))"

section \<open>The migration off the UNIQUE schema\<close>

record ledger_db =
  db_rows :: "ledger_row list"
  db_has_unique :: bool

definition rebuild_table :: "ledger_env \<Rightarrow> entry list \<Rightarrow> append_error + ledger_row list" where
  "rebuild_table env es =
     fold_res (\<lambda>e rows. insert_entry_verbatim env rows e) es []"

definition migrate_drop_unique_art_if_present ::
  "ledger_env \<Rightarrow> ledger_db \<Rightarrow> append_error + ledger_db" where
  "migrate_drop_unique_art_if_present env db =
     (if \<not> db_has_unique db then Inr db
      else
        and_then (read_all_entries env (db_rows db)) (\<lambda>es.
        and_then (case es of [] \<Rightarrow> Inr 0
                  | e # _ \<Rightarrow> map_err AMigration (verify_chain env (tenant_id e) es)) (\<lambda>_.
        and_then (rebuild_table env es) (\<lambda>rows'.
        and_then (case es of [] \<Rightarrow> Inr 0
                  | e # _ \<Rightarrow> and_then (read_all_entries env rows') (\<lambda>rebuilt.
                      map_err AMigration (verify_chain env (tenant_id e) rebuilt))) (\<lambda>_.
          Inr \<lparr>db_rows = rows', db_has_unique = False\<rparr>)))))"

section \<open>The representation invariant\<close>

definition entry_wf :: "string \<Rightarrow> entry \<Rightarrow> bool" where
  "entry_wf tenant e \<longleftrightarrow>
     length (prev_hash e) = 32 \<and> length (binary_hash e) = 32 \<and> length (entry_hash e) = 32 \<and>
     tenant_id e = tenant \<and> tenant_new tenant = Some tenant"

definition ledger_rep :: "ledger_env \<Rightarrow> string \<Rightarrow> entry list \<Rightarrow> ledger_row list \<Rightarrow> bool" where
  "ledger_rep env tenant es rows \<longleftrightarrow>
     rows = map (row_of_entry env) es \<and>
     chained env 1 (genesis_hash env tenant) es \<and>
     length es < 2 ^ 63 \<and> (\<forall>e \<in> set es. entry_wf tenant e)"

definition ledger_ok :: "ledger_env \<Rightarrow> string \<Rightarrow> ledger_row list \<Rightarrow> bool" where
  "ledger_ok env tenant rows \<longleftrightarrow> (\<exists>es. ledger_rep env tenant es rows)"

definition meta_ok :: "ledger_meta \<Rightarrow> bool" where
  "meta_ok meta \<longleftrightarrow>
     tenant_new (meta_tenant_id meta) = Some (meta_tenant_id meta) \<and>
     length (meta_binary_hash meta) = 32"

lemma row_roundtrip:
  assumes "env_ok env" and "entry_wf tenant e"
  shows "row_to_entry env (row_of_entry env e) = Inr e"
proof -
  have "strip_prefix ''aud_'' (''aud_'' @ ulid_to_string env (eid e)) = Some (ulid_to_string env (eid e))"
    by (rule strip_prefix_append)
  then show ?thesis using assms
    by (cases e)
       (simp add: row_to_entry_def row_of_entry_def entry_id_prefixed_def env_ok_simps
          to_hash32_def entry_wf_def kind_codec.from_as)
qed

lemma row_of_entry_seq [simp]: "r_seq (row_of_entry env e) = seq e"
  by (simp add: row_of_entry_def)

lemma chained_sint_sorted:
  assumes "chained env 1 prev es" and "length es < 2 ^ 63"
  shows "sorted (map (\<lambda>e. sint (seq e)) es)"
proof -
  have "map (\<lambda>e. sint (seq e)) es = map sint (map seq es)" by simp
  also have "\<dots> = map (\<lambda>i. sint (of_nat (1 + i) :: u64)) [0..<length es]"
    using chained_seqs [OF assms(1)] by simp
  also have "\<dots> = map (\<lambda>i. int (1 + i)) [0..<length es]"
  proof (rule map_cong [OF refl])
    fix i assume "i \<in> set [0..<length es]"
    then have "1 + i < 2 ^ 63 \<or> 1 + i = 2 ^ 63" using assms(2) by auto
    moreover have "1 + i \<noteq> 2 ^ 63" using \<open>i \<in> set [0..<length es]\<close> assms(2) by simp
    ultimately show "sint (of_nat (1 + i) :: u64) = int (1 + i)"
      by (intro sint_of_nat64) simp
  qed
  finally show ?thesis by (simp add: sorted_iff_nth_mono)
qed

lemma rep_order:
  assumes "ledger_rep env tenant es rows"
  shows "order_by_seq rows = rows"
  using assms chained_sint_sorted [of env "genesis_hash env tenant" es]
  by (simp add: order_by_seq_def ledger_rep_def sort_key_id_if_sorted comp_def)

lemma rep_read_all:
  assumes "env_ok env" and "ledger_rep env tenant es rows"
  shows "read_all_entries env rows = Inr es"
proof -
  have "collect_res (map (row_to_entry env) (map (row_of_entry env) es)) = Inr (map id es)"
    using assms by (auto simp: collect_res_Inr_iff ledger_rep_def intro: row_roundtrip)
  moreover have "order_by_seq rows = map (row_of_entry env) es"
    using rep_order [OF assms(2)] assms(2) by (simp add: ledger_rep_def)
  ultimately show ?thesis by (simp add: read_all_entries_def)
qed

lemma rep_read_head:
  assumes "env_ok env" and "ledger_rep env tenant es rows"
  shows "read_head env rows = Inr (if es = [] then None else Some (last es))"
proof (cases es rule: rev_cases)
  case Nil
  then show ?thesis
    using assms(2) by (simp add: read_head_def select_head_def order_by_seq_def ledger_rep_def)
next
  case (snoc fs e)
  have "select_head rows = Some (row_of_entry env e)"
    using assms(2) rep_order [OF assms(2)] snoc by (simp add: select_head_def ledger_rep_def)
  moreover have "entry_wf tenant e" using assms(2) snoc by (simp add: ledger_rep_def)
  ultimately show ?thesis using snoc row_roundtrip [OF assms(1)] by (simp add: read_head_def)
qed

lemma rep_length: "ledger_rep env tenant es rows \<Longrightarrow> length rows = length es"
  by (auto simp: ledger_rep_def)

lemma ledger_rep_Nil: "ledger_rep env tenant [] []"
  by (simp add: ledger_rep_def)

lemma ledger_rep_unique:
  assumes "env_ok env" "ledger_rep env tenant es rows" "ledger_rep env tenant fs rows"
  shows "es = fs"
  using rep_read_all [OF assms(1,2)] rep_read_all [OF assms(1,3)] by simp

section \<open>Appending preserves the invariant\<close>

lemma next_entry_fields:
  "seq (next_entry env meta st k subject pl act idem session sq prev) = sq"
  "prev_hash (next_entry env meta st k subject pl act idem session sq prev) = prev"
  "kind (next_entry env meta st k subject pl act idem session sq prev) = k"
  "payload (next_entry env meta st k subject pl act idem session sq prev) = pl"
  "actor (next_entry env meta st k subject pl act idem session sq prev) = act"
  "idempotency_key (next_entry env meta st k subject pl act idem session sq prev) = idem"
  "eid (next_entry env meta st k subject pl act idem session sq prev) = st_ulid st"
  by (simp_all add: next_entry_def Let_def split: prod.splits)

lemma next_entry_hash:
  "compute_entry_hash env (next_entry env meta st k subject pl act idem session sq prev) =
   entry_hash (next_entry env meta st k subject pl act idem session sq prev)"
  by (auto simp: next_entry_def Let_def same_hashed_fields_def entry.defs
      intro!: compute_entry_hash_cong split: prod.splits)

lemma next_entry_wf:
  assumes "env_ok env" "meta_ok meta" "length prev = 32"
  shows "entry_wf (meta_tenant_id meta) (next_entry env meta st k subject pl act idem session sq prev)"
  using assms
  by (simp add: next_entry_def Let_def entry_wf_def meta_ok_def compute_entry_hash_def
      env_ok_simps split: prod.splits)

lemma genesis_length: "env_ok env \<Longrightarrow> length (genesis_hash env tenant) = 32"
  by (simp add: genesis_hash_def env_ok_simps)

lemma append_rep:
  assumes "env_ok env" and "meta_ok meta" and rep: "ledger_rep env (meta_tenant_id meta) es rows"
    and room: "length es + 1 < 2 ^ 63"
  shows "\<exists>e. append_in_tx_signed env meta st k subject pl act idem session rows =
               Inr (st_ulid st, rows @ [row_of_entry env e]) \<and>
             ledger_rep env (meta_tenant_id meta) (es @ [e]) (rows @ [row_of_entry env e]) \<and>
             e = next_entry env meta st k subject pl act idem session (of_nat (length es + 1))
                   (head_hash (genesis_hash env (meta_tenant_id meta)) es)"
proof -
  define tenant where "tenant = meta_tenant_id meta"
  define gen where "gen = genesis_hash env tenant"
  define e where "e = next_entry env meta st k subject pl act idem session (of_nat (length es + 1))
                       (head_hash gen es)"
  let ?head = "if es = [] then None else Some (last es)"
  have head: "read_head env rows = Inr ?head"
    using rep_read_head [OF assms(1) rep] .
  have seq: "next_seq ?head = Some (of_nat (length es + 1))"
  proof (cases "es = []")
    case True
    then show ?thesis by (simp add: next_seq_def seq_first_def)
  next
    case False
    then have "seq (last es) = of_nat (length es)"
      using rep chained_nth(1) [of env 1 "genesis_hash env (meta_tenant_id meta)" es "length es - 1"]
      by (simp add: ledger_rep_def last_conv_nth)
    then show ?thesis using False room seq_next_of_nat [of "length es"]
      by (simp add: next_seq_def)
  qed
  have prev: "next_prev_hash env tenant ?head = head_hash gen es"
    by (simp add: next_prev_hash_def head_hash_def gen_def)
  have len: "length (head_hash gen es) = 32"
    using rep genesis_length [OF assms(1)] last_in_set [of es]
    by (auto simp: head_hash_def gen_def ledger_rep_def entry_wf_def)
  have wf: "entry_wf tenant e"
    unfolding e_def tenant_def using next_entry_wf [OF assms(1,2) len] .
  have "ledger_rep env tenant (es @ [e]) (rows @ [row_of_entry env e])"
    using rep room wf
    by (auto simp: ledger_rep_def chained_snoc tenant_def gen_def e_def next_entry_fields
        next_entry_hash)
  moreover have "append_in_tx_signed env meta st k subject pl act idem session rows =
      Inr (st_ulid st, rows @ [row_of_entry env e])"
    using head seq prev
    by (simp add: append_in_tx_signed_def insert_entry_verbatim_def Let_def e_def tenant_def
        next_entry_fields)
  ultimately show ?thesis unfolding e_def tenant_def gen_def by blast
qed

section \<open>The interface the other components use\<close>

text \<open>
  An append-only log: an append keeps the invariant, adds exactly one entry at the end,
  and succeeds while there is room.
\<close>

locale audit_sink =
  fixes append_to :: "'r \<Rightarrow> 'log \<Rightarrow> 'e + 'i \<times> 'log"
    and inv :: "'log \<Rightarrow> bool"
    and entries_of :: "'log \<Rightarrow> 'x list"
    and cap :: nat
  assumes append_ok: "inv l \<Longrightarrow> length (entries_of l) + 1 < cap \<Longrightarrow>
      \<exists>i l' x. append_to r l = Inr (i, l') \<and> inv l' \<and> entries_of l' = entries_of l @ [x]"
begin

lemma append_inv:
  "inv l \<Longrightarrow> length (entries_of l) + 1 < cap \<Longrightarrow> append_to r l = Inr (i, l') \<Longrightarrow> inv l'"
  using append_ok [of l r] by auto

lemma append_extends:
  "inv l \<Longrightarrow> length (entries_of l) + 1 < cap \<Longrightarrow> append_to r l = Inr (i, l') \<Longrightarrow>
   \<exists>x. entries_of l' = entries_of l @ [x]"
  using append_ok [of l r] by auto

lemma appends_ok:
  assumes "inv l" and "length (entries_of l) + length rs < cap"
  shows "\<exists>l' xs. fold_res (\<lambda>r l. and_then (append_to r l) (\<lambda>(i, l'). Inr l')) rs l = Inr l' \<and>
           inv l' \<and> entries_of l' = entries_of l @ xs \<and> length xs = length rs"
  using assms
proof (induction rs arbitrary: l)
  case Nil
  then show ?case by simp
next
  case (Cons r rs)
  obtain i m x where m: "append_to r l = Inr (i, m)" "inv m" "entries_of m = entries_of l @ [x]"
    using append_ok [of l r] Cons.prems by auto
  obtain l' xs where
    "fold_res (\<lambda>r l. and_then (append_to r l) (\<lambda>(i, l'). Inr l')) rs m = Inr l'" "inv l'"
    "entries_of l' = entries_of m @ xs" "length xs = length rs"
    using Cons.IH [of m] m Cons.prems(2) by auto
  then show ?case using m by (auto intro!: exI [of _ "x # xs"])
qed

end

record append_request =
  rq_stamp :: append_stamp
  rq_kind :: event_kind
  rq_subject :: string
  rq_payload :: "byte list"
  rq_actor :: actor
  rq_idem :: "string option"
  rq_session :: "session_context option"

definition ledger_append ::
  "ledger_env \<Rightarrow> ledger_meta \<Rightarrow> append_request \<Rightarrow> ledger_row list \<Rightarrow>
   append_error + nat \<times> ledger_row list" where
  "ledger_append env meta rq rows =
     append_in_tx_signed env meta (rq_stamp rq) (rq_kind rq) (rq_subject rq) (rq_payload rq)
       (rq_actor rq) (rq_idem rq) (rq_session rq) rows"

definition ledger_entries :: "ledger_env \<Rightarrow> ledger_row list \<Rightarrow> entry list" where
  "ledger_entries env rows =
     (case read_all_entries env rows of Inl _ \<Rightarrow> [] | Inr es \<Rightarrow> es)"

definition ledger_inv :: "ledger_env \<Rightarrow> ledger_meta \<Rightarrow> ledger_row list \<Rightarrow> bool" where
  "ledger_inv env meta rows \<longleftrightarrow>
     env_ok env \<and> meta_ok meta \<and> ledger_ok env (meta_tenant_id meta) rows"

lemma ledger_inv_rep:
  "ledger_inv env meta rows \<longleftrightarrow>
   env_ok env \<and> meta_ok meta \<and>
   ledger_rep env (meta_tenant_id meta) (ledger_entries env rows) rows"
  by (auto simp: ledger_inv_def ledger_ok_def ledger_entries_def rep_read_all)

lemma ledger_entries_rep:
  "env_ok env \<Longrightarrow> ledger_rep env tenant es rows \<Longrightarrow> ledger_entries env rows = es"
  by (simp add: ledger_entries_def rep_read_all)

interpretation sink: audit_sink "ledger_append env meta" "ledger_inv env meta" "ledger_entries env"
  "2 ^ 63" for env meta
proof
  fix l r
  assume inv: "ledger_inv env meta l" and room: "length (ledger_entries env l) + 1 < 2 ^ 63"
  from inv have ok: "env_ok env" "meta_ok meta"
    and rep: "ledger_rep env (meta_tenant_id meta) (ledger_entries env l) l"
    by (auto simp: ledger_inv_rep)
  from append_rep [OF ok rep room, of "rq_stamp r" "rq_kind r" "rq_subject r" "rq_payload r"
      "rq_actor r" "rq_idem r" "rq_session r"]
  obtain e where e: "ledger_append env meta r l = Inr (st_ulid (rq_stamp r), l @ [row_of_entry env e])"
    "ledger_rep env (meta_tenant_id meta) (ledger_entries env l @ [e]) (l @ [row_of_entry env e])"
    by (auto simp: ledger_append_def)
  have "ledger_entries env (l @ [row_of_entry env e]) = ledger_entries env l @ [e]"
    using ledger_entries_rep ok(1) e(2) by blast
  moreover have "ledger_inv env meta (l @ [row_of_entry env e])"
    using ok e(2) by (auto simp: ledger_inv_def ledger_ok_def)
  ultimately show "\<exists>i l' x. ledger_append env meta r l = Inr (i, l') \<and> ledger_inv env meta l' \<and>
      ledger_entries env l' = ledger_entries env l @ [x]"
    using e(1) by blast
qed

text \<open>A table in the invariant verifies, with the number of its rows.\<close>

lemma ledger_inv_verifies:
  assumes "ledger_inv env meta rows"
  shows "ledger_verify_chain env (meta_tenant_id meta) rows = Inr (length rows)"
proof -
  from assms have ok: "env_ok env"
    and rep: "ledger_rep env (meta_tenant_id meta) (ledger_entries env rows) rows"
    by (auto simp: ledger_inv_rep)
  have "verify_chain env (meta_tenant_id meta) (ledger_entries env rows) = Inr (length rows)"
    using rep rep_length [OF rep]
    by (subst verify_chain_iff) (simp_all add: ledger_rep_def chain_valid_def)
  then show ?thesis by (simp add: ledger_verify_chain_def rep_read_all [OF ok rep])
qed

lemma ledger_inv_length: "ledger_inv env meta rows \<Longrightarrow> length (ledger_entries env rows) = length rows"
  by (auto simp: ledger_inv_rep dest: rep_length)

lemma ledger_inv_Nil: "env_ok env \<Longrightarrow> meta_ok meta \<Longrightarrow> ledger_inv env meta []"
  by (auto simp: ledger_inv_def ledger_ok_def intro!: exI [of _ "[]"] ledger_rep_Nil)

text \<open>The migration keeps the rows of a ledger in the invariant.\<close>

lemma rebuild_table_eq: "rebuild_table env es = Inr (map (row_of_entry env) es)"
proof -
  have "fold_res (\<lambda>e rows. insert_entry_verbatim env rows e) es acc =
      Inr (acc @ map (row_of_entry env) es)" for acc
    by (induction es arbitrary: acc) (simp_all add: insert_entry_verbatim_def)
  then show ?thesis by (simp add: rebuild_table_def)
qed

end
