(* ===== verification/Decimal_Text.thy ===== *)
theory Decimal_Text
  imports Prelude
begin

text \<open>
  Decimal notation of integers, as Rust's \<open>Display\<close> writes it, and that it determines the number.
\<close>

definition digit_char :: "nat \<Rightarrow> char" where
  "digit_char n = ''0123456789'' ! (n mod 10)"

fun show_nat :: "nat \<Rightarrow> string" where
  "show_nat n = (if n < 10 then [digit_char n] else show_nat (n div 10) @ [digit_char (n mod 10)])"

declare show_nat.simps [simp del]

definition show_int :: "int \<Rightarrow> string" where
  "show_int i = (if i < 0 then ''-'' @ show_nat (nat (- i)) else show_nat (nat i))"

definition show_02 :: "nat \<Rightarrow> string" where
  \<comment> \<open>the format \<open>{:02}\<close> of a number below 100\<close>
  "show_02 n = [digit_char (n div 10), digit_char (n mod 10)]"

definition char_digit :: "char \<Rightarrow> nat" where
  "char_digit c = of_char c - 48"

definition read_nat :: "string \<Rightarrow> nat" where
  "read_nat s = foldl (\<lambda>acc c. 10 * acc + char_digit c) 0 s"

lemma of_digit_char: "(of_char (digit_char n) :: nat) = 48 + n mod 10"
proof -
  have "\<forall>m \<in> set [0..<10]. (of_char (''0123456789'' ! m) :: nat) = 48 + m"
    by (simp add: upt_conv_Cons)
  moreover have "n mod 10 \<in> set [0..<10]" by simp
  ultimately show ?thesis unfolding digit_char_def by blast
qed

lemma char_digit_digit_char: "char_digit (digit_char n) = n mod 10"
  by (simp add: char_digit_def of_digit_char)

lemma read_show_nat: "read_nat (show_nat n) = n"
proof (induction n rule: show_nat.induct)
  case (1 n)
  show ?case
  proof (cases "n < 10")
    case True
    then show ?thesis by (simp add: show_nat.simps [of n] read_nat_def char_digit_digit_char)
  next
    case False
    have "read_nat (show_nat n) = 10 * read_nat (show_nat (n div 10)) + n mod 10"
      using False by (simp add: show_nat.simps [of n] read_nat_def char_digit_digit_char)
    with 1 False show ?thesis by simp
  qed
qed

lemma show_nat_inject: "show_nat m = show_nat n \<longleftrightarrow> m = n"
  by (metis read_show_nat)

lemma digit_char_isdigit: "48 \<le> (of_char (digit_char n) :: nat) \<and> (of_char (digit_char n) :: nat) \<le> 57"
  by (simp add: of_digit_char)

lemma show_nat_digits: "c \<in> set (show_nat n) \<Longrightarrow> 48 \<le> (of_char c :: nat)"
proof (induction n rule: show_nat.induct)
  case (1 n)
  then show ?case
    using digit_char_isdigit by (auto simp: show_nat.simps [of n] split: if_splits)
qed

lemma show_nat_not_minus: "show_nat n \<noteq> ''-'' @ s"
proof
  assume "show_nat n = ''-'' @ s"
  then have "CHR ''-'' \<in> set (show_nat n)" by simp
  from show_nat_digits [OF this] show False by simp
qed

lemma show_int_inject: "show_int i = show_int j \<longleftrightarrow> i = j"
proof
  assume eq: "show_int i = show_int j"
  show "i = j"
  proof (cases "i < 0"; cases "j < 0")
    assume "i < 0" "j < 0"
    with eq show ?thesis by (simp add: show_int_def show_nat_inject)
  next
    assume "i < 0" "\<not> j < 0"
    with eq show ?thesis using show_nat_not_minus by (metis show_int_def)
  next
    assume "\<not> i < 0" "j < 0"
    with eq show ?thesis using show_nat_not_minus by (metis show_int_def)
  next
    assume "\<not> i < 0" "\<not> j < 0"
    with eq show ?thesis by (simp add: show_int_def show_nat_inject)
  qed
qed simp

lemma show_02_inject: "m < 100 \<Longrightarrow> n < 100 \<Longrightarrow> show_02 m = show_02 n \<longleftrightarrow> m = n"
proof
  assume b: "m < 100" "n < 100" and eq: "show_02 m = show_02 n"
  then have "char_digit (digit_char (m div 10)) = char_digit (digit_char (n div 10))"
    "char_digit (digit_char (m mod 10)) = char_digit (digit_char (n mod 10))"
    by (simp_all add: show_02_def)
  then have "m div 10 = n div 10" "m mod 10 = n mod 10"
    using b by (simp_all add: char_digit_digit_char)
  then show "m = n" by (metis div_mult_mod_eq)
qed simp

end
