(* ===== verification/Audit_Mirror.thy ===== *)
theory Audit_Mirror
  imports Audit_Storage Decimal_Text "HOL-Library.Sublist"
begin

text \<open>
  The plain-text mirror of the ledger (crates/audit-ledger/src/mirror.rs): one JSON line per
  entry in a file next to the database, extended after every commit and reconciled at boot.
  \<open>mirror_fs\<close> is the directory as the module sees it: the bytes of the mirror file, when it
  exists, and the other files. Operations keep their effect on the directory when they
  fail, so an operation is a function from the directory to a result and a directory.
  The locale \<open>keeps_evidence\<close> is the contract of every operation on the mirror: no bytes
  that a file held are lost.
\<close>

section \<open>Records and lines\<close>

record mirror_entry =
  m_id :: string
  m_seq :: u64
  m_prev_hash :: string
  m_time_wall :: string
  m_time_mono :: u64
  m_actor :: actor
  m_binary_hash :: string
  m_tenant_id :: string
  m_kind :: string
  m_payload :: string
  m_idempotency_key :: "string option"
  m_entry_hash :: string

text \<open>What the module uses of serde_json: the writer of a record on one line, and the parser.\<close>

record mirror_json =
  json_to_vec :: "mirror_entry \<Rightarrow> byte list"
  json_from_str :: "byte list \<Rightarrow> mirror_entry option"

text \<open>\<open>std::str::from_utf8\<close>, and \<open>BufRead::read_line\<close>, accept exactly well-formed UTF-8.\<close>

definition utf8_cont :: "byte \<Rightarrow> bool" where
  "utf8_cont b \<longleftrightarrow> 0x80 \<le> b \<and> b \<le> 0xBF"

fun utf8_valid :: "byte list \<Rightarrow> bool" where
  "utf8_valid [] = True"
| "utf8_valid (b # bs) =
     (if b < 0x80 then utf8_valid bs
      else if 0xC2 \<le> b \<and> b \<le> 0xDF then
        (case bs of c # r \<Rightarrow> utf8_cont c \<and> utf8_valid r | _ \<Rightarrow> False)
      else if 0xE0 \<le> b \<and> b \<le> 0xEF then
        (case bs of c # d # r \<Rightarrow>
           utf8_cont c \<and> (b = 0xE0 \<longrightarrow> 0xA0 \<le> c) \<and> (b = 0xED \<longrightarrow> c \<le> 0x9F) \<and>
           utf8_cont d \<and> utf8_valid r
         | _ \<Rightarrow> False)
      else if 0xF0 \<le> b \<and> b \<le> 0xF4 then
        (case bs of c # d # e # r \<Rightarrow>
           utf8_cont c \<and> (b = 0xF0 \<longrightarrow> 0x90 \<le> c) \<and> (b = 0xF4 \<longrightarrow> c \<le> 0x8F) \<and>
           utf8_cont d \<and> utf8_cont e \<and> utf8_valid r
         | _ \<Rightarrow> False)
      else False)"

definition newline :: byte where "newline = 10"
definition carriage_return :: byte where "carriage_return = 13"

definition json_ok :: "mirror_json \<Rightarrow> bool" where
  \<comment> \<open>the parser inverts the writer; the compact form is one non-empty line of UTF-8 text
      (control characters inside strings are escaped)\<close>
  "json_ok js \<longleftrightarrow>
     (\<forall>m. json_from_str js (json_to_vec js m) = Some m \<and> json_to_vec js m \<noteq> [] \<and>
          newline \<notin> set (json_to_vec js m) \<and> carriage_return \<notin> set (json_to_vec js m) \<and>
          utf8_valid (json_to_vec js m @ [newline]))"

definition from_entry :: "ledger_env \<Rightarrow> entry \<Rightarrow> mirror_entry" where
  "from_entry env e =
     \<lparr>m_id = entry_id_prefixed env (eid e),
      m_seq = seq e,
      m_prev_hash = hex_encode env (prev_hash e),
      m_time_wall = rfc3339_format env (time_wall e),
      m_time_mono = time_mono e,
      m_actor = actor e,
      m_binary_hash = hex_encode env (binary_hash e),
      m_tenant_id = tenant_id e,
      m_kind = event_kind_as_str (kind e),
      m_payload = base64_encode env (payload e),
      m_idempotency_key = idempotency_key e,
      m_entry_hash = hex_encode env (entry_hash e)\<rparr>"

definition encode_line :: "mirror_json \<Rightarrow> mirror_entry \<Rightarrow> byte list" where
  "encode_line js m = json_to_vec js m @ [newline]"

section \<open>Reading\<close>

text \<open>
  \<open>split_inclusive\<close> cuts after every newline, the last piece may lack it; reading a file with
  \<open>read_line\<close> until it returns 0 gives the same pieces.
\<close>

fun split_inclusive :: "byte list \<Rightarrow> byte list list" where
  "split_inclusive [] = []"
| "split_inclusive (b # bs) =
     (if b = newline then [b] # split_inclusive bs
      else case split_inclusive bs of [] \<Rightarrow> [[b]] | l # ls \<Rightarrow> (b # l) # ls)"

definition trim_end_matches :: "byte \<Rightarrow> byte list \<Rightarrow> byte list" where
  "trim_end_matches b s = rev (dropWhile (\<lambda>c. c = b) (rev s))"

definition trim_line :: "byte list \<Rightarrow> byte list" where
  "trim_line raw = trim_end_matches carriage_return (trim_end_matches newline raw)"

fun read_lines :: "mirror_json \<Rightarrow> mirror_entry list \<Rightarrow> byte list list \<Rightarrow> append_error + mirror_entry list" where
  "read_lines js out [] = Inr out"
| "read_lines js out (raw # rest) =
     and_then (check (utf8_valid raw) (AMirrorIo ''stream did not contain valid UTF-8'')) (\<lambda>_.
     and_then (check (trim_line raw \<noteq> []) (AMirrorCorrupt ''empty line'')) (\<lambda>_.
     and_then (ok_or (AMirrorCorrupt ''JSON decode failure'') (json_from_str js (trim_line raw))) (\<lambda>r.
     and_then (check (m_seq r = of_nat (length out) + 1) (AMirrorCorrupt ''seq jump'')) (\<lambda>_.
       read_lines js (out @ [r]) rest))))"

definition read_mirror_entries :: "mirror_json \<Rightarrow> byte list option \<Rightarrow> append_error + mirror_entry list" where
  "read_mirror_entries js file =
     and_then (ok_or AMirrorIoNotFound file) (\<lambda>bytes.
     and_then (check (bytes \<noteq> [] \<longrightarrow> last bytes = newline)
                 (AMirrorCorrupt ''last line lacks trailing newline'')) (\<lambda>_.
       read_lines js [] (split_inclusive bytes)))"

fun parse_and_reverify :: "mirror_json \<Rightarrow> mirror_entry list \<Rightarrow> byte list list \<Rightarrow> string + mirror_entry list" where
  "parse_and_reverify js out [] = Inr out"
| "parse_and_reverify js out (raw # rest) =
     and_then (check (utf8_valid raw) ''non-UTF8 bytes'') (\<lambda>_.
     and_then (check (trim_line raw \<noteq> []) ''empty line'') (\<lambda>_.
     and_then (ok_or ''JSON decode failure'' (json_from_str js (trim_line raw))) (\<lambda>r.
     and_then (check (m_seq r = of_nat (length out) + 1) ''seq jump'') (\<lambda>_.
     and_then (check (out \<noteq> [] \<longrightarrow> m_prev_hash r = m_entry_hash (last out)) ''hash-chain break'') (\<lambda>_.
       parse_and_reverify js (out @ [r]) rest)))))"

definition parse_and_reverify_prefix :: "mirror_json \<Rightarrow> byte list \<Rightarrow> string + mirror_entry list" where
  "parse_and_reverify_prefix js bytes = parse_and_reverify js [] (split_inclusive bytes)"

datatype tail_decision = TdClean | TdTornTail | TdDeep

definition decide_tail :: "bool \<Rightarrow> bool \<Rightarrow> tail_decision" where
  "decide_tail terminated prefix_ok =
     (if \<not> prefix_ok then TdDeep else if terminated then TdClean else TdTornTail)"

definition terminated_prefix_len :: "byte list \<Rightarrow> nat" where
  \<comment> \<open>\<open>rposition\<close> of the newline, plus one; 0 when there is none\<close>
  "terminated_prefix_len bytes = length bytes - length (takeWhile (\<lambda>b. b \<noteq> newline) (rev bytes))"

definition classify_mirror_bytes ::
  "mirror_json \<Rightarrow> byte list \<Rightarrow> tail_decision \<times> mirror_entry list \<times> nat \<times> string option" where
  "classify_mirror_bytes js bytes =
     (if bytes = [] then (TdClean, [], 0, None)
      else
        let terminated = (last bytes = newline);
            prefix_len = terminated_prefix_len bytes
        in case parse_and_reverify_prefix js (take prefix_len bytes) of
             Inr entries \<Rightarrow> (decide_tail terminated True, entries, prefix_len, None)
           | Inl reason \<Rightarrow> (decide_tail terminated False, [], prefix_len, Some reason))"

section \<open>The directory and operations on it\<close>

record mirror_fs =
  mf_mirror :: "byte list option"
  mf_dir :: "(string \<times> byte list) list" \<comment> \<open>the other files of the directory, in its listing order\<close>

type_synonym 'a mirror_op = "mirror_fs \<Rightarrow> (append_error + 'a) \<times> mirror_fs"

definition fs_return :: "'a \<Rightarrow> 'a mirror_op" where
  "fs_return x fs = (Inr x, fs)"

definition fs_fail :: "append_error \<Rightarrow> 'a mirror_op" where
  "fs_fail e fs = (Inl e, fs)"

definition fs_lift :: "append_error + 'a \<Rightarrow> 'a mirror_op" where
  "fs_lift r fs = (r, fs)"

definition fs_bind :: "'a mirror_op \<Rightarrow> ('a \<Rightarrow> 'b mirror_op) \<Rightarrow> 'b mirror_op" where
  "fs_bind m f fs = (case m fs of (Inl e, fs') \<Rightarrow> (Inl e, fs') | (Inr x, fs') \<Rightarrow> f x fs')"

definition fs_read :: "byte list mirror_op" where
  "fs_read fs = (ok_or AMirrorIoNotFound (mf_mirror fs), fs)"

definition open_mirror_for_append :: "unit mirror_op" where
  "open_mirror_for_append fs =
     (Inr (), fs\<lparr>mf_mirror := Some (case mf_mirror fs of None \<Rightarrow> [] | Some bytes \<Rightarrow> bytes)\<rparr>)"

definition fs_append :: "byte list \<Rightarrow> unit mirror_op" where
  \<comment> \<open>\<open>write_all\<close> on the handle opened for appending\<close>
  "fs_append bs fs =
     (Inr (), fs\<lparr>mf_mirror := Some ((case mf_mirror fs of None \<Rightarrow> [] | Some bytes \<Rightarrow> bytes) @ bs)\<rparr>)"

definition fs_set_len :: "nat \<Rightarrow> unit mirror_op" where
  "fs_set_len n fs =
     (case mf_mirror fs of
        None \<Rightarrow> (Inl AMirrorIoNotFound, fs)
      | Some bytes \<Rightarrow>
          (Inr (), fs\<lparr>mf_mirror := Some (take n bytes @ replicate (n - length bytes) 0)\<rparr>))"

definition put_file :: "string \<Rightarrow> byte list \<Rightarrow> (string \<times> byte list) list \<Rightarrow> (string \<times> byte list) list" where
  \<comment> \<open>\<open>std::fs::copy\<close> creates the target or replaces its content\<close>
  "put_file n bs dir = filter (\<lambda>(f, _). f \<noteq> n) dir @ [(n, bs)]"

text \<open>
  One run of an operation: the libraries, the mirror's file name, what the clock shows when a
  backup of a kind is named, and what \<open>try_lock_exclusive\<close> answers at each millisecond, from
  \<open>mc_start\<close> on. The blocking acquire returns only with the lock and has no case.
\<close>

datatype lock_try = LockFree | LockContended | LockFailed

record mirror_ctx =
  mc_env :: ledger_env
  mc_json :: mirror_json
  mc_name :: string
  mc_nanos :: "string \<Rightarrow> nat"
  mc_peer :: "nat \<Rightarrow> lock_try"
  mc_start :: nat

definition RECONCILE_LOCK_TIMEOUT :: nat where "RECONCILE_LOCK_TIMEOUT = 10000"
definition SYNC_MIRROR_LOCK_TIMEOUT :: nat where "SYNC_MIRROR_LOCK_TIMEOUT = 2000"
definition MIRROR_LOCK_POLL :: nat where "MIRROR_LOCK_POLL = 50"

function try_lock_loop :: "(nat \<Rightarrow> lock_try) \<Rightarrow> nat \<Rightarrow> nat \<Rightarrow> append_error + bool" where
  "try_lock_loop peer deadline now =
     (case peer now of
        LockFree \<Rightarrow> Inr True
      | LockContended \<Rightarrow>
          if deadline \<le> now then Inr False
          else try_lock_loop peer deadline (now + MIRROR_LOCK_POLL)
      | LockFailed \<Rightarrow> Inl (AMirrorIo ''lock''))"
  by pat_completeness auto
termination
  by (relation "measure (\<lambda>(peer, deadline, now). deadline - now)") (auto simp: MIRROR_LOCK_POLL_def)

declare try_lock_loop.simps [simp del]

definition try_lock_exclusive_within :: "mirror_ctx \<Rightarrow> nat \<Rightarrow> append_error + bool" where
  "try_lock_exclusive_within c budget = try_lock_loop (mc_peer c) (mc_start c + budget) (mc_start c)"

definition lock_exclusive_bounded :: "mirror_ctx \<Rightarrow> nat \<Rightarrow> append_error + unit" where
  "lock_exclusive_bounded c budget =
     and_then (try_lock_exclusive_within c budget) (\<lambda>got. check got AMirrorLockTimeout)"

definition lock_mirror_exclusive :: "mirror_ctx \<Rightarrow> unit mirror_op" where
  "lock_mirror_exclusive c =
     fs_bind open_mirror_for_append (\<lambda>_. fs_lift (lock_exclusive_bounded c RECONCILE_LOCK_TIMEOUT))"

section \<open>Preserving and trimming\<close>

definition backup_prefix :: "mirror_ctx \<Rightarrow> string \<Rightarrow> string" where
  "backup_prefix c ifx = mc_name c @ ''.'' @ ifx @ ''-''"

definition backup_name :: "mirror_ctx \<Rightarrow> string \<Rightarrow> string" where
  "backup_name c ifx = backup_prefix c ifx @ show_nat (mc_nanos c ifx) @ ''.bak''"

definition preserve_mirror_copy :: "mirror_ctx \<Rightarrow> string \<Rightarrow> string mirror_op" where
  "preserve_mirror_copy c ifx =
     fs_bind fs_read (\<lambda>current fs.
       case find (\<lambda>(f, b). prefix (backup_prefix c ifx) f \<and> suffix ''.bak'' f \<and> b = current)
              (mf_dir fs) of
         Some (f, _) \<Rightarrow> (Inr f, fs)
       | None \<Rightarrow> (Inr (backup_name c ifx),
                  fs\<lparr>mf_dir := put_file (backup_name c ifx) current (mf_dir fs)\<rparr>))"

definition preserve_diverged_mirror :: "mirror_ctx \<Rightarrow> string mirror_op" where
  "preserve_diverged_mirror c = preserve_mirror_copy c ''diverged''"

definition preserve_corrupt_mirror :: "mirror_ctx \<Rightarrow> string mirror_op" where
  "preserve_corrupt_mirror c = preserve_mirror_copy c ''corrupt''"

definition preserve_ahead_mirror :: "mirror_ctx \<Rightarrow> string mirror_op" where
  "preserve_ahead_mirror c = preserve_mirror_copy c ''ahead''"

definition trim_mirror_to_inner :: "nat \<Rightarrow> unit mirror_op" where
  "trim_mirror_to_inner keep_len = fs_set_len keep_len"

datatype mirror_tail_policy =
    Clean "mirror_entry list"
  | TornTail "mirror_entry list" string nat \<comment> \<open>entries, preserved, dropped bytes\<close>
  | DeepCorrupt string string \<comment> \<open>preserved, reason\<close>

definition read_mirror_under_tail_policy :: "mirror_ctx \<Rightarrow> mirror_tail_policy mirror_op" where
  "read_mirror_under_tail_policy c =
     fs_bind fs_read (\<lambda>bytes.
       let (decision, entries, prefix_len, reason) = classify_mirror_bytes (mc_json c) bytes
       in case decision of
            TdClean \<Rightarrow> fs_return (Clean entries)
          | TdTornTail \<Rightarrow>
              fs_bind (preserve_corrupt_mirror c) (\<lambda>preserved.
              fs_bind (trim_mirror_to_inner prefix_len) (\<lambda>_.
                fs_return (TornTail entries preserved (length bytes - prefix_len))))
          | TdDeep \<Rightarrow>
              fs_bind (preserve_corrupt_mirror c) (\<lambda>preserved.
                fs_return (DeepCorrupt preserved
                  (case reason of Some r \<Rightarrow> r | None \<Rightarrow> ''mirror is malformed''))))"

section \<open>The database side\<close>

text \<open>
  The mirror has its own copy of the row decoder, without the session columns. \<open>WHERE seq > ?\<close>
  binds the 64-bit pattern as a BIGINT, so the comparison is signed.
\<close>

definition row_to_entry_for_mirror :: "ledger_env \<Rightarrow> ledger_row \<Rightarrow> append_error + entry" where
  "row_to_entry_for_mirror env r =
     and_then (ok_or (AStorage ''entry id missing aud_ prefix'') (strip_prefix ''aud_'' (r_id r)))
       (\<lambda>id_str.
     and_then (ok_or (AStorage ''entry id is not a valid ULID'') (ulid_from_string env id_str))
       (\<lambda>ulid.
     and_then (to_hash32 (r_prev_hash r)) (\<lambda>prev.
     and_then (to_hash32 (r_binary_hash r)) (\<lambda>bin.
     and_then (to_hash32 (r_entry_hash r)) (\<lambda>eh.
     and_then (ok_or (AStorage ''tenant_id is empty or contains a null byte'')
                 (tenant_new (r_tenant_id r))) (\<lambda>tenant.
     and_then (ok_or (AStorage ''time_wall is not RFC3339'')
                 (rfc3339_parse env (r_time_wall r))) (\<lambda>wall.
     and_then (ok_or (AStorage ''actor JSON failed to deserialize'')
                 (actor_from_json env (r_actor r))) (\<lambda>act.
     and_then (map_err (\<lambda>_. AStorage ''unknown event kind'') (event_kind_from_storage_str (r_kind r)))
       (\<lambda>k.
     Inr \<lparr>eid = ulid, seq = r_seq r, prev_hash = prev, time_wall = wall,
          time_mono = r_time_mono r, actor = act, binary_hash = bin, tenant_id = tenant,
          kind = k, payload = r_payload r, idempotency_key = r_idempotency_key r,
          entry_hash = eh, session_id = None, session_pubkey = None, event_sig = None\<rparr>)))))))))"

definition read_db_max_seq :: "ledger_env \<Rightarrow> ledger_row list \<Rightarrow> append_error + u64" where
  "read_db_max_seq env rows =
     (case select_head rows of
        None \<Rightarrow> Inr 0
      | Some r \<Rightarrow> and_then (row_to_entry_for_mirror env r) (\<lambda>e. Inr (seq e)))"

definition read_db_entries_after :: "ledger_env \<Rightarrow> ledger_row list \<Rightarrow> u64 \<Rightarrow> append_error + entry list" where
  "read_db_entries_after env rows after =
     collect_res (map (row_to_entry_for_mirror env)
       (order_by_seq (filter (\<lambda>r. sint after < sint (r_seq r)) rows)))"

definition read_db_entry_at_seq :: "ledger_env \<Rightarrow> ledger_row list \<Rightarrow> u64 \<Rightarrow> append_error + entry option" where
  "read_db_entry_at_seq env rows s =
     (case select_one (\<lambda>r. r_seq r = s) rows of
        None \<Rightarrow> Inr None
      | Some r \<Rightarrow> and_then (row_to_entry_for_mirror env r) (\<lambda>e. Inr (Some e)))"

definition read_db_seq_counts_up_to :: "ledger_row list \<Rightarrow> u64 \<Rightarrow> u64 \<times> u64" where
  "read_db_seq_counts_up_to rows up_to =
     (let seqs = map r_seq (filter (\<lambda>r. sint (r_seq r) \<le> sint up_to) rows)
      in (of_nat (length seqs), of_nat (length (remdups seqs))))"

definition first_divergent_seq ::
  "ledger_env \<Rightarrow> ledger_row list \<Rightarrow> mirror_entry list \<Rightarrow> append_error + u64 option" where
  "first_divergent_seq env rows ms =
     (case rev ms of
        [] \<Rightarrow> Inr None
      | head # _ \<Rightarrow>
          and_then (read_db_entry_at_seq env rows (m_seq head)) (\<lambda>at_head.
          if (case at_head of
                Some e \<Rightarrow> hex_encode env (entry_hash e) = m_entry_hash head \<and>
                          read_db_seq_counts_up_to rows (m_seq head) = (m_seq head, m_seq head)
              | None \<Rightarrow> False)
          then Inr None
          else
            and_then (read_db_entries_after env rows 0) (\<lambda>db.
              case find (\<lambda>m. case find (\<lambda>e. seq e = m_seq m) db of
                               None \<Rightarrow> True
                             | Some e \<Rightarrow> hex_encode env (entry_hash e) \<noteq> m_entry_hash m) ms of
                Some m \<Rightarrow> Inr (Some (m_seq m))
              | None \<Rightarrow> Inr (Some (m_seq head)))))"

section \<open>Writing\<close>

fun write_entries :: "mirror_ctx \<Rightarrow> entry list \<Rightarrow> unit mirror_op" where
  "write_entries c [] = fs_return ()"
| "write_entries c (e # es) =
     fs_bind (fs_append (encode_line (mc_json c) (from_entry (mc_env c) e))) (\<lambda>_. write_entries c es)"

definition rebuild_mirror_from_db_locked :: "mirror_ctx \<Rightarrow> ledger_row list \<Rightarrow> u64 mirror_op" where
  "rebuild_mirror_from_db_locked c rows =
     fs_bind (fs_lift (read_db_entries_after (mc_env c) rows 0)) (\<lambda>es.
     fs_bind (fs_set_len 0) (\<lambda>_.
     fs_bind (write_entries c es) (\<lambda>_. fs_return (of_nat (length es)))))"

definition append_db_entries_after_locked ::
  "mirror_ctx \<Rightarrow> ledger_row list \<Rightarrow> u64 \<Rightarrow> u64 mirror_op" where
  "append_db_entries_after_locked c rows after =
     fs_bind (fs_lift (read_db_entries_after (mc_env c) rows after)) (\<lambda>es.
     fs_bind (write_entries c es) (\<lambda>_. fs_return (of_nat (length es))))"

definition mirror_head :: "mirror_entry list \<Rightarrow> u64 \<times> string option" where
  "mirror_head ms = (case rev ms of [] \<Rightarrow> (0, None) | m # _ \<Rightarrow> (m_seq m, Some (m_entry_hash m)))"

definition sync_mirror_locked :: "mirror_ctx \<Rightarrow> ledger_row list \<Rightarrow> u64 mirror_op" where
  "sync_mirror_locked c rows =
     fs_bind fs_read (\<lambda>bytes.
     fs_bind (fs_lift (if bytes = [] then Inr (0, None)
                       else and_then (read_mirror_entries (mc_json c) (Some bytes))
                              (\<lambda>ms. Inr (mirror_head ms)))) (\<lambda>(head_seq, head_hash_hex).
     fs_bind (fs_lift (read_db_entries_after (mc_env c) rows head_seq)) (\<lambda>new_entries.
     fs_bind (fs_lift
       (case head_hash_hex of
          None \<Rightarrow> Inr ()
        | Some h \<Rightarrow>
            and_then (read_db_entry_at_seq (mc_env c) rows head_seq) (\<lambda>at_head.
            and_then (ok_or (AMirrorDivergent head_seq) at_head) (\<lambda>e.
              check (hex_encode (mc_env c) (entry_hash e) = h) (AMirrorDivergent head_seq))))) (\<lambda>_.
     fs_bind (write_entries c new_entries) (\<lambda>_.
       fs_return (head_seq + of_nat (length new_entries)))))))"

definition sync_mirror :: "mirror_ctx \<Rightarrow> ledger_row list \<Rightarrow> u64 mirror_op" where
  "sync_mirror c rows = fs_bind open_mirror_for_append (\<lambda>_. sync_mirror_locked c rows)"

datatype lockstep_sync = Synced u64 | SkippedLockContended nat

definition sync_mirror_lockstep :: "mirror_ctx \<Rightarrow> ledger_row list \<Rightarrow> lockstep_sync mirror_op" where
  "sync_mirror_lockstep c rows =
     fs_bind open_mirror_for_append (\<lambda>_.
     fs_bind (fs_lift (try_lock_exclusive_within c SYNC_MIRROR_LOCK_TIMEOUT)) (\<lambda>got.
       if got then fs_bind (sync_mirror_locked c rows) (\<lambda>s. fs_return (Synced s))
       else fs_return (SkippedLockContended SYNC_MIRROR_LOCK_TIMEOUT)))"

section \<open>Reconciliation at boot\<close>

datatype recovery_action = RaUnchanged | RaCreated u64 | RaExtended u64

definition refuse_diverged ::
  "mirror_ctx \<Rightarrow> u64 \<Rightarrow> u64 \<Rightarrow> u64 \<Rightarrow> recovery_action mirror_op" where
  "refuse_diverged c s mirror_max db_max =
     fs_bind (preserve_diverged_mirror c) (\<lambda>preserved.
       fs_fail (AMirrorDivergedFromDb s mirror_max db_max preserved))"

text \<open>
  The part of \<open>ensure_consistent_with_db\<close> after both heads were read. \<open>partition_point\<close> on the
  ascending mirror is the longest prefix within the database's head.
\<close>

definition reconcile_heads ::
  "mirror_ctx \<Rightarrow> ledger_row list \<Rightarrow> u64 \<Rightarrow> mirror_entry list \<Rightarrow> recovery_action mirror_op" where
  "reconcile_heads c rows db_max ms =
     (let mirror_max = fst (mirror_head ms);
          shared = takeWhile (\<lambda>m. m_seq m \<le> db_max) ms
      in fs_bind (fs_lift (first_divergent_seq (mc_env c) rows shared)) (\<lambda>divergent.
         case divergent of
           Some s \<Rightarrow> refuse_diverged c s mirror_max db_max
         | None \<Rightarrow>
             if mirror_max < db_max then
               fs_bind (append_db_entries_after_locked c rows mirror_max) (\<lambda>added.
                 fs_return (RaExtended added))
             else if db_max < mirror_max then
               fs_bind (preserve_ahead_mirror c) (\<lambda>preserved.
                 fs_fail (AMirrorAheadOfDb mirror_max db_max preserved))
             else if db_max = 0 then fs_return RaUnchanged
             else
               fs_bind (fs_lift (read_db_entry_at_seq (mc_env c) rows db_max)) (\<lambda>db_head.
               if map_option (\<lambda>e. hex_encode (mc_env c) (entry_hash e)) db_head =
                  snd (mirror_head ms)
               then fs_return RaUnchanged
               else refuse_diverged c db_max mirror_max db_max)))"

text \<open>\<open>existed\<close> is the probe of the file that the code takes before it has the lock.\<close>

definition ensure_after_probe ::
  "mirror_ctx \<Rightarrow> ledger_row list \<Rightarrow> bool \<Rightarrow> recovery_action mirror_op" where
  "ensure_after_probe c rows existed =
     fs_bind (lock_mirror_exclusive c) (\<lambda>_.
     fs_bind (fs_lift (read_db_max_seq (mc_env c) rows)) (\<lambda>db_max.
     if \<not> existed then
       fs_bind (rebuild_mirror_from_db_locked c rows) (\<lambda>written. fs_return (RaCreated written))
     else (\<lambda>fs.
       case read_mirror_under_tail_policy c fs of
         (Inr (Clean ms), fs') \<Rightarrow> reconcile_heads c rows db_max ms fs'
       | (Inr (TornTail ms _ _), fs') \<Rightarrow> reconcile_heads c rows db_max ms fs'
       | (Inr (DeepCorrupt preserved reason), fs') \<Rightarrow>
           fs_fail (AMirrorCorruptPreserved preserved reason) fs'
       | (Inl AMirrorIoNotFound, fs') \<Rightarrow>
           fs_bind (rebuild_mirror_from_db_locked c rows) (\<lambda>written. fs_return (RaCreated written)) fs'
       | (Inl e, fs') \<Rightarrow> (Inl e, fs'))))"

definition ensure_consistent_with_db :: "mirror_ctx \<Rightarrow> ledger_row list \<Rightarrow> recovery_action mirror_op" where
  "ensure_consistent_with_db c rows fs = ensure_after_probe c rows (mf_mirror fs \<noteq> None) fs"

section \<open>Replaying into a database\<close>

definition insert_mirror_entry_verbatim ::
  "ledger_env \<Rightarrow> mirror_entry \<Rightarrow> ledger_row list \<Rightarrow> append_error + ledger_row list" where
  \<comment> \<open>an INSERT of one VALUES row affects one row, so the conflict branch does not arise\<close>
  "insert_mirror_entry_verbatim env m rows =
     and_then (ok_or (AMirrorCorrupt ''prev_hash is not valid hex'') (hex_decode env (m_prev_hash m)))
       (\<lambda>prev.
     and_then (ok_or (AMirrorCorrupt ''binary_hash is not valid hex'') (hex_decode env (m_binary_hash m)))
       (\<lambda>bin.
     and_then (ok_or (AMirrorCorrupt ''entry_hash is not valid hex'') (hex_decode env (m_entry_hash m)))
       (\<lambda>eh.
     and_then (ok_or (AMirrorCorrupt ''payload is not valid base64'') (base64_decode env (m_payload m)))
       (\<lambda>pl.
       Inr (rows @
         [\<lparr>r_id = m_id m, r_seq = m_seq m, r_prev_hash = prev, r_time_wall = m_time_wall m,
           r_time_mono = m_time_mono m, r_actor = actor_to_json env (m_actor m),
           r_binary_hash = bin, r_tenant_id = m_tenant_id m, r_kind = m_kind m, r_payload = pl,
           r_idempotency_key = m_idempotency_key m, r_entry_hash = eh, r_session_id = None,
           r_session_pubkey = None, r_event_sig = None\<rparr>])))))"

definition replay_mirror_delta ::
  "ledger_env \<Rightarrow> mirror_json \<Rightarrow> byte list option \<Rightarrow> u64 \<Rightarrow> ledger_row list \<Rightarrow>
   append_error + nat \<times> ledger_row list" where
  "replay_mirror_delta env js file after rows =
     and_then (read_mirror_entries js file) (\<lambda>entries.
       let delta = filter (\<lambda>m. after < m_seq m) entries
       in and_then (fold_res (insert_mirror_entry_verbatim env) delta rows) (\<lambda>rows'.
            Inr (length delta, rows')))"

definition mirror_path_for :: "string \<Rightarrow> string" where
  "mirror_path_for db_path = db_path @ ''.audit.log''"

section \<open>Files of complete lines\<close>

definition file_of :: "mirror_json \<Rightarrow> mirror_entry list \<Rightarrow> byte list" where
  "file_of js ms = concat (map (encode_line js) ms)"

fun seqs_from :: "nat \<Rightarrow> mirror_entry list \<Rightarrow> bool" where
  "seqs_from n [] = True"
| "seqs_from n (m # ms) = (m_seq m = of_nat n + 1 \<and> seqs_from (Suc n) ms)"

fun linked :: "string option \<Rightarrow> mirror_entry list \<Rightarrow> bool" where
  "linked h [] = True"
| "linked h (m # ms) =
     ((case h of None \<Rightarrow> True | Some p \<Rightarrow> m_prev_hash m = p) \<and> linked (Some (m_entry_hash m)) ms)"

definition mirror_wf :: "mirror_entry list \<Rightarrow> bool" where
  "mirror_wf ms \<longleftrightarrow> seqs_from 0 ms \<and> linked None ms"

lemma json_okD:
  assumes "json_ok js"
  shows "json_from_str js (json_to_vec js m) = Some m" and "json_to_vec js m \<noteq> []"
    and "newline \<notin> set (json_to_vec js m)" and "carriage_return \<notin> set (json_to_vec js m)"
    and "utf8_valid (json_to_vec js m @ [newline])"
  using assms unfolding json_ok_def by blast+

lemma trim_end_matches_id: "b \<notin> set s \<Longrightarrow> trim_end_matches b s = s"
  by (induction s rule: rev_induct) (auto simp: trim_end_matches_def)

lemma trim_end_matches_snoc: "trim_end_matches b (s @ [b]) = trim_end_matches b s"
  by (simp add: trim_end_matches_def)

lemma trim_encode_line: "json_ok js \<Longrightarrow> trim_line (encode_line js m) = json_to_vec js m"
  by (simp add: trim_line_def encode_line_def trim_end_matches_snoc trim_end_matches_id json_okD)

lemma encode_line_utf8: "json_ok js \<Longrightarrow> utf8_valid (encode_line js m)"
  by (simp add: encode_line_def json_okD)

lemma split_inclusive_line:
  "newline \<notin> set l \<Longrightarrow> split_inclusive (l @ newline # bs) = (l @ [newline]) # split_inclusive bs"
  by (induction l) auto

lemma split_inclusive_file:
  "json_ok js \<Longrightarrow> split_inclusive (file_of js ms @ bs) = map (encode_line js) ms @ split_inclusive bs"
  by (induction ms) (simp_all add: file_of_def encode_line_def split_inclusive_line json_okD)

lemma read_lines_file:
  "json_ok js \<Longrightarrow> seqs_from (length out) ms \<Longrightarrow>
   read_lines js out (map (encode_line js) ms) = Inr (out @ ms)"
  by (induction ms arbitrary: out) (simp_all add: trim_encode_line json_okD encode_line_utf8)

lemma parse_and_reverify_file:
  "json_ok js \<Longrightarrow> seqs_from (length out) ms \<Longrightarrow>
   linked (if out = [] then None else Some (m_entry_hash (last out))) ms \<Longrightarrow>
   parse_and_reverify js out (map (encode_line js) ms) = Inr (out @ ms)"
  by (induction ms arbitrary: out)
     (auto simp: trim_encode_line json_okD encode_line_utf8 split: if_splits)

lemma file_of_Nil [simp]: "file_of js [] = []"
  by (simp add: file_of_def)

lemma file_of_append [simp]: "file_of js (ms @ ns) = file_of js ms @ file_of js ns"
  by (simp add: file_of_def)

lemma file_of_snoc_last: "ms \<noteq> [] \<Longrightarrow> last (file_of js ms) = newline \<and> file_of js ms \<noteq> []"
  by (cases ms rule: rev_cases) (simp_all add: file_of_def encode_line_def)

lemma file_of_eq_Nil [simp]: "file_of js ms = [] \<longleftrightarrow> ms = []"
  using file_of_snoc_last [of ms js] by auto

lemma read_mirror_entries_file:
  assumes "json_ok js" and "seqs_from 0 ms"
  shows "read_mirror_entries js (Some (file_of js ms)) = Inr ms"
  using assms read_lines_file [of js "[]" ms] split_inclusive_file [of js ms "[]"]
    file_of_snoc_last [of ms js]
  by (cases "ms = []") (simp_all add: read_mirror_entries_def)

lemma terminated_prefix_len_file:
  assumes "newline \<notin> set t"
  shows "terminated_prefix_len (file_of js ms @ t) = length (file_of js ms)"
proof -
  have t: "takeWhile (\<lambda>b. b \<noteq> newline) (rev t @ xs) = rev t @ takeWhile (\<lambda>b. b \<noteq> newline) xs" for xs
    using assms by (intro takeWhile_append2) auto
  have "takeWhile (\<lambda>b. b \<noteq> newline) (rev (file_of js ms)) = []"
    using file_of_snoc_last [of ms js]
    by (cases "ms = []") (simp_all add: takeWhile_eq_Nil_iff hd_rev)
  then show ?thesis by (simp add: terminated_prefix_len_def t)
qed

lemma classify_file:
  assumes "json_ok js" and "mirror_wf ms" and "newline \<notin> set t"
  shows "classify_mirror_bytes js (file_of js ms @ t) =
    (if t = [] then TdClean else TdTornTail, ms, length (file_of js ms), None)"
proof -
  have parse: "parse_and_reverify_prefix js (file_of js ms) = Inr ms"
    using assms(1,2) parse_and_reverify_file [of js "[]" ms] split_inclusive_file [of js ms "[]"]
    by (simp add: parse_and_reverify_prefix_def mirror_wf_def)
  show ?thesis
  proof (cases "file_of js ms @ t = []")
    case True
    then show ?thesis by (simp add: classify_mirror_bytes_def)
  next
    case False
    have "last (file_of js ms @ t) = newline \<longleftrightarrow> t = []"
      using False assms(3) file_of_snoc_last [of ms js]
      by (metis append_Nil2 file_of_eq_Nil last_append last_in_set)
    then show ?thesis
      using False parse terminated_prefix_len_file [OF assms(3), of js ms]
      by (simp add: classify_mirror_bytes_def Let_def decide_tail_def)
  qed
qed

section \<open>No bytes are lost\<close>

definition evidenced :: "mirror_fs \<Rightarrow> byte list \<Rightarrow> bool" where
  \<comment> \<open>the bytes are at the start of some file\<close>
  "evidenced fs bs \<longleftrightarrow>
     (\<exists>f. mf_mirror fs = Some f \<and> prefix bs f) \<or> (\<exists>n f. (n, f) \<in> set (mf_dir fs) \<and> prefix bs f)"

definition keeps_files :: "mirror_fs \<Rightarrow> mirror_fs \<Rightarrow> bool" where
  "keeps_files fs fs' \<longleftrightarrow>
     set (mf_dir fs) \<subseteq> set (mf_dir fs') \<and> (\<forall>f. mf_mirror fs = Some f \<longrightarrow> evidenced fs' f)"

definition fresh_backups :: "mirror_ctx \<Rightarrow> mirror_fs \<Rightarrow> bool" where
  \<comment> \<open>the clock has moved on since the backups in the directory were named\<close>
  "fresh_backups c fs \<longleftrightarrow>
     (\<forall>ifx \<in> {''diverged'', ''corrupt'', ''ahead''}. backup_name c ifx \<notin> fst ` set (mf_dir fs))"

lemma keeps_files_refl [simp]: "keeps_files fs fs"
  by (auto simp: keeps_files_def evidenced_def)

lemma keeps_files_evidenced: "keeps_files fs fs' \<Longrightarrow> evidenced fs bs \<Longrightarrow> evidenced fs' bs"
  unfolding keeps_files_def evidenced_def by (meson prefix_order.trans subsetD)

lemma keeps_files_trans: "keeps_files fs fs' \<Longrightarrow> keeps_files fs' fs'' \<Longrightarrow> keeps_files fs fs''"
  using keeps_files_evidenced unfolding keeps_files_def by (meson subset_trans)

lemma fs_op_simps [simp]:
  "fs_return x fs = (Inr x, fs)" "fs_fail e fs = (Inl e, fs)" "fs_lift r fs = (r, fs)"
  "fs_read fs = (ok_or AMirrorIoNotFound (mf_mirror fs), fs)"
  by (simp_all add: fs_return_def fs_fail_def fs_lift_def fs_read_def)

lemma fs_bind_Inr: "m fs = (Inr x, fs') \<Longrightarrow> fs_bind m f fs = f x fs'"
  by (simp add: fs_bind_def)

lemma fs_bind_Inl: "m fs = (Inl e, fs') \<Longrightarrow> fs_bind m f fs = (Inl e, fs')"
  by (simp add: fs_bind_def)

lemma keeps_bind:
  assumes "keeps_files fs (snd (m fs))"
    and "\<And>x fs'. m fs = (Inr x, fs') \<Longrightarrow> keeps_files fs' (snd (f x fs'))"
  shows "keeps_files fs (snd (fs_bind m f fs))"
  using assms by (cases "m fs"; cases "fst (m fs)")
    (auto simp: fs_bind_def intro: keeps_files_trans)

lemma keeps_append: "keeps_files fs (snd (fs_append bs fs))"
  by (auto simp: fs_append_def keeps_files_def evidenced_def split: option.splits)

lemma keeps_open: "keeps_files fs (snd (open_mirror_for_append fs))"
  by (auto simp: open_mirror_for_append_def keeps_files_def evidenced_def)

lemma keeps_write_entries: "keeps_files fs (snd (write_entries c es fs))"
  by (induction es arbitrary: fs) (auto intro!: keeps_bind keeps_append)

lemma put_file_fresh:
  "n \<notin> fst ` set dir \<Longrightarrow> set (put_file n bs dir) = insert (n, bs) (set dir)"
  by (force simp: put_file_def)

text \<open>What preserving does: the mirror stays, and its bytes are the whole of the named file.\<close>

lemma preserve_copy:
  assumes "mf_mirror fs = Some bs" and "backup_name c ifx \<notin> fst ` set (mf_dir fs)"
  obtains f dir where "preserve_mirror_copy c ifx fs = (Inr f, fs\<lparr>mf_dir := dir\<rparr>)"
    and "(f, bs) \<in> set dir" and "set (mf_dir fs) \<subseteq> set dir"
    and "fst ` set dir \<subseteq> insert (backup_name c ifx) (fst ` set (mf_dir fs))"
proof (cases "find (\<lambda>(f, b). prefix (backup_prefix c ifx) f \<and> suffix ''.bak'' f \<and> b = bs) (mf_dir fs)")
  case None
  then show ?thesis
    using assms that [of "backup_name c ifx" "put_file (backup_name c ifx) bs (mf_dir fs)"]
    by (auto simp: preserve_mirror_copy_def fs_bind_def put_file_fresh)
next
  case (Some x)
  obtain f b where x: "x = (f, b)" by (cases x)
  then have "(f, bs) \<in> set (mf_dir fs)"
    using Some by (auto simp: find_Some_iff in_set_conv_nth)
  moreover have "preserve_mirror_copy c ifx fs = (Inr f, fs\<lparr>mf_dir := mf_dir fs\<rparr>)"
    using Some x assms(1) by (simp add: preserve_mirror_copy_def fs_bind_def)
  ultimately show ?thesis using that [of f "mf_dir fs"] by auto
qed

lemma preserve_none: "mf_mirror fs = None \<Longrightarrow> preserve_mirror_copy c ifx fs = (Inl AMirrorIoNotFound, fs)"
  by (simp add: preserve_mirror_copy_def fs_bind_def)

lemma keeps_preserve:
  assumes "backup_name c ifx \<notin> fst ` set (mf_dir fs)"
  shows "keeps_files fs (snd (preserve_mirror_copy c ifx fs))"
proof (cases "mf_mirror fs")
  case None
  then show ?thesis by (simp add: preserve_none)
next
  case (Some bs)
  then show ?thesis using assms
    by (rule preserve_copy [where c = c and ifx = ifx])
       (auto simp: keeps_files_def evidenced_def)
qed

lemma keeps_trim_preserved:
  assumes "(f, bs) \<in> set (mf_dir fs)" and "mf_mirror fs = Some bs"
  shows "keeps_files fs (snd (trim_mirror_to_inner n fs))"
  using assms by (auto simp: trim_mirror_to_inner_def fs_set_len_def keeps_files_def evidenced_def)

lemma backup_names_differ:
  "ifx \<noteq> ifx' \<Longrightarrow> {ifx, ifx'} \<subseteq> {''diverged'', ''corrupt'', ''ahead''} \<Longrightarrow>
   backup_name c ifx \<noteq> backup_name c ifx'"
  by (auto simp: backup_name_def backup_prefix_def)

text \<open>Reading under the tail policy: at most one new file, a corrupt-kind backup.\<close>

lemma tail_policy_keeps:
  assumes "backup_name c ''corrupt'' \<notin> fst ` set (mf_dir fs)"
    and "read_mirror_under_tail_policy c fs = (r, fs')"
  shows "keeps_files fs fs' \<and>
    fst ` set (mf_dir fs') \<subseteq> insert (backup_name c ''corrupt'') (fst ` set (mf_dir fs)) \<and>
    (r = Inl AMirrorIoNotFound \<longleftrightarrow> mf_mirror fs = None) \<and> (mf_mirror fs = None \<longrightarrow> fs' = fs)"
proof (cases "mf_mirror fs")
  case None
  then show ?thesis using assms(2) by (auto simp: read_mirror_under_tail_policy_def fs_bind_def)
next
  case (Some bs)
  obtain d es n reason where cl: "classify_mirror_bytes (mc_json c) bs = (d, es, n, reason)"
    by (cases "classify_mirror_bytes (mc_json c) bs")
  obtain f dir where p: "preserve_corrupt_mirror c fs = (Inr f, fs\<lparr>mf_dir := dir\<rparr>)"
    "(f, bs) \<in> set dir" "set (mf_dir fs) \<subseteq> set dir"
    "fst ` set dir \<subseteq> insert (backup_name c ''corrupt'') (fst ` set (mf_dir fs))"
    using preserve_copy [OF Some assms(1)] unfolding preserve_corrupt_mirror_def by metis
  have keep: "keeps_files fs fs''" if "mf_dir fs'' = dir" for fs''
    using Some p(2,3) that by (auto simp: keeps_files_def evidenced_def)
  have "r \<noteq> Inl AMirrorIoNotFound \<and> (fs' = fs \<or> mf_dir fs' = dir)"
    using assms(2) Some cl p(1)
    by (cases d) (auto simp: read_mirror_under_tail_policy_def fs_bind_def
          trim_mirror_to_inner_def fs_set_len_def)
  then show ?thesis using Some keep p(4) by auto
qed

lemma keeps_refuse_diverged:
  "backup_name c ''diverged'' \<notin> fst ` set (mf_dir fs) \<Longrightarrow>
   keeps_files fs (snd (refuse_diverged c s a b fs))"
  unfolding refuse_diverged_def preserve_diverged_mirror_def
  by (rule keeps_bind) (simp_all add: keeps_preserve)

lemma keeps_append_db: "keeps_files fs (snd (append_db_entries_after_locked c rows after fs))"
  unfolding append_db_entries_after_locked_def
  by (intro keeps_bind keeps_write_entries) simp_all

lemma keeps_reconcile:
  assumes "backup_name c ''diverged'' \<notin> fst ` set (mf_dir fs)"
    and "backup_name c ''ahead'' \<notin> fst ` set (mf_dir fs)"
  shows "keeps_files fs (snd (reconcile_heads c rows db_max ms fs))"
  unfolding reconcile_heads_def Let_def
proof (rule keeps_bind, simp, goal_cases)
  case (1 divergent fs')
  then have [simp]: "fs' = fs" by simp
  have ahead: "keeps_files fs (snd (fs_bind (preserve_ahead_mirror c) (\<lambda>p. fs_fail (f p)) fs))" for f
    unfolding preserve_ahead_mirror_def by (rule keeps_bind) (simp_all add: keeps_preserve assms(2))
  have extend: "keeps_files fs (snd (fs_bind (append_db_entries_after_locked c rows s)
      (\<lambda>x. fs_return (g x)) fs))" for s and g :: "u64 \<Rightarrow> recovery_action"
    by (rule keeps_bind) (simp_all add: keeps_append_db)
  have same: "keeps_files fs (snd (fs_bind (fs_lift r) (\<lambda>h. if P h then fs_return RaUnchanged
      else refuse_diverged c s a b) fs))" for r :: "append_error + entry option" and P s a b
    by (rule keeps_bind) (auto simp: keeps_refuse_diverged assms(1))
  show ?case
    by (auto simp: keeps_refuse_diverged assms(1) ahead extend same split: option.splits)
qed

lemma keeps_rebuild:
  "mf_mirror fs = None \<or> mf_mirror fs = Some [] \<Longrightarrow>
   keeps_files fs (snd (rebuild_mirror_from_db_locked c rows fs))"
  unfolding rebuild_mirror_from_db_locked_def
  by (intro keeps_bind keeps_write_entries)
     (auto simp: fs_set_len_def keeps_files_def evidenced_def)

lemma lock_mirror_result:
  "lock_mirror_exclusive c fs =
   (lock_exclusive_bounded c RECONCILE_LOCK_TIMEOUT,
    fs\<lparr>mf_mirror := Some (case mf_mirror fs of None \<Rightarrow> [] | Some bytes \<Rightarrow> bytes)\<rparr>)"
  by (simp add: lock_mirror_exclusive_def fs_bind_def open_mirror_for_append_def)

lemma keeps_ensure:
  assumes fresh: "fresh_backups c fs"
  shows "keeps_files fs (snd (ensure_consistent_with_db c rows fs))"
proof -
  let ?bytes = "case mf_mirror fs of None \<Rightarrow> [] | Some bytes \<Rightarrow> bytes"
  define opened where "opened = fs\<lparr>mf_mirror := Some ?bytes\<rparr>"
  have dir: "mf_dir opened = mf_dir fs" by (simp add: opened_def)
  have created: "keeps_files opened (snd (fs_bind (rebuild_mirror_from_db_locked c rows)
      (\<lambda>w. fs_return (g w)) opened))"
    if "mf_mirror fs = None" for g :: "u64 \<Rightarrow> recovery_action"
    using that by (intro keeps_bind keeps_rebuild) (simp_all add: opened_def)
  have existing: "keeps_files opened (snd (case read_mirror_under_tail_policy c opened of
         (Inr (Clean ms), fs') \<Rightarrow> reconcile_heads c rows db_max ms fs'
       | (Inr (TornTail ms p d), fs') \<Rightarrow> reconcile_heads c rows db_max ms fs'
       | (Inr (DeepCorrupt preserved reason), fs') \<Rightarrow>
           fs_fail (AMirrorCorruptPreserved preserved reason) fs'
       | (Inl AMirrorIoNotFound, fs') \<Rightarrow>
           fs_bind (rebuild_mirror_from_db_locked c rows) (\<lambda>w. fs_return (RaCreated w)) fs'
       | (Inl e, fs') \<Rightarrow> (Inl e, fs')))" for db_max
  proof -
    obtain r fs' where t: "read_mirror_under_tail_policy c opened = (r, fs')"
      by (cases "read_mirror_under_tail_policy c opened")
    have k: "keeps_files opened fs'"
      "fst ` set (mf_dir fs') \<subseteq> insert (backup_name c ''corrupt'') (fst ` set (mf_dir fs))"
      "r \<noteq> Inl AMirrorIoNotFound"
      using tail_policy_keeps [OF _ t] fresh dir by (auto simp: fresh_backups_def opened_def)
    have "backup_name c ''diverged'' \<noteq> backup_name c ''corrupt''"
      "backup_name c ''ahead'' \<noteq> backup_name c ''corrupt''"
      by (simp_all add: backup_names_differ)
    with k(2) fresh have "backup_name c ''diverged'' \<notin> fst ` set (mf_dir fs')"
      "backup_name c ''ahead'' \<notin> fst ` set (mf_dir fs')"
      unfolding fresh_backups_def by blast+
    then have rec: "keeps_files opened (snd (reconcile_heads c rows db_max ms fs'))" for ms
      using keeps_files_trans [OF k(1) keeps_reconcile] by blast
    show ?thesis using k(1,3) rec
      by (auto simp: t split: sum.splits mirror_tail_policy.splits append_error.splits)
  qed
  have "keeps_files fs (snd (lock_mirror_exclusive c fs))"
    by (auto simp: lock_mirror_result keeps_files_def evidenced_def)
  then show ?thesis
    unfolding ensure_consistent_with_db_def ensure_after_probe_def
  proof (rule keeps_bind, goal_cases)
    case (1 u fs')
    then have fs': "fs' = opened" by (simp add: lock_mirror_result opened_def)
    show ?case unfolding fs'
      by (rule keeps_bind) (use created existing in \<open>auto split: if_splits\<close>)
  qed
qed

lemma keeps_sync_locked: "keeps_files fs (snd (sync_mirror_locked c rows fs))"
  unfolding sync_mirror_locked_def
  by (auto intro!: keeps_bind keeps_write_entries split: prod.splits)

lemma keeps_sync: "keeps_files fs (snd (sync_mirror c rows fs))"
  unfolding sync_mirror_def by (intro keeps_bind keeps_open keeps_sync_locked)

lemma keeps_lockstep: "keeps_files fs (snd (sync_mirror_lockstep c rows fs))"
  unfolding sync_mirror_lockstep_def
  by (auto intro!: keeps_bind keeps_open keeps_sync_locked)

text \<open>The contract of an operation on the mirror, and the four operations of the module.\<close>

locale keeps_evidence =
  fixes run :: "'c \<Rightarrow> 'a mirror_op" and ready :: "'c \<Rightarrow> mirror_fs \<Rightarrow> bool"
  assumes keeps: "ready c fs \<Longrightarrow> keeps_files fs (snd (run c fs))"
begin

lemma evidence_survives:
  "ready c fs \<Longrightarrow> evidenced fs bs \<Longrightarrow> evidenced (snd (run c fs)) bs"
  using keeps keeps_files_evidenced by blast

lemma mirror_survives:
  "ready c fs \<Longrightarrow> mf_mirror fs = Some bs \<Longrightarrow> evidenced (snd (run c fs)) bs"
  by (rule evidence_survives) (auto simp: evidenced_def)

lemma backups_survive:
  "ready c fs \<Longrightarrow> b \<in> set (mf_dir fs) \<Longrightarrow> b \<in> set (mf_dir (snd (run c fs)))"
  using keeps [of c fs] by (auto simp: keeps_files_def)

end

interpretation syncing: keeps_evidence "\<lambda>(c, rows). sync_mirror c rows" "\<lambda>_ _. True"
  by unfold_locales (auto simp: keeps_sync)

interpretation lockstep: keeps_evidence "\<lambda>(c, rows). sync_mirror_lockstep c rows" "\<lambda>_ _. True"
  by unfold_locales (auto simp: keeps_lockstep)

interpretation reconciling: keeps_evidence "\<lambda>(c, rows). ensure_consistent_with_db c rows"
  "\<lambda>(c, rows). fresh_backups c"
  by unfold_locales (auto simp: keeps_ensure)

interpretation reading: keeps_evidence read_mirror_under_tail_policy fresh_backups
proof
  fix c fs assume "fresh_backups c fs"
  then show "keeps_files fs (snd (read_mirror_under_tail_policy c fs))"
    using tail_policy_keeps [of c fs] by (cases "read_mirror_under_tail_policy c fs")
      (auto simp: fresh_backups_def)
qed

end
