(* ===== verification/Audit_Session.thy ===== *)
theory Audit_Session
  imports Audit_Storage "HOL-Library.Product_Lexorder"
begin

text \<open>
  Sessions and timestamp anchors (crates/audit-ledger/src/session/mod.rs and anchors.rs)
  and the extended verification \<open>verify_chain_signed\<close> (chain/verify.rs). The timestamp
  authority is the trait of tsa.rs: a record of its three operations. A session database
  holds the ledger rows and the anchor rows; every operation that reads the clock or draws a
  ULID takes the next tick of a \<open>time_source\<close>.
\<close>

section \<open>Anchors\<close>

datatype anchor_kind =
  LoginOpen | Heartbeat | LogoutClose | ServiceOpen | ServiceClose | ServiceEndorse

fun anchor_kind_as_str :: "anchor_kind \<Rightarrow> string" where
  "anchor_kind_as_str LoginOpen = ''LoginOpen''"
| "anchor_kind_as_str Heartbeat = ''Heartbeat''"
| "anchor_kind_as_str LogoutClose = ''LogoutClose''"
| "anchor_kind_as_str ServiceOpen = ''ServiceOpen''"
| "anchor_kind_as_str ServiceClose = ''ServiceClose''"
| "anchor_kind_as_str ServiceEndorse = ''ServiceEndorse''"

definition anchor_kind_from_token :: "string \<Rightarrow> unit + anchor_kind" where
  "anchor_kind_from_token s =
    (if s = ''LoginOpen'' then Inr LoginOpen
     else if s = ''Heartbeat'' then Inr Heartbeat
     else if s = ''LogoutClose'' then Inr LogoutClose
     else if s = ''ServiceOpen'' then Inr ServiceOpen
     else if s = ''ServiceClose'' then Inr ServiceClose
     else if s = ''ServiceEndorse'' then Inr ServiceEndorse
     else Inl ())"

interpretation anchor_kind_codec: storage_codec anchor_kind_as_str anchor_kind_from_token
proof
  show "anchor_kind_from_token (anchor_kind_as_str x) = Inr x" for x
    by (cases x) (simp_all add: anchor_kind_from_token_def)
  show "anchor_kind_as_str x = s" if "anchor_kind_from_token s = Inr x" for s x
    using that by (auto simp: anchor_kind_from_token_def split: if_splits)
qed

definition anchor_is_open :: "anchor_kind \<Rightarrow> bool" where
  "anchor_is_open k \<longleftrightarrow> k = LoginOpen \<or> k = ServiceOpen"

definition anchor_is_close :: "anchor_kind \<Rightarrow> bool" where
  "anchor_is_close k \<longleftrightarrow> k = LogoutClose \<or> k = ServiceClose"

datatype tsa_status = Anchored | Pending | Failed

fun tsa_status_as_str :: "tsa_status \<Rightarrow> string" where
  "tsa_status_as_str Anchored = ''anchored''"
| "tsa_status_as_str Pending = ''pending''"
| "tsa_status_as_str Failed = ''failed''"

definition tsa_status_from_token :: "string \<Rightarrow> tsa_status" where
  "tsa_status_from_token s =
    (if s = ''anchored'' then Anchored else if s = ''failed'' then Failed else Pending)"

lemma tsa_status_roundtrip: "tsa_status_from_token (tsa_status_as_str s) = s"
  by (cases s) (simp_all add: tsa_status_from_token_def)

record anchor =
  a_id :: string
  a_tenant_id :: string
  a_session_id :: string
  a_kind :: anchor_kind
  a_chain_head_hash :: string
  a_token :: "byte list option"
  a_tsa_identifier :: string
  a_tsa_status :: tsa_status
  a_created_at :: string

record anchor_row =
  ar_id :: string
  ar_tenant_id :: string
  ar_session_id :: string
  ar_kind :: string
  ar_chain_head_hash :: string
  ar_token :: "byte list option"
  ar_tsa_identifier :: string
  ar_tsa_status :: string
  ar_created_at :: string

definition row_of_anchor :: "anchor \<Rightarrow> anchor_row" where
  "row_of_anchor a =
     \<lparr>ar_id = a_id a, ar_tenant_id = a_tenant_id a, ar_session_id = a_session_id a,
      ar_kind = anchor_kind_as_str (a_kind a), ar_chain_head_hash = a_chain_head_hash a,
      ar_token = a_token a, ar_tsa_identifier = a_tsa_identifier a,
      ar_tsa_status = tsa_status_as_str (a_tsa_status a), ar_created_at = a_created_at a\<rparr>"

definition row_to_anchor :: "anchor_row \<Rightarrow> append_error + anchor" where
  "row_to_anchor r =
     and_then (map_err (\<lambda>_. AStorage ''unknown anchor kind'') (anchor_kind_from_token (ar_kind r)))
       (\<lambda>k. Inr
         \<lparr>a_id = ar_id r, a_tenant_id = ar_tenant_id r, a_session_id = ar_session_id r,
          a_kind = k, a_chain_head_hash = ar_chain_head_hash r, a_token = ar_token r,
          a_tsa_identifier = ar_tsa_identifier r,
          a_tsa_status = tsa_status_from_token (ar_tsa_status r),
          a_created_at = ar_created_at r\<rparr>)"

lemma anchor_roundtrip: "row_to_anchor (row_of_anchor a) = Inr a"
  by (cases a)
     (simp add: row_to_anchor_def row_of_anchor_def anchor_kind_codec.from_as tsa_status_roundtrip)

definition anchor_preimage ::
  "anchor_kind \<Rightarrow> string \<Rightarrow> string \<Rightarrow> string \<Rightarrow> string \<Rightarrow> byte list" where
  "anchor_preimage k tenant sid head_hex created =
     bytes_of (anchor_kind_as_str k) @ bytes_of ''|'' @ bytes_of tenant @ bytes_of ''|'' @
     bytes_of sid @ bytes_of ''|'' @ bytes_of head_hex @ bytes_of ''|'' @ bytes_of created"

section \<open>The timestamp authority and the clock\<close>

datatype tsa_error = Network string | Verification string | NotImplemented string

record timestamp_token =
  tok_bytes :: "byte list"
  tok_issued_at :: string
  tok_identifier :: string

record tsa =
  tsa_ident :: string
  tsa_timestamp :: "byte list \<Rightarrow> tsa_error + timestamp_token"
  tsa_verify :: "byte list \<Rightarrow> timestamp_token \<Rightarrow> bool"

record time_source =
  sup_ulid :: "nat \<Rightarrow> nat"
  sup_now :: "nat \<Rightarrow> int"
  sup_mono :: "nat \<Rightarrow> u64"

definition stamp_at :: "time_source \<Rightarrow> nat \<Rightarrow> append_stamp" where
  "stamp_at src t = \<lparr>st_ulid = sup_ulid src t, st_now = sup_now src t, st_mono = sup_mono src t\<rparr>"

record session_db =
  sd_rows :: "ledger_row list"
  sd_anchors :: "anchor_row list"
  sd_tick :: nat

record session_env =
  se_env :: ledger_env
  se_meta :: ledger_meta
  se_supply :: time_source
  se_tsa :: tsa
  se_json :: "(string \<times> string) list \<Rightarrow> byte list" \<comment> \<open>\<open>serde_json\<close> on a flat object\<close>
  se_actor :: actor

definition se_now :: "session_env \<Rightarrow> nat \<Rightarrow> string" where
  "se_now se t = rfc3339_format (se_env se) (sup_now (se_supply se) t)"

section \<open>Operations\<close>

definition take_anchor ::
  "session_env \<Rightarrow> string \<Rightarrow> anchor_kind \<Rightarrow> string \<Rightarrow> session_db \<Rightarrow>
   append_error + anchor \<times> session_db" where
  "take_anchor se sid k head_hex db =
     (let t = sd_tick db; tenant = meta_tenant_id (se_meta se); created = se_now se t;
          pre = anchor_preimage k tenant sid head_hex created
      in and_then
           (case tsa_timestamp (se_tsa se) pre of
              Inr token \<Rightarrow> Inr (Some (tok_bytes token), Anchored)
            | Inl (Network _) \<Rightarrow> Inr (None, Pending)
            | Inl _ \<Rightarrow> Inl (ATsa ''timestamp authority error''))
           (\<lambda>(token, status).
              let a = \<lparr>a_id = ''anc_'' @ ulid_to_string (se_env se) (sup_ulid (se_supply se) t),
                       a_tenant_id = tenant, a_session_id = sid, a_kind = k,
                       a_chain_head_hash = head_hex, a_token = token,
                       a_tsa_identifier = tsa_ident (se_tsa se), a_tsa_status = status,
                       a_created_at = created\<rparr>
              in Inr (a, db\<lparr>sd_anchors := sd_anchors db @ [row_of_anchor a],
                            sd_tick := Suc t\<rparr>)))"

definition ledger_take_anchor ::
  "session_env \<Rightarrow> string \<Rightarrow> anchor_kind \<Rightarrow> session_db \<Rightarrow> append_error + anchor \<times> session_db" where
  "ledger_take_anchor se sid k db =
     and_then (chain_head_hash_hex (se_env se) (meta_tenant_id (se_meta se)) (sd_rows db))
       (\<lambda>head_hex. take_anchor se sid k head_hex db)"

definition append_signed ::
  "session_env \<Rightarrow> event_kind \<Rightarrow> byte list \<Rightarrow> session_context \<Rightarrow> session_db \<Rightarrow>
   append_error + session_db" where
  "append_signed se k pl session db =
     and_then (append_in_tx_signed (se_env se) (se_meta se) (stamp_at (se_supply se) (sd_tick db))
                 k [] pl (se_actor se) None (Some session) (sd_rows db))
       (\<lambda>(_, rows). Inr (db\<lparr>sd_rows := rows, sd_tick := Suc (sd_tick db)\<rparr>))"

definition open_operator_session ::
  "session_env \<Rightarrow> string \<times> string \<times> string \<times> string \<Rightarrow> nat \<Rightarrow> session_db \<Rightarrow>
   append_error + (session_context \<times> anchor) \<times> session_db" where
  "open_operator_session se ident key db =
     (let (subject, name, attested, source) = ident; t = sd_tick db;
          ctx = \<lparr>sc_session_id = ''ses_'' @ ulid_to_string (se_env se) (sup_ulid (se_supply se) t),
                 sc_identity = Operator subject name attested source, sc_key = key\<rparr>;
          pl = se_json se
            [(''session_id'', sc_session_id ctx),
             (''session_pubkey'', ed25519_pubkey_hex (se_env se) key),
             (''operator_dap_subject'', subject), (''identity_source'', source),
             (''opened_at_utc'', se_now se t)]
      in and_then (append_signed se (SessionEvent SessionOpened) pl ctx (db\<lparr>sd_tick := Suc t\<rparr>)) (\<lambda>db'.
         and_then (ledger_take_anchor se (sc_session_id ctx) LoginOpen db') (\<lambda>(a, db'').
           Inr ((ctx, a), db''))))"

definition open_service_session ::
  "session_env \<Rightarrow> nat \<Rightarrow> session_db \<Rightarrow>
   append_error + (session_context \<times> anchor) \<times> session_db" where
  "open_service_session se key db =
     (let t = sd_tick db; pub = ed25519_pubkey_hex (se_env se) key;
          ctx = \<lparr>sc_session_id = ''svc_'' @ ulid_to_string (se_env se) (sup_ulid (se_supply se) t),
                 sc_identity = Service pub ''pending'', sc_key = key\<rparr>;
          pl = se_json se
            [(''session_id'', sc_session_id ctx), (''service_pubkey'', pub),
             (''opened_at_utc'', se_now se t)]
      in and_then (append_signed se (SessionEvent ServiceSessionOpened) pl ctx (db\<lparr>sd_tick := Suc t\<rparr>)) (\<lambda>db'.
         and_then (ledger_take_anchor se (sc_session_id ctx) ServiceOpen db') (\<lambda>(a, db'').
           Inr ((ctx, a), db''))))"

definition endorse_service_session ::
  "session_env \<Rightarrow> session_context \<Rightarrow> string \<Rightarrow> string \<Rightarrow> session_db \<Rightarrow>
   append_error + anchor \<times> session_db" where
  "endorse_service_session se operator pub subject db =
     (let pl = se_json se
            [(''service_pubkey'', pub), (''operator_dap_subject'', subject),
             (''endorsed_at_utc'', se_now se (sd_tick db))]
      in and_then (append_signed se (SessionEvent ServiceSessionEndorsed) pl operator db) (\<lambda>db'.
           ledger_take_anchor se (sc_session_id operator) ServiceEndorse db'))"

definition heartbeat ::
  "session_env \<Rightarrow> session_context \<Rightarrow> session_db \<Rightarrow> append_error + anchor \<times> session_db" where
  "heartbeat se session db =
     and_then (ledger_take_anchor se (sc_session_id session) Heartbeat db) (\<lambda>(a, db').
       let k = (case a_tsa_status a of Anchored \<Rightarrow> (SessionEvent TimestampAnchorTaken) | _ \<Rightarrow> (SessionEvent TimestampAnchorDelayed));
           pl = se_json se
             [(''session_id'', sc_session_id session), (''anchor_id'', a_id a),
              (''anchor_kind'', anchor_kind_as_str (a_kind a)),
              (''tsa_status'', tsa_status_as_str (a_tsa_status a)),
              (''chain_head_hash'', a_chain_head_hash a)]
       in and_then (append_signed se k pl session db') (\<lambda>db''. Inr (a, db'')))"

definition close_operator_session ::
  "session_env \<Rightarrow> session_context \<Rightarrow> session_db \<Rightarrow> append_error + anchor \<times> session_db" where
  "close_operator_session se session db =
     and_then (append_signed se (SessionEvent SessionClosed)
                 (se_json se [(''session_id'', sc_session_id session),
                              (''closed_at_utc'', se_now se (sd_tick db))]) session db)
       (\<lambda>db'. ledger_take_anchor se (sc_session_id session) LogoutClose db')"

definition close_service_session ::
  "session_env \<Rightarrow> session_context \<Rightarrow> session_db \<Rightarrow> append_error + anchor \<times> session_db" where
  "close_service_session se session db =
     and_then (append_signed se (SessionEvent ServiceSessionClosed)
                 (se_json se [(''session_id'', sc_session_id session),
                              (''closed_at_utc'', se_now se (sd_tick db))]) session db)
       (\<lambda>db'. ledger_take_anchor se (sc_session_id session) ServiceClose db')"

section \<open>Open sessions and crash recovery\<close>

definition anchors_for_tenant :: "string \<Rightarrow> anchor_row list \<Rightarrow> append_error + anchor list" where
  "anchors_for_tenant tenant rows =
     collect_res (map row_to_anchor
       (sort_key (\<lambda>r. (ar_created_at r, ar_id r)) (filter (\<lambda>r. ar_tenant_id r = tenant) rows)))"

fun scan_sessions :: "anchor list \<Rightarrow> string list \<Rightarrow> string list \<Rightarrow> string list \<times> string list" where
  "scan_sessions [] opened closed = (opened, closed)"
| "scan_sessions (a # as) opened closed =
     scan_sessions as
       (if anchor_is_open (a_kind a) \<and> a_session_id a \<notin> set opened
        then opened @ [a_session_id a] else opened)
       (if anchor_is_close (a_kind a) then a_session_id a # closed else closed)"

definition open_sessions :: "anchor list \<Rightarrow> string list" where
  "open_sessions as =
     (let (opened, closed) = scan_sessions as [] [] in filter (\<lambda>s. s \<notin> set closed) opened)"

definition open_sessions_without_close ::
  "string \<Rightarrow> anchor_row list \<Rightarrow> append_error + string list" where
  "open_sessions_without_close tenant rows =
     and_then (anchors_for_tenant tenant rows) (\<lambda>as. Inr (open_sessions as))"

fun recover_orphans ::
  "session_env \<Rightarrow> session_context \<Rightarrow> string list \<Rightarrow> session_db \<Rightarrow>
   append_error + (string \<times> anchor) list \<times> session_db" where
  "recover_orphans se boot [] db = Inr ([], db)"
| "recover_orphans se boot (o1 # os) db =
     (if o1 = sc_session_id boot then recover_orphans se boot os db
      else
        and_then (append_signed se (SessionEvent SessionCrashRecovered)
                    (se_json se [(''orphan_session_id'', o1),
                                 (''recovered_by_session'', sc_session_id boot),
                                 (''recovered_at_utc'', se_now se (sd_tick db))]) boot db) (\<lambda>db1.
        and_then (ledger_take_anchor se o1 LogoutClose db1) (\<lambda>(a, db2).
        and_then (recover_orphans se boot os db2) (\<lambda>(rs, db3).
          Inr ((o1, a) # rs, db3)))))"

definition recover_crashed_sessions ::
  "session_env \<Rightarrow> session_context \<Rightarrow> session_db \<Rightarrow>
   append_error + (string \<times> anchor) list \<times> session_db" where
  "recover_crashed_sessions se boot db =
     and_then (open_sessions_without_close (meta_tenant_id (se_meta se)) (sd_anchors db))
       (\<lambda>orphans. recover_orphans se boot orphans db)"

section \<open>Extended verification\<close>

record chain_verdict =
  entries_verified :: nat
  signatures_verified :: nat
  anchors_anchored :: nat
  anchors_pending :: nat
  fully_anchored :: bool

fun verify_signatures ::
  "ledger_env \<Rightarrow> (entry \<Rightarrow> string option) \<Rightarrow> string set \<Rightarrow> nat \<Rightarrow> entry list \<Rightarrow> verify_error + nat" where
  "verify_signatures env subject_of anchored n [] = Inr n"
| "verify_signatures env subject_of anchored n (e # es) =
     (case (session_id e, session_pubkey e, event_sig e) of
        (Some _, Some pub, Some sig) \<Rightarrow>
          (let subject = (case subject_of e of Some s \<Rightarrow> s | None \<Rightarrow> []);
               pre = event_sig_preimage env (prev_hash e) (kind e) subject (payload e)
           in if ed25519_verify_hex env pub pre sig
              then verify_signatures env subject_of anchored (n + 1) es
              else Inl (SignatureInvalid (seq e)))
      | (Some sid, _, _) \<Rightarrow>
          (if sid \<in> anchored then Inl (SignatureMissingInSignedSession (seq e))
           else verify_signatures env subject_of anchored n es)
      | (None, _, _) \<Rightarrow> verify_signatures env subject_of anchored n es)"

fun verify_anchors ::
  "(string \<Rightarrow> tsa option) \<Rightarrow> nat \<Rightarrow> nat \<Rightarrow> anchor list \<Rightarrow> verify_error + nat \<times> nat" where
  "verify_anchors tsa_for ok pend [] = Inr (ok, pend)"
| "verify_anchors tsa_for ok pend (a # as) =
     (case (a_tsa_status a, a_token a) of
        (Anchored, Some bytes) \<Rightarrow>
          (case tsa_for (a_tsa_identifier a) of
             Some authority \<Rightarrow>
               (if tsa_verify authority
                     (anchor_preimage (a_kind a) (a_tenant_id a) (a_session_id a)
                        (a_chain_head_hash a) (a_created_at a))
                     \<lparr>tok_bytes = bytes, tok_issued_at = a_created_at a,
                      tok_identifier = a_tsa_identifier a\<rparr>
                then verify_anchors tsa_for (ok + 1) pend as
                else Inl (AnchorTampered (a_id a)))
           | None \<Rightarrow> verify_anchors tsa_for ok (pend + 1) as)
      | _ \<Rightarrow> verify_anchors tsa_for ok (pend + 1) as)"

definition verify_chain_signed ::
  "ledger_env \<Rightarrow> string \<Rightarrow> entry list \<Rightarrow> anchor list \<Rightarrow> (entry \<Rightarrow> string option) \<Rightarrow>
   (string \<Rightarrow> tsa option) \<Rightarrow> verify_error + chain_verdict" where
  "verify_chain_signed env tenant es anchors subject_of tsa_for =
     and_then (verify_chain env tenant es) (\<lambda>n.
     and_then (verify_signatures env subject_of (a_session_id ` set anchors) 0 es) (\<lambda>sigs.
     and_then (verify_anchors tsa_for 0 0 anchors) (\<lambda>(ok, pend).
       Inr \<lparr>entries_verified = n, signatures_verified = sigs, anchors_anchored = ok,
            anchors_pending = pend, fully_anchored = (pend = 0)\<rparr>)))"

section \<open>Lemmas\<close>

lemma scan_sessions_spec:
  "scan_sessions as opened closed = (opened', closed') \<Longrightarrow>
   set opened' = set opened \<union> a_session_id ` {a \<in> set as. anchor_is_open (a_kind a)} \<and>
   set closed' = set closed \<union> a_session_id ` {a \<in> set as. anchor_is_close (a_kind a)} \<and>
   (distinct opened \<longrightarrow> distinct opened')"
proof (induction as arbitrary: opened closed)
  case Nil
  then show ?case by auto
next
  case (Cons a as)
  from Cons.IH [OF Cons.prems [simplified]] show ?case by (auto split: if_splits)
qed

lemma open_sessions_set:
  "set (open_sessions as) =
   {s. (\<exists>a \<in> set as. a_session_id a = s \<and> anchor_is_open (a_kind a)) \<and>
       (\<forall>a \<in> set as. a_session_id a = s \<longrightarrow> \<not> anchor_is_close (a_kind a))}"
proof -
  obtain opened closed where sc: "scan_sessions as [] [] = (opened, closed)" by fastforce
  from scan_sessions_spec [OF sc] show ?thesis by (auto simp: open_sessions_def sc image_iff)
qed

lemma open_sessions_distinct: "distinct (open_sessions as)"
proof -
  obtain opened closed where sc: "scan_sessions as [] [] = (opened, closed)" by fastforce
  from scan_sessions_spec [OF sc] show ?thesis by (simp add: open_sessions_def sc)
qed

definition anchors_rep :: "anchor list \<Rightarrow> anchor_row list \<Rightarrow> bool" where
  "anchors_rep as rows \<longleftrightarrow> rows = map row_of_anchor as"

definition sess_inv :: "session_env \<Rightarrow> session_db \<Rightarrow> bool" where
  "sess_inv se db \<longleftrightarrow>
     ledger_inv (se_env se) (se_meta se) (sd_rows db) \<and> (\<exists>as. anchors_rep as (sd_anchors db))"

definition db_anchors :: "session_db \<Rightarrow> anchor list" where
  "db_anchors db = map (\<lambda>r. projr (row_to_anchor r)) (sd_anchors db)"

text \<open>The sessions of a tenant with an opening anchor and no closing anchor.\<close>

definition open_set :: "string \<Rightarrow> anchor list \<Rightarrow> string set" where
  "open_set tenant as =
     {s. (\<exists>a \<in> set as. a_tenant_id a = tenant \<and> a_session_id a = s \<and> anchor_is_open (a_kind a)) \<and>
         (\<forall>a \<in> set as. a_tenant_id a = tenant \<and> a_session_id a = s \<longrightarrow> \<not> anchor_is_close (a_kind a))}"

lemma db_anchors_rep: "anchors_rep as (sd_anchors db) \<Longrightarrow> db_anchors db = as"
  by (simp add: db_anchors_def anchors_rep_def anchor_roundtrip comp_def)

lemma anchors_for_tenant_rep:
  assumes "anchors_rep as rows"
  shows "\<exists>bs. anchors_for_tenant tenant rows = Inr bs \<and> set bs = {a \<in> set as. a_tenant_id a = tenant}"
proof -
  define sorted_rows where "sorted_rows =
    sort_key (\<lambda>r. (ar_created_at r, ar_id r)) (filter (\<lambda>r. ar_tenant_id r = tenant) rows)"
  have sub: "set sorted_rows = row_of_anchor ` {a \<in> set as. a_tenant_id a = tenant}"
    using assms by (auto simp: sorted_rows_def anchors_rep_def row_of_anchor_def)
  define bs where "bs = map (\<lambda>r. projr (row_to_anchor r)) sorted_rows"
  have "map row_to_anchor sorted_rows = map Inr bs"
    unfolding bs_def using sub by (auto simp: anchor_roundtrip)
  then have "anchors_for_tenant tenant rows = Inr bs"
    by (simp add: anchors_for_tenant_def collect_res_Inr_iff sorted_rows_def)
  moreover have "set bs = {a \<in> set as. a_tenant_id a = tenant}"
    unfolding bs_def using sub by (auto simp: anchor_roundtrip image_iff)
  ultimately show ?thesis by blast
qed

lemma open_sessions_without_close_rep:
  assumes "anchors_rep as rows"
  shows "\<exists>ss. open_sessions_without_close tenant rows = Inr ss \<and> distinct ss \<and>
           set ss = open_set tenant as"
proof -
  obtain bs where bs: "anchors_for_tenant tenant rows = Inr bs"
    "set bs = {a \<in> set as. a_tenant_id a = tenant}"
    using anchors_for_tenant_rep [OF assms] by blast
  have "set (open_sessions bs) = open_set tenant as"
    by (auto simp: open_sessions_set open_set_def bs(2))
  then show ?thesis
    by (simp add: open_sessions_without_close_def bs(1) open_sessions_distinct)
qed

lemma append_signed_ok:
  assumes "sess_inv se db" and "length (sd_rows db) + 1 < 2 ^ 63"
  shows "\<exists>rows. append_signed se k pl session db =
           Inr (db\<lparr>sd_rows := rows, sd_tick := Suc (sd_tick db)\<rparr>) \<and>
         length rows = Suc (length (sd_rows db)) \<and>
         sess_inv se (db\<lparr>sd_rows := rows, sd_tick := Suc (sd_tick db)\<rparr>)"
proof -
  define rq where "rq = \<lparr>rq_stamp = stamp_at (se_supply se) (sd_tick db), rq_kind = k,
    rq_subject = [], rq_payload = pl, rq_actor = se_actor se, rq_idem = None,
    rq_session = Some session\<rparr>"
  have inv: "ledger_inv (se_env se) (se_meta se) (sd_rows db)"
    using assms(1) by (simp add: sess_inv_def)
  have room: "length (ledger_entries (se_env se) (sd_rows db)) + 1 < 2 ^ 63"
    using assms(2) ledger_inv_length [OF inv] by simp
  obtain i rows x where rows:
    "ledger_append (se_env se) (se_meta se) rq (sd_rows db) = Inr (i, rows)"
    "ledger_inv (se_env se) (se_meta se) rows"
    "ledger_entries (se_env se) rows = ledger_entries (se_env se) (sd_rows db) @ [x]"
    using sink.append_ok [OF inv room, of rq] by blast
  have "length rows = Suc (length (sd_rows db))"
    using ledger_inv_length [OF inv] ledger_inv_length [OF rows(2)] rows(3) by simp
  then show ?thesis using rows(1,2) assms(1)
    by (auto simp: append_signed_def ledger_append_def rq_def sess_inv_def)
qed

definition tsa_reachable :: "session_env \<Rightarrow> bool" where
  \<comment> \<open>the authority answers or is unreachable; it does not fail in another way\<close>
  "tsa_reachable se \<longleftrightarrow>
     (\<forall>pre. case tsa_timestamp (se_tsa se) pre of
              Inr _ \<Rightarrow> True | Inl (Network _) \<Rightarrow> True | Inl _ \<Rightarrow> False)"

lemma chain_head_hash_hex_ok:
  assumes "ledger_inv env meta rows"
  shows "\<exists>h. chain_head_hash_hex env (meta_tenant_id meta) rows = Inr h"
proof -
  from assms have "env_ok env"
    "ledger_rep env (meta_tenant_id meta) (ledger_entries env rows) rows"
    by (auto simp: ledger_inv_rep)
  from rep_read_head [OF this] show ?thesis by (simp add: chain_head_hash_hex_def)
qed

lemma take_anchor_cases:
  assumes "take_anchor se sid k h db = Inr (a, db')"
  shows "db' = db\<lparr>sd_anchors := sd_anchors db @ [row_of_anchor a], sd_tick := Suc (sd_tick db)\<rparr> \<and>
         a_session_id a = sid \<and> a_kind a = k \<and> a_tenant_id a = meta_tenant_id (se_meta se) \<and>
         a_chain_head_hash a = h"
  using assms by (auto simp: take_anchor_def Let_def res_simps split: prod.splits)

lemma take_anchor_total:
  assumes "tsa_reachable se"
  shows "\<exists>r. take_anchor se sid k h db = Inr r"
proof -
  define pre where "pre = anchor_preimage k (meta_tenant_id (se_meta se)) sid h (se_now se (sd_tick db))"
  show ?thesis
    using assms [unfolded tsa_reachable_def, rule_format, of pre]
    by (auto simp: take_anchor_def Let_def pre_def split: sum.splits tsa_error.splits)
qed

lemma ledger_take_anchor_ok:
  assumes "sess_inv se db" and "tsa_reachable se"
  shows "\<exists>a. ledger_take_anchor se sid k db =
           Inr (a, db\<lparr>sd_anchors := sd_anchors db @ [row_of_anchor a], sd_tick := Suc (sd_tick db)\<rparr>) \<and>
         a_session_id a = sid \<and> a_kind a = k \<and> a_tenant_id a = meta_tenant_id (se_meta se) \<and>
         sess_inv se (db\<lparr>sd_anchors := sd_anchors db @ [row_of_anchor a], sd_tick := Suc (sd_tick db)\<rparr>)"
proof -
  obtain h where h: "chain_head_hash_hex (se_env se) (meta_tenant_id (se_meta se)) (sd_rows db) = Inr h"
    using assms(1) chain_head_hash_hex_ok [of "se_env se" "se_meta se" "sd_rows db"]
    by (auto simp: sess_inv_def)
  obtain a db' where a: "take_anchor se sid k h db = Inr (a, db')"
    using take_anchor_total [OF assms(2)] by (metis surj_pair)
  obtain as where as: "anchors_rep as (sd_anchors db)"
    using assms(1) by (auto simp: sess_inv_def)
  then have "anchors_rep (as @ [a]) (sd_anchors db @ [row_of_anchor a])"
    by (simp add: anchors_rep_def)
  then show ?thesis
    using take_anchor_cases [OF a] a h assms(1)
    by (auto simp: ledger_take_anchor_def sess_inv_def)
qed

lemma open_set_closed:
  assumes "\<forall>b \<in> set bs. a_tenant_id b = tenant \<and> anchor_is_close (a_kind b) \<and>
             \<not> anchor_is_open (a_kind b)"
  shows "open_set tenant (as @ bs) = open_set tenant as - a_session_id ` set bs"
proof (rule set_eqI)
  fix s
  have o: "(\<exists>a \<in> set (as @ bs). a_tenant_id a = tenant \<and> a_session_id a = s \<and> anchor_is_open (a_kind a)) \<longleftrightarrow>
           (\<exists>a \<in> set as. a_tenant_id a = tenant \<and> a_session_id a = s \<and> anchor_is_open (a_kind a))"
    unfolding set_append bex_Un using assms by blast
  have c: "(\<forall>a \<in> set (as @ bs). a_tenant_id a = tenant \<and> a_session_id a = s \<longrightarrow> \<not> anchor_is_close (a_kind a)) \<longleftrightarrow>
           (\<forall>a \<in> set as. a_tenant_id a = tenant \<and> a_session_id a = s \<longrightarrow> \<not> anchor_is_close (a_kind a)) \<and>
           s \<notin> a_session_id ` set bs"
    unfolding set_append ball_Un image_iff using assms by blast
  show "s \<in> open_set tenant (as @ bs) \<longleftrightarrow> s \<in> open_set tenant as - a_session_id ` set bs"
    unfolding open_set_def mem_Collect_eq Diff_iff o c by blast
qed

definition closing_record :: "session_env \<Rightarrow> string \<times> anchor \<Rightarrow> bool" where
  "closing_record se r \<longleftrightarrow>
     a_session_id (snd r) = fst r \<and> a_kind (snd r) = LogoutClose \<and>
     a_tenant_id (snd r) = meta_tenant_id (se_meta se)"

lemma db_anchors_snoc:
  "db_anchors (db\<lparr>sd_anchors := sd_anchors d @ [row_of_anchor a], sd_tick := t\<rparr>) = db_anchors d @ [a]"
  by (simp add: db_anchors_def anchor_roundtrip)

lemma db_anchors_rows: "db_anchors (db\<lparr>sd_rows := rows, sd_tick := t\<rparr>) = db_anchors db"
  by (simp add: db_anchors_def)

lemma recover_orphans_ok:
  assumes "sess_inv se db" and "tsa_reachable se" and "length (sd_rows db) + length os < 2 ^ 63"
  shows "\<exists>rs db'. recover_orphans se boot os db = Inr (rs, db') \<and> sess_inv se db' \<and>
           map fst rs = filter (\<lambda>s. s \<noteq> sc_session_id boot) os \<and>
           db_anchors db' = db_anchors db @ map snd rs \<and>
           length (sd_rows db') = length (sd_rows db) + length rs \<and>
           list_all (closing_record se) rs"
  using assms(1,3)
proof (induction os arbitrary: db)
  case Nil
  then show ?case by simp
next
  case (Cons s os)
  show ?case
  proof (cases "s = sc_session_id boot")
    case True
    then show ?thesis using Cons.IH [of db] Cons.prems by simp
  next
    case False
    let ?pl = "se_json se [(''orphan_session_id'', s), (''recovered_by_session'', sc_session_id boot),
                           (''recovered_at_utc'', se_now se (sd_tick db))]"
    have room1: "length (sd_rows db) + 1 < 2 ^ 63" using Cons.prems(2) by simp
    obtain rows where rows:
      "append_signed se (SessionEvent SessionCrashRecovered) ?pl boot db =
         Inr (db\<lparr>sd_rows := rows, sd_tick := Suc (sd_tick db)\<rparr>)"
      "length rows = Suc (length (sd_rows db))"
      "sess_inv se (db\<lparr>sd_rows := rows, sd_tick := Suc (sd_tick db)\<rparr>)"
      using append_signed_ok [OF Cons.prems(1) room1] by blast
    define db1 where "db1 = db\<lparr>sd_rows := rows, sd_tick := Suc (sd_tick db)\<rparr>"
    obtain a where a:
      "ledger_take_anchor se s LogoutClose db1 =
         Inr (a, db1\<lparr>sd_anchors := sd_anchors db1 @ [row_of_anchor a], sd_tick := Suc (sd_tick db1)\<rparr>)"
      "a_session_id a = s" "a_kind a = LogoutClose" "a_tenant_id a = meta_tenant_id (se_meta se)"
      "sess_inv se (db1\<lparr>sd_anchors := sd_anchors db1 @ [row_of_anchor a], sd_tick := Suc (sd_tick db1)\<rparr>)"
      using ledger_take_anchor_ok [OF _ assms(2)] rows(3) db1_def by metis
    define db2 where "db2 = db1\<lparr>sd_anchors := sd_anchors db1 @ [row_of_anchor a], sd_tick := Suc (sd_tick db1)\<rparr>"
    have room: "length (sd_rows db2) + length os < 2 ^ 63"
      using Cons.prems(2) rows(2) by (simp add: db2_def db1_def)
    obtain rs db3 where rec: "recover_orphans se boot os db2 = Inr (rs, db3)" "sess_inv se db3"
      "map fst rs = filter (\<lambda>s. s \<noteq> sc_session_id boot) os"
      "db_anchors db3 = db_anchors db2 @ map snd rs"
      "length (sd_rows db3) = length (sd_rows db2) + length rs" "list_all (closing_record se) rs"
      using Cons.IH [of db2] a(5) room unfolding db2_def by blast
    have "recover_orphans se boot (s # os) db = Inr ((s, a) # rs, db3)"
      using False rows(1) a(1) rec(1) by (simp add: db1_def db2_def)
    moreover have "db_anchors db2 = db_anchors db @ [a]"
      by (simp add: db2_def db_anchors_snoc) (simp add: db1_def db_anchors_rows)
    moreover have "closing_record se (s, a)"
      using a(2-4) by (simp add: closing_record_def)
    moreover have "length (sd_rows db2) = Suc (length (sd_rows db))"
      by (simp add: db2_def db1_def rows(2))
    ultimately show ?thesis
      using rec(2-6) False by (intro exI [of _ "(s, a) # rs"] exI [of _ db3]) simp
  qed
qed

end
