(* ===== verification/Audit_Demo.thy ===== *)
theory Audit_Demo
  imports Audit_Session "HOL-Library.Countable"
begin

text \<open>
  A concrete environment in which the documented laws of the third-party functions hold,
  and a small ledger built in it. The development's theorems are applied at this
  environment to show that their hypotheses can be met; nothing here models code.
\<close>

instance cbor_value :: countable
  by countable_datatype

definition demo_tuple :: "actor \<Rightarrow> string \<times> string \<times> string list" where
  "demo_tuple a = (actor_session_id a, actor_user_id a, capabilities a)"

definition demo_untuple :: "string \<times> string \<times> string list \<Rightarrow> actor" where
  "demo_untuple t = (let (s, u, c) = t in \<lparr>actor_session_id = s, actor_user_id = u, capabilities = c\<rparr>)"

definition demo_hex :: "byte list \<Rightarrow> string" where
  "demo_hex bs = map (\<lambda>b. char_of (unat b)) bs"

definition demo_env :: ledger_env where
  "demo_env =
     \<lparr>sha256 = (\<lambda>bs. take 32 (bs @ replicate 32 0)),
      cbor_writer = (\<lambda>v. replicate (to_nat v) 0),
      rfc3339_format = (\<lambda>t. (if t < 0 then ''-'' else ''+'') @ replicate (nat \<bar>t\<bar>) CHR ''1''),
      rfc3339_parse = (\<lambda>s. case s of [] \<Rightarrow> None
         | c # r \<Rightarrow> Some (if c = CHR ''-'' then - int (length r) else int (length r))),
      ulid_to_string = (\<lambda>n. replicate n CHR ''1''),
      ulid_from_string = (\<lambda>s. Some (length s)),
      actor_to_json = (\<lambda>a. replicate (to_nat (demo_tuple a)) CHR ''1''),
      actor_from_json = (\<lambda>s. Some (demo_untuple (from_nat (length s)))),
      hex_encode = demo_hex,
      hex_decode = (\<lambda>s. Some (bytes_of s)),
      base64_encode = demo_hex,
      base64_decode = (\<lambda>s. Some (bytes_of s)),
      ed25519_sign = (\<lambda>k m. replicate k 0 @ m),
      ed25519_pubkey_hex = (\<lambda>k. replicate k CHR ''1''),
      ed25519_verify_hex = (\<lambda>pub m sig. sig = demo_hex (replicate (length pub) (0 :: byte) @ m))\<rparr>"

lemma demo_untuple_tuple: "demo_untuple (demo_tuple a) = a"
  by (cases a) (simp add: demo_untuple_def demo_tuple_def)

lemma byte_of_char_of: "(of_char (char_of (unat b)) :: byte) = b"
proof -
  have "unat b < 256" using unsigned_less [of b] by simp
  then have "(of_char (char_of (unat b)) :: nat) = unat b" by (simp add: of_char_of)
  then have "(of_nat (of_char (char_of (unat b)) :: nat) :: byte) = of_nat (unat b)" by simp
  then show ?thesis by (simp only: of_nat_of_char of_nat_unat ucast_id)
qed

lemma bytes_of_demo_hex: "bytes_of (demo_hex bs) = bs"
  by (induction bs) (simp_all add: bytes_of_def demo_hex_def byte_of_char_of)

lemma demo_env_ok: "env_ok demo_env"
  by (simp add: env_ok_def demo_env_def demo_untuple_tuple bytes_of_demo_hex min_def)

lemma demo_cbor_faithful: "cbor_faithful demo_env"
proof -
  have "inj (\<lambda>v :: cbor_value. replicate (to_nat v) (0 :: byte))"
    by (rule injI) (metis length_replicate from_nat_to_nat)
  then show ?thesis by (simp add: cbor_faithful_def demo_env_def)
qed

end
