(* ===== verification/Audit_Properties.thy ===== *)
theory Audit_Properties
  imports Audit_Demo
begin

text \<open>
  The properties of the ledger proper: what the chain verifier accepts and what it reports,
  that appending keeps a ledger verifying, tamper evidence, the stored form of entries, the
  migration, signatures and sessions.
\<close>

section \<open>A demonstration ledger\<close>

definition demo_meta :: ledger_meta where
  "demo_meta = \<lparr>meta_tenant_id = ''t1'', meta_binary_hash = replicate 32 7\<rparr>"

definition demo_actor :: actor where
  "demo_actor = actor_from_local_cli ''s'' ''op''"

definition demo_stamp :: "nat \<Rightarrow> append_stamp" where
  "demo_stamp n = \<lparr>st_ulid = n, st_now = int n, st_mono = of_nat n\<rparr>"

definition demo_request :: "nat \<Rightarrow> append_request" where
  "demo_request n =
     \<lparr>rq_stamp = demo_stamp n, rq_kind = (SessionEvent SessionOpened), rq_subject = [], rq_payload = [1, 2],
      rq_actor = demo_actor, rq_idem = None,
      rq_session = Some \<lparr>sc_session_id = ''ses_1'', sc_identity = Service ''k'' ''pending'', sc_key = 3\<rparr>\<rparr>"

lemma demo_meta_ok: "meta_ok demo_meta"
  by (simp add: meta_ok_def demo_meta_def tenant_new_def)

lemma demo_ledger_inv: "ledger_inv demo_env demo_meta []"
  by (rule ledger_inv_Nil [OF demo_env_ok demo_meta_ok])

definition demo_entry :: "u64 \<Rightarrow> hash32 \<Rightarrow> entry" where
  "demo_entry sq prev = next_entry demo_env demo_meta (demo_stamp 1) (SessionEvent SessionOpened) [] [1] demo_actor
     None None sq prev"

lemma demo_entry_wf: "length prev = 32 \<Longrightarrow> entry_wf ''t1'' (demo_entry sq prev)"
  using next_entry_wf [OF demo_env_ok demo_meta_ok]
  by (simp add: demo_entry_def demo_meta_def)

lemma demo_chain: "chain_valid demo_env ''t1'' [demo_entry 1 (genesis_hash demo_env ''t1'')]"
  by (simp add: chain_valid_def demo_entry_def next_entry_fields next_entry_hash)

section \<open>The verifier\<close>

definition prev_of :: "ledger_env \<Rightarrow> string \<Rightarrow> entry list \<Rightarrow> nat \<Rightarrow> hash32" where
  \<comment> \<open>what the specification asks of the previous hash of entry \<open>i\<close>\<close>
  "prev_of env tenant es i = (if i = 0 then genesis_hash env tenant else entry_hash (es ! (i - 1)))"

lemma chained_iff_nth:
  "chained env n prev es \<longleftrightarrow>
   (\<forall>i < length es. seq (es ! i) = of_nat (n + i) \<and>
      prev_hash (es ! i) = (if i = 0 then prev else entry_hash (es ! (i - 1))) \<and>
      compute_entry_hash env (es ! i) = entry_hash (es ! i))"
proof (induction es arbitrary: n prev)
  case Nil
  then show ?case by simp
next
  case (Cons e es)
  show ?case
    by (auto simp: Cons.IH All_less_Suc2 nth_Cons' split: if_splits)
qed

text \<open>
  C6: \<open>verify_chain\<close> accepts exactly the lists whose i-th entry has sequence number
  i + 1, names the hash of its predecessor (the genesis hash of the tenant for the first) and
  carries its own hash; it then returns their number.
\<close>

theorem verify_chain_accepts_exactly:
  assumes "length es < 2 ^ 64 - 1"
  shows "verify_chain env tenant es = Inr m \<longleftrightarrow>
    m = length es \<and>
    (\<forall>i < length es. seq (es ! i) = of_nat (i + 1) \<and>
       prev_hash (es ! i) = prev_of env tenant es i \<and>
       compute_entry_hash env (es ! i) = entry_hash (es ! i))"
  using assms
  by (auto simp: verify_chain_iff chain_valid_def chained_iff_nth prev_of_def)

theorem verify_chain_accepts_exactly_witness:
  "verify_chain demo_env ''t1'' [demo_entry 1 (genesis_hash demo_env ''t1'')] = Inr 1"
  using verify_chain_accepts_exactly
    [of "[demo_entry 1 (genesis_hash demo_env ''t1'')]" demo_env "''t1''" 1]
  by (simp add: prev_of_def demo_entry_def next_entry_fields next_entry_hash)

text \<open>
  C7: an edit of a verified ledger in place is found where it happened: when one entry is
  replaced by one that differs in a hashed field but keeps the sequence number, the previous
  hash and the stored hash, the verifier reports that sequence number as tampered (unless the
  two encodings collide under SHA-256).
\<close>

theorem edited_entry_is_reported:
  assumes "env_ok env" "cbor_faithful env"
    and "verify_chain env tenant es = Inr m" and "length es < 2 ^ 64 - 1" and "i < length es"
    and "seq e = seq (es ! i)" "prev_hash e = prev_hash (es ! i)" "entry_hash e = entry_hash (es ! i)"
    and "\<not> same_hashed_fields e (es ! i)" and "\<not> collides env e (es ! i)"
  shows "verify_chain env tenant (es[i := e]) = Inl (TamperedAt (of_nat (i + 1)))"
proof -
  have ch: "chained env 1 (genesis_hash env tenant) es"
    using assms(3,4) by (simp add: verify_chain_iff chain_valid_def)
  note ith = chained_nth [OF ch assms(5)]
  have pre: "chained env 1 (genesis_hash env tenant) (take i es)"
    using ch by (metis append_take_drop_id chained_append)
  have hash: "compute_entry_hash env e \<noteq> entry_hash e"
    using equal_hash_same_fields [OF assms(1,2) _ assms(10)] ith(3) assms(8,9) by auto
  have split: "es[i := e] = take i es @ e # drop (Suc i) es"
    using assms(5) by (rule upd_conv_take_nth_drop)
  have "verify_chain env tenant (es[i := e]) =
      verify_loop env (of_nat (1 + i)) (head_hash (genesis_hash env tenant) (take i es)) i
        (e # drop (Suc i) es)"
    using verify_loop_append [OF pre, of 0] assms(4,5) by (simp add: verify_chain_def split)
  then show ?thesis using hash ith(1,2) assms(6,7) by (simp add: add.commute)
qed

text \<open>An environment whose digest tells one forged entry from everything else.\<close>

definition demo_genuine :: entry where
  "demo_genuine =
     \<lparr>eid = 1, seq = 1, prev_hash = replicate 32 0, time_wall = 1, time_mono = 1,
      actor = demo_actor, binary_hash = replicate 32 7, tenant_id = ''t1'', kind = (SessionEvent SessionOpened),
      payload = [1], idempotency_key = None, entry_hash = replicate 32 0, session_id = None,
      session_pubkey = None, event_sig = None\<rparr>"

definition demo_forged :: entry where
  "demo_forged = demo_genuine\<lparr>payload := [9]\<rparr>"

definition demo_sha_env :: ledger_env where
  "demo_sha_env = demo_env\<lparr>sha256 := \<lambda>bs.
     if bs = canonical_bytes_for_hashing demo_env demo_forged then replicate 32 1 else replicate 32 0\<rparr>"

lemma demo_sha_env_ok: "env_ok demo_sha_env"
  using demo_env_ok by (simp add: env_ok_def demo_sha_env_def)

lemma demo_sha_cbor_faithful: "cbor_faithful demo_sha_env"
  using demo_cbor_faithful by (simp add: cbor_faithful_def demo_sha_env_def)

lemma demo_sha_canonical:
  "canonical_bytes_for_hashing demo_sha_env e = canonical_bytes_for_hashing demo_env e"
  by (simp add: canonical_bytes_for_hashing_def canonical_value_def demo_sha_env_def
      entry_id_prefixed_def)

lemma demo_canonical_differ:
  "canonical_bytes_for_hashing demo_env demo_genuine \<noteq> canonical_bytes_for_hashing demo_env demo_forged"
proof
  assume "canonical_bytes_for_hashing demo_env demo_genuine =
          canonical_bytes_for_hashing demo_env demo_forged"
  then have "canonical_value demo_env demo_genuine = canonical_value demo_env demo_forged"
    using demo_cbor_faithful
    by (simp add: canonical_bytes_for_hashing_def cbor_faithful_def inj_eq)
  then show False by (simp add: canonical_value_def demo_genuine_def demo_forged_def)
qed

lemma demo_genesis_not_cbor:
  "genesis_magic @ bytes_of t \<noteq> canonical_bytes_for_hashing demo_env e"
proof
  assume eq: "genesis_magic @ bytes_of t = canonical_bytes_for_hashing demo_env e"
  have "x = 0" if "x \<in> set (canonical_bytes_for_hashing demo_env e)" for x
    using that by (simp add: canonical_bytes_for_hashing_def demo_env_def split: if_splits)
  moreover have "(97 :: byte) \<in> set (genesis_magic @ bytes_of t)"
    by (simp add: genesis_magic_def bytes_of_def)
  ultimately show False unfolding eq by fastforce
qed

lemma demo_sha_values:
  "genesis_hash demo_sha_env t = replicate 32 0"
  "compute_entry_hash demo_sha_env demo_genuine = replicate 32 0"
  "compute_entry_hash demo_sha_env demo_forged = replicate 32 1"
proof -
  have sha: "sha256 demo_sha_env bs =
      (if bs = canonical_bytes_for_hashing demo_env demo_forged then replicate 32 1 else replicate 32 0)"
    for bs by (simp add: demo_sha_env_def)
  show "genesis_hash demo_sha_env t = replicate 32 0"
    unfolding genesis_hash_def sha using demo_genesis_not_cbor by auto
  show "compute_entry_hash demo_sha_env demo_genuine = replicate 32 0"
    unfolding compute_entry_hash_def demo_sha_canonical sha using demo_canonical_differ by simp
  show "compute_entry_hash demo_sha_env demo_forged = replicate 32 1"
    unfolding compute_entry_hash_def demo_sha_canonical sha by simp
qed

lemma demo_not_collides:
  "\<not> collides demo_sha_env demo_forged demo_genuine" "\<not> same_hashed_fields demo_forged demo_genuine"
proof -
  show "\<not> collides demo_sha_env demo_forged demo_genuine"
    using demo_sha_values(2,3) by (simp add: collides_def compute_entry_hash_def)
  show "\<not> same_hashed_fields demo_forged demo_genuine"
    by (simp add: same_hashed_fields_def demo_forged_def demo_genuine_def)
qed

lemma demo_genuine_verifies: "verify_chain demo_sha_env ''t1'' [demo_genuine] = Inr 1"
proof -
  have "chain_valid demo_sha_env ''t1'' [demo_genuine]"
    by (simp add: chain_valid_def demo_sha_values) (simp add: demo_genuine_def)
  then show ?thesis by (simp add: verify_chain_iff)
qed

lemma demo_genuine_fields:
  "seq demo_forged = seq demo_genuine" "prev_hash demo_forged = prev_hash demo_genuine"
  "entry_hash demo_forged = entry_hash demo_genuine"
  by (simp_all add: demo_forged_def)

theorem edited_entry_is_reported_witness:
  "verify_chain demo_sha_env ''t1'' ([demo_genuine][0 := demo_forged]) = Inl (TamperedAt 1)"
  using edited_entry_is_reported
    [OF demo_sha_env_ok demo_sha_cbor_faithful demo_genuine_verifies, of 0 demo_forged]
  by (simp add: demo_genuine_fields demo_not_collides)

text \<open>
  C8: tamper evidence: two ledgers of a tenant that both verify, have the same length and
  the same head hash agree on every hashed field of every entry, or the encodings of two
  entries at the same position collide under SHA-256.
\<close>

theorem head_hash_fixes_history:
  assumes "env_ok env" "cbor_faithful env"
    and "verify_chain env tenant es = Inr n" "verify_chain env tenant fs = Inr n"
    and "length es < 2 ^ 64 - 1" "length fs < 2 ^ 64 - 1"
    and "es \<noteq> []" "entry_hash (last es) = entry_hash (last fs)"
  shows "(\<exists>i < n. collides env (es ! i) (fs ! i)) \<or> list_all2 same_hashed_fields es fs"
proof -
  from assms(3-6) have ch: "chained env 1 (genesis_hash env tenant) es"
    "chained env 1 (genesis_hash env tenant) fs" and len: "length es = n" "length fs = n"
    by (auto simp: verify_chain_iff chain_valid_def)
  have "fs \<noteq> []" using assms(7) len by auto
  then have "head_hash (genesis_hash env tenant) es = head_hash (genesis_hash env tenant) fs"
    using assms(7,8) by (simp add: head_hash_def)
  from chained_same_head [OF assms(1,2) ch _ this] len show ?thesis by auto
qed

definition demo_signed_genuine :: entry where
  "demo_signed_genuine = demo_genuine\<lparr>session_id := Some ''ses_1'',
     session_pubkey := Some (ed25519_pubkey_hex demo_sha_env 3),
     event_sig := Some (hex_encode demo_sha_env (ed25519_sign demo_sha_env 3
       (event_sig_preimage demo_sha_env (replicate 32 0) (SessionEvent SessionOpened) [] [1])))\<rparr>"

lemma demo_signed_verifies: "verify_chain demo_sha_env ''t1'' [demo_signed_genuine] = Inr 1"
proof -
  have "same_hashed_fields demo_signed_genuine demo_genuine"
    by (simp add: same_hashed_fields_def demo_signed_genuine_def demo_genuine_def)
  then have "compute_entry_hash demo_sha_env demo_signed_genuine = replicate 32 0"
    using compute_entry_hash_cong demo_sha_values(2) by metis
  then have "chain_valid demo_sha_env ''t1'' [demo_signed_genuine]"
    by (simp add: chain_valid_def demo_sha_values)
      (simp add: demo_signed_genuine_def demo_genuine_def)
  then show ?thesis by (simp add: verify_chain_iff)
qed

theorem head_hash_fixes_history_witness:
  "(\<exists>i < 1. collides demo_sha_env ([demo_genuine] ! i) ([demo_signed_genuine] ! i)) \<or>
   list_all2 same_hashed_fields [demo_genuine] [demo_signed_genuine]"
  using head_hash_fixes_history [OF demo_sha_env_ok demo_sha_cbor_faithful demo_genuine_verifies
      demo_signed_verifies]
  by (simp add: demo_signed_genuine_def)

section \<open>Appending\<close>

text \<open>Running a list of requests against the table.\<close>

definition append_all ::
  "ledger_env \<Rightarrow> ledger_meta \<Rightarrow> append_request list \<Rightarrow> ledger_row list \<Rightarrow>
   append_error + ledger_row list" where
  "append_all env meta = fold_res (\<lambda>rq rows. and_then (ledger_append env meta rq rows) (\<lambda>(i, r). Inr r))"

text \<open>What the entry of a request holds, whatever the chain state it lands on.\<close>

definition records_request :: "ledger_env \<Rightarrow> append_request \<Rightarrow> entry \<Rightarrow> bool" where
  "records_request env rq e \<longleftrightarrow>
     eid e = st_ulid (rq_stamp rq) \<and> kind e = rq_kind rq \<and> payload e = rq_payload rq \<and>
     actor e = rq_actor rq \<and> idempotency_key e = rq_idem rq \<and>
     (session_id e, session_pubkey e, event_sig e) =
       session_columns env (prev_hash e) (rq_kind rq) (rq_subject rq) (rq_payload rq) (rq_session rq)"

lemma next_entry_records:
  "records_request env rq (next_entry env meta (rq_stamp rq) (rq_kind rq) (rq_subject rq)
     (rq_payload rq) (rq_actor rq) (rq_idem rq) (rq_session rq) sq prev)"
  by (simp add: records_request_def next_entry_fields)
     (simp add: next_entry_def Let_def split: prod.splits)

lemma append_all_rep:
  assumes "env_ok env" "meta_ok meta" and "ledger_rep env (meta_tenant_id meta) es rows"
    and "length es + length rqs < 2 ^ 63"
  shows "\<exists>new. append_all env meta rqs rows = Inr (rows @ map (row_of_entry env) new) \<and>
           ledger_rep env (meta_tenant_id meta) (es @ new) (rows @ map (row_of_entry env) new) \<and>
           list_all2 (records_request env) rqs new"
  using assms(3,4)
proof (induction rqs arbitrary: es rows)
  case Nil
  then show ?case by (intro exI [of _ "[]"]) (simp add: append_all_def)
next
  case (Cons rq rqs)
  have room: "length es + 1 < 2 ^ 63" using Cons.prems(2) by simp
  define e where "e = next_entry env meta (rq_stamp rq) (rq_kind rq) (rq_subject rq)
    (rq_payload rq) (rq_actor rq) (rq_idem rq) (rq_session rq) (of_nat (length es + 1))
    (head_hash (genesis_hash env (meta_tenant_id meta)) es)"
  have e: "ledger_append env meta rq rows = Inr (st_ulid (rq_stamp rq), rows @ [row_of_entry env e])"
    "ledger_rep env (meta_tenant_id meta) (es @ [e]) (rows @ [row_of_entry env e])"
    using append_rep [OF assms(1,2) Cons.prems(1) room, of "rq_stamp rq" "rq_kind rq" "rq_subject rq"
        "rq_payload rq" "rq_actor rq" "rq_idem rq" "rq_session rq"]
    by (auto simp: ledger_append_def e_def)
  have r: "records_request env rq e" unfolding e_def by (rule next_entry_records)
  have "length (es @ [e]) + length rqs < 2 ^ 63" using Cons.prems(2) by simp
  from Cons.IH [OF e(2) this] obtain new where
    "append_all env meta rqs (rows @ [row_of_entry env e]) =
       Inr ((rows @ [row_of_entry env e]) @ map (row_of_entry env) new)"
    "ledger_rep env (meta_tenant_id meta) ((es @ [e]) @ new)
       ((rows @ [row_of_entry env e]) @ map (row_of_entry env) new)"
    "list_all2 (records_request env) rqs new" by blast
  then show ?case using e(1) r
    by (intro exI [of _ "e # new"]) (simp add: append_all_def)
qed

text \<open>
  C9: appending any sequence of requests to a ledger in its invariant succeeds while there is
  room, leaves the existing rows untouched, adds one entry per request that records the
  request's fields, and the resulting table verifies with the new number of entries.
\<close>

theorem append_keeps_ledger_verifying:
  assumes "ledger_inv env meta rows" and "length rows + length rqs < 2 ^ 63"
  shows "\<exists>new. append_all env meta rqs rows = Inr (rows @ map (row_of_entry env) new) \<and>
           list_all2 (records_request env) rqs new \<and>
           ledger_inv env meta (rows @ map (row_of_entry env) new) \<and>
           ledger_verify_chain env (meta_tenant_id meta) (rows @ map (row_of_entry env) new) =
             Inr (length rows + length rqs)"
proof -
  from assms(1) have ok: "env_ok env" "meta_ok meta"
    and rep: "ledger_rep env (meta_tenant_id meta) (ledger_entries env rows) rows"
    by (auto simp: ledger_inv_rep)
  have "length (ledger_entries env rows) + length rqs < 2 ^ 63"
    using assms rep_length [OF rep] by simp
  from append_all_rep [OF ok rep this] obtain new where new:
    "append_all env meta rqs rows = Inr (rows @ map (row_of_entry env) new)"
    "ledger_rep env (meta_tenant_id meta) (ledger_entries env rows @ new)
       (rows @ map (row_of_entry env) new)"
    "list_all2 (records_request env) rqs new" by blast
  have inv: "ledger_inv env meta (rows @ map (row_of_entry env) new)"
    using ok new(2) by (auto simp: ledger_inv_def ledger_ok_def)
  from ledger_inv_verifies [OF inv] new inv show ?thesis
    by (intro exI [of _ new]) (simp add: list_all2_lengthD)
qed

theorem append_keeps_ledger_verifying_witness:
  "\<exists>new. append_all demo_env demo_meta [demo_request 1, demo_request 2] [] =
            Inr (map (row_of_entry demo_env) new) \<and>
         list_all2 (records_request demo_env) [demo_request 1, demo_request 2] new \<and>
         ledger_verify_chain demo_env ''t1'' (map (row_of_entry demo_env) new) = Inr 2"
  using append_keeps_ledger_verifying [OF demo_ledger_inv, of "[demo_request 1, demo_request 2]"]
  by (auto simp: demo_meta_def)

text \<open>
  a stored row decodes to the entry it was written from, whatever the payload, the
  idempotency key and the session columns: the storage codec loses nothing.
\<close>

theorem stored_entry_roundtrip:
  assumes "env_ok env" and "entry_wf tenant e"
  shows "row_to_entry env (row_of_entry env e) = Inr e"
  by (rule row_roundtrip [OF assms])

theorem stored_entry_roundtrip_witness:
  "row_to_entry demo_env (row_of_entry demo_env (demo_entry 1 (replicate 32 0))) =
   Inr (demo_entry 1 (replicate 32 0))"
  by (rule stored_entry_roundtrip [OF demo_env_ok demo_entry_wf]) simp

text \<open>
  A reader of the encoded map, written from the field table of canonical.rs and not from its encoder:
  each field is looked up by its key and parsed with the inverse of its printer.
\<close>

fun cbor_get :: "string \<Rightarrow> cbor_value \<Rightarrow> cbor_value option" where
  "cbor_get k (CMap kvs) = map_of kvs (CText k)"
| "cbor_get k _ = None"

definition text_at :: "string \<Rightarrow> cbor_value \<Rightarrow> string option" where
  "text_at k v = Option.bind (cbor_get k v) (\<lambda>x. case x of CText s \<Rightarrow> Some s | _ \<Rightarrow> None)"

definition bytes_at :: "string \<Rightarrow> cbor_value \<Rightarrow> byte list option" where
  "bytes_at k v = Option.bind (cbor_get k v) (\<lambda>x. case x of CBytes b \<Rightarrow> Some b | _ \<Rightarrow> None)"

definition u64_at :: "string \<Rightarrow> cbor_value \<Rightarrow> u64 option" where
  "u64_at k v = Option.bind (cbor_get k v)
     (\<lambda>x. case x of CInteger n \<Rightarrow> if n \<le> u64_max then Some (of_nat n) else None | _ \<Rightarrow> None)"

definition optional_text_at :: "string \<Rightarrow> cbor_value \<Rightarrow> string option option" where
  "optional_text_at k v = Option.bind (cbor_get k v)
     (\<lambda>x. case x of CText s \<Rightarrow> Some (Some s) | CNull \<Rightarrow> Some None | _ \<Rightarrow> None)"

definition texts_at :: "string \<Rightarrow> cbor_value \<Rightarrow> string list option" where
  "texts_at k v = Option.bind (cbor_get k v)
     (\<lambda>x. case x of CArray vs \<Rightarrow> those (map (\<lambda>y. case y of CText s \<Rightarrow> Some s | _ \<Rightarrow> None) vs) | _ \<Rightarrow> None)"

definition actor_at :: "string \<Rightarrow> cbor_value \<Rightarrow> actor option" where
  "actor_at k v =
     Option.bind (cbor_get k v) (\<lambda>a.
     Option.bind (text_at ''session_id'' a) (\<lambda>sid.
     Option.bind (text_at ''user_id'' a) (\<lambda>uid.
     Option.bind (texts_at ''capabilities'' a) (\<lambda>caps.
       Some \<lparr>actor_session_id = sid, actor_user_id = uid, capabilities = caps\<rparr>))))"

definition read_canonical :: "ledger_env \<Rightarrow> cbor_value \<Rightarrow> entry option" where
  "read_canonical env v =
     Option.bind (Option.bind (text_at ''id'' v) (strip_prefix ''aud_'')) (\<lambda>i.
     Option.bind (ulid_from_string env i) (\<lambda>u.
     Option.bind (u64_at ''seq'' v) (\<lambda>sq.
     Option.bind (bytes_at ''prev_hash'' v) (\<lambda>prev.
     Option.bind (Option.bind (text_at ''time_wall'' v) (rfc3339_parse env)) (\<lambda>wall.
     Option.bind (u64_at ''time_mono'' v) (\<lambda>mono.
     Option.bind (actor_at ''actor'' v) (\<lambda>act.
     Option.bind (bytes_at ''binary_hash'' v) (\<lambda>bin.
     Option.bind (text_at ''tenant_id'' v) (\<lambda>tenant.
     Option.bind (text_at ''kind'' v) (\<lambda>ks.
     Option.bind (case event_kind_from_storage_str ks of Inr k \<Rightarrow> Some k | Inl _ \<Rightarrow> None) (\<lambda>k.
     Option.bind (bytes_at ''payload'' v) (\<lambda>pl.
     Option.bind (optional_text_at ''idempotency_key'' v) (\<lambda>key.
       Some \<lparr>eid = u, seq = sq, prev_hash = prev, time_wall = wall, time_mono = mono, actor = act,
         binary_hash = bin, tenant_id = tenant, kind = k, payload = pl, idempotency_key = key,
         entry_hash = [], session_id = None, session_pubkey = None, event_sig = None\<rparr>)))))))))))))"

definition hashed_part :: "entry \<Rightarrow> entry" where
  "hashed_part e = e\<lparr>entry_hash := [], session_id := None, session_pubkey := None, event_sig := None\<rparr>"

lemmas field_readers = text_at_def bytes_at_def u64_at_def optional_text_at_def texts_at_def

lemma cbor_get_cons: "cbor_get k (CMap ((CText k', x) # kvs)) = (if k = k' then Some x else cbor_get k (CMap kvs))"
  by simp

lemma actor_at_encoded: "cbor_get k v = Some (encode_actor a) \<Longrightarrow> actor_at k v = Some a"
proof -
  have "those (map ((\<lambda>y. case y of CText s \<Rightarrow> Some s | _ \<Rightarrow> None) \<circ> CText) xs) = Some xs" for xs
    by (induction xs) simp_all
  then show "cbor_get k v = Some (encode_actor a) \<Longrightarrow> actor_at k v = Some a"
    by (simp add: actor_at_def encode_actor_def field_readers cbor_get_cons)
qed

lemma canonical_fields:
  fixes env :: ledger_env and e :: entry
  defines "v \<equiv> canonical_value env e"
  shows "text_at ''id'' v = Some (''aud_'' @ ulid_to_string env (eid e))"
    and "u64_at ''seq'' v = Some (seq e)" and "bytes_at ''prev_hash'' v = Some (prev_hash e)"
    and "text_at ''time_wall'' v = Some (rfc3339_format env (time_wall e))"
    and "u64_at ''time_mono'' v = Some (time_mono e)" and "actor_at ''actor'' v = Some (actor e)"
    and "bytes_at ''binary_hash'' v = Some (binary_hash e)" and "text_at ''tenant_id'' v = Some (tenant_id e)"
    and "text_at ''kind'' v = Some (event_kind_as_str (kind e))" and "bytes_at ''payload'' v = Some (payload e)"
    and "optional_text_at ''idempotency_key'' v = Some (idempotency_key e)"
proof -
  note fields = v_def canonical_value_def field_readers cbor_get_cons entry_id_prefixed_def
  have u64: "unat (w :: u64) \<le> u64_max" for w using unsigned_less [of w, where ?'a = nat] by (simp add: u64_max_def)
  show "text_at ''id'' v = Some (''aud_'' @ ulid_to_string env (eid e))" by (simp add: fields)
  show "u64_at ''seq'' v = Some (seq e)" "u64_at ''time_mono'' v = Some (time_mono e)"
    using u64 by (simp_all add: fields)
  show "bytes_at ''prev_hash'' v = Some (prev_hash e)" "bytes_at ''binary_hash'' v = Some (binary_hash e)"
    "bytes_at ''payload'' v = Some (payload e)" by (simp_all add: fields)
  show "text_at ''time_wall'' v = Some (rfc3339_format env (time_wall e))" "text_at ''tenant_id'' v = Some (tenant_id e)"
    "text_at ''kind'' v = Some (event_kind_as_str (kind e))" by (simp_all add: fields)
  show "optional_text_at ''idempotency_key'' v = Some (idempotency_key e)"
    by (simp add: fields split: option.split)
  show "actor_at ''actor'' v = Some (actor e)"
    by (rule actor_at_encoded) (simp add: fields)
qed

lemma read_canonical_value:
  assumes "env_ok env"
  shows "read_canonical env (canonical_value env e) = Some (hashed_part e)"
  using assms strip_prefix_append [of "''aud_''"]
  by (cases e) (simp add: read_canonical_def canonical_fields env_ok_simps kind_codec.from_as hashed_part_def)

text \<open>
  C31: The canonical encoding of an entry, the preimage of its hash. Its keys, and those of the actor
  inside it, stand in the order of RFC 8949 (shorter first, then bytewise), none twice. A reader that
  looks every field up by its key and parses it gets back exactly the entry without its own hash and
  its three session columns, so each value stands under its own key and none of the eleven hashed
  fields is missing. So two entries have the same bytes exactly when they agree on all those fields
  (the CBOR writer being injective), and then they have the same hash.
\<close>

theorem canonical_encoding_exact:
  assumes "env_ok env" and "cbor_faithful env"
  shows "sorted_wrt cbor_key_less (map_keys (canonical_value env e)) \<and>
    (\<exists>a. cbor_get ''actor'' (canonical_value env e) = Some a \<and> sorted_wrt cbor_key_less (map_keys a)) \<and>
    read_canonical env (canonical_value env e) = Some (hashed_part e) \<and>
    (canonical_bytes_for_hashing env e = canonical_bytes_for_hashing env f \<longleftrightarrow> hashed_part e = hashed_part f) \<and>
    (hashed_part e = hashed_part f \<longrightarrow> compute_entry_hash env e = compute_entry_hash env f)"
proof -
  have same: "hashed_part e = hashed_part f \<longleftrightarrow> same_hashed_fields e f"
    by (simp add: hashed_part_def same_hashed_fields_def)
  have bytes: "canonical_bytes_for_hashing env e = canonical_bytes_for_hashing env f \<longleftrightarrow>
      canonical_value env e = canonical_value env f"
    using assms(2) by (simp add: canonical_bytes_for_hashing_def cbor_faithful_def inj_eq)
  have "canonical_value env e = canonical_value env f \<longleftrightarrow> hashed_part e = hashed_part f"
    using canonical_value_inject [OF assms(1)] canonical_value_cong same by blast
  moreover have "cbor_get ''actor'' (canonical_value env e) = Some (encode_actor (actor e))"
    by (simp add: canonical_value_def cbor_get_cons)
  ultimately show ?thesis
    using canonical_keys_ordered [of env e "actor e"] read_canonical_value [OF assms(1)] bytes
      compute_entry_hash_cong same by blast
qed

lemma canonical_encoding_exact_witness:
  "read_canonical demo_env (canonical_value demo_env demo_forged) = Some (hashed_part demo_forged) \<and>
   canonical_bytes_for_hashing demo_env demo_forged \<noteq> canonical_bytes_for_hashing demo_env demo_genuine"
proof -
  have "hashed_part demo_forged \<noteq> hashed_part demo_genuine"
    by (simp add: hashed_part_def demo_forged_def demo_genuine_def)
  then show ?thesis
    using canonical_encoding_exact [OF demo_env_ok demo_cbor_faithful, of demo_forged demo_genuine] by blast
qed

section \<open>The migration\<close>

lemma row_to_entry_wf:
  assumes "row_to_entry env r = Inr e"
  shows "entry_wf (tenant_id e) e" and "seq e = r_seq r"
  using assms
  by (auto simp: row_to_entry_def res_simps to_hash32_def entry_wf_def tenant_new_def split: if_splits)

lemma sort_key_map_seq:
  "sort_key (\<lambda>r. sint (r_seq r)) (map (row_of_entry env) es) =
   map (row_of_entry env) (sort_key (\<lambda>e. sint (seq e)) es)"
proof -
  have ins: "insort_key (\<lambda>r. sint (r_seq r)) (row_of_entry env e) (map (row_of_entry env) fs) =
      map (row_of_entry env) (insort_key (\<lambda>e. sint (seq e)) e fs)" for e fs
    by (induction fs) simp_all
  show ?thesis by (induction es) (simp_all add: ins)
qed

lemma read_all_sorted:
  assumes "read_all_entries env rows = Inr es"
  shows "sorted (map (\<lambda>e. sint (seq e)) es)" and "\<forall>e \<in> set es. entry_wf (tenant_id e) e"
proof -
  have eq: "map (row_to_entry env) (order_by_seq rows) = map Inr es"
    using assms by (simp add: read_all_entries_def collect_res_Inr_iff)
  then have all: "list_all2 (\<lambda>r e. row_to_entry env r = Inr e) (order_by_seq rows) es"
    by (simp add: list_all2_conv_all_nth list_eq_iff_nth_eq)
  then have "list_all2 (\<lambda>r e. sint (r_seq r) = sint (seq e)) (order_by_seq rows) es"
    by (rule list_all2_mono) (simp add: row_to_entry_wf(2))
  then have "map (\<lambda>r. sint (r_seq r)) (order_by_seq rows) = map (\<lambda>e. sint (seq e)) es"
    by (simp add: list_all2_conv_all_nth list_eq_iff_nth_eq)
  moreover have "sorted (map (\<lambda>r. sint (r_seq r)) (order_by_seq rows))"
    by (simp add: order_by_seq_def)
  ultimately show "sorted (map (\<lambda>e. sint (seq e)) es)" by simp
  show "\<forall>e \<in> set es. entry_wf (tenant_id e) e"
  proof
    fix e assume "e \<in> set es"
    then obtain i where "i < length es" "e = es ! i" by (auto simp: in_set_conv_nth)
    then have "row_to_entry env (order_by_seq rows ! i) = Inr e"
      using all by (auto simp: list_all2_conv_all_nth)
    then show "entry_wf (tenant_id e) e" by (rule row_to_entry_wf(1))
  qed
qed

lemma read_all_rebuilt:
  assumes "env_ok env" and "read_all_entries env rows = Inr es"
  shows "read_all_entries env (map (row_of_entry env) es) = Inr es"
proof -
  have "order_by_seq (map (row_of_entry env) es) = map (row_of_entry env) es"
    using read_all_sorted(1) [OF assms(2)]
    by (simp add: order_by_seq_def sort_key_map_seq sort_key_id_if_sorted)
  moreover have "\<forall>e \<in> set es. row_to_entry env (row_of_entry env e) = Inr e"
    using row_roundtrip [OF assms(1)] read_all_sorted(2) [OF assms(2)] by blast
  ultimately show ?thesis by (simp add: read_all_entries_def collect_res_Inr_iff)
qed

text \<open>
  C30: the migration off the UNIQUE schema succeeds exactly on a ledger whose rows decode and
  whose chain verifies (or is empty); it then drops the constraint and every entry, read back
  in order, is the entry that was there. A ledger that does not verify is refused.
\<close>

theorem migration_preserves_entries:
  assumes "env_ok env" and "db_has_unique db"
  shows "migrate_drop_unique_art_if_present env db = Inr db' \<longleftrightarrow>
    (\<exists>es. read_all_entries env (db_rows db) = Inr es \<and>
       (es = [] \<or> is_ok (verify_chain env (tenant_id (hd es)) es)) \<and>
       db' = \<lparr>db_rows = map (row_of_entry env) es, db_has_unique = False\<rparr> \<and>
       read_all_entries env (db_rows db') = Inr es)"
proof (cases "read_all_entries env (db_rows db)")
  case (Inl e)
  then show ?thesis using assms(2) by (simp add: migrate_drop_unique_art_if_present_def)
next
  case (Inr es)
  note rebuilt = read_all_rebuilt [OF assms(1) Inr]
  show ?thesis
  proof (cases es)
    case Nil
    then show ?thesis using assms(2) Inr rebuilt
      by (auto simp: migrate_drop_unique_art_if_present_def rebuild_table_eq)
  next
    case (Cons e fs)
    then show ?thesis using assms(2) Inr rebuilt
      by (cases "verify_chain env (tenant_id e) (e # fs)")
         (auto simp: migrate_drop_unique_art_if_present_def rebuild_table_eq)
  qed
qed

lemma demo_genuine_row:
  "row_to_entry demo_sha_env (row_of_entry demo_sha_env demo_genuine) = Inr demo_genuine"
  by (rule row_roundtrip [of _ "''t1''", OF demo_sha_env_ok])
     (simp add: entry_wf_def demo_genuine_def tenant_new_def)

theorem migration_preserves_entries_witness:
  "migrate_drop_unique_art_if_present demo_sha_env
     \<lparr>db_rows = [row_of_entry demo_sha_env demo_genuine], db_has_unique = True\<rparr> =
   Inr \<lparr>db_rows = [row_of_entry demo_sha_env demo_genuine], db_has_unique = False\<rparr>"
proof -
  have "tenant_id demo_genuine = ''t1''" by (simp add: demo_genuine_def)
  then show ?thesis
    using migration_preserves_entries [OF demo_sha_env_ok,
        of "\<lparr>db_rows = [row_of_entry demo_sha_env demo_genuine], db_has_unique = True\<rparr>"
           "\<lparr>db_rows = [row_of_entry demo_sha_env demo_genuine], db_has_unique = False\<rparr>"]
    by (simp add: read_all_entries_def order_by_seq_def demo_genuine_row demo_genuine_verifies)
qed

section \<open>Signatures\<close>

definition subject_text :: "(entry \<Rightarrow> string option) \<Rightarrow> entry \<Rightarrow> string" where
  "subject_text subject_of e = (case subject_of e of Some s \<Rightarrow> s | None \<Rightarrow> [])"

definition signed_count :: "append_request list \<Rightarrow> nat" where
  "signed_count rqs = count_where (\<lambda>rq. rq_session rq \<noteq> None) rqs"

lemma records_request_sig:
  assumes "env_ok env" and "records_request env rq e" and "subject_text subject_of e = rq_subject rq"
  shows "verify_signatures env subject_of anchored n (e # es) =
         verify_signatures env subject_of anchored (n + (if rq_session rq = None then 0 else 1)) es"
  using assms env_ok_simps(7) [OF assms(1)]
  by (auto simp: records_request_def session_columns_def subject_text_def split: option.splits)

lemma verify_signatures_appended:
  assumes "env_ok env" and "list_all2 (records_request env) rqs es"
    and "list_all2 (\<lambda>rq e. subject_text subject_of e = rq_subject rq) rqs es"
  shows "verify_signatures env subject_of anchored n es = Inr (n + signed_count rqs)"
  using assms(2,3)
proof (induction rqs es arbitrary: n rule: list_all2_induct)
  case Nil
  then show ?case by (simp add: signed_count_def count_where_def)
next
  case (Cons rq rqs e es)
  then show ?case
    using records_request_sig [OF assms(1), of rq e subject_of anchored n es]
    by (simp add: signed_count_def count_where_def)
qed

text \<open>
  signing and verifying agree: on a ledger written by the append path from empty, with a
  subject function that returns what the signer used, the extended verification accepts every
  entry and counts as many valid signatures as requests that carried a session.
\<close>

theorem signed_appends_verify:
  assumes "env_ok env" "meta_ok meta" and "length rqs < 2 ^ 63"
    and "append_all env meta rqs [] = Inr rows" and "read_all_entries env rows = Inr es"
    and "list_all2 (\<lambda>rq e. subject_text subject_of e = rq_subject rq) rqs es"
  shows "verify_chain_signed env (meta_tenant_id meta) es [] subject_of tsa_for =
    Inr \<lparr>entries_verified = length rqs, signatures_verified = signed_count rqs,
         anchors_anchored = 0, anchors_pending = 0, fully_anchored = True\<rparr>"
proof -
  obtain new where new: "append_all env meta rqs [] = Inr (map (row_of_entry env) new)"
    "ledger_rep env (meta_tenant_id meta) new (map (row_of_entry env) new)"
    "list_all2 (records_request env) rqs new"
    using append_all_rep [OF assms(1,2) ledger_rep_Nil, of rqs] assms(3) by auto
  have es: "es = new" using assms(4,5) new(1) rep_read_all [OF assms(1) new(2)] by simp
  have len: "length new = length rqs" using new(3) by (simp add: list_all2_lengthD)
  have "chain_valid env (meta_tenant_id meta) new"
    using new(2) by (simp add: ledger_rep_def chain_valid_def)
  then have "verify_chain env (meta_tenant_id meta) new = Inr (length rqs)"
    using assms(3) len by (simp add: verify_chain_iff)
  then show ?thesis
    using verify_signatures_appended [OF assms(1) new(3)] assms(6) es
    by (simp add: verify_chain_signed_def)
qed

lemma demo_signed_ledger:
  "\<exists>new. append_all demo_env demo_meta [demo_request 1, demo_request 2] [] =
       Inr (map (row_of_entry demo_env) new) \<and>
     read_all_entries demo_env (map (row_of_entry demo_env) new) = Inr new \<and>
     list_all2 (\<lambda>rq e. subject_text (\<lambda>_. None) e = rq_subject rq) [demo_request 1, demo_request 2] new"
proof -
  let ?rqs = "[demo_request 1, demo_request 2]"
  obtain new where new:
    "append_all demo_env demo_meta ?rqs [] = Inr (map (row_of_entry demo_env) new)"
    "ledger_rep demo_env (meta_tenant_id demo_meta) new (map (row_of_entry demo_env) new)"
    "list_all2 (records_request demo_env) ?rqs new"
    using append_all_rep [OF demo_env_ok demo_meta_ok ledger_rep_Nil, of ?rqs] by auto
  have "list_all2 (\<lambda>rq e. subject_text (\<lambda>_. None) e = rq_subject rq) ?rqs new"
    using new(3) by (auto simp: list_all2_Cons1 subject_text_def demo_request_def)
  with new(1) rep_read_all [OF demo_env_ok new(2)] show ?thesis by blast
qed

lemma demo_signed_count: "signed_count [demo_request 1, demo_request 2] = 2"
  by (simp add: signed_count_def count_where_def demo_request_def)

theorem signed_appends_verify_witness:
  "\<exists>rows es. append_all demo_env demo_meta [demo_request 1, demo_request 2] [] = Inr rows \<and>
     verify_chain_signed demo_env ''t1'' es [] (\<lambda>_. None) (\<lambda>_. None) =
       Inr \<lparr>entries_verified = 2, signatures_verified = 2, anchors_anchored = 0,
            anchors_pending = 0, fully_anchored = True\<rparr>"
proof -
  obtain new where new:
    "append_all demo_env demo_meta [demo_request 1, demo_request 2] [] =
       Inr (map (row_of_entry demo_env) new)"
    "read_all_entries demo_env (map (row_of_entry demo_env) new) = Inr new"
    "list_all2 (\<lambda>rq e. subject_text (\<lambda>_. None) e = rq_subject rq) [demo_request 1, demo_request 2] new"
    using demo_signed_ledger by blast
  have "verify_chain_signed demo_env (meta_tenant_id demo_meta) new [] (\<lambda>_. None) (\<lambda>_. None) =
       Inr \<lparr>entries_verified = 2, signatures_verified = 2, anchors_anchored = 0,
            anchors_pending = 0, fully_anchored = True\<rparr>"
    using signed_appends_verify [OF demo_env_ok demo_meta_ok _ new, of "\<lambda>_. None"]
    using demo_signed_count by simp
  with new(1) show ?thesis by (auto simp: demo_meta_def)
qed

definition strip_session :: "entry \<Rightarrow> entry" where
  "strip_session e = e\<lparr>session_id := None, session_pubkey := None, event_sig := None\<rparr>"

lemma strip_session_same: "same_hashed_fields (strip_session e) e"
  by (simp add: same_hashed_fields_def strip_session_def)

lemma verify_loop_strip:
  "verify_loop env s prev n (map strip_session es) = verify_loop env s prev n es"
proof (induction es arbitrary: s prev n)
  case Nil
  then show ?case by simp
next
  case (Cons e es)
  have "seq (strip_session e) = seq e" "prev_hash (strip_session e) = prev_hash e"
    "entry_hash (strip_session e) = entry_hash e"
    by (simp_all add: strip_session_def)
  moreover have "compute_entry_hash env (strip_session e) = compute_entry_hash env e"
    by (rule compute_entry_hash_cong [OF strip_session_same])
  ultimately show ?case by (simp add: Cons.IH split: option.splits)
qed

lemma verify_signatures_strip:
  "verify_signatures env subject_of anchored n (map strip_session es) = Inr n"
  by (induction es) (simp_all add: strip_session_def)

text \<open>
  C32: what the signatures do not protect: the session columns are outside the entry hash, so
  blanking all three of them on every entry leaves a ledger that the extended verification
  still accepts, with the same verdict but no signature counted. The rule against stripped
  signatures only looks at entries that keep their session id.
\<close>

theorem stripping_signatures_verifies:
  assumes "verify_chain_signed env tenant es anchors subject_of tsa_for = Inr v"
  shows "verify_chain_signed env tenant (map strip_session es) anchors subject_of tsa_for =
    Inr (v\<lparr>signatures_verified := 0\<rparr>)"
  using assms
  by (auto simp: verify_chain_signed_def res_simps verify_chain_def verify_loop_strip
      verify_signatures_strip split: prod.splits)

lemma demo_one_signed:
  "verify_chain_signed demo_sha_env ''t1'' [demo_signed_genuine] [] (\<lambda>_. None) (\<lambda>_. None) =
   Inr \<lparr>entries_verified = 1, signatures_verified = 1, anchors_anchored = 0,
        anchors_pending = 0, fully_anchored = True\<rparr>"
proof -
  have "prev_hash demo_signed_genuine = replicate 32 0" "kind demo_signed_genuine = (SessionEvent SessionOpened)"
    "payload demo_signed_genuine = [1]"
    by (simp_all add: demo_signed_genuine_def demo_genuine_def)
  then have "verify_signatures demo_sha_env (\<lambda>_. None) {} 0 [demo_signed_genuine] = Inr 1"
    using env_ok_simps(7) [OF demo_sha_env_ok] by (simp add: demo_signed_genuine_def)
  then show ?thesis by (simp add: verify_chain_signed_def demo_signed_verifies)
qed

theorem stripping_signatures_verifies_witness:
  "verify_chain_signed demo_sha_env ''t1'' (map strip_session [demo_signed_genuine]) []
     (\<lambda>_. None) (\<lambda>_. None) =
   Inr \<lparr>entries_verified = 1, signatures_verified = 0, anchors_anchored = 0,
        anchors_pending = 0, fully_anchored = True\<rparr>"
  using stripping_signatures_verifies [OF demo_one_signed] by simp

section \<open>Sessions\<close>

lemma open_set_opened:
  assumes "a_tenant_id a = tenant" "anchor_is_open (a_kind a)" "\<not> anchor_is_close (a_kind a)"
    and "\<forall>b \<in> set as. a_session_id b \<noteq> a_session_id a"
  shows "open_set tenant (as @ [a]) = insert (a_session_id a) (open_set tenant as)"
proof (rule set_eqI)
  fix s
  show "s \<in> open_set tenant (as @ [a]) \<longleftrightarrow> s \<in> insert (a_session_id a) (open_set tenant as)"
  proof (cases "s = a_session_id a")
    case True
    have "\<forall>b \<in> set (as @ [a]). a_tenant_id b = tenant \<and> a_session_id b = s \<longrightarrow>
        \<not> anchor_is_close (a_kind b)"
      using assms(3,4) True by simp
    moreover have "\<exists>b \<in> set (as @ [a]). a_tenant_id b = tenant \<and> a_session_id b = s \<and>
        anchor_is_open (a_kind b)"
      using assms(1,2) True by simp
    ultimately show ?thesis using True by (simp add: open_set_def)
  next
    case False
    then have "(\<exists>b \<in> set (as @ [a]). a_tenant_id b = tenant \<and> a_session_id b = s \<and>
        anchor_is_open (a_kind b)) \<longleftrightarrow>
      (\<exists>b \<in> set as. a_tenant_id b = tenant \<and> a_session_id b = s \<and> anchor_is_open (a_kind b))"
      by auto
    moreover have "(\<forall>b \<in> set (as @ [a]). a_tenant_id b = tenant \<and> a_session_id b = s \<longrightarrow>
        \<not> anchor_is_close (a_kind b)) \<longleftrightarrow>
      (\<forall>b \<in> set as. a_tenant_id b = tenant \<and> a_session_id b = s \<longrightarrow> \<not> anchor_is_close (a_kind b))"
      using False by auto
    ultimately show ?thesis using False unfolding open_set_def by blast
  qed
qed

definition fresh_session :: "session_env \<Rightarrow> string \<Rightarrow> session_db \<Rightarrow> bool" where
  \<comment> \<open>ULIDs are unique: no anchor carries the id that the next session will get\<close>
  "fresh_session se prefix db \<longleftrightarrow>
     (\<forall>a \<in> set (db_anchors db).
        a_session_id a \<noteq> prefix @ ulid_to_string (se_env se) (sup_ulid (se_supply se) (sd_tick db)))"

lemma sess_inv_tick: "sess_inv se (db\<lparr>sd_tick := t\<rparr>) = sess_inv se db"
  by (simp add: sess_inv_def)

lemma signed_anchor_step:
  assumes "sess_inv se db" and "tsa_reachable se" and "length (sd_rows db) + 1 < 2 ^ 63"
  shows "\<exists>a db'. and_then (append_signed se k pl ctx db) (ledger_take_anchor se sid ak) = Inr (a, db') \<and>
           sess_inv se db' \<and> db_anchors db' = db_anchors db @ [a] \<and>
           a_session_id a = sid \<and> a_kind a = ak \<and> a_tenant_id a = meta_tenant_id (se_meta se) \<and>
           length (sd_rows db') = Suc (length (sd_rows db))"
proof -
  obtain rows where rows:
    "append_signed se k pl ctx db = Inr (db\<lparr>sd_rows := rows, sd_tick := Suc (sd_tick db)\<rparr>)"
    "length rows = Suc (length (sd_rows db))"
    "sess_inv se (db\<lparr>sd_rows := rows, sd_tick := Suc (sd_tick db)\<rparr>)"
    using append_signed_ok [OF assms(1,3)] by blast
  define d where "d = db\<lparr>sd_rows := rows, sd_tick := Suc (sd_tick db)\<rparr>"
  obtain a where a: "ledger_take_anchor se sid ak d =
      Inr (a, d\<lparr>sd_anchors := sd_anchors d @ [row_of_anchor a], sd_tick := Suc (sd_tick d)\<rparr>)"
    "a_session_id a = sid" "a_kind a = ak" "a_tenant_id a = meta_tenant_id (se_meta se)"
    "sess_inv se (d\<lparr>sd_anchors := sd_anchors d @ [row_of_anchor a], sd_tick := Suc (sd_tick d)\<rparr>)"
    using ledger_take_anchor_ok [OF _ assms(2)] rows(3) d_def by metis
  have "db_anchors (d\<lparr>sd_anchors := sd_anchors d @ [row_of_anchor a], sd_tick := Suc (sd_tick d)\<rparr>) =
      db_anchors db @ [a]"
    by (simp only: db_anchors_snoc) (simp add: d_def db_anchors_rows)
  moreover have "length (sd_rows d) = Suc (length (sd_rows db))" by (simp add: d_def rows(2))
  ultimately show ?thesis using rows(1) a
    by (intro exI [of _ a] exI [of _ "d\<lparr>sd_anchors := sd_anchors d @ [row_of_anchor a],
          sd_tick := Suc (sd_tick d)\<rparr>"])
       (simp add: d_def [symmetric])
qed

text \<open>
  an operator session opens and closes cleanly: opening records a signed entry and an
  anchor and makes the new session the one more open session of the tenant, closing it brings
  the set of open sessions back, and the ledger verifies throughout.
\<close>

theorem operator_session_opens_and_closes:
  assumes "sess_inv se db" and "tsa_reachable se" and "length (sd_rows db) + 2 < 2 ^ 63"
    and "fresh_session se ''ses_'' db"
  shows "\<exists>ctx a db1 b db2.
    open_operator_session se ident key db = Inr ((ctx, a), db1) \<and>
    close_operator_session se ctx db1 = Inr (b, db2) \<and>
    open_set (meta_tenant_id (se_meta se)) (db_anchors db1) =
      insert (sc_session_id ctx) (open_set (meta_tenant_id (se_meta se)) (db_anchors db)) \<and>
    open_set (meta_tenant_id (se_meta se)) (db_anchors db2) =
      open_set (meta_tenant_id (se_meta se)) (db_anchors db) \<and>
    sess_inv se db1 \<and> sess_inv se db2 \<and> length (sd_rows db2) = length (sd_rows db) + 2"
proof -
  let ?tn = "meta_tenant_id (se_meta se)"
  obtain subject name attested source where ident: "ident = (subject, name, attested, source)"
    by (cases ident) auto
  define ctx where "ctx =
    \<lparr>sc_session_id = ''ses_'' @ ulid_to_string (se_env se) (sup_ulid (se_supply se) (sd_tick db)),
     sc_identity = Operator subject name attested source, sc_key = key\<rparr>"
  define sid where "sid = sc_session_id ctx"
  define pl where "pl = se_json se
    [(''session_id'', sc_session_id ctx), (''session_pubkey'', ed25519_pubkey_hex (se_env se) key),
     (''operator_dap_subject'', subject), (''identity_source'', source),
     (''opened_at_utc'', se_now se (sd_tick db))]"
  define d0 where "d0 = db\<lparr>sd_tick := Suc (sd_tick db)\<rparr>"
  have d0: "sess_inv se d0" "length (sd_rows d0) + 1 < 2 ^ 63" "db_anchors d0 = db_anchors db"
    using assms(1,3) by (simp_all add: d0_def sess_inv_tick db_anchors_def)
  from signed_anchor_step [OF d0(1) assms(2) d0(2), of "SessionEvent SessionOpened" pl ctx sid LoginOpen]
  obtain a db1 where a:
    "and_then (append_signed se (SessionEvent SessionOpened) pl ctx d0) (ledger_take_anchor se sid LoginOpen) = Inr (a, db1)"
    "sess_inv se db1" "db_anchors db1 = db_anchors db @ [a]" "a_session_id a = sid"
    "a_kind a = LoginOpen" "a_tenant_id a = ?tn" "length (sd_rows db1) = Suc (length (sd_rows d0))"
    using d0(3) by auto
  have room: "length (sd_rows db1) + 1 < 2 ^ 63" using a(7) assms(3) by (simp add: d0_def)
  define pl2 where "pl2 = se_json se [(''session_id'', sc_session_id ctx),
                                      (''closed_at_utc'', se_now se (sd_tick db1))]"
  from signed_anchor_step [OF a(2) assms(2) room, of "SessionEvent SessionClosed" pl2 ctx sid LogoutClose]
  obtain b db2 where b:
    "and_then (append_signed se (SessionEvent SessionClosed) pl2 ctx db1) (ledger_take_anchor se sid LogoutClose) = Inr (b, db2)"
    "sess_inv se db2" "db_anchors db2 = db_anchors db1 @ [b]" "a_session_id b = sid"
    "a_kind b = LogoutClose" "a_tenant_id b = ?tn" "length (sd_rows db2) = Suc (length (sd_rows db1))"
    by blast
  have "open_operator_session se ident key db =
      and_then (append_signed se (SessionEvent SessionOpened) pl ctx d0) (\<lambda>d.
      and_then (ledger_take_anchor se sid LoginOpen d) (\<lambda>(x, d'). Inr ((ctx, x), d')))"
    by (simp add: open_operator_session_def ident Let_def ctx_def pl_def d0_def sid_def)
  then have "open_operator_session se ident key db = Inr ((ctx, a), db1)"
    using a(1) by (auto simp: and_then_eq_Inr)
  moreover have "close_operator_session se ctx db1 = Inr (b, db2)"
    using b(1) by (simp add: close_operator_session_def pl2_def sid_def)
  moreover have opened: "open_set ?tn (db_anchors db1) = insert sid (open_set ?tn (db_anchors db))"
    using open_set_opened [of a ?tn "db_anchors db"] a(4-6) assms(4)
    by (simp add: a(3) anchor_is_open_def anchor_is_close_def fresh_session_def sid_def ctx_def)
  moreover have "sid \<notin> open_set ?tn (db_anchors db)"
    using assms(4) by (auto simp: open_set_def fresh_session_def sid_def ctx_def)
  then have "open_set ?tn (db_anchors db2) = open_set ?tn (db_anchors db)"
    using open_set_closed [of "[b]" ?tn "db_anchors db1"] b(4-6) opened
    by (simp add: b(3) anchor_is_open_def anchor_is_close_def)
  ultimately show ?thesis using a(2,7) b(2,7) by (auto simp: d0_def sid_def)
qed

text \<open>A session environment over the demonstration functions, with an authority that answers.\<close>

definition demo_session_env :: session_env where
  "demo_session_env =
     \<lparr>se_env = demo_env, se_meta = demo_meta,
      se_supply = \<lparr>sup_ulid = id, sup_now = int, sup_mono = of_nat\<rparr>,
      se_tsa = \<lparr>tsa_ident = ''mock'',
                tsa_timestamp = (\<lambda>p. Inr \<lparr>tok_bytes = p, tok_issued_at = '''', tok_identifier = ''mock''\<rparr>),
                tsa_verify = (\<lambda>p t. tok_bytes t = p)\<rparr>,
      se_json = (\<lambda>kvs. concat (map (\<lambda>(k, v). bytes_of k @ bytes_of v) kvs)),
      se_actor = demo_actor\<rparr>"

definition demo_session_db :: session_db where
  "demo_session_db = \<lparr>sd_rows = [], sd_anchors = [], sd_tick = 0\<rparr>"

lemma demo_sess_inv: "sess_inv demo_session_env demo_session_db"
  using demo_ledger_inv
  by (simp add: sess_inv_def demo_session_env_def demo_session_db_def anchors_rep_def)

lemma demo_tsa_reachable: "tsa_reachable demo_session_env"
  by (simp add: tsa_reachable_def demo_session_env_def)

theorem operator_session_opens_and_closes_witness:
  "\<exists>ctx a db1 b db2.
     open_operator_session demo_session_env (''s'', ''n'', ''t'', ''dap'') 3 demo_session_db =
       Inr ((ctx, a), db1) \<and>
     close_operator_session demo_session_env ctx db1 = Inr (b, db2) \<and>
     open_set ''t1'' (db_anchors db1) = {sc_session_id ctx} \<and>
     open_set ''t1'' (db_anchors db2) = {} \<and> length (sd_rows db2) = 2"
proof -
  have t: "meta_tenant_id (se_meta demo_session_env) = ''t1''" "sd_rows demo_session_db = []"
    "db_anchors demo_session_db = []"
    by (simp_all add: demo_session_env_def demo_meta_def demo_session_db_def db_anchors_def)
  have "open_set ''t1'' [] = {}" by (simp add: open_set_def)
  moreover have "fresh_session demo_session_env ''ses_'' demo_session_db"
    by (simp add: fresh_session_def t)
  ultimately show ?thesis
    using operator_session_opens_and_closes [OF demo_sess_inv demo_tsa_reachable,
      of "(''s'', ''n'', ''t'', ''dap'')" 3]
    unfolding t by (simp only: list.size) fastforce
qed

text \<open>
  C27: crash recovery closes every orphan: it succeeds while the ledger has room, the
  ledger still verifies afterwards, and the only session of the tenant that can still be
  open is the one that boots.
\<close>

theorem crash_recovery_closes_orphans:
  assumes "sess_inv se db" and "tsa_reachable se"
    and "length (sd_rows db) + length (sd_anchors db) < 2 ^ 63"
  shows "\<exists>rs db'. recover_crashed_sessions se boot db = Inr (rs, db') \<and> sess_inv se db' \<and>
           set (map fst rs) =
             open_set (meta_tenant_id (se_meta se)) (db_anchors db) - {sc_session_id boot} \<and>
           open_set (meta_tenant_id (se_meta se)) (db_anchors db') =
             open_set (meta_tenant_id (se_meta se)) (db_anchors db) \<inter> {sc_session_id boot} \<and>
           length (sd_rows db') = length (sd_rows db) + length rs"
proof -
  let ?tn = "meta_tenant_id (se_meta se)"
  obtain as where as: "anchors_rep as (sd_anchors db)" using assms(1) by (auto simp: sess_inv_def)
  then have dba: "db_anchors db = as" by (rule db_anchors_rep)
  obtain ss where ss: "open_sessions_without_close ?tn (sd_anchors db) = Inr ss"
    "distinct ss" "set ss = open_set ?tn as"
    using open_sessions_without_close_rep [OF as] by blast
  have "set ss \<subseteq> a_session_id ` set as" by (auto simp: ss(3) open_set_def)
  then have "length ss \<le> length as"
    using ss(2) by (metis card_image_le card_length card_mono distinct_card finite_imageI
        finite_set le_trans)
  then have room: "length (sd_rows db) + length ss < 2 ^ 63"
    using assms(3) as by (simp add: anchors_rep_def)
  obtain rs db' where rec: "recover_orphans se boot ss db = Inr (rs, db')" "sess_inv se db'"
    "map fst rs = filter (\<lambda>s. s \<noteq> sc_session_id boot) ss"
    "db_anchors db' = db_anchors db @ map snd rs"
    "length (sd_rows db') = length (sd_rows db) + length rs" "list_all (closing_record se) rs"
    using recover_orphans_ok [OF assms(1,2) room] by blast
  have ids: "set (map fst rs) = open_set ?tn as - {sc_session_id boot}"
    by (simp only: rec(3) set_filter ss(3)) auto
  have clos: "b \<in> snd ` set rs \<Longrightarrow> a_tenant_id b = ?tn \<and> a_kind b = LogoutClose" for b
    using rec(6) by (auto simp: list_all_iff closing_record_def)
  have sids: "a_session_id ` snd ` set rs = open_set ?tn as - {sc_session_id boot}"
  proof -
    have "map (\<lambda>r. a_session_id (snd r)) rs = map fst rs"
      using rec(6) by (auto simp: list_all_iff closing_record_def)
    then have "set (map (\<lambda>r. a_session_id (snd r)) rs) = set (map fst rs)" by simp
    then have "a_session_id ` snd ` set rs = set (map fst rs)" by (simp add: image_image)
    then show ?thesis by (simp only: ids)
  qed
  have "open_set ?tn (as @ map snd rs) = open_set ?tn as - a_session_id ` set (map snd rs)"
    using clos by (intro open_set_closed) (auto simp: anchor_is_close_def anchor_is_open_def)
  also have "\<dots> = open_set ?tn as \<inter> {sc_session_id boot}"
    by (simp only: set_map sids) blast
  finally show ?thesis
    using rec(1,2,4,5) ids ss(1) dba by (auto simp: recover_crashed_sessions_def)
qed

definition demo_orphan :: anchor where
  "demo_orphan =
     \<lparr>a_id = ''anc_1'', a_tenant_id = ''t1'', a_session_id = ''ses_9'', a_kind = LoginOpen,
      a_chain_head_hash = ''h'', a_token = None, a_tsa_identifier = ''mock'',
      a_tsa_status = Pending, a_created_at = ''+1''\<rparr>"

definition demo_crashed_db :: session_db where
  "demo_crashed_db = \<lparr>sd_rows = [], sd_anchors = [row_of_anchor demo_orphan], sd_tick = 5\<rparr>"

definition demo_boot :: session_context where
  "demo_boot = \<lparr>sc_session_id = ''ses_10'', sc_identity = Service ''k'' ''pending'', sc_key = 3\<rparr>"

lemma demo_crashed:
  "meta_tenant_id (se_meta demo_session_env) = ''t1''" "sess_inv demo_session_env demo_crashed_db"
  "db_anchors demo_crashed_db = [demo_orphan]" "sd_rows demo_crashed_db = []"
  "length (sd_anchors demo_crashed_db) = 1" "open_set ''t1'' [demo_orphan] = {''ses_9''}"
  "sc_session_id demo_boot = ''ses_10''"
proof -
  show "sess_inv demo_session_env demo_crashed_db"
    using demo_ledger_inv
    by (simp add: sess_inv_def demo_session_env_def demo_crashed_db_def anchors_rep_def)
      (rule exI [of _ "[demo_orphan]"], simp)
  show "open_set ''t1'' [demo_orphan] = {''ses_9''}"
    by (auto simp: open_set_def demo_orphan_def anchor_is_open_def anchor_is_close_def)
qed (simp_all add: demo_session_env_def demo_meta_def db_anchors_def demo_crashed_db_def
       anchor_roundtrip demo_boot_def)

theorem crash_recovery_closes_orphans_witness:
  "\<exists>rs db'. recover_crashed_sessions demo_session_env demo_boot demo_crashed_db = Inr (rs, db') \<and>
     sess_inv demo_session_env db' \<and> set (map fst rs) = {''ses_9''} - {''ses_10''} \<and>
     open_set ''t1'' (db_anchors db') = {''ses_9''} \<inter> {''ses_10''} \<and>
     length (sd_rows db') = length ([] :: ledger_row list) + length rs"
proof -
  have room: "length (sd_rows demo_crashed_db) + length (sd_anchors demo_crashed_db) < 2 ^ 63"
    by (simp add: demo_crashed)
  show ?thesis
    using crash_recovery_closes_orphans [OF demo_crashed(2) demo_tsa_reachable room, of demo_boot]
    by (simp only: demo_crashed)
qed

end
