(* ===== verification/Audit_Mirror_Properties.thy ===== *)
theory Audit_Mirror_Properties
  imports Audit_Mirror Audit_Properties
begin

text \<open>
  The ledger mirror against a database in the ledger invariant: what the mirror's queries return,
  the exact outcomes of reconciliation, torn appends, replay, and the evidence invariant over any
  sequence of mirror operations, database changes and interrupted writes.
\<close>

section \<open>The queries on a ledger in the invariant\<close>

definition unsigned_entry :: "entry \<Rightarrow> entry" where
  "unsigned_entry e = e\<lparr>session_id := None, session_pubkey := None, event_sig := None\<rparr>"

definition mirror_of :: "ledger_env \<Rightarrow> mirror_json \<Rightarrow> entry list \<Rightarrow> byte list" where
  "mirror_of env js es = file_of js (map (from_entry env) es)"

lemma mirror_row_decoder:
  "row_to_entry env r = Inr e \<Longrightarrow> row_to_entry_for_mirror env r = Inr (unsigned_entry e)"
  by (auto simp: row_to_entry_def row_to_entry_for_mirror_def and_then_eq_Inr unsigned_entry_def)

lemma mirror_row_of_entry:
  "env_ok env \<Longrightarrow> entry_wf tenant e \<Longrightarrow>
   row_to_entry_for_mirror env (row_of_entry env e) = Inr (unsigned_entry e)"
  by (intro mirror_row_decoder row_roundtrip)

lemma unsigned_fields [simp]:
  "entry_hash (unsigned_entry e) = entry_hash e" "seq (unsigned_entry e) = seq e"
  "from_entry env (unsigned_entry e) = from_entry env e"
  by (simp_all add: unsigned_entry_def from_entry_def)

lemma mirror_of_unsigned [simp]: "mirror_of env js (map unsigned_entry es) = mirror_of env js es"
  by (simp add: mirror_of_def comp_def)

lemma mirror_of_append: "mirror_of env js (es @ fs) = mirror_of env js es @ mirror_of env js fs"
  by (simp add: mirror_of_def)

lemma seqs_from_nth: "seqs_from n ms \<Longrightarrow> i < length ms \<Longrightarrow> m_seq (ms ! i) = of_nat (n + i) + 1"
  by (induction ms arbitrary: n i) (auto simp: nth_Cons split: nat.splits)

lemma chained_mirror_wf:
  assumes "chained env 1 prev es"
  shows "mirror_wf (map (from_entry env) es)"
proof -
  have seqs: "chained env (Suc n) p es \<Longrightarrow> seqs_from n (map (from_entry env) es)" for n p
    by (induction es arbitrary: n p) (auto simp: from_entry_def)
  have links: "chained env n p es \<Longrightarrow> h = None \<or> h = Some (hex_encode env p) \<Longrightarrow>
      linked h (map (from_entry env) es)" for n p h
    by (induction es arbitrary: n p h) (auto simp: from_entry_def split: option.splits)
  show ?thesis using seqs [of 0 prev] links [of 1 prev None] assms by (simp add: mirror_wf_def)
qed

lemma rep_rows: "ledger_rep env tenant es rows \<Longrightarrow> rows = map (row_of_entry env) es"
  by (simp add: ledger_rep_def)

lemma rep_bound: "ledger_rep env tenant es rows \<Longrightarrow> length es < 2 ^ 63"
  by (simp add: ledger_rep_def)

lemma rep_seq: "ledger_rep env tenant es rows \<Longrightarrow> i < length es \<Longrightarrow> seq (es ! i) = of_nat (Suc i)"
  using chained_nth(1) [of env 1 "genesis_hash env tenant" es i] by (simp add: ledger_rep_def)

lemma rep_sint: "ledger_rep env tenant es rows \<Longrightarrow> i < length es \<Longrightarrow> sint (seq (es ! i)) = int (Suc i)"
  using rep_bound [of env tenant es rows] by (simp add: rep_seq sint_of_nat64 del: of_nat_Suc)

lemma rep_wf: "ledger_rep env tenant es rows \<Longrightarrow> e \<in> set es \<Longrightarrow> entry_wf tenant e"
  by (simp add: ledger_rep_def)

lemma rep_seq_inject:
  assumes "ledger_rep env tenant es rows" and "i < length es" and "j < length es"
  shows "seq (es ! i) = seq (es ! j) \<longleftrightarrow> i = j"
  using rep_sint [OF assms(1)] assms(2,3) by (metis Suc_inject of_nat_eq_iff)

lemma rep_max_seq:
  assumes ok: "env_ok env" and rep: "ledger_rep env tenant es rows"
  shows "read_db_max_seq env rows = Inr (of_nat (length es))"
proof (cases es rule: rev_cases)
  case Nil
  then show ?thesis
    by (simp add: read_db_max_seq_def select_head_def order_by_seq_def rep_rows [OF rep])
next
  case (snoc fs e)
  have "select_head rows = Some (row_of_entry env e)"
    using rep_order [OF rep] snoc by (simp add: select_head_def rep_rows [OF rep])
  moreover have "entry_wf tenant e" "seq e = of_nat (length es)"
    using rep_wf [OF rep] rep_seq [OF rep, of "length fs"] snoc by simp_all
  ultimately show ?thesis by (simp add: read_db_max_seq_def mirror_row_of_entry [OF ok])
qed

lemma rep_filter_after:
  assumes rep: "ledger_rep env tenant es rows"
  shows "filter (\<lambda>e. int k < sint (seq e)) es = drop k es"
proof -
  have "filter (\<lambda>e. int k < sint (seq e)) (take k es @ drop k es) = [] @ drop k es"
    unfolding filter_append
    by (intro arg_cong2 [of _ _ _ _ "(@)"])
       (auto simp: filter_empty_conv filter_id_conv in_set_conv_nth rep_sint [OF rep])
  then show ?thesis by simp
qed

lemma rep_entries_after:
  assumes ok: "env_ok env" and rep: "ledger_rep env tenant es rows"
    and len: "k < 2 ^ 63"
  shows "read_db_entries_after env rows (of_nat k) = Inr (map unsigned_entry (drop k es))"
proof -
  have "sint (of_nat k :: u64) = int k" using len by (intro sint_of_nat64)
  then have "filter (\<lambda>r. sint (of_nat k :: u64) < sint (r_seq r)) rows =
      map (row_of_entry env) (drop k es)"
    using rep_filter_after [OF rep] by (simp add: rep_rows [OF rep] filter_map comp_def)
  moreover have "order_by_seq (map (row_of_entry env) (drop k es)) = map (row_of_entry env) (drop k es)"
    unfolding order_by_seq_def
  proof (rule sort_key_id_if_sorted)
    show "sorted (map (\<lambda>r. sint (r_seq r)) (map (row_of_entry env) (drop k es)))"
      by (auto simp: sorted_iff_nth_mono comp_def rep_sint [OF rep])
  qed
  moreover have "collect_res (map (row_to_entry_for_mirror env) (map (row_of_entry env) (drop k es)))
      = Inr (map unsigned_entry (drop k es))"
  proof -
    have "collect_res (map (\<lambda>e. row_to_entry_for_mirror env (row_of_entry env e)) (drop k es)) =
        Inr (map unsigned_entry (drop k es))"
      using mirror_row_of_entry [OF ok rep_wf [OF rep]]
      by (intro collect_res_map_Inr) (auto dest: in_set_dropD)
    then show ?thesis by (simp add: comp_def)
  qed
  ultimately show ?thesis by (simp add: read_db_entries_after_def)
qed

lemma rep_entry_at:
  assumes ok: "env_ok env" and rep: "ledger_rep env tenant es rows"
    and len: "i < length es"
  shows "read_db_entry_at_seq env rows (of_nat (Suc i)) = Inr (Some (unsigned_entry (es ! i)))"
proof -
  have "select_one (\<lambda>r. r_seq r = of_nat (Suc i)) rows = Some (row_of_entry env (es ! i))"
    unfolding select_one_def find_Some_iff
    using rep_seq [OF rep len] rep_seq_inject [OF rep _ len] len
    by (intro exI [of _ i]) (auto simp: rep_rows [OF rep] simp del: of_nat_Suc)
  then show ?thesis
    using mirror_row_of_entry [OF ok rep_wf [OF rep nth_mem [OF len]]] by (simp add: read_db_entry_at_seq_def)
qed

lemma rep_entry_beyond:
  assumes rep: "ledger_rep env tenant es rows"
    and len: "length es < n" "n < 2 ^ 64"
  shows "read_db_entry_at_seq env rows (of_nat n) = Inr None"
proof -
  have "of_nat (Suc j) \<noteq> (of_nat n :: u64)" if "j < length es" for j
  proof
    assume "of_nat (Suc j) = (of_nat n :: u64)"
    then have "unat (of_nat (Suc j) :: u64) = unat (of_nat n :: u64)" by (rule arg_cong)
    then show False using that len rep_bound [OF rep] by (simp add: unat_of_nat64 del: of_nat_Suc)
  qed
  then have "select_one (\<lambda>r. r_seq r = of_nat n) rows = None"
    by (auto simp: select_one_None rep_rows [OF rep] in_set_conv_nth rep_seq [OF rep] simp del: of_nat_Suc)
  then show ?thesis by (simp add: read_db_entry_at_seq_def)
qed

lemma rep_counts:
  assumes rep: "ledger_rep env tenant es rows"
    and len: "k \<le> length es"
  shows "read_db_seq_counts_up_to rows (of_nat k) = (of_nat k, of_nat k)"
proof -
  have "filter (\<lambda>e. sint (seq e) \<le> int k) (take k es @ drop k es) = take k es @ []"
    unfolding filter_append
    by (intro arg_cong2 [of _ _ _ _ "(@)"])
       (auto simp: filter_empty_conv filter_id_conv in_set_conv_nth rep_sint [OF rep])
  moreover have "sint (of_nat k :: u64) = int k" using len rep_bound [OF rep] by (intro sint_of_nat64) simp
  ultimately have seqs: "map r_seq (filter (\<lambda>r. sint (r_seq r) \<le> sint (of_nat k :: u64)) rows) =
      map seq (take k es)"
    by (simp add: rep_rows [OF rep] filter_map comp_def)
  have "distinct (map seq (take k es))"
    using rep_seq_inject [OF rep] by (auto simp: distinct_conv_nth)
  then have "length (remdups (map seq (take k es))) = k"
    using len by (simp add: distinct_remdups_id)
  with len show ?thesis by (simp add: read_db_seq_counts_up_to_def seqs Let_def)
qed

text \<open>The search for the first difference, on a well-formed mirror within the ledger.\<close>

definition same_hash :: "ledger_env \<Rightarrow> mirror_entry \<Rightarrow> entry \<Rightarrow> bool" where
  "same_hash env m e \<longleftrightarrow> m_entry_hash m = hex_encode env (entry_hash e)"

definition first_difference :: "ledger_env \<Rightarrow> entry list \<Rightarrow> mirror_entry list \<Rightarrow> nat \<Rightarrow> bool" where
  "first_difference env es ms i \<longleftrightarrow>
     i < length ms \<and> \<not> same_hash env (ms ! i) (es ! i) \<and> (\<forall>j < i. same_hash env (ms ! j) (es ! j))"

definition heads_agree :: "ledger_env \<Rightarrow> entry list \<Rightarrow> mirror_entry list \<Rightarrow> bool" where
  "heads_agree env es ms \<longleftrightarrow>
     (let k = min (length ms) (length es) in k = 0 \<or> same_hash env (ms ! (k - 1)) (es ! (k - 1)))"

lemma wf_seq: "mirror_wf ms \<Longrightarrow> i < length ms \<Longrightarrow> m_seq (ms ! i) = of_nat (Suc i)"
  using seqs_from_nth [of 0 ms i] by (simp add: mirror_wf_def)

lemma ex_first_difference:
  assumes "i < length ms" and "\<not> same_hash env (ms ! i) (es ! i)"
  obtains j where "first_difference env es ms j"
proof -
  define P where "P j \<longleftrightarrow> j < length ms \<and> \<not> same_hash env (ms ! j) (es ! j)" for j
  have "P (Least P)" using assms by (intro LeastI [of P i]) (simp add: P_def)
  moreover have "\<not> P j" if "j < Least P" for j using that by (rule not_less_Least)
  ultimately show ?thesis using that [of "Least P"]
    by (auto simp: first_difference_def P_def)
qed

lemma find_at:
  assumes rep: "ledger_rep env tenant es rows" and len: "i < length es"
  shows "find (\<lambda>e. seq e = of_nat (Suc i)) (map unsigned_entry es) = Some (unsigned_entry (es ! i))"
  unfolding find_Some_iff
  using rep_seq [OF rep len] rep_seq_inject [OF rep _ len] len
  by (intro exI [of _ i]) (auto simp del: of_nat_Suc)

lemma divergence_agree:
  assumes ok: "env_ok env" and rep: "ledger_rep env tenant es rows" and wf: "mirror_wf ms"
    and len: "length ms \<le> length es" and agree: "ms = [] \<or> same_hash env (last ms) (es ! (length ms - 1))"
  shows "first_divergent_seq env rows ms = Inr None"
proof (cases ms rule: rev_cases)
  case Nil
  then show ?thesis by (simp add: first_divergent_seq_def)
next
  case (snoc ns m)
  have "m_seq m = of_nat (Suc (length ns))" using wf_seq [OF wf, of "length ns"] snoc by simp
  moreover have "length ns < length es" "Suc (length ns) \<le> length es" using len snoc by simp_all
  ultimately show ?thesis
    using rep_entry_at [OF ok rep, of "length ns"] rep_counts [OF rep, of "Suc (length ns)"] agree snoc
    by (simp add: first_divergent_seq_def same_hash_def del: of_nat_Suc)
qed

lemma divergence_found:
  assumes ok: "env_ok env" and rep: "ledger_rep env tenant es rows" and wf: "mirror_wf ms"
    and len: "length ms \<le> length es" and ne: "ms \<noteq> []"
    and differ: "\<not> same_hash env (last ms) (es ! (length ms - 1))"
    and first: "first_difference env es ms i"
  shows "first_divergent_seq env rows ms = Inr (Some (of_nat (Suc i)))"
proof -
  obtain ns m where ms: "ms = ns @ [m]" using ne by (cases ms rule: rev_cases) auto
  have seqm: "m_seq m = of_nat (Suc (length ns))" using wf_seq [OF wf, of "length ns"] ms by simp
  have head: "read_db_entry_at_seq env rows (m_seq m) = Inr (Some (unsigned_entry (es ! length ns)))"
    using rep_entry_at [OF ok rep, of "length ns"] len ms seqm by simp
  have all: "read_db_entries_after env rows 0 = Inr (map unsigned_entry es)"
    using rep_entries_after [OF ok rep, of 0] by simp
  let ?P = "\<lambda>m. case find (\<lambda>e. seq e = m_seq m) (map unsigned_entry es) of None \<Rightarrow> True
     | Some e \<Rightarrow> hex_encode env (entry_hash e) \<noteq> m_entry_hash m"
  have P: "?P (ms ! j) \<longleftrightarrow> \<not> same_hash env (ms ! j) (es ! j)" if "j < length ms" for j
    using find_at [OF rep, of j] wf_seq [OF wf that] that len
    by (auto simp: same_hash_def simp del: of_nat_Suc)
  have "find ?P ms = Some (ms ! i)"
    unfolding find_Some_iff
    using first P by (intro exI [of _ i]) (auto simp: first_difference_def)
  moreover have "i < length ms" using first by (simp add: first_difference_def)
  ultimately show ?thesis
    using head all differ wf_seq [OF wf, of i] ms
    by (simp add: first_divergent_seq_def same_hash_def del: of_nat_Suc)
qed

section \<open>Reconciliation\<close>

lemma write_entries_result:
  "mf_mirror fs = Some f \<Longrightarrow> write_entries c xs fs =
   (Inr (), fs\<lparr>mf_mirror := Some (f @ mirror_of (mc_env c) (mc_json c) xs)\<rparr>)"
  by (induction xs arbitrary: fs f)
     (simp_all add: fs_bind_def fs_append_def mirror_of_def file_of_def)

lemma of_nat64_le: "a < 2 ^ 64 \<Longrightarrow> b < 2 ^ 64 \<Longrightarrow> (of_nat a :: u64) \<le> of_nat b \<longleftrightarrow> a \<le> b"
  by (simp add: word_le_nat_alt unat_of_nat64)

lemma of_nat64_less: "a < 2 ^ 64 \<Longrightarrow> b < 2 ^ 64 \<Longrightarrow> (of_nat a :: u64) < of_nat b \<longleftrightarrow> a < b"
  by (simp add: word_less_nat_alt unat_of_nat64)

lemma of_nat64_zero: "a < 2 ^ 64 \<Longrightarrow> (of_nat a :: u64) = 0 \<longleftrightarrow> a = 0"
  using of_nat64_le [of a 0] by simp

lemma seqs_from_append: "seqs_from k (xs @ ys) \<Longrightarrow> seqs_from k xs"
  by (induction xs arbitrary: k) auto

lemma linked_append: "linked h (xs @ ys) \<Longrightarrow> linked h xs"
  by (induction xs arbitrary: h) auto

lemma mirror_wf_take: "mirror_wf ms \<Longrightarrow> mirror_wf (take n ms)"
  using seqs_from_append [of 0 "take n ms" "drop n ms"] linked_append [of None "take n ms" "drop n ms"]
  by (simp add: mirror_wf_def)

lemma mirror_head_Nil [simp]: "mirror_head [] = (0, None)"
  by (simp add: mirror_head_def)

lemma wf_head:
  "mirror_wf ms \<Longrightarrow> mirror_head ms =
   (of_nat (length ms), if ms = [] then None else Some (m_entry_hash (last ms)))"
  using wf_seq [of ms "length ms - 1"]
  by (cases ms rule: rev_cases) (simp_all add: mirror_head_def)

lemma wf_shared:
  assumes "mirror_wf ms" and "length ms < 2 ^ 63" and "n < 2 ^ 63"
  shows "takeWhile (\<lambda>m. m_seq m \<le> of_nat n) ms = take n ms"
proof -
  have le: "m_seq (ms ! i) \<le> of_nat n \<longleftrightarrow> Suc i \<le> n" if "i < length ms" for i
    using of_nat64_le [of "Suc i" n] wf_seq [OF assms(1) that] that assms(2,3)
    by (simp del: of_nat_Suc)
  have "takeWhile (\<lambda>m. m_seq m \<le> of_nat n) ms = take (min n (length ms)) ms"
    by (rule takeWhile_eq_take_P_nth) (auto simp: le)
  then show ?thesis by (simp add: min_def)
qed

text \<open>The three outcomes on a mirror of complete lines.\<close>

lemma heads_agree_take:
  "heads_agree env es ms \<longleftrightarrow>
   (let sh = take (length es) ms in sh = [] \<or> same_hash env (last sh) (es ! (length sh - 1)))"
proof (cases "take (length es) ms = []")
  case True
  then show ?thesis by (auto simp: heads_agree_def Let_def)
next
  case False
  then have "last (take (length es) ms) = ms ! (min (length ms) (length es) - 1)"
    by (simp add: last_conv_nth) (simp add: min_def)
  moreover have "min (length ms) (length es) \<noteq> 0" using False by (simp add: min_def)
  ultimately show ?thesis using False unfolding heads_agree_def Let_def length_take
    by (simp only: refl simp_thms)
qed

lemma shared_agree:
  assumes "env_ok env" "ledger_rep env tenant es rows" "mirror_wf ms" "heads_agree env es ms"
  shows "first_divergent_seq env rows (take (length es) ms) = Inr None"
  using assms by (intro divergence_agree [of env tenant es rows] mirror_wf_take)
    (auto simp: heads_agree_take Let_def)

lemma reconcile_behind:
  assumes ok: "env_ok (mc_env c)" and rep: "ledger_rep (mc_env c) tenant es rows"
    and wf: "mirror_wf ms" and agree: "heads_agree (mc_env c) es ms"
    and len: "length ms \<le> length es" and fs: "mf_mirror fs = Some f"
  shows "reconcile_heads c rows (of_nat (length es)) ms fs =
    (Inr (if length ms < length es then RaExtended (of_nat (length es - length ms)) else RaUnchanged),
     fs\<lparr>mf_mirror := Some (f @ mirror_of (mc_env c) (mc_json c) (drop (length ms) es))\<rparr>)"
proof -
  note b = rep_bound [OF rep]
  have sh: "takeWhile (\<lambda>m. m_seq m \<le> of_nat (length es)) ms = take (length es) ms"
    using wf_shared [OF wf _ b] len b by simp
  have div: "first_divergent_seq (mc_env c) rows (take (length es) ms) = Inr None"
    by (rule shared_agree [OF ok rep wf agree])
  show ?thesis
  proof (cases "length ms < length es")
    case True
    then show ?thesis
      using div fs rep_entries_after [OF ok rep, of "length ms"] b of_nat64_less [of "length ms" "length es"]
      by (simp add: sh reconcile_heads_def Let_def wf_head [OF wf] fs_bind_def
          append_db_entries_after_locked_def write_entries_result)
  next
    case False
    then have eq: "length ms = length es" using len by simp
    have head: "es \<noteq> [] \<Longrightarrow> read_db_entry_at_seq (mc_env c) rows (of_nat (length es)) =
        Inr (Some (unsigned_entry (es ! (length es - 1))))"
      using rep_entry_at [OF ok rep, of "length es - 1"] by simp
    have hash: "es \<noteq> [] \<Longrightarrow> m_entry_hash (last ms) = hex_encode (mc_env c) (entry_hash (es ! (length es - 1)))"
      using agree eq
      by (subst last_conv_nth) (auto simp: heads_agree_def same_hash_def Let_def)
    have ne: "ms = [] \<longleftrightarrow> es = []" using eq by (metis length_0_conv)
    show ?thesis
      using div fs head hash ne b eq of_nat64_zero [of "length es"]
      by (cases "es = []")
         (simp_all add: sh reconcile_heads_def Let_def wf_head [OF wf] fs_bind_def
            mirror_of_def)
  qed
qed

lemma reconcile_ahead:
  assumes ok: "env_ok (mc_env c)" and rep: "ledger_rep (mc_env c) tenant es rows"
    and wf: "mirror_wf ms" and agree: "heads_agree (mc_env c) es ms"
    and len: "length es < length ms" "length ms < 2 ^ 63"
  shows "reconcile_heads c rows (of_nat (length es)) ms fs =
    fs_bind (preserve_ahead_mirror c) (\<lambda>p.
      fs_fail (AMirrorAheadOfDb (of_nat (length ms)) (of_nat (length es)) p)) fs"
  using wf_shared [OF wf len(2) rep_bound [OF rep]] shared_agree [OF ok rep wf agree] len
    of_nat64_less [of "length ms" "length es"] of_nat64_less [of "length es" "length ms"]
  by (simp add: reconcile_heads_def Let_def wf_head [OF wf] fs_bind_Inr [of "fs_lift _"])

lemma reconcile_diverged:
  assumes ok: "env_ok (mc_env c)" and rep: "ledger_rep (mc_env c) tenant es rows"
    and wf: "mirror_wf ms" and differ: "\<not> heads_agree (mc_env c) es ms" and len: "length ms < 2 ^ 63"
  obtains i where "first_difference (mc_env c) es (take (length es) ms) i"
    and "reconcile_heads c rows (of_nat (length es)) ms fs =
      refuse_diverged c (of_nat (Suc i)) (of_nat (length ms)) (of_nat (length es)) fs"
proof -
  let ?sh = "take (length es) ms"
  have ne: "?sh \<noteq> []" and d: "\<not> same_hash (mc_env c) (last ?sh) (es ! (length ?sh - 1))"
    using differ by (auto simp: heads_agree_take Let_def)
  have "last ?sh = ?sh ! (length ?sh - 1)" using ne by (rule last_conv_nth)
  then have "\<not> same_hash (mc_env c) (?sh ! (length ?sh - 1)) (es ! (length ?sh - 1))" using d by simp
  moreover have "length ?sh - 1 < length ?sh" using ne by (cases ?sh) simp_all
  ultimately obtain i where i: "first_difference (mc_env c) es ?sh i"
    using ex_first_difference [of "length ?sh - 1" ?sh "mc_env c" es] by blast
  have "first_divergent_seq (mc_env c) rows ?sh = Inr (Some (of_nat (Suc i)))"
    using divergence_found [OF ok rep mirror_wf_take [OF wf] _ ne d i] by simp
  then show ?thesis
    using that [OF i] wf_shared [OF wf len rep_bound [OF rep]]
    by (simp add: reconcile_heads_def Let_def wf_head [OF wf] fs_bind_Inr [of "fs_lift _"] del: of_nat_Suc)
qed

text \<open>A file of complete lines and a partial one: what the tail policy and the boot see.\<close>

lemma tail_policy_clean:
  assumes "json_ok (mc_json c)" and "mirror_wf ms" and "mf_mirror fs = Some (file_of (mc_json c) ms)"
  shows "read_mirror_under_tail_policy c fs = (Inr (Clean ms), fs)"
  using assms classify_file [of "mc_json c" ms "[]"]
  by (simp add: read_mirror_under_tail_policy_def fs_bind_def)

text \<open>A copy kept beside the mirror: a file of that kind which already holds the bytes, or a new one.\<close>

definition copy_kept ::
  "mirror_ctx \<Rightarrow> string \<Rightarrow> byte list \<Rightarrow> (string \<times> byte list) list \<Rightarrow> string \<Rightarrow> (string \<times> byte list) list \<Rightarrow> bool" where
  "copy_kept c ifx bs dir n dir' \<longleftrightarrow>
     (if \<exists>m. (m, bs) \<in> set dir \<and> prefix (backup_prefix c ifx) m \<and> suffix ''.bak'' m
      then (n, bs) \<in> set dir \<and> prefix (backup_prefix c ifx) n \<and> suffix ''.bak'' n \<and> dir' = dir
      else n = backup_name c ifx \<and> dir' = dir @ [(n, bs)])"

lemma copy_kept_in: "copy_kept c ifx bs dir n dir' \<Longrightarrow> (n, bs) \<in> set dir' \<and> set dir \<subseteq> set dir'"
  by (auto simp: copy_kept_def split: if_splits)

lemma copy_kept_names:
  "copy_kept c ifx bs dir n dir' \<Longrightarrow> fst ` set dir' \<subseteq> insert (backup_name c ifx) (fst ` set dir)"
  by (auto simp: copy_kept_def split: if_splits)

lemma put_file_new: "n \<notin> fst ` set dir \<Longrightarrow> put_file n bs dir = dir @ [(n, bs)]"
  by (force simp: put_file_def filter_id_conv)

lemma preserve_copy_kept:
  assumes fs: "mf_mirror fs = Some bs" and fresh: "backup_name c ifx \<notin> fst ` set (mf_dir fs)"
  obtains n dir where "preserve_mirror_copy c ifx fs = (Inr n, fs\<lparr>mf_dir := dir\<rparr>)"
    and "copy_kept c ifx bs (mf_dir fs) n dir"
proof (cases "find (\<lambda>(f, b). prefix (backup_prefix c ifx) f \<and> suffix ''.bak'' f \<and> b = bs) (mf_dir fs)")
  case None
  then have none: "\<not> (\<exists>m. (m, bs) \<in> set (mf_dir fs) \<and> prefix (backup_prefix c ifx) m \<and> suffix ''.bak'' m)"
    by (auto simp: find_None_iff)
  have "copy_kept c ifx bs (mf_dir fs) (backup_name c ifx) (mf_dir fs @ [(backup_name c ifx, bs)])"
    by (simp add: copy_kept_def none)
  moreover have "preserve_mirror_copy c ifx fs =
      (Inr (backup_name c ifx), fs\<lparr>mf_dir := mf_dir fs @ [(backup_name c ifx, bs)]\<rparr>)"
    using None fs put_file_new [OF fresh] by (simp add: preserve_mirror_copy_def fs_bind_def)
  ultimately show ?thesis using that by blast
next
  case (Some x)
  obtain f b where x: "x = (f, b)" by (cases x)
  then have "(f, bs) \<in> set (mf_dir fs) \<and> prefix (backup_prefix c ifx) f \<and> suffix ''.bak'' f"
    using Some by (auto simp: find_Some_iff in_set_conv_nth)
  then have "copy_kept c ifx bs (mf_dir fs) f (mf_dir fs)" by (auto simp: copy_kept_def)
  moreover have "preserve_mirror_copy c ifx fs = (Inr f, fs\<lparr>mf_dir := mf_dir fs\<rparr>)"
    using Some x fs by (simp add: preserve_mirror_copy_def fs_bind_def)
  ultimately show ?thesis using that by blast
qed

lemma tail_policy_torn:
  assumes js: "json_ok (mc_json c)" and wf: "mirror_wf ms"
    and t: "newline \<notin> set t" "t \<noteq> []" and fs: "mf_mirror fs = Some (file_of (mc_json c) ms @ t)"
    and fresh: "backup_name c ''corrupt'' \<notin> fst ` set (mf_dir fs)"
  obtains f dir where "read_mirror_under_tail_policy c fs =
      (Inr (TornTail ms f (length t)), fs\<lparr>mf_mirror := Some (file_of (mc_json c) ms), mf_dir := dir\<rparr>)"
    and "copy_kept c ''corrupt'' (file_of (mc_json c) ms @ t) (mf_dir fs) f dir"
proof -
  obtain f dir where p: "preserve_corrupt_mirror c fs = (Inr f, fs\<lparr>mf_dir := dir\<rparr>)"
    "copy_kept c ''corrupt'' (file_of (mc_json c) ms @ t) (mf_dir fs) f dir"
    using preserve_copy_kept [OF fs fresh] unfolding preserve_corrupt_mirror_def by metis
  then show ?thesis
    using that [of f dir] classify_file [OF js wf t(1)] t(2) fs
    by (simp add: read_mirror_under_tail_policy_def fs_bind_def trim_mirror_to_inner_def fs_set_len_def)
qed

definition lock_obtained :: "mirror_ctx \<Rightarrow> bool" where
  "lock_obtained c \<longleftrightarrow> try_lock_exclusive_within c RECONCILE_LOCK_TIMEOUT = Inr True"

lemma ensure_existing:
  assumes "lock_obtained c" and "mf_mirror fs = Some f" and "read_db_max_seq (mc_env c) rows = Inr n"
  shows "ensure_consistent_with_db c rows fs =
    (case read_mirror_under_tail_policy c fs of
       (Inr (Clean ms), fs') \<Rightarrow> reconcile_heads c rows n ms fs'
     | (Inr (TornTail ms _ _), fs') \<Rightarrow> reconcile_heads c rows n ms fs'
     | (Inr (DeepCorrupt preserved reason), fs') \<Rightarrow>
         fs_fail (AMirrorCorruptPreserved preserved reason) fs'
     | (Inl AMirrorIoNotFound, fs') \<Rightarrow>
         fs_bind (rebuild_mirror_from_db_locked c rows) (\<lambda>w. fs_return (RaCreated w)) fs'
     | (Inl e, fs') \<Rightarrow> (Inl e, fs'))"
proof -
  have "fs\<lparr>mf_mirror := Some f\<rparr> = fs" using assms(2) by (cases fs) simp
  then have lock: "lock_mirror_exclusive c fs = (Inr (), fs)"
    using assms by (simp add: lock_mirror_result lock_exclusive_bounded_def lock_obtained_def)
  have head: "fs_lift (read_db_max_seq (mc_env c) rows) fs = (Inr n, fs)" using assms(3) by simp
  show ?thesis
    unfolding ensure_consistent_with_db_def ensure_after_probe_def fs_bind_Inr [of "lock_mirror_exclusive c" fs "()" fs, OF lock]
      fs_bind_Inr [of "fs_lift (read_db_max_seq (mc_env c) rows)" fs n fs, OF head]
    by (simp add: assms(2))
qed

lemma ensure_file:
  assumes lock: "lock_obtained c" and ok: "env_ok (mc_env c)" and js: "json_ok (mc_json c)"
    and rep: "ledger_rep (mc_env c) tenant es rows" and wf: "mirror_wf ms" and t: "newline \<notin> set t"
    and fs: "mf_mirror fs = Some (file_of (mc_json c) ms @ t)" and fresh: "fresh_backups c fs"
  obtains dir where "ensure_consistent_with_db c rows fs = reconcile_heads c rows (of_nat (length es)) ms
      (fs\<lparr>mf_mirror := Some (file_of (mc_json c) ms), mf_dir := dir\<rparr>)"
    and "if t = [] then dir = mf_dir fs
         else \<exists>n. copy_kept c ''corrupt'' (file_of (mc_json c) ms @ t) (mf_dir fs) n dir"
    and "backup_name c ''diverged'' \<notin> fst ` set dir" and "backup_name c ''ahead'' \<notin> fst ` set dir"
proof (cases "t = []")
  case True
  have same: "fs\<lparr>mf_mirror := Some (file_of (mc_json c) ms), mf_dir := mf_dir fs\<rparr> = fs"
    using fs True by (cases fs) simp
  show ?thesis
    using that [of "mf_dir fs"] fresh ensure_existing [OF lock fs rep_max_seq [OF ok rep]]
      tail_policy_clean [OF js wf, of fs] fs True same
    by (simp add: fresh_backups_def)
next
  case False
  have "backup_name c ''corrupt'' \<notin> fst ` set (mf_dir fs)" using fresh by (simp add: fresh_backups_def)
  then obtain f dir where p: "read_mirror_under_tail_policy c fs =
      (Inr (TornTail ms f (length t)), fs\<lparr>mf_mirror := Some (file_of (mc_json c) ms), mf_dir := dir\<rparr>)"
    "copy_kept c ''corrupt'' (file_of (mc_json c) ms @ t) (mf_dir fs) f dir"
    using tail_policy_torn [OF js wf t False fs] by metis
  have "backup_name c ''diverged'' \<noteq> backup_name c ''corrupt''"
    "backup_name c ''ahead'' \<noteq> backup_name c ''corrupt''"
    by (simp_all add: backup_names_differ)
  then have "backup_name c ''diverged'' \<notin> fst ` set dir" "backup_name c ''ahead'' \<notin> fst ` set dir"
    using fresh copy_kept_names [OF p(2)] unfolding fresh_backups_def by blast+
  then show ?thesis
    using that [of dir] False p(2) ensure_existing [OF lock fs rep_max_seq [OF ok rep]]
    by (force simp: p(1))
qed

lemma reconcile_exact:
  assumes ok: "env_ok (mc_env c)" and rep: "ledger_rep (mc_env c) tenant es rows" and wf: "mirror_wf ms"
    and len: "length ms < 2 ^ 63" and fs: "mf_mirror fs = Some f"
    and fresh: "backup_name c ''diverged'' \<notin> fst ` set (mf_dir fs)"
      "backup_name c ''ahead'' \<notin> fst ` set (mf_dir fs)"
    and run: "reconcile_heads c rows (of_nat (length es)) ms fs = (r, fs')"
  shows "heads_agree (mc_env c) es ms \<and> length ms \<le> length es \<longrightarrow>
       r = Inr (if length ms < length es then RaExtended (of_nat (length es - length ms)) else RaUnchanged) \<and>
       fs' = fs\<lparr>mf_mirror := Some (f @ mirror_of (mc_env c) (mc_json c) (drop (length ms) es))\<rparr>"
    and "heads_agree (mc_env c) es ms \<and> length es < length ms \<longrightarrow>
       (\<exists>b dir. copy_kept c ''ahead'' f (mf_dir fs) b dir \<and> fs' = fs\<lparr>mf_dir := dir\<rparr> \<and>
            r = Inl (AMirrorAheadOfDb (of_nat (length ms)) (of_nat (length es)) b))"
    and "\<not> heads_agree (mc_env c) es ms \<longrightarrow>
       (\<exists>b i dir. first_difference (mc_env c) es (take (length es) ms) i \<and>
            copy_kept c ''diverged'' f (mf_dir fs) b dir \<and> fs' = fs\<lparr>mf_dir := dir\<rparr> \<and>
            r = Inl (AMirrorDivergedFromDb (of_nat (Suc i)) (of_nat (length ms)) (of_nat (length es)) b))"
proof -
  show "heads_agree (mc_env c) es ms \<and> length ms \<le> length es \<longrightarrow>
       r = Inr (if length ms < length es then RaExtended (of_nat (length es - length ms)) else RaUnchanged) \<and>
       fs' = fs\<lparr>mf_mirror := Some (f @ mirror_of (mc_env c) (mc_json c) (drop (length ms) es))\<rparr>"
    using reconcile_behind [OF ok rep wf _ _ fs] run by (auto simp del: of_nat_diff)
  show "heads_agree (mc_env c) es ms \<and> length es < length ms \<longrightarrow>
       (\<exists>b dir. copy_kept c ''ahead'' f (mf_dir fs) b dir \<and> fs' = fs\<lparr>mf_dir := dir\<rparr> \<and>
            r = Inl (AMirrorAheadOfDb (of_nat (length ms)) (of_nat (length es)) b))"
  proof
    assume "heads_agree (mc_env c) es ms \<and> length es < length ms"
    then have eq: "reconcile_heads c rows (of_nat (length es)) ms fs =
        fs_bind (preserve_ahead_mirror c) (\<lambda>p.
          fs_fail (AMirrorAheadOfDb (of_nat (length ms)) (of_nat (length es)) p)) fs"
      using reconcile_ahead [OF ok rep wf] len by blast
    obtain b dir where "preserve_ahead_mirror c fs = (Inr b, fs\<lparr>mf_dir := dir\<rparr>)"
      "copy_kept c ''ahead'' f (mf_dir fs) b dir"
      using preserve_copy_kept [OF fs fresh(2)] unfolding preserve_ahead_mirror_def by metis
    then show "\<exists>b dir. copy_kept c ''ahead'' f (mf_dir fs) b dir \<and> fs' = fs\<lparr>mf_dir := dir\<rparr> \<and>
            r = Inl (AMirrorAheadOfDb (of_nat (length ms)) (of_nat (length es)) b)"
      using eq run by (auto simp: fs_bind_def)
  qed
  show "\<not> heads_agree (mc_env c) es ms \<longrightarrow>
       (\<exists>b i dir. first_difference (mc_env c) es (take (length es) ms) i \<and>
            copy_kept c ''diverged'' f (mf_dir fs) b dir \<and> fs' = fs\<lparr>mf_dir := dir\<rparr> \<and>
            r = Inl (AMirrorDivergedFromDb (of_nat (Suc i)) (of_nat (length ms)) (of_nat (length es)) b))"
  proof
    assume "\<not> heads_agree (mc_env c) es ms"
    then obtain i where i: "first_difference (mc_env c) es (take (length es) ms) i"
      "reconcile_heads c rows (of_nat (length es)) ms fs =
        refuse_diverged c (of_nat (Suc i)) (of_nat (length ms)) (of_nat (length es)) fs"
      using reconcile_diverged [OF ok rep wf _ len] by metis
    obtain b dir where "preserve_diverged_mirror c fs = (Inr b, fs\<lparr>mf_dir := dir\<rparr>)"
      "copy_kept c ''diverged'' f (mf_dir fs) b dir"
      using preserve_copy_kept [OF fs fresh(1)] unfolding preserve_diverged_mirror_def by metis
    then show "\<exists>b i dir. first_difference (mc_env c) es (take (length es) ms) i \<and>
            copy_kept c ''diverged'' f (mf_dir fs) b dir \<and> fs' = fs\<lparr>mf_dir := dir\<rparr> \<and>
            r = Inl (AMirrorDivergedFromDb (of_nat (Suc i)) (of_nat (length ms)) (of_nat (length es)) b)"
      using i run by (auto simp: fs_bind_def refuse_diverged_def)
  qed
qed

text \<open>
  C16: Reconciling, at boot, a mirror of complete linked lines \<open>ms\<close> (fewer than 2^63) followed by an unterminated
  rest \<open>t\<close> with a database in the ledger invariant, when the mirror's lock is obtained in time and
  the clock has moved on since the backups in the directory were named. First, when there is a rest,
  the whole file is kept as a corrupt copy (an equal one that is there already, or one new file) and
  the rest is cut off. Then: when the hashes at the last shared position agree and the mirror is not
  longer, exactly the missing entries are appended; when the mirror is longer it is refused as ahead
  of the database, with both lengths; when the hashes disagree it is refused with the first position
  where the two differ. A refusal leaves the complete lines in place and names a copy of them, kept in
  the same way. Nothing else in the directory changes: without a rest and at equal length and hash
  nothing changes at all.
\<close>

theorem mirror_reconciliation_exact:
  assumes "lock_obtained c" and "env_ok (mc_env c)" and "json_ok (mc_json c)"
    and "ledger_rep (mc_env c) tenant es rows" and "mirror_wf ms" and "length ms < 2 ^ 63"
    and "newline \<notin> set t" and "mf_mirror fs = Some (file_of (mc_json c) ms @ t)"
    and "fresh_backups c fs" and "ensure_consistent_with_db c rows fs = (r, fs')"
  shows "(\<exists>dir. (if t = [] then dir = mf_dir fs
       else \<exists>n. copy_kept c ''corrupt'' (file_of (mc_json c) ms @ t) (mf_dir fs) n dir) \<and>
    (heads_agree (mc_env c) es ms \<and> length ms \<le> length es \<longrightarrow>
       r = Inr (if length ms < length es then RaExtended (of_nat (length es - length ms)) else RaUnchanged) \<and>
       fs' = \<lparr>mf_mirror = Some (file_of (mc_json c) ms @ mirror_of (mc_env c) (mc_json c) (drop (length ms) es)),
              mf_dir = dir\<rparr>) \<and>
    (heads_agree (mc_env c) es ms \<and> length es < length ms \<longrightarrow>
       (\<exists>b dir'. copy_kept c ''ahead'' (file_of (mc_json c) ms) dir b dir' \<and>
            r = Inl (AMirrorAheadOfDb (of_nat (length ms)) (of_nat (length es)) b) \<and>
            fs' = \<lparr>mf_mirror = Some (file_of (mc_json c) ms), mf_dir = dir'\<rparr>)) \<and>
    (\<not> heads_agree (mc_env c) es ms \<longrightarrow>
       (\<exists>b i dir'. first_difference (mc_env c) es (take (length es) ms) i \<and>
            copy_kept c ''diverged'' (file_of (mc_json c) ms) dir b dir' \<and>
            r = Inl (AMirrorDivergedFromDb (of_nat (Suc i)) (of_nat (length ms)) (of_nat (length es)) b) \<and>
            fs' = \<lparr>mf_mirror = Some (file_of (mc_json c) ms), mf_dir = dir'\<rparr>))) \<and>
    (t = [] \<and> heads_agree (mc_env c) es ms \<and> length ms = length es \<longrightarrow> fs' = fs)"
proof -
  obtain dir where run: "ensure_consistent_with_db c rows fs = reconcile_heads c rows (of_nat (length es)) ms
      (fs\<lparr>mf_mirror := Some (file_of (mc_json c) ms), mf_dir := dir\<rparr>)"
    and torn: "if t = [] then dir = mf_dir fs
      else \<exists>n. copy_kept c ''corrupt'' (file_of (mc_json c) ms @ t) (mf_dir fs) n dir"
    and fresh: "backup_name c ''diverged'' \<notin> fst ` set dir" "backup_name c ''ahead'' \<notin> fst ` set dir"
    using ensure_file [OF assms(1-5,7-9)] by metis
  let ?trimmed = "\<lparr>mf_mirror = Some (file_of (mc_json c) ms), mf_dir = dir\<rparr>"
  have "fs\<lparr>mf_mirror := Some (file_of (mc_json c) ms), mf_dir := dir\<rparr> = ?trimmed" by (cases fs) simp
  from run [unfolded this] have r: "reconcile_heads c rows (of_nat (length es)) ms ?trimmed = (r, fs')"
    using assms(10) by simp
  note exact = reconcile_exact [OF assms(2,4-6), of ?trimmed "file_of (mc_json c) ms" r fs', simplified, OF fresh r]
  have same: "t = [] \<and> heads_agree (mc_env c) es ms \<and> length ms = length es \<longrightarrow> fs' = fs"
    using exact(1) torn assms(8) by (cases fs) (auto simp: mirror_of_def)
  show ?thesis
    by (rule conjI [OF _ same], rule exI [of _ dir], intro conjI) (fact torn, use exact in auto)
qed

section \<open>Nothing a file held is lost\<close>

text \<open>
  What can happen to the directory: any operation of the module, against whatever the database
  holds at that moment, a run that stopped between preserving and trimming, and a write that
  stopped after any of its bytes.
\<close>

inductive mirror_activity :: "mirror_fs \<Rightarrow> mirror_fs \<Rightarrow> bool" where
  act_sync: "mirror_activity fs (snd (sync_mirror c rows fs))"
| act_lockstep: "mirror_activity fs (snd (sync_mirror_lockstep c rows fs))"
| act_reconcile: "fresh_backups c fs \<Longrightarrow> mirror_activity fs (snd (ensure_consistent_with_db c rows fs))"
| act_read: "fresh_backups c fs \<Longrightarrow> mirror_activity fs (snd (read_mirror_under_tail_policy c fs))"
| act_preserve: "backup_name c ifx \<notin> fst ` set (mf_dir fs) \<Longrightarrow>
    mirror_activity fs (snd (preserve_mirror_copy c ifx fs))"
| act_torn: "mf_mirror fs = Some f \<Longrightarrow> mirror_activity fs (fs\<lparr>mf_mirror := Some (f @ bs)\<rparr>)"

lemma activity_keeps: "mirror_activity fs fs' \<Longrightarrow> keeps_files fs fs'"
proof (induction rule: mirror_activity.induct)
  case (act_sync fs c rows)
  then show ?case using syncing.keeps [where c = "(c, rows)"] by simp
next
  case (act_lockstep fs c rows)
  then show ?case using lockstep.keeps [where c = "(c, rows)"] by simp
next
  case (act_reconcile c fs rows)
  then show ?case using reconciling.keeps [where c = "(c, rows)"] by simp
next
  case (act_read c fs)
  then show ?case by (rule reading.keeps)
next
  case (act_preserve c ifx fs)
  then show ?case by (rule keeps_preserve)
next
  case (act_torn fs f bs)
  then show ?case by (auto simp: keeps_files_def evidenced_def)
qed

text \<open>
  C15: Nothing the mirror ever held is lost: along any sequence of synchronisations, lock-step
  synchronisations, reconciliations, policy reads, backups and interrupted writes, against a
  database that may hold anything at each step, bytes at the start of the mirror or of a backup
  stay at the start of the mirror or of some backup, and no backup changes or disappears, as
  long as the clock does not name a new backup like an existing file.
\<close>

theorem mirror_evidence_never_lost:
  assumes "mirror_activity\<^sup>*\<^sup>* fs fs'"
  shows "(evidenced fs bs \<longrightarrow> evidenced fs' bs) \<and> set (mf_dir fs) \<subseteq> set (mf_dir fs')"
proof -
  have "keeps_files fs fs'"
    using assms by induction (auto dest: activity_keeps intro: keeps_files_trans)
  then show ?thesis using keeps_files_evidenced by (auto simp: keeps_files_def)
qed

section \<open>Commits, synchronisation and interrupted writes\<close>

lemma complete_lines:
  assumes "json_ok js" and "prefix f (file_of js ms)"
  obtains k t where "k \<le> length ms" and "f = file_of js (take k ms) @ t" and "newline \<notin> set t"
  using assms
proof (induction ms arbitrary: f thesis)
  case Nil
  then show ?case by (metis append_Nil2 file_of_Nil le_refl list.size(3) prefix_bot.extremum_uniqueI
        empty_iff list.set(1) take_Nil)
next
  case (Cons m ms)
  have split: "file_of js (m # ms) = encode_line js m @ file_of js ms" by (simp add: file_of_def)
  from Cons.prems(3) consider "prefix f (json_to_vec js m)" | g where
    "f = encode_line js m @ g" "prefix g (file_of js ms)"
    unfolding split encode_line_def by (auto simp: prefix_append prefix_Cons)
  then show ?case
  proof cases
    case 1
    then have "newline \<notin> set f" using json_okD(3) [OF Cons.prems(2), of m] set_mono_prefix by fastforce
    then show ?thesis using Cons.prems(1) [of 0 f] by simp
  next
    case 2
    obtain k t where "k \<le> length ms" "g = file_of js (take k ms) @ t" "newline \<notin> set t"
      using Cons.IH [OF _ Cons.prems(2) 2(2)] by metis
    then show ?thesis using Cons.prems(1) [of "Suc k" t] 2(1) by (simp add: file_of_def)
  qed
qed

lemma own_prefix_agrees: "k \<le> length es \<Longrightarrow> heads_agree env es (map (from_entry env) (take k es))"
  by (cases "k = 0") (auto simp: heads_agree_def Let_def same_hash_def from_entry_def min_absorb1)

lemma own_prefix_wf:
  "ledger_rep env tenant es rows \<Longrightarrow> mirror_wf (map (from_entry env) (take k es))"
  unfolding take_map [symmetric] ledger_rep_def by (blast intro: mirror_wf_take chained_mirror_wf)

lemma mirror_prefix_cases:
  assumes "json_ok js" and "prefix f (mirror_of env js es)"
  obtains k t where "k \<le> length es" and "f = mirror_of env js (take k es) @ t" and "newline \<notin> set t"
  using complete_lines [OF assms(1), of f "map (from_entry env) es"] assms(2)
  unfolding mirror_of_def take_map by (metis length_map)

text \<open>Reconciling a mirror that is any part of the ledger's own file completes it.\<close>

lemma ensure_completes:
  assumes "lock_obtained c" and "env_ok (mc_env c)" and "json_ok (mc_json c)"
    and rep: "ledger_rep (mc_env c) tenant es rows" and "fresh_backups c fs"
    and pre: "mf_mirror fs = None \<or>
      (\<exists>f. mf_mirror fs = Some f \<and> prefix f (mirror_of (mc_env c) (mc_json c) es))"
  shows "\<exists>a fs'. ensure_consistent_with_db c rows fs = (Inr a, fs') \<and>
    mf_mirror fs' = Some (mirror_of (mc_env c) (mc_json c) es)"
proof (cases "mf_mirror fs")
  case None
  have lock: "lock_mirror_exclusive c fs = (Inr (), fs\<lparr>mf_mirror := Some []\<rparr>)"
    using assms(1) None by (simp add: lock_mirror_result lock_exclusive_bounded_def lock_obtained_def)
  have "ensure_consistent_with_db c rows fs =
      (Inr (RaCreated (of_nat (length es))), fs\<lparr>mf_mirror := Some (mirror_of (mc_env c) (mc_json c) es)\<rparr>)"
    using None rep_max_seq [OF assms(2) rep] rep_entries_after [OF assms(2) rep, of 0]
    by (simp add: ensure_consistent_with_db_def ensure_after_probe_def fs_bind_def lock
        rebuild_mirror_from_db_locked_def fs_set_len_def write_entries_result)
  then show ?thesis by auto
next
  case (Some f)
  then obtain k t where f: "k \<le> length es" "newline \<notin> set t"
    "mf_mirror fs = Some (file_of (mc_json c) (map (from_entry (mc_env c)) (take k es)) @ t)"
    using mirror_prefix_cases [OF assms(3), of f] pre unfolding mirror_of_def by (metis option.discI option.inject)
  let ?ms = "map (from_entry (mc_env c)) (take k es)"
  obtain dir where run: "ensure_consistent_with_db c rows fs = reconcile_heads c rows (of_nat (length es)) ?ms
      (fs\<lparr>mf_mirror := Some (file_of (mc_json c) ?ms), mf_dir := dir\<rparr>)"
    using ensure_file [OF assms(1-3) rep own_prefix_wf [OF rep] f(2,3) assms(5)] by metis
  have len: "length ?ms \<le> length es" "length ?ms = k" using f(1) by simp_all
  have "mirror_of (mc_env c) (mc_json c) (take k es @ drop k es) =
      file_of (mc_json c) ?ms @ mirror_of (mc_env c) (mc_json c) (drop k es)"
    unfolding mirror_of_append by (simp add: mirror_of_def)
  then have "file_of (mc_json c) ?ms @ mirror_of (mc_env c) (mc_json c) (drop (length ?ms) es) =
      mirror_of (mc_env c) (mc_json c) es"
    by (simp only: append_take_drop_id len(2))
  then show ?thesis
    using reconcile_behind [OF assms(2) rep own_prefix_wf [OF rep] own_prefix_agrees [OF f(1)] len(1),
        of "fs\<lparr>mf_mirror := Some (file_of (mc_json c) ?ms), mf_dir := dir\<rparr>" "file_of (mc_json c) ?ms"]
    by (simp add: run)
qed

text \<open>Synchronising a mirror that is part of the ledger's own file completes it or changes nothing.\<close>

lemma sync_locked_torn:
  assumes "mf_mirror fs = Some f" and "f \<noteq> []" and "last f \<noteq> newline"
  shows "sync_mirror_locked c rows fs = (Inl (AMirrorCorrupt ''last line lacks trailing newline''), fs)"
  using assms by (simp add: sync_mirror_locked_def fs_bind_def read_mirror_entries_def)

lemma sync_locked_complete:
  assumes ok: "env_ok (mc_env c)" and js: "json_ok (mc_json c)"
    and rep: "ledger_rep (mc_env c) tenant es rows" and k: "k \<le> length es"
    and fs: "mf_mirror fs = Some (mirror_of (mc_env c) (mc_json c) (take k es))"
  shows "sync_mirror_locked c rows fs =
    (Inr (of_nat (length es)), fs\<lparr>mf_mirror := Some (mirror_of (mc_env c) (mc_json c) es)\<rparr>)"
proof -
  let ?ms = "map (from_entry (mc_env c)) (take k es)"
  have wf: "mirror_wf ?ms" by (rule own_prefix_wf [OF rep])
  then have read: "read_mirror_entries (mc_json c) (Some (mirror_of (mc_env c) (mc_json c) (take k es))) = Inr ?ms"
    unfolding mirror_of_def using js by (intro read_mirror_entries_file) (simp_all add: mirror_wf_def)
  have after: "read_db_entries_after (mc_env c) rows (of_nat k) = Inr (map unsigned_entry (drop k es))"
    using k rep_bound [OF rep] by (intro rep_entries_after [OF ok rep]) simp
  have whole: "mirror_of (mc_env c) (mc_json c) (take k es) @ mirror_of (mc_env c) (mc_json c) (drop k es) =
      mirror_of (mc_env c) (mc_json c) es"
    by (metis append_take_drop_id mirror_of_append)
  have count: "(of_nat k :: u64) + of_nat (length es - k) = of_nat (length es)"
    using k by (metis le_add_diff_inverse of_nat_add)
  show ?thesis
  proof (cases k)
    case 0
    then have "mirror_of (mc_env c) (mc_json c) (take k es) = []" by (simp add: mirror_of_def)
    then show ?thesis using 0 after fs whole
      by (simp add: sync_mirror_locked_def fs_bind_def write_entries_result)
  next
    case (Suc j)
    have ne: "mirror_of (mc_env c) (mc_json c) (take k es) \<noteq> []"
      using Suc k by (auto simp: mirror_of_def)
    have last: "last (take k es) = es ! j" using Suc k by (simp add: take_Suc_conv_app_nth)
    have head: "mirror_head ?ms = (of_nat k, Some (hex_encode (mc_env c) (entry_hash (es ! j))))"
      using wf_head [OF wf] Suc k last by (cases "es = []") (simp_all add: last_map from_entry_def del: of_nat_Suc)
    have at: "read_db_entry_at_seq (mc_env c) rows (of_nat k) = Inr (Some (unsigned_entry (es ! j)))"
      using rep_entry_at [OF ok rep, of j] Suc k by simp
    show ?thesis
      using ne read head at after fs whole count
      by (simp add: sync_mirror_locked_def fs_bind_def write_entries_result)
  qed
qed

text \<open>
  A ledger and its mirror from their start on: commits, synchronisations that find the lock or
  not, writes cut off after any byte, and reconciliations.
\<close>

definition uses :: "ledger_env \<Rightarrow> mirror_json \<Rightarrow> mirror_ctx \<Rightarrow> bool" where
  "uses env js c \<longleftrightarrow> mc_env c = env \<and> mc_json c = js"

inductive mirrored :: "ledger_env \<Rightarrow> mirror_json \<Rightarrow> ledger_meta \<Rightarrow> ledger_row list \<Rightarrow> mirror_fs \<Rightarrow> bool"
  for env js meta where
  mir_start: "mf_mirror fs = None \<Longrightarrow> mirrored env js meta [] fs"
| mir_commit: "mirrored env js meta rows fs \<Longrightarrow> length rows + 1 < 2 ^ 63 \<Longrightarrow>
    ledger_append env meta rq rows = Inr (i, rows') \<Longrightarrow> mirrored env js meta rows' fs"
| mir_sync: "mirrored env js meta rows fs \<Longrightarrow> uses env js c \<Longrightarrow>
    mirrored env js meta rows (snd (sync_mirror c rows fs))"
| mir_lockstep: "mirrored env js meta rows fs \<Longrightarrow> uses env js c \<Longrightarrow>
    mirrored env js meta rows (snd (sync_mirror_lockstep c rows fs))"
| mir_cut: "mirrored env js meta rows fs \<Longrightarrow> uses env js c \<Longrightarrow>
    mf_mirror (snd (sync_mirror c rows fs)) = Some f \<Longrightarrow> prefix g f \<Longrightarrow>
    (\<forall>h. mf_mirror fs = Some h \<longrightarrow> prefix h g) \<Longrightarrow>
    mirrored env js meta rows (fs\<lparr>mf_mirror := Some g\<rparr>)"
| mir_reconcile: "mirrored env js meta rows fs \<Longrightarrow> uses env js c \<Longrightarrow> lock_obtained c \<Longrightarrow>
    fresh_backups c fs \<Longrightarrow> mirrored env js meta rows (snd (ensure_consistent_with_db c rows fs))"

definition mirror_within :: "byte list \<Rightarrow> mirror_fs \<Rightarrow> bool" where
  "mirror_within whole fs \<longleftrightarrow> (\<forall>f. mf_mirror fs = Some f \<longrightarrow> prefix f whole)"

lemma sync_locked_within:
  assumes "env_ok env" "json_ok js" "ledger_rep env tenant es rows" "uses env js c"
    and "mf_mirror fs = Some f" "prefix f (mirror_of env js es)"
  shows "mirror_within (mirror_of env js es) (snd (sync_mirror_locked c rows fs))"
proof -
  obtain k t where f: "k \<le> length es" "f = mirror_of env js (take k es) @ t" "newline \<notin> set t"
    using mirror_prefix_cases [OF assms(2,6)] by metis
  show ?thesis
  proof (cases "t = []")
    case True
    then show ?thesis
      using sync_locked_complete [of c tenant es rows k fs] assms f
      by (simp add: uses_def mirror_within_def)
  next
    case False
    then have "last f \<noteq> newline" "f \<noteq> []"
      using f(2,3) by (metis last_appendR last_in_set) (simp add: f(2) False)
    then show ?thesis using sync_locked_torn [OF assms(5)] assms(5,6) by (simp add: mirror_within_def)
  qed
qed

lemma sync_within:
  assumes "env_ok env" "json_ok js" "ledger_rep env tenant es rows" "uses env js c"
    and "mirror_within (mirror_of env js es) fs"
  shows "mirror_within (mirror_of env js es) (snd (sync_mirror c rows fs))"
    and "mirror_within (mirror_of env js es) (snd (sync_mirror_lockstep c rows fs))"
proof -
  define opened where "opened = snd (open_mirror_for_append fs)"
  have opened: "open_mirror_for_append fs = (Inr (), opened)"
    by (simp add: opened_def open_mirror_for_append_def)
  obtain f where f: "mf_mirror opened = Some f" "prefix f (mirror_of env js es)"
    using assms(5) by (cases "mf_mirror fs") (auto simp: opened_def open_mirror_for_append_def mirror_within_def)
  have locked: "mirror_within (mirror_of env js es) (snd (sync_mirror_locked c rows opened))"
    by (rule sync_locked_within [OF assms(1-4) f])
  then show "mirror_within (mirror_of env js es) (snd (sync_mirror c rows fs))"
    by (simp add: sync_mirror_def fs_bind_def opened)
  show "mirror_within (mirror_of env js es) (snd (sync_mirror_lockstep c rows fs))"
    using locked f
    by (auto simp: sync_mirror_lockstep_def fs_bind_def opened mirror_within_def
        split: sum.splits prod.splits)
qed

lemma ensure_within:
  assumes "lock_obtained c" "env_ok env" "json_ok js" "ledger_rep env tenant es rows" "uses env js c"
    and "fresh_backups c fs" "mirror_within (mirror_of env js es) fs"
  shows "\<exists>a fs'. ensure_consistent_with_db c rows fs = (Inr a, fs') \<and>
    mf_mirror fs' = Some (mirror_of env js es)"
  using ensure_completes [of c tenant es rows fs] assms
  by (cases "mf_mirror fs") (auto simp: uses_def mirror_within_def)

lemma mirrored_inv:
  assumes "mirrored env js meta rows fs" and "env_ok env" "json_ok js" "meta_ok meta"
  shows "ledger_inv env meta rows \<and> mirror_within (mirror_of env js (ledger_entries env rows)) fs"
  using assms(1)
proof induction
  case (mir_start fs)
  then show ?case using ledger_inv_Nil [OF assms(2,4)] by (simp add: mirror_within_def)
next
  case (mir_commit rows fs rq i rows')
  have inv: "ledger_inv env meta rows" using mir_commit.IH by simp
  have room: "length (ledger_entries env rows) + 1 < 2 ^ 63"
    using mir_commit.hyps(2) ledger_inv_length [OF inv] by simp
  have "ledger_inv env meta rows'" using sink.append_inv [OF inv room mir_commit.hyps(3)] .
  moreover obtain x where "ledger_entries env rows' = ledger_entries env rows @ [x]"
    using sink.append_extends [OF inv room mir_commit.hyps(3)] by blast
  ultimately show ?case using mir_commit.IH
    by (auto simp: mirror_within_def mirror_of_append)
next
  case (mir_sync rows fs c)
  then show ?case using sync_within(1) assms(2,3) by (metis ledger_inv_rep)
next
  case (mir_lockstep rows fs c)
  then show ?case using sync_within(2) assms(2,3) by (metis ledger_inv_rep)
next
  case (mir_cut rows fs c f g)
  have "mirror_within (mirror_of env js (ledger_entries env rows)) (snd (sync_mirror c rows fs))"
    using sync_within(1) assms(2,3) mir_cut.IH mir_cut.hyps(2) by (metis ledger_inv_rep)
  then have "prefix g (mirror_of env js (ledger_entries env rows))"
    using mir_cut.hyps(3,4) by (auto simp: mirror_within_def)
  then show ?case using mir_cut.IH by (simp add: mirror_within_def)
next
  case (mir_reconcile rows fs c)
  then have "ledger_rep env (meta_tenant_id meta) (ledger_entries env rows) rows"
    by (simp add: ledger_inv_rep)
  from ensure_within [OF mir_reconcile.hyps(3) assms(2,3) this mir_reconcile.hyps(2,4)] mir_reconcile.IH
  show ?case by (auto simp: mirror_within_def)
qed

text \<open>
  C14: Over any run of commits, synchronisations with or without the lock, writes cut off after
  any byte, and reconciliations, the mirror is a prefix of the ledger's own file, so it is never
  ahead of the database; and from every such state a reconciliation that gets the lock succeeds
  and leaves exactly the ledger's file, which reads back as the ledger's entries.
\<close>

theorem mirror_survives_interruptions:
  assumes "mirrored env js meta rows fs" and "env_ok env" "json_ok js" "meta_ok meta"
    and "uses env js c" "lock_obtained c" "fresh_backups c fs"
  shows "(\<forall>f. mf_mirror fs = Some f \<longrightarrow> prefix f (mirror_of env js (ledger_entries env rows))) \<and>
    (\<exists>a fs'. ensure_consistent_with_db c rows fs = (Inr a, fs') \<and>
       mf_mirror fs' = Some (mirror_of env js (ledger_entries env rows)) \<and>
       read_mirror_entries js (mf_mirror fs') = Inr (map (from_entry env) (ledger_entries env rows)))"
proof -
  have inv: "ledger_inv env meta rows" and within: "mirror_within (mirror_of env js (ledger_entries env rows)) fs"
    using mirrored_inv [OF assms(1-4)] by simp_all
  have rep: "ledger_rep env (meta_tenant_id meta) (ledger_entries env rows) rows"
    using inv by (simp add: ledger_inv_rep)
  have "mirror_wf (map (from_entry env) (ledger_entries env rows))"
    using own_prefix_wf [OF rep, of "length (ledger_entries env rows)"] by simp
  then have "read_mirror_entries js (Some (mirror_of env js (ledger_entries env rows))) =
      Inr (map (from_entry env) (ledger_entries env rows))"
    unfolding mirror_of_def mirror_wf_def using assms(3) by (intro read_mirror_entries_file) simp_all
  then show ?thesis
    using ensure_within [OF assms(6,2,3) rep assms(5,7) within] within
    by (metis mirror_within_def)
qed

section \<open>Replaying the mirror\<close>

lemma insert_own_line:
  "env_ok env \<Longrightarrow> insert_mirror_entry_verbatim env (from_entry env e) rows =
   Inr (rows @ [row_of_entry env (unsigned_entry e)])"
  by (simp add: insert_mirror_entry_verbatim_def from_entry_def env_ok_simps row_of_entry_def
      unsigned_entry_def)

lemma insert_own_lines:
  "env_ok env \<Longrightarrow> fold_res (insert_mirror_entry_verbatim env) (map (from_entry env) es) rows =
   Inr (rows @ map (row_of_entry env) (map unsigned_entry es))"
  by (induction es arbitrary: rows) (simp_all add: insert_own_line)

lemma chained_unsigned: "chained env n prev (map unsigned_entry es) \<longleftrightarrow> chained env n prev es"
proof (induction es arbitrary: n prev)
  case (Cons e es)
  have "compute_entry_hash env (unsigned_entry e) = compute_entry_hash env e"
    by (rule compute_entry_hash_cong) (simp add: same_hashed_fields_def unsigned_entry_def entry.defs)
  moreover have "prev_hash (unsigned_entry e) = prev_hash e" by (simp add: unsigned_entry_def)
  ultimately show ?case using Cons by simp
qed simp

lemma rep_unsigned_tail:
  assumes "ledger_rep env tenant es rows"
  shows "ledger_rep env tenant (take k es @ map unsigned_entry (drop k es))
    (map (row_of_entry env) (take k es @ map unsigned_entry (drop k es)))"
proof -
  have "chained env 1 (genesis_hash env tenant) (take k es @ drop k es)"
    using assms by (simp add: ledger_rep_def)
  then have "chained env 1 (genesis_hash env tenant) (take k es @ map unsigned_entry (drop k es))"
    unfolding chained_append chained_unsigned .
  moreover have "entry_wf tenant (unsigned_entry e)" if "entry_wf tenant e" for e
    using that by (simp add: entry_wf_def unsigned_entry_def)
  ultimately show ?thesis
    using assms by (auto simp: ledger_rep_def dest: in_set_takeD in_set_dropD)
qed

lemma rep_verifies:
  assumes "env_ok env" and "ledger_rep env tenant es rows"
  shows "ledger_verify_chain env tenant rows = Inr (length es)"
proof -
  have "verify_chain env tenant es = Inr (length es)"
    using assms(2) by (subst verify_chain_iff) (simp_all add: ledger_rep_def chain_valid_def)
  then show ?thesis by (simp add: ledger_verify_chain_def rep_read_all [OF assms])
qed

lemma filter_own_tail:
  assumes rep: "ledger_rep env tenant es rows" and k: "k \<le> length es"
  shows "filter (\<lambda>m. of_nat k < m_seq m) (map (from_entry env) es) = map (from_entry env) (drop k es)"
proof -
  have less: "of_nat k < seq (es ! i) \<longleftrightarrow> k < Suc i" if "i < length es" for i
    using rep_seq [OF rep that] that k rep_bound [OF rep] of_nat64_less [of k "Suc i"]
    by (simp del: of_nat_Suc)
  have "filter (\<lambda>e. of_nat k < seq e) (take k es @ drop k es) = [] @ drop k es"
    unfolding filter_append
    by (intro arg_cong2 [of _ _ _ _ "(@)"])
       (auto simp: filter_empty_conv filter_id_conv in_set_conv_nth less)
  then show ?thesis by (simp add: filter_map comp_def from_entry_def)
qed

text \<open>
  C17: When a database lost everything after its first \<open>k\<close> entries, replaying the mirror after
  \<open>k\<close> inserts exactly the missing entries and the chain verifies over its full length again. The
  replayed entries are the lost ones without their session columns.
\<close>

theorem mirror_replay_restores_chain:
  assumes "env_ok env" and "json_ok js" and "ledger_rep env tenant es rows" and "k \<le> length es"
  shows "\<exists>rows'. replay_mirror_delta env js (Some (mirror_of env js es)) (of_nat k) (take k rows) =
      Inr (length es - k, rows') \<and>
    read_all_entries env rows' = Inr (take k es @ map unsigned_entry (drop k es)) \<and>
    ledger_verify_chain env tenant rows' = Inr (length es)"
proof -
  let ?es = "take k es @ map unsigned_entry (drop k es)"
  have "mirror_wf (map (from_entry env) es)"
    using own_prefix_wf [OF assms(3), of "length es"] by simp
  then have read: "read_mirror_entries js (Some (mirror_of env js es)) = Inr (map (from_entry env) es)"
    unfolding mirror_of_def mirror_wf_def using assms(2) by (intro read_mirror_entries_file) simp_all
  have "replay_mirror_delta env js (Some (mirror_of env js es)) (of_nat k) (take k rows) =
      Inr (length es - k, map (row_of_entry env) ?es)"
    using read filter_own_tail [OF assms(3,4)] insert_own_lines [OF assms(1), of "drop k es" "take k rows"]
      rep_rows [OF assms(3)]
    by (simp add: replay_mirror_delta_def take_map)
  moreover note rep = rep_unsigned_tail [OF assms(3), of k]
  have "length ?es = length es" using assms(4) by simp
  then have "ledger_verify_chain env tenant (map (row_of_entry env) ?es) = Inr (length es)"
    using rep_verifies [OF assms(1) rep] by simp
  ultimately show ?thesis using rep_read_all [OF assms(1) rep] by blast
qed

section \<open>The lock\<close>

lemma lock_wait:
  assumes "try_lock_loop peer deadline now = Inr got"
  shows "\<exists>k. (\<forall>j < k. peer (now + j * MIRROR_LOCK_POLL) = LockContended \<and>
                now + j * MIRROR_LOCK_POLL < deadline) \<and>
    peer (now + k * MIRROR_LOCK_POLL) = (if got then LockFree else LockContended) \<and>
    (\<not> got \<longrightarrow> deadline \<le> now + k * MIRROR_LOCK_POLL)"
  using assms
proof (induction peer deadline now rule: try_lock_loop.induct)
  case (1 peer deadline now)
  show ?case
  proof (cases "peer now = LockContended \<and> now < deadline")
    case True
    then have "try_lock_loop peer deadline (now + MIRROR_LOCK_POLL) = Inr got"
      using 1(2) by (subst (asm) try_lock_loop.simps) simp
    then obtain k where k: "\<forall>j < k. peer (now + MIRROR_LOCK_POLL + j * MIRROR_LOCK_POLL) = LockContended \<and>
          now + MIRROR_LOCK_POLL + j * MIRROR_LOCK_POLL < deadline"
        "peer (now + MIRROR_LOCK_POLL + k * MIRROR_LOCK_POLL) = (if got then LockFree else LockContended)"
        "\<not> got \<longrightarrow> deadline \<le> now + MIRROR_LOCK_POLL + k * MIRROR_LOCK_POLL"
      using 1(1) True by fastforce
    have "peer (now + j * MIRROR_LOCK_POLL) = LockContended \<and> now + j * MIRROR_LOCK_POLL < deadline"
      if "j < Suc k" for j
      using that True k(1) by (cases j) (auto simp: algebra_simps)
    then show ?thesis using k(2,3) by (intro exI [of _ "Suc k"]) (auto simp: algebra_simps)
  next
    case False
    then show ?thesis using 1(2) by (subst (asm) try_lock_loop.simps)
      (auto split: lock_try.splits if_splits intro!: exI [of _ 0])
  qed
qed

section \<open>Limits of the reconciliation\<close>

text \<open>
  The mirror's hashes are compared, never recomputed: editing the payload of a mirror line
  leaves the reconciliation at \<open>RaUnchanged\<close>.
\<close>

lemma edited_line_wf:
  "mirror_wf ms \<Longrightarrow> i < length ms \<Longrightarrow> mirror_wf (ms[i := (ms ! i)\<lparr>m_payload := p\<rparr>])"
proof -
  have "seqs_from n ms \<Longrightarrow> i < length ms \<Longrightarrow> seqs_from n (ms[i := (ms ! i)\<lparr>m_payload := p\<rparr>])" for n
    by (induction ms arbitrary: n i) (auto split: nat.splits)
  moreover have "linked h ms \<Longrightarrow> i < length ms \<Longrightarrow> linked h (ms[i := (ms ! i)\<lparr>m_payload := p\<rparr>])" for h
    by (induction ms arbitrary: h i) (auto split: nat.splits option.splits)
  ultimately show "mirror_wf ms \<Longrightarrow> i < length ms \<Longrightarrow> ?thesis" by (simp add: mirror_wf_def)
qed

lemma edited_mirror_line_unnoticed:
  assumes ok: "env_ok (mc_env c)" and js: "json_ok (mc_json c)" and lock: "lock_obtained c"
    and rep: "ledger_rep (mc_env c) tenant es rows" and i: "i < length es"
    and ms: "ms = (map (from_entry (mc_env c)) es)[i := (from_entry (mc_env c) (es ! i))\<lparr>m_payload := p\<rparr>]"
    and fs: "mf_mirror fs = Some (file_of (mc_json c) ms)"
  shows "ensure_consistent_with_db c rows fs = (Inr RaUnchanged, fs)"
proof -
  have "mirror_wf (map (from_entry (mc_env c)) es)" using own_prefix_wf [OF rep, of "length es"] by simp
  from edited_line_wf [OF this, of i p] have wf: "mirror_wf ms" using i ms by simp
  have len: "length ms = length es" using ms by simp
  have "same_hash (mc_env c) (ms ! j) (es ! j)" if "j < length es" for j
    using that i ms by (simp add: nth_list_update same_hash_def from_entry_def)
  then have agree: "heads_agree (mc_env c) es ms" using i len by (simp add: heads_agree_def Let_def)
  have "fs\<lparr>mf_mirror := Some (file_of (mc_json c) ms)\<rparr> = fs" using fs by (cases fs) simp
  then have "reconcile_heads c rows (of_nat (length es)) ms fs = (Inr RaUnchanged, fs)"
    using reconcile_behind [OF ok rep wf agree _ fs] len by (simp add: mirror_of_def)
  then show ?thesis
    using ensure_existing [OF lock fs rep_max_seq [OF ok rep]] tail_policy_clean [OF js wf fs] by simp
qed

text \<open>
  The probe for the file is taken before the lock: when another process wrote the mirror between
  the probe and the lock, the reconciliation empties it without a copy.
\<close>

lemma stale_probe_truncates:
  assumes "lock_obtained c" and "mf_mirror fs = Some f"
  shows "ensure_after_probe c [] False fs = (Inr (RaCreated 0), fs\<lparr>mf_mirror := Some []\<rparr>)"
  using assms
  by (simp add: ensure_after_probe_def fs_bind_def lock_mirror_result lock_exclusive_bounded_def
      lock_obtained_def read_db_max_seq_def select_head_def order_by_seq_def fs_set_len_def
      rebuild_mirror_from_db_locked_def read_db_entries_after_def)

text \<open>A clock that repeats a reading overwrites the backup named by it.\<close>

lemma repeated_clock_overwrites_backup:
  assumes "mf_mirror fs = Some f" and "mf_dir fs = [(backup_name c ''corrupt'', old)]" and "old \<noteq> f"
  shows "mf_dir (snd (preserve_corrupt_mirror c fs)) = [(backup_name c ''corrupt'', f)]"
  using assms
  by (simp add: preserve_corrupt_mirror_def preserve_mirror_copy_def fs_bind_def put_file_def)

section \<open>Concrete runs\<close>

definition demo_line_tuple where
  "demo_line_tuple m = ((m_id m, unat (m_seq m), m_prev_hash m, m_time_wall m, unat (m_time_mono m),
     demo_tuple (m_actor m)), m_binary_hash m, m_tenant_id m, m_kind m, m_payload m,
     m_idempotency_key m, m_entry_hash m)"

definition demo_line_untuple where
  "demo_line_untuple x = (case x of ((i, s, p, w, t, a), b, n, k, l, d, h) \<Rightarrow>
     \<lparr>m_id = i, m_seq = of_nat s, m_prev_hash = p, m_time_wall = w, m_time_mono = of_nat t,
      m_actor = demo_untuple a, m_binary_hash = b, m_tenant_id = n, m_kind = k, m_payload = l,
      m_idempotency_key = d, m_entry_hash = h\<rparr>)"

definition demo_json :: mirror_json where
  "demo_json = \<lparr>json_to_vec = (\<lambda>m. replicate (Suc (to_nat (demo_line_tuple m))) 65),
     json_from_str = (\<lambda>bs. Some (demo_line_untuple (from_nat (length bs - 1))))\<rparr>"

lemma demo_line_roundtrip: "demo_line_untuple (demo_line_tuple m) = m"
  by (cases m) (simp add: demo_line_untuple_def demo_line_tuple_def demo_untuple_tuple)

lemma demo_json_ok: "json_ok demo_json"
proof -
  have "utf8_valid (replicate n 65 @ [newline])" for n by (induction n) (simp_all add: newline_def)
  then have "utf8_valid (replicate (Suc n) 65 @ [newline])" for n .
  then show ?thesis
    by (simp add: json_ok_def demo_json_def demo_line_roundtrip newline_def carriage_return_def
        del: replicate_Suc)
qed

definition demo_mirror_ctx :: mirror_ctx where
  "demo_mirror_ctx = \<lparr>mc_env = demo_env, mc_json = demo_json, mc_name = ''m'', mc_nanos = (\<lambda>_. 0),
     mc_peer = (\<lambda>t. if t < 100 then LockContended else LockFree), mc_start = 0\<rparr>"

lemma demo_mirror_simps [simp]:
  "mc_env demo_mirror_ctx = demo_env" "mc_json demo_mirror_ctx = demo_json"
  "uses demo_env demo_json demo_mirror_ctx"
  by (simp_all add: demo_mirror_ctx_def uses_def)

lemma demo_lock: "lock_obtained demo_mirror_ctx"
  by (simp add: lock_obtained_def try_lock_exclusive_within_def demo_mirror_ctx_def
      try_lock_loop.simps RECONCILE_LOCK_TIMEOUT_def MIRROR_LOCK_POLL_def)

definition demo_dir :: "byte list option \<Rightarrow> mirror_fs" where
  "demo_dir f = \<lparr>mf_mirror = f, mf_dir = [(''m.corrupt-7.bak'', [1])]\<rparr>"

lemma demo_fresh: "fresh_backups demo_mirror_ctx (demo_dir f)"
proof -
  have "show_nat 0 = ''0''" by (simp add: show_nat.simps digit_char_def)
  then show ?thesis
    by (simp add: fresh_backups_def demo_dir_def backup_name_def backup_prefix_def demo_mirror_ctx_def)
qed

definition demo_lost :: entry where
  "demo_lost = demo_entry 1 (genesis_hash demo_env ''t1'')"

lemma demo_lost_rep: "ledger_rep demo_env ''t1'' [demo_lost] [row_of_entry demo_env demo_lost]"
  using demo_chain demo_entry_wf [OF genesis_length [OF demo_env_ok]]
  by (simp add: ledger_rep_def chain_valid_def demo_lost_def)

lemma demo_lost_wf: "mirror_wf [from_entry demo_env demo_lost]"
  using own_prefix_wf [OF demo_lost_rep, of 1] by simp

lemma mirror_reconciliation_exact_witness:
  "\<exists>b fs'. ensure_consistent_with_db demo_mirror_ctx []
       (demo_dir (Some (file_of demo_json [from_entry demo_env demo_lost] @ [65]))) =
     (Inl (AMirrorAheadOfDb 1 0 b), fs') \<and>
   mf_mirror fs' = Some (file_of demo_json [from_entry demo_env demo_lost]) \<and>
   (b, file_of demo_json [from_entry demo_env demo_lost]) \<in> set (mf_dir fs') \<and>
   file_of demo_json [from_entry demo_env demo_lost] @ [65] \<in> snd ` set (mf_dir fs')"
proof -
  let ?ms = "[from_entry demo_env demo_lost]"
  let ?fs = "demo_dir (Some (file_of demo_json ?ms @ [65]))"
  obtain r fs' where run: "ensure_consistent_with_db demo_mirror_ctx [] ?fs = (r, fs')"
    by (cases "ensure_consistent_with_db demo_mirror_ctx [] ?fs")
  have agree: "heads_agree demo_env [] ?ms" by (simp add: heads_agree_def)
  have "newline \<notin> set [65]" by (simp add: newline_def)
  from mirror_reconciliation_exact [where c = demo_mirror_ctx and tenant = "''t1''" and es = "[]"
      and rows = "[]" and ms = ?ms and t = "[65]" and fs = ?fs, OF demo_lock _ _ _ demo_lost_wf _ this _ _ run]
    demo_env_ok demo_json_ok ledger_rep_Nil demo_fresh agree
  obtain dir n b dir' where kept:
      "copy_kept demo_mirror_ctx ''corrupt'' (file_of demo_json ?ms @ [65]) (mf_dir ?fs) n dir"
      "copy_kept demo_mirror_ctx ''ahead'' (file_of demo_json ?ms) dir b dir'"
    and r: "r = Inl (AMirrorAheadOfDb 1 0 b)" "fs' = \<lparr>mf_mirror = Some (file_of demo_json ?ms), mf_dir = dir'\<rparr>"
    by (auto simp: demo_dir_def)
  have "(b, file_of demo_json ?ms) \<in> set dir'" "(n, file_of demo_json ?ms @ [65]) \<in> set dir'"
    using copy_kept_in [OF kept(1)] copy_kept_in [OF kept(2)] by auto
  then show ?thesis using run r by (auto intro!: image_eqI [where x = "(n, _)"])
qed

lemma mirror_evidence_never_lost_witness:
  "evidenced (snd (read_mirror_under_tail_policy demo_mirror_ctx
      (demo_dir (Some (file_of demo_json [from_entry demo_env demo_lost] @ [65])))))
    (file_of demo_json [from_entry demo_env demo_lost] @ [65])"
proof -
  let ?f = "file_of demo_json [from_entry demo_env demo_lost] @ [65]"
  have "mirror_activity\<^sup>*\<^sup>* (demo_dir (Some ?f))
      (snd (read_mirror_under_tail_policy demo_mirror_ctx (demo_dir (Some ?f))))"
    by (intro r_into_rtranclp act_read demo_fresh)
  moreover have "evidenced (demo_dir (Some ?f)) ?f" by (simp add: evidenced_def demo_dir_def)
  ultimately show ?thesis using mirror_evidence_never_lost by blast
qed

lemma mirror_survives_interruptions_witness:
  "\<exists>i rows a fs'. ledger_append demo_env demo_meta (demo_request 1) [] = Inr (i, rows) \<and>
     ensure_consistent_with_db demo_mirror_ctx rows (demo_dir None) = (Inr a, fs') \<and>
     mf_mirror fs' = Some (mirror_of demo_env demo_json (ledger_entries demo_env rows))"
proof -
  have "ledger_entries demo_env [] = []" using ledger_inv_length [OF demo_ledger_inv] by simp
  then obtain i rows where app: "ledger_append demo_env demo_meta (demo_request 1) [] = Inr (i, rows)"
    using sink.append_ok [OF demo_ledger_inv, of "demo_request 1"] by auto
  have "mirrored demo_env demo_json demo_meta rows (demo_dir None)"
    by (rule mir_commit [OF mir_start _ app]) (simp_all add: demo_dir_def)
  from mirror_survives_interruptions [OF this demo_env_ok demo_json_ok demo_meta_ok
      demo_mirror_simps(3) demo_lock demo_fresh] app
  show ?thesis by blast
qed

lemma mirror_replay_restores_chain_witness:
  "\<exists>rows'. replay_mirror_delta demo_env demo_json (Some (mirror_of demo_env demo_json [demo_lost])) 0 [] =
      Inr (1, rows') \<and>
    read_all_entries demo_env rows' = Inr [unsigned_entry demo_lost] \<and>
    ledger_verify_chain demo_env ''t1'' rows' = Inr 1"
  using mirror_replay_restores_chain [OF demo_env_ok demo_json_ok demo_lost_rep, of 0] by simp

end
