(* ===== verification/Billing_Money.thy ===== *)
theory Billing_Money
  imports Decimal_Text Complex_Main Prelude
begin

text \<open>
  Money (modules/billing/src/domain/money.rs): forints and euro cents as 64-bit amounts with
  checked arithmetic, their printed form, and the two places where a decimal meets money.
  A \<open>rust_decimal::Decimal\<close> is the rational number it denotes; the operations of that
  crate that the code calls are the fields of \<open>decimal_env\<close>, and \<open>decimal_ok\<close> is
  their documented behaviour: exact whenever the exact result has at most 96 bits of mantissa
  and 28 decimals, rounding of midpoints to even, range-checked conversion.
\<close>

section \<open>Decimals\<close>

record decimal_env =
  dec_mul :: "rat \<Rightarrow> rat \<Rightarrow> rat option"
  dec_div :: "rat \<Rightarrow> rat \<Rightarrow> rat option"
  dec_round0 :: "rat \<Rightarrow> rat" \<comment> \<open>\<open>round_dp_with_strategy(0, MidpointNearestEven)\<close>\<close>
  dec_to_i64 :: "rat \<Rightarrow> int option"

definition dec_exact :: "rat \<Rightarrow> bool" where
  "dec_exact x \<longleftrightarrow> (\<exists>m s. \<bar>m\<bar> < 2 ^ 96 \<and> s \<le> 28 \<and> x = of_int m / 10 ^ s)"

definition round_half_even :: "rat \<Rightarrow> int" where
  "round_half_even x =
     (let f = \<lfloor>x\<rfloor>; d = x - of_int f
      in if d < 1 / 2 then f else if d > 1 / 2 then f + 1 else if even f then f else f + 1)"

definition decimal_ok :: "decimal_env \<Rightarrow> bool" where
  "decimal_ok d \<longleftrightarrow>
     (\<forall>a b. dec_exact (a * b) \<longrightarrow> dec_mul d a b = Some (a * b)) \<and>
     (\<forall>a b. b \<noteq> 0 \<and> dec_exact (a / b) \<longrightarrow> dec_div d a b = Some (a / b)) \<and>
     (\<forall>x. dec_round0 d x = of_int (round_half_even x)) \<and>
     (\<forall>n. dec_to_i64 d (of_int n) = i64_checked n)"

lemma decimal_ok_simps:
  assumes "decimal_ok d"
  shows "dec_exact (a * b) \<Longrightarrow> dec_mul d a b = Some (a * b)"
    and "b \<noteq> 0 \<Longrightarrow> dec_exact (a / b) \<Longrightarrow> dec_div d a b = Some (a / b)"
    and "dec_round0 d x = of_int (round_half_even x)"
    and "dec_to_i64 d (of_int n) = i64_checked n"
  using assms by (auto simp: decimal_ok_def)

lemma round_half_even_of_int [simp]: "round_half_even (of_int n) = n"
  by (simp add: round_half_even_def)

lemma round_half_even_error: "\<bar>of_int (round_half_even x) - x\<bar> \<le> 1 / 2"
proof -
  have "of_int \<lfloor>x\<rfloor> \<le> x" "x < of_int \<lfloor>x\<rfloor> + 1" by linarith+
  then show ?thesis by (auto simp: round_half_even_def Let_def abs_le_iff)
qed

lemma round_half_even_mono: "x \<le> y \<Longrightarrow> round_half_even x \<le> round_half_even y"
proof -
  assume xy: "x \<le> y"
  have fx: "of_int \<lfloor>x\<rfloor> \<le> x" "x < of_int \<lfloor>x\<rfloor> + 1" and fy: "of_int \<lfloor>y\<rfloor> \<le> y" "y < of_int \<lfloor>y\<rfloor> + 1"
    by linarith+
  have "\<lfloor>x\<rfloor> \<le> \<lfloor>y\<rfloor>" using xy by (rule floor_mono)
  then consider "\<lfloor>x\<rfloor> = \<lfloor>y\<rfloor>" | "\<lfloor>x\<rfloor> + 1 \<le> \<lfloor>y\<rfloor>" by linarith
  then show ?thesis
    using xy fx fy by cases (auto simp: round_half_even_def Let_def)
qed

lemma dec_exactI: "\<bar>m\<bar> < 2 ^ 96 \<Longrightarrow> s \<le> 28 \<Longrightarrow> dec_exact (of_int m / 10 ^ s)"
  unfolding dec_exact_def by blast

lemma dec_exact_int: "\<bar>m\<bar> < 2 ^ 96 \<Longrightarrow> dec_exact (of_int m)"
  using dec_exactI [of m 0] by simp

section \<open>Forints and euros\<close>

datatype huf = Huf (huf_as_i64: int)
datatype eur = Eur (as_cents: int)

instantiation huf :: linorder
begin

definition less_eq_huf :: "huf \<Rightarrow> huf \<Rightarrow> bool" where
  "less_eq_huf a b \<longleftrightarrow> huf_as_i64 a \<le> huf_as_i64 b"

definition less_huf :: "huf \<Rightarrow> huf \<Rightarrow> bool" where
  "less_huf a b \<longleftrightarrow> huf_as_i64 a < huf_as_i64 b"

instance
  by standard (auto simp: less_eq_huf_def less_huf_def intro: huf.expand)

end

definition HUF_ZERO :: huf where "HUF_ZERO = Huf 0"
definition EUR_ZERO :: eur where "EUR_ZERO = Eur 0"

definition huf_checked_add :: "huf \<Rightarrow> huf \<Rightarrow> huf option" where
  "huf_checked_add a b = map_option Huf (i64_checked (huf_as_i64 a + huf_as_i64 b))"

definition huf_checked_mul_u32 :: "huf \<Rightarrow> nat \<Rightarrow> huf option" where
  "huf_checked_mul_u32 a n = map_option Huf (i64_checked (huf_as_i64 a * int n))"

definition huf_checked_mul_decimal :: "decimal_env \<Rightarrow> huf \<Rightarrow> rat \<Rightarrow> huf option" where
  "huf_checked_mul_decimal d a quantity =
     (case dec_mul d (of_int (huf_as_i64 a)) quantity of
        None \<Rightarrow> None
      | Some p \<Rightarrow> map_option Huf (dec_to_i64 d (dec_round0 d p)))"

definition eur_checked_add :: "eur \<Rightarrow> eur \<Rightarrow> eur option" where
  "eur_checked_add a b = map_option Eur (i64_checked (as_cents a + as_cents b))"

definition eur_checked_sub :: "eur \<Rightarrow> eur \<Rightarrow> eur option" where
  "eur_checked_sub a b = map_option Eur (i64_checked (as_cents a - as_cents b))"

definition eur_checked_mul_u32 :: "eur \<Rightarrow> nat \<Rightarrow> eur option" where
  "eur_checked_mul_u32 a n = map_option Eur (i64_checked (as_cents a * int n))"

datatype currency = CurrencyHuf | CurrencyEur

fun iso_code :: "currency \<Rightarrow> string" where
  "iso_code CurrencyHuf = ''HUF''"
| "iso_code CurrencyEur = ''EUR''"

datatype money = MoneyHuf huf | MoneyEur eur

fun money_currency :: "money \<Rightarrow> currency" where
  "money_currency (MoneyHuf _) = CurrencyHuf"
| "money_currency (MoneyEur _) = CurrencyEur"

definition huf_equivalent_round_half_even :: "decimal_env \<Rightarrow> int \<Rightarrow> rat \<Rightarrow> int option" where
  "huf_equivalent_round_half_even d eur_cents rate =
     (case dec_mul d (of_int eur_cents) rate of
        None \<Rightarrow> None
      | Some p \<Rightarrow>
          (case dec_div d p 100 of
             None \<Rightarrow> None
           | Some q \<Rightarrow> dec_to_i64 d (dec_round0 d q)))"

record rate_metadata =
  rm_rate :: rat
  rm_source :: string
  rm_date :: int
  rm_huf_equivalent_total :: int

record bank_account_snapshot =
  ba_id :: string
  ba_currency :: string
  ba_account_number :: string
  ba_bank_name :: string
  ba_swift_bic :: string

section \<open>Printed amounts\<close>

definition huf_display :: "huf \<Rightarrow> string" where
  "huf_display h = show_int (huf_as_i64 h) @ '' HUF''"

definition eur_display :: "eur \<Rightarrow> string option" where
  \<comment> \<open>None: \<open>i64::abs\<close> overflows on the smallest amount\<close>
  "eur_display e =
     (if as_cents e = 0 then Some ''0.00 EUR''
      else if as_cents e = i64_min then None
      else
        (let sign = (if as_cents e < 0 then ''-'' else '''');
             a = nat \<bar>as_cents e\<bar>
         in Some (sign @ show_nat (a div 100) @ ''.'' @ show_02 (a mod 100) @ '' EUR'')))"

end
