(* ===== verification/Billing_Invoice.thy ===== *)
theory Billing_Invoice
  imports Billing_Money
begin

text \<open>
  The billing domain (modules/billing/src/domain): the closed vocabularies of a line
  (VAT kind, NAV unit of measure) and of an invoice (payment method) with their storage
  codecs, dates, series, line arithmetic, and the invoice in each of its stages with the
  transitions between them. A date is a day number, an instant the nanoseconds since the
  epoch.
\<close>

section \<open>Identifiers\<close>

datatype invoice_id = InvoiceId nat
datatype customer_id = CustomerId nat
datatype series_id = SeriesId nat
datatype reservation_id = ReservationId nat

section \<open>Vocabularies\<close>

datatype vat_rate_kind =
    Percent
  | AamExempt
  | DomesticReverseCharge
  | IntraCommunityGoods
  | IntraCommunityServiceReverse
  | TamExempt
  | ExportGoods
  | OtherInternational
  | NewTransportIntraCommunity
  | OutOfScopeThirdCountry
  | MarginScheme
  | NoVatCharge
  | VatContent

fun vat_rate_kind_as_str :: "vat_rate_kind \<Rightarrow> string" where
  "vat_rate_kind_as_str Percent = ''Percent''"
| "vat_rate_kind_as_str AamExempt = ''AamExempt''"
| "vat_rate_kind_as_str DomesticReverseCharge = ''DomesticReverseCharge''"
| "vat_rate_kind_as_str IntraCommunityGoods = ''IntraCommunityGoods''"
| "vat_rate_kind_as_str IntraCommunityServiceReverse = ''IntraCommunityServiceReverse''"
| "vat_rate_kind_as_str TamExempt = ''TamExempt''"
| "vat_rate_kind_as_str ExportGoods = ''ExportGoods''"
| "vat_rate_kind_as_str OtherInternational = ''OtherInternational''"
| "vat_rate_kind_as_str NewTransportIntraCommunity = ''NewTransportIntraCommunity''"
| "vat_rate_kind_as_str OutOfScopeThirdCountry = ''OutOfScopeThirdCountry''"
| "vat_rate_kind_as_str MarginScheme = ''MarginScheme''"
| "vat_rate_kind_as_str NoVatCharge = ''NoVatCharge''"
| "vat_rate_kind_as_str VatContent = ''VatContent''"

definition vat_rate_kind_from_db_str :: "string \<Rightarrow> vat_rate_kind option" where
  "vat_rate_kind_from_db_str s =
    (if s = ''Percent'' then Some Percent
     else if s = ''AamExempt'' then Some AamExempt
     else if s = ''DomesticReverseCharge'' then Some DomesticReverseCharge
     else if s = ''IntraCommunityGoods'' then Some IntraCommunityGoods
     else if s = ''IntraCommunityServiceReverse'' then Some IntraCommunityServiceReverse
     else if s = ''TamExempt'' then Some TamExempt
     else if s = ''ExportGoods'' then Some ExportGoods
     else if s = ''OtherInternational'' then Some OtherInternational
     else if s = ''NewTransportIntraCommunity'' then Some NewTransportIntraCommunity
     else if s = ''OutOfScopeThirdCountry'' then Some OutOfScopeThirdCountry
     else if s = ''MarginScheme'' then Some MarginScheme
     else if s = ''NoVatCharge'' then Some NoVatCharge
     else if s = ''VatContent'' then Some VatContent
     else None)"

interpretation vat_codec: storage_codec vat_rate_kind_as_str "\<lambda>s. ok_or () (vat_rate_kind_from_db_str s)"
proof
  show "ok_or () (vat_rate_kind_from_db_str (vat_rate_kind_as_str x)) = Inr x" for x
    by (cases x) (simp_all add: vat_rate_kind_from_db_str_def)
  show "vat_rate_kind_as_str x = s" if "ok_or () (vat_rate_kind_from_db_str s) = Inr x" for s x
    using that by (auto simp: vat_rate_kind_from_db_str_def split: if_splits)
qed

definition is_percent :: "vat_rate_kind \<Rightarrow> bool" where
  "is_percent k \<longleftrightarrow> k = Percent"

definition is_wired :: "vat_rate_kind \<Rightarrow> bool" where
  "is_wired k \<longleftrightarrow>
     k = AamExempt \<or> k = DomesticReverseCharge \<or> k = IntraCommunityGoods \<or>
     k = IntraCommunityServiceReverse"

datatype nav_unit =
    Piece
  | Kilogram
  | Ton
  | Kwh
  | Day
  | Hour
  | Minute
  | Month
  | Liter
  | Kilometer
  | CubicMeter
  | Meter
  | LinearMeter
  | Carton
  | Pack

fun nav_unit_token :: "nav_unit \<Rightarrow> string" where
  "nav_unit_token Piece = ''PIECE''"
| "nav_unit_token Kilogram = ''KILOGRAM''"
| "nav_unit_token Ton = ''TON''"
| "nav_unit_token Kwh = ''KWH''"
| "nav_unit_token Day = ''DAY''"
| "nav_unit_token Hour = ''HOUR''"
| "nav_unit_token Minute = ''MINUTE''"
| "nav_unit_token Month = ''MONTH''"
| "nav_unit_token Liter = ''LITER''"
| "nav_unit_token Kilometer = ''KILOMETER''"
| "nav_unit_token CubicMeter = ''CUBIC_METER''"
| "nav_unit_token Meter = ''METER''"
| "nav_unit_token LinearMeter = ''LINEAR_METER''"
| "nav_unit_token Carton = ''CARTON''"
| "nav_unit_token Pack = ''PACK''"

definition nav_unit_from_token :: "string \<Rightarrow> nav_unit option" where
  "nav_unit_from_token s =
    (if s = ''PIECE'' then Some Piece
     else if s = ''KILOGRAM'' then Some Kilogram
     else if s = ''TON'' then Some Ton
     else if s = ''KWH'' then Some Kwh
     else if s = ''DAY'' then Some Day
     else if s = ''HOUR'' then Some Hour
     else if s = ''MINUTE'' then Some Minute
     else if s = ''MONTH'' then Some Month
     else if s = ''LITER'' then Some Liter
     else if s = ''KILOMETER'' then Some Kilometer
     else if s = ''CUBIC_METER'' then Some CubicMeter
     else if s = ''METER'' then Some Meter
     else if s = ''LINEAR_METER'' then Some LinearMeter
     else if s = ''CARTON'' then Some Carton
     else if s = ''PACK'' then Some Pack
     else None)"

interpretation unit_codec: storage_codec nav_unit_token "\<lambda>s. ok_or () (nav_unit_from_token s)"
proof
  show "ok_or () (nav_unit_from_token (nav_unit_token x)) = Inr x" for x
    by (cases x) (simp_all add: nav_unit_from_token_def)
  show "nav_unit_token x = s" if "ok_or () (nav_unit_from_token s) = Inr x" for s x
    using that by (auto simp: nav_unit_from_token_def split: if_splits)
qed

datatype product_unit = Nav nav_unit | Own string

datatype payment_method =
    Transfer
  | Cash
  | Card
  | Voucher
  | OtherMethod

fun payment_nav_token :: "payment_method \<Rightarrow> string" where
  "payment_nav_token Transfer = ''TRANSFER''"
| "payment_nav_token Cash = ''CASH''"
| "payment_nav_token Card = ''CARD''"
| "payment_nav_token Voucher = ''VOUCHER''"
| "payment_nav_token OtherMethod = ''OTHER''"

definition payment_from_nav_token :: "string \<Rightarrow> payment_method option" where
  "payment_from_nav_token s =
    (if s = ''TRANSFER'' then Some Transfer
     else if s = ''CASH'' then Some Cash
     else if s = ''CARD'' then Some Card
     else if s = ''VOUCHER'' then Some Voucher
     else if s = ''OTHER'' then Some OtherMethod
     else None)"

interpretation payment_codec: storage_codec payment_nav_token "\<lambda>s. ok_or () (payment_from_nav_token s)"
proof
  show "ok_or () (payment_from_nav_token (payment_nav_token x)) = Inr x" for x
    by (cases x) (simp_all add: payment_from_nav_token_def)
  show "payment_nav_token x = s" if "ok_or () (payment_from_nav_token s) = Inr x" for s x
    using that by (auto simp: payment_from_nav_token_def split: if_splits)
qed

section \<open>Dates and series\<close>

datatype delivery_date_zone = InRange | BeforeInvoiceDate | AfterPaymentDeadline

fun audit_discriminant :: "delivery_date_zone \<Rightarrow> string option" where
  "audit_discriminant InRange = None"
| "audit_discriminant BeforeInvoiceDate = Some ''BeforeInvoiceDate''"
| "audit_discriminant AfterPaymentDeadline = Some ''AfterPaymentDeadline''"

definition classify_delivery_date :: "int \<Rightarrow> int \<Rightarrow> int \<Rightarrow> delivery_date_zone option" where
  "classify_delivery_date invoice_date payment_deadline delivery_date =
     (if payment_deadline < invoice_date then None
      else if delivery_date < invoice_date then Some BeforeInvoiceDate
      else if delivery_date > payment_deadline then Some AfterPaymentDeadline
      else Some InRange)"

datatype series_code = SeriesCode (series_code_str: string)

definition is_ascii :: "char \<Rightarrow> bool" where
  "is_ascii c \<longleftrightarrow> (of_char c :: nat) < 128"

definition is_ascii_control :: "char \<Rightarrow> bool" where
  "is_ascii_control c \<longleftrightarrow> (of_char c :: nat) < 32 \<or> (of_char c :: nat) = 127"

definition series_code_new :: "string \<Rightarrow> series_code option" where
  "series_code_new s =
     (if s = [] \<or> list_ex (\<lambda>c. is_whitespace c \<or> c = CHR ''/'' \<or> \<not> is_ascii c \<or> is_ascii_control c) s
      then None else Some (SeriesCode s))"

datatype reset_policy = Never | AnnualOnFiscalYear

record invoice_series =
  is_id :: series_id
  is_code :: series_code
  is_reset_policy :: reset_policy
  is_fiscal_year :: "int option"
  is_created_at :: int

datatype reservation_status = Reserved | Used | Voided

record sequence_reservation =
  sr_id :: reservation_id
  sr_series_id :: series_id
  sr_fiscal_year :: int
  sr_number :: nat
  sr_invoice_id :: invoice_id
  sr_status :: reservation_status
  sr_void_reason :: "string option"
  sr_reserved_at :: int
  sr_used_at :: "int option"
  sr_voided_at :: "int option"

section \<open>Lines\<close>

record line_item =
  li_description :: string
  li_quantity :: rat
  li_unit_price :: huf
  li_vat_bp :: nat \<comment> \<open>basis points, a \<open>u16\<close>\<close>
  li_vat_kind :: vat_rate_kind
  li_note :: "string option"
  li_unit :: "product_unit option"

definition net_total :: "decimal_env \<Rightarrow> line_item \<Rightarrow> huf option" where
  "net_total d l = huf_checked_mul_decimal d (li_unit_price l) (li_quantity l)"

definition vat_amount :: "decimal_env \<Rightarrow> line_item \<Rightarrow> huf option" where
  "vat_amount d l =
     (if \<not> is_percent (li_vat_kind l) then Some HUF_ZERO
      else case net_total d l of
             None \<Rightarrow> None
           | Some net \<Rightarrow>
               map_option (\<lambda>vat. Huf (tdiv vat 10000))
                 (i64_checked (huf_as_i64 net * int (li_vat_bp l))))"

definition gross_total :: "decimal_env \<Rightarrow> line_item \<Rightarrow> huf option" where
  "gross_total d l =
     (case net_total d l of
        None \<Rightarrow> None
      | Some net \<Rightarrow>
          (case vat_amount d l of None \<Rightarrow> None | Some vat \<Rightarrow> huf_checked_add net vat))"

fun try_fold_gross :: "decimal_env \<Rightarrow> huf \<Rightarrow> line_item list \<Rightarrow> huf option" where
  "try_fold_gross d acc [] = Some acc"
| "try_fold_gross d acc (l # ls) =
     (case gross_total d l of
        None \<Rightarrow> None
      | Some g \<Rightarrow>
          (case huf_checked_add acc g of
             None \<Rightarrow> None
           | Some acc' \<Rightarrow> try_fold_gross d acc' ls))"

section \<open>The stages of an invoice\<close>

record draft_invoice =
  di_id :: invoice_id
  di_series_id :: series_id
  di_customer_id :: customer_id
  di_lines :: "line_item list"
  di_issue_date :: int
  di_payment_deadline :: int
  di_delivery_date :: int

record ready_invoice =
  ri_id :: invoice_id
  ri_series_id :: series_id
  ri_customer_id :: customer_id
  ri_lines :: "line_item list"
  ri_issue_date :: int
  ri_payment_deadline :: int
  ri_delivery_date :: int
  ri_sequence_number :: nat
  ri_fiscal_year :: int

record submitted_invoice =
  si_id :: invoice_id
  si_series_id :: series_id
  si_customer_id :: customer_id
  si_lines :: "line_item list"
  si_issue_date :: int
  si_sequence_number :: nat
  si_fiscal_year :: int
  si_nav_transaction_id :: string

record finalized_invoice =
  fi_id :: invoice_id
  fi_series_id :: series_id
  fi_customer_id :: customer_id
  fi_lines :: "line_item list"
  fi_issue_date :: int
  fi_sequence_number :: nat
  fi_fiscal_year :: int
  fi_nav_transaction_id :: string

record rejected_invoice =
  rj_id :: invoice_id
  rj_series_id :: series_id
  rj_customer_id :: customer_id
  rj_lines :: "line_item list"
  rj_issue_date :: int
  rj_sequence_number :: nat
  rj_fiscal_year :: int
  rj_nav_transaction_id :: string

record submission_stuck_invoice =
  st_id :: invoice_id
  st_series_id :: series_id
  st_customer_id :: customer_id
  st_lines :: "line_item list"
  st_issue_date :: int
  st_sequence_number :: nat
  st_fiscal_year :: int
  st_nav_transaction_id :: string

record abandoned_invoice =
  ab_id :: invoice_id
  ab_series_id :: series_id
  ab_customer_id :: customer_id
  ab_lines :: "line_item list"
  ab_issue_date :: int
  ab_sequence_number :: nat
  ab_fiscal_year :: int
  ab_nav_transaction_id :: string

definition into_submitted :: "ready_invoice \<Rightarrow> string \<Rightarrow> submitted_invoice" where
  "into_submitted i tx =
     \<lparr>si_id = ri_id i, si_series_id = ri_series_id i, si_customer_id = ri_customer_id
      i, si_lines = ri_lines i, si_issue_date = ri_issue_date i, si_sequence_number =
      ri_sequence_number i, si_fiscal_year = ri_fiscal_year i, si_nav_transaction_id =
      tx\<rparr>"

definition into_finalized :: "submitted_invoice \<Rightarrow> finalized_invoice" where
  "into_finalized i =
     \<lparr>fi_id = si_id i, fi_series_id = si_series_id i, fi_customer_id = si_customer_id
      i, fi_lines = si_lines i, fi_issue_date = si_issue_date i, fi_sequence_number =
      si_sequence_number i, fi_fiscal_year = si_fiscal_year i, fi_nav_transaction_id =
      si_nav_transaction_id i\<rparr>"

definition into_rejected :: "submitted_invoice \<Rightarrow> rejected_invoice" where
  "into_rejected i =
     \<lparr>rj_id = si_id i, rj_series_id = si_series_id i, rj_customer_id = si_customer_id
      i, rj_lines = si_lines i, rj_issue_date = si_issue_date i, rj_sequence_number =
      si_sequence_number i, rj_fiscal_year = si_fiscal_year i, rj_nav_transaction_id =
      si_nav_transaction_id i\<rparr>"

definition into_submission_stuck :: "submitted_invoice \<Rightarrow> submission_stuck_invoice" where
  "into_submission_stuck i =
     \<lparr>st_id = si_id i, st_series_id = si_series_id i, st_customer_id = si_customer_id
      i, st_lines = si_lines i, st_issue_date = si_issue_date i, st_sequence_number =
      si_sequence_number i, st_fiscal_year = si_fiscal_year i, st_nav_transaction_id =
      si_nav_transaction_id i\<rparr>"

definition into_abandoned :: "submission_stuck_invoice \<Rightarrow> abandoned_invoice" where
  "into_abandoned i =
     \<lparr>ab_id = st_id i, ab_series_id = st_series_id i, ab_customer_id = st_customer_id
      i, ab_lines = st_lines i, ab_issue_date = st_issue_date i, ab_sequence_number =
      st_sequence_number i, ab_fiscal_year = st_fiscal_year i, ab_nav_transaction_id =
      st_nav_transaction_id i\<rparr>"

definition ri_total_gross :: "decimal_env \<Rightarrow> ready_invoice \<Rightarrow> huf option" where
  "ri_total_gross d i = try_fold_gross d HUF_ZERO (ri_lines i)"

definition si_total_gross :: "decimal_env \<Rightarrow> submitted_invoice \<Rightarrow> huf option" where
  "si_total_gross d i = try_fold_gross d HUF_ZERO (si_lines i)"

definition fi_total_gross :: "decimal_env \<Rightarrow> finalized_invoice \<Rightarrow> huf option" where
  "fi_total_gross d i = try_fold_gross d HUF_ZERO (fi_lines i)"

definition rj_total_gross :: "decimal_env \<Rightarrow> rejected_invoice \<Rightarrow> huf option" where
  "rj_total_gross d i = try_fold_gross d HUF_ZERO (rj_lines i)"

definition st_total_gross :: "decimal_env \<Rightarrow> submission_stuck_invoice \<Rightarrow> huf option" where
  "st_total_gross d i = try_fold_gross d HUF_ZERO (st_lines i)"

definition ab_total_gross :: "decimal_env \<Rightarrow> abandoned_invoice \<Rightarrow> huf option" where
  "ab_total_gross d i = try_fold_gross d HUF_ZERO (ab_lines i)"

section \<open>The life cycle\<close>

text \<open>
  The methods of each stage type are the only transitions the compiler admits; an action
  that a stage has no method for is refused.
\<close>

datatype any_invoice =
    AReady ready_invoice
  | ASubmitted submitted_invoice
  | AFinalized finalized_invoice
  | ARejected rejected_invoice
  | AStuck submission_stuck_invoice
  | AAbandoned abandoned_invoice

datatype invoice_action = Submit string | Finalize | Reject | MarkStuck | Abandon

fun invoice_next :: "any_invoice \<Rightarrow> invoice_action \<Rightarrow> unit + any_invoice" where
  "invoice_next (AReady i) (Submit tx) = Inr (ASubmitted (into_submitted i tx))"
| "invoice_next (ASubmitted i) Finalize = Inr (AFinalized (into_finalized i))"
| "invoice_next (ASubmitted i) Reject = Inr (ARejected (into_rejected i))"
| "invoice_next (ASubmitted i) MarkStuck = Inr (AStuck (into_submission_stuck i))"
| "invoice_next (AStuck i) Abandon = Inr (AAbandoned (into_abandoned i))"
| "invoice_next _ _ = Inl ()"

fun invoice_terminal :: "any_invoice \<Rightarrow> bool" where
  "invoice_terminal (AFinalized _) = True"
| "invoice_terminal (ARejected _) = True"
| "invoice_terminal (AAbandoned _) = True"
| "invoice_terminal _ = False"

fun any_total_gross :: "decimal_env \<Rightarrow> any_invoice \<Rightarrow> huf option" where
  "any_total_gross d (AReady i) = ri_total_gross d i"
| "any_total_gross d (ASubmitted i) = si_total_gross d i"
| "any_total_gross d (AFinalized i) = fi_total_gross d i"
| "any_total_gross d (ARejected i) = rj_total_gross d i"
| "any_total_gross d (AStuck i) = st_total_gross d i"
| "any_total_gross d (AAbandoned i) = ab_total_gross d i"

text \<open>What an invoice is, whatever its stage: identity, number, parties, date and lines.\<close>

fun invoice_facts ::
  "any_invoice \<Rightarrow> invoice_id \<times> series_id \<times> customer_id \<times> line_item list \<times> int \<times> nat \<times> int" where
  "invoice_facts (AReady i) = (ri_id i, ri_series_id i, ri_customer_id i, ri_lines i,
     ri_issue_date i, ri_sequence_number i, ri_fiscal_year i)"
| "invoice_facts (ASubmitted i) = (si_id i, si_series_id i, si_customer_id i, si_lines i,
     si_issue_date i, si_sequence_number i, si_fiscal_year i)"
| "invoice_facts (AFinalized i) = (fi_id i, fi_series_id i, fi_customer_id i, fi_lines i,
     fi_issue_date i, fi_sequence_number i, fi_fiscal_year i)"
| "invoice_facts (ARejected i) = (rj_id i, rj_series_id i, rj_customer_id i, rj_lines i,
     rj_issue_date i, rj_sequence_number i, rj_fiscal_year i)"
| "invoice_facts (AStuck i) = (st_id i, st_series_id i, st_customer_id i, st_lines i,
     st_issue_date i, st_sequence_number i, st_fiscal_year i)"
| "invoice_facts (AAbandoned i) = (ab_id i, ab_series_id i, ab_customer_id i, ab_lines i,
     ab_issue_date i, ab_sequence_number i, ab_fiscal_year i)"

lemmas total_gross_defs =
  ri_total_gross_def si_total_gross_def fi_total_gross_def rj_total_gross_def st_total_gross_def
  ab_total_gross_def

lemmas into_defs =
  into_submitted_def into_finalized_def into_rejected_def into_submission_stuck_def
  into_abandoned_def

lemma any_total_gross_facts:
  "any_total_gross d i = (case invoice_facts i of (_, _, _, ls, _) \<Rightarrow> try_fold_gross d HUF_ZERO ls)"
  by (cases i) (simp_all add: total_gross_defs)

lemma invoice_next_facts: "invoice_next i a = Inr j \<Longrightarrow> invoice_facts j = invoice_facts i"
  by (cases "(i, a)" rule: invoice_next.cases) (auto simp: into_defs)

interpretation stages: lifecycle invoice_next invoice_terminal
proof
  show "invoice_next s a \<noteq> Inr t" if "invoice_terminal s" for s a t
    using that by (cases s) simp_all
  show "\<exists>a t. invoice_next s a = Inr t" if "\<not> invoice_terminal s" for s
  proof (cases s)
    case (AReady i)
    then have "invoice_next s (Submit []) = Inr (ASubmitted (into_submitted i []))" by simp
    then show ?thesis by blast
  next
    case (ASubmitted i)
    then have "invoice_next s Finalize = Inr (AFinalized (into_finalized i))" by simp
    then show ?thesis by blast
  next
    case (AStuck i)
    then have "invoice_next s Abandon = Inr (AAbandoned (into_abandoned i))" by simp
    then show ?thesis by blast
  qed (use that in simp_all)
qed

lemma run_from_stuck:
  "run_actions invoice_next as (AStuck i) = Inr t \<longleftrightarrow>
   (as = [] \<and> t = AStuck i) \<or> (as = [Abandon] \<and> t = AAbandoned (into_abandoned i))"
proof (cases as)
  case Nil
  then show ?thesis by (auto simp: run_actions_def)
next
  case (Cons a bs)
  then show ?thesis
    using stages.run_terminal [of "AAbandoned (into_abandoned i)" bs t]
    by (cases a) (auto simp: run_actions_def)
qed

lemma run_from_submitted:
  "run_actions invoice_next as (ASubmitted i) = Inr t \<longleftrightarrow>
   (as = [] \<and> t = ASubmitted i) \<or>
   (as = [Finalize] \<and> t = AFinalized (into_finalized i)) \<or>
   (as = [Reject] \<and> t = ARejected (into_rejected i)) \<or>
   (as = [MarkStuck] \<and> t = AStuck (into_submission_stuck i)) \<or>
   (as = [MarkStuck, Abandon] \<and> t = AAbandoned (into_abandoned (into_submission_stuck i)))"
proof (cases as)
  case Nil
  then show ?thesis by (auto simp: run_actions_def)
next
  case (Cons a bs)
  then show ?thesis
    using stages.run_terminal [of "AFinalized (into_finalized i)" bs t]
      stages.run_terminal [of "ARejected (into_rejected i)" bs t]
      run_from_stuck [of bs "into_submission_stuck i" t]
    by (cases a) (auto simp: run_actions_def)
qed

section \<open>Properties\<close>

text \<open>
  whatever transitions an invoice goes through, its id, series, customer, lines, issue
  date, number and fiscal year stay what they were, and so does its gross total.
\<close>

theorem invoice_stages_preserve_facts:
  assumes "run_actions invoice_next as i = Inr j"
  shows "invoice_facts j = invoice_facts i \<and> any_total_gross d j = any_total_gross d i"
proof -
  have "invoice_facts j = invoice_facts i"
    using fold_res_inv [of "\<lambda>a s. invoice_next s a" as i j "\<lambda>s. invoice_facts s = invoice_facts i"]
      assms invoice_next_facts by (auto simp: run_actions_def)
  then show ?thesis by (simp add: any_total_gross_facts)
qed

text \<open>
  a numbered invoice is abandoned only after it was submitted and reported stuck, it is
  finalized or rejected only straight after submission, and each of these keeps the transaction
  id of that one submission; from there no further transition exists.
\<close>

theorem invoice_end_states:
  assumes "run_actions invoice_next as (AReady i) = Inr j" and "invoice_terminal j"
  shows "\<exists>tx. (as = [Submit tx, MarkStuck, Abandon] \<and>
             (\<exists>a. j = AAbandoned a \<and> ab_nav_transaction_id a = tx)) \<or>
            (as = [Submit tx, Finalize] \<and> (\<exists>a. j = AFinalized a \<and> fi_nav_transaction_id a = tx)) \<or>
            (as = [Submit tx, Reject] \<and> (\<exists>a. j = ARejected a \<and> rj_nav_transaction_id a = tx))"
proof (cases as)
  case Nil
  then show ?thesis using assms by (auto simp: run_actions_def)
next
  case (Cons a bs)
  then obtain tx where a: "a = Submit tx" using assms(1) by (cases a) (auto simp: run_actions_def)
  have "run_actions invoice_next bs (ASubmitted (into_submitted i tx)) = Inr j"
    using assms(1) by (simp add: run_actions_def Cons a)
  then show ?thesis using assms(2) unfolding run_from_submitted
    by (auto simp: Cons a into_defs)
qed

definition demo_line :: line_item where
  "demo_line = \<lparr>li_description = ''part'', li_quantity = 3 / 2, li_unit_price = Huf 1001,
     li_vat_bp = 2700, li_vat_kind = Percent, li_note = None, li_unit = None\<rparr>"

definition demo_ready :: ready_invoice where
  "demo_ready = \<lparr>ri_id = InvoiceId 1, ri_series_id = SeriesId 1, ri_customer_id = CustomerId 1,
     ri_lines = [demo_line], ri_issue_date = 0, ri_payment_deadline = 8, ri_delivery_date = 0,
     ri_sequence_number = 7, ri_fiscal_year = 2026\<rparr>"

theorem invoice_stages_preserve_facts_witness:
  "invoice_facts (AAbandoned (into_abandoned (into_submission_stuck (into_submitted demo_ready ''tx'')))) =
   invoice_facts (AReady demo_ready)"
proof -
  have "run_actions invoice_next [Submit ''tx'', MarkStuck, Abandon] (AReady demo_ready) =
    Inr (AAbandoned (into_abandoned (into_submission_stuck (into_submitted demo_ready ''tx''))))"
    by (simp add: run_actions_def)
  from invoice_stages_preserve_facts [OF this] show ?thesis by blast
qed

theorem invoice_end_states_witness:
  "\<exists>tx. [Submit ''tx'', Finalize] = [Submit tx, Finalize] \<and>
     fi_nav_transaction_id (into_finalized (into_submitted demo_ready ''tx'')) = tx"
  using invoice_end_states [of "[Submit ''tx'', Finalize]" demo_ready
      "AFinalized (into_finalized (into_submitted demo_ready ''tx''))"]
  by (simp add: run_actions_def)

section \<open>Line arithmetic\<close>

definition line_exact :: "line_item \<Rightarrow> bool" where
  "line_exact l \<longleftrightarrow> dec_exact (of_int (huf_as_i64 (li_unit_price l)) * li_quantity l)"

definition vat_rate :: "line_item \<Rightarrow> rat" where
  "vat_rate l = (if is_percent (li_vat_kind l) then of_nat (li_vat_bp l) / 10000 else 0)"

lemma net_total_exact:
  assumes "decimal_ok d" and "line_exact l"
  shows "net_total d l =
    map_option Huf (i64_checked (round_half_even (of_int (huf_as_i64 (li_unit_price l)) * li_quantity l)))"
  using assms by (simp add: net_total_def huf_checked_mul_decimal_def line_exact_def decimal_ok_simps)

lemma tdiv_error:
  "0 < b \<Longrightarrow> \<bar>of_int (tdiv a b) - of_int a / of_int b\<bar> < (1 :: rat)"
proof -
  assume b: "0 < b"
  have pos: "\<bar>of_int (a div b) - of_int a / of_int b\<bar> < (1 :: rat)" for a
  proof -
    have "of_int a = of_int (a div b) * of_int b + (of_int (a mod b) :: rat)"
      by (metis of_int_add of_int_mult div_mult_mod_eq)
    then have "of_int a / of_int b - of_int (a div b) = (of_int (a mod b) / of_int b :: rat)"
      using b by (simp add: field_simps)
    moreover have "0 \<le> (of_int (a mod b) / of_int b :: rat)" "(of_int (a mod b) / of_int b :: rat) < 1"
      using b pos_mod_bound [OF b, of a] by (simp_all)
    ultimately show ?thesis by linarith
  qed
  show ?thesis
  proof (cases "0 \<le> a")
    case True
    then show ?thesis using pos [of a] b by (simp add: tdiv_nonneg)
  next
    case False
    then have "of_int (tdiv a b) - of_int a / of_int b =
        - (of_int ((- a) div b) - of_int (- a) / (of_int b :: rat))"
      using b by (simp add: tdiv_neg)
    then show ?thesis using pos [of "- a"] by (simp only: abs_minus_cancel)
  qed
qed

lemma gross_total_cases:
  assumes "gross_total d l = Some g"
  obtains net v where "net_total d l = Some net" "vat_amount d l = Some v"
    "huf_as_i64 g = huf_as_i64 net + huf_as_i64 v" "in_i64 (huf_as_i64 g)"
  using assms by (auto simp: gross_total_def huf_checked_add_def split: option.splits)

text \<open>
  C29: for a line whose unit price times quantity is a decimal of at most 96 bits and 28 places, so that
  the decimal product is exact, the gross amount is within the rounding the code performs of its exact value:
  unit price times quantity rounded to the nearest forint (error at most one half), plus the VAT
  of that net amount cut to whole forints (error below one).
\<close>

theorem line_gross_error:
  assumes "decimal_ok d" and "line_exact l" and "gross_total d l = Some g"
  shows "\<bar>of_int (huf_as_i64 g) -
          of_int (huf_as_i64 (li_unit_price l)) * li_quantity l * (1 + vat_rate l)\<bar>
         < 1 + (1 + vat_rate l) / 2"
proof -
  let ?x = "of_int (huf_as_i64 (li_unit_price l)) * li_quantity l"
  from assms(3) obtain net v where n: "net_total d l = Some net" "vat_amount d l = Some v"
    "huf_as_i64 g = huf_as_i64 net + huf_as_i64 v" by (rule gross_total_cases)
  have net: "huf_as_i64 net = round_half_even ?x"
    using n(1) net_total_exact [OF assms(1,2)] by auto
  define N where "N = (of_int (round_half_even ?x) :: rat)"
  define V where "V = (of_int (huf_as_i64 v) :: rat)"
  have e1: "\<bar>N - ?x\<bar> \<le> 1 / 2" unfolding N_def by (rule round_half_even_error)
  have r0: "0 \<le> vat_rate l" by (simp add: vat_rate_def)
  have e2: "\<bar>V - N * vat_rate l\<bar> < 1"
  proof (cases "is_percent (li_vat_kind l)")
    case True
    then have "huf_as_i64 v = tdiv (round_half_even ?x * int (li_vat_bp l)) 10000"
      using n(1,2) net by (auto simp: vat_amount_def)
    then show ?thesis
      using tdiv_error [of 10000 "round_half_even ?x * int (li_vat_bp l)"] True
      by (simp add: V_def N_def vat_rate_def)
  next
    case False
    then show ?thesis using n(2) by (auto simp: vat_amount_def V_def vat_rate_def HUF_ZERO_def)
  qed
  have e3: "\<bar>(N - ?x) * (1 + vat_rate l)\<bar> \<le> 1 / 2 * (1 + vat_rate l)"
    using mult_right_mono [OF e1, of "1 + vat_rate l"] r0 by (simp add: abs_mult)
  have "of_int (huf_as_i64 g) - ?x * (1 + vat_rate l) =
      (V - N * vat_rate l) + (N - ?x) * (1 + vat_rate l)"
    by (simp add: n(3) net N_def V_def algebra_simps)
  then have "\<bar>of_int (huf_as_i64 g) - ?x * (1 + vat_rate l)\<bar> \<le>
      \<bar>V - N * vat_rate l\<bar> + \<bar>(N - ?x) * (1 + vat_rate l)\<bar>"
    using abs_triangle_ineq [of "V - N * vat_rate l" "(N - ?x) * (1 + vat_rate l)"] by simp
  then show ?thesis using e2 e3 by linarith
qed

definition demo_decimal :: decimal_env where
  "demo_decimal =
     \<lparr>dec_mul = (\<lambda>a b. Some (a * b)), dec_div = (\<lambda>a b. if b = 0 then None else Some (a / b)),
      dec_round0 = (\<lambda>x. of_int (round_half_even x)), dec_to_i64 = (\<lambda>x. i64_checked \<lfloor>x\<rfloor>)\<rparr>"

lemma demo_decimal_ok: "decimal_ok demo_decimal"
  by (simp add: decimal_ok_def demo_decimal_def)

lemma demo_line_exact: "line_exact demo_line"
  using dec_exactI [of "15015" 1] by (simp add: line_exact_def demo_line_def)

lemma demo_line_gross: "gross_total demo_decimal demo_line = Some (Huf 1907)"
proof -
  have "\<lfloor>3003 / 2 :: rat\<rfloor> = 1501" by (simp add: floor_eq_iff)
  then have "round_half_even (3003 / 2) = 1502"
    by (simp add: round_half_even_def Let_def)
  then have "net_total demo_decimal demo_line = Some (Huf 1502)"
    by (simp add: net_total_def huf_checked_mul_decimal_def demo_decimal_def demo_line_def
        in_i64_def i64_min_def i64_max_def)
  then show ?thesis
    by (simp add: gross_total_def vat_amount_def)
       (simp add: demo_line_def is_percent_def huf_checked_add_def i64_checked_def i64_min_def
          i64_max_def tdiv_def)
qed

theorem line_gross_error_witness:
  "\<bar>of_int 1907 - of_int (huf_as_i64 (li_unit_price demo_line)) * li_quantity demo_line *
       (1 + vat_rate demo_line)\<bar> < 1 + (1 + vat_rate demo_line) / 2"
  using line_gross_error [OF demo_decimal_ok demo_line_exact demo_line_gross] by simp

text \<open>The credit note of a line: the same line with the opposite unit price.\<close>

definition negate_line :: "line_item \<Rightarrow> line_item" where
  "negate_line l = l\<lparr>li_unit_price := Huf (- huf_as_i64 (li_unit_price l))\<rparr>"

lemma round_half_even_minus: "round_half_even (- x) = - round_half_even x"
proof (cases "x = of_int \<lfloor>x\<rfloor>")
  case True
  then have "round_half_even (- x) = round_half_even (of_int (- \<lfloor>x\<rfloor>))" by simp
  moreover have "round_half_even x = round_half_even (of_int \<lfloor>x\<rfloor>)" using True by simp
  ultimately show ?thesis by (simp only: round_half_even_of_int)
next
  case False
  have b: "of_int \<lfloor>x\<rfloor> < x" "x < of_int \<lfloor>x\<rfloor> + 1" using False by linarith+
  then have "\<lfloor>- x\<rfloor> = - \<lfloor>x\<rfloor> - 1" by linarith
  then show ?thesis using b by (auto simp: round_half_even_def Let_def)
qed

lemma in_i64_minus: "n \<noteq> i64_min \<Longrightarrow> - n \<noteq> i64_min \<Longrightarrow> in_i64 (- n) = in_i64 n"
  by (auto simp: in_i64_def i64_min_def i64_max_def)

lemma gross_total_exact:
  assumes "decimal_ok d" and "line_exact l"
  defines "n \<equiv> round_half_even (of_int (huf_as_i64 (li_unit_price l)) * li_quantity l)"
  defines "v \<equiv> (if is_percent (li_vat_kind l) then tdiv (n * int (li_vat_bp l)) 10000 else 0)"
  shows "gross_total d l =
    (if in_i64 n \<and> (is_percent (li_vat_kind l) \<longrightarrow> in_i64 (n * int (li_vat_bp l))) \<and> in_i64 (n + v)
     then Some (Huf (n + v)) else None)"
proof -
  have net: "net_total d l = (if in_i64 n then Some (Huf n) else None)"
    using net_total_exact [OF assms(1,2)]
    by (simp add: n_def i64_checked_def in_i64_def)
  show ?thesis
    unfolding gross_total_def vat_amount_def net
    by (auto simp: v_def huf_checked_add_def HUF_ZERO_def i64_checked_def in_i64_def)
qed

text \<open>
  VAT is cut towards zero, so a credit line mirrors the line it reverses exactly: its gross
  amount is the negative of the original's, and the two cancel out (for the amounts whose
  negation is again a 64-bit amount).
\<close>

theorem credit_line_mirrors:
  assumes "decimal_ok d" and "line_exact l" and "gross_total d l = Some g"
    and "\<bar>huf_as_i64 g\<bar> < 2 ^ 63" and "\<bar>of_int (huf_as_i64 (li_unit_price l)) * li_quantity l\<bar> < 2 ^ 46"
    and "li_vat_bp l < 2 ^ 16"
  shows "gross_total d (negate_line l) = Some (Huf (- huf_as_i64 g))"
proof -
  let ?x = "of_int (huf_as_i64 (li_unit_price l)) * li_quantity l"
  define n where "n = round_half_even ?x"
  define v where "v = (if is_percent (li_vat_kind l) then tdiv (n * int (li_vat_bp l)) 10000 else 0)"
  have ex: "line_exact (negate_line l)"
  proof -
    obtain m s where "\<bar>m\<bar> < 2 ^ 96" "s \<le> 28" "?x = of_int m / 10 ^ s"
      using assms(2) by (auto simp: line_exact_def dec_exact_def)
    then have "dec_exact (- ?x)" using dec_exactI [of "- m" s] by simp
    then show ?thesis by (simp add: line_exact_def negate_line_def)
  qed
  have n: "\<bar>n\<bar> < 2 ^ 47"
  proof -
    have "\<bar>of_int n - ?x\<bar> \<le> 1 / 2" unfolding n_def by (rule round_half_even_error)
    moreover have "\<bar>of_int n\<bar> \<le> \<bar>of_int n - ?x\<bar> + \<bar>?x\<bar>"
      using abs_triangle_ineq [of "of_int n - ?x" ?x] by simp
    ultimately have "\<bar>of_int n :: rat\<bar> < 1 / 2 + 2 ^ 46" using assms(5) by linarith
    then have "\<bar>of_int n :: rat\<bar> < 2 ^ 47" by simp
    then have "(of_int \<bar>n\<bar> :: rat) < of_int (2 ^ 47)" by simp
    then show ?thesis by (simp only: of_int_less_iff)
  qed
  have nb: "\<bar>n * int (li_vat_bp l)\<bar> < 2 ^ 63"
  proof -
    have "\<bar>n\<bar> * int (li_vat_bp l) \<le> 2 ^ 47 * int (li_vat_bp l)"
      using n by (intro mult_right_mono) simp_all
    also have "\<dots> < 2 ^ 47 * 2 ^ 16" using assms(6) by simp
    finally show ?thesis by (simp add: abs_mult)
  qed
  have g: "huf_as_i64 g = n + v"
    using assms(3) gross_total_exact [OF assms(1,2)]
    by (auto simp: n_def v_def split: if_splits)
  have neg: "of_int (huf_as_i64 (li_unit_price (negate_line l))) * li_quantity (negate_line l) = - ?x"
    "li_vat_kind (negate_line l) = li_vat_kind l" "li_vat_bp (negate_line l) = li_vat_bp l"
    by (simp_all add: negate_line_def)
  have r: "round_half_even (- ?x) = - n" by (simp add: n_def round_half_even_minus)
  have t: "tdiv (- n * int (li_vat_bp l)) 10000 = - tdiv (n * int (li_vat_bp l)) 10000"
    by (simp add: tdiv_minus)
  have "in_i64 (- n)" "in_i64 (- n * int (li_vat_bp l))" "in_i64 (- n + - v)" "in_i64 (- v - n)"
    using n nb assms(4) g by (auto simp: in_i64_def i64_min_def i64_max_def)
  then show ?thesis
    using gross_total_exact [OF assms(1) ex] g unfolding neg r t
    by (auto simp: v_def)
qed

theorem credit_line_mirrors_witness:
  "gross_total demo_decimal (negate_line demo_line) = Some (Huf (- 1907))"
  using credit_line_mirrors [OF demo_decimal_ok demo_line_exact demo_line_gross]
  by (simp add: demo_line_def)

section \<open>Totals\<close>

lemma try_fold_gross_iff:
  "try_fold_gross d acc ls = Some t \<longleftrightarrow>
   (\<exists>gs. map (gross_total d) ls = map Some gs \<and>
      huf_as_i64 t = huf_as_i64 acc + (\<Sum>g \<leftarrow> gs. huf_as_i64 g) \<and>
      (\<forall>k < length gs. in_i64 (huf_as_i64 acc + (\<Sum>g \<leftarrow> take (Suc k) gs. huf_as_i64 g))))"
proof (induction ls arbitrary: acc)
  case Nil
  then show ?case by (auto intro: huf.expand)
next
  case (Cons l ls)
  show ?case
  proof (cases "gross_total d l")
    case None
    then show ?thesis by (auto simp: Cons_eq_map_conv)
  next
    case (Some g)
    let ?a = "huf_as_i64 acc + huf_as_i64 g"
    have "(\<exists>hs. map (gross_total d) (l # ls) = map Some hs \<and> P hs) \<longleftrightarrow>
        (\<exists>gs. map (gross_total d) ls = map Some gs \<and> P (g # gs))" for P
      using Some by (auto simp: Cons_eq_map_conv)
    then show ?thesis
      using Cons.IH [of "Huf ?a"] Some
      by (simp add: huf_checked_add_def i64_checked_def in_i64_def [symmetric] All_less_Suc2
          add.assoc)
  qed
qed

text \<open>
  The gross total of an invoice is the exact sum of its lines' gross amounts, it is present
  only if every line has one, and no partial sum left the 64-bit range on the way.
\<close>

theorem invoice_total_is_sum:
  "ri_total_gross d i = Some t \<longleftrightarrow>
   (\<exists>gs. map (gross_total d) (ri_lines i) = map Some gs \<and>
      huf_as_i64 t = (\<Sum>g \<leftarrow> gs. huf_as_i64 g) \<and>
      (\<forall>k < length gs. in_i64 (\<Sum>g \<leftarrow> take (Suc k) gs. huf_as_i64 g)))"
  by (simp add: ri_total_gross_def try_fold_gross_iff HUF_ZERO_def)

lemma invoice_total_is_sum_witness:
  "ri_total_gross demo_decimal (demo_ready\<lparr>ri_lines := [demo_line, demo_line]\<rparr>) = Some (Huf 3814)"
proof -
  have "in_i64 (\<Sum>g \<leftarrow> take (Suc k) [Huf 1907, Huf 1907]. huf_as_i64 g)" if "k < 2" for k
    using that by (cases k) (auto simp: in_i64_def i64_min_def i64_max_def)
  then show ?thesis
    unfolding invoice_total_is_sum
    by (intro exI [of _ "[Huf 1907, Huf 1907]"]) (simp add: demo_line_gross)
qed

text \<open>
  A delivery date is classified by its place relative to the invoice date and the payment
  deadline, in every case, and an inverted window has no class.
\<close>

theorem delivery_date_classes:
  "classify_delivery_date issued due delivered = Some z \<longleftrightarrow>
     issued \<le> due \<and>
     (z = BeforeInvoiceDate \<longleftrightarrow> delivered < issued) \<and>
     (z = AfterPaymentDeadline \<longleftrightarrow> due < delivered) \<and>
     (z = InRange \<longleftrightarrow> issued \<le> delivered \<and> delivered \<le> due)"
  by (cases z) (auto simp: classify_delivery_date_def)

text \<open>
  The forint equivalent of a euro amount is its exact conversion rounded to the nearest
  forint, whenever the product fits the decimal type and the result 64 bits.
\<close>

theorem huf_equivalent_rounds:
  assumes "decimal_ok d" and "dec_exact (of_int cents * rate)" and "dec_exact (of_int cents * rate / 100)"
    and "huf_equivalent_round_half_even d cents rate = Some n"
  shows "\<bar>of_int n - of_int cents * rate / 100\<bar> \<le> 1 / 2"
  using assms round_half_even_error [of "of_int cents * rate / 100"]
  by (auto simp: huf_equivalent_round_half_even_def decimal_ok_simps)

theorem huf_equivalent_rounds_witness:
  "\<bar>of_int 392 - of_int 100 * (783 / 2) / 100\<bar> \<le> (1 / 2 :: rat)"
proof -
  have f: "\<lfloor>783 / 2 :: rat\<rfloor> = 391" by (simp add: floor_eq_iff)
  have "dec_exact (of_int 100 * (783 / 2))" using dec_exactI [of 39150 0] by simp
  moreover have "dec_exact (of_int 100 * (783 / 2) / 100)" using dec_exactI [of 3915 1] by simp
  moreover have "huf_equivalent_round_half_even demo_decimal 100 (783 / 2) = Some 392"
    by (simp add: huf_equivalent_round_half_even_def demo_decimal_def round_half_even_def Let_def f
        in_i64_def i64_min_def i64_max_def)
  ultimately show ?thesis by (rule huf_equivalent_rounds [OF demo_decimal_ok])
qed

lemma eur_display_form:
  assumes "eur_display e = Some s"
  shows "s = ((if as_cents e < 0 then ''-'' else '''') @ show_nat (nat \<bar>as_cents e\<bar> div 100)) @
             (''.'' @ show_02 (nat \<bar>as_cents e\<bar> mod 100) @ '' EUR'')"
  using assms
  by (auto simp: eur_display_def Let_def show_nat.simps [of 0] show_02_def digit_char_def
      split: if_splits)

lemma length_show_02: "length (show_02 n) = 2"
  by (simp add: show_02_def)

text \<open>
  The printed form of a euro amount identifies it: two amounts never print alike.
\<close>

theorem eur_display_distinguishes:
  assumes "eur_display a = Some s" and "eur_display b = Some s"
  shows "a = b"
proof -
  define p q where "p = nat \<bar>as_cents a\<bar>" and "q = nat \<bar>as_cents b\<bar>"
  have eq: "((if as_cents a < 0 then ''-'' else '''') @ show_nat (p div 100)) @
      (''.'' @ show_02 (p mod 100) @ '' EUR'') =
    ((if as_cents b < 0 then ''-'' else '''') @ show_nat (q div 100)) @
      (''.'' @ show_02 (q mod 100) @ '' EUR'')"
    using eur_display_form [OF assms(1)] eur_display_form [OF assms(2)] unfolding p_def q_def by simp
  have "length (''.'' @ show_02 (p mod 100) @ '' EUR'') = length (''.'' @ show_02 (q mod 100) @ '' EUR'')"
    by (simp add: length_show_02)
  note parts = iffD1 [OF append_eq_append_conv [OF disjI2 [OF this]] eq]
  note heads = conjunct1 [OF parts]
  from conjunct2 [OF parts] have tails: "show_02 (p mod 100) = show_02 (q mod 100)" by simp
  have sign: "as_cents a < 0 \<longleftrightarrow> as_cents b < 0"
  proof (cases "as_cents a < 0"; cases "as_cents b < 0")
    assume "as_cents a < 0" "\<not> as_cents b < 0"
    with heads have "show_nat (q div 100) = ''-'' @ show_nat (p div 100)" by simp
    then show ?thesis using show_nat_not_minus by blast
  next
    assume "\<not> as_cents a < 0" "as_cents b < 0"
    with heads have "show_nat (p div 100) = ''-'' @ show_nat (q div 100)" by simp
    then show ?thesis using show_nat_not_minus by blast
  qed simp_all
  then have "p div 100 = q div 100" using heads by (simp add: show_nat_inject split: if_splits)
  moreover have "p mod 100 = q mod 100" using tails by (simp add: show_02_inject)
  ultimately have "p = q" by (metis div_mult_mod_eq)
  then have "as_cents a = as_cents b" using sign by (auto simp: p_def q_def)
  then show ?thesis by (rule eur.expand)
qed

theorem eur_display_distinguishes_witness:
  "eur_display (Eur (- 1999)) = Some ''-19.99 EUR'' \<and> Eur (- 1999) = Eur (- 1999)"
proof -
  have "eur_display (Eur (- 1999)) = Some ''-19.99 EUR''"
    by (simp add: eur_display_def i64_min_def Let_def show_nat.simps show_02_def digit_char_def)
  with eur_display_distinguishes [OF this this] show ?thesis by simp
qed

end
