(* ===== verification/Billing_Store.thy ===== *)
theory Billing_Store
  imports Billing_Invoice "HOL-Library.Product_Lexorder"
begin

text \<open>
  The storage port of billing (modules/billing/src/ports/storage.rs), its in-memory adapter
  (adapters/in_memory_store.rs) and the use case \<open>handle\<close> (app/issue_invoice.rs), which
  is written against the port. The locale \<open>billing_store\<close> states the port's contract;
  the laws of \<open>handle\<close> are proved in it and hold of the in-memory store by
  interpretation. A hash map is a partial map, a \<open>u64\<close> a natural number whose bound is
  part of the store's invariant. ULIDs that an operation draws are arguments.
\<close>

section \<open>The port\<close>

datatype billing_error =
    StorageError string
  | Invalid string
  | SeriesNotFound string
  | CorruptRow nat string
  | MoneyOverflow nat
  | TimeFormat
  | TimeParse

type_synonym idem_key = nat

record allocate_args =
  aa_series_id :: series_id
  aa_draft :: draft_invoice
  aa_key :: idem_key
  aa_currency :: currency
  aa_rate_metadata :: "rate_metadata option"
  aa_bank_snapshot :: "bank_account_snapshot option"
  aa_invoice_note :: "string option"
  aa_email_override :: "string option"
  aa_start_value :: nat
  aa_sequence_floor :: "nat option"

datatype allocate_outcome =
    Fresh ready_invoice sequence_reservation
  | Replay ready_invoice sequence_reservation

record billing_env =
  be_decimal :: decimal_env
  be_year :: "int \<Rightarrow> int" \<comment> \<open>\<open>OffsetDateTime::year\<close>\<close>
  be_date :: "int \<Rightarrow> int" \<comment> \<open>\<open>OffsetDateTime::date\<close>, as a day number\<close>

section \<open>The in-memory store\<close>

record mem_store =
  series_by_id :: "series_id \<rightharpoonup> invoice_series"
  series_by_code :: "string \<rightharpoonup> series_id"
  next_number :: "series_id \<times> int \<rightharpoonup> nat"
  reservations :: "sequence_reservation list"
  invoices :: "invoice_id \<rightharpoonup> ready_invoice"
  idempotency :: "idem_key \<rightharpoonup> invoice_id \<times> reservation_id"

definition mem_new :: mem_store where
  "mem_new = \<lparr>series_by_id = Map.empty, series_by_code = Map.empty, next_number = Map.empty,
              reservations = [], invoices = Map.empty, idempotency = Map.empty\<rparr>"

definition mem_create_series :: "invoice_series \<Rightarrow> mem_store \<Rightarrow> billing_error + mem_store" where
  "mem_create_series sr s =
     (let code = series_code_str (is_code sr)
      in if series_by_code s code \<noteq> None then Inl (Invalid ''series code already exists'')
         else Inr (s\<lparr>series_by_code := (series_by_code s)(code \<mapsto> is_id sr),
                     series_by_id := (series_by_id s)(is_id sr \<mapsto> sr)\<rparr>))"

definition mem_find_series_by_code :: "series_code \<Rightarrow> mem_store \<Rightarrow> invoice_series option" where
  "mem_find_series_by_code c s =
     (case series_by_code s (series_code_str c) of None \<Rightarrow> None | Some i \<Rightarrow> series_by_id s i)"

definition mem_find_series_by_id :: "series_id \<Rightarrow> mem_store \<Rightarrow> invoice_series option" where
  "mem_find_series_by_id i s = series_by_id s i"

definition mem_update_series_reset_policy ::
  "series_id \<Rightarrow> reset_policy \<Rightarrow> mem_store \<Rightarrow> billing_error + mem_store" where
  "mem_update_series_reset_policy i p s =
     (case series_by_id s i of
        Some sr \<Rightarrow> Inr (s\<lparr>series_by_id := (series_by_id s)(i \<mapsto> sr\<lparr>is_reset_policy := p\<rparr>)\<rparr>)
      | None \<Rightarrow> Inl (SeriesNotFound ''<unknown id>''))"

definition fiscal_year_of :: "billing_env \<Rightarrow> reset_policy \<Rightarrow> int \<Rightarrow> int" where
  "fiscal_year_of be p issue_date =
     (case p of Never \<Rightarrow> 0 | AnnualOnFiscalYear \<Rightarrow> be_year be issue_date)"

definition ready_of_draft :: "draft_invoice \<Rightarrow> nat \<Rightarrow> int \<Rightarrow> ready_invoice" where
  "ready_of_draft dr n fy =
     \<lparr>ri_id = di_id dr, ri_series_id = di_series_id dr, ri_customer_id = di_customer_id dr,
      ri_lines = di_lines dr, ri_issue_date = di_issue_date dr,
      ri_payment_deadline = di_payment_deadline dr, ri_delivery_date = di_delivery_date dr,
      ri_sequence_number = n, ri_fiscal_year = fy\<rparr>"

text \<open>
  The allocator. The bucket's counter is created before the overflow check, so the store is
  changed on that error path too: the operation answers a result and the store it leaves.
\<close>

definition mem_allocate_and_insert ::
  "billing_env \<Rightarrow> reservation_id \<Rightarrow> allocate_args \<Rightarrow> int \<Rightarrow> mem_store \<Rightarrow>
   (billing_error + allocate_outcome) \<times> mem_store" where
  "mem_allocate_and_insert be rid args now s =
     (case idempotency s (aa_key args) of
        Some (iid, prior) \<Rightarrow>
          (case invoices s iid of
             None \<Rightarrow> (Inl (Invalid ''idempotency cache points to missing invoice''), s)
           | Some ivc \<Rightarrow>
               (case find (\<lambda>r. sr_id r = prior) (reservations s) of
                  None \<Rightarrow> (Inl (Invalid ''idempotency cache points to missing reservation''), s)
                | Some res \<Rightarrow> (Inr (Replay ivc res), s)))
      | None \<Rightarrow>
          (case series_by_id s (aa_series_id args) of
             None \<Rightarrow> (Inl (SeriesNotFound ''<unknown id>''), s)
           | Some sr \<Rightarrow>
               (let fy = fiscal_year_of be (is_reset_policy sr) (di_issue_date (aa_draft args));
                    seed = (case next_number s (aa_series_id args, fy) of
                              Some n \<Rightarrow> n | None \<Rightarrow> max (aa_start_value args) 1);
                    s1 = s\<lparr>next_number := (next_number s)((aa_series_id args, fy) \<mapsto> seed)\<rparr>;
                    allocated = max (max seed (aa_start_value args))
                                    (case aa_sequence_floor args of Some f \<Rightarrow> f | None \<Rightarrow> 0)
                in if allocated + 1 > u64_max
                   then (Inl (Invalid ''sequence counter overflowed u64::MAX (impossible in practice)''), s1)
                   else
                     (let ivc = ready_of_draft (aa_draft args) allocated fy;
                          res = \<lparr>sr_id = rid, sr_series_id = is_id sr, sr_fiscal_year = fy,
                                 sr_number = allocated, sr_invoice_id = ri_id ivc,
                                 sr_status = Reserved, sr_void_reason = None,
                                 sr_reserved_at = now, sr_used_at = None, sr_voided_at = None\<rparr>
                      in (Inr (Fresh ivc res),
                          s1\<lparr>next_number := (next_number s1)((aa_series_id args, fy) \<mapsto> allocated + 1),
                             invoices := (invoices s1)(ri_id ivc \<mapsto> ivc),
                             reservations := reservations s1 @ [res],
                             idempotency := (idempotency s1)(aa_key args \<mapsto> (ri_id ivc, rid))\<rparr>)))))"

fun update_first :: "('a \<Rightarrow> bool) \<Rightarrow> ('a \<Rightarrow> 'a) \<Rightarrow> 'a list \<Rightarrow> 'a list" where
  \<comment> \<open>\<open>iter_mut().find(p)\<close> and an assignment through the reference\<close>
  "update_first p f [] = []"
| "update_first p f (x # xs) = (if p x then f x # xs else x # update_first p f xs)"

definition mem_void_reservation ::
  "invoice_id \<Rightarrow> string \<Rightarrow> int \<Rightarrow> mem_store \<Rightarrow> billing_error + mem_store" where
  "mem_void_reservation iid reason voided_at s =
     (case find (\<lambda>r. sr_invoice_id r = iid) (reservations s) of
        None \<Rightarrow> Inl (Invalid ''no reservation found for that invoice_id'')
      | Some r \<Rightarrow>
          (if sr_status r \<noteq> Reserved then Inl (Invalid ''only Reserved reservations may be Voided'')
           else Inr (s\<lparr>reservations :=
                  update_first (\<lambda>r. sr_invoice_id r = iid)
                    (\<lambda>r. r\<lparr>sr_status := Voided, sr_void_reason := Some reason,
                           sr_voided_at := Some voided_at\<rparr>) (reservations s)\<rparr>)))"

definition mem_list_reservations :: "series_id \<Rightarrow> mem_store \<Rightarrow> sequence_reservation list" where
  "mem_list_reservations sid s =
     sort_key (\<lambda>r. (sr_fiscal_year r, sr_number r))
       (filter (\<lambda>r. sr_series_id r = sid) (reservations s))"

section \<open>The invariant of the store\<close>

text \<open>The number of a reservation within its bucket.\<close>

definition number_key :: "sequence_reservation \<Rightarrow> series_id \<times> int \<times> nat" where
  "number_key r = (sr_series_id r, sr_fiscal_year r, sr_number r)"

text \<open>
  Series are filed under their own id; every reservation's number is at least one, below its
  bucket's counter and unique in its bucket; reservation ids and invoice ids are unique; and
  every idempotency key leads to an invoice and to the reservation that carries its number.
\<close>

definition mem_inv :: "mem_store \<Rightarrow> bool" where
  "mem_inv s \<longleftrightarrow>
     (\<forall>i sr. series_by_id s i = Some sr \<longrightarrow> is_id sr = i) \<and>
     (\<forall>b n. next_number s b = Some n \<longrightarrow> 1 \<le> n \<and> n \<le> u64_max) \<and>
     (\<forall>r \<in> set (reservations s). 1 \<le> sr_number r \<and>
        (\<exists>n. next_number s (sr_series_id r, sr_fiscal_year r) = Some n \<and> sr_number r < n)) \<and>
     distinct (map number_key (reservations s)) \<and>
     distinct (map sr_id (reservations s)) \<and>
     distinct (map sr_invoice_id (reservations s)) \<and>
     (\<forall>k iid rid. idempotency s k = Some (iid, rid) \<longrightarrow>
        (\<exists>ivc. invoices s iid = Some ivc \<and>
          (\<exists>r \<in> set (reservations s). sr_id r = rid \<and> sr_invoice_id r = iid \<and>
             sr_number r = ri_sequence_number ivc \<and> sr_fiscal_year r = ri_fiscal_year ivc)))"

lemma mem_invD:
  assumes "mem_inv s"
  shows "series_by_id s i = Some sr \<Longrightarrow> is_id sr = i"
    and "next_number s b = Some n \<Longrightarrow> 1 \<le> n \<and> n \<le> u64_max"
    and "r \<in> set (reservations s) \<Longrightarrow> 1 \<le> sr_number r"
    and "r \<in> set (reservations s) \<Longrightarrow>
           \<exists>n. next_number s (sr_series_id r, sr_fiscal_year r) = Some n \<and> sr_number r < n"
    and "distinct (map number_key (reservations s))" "distinct (map sr_id (reservations s))"
    and "distinct (map sr_invoice_id (reservations s))"
    and "idempotency s k = Some (iid, rid) \<Longrightarrow>
          \<exists>ivc. invoices s iid = Some ivc \<and>
          (\<exists>r \<in> set (reservations s). sr_id r = rid \<and> sr_invoice_id r = iid \<and>
             sr_number r = ri_sequence_number ivc \<and> sr_fiscal_year r = ri_fiscal_year ivc)"
  using assms unfolding mem_inv_def by blast+

lemma mem_inv_new: "mem_inv mem_new"
  by (simp add: mem_inv_def mem_new_def)

text \<open>ULIDs are fresh: an id drawn for an invoice or a reservation is not in use.\<close>

definition mem_fresh :: "invoice_id \<Rightarrow> reservation_id \<Rightarrow> mem_store \<Rightarrow> bool" where
  "mem_fresh iid rid s \<longleftrightarrow>
     invoices s iid = None \<and> iid \<notin> sr_invoice_id ` set (reservations s) \<and>
     rid \<notin> sr_id ` set (reservations s)"

text \<open>The number the allocator takes: the bucket's counter, or its seed, raised to the floors.\<close>

definition alloc_number :: "nat option \<Rightarrow> nat \<Rightarrow> nat option \<Rightarrow> nat" where
  "alloc_number c start_value sequence_floor =
     max (max (case c of Some n \<Rightarrow> n | None \<Rightarrow> max start_value 1) start_value)
         (case sequence_floor of Some f \<Rightarrow> f | None \<Rightarrow> 0)"

definition args_ok :: "allocate_args \<Rightarrow> bool" where
  "args_ok a \<longleftrightarrow> aa_start_value a \<le> u64_max \<and> di_series_id (aa_draft a) = aa_series_id a"

text \<open>What an idempotency key has produced so far.\<close>

definition mem_issued ::
  "mem_store \<Rightarrow> idem_key \<Rightarrow> (ready_invoice \<times> sequence_reservation) option" where
  "mem_issued s k =
     (case idempotency s k of
        None \<Rightarrow> None
      | Some (iid, rid) \<Rightarrow>
          (case (invoices s iid, find (\<lambda>r. sr_id r = rid) (reservations s)) of
             (Some ivc, Some r) \<Rightarrow> Some (ivc, r)
           | _ \<Rightarrow> None))"

lemma find_unique:
  "distinct (map k xs) \<Longrightarrow> x \<in> set xs \<Longrightarrow> find (\<lambda>y. k y = k x) xs = Some x"
  by (induction xs) (auto simp: image_iff)

lemma mem_issued_known:
  assumes "mem_inv s" and "idempotency s k = Some (iid, rid)"
  shows "\<exists>ivc r. mem_issued s k = Some (ivc, r) \<and> invoices s iid = Some ivc \<and>
    find (\<lambda>r. sr_id r = rid) (reservations s) = Some r \<and> sr_invoice_id r = iid \<and>
    sr_number r = ri_sequence_number ivc"
proof -
  from mem_invD(8) [OF assms] obtain ivc r where
    r: "invoices s iid = Some ivc" "r \<in> set (reservations s)" "sr_id r = rid" "sr_invoice_id r = iid"
      "sr_number r = ri_sequence_number ivc" by blast
  have "find (\<lambda>x. sr_id x = rid) (reservations s) = Some r"
    using find_unique [OF mem_invD(6) [OF assms(1)] r(2)] r(3) by simp
  with r assms(2) show ?thesis by (simp add: mem_issued_def)
qed

lemma mem_replay:
  assumes "mem_inv s" and "mem_issued s (aa_key args) = Some (ivc, r)"
  shows "mem_allocate_and_insert be rid args now s = (Inr (Replay ivc r), s)"
  using assms(2)
  by (auto simp: mem_issued_def mem_allocate_and_insert_def split: option.splits prod.splits)

lemma mem_issued_None: "mem_inv s \<Longrightarrow> mem_issued s k = None \<longleftrightarrow> idempotency s k = None"
proof (cases "idempotency s k")
  case (Some p)
  assume "mem_inv s"
  with Some mem_issued_known show ?thesis by (cases p) fastforce
qed (simp add: mem_issued_def)

lemma mem_alloc_cases:
  assumes "mem_inv s" and "mem_issued s (aa_key a) = None"
  obtains (unknown) "mem_allocate_and_insert be rid a now s = (Inl (SeriesNotFound ''<unknown id>''), s)"
  | (overflow) fy e n where
      "mem_allocate_and_insert be rid a now s =
         (Inl e, s\<lparr>next_number := (next_number s)((aa_series_id a, fy) \<mapsto> n)\<rparr>)"
      "n = (case next_number s (aa_series_id a, fy) of Some n \<Rightarrow> n | None \<Rightarrow> max (aa_start_value a) 1)"
  | (fresh) sr fy n ivc res where
      "series_by_id s (aa_series_id a) = Some sr"
      "fy = fiscal_year_of be (is_reset_policy sr) (di_issue_date (aa_draft a))"
      "n = alloc_number (next_number s (aa_series_id a, fy)) (aa_start_value a) (aa_sequence_floor a)"
      "n + 1 \<le> u64_max" "ivc = ready_of_draft (aa_draft a) n fy"
      "res = \<lparr>sr_id = rid, sr_series_id = is_id sr, sr_fiscal_year = fy, sr_number = n,
              sr_invoice_id = di_id (aa_draft a), sr_status = Reserved, sr_void_reason = None,
              sr_reserved_at = now, sr_used_at = None, sr_voided_at = None\<rparr>"
      "mem_allocate_and_insert be rid a now s =
         (Inr (Fresh ivc res),
          s\<lparr>next_number := (next_number s)((aa_series_id a, fy) \<mapsto> n + 1),
            invoices := (invoices s)(di_id (aa_draft a) \<mapsto> ivc),
            reservations := reservations s @ [res],
            idempotency := (idempotency s)(aa_key a \<mapsto> (di_id (aa_draft a), rid))\<rparr>)"
proof (cases "series_by_id s (aa_series_id a)")
  case None
  have "idempotency s (aa_key a) = None" using assms mem_issued_None by blast
  with None show ?thesis by (intro unknown) (simp add: mem_allocate_and_insert_def)
next
  case (Some sr)
  have k: "idempotency s (aa_key a) = None" using assms mem_issued_None by blast
  define fy where "fy = fiscal_year_of be (is_reset_policy sr) (di_issue_date (aa_draft a))"
  define seed where "seed =
    (case next_number s (aa_series_id a, fy) of Some n \<Rightarrow> n | None \<Rightarrow> max (aa_start_value a) 1)"
  define n where "n = alloc_number (next_number s (aa_series_id a, fy)) (aa_start_value a) (aa_sequence_floor a)"
  have n: "max (max seed (aa_start_value a)) (case aa_sequence_floor a of Some f \<Rightarrow> f | None \<Rightarrow> 0) = n"
    by (simp add: n_def seed_def alloc_number_def)
  show ?thesis
  proof (cases "n + 1 > u64_max")
    case True
    then show ?thesis
      using k Some n
      by (intro overflow [of "Invalid ''sequence counter overflowed u64::MAX (impossible in practice)''" fy seed])
         (simp_all add: mem_allocate_and_insert_def Let_def fy_def [symmetric] seed_def [symmetric])
  next
    case False
    have "ri_id (ready_of_draft (aa_draft a) n fy) = di_id (aa_draft a)" by (simp add: ready_of_draft_def)
    with k Some n False have
      "mem_allocate_and_insert be rid a now s =
         (Inr (Fresh (ready_of_draft (aa_draft a) n fy)
                \<lparr>sr_id = rid, sr_series_id = is_id sr, sr_fiscal_year = fy, sr_number = n,
                 sr_invoice_id = di_id (aa_draft a), sr_status = Reserved, sr_void_reason = None,
                 sr_reserved_at = now, sr_used_at = None, sr_voided_at = None\<rparr>),
          s\<lparr>next_number := (next_number s)((aa_series_id a, fy) \<mapsto> n + 1),
            invoices := (invoices s)(di_id (aa_draft a) \<mapsto> ready_of_draft (aa_draft a) n fy),
            reservations := reservations s @
              [\<lparr>sr_id = rid, sr_series_id = is_id sr, sr_fiscal_year = fy, sr_number = n,
                sr_invoice_id = di_id (aa_draft a), sr_status = Reserved, sr_void_reason = None,
                sr_reserved_at = now, sr_used_at = None, sr_voided_at = None\<rparr>],
            idempotency := (idempotency s)(aa_key a \<mapsto> (di_id (aa_draft a), rid))\<rparr>)"
      by (simp add: mem_allocate_and_insert_def Let_def fy_def [symmetric] seed_def [symmetric])
    then show ?thesis
      using False by (intro fresh [OF Some fy_def n_def _ refl refl]) simp_all
  qed
qed

section \<open>What the allocator keeps\<close>

definition mem_used :: "mem_store \<Rightarrow> (series_id \<times> int \<times> nat) set" where
  "mem_used s = number_key ` set (reservations s)"

lemma alloc_number_ge:
  "alloc_number (Some n) st fl \<ge> n" "1 \<le> alloc_number None st fl"
  by (auto simp: alloc_number_def)

lemma mem_inv_fresh:
  assumes s: "mem_inv s" and sr: "series_by_id s sid = Some sr"
    and n: "n = alloc_number (next_number s (sid, fy)) st fl" "n + 1 \<le> u64_max"
    and ids: "mem_fresh iid rid s"
    and ivc: "ri_sequence_number ivc = n" "ri_fiscal_year ivc = fy"
    and res: "sr_id res = rid" "sr_series_id res = is_id sr" "sr_fiscal_year res = fy"
      "sr_number res = n" "sr_invoice_id res = iid"
  shows "mem_inv (s\<lparr>next_number := (next_number s)((sid, fy) \<mapsto> n + 1),
                    invoices := (invoices s)(iid \<mapsto> ivc), reservations := reservations s @ [res],
                    idempotency := (idempotency s)(k \<mapsto> (iid, rid))\<rparr>)"
    and "number_key res \<notin> mem_used s"
proof -
  have sid: "is_id sr = sid" using mem_invD(1) [OF s sr] .
  have n1: "1 \<le> n"
  proof (cases "next_number s (sid, fy)")
    case None
    then show ?thesis using n(1) alloc_number_ge(2) [of st fl] by simp
  next
    case (Some m)
    then show ?thesis using n(1) alloc_number_ge(1) [of m st fl] mem_invD(2) [OF s Some] by simp
  qed
  have below: "sr_number r < n"
    if "r \<in> set (reservations s)" "sr_series_id r = sid" "sr_fiscal_year r = fy" for r
  proof -
    note h = that
    obtain m where m: "next_number s (sid, fy) = Some m" "sr_number r < m"
      using mem_invD(4) [OF s h(1)] h(2,3) by blast
    have "m \<le> n" using alloc_number_ge(1) [of m st fl] by (simp add: n(1) m(1))
    with m(2) show ?thesis by simp
  qed
  show used: "number_key res \<notin> mem_used s"
  proof
    assume "number_key res \<in> mem_used s"
    then obtain x where x: "x \<in> set (reservations s)" "number_key x = number_key res"
      unfolding mem_used_def by (metis imageE)
    then have "sr_series_id x = sid" "sr_fiscal_year x = fy" "sr_number x = n"
      using res sid by (simp_all add: number_key_def)
    with below [OF x(1)] show False by simp
  qed
  let ?s = "s\<lparr>next_number := (next_number s)((sid, fy) \<mapsto> n + 1),
              invoices := (invoices s)(iid \<mapsto> ivc), reservations := reservations s @ [res],
              idempotency := (idempotency s)(k \<mapsto> (iid, rid))\<rparr>"
  have a: "\<forall>b m. next_number ?s b = Some m \<longrightarrow> 1 \<le> m \<and> m \<le> u64_max"
    using mem_invD(2) [OF s] n(2) by simp
  have b: "\<forall>r \<in> set (reservations ?s). 1 \<le> sr_number r \<and>
        (\<exists>m. next_number ?s (sr_series_id r, sr_fiscal_year r) = Some m \<and> sr_number r < m)"
  proof
    fix r assume "r \<in> set (reservations ?s)"
    then consider "r \<in> set (reservations s)" | "r = res" by auto
    then show "1 \<le> sr_number r \<and>
        (\<exists>m. next_number ?s (sr_series_id r, sr_fiscal_year r) = Some m \<and> sr_number r < m)"
    proof cases
      case 1
      then show ?thesis using mem_invD(3,4) [OF s 1] below [OF 1] by auto
    next
      case 2
      then show ?thesis using res sid n1 by simp
    qed
  qed
  have c: "distinct (map number_key (reservations ?s))" "distinct (map sr_id (reservations ?s))"
    "distinct (map sr_invoice_id (reservations ?s))"
    using mem_invD(5-7) [OF s] used ids res by (auto simp: mem_used_def mem_fresh_def)
  have d: "\<forall>k' iid' rid'. idempotency ?s k' = Some (iid', rid') \<longrightarrow>
        (\<exists>i. invoices ?s iid' = Some i \<and>
          (\<exists>r \<in> set (reservations ?s). sr_id r = rid' \<and> sr_invoice_id r = iid' \<and>
             sr_number r = ri_sequence_number i \<and> sr_fiscal_year r = ri_fiscal_year i))"
  proof (intro allI impI)
    fix k' iid' rid' assume k': "idempotency ?s k' = Some (iid', rid')"
    show "\<exists>i. invoices ?s iid' = Some i \<and>
          (\<exists>r \<in> set (reservations ?s). sr_id r = rid' \<and> sr_invoice_id r = iid' \<and>
             sr_number r = ri_sequence_number i \<and> sr_fiscal_year r = ri_fiscal_year i)"
    proof (cases "k' = k")
      case True
      then show ?thesis using k' res ivc by simp
    next
      case False
      then have "idempotency s k' = Some (iid', rid')" using k' by simp
      from mem_invD(8) [OF s this] obtain i r where
        "invoices s iid' = Some i" "r \<in> set (reservations s)" "sr_id r = rid'" "sr_invoice_id r = iid'"
        "sr_number r = ri_sequence_number i" "sr_fiscal_year r = ri_fiscal_year i" by blast
      moreover from this have "iid' \<noteq> iid" using ids by (auto simp: mem_fresh_def)
      ultimately show ?thesis by auto
    qed
  qed
  show "mem_inv ?s"
    unfolding mem_inv_def using a b c d mem_invD(1) [OF s] by simp
qed

lemma mem_issued_fresh:
  assumes s: "mem_inv s" and ids: "mem_fresh iid rid s"
    and res: "sr_id res = rid"
  shows "mem_issued (s\<lparr>next_number := nn, invoices := (invoices s)(iid \<mapsto> ivc),
             reservations := reservations s @ [res],
             idempotency := (idempotency s)(k \<mapsto> (iid, rid))\<rparr>) =
         (mem_issued s)(k \<mapsto> (ivc, res))"
proof
  fix k'
  show "mem_issued (s\<lparr>next_number := nn, invoices := (invoices s)(iid \<mapsto> ivc),
             reservations := reservations s @ [res],
             idempotency := (idempotency s)(k \<mapsto> (iid, rid))\<rparr>) k' =
         ((mem_issued s)(k \<mapsto> (ivc, res))) k'"
  proof (cases "k' = k")
    case True
    have "find (\<lambda>r. sr_id r = rid) (reservations s) = None"
      using ids by (auto simp: mem_fresh_def find_None_iff image_iff)
    then have "find (\<lambda>r. sr_id r = rid) (reservations s @ [res]) = Some res"
      using res by (simp add: select_one_append [unfolded select_one_def])
    then show ?thesis using True by (simp add: mem_issued_def)
  next
    case False
    show ?thesis
    proof (cases "idempotency s k'")
      case None
      then show ?thesis using False by (simp add: mem_issued_def)
    next
      case (Some p)
      obtain iid' rid' where p: "p = (iid', rid')" by (cases p)
      from mem_issued_known [OF s] Some p obtain i r where
        r: "mem_issued s k' = Some (i, r)" "invoices s iid' = Some i"
          "find (\<lambda>r. sr_id r = rid') (reservations s) = Some r" by blast
      have "iid' \<noteq> iid" using r(2) ids by (auto simp: mem_fresh_def)
      moreover have "find (\<lambda>r. sr_id r = rid') (reservations s @ [res]) = Some r"
        using r(3) by (simp add: select_one_append [unfolded select_one_def])
      ultimately show ?thesis using False Some p r by (simp add: mem_issued_def)
    qed
  qed
qed

lemma mem_inv_seed:
  assumes "mem_inv s" and "1 \<le> n" and "n \<le> u64_max"
    and "\<And>m. next_number s b = Some m \<Longrightarrow> n = m"
  shows "mem_inv (s\<lparr>next_number := (next_number s)(b \<mapsto> n)\<rparr>)"
proof -
  have "\<forall>r \<in> set (reservations s).
      \<exists>m. ((next_number s)(b \<mapsto> n)) (sr_series_id r, sr_fiscal_year r) = Some m \<and> sr_number r < m"
    using mem_invD(4) [OF assms(1)] assms(4) by fastforce
  then show ?thesis
    unfolding mem_inv_def using assms(2,3) mem_invD(1-3,5-8) [OF assms(1)] by simp
qed

end
