(* ===== verification/Billing_Issue.thy ===== *)
theory Billing_Issue
  imports Billing_Store
begin

text \<open>
  Issuing an invoice (modules/billing/src/app/issue_invoice.rs). \<open>handle\<close> is written
  against the storage port, so it takes the port's operations as arguments. The locale
  \<open>billing_store\<close> states what it relies on; retries and gap-free numbering are proved
  in the locale and hold of both adapters through its interpretations.
\<close>

section \<open>The use case\<close>

definition idem_to_canonical_string :: "(nat \<Rightarrow> string) \<Rightarrow> idem_key \<Rightarrow> string" where
  "idem_to_canonical_string ulid_str k = ''idem_'' @ ulid_str k"

definition idem_from_canonical_string :: "(string \<Rightarrow> nat option) \<Rightarrow> string \<Rightarrow> idem_key option" where
  "idem_from_canonical_string ulid_parse s =
     (case strip_prefix ''idem_'' s of None \<Rightarrow> None | Some bare \<Rightarrow> ulid_parse bare)"

record issue_invoice_command =
  ic_key :: idem_key
  ic_series_code :: series_code
  ic_customer_id :: customer_id
  ic_lines :: "line_item list"

datatype issue_invoice_outcome =
    IFresh ready_invoice sequence_reservation
  | IReplay ready_invoice sequence_reservation

fun outcome_invoice :: "issue_invoice_outcome \<Rightarrow> ready_invoice" where
  "outcome_invoice (IFresh i _) = i"
| "outcome_invoice (IReplay i _) = i"

fun outcome_reservation :: "issue_invoice_outcome \<Rightarrow> sequence_reservation" where
  "outcome_reservation (IFresh _ r) = r"
| "outcome_reservation (IReplay _ r) = r"

fun first_overflow :: "decimal_env \<Rightarrow> nat \<Rightarrow> line_item list \<Rightarrow> nat option" where
  "first_overflow d idx [] = None"
| "first_overflow d idx (l # ls) =
     (if gross_total d l = None then Some idx else first_overflow d (Suc idx) ls)"

definition draft_of_command ::
  "billing_env \<Rightarrow> invoice_id \<Rightarrow> series_id \<Rightarrow> int \<Rightarrow> issue_invoice_command \<Rightarrow> draft_invoice" where
  "draft_of_command be iid sid issue_date cmd =
     \<lparr>di_id = iid, di_series_id = sid, di_customer_id = ic_customer_id cmd, di_lines = ic_lines cmd,
      di_issue_date = issue_date, di_payment_deadline = be_date be issue_date,
      di_delivery_date = be_date be issue_date\<rparr>"

definition args_of_command ::
  "billing_env \<Rightarrow> invoice_id \<Rightarrow> series_id \<Rightarrow> int \<Rightarrow> issue_invoice_command \<Rightarrow> allocate_args" where
  "args_of_command be iid sid issue_date cmd =
     \<lparr>aa_series_id = sid, aa_draft = draft_of_command be iid sid issue_date cmd, aa_key = ic_key cmd,
      aa_currency = CurrencyHuf, aa_rate_metadata = None, aa_bank_snapshot = None,
      aa_invoice_note = None, aa_email_override = None, aa_start_value = 1,
      aa_sequence_floor = None\<rparr>"

definition handle ::
  "(series_code \<Rightarrow> 's \<Rightarrow> billing_error + invoice_series option) \<Rightarrow>
   (reservation_id \<Rightarrow> allocate_args \<Rightarrow> int \<Rightarrow> 's \<Rightarrow> (billing_error + allocate_outcome) \<times> 's) \<Rightarrow>
   billing_env \<Rightarrow> invoice_id \<Rightarrow> reservation_id \<Rightarrow> int \<Rightarrow> issue_invoice_command \<Rightarrow> 's \<Rightarrow>
   (billing_error + issue_invoice_outcome) \<times> 's" where
  "handle find_code alloc be iid rid now cmd s =
     (if ic_lines cmd = []
      then (Inl (Invalid ''IssueInvoiceCommand.lines must contain at least one line item''), s)
      else case first_overflow (be_decimal be) 0 (ic_lines cmd) of
        Some idx \<Rightarrow> (Inl (MoneyOverflow idx), s)
      | None \<Rightarrow>
          (case find_code (ic_series_code cmd) s of
             Inl e \<Rightarrow> (Inl e, s)
           | Inr None \<Rightarrow> (Inl (SeriesNotFound (series_code_str (ic_series_code cmd))), s)
           | Inr (Some sr) \<Rightarrow>
               (case alloc rid (args_of_command be iid (is_id sr) now cmd) now s of
                  (Inl e, s') \<Rightarrow> (Inl e, s')
                | (Inr (Fresh i r), s') \<Rightarrow> (Inr (IFresh i r), s')
                | (Inr (Replay i r), s') \<Rightarrow> (Inr (IReplay i r), s'))))"

text \<open>A sequence of calls, with the ids and the clock reading each of them gets.\<close>

type_synonym issue_call = "invoice_id \<times> reservation_id \<times> int \<times> issue_invoice_command"

fun handle_all ::
  "(series_code \<Rightarrow> 's \<Rightarrow> billing_error + invoice_series option) \<Rightarrow>
   (reservation_id \<Rightarrow> allocate_args \<Rightarrow> int \<Rightarrow> 's \<Rightarrow> (billing_error + allocate_outcome) \<times> 's) \<Rightarrow>
   billing_env \<Rightarrow> issue_call list \<Rightarrow> 's \<Rightarrow> (billing_error + issue_invoice_outcome) list \<times> 's" where
  "handle_all find_code alloc be [] s = ([], s)"
| "handle_all find_code alloc be ((iid, rid, now, cmd) # cs) s =
     (let (r, s1) = handle find_code alloc be iid rid now cmd s;
          (rs, s2) = handle_all find_code alloc be cs s1
      in (r # rs, s2))"

fun fresh_invoices :: "(billing_error + issue_invoice_outcome) list \<Rightarrow> ready_invoice list" where
  "fresh_invoices [] = []"
| "fresh_invoices (Inr (IFresh i r) # rs) = i # fresh_invoices rs"
| "fresh_invoices (_ # rs) = fresh_invoices rs"

text \<open>What \<open>handle\<close> asks of the lines before it calls the store.\<close>

definition lines_accepted :: "billing_env \<Rightarrow> allocate_args \<Rightarrow> bool" where
  "lines_accepted be a \<longleftrightarrow>
     di_lines (aa_draft a) \<noteq> [] \<and> first_overflow (be_decimal be) 0 (di_lines (aa_draft a)) = None"

definition numbers_in ::
  "series_id \<times> int \<Rightarrow> (billing_error + issue_invoice_outcome) list \<Rightarrow> nat list" where
  "numbers_in b rs =
     map ri_sequence_number (filter (\<lambda>i. (ri_series_id i, ri_fiscal_year i) = b) (fresh_invoices rs))"

section \<open>The contract of the port\<close>

locale billing_store =
  fixes find_code :: "series_code \<Rightarrow> 's \<Rightarrow> billing_error + invoice_series option"
    and alloc :: "reservation_id \<Rightarrow> allocate_args \<Rightarrow> int \<Rightarrow> 's \<Rightarrow>
                  (billing_error + allocate_outcome) \<times> 's"
    and sinv :: "'s \<Rightarrow> bool"
    and issued :: "'s \<Rightarrow> idem_key \<Rightarrow> (ready_invoice \<times> sequence_reservation) option"
    and counter :: "'s \<Rightarrow> series_id \<times> int \<Rightarrow> nat option"
    and fresh_ids :: "invoice_id \<Rightarrow> reservation_id \<Rightarrow> 's \<Rightarrow> bool"
    and stored :: "ready_invoice \<Rightarrow> ready_invoice"
    and fits :: "nat \<Rightarrow> bool"
    and be :: billing_env
  assumes alloc_replay:
      "sinv s \<Longrightarrow> issued s (aa_key a) = Some (i, r) \<Longrightarrow> lines_accepted be a \<Longrightarrow>
       alloc rid a now s = (Inr (Replay i r), s)"
    and alloc_fresh:
      "sinv s \<Longrightarrow> issued s (aa_key a) = None \<Longrightarrow> args_ok a \<Longrightarrow>
       fresh_ids (di_id (aa_draft a)) rid s \<Longrightarrow>
       \<forall>fy. fits (alloc_number (counter s (aa_series_id a, fy)) (aa_start_value a) (aa_sequence_floor a)) \<Longrightarrow>
       alloc rid a now s = (Inr out, s') \<Longrightarrow>
       \<exists>fy n i r. out = Fresh i r \<and>
         n = alloc_number (counter s (aa_series_id a, fy)) (aa_start_value a) (aa_sequence_floor a) \<and>
         i = ready_of_draft (aa_draft a) n fy \<and> sr_number r = n \<and> sinv s' \<and>
         issued s' = (issued s)(aa_key a \<mapsto> (stored i, r)) \<and>
         counter s' = (counter s)((aa_series_id a, fy) \<mapsto> n + 1)"
    and alloc_error:
      "sinv s \<Longrightarrow> issued s (aa_key a) = None \<Longrightarrow> args_ok a \<Longrightarrow> alloc rid a now s = (Inl e, s') \<Longrightarrow>
       sinv s' \<and> issued s' = issued s \<and>
       (\<forall>b. alloc_number (counter s' b) (aa_start_value a) None =
            alloc_number (counter s b) (aa_start_value a) None)"
    and fresh_kept:
      "sinv s \<Longrightarrow> alloc rid a now s = (res, s') \<Longrightarrow> fresh_ids iid' rid' s \<Longrightarrow>
       iid' \<noteq> di_id (aa_draft a) \<Longrightarrow> rid' \<noteq> rid \<Longrightarrow> fresh_ids iid' rid' s'"
begin

lemma args_of_command_ok: "args_ok (args_of_command be iid sid now cmd)"
  by (simp add: args_ok_def args_of_command_def draft_of_command_def u64_max_def)

text \<open>The outcomes of one call, with everything the sequence argument needs.\<close>

lemma handle_cases:
  assumes s: "sinv s" and ids: "fresh_ids iid rid s"
    and fits: "\<forall>b. fits (alloc_number (counter s b) 1 None)"
    and h: "handle find_code alloc be iid rid now cmd s = (res, s')"
  obtains (rejected) e where "res = Inl e" "sinv s'" "issued s' = issued s"
      "\<forall>b. alloc_number (counter s' b) 1 None = alloc_number (counter s b) 1 None"
  | (replayed) i r where "res = Inr (IReplay i r)" "s' = s" "issued s (ic_key cmd) = Some (i, r)"
  | (issued_new) i r sid fy n where "res = Inr (IFresh i r)" "sinv s'" "issued s (ic_key cmd) = None"
      "issued s' = (issued s)(ic_key cmd \<mapsto> (stored i, r))"
      "n = alloc_number (counter s (sid, fy)) 1 None" "counter s' = (counter s)((sid, fy) \<mapsto> n + 1)"
      "ri_series_id i = sid" "ri_fiscal_year i = fy" "ri_sequence_number i = n" "ri_id i = iid"
      "ri_lines i = ic_lines cmd" "sr_number r = n"
proof (cases "ic_lines cmd = [] \<or> first_overflow (be_decimal be) 0 (ic_lines cmd) \<noteq> None \<or>
              (\<exists>e. find_code (ic_series_code cmd) s = Inl e) \<or> find_code (ic_series_code cmd) s = Inr None")
  case True
  then have "s' = s \<and> (\<exists>e. res = Inl e)"
    using h by (auto simp: handle_def split: if_splits option.splits sum.splits)
  then show ?thesis using s rejected by blast
next
  case False
  then obtain sr where sr: "find_code (ic_series_code cmd) s = Inr (Some sr)"
    by (cases "find_code (ic_series_code cmd) s") auto
  define a where "a = args_of_command be iid (is_id sr) now cmd"
  have acc: "lines_accepted be a"
    using False by (simp add: lines_accepted_def a_def args_of_command_def draft_of_command_def)
  have a: "aa_key a = ic_key cmd" "aa_series_id a = is_id sr" "aa_start_value a = 1"
    "aa_sequence_floor a = None" "di_id (aa_draft a) = iid" "args_ok a"
    by (simp_all add: a_def args_of_command_def draft_of_command_def args_ok_def u64_max_def)
  obtain out t where al: "alloc rid a now s = (out, t)" by (cases "alloc rid a now s") auto
  have h': "(res, s') = (case (out, t) of (Inl e, s') \<Rightarrow> (Inl e, s')
      | (Inr (Fresh i r), s') \<Rightarrow> (Inr (IFresh i r), s') | (Inr (Replay i r), s') \<Rightarrow> (Inr (IReplay i r), s'))"
    using h False sr al by (simp add: handle_def a_def)
  show ?thesis
  proof (cases "issued s (ic_key cmd)")
    case (Some p)
    then obtain i r where p: "issued s (ic_key cmd) = Some (i, r)" by (cases p) auto
    have "alloc rid a now s = (Inr (Replay i r), s)" using alloc_replay [OF s _ acc] p a(1) by simp
    with h' al p show ?thesis by (intro replayed) auto
  next
    case None
    show ?thesis
    proof (cases out)
      case (Inl e)
      then show ?thesis
        using alloc_error [OF s _ a(6), of rid now e t] None a h' al by (intro rejected [of e]) auto
    next
      case (Inr o')
      then have al': "alloc rid a now s = (Inr o', t)" using al by simp
      have "issued s (aa_key a) = None" "fresh_ids (di_id (aa_draft a)) rid s"
        "\<forall>fy. fits (alloc_number (counter s (aa_series_id a, fy)) (aa_start_value a) (aa_sequence_floor a))"
        using None ids fits a by simp_all
      from alloc_fresh [OF s this(1) a(6) this(2,3) al'] obtain fy n i r where
        f: "o' = Fresh i r" "n = alloc_number (counter s (aa_series_id a, fy)) (aa_start_value a) (aa_sequence_floor a)"
        "i = ready_of_draft (aa_draft a) n fy" "sr_number r = n" "sinv t"
        "issued t = (issued s)(aa_key a \<mapsto> (stored i, r))"
        "counter t = (counter s)((aa_series_id a, fy) \<mapsto> n + 1)" by blast
      have "ri_series_id i = is_id sr" "ri_fiscal_year i = fy" "ri_sequence_number i = n" "ri_id i = iid"
        "ri_lines i = ic_lines cmd"
        by (simp_all add: f(3) ready_of_draft_def a_def args_of_command_def draft_of_command_def)
      then show ?thesis using f h' Inr None a
        by (intro issued_new [of i r n "is_id sr" fy]) auto
    qed
  qed
qed

lemma handle_fresh_kept:
  assumes "sinv s" and "handle find_code alloc be iid rid now cmd s = (res, s')"
    and "fresh_ids iid' rid' s" "iid' \<noteq> iid" "rid' \<noteq> rid"
  shows "fresh_ids iid' rid' s'"
proof -
  have "s' = s \<or> (\<exists>out (sr :: invoice_series). alloc rid (args_of_command be iid (is_id sr) now cmd) now s = (out, s'))"
    using assms(2)
    by (auto simp: handle_def split: if_splits option.splits sum.splits prod.splits allocate_outcome.splits)
  then show ?thesis
    using fresh_kept [OF assms(1) _ assms(3)] assms(3-5)
    by (auto simp: args_of_command_def draft_of_command_def)
qed

text \<open>A retry with the same key returns the invoice of the first call and changes nothing.\<close>

lemma handle_retry:
  assumes "sinv s" and "fresh_ids iid rid s" and "\<forall>b. fits (alloc_number (counter s b) 1 None)"
    and "handle find_code alloc be iid rid now cmd s = (Inr (IFresh i r), s')"
    and "find_code (ic_series_code cmd) s' = Inr (Some sr)"
  shows "handle find_code alloc be iid2 rid2 now2 cmd s' = (Inr (IReplay (stored i) r), s')"
proof -
  have ok: "ic_lines cmd \<noteq> []" "first_overflow (be_decimal be) 0 (ic_lines cmd) = None"
    using assms(4) by (auto simp: handle_def split: if_splits option.splits)
  from assms show ?thesis
  proof (cases rule: handle_cases [OF assms(1-4)])
    case (3 i' r' sid fy n)
    then have "issued s' (ic_key cmd) = Some (stored i, r)" by simp
    then have "alloc rid2 (args_of_command be iid2 (is_id sr) now2 cmd) now2 s' = (Inr (Replay (stored i) r), s')"
      using 3(2) ok by (intro alloc_replay)
        (simp_all add: args_of_command_def lines_accepted_def draft_of_command_def)
    then show ?thesis using ok assms(5) by (simp add: handle_def)
  qed simp_all
qed

text \<open>Numbers are handed out without gaps, whatever calls fail or are retried in between.\<close>

lemma handle_all_gapless:
  assumes "sinv s" and "\<forall>(iid, rid, _) \<in> set cs. fresh_ids iid rid s"
    and "(\<forall>iid rid s. fresh_ids iid rid s) \<or> distinct (map fst cs) \<and> distinct (map (\<lambda>c. fst (snd c)) cs)"
    and "\<forall>b n. n < alloc_number (counter s b) 1 None + length cs \<longrightarrow> fits n"
    and "handle_all find_code alloc be cs s = (rs, s')"
  shows "sinv s' \<and> (\<exists>k. numbers_in b rs =
           [alloc_number (counter s b) 1 None ..< alloc_number (counter s b) 1 None + k] \<and>
           alloc_number (counter s' b) 1 None = alloc_number (counter s b) 1 None + k)"
  using assms
proof (induction cs arbitrary: s rs)
  case Nil
  then show ?case by (auto simp: numbers_in_def)
next
  case (Cons c cs)
  obtain iid rid now cmd where c: "c = (iid, rid, now, cmd)" by (cases c)
  obtain r s1 where r: "handle find_code alloc be iid rid now cmd s = (r, s1)"
    by (cases "handle find_code alloc be iid rid now cmd s") auto
  obtain rs1 where rs: "handle_all find_code alloc be cs s1 = (rs1, s')" "rs = r # rs1"
    using Cons.prems(5) r by (auto simp: c Let_def split: prod.splits)
  have ids: "fresh_ids iid rid s" using Cons.prems(2) c by simp
  have rest: "\<forall>(iid', rid', _) \<in> set cs. fresh_ids iid' rid' s1"
  proof (clarify)
    fix iid' rid' n' c' assume m: "(iid', rid', n', c') \<in> set cs"
    show "fresh_ids iid' rid' s1"
    proof (cases "\<forall>iid rid s. fresh_ids iid rid s")
      case False
      then have "iid' \<noteq> iid" "rid' \<noteq> rid" using Cons.prems(3) c m by (force simp: image_iff)+
      moreover have "fresh_ids iid' rid' s" using Cons.prems(2) m by auto
      ultimately show ?thesis using handle_fresh_kept [OF Cons.prems(1) r] by blast
    qed simp
  qed
  let ?c = "\<lambda>s. alloc_number (counter s b) 1 None"
  have IH: "sinv s' \<and> (\<exists>k. numbers_in b rs1 = [?c s1 ..< ?c s1 + k] \<and> ?c s' = ?c s1 + k)"
    if "sinv s1" and up: "\<And>b. alloc_number (counter s1 b) 1 None \<le> Suc (alloc_number (counter s b) 1 None)"
  proof -
    have "\<forall>b n. n < alloc_number (counter s1 b) 1 None + length cs \<longrightarrow> fits n"
    proof (intro allI impI)
      fix b n assume "n < alloc_number (counter s1 b) 1 None + length cs"
      then have "n < alloc_number (counter s b) 1 None + length (c # cs)" using up [of b] by simp
      then show "fits n" using Cons.prems(4) by blast
    qed
    then show ?thesis using Cons.IH [OF that(1) rest _ _ rs(1)] Cons.prems(3) by auto
  qed
  have "\<forall>b. fits (alloc_number (counter s b) 1 None)"
  proof
    fix b
    have "alloc_number (counter s b) 1 None < alloc_number (counter s b) 1 None + length (c # cs)" by simp
    then show "fits (alloc_number (counter s b) 1 None)" using Cons.prems(4) by blast
  qed
  from Cons.prems(1) ids this r show ?case
  proof (cases rule: handle_cases)
    case (rejected e)
    have "alloc_number (counter s1 b) 1 None \<le> Suc (alloc_number (counter s b) 1 None)" for b
      using rejected(4) by (metis le_SucI order_refl)
    moreover have "?c s1 = ?c s" using rejected(4) by blast
    ultimately show ?thesis
      using IH [OF rejected(2)] rs(2) rejected(1) by (simp add: numbers_in_def)
  next
    case (replayed i q)
    then have "alloc_number (counter s1 b) 1 None \<le> Suc (alloc_number (counter s b) 1 None)" for b by simp
    from IH [OF _ this] show ?thesis using replayed Cons.prems(1) rs(2) by (simp add: numbers_in_def)
  next
    case (issued_new i q sid fy n)
    have "alloc_number (counter s1 b) 1 None \<le> Suc (alloc_number (counter s b) 1 None)" for b
      using issued_new(5,6) by (cases "b = (sid, fy)") (simp_all add: alloc_number_def)
    from IH [OF issued_new(2) this] obtain k where k: "sinv s'"
      "numbers_in b rs1 = [?c s1 ..< ?c s1 + k]" "?c s' = ?c s1 + k" by blast
    show ?thesis
    proof (cases "b = (sid, fy)")
      case True
      then have n: "?c s1 = Suc n" "?c s = n"
        using issued_new(5,6) by (simp_all add: alloc_number_def)
      have "numbers_in b rs = n # numbers_in b rs1"
        using issued_new True rs(2) by (simp add: numbers_in_def)
      also have "\<dots> = [n ..< n + Suc k]"
        unfolding k(2) n(1) using upt_conv_Cons [of n "n + Suc k"] by (simp del: upt_Suc)
      finally show ?thesis using k n by (intro conjI exI [of _ "Suc k"]) simp_all
    next
      case False
      then have "?c s1 = ?c s" using issued_new(6) by simp
      moreover have "numbers_in b rs = numbers_in b rs1"
        using issued_new False rs(2) by (auto simp: numbers_in_def)
      ultimately show ?thesis using k by auto
    qed
  qed
qed

end

section \<open>The in-memory store keeps the contract\<close>

interpretation mem: billing_store "\<lambda>c s. Inr (mem_find_series_by_code c s)"
  "mem_allocate_and_insert be" mem_inv mem_issued next_number mem_fresh id "\<lambda>_. True" be for be
proof
  show "mem_allocate_and_insert be rid a now s = (Inr (Replay i r), s)"
    if "mem_inv s" "mem_issued s (aa_key a) = Some (i, r)" for s a i r rid now
    using mem_replay that .
next
  fix s a rid now out s'
  assume s: "mem_inv s" and new: "mem_issued s (aa_key a) = None" and a: "args_ok a"
    and ids: "mem_fresh (di_id (aa_draft a)) rid s"
    and al: "mem_allocate_and_insert be rid a now s = (Inr out, s')"
  from s new show "\<exists>fy n i r. out = Fresh i r \<and>
      n = alloc_number (next_number s (aa_series_id a, fy)) (aa_start_value a) (aa_sequence_floor a) \<and>
      i = ready_of_draft (aa_draft a) n fy \<and> sr_number r = n \<and> mem_inv s' \<and>
      mem_issued s' = (mem_issued s)(aa_key a \<mapsto> (id i, r)) \<and>
      next_number s' = (next_number s)((aa_series_id a, fy) \<mapsto> n + 1)"
  proof (cases rule: mem_alloc_cases [of s a be rid now])
    case (fresh sr fy n ivc res)
    have out: "out = Fresh ivc res" using fresh(7) al by simp
    have "mem_inv s'" "mem_issued s' = (mem_issued s)(aa_key a \<mapsto> (ivc, res))"
      using mem_inv_fresh(1) [OF s fresh(1,3,4) ids, of ivc res "aa_key a"]
        mem_issued_fresh [OF s ids, where res = res and ivc = ivc and k = "aa_key a" and
          nn = "(next_number s)((aa_series_id a, fy) \<mapsto> n + 1)"]
        fresh(5,6,7) al by (auto simp: ready_of_draft_def)
    moreover have "next_number s' = (next_number s)((aa_series_id a, fy) \<mapsto> n + 1)"
      using fresh(7) al by auto
    moreover have "sr_number res = n" using fresh(6) by simp
    ultimately show ?thesis using out fresh(3,5) unfolding id_apply by blast
  qed (use al in simp_all)
next
  fix s a rid now e s'
  assume s: "mem_inv s" and new: "mem_issued s (aa_key a) = None" and a: "args_ok a"
    and al: "mem_allocate_and_insert be rid a now s = (Inl e, s')"
  from s new show "mem_inv s' \<and> mem_issued s' = mem_issued s \<and>
      (\<forall>b. alloc_number (next_number s' b) (aa_start_value a) None =
           alloc_number (next_number s b) (aa_start_value a) None)"
  proof (cases rule: mem_alloc_cases [of s a be rid now])
    case unknown
    then show ?thesis using al s by simp
  next
    case (overflow fy e' n)
    have s': "s' = s\<lparr>next_number := (next_number s)((aa_series_id a, fy) \<mapsto> n)\<rparr>"
      using overflow(1) al by simp
    have n: "1 \<le> n" "n \<le> u64_max" "\<And>m. next_number s (aa_series_id a, fy) = Some m \<Longrightarrow> n = m"
      using overflow(2) mem_invD(2) [OF s] a
      by (auto simp: args_ok_def u64_max_def split: option.splits)
    have "mem_issued s' = mem_issued s" by (rule ext) (simp add: s' mem_issued_def split: option.split)
    moreover have "alloc_number (Some n) (aa_start_value a) None =
        alloc_number (next_number s (aa_series_id a, fy)) (aa_start_value a) None"
      using overflow(2) by (auto simp: alloc_number_def split: option.splits)
    ultimately show ?thesis using mem_inv_seed [OF s n] s' by simp
  next
    case (fresh sr fy n ivc res)
    then show ?thesis using al by simp
  qed
next
  fix s rid and a :: allocate_args and now res s' iid' rid'
  assume s: "mem_inv s" and al: "mem_allocate_and_insert be rid a now s = (res, s')"
    and f: "mem_fresh iid' rid' s" and n: "iid' \<noteq> di_id (aa_draft a)" "rid' \<noteq> rid"
  show "mem_fresh iid' rid' s'"
  proof (cases "mem_issued s (aa_key a)")
    case (Some p)
    then obtain i r where "mem_issued s (aa_key a) = Some (i, r)" by (cases p) auto
    with mem_replay [OF s this, of be rid now] al f show ?thesis by simp
  next
    case None
    from s None show ?thesis
    proof (cases rule: mem_alloc_cases [of s a be rid now])
      case unknown
      then show ?thesis using al f by simp
    next
      case (overflow fy e n)
      then show ?thesis using al f by (auto simp: mem_fresh_def)
    next
      case (fresh sr fy n ivc res)
      then show ?thesis using al f n by (auto simp: mem_fresh_def)
    qed
  qed
qed

section \<open>Properties\<close>

definition mem_handle ::
  "billing_env \<Rightarrow> invoice_id \<Rightarrow> reservation_id \<Rightarrow> int \<Rightarrow> issue_invoice_command \<Rightarrow> mem_store \<Rightarrow>
   (billing_error + issue_invoice_outcome) \<times> mem_store" where
  "mem_handle be = handle (\<lambda>c s. Inr (mem_find_series_by_code c s)) (mem_allocate_and_insert be) be"

definition mem_handle_all ::
  "billing_env \<Rightarrow> issue_call list \<Rightarrow> mem_store \<Rightarrow>
   (billing_error + issue_invoice_outcome) list \<times> mem_store" where
  "mem_handle_all be = handle_all (\<lambda>c s. Inr (mem_find_series_by_code c s)) (mem_allocate_and_insert be) be"

text \<open>
  Invoice numbering has no gaps and no duplicates: over any sequence of issue calls,
  including calls that are refused and retries of earlier ones, the numbers of the invoices
  newly issued in a series and fiscal year are consecutive in call order, starting at the
  bucket's next number, which ends up just past the last of them.
\<close>

theorem issued_numbers_gapless:
  assumes "mem_inv s" and "\<forall>(iid, rid, _) \<in> set cs. mem_fresh iid rid s"
    and "distinct (map fst cs)" "distinct (map (\<lambda>c. fst (snd c)) cs)"
    and "mem_handle_all be cs s = (rs, s')"
  shows "mem_inv s' \<and> (\<exists>k. numbers_in b rs =
           [alloc_number (next_number s b) 1 None ..< alloc_number (next_number s b) 1 None + k] \<and>
           alloc_number (next_number s' b) 1 None = alloc_number (next_number s b) 1 None + k)"
  using mem.handle_all_gapless [OF assms(1,2) _ _ assms(5) [unfolded mem_handle_all_def]] assms(3,4) by simp

text \<open>
  Issuing is idempotent in its key: repeating a command that issued an invoice, with
  another clock reading and other candidate ids, returns that same invoice and reservation as a
  replay and leaves the store as it was.
\<close>

theorem issue_retry_replays:
  assumes "mem_inv s" and "mem_fresh iid rid s"
    and "mem_handle be iid rid now cmd s = (Inr (IFresh i r), s')"
    and "mem_find_series_by_code (ic_series_code cmd) s' \<noteq> None"
  shows "mem_handle be iid2 rid2 now2 cmd s' = (Inr (IReplay i r), s')"
proof -
  obtain sr where "mem_find_series_by_code (ic_series_code cmd) s' = Some sr" using assms(4) by auto
  then have "Inr (mem_find_series_by_code (ic_series_code cmd) s') = Inr (Some sr)" by simp
  then show ?thesis
    using mem.handle_retry [OF assms(1,2) _ assms(3) [unfolded mem_handle_def]] by (simp add: mem_handle_def)
qed

section \<open>A demonstration store\<close>

definition demo_billing :: billing_env where
  "demo_billing = \<lparr>be_decimal = demo_decimal, be_year = (\<lambda>_. 2026), be_date = (\<lambda>t. t)\<rparr>"

definition demo_series :: invoice_series where
  "demo_series = \<lparr>is_id = SeriesId 1, is_code = SeriesCode ''INV'', is_reset_policy = AnnualOnFiscalYear,
                  is_fiscal_year = None, is_created_at = 0\<rparr>"

definition demo_store :: mem_store where
  "demo_store = projr (mem_create_series demo_series mem_new)"

definition demo_command :: "idem_key \<Rightarrow> issue_invoice_command" where
  "demo_command k = \<lparr>ic_key = k, ic_series_code = SeriesCode ''INV'', ic_customer_id = CustomerId 1,
                     ic_lines = [demo_line]\<rparr>"

lemma demo_store_eq:
  "demo_store = mem_new\<lparr>series_by_id := [SeriesId 1 \<mapsto> demo_series], series_by_code := [''INV'' \<mapsto> SeriesId 1]\<rparr>"
  by (simp add: demo_store_def mem_create_series_def mem_new_def demo_series_def)

lemma demo_store_inv: "mem_inv demo_store"
  by (auto simp: demo_store_eq mem_inv_def mem_new_def demo_series_def)

lemma demo_store_fresh: "mem_fresh iid rid demo_store"
  by (simp add: demo_store_eq mem_fresh_def mem_new_def)

definition demo_calls :: "issue_call list" where
  "demo_calls =
     [(InvoiceId 1, ReservationId 1, 10, demo_command 1), (InvoiceId 2, ReservationId 2, 11, demo_command 1),
      (InvoiceId 3, ReservationId 3, 12, demo_command 2)]"

theorem issued_numbers_gapless_witness:
  "\<exists>k. numbers_in (SeriesId 1, 2026) (fst (mem_handle_all demo_billing demo_calls demo_store)) = [1 ..< 1 + k] \<and>
     alloc_number (next_number (snd (mem_handle_all demo_billing demo_calls demo_store)) (SeriesId 1, 2026))
       1 None = 1 + k"
proof -
  obtain rs s' where r: "mem_handle_all demo_billing demo_calls demo_store = (rs, s')"
    by (cases "mem_handle_all demo_billing demo_calls demo_store") auto
  have "alloc_number (next_number demo_store (SeriesId 1, 2026)) 1 None = 1"
    by (simp add: demo_store_eq mem_new_def alloc_number_def)
  note c = this
  have "\<forall>(iid, rid, _) \<in> set demo_calls. mem_fresh iid rid demo_store"
    by (auto simp: demo_store_fresh)
  moreover have "distinct (map fst demo_calls)" "distinct (map (\<lambda>c. fst (snd c)) demo_calls)"
    by (simp_all add: demo_calls_def)
  ultimately show ?thesis
    using issued_numbers_gapless [OF demo_store_inv _ _ _ r, of "(SeriesId 1, 2026)"]
    unfolding c r fst_conv snd_conv by blast
qed

lemma demo_handle:
  "mem_handle demo_billing (InvoiceId 1) (ReservationId 1) 10 (demo_command 1) demo_store =
   (Inr (IFresh (ready_of_draft (draft_of_command demo_billing (InvoiceId 1) (SeriesId 1) 10 (demo_command 1)) 1 2026)
      \<lparr>sr_id = ReservationId 1, sr_series_id = SeriesId 1, sr_fiscal_year = 2026, sr_number = 1,
       sr_invoice_id = InvoiceId 1, sr_status = Reserved, sr_void_reason = None, sr_reserved_at = 10,
       sr_used_at = None, sr_voided_at = None\<rparr>),
    snd (mem_handle demo_billing (InvoiceId 1) (ReservationId 1) 10 (demo_command 1) demo_store))"
  "mem_find_series_by_code (ic_series_code (demo_command 1))
     (snd (mem_handle demo_billing (InvoiceId 1) (ReservationId 1) 10 (demo_command 1) demo_store)) =
   Some demo_series"
  by (simp_all add: mem_handle_def handle_def demo_command_def demo_billing_def demo_line_gross
      mem_find_series_by_code_def demo_store_eq mem_new_def demo_series_def args_of_command_def
      draft_of_command_def mem_allocate_and_insert_def fiscal_year_of_def Let_def u64_max_def
      ready_of_draft_def)

theorem issue_retry_replays_witness:
  "\<exists>i r s'. mem_handle demo_billing (InvoiceId 1) (ReservationId 1) 10 (demo_command 1) demo_store =
       (Inr (IFresh i r), s') \<and> ri_sequence_number i = 1 \<and>
     mem_handle demo_billing (InvoiceId 5) (ReservationId 6) 99 (demo_command 1) s' = (Inr (IReplay i r), s')"
proof -
  have "mem_find_series_by_code (ic_series_code (demo_command 1))
     (snd (mem_handle demo_billing (InvoiceId 1) (ReservationId 1) 10 (demo_command 1) demo_store)) \<noteq> None"
    using demo_handle(2) by simp
  from issue_retry_replays [OF demo_store_inv demo_store_fresh demo_handle(1) this] demo_handle(1)
  show ?thesis by (intro exI conjI) (assumption, simp add: ready_of_draft_def, assumption)
qed

section \<open>Voiding\<close>

lemma update_first_same:
  "(\<And>x. x \<in> set xs \<Longrightarrow> p x \<Longrightarrow> g (f x) = g x) \<Longrightarrow> map g (update_first p f xs) = map g xs"
  by (induction xs) auto

lemma update_first_find:
  "distinct (map k xs) \<Longrightarrow> find (\<lambda>x. k x = a) xs = Some y \<Longrightarrow>
   set (update_first (\<lambda>x. k x = a) f xs) = insert (f y) (set xs - {y})"
proof (induction xs)
  case Nil
  then show ?case by simp
next
  case (Cons x xs)
  show ?case
  proof (cases "k x = a")
    case True
    then have "y = x" "x \<notin> set xs" using Cons.prems by auto
    then show ?thesis using True by simp
  next
    case False
    then have "find (\<lambda>x. k x = a) xs = Some y" using Cons.prems(2) by simp
    moreover from this have "k y = a" by (auto simp: find_Some_iff)
    ultimately show ?thesis using False Cons.IH Cons.prems(1) by auto
  qed
qed

definition res_core :: "sequence_reservation \<Rightarrow> reservation_id \<times> series_id \<times> int \<times> nat \<times> invoice_id" where
  "res_core r = (sr_id r, sr_series_id r, sr_fiscal_year r, sr_number r, sr_invoice_id r)"

lemma mem_inv_core:
  "mem_inv s \<longleftrightarrow>
     (\<forall>i sr. series_by_id s i = Some sr \<longrightarrow> is_id sr = i) \<and>
     (\<forall>b n. next_number s b = Some n \<longrightarrow> 1 \<le> n \<and> n \<le> u64_max) \<and>
     (\<forall>(_, sid, fy, n, _) \<in> set (map res_core (reservations s)). 1 \<le> n \<and>
        (\<exists>m. next_number s (sid, fy) = Some m \<and> n < m)) \<and>
     distinct (map (\<lambda>(_, sid, fy, n, _). (sid, fy, n)) (map res_core (reservations s))) \<and>
     distinct (map (\<lambda>(rid, _). rid) (map res_core (reservations s))) \<and>
     distinct (map (\<lambda>(_, _, _, _, iid). iid) (map res_core (reservations s))) \<and>
     (\<forall>k iid rid. idempotency s k = Some (iid, rid) \<longrightarrow>
        (\<exists>ivc. invoices s iid = Some ivc \<and>
          (\<exists>(rid', _, fy, n, iid') \<in> set (map res_core (reservations s)). rid' = rid \<and> iid' = iid \<and>
             n = ri_sequence_number ivc \<and> fy = ri_fiscal_year ivc)))"
proof -
  have f: "(\<lambda>(_, sid, fy, n, _). (sid, fy, n)) \<circ> res_core = number_key"
    "(\<lambda>(rid, _). rid) \<circ> res_core = sr_id" "(\<lambda>(_, _, _, _, iid). iid) \<circ> res_core = sr_invoice_id"
    by (auto simp: res_core_def number_key_def)
  show ?thesis
    unfolding mem_inv_def map_map f set_map ball_simps bex_simps
    by (simp add: res_core_def)
qed

text \<open>
  Voiding a reservation changes its status, reason and time and nothing else: it succeeds
  exactly for a reserved number, the number stays taken (so it is never issued again), and
  voiding it a second time is refused.
\<close>

theorem void_keeps_number:
  assumes "mem_inv s"
  shows "(is_ok (mem_void_reservation iid reason t s) \<longleftrightarrow>
           (\<exists>r \<in> set (reservations s). sr_invoice_id r = iid \<and> sr_status r = Reserved)) \<and>
         (\<forall>s'. mem_void_reservation iid reason t s = Inr s' \<longrightarrow>
            mem_inv s' \<and> mem_used s' = mem_used s \<and> next_number s' = next_number s \<and>
            \<not> is_ok (mem_void_reservation iid reason2 t2 s'))"
proof -
  let ?f = "\<lambda>r. r\<lparr>sr_status := Voided, sr_void_reason := Some reason, sr_voided_at := Some t\<rparr>"
  let ?p = "\<lambda>r. sr_invoice_id r = iid"
  have found: "find ?p (reservations s) = Some x" if "x \<in> set (reservations s)" "?p x" for x
    using find_unique [OF mem_invD(7) [OF assms] that(1)] that(2) by simp
  have ok: "is_ok (mem_void_reservation iid reason t s) \<longleftrightarrow>
      (\<exists>r \<in> set (reservations s). ?p r \<and> sr_status r = Reserved)"
  proof (cases "find ?p (reservations s)")
    case None
    then have "\<not> (\<exists>r \<in> set (reservations s). ?p r \<and> sr_status r = Reserved)"
      by (auto simp: find_None_iff)
    then show ?thesis by (simp add: mem_void_reservation_def None)
  next
    case (Some x)
    then have "x \<in> set (reservations s)" "?p x" by (auto simp: find_Some_iff)
    moreover have "y = x" if "y \<in> set (reservations s)" "?p y" for y
      using found [OF that] Some by simp
    ultimately have "(\<exists>r \<in> set (reservations s). ?p r \<and> sr_status r = Reserved) \<longleftrightarrow> sr_status x = Reserved"
      by blast
    then show ?thesis by (simp add: mem_void_reservation_def Some)
  qed
  have "mem_inv s' \<and> mem_used s' = mem_used s \<and> next_number s' = next_number s \<and>
            \<not> is_ok (mem_void_reservation iid reason2 t2 s')"
    if v: "mem_void_reservation iid reason t s = Inr s'" for s'
  proof -
    from v obtain r where r: "find ?p (reservations s) = Some r" "sr_status r = Reserved"
      "s' = s\<lparr>reservations := update_first ?p ?f (reservations s)\<rparr>"
      by (auto simp: mem_void_reservation_def split: option.splits if_splits)
    have core: "map res_core (reservations s') = map res_core (reservations s)"
      by (simp add: r(3)) (rule update_first_same, simp add: res_core_def)
    then have inv': "mem_inv s'" using assms unfolding mem_inv_core core by (simp add: r(3))
    have "map number_key (reservations s') = map number_key (reservations s)"
      by (simp add: r(3)) (rule update_first_same, simp add: number_key_def)
    then have "mem_used s' = mem_used s" unfolding mem_used_def by (metis set_map)
    moreover have "set (reservations s') = insert (?f r) (set (reservations s) - {r})"
      unfolding r(3) using update_first_find [OF mem_invD(7) [OF assms] r(1), of ?f] by simp
    then have "\<forall>x \<in> set (reservations s'). ?p x \<longrightarrow> sr_status x = Voided"
      using found r(1) by auto
    then have "\<not> is_ok (mem_void_reservation iid reason2 t2 s')"
      by (auto simp: mem_void_reservation_def is_ok_def find_Some_iff split: option.splits)
    ultimately show ?thesis using inv' by (simp add: r(3))
  qed
  with ok show ?thesis by blast
qed

definition demo_issued_store :: mem_store where
  "demo_issued_store =
     snd (mem_handle demo_billing (InvoiceId 1) (ReservationId 1) 10 (demo_command 1) demo_store)"

lemma demo_issued_store:
  "mem_inv demo_issued_store"
  "reservations demo_issued_store =
     [\<lparr>sr_id = ReservationId 1, sr_series_id = SeriesId 1, sr_fiscal_year = 2026, sr_number = 1,
       sr_invoice_id = InvoiceId 1, sr_status = Reserved, sr_void_reason = None, sr_reserved_at = 10,
       sr_used_at = None, sr_voided_at = None\<rparr>]"
proof -
  let ?cs = "[(InvoiceId 1, ReservationId 1, 10 :: int, demo_command 1)]"
  have "\<exists>rs. mem_handle_all demo_billing ?cs demo_store = (rs, demo_issued_store)"
    by (simp add: mem_handle_all_def demo_issued_store_def mem_handle_def split: prod.split)
  then show "mem_inv demo_issued_store"
    using mem.handle_all_gapless [OF demo_store_inv, of ?cs demo_billing]
    by (auto simp: mem_handle_all_def demo_store_fresh)
  show "reservations demo_issued_store =
     [\<lparr>sr_id = ReservationId 1, sr_series_id = SeriesId 1, sr_fiscal_year = 2026, sr_number = 1,
       sr_invoice_id = InvoiceId 1, sr_status = Reserved, sr_void_reason = None, sr_reserved_at = 10,
       sr_used_at = None, sr_voided_at = None\<rparr>]"
    by (simp add: demo_issued_store_def mem_handle_def handle_def demo_command_def demo_billing_def
      demo_line_gross mem_find_series_by_code_def demo_store_eq mem_new_def demo_series_def
      args_of_command_def draft_of_command_def mem_allocate_and_insert_def fiscal_year_of_def Let_def
      u64_max_def ready_of_draft_def)
qed

theorem void_keeps_number_witness:
  "\<exists>s'. mem_void_reservation (InvoiceId 1) ''test'' 5 demo_issued_store = Inr s' \<and>
     mem_used s' = {(SeriesId 1, 2026, 1)} \<and>
     \<not> is_ok (mem_void_reservation (InvoiceId 1) ''again'' 6 s')"
proof -
  have "is_ok (mem_void_reservation (InvoiceId 1) ''test'' 5 demo_issued_store)"
    using void_keeps_number [OF demo_issued_store(1), of "InvoiceId 1" "''test''" 5]
    by (simp add: demo_issued_store(2))
  then obtain s' where s': "mem_void_reservation (InvoiceId 1) ''test'' 5 demo_issued_store = Inr s'"
    by (auto simp: is_ok_iff)
  have "mem_used demo_issued_store = {(SeriesId 1, 2026, 1)}"
    by (simp add: mem_used_def demo_issued_store(2) number_key_def)
  then show ?thesis
    using void_keeps_number [OF demo_issued_store(1), of "InvoiceId 1" "''test''" 5 "''again''" 6] s'
    by blast
qed

end
