(* ===== verification/Billing_Duckdb.thy ===== *)
theory Billing_Duckdb
  imports Billing_Issue
begin

text \<open>
  The persistent store (modules/billing/src/adapters/duckdb_store.rs): the five tables as lists of
  rows with their text and number columns, the row decoders, the allocator \<open>allocate_in_tx\<close> with
  the constraint checks of its INSERTs, and the store's other operations. A BIGINT that holds a
  \<open>u64\<close> is its 64-bit pattern. An error rolls the transaction back, so it leaves no tables. The
  tables refine the in-memory store of \<open>Billing_Store\<close>, up to what a row keeps of an invoice line.
\<close>

section \<open>Tables\<close>

record series_row =
  sv_id :: string
  sv_code :: string
  sv_policy :: string
  sv_fiscal_year :: "int option"
  sv_created_at :: string

record state_row =
  sq_series :: string
  sq_fiscal_year :: int
  sq_next :: u64
  sq_updated_at :: string

record reservation_row =
  rv_id :: string
  rv_series :: string
  rv_fiscal_year :: int
  rv_number :: u64
  rv_invoice :: string
  rv_status :: string
  rv_void_reason :: "string option"
  rv_reserved_at :: string
  rv_used_at :: "string option"
  rv_voided_at :: "string option"

record invoice_row =
  iv_id :: string
  iv_series :: string
  iv_customer :: string
  iv_issue_date :: string
  iv_number :: u64
  iv_fiscal_year :: int
  iv_idem :: string
  iv_currency :: "string option"
  iv_rate :: "rat option"
  iv_rate_source :: "string option"
  iv_rate_date :: "string option"
  iv_huf_equivalent :: "rat option"
  iv_bank_id :: "string option"
  iv_bank_currency :: "string option"
  iv_bank_number :: "string option"
  iv_bank_name :: "string option"
  iv_bank_swift :: "string option"
  iv_note :: "string option"
  iv_deadline :: "string option"
  iv_delivery :: "string option"
  iv_email :: "string option"

record line_row =
  ln_invoice :: string
  ln_ordinal :: nat
  ln_description :: string
  ln_quantity :: rat
  ln_unit_price :: int
  ln_vat :: int
  ln_note :: "string option"
  ln_vat_kind :: "string option"

record duck_db =
  dd_series :: "series_row list"
  dd_state :: "state_row list"
  dd_reservations :: "reservation_row list"
  dd_invoices :: "invoice_row list"
  dd_lines :: "line_row list"

definition duck_new :: duck_db where
  "duck_new = \<lparr>dd_series = [], dd_state = [], dd_reservations = [], dd_invoices = [], dd_lines = []\<rparr>"

text \<open>
  The libraries: ULID text, RFC 3339, the ISO date format, and what the database makes of a value
  bound to a DATE, a DECIMAL(18,6) and a DECIMAL(18,0) column and read back (None is a cast error).
\<close>

record duck_env =
  dk_billing :: billing_env
  dk_ulid_str :: "nat \<Rightarrow> string"
  dk_ulid_parse :: "string \<Rightarrow> nat option"
  dk_rfc :: "int \<Rightarrow> string"
  dk_rfc_parse :: "string \<Rightarrow> int option"
  dk_date :: "int \<Rightarrow> string"
  dk_date_parse :: "string \<Rightarrow> int option"
  dk_date_col :: "string \<Rightarrow> string option"
  dk_dec6 :: "rat \<Rightarrow> rat option"
  dk_dec0 :: "rat \<Rightarrow> rat option"

definition duck_ok :: "duck_env \<Rightarrow> bool" where
  "duck_ok env \<longleftrightarrow>
     (\<forall>n. dk_ulid_parse env (dk_ulid_str env n) = Some n) \<and>
     (\<forall>t. dk_rfc_parse env (dk_rfc env t) = Some t) \<and>
     (\<forall>d. dk_date_parse env (dk_date env d) = Some d) \<and>
     (\<forall>d. dk_date_col env (dk_date env d) = Some (dk_date env d))"

definition storage :: "string \<Rightarrow> 'a option \<Rightarrow> billing_error + 'a" where
  "storage msg r = ok_or (StorageError msg) r"

definition prefixed :: "duck_env \<Rightarrow> string \<Rightarrow> nat \<Rightarrow> string" where
  "prefixed env pre n = pre @ ''_'' @ dk_ulid_str env n"

fun series_key :: "duck_env \<Rightarrow> series_id \<Rightarrow> string" where
  "series_key env (SeriesId n) = prefixed env ''srs'' n"

fun invoice_key :: "duck_env \<Rightarrow> invoice_id \<Rightarrow> string" where
  "invoice_key env (InvoiceId n) = prefixed env ''inv'' n"

fun customer_key :: "duck_env \<Rightarrow> customer_id \<Rightarrow> string" where
  "customer_key env (CustomerId n) = prefixed env ''cus'' n"

fun reservation_key :: "duck_env \<Rightarrow> reservation_id \<Rightarrow> string" where
  "reservation_key env (ReservationId n) = prefixed env ''rsv'' n"

definition parse_prefixed_ulid :: "duck_env \<Rightarrow> string \<Rightarrow> string \<Rightarrow> billing_error + nat" where
  "parse_prefixed_ulid env pre s =
     and_then (storage ''id missing expected prefix'' (strip_prefix (pre @ ''_'') s)) (\<lambda>bare.
       storage ''id is not a valid Crockford-base32 ULID'' (dk_ulid_parse env bare))"

section \<open>Decoding\<close>

fun reset_policy_to_str :: "reset_policy \<Rightarrow> string" where
  "reset_policy_to_str Never = ''never''"
| "reset_policy_to_str AnnualOnFiscalYear = ''annual_on_fiscal_year''"

definition reset_policy_from_str :: "string \<Rightarrow> reset_policy option" where
  "reset_policy_from_str s =
     (if s = ''never'' then Some Never
      else if s = ''annual_on_fiscal_year'' then Some AnnualOnFiscalYear else None)"

definition reservation_status_from_str :: "string \<Rightarrow> reservation_status option" where
  "reservation_status_from_str s =
     (if s = ''reserved'' then Some Reserved else if s = ''used'' then Some Used
      else if s = ''voided'' then Some Voided else None)"

definition row_to_series :: "duck_env \<Rightarrow> series_row \<Rightarrow> billing_error + invoice_series" where
  "row_to_series env r =
     and_then (parse_prefixed_ulid env ''srs'' (sv_id r)) (\<lambda>u.
     and_then (storage ''series.code failed validation'' (series_code_new (sv_code r))) (\<lambda>code.
     and_then (storage ''unknown reset_policy'' (reset_policy_from_str (sv_policy r))) (\<lambda>p.
     and_then (storage ''series.created_at not RFC3339'' (dk_rfc_parse env (sv_created_at r))) (\<lambda>t.
       Inr \<lparr>is_id = SeriesId u, is_code = code, is_reset_policy = p,
            is_fiscal_year = sv_fiscal_year r, is_created_at = t\<rparr>))))"

definition opt_res :: "('a \<Rightarrow> 'e + 'b) \<Rightarrow> 'a option \<Rightarrow> 'e + 'b option" where
  "opt_res f r = (case r of None \<Rightarrow> Inr None | Some x \<Rightarrow> and_then (f x) (\<lambda>y. Inr (Some y)))"

definition row_to_reservation :: "duck_env \<Rightarrow> reservation_row \<Rightarrow> billing_error + sequence_reservation" where
  "row_to_reservation env r =
     and_then (storage ''unknown reservation.status'' (reservation_status_from_str (rv_status r))) (\<lambda>st.
     and_then (storage ''reservation.reserved_at not RFC3339'' (dk_rfc_parse env (rv_reserved_at r))) (\<lambda>t.
     and_then (opt_res (\<lambda>s. storage ''reservation.used_at not RFC3339'' (dk_rfc_parse env s)) (rv_used_at r)) (\<lambda>u.
     and_then (opt_res (\<lambda>s. storage ''reservation.voided_at not RFC3339'' (dk_rfc_parse env s)) (rv_voided_at r)) (\<lambda>v.
     and_then (parse_prefixed_ulid env ''rsv'' (rv_id r)) (\<lambda>rid.
     and_then (parse_prefixed_ulid env ''srs'' (rv_series r)) (\<lambda>sid.
     and_then (parse_prefixed_ulid env ''inv'' (rv_invoice r)) (\<lambda>iid.
       Inr \<lparr>sr_id = ReservationId rid, sr_series_id = SeriesId sid, sr_fiscal_year = rv_fiscal_year r,
            sr_number = unat (rv_number r), sr_invoice_id = InvoiceId iid, sr_status = st,
            sr_void_reason = rv_void_reason r, sr_reserved_at = t, sr_used_at = u, sr_voided_at = v\<rparr>)))))))"

text \<open>A line read back has no unit: the table has no column for it.\<close>

definition row_to_line :: "line_row \<Rightarrow> billing_error + line_item" where
  "row_to_line r =
     and_then (case ln_vat_kind r of
         None \<Rightarrow> Inr Percent
       | Some s \<Rightarrow> ok_or (Invalid ''stored invoice_line.vat_rate_kind is not a known kind'')
                    (vat_rate_kind_from_db_str s)) (\<lambda>k.
       Inr \<lparr>li_description = ln_description r, li_quantity = ln_quantity r,
            li_unit_price = Huf (ln_unit_price r), li_vat_bp = nat (ln_vat r mod 65536),
            li_vat_kind = k, li_note = ln_note r, li_unit = None\<rparr>)"

definition load_date :: "duck_env \<Rightarrow> string \<Rightarrow> int \<Rightarrow> string option \<Rightarrow> billing_error + int" where
  \<comment> \<open>a NULL date falls back to the date of issue\<close>
  "load_date env msg issue_date s =
     (case s of None \<Rightarrow> Inr (be_date (dk_billing env) issue_date)
      | Some t \<Rightarrow> ok_or (Invalid msg) (dk_date_parse env t))"

definition load_invoice :: "duck_env \<Rightarrow> duck_db \<Rightarrow> string \<Rightarrow> billing_error + ready_invoice" where
  "load_invoice env d iid =
     and_then (ok_or (Invalid ''invoice missing for idempotency hit'')
                 (select_one (\<lambda>r. iv_id r = iid) (dd_invoices d))) (\<lambda>r.
     and_then (collect_res (map row_to_line
                 (sort_key ln_ordinal (filter (\<lambda>l. ln_invoice l = iid) (dd_lines d))))) (\<lambda>lines.
     and_then (ok_or TimeParse (dk_rfc_parse env (iv_issue_date r))) (\<lambda>t.
     and_then (load_date env ''invoice.payment_deadline not YYYY-MM-DD'' t (iv_deadline r)) (\<lambda>deadline.
     and_then (load_date env ''invoice.delivery_date not YYYY-MM-DD'' t (iv_delivery r)) (\<lambda>delivery.
     and_then (parse_prefixed_ulid env ''inv'' iid) (\<lambda>i.
     and_then (parse_prefixed_ulid env ''srs'' (iv_series r)) (\<lambda>s.
     and_then (parse_prefixed_ulid env ''cus'' (iv_customer r)) (\<lambda>c.
       Inr \<lparr>ri_id = InvoiceId i, ri_series_id = SeriesId s, ri_customer_id = CustomerId c,
            ri_lines = lines, ri_issue_date = t, ri_payment_deadline = deadline,
            ri_delivery_date = delivery, ri_sequence_number = unat (iv_number r),
            ri_fiscal_year = iv_fiscal_year r\<rparr>))))))))"

definition load_reservation_by_invoice :: "duck_env \<Rightarrow> duck_db \<Rightarrow> string \<Rightarrow> billing_error + sequence_reservation" where
  "load_reservation_by_invoice env d iid =
     and_then (ok_or (Invalid ''reservation missing for idempotency hit'')
                 (select_one (\<lambda>r. rv_invoice r = iid) (dd_reservations d))) (row_to_reservation env)"

definition load_ready_invoice_by_id ::
  "duck_env \<Rightarrow> duck_db \<Rightarrow> string \<Rightarrow> billing_error + (ready_invoice \<times> idem_key) option" where
  "load_ready_invoice_by_id env d iid =
     (case select_one (\<lambda>r. iv_id r = iid) (dd_invoices d) of
        None \<Rightarrow> Inr None
      | Some r \<Rightarrow>
          and_then (ok_or (Invalid ''stored idempotency_key failed to parse - DB has been hand-edited'')
                     (idem_from_canonical_string (dk_ulid_parse env) (iv_idem r))) (\<lambda>k.
          and_then (load_invoice env d iid) (\<lambda>i. Inr (Some (i, k)))))"

definition load_invoice_note_in_tx :: "duck_db \<Rightarrow> string \<Rightarrow> string option" where
  "load_invoice_note_in_tx d iid =
     (case select_one (\<lambda>r. iv_id r = iid) (dd_invoices d) of None \<Rightarrow> None | Some r \<Rightarrow> iv_note r)"

definition load_email_recipient_override_in_tx :: "duck_db \<Rightarrow> string \<Rightarrow> string option" where
  "load_email_recipient_override_in_tx d iid =
     (case select_one (\<lambda>r. iv_id r = iid) (dd_invoices d) of None \<Rightarrow> None | Some r \<Rightarrow> iv_email r)"

section \<open>Inserting under the constraints\<close>

definition insert_unique ::
  "('r \<Rightarrow> 'r \<Rightarrow> bool) \<Rightarrow> 'r \<Rightarrow> 'r list \<Rightarrow> billing_error + 'r list" where
  \<comment> \<open>an INSERT that violates a PRIMARY KEY or UNIQUE constraint fails\<close>
  "insert_unique clash r t =
     and_then (check (\<not> list_ex (clash r) t) (StorageError ''constraint violation'')) (\<lambda>_. Inr (t @ [r]))"

definition series_clash :: "series_row \<Rightarrow> series_row \<Rightarrow> bool" where
  "series_clash a b \<longleftrightarrow> sv_id a = sv_id b \<or> sv_code a = sv_code b"

definition state_clash :: "state_row \<Rightarrow> state_row \<Rightarrow> bool" where
  "state_clash a b \<longleftrightarrow> sq_series a = sq_series b \<and> sq_fiscal_year a = sq_fiscal_year b"

definition reservation_clash :: "reservation_row \<Rightarrow> reservation_row \<Rightarrow> bool" where
  "reservation_clash a b \<longleftrightarrow> rv_id a = rv_id b \<or> rv_invoice a = rv_invoice b \<or>
     (rv_series a = rv_series b \<and> rv_fiscal_year a = rv_fiscal_year b \<and> rv_number a = rv_number b)"

definition invoice_clash :: "invoice_row \<Rightarrow> invoice_row \<Rightarrow> bool" where
  "invoice_clash a b \<longleftrightarrow> iv_id a = iv_id b \<or> iv_idem a = iv_idem b \<or>
     (iv_series a = iv_series b \<and> iv_fiscal_year a = iv_fiscal_year b \<and> iv_number a = iv_number b)"

definition line_clash :: "line_row \<Rightarrow> line_row \<Rightarrow> bool" where
  "line_clash a b \<longleftrightarrow> ln_invoice a = ln_invoice b \<and> ln_ordinal a = ln_ordinal b"

section \<open>The allocator\<close>

definition resolve_bucket ::
  "duck_env \<Rightarrow> duck_db \<Rightarrow> series_id \<Rightarrow> int \<Rightarrow> billing_error + string \<times> int" where
  "resolve_bucket env d sid issue_year =
     (case select_one (\<lambda>r. sv_id r = series_key env sid) (dd_series d) of
        None \<Rightarrow> Inl (SeriesNotFound (series_key env sid))
      | Some r \<Rightarrow>
          and_then (row_to_series env r) (\<lambda>sr.
            Inr (series_key env (is_id sr),
                 case is_reset_policy sr of Never \<Rightarrow> 0 | AnnualOnFiscalYear \<Rightarrow> issue_year)))"

definition in_bucket :: "string \<Rightarrow> int \<Rightarrow> state_row \<Rightarrow> bool" where
  "in_bucket sid fy r \<longleftrightarrow> sq_series r = sid \<and> sq_fiscal_year r = fy"

definition peek_next_number ::
  "duck_env \<Rightarrow> duck_db \<Rightarrow> series_id \<Rightarrow> int \<Rightarrow> nat \<Rightarrow> billing_error + nat" where
  "peek_next_number env d sid issue_year start_value =
     and_then (resolve_bucket env d sid issue_year) (\<lambda>(sid_str, fy).
       case select_one (in_bucket sid_str fy) (dd_state d) of
         Some r \<Rightarrow> Inr (max (unat (sq_next r)) start_value)
       | None \<Rightarrow> Inr (max start_value 1))"

definition read_or_seed ::
  "string \<Rightarrow> int \<Rightarrow> nat \<Rightarrow> string \<Rightarrow> duck_db \<Rightarrow> billing_error + nat \<times> duck_db" where
  "read_or_seed sid_str fy start_value now_str d =
     (case select_one (in_bucket sid_str fy) (dd_state d) of
        Some r \<Rightarrow> Inr (unat (sq_next r), d)
      | None \<Rightarrow>
          (let seed = max start_value 1
           in and_then (insert_unique state_clash
                \<lparr>sq_series = sid_str, sq_fiscal_year = fy, sq_next = of_nat seed, sq_updated_at = now_str\<rparr>
                (dd_state d)) (\<lambda>t. Inr (seed, d\<lparr>dd_state := t\<rparr>))))"

definition advance_counter :: "string \<Rightarrow> int \<Rightarrow> nat \<Rightarrow> string \<Rightarrow> duck_db \<Rightarrow> duck_db" where
  \<comment> \<open>\<open>(allocated + 1) as i64\<close>: the sum wraps at 64 bits\<close>
  "advance_counter sid_str fy allocated now_str d =
     d\<lparr>dd_state := update_where (in_bucket sid_str fy)
        (\<lambda>r. r\<lparr>sq_next := of_nat (allocated + 1), sq_updated_at := now_str\<rparr>) (dd_state d)\<rparr>"

definition insert_reservation ::
  "duck_env \<Rightarrow> reservation_id \<Rightarrow> string \<Rightarrow> int \<Rightarrow> nat \<Rightarrow> invoice_id \<Rightarrow> string \<Rightarrow> duck_db \<Rightarrow>
   billing_error + duck_db" where
  "insert_reservation env rid sid_str fy allocated iid now_str d =
     and_then (insert_unique reservation_clash
       \<lparr>rv_id = reservation_key env rid, rv_series = sid_str, rv_fiscal_year = fy,
        rv_number = of_nat allocated, rv_invoice = invoice_key env iid, rv_status = ''reserved'',
        rv_void_reason = None, rv_reserved_at = now_str, rv_used_at = None, rv_voided_at = None\<rparr>
       (dd_reservations d)) (\<lambda>t. Inr (d\<lparr>dd_reservations := t\<rparr>))"

definition insert_invoice ::
  "duck_env \<Rightarrow> allocate_args \<Rightarrow> string \<Rightarrow> int \<Rightarrow> nat \<Rightarrow> duck_db \<Rightarrow> billing_error + duck_db" where
  "insert_invoice env args sid_str fy allocated d =
     (let dr = aa_draft args; bank = aa_bank_snapshot args; rate = aa_rate_metadata args
      in and_then (opt_res (\<lambda>r. storage ''cast'' (dk_dec6 env (rm_rate r))) rate) (\<lambda>rate_val.
         and_then (opt_res (\<lambda>r. storage ''cast'' (dk_date_col env (dk_date env (rm_date r)))) rate) (\<lambda>rate_date.
         and_then (opt_res (\<lambda>r. storage ''cast'' (dk_dec0 env (of_int (rm_huf_equivalent_total r)))) rate) (\<lambda>huf_eq.
         and_then (storage ''cast'' (dk_date_col env (dk_date env (di_payment_deadline dr)))) (\<lambda>deadline.
         and_then (storage ''cast'' (dk_date_col env (dk_date env (di_delivery_date dr)))) (\<lambda>delivery.
         and_then (insert_unique invoice_clash
           \<lparr>iv_id = invoice_key env (di_id dr), iv_series = sid_str,
            iv_customer = customer_key env (di_customer_id dr),
            iv_issue_date = dk_rfc env (di_issue_date dr), iv_number = of_nat allocated,
            iv_fiscal_year = fy, iv_idem = idem_to_canonical_string (dk_ulid_str env) (aa_key args),
            iv_currency = Some (iso_code (aa_currency args)), iv_rate = rate_val,
            iv_rate_source = map_option rm_source rate, iv_rate_date = rate_date,
            iv_huf_equivalent = huf_eq, iv_bank_id = map_option ba_id bank,
            iv_bank_currency = map_option ba_currency bank,
            iv_bank_number = map_option ba_account_number bank,
            iv_bank_name = map_option ba_bank_name bank, iv_bank_swift = map_option ba_swift_bic bank,
            iv_note = aa_invoice_note args, iv_deadline = Some deadline, iv_delivery = Some delivery,
            iv_email = aa_email_override args\<rparr>
           (dd_invoices d)) (\<lambda>t. Inr (d\<lparr>dd_invoices := t\<rparr>))))))))"

definition line_to_row :: "string \<Rightarrow> nat \<Rightarrow> line_item \<Rightarrow> rat \<Rightarrow> line_row" where
  "line_to_row iid ordinal l q =
     \<lparr>ln_invoice = iid, ln_ordinal = ordinal, ln_description = li_description l, ln_quantity = q,
      ln_unit_price = huf_as_i64 (li_unit_price l), ln_vat = int (li_vat_bp l), ln_note = li_note l,
      ln_vat_kind = Some (vat_rate_kind_as_str (li_vat_kind l))\<rparr>"

fun insert_lines ::
  "duck_env \<Rightarrow> string \<Rightarrow> nat \<Rightarrow> line_item list \<Rightarrow> duck_db \<Rightarrow> billing_error + duck_db" where
  "insert_lines env iid ordinal [] d = Inr d"
| "insert_lines env iid ordinal (l # ls) d =
     and_then (storage ''cast'' (dk_dec6 env (li_quantity l))) (\<lambda>q.
     and_then (insert_unique line_clash (line_to_row iid ordinal l q) (dd_lines d)) (\<lambda>t.
       insert_lines env iid (Suc ordinal) ls (d\<lparr>dd_lines := t\<rparr>)))"

definition allocate_new ::
  "duck_env \<Rightarrow> reservation_id \<Rightarrow> allocate_args \<Rightarrow> int \<Rightarrow> duck_db \<Rightarrow>
   billing_error + allocate_outcome \<times> duck_db" where
  "allocate_new env rid args now d =
     (let dr = aa_draft args; now_str = dk_rfc env now
      in and_then (resolve_bucket env d (aa_series_id args) (be_year (dk_billing env) (di_issue_date dr)))
           (\<lambda>(sid_str, fy).
         and_then (read_or_seed sid_str fy (aa_start_value args) now_str d) (\<lambda>(next, d1).
           let allocated = max (max next (aa_start_value args))
                             (case aa_sequence_floor args of Some f \<Rightarrow> f | None \<Rightarrow> 0);
               d2 = advance_counter sid_str fy allocated now_str d1
           in and_then (insert_reservation env rid sid_str fy allocated (di_id dr) now_str d2) (\<lambda>d3.
              and_then (check (aa_currency args = CurrencyHuf \<or> aa_rate_metadata args \<noteq> None)
                 (Invalid ''non-HUF invoice requires AllocateArgs.rate_metadata (ADR-0037 4 C1)'')) (\<lambda>_.
              and_then (insert_invoice env args sid_str fy allocated d3) (\<lambda>d4.
              and_then (insert_lines env (invoice_key env (di_id dr)) 0 (di_lines dr) d4) (\<lambda>d5.
                Inr (Fresh (ready_of_draft dr allocated fy)
                       \<lparr>sr_id = rid, sr_series_id = aa_series_id args, sr_fiscal_year = fy,
                        sr_number = allocated, sr_invoice_id = di_id dr, sr_status = Reserved,
                        sr_void_reason = None, sr_reserved_at = now, sr_used_at = None,
                        sr_voided_at = None\<rparr>, d5))))))))"

definition allocate_in_tx ::
  "duck_env \<Rightarrow> reservation_id \<Rightarrow> allocate_args \<Rightarrow> int \<Rightarrow> duck_db \<Rightarrow>
   billing_error + allocate_outcome \<times> duck_db" where
  "allocate_in_tx env rid args now d =
     and_then (check (di_lines (aa_draft args) \<noteq> [])
        (Invalid ''DraftInvoice.lines must contain at least one line item'')) (\<lambda>_.
     and_then (case first_overflow (be_decimal (dk_billing env)) 0 (di_lines (aa_draft args)) of
          Some i \<Rightarrow> Inl (MoneyOverflow i) | None \<Rightarrow> Inr ()) (\<lambda>_.
     case select_one (\<lambda>r. iv_idem r = idem_to_canonical_string (dk_ulid_str env) (aa_key args)) (dd_invoices d) of
       Some prior \<Rightarrow>
         and_then (load_invoice env d (iv_id prior)) (\<lambda>i.
         and_then (load_reservation_by_invoice env d (iv_id prior)) (\<lambda>r. Inr (Replay i r, d)))
     | None \<Rightarrow> allocate_new env rid args now d))"

section \<open>The store's operations\<close>

definition duck_allocate_and_insert ::
  "duck_env \<Rightarrow> reservation_id \<Rightarrow> allocate_args \<Rightarrow> int \<Rightarrow> duck_db \<Rightarrow>
   (billing_error + allocate_outcome) \<times> duck_db" where
  "duck_allocate_and_insert env rid args now d =
     (case allocate_in_tx env rid args now d of Inl e \<Rightarrow> (Inl e, d) | Inr (out, d') \<Rightarrow> (Inr out, d'))"

definition duck_create_series :: "duck_env \<Rightarrow> invoice_series \<Rightarrow> duck_db \<Rightarrow> billing_error + duck_db" where
  "duck_create_series env sr d =
     and_then (insert_unique series_clash
       \<lparr>sv_id = series_key env (is_id sr), sv_code = series_code_str (is_code sr),
        sv_policy = reset_policy_to_str (is_reset_policy sr), sv_fiscal_year = is_fiscal_year sr,
        sv_created_at = dk_rfc env (is_created_at sr)\<rparr> (dd_series d)) (\<lambda>t. Inr (d\<lparr>dd_series := t\<rparr>))"

definition duck_find_series_by_code ::
  "duck_env \<Rightarrow> series_code \<Rightarrow> duck_db \<Rightarrow> billing_error + invoice_series option" where
  "duck_find_series_by_code env c d =
     opt_res (row_to_series env) (select_one (\<lambda>r. sv_code r = series_code_str c) (dd_series d))"

definition duck_find_series_by_id ::
  "duck_env \<Rightarrow> series_id \<Rightarrow> duck_db \<Rightarrow> billing_error + invoice_series option" where
  "duck_find_series_by_id env i d =
     opt_res (row_to_series env) (select_one (\<lambda>r. sv_id r = series_key env i) (dd_series d))"

definition duck_update_series_reset_policy ::
  "duck_env \<Rightarrow> series_id \<Rightarrow> reset_policy \<Rightarrow> duck_db \<Rightarrow> billing_error + duck_db" where
  "duck_update_series_reset_policy env i p d =
     and_then (check (count_where (\<lambda>r. sv_id r = series_key env i) (dd_series d) = 1)
        (SeriesNotFound (series_key env i))) (\<lambda>_.
       Inr (d\<lparr>dd_series := update_where (\<lambda>r. sv_id r = series_key env i)
                (\<lambda>r. r\<lparr>sv_policy := reset_policy_to_str p\<rparr>) (dd_series d)\<rparr>))"

definition duck_void_reservation ::
  "duck_env \<Rightarrow> invoice_id \<Rightarrow> string \<Rightarrow> int \<Rightarrow> duck_db \<Rightarrow> billing_error + duck_db" where
  "duck_void_reservation env iid reason voided_at d =
     (let hit = (\<lambda>r. rv_invoice r = invoice_key env iid \<and> rv_status r = ''reserved'')
      in and_then (check (count_where hit (dd_reservations d) = 1)
           (Invalid ''no Reserved reservation found for that invoice_id'')) (\<lambda>_.
         Inr (d\<lparr>dd_reservations := update_where hit
                (\<lambda>r. r\<lparr>rv_status := ''voided'', rv_void_reason := Some reason,
                       rv_voided_at := Some (dk_rfc env voided_at)\<rparr>) (dd_reservations d)\<rparr>)))"

definition duck_list_reservations ::
  "duck_env \<Rightarrow> series_id \<Rightarrow> duck_db \<Rightarrow> billing_error + sequence_reservation list" where
  "duck_list_reservations env sid d =
     collect_res (map (row_to_reservation env)
       (sort_key (\<lambda>r. (rv_fiscal_year r, sint (rv_number r)))
         (filter (\<lambda>r. rv_series r = series_key env sid) (dd_reservations d))))"

end
