(* ===== verification/Billing_Duckdb_Refinement.thy ===== *)
theory Billing_Duckdb_Refinement
  imports Billing_Duckdb
begin

text \<open>
  The tables refine the in-memory store: \<open>duck_rep\<close> relates tables to a memory store that
  holds what the tables keep of every invoice (quantities as the DECIMAL column rounds them, no
  units), every successful allocation is an allocation of the memory store, and allocation succeeds
  whenever the constraints let it. Through the refinement the tables keep the contract
  \<open>billing_store\<close>.
\<close>

section \<open>Rows and values\<close>

definition row_of_series :: "duck_env \<Rightarrow> invoice_series \<Rightarrow> series_row" where
  "row_of_series env sr =
     \<lparr>sv_id = series_key env (is_id sr), sv_code = series_code_str (is_code sr),
      sv_policy = reset_policy_to_str (is_reset_policy sr), sv_fiscal_year = is_fiscal_year sr,
      sv_created_at = dk_rfc env (is_created_at sr)\<rparr>"

definition code_ok :: "series_code \<Rightarrow> bool" where
  \<comment> \<open>the values of the type \<open>SeriesCode\<close>, which only its constructor function makes\<close>
  "code_ok c \<longleftrightarrow> series_code_new (series_code_str c) = Some c"

fun status_str :: "reservation_status \<Rightarrow> string" where
  "status_str Reserved = ''reserved''"
| "status_str Used = ''used''"
| "status_str Voided = ''voided''"

definition row_of_reservation :: "duck_env \<Rightarrow> sequence_reservation \<Rightarrow> reservation_row" where
  "row_of_reservation env r =
     \<lparr>rv_id = reservation_key env (sr_id r), rv_series = series_key env (sr_series_id r),
      rv_fiscal_year = sr_fiscal_year r, rv_number = of_nat (sr_number r),
      rv_invoice = invoice_key env (sr_invoice_id r), rv_status = status_str (sr_status r),
      rv_void_reason = sr_void_reason r, rv_reserved_at = dk_rfc env (sr_reserved_at r),
      rv_used_at = map_option (dk_rfc env) (sr_used_at r),
      rv_voided_at = map_option (dk_rfc env) (sr_voided_at r)\<rparr>"

definition stored_line :: "duck_env \<Rightarrow> line_item \<Rightarrow> line_item" where
  "stored_line env l =
     l\<lparr>li_quantity := (case dk_dec6 env (li_quantity l) of Some q \<Rightarrow> q | None \<Rightarrow> li_quantity l),
       li_vat_bp := li_vat_bp l mod 65536, li_unit := None\<rparr>"

definition stored_draft :: "duck_env \<Rightarrow> draft_invoice \<Rightarrow> draft_invoice" where
  "stored_draft env dr = dr\<lparr>di_lines := map (stored_line env) (di_lines dr)\<rparr>"

definition stored_args :: "duck_env \<Rightarrow> allocate_args \<Rightarrow> allocate_args" where
  "stored_args env a = a\<lparr>aa_draft := stored_draft env (aa_draft a)\<rparr>"

definition stored_invoice :: "duck_env \<Rightarrow> ready_invoice \<Rightarrow> ready_invoice" where
  "stored_invoice env i = i\<lparr>ri_lines := map (stored_line env) (ri_lines i)\<rparr>"

fun stored_outcome :: "duck_env \<Rightarrow> allocate_outcome \<Rightarrow> allocate_outcome" where
  "stored_outcome env (Fresh i r) = Fresh (stored_invoice env i) r"
| "stored_outcome env (Replay i r) = Replay i r"

lemma duck_okD:
  assumes "duck_ok env"
  shows "dk_ulid_parse env (dk_ulid_str env n) = Some n" "dk_rfc_parse env (dk_rfc env t) = Some t"
    "dk_date_parse env (dk_date env t) = Some t" "dk_date_col env (dk_date env t) = Some (dk_date env t)"
  using assms by (auto simp: duck_ok_def)

lemma storage_eq [simp]: "storage msg r = Inr x \<longleftrightarrow> r = Some x" "storage msg (Some x) = Inr x"
  by (simp_all add: storage_def)

lemma parse_prefixed: "duck_ok env \<Longrightarrow> parse_prefixed_ulid env pre (prefixed env pre n) = Inr n"
proof -
  assume ok: "duck_ok env"
  have "strip_prefix (pre @ ''_'') ((pre @ ''_'') @ dk_ulid_str env n) = Some (dk_ulid_str env n)"
    by (rule strip_prefix_append)
  then have "strip_prefix (pre @ ''_'') (prefixed env pre n) = Some (dk_ulid_str env n)"
    by (simp add: prefixed_def)
  then show ?thesis
    using duck_okD(1) [OF ok, of n] by (simp add: parse_prefixed_ulid_def)
qed

lemma prefixed_inject: "duck_ok env \<Longrightarrow> prefixed env pre m = prefixed env pre n \<longleftrightarrow> m = n"
  by (metis parse_prefixed sum.inject(2))

lemma key_inject:
  assumes "duck_ok env"
  shows "series_key env a = series_key env b \<longleftrightarrow> a = b" "invoice_key env i = invoice_key env j \<longleftrightarrow> i = j"
    "reservation_key env r = reservation_key env s \<longleftrightarrow> r = s"
proof -
  show "series_key env a = series_key env b \<longleftrightarrow> a = b"
    by (cases a; cases b) (simp add: prefixed_inject assms)
  show "invoice_key env i = invoice_key env j \<longleftrightarrow> i = j"
    by (cases i; cases j) (simp add: prefixed_inject assms)
  show "reservation_key env r = reservation_key env s \<longleftrightarrow> r = s"
    by (cases r; cases s) (simp add: prefixed_inject assms)
qed

lemma parse_keys:
  assumes "duck_ok env"
  shows "\<exists>n. parse_prefixed_ulid env ''srs'' (series_key env a) = Inr n \<and> SeriesId n = a"
    "\<exists>n. parse_prefixed_ulid env ''inv'' (invoice_key env i) = Inr n \<and> InvoiceId n = i"
    "\<exists>n. parse_prefixed_ulid env ''cus'' (customer_key env c) = Inr n \<and> CustomerId n = c"
    "\<exists>n. parse_prefixed_ulid env ''rsv'' (reservation_key env r) = Inr n \<and> ReservationId n = r"
proof -
  show "\<exists>n. parse_prefixed_ulid env ''srs'' (series_key env a) = Inr n \<and> SeriesId n = a"
    by (cases a) (simp add: parse_prefixed assms)
  show "\<exists>n. parse_prefixed_ulid env ''inv'' (invoice_key env i) = Inr n \<and> InvoiceId n = i"
    by (cases i) (simp add: parse_prefixed assms)
  show "\<exists>n. parse_prefixed_ulid env ''cus'' (customer_key env c) = Inr n \<and> CustomerId n = c"
    by (cases c) (simp add: parse_prefixed assms)
  show "\<exists>n. parse_prefixed_ulid env ''rsv'' (reservation_key env r) = Inr n \<and> ReservationId n = r"
    by (cases r) (simp add: parse_prefixed assms)
qed

lemma idem_inject:
  "duck_ok env \<Longrightarrow> idem_to_canonical_string (dk_ulid_str env) j = idem_to_canonical_string (dk_ulid_str env) k \<longleftrightarrow> j = k"
  by (metis duck_okD(1) idem_to_canonical_string_def option.inject same_append_eq)

lemma decode_series:
  assumes "duck_ok env" and "code_ok (is_code sr)"
  shows "row_to_series env (row_of_series env sr) = Inr sr"
proof -
  obtain n where "parse_prefixed_ulid env ''srs'' (series_key env (is_id sr)) = Inr n" "SeriesId n = is_id sr"
    using parse_keys(1) [OF assms(1)] by blast
  moreover have "reset_policy_from_str (reset_policy_to_str p) = Some p" for p
    by (cases p) (simp_all add: reset_policy_from_str_def)
  ultimately show ?thesis using assms
    by (simp add: row_to_series_def row_of_series_def code_ok_def duck_okD)
qed

lemma opt_res_rfc: "duck_ok env \<Longrightarrow> opt_res (\<lambda>s. storage msg (dk_rfc_parse env s)) (map_option (dk_rfc env) t) = Inr t"
  by (cases t) (simp_all add: opt_res_def duck_okD)

lemma decode_reservation:
  assumes "duck_ok env" and "sr_number r \<le> u64_max"
  shows "row_to_reservation env (row_of_reservation env r) = Inr r"
proof -
  obtain a b c where "parse_prefixed_ulid env ''rsv'' (reservation_key env (sr_id r)) = Inr a" "ReservationId a = sr_id r"
    "parse_prefixed_ulid env ''srs'' (series_key env (sr_series_id r)) = Inr b" "SeriesId b = sr_series_id r"
    "parse_prefixed_ulid env ''inv'' (invoice_key env (sr_invoice_id r)) = Inr c" "InvoiceId c = sr_invoice_id r"
    using parse_keys [OF assms(1)] by metis
  moreover have "reservation_status_from_str (status_str st) = Some st" for st
    by (cases st) (simp_all add: reservation_status_from_str_def)
  moreover have "unat (of_nat (sr_number r) :: u64) = sr_number r"
    using assms(2) by (intro unat_of_nat64) (simp add: u64_max_def)
  ultimately show ?thesis using assms(1)
    by (simp add: row_to_reservation_def row_of_reservation_def opt_res_rfc duck_okD)
qed

lemma decode_line:
  "dk_dec6 env (li_quantity l) = Some q \<Longrightarrow> row_to_line (line_to_row iid n l q) = Inr (stored_line env l)"
proof -
  have "vat_rate_kind_from_db_str (vat_rate_kind_as_str k) = Some k" for k
    using vat_codec.from_as [of k] by (cases "vat_rate_kind_from_db_str (vat_rate_kind_as_str k)") simp_all
  moreover have "nat (int n mod 65536) = n mod 65536" for n :: nat
    by (metis nat_int of_nat_numeral zmod_int)
  ultimately show "dk_dec6 env (li_quantity l) = Some q \<Longrightarrow> row_to_line (line_to_row iid n l q) = Inr (stored_line env l)"
    by (cases l) (simp add: row_to_line_def line_to_row_def stored_line_def)
qed

section \<open>The abstraction\<close>

definition rep_series :: "duck_env \<Rightarrow> series_row list \<Rightarrow> mem_store \<Rightarrow> bool" where
  "rep_series env t m \<longleftrightarrow>
     (\<exists>srs. t = map (row_of_series env) srs \<and> (\<forall>s \<in> set srs. code_ok (is_code s)) \<and>
        distinct (map is_id srs) \<and> series_by_id m = map_of (map (\<lambda>s. (is_id s, s)) srs) \<and>
        series_by_code m = map_of (map (\<lambda>s. (series_code_str (is_code s), is_id s)) srs))"

definition rep_state :: "duck_env \<Rightarrow> state_row list \<Rightarrow> mem_store \<Rightarrow> bool" where
  "rep_state env t m \<longleftrightarrow>
     (\<forall>i fy. map_option (\<lambda>r. unat (sq_next r)) (select_one (in_bucket (series_key env i) fy) t) =
             next_number m (i, fy))"

definition rep_reservations :: "duck_env \<Rightarrow> reservation_row list \<Rightarrow> mem_store \<Rightarrow> bool" where
  "rep_reservations env t m \<longleftrightarrow> t = map (row_of_reservation env) (reservations m)"

definition invoice_row_of :: "duck_env \<Rightarrow> invoice_row \<Rightarrow> ready_invoice \<Rightarrow> idem_key \<Rightarrow> bool" where
  "invoice_row_of env r i k \<longleftrightarrow>
     iv_id r = invoice_key env (ri_id i) \<and> iv_series r = series_key env (ri_series_id i) \<and>
     iv_customer r = customer_key env (ri_customer_id i) \<and>
     iv_issue_date r = dk_rfc env (ri_issue_date i) \<and>
     iv_number r = of_nat (ri_sequence_number i) \<and> ri_sequence_number i \<le> u64_max \<and>
     iv_fiscal_year r = ri_fiscal_year i \<and> iv_idem r = idem_to_canonical_string (dk_ulid_str env) k \<and>
     iv_deadline r = Some (dk_date env (ri_payment_deadline i)) \<and>
     iv_delivery r = Some (dk_date env (ri_delivery_date i))"

definition lines_of :: "line_row list \<Rightarrow> string \<Rightarrow> line_row list" where
  "lines_of t iid = sort_key ln_ordinal (filter (\<lambda>l. ln_invoice l = iid) t)"

definition rep_row :: "duck_env \<Rightarrow> line_row list \<Rightarrow> mem_store \<Rightarrow> invoice_row \<times> ready_invoice \<times> idem_key \<Rightarrow> bool" where
  "rep_row env ls m x \<longleftrightarrow>
     (let (r, i, k) = x
      in invoice_row_of env r i k \<and>
         collect_res (map row_to_line (lines_of ls (iv_id r))) = Inr (ri_lines i) \<and>
         invoices m (ri_id i) = Some i \<and> (\<exists>rid. idempotency m k = Some (ri_id i, rid)))"

definition rep_ivs ::
  "duck_env \<Rightarrow> invoice_row list \<Rightarrow> line_row list \<Rightarrow> mem_store \<Rightarrow> (invoice_row \<times> ready_invoice \<times> idem_key) list \<Rightarrow> bool" where
  "rep_ivs env t ls m ivs \<longleftrightarrow>
     t = map fst ivs \<and> (\<forall>x \<in> set ivs. rep_row env ls m x) \<and>
     (\<forall>k iid rid. idempotency m k = Some (iid, rid) \<longrightarrow> (\<exists>r i. (r, i, k) \<in> set ivs \<and> ri_id i = iid)) \<and>
     (\<forall>iid i. invoices m iid = Some i \<longrightarrow> (\<exists>r k. (r, i, k) \<in> set ivs \<and> ri_id i = iid)) \<and>
     (\<forall>l \<in> set ls. \<exists>r \<in> set t. ln_invoice l = iv_id r)"

definition rep_invoices :: "duck_env \<Rightarrow> invoice_row list \<Rightarrow> line_row list \<Rightarrow> mem_store \<Rightarrow> bool" where
  "rep_invoices env t ls m \<longleftrightarrow> (\<exists>ivs. rep_ivs env t ls m ivs)"

text \<open>Every invoice row has a reservation row for its number.\<close>

definition backs :: "invoice_row \<Rightarrow> reservation_row \<Rightarrow> bool" where
  "backs r q \<longleftrightarrow> rv_invoice q = iv_id r \<and> rv_series q = iv_series r \<and>
     rv_fiscal_year q = iv_fiscal_year r \<and> rv_number q = iv_number r"

definition backed :: "invoice_row list \<Rightarrow> reservation_row list \<Rightarrow> bool" where
  "backed t qs \<longleftrightarrow> (\<forall>r \<in> set t. \<exists>q \<in> set qs. backs r q)"

definition duck_rep :: "duck_env \<Rightarrow> duck_db \<Rightarrow> mem_store \<Rightarrow> bool" where
  "duck_rep env d m \<longleftrightarrow>
     rep_series env (dd_series d) m \<and> rep_state env (dd_state d) m \<and>
     rep_reservations env (dd_reservations d) m \<and> rep_invoices env (dd_invoices d) (dd_lines d) m \<and>
     backed (dd_invoices d) (dd_reservations d)"

lemma duck_rep_new: "duck_rep env duck_new mem_new"
  by (simp add: duck_rep_def rep_series_def rep_state_def rep_reservations_def rep_invoices_def
      rep_ivs_def backed_def duck_new_def mem_new_def)

lemma map_of_find: "map_of (map (\<lambda>x. (f x, g x)) xs) a = map_option g (find (\<lambda>x. f x = a) xs)"
  by (induction xs) auto

lemma select_one_map: "select_one p (map f xs) = map_option f (find (p \<circ> f) xs)"
  by (induction xs) auto

lemma rep_series_select:
  assumes "duck_ok env" and "rep_series env t m"
  shows "select_one (\<lambda>r. sv_id r = series_key env i) t = map_option (row_of_series env) (series_by_id m i)"
    and "series_by_id m i = Some sr \<Longrightarrow> code_ok (is_code sr)"
proof -
  obtain srs where t: "t = map (row_of_series env) srs" and ok: "\<forall>s \<in> set srs. code_ok (is_code s)"
    and m: "series_by_id m = map_of (map (\<lambda>s. (is_id s, s)) srs)"
    using assms(2) by (auto simp: rep_series_def)
  have "(\<lambda>r. sv_id r = series_key env i) \<circ> row_of_series env = (\<lambda>s. is_id s = i)"
    by (rule ext) (simp add: row_of_series_def key_inject [OF assms(1)])
  then show "select_one (\<lambda>r. sv_id r = series_key env i) t = map_option (row_of_series env) (series_by_id m i)"
    by (simp add: t m select_one_map map_of_find option.map_ident)
  show "series_by_id m i = Some sr \<Longrightarrow> code_ok (is_code sr)"
    using ok by (auto simp: m map_of_find find_Some_iff)
qed

lemma rep_find_code:
  assumes "duck_ok env" and "duck_rep env d m"
  shows "duck_find_series_by_code env c d = Inr (mem_find_series_by_code c m)"
proof -
  obtain srs where t: "dd_series d = map (row_of_series env) srs" and ok: "\<forall>s \<in> set srs. code_ok (is_code s)"
    and dist: "distinct (map is_id srs)" and m: "series_by_id m = map_of (map (\<lambda>s. (is_id s, s)) srs)"
    "series_by_code m = map_of (map (\<lambda>s. (series_code_str (is_code s), is_id s)) srs)"
    using assms(2) by (auto simp: duck_rep_def rep_series_def)
  have p: "(\<lambda>r. sv_code r = series_code_str c) \<circ> row_of_series env =
      (\<lambda>s. series_code_str (is_code s) = series_code_str c)"
    by (rule ext) (simp add: row_of_series_def)
  show ?thesis
  proof (cases "find (\<lambda>s. series_code_str (is_code s) = series_code_str c) srs")
    case None
    then show ?thesis
      by (simp add: duck_find_series_by_code_def mem_find_series_by_code_def t m select_one_map p
          map_of_find opt_res_def)
  next
    case (Some s)
    then have s: "s \<in> set srs" by (auto simp: find_Some_iff)
    then have "find (\<lambda>x. is_id x = is_id s) srs = Some s" using dist by (intro find_unique)
    then show ?thesis using Some s ok decode_series [OF assms(1), of s]
      by (simp add: duck_find_series_by_code_def mem_find_series_by_code_def t m select_one_map p
          map_of_find opt_res_def)
  qed
qed

lemma resolve_bucket_rep:
  assumes "duck_ok env" and "duck_rep env d m" and "mem_inv m"
  shows "resolve_bucket env d sid y =
    (case series_by_id m sid of None \<Rightarrow> Inl (SeriesNotFound (series_key env sid))
     | Some sr \<Rightarrow> Inr (series_key env sid, case is_reset_policy sr of Never \<Rightarrow> 0 | AnnualOnFiscalYear \<Rightarrow> y))"
proof -
  have rep: "rep_series env (dd_series d) m" using assms(2) by (simp add: duck_rep_def)
  show ?thesis
    using rep_series_select [OF assms(1) rep, of sid] decode_series [OF assms(1)] mem_invD(1) [OF assms(3), of sid]
    by (simp add: resolve_bucket_def split: option.split)
qed

lemma rep_ivsD:
  assumes "rep_ivs env t ls m ivs"
  shows "t = map fst ivs" and "(r, i, k) \<in> set ivs \<Longrightarrow> invoice_row_of env r i k"
    and "(r, i, k) \<in> set ivs \<Longrightarrow> collect_res (map row_to_line (lines_of ls (iv_id r))) = Inr (ri_lines i)"
    and "(r, i, k) \<in> set ivs \<Longrightarrow> invoices m (ri_id i) = Some i"
    and "(r, i, k) \<in> set ivs \<Longrightarrow> \<exists>rid. idempotency m k = Some (ri_id i, rid)"
    and "idempotency m k = Some (iid, rid) \<Longrightarrow> \<exists>r i. (r, i, k) \<in> set ivs \<and> ri_id i = iid"
    and "invoices m iid = Some i \<Longrightarrow> \<exists>r k. (r, i, k) \<in> set ivs \<and> ri_id i = iid"
    and "l \<in> set ls \<Longrightarrow> \<exists>r \<in> set t. ln_invoice l = iv_id r"
proof -
  have row: "rep_row env ls m (r, i, k)" if "(r, i, k) \<in> set ivs" for r i k
    using assms that unfolding rep_ivs_def by blast
  show "t = map fst ivs" using assms by (simp add: rep_ivs_def)
  show "(r, i, k) \<in> set ivs \<Longrightarrow> invoice_row_of env r i k" "(r, i, k) \<in> set ivs \<Longrightarrow> invoices m (ri_id i) = Some i"
    "(r, i, k) \<in> set ivs \<Longrightarrow> collect_res (map row_to_line (lines_of ls (iv_id r))) = Inr (ri_lines i)"
    "(r, i, k) \<in> set ivs \<Longrightarrow> \<exists>rid. idempotency m k = Some (ri_id i, rid)"
    using row by (simp_all add: rep_row_def)
  show "idempotency m k = Some (iid, rid) \<Longrightarrow> \<exists>r i. (r, i, k) \<in> set ivs \<and> ri_id i = iid"
    "invoices m iid = Some i \<Longrightarrow> \<exists>r k. (r, i, k) \<in> set ivs \<and> ri_id i = iid"
    "l \<in> set ls \<Longrightarrow> \<exists>r \<in> set t. ln_invoice l = iv_id r"
    using assms unfolding rep_ivs_def by blast+
qed

lemma select_row:
  assumes "rep_ivs env t ls m ivs" and "select_one p t = Some r"
  obtains i k where "(r, i, k) \<in> set ivs" and "p r"
  using select_one_Some [OF assms(2)] rep_ivsD(1) [OF assms(1)] by auto

lemma load_invoice_rep:
  assumes ok: "duck_ok env" and rep: "duck_rep env d m" and m: "invoices m iid = Some i" "ri_id i = iid"
  shows "load_invoice env d (invoice_key env iid) = Inr i"
proof -
  obtain ivs where ivs: "rep_ivs env (dd_invoices d) (dd_lines d) m ivs"
    using rep unfolding duck_rep_def rep_invoices_def by blast
  let ?p = "\<lambda>r. iv_id r = invoice_key env iid"
  obtain r0 k0 where r0: "(r0, i, k0) \<in> set ivs" using rep_ivsD(7) [OF ivs] m by blast
  have "?p r0" using rep_ivsD(2) [OF ivs r0] m(2) by (simp add: invoice_row_of_def)
  moreover have "r0 \<in> set (dd_invoices d)" using r0 rep_ivsD(1) [OF ivs] by force
  ultimately obtain r where sel: "select_one ?p (dd_invoices d) = Some r"
    using select_one_None [of ?p "dd_invoices d"] by (cases "select_one ?p (dd_invoices d)") auto
  obtain j k where j: "(r, j, k) \<in> set ivs" "?p r" using select_row [OF ivs sel] by metis
  note row = rep_ivsD(2,3,4) [OF ivs j(1)]
  have "ri_id j = iid" using row(1) j(2) by (simp add: invoice_row_of_def key_inject [OF ok])
  then have ji: "j = i" using row(3) m by simp
  obtain a b c where "parse_prefixed_ulid env ''inv'' (invoice_key env iid) = Inr a" "InvoiceId a = iid"
    "parse_prefixed_ulid env ''srs'' (series_key env (ri_series_id i)) = Inr b" "SeriesId b = ri_series_id i"
    "parse_prefixed_ulid env ''cus'' (customer_key env (ri_customer_id i)) = Inr c" "CustomerId c = ri_customer_id i"
    using parse_keys [OF ok] by metis
  moreover have "unat (of_nat (ri_sequence_number i) :: u64) = ri_sequence_number i"
    using row(1) ji by (intro unat_of_nat64) (simp add: u64_max_def invoice_row_of_def)
  ultimately show ?thesis
    using sel row ji m(2) j(2)
    by (simp add: load_invoice_def invoice_row_of_def lines_of_def [symmetric] load_date_def duck_okD [OF ok])
qed

section \<open>Replays\<close>

lemma load_reservation_rep:
  assumes ok: "duck_ok env" and rep: "duck_rep env d m" and inv: "mem_inv m"
    and r: "r \<in> set (reservations m)"
  shows "load_reservation_by_invoice env d (invoice_key env (sr_invoice_id r)) = Inr r"
proof -
  have rows: "dd_reservations d = map (row_of_reservation env) (reservations m)"
    using rep by (simp add: duck_rep_def rep_reservations_def)
  have p: "(\<lambda>x. rv_invoice x = invoice_key env (sr_invoice_id r)) \<circ> row_of_reservation env =
      (\<lambda>x. sr_invoice_id x = sr_invoice_id r)"
    by (rule ext) (simp add: row_of_reservation_def key_inject [OF ok])
  have "find (\<lambda>x. sr_invoice_id x = sr_invoice_id r) (reservations m) = Some r"
    using mem_invD(7) [OF inv] r by (rule find_unique)
  moreover have "sr_number r \<le> u64_max"
    using mem_invD(4) [OF inv r] mem_invD(2) [OF inv] by fastforce
  ultimately show ?thesis
    by (simp add: load_reservation_by_invoice_def rows select_one_map p decode_reservation [OF ok])
qed

lemma select_idem:
  fixes k :: idem_key
  assumes ok: "duck_ok env" and rep: "duck_rep env d m"
  defines "p \<equiv> \<lambda>r. iv_idem r = idem_to_canonical_string (dk_ulid_str env) k"
  shows "idempotency m k = None \<Longrightarrow> select_one p (dd_invoices d) = None"
    and "idempotency m k = Some (iid, rid) \<Longrightarrow>
      \<exists>r. select_one p (dd_invoices d) = Some r \<and> iv_id r = invoice_key env iid"
proof -
  obtain ivs where ivs: "rep_ivs env (dd_invoices d) (dd_lines d) m ivs"
    using rep unfolding duck_rep_def rep_invoices_def by blast
  have key: "j = k" if "(r, i, j) \<in> set ivs" "p r" for r i j
    using rep_ivsD(2) [OF ivs that(1)] that(2) idem_inject [OF ok] by (simp add: p_def invoice_row_of_def)
  show "idempotency m k = None \<Longrightarrow> select_one p (dd_invoices d) = None"
  proof (rule ccontr)
    assume none: "idempotency m k = None" and "select_one p (dd_invoices d) \<noteq> None"
    then obtain r where "select_one p (dd_invoices d) = Some r" by auto
    then obtain i j where r: "(r, i, j) \<in> set ivs" "p r" using select_row [OF ivs] by metis
    then show False using key [OF r] rep_ivsD(5) [OF ivs r(1)] none by simp
  qed
  assume some: "idempotency m k = Some (iid, rid)"
  then obtain r0 i0 where r0: "(r0, i0, k) \<in> set ivs" using rep_ivsD(6) [OF ivs] by blast
  then have "p r0" using rep_ivsD(2) [OF ivs r0] by (simp add: p_def invoice_row_of_def)
  moreover have "r0 \<in> set (dd_invoices d)" using r0 rep_ivsD(1) [OF ivs] by force
  ultimately obtain r where sel: "select_one p (dd_invoices d) = Some r"
    using select_one_None [of p "dd_invoices d"] by (cases "select_one p (dd_invoices d)") auto
  then obtain i j where r: "(r, i, j) \<in> set ivs" "p r" using select_row [OF ivs] by metis
  then have "ri_id i = iid" using key [OF r] rep_ivsD(5) [OF ivs r(1)] some by simp
  then have "iv_id r = invoice_key env iid" using rep_ivsD(2) [OF ivs r(1)] by (simp add: invoice_row_of_def)
  with sel show "\<exists>r. select_one p (dd_invoices d) = Some r \<and> iv_id r = invoice_key env iid" by blast
qed

lemma rep_invoice_id:
  assumes "duck_rep env d m" and "invoices m iid = Some i"
  shows "ri_id i = iid"
proof -
  obtain ivs where ivs: "rep_ivs env (dd_invoices d) (dd_lines d) m ivs"
    using assms(1) unfolding duck_rep_def rep_invoices_def by blast
  obtain r k where "(r, i, k) \<in> set ivs" "ri_id i = iid" using rep_ivsD(7) [OF ivs assms(2)] by blast
  then show ?thesis by simp
qed

lemma allocate_replay:
  assumes ok: "duck_ok env" and rep: "duck_rep env d m" and inv: "mem_inv m"
    and lines: "lines_accepted (dk_billing env) a" and known: "mem_issued m (aa_key a) = Some (i, r)"
  shows "duck_allocate_and_insert env rid a now d = (Inr (Replay i r), d)"
proof -
  obtain iid prior where idem: "idempotency m (aa_key a) = Some (iid, prior)"
    using known by (auto simp: mem_issued_def split: option.splits)
  obtain ivc q where q: "mem_issued m (aa_key a) = Some (ivc, q)" "invoices m iid = Some ivc"
    "find (\<lambda>r. sr_id r = prior) (reservations m) = Some q" "sr_invoice_id q = iid"
    using mem_issued_known [OF inv idem] by blast
  then have eq: "ivc = i" "q = r" using known by simp_all
  have "r \<in> set (reservations m)" using q(3) eq by (auto simp: find_Some_iff)
  then have "load_reservation_by_invoice env d (invoice_key env iid) = Inr r"
    using load_reservation_rep [OF ok rep inv, of r] q(4) eq by simp
  moreover have "load_invoice env d (invoice_key env iid) = Inr i"
    using load_invoice_rep [OF ok rep] rep_invoice_id [OF rep] q(2) eq by blast
  moreover obtain row where "select_one (\<lambda>r. iv_idem r = idem_to_canonical_string (dk_ulid_str env) (aa_key a))
      (dd_invoices d) = Some row" "iv_id row = invoice_key env iid"
    using select_idem(2) [OF ok rep idem] by blast
  ultimately show ?thesis
    using lines by (simp add: duck_allocate_and_insert_def allocate_in_tx_def lines_accepted_def)
qed

section \<open>New invoices\<close>

lemma insert_unique_Inr [simp]:
  "insert_unique clash r t = Inr t' \<longleftrightarrow> (\<forall>x \<in> set t. \<not> clash r x) \<and> t' = t @ [r]"
  by (auto simp: insert_unique_def res_simps list_ex_iff)

lemma unat_u64: "n \<le> u64_max \<Longrightarrow> unat (of_nat n :: u64) = n"
  by (intro unat_of_nat64) (simp add: u64_max_def)

lemma in_bucket_key:
  "duck_ok env \<Longrightarrow> in_bucket (series_key env i) fy r \<and> in_bucket (series_key env j) fy' r \<Longrightarrow> i = j \<and> fy = fy'"
  using key_inject(1) by (auto simp: in_bucket_def)

text \<open>The counter row, seeded when it is missing, ends up just past the number taken.\<close>

lemma counter_rep:
  assumes ok: "duck_ok env" and rep: "rep_state env (dd_state d) m" and st: "aa_start_value a \<le> u64_max"
    and seed: "read_or_seed (series_key env sid) fy (aa_start_value a) now_str d = Inr (nxt, d1)"
    and n: "n = max (max nxt (aa_start_value a)) (case aa_sequence_floor a of Some f \<Rightarrow> f | None \<Rightarrow> 0)"
    and room: "alloc_number (next_number m (sid, fy)) (aa_start_value a) (aa_sequence_floor a) < u64_max"
  shows "n = alloc_number (next_number m (sid, fy)) (aa_start_value a) (aa_sequence_floor a)"
    and "nxt = (case next_number m (sid, fy) of Some k \<Rightarrow> k | None \<Rightarrow> max (aa_start_value a) 1)"
    and "d1 = d\<lparr>dd_state := dd_state d1\<rparr>"
    and "map_option (\<lambda>r. unat (sq_next r)) (select_one (in_bucket (series_key env j) fy')
           (dd_state (advance_counter (series_key env sid) fy n now_str d1))) =
         ((next_number m)((sid, fy) \<mapsto> n + 1)) (j, fy')"
proof -
  let ?B = "in_bucket (series_key env sid) fy"
  let ?f = "\<lambda>r. r\<lparr>sq_next := of_nat (n + 1), sq_updated_at := now_str\<rparr>"
  let ?C = "in_bucket (series_key env j) fy'"
  have at: "map_option (\<lambda>r. unat (sq_next r)) (select_one (in_bucket (series_key env i) y) (dd_state d)) =
      next_number m (i, y)" for i y
    using rep by (simp add: rep_state_def)
  have d1: "nxt = (case next_number m (sid, fy) of Some k \<Rightarrow> k | None \<Rightarrow> max (aa_start_value a) 1) \<and>
      d1 = d\<lparr>dd_state := dd_state d1\<rparr> \<and> (\<exists>r. select_one ?B (dd_state d1) = Some r) \<and>
      (\<not> (j = sid \<and> fy' = fy) \<longrightarrow> select_one ?C (dd_state d1) = select_one ?C (dd_state d))"
  proof (cases "select_one ?B (dd_state d)")
    case None
    have "\<not> ?C \<lparr>sq_series = series_key env sid, sq_fiscal_year = fy, sq_next = x, sq_updated_at = y\<rparr>"
      if "\<not> (j = sid \<and> fy' = fy)" for x y
      using that key_inject(1) [OF ok] by (auto simp: in_bucket_def)
    then show ?thesis using None seed at [of sid fy]
      by (auto simp: read_or_seed_def Let_def res_simps select_one_append in_bucket_def split: option.split)
  next
    case (Some r)
    then have "next_number m (sid, fy) = Some (unat (sq_next r))" using at [of sid fy] by simp
    then show ?thesis using Some seed by (auto simp: read_or_seed_def)
  qed
  show nxt: "nxt = (case next_number m (sid, fy) of Some k \<Rightarrow> k | None \<Rightarrow> max (aa_start_value a) 1)"
    and "d1 = d\<lparr>dd_state := dd_state d1\<rparr>" using d1 by simp_all
  show num: "n = alloc_number (next_number m (sid, fy)) (aa_start_value a) (aa_sequence_floor a)"
    by (simp add: n nxt alloc_number_def)
  have u: "unat (of_nat (n + 1) :: u64) = n + 1" using room num by (intro unat_u64) simp
  have same: "?C (?f r) = ?C r" for r by (simp add: in_bucket_def)
  have sel: "select_one ?C (dd_state (advance_counter (series_key env sid) fy n now_str d1)) =
      map_option (\<lambda>r. if ?B r then ?f r else r) (select_one ?C (dd_state d1))"
    unfolding advance_counter_def using select_one_update_where [of ?B ?C ?f, OF same] by simp
  show "map_option (\<lambda>r. unat (sq_next r)) (select_one ?C
           (dd_state (advance_counter (series_key env sid) fy n now_str d1))) =
         ((next_number m)((sid, fy) \<mapsto> n + 1)) (j, fy')"
  proof (cases "j = sid \<and> fy' = fy")
    case True
    then obtain r where r: "select_one ?C (dd_state d1) = Some r" "?B r" using d1 select_one_Some by fastforce
    then show ?thesis unfolding sel using True u by simp
  next
    case False
    have "\<not> ?B r" if "select_one ?C (dd_state d) = Some r" for r
      using select_one_Some [OF that] False in_bucket_key [OF ok] by blast
    then have "map_option (\<lambda>r. if ?B r then ?f r else r) (select_one ?C (dd_state d)) = select_one ?C (dd_state d)"
      by (cases "select_one ?C (dd_state d)") simp_all
    then show ?thesis unfolding sel using False d1 at [of j fy'] by auto
  qed
qed

text \<open>The line rows of a new invoice, and what they decode to.\<close>

lemma insert_lines_rows:
  assumes "insert_lines env iid n ls d = Inr d'"
  shows "\<exists>qs. map (\<lambda>l. dk_dec6 env (li_quantity l)) ls = map Some qs \<and>
    d' = d\<lparr>dd_lines := dd_lines d @ map2 (\<lambda>k (l, q). line_to_row iid k l q) [n ..< n + length ls] (zip ls qs)\<rparr>"
  using assms
proof (induction ls arbitrary: n d)
  case Nil
  then show ?case by simp
next
  case (Cons l ls)
  from Cons.prems obtain q t where q: "dk_dec6 env (li_quantity l) = Some q"
    and t: "t = dd_lines d @ [line_to_row iid n l q]"
    and rest: "insert_lines env iid (Suc n) ls (d\<lparr>dd_lines := t\<rparr>) = Inr d'"
    by (auto simp: res_simps)
  from Cons.IH [OF rest] obtain qs where qs: "map (\<lambda>l. dk_dec6 env (li_quantity l)) ls = map Some qs"
    "d' = d\<lparr>dd_lines := t @ map2 (\<lambda>k (l, q). line_to_row iid k l q) [Suc n ..< Suc n + length ls] (zip ls qs)\<rparr>"
    by auto
  have "[n ..< n + length (l # ls)] = n # [Suc n ..< Suc n + length ls]"
    by (simp add: upt_conv_Cons del: upt_Suc)
  then show ?case using q qs t by (intro exI [of _ "q # qs"]) simp
qed

definition line_rows :: "duck_env \<Rightarrow> string \<Rightarrow> line_item list \<Rightarrow> line_row list \<Rightarrow> bool" where
  "line_rows env iid ls rows \<longleftrightarrow>
     (\<forall>r \<in> set rows. ln_invoice r = iid) \<and> sorted (map ln_ordinal rows) \<and>
     collect_res (map row_to_line rows) = Inr (map (stored_line env) ls)"

lemma insert_lines_rep:
  assumes "insert_lines env iid 0 ls d = Inr d'"
  obtains rows where "d' = d\<lparr>dd_lines := dd_lines d @ rows\<rparr>" "line_rows env iid ls rows"
proof -
  from insert_lines_rows [OF assms] obtain qs where qs: "map (\<lambda>l. dk_dec6 env (li_quantity l)) ls = map Some qs"
    "d' = d\<lparr>dd_lines := dd_lines d @ map2 (\<lambda>k (l, q). line_to_row iid k l q) [0 ..< length ls] (zip ls qs)\<rparr>"
    by auto
  let ?rows = "map2 (\<lambda>k (l, q). line_to_row iid k l q) [0 ..< length ls] (zip ls qs)"
  have len: "length qs = length ls" using arg_cong [OF qs(1), of length] by simp
  have at: "?rows ! k = line_to_row iid k (ls ! k) (qs ! k)" if "k < length ls" for k
    using that len by simp
  have q: "dk_dec6 env (li_quantity (ls ! k)) = Some (qs ! k)" if "k < length ls" for k
    using that len arg_cong [OF qs(1), of "\<lambda>xs. xs ! k"] by simp
  have "map ln_ordinal ?rows = [0 ..< length ls]"
    by (rule nth_equalityI) (simp_all add: len line_to_row_def)
  then have "sorted (map ln_ordinal ?rows)" by simp
  moreover have "map row_to_line ?rows = map Inr (map (stored_line env) ls)"
    by (rule nth_equalityI) (simp_all add: len decode_line q)
  moreover have "ln_invoice r = iid" if "r \<in> set ?rows" for r
    using that by (auto simp: set_zip line_to_row_def)
  ultimately have "line_rows env iid ls ?rows"
    unfolding line_rows_def collect_res_Inr_iff by blast
  then show thesis using that qs(2) by blast
qed

lemma lines_of_append:
  assumes "line_rows env iid ls rows" and "\<forall>l \<in> set t. ln_invoice l \<noteq> iid"
  shows "lines_of (t @ rows) iid = rows" and "jid \<noteq> iid \<Longrightarrow> lines_of (t @ rows) jid = lines_of t jid"
proof -
  have rows: "\<forall>r \<in> set rows. ln_invoice r = iid" "sorted (map ln_ordinal rows)"
    using assms(1) by (simp_all add: line_rows_def)
  have "filter (\<lambda>l. ln_invoice l = iid) rows = rows" using rows(1) by (simp add: filter_id_conv)
  moreover have "filter (\<lambda>l. ln_invoice l = iid) t = []" using assms(2) by (simp add: filter_empty_conv)
  ultimately show "lines_of (t @ rows) iid = rows"
    using rows(2) by (simp add: lines_of_def sort_key_id_if_sorted)
  show "jid \<noteq> iid \<Longrightarrow> lines_of (t @ rows) jid = lines_of t jid"
    using rows(1) by (simp add: lines_of_def filter_empty_conv)
qed

lemma no_clash_new:
  assumes ivs: "rep_ivs env t ls m ivs" and row: "invoice_row_of env r i k"
    and clash: "\<forall>x \<in> set t. \<not> invoice_clash r x"
  shows "invoices m (ri_id i) = None" and "idempotency m k = None"
    and "\<forall>l \<in> set ls. ln_invoice l \<noteq> iv_id r"
proof -
  have t: "r0 \<in> set t" if "(r0, i0, k0) \<in> set ivs" for r0 i0 k0
    using that rep_ivsD(1) [OF ivs] by force
  show "invoices m (ri_id i) = None"
  proof (rule ccontr)
    assume "invoices m (ri_id i) \<noteq> None"
    then obtain i1 where "invoices m (ri_id i) = Some i1" by auto
    then obtain r0 k0 where r0: "(r0, i1, k0) \<in> set ivs" "ri_id i1 = ri_id i" using rep_ivsD(7) [OF ivs] by blast
    then have "iv_id r0 = iv_id r" using rep_ivsD(2) [OF ivs r0(1)] row by (simp add: invoice_row_of_def)
    then show False using clash t [OF r0(1)] by (auto simp: invoice_clash_def)
  qed
  show "idempotency m k = None"
  proof (rule ccontr)
    assume "idempotency m k \<noteq> None"
    then obtain iid rid where "idempotency m k = Some (iid, rid)" by auto
    then obtain r0 i0 where r0: "(r0, i0, k) \<in> set ivs" using rep_ivsD(6) [OF ivs] by blast
    then have "iv_idem r0 = iv_idem r" using rep_ivsD(2) [OF ivs r0] row by (simp add: invoice_row_of_def)
    then show False using clash t [OF r0] by (auto simp: invoice_clash_def)
  qed
  show "\<forall>l \<in> set ls. ln_invoice l \<noteq> iv_id r"
    using rep_ivsD(8) [OF ivs] clash by (fastforce simp: invoice_clash_def)
qed

lemma rep_row_kept:
  assumes ivs: "rep_ivs env t ls m ivs" and x: "x \<in> set ivs" and row: "invoice_row_of env r i k"
    and clash: "\<forall>x \<in> set t. \<not> invoice_clash r x" and lines: "line_rows env (iv_id r) items rows"
    and m': "invoices m' = (invoices m)(ri_id i \<mapsto> i)" "idempotency m' = (idempotency m)(k \<mapsto> (ri_id i, rid))"
  shows "rep_row env (ls @ rows) m' x"
proof -
  obtain r0 i0 k0 where x0: "x = (r0, i0, k0)" by (cases x)
  have r0: "(r0, i0, k0) \<in> set ivs" using x x0 by simp
  have "r0 \<in> set t" using r0 rep_ivsD(1) [OF ivs] by force
  then have other: "iv_id r0 \<noteq> iv_id r" using clash by (auto simp: invoice_clash_def)
  note new = no_clash_new [OF ivs row clash]
  have "lines_of (ls @ rows) (iv_id r0) = lines_of ls (iv_id r0)"
    using lines_of_append(2) [OF lines new(3) other] .
  moreover have "ri_id i0 \<noteq> ri_id i" using rep_ivsD(4) [OF ivs r0] new(1) by auto
  moreover have "k0 \<noteq> k" using rep_ivsD(5) [OF ivs r0] new(2) by auto
  ultimately show ?thesis
    using rep_ivsD(2-5) [OF ivs r0] by (simp add: rep_row_def x0 m')
qed

lemma rep_ivs_fresh:
  assumes ivs: "rep_ivs env t ls m ivs" and row: "invoice_row_of env r i k"
    and clash: "\<forall>x \<in> set t. \<not> invoice_clash r x" and lines: "line_rows env (iv_id r) items rows"
    and items: "ri_lines i = map (stored_line env) items"
    and m': "invoices m' = (invoices m)(ri_id i \<mapsto> i)" "idempotency m' = (idempotency m)(k \<mapsto> (ri_id i, rid))"
  shows "rep_ivs env (t @ [r]) (ls @ rows) m' (ivs @ [(r, i, k)])"
proof -
  note new = no_clash_new [OF ivs row clash]
  have "lines_of (ls @ rows) (iv_id r) = rows" using lines_of_append(1) [OF lines new(3)] .
  then have r: "rep_row env (ls @ rows) m' (r, i, k)"
    using row lines items by (simp add: rep_row_def line_rows_def m')
  have rows: "\<forall>x \<in> set (ivs @ [(r, i, k)]). rep_row env (ls @ rows) m' x"
    using r rep_row_kept [OF ivs _ row clash lines m'] by auto
  have keys: "\<forall>k' iid rid'. idempotency m' k' = Some (iid, rid') \<longrightarrow>
      (\<exists>r' i'. (r', i', k') \<in> set (ivs @ [(r, i, k)]) \<and> ri_id i' = iid)"
  proof (intro allI impI)
    fix k' iid rid' assume k': "idempotency m' k' = Some (iid, rid')"
    show "\<exists>r' i'. (r', i', k') \<in> set (ivs @ [(r, i, k)]) \<and> ri_id i' = iid"
    proof (cases "k' = k")
      case True
      then show ?thesis using k' m' by auto
    next
      case False
      then have "idempotency m k' = Some (iid, rid')" using k' m' by simp
      then show ?thesis using rep_ivsD(6) [OF ivs] by fastforce
    qed
  qed
  have ids: "\<forall>iid i'. invoices m' iid = Some i' \<longrightarrow>
      (\<exists>r' k'. (r', i', k') \<in> set (ivs @ [(r, i, k)]) \<and> ri_id i' = iid)"
  proof (intro allI impI)
    fix iid i' assume i': "invoices m' iid = Some i'"
    show "\<exists>r' k'. (r', i', k') \<in> set (ivs @ [(r, i, k)]) \<and> ri_id i' = iid"
    proof (cases "iid = ri_id i")
      case True
      then show ?thesis using i' m' by auto
    next
      case False
      then have "invoices m iid = Some i'" using i' m' by simp
      then show ?thesis using rep_ivsD(7) [OF ivs] by fastforce
    qed
  qed
  have "\<forall>l \<in> set (ls @ rows). \<exists>r' \<in> set (t @ [r]). ln_invoice l = iv_id r'"
    using rep_ivsD(8) [OF ivs] lines by (auto simp: line_rows_def)
  then show ?thesis
    unfolding rep_ivs_def using rows keys ids rep_ivsD(1) [OF ivs] by (intro conjI) simp_all
qed

text \<open>A successful allocation, step by step.\<close>

lemma insert_invoice_row:
  assumes ok: "duck_ok env" and ins: "insert_invoice env a (series_key env sid) fy n d = Inr d'"
    and n: "n \<le> u64_max" and draft: "di_series_id (aa_draft a) = sid"
  obtains r where "d' = d\<lparr>dd_invoices := dd_invoices d @ [r]\<rparr>" "\<forall>x \<in> set (dd_invoices d). \<not> invoice_clash r x"
    "invoice_row_of env r (ready_of_draft (stored_draft env (aa_draft a)) n fy) (aa_key a)"
proof -
  from ins obtain r where r: "d' = d\<lparr>dd_invoices := dd_invoices d @ [r]\<rparr>"
    "\<forall>x \<in> set (dd_invoices d). \<not> invoice_clash r x"
    "iv_id r = invoice_key env (di_id (aa_draft a))" "iv_series r = series_key env sid"
    "iv_customer r = customer_key env (di_customer_id (aa_draft a))"
    "iv_issue_date r = dk_rfc env (di_issue_date (aa_draft a))" "iv_number r = of_nat n" "iv_fiscal_year r = fy"
    "iv_idem r = idem_to_canonical_string (dk_ulid_str env) (aa_key a)"
    "iv_deadline r = Some (dk_date env (di_payment_deadline (aa_draft a)))"
    "iv_delivery r = Some (dk_date env (di_delivery_date (aa_draft a)))"
    by (auto simp: insert_invoice_def Let_def res_simps duck_okD [OF ok])
  then show thesis using n draft
    by (intro that [of r]) (simp_all add: invoice_row_of_def ready_of_draft_def stored_draft_def)
qed

definition reservation_of :: "reservation_id \<Rightarrow> allocate_args \<Rightarrow> int \<Rightarrow> nat \<Rightarrow> int \<Rightarrow> sequence_reservation" where
  "reservation_of rid a fy n now =
     \<lparr>sr_id = rid, sr_series_id = aa_series_id a, sr_fiscal_year = fy, sr_number = n,
      sr_invoice_id = di_id (aa_draft a), sr_status = Reserved, sr_void_reason = None,
      sr_reserved_at = now, sr_used_at = None, sr_voided_at = None\<rparr>"

definition mem_after ::
  "reservation_id \<Rightarrow> allocate_args \<Rightarrow> int \<Rightarrow> nat \<Rightarrow> int \<Rightarrow> mem_store \<Rightarrow> mem_store" where
  "mem_after rid a fy n now m =
     m\<lparr>next_number := (next_number m)((aa_series_id a, fy) \<mapsto> n + 1),
       invoices := (invoices m)(di_id (aa_draft a) \<mapsto> ready_of_draft (aa_draft a) n fy),
       reservations := reservations m @ [reservation_of rid a fy n now],
       idempotency := (idempotency m)(aa_key a \<mapsto> (di_id (aa_draft a), rid))\<rparr>"

lemma mem_alloc_new:
  assumes "idempotency m (aa_key a) = None" and "series_by_id m (aa_series_id a) = Some sr"
    and "is_id sr = aa_series_id a" and "fy = fiscal_year_of be (is_reset_policy sr) (di_issue_date (aa_draft a))"
    and "n = alloc_number (next_number m (aa_series_id a, fy)) (aa_start_value a) (aa_sequence_floor a)"
    and "n < u64_max"
  shows "mem_allocate_and_insert be rid a now m =
    (Inr (Fresh (ready_of_draft (aa_draft a) n fy) (reservation_of rid a fy n now)), mem_after rid a fy n now m)"
proof -
  define seed where "seed = (case next_number m (aa_series_id a, fy) of Some n \<Rightarrow> n | None \<Rightarrow> max (aa_start_value a) 1)"
  have n: "max (max seed (aa_start_value a)) (case aa_sequence_floor a of Some f \<Rightarrow> f | None \<Rightarrow> 0) = n"
    by (simp add: assms(5) seed_def alloc_number_def)
  have "ri_id (ready_of_draft (aa_draft a) n fy) = di_id (aa_draft a)" by (simp add: ready_of_draft_def)
  then show ?thesis
    using assms(1-3,6) n
    by (simp add: mem_allocate_and_insert_def Let_def assms(4) [symmetric] seed_def [symmetric]
        mem_after_def reservation_of_def)
qed

lemma stored_args_simps [simp]:
  "aa_key (stored_args env a) = aa_key a" "aa_series_id (stored_args env a) = aa_series_id a"
  "aa_start_value (stored_args env a) = aa_start_value a" "aa_sequence_floor (stored_args env a) = aa_sequence_floor a"
  "aa_draft (stored_args env a) = stored_draft env (aa_draft a)"
  by (simp_all add: stored_args_def)

lemma stored_draft_simps [simp]:
  "di_id (stored_draft env dr) = di_id dr" "di_series_id (stored_draft env dr) = di_series_id dr"
  "di_issue_date (stored_draft env dr) = di_issue_date dr"
  "di_lines (stored_draft env dr) = map (stored_line env) (di_lines dr)"
  by (simp_all add: stored_draft_def)

lemma stored_ready: "ready_of_draft (stored_draft env dr) n fy = stored_invoice env (ready_of_draft dr n fy)"
  by (simp add: ready_of_draft_def stored_draft_def stored_invoice_def)

lemma stored_reservation [simp]: "reservation_of rid (stored_args env a) fy n now = reservation_of rid a fy n now"
  by (simp add: reservation_of_def)

text \<open>What a successful \<open>allocate_new\<close> has done.\<close>

definition alloc_steps ::
  "duck_env \<Rightarrow> reservation_id \<Rightarrow> allocate_args \<Rightarrow> int \<Rightarrow> duck_db \<Rightarrow> int \<Rightarrow> nat \<Rightarrow> nat \<Rightarrow> duck_db \<Rightarrow> duck_db \<Rightarrow> bool" where
  "alloc_steps env rid a now d fy nxt n d1 d' \<longleftrightarrow>
     (let k = series_key env (aa_series_id a); now_str = dk_rfc env now; iid = di_id (aa_draft a)
      in read_or_seed k fy (aa_start_value a) now_str d = Inr (nxt, d1) \<and>
         n = max (max nxt (aa_start_value a)) (case aa_sequence_floor a of Some f \<Rightarrow> f | None \<Rightarrow> 0) \<and>
         (\<exists>d3 d4. insert_reservation env rid k fy n iid now_str (advance_counter k fy n now_str d1) = Inr d3 \<and>
            insert_invoice env a k fy n d3 = Inr d4 \<and>
            insert_lines env (invoice_key env iid) 0 (di_lines (aa_draft a)) d4 = Inr d'))"

lemma allocate_new_steps:
  assumes ok: "duck_ok env" and rep: "duck_rep env d m" and inv: "mem_inv m"
    and al: "allocate_new env rid a now d = Inr (out, d')"
  obtains sr fy nxt n d1 where "series_by_id m (aa_series_id a) = Some sr" "is_id sr = aa_series_id a"
    "fy = fiscal_year_of (dk_billing env) (is_reset_policy sr) (di_issue_date (aa_draft a))"
    "alloc_steps env rid a now d fy nxt n d1 d'"
    "out = Fresh (ready_of_draft (aa_draft a) n fy) (reservation_of rid a fy n now)"
proof (cases "series_by_id m (aa_series_id a)")
  case None
  then show thesis using al by (simp add: allocate_new_def Let_def resolve_bucket_rep [OF ok rep inv])
next
  case (Some sr)
  let ?k = "series_key env (aa_series_id a)"
  define fy where "fy = fiscal_year_of (dk_billing env) (is_reset_policy sr) (di_issue_date (aa_draft a))"
  have b: "resolve_bucket env d (aa_series_id a) (be_year (dk_billing env) (di_issue_date (aa_draft a))) = Inr (?k, fy)"
    using Some by (simp add: resolve_bucket_rep [OF ok rep inv] fy_def fiscal_year_of_def)
  have rest: "\<exists>nxt n d1. alloc_steps env rid a now d fy nxt n d1 d' \<and>
      out = Fresh (ready_of_draft (aa_draft a) n fy) (reservation_of rid a fy n now)"
    using al unfolding allocate_new_def Let_def b and_then_Inr prod.case
    by (auto simp: res_simps alloc_steps_def Let_def reservation_of_def split: prod.splits)
  show thesis using rest that [OF Some mem_invD(1) [OF inv Some] fy_def] by blast
qed

lemma insert_reservation_row:
  assumes ins: "insert_reservation env rid (series_key env (aa_series_id a)) fy n (di_id (aa_draft a)) (dk_rfc env now) d = Inr d'"
  shows "d' = d\<lparr>dd_reservations := dd_reservations d @ [row_of_reservation env (reservation_of rid a fy n now)]\<rparr>"
    and "\<forall>x \<in> set (dd_reservations d). \<not> reservation_clash (row_of_reservation env (reservation_of rid a fy n now)) x"
  using ins by (auto simp: insert_reservation_def res_simps row_of_reservation_def reservation_of_def)

lemma reservation_no_clash:
  assumes "duck_ok env" and "rep_reservations env t m"
    and "\<forall>x \<in> set t. \<not> reservation_clash (row_of_reservation env r) x"
  shows "sr_id r \<notin> sr_id ` set (reservations m)" and "sr_invoice_id r \<notin> sr_invoice_id ` set (reservations m)"
proof -
  have no: "\<not> reservation_clash (row_of_reservation env r) (row_of_reservation env x)" if "x \<in> set (reservations m)" for x
    using assms(2,3) that by (simp add: rep_reservations_def)
  show "sr_id r \<notin> sr_id ` set (reservations m)"
    using no by (force simp: reservation_clash_def row_of_reservation_def key_inject [OF assms(1)])
  show "sr_invoice_id r \<notin> sr_invoice_id ` set (reservations m)"
    using no by (force simp: reservation_clash_def row_of_reservation_def key_inject [OF assms(1)])
qed

lemma alloc_steps_rep:
  assumes ok: "duck_ok env" and rep: "duck_rep env d m" and inv: "mem_inv m" and a: "args_ok a"
    and sr: "series_by_id m (aa_series_id a) = Some sr"
    and steps: "alloc_steps env rid a now d fy nxt n d1 d'"
    and room: "alloc_number (next_number m (aa_series_id a, fy)) (aa_start_value a) (aa_sequence_floor a) < u64_max"
  defines "m' \<equiv> mem_after rid (stored_args env a) fy n now m"
  shows "n = alloc_number (next_number m (aa_series_id a, fy)) (aa_start_value a) (aa_sequence_floor a)"
    and "duck_rep env d' m'" and "mem_fresh (di_id (aa_draft a)) rid m" and "idempotency m (aa_key a) = None"
proof -
  let ?k = "series_key env (aa_series_id a)" and ?t = "dk_rfc env now"
  let ?q = "reservation_of rid a fy n now" and ?i = "ready_of_draft (stored_draft env (aa_draft a)) n fy"
  have sv: "aa_start_value a \<le> u64_max" "di_series_id (aa_draft a) = aa_series_id a"
    using a by (simp_all add: args_ok_def)
  have st: "rep_series env (dd_series d) m" "rep_state env (dd_state d) m"
    "rep_reservations env (dd_reservations d) m" "rep_invoices env (dd_invoices d) (dd_lines d) m"
    using rep by (simp_all add: duck_rep_def)
  then obtain ivs where ivs: "rep_ivs env (dd_invoices d) (dd_lines d) m ivs" by (auto simp: rep_invoices_def)
  from steps obtain d3 d4 where seed: "read_or_seed ?k fy (aa_start_value a) ?t d = Inr (nxt, d1)"
    and n: "n = max (max nxt (aa_start_value a)) (case aa_sequence_floor a of Some f \<Rightarrow> f | None \<Rightarrow> 0)"
    and d3: "insert_reservation env rid ?k fy n (di_id (aa_draft a)) ?t (advance_counter ?k fy n ?t d1) = Inr d3"
    and d4: "insert_invoice env a ?k fy n d3 = Inr d4"
    and d': "insert_lines env (invoice_key env (di_id (aa_draft a))) 0 (di_lines (aa_draft a)) d4 = Inr d'"
    by (auto simp: alloc_steps_def Let_def)
  note c = counter_rep [OF ok st(2) sv(1) seed n room]
  let ?d2 = "advance_counter ?k fy n ?t d1"
  have d2: "?d2 = d\<lparr>dd_state := dd_state ?d2\<rparr>" using c(3) by (metis advance_counter_def duck_db.surjective duck_db.update_convs(2))
  show num: "n = alloc_number (next_number m (aa_series_id a, fy)) (aa_start_value a) (aa_sequence_floor a)"
    by (rule c(1))
  note r3 = insert_reservation_row [OF d3]
  have "n \<le> u64_max" using room num by simp
  from insert_invoice_row [OF ok d4 this sv(2)] obtain r where r: "d4 = d3\<lparr>dd_invoices := dd_invoices d3 @ [r]\<rparr>"
    "\<forall>x \<in> set (dd_invoices d3). \<not> invoice_clash r x" "invoice_row_of env r ?i (aa_key a)" by blast
  from insert_lines_rep [OF d'] obtain rows where rows: "d' = d4\<lparr>dd_lines := dd_lines d4 @ rows\<rparr>"
    "line_rows env (invoice_key env (di_id (aa_draft a))) (di_lines (aa_draft a)) rows" by blast
  have parts: "dd_series ?d2 = dd_series d" "dd_reservations ?d2 = dd_reservations d" "dd_invoices ?d2 = dd_invoices d"
    "dd_lines ?d2 = dd_lines d"
    by (subst d2, simp)+
  have fin: "dd_series d' = dd_series d" "dd_state d' = dd_state ?d2"
    "dd_reservations d' = dd_reservations d @ [row_of_reservation env ?q]"
    "dd_invoices d' = dd_invoices d @ [r]" "dd_lines d' = dd_lines d @ rows"
    by (simp_all add: rows(1) r(1) r3(1) parts)
  have rid: "ri_id ?i = di_id (aa_draft a)" "iv_id r = invoice_key env (di_id (aa_draft a))"
    "ri_lines ?i = map (stored_line env) (di_lines (aa_draft a))"
    using r(3) by (simp_all add: invoice_row_of_def ready_of_draft_def)
  have clash: "\<forall>x \<in> set (dd_invoices d). \<not> invoice_clash r x" using r(2) by (simp add: r3(1) parts)
  note new = no_clash_new [OF ivs r(3) clash]
  show idem: "idempotency m (aa_key a) = None" by (rule new(2))
  have "\<forall>x \<in> set (dd_reservations d). \<not> reservation_clash (row_of_reservation env ?q) x"
    using r3(2) parts by simp
  from reservation_no_clash [OF ok st(3) this] show "mem_fresh (di_id (aa_draft a)) rid m"
    using new(1) rid by (simp add: mem_fresh_def reservation_of_def)
  have m': "invoices m' = (invoices m)(ri_id ?i \<mapsto> ?i)" "idempotency m' = (idempotency m)(aa_key a \<mapsto> (ri_id ?i, rid))"
    "reservations m' = reservations m @ [?q]" "series_by_id m' = series_by_id m" "series_by_code m' = series_by_code m"
    "next_number m' = (next_number m)((aa_series_id a, fy) \<mapsto> n + 1)"
    using rid by (simp_all add: m'_def mem_after_def reservation_of_def)
  have "rep_ivs env (dd_invoices d @ [r]) (dd_lines d @ rows) m' (ivs @ [(r, ?i, aa_key a)])"
    using rep_ivs_fresh [OF ivs r(3) clash _ rid(3) m'(1,2)] rows(2) rid(2) by simp
  then have "rep_invoices env (dd_invoices d') (dd_lines d') m'" unfolding rep_invoices_def fin by blast
  moreover have "rep_state env (dd_state d') m'" unfolding rep_state_def fin m'(6) using c(4) by blast
  moreover have "rep_series env (dd_series d') m'" using st(1) by (simp add: rep_series_def fin m')
  moreover have "rep_reservations env (dd_reservations d') m'" using st(3) by (simp add: rep_reservations_def fin m')
  moreover have "backs r (row_of_reservation env ?q)"
    using r(3) sv(2) by (simp add: backs_def invoice_row_of_def row_of_reservation_def reservation_of_def ready_of_draft_def)
  then have "backed (dd_invoices d') (dd_reservations d')"
    using rep unfolding backed_def fin duck_rep_def by auto
  ultimately show "duck_rep env d' m'" by (simp add: duck_rep_def)
qed

lemma allocate_new_series:
  assumes "alloc_steps env rid a now d fy nxt n d1 d'"
  shows "dd_series d' = dd_series d"
proof -
  have lines: "dd_series t' = dd_series t" if "insert_lines env iid k ls t = Inr t'" for iid k ls and t t' :: duck_db
    using insert_lines_rows [OF that] by auto
  have "dd_series d1 = dd_series d"
    using assms by (auto simp: alloc_steps_def read_or_seed_def Let_def res_simps split: option.splits)
  then show ?thesis
    using assms lines by (fastforce simp: alloc_steps_def Let_def insert_reservation_def insert_invoice_def
      advance_counter_def res_simps)
qed

section \<open>The tables keep the contract\<close>

definition duck_counter :: "duck_env \<Rightarrow> duck_db \<Rightarrow> series_id \<times> int \<Rightarrow> nat option" where
  "duck_counter env d b =
     map_option (\<lambda>r. unat (sq_next r)) (select_one (in_bucket (series_key env (fst b)) (snd b)) (dd_state d))"

definition duck_issued ::
  "duck_env \<Rightarrow> duck_db \<Rightarrow> idem_key \<Rightarrow> (ready_invoice \<times> sequence_reservation) option" where
  "duck_issued env d k =
     (case select_one (\<lambda>r. iv_idem r = idem_to_canonical_string (dk_ulid_str env) k) (dd_invoices d) of
        None \<Rightarrow> None
      | Some row \<Rightarrow>
          (case (load_invoice env d (iv_id row), load_reservation_by_invoice env d (iv_id row)) of
             (Inr i, Inr r) \<Rightarrow> Some (i, r)
           | _ \<Rightarrow> None))"

definition duck_sound :: "duck_env \<Rightarrow> duck_db \<Rightarrow> bool" where
  "duck_sound env d \<longleftrightarrow> duck_ok env \<and> (\<exists>m. duck_rep env d m \<and> mem_inv m)"

definition row_fits :: "nat \<Rightarrow> bool" where
  "row_fits n \<longleftrightarrow> n < u64_max"

lemma duck_counter_rep: "duck_rep env d m \<Longrightarrow> duck_counter env d = next_number m"
  by (rule ext) (simp add: duck_counter_def duck_rep_def rep_state_def)

lemma duck_issued_rep:
  assumes ok: "duck_ok env" and rep: "duck_rep env d m" and inv: "mem_inv m"
  shows "duck_issued env d = mem_issued m"
proof
  fix k
  show "duck_issued env d k = mem_issued m k"
  proof (cases "idempotency m k")
    case None
    then show ?thesis using select_idem(1) [OF ok rep None]
      by (simp add: duck_issued_def mem_issued_def)
  next
    case (Some p)
    then obtain iid rid where p: "idempotency m k = Some (iid, rid)" by (cases p) auto
    obtain i r where ir: "mem_issued m k = Some (i, r)" "invoices m iid = Some i"
      "find (\<lambda>r. sr_id r = rid) (reservations m) = Some r" "sr_invoice_id r = iid"
      using mem_issued_known [OF inv p] by blast
    have "r \<in> set (reservations m)" using ir(3) by (auto simp: find_Some_iff)
    then have "load_reservation_by_invoice env d (invoice_key env iid) = Inr r"
      using load_reservation_rep [OF ok rep inv, of r] ir(4) by simp
    moreover have "load_invoice env d (invoice_key env iid) = Inr i"
      using load_invoice_rep [OF ok rep ir(2) rep_invoice_id [OF rep ir(2)]] .
    ultimately show ?thesis using select_idem(2) [OF ok rep p] ir(1) by (auto simp: duck_issued_def)
  qed
qed

lemma duck_alloc_success:
  assumes "duck_allocate_and_insert env rid a now d = (Inr out, d')"
  shows "allocate_in_tx env rid a now d = Inr (out, d')" and "lines_accepted (dk_billing env) a"
proof -
  show al: "allocate_in_tx env rid a now d = Inr (out, d')"
    using assms by (auto simp: duck_allocate_and_insert_def split: sum.splits prod.splits)
  then show "lines_accepted (dk_billing env) a"
    by (auto simp: allocate_in_tx_def lines_accepted_def res_simps split: option.splits)
qed

lemma duck_alloc_fresh:
  assumes ok: "duck_ok env" and rep: "duck_rep env d m" and inv: "mem_inv m" and a: "args_ok a"
    and new: "mem_issued m (aa_key a) = None"
    and room: "\<forall>fy. row_fits (alloc_number (next_number m (aa_series_id a, fy)) (aa_start_value a) (aa_sequence_floor a))"
    and al: "duck_allocate_and_insert env rid a now d = (Inr out, d')"
  obtains fy n where
    "n = alloc_number (next_number m (aa_series_id a, fy)) (aa_start_value a) (aa_sequence_floor a)"
    "out = Fresh (ready_of_draft (aa_draft a) n fy) (reservation_of rid a fy n now)"
    "mem_allocate_and_insert (dk_billing env) rid (stored_args env a) now m =
       (Inr (stored_outcome env out), mem_after rid (stored_args env a) fy n now m)"
    "duck_rep env d' (mem_after rid (stored_args env a) fy n now m)"
    "mem_inv (mem_after rid (stored_args env a) fy n now m)" "mem_fresh (di_id (aa_draft a)) rid m"
    "dd_series d' = dd_series d"
proof -
  have idem: "idempotency m (aa_key a) = None" using new mem_issued_None [OF inv] by blast
  have "allocate_new env rid a now d = Inr (out, d')"
    using duck_alloc_success [OF al] select_idem(1) [OF ok rep idem]
    by (auto simp: allocate_in_tx_def res_simps)
  from allocate_new_steps [OF ok rep inv this] obtain sr fy nxt n d1 where
    sr: "series_by_id m (aa_series_id a) = Some sr" "is_id sr = aa_series_id a"
    and fy: "fy = fiscal_year_of (dk_billing env) (is_reset_policy sr) (di_issue_date (aa_draft a))"
    and steps: "alloc_steps env rid a now d fy nxt n d1 d'"
    and out: "out = Fresh (ready_of_draft (aa_draft a) n fy) (reservation_of rid a fy n now)" by blast
  have fits: "alloc_number (next_number m (aa_series_id a, fy)) (aa_start_value a) (aa_sequence_floor a) < u64_max"
    using room by (simp add: row_fits_def)
  note s = alloc_steps_rep [OF ok rep inv a sr(1) steps fits]
  let ?m = "mem_after rid (stored_args env a) fy n now m"
  have "mem_allocate_and_insert (dk_billing env) rid (stored_args env a) now m = (Inr (stored_outcome env out), ?m)"
    using mem_alloc_new [of m "stored_args env a" sr fy "dk_billing env" n rid now] s(1,4) sr fy fits
    by (simp add: out stored_ready)
  moreover have "mem_inv ?m"
    unfolding mem_after_def using s(1) fits sr(2)
    by (intro mem_inv_fresh(1) [OF inv, where sr = sr and st = "aa_start_value a" and fl = "aa_sequence_floor a"])
       (simp_all add: sr s(3) reservation_of_def ready_of_draft_def)
  moreover have "dd_series d' = dd_series d"
    using allocate_new_series steps by blast
  ultimately show thesis using that s out by blast
qed

lemma mem_issued_after:
  assumes "mem_inv m" and "mem_fresh (di_id (aa_draft a)) rid m"
  shows "mem_issued (mem_after rid a fy n now m) =
    (mem_issued m)(aa_key a \<mapsto> (ready_of_draft (aa_draft a) n fy, reservation_of rid a fy n now))"
  unfolding mem_after_def
  by (rule mem_issued_fresh [OF assms]) (simp add: reservation_of_def)

lemma duck_soundE:
  assumes "duck_sound env d"
  obtains m where "duck_ok env" "duck_rep env d m" "mem_inv m" "duck_issued env d = mem_issued m"
    "duck_counter env d = next_number m"
proof -
  from assms obtain m where m: "duck_ok env" "duck_rep env d m" "mem_inv m" by (auto simp: duck_sound_def)
  show thesis by (rule that [OF m duck_issued_rep [OF m] duck_counter_rep [OF m(2)]])
qed

interpretation duck: billing_store "duck_find_series_by_code env" "duck_allocate_and_insert env"
  "duck_sound env" "duck_issued env" "duck_counter env" "\<lambda>_ _ _. True" "stored_invoice env" row_fits
  "dk_billing env" for env
proof
  fix d a i r rid now
  assume s: "duck_sound env d" and known: "duck_issued env d (aa_key a) = Some (i, r)"
    and lines: "lines_accepted (dk_billing env) a"
  from s obtain m where m: "duck_ok env" "duck_rep env d m" "mem_inv m" "duck_issued env d = mem_issued m"
    by (rule duck_soundE)
  then have "mem_issued m (aa_key a) = Some (i, r)" using known by simp
  then show "duck_allocate_and_insert env rid a now d = (Inr (Replay i r), d)"
    by (rule allocate_replay [OF m(1-3) lines])
next
  fix d a rid now out d'
  assume s: "duck_sound env d" and new: "duck_issued env d (aa_key a) = None" and a: "args_ok a"
    and room: "\<forall>fy. row_fits (alloc_number (duck_counter env d (aa_series_id a, fy)) (aa_start_value a) (aa_sequence_floor a))"
    and al: "duck_allocate_and_insert env rid a now d = (Inr out, d')"
  from s obtain m where m: "duck_ok env" "duck_rep env d m" "mem_inv m" "duck_issued env d = mem_issued m"
    "duck_counter env d = next_number m" by (rule duck_soundE)
  from duck_alloc_fresh [OF m(1-3) a new [unfolded m(4)] room [unfolded m(5)] al] obtain fy n where
    n: "n = alloc_number (next_number m (aa_series_id a, fy)) (aa_start_value a) (aa_sequence_floor a)"
    "out = Fresh (ready_of_draft (aa_draft a) n fy) (reservation_of rid a fy n now)"
    and m': "duck_rep env d' (mem_after rid (stored_args env a) fy n now m)"
      "mem_inv (mem_after rid (stored_args env a) fy n now m)"
    and fresh: "mem_fresh (di_id (aa_draft a)) rid m" by blast
  have "duck_sound env d'" using m(1) m' unfolding duck_sound_def by blast
  moreover have "duck_issued env d' = (duck_issued env d)
      (aa_key a \<mapsto> (stored_invoice env (ready_of_draft (aa_draft a) n fy), reservation_of rid a fy n now))"
    using mem_issued_after [of m "stored_args env a" rid fy n now] m(3) fresh
    by (simp add: duck_issued_rep [OF m(1) m'] m(4) stored_ready)
  moreover have "duck_counter env d' = (duck_counter env d)((aa_series_id a, fy) \<mapsto> n + 1)"
    by (simp add: duck_counter_rep [OF m'(1)] m(5) mem_after_def)
  moreover have "sr_number (reservation_of rid a fy n now) = n" by (simp add: reservation_of_def)
  ultimately show "\<exists>fy n i r. out = Fresh i r \<and>
      n = alloc_number (duck_counter env d (aa_series_id a, fy)) (aa_start_value a) (aa_sequence_floor a) \<and>
      i = ready_of_draft (aa_draft a) n fy \<and> sr_number r = n \<and> duck_sound env d' \<and>
      duck_issued env d' = (duck_issued env d)(aa_key a \<mapsto> (stored_invoice env i, r)) \<and>
      duck_counter env d' = (duck_counter env d)((aa_series_id a, fy) \<mapsto> n + 1)"
    using n unfolding m(5) by blast
next
  fix d rid and a :: allocate_args and now e d'
  assume "duck_sound env d" and "duck_allocate_and_insert env rid a now d = (Inl e, d')"
  moreover from this have "d' = d"
    by (auto simp: duck_allocate_and_insert_def split: sum.splits prod.splits)
  ultimately show "duck_sound env d' \<and> duck_issued env d' = duck_issued env d \<and>
      (\<forall>b. alloc_number (duck_counter env d' b) (aa_start_value a) None =
           alloc_number (duck_counter env d b) (aa_start_value a) None)" by simp
qed simp

end
