(* ===== verification/Billing_Duckdb_Properties.thy ===== *)
theory Billing_Duckdb_Properties
  imports Billing_Duckdb_Refinement
begin

text \<open>
  What the database adapter promises: exactly when an allocation is accepted, that every operation
  it accepts is one of the in-memory store, gap-free numbers and idempotent retries through
  \<open>handle\<close>, and where the two adapters part.
\<close>

section \<open>When an allocation is accepted\<close>

definition ids_free :: "duck_env \<Rightarrow> invoice_id \<Rightarrow> reservation_id \<Rightarrow> duck_db \<Rightarrow> bool" where
  "ids_free env iid rid d \<longleftrightarrow>
     (\<forall>r \<in> set (dd_invoices d). iv_id r \<noteq> invoice_key env iid) \<and>
     (\<forall>q \<in> set (dd_reservations d). rv_invoice q \<noteq> invoice_key env iid \<and> rv_id q \<noteq> reservation_key env rid)"

definition castable :: "duck_env \<Rightarrow> allocate_args \<Rightarrow> bool" where
  "castable env a \<longleftrightarrow>
     (\<forall>l \<in> set (di_lines (aa_draft a)). dk_dec6 env (li_quantity l) \<noteq> None) \<and>
     (case aa_rate_metadata a of
        None \<Rightarrow> aa_currency a = CurrencyHuf
      | Some r \<Rightarrow> dk_dec6 env (rm_rate r) \<noteq> None \<and> dk_dec0 env (of_int (rm_huf_equivalent_total r)) \<noteq> None)"

lemma is_ok_and_then: "is_ok (and_then r f) \<longleftrightarrow> (\<exists>x. r = Inr x \<and> is_ok (f x))"
  by (cases r) simp_all

lemma insert_lines_ok:
  "\<forall>l \<in> set (dd_lines d). ln_invoice l = iid \<longrightarrow> ln_ordinal l < n \<Longrightarrow>
   is_ok (insert_lines env iid n ls d) \<longleftrightarrow> (\<forall>l \<in> set ls. dk_dec6 env (li_quantity l) \<noteq> None)"
proof (induction ls arbitrary: n d)
  case Nil
  then show ?case by simp
next
  case (Cons l ls)
  show ?case
  proof (cases "dk_dec6 env (li_quantity l)")
    case None
    then show ?thesis by (simp add: storage_def)
  next
    case (Some q)
    let ?row = "line_to_row iid n l q"
    have "\<forall>x \<in> set (dd_lines d). \<not> line_clash ?row x"
      using Cons.prems by (auto simp: line_clash_def line_to_row_def)
    then have ins: "insert_unique line_clash ?row (dd_lines d) = Inr (dd_lines d @ [?row])" by simp
    have "\<forall>x \<in> set (dd_lines (d\<lparr>dd_lines := dd_lines d @ [?row]\<rparr>)). ln_invoice x = iid \<longrightarrow> ln_ordinal x < Suc n"
      using Cons.prems by (auto simp: line_to_row_def less_Suc_eq)
    from Cons.IH [OF this] show ?thesis by (simp add: Some ins)
  qed
qed

lemma insert_reservation_ok:
  assumes "\<forall>q \<in> set (dd_reservations d). \<not> (rv_series q = k \<and> rv_fiscal_year q = fy \<and> rv_number q = of_nat n)"
  shows "is_ok (insert_reservation env rid k fy n iid now_str d) \<longleftrightarrow>
    (\<forall>q \<in> set (dd_reservations d). rv_invoice q \<noteq> invoice_key env iid \<and> rv_id q \<noteq> reservation_key env rid)"
  using assms by (auto simp: insert_reservation_def is_ok_and_then reservation_clash_def)

lemma insert_invoice_ok:
  assumes "duck_ok env"
    and "\<forall>r \<in> set (dd_invoices d). \<not> (iv_series r = k \<and> iv_fiscal_year r = fy \<and> iv_number r = of_nat n)"
    and "\<forall>r \<in> set (dd_invoices d). iv_idem r \<noteq> idem_to_canonical_string (dk_ulid_str env) (aa_key a)"
  shows "is_ok (insert_invoice env a k fy n d) \<longleftrightarrow>
    (\<forall>r \<in> set (dd_invoices d). iv_id r \<noteq> invoice_key env (di_id (aa_draft a))) \<and>
    (\<forall>r. aa_rate_metadata a = Some r \<longrightarrow>
       dk_dec6 env (rm_rate r) \<noteq> None \<and> dk_dec0 env (of_int (rm_huf_equivalent_total r)) \<noteq> None)"
  using assms(2,3)
  by (cases "aa_rate_metadata a")
     (auto simp: insert_invoice_def is_ok_and_then Let_def opt_res_def duck_okD [OF assms(1)] invoice_clash_def
       res_simps)

lemma number_free:
  assumes ok: "duck_ok env" and rep: "duck_rep env d m" and inv: "mem_inv m"
    and n: "n = alloc_number (next_number m (sid, fy)) st fl" "n < u64_max"
  shows "\<forall>q \<in> set (dd_reservations d). \<not> (rv_series q = series_key env sid \<and> rv_fiscal_year q = fy \<and> rv_number q = of_nat n)"
    and "\<forall>r \<in> set (dd_invoices d). \<not> (iv_series r = series_key env sid \<and> iv_fiscal_year r = fy \<and> iv_number r = of_nat n)"
proof -
  show res: "\<forall>q \<in> set (dd_reservations d). \<not> (rv_series q = series_key env sid \<and> rv_fiscal_year q = fy \<and> rv_number q = of_nat n)"
  proof (intro ballI notI)
    fix q assume q: "q \<in> set (dd_reservations d)"
      and eq: "rv_series q = series_key env sid \<and> rv_fiscal_year q = fy \<and> rv_number q = of_nat n"
    obtain r where r: "r \<in> set (reservations m)" "q = row_of_reservation env r"
      using q rep by (auto simp: duck_rep_def rep_reservations_def)
    then have same: "sr_series_id r = sid" "sr_fiscal_year r = fy" "of_nat (sr_number r) = (of_nat n :: u64)"
      using eq by (simp_all add: row_of_reservation_def key_inject [OF ok])
    obtain c where c: "next_number m (sid, fy) = Some c" "sr_number r < c"
      using mem_invD(4) [OF inv r(1)] same by blast
    then have lt: "sr_number r < n" using alloc_number_ge(1) [of c st fl] n(1) by simp
    then have "sr_number r = n"
      using arg_cong [OF same(3), of unat] n(2) by (simp add: unat_u64)
    with lt show False by simp
  qed
  show "\<forall>r \<in> set (dd_invoices d). \<not> (iv_series r = series_key env sid \<and> iv_fiscal_year r = fy \<and> iv_number r = of_nat n)"
  proof
    fix r assume "r \<in> set (dd_invoices d)"
    then obtain q where "q \<in> set (dd_reservations d)" "backs r q"
      using rep by (auto simp: duck_rep_def backed_def)
    then show "\<not> (iv_series r = series_key env sid \<and> iv_fiscal_year r = fy \<and> iv_number r = of_nat n)"
      using res by (auto simp: backs_def)
  qed
qed

lemma read_or_seed_total: "\<exists>nxt d1. read_or_seed k fy st now_str d = Inr (nxt, d1)"
proof (cases "select_one (in_bucket k fy) (dd_state d)")
  case None
  have "\<forall>x \<in> set (dd_state d). \<not> state_clash \<lparr>sq_series = k, sq_fiscal_year = fy, sq_next = u, sq_updated_at = now_str\<rparr> x" for u
    using None by (auto simp: select_one_None in_bucket_def state_clash_def)
  then have "insert_unique state_clash \<lparr>sq_series = k, sq_fiscal_year = fy, sq_next = u, sq_updated_at = now_str\<rparr> (dd_state d) =
      Inr (dd_state d @ [\<lparr>sq_series = k, sq_fiscal_year = fy, sq_next = u, sq_updated_at = now_str\<rparr>])" for u by simp
  note ins = this
  show ?thesis unfolding read_or_seed_def None Let_def option.case ins by simp
qed (simp add: read_or_seed_def)

lemma inserts_ok:
  assumes ok: "duck_ok env" and lines: "\<forall>l \<in> set (dd_lines d). \<exists>r \<in> set (dd_invoices d). ln_invoice l = iv_id r"
    and res: "\<forall>q \<in> set (dd_reservations d). \<not> (rv_series q = k \<and> rv_fiscal_year q = fy \<and> rv_number q = of_nat n)"
    and ivc: "\<forall>r \<in> set (dd_invoices d). \<not> (iv_series r = k \<and> iv_fiscal_year r = fy \<and> iv_number r = of_nat n)"
    and idem: "\<forall>r \<in> set (dd_invoices d). iv_idem r \<noteq> idem_to_canonical_string (dk_ulid_str env) (aa_key a)"
  shows "is_ok (and_then (insert_reservation env rid k fy n (di_id (aa_draft a)) now_str d) (\<lambda>d3.
      and_then (check (aa_currency a = CurrencyHuf \<or> aa_rate_metadata a \<noteq> None) e) (\<lambda>_.
      and_then (insert_invoice env a k fy n d3) (\<lambda>d4.
      and_then (insert_lines env (invoice_key env (di_id (aa_draft a))) 0 (di_lines (aa_draft a)) d4) (\<lambda>d5.
        Inr (out, d5)))))) \<longleftrightarrow> ids_free env (di_id (aa_draft a)) rid d \<and> castable env a"
    (is "is_ok ?L \<longleftrightarrow> ?free \<and> ?cast")
proof -
  let ?iid = "di_id (aa_draft a)"
  let ?A = "insert_reservation env rid k fy n ?iid now_str d"
  let ?rate = "\<forall>r. aa_rate_metadata a = Some r \<longrightarrow>
       dk_dec6 env (rm_rate r) \<noteq> None \<and> dk_dec0 env (of_int (rm_huf_equivalent_total r)) \<noteq> None"
  let ?ids = "\<forall>r \<in> set (dd_invoices d). iv_id r \<noteq> invoice_key env ?iid"
  have three: "dd_invoices d3 = dd_invoices d \<and> dd_lines d3 = dd_lines d" if "?A = Inr d3" for d3
    using that by (auto simp: insert_reservation_def res_simps)
  have four: "dd_lines d4 = dd_lines d" if "?A = Inr d3" "insert_invoice env a k fy n d3 = Inr d4" for d3 d4
    using that three [OF that(1)] by (auto simp: insert_invoice_def res_simps Let_def)
  have inv: "is_ok (insert_invoice env a k fy n d3) \<longleftrightarrow> ?ids \<and> ?rate" if "?A = Inr d3" for d3
    using insert_invoice_ok [OF ok, of d3 k fy n a] three [OF that] ivc idem by simp
  have ls: "is_ok (insert_lines env (invoice_key env ?iid) 0 (di_lines (aa_draft a)) d4) \<longleftrightarrow>
      (\<forall>l \<in> set (di_lines (aa_draft a)). dk_dec6 env (li_quantity l) \<noteq> None)"
    if "?A = Inr d3" "insert_invoice env a k fy n d3 = Inr d4" for d3 d4
  proof (rule insert_lines_ok)
    have "?ids" using inv [OF that(1)] that(2) by simp
    then show "\<forall>l \<in> set (dd_lines d4). ln_invoice l = invoice_key env ?iid \<longrightarrow> ln_ordinal l < 0"
      using lines by (fastforce simp: four [OF that])
  qed
  have "is_ok ?L \<longleftrightarrow> is_ok ?A \<and> (aa_currency a = CurrencyHuf \<or> aa_rate_metadata a \<noteq> None) \<and> ?ids \<and> ?rate \<and>
      (\<forall>l \<in> set (di_lines (aa_draft a)). dk_dec6 env (li_quantity l) \<noteq> None)"
  proof (cases ?A)
    case (Inr d3)
    show ?thesis
    proof (cases "insert_invoice env a k fy n d3")
      case (Inl x)
      then show ?thesis using inv [OF \<open>?A = Inr d3\<close>] \<open>?A = Inr d3\<close> by (auto simp: is_ok_and_then)
    next
      case (Inr d4)
      then have "?ids \<and> ?rate" using inv [OF \<open>?A = Inr d3\<close>] by simp
      then show ?thesis using ls [OF \<open>?A = Inr d3\<close> Inr] Inr \<open>?A = Inr d3\<close>
        by (simp add: is_ok_and_then is_ok_iff [symmetric])
    qed
  qed (simp add: is_ok_and_then)
  also have "\<dots> \<longleftrightarrow> ?free \<and> ?cast"
    unfolding insert_reservation_ok [OF res] by (auto simp: ids_free_def castable_def split: option.splits)
  finally show ?thesis .
qed

lemma rep_find_id:
  assumes "duck_ok env" and "duck_rep env d m" and "mem_inv m"
  shows "duck_find_series_by_id env i d = Inr (mem_find_series_by_id i m)"
proof -
  have rep: "rep_series env (dd_series d) m" using assms(2) by (simp add: duck_rep_def)
  show ?thesis
    using rep_series_select [OF assms(1) rep, of i] decode_series [OF assms(1)]
    by (cases "series_by_id m i") (simp_all add: duck_find_series_by_id_def mem_find_series_by_id_def opt_res_def)
qed

lemma allocate_new_ok:
  assumes ok: "duck_ok env" and rep: "duck_rep env d m" and inv: "mem_inv m" and a: "args_ok a"
    and room: "\<forall>fy. row_fits (alloc_number (next_number m (aa_series_id a, fy)) (aa_start_value a) (aa_sequence_floor a))"
    and new: "\<forall>r \<in> set (dd_invoices d). iv_idem r \<noteq> idem_to_canonical_string (dk_ulid_str env) (aa_key a)"
  shows "is_ok (allocate_new env rid a now d) \<longleftrightarrow>
    series_by_id m (aa_series_id a) \<noteq> None \<and> ids_free env (di_id (aa_draft a)) rid d \<and> castable env a"
proof (cases "series_by_id m (aa_series_id a)")
  case None
  then show ?thesis by (simp add: allocate_new_def Let_def resolve_bucket_rep [OF ok rep inv])
next
  case (Some sr)
  let ?k = "series_key env (aa_series_id a)" and ?t = "dk_rfc env now"
  define fy where "fy = fiscal_year_of (dk_billing env) (is_reset_policy sr) (di_issue_date (aa_draft a))"
  have b: "resolve_bucket env d (aa_series_id a) (be_year (dk_billing env) (di_issue_date (aa_draft a))) = Inr (?k, fy)"
    using Some by (simp add: resolve_bucket_rep [OF ok rep inv] fy_def fiscal_year_of_def)
  obtain nxt d1 where seed: "read_or_seed ?k fy (aa_start_value a) ?t d = Inr (nxt, d1)"
    using read_or_seed_total by blast
  define n where "n = max (max nxt (aa_start_value a)) (case aa_sequence_floor a of Some f \<Rightarrow> f | None \<Rightarrow> 0)"
  have st: "rep_state env (dd_state d) m" "aa_start_value a \<le> u64_max"
    using rep a by (simp_all add: duck_rep_def args_ok_def)
  have fits: "alloc_number (next_number m (aa_series_id a, fy)) (aa_start_value a) (aa_sequence_floor a) < u64_max"
    using room by (simp add: row_fits_def)
  note c = counter_rep [OF ok st seed n_def fits]
  let ?d2 = "advance_counter ?k fy n ?t d1"
  have d2: "dd_reservations ?d2 = dd_reservations d" "dd_invoices ?d2 = dd_invoices d" "dd_lines ?d2 = dd_lines d"
    by (subst c(3), simp add: advance_counter_def)+
  have "n < u64_max" using c(1) fits by simp
  note free = number_free [OF ok rep inv c(1) this]
  obtain ivs where ivs: "rep_ivs env (dd_invoices d) (dd_lines d) m ivs"
    using rep unfolding duck_rep_def rep_invoices_def by blast
  have lines: "\<forall>l \<in> set (dd_lines d). \<exists>r \<in> set (dd_invoices d). ln_invoice l = iv_id r"
    using rep_ivsD(8) [OF ivs] by blast
  have "ids_free env (di_id (aa_draft a)) rid ?d2 \<longleftrightarrow> ids_free env (di_id (aa_draft a)) rid d"
    by (simp add: ids_free_def d2)
  then show ?thesis
    unfolding allocate_new_def Let_def b and_then_Inr prod.case seed n_def [symmetric]
    using inserts_ok [OF ok, of ?d2 ?k fy n a rid ?t, unfolded d2, OF lines free new] Some by simp
qed

text \<open>
  C21: the persistent store issues whenever it can: with room in the bucket, an allocation
  succeeds exactly when every line is acceptable and the key was used before, or the series
  exists, the drawn ids are unused, a non-HUF invoice brings its rate, and the database can cast
  the decimals it is given. No constraint of the schema ever refuses a number.
\<close>

theorem duck_allocation_accepted:
  assumes "duck_sound env d" and "args_ok a"
    and "\<forall>fy. row_fits (alloc_number (duck_counter env d (aa_series_id a, fy)) (aa_start_value a) (aa_sequence_floor a))"
  shows "is_ok (fst (duck_allocate_and_insert env rid a now d)) \<longleftrightarrow>
    lines_accepted (dk_billing env) a \<and>
    (duck_issued env d (aa_key a) \<noteq> None \<or>
     duck_find_series_by_id env (aa_series_id a) d \<noteq> Inr None \<and>
     ids_free env (di_id (aa_draft a)) rid d \<and> castable env a)"
proof -
  from assms(1) obtain m where m: "duck_ok env" "duck_rep env d m" "mem_inv m" "duck_issued env d = mem_issued m"
    "duck_counter env d = next_number m" by (rule duck_soundE)
  have fst: "is_ok (fst (duck_allocate_and_insert env rid a now d)) \<longleftrightarrow> is_ok (allocate_in_tx env rid a now d)"
    by (simp add: duck_allocate_and_insert_def split: sum.split)
  show ?thesis
  proof (cases "lines_accepted (dk_billing env) a")
    case False
    then show ?thesis unfolding fst
      by (auto simp: allocate_in_tx_def lines_accepted_def is_ok_and_then split: option.splits)
  next
    case lines: True
    show ?thesis
    proof (cases "mem_issued m (aa_key a)")
      case (Some p)
      then obtain i r where "mem_issued m (aa_key a) = Some (i, r)" by (cases p) auto
      from allocate_replay [OF m(1-3) lines this] show ?thesis using lines Some m(4) by simp
    next
      case None
      then have sel: "select_one (\<lambda>r. iv_idem r = idem_to_canonical_string (dk_ulid_str env) (aa_key a)) (dd_invoices d) = None"
        using select_idem(1) [OF m(1,2)] mem_issued_None [OF m(3)] by blast
      then have "allocate_in_tx env rid a now d = allocate_new env rid a now d"
        using lines by (simp add: allocate_in_tx_def lines_accepted_def)
      then show ?thesis
        using allocate_new_ok [OF m(1-3) assms(2) assms(3) [unfolded m(5)]] sel None lines m(4)
        unfolding fst by (simp add: select_one_None rep_find_id [OF m(1-3)] mem_find_series_by_id_def)
    qed
  qed
qed

section \<open>Refinement of the in-memory store\<close>

datatype store_op =
    Allocate reservation_id allocate_args int
  | CreateSeries invoice_series
  | SetPolicy series_id reset_policy
  | VoidNumber invoice_id string int

definition done_with :: "'e + 's \<Rightarrow> 'e + 'o option \<times> 's" where
  "done_with r = and_then r (\<lambda>s. Inr (None, s))"

fun duck_step :: "duck_env \<Rightarrow> store_op \<Rightarrow> duck_db \<Rightarrow> billing_error + allocate_outcome option \<times> duck_db" where
  "duck_step env (Allocate rid a now) d =
     (case duck_allocate_and_insert env rid a now d of
        (Inl e, _) \<Rightarrow> Inl e | (Inr out, d') \<Rightarrow> Inr (Some out, d'))"
| "duck_step env (CreateSeries sr) d = done_with (duck_create_series env sr d)"
| "duck_step env (SetPolicy sid p) d = done_with (duck_update_series_reset_policy env sid p d)"
| "duck_step env (VoidNumber iid reason t) d = done_with (duck_void_reservation env iid reason t d)"

fun mem_step :: "billing_env \<Rightarrow> store_op \<Rightarrow> mem_store \<Rightarrow> billing_error + allocate_outcome option \<times> mem_store" where
  "mem_step be (Allocate rid a now) m =
     (case mem_allocate_and_insert be rid a now m of
        (Inl e, _) \<Rightarrow> Inl e | (Inr out, m') \<Rightarrow> Inr (Some out, m'))"
| "mem_step be (CreateSeries sr) m = done_with (mem_create_series sr m)"
| "mem_step be (SetPolicy sid p) m = done_with (mem_update_series_reset_policy sid p m)"
| "mem_step be (VoidNumber iid reason t) m = done_with (mem_void_reservation iid reason t m)"

fun stored_op :: "duck_env \<Rightarrow> store_op \<Rightarrow> store_op" where
  "stored_op env (Allocate rid a now) = Allocate rid (stored_args env a) now"
| "stored_op env other = other"

fun op_ok :: "duck_env \<Rightarrow> duck_db \<Rightarrow> store_op \<Rightarrow> bool" where
  "op_ok env d (Allocate rid a now) \<longleftrightarrow> args_ok a \<and>
     (\<forall>fy. row_fits (alloc_number (duck_counter env d (aa_series_id a, fy)) (aa_start_value a) (aa_sequence_floor a)))"
| "op_ok env d (CreateSeries sr) \<longleftrightarrow> code_ok (is_code sr)"
| "op_ok env d other \<longleftrightarrow> True"

lemma allocate_refines:
  assumes ok: "duck_ok env" and rep: "duck_rep env d m" and inv: "mem_inv m" and a: "args_ok a"
    and room: "\<forall>fy. row_fits (alloc_number (duck_counter env d (aa_series_id a, fy)) (aa_start_value a) (aa_sequence_floor a))"
    and al: "duck_allocate_and_insert env rid a now d = (Inr out, d')"
  shows "\<exists>m'. mem_allocate_and_insert (dk_billing env) rid (stored_args env a) now m = (Inr (stored_outcome env out), m') \<and>
    duck_rep env d' m' \<and> mem_inv m'"
proof (cases "mem_issued m (aa_key a)")
  case None
  from duck_alloc_fresh [OF ok rep inv a None room [unfolded duck_counter_rep [OF rep]] al] show ?thesis by blast
next
  case (Some p)
  then obtain i r where known: "mem_issued m (aa_key a) = Some (i, r)" by (cases p) auto
  from allocate_replay [OF ok rep inv duck_alloc_success(2) [OF al] known] al
  have "out = Replay i r" "d' = d" by simp_all
  then show ?thesis using mem_replay [OF inv, of "stored_args env a" i r] known rep inv by simp
qed

lemma map_of_snoc: "k \<notin> fst ` set xs \<Longrightarrow> map_of (xs @ [(k, v)]) = (map_of xs)(k \<mapsto> v)"
  by (simp add: map_add_upd_left dom_map_of_conv_image_fst)

lemma rep_kept:
  assumes "duck_rep env d m" and "rep_series env (dd_series d') m'" and "next_number m' = next_number m"
    and "reservations m' = reservations m" "invoices m' = invoices m" "idempotency m' = idempotency m"
    and "dd_state d' = dd_state d" "dd_reservations d' = dd_reservations d" "dd_invoices d' = dd_invoices d"
    "dd_lines d' = dd_lines d"
  shows "duck_rep env d' m'"
proof -
  have "rep_ivs env t ls m' = rep_ivs env t ls m" for t ls
    by (rule ext) (simp add: rep_ivs_def rep_row_def assms(5,6))
  then have "rep_invoices env t ls m' = rep_invoices env t ls m" for t ls
    by (simp add: rep_invoices_def)
  then show ?thesis
    using assms(1,2) unfolding duck_rep_def rep_state_def rep_reservations_def assms(3,4,7-10) by blast
qed

lemma create_series_refines:
  assumes ok: "duck_ok env" and rep: "duck_rep env d m" and inv: "mem_inv m" and code: "code_ok (is_code sr)"
    and c: "duck_create_series env sr d = Inr d'"
  shows "\<exists>m'. mem_create_series sr m = Inr m' \<and> duck_rep env d' m' \<and> mem_inv m'"
proof -
  obtain srs where srs: "dd_series d = map (row_of_series env) srs" "\<forall>s \<in> set srs. code_ok (is_code s)"
    "distinct (map is_id srs)" "series_by_id m = map_of (map (\<lambda>s. (is_id s, s)) srs)"
    "series_by_code m = map_of (map (\<lambda>s. (series_code_str (is_code s), is_id s)) srs)"
    using rep by (auto simp: duck_rep_def rep_series_def)
  have row: "d' = d\<lparr>dd_series := dd_series d @ [row_of_series env sr]\<rparr>"
    "\<forall>x \<in> set (dd_series d). \<not> series_clash (row_of_series env sr) x"
    using c by (auto simp: duck_create_series_def res_simps row_of_series_def)
  have new: "is_id s \<noteq> is_id sr \<and> series_code_str (is_code s) \<noteq> series_code_str (is_code sr)" if "s \<in> set srs" for s
    using row(2) that srs(1) by (auto simp: series_clash_def row_of_series_def key_inject [OF ok])
  let ?m = "m\<lparr>series_by_code := (series_by_code m)(series_code_str (is_code sr) \<mapsto> is_id sr),
      series_by_id := (series_by_id m)(is_id sr \<mapsto> sr)\<rparr>"
  have "series_by_code m (series_code_str (is_code sr)) = None"
    using new by (force simp: srs(5) map_of_eq_None_iff)
  then have "mem_create_series sr m = Inr ?m" by (simp add: mem_create_series_def Let_def)
  moreover have "rep_series env (dd_series d') ?m"
    unfolding rep_series_def
  proof (intro exI [of _ "srs @ [sr]"] conjI)
    have k: "is_id sr \<notin> fst ` set (map (\<lambda>s. (is_id s, s)) srs)"
      "series_code_str (is_code sr) \<notin> fst ` set (map (\<lambda>s. (series_code_str (is_code s), is_id s)) srs)"
      using new by force+
    show "series_by_id ?m = map_of (map (\<lambda>s. (is_id s, s)) (srs @ [sr]))"
      using map_of_snoc [OF k(1), of sr] by (simp add: srs(4))
    show "series_by_code ?m = map_of (map (\<lambda>s. (series_code_str (is_code s), is_id s)) (srs @ [sr]))"
      using map_of_snoc [OF k(2), of "is_id sr"] by (simp add: srs(5))
    show "distinct (map is_id (srs @ [sr]))" using srs(3) new by force
  qed (use srs(2) code in \<open>simp_all add: row(1) srs(1)\<close>)
  then have "duck_rep env d' ?m"
    using rep by (intro rep_kept [OF rep]) (simp_all add: row(1))
  moreover have "mem_inv ?m" using inv by (auto simp: mem_inv_def)
  ultimately show ?thesis by blast
qed

lemma set_policy_refines:
  assumes ok: "duck_ok env" and rep: "duck_rep env d m" and inv: "mem_inv m"
    and u: "duck_update_series_reset_policy env sid p d = Inr d'"
  shows "\<exists>m'. mem_update_series_reset_policy sid p m = Inr m' \<and> duck_rep env d' m' \<and> mem_inv m'"
proof -
  obtain srs where srs: "dd_series d = map (row_of_series env) srs" "\<forall>s \<in> set srs. code_ok (is_code s)"
    "distinct (map is_id srs)" "series_by_id m = map_of (map (\<lambda>s. (is_id s, s)) srs)"
    "series_by_code m = map_of (map (\<lambda>s. (series_code_str (is_code s), is_id s)) srs)"
    using rep by (auto simp: duck_rep_def rep_series_def)
  let ?hit = "\<lambda>r. sv_id r = series_key env sid" and ?set = "\<lambda>s. s\<lparr>is_reset_policy := p\<rparr>"
  let ?new = "map (\<lambda>s. if is_id s = sid then ?set s else s) srs"
  have row: "d' = d\<lparr>dd_series := update_where ?hit (\<lambda>r. r\<lparr>sv_policy := reset_policy_to_str p\<rparr>) (dd_series d)\<rparr>"
    "count_where ?hit (dd_series d) = 1"
    using u by (auto simp: duck_update_series_reset_policy_def res_simps)
  have rows: "dd_series d' = map (row_of_series env) ?new"
    by (simp add: row(1) srs(1) update_where_def row_of_series_def key_inject [OF ok])
  have "filter ?hit (dd_series d) \<noteq> []" using row(2) by (auto simp: count_where_def)
  then obtain sr where sr: "sr \<in> set srs" "is_id sr = sid"
    by (auto simp: srs(1) filter_empty_conv row_of_series_def key_inject [OF ok])
  have known: "series_by_id m sid = Some sr"
    using find_unique [OF srs(3) sr(1)] sr(2) by (simp add: srs(4) map_of_find)
  let ?m = "m\<lparr>series_by_id := (series_by_id m)(sid \<mapsto> ?set sr)\<rparr>"
  have ids: "map is_id ?new = map is_id srs" by simp
  let ?h = "\<lambda>s. if is_id s = sid then ?set s else s"
  have "map_of (map (\<lambda>s. (is_id s, s)) ?new) i = ((series_by_id m)(sid \<mapsto> ?set sr)) i" for i
  proof -
    have "find (\<lambda>x. is_id x = i) ?new = map_option ?h (find (\<lambda>x. is_id x = i) srs)"
      by (induction srs) simp_all
    then have new: "map_of (map (\<lambda>s. (is_id s, s)) ?new) i = map_option ?h (find (\<lambda>x. is_id x = i) srs)"
      using map_of_find [of is_id "\<lambda>s. s" ?new i] by (simp only: option.map_ident)
    have old: "series_by_id m i = find (\<lambda>x. is_id x = i) srs"
      using map_of_find [of is_id "\<lambda>s. s" srs i] by (simp only: option.map_ident srs(4))
    have at: "is_id x = i" if "find (\<lambda>x. is_id x = i) srs = Some x" for x
      using that by (auto simp: find_Some_iff)
    show ?thesis
    proof (cases "i = sid")
      case True
      then have "find (\<lambda>x. is_id x = i) srs = Some sr" using known old by metis
      then show ?thesis unfolding new using True sr(2) by simp
    next
      case False
      then show ?thesis using at unfolding new
        by (cases "find (\<lambda>x. is_id x = i) srs") (simp_all add: old)
    qed
  qed
  then have by_id: "series_by_id ?m = map_of (map (\<lambda>s. (is_id s, s)) ?new)" by auto
  have by_code: "map (\<lambda>s. (series_code_str (is_code s), is_id s)) ?new =
      map (\<lambda>s. (series_code_str (is_code s), is_id s)) srs" by simp
  have "rep_series env (dd_series d') ?m"
    unfolding rep_series_def rows
  proof (intro exI [of _ ?new] conjI refl by_id)
    show "\<forall>s \<in> set ?new. code_ok (is_code s)" using srs(2) by auto
    show "distinct (map is_id ?new)" unfolding ids by (rule srs(3))
    show "series_by_code ?m = map_of (map (\<lambda>s. (series_code_str (is_code s), is_id s)) ?new)"
      unfolding by_code using srs(5) by simp
  qed
  then have "duck_rep env d' ?m" by (intro rep_kept [OF rep]) (simp_all add: row(1))
  moreover have "mem_inv ?m" using inv sr(2) by (auto simp: mem_inv_def)
  ultimately show ?thesis using known by (simp add: mem_update_series_reset_policy_def)
qed

lemma update_first_map:
  "distinct (map k xs) \<Longrightarrow> find (\<lambda>x. k x = a) xs = Some y \<Longrightarrow> P y \<Longrightarrow>
   update_first (\<lambda>x. k x = a) f xs = map (\<lambda>x. if k x = a \<and> P x then f x else x) xs"
proof (induction xs)
  case (Cons x xs)
  show ?case
  proof (cases "k x = a")
    case True
    then have "\<forall>z \<in> set xs. k z \<noteq> a" using Cons.prems(1) by (auto simp: image_iff)
    then have "map (\<lambda>x. if k x = a \<and> P x then f x else x) xs = xs" by (simp add: map_idI)
    then show ?thesis using True Cons.prems(2,3) by simp
  qed (use Cons in auto)
qed simp

lemma backed_update:
  assumes "backed t qs" and "\<And>r q. backs r (f q) \<longleftrightarrow> backs r q"
  shows "backed t (update_where p f qs)"
  unfolding backed_def
proof
  fix r assume "r \<in> set t"
  then obtain q where "q \<in> set qs" "backs r q" using assms(1) by (auto simp: backed_def)
  then show "\<exists>q \<in> set (update_where p f qs). backs r q"
    using assms(2) by (intro bexI [of _ "if p q then f q else q"]) (auto simp: set_update_where)
qed

lemma void_refines:
  assumes ok: "duck_ok env" and rep: "duck_rep env d m" and inv: "mem_inv m"
    and v: "duck_void_reservation env iid reason t d = Inr d'"
  shows "\<exists>m'. mem_void_reservation iid reason t m = Inr m' \<and> duck_rep env d' m' \<and> mem_inv m'"
proof -
  let ?hit = "\<lambda>r. rv_invoice r = invoice_key env iid \<and> rv_status r = ''reserved''"
  let ?row = "\<lambda>r. r\<lparr>rv_status := ''voided'', rv_void_reason := Some reason, rv_voided_at := Some (dk_rfc env t)\<rparr>"
  let ?f = "\<lambda>r. r\<lparr>sr_status := Voided, sr_void_reason := Some reason, sr_voided_at := Some t\<rparr>"
  let ?p = "\<lambda>r. sr_invoice_id r = iid"
  let ?P = "\<lambda>r. sr_status r = Reserved"
  have st: "status_str s = ''reserved'' \<longleftrightarrow> s = Reserved" for s by (cases s) simp_all
  have hit: "?hit (row_of_reservation env r) \<longleftrightarrow> ?p r \<and> ?P r" for r
    by (simp add: row_of_reservation_def key_inject [OF ok] st)
  have rows: "dd_reservations d = map (row_of_reservation env) (reservations m)"
    using rep by (simp add: duck_rep_def rep_reservations_def)
  have d': "d' = d\<lparr>dd_reservations := update_where ?hit ?row (dd_reservations d)\<rparr>"
    "count_where ?hit (dd_reservations d) = 1"
    using v by (auto simp: duck_void_reservation_def Let_def res_simps)
  have "filter ?hit (dd_reservations d) \<noteq> []" using d'(2) by (auto simp: count_where_def)
  then obtain r where r: "r \<in> set (reservations m)" "?p r" "?P r"
    by (auto simp: rows filter_empty_conv hit)
  have found: "find ?p (reservations m) = Some r"
    using find_unique [OF mem_invD(7) [OF inv] r(1)] r(2) by simp
  let ?m = "m\<lparr>reservations := update_first ?p ?f (reservations m)\<rparr>"
  have mem: "mem_void_reservation iid reason t m = Inr ?m"
    using found r(3) by (simp add: mem_void_reservation_def)
  have upd: "update_first ?p ?f (reservations m) = map (\<lambda>x. if ?p x \<and> ?P x then ?f x else x) (reservations m)"
    using mem_invD(7) [OF inv] found r(3) by (rule update_first_map)
  have "row_of_reservation env (?f x) = ?row (row_of_reservation env x)" for x
    by (simp add: row_of_reservation_def)
  then have "dd_reservations d' = map (row_of_reservation env) (reservations ?m)"
    by (simp add: d'(1) rows update_where_def upd hit)
  moreover have "backed (dd_invoices d') (dd_reservations d')"
    using rep by (auto simp: duck_rep_def d'(1) backs_def intro!: backed_update)
  moreover have "rep_ivs env s ls ?m = rep_ivs env s ls m" for s ls
    by (rule ext) (simp add: rep_ivs_def rep_row_def)
  then have "rep_invoices env (dd_invoices d') (dd_lines d') ?m"
    using rep by (simp add: rep_invoices_def duck_rep_def d'(1))
  ultimately have "duck_rep env d' ?m"
    using rep by (simp add: duck_rep_def rep_reservations_def rep_series_def rep_state_def d'(1))
  moreover have "mem_inv ?m" using void_keeps_number [OF inv] mem by blast
  ultimately show ?thesis using mem by blast
qed

text \<open>
  C18: The database store implements the in-memory one, within the range of the counter. Take tables
  that represent a store, and an operation (allocating, creating a series, setting its policy, voiding
  a number) whose arguments have the values of their types: a series code of the shape its constructor
  makes and, for an allocation, a start value of 64 bits, a draft for that same series, and a number
  still below the largest 64-bit value, so that its successor fits the counter's row. Whenever the
  tables accept the operation, the store accepts it too, with the same outcome up to what a row keeps of
  an invoice line, and the tables it leaves represent the store it leaves, whose invariant holds. At the
  largest number the two part: the memory store refuses it and the table's counter wraps to zero
  (\<open>table_counter_wraps\<close>).
\<close>

theorem duckdb_refines_memory:
  assumes "duck_ok env" and "duck_rep env d m" and "mem_inv m" and "op_ok env d op"
    and "duck_step env op d = Inr (out, d')"
  shows "\<exists>m'. mem_step (dk_billing env) (stored_op env op) m = Inr (map_option (stored_outcome env) out, m') \<and>
    duck_rep env d' m' \<and> mem_inv m'"
proof (cases op)
  case (Allocate rid a now)
  then obtain o' where "duck_allocate_and_insert env rid a now d = (Inr o', d')" "out = Some o'"
    using assms(5) by (auto split: prod.splits sum.splits)
  then show ?thesis using allocate_refines [OF assms(1-3), of a rid now o' d'] assms(4) Allocate by auto
next
  case (CreateSeries sr)
  then show ?thesis using create_series_refines [OF assms(1-3), of sr d'] assms(4,5)
    by (auto simp: done_with_def res_simps)
next
  case (SetPolicy sid p)
  then show ?thesis using set_policy_refines [OF assms(1-3), of sid p d'] assms(5)
    by (auto simp: done_with_def res_simps)
next
  case (VoidNumber iid reason t)
  then show ?thesis using void_refines [OF assms(1-3), of iid reason t d'] assms(5)
    by (auto simp: done_with_def res_simps)
qed

section \<open>Issuing through the tables\<close>

definition duck_handle ::
  "duck_env \<Rightarrow> invoice_id \<Rightarrow> reservation_id \<Rightarrow> int \<Rightarrow> issue_invoice_command \<Rightarrow> duck_db \<Rightarrow>
   (billing_error + issue_invoice_outcome) \<times> duck_db" where
  "duck_handle env = handle (duck_find_series_by_code env) (duck_allocate_and_insert env) (dk_billing env)"

definition duck_handle_all ::
  "duck_env \<Rightarrow> issue_call list \<Rightarrow> duck_db \<Rightarrow> (billing_error + issue_invoice_outcome) list \<times> duck_db" where
  "duck_handle_all env = handle_all (duck_find_series_by_code env) (duck_allocate_and_insert env) (dk_billing env)"

text \<open>
  C19: invoice numbers in the database have no gaps and no duplicates: over any sequence of issue
  calls, including refused ones, retries, and calls whose drawn ids collide with used ones, the
  numbers newly issued in a series and fiscal year are consecutive in call order from the bucket's
  next number, as long as the bucket stays within 64 bits.
\<close>

theorem duck_numbers_gapless:
  assumes "duck_sound env d" and "\<forall>b. alloc_number (duck_counter env d b) 1 None + length cs \<le> u64_max"
    and "duck_handle_all env cs d = (rs, d')"
  shows "duck_sound env d' \<and> (\<exists>k. numbers_in b rs =
           [alloc_number (duck_counter env d b) 1 None ..< alloc_number (duck_counter env d b) 1 None + k] \<and>
           alloc_number (duck_counter env d' b) 1 None = alloc_number (duck_counter env d b) 1 None + k)"
proof (rule duck.handle_all_gapless [OF assms(1) _ _ _ assms(3) [unfolded duck_handle_all_def]])
  show "\<forall>b n. n < alloc_number (duck_counter env d b) 1 None + length cs \<longrightarrow> row_fits n"
    using assms(2) unfolding row_fits_def by (meson less_le_trans)
qed simp_all

lemma duck_alloc_series:
  assumes "duck_sound env d" and "args_ok a"
    and "\<forall>b. row_fits (alloc_number (duck_counter env d b) (aa_start_value a) (aa_sequence_floor a))"
    and "duck_allocate_and_insert env rid a now d = (res, d')"
  shows "dd_series d' = dd_series d"
proof (cases res)
  case (Inl e)
  then show ?thesis using assms(4) by (auto simp: duck_allocate_and_insert_def split: sum.splits prod.splits)
next
  case (Inr out)
  then have al: "duck_allocate_and_insert env rid a now d = (Inr out, d')" using assms(4) by simp
  from assms(1) obtain m where m: "duck_ok env" "duck_rep env d m" "mem_inv m" "duck_counter env d = next_number m"
    by (rule duck_soundE)
  show ?thesis
  proof (cases "mem_issued m (aa_key a)")
    case None
    from duck_alloc_fresh [OF m(1-3) assms(2) None _ al] assms(3) m(4) show ?thesis by metis
  next
    case (Some p)
    then obtain i r where "mem_issued m (aa_key a) = Some (i, r)" by (cases p) auto
    from allocate_replay [OF m(1-3) duck_alloc_success(2) [OF al] this] al show ?thesis by simp
  qed
qed

text \<open>
  C20: issuing is idempotent in the database too: while the next number of every series and year is below
  the largest 64-bit value, repeating a command that issued an invoice, at another time and with other
  drawn ids, changes no row and answers the stored invoice with the same number, dates and reservation;
  its lines are the ones the rows keep, without the units of measure.
\<close>

theorem duck_retry_replays:
  assumes "duck_sound env d" and "\<forall>b. row_fits (alloc_number (duck_counter env d b) 1 None)"
    and "duck_handle env iid rid now cmd d = (Inr (IFresh i r), d')"
  shows "duck_handle env iid2 rid2 now2 cmd d' = (Inr (IReplay (stored_invoice env i) r), d')"
proof -
  from assms(3) obtain sr where sr: "duck_find_series_by_code env (ic_series_code cmd) d = Inr (Some sr)"
    and al: "duck_allocate_and_insert env rid (args_of_command (dk_billing env) iid (is_id sr) now cmd) now d = (Inr (Fresh i r), d')"
    by (auto simp: duck_handle_def handle_def split: if_splits option.splits sum.splits prod.splits allocate_outcome.splits)
  have "dd_series d' = dd_series d"
    using assms(2) by (intro duck_alloc_series [OF assms(1) duck.args_of_command_ok _ al]) (simp add: args_of_command_def)
  then have "duck_find_series_by_code env (ic_series_code cmd) d' = Inr (Some sr)"
    using sr by (simp add: duck_find_series_by_code_def)
  from duck.handle_retry [OF assms(1) _ assms(2) assms(3) [unfolded duck_handle_def] this]
  show ?thesis by (simp add: duck_handle_def)
qed

section \<open>A demonstration database\<close>

definition demo_text :: "int \<Rightarrow> string" where
  "demo_text t = (if t < 0 then CHR ''-'' # replicate (nat (- t)) CHR ''x'' else replicate (nat t) CHR ''x'')"

definition demo_text_parse :: "string \<Rightarrow> int option" where
  "demo_text_parse s =
     (case s of [] \<Rightarrow> Some 0
      | c # r \<Rightarrow> Some (if c = CHR ''-'' then - int (length r) else int (length s)))"

definition demo_duck :: duck_env where
  "demo_duck = \<lparr>dk_billing = demo_billing, dk_ulid_str = (\<lambda>n. replicate n CHR ''x''),
                dk_ulid_parse = (\<lambda>s. Some (length s)), dk_rfc = demo_text, dk_rfc_parse = demo_text_parse,
                dk_date = demo_text, dk_date_parse = demo_text_parse, dk_date_col = Some,
                dk_dec6 = Some, dk_dec0 = Some\<rparr>"

lemma demo_text_parse: "demo_text_parse (demo_text t) = Some t"
  by (cases "nat t") (auto simp: demo_text_def demo_text_parse_def)

lemma demo_duck_ok: "duck_ok demo_duck"
  by (simp add: duck_ok_def demo_duck_def demo_text_parse)

definition demo_tables :: duck_db where
  "demo_tables = projr (duck_create_series demo_duck demo_series duck_new)"

lemma demo_tables_create: "duck_create_series demo_duck demo_series duck_new = Inr demo_tables"
  by (simp add: demo_tables_def duck_create_series_def insert_unique_def duck_new_def)

lemma demo_tables_rep: "duck_rep demo_duck demo_tables demo_store" "mem_inv demo_store"
proof -
  have "code_ok (is_code demo_series)"
    by code_simp
  from create_series_refines [OF demo_duck_ok duck_rep_new mem_inv_new this demo_tables_create]
  show "duck_rep demo_duck demo_tables demo_store" "mem_inv demo_store" by (auto simp: demo_store_def)
qed

lemma demo_tables_sound: "duck_sound demo_duck demo_tables"
  using demo_duck_ok demo_tables_rep by (auto simp: duck_sound_def)

lemma demo_tables_counter: "duck_counter demo_duck demo_tables = (\<lambda>_. None)"
  using duck_counter_rep [OF demo_tables_rep(1)] by (simp add: demo_store_eq mem_new_def)

lemma demo_numbers: "numbers_in (SeriesId 1, 2026) (fst (duck_handle_all demo_duck demo_calls demo_tables)) = [1, 2]"
  by code_simp

definition demo_args :: "series_id \<Rightarrow> allocate_args" where
  "demo_args sid = args_of_command demo_billing (InvoiceId 1) sid 10 (demo_command 1)"

lemma demo_args_ok: "args_ok (demo_args sid)"
  by (simp add: demo_args_def args_ok_def args_of_command_def draft_of_command_def u64_max_def)

lemma demo_args_fits:
  "\<forall>fy. row_fits (alloc_number (duck_counter demo_duck demo_tables (aa_series_id (demo_args sid), fy))
     (aa_start_value (demo_args sid)) (aa_sequence_floor (demo_args sid)))"
  by (simp add: demo_tables_counter alloc_number_def row_fits_def demo_args_def args_of_command_def u64_max_def)

theorem duck_allocation_accepted_witness:
  "is_ok (fst (duck_allocate_and_insert demo_duck (ReservationId 1) (demo_args (SeriesId 1)) 10 demo_tables)) \<and>
   \<not> is_ok (fst (duck_allocate_and_insert demo_duck (ReservationId 1) (demo_args (SeriesId 2)) 10 demo_tables))"
proof -
  note acc = duck_allocation_accepted [OF demo_tables_sound demo_args_ok demo_args_fits, where rid = "ReservationId 1" and now = 10]
  have "lines_accepted (dk_billing demo_duck) (demo_args (SeriesId 1))"
    "is_ok (duck_find_series_by_id demo_duck (aa_series_id (demo_args (SeriesId 1))) demo_tables)"
    "duck_find_series_by_id demo_duck (aa_series_id (demo_args (SeriesId 1))) demo_tables \<noteq> Inr None"
    "ids_free demo_duck (di_id (aa_draft (demo_args (SeriesId 1)))) (ReservationId 1) demo_tables"
    "castable demo_duck (demo_args (SeriesId 1))"
    by code_simp+
  then have "is_ok (fst (duck_allocate_and_insert demo_duck (ReservationId 1) (demo_args (SeriesId 1)) 10 demo_tables))"
    unfolding acc by blast
  moreover have "duck_find_series_by_id demo_duck (aa_series_id (demo_args (SeriesId 2))) demo_tables = Inr None"
    "duck_issued demo_duck demo_tables (aa_key (demo_args (SeriesId 2))) = None"
    by code_simp+
  then have "\<not> is_ok (fst (duck_allocate_and_insert demo_duck (ReservationId 1) (demo_args (SeriesId 2)) 10 demo_tables))"
    unfolding acc by blast
  ultimately show ?thesis by blast
qed

theorem duckdb_refines_memory_witness:
  "\<exists>out d' m'. duck_step demo_duck (Allocate (ReservationId 1) (demo_args (SeriesId 1)) 10) demo_tables = Inr (Some out, d') \<and>
     mem_step demo_billing (Allocate (ReservationId 1) (stored_args demo_duck (demo_args (SeriesId 1))) 10) demo_store =
       Inr (Some (stored_outcome demo_duck out), m') \<and> duck_rep demo_duck d' m'"
proof -
  let ?op = "Allocate (ReservationId 1) (demo_args (SeriesId 1)) 10"
  have "(case duck_step demo_duck ?op demo_tables of Inr (Some _, _) \<Rightarrow> True | _ \<Rightarrow> False)" by code_simp
  then obtain out d' where step: "duck_step demo_duck ?op demo_tables = Inr (Some out, d')"
    by (auto split: sum.splits prod.splits option.splits)
  have "op_ok demo_duck demo_tables ?op" using demo_args_ok demo_args_fits by simp
  from duckdb_refines_memory [OF demo_duck_ok demo_tables_rep this step] step
  show ?thesis by (auto simp: demo_duck_def)
qed

theorem duck_numbers_gapless_witness:
  "numbers_in (SeriesId 1, 2026) (fst (duck_handle_all demo_duck demo_calls demo_tables)) = [1, 2] \<and>
   alloc_number (duck_counter demo_duck (snd (duck_handle_all demo_duck demo_calls demo_tables)) (SeriesId 1, 2026)) 1 None = 3"
proof -
  obtain rs d' where r: "duck_handle_all demo_duck demo_calls demo_tables = (rs, d')"
    by (cases "duck_handle_all demo_duck demo_calls demo_tables") auto
  have "\<forall>b. alloc_number (duck_counter demo_duck demo_tables b) 1 None + length demo_calls \<le> u64_max"
    by (simp add: demo_tables_counter alloc_number_def demo_calls_def u64_max_def)
  from duck_numbers_gapless [OF demo_tables_sound this r, of "(SeriesId 1, 2026)"] obtain k where
    k: "numbers_in (SeriesId 1, 2026) rs = [1 ..< 1 + k]" "alloc_number (duck_counter demo_duck d' (SeriesId 1, 2026)) 1 None = 1 + k"
    by (auto simp: demo_tables_counter alloc_number_def)
  have rs: "numbers_in (SeriesId 1, 2026) rs = [1, 2]" using demo_numbers r by simp
  then have "length [1 ..< 1 + k] = length [1, 2 :: nat]" using k(1) by metis
  then have "k = 2" unfolding length_upt by simp
  then show ?thesis using k(2) rs by (simp add: r)
qed

theorem duck_retry_replays_witness:
  "\<exists>i r d'. duck_handle demo_duck (InvoiceId 1) (ReservationId 1) 10 (demo_command 1) demo_tables = (Inr (IFresh i r), d') \<and>
     duck_handle demo_duck (InvoiceId 5) (ReservationId 6) 99 (demo_command 1) d' =
       (Inr (IReplay (stored_invoice demo_duck i) r), d')"
proof -
  have "(case fst (duck_handle demo_duck (InvoiceId 1) (ReservationId 1) 10 (demo_command 1) demo_tables) of
      Inr (IFresh _ _) \<Rightarrow> True | _ \<Rightarrow> False)" by code_simp
  then obtain i r d' where h: "duck_handle demo_duck (InvoiceId 1) (ReservationId 1) 10 (demo_command 1) demo_tables = (Inr (IFresh i r), d')"
    by (cases "duck_handle demo_duck (InvoiceId 1) (ReservationId 1) 10 (demo_command 1) demo_tables")
       (auto split: sum.splits issue_invoice_outcome.splits)
  have "\<forall>b. row_fits (alloc_number (duck_counter demo_duck demo_tables b) 1 None)"
    by (simp add: demo_tables_counter alloc_number_def row_fits_def u64_max_def)
  from duck_retry_replays [OF demo_tables_sound this h] h show ?thesis by blast
qed

section \<open>Where the two adapters part\<close>

text \<open>
  A retry is answered from the rows, which have no unit column: the replayed invoice differs from
  the one the first call answered as soon as a line has a unit.
\<close>

lemma replay_loses_units:
  assumes "l \<in> set (ri_lines i)" and "li_unit l \<noteq> None"
  shows "stored_invoice env i \<noteq> i"
proof
  assume "stored_invoice env i = i"
  then have "map (stored_line env) (ri_lines i) = ri_lines i" by (metis ready_invoice.select_convs(4) stored_invoice_def
      ready_invoice.surjective ready_invoice.update_convs(4))
  then have "stored_line env l = l" using assms(1) by (metis map_eq_conv map_ident)
  then show False using assms(2) by (metis line_item.select_convs(7) line_item.surjective line_item.update_convs(7) stored_line_def)
qed

text \<open>
  The in-memory adapter refuses a number whose successor does not fit; the database adapter
  writes the successor with a wrapping cast, so the counter of the bucket starts again at zero.
\<close>

lemma table_counter_wraps:
  assumes "select_one (in_bucket k fy) (dd_state d) = Some r"
  shows "map_option sq_next (select_one (in_bucket k fy) (dd_state (advance_counter k fy u64_max t d))) = Some 0"
proof -
  have "in_bucket k fy (r\<lparr>sq_next := x, sq_updated_at := t\<rparr>) = in_bucket k fy r" for x and r :: state_row
    by (simp add: in_bucket_def)
  moreover have "(of_nat (u64_max + 1) :: u64) = 0" by (simp add: u64_max_def)
  ultimately show ?thesis
    using select_one_update_where [of "in_bucket k fy" "in_bucket k fy" "\<lambda>r. r\<lparr>sq_next := of_nat (u64_max + 1), sq_updated_at := t\<rparr>" "dd_state d"]
      select_one_Some [OF assms] assms by (simp add: advance_counter_def)
qed

end
