(* ===== verification/Op_Monad.thy ===== *)
theory Op_Monad
  imports Prelude
begin

text \<open>
  Operations inside a database transaction: they read and change a state, and may fail, in
  which case the caller rolls the transaction back and no state is left. \<open>valid P m Q\<close> is
  partial correctness of such an operation (it says nothing of failure); the rules for the
  combinators are collected in \<open>op_rules\<close>.
\<close>

named_theorems op_rules \<open>partial correctness rules for transaction operations\<close>
named_theorems op_simps \<open>definitions of the transaction combinators\<close>

type_synonym ('s, 'e, 'a) tx_op = "'s \<Rightarrow> 'e + 'a \<times> 's"

definition op_return :: "'a \<Rightarrow> ('s, 'e, 'a) tx_op" where
  "op_return a = (\<lambda>s. Inr (a, s))"

definition op_bind :: "('s, 'e, 'a) tx_op \<Rightarrow> ('a \<Rightarrow> ('s, 'e, 'b) tx_op) \<Rightarrow> ('s, 'e, 'b) tx_op" where
  "op_bind m f = (\<lambda>s. case m s of Inl e \<Rightarrow> Inl e | Inr (a, s') \<Rightarrow> f a s')"

definition op_then :: "('s, 'e, unit) tx_op \<Rightarrow> ('s, 'e, 'b) tx_op \<Rightarrow> ('s, 'e, 'b) tx_op" where
  "op_then m n = op_bind m (\<lambda>_. n)"

definition op_fail :: "'e \<Rightarrow> ('s, 'e, 'a) tx_op" where
  "op_fail e = (\<lambda>s. Inl e)"

definition op_get :: "('s \<Rightarrow> 'a) \<Rightarrow> ('s, 'e, 'a) tx_op" where
  "op_get g = (\<lambda>s. Inr (g s, s))"

definition op_modify :: "('s \<Rightarrow> 's) \<Rightarrow> ('s, 'e, unit) tx_op" where
  "op_modify f = (\<lambda>s. Inr ((), f s))"

definition op_require :: "bool \<Rightarrow> 'e \<Rightarrow> ('s, 'e, unit) tx_op" where
  "op_require b e = (if b then op_return () else op_fail e)"

definition op_lift :: "'e + 'a \<Rightarrow> ('s, 'e, 'a) tx_op" where
  "op_lift r = (\<lambda>s. case r of Inl e \<Rightarrow> Inl e | Inr a \<Rightarrow> Inr (a, s))"

definition op_map_err :: "('e \<Rightarrow> 'f) \<Rightarrow> ('s, 'e, 'a) tx_op \<Rightarrow> ('s, 'f, 'a) tx_op" where
  "op_map_err g m = (\<lambda>s. map_err g (m s))"

fun op_for :: "('x \<Rightarrow> ('s, 'e, 'a) tx_op) \<Rightarrow> 'x list \<Rightarrow> ('s, 'e, 'a list) tx_op" where
  "op_for f [] = op_return []"
| "op_for f (x # xs) = op_bind (f x) (\<lambda>a. op_bind (op_for f xs) (\<lambda>as. op_return (a # as)))"

lemmas op_defs =
  op_return_def op_fail_def op_get_def op_modify_def op_require_def op_lift_def op_map_err_def

lemma op_bind_Inr [op_simps]:
  "op_bind m f s = Inr r \<longleftrightarrow> (\<exists>a s'. m s = Inr (a, s') \<and> f a s' = Inr r)"
  by (auto simp: op_bind_def split: sum.splits prod.splits)

lemma op_bind_Inl:
  "op_bind m f s = Inl e \<longleftrightarrow> m s = Inl e \<or> (\<exists>a s'. m s = Inr (a, s') \<and> f a s' = Inl e)"
  by (auto simp: op_bind_def split: sum.splits prod.splits)

lemma op_bind_run: "m s = Inr (a, s') \<Longrightarrow> op_bind m f s = f a s'"
  by (simp add: op_bind_def)

lemma op_then_Inr [op_simps]:
  "op_then m n s = Inr r \<longleftrightarrow> (\<exists>s'. m s = Inr ((), s') \<and> n s' = Inr r)"
  by (auto simp: op_then_def op_simps)

lemma op_then_run: "m s = Inr (u, s') \<Longrightarrow> op_then m n s = n s'"
  by (simp add: op_then_def op_bind_def)

lemma op_return_Inr [simp]: "op_return a s = Inr r \<longleftrightarrow> r = (a, s)"
  by (auto simp: op_defs)

lemma op_get_Inr [simp]: "op_get g s = Inr r \<longleftrightarrow> r = (g s, s)"
  by (auto simp: op_defs)

lemma op_modify_Inr [simp]: "op_modify f s = Inr r \<longleftrightarrow> r = ((), f s)"
  by (auto simp: op_defs)

lemma op_fail_Inr [simp]: "op_fail e s \<noteq> Inr r"
  by (simp add: op_defs)

lemma op_require_Inr [simp]: "op_require b e s = Inr r \<longleftrightarrow> b \<and> r = ((), s)"
  by (auto simp: op_defs)

lemma op_lift_Inr [simp]: "op_lift x s = Inr r \<longleftrightarrow> (\<exists>a. x = Inr a \<and> r = (a, s))"
  by (cases x) (auto simp: op_defs)

lemma op_map_err_Inr [simp]: "op_map_err g m s = Inr r \<longleftrightarrow> m s = Inr r"
  by (simp add: op_map_err_def)

section \<open>Partial correctness\<close>

definition valid :: "('s \<Rightarrow> bool) \<Rightarrow> ('s, 'e, 'a) tx_op \<Rightarrow> ('a \<Rightarrow> 's \<Rightarrow> bool) \<Rightarrow> bool" where
  "valid P m Q \<longleftrightarrow> (\<forall>s a s'. P s \<longrightarrow> m s = Inr (a, s') \<longrightarrow> Q a s')"

definition preserves :: "('s \<Rightarrow> bool) \<Rightarrow> ('s, 'e, 'a) tx_op \<Rightarrow> bool" where
  "preserves P m \<longleftrightarrow> valid P m (\<lambda>_. P)"

lemma validI: "(\<And>s a s'. P s \<Longrightarrow> m s = Inr (a, s') \<Longrightarrow> Q a s') \<Longrightarrow> valid P m Q"
  by (simp add: valid_def)

lemma validD: "valid P m Q \<Longrightarrow> P s \<Longrightarrow> m s = Inr (a, s') \<Longrightarrow> Q a s'"
  by (simp add: valid_def)

lemma preservesD: "preserves P m \<Longrightarrow> P s \<Longrightarrow> m s = Inr (a, s') \<Longrightarrow> P s'"
  by (simp add: preserves_def valid_def)

lemma preservesI: "(\<And>s a s'. P s \<Longrightarrow> m s = Inr (a, s') \<Longrightarrow> P s') \<Longrightarrow> preserves P m"
  by (simp add: preserves_def valid_def)

lemma preserves_return [op_rules]: "preserves P (op_return a)"
  by (rule preservesI) simp

lemma preserves_fail [op_rules]: "preserves P (op_fail e)"
  by (rule preservesI) simp

lemma preserves_get [op_rules]: "preserves P (op_get g)"
  by (rule preservesI) simp

lemma preserves_require [op_rules]: "preserves P (op_require b e)"
  by (rule preservesI) simp

lemma preserves_lift [op_rules]: "preserves P (op_lift r)"
  by (rule preservesI) auto

lemma preserves_bind [op_rules]:
  "preserves P m \<Longrightarrow> (\<And>a. preserves P (f a)) \<Longrightarrow> preserves P (op_bind m f)"
  by (rule preservesI) (auto simp: op_simps dest: preservesD)

lemma preserves_then [op_rules]: "preserves P m \<Longrightarrow> preserves P n \<Longrightarrow> preserves P (op_then m n)"
  by (simp add: op_then_def preserves_bind)

lemma preserves_modify: "(\<And>s. P s \<Longrightarrow> P (f s)) \<Longrightarrow> preserves P (op_modify f)"
  by (rule preservesI) simp

lemma preserves_map_err [op_rules]: "preserves P m \<Longrightarrow> preserves P (op_map_err g m)"
  by (simp add: preserves_def valid_def)

lemma preserves_for [op_rules]: "(\<And>x. preserves P (f x)) \<Longrightarrow> preserves P (op_for f xs)"
  by (induction xs) (auto intro!: op_rules)

lemma preserves_if [op_rules]:
  "preserves P m \<Longrightarrow> preserves P n \<Longrightarrow> preserves P (if b then m else n)"
  by simp

lemma preserves_case_option [op_rules]:
  "preserves P m \<Longrightarrow> (\<And>x. preserves P (f x)) \<Longrightarrow>
   preserves P (case r of None \<Rightarrow> m | Some x \<Rightarrow> f x)"
  by (cases r) simp_all

lemma preserves_case_prod [op_rules]:
  "(\<And>x y. preserves P (f x y)) \<Longrightarrow> preserves P (case p of (x, y) \<Rightarrow> f x y)"
  by (cases p) simp

lemma preserves_Let [op_rules]: "(\<And>x. preserves P (f x)) \<Longrightarrow> preserves P (let x = t in f x)"
  by simp

end
