(* ===== verification/Shop_Db.thy ===== *)
theory Shop_Db
  imports Complex_Main Audit_Session Op_Monad Decimal_Text
begin

text \<open>
  The tables that the manufacturing crates share (the migrations of aberp-inventory,
  aberp-work-orders, aberp-qa and aberp-dispatch, and the products table they extend), as
  lists of rows with the state columns as the strings they are stored as. A crate's write
  functions run in one transaction over them: clock readings and ULIDs come from the ticks of
  a \<open>time_source\<close>, audit entries are appended to the ledger table in the same transaction.
  Quantities are rationals; \<open>sh_dec_store\<close> is what storing one in a DECIMAL(18,6)
  column keeps of it, \<open>sh_cost_store\<close> a DECIMAL(18,2) column, \<open>sh_dec_mul\<close> the \<open>Decimal\<close> product (None is its overflow
  panic).
\<close>

section \<open>Rows\<close>

record product_row =
  pr_id :: string
  pr_tenant :: string
  pr_name :: string
  pr_deleted_at :: "string option"
  pr_stock_qty :: "rat option"
  pr_min_stock :: "rat option"
  pr_bin_location :: "string option"
  pr_last_movement_at :: "string option"

record movement_row =
  mv_id :: string
  mv_tenant :: string
  mv_product :: string
  mv_qty :: rat
  mv_reason :: string
  mv_ref_kind :: "string option"
  mv_ref_id :: "string option"
  mv_at :: string
  mv_operator :: string
  mv_idem :: string
  mv_notes :: "string option"

record wo_row =
  wr_id :: string
  wr_tenant :: string
  wr_number :: string
  wr_product :: string
  wr_qty :: rat
  wr_state :: string
  wr_created_at :: string
  wr_released_at :: "string option"
  wr_started_at :: "string option"
  wr_completed_at :: "string option"
  wr_cancelled_at :: "string option"
  wr_hold_reason :: "string option"
  wr_notes :: "string option"
  wr_source_quote :: "string option"
  wr_minutes :: "rat option"

record bom_row =
  bm_id :: string
  bm_tenant :: string
  bm_product :: string
  bm_component :: string
  bm_qty :: rat
  bm_created_at :: string
  bm_retired_at :: "string option"

record routing_row =
  ro_id :: string
  ro_tenant :: string
  ro_wo :: string
  ro_sequence :: int
  ro_name :: string
  ro_est_time :: "int option"
  ro_est_cost :: "rat option"
  ro_state :: string
  ro_started_at :: "string option"
  ro_completed_at :: "string option"

record qa_row =
  qr_id :: string
  qr_tenant :: string
  qr_wo :: string
  qr_op :: string
  qr_state :: string
  qr_decided_at :: "string option"
  qr_decided_by :: "string option"
  qr_reason :: "string option"
  qr_measurement :: "string option"
  qr_source_event :: "string option"
  qr_created_at :: string
  qr_superseded_by :: "string option"

record dispatch_row =
  dr_id :: string
  dr_tenant :: string
  dr_wo :: string
  dr_partner :: string
  dr_state :: string
  dr_created_at :: string
  dr_shipped_at :: "string option"
  dr_cancelled_at :: "string option"
  dr_carrier :: "string option"
  dr_tracking :: "string option"
  dr_invoice :: "string option"
  dr_notes :: "string option"

record shop_db =
  products :: "product_row list"
  movements :: "movement_row list"
  work_orders :: "wo_row list"
  boms :: "bom_row list"
  routings :: "routing_row list"
  inspections :: "qa_row list"
  dispatches :: "dispatch_row list"
  shop_ledger :: "ledger_row list"
  tick :: nat

section \<open>The environment\<close>

datatype json =
    JNull
  | JStr string
  | JDec rat
  | JInt int
  | JArr "json list"
  | JObj "(string \<times> json) list"

definition json_opt :: "string option \<Rightarrow> json" where
  "json_opt x = (case x of None \<Rightarrow> JNull | Some s \<Rightarrow> JStr s)"

record shop_env =
  sh_ledger :: ledger_env
  sh_time :: time_source
  sh_json :: "json \<Rightarrow> byte list" \<comment> \<open>\<open>serde_json::to_vec\<close>\<close>
  sh_dec_mul :: "rat \<Rightarrow> rat \<Rightarrow> rat option"
  sh_dec_store :: "rat \<Rightarrow> rat option"
  sh_cost_store :: "rat \<Rightarrow> rat option" \<comment> \<open>the same for a DECIMAL(18,2) column\<close>
  sh_str_debug :: "string \<Rightarrow> string" \<comment> \<open>\<open>Debug\<close> of a \<open>String\<close>: quoted and escaped\<close>
  sh_dec_show :: "rat \<Rightarrow> string" \<comment> \<open>\<open>Display\<close> of a \<open>Decimal\<close>\<close>

datatype actor_kind = SpaOperator string | Adapter string | System

fun as_operator_string :: "actor_kind \<Rightarrow> string" where
  "as_operator_string (SpaOperator login) = login"
| "as_operator_string (Adapter name) = ''adapter:'' @ name"
| "as_operator_string System = ''system''"

record write_ctx =
  wc_tenant :: string
  wc_actor :: actor_kind
  wc_meta :: ledger_meta
  wc_ledger_actor :: actor

text \<open>A quantity with at most six decimals; the documented behaviour of the column type.\<close>

definition six_dec :: "rat \<Rightarrow> bool" where
  "six_dec x \<longleftrightarrow> (\<exists>m :: int. x = of_int m / 1000000)"

definition shop_ok :: "shop_env \<Rightarrow> bool" where
  "shop_ok env \<longleftrightarrow>
     env_ok (sh_ledger env) \<and>
     (\<forall>x y. sh_dec_store env x = Some y \<longrightarrow> six_dec y \<and> (six_dec x \<longrightarrow> y = x)) \<and>
     (\<forall>x y z. sh_dec_mul env x y = Some z \<and> six_dec x \<and> six_dec y \<and> \<bar>x * y\<bar> < 2 ^ 40 \<longrightarrow> z = x * y)"

lemma shop_ok_store:
  assumes "shop_ok env" and "sh_dec_store env x = Some y"
  shows "six_dec y" and "six_dec x \<Longrightarrow> y = x"
  using assms by (auto simp: shop_ok_def)

lemma six_dec_0 [simp]: "six_dec 0"
  unfolding six_dec_def by (rule exI [of _ 0]) simp

lemma six_dec_add: "six_dec x \<Longrightarrow> six_dec y \<Longrightarrow> six_dec (x + y)"
proof -
  assume "six_dec x" "six_dec y"
  then obtain m n :: int where "x = of_int m / 1000000" "y = of_int n / 1000000"
    by (auto simp: six_dec_def)
  then have "x + y = of_int (m + n) / 1000000" by (simp add: add_divide_distrib)
  then show ?thesis unfolding six_dec_def by blast
qed

lemma six_dec_minus: "six_dec x \<Longrightarrow> six_dec (- x)"
proof -
  assume "six_dec x"
  then obtain m :: int where "x = of_int m / 1000000" by (auto simp: six_dec_def)
  then have "- x = of_int (- m) / 1000000" by simp
  then show ?thesis unfolding six_dec_def by blast
qed

lemma six_dec_sum_list: "(\<And>x. x \<in> set xs \<Longrightarrow> six_dec x) \<Longrightarrow> six_dec (sum_list xs)"
  by (induction xs) (auto intro: six_dec_add)

section \<open>Clock, identifiers and the audit append\<close>

definition shop_ulid :: "shop_env \<Rightarrow> string \<Rightarrow> (shop_db, 'e, string) tx_op" where
  "shop_ulid env pre = (\<lambda>s.
     Inr (pre @ ulid_to_string (sh_ledger env) (sup_ulid (sh_time env) (tick s)),
          s\<lparr>tick := Suc (tick s)\<rparr>))"

definition shop_now :: "shop_env \<Rightarrow> (shop_db, 'e, string) tx_op" where
  "shop_now env = (\<lambda>s.
     Inr (rfc3339_format (sh_ledger env) (sup_now (sh_time env) (tick s)), s\<lparr>tick := Suc (tick s)\<rparr>))"

definition shop_append ::
  "shop_env \<Rightarrow> write_ctx \<Rightarrow> 'e \<Rightarrow> event_kind \<Rightarrow> json \<Rightarrow> string \<Rightarrow> (shop_db, 'e, unit) tx_op" where
  "shop_append env ctx err k pl idem = (\<lambda>s.
     case append_in_tx (sh_ledger env) (wc_meta ctx) (stamp_at (sh_time env) (tick s)) k
            (sh_json env pl) (wc_ledger_actor ctx) (Some idem) (shop_ledger s) of
       Inl _ \<Rightarrow> Inl err
     | Inr (_, rows) \<Rightarrow> Inr ((), s\<lparr>shop_ledger := rows, tick := Suc (tick s)\<rparr>))"

lemma shop_ulid_Inr [simp]:
  "shop_ulid env pre s = Inr r \<longleftrightarrow>
   r = (pre @ ulid_to_string (sh_ledger env) (sup_ulid (sh_time env) (tick s)), s\<lparr>tick := Suc (tick s)\<rparr>)"
  by (auto simp: shop_ulid_def)

lemma shop_now_Inr [simp]:
  "shop_now env s = Inr r \<longleftrightarrow>
   r = (rfc3339_format (sh_ledger env) (sup_now (sh_time env) (tick s)), s\<lparr>tick := Suc (tick s)\<rparr>)"
  by (auto simp: shop_now_def)

lemma shop_append_frame:
  assumes "shop_append env ctx err k pl idem s = Inr (u, s')"
  shows "\<exists>row. s' = s\<lparr>shop_ledger := shop_ledger s @ [row], tick := Suc (tick s)\<rparr>"
  using assms
  by (auto simp: shop_append_def append_in_tx_def append_in_tx_signed_def insert_entry_verbatim_def
      Let_def res_simps split: sum.splits)

text \<open>
  The ledger of the shop stays in its invariant as long as it has room; \<open>shop_log_ok\<close> says
  so without a bound to carry along.
\<close>

definition shop_log_ok :: "shop_env \<Rightarrow> write_ctx \<Rightarrow> shop_db \<Rightarrow> bool" where
  "shop_log_ok env ctx s \<longleftrightarrow>
     (length (shop_ledger s) < 2 ^ 63 \<longrightarrow> ledger_inv (sh_ledger env) (wc_meta ctx) (shop_ledger s))"

lemma shop_append_log:
  assumes "shop_log_ok env ctx s" and "shop_append env ctx err k pl idem s = Inr (u, s')"
  shows "shop_log_ok env ctx s'"
proof -
  obtain row where s': "s' = s\<lparr>shop_ledger := shop_ledger s @ [row], tick := Suc (tick s)\<rparr>"
    using shop_append_frame [OF assms(2)] by blast
  show ?thesis
    unfolding shop_log_ok_def
  proof
    assume room: "length (shop_ledger s') < 2 ^ 63"
    then have inv: "ledger_inv (sh_ledger env) (wc_meta ctx) (shop_ledger s)"
      using assms(1) by (simp add: shop_log_ok_def s')
    define rq where "rq = \<lparr>rq_stamp = stamp_at (sh_time env) (tick s), rq_kind = k, rq_subject = [],
      rq_payload = sh_json env pl, rq_actor = wc_ledger_actor ctx, rq_idem = Some idem,
      rq_session = None\<rparr>"
    have "length (ledger_entries (sh_ledger env) (shop_ledger s)) + 1 < 2 ^ 63"
      using room ledger_inv_length [OF inv] by (simp add: s')
    moreover obtain i rows where "ledger_append (sh_ledger env) (wc_meta ctx) rq (shop_ledger s) = Inr (i, rows)"
      "s' = s\<lparr>shop_ledger := rows, tick := Suc (tick s)\<rparr>"
      using assms(2)
      by (auto simp: shop_append_def append_in_tx_def ledger_append_def rq_def split: sum.splits)
    ultimately show "ledger_inv (sh_ledger env) (wc_meta ctx) (shop_ledger s')"
      using sink.append_inv [OF inv] by simp
  qed
qed

lemma preserves_append_log [op_rules]: "preserves (shop_log_ok env ctx) (shop_append env ctx err k pl idem)"
  by (rule preservesI) (rule shop_append_log)

lemma preserves_ulid_log [op_rules]: "preserves (shop_log_ok env ctx) (shop_ulid env' pre)"
  by (rule preservesI) (simp add: shop_log_ok_def)

lemma preserves_now_log [op_rules]: "preserves (shop_log_ok env ctx) (shop_now env')"
  by (rule preservesI) (simp add: shop_log_ok_def)

lemma preserves_modify_log [op_rules]:
  "(\<And>s. shop_ledger (f s) = shop_ledger s) \<Longrightarrow> preserves (shop_log_ok env ctx) (op_modify f)"
  by (rule preserves_modify) (simp add: shop_log_ok_def)

end
