(* ===== verification/Inventory.thy ===== *)
theory Inventory
  imports Shop_Db "HOL-Library.Product_Lexorder"
begin

text \<open>
  Stock movements (crates/aberp-inventory): the movement vocabulary, \<open>record_movement\<close>
  with its sign and idempotency guards, the stock cache on the products table, the reads over
  it, and the cache rebuild. The locale \<open>stock_ledger\<close> is the interface that work orders,
  quality and dispatch use: recording a movement changes one product's stock by its quantity.
\<close>

section \<open>Vocabulary\<close>

datatype movement_reason = Receipt | BomConsumption | WoCompletion | Adjustment | DispatchOut | Scrap

datatype required_sign = Positive | Negative | AnySign

fun movement_reason_as_str :: "movement_reason \<Rightarrow> string" where
  "movement_reason_as_str Receipt = ''receipt''"
| "movement_reason_as_str BomConsumption = ''bom_consumption''"
| "movement_reason_as_str WoCompletion = ''wo_completion''"
| "movement_reason_as_str Adjustment = ''adjustment''"
| "movement_reason_as_str DispatchOut = ''dispatch''"
| "movement_reason_as_str Scrap = ''scrap''"

definition movement_reason_from_str :: "string \<Rightarrow> string + movement_reason" where
  "movement_reason_from_str s =
    (if s = ''receipt'' then Inr Receipt
     else if s = ''bom_consumption'' then Inr BomConsumption
     else if s = ''wo_completion'' then Inr WoCompletion
     else if s = ''adjustment'' then Inr Adjustment
     else if s = ''dispatch'' then Inr DispatchOut
     else if s = ''scrap'' then Inr Scrap
     else Inl ''unknown MovementReason storage string'')"

interpretation reason_codec: storage_codec movement_reason_as_str movement_reason_from_str
proof
  show "movement_reason_from_str (movement_reason_as_str x) = Inr x" for x
    by (cases x) (simp_all add: movement_reason_from_str_def)
  show "movement_reason_as_str x = s" if "movement_reason_from_str s = Inr x" for s x
    using that by (auto simp: movement_reason_from_str_def split: if_splits)
qed

fun movement_required_sign :: "movement_reason \<Rightarrow> required_sign" where
  "movement_required_sign Receipt = Positive"
| "movement_required_sign WoCompletion = Positive"
| "movement_required_sign BomConsumption = Negative"
| "movement_required_sign DispatchOut = Negative"
| "movement_required_sign Scrap = Negative"
| "movement_required_sign Adjustment = AnySign"

fun required_sign_debug :: "required_sign \<Rightarrow> string" where
  \<comment> \<open>the derived \<open>Debug\<close>, which error messages of the callers quote\<close>
  "required_sign_debug Positive = ''Positive''"
| "required_sign_debug Negative = ''Negative''"
| "required_sign_debug AnySign = ''Any''"

datatype movement_ref_kind = RefWorkOrder | RefQaInspection | RefDispatch | RefInvoice | RefManual

fun ref_kind_as_str :: "movement_ref_kind \<Rightarrow> string" where
  "ref_kind_as_str RefWorkOrder = ''work_order''"
| "ref_kind_as_str RefQaInspection = ''qa_inspection''"
| "ref_kind_as_str RefDispatch = ''dispatch''"
| "ref_kind_as_str RefInvoice = ''invoice''"
| "ref_kind_as_str RefManual = ''manual''"

definition ref_kind_from_str :: "string \<Rightarrow> string + movement_ref_kind" where
  "ref_kind_from_str s =
    (if s = ''work_order'' then Inr RefWorkOrder
     else if s = ''qa_inspection'' then Inr RefQaInspection
     else if s = ''dispatch'' then Inr RefDispatch
     else if s = ''invoice'' then Inr RefInvoice
     else if s = ''manual'' then Inr RefManual
     else Inl ''unknown MovementRefKind storage string'')"

interpretation ref_codec: storage_codec ref_kind_as_str ref_kind_from_str
proof
  show "ref_kind_from_str (ref_kind_as_str x) = Inr x" for x
    by (cases x) (simp_all add: ref_kind_from_str_def)
  show "ref_kind_as_str x = s" if "ref_kind_from_str s = Inr x" for s x
    using that by (auto simp: ref_kind_from_str_def split: if_splits)
qed

datatype inventory_error =
    WrongSignForReason string required_sign rat
  | IDuplicateIdempotencyKey string
  | IProductNotFound string
  | IStorage string

definition validate_reason_sign :: "movement_reason \<Rightarrow> rat \<Rightarrow> inventory_error + unit" where
  "validate_reason_sign reason qty =
     (let err = WrongSignForReason (movement_reason_as_str reason) (movement_required_sign reason) qty
      in if qty = 0 then Inl err
         else if (case movement_required_sign reason of
                    Positive \<Rightarrow> 0 < qty | Negative \<Rightarrow> qty < 0 | AnySign \<Rightarrow> True)
         then Inr () else Inl err)"

section \<open>Recording a movement\<close>

record stock_movement =
  sm_id :: string
  sm_product :: string
  sm_qty :: rat
  sm_reason :: movement_reason
  sm_ref_kind :: "movement_ref_kind option"
  sm_ref_id :: "string option"
  sm_at :: string
  sm_operator :: string
  sm_idem :: string
  sm_notes :: "string option"

record movement_inputs =
  mi_product :: string
  mi_qty :: rat
  mi_reason :: movement_reason
  mi_ref_kind :: movement_ref_kind
  mi_ref_id :: "string option"
  mi_notes :: "string option"
  mi_idem :: string

fun max_at :: "string list \<Rightarrow> string option" where
  "max_at [] = None"
| "max_at (t # ts) = (case max_at ts of None \<Rightarrow> Some t | Some u \<Rightarrow> Some (max t u))"

definition movements_of :: "string \<Rightarrow> string \<Rightarrow> shop_db \<Rightarrow> movement_row list" where
  "movements_of t p s = filter (\<lambda>m. mv_tenant m = t \<and> mv_product m = p) (movements s)"

definition movement_sum :: "string \<Rightarrow> string \<Rightarrow> shop_db \<Rightarrow> rat" where
  \<comment> \<open>\<open>COALESCE(SUM(qty_delta), 0)\<close>\<close>
  "movement_sum t p s = sum_list (map mv_qty (movements_of t p s))"

definition product_live :: "string \<Rightarrow> string \<Rightarrow> product_row \<Rightarrow> bool" where
  "product_live t p r \<longleftrightarrow> pr_tenant r = t \<and> pr_id r = p \<and> pr_deleted_at r = None"

definition insert_movement ::
  "shop_env \<Rightarrow> movement_row \<Rightarrow> (shop_db, inventory_error, unit) tx_op" where
  \<comment> \<open>the INSERT fails on a duplicate primary key or a quantity outside DECIMAL(18,6)\<close>
  "insert_movement env row =
     op_bind (op_get movements) (\<lambda>mvs.
       op_then (op_require (\<not> exists_row (\<lambda>m. mv_id m = mv_id row) mvs) (IStorage ''INSERT into stock_movements''))
       (op_bind (op_lift (ok_or (IStorage ''INSERT into stock_movements'') (sh_dec_store env (mv_qty row)))) (\<lambda>q.
          op_modify (\<lambda>s. s\<lparr>movements := movements s @ [row\<lparr>mv_qty := q\<rparr>]\<rparr>))))"

definition refresh_stock_cache ::
  "shop_env \<Rightarrow> string \<Rightarrow> string \<Rightarrow> (shop_db, inventory_error, unit) tx_op" where
  "refresh_stock_cache env t p =
     op_bind (op_get (movement_sum t p)) (\<lambda>new_sum.
     op_bind (op_get (\<lambda>s. case max_at (map mv_at (movements_of t p s)) of None \<Rightarrow> [] | Some a \<Rightarrow> a)) (\<lambda>at_max.
     op_bind (op_lift (ok_or (IStorage ''UPDATE products cache'') (sh_dec_store env new_sum))) (\<lambda>q.
       op_modify (\<lambda>s. s\<lparr>products :=
         update_where (\<lambda>r. pr_tenant r = t \<and> pr_id r = p)
           (\<lambda>r. r\<lparr>pr_stock_qty := Some q, pr_last_movement_at := Some at_max\<rparr>) (products s)\<rparr>))))"

definition stock_movement_payload :: "stock_movement \<Rightarrow> json" where
  "stock_movement_payload m =
     JObj [(''movement_id'', JStr (sm_id m)), (''product_id'', JStr (sm_product m)),
           (''qty_delta'', JDec (sm_qty m)), (''reason'', JStr (movement_reason_as_str (sm_reason m))),
           (''ref_kind'', json_opt (map_option ref_kind_as_str (sm_ref_kind m))),
           (''ref_id'', json_opt (sm_ref_id m)), (''operator'', JStr (sm_operator m)),
           (''idempotency_key'', JStr (sm_idem m))]"

definition record_movement ::
  "shop_env \<Rightarrow> write_ctx \<Rightarrow> movement_inputs \<Rightarrow> (shop_db, inventory_error, stock_movement) tx_op" where
  "record_movement env ctx inp =
     op_bind (op_lift (validate_reason_sign (mi_reason inp) (mi_qty inp))) (\<lambda>_.
     op_bind (op_get movements) (\<lambda>mvs.
     op_bind (op_lift (case select_one (\<lambda>m. mv_tenant m = wc_tenant ctx \<and> mv_idem m = mi_idem inp) mvs of
                Some prior \<Rightarrow> Inl (IDuplicateIdempotencyKey (mv_id prior)) | None \<Rightarrow> Inr ())) (\<lambda>_.
     op_bind (op_get products) (\<lambda>ps.
     op_then (op_require (exists_row (product_live (wc_tenant ctx) (mi_product inp)) ps)
                (IProductNotFound (mi_product inp)))
     (op_bind (shop_ulid env ''mvt_'') (\<lambda>mid.
      op_bind (shop_now env) (\<lambda>now.
        let operator = as_operator_string (wc_actor ctx);
            m = \<lparr>sm_id = mid, sm_product = mi_product inp, sm_qty = mi_qty inp,
                 sm_reason = mi_reason inp, sm_ref_kind = Some (mi_ref_kind inp),
                 sm_ref_id = mi_ref_id inp, sm_at = now, sm_operator = operator,
                 sm_idem = mi_idem inp, sm_notes = mi_notes inp\<rparr>
        in op_then (insert_movement env
             \<lparr>mv_id = mid, mv_tenant = wc_tenant ctx, mv_product = mi_product inp,
              mv_qty = mi_qty inp, mv_reason = movement_reason_as_str (mi_reason inp),
              mv_ref_kind = Some (ref_kind_as_str (mi_ref_kind inp)), mv_ref_id = mi_ref_id inp,
              mv_at = now, mv_operator = operator, mv_idem = mi_idem inp, mv_notes = mi_notes inp\<rparr>)
           (op_then (refresh_stock_cache env (wc_tenant ctx) (mi_product inp))
           (op_then (shop_append env ctx (IStorage ''audit append_in_tx'') (ShopEvent StockMovementRecorded)
              (stock_movement_payload m) (mi_idem inp))
           (op_return m))))))))))"

section \<open>Reads\<close>

definition current_stock :: "string \<Rightarrow> string \<Rightarrow> shop_db \<Rightarrow> string + rat option" where
  "current_stock t p s =
     (case select_one (product_live t p) (products s) of
        None \<Rightarrow> Inr None
      | Some r \<Rightarrow> (case pr_stock_qty r of None \<Rightarrow> Inl ''SELECT products.stock_qty'' | Some q \<Rightarrow> Inr (Some q)))"

definition row_to_stock_movement :: "movement_row \<Rightarrow> string + stock_movement" where
  "row_to_stock_movement m =
     and_then (movement_reason_from_str (mv_reason m)) (\<lambda>reason.
     and_then (case mv_ref_kind m of
                 None \<Rightarrow> Inr None
               | Some k \<Rightarrow> and_then (ref_kind_from_str k) (\<lambda>k. Inr (Some k))) (\<lambda>rk.
       Inr \<lparr>sm_id = mv_id m, sm_product = mv_product m, sm_qty = mv_qty m, sm_reason = reason,
            sm_ref_kind = rk, sm_ref_id = mv_ref_id m, sm_at = mv_at m, sm_operator = mv_operator m,
            sm_idem = mv_idem m, sm_notes = mv_notes m\<rparr>))"

definition list_movements_for_product ::
  "string \<Rightarrow> string \<Rightarrow> nat \<Rightarrow> nat \<Rightarrow> shop_db \<Rightarrow> string + stock_movement list" where
  "list_movements_for_product t p limit offset s =
     collect_res (map row_to_stock_movement
       (take limit (drop offset (rev (sort_key (\<lambda>m. (mv_at m, mv_id m)) (movements_of t p s))))))"

record inventory_fields =
  if_stock_qty :: rat
  if_min_stock :: rat
  if_bin_location :: "string option"
  if_last_movement_at :: "string option"
  if_is_low_stock :: bool

definition coalesce0 :: "rat option \<Rightarrow> rat" where
  "coalesce0 x = (case x of None \<Rightarrow> 0 | Some q \<Rightarrow> q)"

definition fields_of_product :: "product_row \<Rightarrow> inventory_fields" where
  "fields_of_product r =
     \<lparr>if_stock_qty = coalesce0 (pr_stock_qty r), if_min_stock = coalesce0 (pr_min_stock r),
      if_bin_location = pr_bin_location r, if_last_movement_at = pr_last_movement_at r,
      if_is_low_stock = coalesce0 (pr_stock_qty r) < coalesce0 (pr_min_stock r)\<rparr>"

definition inventory_fields_for_tenant :: "string \<Rightarrow> shop_db \<Rightarrow> (string \<rightharpoonup> inventory_fields)" where
  "inventory_fields_for_tenant t s =
     fold (\<lambda>r m. m(pr_id r \<mapsto> fields_of_product r))
       (filter (\<lambda>r. pr_tenant r = t \<and> pr_deleted_at r = None) (products s)) Map.empty"

definition inventory_fields_for_product :: "string \<Rightarrow> string \<Rightarrow> shop_db \<Rightarrow> inventory_fields option" where
  "inventory_fields_for_product t p s =
     map_option fields_of_product (select_one (product_live t p) (products s))"

definition product_low :: "string \<Rightarrow> product_row \<Rightarrow> bool" where
  "product_low t r \<longleftrightarrow> pr_tenant r = t \<and> pr_deleted_at r = None \<and>
     coalesce0 (pr_stock_qty r) < coalesce0 (pr_min_stock r)"

record low_stock_row =
  ls_product :: string
  ls_name :: string
  ls_stock :: rat
  ls_min :: rat
  ls_bin :: "string option"

definition low_stock_products :: "string \<Rightarrow> shop_db \<Rightarrow> low_stock_row list" where
  "low_stock_products t s =
     map (\<lambda>r. \<lparr>ls_product = pr_id r, ls_name = pr_name r, ls_stock = coalesce0 (pr_stock_qty r),
               ls_min = coalesce0 (pr_min_stock r), ls_bin = pr_bin_location r\<rparr>)
       (sort_key (\<lambda>r. (coalesce0 (pr_stock_qty r) - coalesce0 (pr_min_stock r), pr_name r))
         (filter (product_low t) (products s)))"

definition count_low_stock_products :: "string \<Rightarrow> shop_db \<Rightarrow> nat" where
  "count_low_stock_products t s = min (count_where (product_low t) (products s)) u32_max"

section \<open>Rebuilding the cache\<close>

definition rebuild_product ::
  "shop_env \<Rightarrow> string \<Rightarrow> string \<Rightarrow> (shop_db, string, unit) tx_op" where
  "rebuild_product env t p =
     op_bind (op_get (movement_sum t p)) (\<lambda>q.
     op_bind (op_get (\<lambda>s. max_at (map mv_at (movements_of t p s)))) (\<lambda>at_max.
     op_bind (op_lift (ok_or ''UPDATE rebuild'' (sh_dec_store env q))) (\<lambda>q'.
       op_modify (\<lambda>s. s\<lparr>products :=
         update_where (\<lambda>r. pr_tenant r = t \<and> pr_id r = p)
           (\<lambda>r. r\<lparr>pr_stock_qty := Some q', pr_last_movement_at := at_max\<rparr>) (products s)\<rparr>))))"

definition rebuild_stock_cache_for_tenant ::
  "shop_env \<Rightarrow> string \<Rightarrow> (shop_db, string, nat) tx_op" where
  "rebuild_stock_cache_for_tenant env t =
     op_bind (op_get (\<lambda>s. map pr_id (filter (\<lambda>r. pr_tenant r = t) (products s)))) (\<lambda>ids.
     op_bind (op_for (rebuild_product env t) ids) (\<lambda>us. op_return (length us)))"

section \<open>The effect of a recorded movement\<close>

definition record_effect ::
  "shop_env \<Rightarrow> write_ctx \<Rightarrow> movement_inputs \<Rightarrow> shop_db \<Rightarrow> movement_row \<Rightarrow> rat \<Rightarrow> string \<Rightarrow> ledger_row \<Rightarrow>
   nat \<Rightarrow> shop_db" where
  "record_effect env ctx inp s row q at_max lrow t =
     s\<lparr>movements := movements s @ [row],
       products := update_where (\<lambda>r. pr_tenant r = wc_tenant ctx \<and> pr_id r = mi_product inp)
         (\<lambda>r. r\<lparr>pr_stock_qty := Some q, pr_last_movement_at := Some at_max\<rparr>) (products s),
       shop_ledger := shop_ledger s @ [lrow], tick := t\<rparr>"

lemma record_movement_Inr:
  assumes "record_movement env ctx inp s = Inr (m, s')"
  obtains row q at_max lrow t where
    "s' = record_effect env ctx inp s row q at_max lrow t"
    "validate_reason_sign (mi_reason inp) (mi_qty inp) = Inr ()"
    "\<not> exists_row (\<lambda>m. mv_tenant m = wc_tenant ctx \<and> mv_idem m = mi_idem inp) (movements s)"
    "exists_row (product_live (wc_tenant ctx) (mi_product inp)) (products s)"
    "\<not> exists_row (\<lambda>m. mv_id m = mv_id row) (movements s)"
    "mv_tenant row = wc_tenant ctx" "mv_product row = mi_product inp" "mv_idem row = mi_idem inp"
    "mv_reason row = movement_reason_as_str (mi_reason inp)"
    "sh_dec_store env (mi_qty inp) = Some (mv_qty row)"
    "sh_dec_store env (movement_sum (wc_tenant ctx) (mi_product inp) s + mv_qty row) = Some q"
    "mv_ref_kind row = Some (ref_kind_as_str (mi_ref_kind inp))" "mv_ref_id row = mi_ref_id inp"
    "sm_product m = mi_product inp" "sm_qty m = mi_qty inp" "sm_id m = mv_id row"
proof -
  let ?t = "wc_tenant ctx" and ?p = "mi_product inp"
  define mid where "mid = ''mvt_'' @ ulid_to_string (sh_ledger env) (sup_ulid (sh_time env) (tick s))"
  define now where "now = rfc3339_format (sh_ledger env) (sup_now (sh_time env) (Suc (tick s)))"
  define row0 where "row0 =
    \<lparr>mv_id = mid, mv_tenant = ?t, mv_product = ?p, mv_qty = mi_qty inp,
     mv_reason = movement_reason_as_str (mi_reason inp),
     mv_ref_kind = Some (ref_kind_as_str (mi_ref_kind inp)), mv_ref_id = mi_ref_id inp,
     mv_at = now, mv_operator = as_operator_string (wc_actor ctx), mv_idem = mi_idem inp,
     mv_notes = mi_notes inp\<rparr>"
  from assms obtain s1 s2 where
    pre: "validate_reason_sign (mi_reason inp) (mi_qty inp) = Inr ()"
      "select_one (\<lambda>m. mv_tenant m = ?t \<and> mv_idem m = mi_idem inp) (movements s) = None"
      "exists_row (product_live ?t ?p) (products s)"
    and ins: "insert_movement env row0 (s\<lparr>tick := Suc (Suc (tick s))\<rparr>) = Inr ((), s1)"
    and ref: "refresh_stock_cache env ?t ?p s1 = Inr ((), s2)"
    and app: "shop_append env ctx (IStorage ''audit append_in_tx'') (ShopEvent StockMovementRecorded)
      (stock_movement_payload m) (mi_idem inp) s2 = Inr ((), s')"
    and m: "sm_product m = ?p" "sm_qty m = mi_qty inp" "sm_id m = mid"
    by (auto simp: record_movement_def op_simps Let_def row0_def mid_def now_def split: option.splits)
  from ins obtain q0 where q0: "sh_dec_store env (mi_qty inp) = Some q0"
    "\<not> exists_row (\<lambda>m. mv_id m = mid) (movements s)"
    "s1 = s\<lparr>tick := Suc (Suc (tick s)), movements := movements s @ [row0\<lparr>mv_qty := q0\<rparr>]\<rparr>"
    by (auto simp: insert_movement_def op_simps row0_def)
  have sum1: "movement_sum ?t ?p s1 = movement_sum ?t ?p s + q0"
    by (simp add: movement_sum_def movements_of_def q0(3) row0_def)
  from ref obtain q at_max where q: "sh_dec_store env (movement_sum ?t ?p s1) = Some q"
    "s2 = s1\<lparr>products := update_where (\<lambda>r. pr_tenant r = ?t \<and> pr_id r = ?p)
       (\<lambda>r. r\<lparr>pr_stock_qty := Some q, pr_last_movement_at := Some at_max\<rparr>) (products s1)\<rparr>"
    by (auto simp: refresh_stock_cache_def op_simps)
  obtain lrow where l: "s' = s2\<lparr>shop_ledger := shop_ledger s2 @ [lrow], tick := Suc (tick s2)\<rparr>"
    using shop_append_frame [OF app] by blast
  show ?thesis
  proof (rule that [of "row0\<lparr>mv_qty := q0\<rparr>" q at_max lrow "Suc (Suc (Suc (tick s)))"])
    show "s' = record_effect env ctx inp s (row0\<lparr>mv_qty := q0\<rparr>) q at_max lrow (Suc (Suc (Suc (tick s))))"
      by (simp add: l q(2) q0(3) record_effect_def)
    show "\<not> exists_row (\<lambda>m. mv_tenant m = wc_tenant ctx \<and> mv_idem m = mi_idem inp) (movements s)"
      using pre(2) by (simp add: select_one_None)
    show "sh_dec_store env (movement_sum ?t ?p s + mv_qty (row0\<lparr>mv_qty := q0\<rparr>)) = Some q"
      using q(1) sum1 by simp
  qed (use pre q0 m in \<open>simp_all add: row0_def\<close>)
qed

text \<open>The guards are all there is to fail, apart from the columns and the audit append.\<close>

lemma record_movement_total:
  assumes "validate_reason_sign (mi_reason inp) (mi_qty inp) = Inr ()"
    and "\<not> exists_row (\<lambda>m. mv_tenant m = wc_tenant ctx \<and> mv_idem m = mi_idem inp) (movements s)"
    and "exists_row (product_live (wc_tenant ctx) (mi_product inp)) (products s)"
    and "\<not> exists_row (\<lambda>m. mv_id m =
           ''mvt_'' @ ulid_to_string (sh_ledger env) (sup_ulid (sh_time env) (tick s))) (movements s)"
    and "sh_dec_store env (mi_qty inp) = Some q0"
    and "sh_dec_store env (movement_sum (wc_tenant ctx) (mi_product inp) s + q0) = Some q"
    and "\<And>k pl idem s'. shop_ledger s' = shop_ledger s \<Longrightarrow>
      \<exists>s''. shop_append env ctx (IStorage ''audit append_in_tx'') k pl idem s' = Inr ((), s'')"
  shows "\<exists>m s'. record_movement env ctx inp s = Inr (m, s')"
proof -
  have sel: "select_one (\<lambda>m. mv_tenant m = wc_tenant ctx \<and> mv_idem m = mi_idem inp) (movements s) = None"
    using assms(2) by (simp add: select_one_None)
  show ?thesis
    unfolding record_movement_def Let_def insert_movement_def refresh_stock_cache_def
    using assms sel
    by (simp add: op_simps movement_sum_def movements_of_def)
qed

section \<open>The cache invariant\<close>

text \<open>
  Stored quantities have six decimals, and every product of the tenant that has movements shows
  their sum.
\<close>

definition stock_cache_ok :: "string \<Rightarrow> shop_db \<Rightarrow> bool" where
  "stock_cache_ok t s \<longleftrightarrow>
     (\<forall>m \<in> set (movements s). six_dec (mv_qty m)) \<and>
     (\<forall>r \<in> set (products s). pr_tenant r = t \<longrightarrow> pr_stock_qty r = Some (movement_sum t (pr_id r) s))"

lemma movement_sum_six:
  "\<forall>m \<in> set (movements s). six_dec (mv_qty m) \<Longrightarrow> six_dec (movement_sum t p s)"
  unfolding movement_sum_def movements_of_def by (rule six_dec_sum_list) auto

lemma movement_sum_effect:
  assumes "mv_tenant row = wc_tenant ctx" "mv_product row = mi_product inp"
  shows "movement_sum t p (record_effect env ctx inp s row q at_max lrow n) =
    movement_sum t p s + (if t = wc_tenant ctx \<and> p = mi_product inp then mv_qty row else 0)"
  using assms by (auto simp: movement_sum_def movements_of_def record_effect_def)

lemma record_movement_cache:
  assumes "shop_ok env" and "stock_cache_ok t s" and "wc_tenant ctx = t"
    and "record_movement env ctx inp s = Inr (m, s')"
  shows "stock_cache_ok t s'"
  using assms(4)
proof (rule record_movement_Inr)
  fix row q at_max lrow n
  assume s': "s' = record_effect env ctx inp s row q at_max lrow n"
    and row: "mv_tenant row = wc_tenant ctx" "mv_product row = mi_product inp"
    and st: "sh_dec_store env (mi_qty inp) = Some (mv_qty row)"
      "sh_dec_store env (movement_sum (wc_tenant ctx) (mi_product inp) s + mv_qty row) = Some q"
  have six: "\<forall>m \<in> set (movements s). six_dec (mv_qty m)" using assms(2) by (simp add: stock_cache_ok_def)
  have rq: "six_dec (mv_qty row)" using shop_ok_store(1) [OF assms(1) st(1)] .
  have q: "q = movement_sum t (mi_product inp) s + mv_qty row"
    using shop_ok_store(2) [OF assms(1) st(2)] six_dec_add [OF movement_sum_six [OF six] rq] assms(3)
    by simp
  have sum: "movement_sum t p s' = movement_sum t p s + (if p = mi_product inp then mv_qty row else 0)" for p
    unfolding s' using movement_sum_effect [OF row] assms(3) by simp
  have "\<forall>r \<in> set (products s'). pr_tenant r = t \<longrightarrow> pr_stock_qty r = Some (movement_sum t (pr_id r) s')"
    unfolding sum using assms(2,3) q
    by (auto simp: s' record_effect_def set_update_where stock_cache_ok_def)
  moreover have "\<forall>m \<in> set (movements s'). six_dec (mv_qty m)"
    using six rq by (auto simp: s' record_effect_def)
  ultimately show "stock_cache_ok t s'" by (simp add: stock_cache_ok_def)
qed

lemma preserves_record_cache:
  "shop_ok env \<Longrightarrow> wc_tenant ctx = t \<Longrightarrow> preserves (stock_cache_ok t) (record_movement env ctx inp)"
  by (rule preservesI) (rule record_movement_cache)

lemma preserves_record_log: "preserves (shop_log_ok env ctx) (record_movement env ctx inp)"
  unfolding record_movement_def insert_movement_def refresh_stock_cache_def Let_def
  by (intro op_rules) simp_all

section \<open>The interface other components use\<close>

locale stock_ledger =
  fixes record_mv :: "movement_inputs \<Rightarrow> ('s, 'e, 'm) tx_op"
    and stock_of :: "string \<Rightarrow> 's \<Rightarrow> rat"
    and sinv :: "'s \<Rightarrow> bool"
    and exact :: "rat \<Rightarrow> bool"
  assumes record_inv: "sinv s \<Longrightarrow> record_mv i s = Inr (m, s') \<Longrightarrow> sinv s'"
    and record_stock: "sinv s \<Longrightarrow> record_mv i s = Inr (m, s') \<Longrightarrow> exact (mi_qty i) \<Longrightarrow>
      stock_of p s' = stock_of p s + (if p = mi_product i then mi_qty i else 0)"
begin

lemma record_all:
  assumes "sinv s" and "op_for record_mv is s = Inr (ms, s')" and "\<forall>i \<in> set is. exact (mi_qty i)"
  shows "sinv s' \<and> length ms = length is \<and>
    stock_of p s' = stock_of p s + sum_list (map mi_qty (filter (\<lambda>i. mi_product i = p) is))"
  using assms
proof (induction "is" arbitrary: s ms)
  case Nil
  then show ?case by simp
next
  case (Cons i "is")
  obtain m s1 ms1 where r: "record_mv i s = Inr (m, s1)" "op_for record_mv is s1 = Inr (ms1, s')"
    "ms = m # ms1"
    using Cons.prems(2) by (auto simp: op_simps)
  have "sinv s'" "length ms1 = length is"
    "stock_of p s' = stock_of p s1 + sum_list (map mi_qty (filter (\<lambda>i. mi_product i = p) is))"
    using Cons.IH [OF record_inv [OF Cons.prems(1) r(1)] r(2)] Cons.prems(3) by auto
  then show ?case using record_stock [OF Cons.prems(1) r(1), of p] Cons.prems(3) r(3) by auto
qed

end

definition stock_inv :: "shop_env \<Rightarrow> write_ctx \<Rightarrow> shop_db \<Rightarrow> bool" where
  "stock_inv env ctx s \<longleftrightarrow>
     shop_ok env \<and> stock_cache_ok (wc_tenant ctx) s \<and> shop_log_ok env ctx s"

interpretation stock: stock_ledger "record_movement env ctx" "movement_sum (wc_tenant ctx)"
  "stock_inv env ctx" six_dec for env ctx
proof
  fix s i m s'
  assume s: "stock_inv env ctx s" and r: "record_movement env ctx i s = Inr (m, s')"
  show "stock_inv env ctx s'"
    using s record_movement_cache [OF _ _ refl r] preservesD [OF preserves_record_log _ r]
    by (simp add: stock_inv_def)
next
  fix s i m s' p
  assume s: "stock_inv env ctx s" and r: "record_movement env ctx i s = Inr (m, s')"
    and x: "six_dec (mi_qty i)"
  from r show "movement_sum (wc_tenant ctx) p s' =
      movement_sum (wc_tenant ctx) p s + (if p = mi_product i then mi_qty i else 0)"
  proof (rule record_movement_Inr)
    fix row q at_max lrow n
    assume s': "s' = record_effect env ctx i s row q at_max lrow n"
      and row: "mv_tenant row = wc_tenant ctx" "mv_product row = mi_product i"
      and st: "sh_dec_store env (mi_qty i) = Some (mv_qty row)"
    have "mv_qty row = mi_qty i"
      using shop_ok_store(2) [OF _ st x] s by (simp add: stock_inv_def)
    then show ?thesis unfolding s' using movement_sum_effect [OF row] by simp
  qed
qed

end
