(* ===== verification/Quality.thy ===== *)
theory Quality
  imports Inventory
begin

text \<open>
  Quality inspections (crates/aberp-qa: types.rs, state.rs, repository.rs). Completing a routing
  operation opens a pending inspection; a decision moves it through \<open>next_qa_state\<close>, in place
  when the same actor decides again and in a new row that supersedes the old one when another
  actor does. A rework decision reopens the operation, a dispose decision scraps the order's
  quantity. The gate says whether every operation of an order has a live passed inspection.
\<close>

section \<open>Vocabulary\<close>

datatype qa_state = QaPending | QaPassed | QaFailed | QaReworking | QaDisposed

fun qa_state_as_str :: "qa_state \<Rightarrow> string" where
  "qa_state_as_str QaPending = ''pending''"
| "qa_state_as_str QaPassed = ''passed''"
| "qa_state_as_str QaFailed = ''failed''"
| "qa_state_as_str QaReworking = ''reworking''"
| "qa_state_as_str QaDisposed = ''disposed''"

definition qa_state_from_str :: "string \<Rightarrow> string + qa_state" where
  "qa_state_from_str s =
    (if s = ''pending'' then Inr QaPending
     else if s = ''passed'' then Inr QaPassed
     else if s = ''failed'' then Inr QaFailed
     else if s = ''reworking'' then Inr QaReworking
     else if s = ''disposed'' then Inr QaDisposed
     else Inl ''unknown QaState storage string'')"

interpretation qa_state_codec: storage_codec qa_state_as_str qa_state_from_str
proof
  show "qa_state_from_str (qa_state_as_str x) = Inr x" for x
    by (cases x) (simp_all add: qa_state_from_str_def)
  show "qa_state_as_str x = s" if "qa_state_from_str s = Inr x" for s x
    using that by (auto simp: qa_state_from_str_def split: if_splits)
qed

definition qa_is_decided :: "qa_state \<Rightarrow> bool" where
  "qa_is_decided s \<longleftrightarrow> s \<noteq> QaPending"

datatype qa_decision = QaPass | QaFail | QaRework | QaDispose

fun qa_decision_as_str :: "qa_decision \<Rightarrow> string" where
  "qa_decision_as_str QaPass = ''pass''"
| "qa_decision_as_str QaFail = ''fail''"
| "qa_decision_as_str QaRework = ''rework''"
| "qa_decision_as_str QaDispose = ''dispose''"

definition qa_decision_from_str :: "string \<Rightarrow> string + qa_decision" where
  "qa_decision_from_str s =
    (if s = ''pass'' then Inr QaPass
     else if s = ''fail'' then Inr QaFail
     else if s = ''rework'' then Inr QaRework
     else if s = ''dispose'' then Inr QaDispose
     else Inl ''unknown QaDecision storage string'')"

interpretation qa_decision_codec: storage_codec qa_decision_as_str qa_decision_from_str
proof
  show "qa_decision_from_str (qa_decision_as_str x) = Inr x" for x
    by (cases x) (simp_all add: qa_decision_from_str_def)
  show "qa_decision_as_str x = s" if "qa_decision_from_str s = Inr x" for s x
    using that by (auto simp: qa_decision_from_str_def split: if_splits)
qed

fun qa_decision_to_state :: "qa_decision \<Rightarrow> qa_state" where
  "qa_decision_to_state QaPass = QaPassed"
| "qa_decision_to_state QaFail = QaFailed"
| "qa_decision_to_state QaRework = QaReworking"
| "qa_decision_to_state QaDispose = QaDisposed"

fun next_qa_state :: "qa_state \<Rightarrow> qa_decision \<Rightarrow> (qa_state \<times> qa_decision) + qa_state" where
  \<comment> \<open>\<open>Inl\<close> is \<open>IllegalTransition\<close>\<close>
  "next_qa_state QaPending QaPass = Inr QaPassed"
| "next_qa_state QaPending QaFail = Inr QaFailed"
| "next_qa_state QaPassed QaFail = Inr QaFailed"
| "next_qa_state QaFailed QaRework = Inr QaReworking"
| "next_qa_state QaFailed QaDispose = Inr QaDisposed"
| "next_qa_state QaReworking QaPass = Inr QaPassed"
| "next_qa_state QaReworking QaDispose = Inr QaDisposed"
| "next_qa_state from decision = Inl (from, decision)"

interpretation qa_cycle: lifecycle next_qa_state "\<lambda>s. s = QaDisposed"
proof
  show "next_qa_state s a \<noteq> Inr t" if "s = QaDisposed" for s a t
    using that by (cases a) simp_all
  show "\<exists>a t. next_qa_state s a = Inr t" if "s \<noteq> QaDisposed" for s
  proof -
    have "next_qa_state s (case s of QaFailed \<Rightarrow> QaRework | QaReworking \<Rightarrow> QaPass | _ \<Rightarrow> QaFail) =
      Inr (case s of QaFailed \<Rightarrow> QaReworking | QaReworking \<Rightarrow> QaPassed | _ \<Rightarrow> QaFailed)"
      using that by (cases s) simp_all
    then show ?thesis by blast
  qed
qed

fun_cases next_qa_state_cases: "next_qa_state s d = Inr t"

lemma next_qa_state_target: "next_qa_state s d = Inr t \<Longrightarrow> t = qa_decision_to_state d"
  by (elim next_qa_state_cases) simp_all

section \<open>Errors, rows and contexts\<close>

datatype qa_error =
    QIllegalTransition "qa_state \<times> qa_decision"
  | QInspectionNotFound string
  | QAlreadySuperseded string
  | QInspectionAlreadyLive string
  | QStateRaced qa_state qa_state
  | QDuplicateIdempotencyKey string
  | QValidation string
  | QStorage string

record qa_inspection =
  qi_id :: string
  qi_wo :: string
  qi_op :: string
  qi_state :: qa_state
  qi_decided_at :: "string option"
  qi_decided_by :: "string option"
  qi_reason :: "string option"
  qi_measurement :: "string option"
  qi_source_event :: "string option"
  qi_created_at :: string
  qi_superseded_by :: "string option"

definition parse_inspection_row :: "qa_row \<Rightarrow> string + qa_inspection" where
  "parse_inspection_row r =
     and_then (qa_state_from_str (qr_state r)) (\<lambda>st.
       Inr \<lparr>qi_id = qr_id r, qi_wo = qr_wo r, qi_op = qr_op r, qi_state = st,
            qi_decided_at = qr_decided_at r, qi_decided_by = qr_decided_by r,
            qi_reason = qr_reason r, qi_measurement = qr_measurement r,
            qi_source_event = qr_source_event r, qi_created_at = qr_created_at r,
            qi_superseded_by = qr_superseded_by r\<rparr>)"

definition qa_by_id :: "string \<Rightarrow> string \<Rightarrow> shop_db \<Rightarrow> qa_row option" where
  "qa_by_id t qid s = select_one (\<lambda>q. qr_tenant q = t \<and> qr_id q = qid) (inspections s)"

definition wo_by_id :: "string \<Rightarrow> string \<Rightarrow> shop_db \<Rightarrow> wo_row option" where
  "wo_by_id t wid s = select_one (\<lambda>w. wr_tenant w = t \<and> wr_id w = wid) (work_orders s)"

definition insert_qa :: "string \<Rightarrow> qa_row \<Rightarrow> (shop_db, qa_error, unit) tx_op" where
  \<comment> \<open>the INSERT fails on a duplicate primary key\<close>
  "insert_qa err row =
     op_bind (op_get inspections) (\<lambda>qs.
       op_then (op_require (\<not> exists_row (\<lambda>q. qr_id q = qr_id row) qs) (QStorage err))
         (op_modify (\<lambda>s. s\<lparr>inspections := inspections s @ [row]\<rparr>)))"

definition update_qa :: "string \<Rightarrow> string \<Rightarrow> (qa_row \<Rightarrow> qa_row) \<Rightarrow> (shop_db, qa_error, unit) tx_op" where
  "update_qa t qid f =
     op_modify (\<lambda>s. s\<lparr>inspections :=
       update_where (\<lambda>q. qr_tenant q = t \<and> qr_id q = qid) f (inspections s)\<rparr>)"

definition qa_live_for :: "string \<Rightarrow> string \<Rightarrow> string \<Rightarrow> qa_row \<Rightarrow> bool" where
  "qa_live_for t wo rop q \<longleftrightarrow>
     qr_tenant q = t \<and> qr_wo q = wo \<and> qr_op q = rop \<and> qr_superseded_by q = None"

section \<open>Opening an inspection\<close>

definition qa_created_payload :: "string \<Rightarrow> string \<Rightarrow> string \<Rightarrow> string \<Rightarrow> string \<Rightarrow> json" where
  "qa_created_payload qid wo rop act idem =
     JObj [(''qa_id'', JStr qid), (''wo_id'', JStr wo), (''routing_op_id'', JStr rop),
           (''actor'', JStr act), (''idempotency_key'', JStr idem)]"

definition auto_create_inspection ::
  "shop_env \<Rightarrow> write_ctx \<Rightarrow> string \<Rightarrow> string \<Rightarrow> string \<Rightarrow> (shop_db, qa_error, qa_inspection) tx_op" where
  "auto_create_inspection env ctx wo rop idem =
     op_then (op_require (\<not> is_blank idem) (QValidation ''idempotency_key must be non-empty''))
     (op_bind (op_get (\<lambda>s. map qr_id (filter (qa_live_for (wc_tenant ctx) wo rop) (inspections s)))) (\<lambda>prior.
      op_bind (shop_now env) (\<lambda>now.
      op_bind (shop_ulid env ''qa_'') (\<lambda>qid.
      op_then (insert_qa ''INSERT qa_inspections''
        \<lparr>qr_id = qid, qr_tenant = wc_tenant ctx, qr_wo = wo, qr_op = rop,
         qr_state = qa_state_as_str QaPending, qr_decided_at = None, qr_decided_by = None,
         qr_reason = None, qr_measurement = None, qr_source_event = None, qr_created_at = now,
         qr_superseded_by = None\<rparr>)
      (op_bind (op_for (\<lambda>p. update_qa (wc_tenant ctx) p (\<lambda>q. q\<lparr>qr_superseded_by := Some qid\<rparr>)) prior) (\<lambda>_.
       op_then (shop_append env ctx (QStorage ''audit append QaInspectionCreated'')
         (ShopEvent QaInspectionCreated)
         (qa_created_payload qid wo rop (as_operator_string (wc_actor ctx)) idem) idem)
       (op_return \<lparr>qi_id = qid, qi_wo = wo, qi_op = rop, qi_state = QaPending, qi_decided_at = None,
          qi_decided_by = None, qi_reason = None, qi_measurement = None, qi_source_event = None,
          qi_created_at = now, qi_superseded_by = None\<rparr>)))))))"

section \<open>Deciding an inspection\<close>

record decide_inputs =
  dq_decision :: qa_decision
  dq_reason :: "string option"
  dq_measurement :: "string option"
  dq_source_event :: "string option"
  dq_idem :: string

record decide_outcome =
  do_inspection :: qa_inspection
  do_superseded :: "string option"
  do_rework_flipped :: bool
  do_scrap_emitted :: bool

definition coalesce :: "'a option \<Rightarrow> 'a option \<Rightarrow> 'a option" where
  "coalesce a b = (case a of None \<Rightarrow> b | Some _ \<Rightarrow> a)"

definition decided_by_other :: "qa_row \<Rightarrow> string \<Rightarrow> bool" where
  "decided_by_other q act = (case qr_decided_by q of Some prior \<Rightarrow> prior \<noteq> act | None \<Rightarrow> False)"

definition store_decision ::
  "shop_env \<Rightarrow> write_ctx \<Rightarrow> qa_row \<Rightarrow> qa_state \<Rightarrow> string \<Rightarrow> decide_inputs \<Rightarrow>
   (shop_db, qa_error, string \<times> string option) tx_op" where
  "store_decision env ctx q new now inp =
     (let t = wc_tenant ctx; act = as_operator_string (wc_actor ctx)
      in if decided_by_other q act
         then op_bind (shop_ulid env ''qa_'') (\<lambda>nid.
           op_then (insert_qa ''INSERT supersede-row qa_inspections''
             \<lparr>qr_id = nid, qr_tenant = t, qr_wo = qr_wo q, qr_op = qr_op q,
              qr_state = qa_state_as_str new, qr_decided_at = Some now, qr_decided_by = Some act,
              qr_reason = dq_reason inp, qr_measurement = dq_measurement inp,
              qr_source_event = dq_source_event inp, qr_created_at = now, qr_superseded_by = None\<rparr>)
           (op_then (update_qa t (qr_id q) (\<lambda>r. r\<lparr>qr_superseded_by := Some nid\<rparr>))
           (op_return (nid, Some (qr_id q)))))
         else op_then (update_qa t (qr_id q) (\<lambda>r. r\<lparr>qr_state := qa_state_as_str new,
             qr_decided_at := Some now, qr_decided_by := Some act,
             qr_reason := coalesce (dq_reason inp) (qr_reason r),
             qr_measurement := coalesce (dq_measurement inp) (qr_measurement r),
             qr_source_event := coalesce (dq_source_event inp) (qr_source_event r)\<rparr>))
           (op_return (qr_id q, None)))"

definition rework_payload :: "string \<Rightarrow> string \<Rightarrow> string \<Rightarrow> string \<Rightarrow> json" where
  "rework_payload rop wo act idem =
     JObj [(''routing_op_id'', JStr rop), (''wo_id'', JStr wo), (''from_state'', JStr ''completed''),
           (''to_state'', JStr ''active''), (''actor'', JStr act), (''idempotency_key'', JStr idem)]"

definition rework_operation ::
  "shop_env \<Rightarrow> write_ctx \<Rightarrow> qa_row \<Rightarrow> string \<Rightarrow> (shop_db, qa_error, unit) tx_op" where
  "rework_operation env ctx q idem =
     (let t = wc_tenant ctx; rop_idem = ''rework-op:'' @ qr_op q @ '':'' @ idem
      in op_bind (op_get (\<lambda>s. count_where (\<lambda>r. ro_tenant r = t \<and> ro_id r = qr_op q) (routings s))) (\<lambda>updated.
         op_then (op_modify (\<lambda>s. s\<lparr>routings :=
           update_where (\<lambda>r. ro_tenant r = t \<and> ro_id r = qr_op q)
             (\<lambda>r. r\<lparr>ro_state := ''active'', ro_completed_at := None\<rparr>) (routings s)\<rparr>))
         (op_then (op_require (updated \<noteq> 0)
           (QStorage (''Rework UPDATE matched no routings row for routing_op_id='' @ qr_op q)))
         (shop_append env ctx (QStorage ''audit append RoutingOpStateChanged (rework flip)'')
           (ShopEvent RoutingOpStateChanged)
           (rework_payload (qr_op q) (qr_wo q) (as_operator_string (wc_actor ctx)) rop_idem) rop_idem))))"

fun qa_of_inventory_error :: "shop_env \<Rightarrow> inventory_error \<Rightarrow> qa_error" where
  "qa_of_inventory_error env (IDuplicateIdempotencyKey k) = QDuplicateIdempotencyKey k"
| "qa_of_inventory_error env (IProductNotFound p) = QValidation (''Dispose: product '' @ p @ '' not found'')"
| "qa_of_inventory_error env (WrongSignForReason reason required got) =
     QValidation (''Dispose sign-violation: reason '' @ reason @ '' requires '' @ required_sign_debug required @
       '', got '' @ sh_dec_show env got)"
| "qa_of_inventory_error env (IStorage e) = QStorage e"

definition scrap_inputs :: "wo_row \<Rightarrow> string \<Rightarrow> decide_inputs \<Rightarrow> movement_inputs" where
  "scrap_inputs w live inp =
     \<lparr>mi_product = wr_product w, mi_qty = - wr_qty w, mi_reason = Scrap,
      mi_ref_kind = RefQaInspection, mi_ref_id = Some live, mi_notes = dq_reason inp,
      mi_idem = dq_idem inp @ '':scrap''\<rparr>"

definition dispose_stock ::
  "shop_env \<Rightarrow> write_ctx \<Rightarrow> qa_row \<Rightarrow> string \<Rightarrow> decide_inputs \<Rightarrow> (shop_db, qa_error, unit) tx_op" where
  "dispose_stock env ctx q live inp =
     op_bind (op_get (wo_by_id (wc_tenant ctx) (qr_wo q))) (\<lambda>wo.
     op_bind (op_lift (ok_or (QStorage ''SELECT work_orders for Dispose qty'') wo)) (\<lambda>w.
     op_bind (op_map_err (qa_of_inventory_error env) (record_movement env ctx (scrap_inputs w live inp))) (\<lambda>_.
     op_return ())))"

definition qa_decided_payload ::
  "string \<Rightarrow> qa_row \<Rightarrow> qa_state \<Rightarrow> qa_state \<Rightarrow> decide_inputs \<Rightarrow> string \<Rightarrow> string option \<Rightarrow> json" where
  "qa_decided_payload live q cur new inp act old =
     JObj [(''qa_id'', JStr live), (''wo_id'', JStr (qr_wo q)), (''routing_op_id'', JStr (qr_op q)),
           (''from_state'', JStr (qa_state_as_str cur)), (''to_state'', JStr (qa_state_as_str new)),
           (''reason'', json_opt (dq_reason inp)), (''measurement'', json_opt (dq_measurement inp)),
           (''actor'', JStr act), (''source_event_id'', json_opt (dq_source_event inp)),
           (''superseded_qa_id'', json_opt old), (''idempotency_key'', JStr (dq_idem inp))]"

definition decision_effects ::
  "shop_env \<Rightarrow> write_ctx \<Rightarrow> qa_row \<Rightarrow> string \<Rightarrow> decide_inputs \<Rightarrow> (shop_db, qa_error, bool \<times> bool) tx_op" where
  "decision_effects env ctx q live inp =
     (case dq_decision inp of
        QaRework \<Rightarrow> op_then (rework_operation env ctx q (dq_idem inp)) (op_return (True, False))
      | QaDispose \<Rightarrow> op_then (dispose_stock env ctx q live inp) (op_return (False, True))
      | _ \<Rightarrow> op_return (False, False))"

definition wo_cancelled :: "wo_row option \<Rightarrow> bool" where
  "wo_cancelled wo = (case wo of None \<Rightarrow> False | Some w \<Rightarrow> wr_state w = ''cancelled'')"

definition decide_qa ::
  "shop_env \<Rightarrow> write_ctx \<Rightarrow> string \<Rightarrow> decide_inputs \<Rightarrow> (shop_db, qa_error, decide_outcome) tx_op" where
  "decide_qa env ctx qid inp =
     op_then (op_require (\<not> is_blank (dq_idem inp)) (QValidation ''idempotency_key must be non-empty''))
     (op_bind (op_get (qa_by_id (wc_tenant ctx) qid)) (\<lambda>row.
      op_bind (op_lift (ok_or (QInspectionNotFound qid) row)) (\<lambda>q.
      op_then (op_require (qr_superseded_by q = None) (QAlreadySuperseded qid))
      (op_bind (op_lift (map_err QStorage (qa_state_from_str (qr_state q)))) (\<lambda>cur.
       op_bind (op_get (wo_by_id (wc_tenant ctx) (qr_wo q))) (\<lambda>wo.
       op_then (op_require
         (\<not> (wo_cancelled wo \<and> dq_decision inp \<noteq> QaDispose))
         (QValidation (''WO '' @ qr_wo q @
            '' is cancelled; only Dispose is legal against its QA inspections'')))
       (op_bind (op_lift (map_err QIllegalTransition (next_qa_state cur (dq_decision inp)))) (\<lambda>new.
        op_bind (shop_now env) (\<lambda>now.
        op_bind (store_decision env ctx q new now inp) (\<lambda>(live, old).
        op_bind (decision_effects env ctx q live inp) (\<lambda>(rework, scrap).
        op_then (shop_append env ctx (QStorage ''audit append QaInspectionDecided'')
          (ShopEvent QaInspectionDecided)
          (qa_decided_payload live q cur new inp (as_operator_string (wc_actor ctx)) old)
          (''decide:'' @ qa_decision_as_str (dq_decision inp) @ '':'' @ dq_idem inp))
        (op_bind (op_get (qa_by_id (wc_tenant ctx) live)) (\<lambda>lrow.
         op_bind (op_lift (ok_or (QStorage ''decide_qa: live row vanished after write'') lrow)) (\<lambda>l.
         op_bind (op_lift (map_err QStorage (parse_inspection_row l))) (\<lambda>insp.
         op_return \<lparr>do_inspection = insp, do_superseded = old, do_rework_flipped = rework,
           do_scrap_emitted = scrap\<rparr>)))))))))))))))"

section \<open>Reads\<close>

definition in_state :: "qa_state option \<Rightarrow> qa_row \<Rightarrow> bool" where
  "in_state f q = (case f of None \<Rightarrow> True | Some st \<Rightarrow> qr_state q = qa_state_as_str st)"

definition list_qa_inspections ::
  "string \<Rightarrow> qa_state option \<Rightarrow> nat \<Rightarrow> nat \<Rightarrow> shop_db \<Rightarrow> string + qa_inspection list" where
  "list_qa_inspections t f limit offset s =
     collect_res (map parse_inspection_row
       (take limit (drop offset (sort_key (\<lambda>q. (qr_created_at q, qr_id q))
         (filter (\<lambda>q. qr_tenant q = t \<and> in_state f q) (inspections s))))))"

record qa_state_counts =
  qc_pending :: nat
  qc_passed :: nat
  qc_failed :: nat
  qc_reworking :: nat
  qc_disposed :: nat

definition qa_count :: "string \<Rightarrow> shop_db \<Rightarrow> qa_state \<Rightarrow> nat" where
  "qa_count t s st =
     min (count_where (\<lambda>q. qr_tenant q = t \<and> qr_state q = qa_state_as_str st) (inspections s)) u32_max"

definition count_qa_inspections_by_state :: "string \<Rightarrow> shop_db \<Rightarrow> string + qa_state_counts" where
  \<comment> \<open>one row per group; a group with an unknown state is an error\<close>
  "count_qa_inspections_by_state t s =
     and_then (collect_res (map qa_state_from_str
        (remdups (map qr_state (filter (\<lambda>q. qr_tenant q = t) (inspections s)))))) (\<lambda>_.
       Inr \<lparr>qc_pending = qa_count t s QaPending, qc_passed = qa_count t s QaPassed,
            qc_failed = qa_count t s QaFailed, qc_reworking = qa_count t s QaReworking,
            qc_disposed = qa_count t s QaDisposed\<rparr>)"

definition get_qa_inspection :: "string \<Rightarrow> string \<Rightarrow> shop_db \<Rightarrow> string + qa_inspection option" where
  "get_qa_inspection t qid s =
     (case qa_by_id t qid s of
        None \<Rightarrow> Inr None
      | Some r \<Rightarrow> and_then (parse_inspection_row r) (\<lambda>i. Inr (Some i)))"

definition op_sequence_key :: "routing_row option \<Rightarrow> nat \<times> int" where
  \<comment> \<open>ascending, NULL last\<close>
  "op_sequence_key r = (case r of None \<Rightarrow> (1, 0) | Some x \<Rightarrow> (0, ro_sequence x))"

definition list_live_inspections_for_wo :: "string \<Rightarrow> string \<Rightarrow> shop_db \<Rightarrow> string + qa_inspection list" where
  "list_live_inspections_for_wo t wo s =
     (let joined = (\<lambda>q. case filter (\<lambda>r. ro_tenant r = qr_tenant q \<and> ro_id r = qr_op q) (routings s) of
                          [] \<Rightarrow> [(q, None)] | rs \<Rightarrow> map (\<lambda>r. (q, Some r)) rs);
          live = filter (\<lambda>q. qr_tenant q = t \<and> qr_wo q = wo \<and> qr_superseded_by q = None) (inspections s)
      in collect_res (map (parse_inspection_row \<circ> fst)
           (sort_key (\<lambda>(q, r). (op_sequence_key r, qr_created_at q, qr_id q))
             (concat (map joined live)))))"

definition ops_of_wo :: "string \<Rightarrow> string \<Rightarrow> shop_db \<Rightarrow> routing_row list" where
  "ops_of_wo t wo s = filter (\<lambda>r. ro_tenant r = t \<and> ro_wo r = wo) (routings s)"

definition live_passed :: "routing_row \<Rightarrow> qa_row \<Rightarrow> bool" where
  "live_passed r q \<longleftrightarrow> qr_tenant q = ro_tenant r \<and> qr_op q = ro_id r \<and>
     qr_superseded_by q = None \<and> qr_state q = ''passed''"

definition all_live_inspections_passed_for_wo :: "string \<Rightarrow> string \<Rightarrow> shop_db \<Rightarrow> bool" where
  "all_live_inspections_passed_for_wo t wo s =
     (let total = length (ops_of_wo t wo s)
      in if total = 0 then False
         else length (remdups (map ro_id
                (filter (\<lambda>r. exists_row (live_passed r) (inspections s)) (ops_of_wo t wo s)))) = total)"

section \<open>Frames\<close>

text \<open>What the shared operations leave alone.\<close>

lemma record_movement_frame:
  assumes "record_movement env ctx inp s = Inr (m, s')"
  shows "inspections s' = inspections s" "work_orders s' = work_orders s" "routings s' = routings s"
    "boms s' = boms s" "dispatches s' = dispatches s"
    "\<exists>row. movements s' = movements s @ [row]"
    "map pr_id (products s') = map pr_id (products s)"
  using assms
  by (rule record_movement_Inr; auto simp: record_effect_def map_update_where_same)+

lemma shop_append_same:
  assumes "shop_append env ctx err k pl idem s = Inr (u, s')"
  shows "inspections s' = inspections s" "work_orders s' = work_orders s" "routings s' = routings s"
    "boms s' = boms s" "dispatches s' = dispatches s" "movements s' = movements s"
    "products s' = products s"
  using shop_append_frame [OF assms] by auto

lemma movement_sum_same: "movements s' = movements s \<Longrightarrow> movement_sum t p s' = movement_sum t p s"
  by (simp add: movement_sum_def movements_of_def)

lemma stock_cache_same:
  assumes "movements s' = movements s" and "products s' = products s"
  shows "stock_cache_ok t s' = stock_cache_ok t s"
  using assms movement_sum_same [OF assms(1)] by (simp add: stock_cache_ok_def)

lemma stock_inv_same:
  assumes "movements s' = movements s" and "products s' = products s" and "shop_ledger s' = shop_ledger s"
  shows "stock_inv env ctx s' = stock_inv env ctx s"
  using stock_cache_same [OF assms(1,2)] assms(3) by (simp add: stock_inv_def shop_log_ok_def)

lemma preserves_stock_append [op_rules]: "preserves (stock_inv env ctx) (shop_append env ctx err k pl idem)"
proof (rule preservesI)
  fix s u s'
  assume inv: "stock_inv env ctx s" and app: "shop_append env ctx err k pl idem s = Inr (u, s')"
  have "shop_log_ok env ctx s'" using preservesD [OF preserves_append_log _ app] inv by (simp add: stock_inv_def)
  then show "stock_inv env ctx s'"
    using inv stock_cache_same [OF shop_append_same(6,7) [OF app]] by (simp add: stock_inv_def)
qed

lemma preserves_stock_record [op_rules]: "preserves (stock_inv env ctx) (record_movement env ctx inp)"
  by (rule preservesI) (rule stock.record_inv)

lemma stock_inv_tick [simp]: "stock_inv env ctx (s\<lparr>tick := n\<rparr>) = stock_inv env ctx s"
  by (rule stock_inv_same) simp_all

lemma preserves_stock_ulid [op_rules]: "preserves (stock_inv env ctx) (shop_ulid env' pre)"
  by (rule preservesI) simp

lemma preserves_stock_now [op_rules]: "preserves (stock_inv env ctx) (shop_now env')"
  by (rule preservesI) simp

lemma preserves_stock_modify [op_rules]:
  "(\<And>s. shop_ledger (f s) = shop_ledger s) \<Longrightarrow> (\<And>s. movements (f s) = movements s) \<Longrightarrow>
   (\<And>s. products (f s) = products s) \<Longrightarrow> preserves (stock_inv env ctx) (op_modify f)"
  by (rule preserves_modify) (rule stock_inv_same [THEN iffD2]; simp)

lemma preserves_stock_auto_create: "preserves (stock_inv env ctx) (auto_create_inspection env ctx wo rop idem)"
  unfolding auto_create_inspection_def insert_qa_def update_qa_def
  by (intro op_rules) simp_all

lemma preserves_stock_decide: "preserves (stock_inv env ctx) (decide_qa env ctx qid inp)"
  unfolding decide_qa_def store_decision_def decision_effects_def rework_operation_def dispose_stock_def
    insert_qa_def update_qa_def Let_def
  by (cases "dq_decision inp") (simp_all, (intro op_rules; simp)+)

section \<open>One live inspection per operation\<close>

definition one_live :: "qa_row list \<Rightarrow> bool" where
  "one_live qs \<longleftrightarrow> (\<forall>t wo rop. length (filter (qa_live_for t wo rop) qs) \<le> 1)"

definition qa_ids_distinct :: "qa_row list \<Rightarrow> bool" where
  "qa_ids_distinct qs \<longleftrightarrow> distinct (map qr_id qs)"

lemma update_where_twice:
  "(\<And>r. f (f r) = f r) \<Longrightarrow> (\<And>r. Q (f r) = Q r) \<Longrightarrow>
   update_where Q f (update_where P f t) = update_where (\<lambda>r. P r \<or> Q r) f t"
  by (induction t) (auto simp: update_where_def)

lemma supersede_run:
  "op_for (\<lambda>p. update_qa t p (\<lambda>q. q\<lparr>qr_superseded_by := Some n\<rparr>)) ps s =
   Inr (replicate (length ps) (), s\<lparr>inspections := update_where (\<lambda>q. qr_tenant q = t \<and> qr_id q \<in> set ps)
      (\<lambda>q. q\<lparr>qr_superseded_by := Some n\<rparr>) (inspections s)\<rparr>)"
proof (induction ps arbitrary: s)
  case Nil
  then show ?case by (simp add: update_where_def op_return_def)
next
  case (Cons p ps)
  let ?f = "\<lambda>q. q\<lparr>qr_superseded_by := Some n\<rparr>"
  have "update_where (\<lambda>q. qr_tenant q = t \<and> qr_id q \<in> set ps) ?f
      (update_where (\<lambda>q. qr_tenant q = t \<and> qr_id q = p) ?f (inspections s)) =
    update_where (\<lambda>q. qr_tenant q = t \<and> qr_id q \<in> set (p # ps)) ?f (inspections s)"
    by (simp add: update_where_twice) (simp add: update_where_def disj_commute conj_disj_distribL)
  then show ?case
    by (simp add: op_bind_def Cons.IH) (simp add: update_qa_def op_modify_def op_return_def Cons.IH)
qed

lemma supersede_all:
  assumes "op_for (\<lambda>p. update_qa t p (\<lambda>q. q\<lparr>qr_superseded_by := Some n\<rparr>)) ps s = Inr (us, s')"
  shows "s' = s\<lparr>inspections := update_where (\<lambda>q. qr_tenant q = t \<and> qr_id q \<in> set ps)
      (\<lambda>q. q\<lparr>qr_superseded_by := Some n\<rparr>) (inspections s)\<rparr>"
  using assms unfolding supersede_run by simp

lemma filter_live_update:
  assumes "\<And>q. P q \<Longrightarrow> \<not> qa_live_for t wo rop (f q)"
  shows "filter (qa_live_for t wo rop) (update_where P f qs) =
    filter (\<lambda>q. \<not> P q \<and> qa_live_for t wo rop q) qs"
  using assms by (induction qs) (auto simp: update_where_def)

lemma length_filter_le_mono: "(\<And>x. x \<in> set xs \<Longrightarrow> P x \<Longrightarrow> Q x) \<Longrightarrow> length (filter P xs) \<le> length (filter Q xs)"
  by (induction xs) (auto simp: le_Suc_eq)

text \<open>Superseding all live inspections of an operation and adding a new one leaves exactly that one.\<close>

lemma supersede_insert:
  assumes "one_live qs" and "qa_live_for t wo rop new"
    and "\<And>q. q \<in> set qs \<Longrightarrow> qa_live_for t wo rop q \<Longrightarrow> P q"
    and "\<not> P new" and qs': "qs' = update_where P (\<lambda>q. q\<lparr>qr_superseded_by := Some n\<rparr>) (qs @ [new])"
  shows "one_live qs'" and "filter (qa_live_for t wo rop) qs' = [new]"
proof -
  let ?f = "\<lambda>q. q\<lparr>qr_superseded_by := Some n\<rparr>"
  have f: "\<not> qa_live_for t2 wo2 rop2 (?f q)" for t2 wo2 rop2 q by (simp add: qa_live_for_def)
  have none: "filter (\<lambda>q. \<not> P q \<and> qa_live_for t wo rop q) qs = []"
    using assms(3) by (auto simp: filter_empty_conv)
  show live: "filter (qa_live_for t wo rop) qs' = [new]"
    unfolding qs' using filter_live_update [OF f] none assms(2,4) by simp
  show "one_live qs'"
    unfolding one_live_def
  proof (intro allI)
    fix t2 wo2 rop2
    show "length (filter (qa_live_for t2 wo2 rop2) qs') \<le> 1"
    proof (cases "t2 = t \<and> wo2 = wo \<and> rop2 = rop")
      case True
      then show ?thesis using live by simp
    next
      case False
      then have "\<not> qa_live_for t2 wo2 rop2 new" using assms(2) by (auto simp: qa_live_for_def)
      then have "length (filter (qa_live_for t2 wo2 rop2) qs') =
          length (filter (\<lambda>q. \<not> P q \<and> qa_live_for t2 wo2 rop2 q) qs)"
        unfolding qs' using filter_live_update [OF f] by simp
      also have "\<dots> \<le> length (filter (qa_live_for t2 wo2 rop2) qs)" by (rule length_filter_le_mono) simp
      also have "\<dots> \<le> 1" using assms(1) by (simp add: one_live_def)
      finally show ?thesis .
    qed
  qed
qed

lemma auto_create_Inr:
  assumes "auto_create_inspection env ctx wo rop idem s = Inr (i, s')"
  obtains row lrow n where
    "\<not> is_blank idem" "qr_id row \<notin> set (map qr_id (inspections s))" "qa_live_for (wc_tenant ctx) wo rop row"
    "qr_state row = ''pending''" "qi_id i = qr_id row" "parse_inspection_row row = Inr i"
    "s' = s\<lparr>inspections := update_where
        (\<lambda>q. qr_tenant q = wc_tenant ctx \<and>
             qr_id q \<in> set (map qr_id (filter (qa_live_for (wc_tenant ctx) wo rop) (inspections s))))
        (\<lambda>q. q\<lparr>qr_superseded_by := Some (qr_id row)\<rparr>) (inspections s @ [row]),
      shop_ledger := shop_ledger s @ [lrow], tick := n\<rparr>"
proof -
  let ?t = "wc_tenant ctx"
  let ?prior = "map qr_id (filter (qa_live_for ?t wo rop) (inspections s))"
  define qid where "qid = ''qa_'' @ ulid_to_string (sh_ledger env) (sup_ulid (sh_time env) (Suc (tick s)))"
  define now where "now = rfc3339_format (sh_ledger env) (sup_now (sh_time env) (tick s))"
  define row where "row = \<lparr>qr_id = qid, qr_tenant = ?t, qr_wo = wo, qr_op = rop,
      qr_state = qa_state_as_str QaPending, qr_decided_at = None, qr_decided_by = None,
      qr_reason = None, qr_measurement = None, qr_source_event = None, qr_created_at = now,
      qr_superseded_by = None\<rparr>"
  from assms obtain us s1 s2 pl where blank: "\<not> is_blank idem"
    and ins: "insert_qa ''INSERT qa_inspections'' row (s\<lparr>tick := Suc (Suc (tick s))\<rparr>) = Inr ((), s1)"
    and upd: "op_for (\<lambda>p. update_qa ?t p (\<lambda>q. q\<lparr>qr_superseded_by := Some qid\<rparr>)) ?prior s1 = Inr (us, s2)"
    and app: "shop_append env ctx (QStorage ''audit append QaInspectionCreated'')
      (ShopEvent QaInspectionCreated) pl idem s2 = Inr ((), s')"
    and i: "i = \<lparr>qi_id = qid, qi_wo = wo, qi_op = rop, qi_state = QaPending, qi_decided_at = None,
          qi_decided_by = None, qi_reason = None, qi_measurement = None, qi_source_event = None,
          qi_created_at = now, qi_superseded_by = None\<rparr>"
    by (auto simp: auto_create_inspection_def op_simps row_def qid_def now_def)
  have s1: "qid \<notin> set (map qr_id (inspections s))"
    "s1 = s\<lparr>tick := Suc (Suc (tick s)), inspections := inspections s @ [row]\<rparr>"
    using ins by (auto simp: insert_qa_def op_simps row_def)
  obtain lrow where l: "s' = s2\<lparr>shop_ledger := shop_ledger s2 @ [lrow], tick := Suc (tick s2)\<rparr>"
    using shop_append_frame [OF app] by blast
  show ?thesis
  proof (rule that [where row = row and lrow = lrow and n = "Suc (Suc (Suc (tick s)))"])
    show "s' = s\<lparr>inspections := update_where
        (\<lambda>q. qr_tenant q = ?t \<and> qr_id q \<in> set ?prior)
        (\<lambda>q. q\<lparr>qr_superseded_by := Some (qr_id row)\<rparr>) (inspections s @ [row]),
      shop_ledger := shop_ledger s @ [lrow], tick := Suc (Suc (Suc (tick s)))\<rparr>"
      unfolding l supersede_all [OF upd] s1(2) by (simp add: row_def)
    show "parse_inspection_row row = Inr i"
      unfolding parse_inspection_row_def row_def i by (simp add: qa_state_codec.from_as del: qa_state_as_str.simps)
  qed (use blank s1(1) i in \<open>simp_all add: row_def qa_live_for_def\<close>)
qed

lemma auto_create_live:
  assumes "one_live (inspections s)" and "auto_create_inspection env ctx wo rop idem s = Inr (i, s')"
  shows "one_live (inspections s')"
    and "\<exists>row. filter (qa_live_for (wc_tenant ctx) wo rop) (inspections s') = [row] \<and>
      parse_inspection_row row = Inr i \<and> qr_state row = ''pending''"
  using assms(2)
proof (atomize (full), elim auto_create_Inr)
  fix row lrow n
  let ?P = "\<lambda>q. qr_tenant q = wc_tenant ctx \<and>
    qr_id q \<in> set (map qr_id (filter (qa_live_for (wc_tenant ctx) wo rop) (inspections s)))"
  assume new: "qr_id row \<notin> set (map qr_id (inspections s))" "qa_live_for (wc_tenant ctx) wo rop row"
    and st: "qr_state row = ''pending''" "parse_inspection_row row = Inr i"
    and s': "s' = s\<lparr>inspections := update_where ?P
        (\<lambda>q. q\<lparr>qr_superseded_by := Some (qr_id row)\<rparr>) (inspections s @ [row]),
      shop_ledger := shop_ledger s @ [lrow], tick := n\<rparr>"
  have p: "q \<in> set (inspections s) \<Longrightarrow> qa_live_for (wc_tenant ctx) wo rop q \<Longrightarrow> ?P q" for q
    by (auto simp: qa_live_for_def)
  have np: "\<not> ?P row" using new(1) by auto
  note r = supersede_insert [where P = ?P, OF assms(1) new(2) p np refl]
  show "one_live (inspections s') \<and>
    (\<exists>row. filter (qa_live_for (wc_tenant ctx) wo rop) (inspections s') = [row] \<and>
      parse_inspection_row row = Inr i \<and> qr_state row = ''pending'')"
    using r st by (simp add: s')
qed

section \<open>The effect of a decision\<close>

lemma decide_qa_Inr:
  assumes "decide_qa env ctx qid inp s = Inr (out, s')"
  obtains q cur new now live old rework scrap s1 s2 pl key l where
    "qa_by_id (wc_tenant ctx) qid s = Some q" "qr_superseded_by q = None"
    "qa_state_from_str (qr_state q) = Inr cur" "next_qa_state cur (dq_decision inp) = Inr new"
    "wo_cancelled (wo_by_id (wc_tenant ctx) (qr_wo q) s) \<Longrightarrow> dq_decision inp = QaDispose"
    "store_decision env ctx q new now inp (s\<lparr>tick := Suc (tick s)\<rparr>) = Inr ((live, old), s1)"
    "decision_effects env ctx q live inp s1 = Inr ((rework, scrap), s2)"
    "shop_append env ctx (QStorage ''audit append QaInspectionDecided'') (ShopEvent QaInspectionDecided)
       pl key s2 = Inr ((), s')"
    "qa_by_id (wc_tenant ctx) live s' = Some l" "parse_inspection_row l = Inr (do_inspection out)"
    "do_superseded out = old" "do_rework_flipped out = rework" "do_scrap_emitted out = scrap"
  using assms unfolding decide_qa_def
  by (clarsimp simp: op_simps simp del: append.simps split: prod.splits)

lemma qa_by_id_Some: "qa_by_id t qid s = Some q \<Longrightarrow> q \<in> set (inspections s) \<and> qr_tenant q = t \<and> qr_id q = qid"
  unfolding qa_by_id_def by (drule select_one_Some) simp

lemma decision_effects_frame:
  assumes "decision_effects env ctx q live inp s = Inr (x, s')"
  shows "inspections s' = inspections s" "work_orders s' = work_orders s"
proof -
  have "inspections s' = inspections s \<and> work_orders s' = work_orders s"
    using assms unfolding decision_effects_def
    by (cases "dq_decision inp")
      (auto simp: op_simps rework_operation_def dispose_stock_def Let_def
        dest: shop_append_same record_movement_frame)
  then show "inspections s' = inspections s" "work_orders s' = work_orders s" by auto
qed

text \<open>The two ways of storing a decision.\<close>

definition decided_row :: "string \<Rightarrow> qa_state \<Rightarrow> string \<Rightarrow> decide_inputs \<Rightarrow> qa_row \<Rightarrow> qa_row" where
  "decided_row act new now inp r =
     r\<lparr>qr_state := qa_state_as_str new, qr_decided_at := Some now, qr_decided_by := Some act,
       qr_reason := coalesce (dq_reason inp) (qr_reason r),
       qr_measurement := coalesce (dq_measurement inp) (qr_measurement r),
       qr_source_event := coalesce (dq_source_event inp) (qr_source_event r)\<rparr>"

lemma store_decision_same:
  assumes "store_decision env ctx q new now inp s = Inr ((live, old), s')"
    and "\<not> decided_by_other q (as_operator_string (wc_actor ctx))"
  shows "live = qr_id q" "old = None"
    "s' = s\<lparr>inspections := update_where (\<lambda>r. qr_tenant r = wc_tenant ctx \<and> qr_id r = qr_id q)
      (decided_row (as_operator_string (wc_actor ctx)) new now inp) (inspections s)\<rparr>"
  using assms by (auto simp: store_decision_def op_simps update_qa_def decided_row_def [abs_def])

lemma store_decision_other:
  assumes "store_decision env ctx q new now inp s = Inr ((live, old), s')"
    and "decided_by_other q (as_operator_string (wc_actor ctx))"
  obtains row where "live = qr_id row" "old = Some (qr_id q)" "live \<notin> set (map qr_id (inspections s))"
    "qa_live_for (wc_tenant ctx) (qr_wo q) (qr_op q) row" "qr_state row = qa_state_as_str new"
    "qr_decided_by row = Some (as_operator_string (wc_actor ctx))"
    "s' = s\<lparr>tick := Suc (tick s), inspections :=
       update_where (\<lambda>r. qr_tenant r = wc_tenant ctx \<and> qr_id r = qr_id q)
         (\<lambda>r. r\<lparr>qr_superseded_by := Some live\<rparr>) (inspections s @ [row])\<rparr>"
proof -
  define row where "row = \<lparr>qr_id = live, qr_tenant = wc_tenant ctx, qr_wo = qr_wo q, qr_op = qr_op q,
     qr_state = qa_state_as_str new, qr_decided_at = Some now,
     qr_decided_by = Some (as_operator_string (wc_actor ctx)),
     qr_reason = dq_reason inp, qr_measurement = dq_measurement inp,
     qr_source_event = dq_source_event inp, qr_created_at = now, qr_superseded_by = None\<rparr>"
  show ?thesis
    using assms
    by (intro that [of row])
      (auto simp: store_decision_def op_simps update_qa_def insert_qa_def row_def qa_live_for_def Let_def)
qed

lemma one_live_in_place:
  assumes "one_live qs"
  shows "one_live (update_where P (decided_row act new now inp) qs)"
proof -
  have "qa_live_for t wo rop (decided_row act new now inp q) = qa_live_for t wo rop q" for t wo rop q
    by (simp add: qa_live_for_def decided_row_def)
  then have "filter (qa_live_for t wo rop) (update_where P (decided_row act new now inp) qs) =
      update_where P (decided_row act new now inp) (filter (qa_live_for t wo rop) qs)" for t wo rop
    by (rule filter_update_where)
  then show ?thesis using assms by (simp add: one_live_def)
qed

lemma one_live_unique:
  assumes "one_live qs" and "a \<in> set qs" and "b \<in> set qs"
    and "qa_live_for t wo rop a" and "qa_live_for t wo rop b"
  shows "a = b"
proof -
  have "length (filter (qa_live_for t wo rop) qs) \<le> 1" using assms(1) by (simp add: one_live_def)
  moreover have "a \<in> set (filter (qa_live_for t wo rop) qs)" "b \<in> set (filter (qa_live_for t wo rop) qs)"
    using assms by auto
  ultimately show ?thesis by (cases "filter (qa_live_for t wo rop) qs") auto
qed

lemma decide_live:
  assumes "one_live (inspections s)" and "decide_qa env ctx qid inp s = Inr (out, s')"
  shows "one_live (inspections s')"
  using assms(2)
proof (rule decide_qa_Inr)
  fix q cur new now live old rework scrap s1 s2 pl key l
  assume q: "qa_by_id (wc_tenant ctx) qid s = Some q" "qr_superseded_by q = None"
    and st: "store_decision env ctx q new now inp (s\<lparr>tick := Suc (tick s)\<rparr>) = Inr ((live, old), s1)"
    and ef: "decision_effects env ctx q live inp s1 = Inr ((rework, scrap), s2)"
    and app: "shop_append env ctx (QStorage ''audit append QaInspectionDecided'')
       (ShopEvent QaInspectionDecided) pl key s2 = Inr ((), s')"
  have same: "inspections s' = inspections s1"
    using decision_effects_frame(1) [OF ef] shop_append_same(1) [OF app] by simp
  show "one_live (inspections s')"
  proof (cases "decided_by_other q (as_operator_string (wc_actor ctx))")
    case False
    show ?thesis
      using one_live_in_place [OF assms(1)] store_decision_same(3) [OF st False] by (simp add: same)
  next
    case True
    then show ?thesis
    proof (rule store_decision_other [OF st])
      fix row
      let ?P = "\<lambda>r. qr_tenant r = wc_tenant ctx \<and> qr_id r = qr_id q"
      assume new: "live = qr_id row" "live \<notin> set (map qr_id (inspections (s\<lparr>tick := Suc (tick s)\<rparr>)))"
        "qa_live_for (wc_tenant ctx) (qr_wo q) (qr_op q) row"
        and s1: "s1 = s\<lparr>tick := Suc (tick s)\<rparr>\<lparr>tick := Suc (tick (s\<lparr>tick := Suc (tick s)\<rparr>)), inspections :=
          update_where ?P (\<lambda>r. r\<lparr>qr_superseded_by := Some live\<rparr>)
            (inspections (s\<lparr>tick := Suc (tick s)\<rparr>) @ [row])\<rparr>"
      have in_s: "q \<in> set (inspections s)" "qr_tenant q = wc_tenant ctx" using qa_by_id_Some [OF q(1)] by auto
      have "r = q" if "r \<in> set (inspections s)" "qa_live_for (wc_tenant ctx) (qr_wo q) (qr_op q) r" for r
        using one_live_unique [OF assms(1) that(1) in_s(1) that(2)] in_s q(2) by (simp add: qa_live_for_def)
      then have p: "?P r" if "r \<in> set (inspections s)" "qa_live_for (wc_tenant ctx) (qr_wo q) (qr_op q) r" for r
        using that in_s by blast
      have np: "\<not> ?P row" using new(1,2) in_s(1) by auto
      show ?thesis
        using supersede_insert(1) [where P = ?P, OF assms(1) new(3) p np refl] by (simp add: same s1)
    qed
  qed
qed

lemma preserves_live_decide: "preserves (\<lambda>s. one_live (inspections s)) (decide_qa env ctx qid inp)"
  by (rule preservesI) (rule decide_live)

lemma preserves_live_create:
  "preserves (\<lambda>s. one_live (inspections s)) (auto_create_inspection env ctx wo rop idem)"
  by (rule preservesI) (rule auto_create_live(1))

lemma parse_fields:
  assumes "parse_inspection_row r = Inr i"
  shows "qi_id i = qr_id r" "qi_wo i = qr_wo r" "qi_op i = qr_op r" "qi_decided_by i = qr_decided_by r"
    "qa_state_from_str (qr_state r) = Inr (qi_state i)" "qi_superseded_by i = qr_superseded_by r"
  using assms unfolding parse_inspection_row_def and_then_eq_Inr by auto

lemma decide_live_row:
  assumes "one_live (inspections s)" and "decide_qa env ctx qid inp s = Inr (out, s')"
  shows "\<exists>l. filter (qa_live_for (wc_tenant ctx) (qi_wo (do_inspection out)) (qi_op (do_inspection out)))
        (inspections s') = [l] \<and>
      parse_inspection_row l = Inr (do_inspection out) \<and>
      qi_state (do_inspection out) = qa_decision_to_state (dq_decision inp) \<and>
      qi_decided_by (do_inspection out) = Some (as_operator_string (wc_actor ctx))"
  using assms(2)
proof (rule decide_qa_Inr)
  fix q cur new now live old rework scrap s1 s2 pl key l
  let ?t = "wc_tenant ctx" and ?act = "as_operator_string (wc_actor ctx)"
  assume q: "qa_by_id ?t qid s = Some q" "qr_superseded_by q = None"
    and new: "next_qa_state cur (dq_decision inp) = Inr new"
    and st: "store_decision env ctx q new now inp (s\<lparr>tick := Suc (tick s)\<rparr>) = Inr ((live, old), s1)"
    and ef: "decision_effects env ctx q live inp s1 = Inr ((rework, scrap), s2)"
    and app: "shop_append env ctx (QStorage ''audit append QaInspectionDecided'')
       (ShopEvent QaInspectionDecided) pl key s2 = Inr ((), s')"
    and l: "qa_by_id ?t live s' = Some l" "parse_inspection_row l = Inr (do_inspection out)"
  have same: "inspections s' = inspections s1"
    using decision_effects_frame(1) [OF ef] shop_append_same(1) [OF app] by simp
  have in_s: "q \<in> set (inspections s)" "qr_tenant q = ?t" "qr_id q = qid" using qa_by_id_Some [OF q(1)] by auto
  have row: "qa_live_for ?t (qr_wo q) (qr_op q) l \<and> qr_state l = qa_state_as_str new \<and>
      qr_decided_by l = Some ?act"
  proof (cases "decided_by_other q ?act")
    case False
    note s1 = store_decision_same [OF st False]
    have "qa_by_id ?t live s' = Some (decided_row ?act new now inp q)"
      using q(1) in_s
      by (simp add: qa_by_id_def same s1 select_one_update_where decided_row_def)
    then have "l = decided_row ?act new now inp q" using l(1) by simp
    then show ?thesis using q(2) in_s by (simp add: qa_live_for_def decided_row_def)
  next
    case True
    then show ?thesis
    proof (rule store_decision_other [OF st])
      fix row
      assume new: "live = qr_id row" "live \<notin> set (map qr_id (inspections (s\<lparr>tick := Suc (tick s)\<rparr>)))"
        "qa_live_for ?t (qr_wo q) (qr_op q) row" "qr_state row = qa_state_as_str new"
        "qr_decided_by row = Some ?act"
        and s1: "s1 = s\<lparr>tick := Suc (tick s)\<rparr>\<lparr>tick := Suc (tick (s\<lparr>tick := Suc (tick s)\<rparr>)), inspections :=
          update_where (\<lambda>r. qr_tenant r = ?t \<and> qr_id r = qr_id q)
            (\<lambda>r. r\<lparr>qr_superseded_by := Some live\<rparr>) (inspections (s\<lparr>tick := Suc (tick s)\<rparr>) @ [row])\<rparr>"
      have l': "l \<in> set (inspections s1)" "qr_id l = live"
        using qa_by_id_Some [OF l(1)] same by auto
      from l'(1) have "l \<in> (\<lambda>r. if qr_tenant r = ?t \<and> qr_id r = qr_id q
            then r\<lparr>qr_superseded_by := Some live\<rparr> else r) ` set (inspections s @ [row])"
        unfolding s1 set_update_where [symmetric] by simp
      then obtain r where r: "r \<in> set (inspections s @ [row])"
        "l = (if qr_tenant r = ?t \<and> qr_id r = qr_id q then r\<lparr>qr_superseded_by := Some live\<rparr> else r)"
        by (elim imageE)
      with l'(2) have "qr_id r = live" by (simp split: if_splits)
      then have "r = row" using new(1,2) r(1) by (force simp: image_iff)
      moreover have "qr_id row \<noteq> qr_id q" using new(1,2) in_s(1) by auto
      ultimately have "l = row" using r(2) by simp
      then show ?thesis using new by simp
    qed
  qed
  have i: "qi_wo (do_inspection out) = qr_wo q" "qi_op (do_inspection out) = qr_op q"
    "qi_decided_by (do_inspection out) = Some ?act" "qi_state (do_inspection out) = new"
    using parse_fields [OF l(2)] row qa_state_codec.from_as [of new] by (simp_all add: qa_live_for_def)
  have "length (filter (qa_live_for ?t (qr_wo q) (qr_op q)) (inspections s')) \<le> 1"
    using decide_live [OF assms] by (simp add: one_live_def)
  moreover have "l \<in> set (filter (qa_live_for ?t (qr_wo q) (qr_op q)) (inspections s'))"
    using qa_by_id_Some [OF l(1)] row by simp
  ultimately have "filter (qa_live_for ?t (qr_wo q) (qr_op q)) (inspections s') = [l]"
    by (cases "filter (qa_live_for ?t (qr_wo q) (qr_op q)) (inspections s')") auto
  then show ?thesis using i l(2) next_qa_state_target [OF new] by auto
qed

section \<open>When the operations succeed\<close>

lemma auto_create_total:
  assumes "\<not> is_blank idem"
    and "''qa_'' @ ulid_to_string (sh_ledger env) (sup_ulid (sh_time env) (Suc (tick s))) \<notin>
      set (map qr_id (inspections s))"
    and app: "\<And>(err :: qa_error) k pl idem s'. shop_ledger s' = shop_ledger s \<Longrightarrow>
      \<exists>s''. shop_append env ctx err k pl idem s' = Inr ((), s'')"
  shows "\<exists>i s'. auto_create_inspection env ctx wo rop idem s = Inr (i, s')"
proof -
  let ?t = "wc_tenant ctx"
  define qid where "qid = ''qa_'' @ ulid_to_string (sh_ledger env) (sup_ulid (sh_time env) (Suc (tick s)))"
  define now where "now = rfc3339_format (sh_ledger env) (sup_now (sh_time env) (tick s))"
  define row where "row = \<lparr>qr_id = qid, qr_tenant = ?t, qr_wo = wo, qr_op = rop,
      qr_state = qa_state_as_str QaPending, qr_decided_at = None, qr_decided_by = None,
      qr_reason = None, qr_measurement = None, qr_source_event = None, qr_created_at = now,
      qr_superseded_by = None\<rparr>"
  define prior where "prior = map qr_id (filter (qa_live_for ?t wo rop) (inspections s))"
  define s1 where "s1 = s\<lparr>tick := Suc (Suc (tick s)), inspections := inspections s @ [row]\<rparr>"
  define s2 where "s2 = s1\<lparr>inspections := update_where (\<lambda>q. qr_tenant q = ?t \<and> qr_id q \<in> set prior)
      (\<lambda>q. q\<lparr>qr_superseded_by := Some qid\<rparr>) (inspections s1)\<rparr>"
  have ins: "insert_qa ''INSERT qa_inspections'' row (s\<lparr>tick := Suc (Suc (tick s))\<rparr>) = Inr ((), s1)"
    using assms(2)
    by (auto simp: insert_qa_def op_simps row_def qid_def s1_def image_iff simp del: append.simps)
  have upd: "op_for (\<lambda>p. update_qa ?t p (\<lambda>q. q\<lparr>qr_superseded_by := Some qid\<rparr>)) prior s1 =
      Inr (replicate (length prior) (), s2)"
    unfolding supersede_run s2_def ..
  have "shop_ledger s2 = shop_ledger s" by (simp add: s2_def s1_def)
  from app [OF this] obtain s3 where "shop_append env ctx (QStorage ''audit append QaInspectionCreated'')
      (ShopEvent QaInspectionCreated)
      (qa_created_payload qid wo rop (as_operator_string (wc_actor ctx)) idem) idem s2 = Inr ((), s3)"
    by blast
  then show ?thesis
    using assms(1) ins upd
    by (auto simp: auto_create_inspection_def op_simps row_def qid_def now_def prior_def
        simp del: append.simps)
qed

text \<open>Pass and fail have no effect outside the inspection, so only the audit append can stop them.\<close>

lemma decide_total:
  assumes "\<not> is_blank (dq_idem inp)" and "qa_by_id (wc_tenant ctx) qid s = Some q"
    and "qr_superseded_by q = None" and "qa_state_from_str (qr_state q) = Inr cur"
    and "\<not> wo_cancelled (wo_by_id (wc_tenant ctx) (qr_wo q) s)"
    and "next_qa_state cur (dq_decision inp) = Inr new" and "dq_decision inp \<in> {QaPass, QaFail}"
    and "\<not> decided_by_other q (as_operator_string (wc_actor ctx))"
    and app: "\<And>(err :: qa_error) k pl idem s'. shop_ledger s' = shop_ledger s \<Longrightarrow>
      \<exists>s''. shop_append env ctx err k pl idem s' = Inr ((), s'')"
  shows "\<exists>out s'. decide_qa env ctx qid inp s = Inr (out, s')"
proof -
  let ?t = "wc_tenant ctx" and ?act = "as_operator_string (wc_actor ctx)"
  define now where "now = rfc3339_format (sh_ledger env) (sup_now (sh_time env) (tick s))"
  define s1 where "s1 = s\<lparr>tick := Suc (tick s), inspections :=
    update_where (\<lambda>r. qr_tenant r = ?t \<and> qr_id r = qr_id q) (decided_row ?act new now inp) (inspections s)\<rparr>"
  have st: "store_decision env ctx q new now inp (s\<lparr>tick := Suc (tick s)\<rparr>) = Inr ((qr_id q, None), s1)"
    using assms(8) by (simp add: store_decision_def op_simps update_qa_def decided_row_def [abs_def] s1_def)
  have ef: "decision_effects env ctx q (qr_id q) inp s1 = Inr ((False, False), s1)"
    using assms(7) by (auto simp: decision_effects_def)
  have "shop_ledger s1 = shop_ledger s" by (simp add: s1_def)
  from app [OF this] obtain s2 where app': "shop_append env ctx (QStorage ''audit append QaInspectionDecided'')
      (ShopEvent QaInspectionDecided)
      (qa_decided_payload (qr_id q) q cur new inp ?act None)
      (''decide:'' @ qa_decision_as_str (dq_decision inp) @ '':'' @ dq_idem inp) s1 = Inr ((), s2)"
    by blast
  have "qa_by_id ?t (qr_id q) s2 = Some (decided_row ?act new now inp q)"
    using assms(2) qa_by_id_Some [OF assms(2)] shop_append_same(1) [OF app']
    by (simp add: qa_by_id_def s1_def select_one_update_where decided_row_def)
  moreover obtain i where "parse_inspection_row (decided_row ?act new now inp q) = Inr i"
    by (simp add: parse_inspection_row_def decided_row_def qa_state_codec.from_as)
  ultimately have "decide_qa env ctx qid inp s = Inr (\<lparr>do_inspection = i, do_superseded = None,
      do_rework_flipped = False, do_scrap_emitted = False\<rparr>, s2)"
    unfolding decide_qa_def
    using assms(1-6) st ef app'
    by (simp add: op_simps now_def del: append.simps) blast
  then show ?thesis by blast
qed

end
