(* ===== verification/Work_Orders.thy ===== *)
theory Work_Orders
  imports Quality
begin

text \<open>
  Work orders (crates/aberp-work-orders: types.rs, state.rs, repository.rs): bills of materials,
  creation with a routing, the order's state machine with its stock effects (a release consumes
  the components, a completion receives the product and is gated by quality), the routing
  operations with their cascade, and the automatic completion.
\<close>

section \<open>Vocabulary\<close>

datatype wo_state = WoCreated | WoReleased | WoInProgress | WoCompleted | WoCancelled | WoOnHold

fun wo_state_as_str :: "wo_state \<Rightarrow> string" where
  "wo_state_as_str WoCreated = ''created''"
| "wo_state_as_str WoReleased = ''released''"
| "wo_state_as_str WoInProgress = ''in_progress''"
| "wo_state_as_str WoCompleted = ''completed''"
| "wo_state_as_str WoCancelled = ''cancelled''"
| "wo_state_as_str WoOnHold = ''on_hold''"

definition wo_state_from_str :: "string \<Rightarrow> string + wo_state" where
  "wo_state_from_str s =
    (if s = ''created'' then Inr WoCreated
     else if s = ''released'' then Inr WoReleased
     else if s = ''in_progress'' then Inr WoInProgress
     else if s = ''completed'' then Inr WoCompleted
     else if s = ''cancelled'' then Inr WoCancelled
     else if s = ''on_hold'' then Inr WoOnHold
     else Inl ''unknown WorkOrderState storage string'')"

interpretation wo_state_codec: storage_codec wo_state_as_str wo_state_from_str
proof
  show "wo_state_from_str (wo_state_as_str x) = Inr x" for x
    by (cases x) (simp_all add: wo_state_from_str_def)
  show "wo_state_as_str x = s" if "wo_state_from_str s = Inr x" for s x
    using that by (auto simp: wo_state_from_str_def split: if_splits)
qed

definition wo_is_terminal :: "wo_state \<Rightarrow> bool" where
  "wo_is_terminal s \<longleftrightarrow> s = WoCompleted \<or> s = WoCancelled"

datatype op_state = OpPending | OpActive | OpCompleted | OpSkipped

fun op_state_as_str :: "op_state \<Rightarrow> string" where
  "op_state_as_str OpPending = ''pending''"
| "op_state_as_str OpActive = ''active''"
| "op_state_as_str OpCompleted = ''completed''"
| "op_state_as_str OpSkipped = ''skipped''"

definition op_state_from_str :: "string \<Rightarrow> string + op_state" where
  "op_state_from_str s =
    (if s = ''pending'' then Inr OpPending
     else if s = ''active'' then Inr OpActive
     else if s = ''completed'' then Inr OpCompleted
     else if s = ''skipped'' then Inr OpSkipped
     else Inl ''unknown RoutingOpState storage string'')"

interpretation op_state_codec: storage_codec op_state_as_str op_state_from_str
proof
  show "op_state_from_str (op_state_as_str x) = Inr x" for x
    by (cases x) (simp_all add: op_state_from_str_def)
  show "op_state_as_str x = s" if "op_state_from_str s = Inr x" for s x
    using that by (auto simp: op_state_from_str_def split: if_splits)
qed

datatype wo_action = WoRelease | WoStart | WoComplete | WoCancel | WoHold | WoResume

fun wo_action_as_str :: "wo_action \<Rightarrow> string" where
  "wo_action_as_str WoRelease = ''release''"
| "wo_action_as_str WoStart = ''start''"
| "wo_action_as_str WoComplete = ''complete''"
| "wo_action_as_str WoCancel = ''cancel''"
| "wo_action_as_str WoHold = ''hold''"
| "wo_action_as_str WoResume = ''resume''"

definition wo_action_from_str :: "string \<Rightarrow> string + wo_action" where
  "wo_action_from_str s =
    (if s = ''release'' then Inr WoRelease
     else if s = ''start'' then Inr WoStart
     else if s = ''complete'' then Inr WoComplete
     else if s = ''cancel'' then Inr WoCancel
     else if s = ''hold'' then Inr WoHold
     else if s = ''resume'' then Inr WoResume
     else Inl ''unknown WoAction storage string'')"

interpretation wo_action_codec: storage_codec wo_action_as_str wo_action_from_str
proof
  show "wo_action_from_str (wo_action_as_str x) = Inr x" for x
    by (cases x) (simp_all add: wo_action_from_str_def)
  show "wo_action_as_str x = s" if "wo_action_from_str s = Inr x" for s x
    using that by (auto simp: wo_action_from_str_def split: if_splits)
qed

datatype op_action = OpComplete

fun op_action_as_str :: "op_action \<Rightarrow> string" where
  "op_action_as_str OpComplete = ''complete''"

definition op_action_from_str :: "string \<Rightarrow> string + op_action" where
  "op_action_from_str s =
    (if s = ''complete'' then Inr OpComplete else Inl ''unknown RoutingOpAction storage string'')"

fun next_wo_state :: "wo_state \<Rightarrow> wo_action \<Rightarrow> (wo_state \<times> wo_action) + wo_state" where
  "next_wo_state WoCreated WoRelease = Inr WoReleased"
| "next_wo_state WoReleased WoStart = Inr WoInProgress"
| "next_wo_state WoInProgress WoComplete = Inr WoCompleted"
| "next_wo_state WoReleased WoHold = Inr WoOnHold"
| "next_wo_state WoInProgress WoHold = Inr WoOnHold"
| "next_wo_state WoOnHold WoResume = Inr WoInProgress"
| "next_wo_state WoCreated WoCancel = Inr WoCancelled"
| "next_wo_state WoReleased WoCancel = Inr WoCancelled"
| "next_wo_state WoInProgress WoCancel = Inr WoCancelled"
| "next_wo_state WoOnHold WoCancel = Inr WoCancelled"
| "next_wo_state from action = Inl (from, action)"

interpretation wo_cycle: lifecycle next_wo_state wo_is_terminal
proof
  show "next_wo_state s a \<noteq> Inr t" if "wo_is_terminal s" for s a t
    using that by (cases a) (auto simp: wo_is_terminal_def)
  show "\<exists>a t. next_wo_state s a = Inr t" if "\<not> wo_is_terminal s" for s
  proof -
    have "next_wo_state s WoCancel = Inr WoCancelled"
      using that by (cases s) (simp_all add: wo_is_terminal_def)
    then show ?thesis by blast
  qed
qed

fun_cases next_wo_state_cases: "next_wo_state s a = Inr t"

fun next_routing_op_state :: "op_state \<Rightarrow> op_action \<Rightarrow> (op_state \<times> op_action) + op_state" where
  "next_routing_op_state OpActive OpComplete = Inr OpCompleted"
| "next_routing_op_state from action = Inl (from, action)"

datatype wo_error =
    WIllegalTransition "wo_state \<times> wo_action"
  | WIllegalOpTransition "op_state \<times> op_action"
  | WIllegalQaTransition "qa_state \<times> qa_decision"
  | WStateRaced wo_state wo_state
  | WNoActiveBomForProduct string
  | WWorkOrderNotFound string
  | WProductNotFound string
  | WDuplicateIdempotencyKey string
  | WValidation string
  | WRoutingOpNotFound string
  | WCompletionBlockedByQa string
  | WStorage string
  | WDecimalOverflowPanic \<comment> \<open>the multiplication of two \<open>Decimal\<close>s panics on overflow\<close>

section \<open>Bills of materials\<close>

record bom_line =
  bl_id :: string
  bl_product :: string
  bl_component :: string
  bl_qty :: rat
  bl_created_at :: string
  bl_retired_at :: "string option"

record bom_line_input =
  bi_component :: string
  bi_qty :: rat

definition MAX_BOM_LINES_PER_REQUEST :: nat where "MAX_BOM_LINES_PER_REQUEST = 200"
definition MAX_ROUTING_OPS_PER_WO :: nat where "MAX_ROUTING_OPS_PER_WO = 200"

definition bom_active :: "string \<Rightarrow> string \<Rightarrow> bom_row \<Rightarrow> bool" where
  "bom_active t p b \<longleftrightarrow> bm_tenant b = t \<and> bm_product b = p \<and> bm_retired_at b = None"

definition list_active_bom_for_product :: "string \<Rightarrow> string \<Rightarrow> shop_db \<Rightarrow> bom_line list" where
  "list_active_bom_for_product t p s =
     map (\<lambda>b. \<lparr>bl_id = bm_id b, bl_product = bm_product b, bl_component = bm_component b, bl_qty = bm_qty b,
              bl_created_at = bm_created_at b, bl_retired_at = bm_retired_at b\<rparr>)
       (sort_key (\<lambda>b. (bm_created_at b, bm_id b)) (filter (bom_active t p) (boms s)))"

fun check_bom_lines :: "shop_env \<Rightarrow> nat \<Rightarrow> bom_line_input list \<Rightarrow> wo_error + unit" where
  "check_bom_lines env i [] = Inr ()"
| "check_bom_lines env i (l # ls) =
     (if bi_qty l \<le> 0
      then Inl (WValidation (''line '' @ show_nat i @ '': qty_per_unit must be > 0, got '' @ sh_dec_show env (bi_qty l)))
      else if is_blank (bi_component l)
      then Inl (WValidation (''line '' @ show_nat i @ '': component_id is empty''))
      else check_bom_lines env (Suc i) ls)"

definition insert_bom_line ::
  "shop_env \<Rightarrow> string \<Rightarrow> string \<Rightarrow> string \<Rightarrow> bom_line_input \<Rightarrow> (shop_db, wo_error, bom_line) tx_op" where
  "insert_bom_line env t p now l =
     op_bind (shop_ulid env ''bml_'') (\<lambda>bid.
     op_bind (op_get boms) (\<lambda>bs.
     op_then (op_require (\<not> exists_row (\<lambda>b. bm_id b = bid) bs) (WStorage ''INSERT BOM line''))
     (op_bind (op_lift (ok_or (WStorage ''INSERT BOM line'') (sh_dec_store env (bi_qty l)))) (\<lambda>q.
      op_then (op_modify (\<lambda>s. s\<lparr>boms := boms s @ [\<lparr>bm_id = bid, bm_tenant = t, bm_product = p,
          bm_component = bi_component l, bm_qty = q, bm_created_at = now, bm_retired_at = None\<rparr>]\<rparr>))
      (op_return \<lparr>bl_id = bid, bl_product = p, bl_component = bi_component l, bl_qty = bi_qty l,
          bl_created_at = now, bl_retired_at = None\<rparr>)))))"

definition replace_bom_for_product ::
  "shop_env \<Rightarrow> string \<Rightarrow> string \<Rightarrow> bom_line_input list \<Rightarrow> (shop_db, wo_error, bom_line list) tx_op" where
  "replace_bom_for_product env t p ls =
     op_then (op_require (length ls \<le> MAX_BOM_LINES_PER_REQUEST)
       (WValidation (''BOM has '' @ show_nat (length ls) @ '' lines; max is '' @ show_nat MAX_BOM_LINES_PER_REQUEST)))
     (op_bind (op_lift (check_bom_lines env 0 ls)) (\<lambda>_.
      op_bind (op_get products) (\<lambda>ps.
      op_then (op_require (exists_row (product_live t p) ps) (WProductNotFound p))
      (op_bind (shop_now env) (\<lambda>now.
       op_then (op_modify (\<lambda>s. s\<lparr>boms := update_where (bom_active t p) (\<lambda>b. b\<lparr>bm_retired_at := Some now\<rparr>) (boms s)\<rparr>))
       (op_for (insert_bom_line env t p now) ls))))))"

section \<open>Creating an order\<close>

record work_order =
  wo_id :: string
  wo_number :: string
  wo_product :: string
  wo_qty :: rat
  wo_state :: wo_state
  wo_created_at :: string
  wo_released_at :: "string option"
  wo_started_at :: "string option"
  wo_completed_at :: "string option"
  wo_cancelled_at :: "string option"
  wo_hold_reason :: "string option"
  wo_notes :: "string option"
  wo_source_quote :: "string option"
  wo_minutes :: "rat option" \<comment> \<open>an \<open>f64\<close>, stored and read back only\<close>

record routing_op =
  rp_id :: string
  rp_wo :: string
  rp_sequence :: int
  rp_name :: string
  rp_est_time :: "int option"
  rp_est_cost :: "rat option"
  rp_state :: op_state
  rp_started_at :: "string option"
  rp_completed_at :: "string option"

record routing_op_input =
  pi_name :: string
  pi_est_time :: "int option"
  pi_est_cost :: "rat option"

record create_wo_inputs =
  cw_number :: string
  cw_product :: string
  cw_qty :: rat
  cw_notes :: "string option"
  cw_ops :: "routing_op_input list"
  cw_idem :: string
  cw_source_quote :: "string option"

fun check_op_names :: "nat \<Rightarrow> routing_op_input list \<Rightarrow> wo_error + unit" where
  "check_op_names i [] = Inr ()"
| "check_op_names i (p # ps) =
     (if is_blank (pi_name p)
      then Inl (WValidation (''routing_ops['' @ show_nat i @ '']: op_name is empty''))
      else check_op_names (Suc i) ps)"

definition check_create_wo :: "shop_env \<Rightarrow> create_wo_inputs \<Rightarrow> wo_error + unit" where
  "check_create_wo env inp =
     (if cw_qty inp \<le> 0
      then Inl (WValidation (''qty_target must be > 0, got '' @ sh_dec_show env (cw_qty inp)))
      else if cw_ops inp = [] then Inl (WValidation ''WO must have at least one routing operation'')
      else if length (cw_ops inp) > MAX_ROUTING_OPS_PER_WO
      then Inl (WValidation (''WO has '' @ show_nat (length (cw_ops inp)) @ '' routing ops; max is '' @
             show_nat MAX_ROUTING_OPS_PER_WO))
      else and_then (check_op_names 0 (cw_ops inp)) (\<lambda>_.
        if is_blank (cw_number inp) then Inl (WValidation ''wo_number must be non-empty'')
        else if is_blank (cw_idem inp) then Inl (WValidation ''idempotency_key must be non-empty'')
        else Inr ()))"

definition insert_wo :: "shop_env \<Rightarrow> wo_row \<Rightarrow> (shop_db, wo_error, unit) tx_op" where
  "insert_wo env row =
     op_bind (op_get work_orders) (\<lambda>ws.
     op_then (op_require (\<not> exists_row (\<lambda>w. wr_id w = wr_id row) ws) (WStorage ''INSERT work_orders''))
     (op_bind (op_lift (ok_or (WStorage ''INSERT work_orders'') (sh_dec_store env (wr_qty row)))) (\<lambda>q.
      op_modify (\<lambda>s. s\<lparr>work_orders := work_orders s @ [row\<lparr>wr_qty := q\<rparr>]\<rparr>))))"

definition store_cost :: "shop_env \<Rightarrow> rat option \<Rightarrow> wo_error + rat option" where
  "store_cost env c =
     (case c of None \<Rightarrow> Inr None
      | Some x \<Rightarrow> and_then (ok_or (WStorage ''INSERT routing'') (sh_cost_store env x)) (\<lambda>y. Inr (Some y)))"

definition insert_routing ::
  "shop_env \<Rightarrow> string \<Rightarrow> string \<Rightarrow> nat \<times> routing_op_input \<Rightarrow> (shop_db, wo_error, routing_op) tx_op" where
  "insert_routing env t wid ip =
     (case ip of (i, p) \<Rightarrow>
       op_bind (shop_ulid env ''rop_'') (\<lambda>rid.
       op_bind (op_get routings) (\<lambda>rs.
       op_then (op_require (\<not> exists_row (\<lambda>r. ro_id r = rid) rs) (WStorage ''INSERT routing''))
       (op_bind (op_lift (store_cost env (pi_est_cost p))) (\<lambda>c.
        op_then (op_modify (\<lambda>s. s\<lparr>routings := routings s @ [\<lparr>ro_id = rid, ro_tenant = t, ro_wo = wid,
           ro_sequence = int i + 1, ro_name = rust_trim (pi_name p), ro_est_time = pi_est_time p,
           ro_est_cost = c, ro_state = op_state_as_str OpPending, ro_started_at = None,
           ro_completed_at = None\<rparr>]\<rparr>))
        (op_return \<lparr>rp_id = rid, rp_wo = wid, rp_sequence = int i + 1, rp_name = rust_trim (pi_name p),
           rp_est_time = pi_est_time p, rp_est_cost = pi_est_cost p, rp_state = OpPending,
           rp_started_at = None, rp_completed_at = None\<rparr>))))))"

definition wo_created_payload :: "work_order \<Rightarrow> string list \<Rightarrow> string \<Rightarrow> string \<Rightarrow> json" where
  "wo_created_payload w rops act idem =
     JObj [(''wo_id'', JStr (wo_id w)), (''wo_number'', JStr (wo_number w)),
           (''product_id'', JStr (wo_product w)), (''qty_target'', JDec (wo_qty w)),
           (''routing_op_ids'', JArr (map JStr rops)), (''actor'', JStr act),
           (''idempotency_key'', JStr idem)]"

definition create_work_order ::
  "shop_env \<Rightarrow> write_ctx \<Rightarrow> create_wo_inputs \<Rightarrow> (shop_db, wo_error, work_order \<times> routing_op list) tx_op" where
  \<comment> \<open>the uniqueness query compares the number as given, the INSERT stores it trimmed\<close>
  "create_work_order env ctx inp =
     op_bind (op_lift (check_create_wo env inp)) (\<lambda>_.
     op_bind (op_get products) (\<lambda>ps.
     op_then (op_require (exists_row (product_live (wc_tenant ctx) (cw_product inp)) ps)
       (WProductNotFound (cw_product inp)))
     (op_bind (op_get work_orders) (\<lambda>ws.
      op_then (op_require (\<not> exists_row (\<lambda>w. wr_tenant w = wc_tenant ctx \<and> wr_number w = cw_number inp) ws)
        (WValidation (''wo_number '' @ sh_str_debug env (cw_number inp) @ '' already exists in this tenant'')))
      (op_bind (shop_now env) (\<lambda>now.
       op_bind (shop_ulid env ''wo_'') (\<lambda>wid.
       op_then (insert_wo env \<lparr>wr_id = wid, wr_tenant = wc_tenant ctx, wr_number = rust_trim (cw_number inp),
          wr_product = cw_product inp, wr_qty = cw_qty inp, wr_state = wo_state_as_str WoCreated,
          wr_created_at = now, wr_released_at = None, wr_started_at = None, wr_completed_at = None,
          wr_cancelled_at = None, wr_hold_reason = None, wr_notes = cw_notes inp,
          wr_source_quote = cw_source_quote inp, wr_minutes = None\<rparr>)
       (op_bind (op_for (insert_routing env (wc_tenant ctx) wid) (enumerate 0 (cw_ops inp))) (\<lambda>rops.
        let w = \<lparr>wo_id = wid, wo_number = rust_trim (cw_number inp), wo_product = cw_product inp,
              wo_qty = cw_qty inp, wo_state = WoCreated, wo_created_at = now, wo_released_at = None,
              wo_started_at = None, wo_completed_at = None, wo_cancelled_at = None,
              wo_hold_reason = None, wo_notes = cw_notes inp, wo_source_quote = cw_source_quote inp,
              wo_minutes = None\<rparr>
        in op_then (shop_append env ctx (WStorage ''audit append WorkOrderCreated'')
             (ShopEvent WorkOrderCreated)
             (wo_created_payload w (map rp_id rops) (as_operator_string (wc_actor ctx)) (cw_idem inp))
             (''create:'' @ cw_idem inp))
           (op_return (w, rops)))))))))))"

section \<open>Order transitions\<close>

record transition_inputs =
  ti_action :: wo_action
  ti_reason :: "string option"
  ti_source_event :: "string option"
  ti_idem :: string
  ti_minutes :: "rat option"

definition work_order_of_row :: "wo_row \<Rightarrow> wo_error + work_order" where
  "work_order_of_row w =
     and_then (map_err WStorage (wo_state_from_str (wr_state w))) (\<lambda>st.
       Inr \<lparr>wo_id = wr_id w, wo_number = wr_number w, wo_product = wr_product w, wo_qty = wr_qty w,
            wo_state = st, wo_created_at = wr_created_at w, wo_released_at = wr_released_at w,
            wo_started_at = wr_started_at w, wo_completed_at = wr_completed_at w,
            wo_cancelled_at = wr_cancelled_at w, wo_hold_reason = wr_hold_reason w,
            wo_notes = wr_notes w, wo_source_quote = wr_source_quote w, wo_minutes = wr_minutes w\<rparr>)"

definition read_work_order :: "string \<Rightarrow> string \<Rightarrow> shop_db \<Rightarrow> wo_error + work_order option" where
  "read_work_order t wid s =
     (case wo_by_id t wid s of
        None \<Rightarrow> Inr None
      | Some w \<Rightarrow> and_then (work_order_of_row w) (\<lambda>w. Inr (Some w)))"

fun wo_of_inventory_error :: "shop_env \<Rightarrow> inventory_error \<Rightarrow> wo_error" where
  "wo_of_inventory_error env (IDuplicateIdempotencyKey k) = WDuplicateIdempotencyKey k"
| "wo_of_inventory_error env (IProductNotFound p) = WProductNotFound p"
| "wo_of_inventory_error env (WrongSignForReason reason required got) =
     WValidation (''stock movement sign-violation: reason '' @ reason @ '' requires '' @
       required_sign_debug required @ '', got '' @ sh_dec_show env got)"
| "wo_of_inventory_error env (IStorage e) = WStorage e"

definition routing_op_payload ::
  "string \<Rightarrow> string \<Rightarrow> op_state \<Rightarrow> op_state \<Rightarrow> string \<Rightarrow> string \<Rightarrow> json" where
  "routing_op_payload rop wid from to act idem =
     JObj [(''routing_op_id'', JStr rop), (''wo_id'', JStr wid), (''from_state'', JStr (op_state_as_str from)),
           (''to_state'', JStr (op_state_as_str to)), (''actor'', JStr act), (''idempotency_key'', JStr idem)]"

definition emit_routing_op_state_changed_audit ::
  "shop_env \<Rightarrow> write_ctx \<Rightarrow> string \<Rightarrow> string \<Rightarrow> op_state \<Rightarrow> op_state \<Rightarrow> string \<Rightarrow> (shop_db, wo_error, unit) tx_op" where
  "emit_routing_op_state_changed_audit env ctx rop wid from to idem =
     shop_append env ctx (WStorage ''audit append RoutingOpStateChanged'') (ShopEvent RoutingOpStateChanged)
       (routing_op_payload rop wid from to (as_operator_string (wc_actor ctx)) idem) idem"

definition op_order :: "routing_row \<Rightarrow> int \<times> string" where
  "op_order r = (ro_sequence r, ro_id r)"

definition first_row :: "('r \<Rightarrow> 'k :: linorder) \<Rightarrow> 'r list \<Rightarrow> 'r option" where
  \<comment> \<open>\<open>ORDER BY key LIMIT 1\<close>\<close>
  "first_row k rs = (case sort_key k rs of [] \<Rightarrow> None | r # _ \<Rightarrow> Some r)"

definition activate_op :: "string \<Rightarrow> string \<Rightarrow> string \<Rightarrow> (shop_db, wo_error, unit) tx_op" where
  "activate_op t rop now =
     op_modify (\<lambda>s. s\<lparr>routings := update_where (\<lambda>r. ro_tenant r = t \<and> ro_id r = rop)
       (\<lambda>r. r\<lparr>ro_state := ''active'', ro_started_at := coalesce (ro_started_at r) (Some now)\<rparr>) (routings s)\<rparr>)"

definition cascade_first_pending_op_to_active ::
  "shop_env \<Rightarrow> write_ctx \<Rightarrow> string \<Rightarrow> string \<Rightarrow> (shop_db, wo_error, unit) tx_op" where
  "cascade_first_pending_op_to_active env ctx wid idem =
     op_bind (op_get (\<lambda>s. first_row op_order
       (filter (\<lambda>r. ro_tenant r = wc_tenant ctx \<and> ro_wo r = wid \<and> ro_state r = ''pending'') (routings s)))) (\<lambda>first.
       case first of
         None \<Rightarrow> op_return ()
       | Some r \<Rightarrow>
           op_bind (shop_now env) (\<lambda>now.
           op_then (activate_op (wc_tenant ctx) (ro_id r) now)
           (emit_routing_op_state_changed_audit env ctx (ro_id r) wid OpPending OpActive
              (idem @ '':release-cascade''))))"

definition release_inputs :: "string \<Rightarrow> string \<Rightarrow> bom_line \<Rightarrow> rat \<Rightarrow> movement_inputs" where
  "release_inputs wid idem l q =
     \<lparr>mi_product = bl_component l, mi_qty = - q, mi_reason = BomConsumption, mi_ref_kind = RefWorkOrder,
      mi_ref_id = Some wid, mi_notes = None, mi_idem = idem @ '':release:'' @ bl_id l\<rparr>"

definition stock_warning :: "shop_env \<Rightarrow> string \<Rightarrow> string \<Rightarrow> shop_db \<Rightarrow> string list" where
  "stock_warning env t c s =
     (case current_stock t c s of
        Inr (Some cur) \<Rightarrow>
          if cur < 0
          then [''component '' @ c @ '' stock is now '' @ sh_dec_show env cur @
                '' (allowed by ADR-0061 negative-stock policy)'']
          else []
      | _ \<Rightarrow> [])"

definition release_line ::
  "shop_env \<Rightarrow> write_ctx \<Rightarrow> string \<Rightarrow> rat \<Rightarrow> string \<Rightarrow> bom_line \<Rightarrow> (shop_db, wo_error, string list) tx_op" where
  "release_line env ctx wid qty idem l =
     op_bind (op_lift (ok_or WDecimalOverflowPanic (sh_dec_mul env (bl_qty l) qty))) (\<lambda>q.
     op_bind (op_map_err (wo_of_inventory_error env) (record_movement env ctx (release_inputs wid idem l q))) (\<lambda>_.
     op_get (stock_warning env (wc_tenant ctx) (bl_component l))))"

definition release_stock ::
  "shop_env \<Rightarrow> write_ctx \<Rightarrow> string \<Rightarrow> string \<Rightarrow> rat \<Rightarrow> string \<Rightarrow> (shop_db, wo_error, string list) tx_op" where
  "release_stock env ctx wid p qty idem =
     op_bind (op_get (list_active_bom_for_product (wc_tenant ctx) p)) (\<lambda>bom.
     op_then (op_require (bom \<noteq> []) (WNoActiveBomForProduct p))
     (op_bind (op_for (release_line env ctx wid qty idem) bom) (\<lambda>ws.
      op_then (cascade_first_pending_op_to_active env ctx wid idem)
      (op_return (concat ws)))))"

definition completion_inputs :: "string \<Rightarrow> string \<Rightarrow> string \<Rightarrow> rat \<Rightarrow> movement_inputs" where
  "completion_inputs wid idem p qty =
     \<lparr>mi_product = p, mi_qty = qty, mi_reason = WoCompletion, mi_ref_kind = RefWorkOrder,
      mi_ref_id = Some wid, mi_notes = None, mi_idem = idem @ '':complete''\<rparr>"

definition transition_stock ::
  "shop_env \<Rightarrow> write_ctx \<Rightarrow> wo_row \<Rightarrow> string \<Rightarrow> transition_inputs \<Rightarrow> (shop_db, wo_error, string list) tx_op" where
  "transition_stock env ctx w wid inp =
     (case ti_action inp of
        WoRelease \<Rightarrow> release_stock env ctx wid (wr_product w) (wr_qty w) (ti_idem inp)
      | WoComplete \<Rightarrow>
          op_bind (op_map_err (wo_of_inventory_error env)
            (record_movement env ctx (completion_inputs wid (ti_idem inp) (wr_product w) (wr_qty w)))) (\<lambda>_.
          op_return [])
      | _ \<Rightarrow> op_return [])"

fun join_with :: "string \<Rightarrow> string list \<Rightarrow> string" where
  "join_with sep [] = []"
| "join_with sep [x] = x"
| "join_with sep (x # y # zs) = x @ sep @ join_with sep (y # zs)"

definition live_qa_state :: "routing_row \<Rightarrow> shop_db \<Rightarrow> string" where
  \<comment> \<open>the state of the latest live inspection of an operation\<close>
  "live_qa_state r s =
     (case rev (sort_key (\<lambda>q. (qr_created_at q, qr_id q))
         (filter (\<lambda>q. qr_tenant q = ro_tenant r \<and> qr_op q = ro_id r \<and> qr_superseded_by q = None) (inspections s))) of
        [] \<Rightarrow> ''no inspection''
      | q # _ \<Rightarrow> qr_state q)"

definition blocking_qa_op_names :: "string \<Rightarrow> string \<Rightarrow> shop_db \<Rightarrow> string" where
  "blocking_qa_op_names t wid s =
     join_with '', '' (map (\<lambda>r. ''#'' @ show_int (ro_sequence r) @ '' '' @ ro_name r @ '' ('' @ live_qa_state r s @ '')'')
       (filter (\<lambda>r. live_qa_state r s \<noteq> ''passed'') (sort_key ro_sequence (ops_of_wo t wid s))))"

definition apply_transition :: "wo_state \<Rightarrow> string \<Rightarrow> transition_inputs \<Rightarrow> wo_row \<Rightarrow> wo_row" where
  "apply_transition new now inp w =
     w\<lparr>wr_state := wo_state_as_str new,
       wr_released_at := coalesce (wr_released_at w) (if new = WoReleased then Some now else None),
       wr_started_at := (if new = WoInProgress \<and> wr_started_at w = None then Some now else wr_started_at w),
       wr_completed_at := coalesce (wr_completed_at w) (if new = WoCompleted then Some now else None),
       wr_cancelled_at := coalesce (wr_cancelled_at w) (if new = WoCancelled then Some now else None),
       wr_hold_reason := (if new = WoOnHold then coalesce (ti_reason inp) (wr_hold_reason w) else None),
       wr_minutes := coalesce (if new = WoCompleted then ti_minutes inp else None) (wr_minutes w)\<rparr>"

definition wo_changed_payload :: "string \<Rightarrow> wo_state \<Rightarrow> wo_state \<Rightarrow> transition_inputs \<Rightarrow> string \<Rightarrow> json" where
  "wo_changed_payload wid from to inp act =
     JObj [(''wo_id'', JStr wid), (''from_state'', JStr (wo_state_as_str from)),
           (''to_state'', JStr (wo_state_as_str to)), (''reason'', json_opt (ti_reason inp)),
           (''actor'', JStr act), (''source_event_id'', json_opt (ti_source_event inp)),
           (''idempotency_key'', JStr (ti_idem inp))]"

definition transition_work_order ::
  "shop_env \<Rightarrow> write_ctx \<Rightarrow> string \<Rightarrow> transition_inputs \<Rightarrow> (shop_db, wo_error, work_order \<times> string list) tx_op" where
  "transition_work_order env ctx wid inp =
     op_then (op_require (\<not> is_blank (ti_idem inp)) (WValidation ''idempotency_key must be non-empty''))
     (op_bind (op_get (wo_by_id (wc_tenant ctx) wid)) (\<lambda>row.
      op_bind (op_lift (ok_or (WWorkOrderNotFound wid) row)) (\<lambda>w.
      op_bind (op_lift (map_err WStorage (wo_state_from_str (wr_state w)))) (\<lambda>cur.
      op_bind (op_lift (map_err WIllegalTransition (next_wo_state cur (ti_action inp)))) (\<lambda>new.
      op_bind (op_get (all_live_inspections_passed_for_wo (wc_tenant ctx) wid)) (\<lambda>gate.
      op_bind (op_get (blocking_qa_op_names (wc_tenant ctx) wid)) (\<lambda>blockers.
      op_then (op_require (ti_action inp = WoComplete \<longrightarrow> gate) (WCompletionBlockedByQa blockers))
      (op_bind (shop_now env) (\<lambda>now.
       op_bind (transition_stock env ctx w wid inp) (\<lambda>warnings.
       op_then (op_modify (\<lambda>s. s\<lparr>work_orders :=
         update_where (\<lambda>w. wr_tenant w = wc_tenant ctx \<and> wr_id w = wid) (apply_transition new now inp) (work_orders s)\<rparr>))
       (op_then (shop_append env ctx (WStorage ''audit append WorkOrderStateChanged'')
          (ShopEvent WorkOrderStateChanged)
          (wo_changed_payload wid cur new inp (as_operator_string (wc_actor ctx)))
          (''transition:'' @ wo_action_as_str (ti_action inp) @ '':'' @ ti_idem inp))
       (op_bind (op_get (read_work_order (wc_tenant ctx) wid)) (\<lambda>res.
        op_bind (op_lift res) (\<lambda>found.
        op_bind (op_lift (ok_or (WWorkOrderNotFound wid) found)) (\<lambda>wo.
        op_return (wo, warnings))))))))))))))))"

section \<open>Routing operations\<close>

record op_transition_inputs =
  oi_action :: op_action
  oi_source_event :: "string option"
  oi_idem :: string

record op_transition_outcome =
  oo_routing_op :: routing_op
  oo_next_activated :: "routing_op option"
  oo_qa_inspection :: string

definition routing_op_of_row :: "routing_row \<Rightarrow> string + routing_op" where
  "routing_op_of_row r =
     and_then (op_state_from_str (ro_state r)) (\<lambda>st.
       Inr \<lparr>rp_id = ro_id r, rp_wo = ro_wo r, rp_sequence = ro_sequence r, rp_name = ro_name r,
            rp_est_time = ro_est_time r, rp_est_cost = ro_est_cost r, rp_state = st,
            rp_started_at = ro_started_at r, rp_completed_at = ro_completed_at r\<rparr>)"

definition op_by_id :: "string \<Rightarrow> string \<Rightarrow> shop_db \<Rightarrow> routing_row option" where
  "op_by_id t rop s = select_one (\<lambda>r. ro_tenant r = t \<and> ro_id r = rop) (routings s)"

definition read_routing_op :: "string \<Rightarrow> string \<Rightarrow> shop_db \<Rightarrow> string + routing_op option" where
  "read_routing_op t rop s =
     (case op_by_id t rop s of
        None \<Rightarrow> Inr None
      | Some r \<Rightarrow> and_then (routing_op_of_row r) (\<lambda>p. Inr (Some p)))"

fun qa_state_debug :: "qa_state \<Rightarrow> string" where
  \<comment> \<open>the derived \<open>Debug\<close>\<close>
  "qa_state_debug QaPending = ''Pending''"
| "qa_state_debug QaPassed = ''Passed''"
| "qa_state_debug QaFailed = ''Failed''"
| "qa_state_debug QaReworking = ''Reworking''"
| "qa_state_debug QaDisposed = ''Disposed''"

fun wo_of_qa_error :: "qa_error \<Rightarrow> wo_error" where
  "wo_of_qa_error (QIllegalTransition e) = WIllegalQaTransition e"
| "wo_of_qa_error (QInspectionNotFound i) = WValidation (''QA: '' @ i)"
| "wo_of_qa_error (QAlreadySuperseded i) = WValidation (''QA inspection '' @ i @ '' superseded'')"
| "wo_of_qa_error (QInspectionAlreadyLive i) = WValidation (''QA: '' @ i)"
| "wo_of_qa_error (QStateRaced e a) =
     WValidation (''QA raced: expected from='' @ qa_state_debug e @ '', found='' @ qa_state_debug a)"
| "wo_of_qa_error (QDuplicateIdempotencyKey k) = WDuplicateIdempotencyKey k"
| "wo_of_qa_error (QValidation msg) = WValidation (''QA: '' @ msg)"
| "wo_of_qa_error (QStorage e) = WStorage e"

definition cascade_next_op ::
  "shop_env \<Rightarrow> write_ctx \<Rightarrow> string \<Rightarrow> int \<Rightarrow> string \<Rightarrow> string \<Rightarrow> (shop_db, wo_error, routing_op option) tx_op" where
  "cascade_next_op env ctx wid n now idem =
     op_bind (op_get (\<lambda>s. first_row op_order
       (filter (\<lambda>r. ro_tenant r = wc_tenant ctx \<and> ro_wo r = wid \<and> ro_state r = ''pending'' \<and> ro_sequence r > n)
         (routings s)))) (\<lambda>next_pending.
       case next_pending of
         None \<Rightarrow> op_return None
       | Some r \<Rightarrow>
           op_then (activate_op (wc_tenant ctx) (ro_id r) now)
           (op_then (emit_routing_op_state_changed_audit env ctx (ro_id r) wid OpPending OpActive (idem @ '':cascade''))
           (op_bind (op_get (read_routing_op (wc_tenant ctx) (ro_id r))) (\<lambda>res.
            op_lift (map_err WStorage res)))))"

definition transition_routing_op ::
  "shop_env \<Rightarrow> write_ctx \<Rightarrow> string \<Rightarrow> op_transition_inputs \<Rightarrow>
   (shop_db, wo_error, op_transition_outcome) tx_op" where
  "transition_routing_op env ctx rop inp =
     op_then (op_require (\<not> is_blank (oi_idem inp)) (WValidation ''idempotency_key must be non-empty''))
     (op_bind (op_get (op_by_id (wc_tenant ctx) rop)) (\<lambda>row.
      op_bind (op_lift (ok_or (WRoutingOpNotFound rop) row)) (\<lambda>r.
      op_bind (op_lift (map_err WStorage (op_state_from_str (ro_state r)))) (\<lambda>cur.
      op_bind (op_lift (map_err WIllegalOpTransition (next_routing_op_state cur (oi_action inp)))) (\<lambda>new.
      op_bind (shop_now env) (\<lambda>now.
      op_then (op_modify (\<lambda>s. s\<lparr>routings := update_where (\<lambda>r. ro_tenant r = wc_tenant ctx \<and> ro_id r = rop)
        (\<lambda>r. r\<lparr>ro_state := op_state_as_str new, ro_completed_at := coalesce (ro_completed_at r) (Some now)\<rparr>)
        (routings s)\<rparr>))
      (op_then (emit_routing_op_state_changed_audit env ctx rop (ro_wo r) cur new (oi_idem inp))
      (op_bind (op_map_err wo_of_qa_error
         (auto_create_inspection env ctx (ro_wo r) rop (oi_idem inp @ '':qa-create''))) (\<lambda>insp.
       op_bind (cascade_next_op env ctx (ro_wo r) (ro_sequence r) now (oi_idem inp)) (\<lambda>next_op.
       op_bind (op_get (read_routing_op (wc_tenant ctx) rop)) (\<lambda>res.
       op_bind (op_lift (map_err WStorage res)) (\<lambda>found.
       op_bind (op_lift (ok_or (WRoutingOpNotFound rop) found)) (\<lambda>updated.
       op_return \<lparr>oo_routing_op = updated, oo_next_activated = next_op, oo_qa_inspection = qi_id insp\<rparr>)))))))))))))"

section \<open>Automatic completion\<close>

datatype auto_complete_outcome = AutoCompleted string | NotApplicable | AutoBlocked string wo_state

definition try_auto_complete_wo ::
  "shop_env \<Rightarrow> write_ctx \<Rightarrow> string \<Rightarrow> string \<Rightarrow> string option \<Rightarrow> (shop_db, wo_error, auto_complete_outcome) tx_op" where
  "try_auto_complete_wo env ctx wid seed ev =
     op_bind (op_get (wo_by_id (wc_tenant ctx) wid)) (\<lambda>row.
       case row of
         None \<Rightarrow> op_return NotApplicable
       | Some w \<Rightarrow>
           op_bind (op_lift (map_err WStorage (wo_state_from_str (wr_state w)))) (\<lambda>cur.
           op_bind (op_get (all_live_inspections_passed_for_wo (wc_tenant ctx) wid)) (\<lambda>gate.
             if cur = WoCompleted then op_return NotApplicable
             else if \<not> gate then op_return NotApplicable
             else if cur \<noteq> WoInProgress then op_return (AutoBlocked wid cur)
             else op_bind (transition_work_order env ctx wid
                    \<lparr>ti_action = WoComplete,
                     ti_reason = Some ''auto-completed: all QA inspections passed'',
                     ti_source_event = ev, ti_idem = seed @ '':wo-auto-complete'', ti_minutes = None\<rparr>) (\<lambda>_.
                  op_return (AutoCompleted wid)))))"

section \<open>Reads\<close>

definition list_work_orders ::
  "string \<Rightarrow> wo_state option \<Rightarrow> nat \<Rightarrow> nat \<Rightarrow> shop_db \<Rightarrow> wo_error + work_order list" where
  "list_work_orders t f limit offset s =
     collect_res (map work_order_of_row
       (take limit (drop offset (rev (sort_key (\<lambda>w. (wr_created_at w, wr_id w))
         (filter (\<lambda>w. wr_tenant w = t \<and>
            (case f of None \<Rightarrow> True | Some st \<Rightarrow> wr_state w = wo_state_as_str st)) (work_orders s)))))))"

record wo_state_counts =
  wq_created :: nat
  wq_released :: nat
  wq_in_progress :: nat
  wq_completed :: nat
  wq_on_hold :: nat
  wq_cancelled :: nat

definition wo_count :: "string \<Rightarrow> shop_db \<Rightarrow> wo_state \<Rightarrow> nat" where
  "wo_count t s st =
     min (count_where (\<lambda>w. wr_tenant w = t \<and> wr_state w = wo_state_as_str st) (work_orders s)) u32_max"

definition count_work_orders_by_state :: "string \<Rightarrow> shop_db \<Rightarrow> string + wo_state_counts" where
  "count_work_orders_by_state t s =
     and_then (collect_res (map wo_state_from_str
        (remdups (map wr_state (filter (\<lambda>w. wr_tenant w = t) (work_orders s)))))) (\<lambda>_.
       Inr \<lparr>wq_created = wo_count t s WoCreated, wq_released = wo_count t s WoReleased,
            wq_in_progress = wo_count t s WoInProgress, wq_completed = wo_count t s WoCompleted,
            wq_on_hold = wo_count t s WoOnHold, wq_cancelled = wo_count t s WoCancelled\<rparr>)"

definition list_routing_ops_for_wo :: "string \<Rightarrow> string \<Rightarrow> shop_db \<Rightarrow> string + routing_op list" where
  "list_routing_ops_for_wo t wid s =
     collect_res (map routing_op_of_row (sort_key op_order (ops_of_wo t wid s)))"

section \<open>The stock invariant through every operation\<close>

lemma preserves_stock_emit [op_rules]:
  "preserves (stock_inv env ctx) (emit_routing_op_state_changed_audit env ctx rop wid a b idem)"
  unfolding emit_routing_op_state_changed_audit_def by (rule op_rules)

lemma preserves_stock_activate [op_rules]: "preserves (stock_inv env ctx) (activate_op t rop now)"
  unfolding activate_op_def by (intro op_rules) simp_all

lemma preserves_stock_transition_wo:
  "preserves (stock_inv env ctx) (transition_work_order env ctx wid inp)"
  unfolding transition_work_order_def transition_stock_def release_stock_def release_line_def
    cascade_first_pending_op_to_active_def
  by (cases "ti_action inp") (simp_all, (intro op_rules; simp)+)

lemma preserves_stock_transition_op:
  "preserves (stock_inv env ctx) (transition_routing_op env ctx rop inp)"
  unfolding transition_routing_op_def cascade_next_op_def
  by (intro op_rules preserves_stock_auto_create; simp)

lemma preserves_stock_auto_complete:
  "preserves (stock_inv env ctx) (try_auto_complete_wo env ctx wid seed ev)"
  unfolding try_auto_complete_wo_def
  by (intro op_rules preserves_stock_transition_wo)

lemma preserves_stock_create_wo: "preserves (stock_inv env ctx) (create_work_order env ctx inp)"
  unfolding create_work_order_def insert_wo_def insert_routing_def
  by (intro op_rules; simp)

lemma preserves_stock_replace_bom: "preserves (stock_inv env ctx) (replace_bom_for_product env t p ls)"
  unfolding replace_bom_for_product_def insert_bom_line_def
  by (intro op_rules; simp)

section \<open>Effects\<close>

lemma release_lines_record:
  assumes "op_for (release_line env ctx wid qty idem) ls s = Inr (ws, s')"
  shows "\<exists>qs ms. list_all2 (\<lambda>l q. sh_dec_mul env (bl_qty l) qty = Some q) ls qs \<and>
    op_for (record_movement env ctx) (map2 (release_inputs wid idem) ls qs) s = Inr (ms, s')"
  using assms
proof (induction ls arbitrary: s ws)
  case Nil
  then show ?case by simp
next
  case (Cons l ls)
  obtain w s1 ws1 where r: "release_line env ctx wid qty idem l s = Inr (w, s1)"
    "op_for (release_line env ctx wid qty idem) ls s1 = Inr (ws1, s')"
    using Cons.prems by (auto simp: op_simps)
  obtain q m where q: "sh_dec_mul env (bl_qty l) qty = Some q"
    "record_movement env ctx (release_inputs wid idem l q) s = Inr (m, s1)"
    using r(1) by (auto simp: release_line_def op_simps ok_or_eq_Inr)
  obtain qs ms where "list_all2 (\<lambda>l q. sh_dec_mul env (bl_qty l) qty = Some q) ls qs"
    "op_for (record_movement env ctx) (map2 (release_inputs wid idem) ls qs) s1 = Inr (ms, s')"
    using Cons.IH [OF r(2)] by blast
  with q show ?case
    by (intro exI [of _ "q # qs"] exI [of _ "m # ms"]) (auto simp: op_simps)
qed

lemma op_for_frame:
  assumes "op_for f xs s = Inr (ys, s')" and "\<And>x s y s'. f x s = Inr (y, s') \<Longrightarrow> g s' = g s"
  shows "g s' = g s"
  using assms(1)
proof (induction xs arbitrary: s ys)
  case (Cons x xs)
  then show ?case using assms(2) by (force simp: op_simps)
qed simp

lemma cascade_first_frame:
  assumes "cascade_first_pending_op_to_active env ctx wid idem s = Inr (u, s')"
  shows "movements s' = movements s" "products s' = products s" "work_orders s' = work_orders s"
    "inspections s' = inspections s" "boms s' = boms s"
proof -
  have "movements s' = movements s \<and> products s' = products s \<and> work_orders s' = work_orders s \<and>
      inspections s' = inspections s \<and> boms s' = boms s"
    using assms
    unfolding cascade_first_pending_op_to_active_def activate_op_def
      emit_routing_op_state_changed_audit_def
    by (auto simp: op_simps simp del: append.simps dest: shop_append_same split: option.splits)
  then show "movements s' = movements s" "products s' = products s" "work_orders s' = work_orders s"
    "inspections s' = inspections s" "boms s' = boms s" by auto
qed

lemma release_line_frame:
  assumes "release_line env ctx wid qty idem l s = Inr (w, s')"
  shows "work_orders s' = work_orders s" "inspections s' = inspections s" "boms s' = boms s"
  using assms by (auto simp: release_line_def op_simps dest: record_movement_frame)

lemma transition_stock_frame:
  assumes "transition_stock env ctx w wid inp s = Inr (ws, s')"
  shows "work_orders s' = work_orders s" "inspections s' = inspections s"
proof -
  have "work_orders s' = work_orders s \<and> inspections s' = inspections s"
  proof (cases "ti_action inp")
    case WoRelease
    then obtain wss s1 where
      "op_for (release_line env ctx wid (wr_qty w) (ti_idem inp))
         (list_active_bom_for_product (wc_tenant ctx) (wr_product w) s) s = Inr (wss, s1)"
      "cascade_first_pending_op_to_active env ctx wid (ti_idem inp) s1 = Inr ((), s')"
      using assms by (auto simp: transition_stock_def release_stock_def op_simps)
    then show ?thesis
      using op_for_frame [where g = work_orders] op_for_frame [where g = inspections]
        release_line_frame cascade_first_frame by metis
  next
    case WoComplete
    then show ?thesis
      using assms by (auto simp: transition_stock_def op_simps dest: record_movement_frame)
  qed (use assms in \<open>auto simp: transition_stock_def\<close>)
  then show "work_orders s' = work_orders s" "inspections s' = inspections s" by auto
qed

lemma transition_wo_Inr:
  assumes "transition_work_order env ctx wid inp s = Inr ((wo, ws), s')"
  obtains w cur new now s1 pl key where
    "wo_by_id (wc_tenant ctx) wid s = Some w" "wo_state_from_str (wr_state w) = Inr cur"
    "next_wo_state cur (ti_action inp) = Inr new"
    "ti_action inp = WoComplete \<Longrightarrow> all_live_inspections_passed_for_wo (wc_tenant ctx) wid s"
    "transition_stock env ctx w wid inp (s\<lparr>tick := Suc (tick s)\<rparr>) = Inr (ws, s1)"
    "shop_append env ctx (WStorage ''audit append WorkOrderStateChanged'') (ShopEvent WorkOrderStateChanged)
       pl key (s1\<lparr>work_orders := update_where (\<lambda>w. wr_tenant w = wc_tenant ctx \<and> wr_id w = wid)
         (apply_transition new now inp) (work_orders s1)\<rparr>) = Inr ((), s')"
    "read_work_order (wc_tenant ctx) wid s' = Inr (Some wo)"
  using assms unfolding transition_work_order_def
  by (clarsimp simp: op_simps ok_or_eq_Inr simp del: append.simps split: prod.splits)

lemma wo_by_id_Some: "wo_by_id t wid s = Some w \<Longrightarrow> w \<in> set (work_orders s) \<and> wr_tenant w = t \<and> wr_id w = wid"
  unfolding wo_by_id_def by (drule select_one_Some) simp

lemma work_order_of_row_fields:
  assumes "work_order_of_row w = Inr wo"
  shows "wo_id wo = wr_id w" "wo_state_from_str (wr_state w) = Inr (wo_state wo)"
    "wo_released_at wo = wr_released_at w" "wo_completed_at wo = wr_completed_at w"
    "wo_cancelled_at wo = wr_cancelled_at w" "wo_started_at wo = wr_started_at w"
  using assms unfolding work_order_of_row_def by (auto simp: res_simps)

text \<open>The order's row after a transition, and the order the operation returns.\<close>

lemma transition_wo_row:
  assumes "transition_work_order env ctx wid inp s = Inr ((wo, ws), s')"
    and "wo_by_id (wc_tenant ctx) wid s = Some w"
  shows "\<exists>cur now. wo_state_from_str (wr_state w) = Inr cur \<and>
    next_wo_state cur (ti_action inp) = Inr (wo_state wo) \<and>
    work_orders s' = update_where (\<lambda>w. wr_tenant w = wc_tenant ctx \<and> wr_id w = wid)
      (apply_transition (wo_state wo) now inp) (work_orders s) \<and>
    inspections s' = inspections s \<and> wo_id wo = wid \<and>
    work_order_of_row (apply_transition (wo_state wo) now inp w) = Inr wo"
  using assms(1)
proof (rule transition_wo_Inr)
  fix w' cur new now s1 pl key
  assume w': "wo_by_id (wc_tenant ctx) wid s = Some w'" "wo_state_from_str (wr_state w') = Inr cur"
    "next_wo_state cur (ti_action inp) = Inr new"
    and st: "transition_stock env ctx w' wid inp (s\<lparr>tick := Suc (tick s)\<rparr>) = Inr (ws, s1)"
    and app: "shop_append env ctx (WStorage ''audit append WorkOrderStateChanged'')
       (ShopEvent WorkOrderStateChanged)
       pl key (s1\<lparr>work_orders := update_where (\<lambda>w. wr_tenant w = wc_tenant ctx \<and> wr_id w = wid)
         (apply_transition new now inp) (work_orders s1)\<rparr>) = Inr ((), s')"
    and rd: "read_work_order (wc_tenant ctx) wid s' = Inr (Some wo)"
  have ww: "w' = w" using w'(1) assms(2) by simp
  have wos: "work_orders s' = update_where (\<lambda>w. wr_tenant w = wc_tenant ctx \<and> wr_id w = wid)
         (apply_transition new now inp) (work_orders s)" "inspections s' = inspections s"
    using shop_append_same [OF app] transition_stock_frame [OF st] by simp_all
  have "wo_by_id (wc_tenant ctx) wid s' = Some (apply_transition new now inp w)"
    using assms(2) wo_by_id_Some [OF assms(2)]
    by (simp add: wo_by_id_def wos select_one_update_where apply_transition_def)
  then have r: "work_order_of_row (apply_transition new now inp w) = Inr wo"
    using rd by (auto simp: read_work_order_def res_simps)
  have "wo_state wo = new" "wo_id wo = wid"
    using work_order_of_row_fields(1,2) [OF r] wo_by_id_Some [OF assms(2)]
    by (simp_all add: apply_transition_def wo_state_codec.from_as)
  then show ?thesis using w'(2,3) ww wos r by auto
qed

lemma select_one_update_other:
  "(\<And>r. p r \<Longrightarrow> \<not> q (f r) \<and> \<not> q r) \<Longrightarrow> select_one q (update_where p f t) = select_one q t"
  by (induction t) (auto simp: update_where_def)

lemma work_order_of_row_hold: "work_order_of_row w = Inr wo \<Longrightarrow> wo_hold_reason wo = wr_hold_reason w"
  unfolding work_order_of_row_def by (auto simp: res_simps)


lemma stock_inv_release_lines:
  assumes "stock_inv env ctx s" and "shop_ok env"
    and "op_for (release_line env ctx wid qty idem) ls s = Inr (ws, s')"
    and "six_dec qty" and "\<forall>l \<in> set ls. six_dec (bl_qty l) \<and> six_dec (bl_qty l * qty) \<and> \<bar>bl_qty l * qty\<bar> < 2 ^ 40"
  shows "movement_sum (wc_tenant ctx) p s' = movement_sum (wc_tenant ctx) p s -
    sum_list (map (\<lambda>l. bl_qty l * qty) (filter (\<lambda>l. bl_component l = p) ls))"
proof -
  obtain qs ms where qs: "list_all2 (\<lambda>l q. sh_dec_mul env (bl_qty l) qty = Some q) ls qs"
    and run: "op_for (record_movement env ctx) (map2 (release_inputs wid idem) ls qs) s = Inr (ms, s')"
    using release_lines_record [OF assms(3)] by blast
  have "qs = map (\<lambda>l. bl_qty l * qty) ls"
    using qs assms(5)
  proof (induction rule: list_all2_induct)
    case (Cons l ls q qs)
    then have "q = bl_qty l * qty" using assms(2,4) by (auto simp: shop_ok_def)
    with Cons show ?case by simp
  qed simp
  then have inputs: "map2 (release_inputs wid idem) ls qs = map (\<lambda>l. release_inputs wid idem l (bl_qty l * qty)) ls"
    by (induction ls arbitrary: qs) simp_all
  have "\<forall>i \<in> set (map2 (release_inputs wid idem) ls qs). six_dec (mi_qty i)"
    unfolding inputs using assms(5) by (auto simp: release_inputs_def intro: six_dec_minus)
  moreover have "(\<Sum>l\<leftarrow>xs. - (bl_qty l * qty)) = - (\<Sum>l\<leftarrow>xs. bl_qty l * qty)" for xs
    by (induction xs) simp_all
  ultimately show ?thesis
    using stock.record_all [OF assms(1) run, of p] unfolding inputs
    by (simp add: filter_map o_def release_inputs_def)
qed

lemma transition_release:
  assumes "transition_work_order env ctx wid inp s = Inr ((wo, ws), s')" and "ti_action inp = WoRelease"
    and "wo_by_id (wc_tenant ctx) wid s = Some w"
  obtains wss s1 s2 s3 where
    "list_active_bom_for_product (wc_tenant ctx) (wr_product w) s \<noteq> []"
    "s1 = s\<lparr>tick := Suc (tick s)\<rparr>"
    "op_for (release_line env ctx wid (wr_qty w) (ti_idem inp))
       (list_active_bom_for_product (wc_tenant ctx) (wr_product w) s) s1 = Inr (wss, s2)"
    "cascade_first_pending_op_to_active env ctx wid (ti_idem inp) s2 = Inr ((), s3)"
    "movements s' = movements s3" "routings s' = routings s3"
  using assms(1)
proof (rule transition_wo_Inr)
  fix w' cur new now s3 pl key
  assume w': "wo_by_id (wc_tenant ctx) wid s = Some w'"
    and st: "transition_stock env ctx w' wid inp (s\<lparr>tick := Suc (tick s)\<rparr>) = Inr (ws, s3)"
    and app: "shop_append env ctx (WStorage ''audit append WorkOrderStateChanged'')
       (ShopEvent WorkOrderStateChanged)
       pl key (s3\<lparr>work_orders := update_where (\<lambda>w. wr_tenant w = wc_tenant ctx \<and> wr_id w = wid)
         (apply_transition new now inp) (work_orders s3)\<rparr>) = Inr ((), s')"
  have ww: "w' = w" using w' assms(3) by simp
  have same: "movements s' = movements s3" "routings s' = routings s3"
    using shop_append_same [OF app] by simp_all
  have bom: "list_active_bom_for_product t q (s\<lparr>tick := n\<rparr>) = list_active_bom_for_product t q s" for t q n
    by (simp add: list_active_bom_for_product_def)
  from st obtain wss s2 where
    "list_active_bom_for_product (wc_tenant ctx) (wr_product w) s \<noteq> []"
    "op_for (release_line env ctx wid (wr_qty w) (ti_idem inp))
       (list_active_bom_for_product (wc_tenant ctx) (wr_product w) s) (s\<lparr>tick := Suc (tick s)\<rparr>) = Inr (wss, s2)"
    "cascade_first_pending_op_to_active env ctx wid (ti_idem inp) s2 = Inr ((), s3)"
    unfolding ww by (auto simp: transition_stock_def assms(2) release_stock_def op_simps bom)
  then show thesis using that same by blast
qed

lemma release_line_routings: "release_line env ctx wid qty idem l s = Inr (w, s') \<Longrightarrow> routings s' = routings s"
  by (auto simp: release_line_def op_simps dest: record_movement_frame)

definition activated :: "string \<Rightarrow> routing_row option \<Rightarrow> string \<Rightarrow> routing_row list \<Rightarrow> routing_row list" where
  "activated t first now rs =
     (case first of
        None \<Rightarrow> rs
      | Some r \<Rightarrow> update_where (\<lambda>x. ro_tenant x = t \<and> ro_id x = ro_id r)
          (\<lambda>x. x\<lparr>ro_state := ''active'', ro_started_at := coalesce (ro_started_at x) (Some now)\<rparr>) rs)"

lemma cascade_first_routings:
  assumes "cascade_first_pending_op_to_active env ctx wid idem s = Inr (u, s')"
  shows "\<exists>now. routings s' = activated (wc_tenant ctx)
    (first_row op_order (filter (\<lambda>r. ro_tenant r = wc_tenant ctx \<and> ro_wo r = wid \<and> ro_state r = ''pending'')
       (routings s))) now (routings s)"
  using assms
  unfolding cascade_first_pending_op_to_active_def activate_op_def emit_routing_op_state_changed_audit_def
  by (auto simp: op_simps activated_def simp del: append.simps dest!: shop_append_same(3) split: option.splits)


section \<open>When a transition succeeds\<close>

lemma transition_total:
  assumes "\<not> is_blank (ti_idem inp)" and "wo_by_id (wc_tenant ctx) wid s = Some w"
    and "wo_state_from_str (wr_state w) = Inr cur" and "next_wo_state cur (ti_action inp) = Inr new"
    and "ti_action inp = WoComplete \<Longrightarrow> all_live_inspections_passed_for_wo (wc_tenant ctx) wid s"
    and st: "transition_stock env ctx w wid inp (s\<lparr>tick := Suc (tick s)\<rparr>) = Inr (ws, s1)"
    and app: "\<And>(err :: wo_error) k pl key s2. shop_ledger s2 = shop_ledger s1 \<Longrightarrow>
      \<exists>s3. shop_append env ctx err k pl key s2 = Inr ((), s3)"
  shows "\<exists>wo s'. transition_work_order env ctx wid inp s = Inr ((wo, ws), s')"
proof -
  let ?now = "rfc3339_format (sh_ledger env) (sup_now (sh_time env) (tick s))"
  let ?s2 = "s1\<lparr>work_orders := update_where (\<lambda>w. wr_tenant w = wc_tenant ctx \<and> wr_id w = wid)
    (apply_transition new ?now inp) (work_orders s1)\<rparr>"
  have "shop_ledger ?s2 = shop_ledger s1" by simp
  from app [OF this] obtain s3 where s3: "shop_append env ctx (WStorage ''audit append WorkOrderStateChanged'')
      (ShopEvent WorkOrderStateChanged) (wo_changed_payload wid cur new inp (as_operator_string (wc_actor ctx)))
      (''transition:'' @ wo_action_as_str (ti_action inp) @ '':'' @ ti_idem inp) ?s2 = Inr ((), s3)"
    by blast
  have "work_orders s3 = work_orders ?s2" "work_orders s1 = work_orders s"
    using shop_append_same [OF s3] transition_stock_frame [OF st] by simp_all
  then have "wo_by_id (wc_tenant ctx) wid s3 = Some (apply_transition new ?now inp w)"
    using assms(2) wo_by_id_Some [OF assms(2)]
    by (simp add: wo_by_id_def select_one_update_where apply_transition_def)
  then obtain wo where "read_work_order (wc_tenant ctx) wid s3 = Inr (Some wo)"
    by (simp add: read_work_order_def work_order_of_row_def apply_transition_def wo_state_codec.from_as)
  then have "transition_work_order env ctx wid inp s = Inr ((wo, ws), s3)"
    unfolding transition_work_order_def using assms(1-5) st s3
    by (auto simp: op_simps ok_or_eq_Inr simp del: append.simps)
  then show ?thesis by blast
qed

section \<open>The effects of completing an operation\<close>

lemma auto_create_frame:
  assumes "auto_create_inspection env ctx wo rop idem s = Inr (i, s')"
  shows "routings s' = routings s" "work_orders s' = work_orders s" "movements s' = movements s"
    "products s' = products s"
  using assms by (auto elim!: auto_create_Inr)

lemma cascade_next_effect:
  assumes "cascade_next_op env ctx wid n now idem s = Inr (nxt, s')"
  defines "first \<equiv> first_row op_order (filter (\<lambda>r. ro_tenant r = wc_tenant ctx \<and> ro_wo r = wid \<and>
    ro_state r = ''pending'' \<and> ro_sequence r > n) (routings s))"
  shows "routings s' = activated (wc_tenant ctx) first now (routings s)"
    and "inspections s' = inspections s" and "movements s' = movements s" and "work_orders s' = work_orders s"
    and "first = None \<Longrightarrow> nxt = None"
  using assms(1) unfolding cascade_next_op_def activate_op_def emit_routing_op_state_changed_audit_def
    first_def
  by (auto simp: op_simps activated_def simp del: append.simps dest: shop_append_same split: option.splits)

lemma transition_op_Inr:
  assumes "transition_routing_op env ctx rop inp s = Inr (out, s')"
  obtains r cur new now s1 insp s2 s3 where
    "op_by_id (wc_tenant ctx) rop s = Some r" "op_state_from_str (ro_state r) = Inr cur"
    "next_routing_op_state cur (oi_action inp) = Inr new"
    "routings s1 = update_where (\<lambda>r. ro_tenant r = wc_tenant ctx \<and> ro_id r = rop)
        (\<lambda>r. r\<lparr>ro_state := op_state_as_str new, ro_completed_at := coalesce (ro_completed_at r) (Some now)\<rparr>)
        (routings s)"
    "inspections s1 = inspections s" "movements s1 = movements s" "work_orders s1 = work_orders s"
    "auto_create_inspection env ctx (ro_wo r) rop (oi_idem inp @ '':qa-create'') s1 = Inr (insp, s2)"
    "cascade_next_op env ctx (ro_wo r) (ro_sequence r) now (oi_idem inp) s2 = Inr (oo_next_activated out, s')"
    "oo_qa_inspection out = qi_id insp"
proof -
  from assms obtain r cur new now s0 s1 insp s2 where
    a: "op_by_id (wc_tenant ctx) rop s = Some r" "op_state_from_str (ro_state r) = Inr cur"
      "next_routing_op_state cur (oi_action inp) = Inr new"
    and app: "emit_routing_op_state_changed_audit env ctx rop (ro_wo r) cur new (oi_idem inp)
       (s\<lparr>tick := Suc (tick s), routings := update_where (\<lambda>r. ro_tenant r = wc_tenant ctx \<and> ro_id r = rop)
        (\<lambda>r. r\<lparr>ro_state := op_state_as_str new, ro_completed_at := coalesce (ro_completed_at r) (Some now)\<rparr>)
        (routings s)\<rparr>) = Inr ((), s1)"
    and b: "auto_create_inspection env ctx (ro_wo r) rop (oi_idem inp @ '':qa-create'') s1 = Inr (insp, s2)"
      "cascade_next_op env ctx (ro_wo r) (ro_sequence r) now (oi_idem inp) s2 = Inr (oo_next_activated out, s')"
      "oo_qa_inspection out = qi_id insp"
    unfolding transition_routing_op_def
    by (clarsimp simp: op_simps ok_or_eq_Inr simp del: append.simps)
  show thesis
    using shop_append_same [OF app [unfolded emit_routing_op_state_changed_audit_def]]
    by (intro that [OF a _ _ _ _ b]) simp_all
qed

end
