(* ===== verification/Export_Control.thy ===== *)
theory Export_Control
  imports Prelude
begin

text \<open>
  The export-control vocabulary and rules of crates/aberp-compliance (export_control/mod.rs): what
  an item is classified as, what a party screened to, which decisions block an export, and the shape
  of an ECCN. The backend that answers is a trait: the record \<open>export_provider\<close> holds its
  methods, and \<open>mock_provider\<close> is the implementation the repository ships.
\<close>

datatype jurisdiction = Itar | Ear | Ear99 | NotControlled | JurisdictionUnknown

fun jurisdiction_as_str :: "jurisdiction \<Rightarrow> string" where
  "jurisdiction_as_str Itar = ''ITAR''"
| "jurisdiction_as_str Ear = ''EAR''"
| "jurisdiction_as_str Ear99 = ''EAR99''"
| "jurisdiction_as_str NotControlled = ''NOT_CONTROLLED''"
| "jurisdiction_as_str JurisdictionUnknown = ''UNKNOWN''"

definition jurisdiction_from_str :: "string \<Rightarrow> string + jurisdiction" where
  "jurisdiction_from_str s =
    (if s = ''ITAR'' then Inr Itar
     else if s = ''EAR'' then Inr Ear
     else if s = ''EAR99'' then Inr Ear99
     else if s = ''NOT_CONTROLLED'' then Inr NotControlled
     else if s = ''UNKNOWN'' then Inr JurisdictionUnknown
     else Inl ''unknown Jurisdiction storage string'')"

interpretation jurisdiction_codec: storage_codec jurisdiction_as_str jurisdiction_from_str
proof
  show "jurisdiction_from_str (jurisdiction_as_str x) = Inr x" for x
    by (cases x) (simp_all add: jurisdiction_from_str_def)
  show "jurisdiction_as_str x = s" if "jurisdiction_from_str s = Inr x" for s x
    using that by (auto simp: jurisdiction_from_str_def split: if_splits)
qed

datatype export_classification =
  Eccn string | UsmlCategory string | ClassEar99 | NotClassified | ClassPending

fun classification_jurisdiction :: "export_classification \<Rightarrow> jurisdiction" where
  "classification_jurisdiction (Eccn _) = Ear"
| "classification_jurisdiction (UsmlCategory _) = Itar"
| "classification_jurisdiction ClassEar99 = Ear99"
| "classification_jurisdiction NotClassified = JurisdictionUnknown"
| "classification_jurisdiction ClassPending = JurisdictionUnknown"

fun eccn_of :: "export_classification \<Rightarrow> string option" where
  "eccn_of (Eccn code) = Some code"
| "eccn_of ClassEar99 = Some ''EAR99''"
| "eccn_of _ = None"

fun usml_category_of :: "export_classification \<Rightarrow> string option" where
  "usml_category_of (UsmlCategory cat) = Some cat"
| "usml_category_of _ = None"

datatype access_decision = Granted | DecisionRestricted | DecisionDenied | NotDetermined

fun access_decision_as_str :: "access_decision \<Rightarrow> string" where
  "access_decision_as_str Granted = ''granted''"
| "access_decision_as_str DecisionRestricted = ''restricted''"
| "access_decision_as_str DecisionDenied = ''denied''"
| "access_decision_as_str NotDetermined = ''not_determined''"

definition access_decision_from_str :: "string \<Rightarrow> string + access_decision" where
  "access_decision_from_str s =
    (if s = ''granted'' then Inr Granted
     else if s = ''restricted'' then Inr DecisionRestricted
     else if s = ''denied'' then Inr DecisionDenied
     else if s = ''not_determined'' then Inr NotDetermined
     else Inl ''unknown AccessDecision storage string'')"

interpretation access_codec: storage_codec access_decision_as_str access_decision_from_str
proof
  show "access_decision_from_str (access_decision_as_str x) = Inr x" for x
    by (cases x) (simp_all add: access_decision_from_str_def)
  show "access_decision_as_str x = s" if "access_decision_from_str s = Inr x" for s x
    using that by (auto simp: access_decision_from_str_def split: if_splits)
qed

definition blocks_export :: "access_decision \<Rightarrow> bool" where
  "blocks_export d \<longleftrightarrow> d = DecisionRestricted \<or> d = DecisionDenied"

datatype screening_result = ScreenClear | ScreenRestricted string | ScreenDenied string | NotScreened

fun screening_decision :: "screening_result \<Rightarrow> access_decision" where
  "screening_decision ScreenClear = Granted"
| "screening_decision (ScreenRestricted _) = DecisionRestricted"
| "screening_decision (ScreenDenied _) = DecisionDenied"
| "screening_decision NotScreened = NotDetermined"

fun screening_reason :: "screening_result \<Rightarrow> string" where
  "screening_reason ScreenClear = ''denied-party screening: clear''"
| "screening_reason (ScreenRestricted why) = ''denied-party screening: restricted ('' @ why @ '')''"
| "screening_reason (ScreenDenied why) = ''denied-party screening: denied ('' @ why @ '')''"
| "screening_reason NotScreened =
     ''no denied-party screening was performed '' @ [char_of (226 :: nat), char_of (128 :: nat), char_of (148 :: nat)] @
     '' no screening backend is configured''"

definition is_ascii_digit :: "char \<Rightarrow> bool" where
  "is_ascii_digit c \<longleftrightarrow> 48 \<le> (of_char c :: nat) \<and> (of_char c :: nat) \<le> 57"

definition validate_eccn :: "string \<Rightarrow> string + unit" where
  \<comment> \<open>on the bytes of the code; the error is the refused code\<close>
  "validate_eccn s =
     (if s = ''EAR99'' then Inr ()
      else if length s = 5 \<and> is_ascii_digit (s ! 0) \<and>
              65 \<le> (of_char (s ! 1) :: nat) \<and> (of_char (s ! 1) :: nat) \<le> 69 \<and>
              is_ascii_digit (s ! 2) \<and> is_ascii_digit (s ! 3) \<and> is_ascii_digit (s ! 4)
      then Inr ()
      else Inl s)"

record party_ref =
  pty_name :: string
  pty_country :: "string option"

datatype export_error = NotConfigured | BackendUnavailable string

fun export_error_text :: "export_error \<Rightarrow> string" where
  "export_error_text NotConfigured = ''export-control backend not configured''"
| "export_error_text (BackendUnavailable m) = ''export-control backend unavailable: '' @ m"

record export_provider =
  xp_name :: string
  xp_classify :: "string \<Rightarrow> export_error + export_classification"
  xp_screen :: "party_ref \<Rightarrow> export_error + screening_result"

definition mock_provider :: export_provider where
  "mock_provider = \<lparr>xp_name = ''mock'', xp_classify = (\<lambda>_. Inr NotClassified),
     xp_screen = (\<lambda>_. Inr NotScreened)\<rparr>"

lemma blocks_exportE: "blocks_export (screening_decision r) \<longleftrightarrow> (\<exists>why. r = ScreenRestricted why \<or> r = ScreenDenied why)"
  by (cases r) (auto simp: blocks_export_def)

end
