(* ===== verification/Dispatch.thy ===== *)
theory Dispatch
  imports Work_Orders Export_Control
begin

text \<open>
  Dispatches (crates/aberp-dispatch: types.rs, state.rs, error.rs, audit.rs, repository.rs): the
  draft against a completed work order, the shipment with its export-control gate, stock movement,
  invoice draft and bound documents in one transaction, the cancellation, and the reads. The traits
  the caller injects (invoice spawner, document binder, export provider) are fields of the record
  \<open>ship_ports\<close>; the partners table, which the application owns, is a list of rows.
\<close>

section \<open>Vocabulary\<close>

datatype dispatch_state = Drafted | Shipped | DspCancelled

fun dispatch_state_as_str :: "dispatch_state \<Rightarrow> string" where
  "dispatch_state_as_str Drafted = ''drafted''"
| "dispatch_state_as_str Shipped = ''shipped''"
| "dispatch_state_as_str DspCancelled = ''cancelled''"

definition dispatch_state_from_str :: "string \<Rightarrow> string + dispatch_state" where
  "dispatch_state_from_str s =
    (if s = ''drafted'' then Inr Drafted
     else if s = ''shipped'' then Inr Shipped
     else if s = ''cancelled'' then Inr DspCancelled
     else Inl ''unknown DispatchState storage string'')"

interpretation dispatch_state_codec: storage_codec dispatch_state_as_str dispatch_state_from_str
proof
  show "dispatch_state_from_str (dispatch_state_as_str x) = Inr x" for x
    by (cases x) (simp_all add: dispatch_state_from_str_def)
  show "dispatch_state_as_str x = s" if "dispatch_state_from_str s = Inr x" for s x
    using that by (auto simp: dispatch_state_from_str_def split: if_splits)
qed

definition dispatch_is_terminal :: "dispatch_state \<Rightarrow> bool" where
  "dispatch_is_terminal s \<longleftrightarrow> s = Shipped \<or> s = DspCancelled"

datatype carrier_kind = SelfDelivery | CustomerPickup | MagyarPosta | Gls | Dpd | Foxpost | OtherCarrier

fun carrier_as_str :: "carrier_kind \<Rightarrow> string" where
  "carrier_as_str SelfDelivery = ''self_delivery''"
| "carrier_as_str CustomerPickup = ''customer_pickup''"
| "carrier_as_str MagyarPosta = ''magyar_posta''"
| "carrier_as_str Gls = ''gls''"
| "carrier_as_str Dpd = ''dpd''"
| "carrier_as_str Foxpost = ''foxpost''"
| "carrier_as_str OtherCarrier = ''other''"

definition carrier_from_str :: "string \<Rightarrow> string + carrier_kind" where
  "carrier_from_str s =
    (if s = ''self_delivery'' then Inr SelfDelivery
     else if s = ''customer_pickup'' then Inr CustomerPickup
     else if s = ''magyar_posta'' then Inr MagyarPosta
     else if s = ''gls'' then Inr Gls
     else if s = ''dpd'' then Inr Dpd
     else if s = ''foxpost'' then Inr Foxpost
     else if s = ''other'' then Inr OtherCarrier
     else Inl ''unknown CarrierKind storage string'')"

interpretation carrier_codec: storage_codec carrier_as_str carrier_from_str
proof
  show "carrier_from_str (carrier_as_str x) = Inr x" for x
    by (cases x) (simp_all add: carrier_from_str_def)
  show "carrier_as_str x = s" if "carrier_from_str s = Inr x" for s x
    using that by (auto simp: carrier_from_str_def split: if_splits)
qed

datatype dispatch_action = DspShip | DspCancel

fun next_dispatch_state :: "dispatch_state \<Rightarrow> dispatch_action \<Rightarrow> (dispatch_state \<times> dispatch_action) + dispatch_state" where
  "next_dispatch_state Drafted DspShip = Inr Shipped"
| "next_dispatch_state Drafted DspCancel = Inr DspCancelled"
| "next_dispatch_state from action = Inl (from, action)"

interpretation dispatch_cycle: lifecycle next_dispatch_state dispatch_is_terminal
proof
  show "next_dispatch_state s a \<noteq> Inr t" if "dispatch_is_terminal s" for s a t
    using that by (auto simp: dispatch_is_terminal_def)
  show "\<exists>a t. next_dispatch_state s a = Inr t" if "\<not> dispatch_is_terminal s" for s
  proof -
    have "next_dispatch_state s DspShip = Inr Shipped"
      using that by (cases s) (simp_all add: dispatch_is_terminal_def)
    then show ?thesis by blast
  qed
qed

fun_cases next_dispatch_state_cases: "next_dispatch_state s a = Inr t"

text \<open>The conversion from \<open>DispatchStateError\<close> renders the refused edge; here the edge itself is kept.\<close>

datatype dispatch_error =
    DIllegalTransition "dispatch_state \<times> dispatch_action"
  | DDispatchNotFound string
  | DWorkOrderNotEligible string string
  | DWorkOrderAlreadyDispatched string string
  | DWorkOrderNotFound string
  | DPartnerNotFound string
  | DDuplicateIdempotencyKey string
  | DValidation string
  | DInvoiceSpawnFailed string
  | DShipmentDocumentBindFailed string
  | DExportControlDenied string string string
  | DExportControlUnavailable string
  | DStorage string

section \<open>Rows and ports\<close>

record dispatch =
  dp_id :: string
  dp_wo :: string
  dp_partner :: string
  dp_state :: dispatch_state
  dp_created_at :: string
  dp_shipped_at :: "string option"
  dp_cancelled_at :: "string option"
  dp_carrier :: "carrier_kind option"
  dp_tracking :: "string option"
  dp_invoice :: "string option"
  dp_notes :: "string option"

definition parse_dispatch_row :: "dispatch_row \<Rightarrow> string + dispatch" where
  "parse_dispatch_row r =
     and_then (dispatch_state_from_str (dr_state r)) (\<lambda>st.
     and_then (case dr_carrier r of
                 Some c \<Rightarrow> and_then (carrier_from_str c) (\<lambda>k. Inr (Some k))
               | None \<Rightarrow> Inr None) (\<lambda>carrier.
       Inr \<lparr>dp_id = dr_id r, dp_wo = dr_wo r, dp_partner = dr_partner r, dp_state = st,
            dp_created_at = dr_created_at r, dp_shipped_at = dr_shipped_at r,
            dp_cancelled_at = dr_cancelled_at r, dp_carrier = carrier, dp_tracking = dr_tracking r,
            dp_invoice = dr_invoice r, dp_notes = dr_notes r\<rparr>))"

definition dispatch_by_id :: "string \<Rightarrow> string \<Rightarrow> shop_db \<Rightarrow> dispatch_row option" where
  "dispatch_by_id t d s = select_one (\<lambda>r. dr_tenant r = t \<and> dr_id r = d) (dispatches s)"

definition read_dispatch_in_tx :: "string \<Rightarrow> string \<Rightarrow> shop_db \<Rightarrow> dispatch_error + dispatch option" where
  "read_dispatch_in_tx t d s =
     (case dispatch_by_id t d s of
        None \<Rightarrow> Inr None
      | Some r \<Rightarrow> and_then (map_err DStorage (parse_dispatch_row r)) (\<lambda>x. Inr (Some x)))"

record partner_row =
  pa_id :: string
  pa_tenant :: string
  pa_deleted_at :: "string option"

text \<open>
  \<open>sp_parse_ns\<close> is the RFC 3339 parser on a trimmed stamp, in nanoseconds (Left its error
  text), \<open>sp_debug\<close> the \<open>Debug\<close> rendering of a string.
\<close>

record ship_ports =
  sp_spawn :: "dispatch \<Rightarrow> string \<Rightarrow> rat \<Rightarrow> string \<Rightarrow> (shop_db, string, string option) tx_op"
  sp_bind :: "string \<Rightarrow> string \<Rightarrow> string \<Rightarrow> (shop_db, string, string list) tx_op"
  sp_provider :: export_provider
  sp_recipient :: party_ref
  sp_exporter :: string
  sp_operator :: string
  sp_parse_ns :: "string \<Rightarrow> string + int"
  sp_debug :: "string \<Rightarrow> string"

definition noop_spawner :: "dispatch \<Rightarrow> string \<Rightarrow> rat \<Rightarrow> string \<Rightarrow> (shop_db, string, string option) tx_op" where
  "noop_spawner d p q k = op_return None"

definition noop_binder :: "string \<Rightarrow> string \<Rightarrow> string \<Rightarrow> (shop_db, string, string list) tx_op" where
  "noop_binder t w d = op_return []"

definition ms_of_nanos :: "int \<Rightarrow> int" where
  \<comment> \<open>the \<open>i128\<close> quotient truncates, \<open>as i64\<close> wraps\<close>
  "ms_of_nanos ns = signed_take_bit 63 (sgn ns * (\<bar>ns\<bar> div 1000000))"

definition rfc3339_to_epoch_ms :: "ship_ports \<Rightarrow> string \<Rightarrow> dispatch_error + int" where
  "rfc3339_to_epoch_ms ports s =
     (case sp_parse_ns ports (rust_trim s) of
        Inl e \<Rightarrow> Inl (DValidation (''export audit stamp '' @ sp_debug ports s @ '' is not RFC3339: '' @ e))
      | Inr ns \<Rightarrow> Inr (ms_of_nanos ns))"

definition ascii_upper :: "char \<Rightarrow> char" where
  "ascii_upper c = (if 97 \<le> (of_char c :: nat) \<and> (of_char c :: nat) \<le> 122
                    then char_of ((of_char c :: nat) - 32) else c)"

definition render_recipient_country :: "party_ref \<Rightarrow> string" where
  "render_recipient_country p =
     (case pty_country p of None \<Rightarrow> [] | Some c \<Rightarrow> map ascii_upper (rust_trim c))"

section \<open>Creating a dispatch\<close>

record create_dispatch_inputs =
  cd_wo :: string
  cd_partner :: string
  cd_notes :: "string option"
  cd_idem :: string

definition dispatch_created_payload :: "string \<Rightarrow> create_dispatch_inputs \<Rightarrow> string \<Rightarrow> json" where
  "dispatch_created_payload did inp act =
     JObj [(''dsp_id'', JStr did), (''wo_id'', JStr (cd_wo inp)), (''partner_id'', JStr (cd_partner inp)),
           (''actor'', JStr act), (''idempotency_key'', JStr (cd_idem inp))]"

definition check_create_dispatch :: "create_dispatch_inputs \<Rightarrow> dispatch_error + unit" where
  "check_create_dispatch inp =
     (if is_blank (cd_idem inp) then Inl (DValidation ''idempotency_key must be non-empty'')
      else if is_blank (cd_wo inp) then Inl (DValidation ''wo_id must be non-empty'')
      else if is_blank (cd_partner inp) then Inl (DValidation ''partner_id must be non-empty'')
      else Inr ())"

definition partner_live :: "string \<Rightarrow> string \<Rightarrow> partner_row \<Rightarrow> bool" where
  "partner_live t p r \<longleftrightarrow> pa_tenant r = t \<and> pa_id r = p \<and> pa_deleted_at r = None"

definition insert_dispatch :: "dispatch_row \<Rightarrow> (shop_db, dispatch_error, unit) tx_op" where
  "insert_dispatch row =
     op_bind (op_get dispatches) (\<lambda>ds.
     op_then (op_require (\<not> exists_row (\<lambda>d. dr_id d = dr_id row) ds) (DStorage ''INSERT dispatches''))
     (op_modify (\<lambda>s. s\<lparr>dispatches := dispatches s @ [row]\<rparr>)))"

definition create_dispatch ::
  "shop_env \<Rightarrow> write_ctx \<Rightarrow> partner_row list \<Rightarrow> create_dispatch_inputs \<Rightarrow> (shop_db, dispatch_error, dispatch) tx_op" where
  "create_dispatch env ctx partners inp =
     op_then (op_lift (check_create_dispatch inp))
     (op_bind (op_get (wo_by_id (wc_tenant ctx) (cd_wo inp))) (\<lambda>row.
      op_bind (op_lift (ok_or (DWorkOrderNotFound (cd_wo inp)) row)) (\<lambda>w.
      op_then (op_require (wr_state w = ''completed'') (DWorkOrderNotEligible (cd_wo inp) (wr_state w)))
      (op_bind (op_get (\<lambda>s. select_one (\<lambda>d. dr_tenant d = wc_tenant ctx \<and> dr_wo d = cd_wo inp) (dispatches s))) (\<lambda>prior.
       op_then (case prior of
                  Some d \<Rightarrow> op_fail (DWorkOrderAlreadyDispatched (cd_wo inp) (dr_id d))
                | None \<Rightarrow> op_return ())
       (op_then (op_require (exists_row (partner_live (wc_tenant ctx) (cd_partner inp)) partners)
          (DPartnerNotFound (cd_partner inp)))
       (op_bind (shop_now env) (\<lambda>now.
        op_bind (shop_ulid env ''dsp_'') (\<lambda>did.
        op_then (insert_dispatch \<lparr>dr_id = did, dr_tenant = wc_tenant ctx, dr_wo = cd_wo inp,
           dr_partner = cd_partner inp, dr_state = dispatch_state_as_str Drafted, dr_created_at = now,
           dr_shipped_at = None, dr_cancelled_at = None, dr_carrier = None, dr_tracking = None,
           dr_invoice = None, dr_notes = cd_notes inp\<rparr>)
        (op_then (shop_append env ctx (DStorage ''audit append DispatchCreated'') (ShopEvent DispatchCreated)
           (dispatch_created_payload did inp (as_operator_string (wc_actor ctx))) (cd_idem inp))
        (op_return \<lparr>dp_id = did, dp_wo = cd_wo inp, dp_partner = cd_partner inp, dp_state = Drafted,
           dp_created_at = now, dp_shipped_at = None, dp_cancelled_at = None, dp_carrier = None,
           dp_tracking = None, dp_invoice = None, dp_notes = cd_notes inp\<rparr>)))))))))))"

section \<open>Shipping\<close>

record ship_inputs =
  sh_carrier :: carrier_kind
  sh_tracking :: "string option"
  sh_shipped_at :: "string option"
  sh_idem :: string

record ship_outcome =
  so_dispatch :: dispatch
  so_invoice :: "string option"
  so_movement :: string
  so_reports :: "string list"

definition classification_payload :: "ship_ports \<Rightarrow> string \<Rightarrow> export_classification \<Rightarrow> int \<Rightarrow> json" where
  "classification_payload ports p c ms =
     JObj [(''entity_kind'', JStr ''product''), (''entity_id'', JStr p), (''eccn'', json_opt (eccn_of c)),
           (''usml_category'', json_opt (usml_category_of c)),
           (''jurisdiction'', JStr (jurisdiction_as_str (classification_jurisdiction c))),
           (''operator_user_id'', JStr (sp_operator ports)), (''classified_at_ms'', JInt ms)]"

definition access_payload :: "ship_ports \<Rightarrow> string \<Rightarrow> screening_result \<Rightarrow> int \<Rightarrow> json" where
  "access_payload ports did r ms =
     JObj [(''entity_kind'', JStr ''dispatch''), (''entity_id'', JStr did),
           (''operator_user_id'', JStr (sp_operator ports)),
           (''decision'', JStr (access_decision_as_str (screening_decision r))),
           (''reason'', JStr (screening_reason r)), (''backend'', JStr (xp_name (sp_provider ports))),
           (''checked_at_ms'', JInt ms)]"

definition shipped_payload :: "dispatch \<Rightarrow> ship_inputs \<Rightarrow> string \<Rightarrow> string option \<Rightarrow> string \<Rightarrow> json" where
  "shipped_payload d inp now invoice act =
     JObj [(''dsp_id'', JStr (dp_id d)), (''wo_id'', JStr (dp_wo d)), (''partner_id'', JStr (dp_partner d)),
           (''carrier_kind'', JStr (carrier_as_str (sh_carrier inp))),
           (''tracking_number'', json_opt (sh_tracking inp)), (''shipped_at'', JStr now),
           (''spawned_invoice_id'', json_opt invoice), (''actor'', JStr act),
           (''idempotency_key'', JStr (sh_idem inp))]"

definition shipment_payload :: "ship_ports \<Rightarrow> dispatch \<Rightarrow> export_classification \<Rightarrow> int \<Rightarrow> json" where
  "shipment_payload ports d c ms =
     JObj [(''shipment_id'', JStr (dp_id d)), (''exporter_party_id'', JStr (sp_exporter ports)),
           (''recipient_party_id'', JStr (dp_partner d)),
           (''recipient_country'', JStr (render_recipient_country (sp_recipient ports))),
           (''ecn_or_authorization'', json_opt (case eccn_of c of Some x \<Rightarrow> Some x | None \<Rightarrow> usml_category_of c)),
           (''shipped_at_ms'', JInt ms), (''operator_user_id'', JStr (sp_operator ports))]"

definition malformed_eccn_text :: "ship_ports \<Rightarrow> string \<Rightarrow> string" where
  "malformed_eccn_text ports code =
     ''backend '' @ xp_name (sp_provider ports) @
     '' returned a malformed ECCN: ECCN must be a 5-char Commerce Control List code '' @
     ''[0-9][A-E][0-9][0-9][0-9] (e.g. \"7A994\") or the literal \"EAR99\", got '' @ sp_debug ports code"

text \<open>Step 4b: what is leaving, and may it leave for this consignee.\<close>

definition classify_shipment ::
  "shop_env \<Rightarrow> write_ctx \<Rightarrow> ship_ports \<Rightarrow> ship_inputs \<Rightarrow> string \<Rightarrow> int \<Rightarrow>
   (shop_db, dispatch_error, export_classification) tx_op" where
  "classify_shipment env ctx ports inp p ms =
     op_bind (op_lift (map_err (\<lambda>e. DExportControlUnavailable (''classify: '' @ export_error_text e))
       (xp_classify (sp_provider ports) p))) (\<lambda>c.
     op_then (op_lift (case c of
         Eccn code \<Rightarrow> map_err (\<lambda>_. DExportControlUnavailable (malformed_eccn_text ports code)) (validate_eccn code)
       | _ \<Rightarrow> Inr ()))
     (op_then (shop_append env ctx (DStorage ''audit append ExportClassificationSet'')
        (RecordEvent ExportClassificationSet) (classification_payload ports p c ms)
        (''export_classify:'' @ sh_idem inp))
     (op_return c)))"

definition screen_shipment ::
  "shop_env \<Rightarrow> write_ctx \<Rightarrow> ship_ports \<Rightarrow> ship_inputs \<Rightarrow> string \<Rightarrow> int \<Rightarrow> (shop_db, dispatch_error, unit) tx_op" where
  "screen_shipment env ctx ports inp did ms =
     op_bind (op_lift (map_err (\<lambda>e. DExportControlUnavailable (''screen_party: '' @ export_error_text e))
       (xp_screen (sp_provider ports) (sp_recipient ports)))) (\<lambda>r.
     op_then (op_require (\<not> blocks_export (screening_decision r))
       (DExportControlDenied did (screening_reason r) (access_decision_as_str (screening_decision r))))
     (shop_append env ctx (DStorage ''audit append ExportAccessCheck'')
        (RecordEvent ExportAccessCheck) (access_payload ports did r ms) (''export_access:'' @ sh_idem inp)))"

fun dispatch_of_inventory_error :: "shop_env \<Rightarrow> inventory_error \<Rightarrow> dispatch_error" where
  "dispatch_of_inventory_error env (IDuplicateIdempotencyKey k) = DDuplicateIdempotencyKey k"
| "dispatch_of_inventory_error env (IProductNotFound p) =
     DValidation (''Ship: product '' @ p @ '' not found'')"
| "dispatch_of_inventory_error env (WrongSignForReason reason required got) =
     DValidation (''Ship sign-violation: reason '' @ reason @ '' requires '' @
       required_sign_debug required @ '', got '' @ sh_dec_show env got)"
| "dispatch_of_inventory_error env (IStorage e) = DStorage e"

definition ship_movement_inputs :: "dispatch \<Rightarrow> ship_inputs \<Rightarrow> string \<Rightarrow> rat \<Rightarrow> movement_inputs" where
  "ship_movement_inputs d inp p q =
     \<lparr>mi_product = p, mi_qty = - q, mi_reason = DispatchOut, mi_ref_kind = RefDispatch,
      mi_ref_id = Some (dp_id d), mi_notes = sh_tracking inp, mi_idem = sh_idem inp @ '':dispatch_movement''\<rparr>"

definition store_shipment ::
  "ship_inputs \<Rightarrow> string \<Rightarrow> string option \<Rightarrow> dispatch_row \<Rightarrow> dispatch_row" where
  "store_shipment inp now invoice r =
     r\<lparr>dr_state := dispatch_state_as_str Shipped, dr_shipped_at := Some now,
       dr_carrier := Some (carrier_as_str (sh_carrier inp)), dr_tracking := sh_tracking inp,
       dr_invoice := invoice\<rparr>"

definition shop_instant :: "shop_env \<Rightarrow> (shop_db, 'e, int) tx_op" where
  "shop_instant env = (\<lambda>s. Inr (sup_now (sh_time env) (tick s), s\<lparr>tick := Suc (tick s)\<rparr>))"

lemma shop_instant_Inr [simp]:
  "shop_instant env s = Inr r \<longleftrightarrow> r = (sup_now (sh_time env) (tick s), s\<lparr>tick := Suc (tick s)\<rparr>)"
  by (auto simp: shop_instant_def)

definition ship_stamp :: "shop_env \<Rightarrow> ship_inputs \<Rightarrow> (shop_db, dispatch_error, string) tx_op" where
  "ship_stamp env inp = (case sh_shipped_at inp of Some x \<Rightarrow> op_return x | None \<Rightarrow> shop_now env)"

definition mark_shipped_writes ::
  "shop_env \<Rightarrow> write_ctx \<Rightarrow> ship_ports \<Rightarrow> string \<Rightarrow> ship_inputs \<Rightarrow> dispatch \<Rightarrow>
   (shop_db, dispatch_error, ship_outcome) tx_op" where
  \<comment> \<open>steps 4 to 9\<close>
  "mark_shipped_writes env ctx ports did inp prior =
     op_bind (op_get (wo_by_id (wc_tenant ctx) (dp_wo prior))) (\<lambda>row.
     op_bind (op_lift (ok_or (DStorage ''SELECT work_orders for ship'') row)) (\<lambda>w.
     op_bind (ship_stamp env inp) (\<lambda>now.
     op_bind (op_lift (rfc3339_to_epoch_ms ports now)) (\<lambda>shipped_ms.
     op_bind (shop_instant env) (\<lambda>asked.
     op_bind (classify_shipment env ctx ports inp (wr_product w) (ms_of_nanos asked)) (\<lambda>c.
     op_then (screen_shipment env ctx ports inp did (ms_of_nanos asked))
     (op_bind (op_map_err (dispatch_of_inventory_error env)
        (record_movement env ctx (ship_movement_inputs prior inp (wr_product w) (wr_qty w)))) (\<lambda>m.
      op_bind (op_map_err DInvoiceSpawnFailed
        (sp_spawn ports prior (wr_product w) (wr_qty w) (sh_idem inp @ '':spawn_invoice''))) (\<lambda>invoice.
      op_then (op_modify (\<lambda>s. s\<lparr>dispatches :=
        update_where (\<lambda>d. dr_tenant d = wc_tenant ctx \<and> dr_id d = did) (store_shipment inp now invoice) (dispatches s)\<rparr>))
      (op_then (shop_append env ctx (DStorage ''audit append DispatchShipped'') (ShopEvent DispatchShipped)
         (shipped_payload prior inp now invoice (as_operator_string (wc_actor ctx))) (''ship:'' @ sh_idem inp))
      (op_then (shop_append env ctx (DStorage ''audit append ExportShipmentLogged'')
         (RecordEvent ExportShipmentLogged) (shipment_payload ports prior c shipped_ms) (''export_ship:'' @ sh_idem inp))
      (op_bind (op_map_err DShipmentDocumentBindFailed (sp_bind ports (wc_tenant ctx) (dp_wo prior) did)) (\<lambda>reports.
       op_bind (op_get (read_dispatch_in_tx (wc_tenant ctx) did)) (\<lambda>res.
       op_bind (op_lift res) (\<lambda>found.
       op_bind (op_lift (ok_or (DStorage ''mark_shipped: live row vanished after write'') found)) (\<lambda>live.
       op_return \<lparr>so_dispatch = live, so_invoice = invoice, so_movement = sm_id m, so_reports = reports\<rparr>))))))))))))))))"

definition mark_shipped ::
  "shop_env \<Rightarrow> write_ctx \<Rightarrow> ship_ports \<Rightarrow> string \<Rightarrow> ship_inputs \<Rightarrow> (shop_db, dispatch_error, ship_outcome) tx_op" where
  "mark_shipped env ctx ports did inp =
     op_then (op_require (\<not> is_blank (sh_idem inp)) (DValidation ''idempotency_key must be non-empty''))
     (op_bind (op_get (read_dispatch_in_tx (wc_tenant ctx) did)) (\<lambda>res.
      op_bind (op_lift res) (\<lambda>found.
      op_bind (op_lift (ok_or (DDispatchNotFound did) found)) (\<lambda>prior.
      if dp_state prior = Shipped
      then op_return \<lparr>so_dispatch = prior, so_invoice = None, so_movement = ''<idempotent-noop>'', so_reports = []\<rparr>
      else op_bind (op_lift (map_err DIllegalTransition (next_dispatch_state (dp_state prior) DspShip))) (\<lambda>_.
           mark_shipped_writes env ctx ports did inp prior)))))"

section \<open>Cancelling, and detaching a deleted draft\<close>

definition cancel_dispatch :: "shop_env \<Rightarrow> write_ctx \<Rightarrow> string \<Rightarrow> (shop_db, dispatch_error, dispatch) tx_op" where
  "cancel_dispatch env ctx did =
     op_bind (op_get (read_dispatch_in_tx (wc_tenant ctx) did)) (\<lambda>res.
     op_bind (op_lift res) (\<lambda>found.
     op_bind (op_lift (ok_or (DDispatchNotFound did) found)) (\<lambda>prior.
     op_bind (op_lift (map_err DIllegalTransition (next_dispatch_state (dp_state prior) DspCancel))) (\<lambda>_.
     op_bind (shop_now env) (\<lambda>now.
     op_then (op_modify (\<lambda>s. s\<lparr>dispatches := update_where (\<lambda>d. dr_tenant d = wc_tenant ctx \<and> dr_id d = did)
       (\<lambda>d. d\<lparr>dr_state := dispatch_state_as_str DspCancelled, dr_cancelled_at := Some now\<rparr>) (dispatches s)\<rparr>))
     (op_bind (op_get (read_dispatch_in_tx (wc_tenant ctx) did)) (\<lambda>res.
      op_bind (op_lift res) (\<lambda>found.
      op_lift (ok_or (DStorage ''cancel_dispatch: live row vanished after write'') found)))))))))"

definition null_spawned_invoice_id_in_tx :: "string \<Rightarrow> string \<Rightarrow> (shop_db, 'e, nat) tx_op" where
  "null_spawned_invoice_id_in_tx t drf =
     op_bind (op_get (\<lambda>s. count_where (\<lambda>d. dr_tenant d = t \<and> dr_invoice d = Some drf) (dispatches s))) (\<lambda>n.
     op_then (op_modify (\<lambda>s. s\<lparr>dispatches := update_where (\<lambda>d. dr_tenant d = t \<and> dr_invoice d = Some drf)
       (\<lambda>d. d\<lparr>dr_invoice := None\<rparr>) (dispatches s)\<rparr>))
     (op_return n))"

section \<open>Reads\<close>

definition MAX_DISPATCH_LIST_LIMIT :: nat where "MAX_DISPATCH_LIST_LIMIT = 500"
definition MAX_ELIGIBLE_WO_LIMIT :: nat where "MAX_ELIGIBLE_WO_LIMIT = 500"

definition list_dispatches ::
  "string \<Rightarrow> dispatch_state option \<Rightarrow> nat \<Rightarrow> nat \<Rightarrow> shop_db \<Rightarrow> string + dispatch list" where
  "list_dispatches t f limit offset s =
     collect_res (map parse_dispatch_row
       (take (min limit MAX_DISPATCH_LIST_LIMIT) (drop offset (rev (sort_key (\<lambda>d. (dr_created_at d, dr_id d))
         (filter (\<lambda>d. dr_tenant d = t \<and>
            (case f of None \<Rightarrow> True | Some st \<Rightarrow> dr_state d = dispatch_state_as_str st)) (dispatches s)))))))"

definition get_dispatch :: "string \<Rightarrow> string \<Rightarrow> shop_db \<Rightarrow> string + dispatch option" where
  "get_dispatch t d s =
     (case dispatch_by_id t d s of
        None \<Rightarrow> Inr None
      | Some r \<Rightarrow> and_then (parse_dispatch_row r) (\<lambda>x. Inr (Some x)))"

record eligible_work_order =
  ew_wo :: string
  ew_number :: string
  ew_product :: string
  ew_qty :: rat
  ew_completed_at :: string

definition wo_eligible :: "string \<Rightarrow> shop_db \<Rightarrow> wo_row \<Rightarrow> bool" where
  "wo_eligible t s w \<longleftrightarrow> wr_tenant w = t \<and> wr_state w = ''completed'' \<and>
     \<not> exists_row (\<lambda>d. dr_tenant d = wr_tenant w \<and> dr_wo d = wr_id w) (dispatches s)"

definition completion_order :: "wo_row \<Rightarrow> nat \<times> string \<times> string" where
  \<comment> \<open>\<open>ORDER BY completed_at ASC, wo_id ASC\<close>; NULLs sort last\<close>
  "completion_order w =
     (case wr_completed_at w of Some c \<Rightarrow> (0, c, wr_id w) | None \<Rightarrow> (1, [], wr_id w))"

definition list_eligible_work_orders :: "string \<Rightarrow> nat \<Rightarrow> shop_db \<Rightarrow> eligible_work_order list" where
  "list_eligible_work_orders t limit s =
     map (\<lambda>w. \<lparr>ew_wo = wr_id w, ew_number = wr_number w, ew_product = wr_product w, ew_qty = wr_qty w,
              ew_completed_at = (case wr_completed_at w of Some c \<Rightarrow> c | None \<Rightarrow> [])\<rparr>)
       (take (min limit MAX_ELIGIBLE_WO_LIMIT) (sort_key completion_order (filter (wo_eligible t s) (work_orders s))))"

definition count_eligible_work_orders :: "string \<Rightarrow> shop_db \<Rightarrow> nat" where
  "count_eligible_work_orders t s = min (count_where (wo_eligible t s) (work_orders s)) u32_max"

record dispatch_state_counts =
  dn_drafted :: nat
  dn_shipped :: nat
  dn_cancelled :: nat

definition dispatch_count :: "string \<Rightarrow> shop_db \<Rightarrow> dispatch_state \<Rightarrow> nat" where
  "dispatch_count t s st =
     min (count_where (\<lambda>d. dr_tenant d = t \<and> dr_state d = dispatch_state_as_str st) (dispatches s)) u32_max"

definition count_dispatches_by_state :: "string \<Rightarrow> shop_db \<Rightarrow> string + dispatch_state_counts" where
  "count_dispatches_by_state t s =
     and_then (collect_res (map dispatch_state_from_str
        (remdups (map dr_state (filter (\<lambda>d. dr_tenant d = t) (dispatches s)))))) (\<lambda>_.
       Inr \<lparr>dn_drafted = dispatch_count t s Drafted, dn_shipped = dispatch_count t s Shipped,
            dn_cancelled = dispatch_count t s DspCancelled\<rparr>)"

definition count_dispatches_shipped_today :: "string \<Rightarrow> string \<Rightarrow> shop_db \<Rightarrow> nat" where
  "count_dispatches_shipped_today t today s =
     min (count_where (\<lambda>d. dr_tenant d = t \<and> dr_state d = ''shipped'' \<and>
       (case dr_shipped_at d of Some x \<Rightarrow> take 10 x = today | None \<Rightarrow> False)) (dispatches s)) u32_max"

section \<open>What the injected parts leave alone\<close>

text \<open>
  The documented contract of a port that runs inside the transaction: it writes its own tables and
  appends to the audit ledger, and touches none of the manufacturing tables.
\<close>

definition port_frame :: "shop_env \<Rightarrow> write_ctx \<Rightarrow> (shop_db, 'e, 'a) tx_op \<Rightarrow> bool" where
  "port_frame env ctx m \<longleftrightarrow> (\<forall>s a s'. m s = Inr (a, s') \<longrightarrow>
     movements s' = movements s \<and> products s' = products s \<and> work_orders s' = work_orders s \<and>
     boms s' = boms s \<and> routings s' = routings s \<and> inspections s' = inspections s \<and>
     dispatches s' = dispatches s \<and> (shop_log_ok env ctx s \<longrightarrow> shop_log_ok env ctx s'))"

definition ports_ok :: "shop_env \<Rightarrow> write_ctx \<Rightarrow> ship_ports \<Rightarrow> bool" where
  "ports_ok env ctx ports \<longleftrightarrow> (\<forall>d p q k. port_frame env ctx (sp_spawn ports d p q k)) \<and>
     (\<forall>t w d. port_frame env ctx (sp_bind ports t w d))"

lemma noop_ports_frame: "port_frame env ctx (noop_spawner d p q k)" "port_frame env ctx (noop_binder t w did)"
  by (simp_all add: port_frame_def noop_spawner_def noop_binder_def)

lemma port_frame_same:
  assumes "port_frame env ctx m" and "m s = Inr (a, s')"
  shows "movements s' = movements s" "products s' = products s" "work_orders s' = work_orders s"
    "routings s' = routings s" "inspections s' = inspections s" "dispatches s' = dispatches s"
    "boms s' = boms s"
  using assms unfolding port_frame_def by blast+

lemma port_frame_stock: "port_frame env ctx m \<Longrightarrow> preserves (stock_inv env ctx) m"
proof (rule preservesI)
  fix s a s'
  assume m: "port_frame env ctx m" "m s = Inr (a, s')" and inv: "stock_inv env ctx s"
  have "stock_cache_ok (wc_tenant ctx) s' = stock_cache_ok (wc_tenant ctx) s"
    by (rule stock_cache_same [OF port_frame_same(1,2) [OF m]])
  moreover have "shop_log_ok env ctx s \<longrightarrow> shop_log_ok env ctx s'" using m unfolding port_frame_def by blast
  ultimately show "stock_inv env ctx s'" using inv by (simp add: stock_inv_def)
qed

section \<open>The stock invariant through every operation\<close>

lemma preserves_stock_instant [op_rules]: "preserves (stock_inv env ctx) (shop_instant env')"
  by (rule preservesI) simp

lemma preserves_stock_create_dispatch: "preserves (stock_inv env ctx) (create_dispatch env ctx partners inp)"
  unfolding create_dispatch_def insert_dispatch_def by (intro op_rules; simp)

lemma preserves_stock_cancel: "preserves (stock_inv env ctx) (cancel_dispatch env ctx did)"
  unfolding cancel_dispatch_def by (intro op_rules; simp)

lemma preserves_stock_null: "preserves (stock_inv env ctx) (null_spawned_invoice_id_in_tx t drf)"
  unfolding null_spawned_invoice_id_in_tx_def by (intro op_rules; simp)

lemma preserves_stock_ship:
  assumes "ports_ok env ctx ports"
  shows "preserves (stock_inv env ctx) (mark_shipped env ctx ports did inp)"
proof -
  have p: "preserves (stock_inv env ctx) (sp_spawn ports d p q k)"
    "preserves (stock_inv env ctx) (sp_bind ports t w d')" for d p q k t w d'
    using assms by (simp_all add: ports_ok_def port_frame_stock)
  show ?thesis
    unfolding mark_shipped_def mark_shipped_writes_def classify_shipment_def screen_shipment_def ship_stamp_def
    by (intro op_rules p; simp)
qed

section \<open>Effects\<close>

lemma classify_shipment_frame:
  assumes "classify_shipment env ctx ports inp p ms s = Inr (c, s')"
  shows "movements s' = movements s" "products s' = products s" "work_orders s' = work_orders s"
    "dispatches s' = dispatches s" "inspections s' = inspections s" "routings s' = routings s"
    "xp_classify (sp_provider ports) p = Inr c"
proof -
  have "movements s' = movements s \<and> products s' = products s \<and> work_orders s' = work_orders s \<and>
      dispatches s' = dispatches s \<and> inspections s' = inspections s \<and> routings s' = routings s \<and>
      xp_classify (sp_provider ports) p = Inr c"
    using assms by (auto simp: classify_shipment_def op_simps simp del: append.simps dest: shop_append_same)
  then show "movements s' = movements s" "products s' = products s" "work_orders s' = work_orders s"
    "dispatches s' = dispatches s" "inspections s' = inspections s" "routings s' = routings s"
    "xp_classify (sp_provider ports) p = Inr c" by auto
qed

lemma screen_shipment_frame:
  assumes "screen_shipment env ctx ports inp did ms s = Inr (u, s')"
  shows "movements s' = movements s" "products s' = products s" "work_orders s' = work_orders s"
    "dispatches s' = dispatches s" "inspections s' = inspections s" "routings s' = routings s"
    "\<exists>r. xp_screen (sp_provider ports) (sp_recipient ports) = Inr r \<and> \<not> blocks_export (screening_decision r)"
proof -
  have "movements s' = movements s \<and> products s' = products s \<and> work_orders s' = work_orders s \<and>
      dispatches s' = dispatches s \<and> inspections s' = inspections s \<and> routings s' = routings s \<and>
      (\<exists>r. xp_screen (sp_provider ports) (sp_recipient ports) = Inr r \<and> \<not> blocks_export (screening_decision r))"
    using assms by (auto simp: screen_shipment_def op_simps simp del: append.simps dest: shop_append_same)
  then show "movements s' = movements s" "products s' = products s" "work_orders s' = work_orders s"
    "dispatches s' = dispatches s" "inspections s' = inspections s" "routings s' = routings s"
    "\<exists>r. xp_screen (sp_provider ports) (sp_recipient ports) = Inr r \<and> \<not> blocks_export (screening_decision r)"
    by auto
qed

lemma ship_stamp_tick: "ship_stamp env inp s = Inr (now, s') \<Longrightarrow> \<exists>n. s' = s\<lparr>tick := n\<rparr>"
  by (auto simp: ship_stamp_def split: option.splits intro: exI [of _ "tick s"])

lemma mark_shipped_writes_Inr:
  assumes "mark_shipped_writes env ctx ports did inp prior s = Inr (out, s')"
  obtains w now sn asked c s1 s2 m s3 invoice s4 pl key s5 pl2 key2 s6 reports where
    "wo_by_id (wc_tenant ctx) (dp_wo prior) s = Some w"
    "ship_stamp env inp s = Inr (now, sn)"
    "classify_shipment env ctx ports inp (wr_product w) (ms_of_nanos asked) (sn\<lparr>tick := Suc (tick sn)\<rparr>) = Inr (c, s1)"
    "screen_shipment env ctx ports inp did (ms_of_nanos asked) s1 = Inr ((), s2)"
    "record_movement env ctx (ship_movement_inputs prior inp (wr_product w) (wr_qty w)) s2 = Inr (m, s3)"
    "sp_spawn ports prior (wr_product w) (wr_qty w) (sh_idem inp @ '':spawn_invoice'') s3 = Inr (invoice, s4)"
    "shop_append env ctx (DStorage ''audit append DispatchShipped'') (ShopEvent DispatchShipped) pl key
       (s4\<lparr>dispatches := update_where (\<lambda>d. dr_tenant d = wc_tenant ctx \<and> dr_id d = did)
         (store_shipment inp now invoice) (dispatches s4)\<rparr>) = Inr ((), s5)"
    "shop_append env ctx (DStorage ''audit append ExportShipmentLogged'') (RecordEvent ExportShipmentLogged)
       pl2 key2 s5 = Inr ((), s6)"
    "sp_bind ports (wc_tenant ctx) (dp_wo prior) did s6 = Inr (reports, s')"
    "read_dispatch_in_tx (wc_tenant ctx) did s' = Inr (Some (so_dispatch out))"
    "so_invoice out = invoice" "so_movement out = sm_id m" "so_reports out = reports"
  using assms unfolding mark_shipped_writes_def
  by (clarsimp simp: op_simps ok_or_eq_Inr simp del: append.simps)

text \<open>The effect of the writes, as one step on the tables.\<close>

lemma mark_shipped_writes_effect:
  assumes "mark_shipped_writes env ctx ports did inp prior s = Inr (out, s')" and "ports_ok env ctx ports"
  obtains w now r m s2 s3 where
    "wo_by_id (wc_tenant ctx) (dp_wo prior) s = Some w"
    "xp_screen (sp_provider ports) (sp_recipient ports) = Inr r" "\<not> blocks_export (screening_decision r)"
    "record_movement env ctx (ship_movement_inputs prior inp (wr_product w) (wr_qty w)) s2 = Inr (m, s3)"
    "movements s2 = movements s" "stock_inv env ctx s \<Longrightarrow> stock_inv env ctx s2"
    "movements s' = movements s3"
    "dispatches s' = update_where (\<lambda>d. dr_tenant d = wc_tenant ctx \<and> dr_id d = did)
       (store_shipment inp now (so_invoice out)) (dispatches s)"
    "read_dispatch_in_tx (wc_tenant ctx) did s' = Inr (Some (so_dispatch out))"
    "work_orders s' = work_orders s" "inspections s' = inspections s" "routings s' = routings s"
  using assms(1)
proof (rule mark_shipped_writes_Inr)
  fix w now sn asked c s1 s2 m s3 invoice s4 pl key s5 pl2 key2 s6 reports
  assume w: "wo_by_id (wc_tenant ctx) (dp_wo prior) s = Some w"
    and st: "ship_stamp env inp s = Inr (now, sn)"
    and cl: "classify_shipment env ctx ports inp (wr_product w) (ms_of_nanos asked) (sn\<lparr>tick := Suc (tick sn)\<rparr>) =
      Inr (c, s1)"
    and sc: "screen_shipment env ctx ports inp did (ms_of_nanos asked) s1 = Inr ((), s2)"
    and rm: "record_movement env ctx (ship_movement_inputs prior inp (wr_product w) (wr_qty w)) s2 = Inr (m, s3)"
    and sp: "sp_spawn ports prior (wr_product w) (wr_qty w) (sh_idem inp @ '':spawn_invoice'') s3 = Inr (invoice, s4)"
    and a1: "shop_append env ctx (DStorage ''audit append DispatchShipped'') (ShopEvent DispatchShipped) pl key
       (s4\<lparr>dispatches := update_where (\<lambda>d. dr_tenant d = wc_tenant ctx \<and> dr_id d = did)
         (store_shipment inp now invoice) (dispatches s4)\<rparr>) = Inr ((), s5)"
    and a2: "shop_append env ctx (DStorage ''audit append ExportShipmentLogged'')
       (RecordEvent ExportShipmentLogged) pl2 key2 s5 = Inr ((), s6)"
    and bd: "sp_bind ports (wc_tenant ctx) (dp_wo prior) did s6 = Inr (reports, s')"
    and out: "read_dispatch_in_tx (wc_tenant ctx) did s' = Inr (Some (so_dispatch out))" "so_invoice out = invoice"
  note pf = assms(2) [unfolded ports_ok_def]
  note fs = port_frame_same [OF pf [THEN conjunct1, rule_format] sp]
  note fb = port_frame_same [OF pf [THEN conjunct2, rule_format] bd]
  note f1 = classify_shipment_frame [OF cl] and f2 = screen_shipment_frame [OF sc]
  note fr = record_movement_frame [OF rm]
  obtain n where n: "sn = s\<lparr>tick := n\<rparr>" using ship_stamp_tick [OF st] by blast
  have pr: "preserves (stock_inv env ctx) (classify_shipment env ctx ports inp (wr_product w) (ms_of_nanos asked))"
    "preserves (stock_inv env ctx) (screen_shipment env ctx ports inp did (ms_of_nanos asked))"
    unfolding classify_shipment_def screen_shipment_def by (intro op_rules)+
  have inv: "stock_inv env ctx s \<Longrightarrow> stock_inv env ctx s2"
    using preservesD [OF pr(1) _ cl] preservesD [OF pr(2) _ sc] by (simp add: n)
  obtain r where r: "xp_screen (sp_provider ports) (sp_recipient ports) = Inr r"
    "\<not> blocks_export (screening_decision r)" using f2(7) by blast
  show ?thesis
    by (rule that [OF w r rm _ inv])
      (use fb fs f1 f2 fr shop_append_same [OF a1] shop_append_same [OF a2] out in \<open>simp_all add: n\<close>)
qed

lemma mark_shipped_Inr:
  assumes "mark_shipped env ctx ports did inp s = Inr (out, s')"
  obtains prior where "read_dispatch_in_tx (wc_tenant ctx) did s = Inr (Some prior)"
    "dp_state prior = Shipped \<and> s' = s \<and> so_dispatch out = prior \<and> so_invoice out = None \<or>
     dp_state prior = Drafted \<and> mark_shipped_writes env ctx ports did inp prior s = Inr (out, s')"
proof -
  from assms obtain prior where p: "read_dispatch_in_tx (wc_tenant ctx) did s = Inr (Some prior)"
    "(if dp_state prior = Shipped
      then op_return \<lparr>so_dispatch = prior, so_invoice = None, so_movement = ''<idempotent-noop>'', so_reports = []\<rparr>
      else op_bind (op_lift (map_err DIllegalTransition (next_dispatch_state (dp_state prior) DspShip))) (\<lambda>_.
           mark_shipped_writes env ctx ports did inp prior)) s = Inr (out, s')"
    unfolding mark_shipped_def by (auto simp: op_simps ok_or_eq_Inr)
  show thesis
  proof (rule that [OF p(1)], cases "dp_state prior = Shipped")
    case True
    then show "dp_state prior = Shipped \<and> s' = s \<and> so_dispatch out = prior \<and> so_invoice out = None \<or>
     dp_state prior = Drafted \<and> mark_shipped_writes env ctx ports did inp prior s = Inr (out, s')"
      using p(2) by simp
  next
    case False
    then show "dp_state prior = Shipped \<and> s' = s \<and> so_dispatch out = prior \<and> so_invoice out = None \<or>
     dp_state prior = Drafted \<and> mark_shipped_writes env ctx ports did inp prior s = Inr (out, s')"
      using p(2) by (auto simp: op_simps elim: next_dispatch_state_cases)
  qed
qed

lemma dispatch_by_id_Some: "dispatch_by_id t d s = Some r \<Longrightarrow> r \<in> set (dispatches s) \<and> dr_tenant r = t \<and> dr_id r = d"
  unfolding dispatch_by_id_def by (drule select_one_Some) simp

lemma parse_dispatch_fields:
  assumes "parse_dispatch_row r = Inr d"
  shows "dp_id d = dr_id r" "dp_wo d = dr_wo r" "dr_state r = dispatch_state_as_str (dp_state d)"
    "dp_invoice d = dr_invoice r" "dp_shipped_at d = dr_shipped_at r"
  using assms unfolding parse_dispatch_row_def
  by (auto simp: res_simps dest: dispatch_state_codec.as_from)

lemma read_dispatch_row:
  assumes "read_dispatch_in_tx t did s = Inr (Some d)"
  obtains r where "dispatch_by_id t did s = Some r" "parse_dispatch_row r = Inr d"
  using assms by (auto simp: read_dispatch_in_tx_def res_simps split: option.splits)

section \<open>One dispatch per order\<close>

definition one_dispatch :: "dispatch_row list \<Rightarrow> bool" where
  "one_dispatch ds \<longleftrightarrow> (\<forall>t w. length (filter (\<lambda>d. dr_tenant d = t \<and> dr_wo d = w) ds) \<le> 1)"

definition dispatched_completed :: "shop_db \<Rightarrow> bool" where
  "dispatched_completed s \<longleftrightarrow>
     (\<forall>d \<in> set (dispatches s). \<exists>w. wo_by_id (dr_tenant d) (dr_wo d) s = Some w \<and> wr_state w = ''completed'')"

lemma filter_update_length:
  assumes "\<And>d. q (f d) = q d"
  shows "length (filter q (update_where p f ds)) = length (filter q ds)"
  using assms by (induction ds) (auto simp: update_where_def)

lemma one_dispatch_update:
  assumes "\<And>d. dr_tenant (f d) = dr_tenant d" and "\<And>d. dr_wo (f d) = dr_wo d"
  shows "one_dispatch (update_where p f ds) = one_dispatch ds"
  unfolding one_dispatch_def by (simp add: filter_update_length assms)

lemma dispatched_completed_update:
  assumes "work_orders s' = work_orders s" and "dispatches s' = update_where p f (dispatches s)"
    and "\<And>d. dr_tenant (f d) = dr_tenant d" and "\<And>d. dr_wo (f d) = dr_wo d"
  shows "dispatched_completed s \<Longrightarrow> dispatched_completed s'"
  using assms(3,4) unfolding dispatched_completed_def wo_by_id_def assms(1,2)
  by (auto simp: set_update_where)

lemma create_dispatch_Inr:
  assumes "create_dispatch env ctx partners inp s = Inr (d, s')"
  obtains w row where "wo_by_id (wc_tenant ctx) (cd_wo inp) s = Some w" "wr_state w = ''completed''"
    "select_one (\<lambda>d. dr_tenant d = wc_tenant ctx \<and> dr_wo d = cd_wo inp) (dispatches s) = None"
    "exists_row (partner_live (wc_tenant ctx) (cd_partner inp)) partners"
    "dispatches s' = dispatches s @ [row]" "dr_tenant row = wc_tenant ctx" "dr_wo row = cd_wo inp"
    "parse_dispatch_row row = Inr d" "dr_id row \<notin> set (map dr_id (dispatches s))" "dp_state d = Drafted"
    "movements s' = movements s" "work_orders s' = work_orders s" "inspections s' = inspections s"
proof -
  define now where "now = rfc3339_format (sh_ledger env) (sup_now (sh_time env) (tick s))"
  define did where "did = ''dsp_'' @ ulid_to_string (sh_ledger env) (sup_ulid (sh_time env) (Suc (tick s)))"
  define row where "row = \<lparr>dr_id = did, dr_tenant = wc_tenant ctx, dr_wo = cd_wo inp,
     dr_partner = cd_partner inp, dr_state = dispatch_state_as_str Drafted, dr_created_at = now,
     dr_shipped_at = None, dr_cancelled_at = None, dr_carrier = None, dr_tracking = None,
     dr_invoice = None, dr_notes = cd_notes inp\<rparr>"
  define dsp where "dsp = \<lparr>dp_id = did, dp_wo = cd_wo inp, dp_partner = cd_partner inp, dp_state = Drafted,
     dp_created_at = now, dp_shipped_at = None, dp_cancelled_at = None, dp_carrier = None,
     dp_tracking = None, dp_invoice = None, dp_notes = cd_notes inp\<rparr>"
  note defs = row_def [symmetric] dsp_def [symmetric] did_def [symmetric] now_def [symmetric]
  from assms obtain w pl where
    a: "wo_by_id (wc_tenant ctx) (cd_wo inp) s = Some w" "wr_state w = ''completed''"
      "select_one (\<lambda>d. dr_tenant d = wc_tenant ctx \<and> dr_wo d = cd_wo inp) (dispatches s) = None"
      "exists_row (partner_live (wc_tenant ctx) (cd_partner inp)) partners"
      "did \<notin> set (map dr_id (dispatches s))" "d = dsp"
    and app: "shop_append env ctx (DStorage ''audit append DispatchCreated'') (ShopEvent DispatchCreated) pl
        (cd_idem inp) (s\<lparr>tick := Suc (Suc (tick s)), dispatches := dispatches s @ [row]\<rparr>) = Inr ((), s')"
    unfolding create_dispatch_def insert_dispatch_def
    by (auto simp: op_simps ok_or_eq_Inr defs image_iff simp del: append.simps dispatch_state_as_str.simps
        split: option.splits)
  have row: "dr_tenant row = wc_tenant ctx" "dr_wo row = cd_wo inp" "parse_dispatch_row row = Inr dsp"
    "dp_state dsp = Drafted" "dr_id row = did"
    by (simp_all add: row_def dsp_def parse_dispatch_row_def dispatch_state_codec.from_as
        del: dispatch_state_as_str.simps)
  show thesis
    by (rule that [OF a(1-4) _ row(1,2)])
      (use shop_append_same [OF app] row a(5,6) in simp_all)
qed

lemma create_dispatch_one:
  assumes "one_dispatch (dispatches s)" and "dispatched_completed s"
    and "create_dispatch env ctx partners inp s = Inr (d, s')"
  shows "one_dispatch (dispatches s') \<and> dispatched_completed s'"
  using assms(3)
proof (rule create_dispatch_Inr)
  fix w row
  assume w: "wo_by_id (wc_tenant ctx) (cd_wo inp) s = Some w" "wr_state w = ''completed''"
    and none: "select_one (\<lambda>d. dr_tenant d = wc_tenant ctx \<and> dr_wo d = cd_wo inp) (dispatches s) = None"
    and ds: "dispatches s' = dispatches s @ [row]" and row: "dr_tenant row = wc_tenant ctx" "dr_wo row = cd_wo inp"
    and wos: "work_orders s' = work_orders s"
  have "filter (\<lambda>d. dr_tenant d = wc_tenant ctx \<and> dr_wo d = cd_wo inp) (dispatches s) = []"
    using none by (auto simp: select_one_None filter_empty_conv)
  then have "one_dispatch (dispatches s')"
    using assms(1) row unfolding one_dispatch_def ds by auto
  moreover have "dispatched_completed s'"
    using assms(2) w row unfolding dispatched_completed_def wo_by_id_def ds wos by auto
  ultimately show ?thesis by blast
qed


lemma shipped_row:
  assumes "read_dispatch_in_tx t did s = Inr (Some prior)"
    and "dispatches s' = update_where (\<lambda>d. dr_tenant d = t \<and> dr_id d = did) (store_shipment inp now invoice) (dispatches s)"
    and "read_dispatch_in_tx t did s' = Inr (Some live)"
  shows "dp_state live = Shipped" and "dp_invoice live = invoice" and "dp_shipped_at live = Some now"
proof -
  obtain row0 where r0: "dispatch_by_id t did s = Some row0" using read_dispatch_row [OF assms(1)] by blast
  obtain row where r: "dispatch_by_id t did s' = Some row" "parse_dispatch_row row = Inr live"
    using read_dispatch_row [OF assms(3)] by blast
  have "row = store_shipment inp now invoice row0"
    using r0 r(1) dispatch_by_id_Some [OF r0]
    by (simp add: dispatch_by_id_def assms(2) select_one_update_where store_shipment_def)
  then show "dp_state live = Shipped" "dp_invoice live = invoice" "dp_shipped_at live = Some now"
    using parse_dispatch_fields(3,4,5) [OF r(2)]
    by (simp_all add: store_shipment_def dispatch_state_codec.as_str_inject del: dispatch_state_as_str.simps)
qed

end
