(* ===== verification/Shop_System.thy ===== *)
theory Shop_System
  imports Dispatch
begin

text \<open>
  The manufacturing part as one system: a step is any successful operation of the inventory, quality,
  work-order and dispatch crates by any actor of the tenant, and \<open>shop_inv\<close> joins what the
  crates promise together: the cached stock, the audit ledger, the live inspections, the dispatches.
\<close>

section \<open>Tables an operation does not touch\<close>

text \<open>
  A projection of the tables that stock movements, the ledger, the clock and the identifiers leave
  alone.
\<close>

locale kept_table =
  fixes g :: "shop_db \<Rightarrow> 'x"
  assumes kept: "g (s\<lparr>movements := ms, products := ps, shop_ledger := l, tick := n\<rparr>) = g s"
begin

lemma kept_tick: "g (s\<lparr>tick := n\<rparr>) = g s"
  using kept [where s = s and ms = "movements s" and ps = "products s" and l = "shop_ledger s" and n = n] by simp

lemma kept_ledger: "g (s\<lparr>shop_ledger := l, tick := n\<rparr>) = g s"
  using kept [where s = s and ms = "movements s" and ps = "products s" and l = l and n = n] by simp

lemma preserves_append [op_rules]: "preserves (\<lambda>s. g s = c) (shop_append env ctx err k pl idem)"
proof (rule preservesI)
  fix s u s'
  assume g: "g s = c" and a: "shop_append env ctx err k pl idem s = Inr (u, s')"
  from shop_append_frame [OF a] obtain row where
    "s' = s\<lparr>shop_ledger := shop_ledger s @ [row], tick := Suc (tick s)\<rparr>" by blast
  then show "g s' = c" using g kept_ledger by simp
qed

lemma preserves_clock [op_rules]:
  "preserves (\<lambda>s. g s = c) (shop_now env)" "preserves (\<lambda>s. g s = c) (shop_ulid env pre)"
  "preserves (\<lambda>s. g s = c) (shop_instant env)"
  by (rule preservesI; simp add: kept_tick)+

lemma preserves_record [op_rules]: "preserves (\<lambda>s. g s = c) (record_movement env ctx inp)"
proof (rule preservesI)
  fix s m s'
  assume g: "g s = c" and r: "record_movement env ctx inp s = Inr (m, s')"
  from r show "g s' = c"
  proof (rule record_movement_Inr)
    fix row q at_max lrow t
    assume "s' = record_effect env ctx inp s row q at_max lrow t"
    then show "g s' = c" using g kept by (simp add: record_effect_def)
  qed
qed

lemma preserves_kept_modify [op_rules]:
  "(\<And>s. g (f s) = g s) \<Longrightarrow> preserves (\<lambda>s. g s = c) (op_modify f)"
  by (rule preserves_modify) simp

lemma preserves_rebuild: "preserves (\<lambda>s. g s = c) (rebuild_stock_cache_for_tenant env t)"
proof -
  have "g (s\<lparr>products := ps\<rparr>) = g s" for s ps
    using kept [where s = s and ms = "movements s" and ps = ps and l = "shop_ledger s" and n = "tick s"] by simp
  then show ?thesis
    unfolding rebuild_stock_cache_for_tenant_def rebuild_product_def by (intro op_rules)
qed

end

interpretation kept_inspections: kept_table inspections by unfold_locales simp
interpretation kept_dispatches: kept_table dispatches by unfold_locales simp
interpretation kept_orders: kept_table work_orders by unfold_locales simp

lemma kept_decide:
  "preserves (\<lambda>s. dispatches s = c) (decide_qa env ctx qid inp)"
  "preserves (\<lambda>s. work_orders s = w) (decide_qa env ctx qid inp)"
  unfolding decide_qa_def store_decision_def decision_effects_def rework_operation_def dispose_stock_def
    insert_qa_def update_qa_def
  by (cases "dq_decision inp"; simp; intro op_rules; simp)+

lemma kept_auto_create [op_rules]:
  "preserves (\<lambda>s. dispatches s = c) (auto_create_inspection env ctx wo rop idem)"
  "preserves (\<lambda>s. work_orders s = w) (auto_create_inspection env ctx wo rop idem)"
  unfolding auto_create_inspection_def insert_qa_def update_qa_def
  by (intro op_rules; simp)+

lemma kept_transition_op:
  "preserves (\<lambda>s. dispatches s = c) (transition_routing_op env ctx rop inp)"
  "preserves (\<lambda>s. work_orders s = w) (transition_routing_op env ctx rop inp)"
  unfolding transition_routing_op_def cascade_next_op_def activate_op_def emit_routing_op_state_changed_audit_def
  by (intro op_rules; simp)+

lemma kept_replace_bom:
  "preserves (\<lambda>s. dispatches s = c) (replace_bom_for_product env t p ls)"
  "preserves (\<lambda>s. work_orders s = w) (replace_bom_for_product env t p ls)"
  "preserves (\<lambda>s. inspections s = i) (replace_bom_for_product env t p ls)"
  unfolding replace_bom_for_product_def insert_bom_line_def
  by (intro op_rules; simp)+

lemma kept_create_wo:
  "preserves (\<lambda>s. dispatches s = c) (create_work_order env ctx inp)"
  "preserves (\<lambda>s. inspections s = i) (create_work_order env ctx inp)"
  unfolding create_work_order_def insert_wo_def insert_routing_def Let_def
  by (intro op_rules; simp)+

lemma kept_transition_wo:
  "preserves (\<lambda>s. dispatches s = c) (transition_work_order env ctx wid inp)"
  "preserves (\<lambda>s. inspections s = i) (transition_work_order env ctx wid inp)"
  unfolding transition_work_order_def transition_stock_def release_stock_def release_line_def
    cascade_first_pending_op_to_active_def activate_op_def emit_routing_op_state_changed_audit_def
  by (cases "ti_action inp"; simp; intro op_rules; simp)+

lemma kept_auto_complete:
  "preserves (\<lambda>s. dispatches s = c) (try_auto_complete_wo env ctx wid seed ev)"
  "preserves (\<lambda>s. inspections s = i) (try_auto_complete_wo env ctx wid seed ev)"
  unfolding try_auto_complete_wo_def
  by (intro op_rules kept_transition_wo)+

lemma kept_dispatch_ops:
  "preserves (\<lambda>s. inspections s = i) (create_dispatch env ctx partners inp)"
  "preserves (\<lambda>s. work_orders s = w) (create_dispatch env ctx partners inp)"
  "preserves (\<lambda>s. inspections s = i) (cancel_dispatch env ctx did)"
  "preserves (\<lambda>s. work_orders s = w) (cancel_dispatch env ctx did)"
  unfolding create_dispatch_def insert_dispatch_def cancel_dispatch_def
  by (intro op_rules; simp)+

section \<open>Orders already found\<close>

text \<open>Creating an order keeps every order that could be read; a transition keeps every completed one.\<close>

interpretation kept_lookup: kept_table "wo_by_id t w" for t w
  by unfold_locales (simp add: wo_by_id_def)

lemma insert_keeps_order: "preserves (\<lambda>s. wo_by_id t w s = Some r) (insert_wo env row)"
  unfolding insert_wo_def
  by (rule preservesI) (auto simp: op_simps wo_by_id_def select_one_append)

lemma create_keeps_order: "preserves (\<lambda>s. wo_by_id t w s = Some r) (create_work_order env ctx inp)"
  unfolding create_work_order_def insert_routing_def Let_def
  by (intro insert_keeps_order op_rules) (simp_all add: wo_by_id_def)

lemma transition_keeps_completed:
  assumes "wo_by_id t w s = Some r" and "wr_state r = ''completed''"
    and "transition_work_order env ctx wid inp s = Inr (x, s')"
  shows "wo_by_id t w s' = Some r"
proof -
  obtain wo ws where run: "transition_work_order env ctx wid inp s = Inr ((wo, ws), s')"
    using assms(3) by (cases x) auto
  obtain w0 where w0: "wo_by_id (wc_tenant ctx) wid s = Some w0"
    using run by (rule transition_wo_Inr) blast
  from transition_wo_row [OF run w0] obtain cur now where
    cur: "wo_state_from_str (wr_state w0) = Inr cur" "next_wo_state cur (ti_action inp) = Inr (wo_state wo)"
    and upd: "work_orders s' = update_where (\<lambda>w. wr_tenant w = wc_tenant ctx \<and> wr_id w = wid)
      (apply_transition (wo_state wo) now inp) (work_orders s)" by blast
  have "(t, w) \<noteq> (wc_tenant ctx, wid)"
  proof
    assume "(t, w) = (wc_tenant ctx, wid)"
    then have "w0 = r" using w0 assms(1) by simp
    then have "cur = WoCompleted" using cur(1) assms(2) by (simp add: wo_state_from_str_def)
    then show False using cur(2) by (cases "ti_action inp") simp_all
  qed
  then have "wo_by_id t w s' = wo_by_id t w s"
    unfolding wo_by_id_def upd by (intro select_one_update_other) (auto simp: apply_transition_def)
  then show ?thesis using assms(1) by simp
qed

lemma dispatched_completedI:
  assumes "dispatched_completed s" and "dispatches s' = dispatches s"
    and "\<And>t w r. wo_by_id t w s = Some r \<Longrightarrow> wr_state r = ''completed'' \<Longrightarrow> wo_by_id t w s' = Some r"
  shows "dispatched_completed s'"
  using assms unfolding dispatched_completed_def by fastforce

section \<open>The steps of the system\<close>

definition in_shop :: "string \<Rightarrow> ledger_meta \<Rightarrow> write_ctx \<Rightarrow> bool" where
  "in_shop t meta ctx \<longleftrightarrow> wc_tenant ctx = t \<and> wc_meta ctx = meta"

inductive shop_step :: "shop_env \<Rightarrow> string \<Rightarrow> ledger_meta \<Rightarrow> shop_db \<Rightarrow> shop_db \<Rightarrow> bool" for env t meta where
  step_movement: "in_shop t meta ctx \<Longrightarrow> record_movement env ctx mi s = Inr (m, s') \<Longrightarrow> shop_step env t meta s s'"
| step_rebuild: "rebuild_stock_cache_for_tenant env t' s = Inr (n, s') \<Longrightarrow> shop_step env t meta s s'"
| step_bom: "replace_bom_for_product env t' p ls s = Inr (bs, s') \<Longrightarrow> shop_step env t meta s s'"
| step_create_order: "in_shop t meta ctx \<Longrightarrow> create_work_order env ctx ci s = Inr (w, s') \<Longrightarrow> shop_step env t meta s s'"
| step_order: "in_shop t meta ctx \<Longrightarrow> transition_work_order env ctx wid ti s = Inr (x, s') \<Longrightarrow> shop_step env t meta s s'"
| step_operation: "in_shop t meta ctx \<Longrightarrow> transition_routing_op env ctx rop oi s = Inr (y, s') \<Longrightarrow> shop_step env t meta s s'"
| step_auto: "in_shop t meta ctx \<Longrightarrow> try_auto_complete_wo env ctx wid seed ev s = Inr (z, s') \<Longrightarrow> shop_step env t meta s s'"
| step_inspect: "in_shop t meta ctx \<Longrightarrow> auto_create_inspection env ctx wid rop key s = Inr (i, s') \<Longrightarrow> shop_step env t meta s s'"
| step_decide: "in_shop t meta ctx \<Longrightarrow> decide_qa env ctx qid dq s = Inr (q, s') \<Longrightarrow> shop_step env t meta s s'"
| step_draft: "in_shop t meta ctx \<Longrightarrow> create_dispatch env ctx partners cd s = Inr (d, s') \<Longrightarrow> shop_step env t meta s s'"
| step_ship: "in_shop t meta ctx \<Longrightarrow> ports_ok env ctx ports \<Longrightarrow> mark_shipped env ctx ports did si s = Inr (so, s') \<Longrightarrow>
    shop_step env t meta s s'"
| step_cancel: "in_shop t meta ctx \<Longrightarrow> cancel_dispatch env ctx did s = Inr (d, s') \<Longrightarrow> shop_step env t meta s s'"
| step_detach: "(null_spawned_invoice_id_in_tx t' drf s :: string + nat \<times> shop_db) = Inr (n, s') \<Longrightarrow>
    shop_step env t meta s s'"

definition shop_inv :: "shop_env \<Rightarrow> string \<Rightarrow> ledger_meta \<Rightarrow> shop_db \<Rightarrow> bool" where
  "shop_inv env t meta s \<longleftrightarrow> shop_ok env \<and> stock_cache_ok t s \<and>
     (length (shop_ledger s) < 2 ^ 63 \<longrightarrow> ledger_inv (sh_ledger env) meta (shop_ledger s)) \<and>
     one_live (inspections s) \<and> one_dispatch (dispatches s) \<and> dispatched_completed s"

lemma shop_inv_stock:
  "in_shop t meta ctx \<Longrightarrow> shop_inv env t meta s \<longleftrightarrow>
     stock_inv env ctx s \<and> one_live (inspections s) \<and> one_dispatch (dispatches s) \<and> dispatched_completed s"
  by (auto simp: shop_inv_def stock_inv_def in_shop_def shop_log_ok_def)

text \<open>A step that keeps the stock invariant and touches neither inspections nor dispatches.\<close>

lemma shop_inv_kept:
  assumes "in_shop t meta ctx" and "shop_inv env t meta s"
    and "preserves (stock_inv env ctx) m"
    and "preserves (\<lambda>s'. inspections s' = inspections s) m" and "preserves (\<lambda>s'. dispatches s' = dispatches s) m"
    and "m s = Inr (a, s')"
    and "\<And>t w r. wo_by_id t w s = Some r \<Longrightarrow> wr_state r = ''completed'' \<Longrightarrow> wo_by_id t w s' = Some r"
  shows "shop_inv env t meta s'"
proof -
  note inv = assms(2) [unfolded shop_inv_stock [OF assms(1)]]
  have "inspections s' = inspections s" by (rule preservesD [OF assms(4) refl assms(6)])
  moreover have d: "dispatches s' = dispatches s" by (rule preservesD [OF assms(5) refl assms(6)])
  moreover have "dispatched_completed s'" by (rule dispatched_completedI [OF _ d assms(7)]) (use inv in simp_all)
  moreover have "stock_inv env ctx s'" by (rule preservesD [OF assms(3) _ assms(6)]) (use inv in simp)
  ultimately show ?thesis using inv by (simp add: shop_inv_stock [OF assms(1)])
qed

lemma orders_kept:
  assumes "preserves (\<lambda>s'. work_orders s' = work_orders s) m" and "m s = Inr (a, s')"
  shows "wo_by_id t w s = Some r \<Longrightarrow> wo_by_id t w s' = Some r"
  using preservesD [OF assms(1) refl assms(2)] by (simp add: wo_by_id_def)

lemma in_shop_ex: "\<exists>ctx. in_shop t meta ctx"
  by (rule exI [of _ "\<lparr>wc_tenant = t, wc_actor = System, wc_meta = meta, wc_ledger_actor = a\<rparr>" for a])
    (simp add: in_shop_def)

lemma preserves_stock_rebuild: "preserves (stock_inv env ctx) (rebuild_stock_cache_for_tenant env t)"
proof -
  have "preserves (stock_inv env ctx) (rebuild_product env t p)" for p
  proof (rule preservesI)
    fix s u s'
    assume inv: "stock_inv env ctx s" and r: "rebuild_product env t p s = Inr (u, s')"
    then obtain q where q: "sh_dec_store env (movement_sum t p s) = Some q"
      and s': "s' = s\<lparr>products := update_where (\<lambda>r. pr_tenant r = t \<and> pr_id r = p)
         (\<lambda>r. r\<lparr>pr_stock_qty := Some q, pr_last_movement_at := max_at (map mv_at (movements_of t p s))\<rparr>)
         (products s)\<rparr>"
      by (auto simp: rebuild_product_def op_simps ok_or_eq_Inr)
    have "q = movement_sum t p s"
      using shop_ok_store(2) [OF _ q movement_sum_six] inv by (simp add: stock_inv_def stock_cache_ok_def)
    moreover have "movement_sum t' p' s' = movement_sum t' p' s" for t' p'
      by (rule movement_sum_same) (simp add: s')
    ultimately have "stock_cache_ok (wc_tenant ctx) s'"
      using inv by (auto simp: stock_inv_def stock_cache_ok_def s' set_update_where)
    then show "stock_inv env ctx s'" using inv by (simp add: stock_inv_def shop_log_ok_def s')
  qed
  then show ?thesis unfolding rebuild_stock_cache_for_tenant_def by (intro op_rules)
qed

lemma dispatch_rows_updated:
  assumes "in_shop t meta ctx" and "shop_inv env t meta s" and "stock_inv env ctx s'"
    and "inspections s' = inspections s" and "work_orders s' = work_orders s"
    and "dispatches s' = update_where p f (dispatches s)"
    and "\<And>d. dr_tenant (f d) = dr_tenant d" and "\<And>d. dr_wo (f d) = dr_wo d"
  shows "shop_inv env t meta s'"
  using assms(2-4) dispatched_completed_update [OF assms(5-8)] one_dispatch_update [OF assms(7,8)] assms(6)
  by (simp add: shop_inv_stock [OF assms(1)])

lemma cancel_dispatch_rows:
  assumes "cancel_dispatch env ctx did s = Inr (d, s')"
  shows "\<exists>now. dispatches s' = update_where (\<lambda>d. dr_tenant d = wc_tenant ctx \<and> dr_id d = did)
    (\<lambda>d. d\<lparr>dr_state := dispatch_state_as_str DspCancelled, dr_cancelled_at := Some now\<rparr>) (dispatches s)"
  using assms unfolding cancel_dispatch_def by (auto simp: op_simps simp del: dispatch_state_as_str.simps)

lemma shop_step_inv:
  assumes "shop_step env t meta s s'" and "shop_inv env t meta s"
  shows "shop_inv env t meta s'"
  using assms
proof (induction rule: shop_step.induct)
  case (step_movement ctx mi s m s')
  show ?case
    by (rule shop_inv_kept [OF step_movement(1,3) preserves_stock_record kept_inspections.preserves_record
        kept_dispatches.preserves_record step_movement(2)])
      (erule orders_kept [OF kept_orders.preserves_record step_movement(2)])
next
  case (step_rebuild t' s n s')
  obtain ctx where c: "in_shop t meta ctx" using in_shop_ex by blast
  show ?case
    by (rule shop_inv_kept [OF c step_rebuild(2) preserves_stock_rebuild kept_inspections.preserves_rebuild
        kept_dispatches.preserves_rebuild step_rebuild(1)]) (erule orders_kept [OF kept_orders.preserves_rebuild step_rebuild(1)])
next
  case (step_bom t' p ls s bs s')
  obtain ctx where c: "in_shop t meta ctx" using in_shop_ex by blast
  show ?case
    by (rule shop_inv_kept [OF c step_bom(2) preserves_stock_replace_bom kept_replace_bom(3,1) step_bom(1)])
      (erule orders_kept [OF kept_replace_bom(2) step_bom(1)])
next
  case (step_create_order ctx ci s w s')
  show ?case
    by (rule shop_inv_kept [OF step_create_order(1,3) preserves_stock_create_wo kept_create_wo(2,1) step_create_order(2)])
      (rule preservesD [OF create_keeps_order _ step_create_order(2)])
next
  case (step_order ctx wid ti s x s')
  show ?case
    by (rule shop_inv_kept [OF step_order(1,3) preserves_stock_transition_wo kept_transition_wo(2,1) step_order(2)])
      (rule transition_keeps_completed [OF _ _ step_order(2)])
next
  case (step_operation ctx rop oi s y s')
  note inv = step_operation(3) [unfolded shop_inv_stock [OF step_operation(1)]]
  have "one_live (inspections s')"
    using step_operation(2)
  proof (rule transition_op_Inr)
    fix r cur new now s1 insp s2
    assume "inspections s1 = inspections s"
      and c: "auto_create_inspection env ctx (ro_wo r) rop (oi_idem oi @ '':qa-create'') s1 = Inr (insp, s2)"
      and n: "cascade_next_op env ctx (ro_wo r) (ro_sequence r) now (oi_idem oi) s2 = Inr (oo_next_activated y, s')"
    then show ?thesis using auto_create_live(1) [OF _ c] cascade_next_effect(2) [OF n] inv by simp
  qed
  moreover have "dispatches s' = dispatches s" "work_orders s' = work_orders s"
    using preservesD [OF kept_transition_op(1) refl step_operation(2)]
      preservesD [OF kept_transition_op(2) refl step_operation(2)] by simp_all
  ultimately show ?case
    using inv preservesD [OF preserves_stock_transition_op _ step_operation(2)]
    by (simp add: shop_inv_stock [OF step_operation(1)] dispatched_completed_def wo_by_id_def)
next
  case (step_auto ctx wid seed ev s z s')
  have "wo_by_id t w s' = Some r" if "wo_by_id t w s = Some r" "wr_state r = ''completed''" for t w r
    using step_auto(2) that transition_keeps_completed [OF that]
    by (auto simp: try_auto_complete_wo_def op_simps split: option.splits if_splits)
  then show ?case
    by (rule shop_inv_kept [OF step_auto(1,3) preserves_stock_auto_complete kept_auto_complete(2,1) step_auto(2)])
next
  case (step_inspect ctx wid rop key s i s')
  note inv = step_inspect(3) [unfolded shop_inv_stock [OF step_inspect(1)]]
  have "dispatches s' = dispatches s" "work_orders s' = work_orders s"
    using preservesD [OF kept_auto_create(1) refl step_inspect(2)]
      preservesD [OF kept_auto_create(2) refl step_inspect(2)] by simp_all
  then show ?case
    using inv preservesD [OF preserves_stock_auto_create _ step_inspect(2)] auto_create_live(1) [OF _ step_inspect(2)]
    by (simp add: shop_inv_stock [OF step_inspect(1)] dispatched_completed_def wo_by_id_def)
next
  case (step_decide ctx qid dq s q s')
  note inv = step_decide(3) [unfolded shop_inv_stock [OF step_decide(1)]]
  have "dispatches s' = dispatches s" "work_orders s' = work_orders s"
    using preservesD [OF kept_decide(1) refl step_decide(2)] preservesD [OF kept_decide(2) refl step_decide(2)]
    by simp_all
  then show ?case
    using inv preservesD [OF preserves_stock_decide _ step_decide(2)] decide_live [OF _ step_decide(2)]
    by (simp add: shop_inv_stock [OF step_decide(1)] dispatched_completed_def wo_by_id_def)
next
  case (step_draft ctx partners cd s d s')
  note inv = step_draft(3) [unfolded shop_inv_stock [OF step_draft(1)]]
  have "inspections s' = inspections s" by (rule preservesD [OF kept_dispatch_ops(1) refl step_draft(2)])
  then show ?case
    using inv preservesD [OF preserves_stock_create_dispatch _ step_draft(2)] create_dispatch_one [OF _ _ step_draft(2)]
    by (simp add: shop_inv_stock [OF step_draft(1)])
next
  case (step_ship ctx ports did si s so s')
  have st: "stock_inv env ctx s'"
    using step_ship(4) preservesD [OF preserves_stock_ship [OF step_ship(2)] _ step_ship(3)]
    by (simp add: shop_inv_stock [OF step_ship(1)])
  from step_ship(3) show ?case
  proof (rule mark_shipped_Inr)
    fix prior
    assume "dp_state prior = Shipped \<and> s' = s \<and> so_dispatch so = prior \<and> so_invoice so = None \<or>
      dp_state prior = Drafted \<and> mark_shipped_writes env ctx ports did si prior s = Inr (so, s')"
    then show ?case
    proof (elim disjE conjE)
      assume w: "mark_shipped_writes env ctx ports did si prior s = Inr (so, s')"
      show ?thesis
        by (rule mark_shipped_writes_effect [OF w step_ship(2)],
            rule dispatch_rows_updated [OF step_ship(1,4) st]) (assumption | simp add: store_shipment_def)+
    qed (use step_ship(4) in simp)
  qed
next
  case (step_cancel ctx did s d s')
  have st: "stock_inv env ctx s'"
    using step_cancel(3) preservesD [OF preserves_stock_cancel _ step_cancel(2)]
    by (simp add: shop_inv_stock [OF step_cancel(1)])
  from cancel_dispatch_rows [OF step_cancel(2)] obtain now where
    d: "dispatches s' = update_where (\<lambda>d. dr_tenant d = wc_tenant ctx \<and> dr_id d = did)
      (\<lambda>d. d\<lparr>dr_state := dispatch_state_as_str DspCancelled, dr_cancelled_at := Some now\<rparr>) (dispatches s)" by blast
  show ?case
    by (rule dispatch_rows_updated [OF step_cancel(1,3) st
          preservesD [OF kept_dispatch_ops(3) refl step_cancel(2)]
          preservesD [OF kept_dispatch_ops(4) refl step_cancel(2)] d]) simp_all
next
  case (step_detach t' drf s n s')
  obtain ctx where c: "in_shop t meta ctx" using in_shop_ex by blast
  have s': "s' = s\<lparr>dispatches := update_where (\<lambda>d. dr_tenant d = t' \<and> dr_invoice d = Some drf)
      (\<lambda>d. d\<lparr>dr_invoice := None\<rparr>) (dispatches s)\<rparr>"
    using step_detach(1) by (auto simp: null_spawned_invoice_id_in_tx_def op_simps)
  show ?case
    by (rule dispatch_rows_updated [OF c step_detach(2), where p = "\<lambda>d. dr_tenant d = t' \<and> dr_invoice d = Some drf"
          and f = "\<lambda>d. d\<lparr>dr_invoice := None\<rparr>"])
      (use preservesD [OF preserves_stock_null _ step_detach(1)] step_detach(2) in
        \<open>simp_all add: shop_inv_stock [OF c] s'\<close>)
qed

end
