(* ===== verification/Inventory_Properties.thy ===== *)
theory Inventory_Properties
  imports Inventory Audit_Properties
begin

text \<open>
  What holds of stock movements: the cached stock is the sum of the movements, movements are
  idempotent and guarded, and the rebuild restores the cache. The section on demonstration data
  gives the concrete shop at which the properties of all manufacturing components are applied.
\<close>

section \<open>Demonstration data\<close>

definition demo_shop_env :: shop_env where
  "demo_shop_env =
     \<lparr>sh_ledger = demo_env, sh_time = \<lparr>sup_ulid = id, sup_now = int, sup_mono = of_nat\<rparr>,
      sh_json = (\<lambda>_. [1]), sh_dec_mul = (\<lambda>x y. Some (x * y)),
      sh_dec_store = (\<lambda>x. Some (of_int \<lfloor>x * 1000000\<rfloor> / 1000000)),
      sh_cost_store = Some, sh_str_debug = (\<lambda>s. CHR 0x22 # s @ [CHR 0x22]), sh_dec_show = (\<lambda>x. show_int \<lfloor>x\<rfloor>)\<rparr>"

definition demo_ctx :: write_ctx where
  "demo_ctx = \<lparr>wc_tenant = ''t1'', wc_actor = SpaOperator ''op'', wc_meta = demo_meta,
               wc_ledger_actor = demo_actor\<rparr>"

definition demo_product :: "string \<Rightarrow> product_row" where
  "demo_product p = \<lparr>pr_id = p, pr_tenant = ''t1'', pr_name = p, pr_deleted_at = None,
     pr_stock_qty = Some 0, pr_min_stock = Some 0, pr_bin_location = None, pr_last_movement_at = None\<rparr>"

definition demo_shop :: shop_db where
  "demo_shop = \<lparr>products = [demo_product ''p1'', demo_product ''p2''], movements = [], work_orders = [],
     boms = [], routings = [], inspections = [], dispatches = [], shop_ledger = [], tick = 0\<rparr>"

definition demo_receipt :: "rat \<Rightarrow> string \<Rightarrow> movement_inputs" where
  "demo_receipt q k = \<lparr>mi_product = ''p1'', mi_qty = q, mi_reason = Receipt, mi_ref_kind = RefManual,
     mi_ref_id = None, mi_notes = None, mi_idem = k\<rparr>"

lemma demo_dec_store: "sh_dec_store demo_shop_env (of_int n / 1000000) = Some (of_int n / 1000000)"
  by (simp add: demo_shop_env_def)

lemma demo_dec_store_int: "sh_dec_store demo_shop_env (of_int n) = Some (of_int n)"
proof -
  have "\<lfloor>of_int n * 1000000 :: rat\<rfloor> = n * 1000000"
    by (metis floor_of_int of_int_mult of_int_numeral)
  then show ?thesis by (simp add: demo_shop_env_def)
qed

lemma demo_dec_store_six: "sh_dec_store demo_shop_env x = Some y \<Longrightarrow> six_dec y"
  unfolding six_dec_def by (rule exI [of _ "\<lfloor>x * 1000000\<rfloor>"]) (simp add: demo_shop_env_def)

lemma demo_shop_ok: "shop_ok demo_shop_env"
proof -
  have "six_dec y \<and> (six_dec x \<longrightarrow> y = x)" if "sh_dec_store demo_shop_env x = Some y" for x y
  proof
    show "six_dec y" using demo_dec_store_six [OF that] .
    show "six_dec x \<longrightarrow> y = x"
    proof
      assume "six_dec x"
      then obtain m :: int where "x = of_int m / 1000000" unfolding six_dec_def by blast
      with that demo_dec_store [of m] show "y = x" by (simp only: option.inject)
    qed
  qed
  moreover have "z = x * y" if "sh_dec_mul demo_shop_env x y = Some z" for x y z
    using that by (simp add: demo_shop_env_def)
  moreover have "env_ok (sh_ledger demo_shop_env)" using demo_env_ok by (simp add: demo_shop_env_def)
  ultimately show ?thesis unfolding shop_ok_def by blast
qed

lemma demo_stock_inv: "stock_inv demo_shop_env demo_ctx demo_shop"
  using demo_shop_ok demo_ledger_inv
  by (simp add: stock_inv_def stock_cache_ok_def shop_log_ok_def demo_shop_def demo_product_def
      movement_sum_def movements_of_def demo_shop_env_def demo_ctx_def)

lemma six_dec_int: "six_dec (of_int n)"
  unfolding six_dec_def by (rule exI [of _ "n * 1000000"]) simp

lemma demo_append_ok:
  assumes "ledger_inv demo_env demo_meta (shop_ledger s)" and "length (shop_ledger s) + 1 < 2 ^ 63"
  shows "\<exists>row. shop_append demo_shop_env demo_ctx err k pl idem s =
    Inr ((), s\<lparr>shop_ledger := shop_ledger s @ [row], tick := Suc (tick s)\<rparr>)"
proof -
  define rq where "rq = \<lparr>rq_stamp = stamp_at (sh_time demo_shop_env) (tick s), rq_kind = k, rq_subject = [],
    rq_payload = sh_json demo_shop_env pl, rq_actor = demo_actor, rq_idem = Some idem, rq_session = None\<rparr>"
  have "length (ledger_entries demo_env (shop_ledger s)) + 1 < 2 ^ 63"
    using assms ledger_inv_length [OF assms(1)] by simp
  from sink.append_ok [OF assms(1) this, of rq] obtain i rows where
    "ledger_append demo_env demo_meta rq (shop_ledger s) = Inr (i, rows)" by blast
  then have "shop_append demo_shop_env demo_ctx err k pl idem s =
      Inr ((), s\<lparr>shop_ledger := rows, tick := Suc (tick s)\<rparr>)"
    by (simp add: shop_append_def ledger_append_def rq_def append_in_tx_def demo_shop_env_def demo_ctx_def)
  with shop_append_frame [OF this] show ?thesis by auto
qed

lemma demo_record_ok:
  assumes "ledger_inv demo_env demo_meta (shop_ledger s)" and "length (shop_ledger s) + 1 < 2 ^ 63"
    and "validate_reason_sign (mi_reason inp) (mi_qty inp) = Inr ()"
    and "\<not> exists_row (\<lambda>m. mv_tenant m = ''t1'' \<and> mv_idem m = mi_idem inp) (movements s)"
    and "exists_row (product_live ''t1'' (mi_product inp)) (products s)"
    and "\<not> exists_row (\<lambda>m. mv_id m = ''mvt_'' @ ulid_to_string demo_env (tick s)) (movements s)"
    and "mi_qty inp = of_int n" and "movement_sum ''t1'' (mi_product inp) s = of_int k"
  shows "\<exists>m s'. record_movement demo_shop_env demo_ctx inp s = Inr (m, s')"
proof -
  have u: "sh_ledger demo_shop_env = demo_env" "sup_ulid (sh_time demo_shop_env) = id"
    by (simp_all add: demo_shop_env_def)
  have c: "wc_tenant demo_ctx = ''t1''" by (simp add: demo_ctx_def)
  have q: "sh_dec_store demo_shop_env (mi_qty inp) = Some (mi_qty inp)"
    unfolding assms(7) by (rule demo_dec_store_int)
  have q2: "sh_dec_store demo_shop_env (of_int k + mi_qty inp) = Some (of_int k + mi_qty inp)"
    using demo_dec_store_int [of "k + n"] assms(7) by simp
  have app: "\<exists>s''. shop_append demo_shop_env demo_ctx err k pl idem s' = Inr ((), s'')"
    if "shop_ledger s' = shop_ledger s" for err k pl idem s'
    using demo_append_ok [of s' err k pl idem] assms(1,2) that by (simp only:) blast
  have id': "\<not> exists_row (\<lambda>m. mv_id m = ''mvt_'' @ ulid_to_string (sh_ledger demo_shop_env)
      (sup_ulid (sh_time demo_shop_env) (tick s))) (movements s)"
    using assms(6) u by (simp only: id_apply not_False_eq_True)
  show ?thesis
    by (rule record_movement_total [OF assms(3) _ _ id' q _ app])
      (use assms(4,5,8) c q2 in \<open>simp_all only: not_False_eq_True simp_thms\<close>)
qed

lemma demo_shop_facts:
  "movements demo_shop = []" "products demo_shop = [demo_product ''p1'', demo_product ''p2'']"
  "shop_ledger demo_shop = []" "movement_sum t p demo_shop = 0"
  by (simp_all add: demo_shop_def movement_sum_def movements_of_def)

lemma demo_receipt_ok: "\<exists>m s'. record_movement demo_shop_env demo_ctx (demo_receipt 5 k) demo_shop = Inr (m, s')"
  by (rule demo_record_ok [where n = 5 and k = 0])
    (simp_all add: demo_shop_facts demo_ledger_inv demo_receipt_def validate_reason_sign_def
      product_live_def demo_product_def)

section \<open>The cached stock is the sum of the movements\<close>

text \<open>
  C26: A recorded movement keeps the whole stock invariant (every product of the tenant shows in
  \<open>stock_qty\<close> exactly the sum of its movements, every stored quantity has six decimals, and
  the audit ledger still verifies), it changes the stock of its own product by its quantity and
  no other product's, and reading the stock back returns that sum.
\<close>

theorem recorded_stock_is_sum:
  assumes "stock_inv env ctx s" and "record_movement env ctx inp s = Inr (m, s')" and "six_dec (mi_qty inp)"
  shows "stock_inv env ctx s' \<and>
    (\<forall>p. movement_sum (wc_tenant ctx) p s' =
      movement_sum (wc_tenant ctx) p s + (if p = mi_product inp then mi_qty inp else 0)) \<and>
    current_stock (wc_tenant ctx) (mi_product inp) s' =
      Inr (Some (movement_sum (wc_tenant ctx) (mi_product inp) s'))"
proof -
  have inv: "stock_inv env ctx s'" by (rule stock.record_inv [OF assms(1,2)])
  have live: "exists_row (product_live (wc_tenant ctx) (mi_product inp)) (products s')"
    using assms(2)
  proof (rule record_movement_Inr)
    fix row q at_max lrow n
    assume s': "s' = record_effect env ctx inp s row q at_max lrow n"
      and l: "exists_row (product_live (wc_tenant ctx) (mi_product inp)) (products s)"
    from l obtain r where "r \<in> set (products s)" "product_live (wc_tenant ctx) (mi_product inp) r" by auto
    then have "r\<lparr>pr_stock_qty := Some q, pr_last_movement_at := Some at_max\<rparr> \<in> set (products s')"
      unfolding s' record_effect_def by (force simp: set_update_where product_live_def)
    moreover have "product_live (wc_tenant ctx) (mi_product inp)
        (r\<lparr>pr_stock_qty := Some q, pr_last_movement_at := Some at_max\<rparr>)"
      using \<open>product_live _ _ r\<close> by (simp add: product_live_def)
    ultimately show ?thesis unfolding exists_row_iff by blast
  qed
  then obtain r where r: "select_one (product_live (wc_tenant ctx) (mi_product inp)) (products s') = Some r"
    by (cases "select_one (product_live (wc_tenant ctx) (mi_product inp)) (products s')")
      (auto simp: select_one_None)
  then have "r \<in> set (products s')" "product_live (wc_tenant ctx) (mi_product inp) r"
    by (auto dest: select_one_Some)
  then have "current_stock (wc_tenant ctx) (mi_product inp) s' =
      Inr (Some (movement_sum (wc_tenant ctx) (mi_product inp) s'))"
    using inv r by (auto simp: current_stock_def stock_inv_def stock_cache_ok_def product_live_def)
  then show ?thesis using inv stock.record_stock [OF assms] by simp
qed

lemma recorded_stock_is_sum_witness:
  "\<exists>s'. movement_sum ''t1'' ''p1'' s' = 5 \<and> movement_sum ''t1'' ''p2'' s' = 0 \<and>
    current_stock ''t1'' ''p1'' s' = Inr (Some 5)"
proof -
  obtain m s' where r: "record_movement demo_shop_env demo_ctx (demo_receipt 5 ''k1'') demo_shop = Inr (m, s')"
    using demo_receipt_ok by blast
  have "six_dec (mi_qty (demo_receipt 5 ''k1''))"
    using six_dec_int [of 5] by (simp add: demo_receipt_def)
  from recorded_stock_is_sum [OF demo_stock_inv r this]
  have "movement_sum ''t1'' ''p1'' s' = 5 \<and> movement_sum ''t1'' ''p2'' s' = 0 \<and>
      current_stock ''t1'' ''p1'' s' = Inr (Some 5)"
    by (simp add: demo_shop_facts demo_receipt_def demo_ctx_def)
  then show ?thesis by blast
qed

section \<open>Guards and idempotency\<close>

text \<open>
  C28: A movement is refused before anything is written, in this order: a zero quantity or one
  whose sign contradicts the reason, a reused idempotency key (with the identifier of the first
  movement), a product that is missing or deleted. After a movement succeeded, every further
  request with its key is refused with its identifier, whatever else the request asks for.
\<close>

theorem movement_guards:
  "(mi_qty inp = 0 \<or> movement_required_sign (mi_reason inp) = Positive \<and> mi_qty inp < 0 \<or>
     movement_required_sign (mi_reason inp) = Negative \<and> mi_qty inp > 0 \<longrightarrow>
     record_movement env ctx inp s =
       Inl (WrongSignForReason (movement_reason_as_str (mi_reason inp))
              (movement_required_sign (mi_reason inp)) (mi_qty inp))) \<and>
   (\<not> exists_row (product_live (wc_tenant ctx) (mi_product inp)) (products s) \<and>
     \<not> exists_row (\<lambda>m. mv_tenant m = wc_tenant ctx \<and> mv_idem m = mi_idem inp) (movements s) \<and>
     validate_reason_sign (mi_reason inp) (mi_qty inp) = Inr () \<longrightarrow>
     record_movement env ctx inp s = Inl (IProductNotFound (mi_product inp))) \<and>
   (record_movement env ctx inp s = Inr (m, s') \<and> mi_idem inp2 = mi_idem inp \<and>
     validate_reason_sign (mi_reason inp2) (mi_qty inp2) = Inr () \<longrightarrow>
     record_movement env ctx inp2 s' = Inl (IDuplicateIdempotencyKey (sm_id m)))"
proof (intro conjI impI)
  assume "mi_qty inp = 0 \<or> movement_required_sign (mi_reason inp) = Positive \<and> mi_qty inp < 0 \<or>
     movement_required_sign (mi_reason inp) = Negative \<and> mi_qty inp > 0"
  then have "validate_reason_sign (mi_reason inp) (mi_qty inp) =
      Inl (WrongSignForReason (movement_reason_as_str (mi_reason inp))
              (movement_required_sign (mi_reason inp)) (mi_qty inp))"
    by (auto simp: validate_reason_sign_def)
  then show "record_movement env ctx inp s =
       Inl (WrongSignForReason (movement_reason_as_str (mi_reason inp))
              (movement_required_sign (mi_reason inp)) (mi_qty inp))"
    by (simp add: record_movement_def op_bind_def op_defs)
next
  assume a: "\<not> exists_row (product_live (wc_tenant ctx) (mi_product inp)) (products s) \<and>
     \<not> exists_row (\<lambda>m. mv_tenant m = wc_tenant ctx \<and> mv_idem m = mi_idem inp) (movements s) \<and>
     validate_reason_sign (mi_reason inp) (mi_qty inp) = Inr ()"
  then have "select_one (\<lambda>m. mv_tenant m = wc_tenant ctx \<and> mv_idem m = mi_idem inp) (movements s) = None"
    by (simp add: select_one_None)
  with a show "record_movement env ctx inp s = Inl (IProductNotFound (mi_product inp))"
    by (simp add: record_movement_def op_bind_def op_then_def op_defs)
next
  assume a: "record_movement env ctx inp s = Inr (m, s') \<and> mi_idem inp2 = mi_idem inp \<and>
     validate_reason_sign (mi_reason inp2) (mi_qty inp2) = Inr ()"
  then have "record_movement env ctx inp s = Inr (m, s')" by blast
  then show "record_movement env ctx inp2 s' = Inl (IDuplicateIdempotencyKey (sm_id m))"
  proof (rule record_movement_Inr)
    fix row q at_max lrow n
    assume s': "s' = record_effect env ctx inp s row q at_max lrow n"
      and new: "\<not> exists_row (\<lambda>m. mv_tenant m = wc_tenant ctx \<and> mv_idem m = mi_idem inp) (movements s)"
      and row: "mv_tenant row = wc_tenant ctx" "mv_idem row = mi_idem inp" "sm_id m = mv_id row"
    have "select_one (\<lambda>m. mv_tenant m = wc_tenant ctx \<and> mv_idem m = mi_idem inp2) (movements s') = Some row"
    proof -
      have "select_one (\<lambda>m. mv_tenant m = wc_tenant ctx \<and> mv_idem m = mi_idem inp) (movements s) = None"
        using new by (simp add: select_one_None)
      then show ?thesis using row a by (simp add: s' record_effect_def select_one_append)
    qed
    then show ?thesis using a row by (simp add: record_movement_def op_bind_def op_defs)
  qed
qed

lemma movement_guards_witness:
  "record_movement demo_shop_env demo_ctx (demo_receipt (-1) ''k1'') demo_shop =
     Inl (WrongSignForReason ''receipt'' Positive (-1)) \<and>
   record_movement demo_shop_env demo_ctx ((demo_receipt 1 ''k1'')\<lparr>mi_product := ''p9''\<rparr>) demo_shop =
     Inl (IProductNotFound ''p9'') \<and>
   (\<exists>m s'. record_movement demo_shop_env demo_ctx (demo_receipt 5 ''k1'') demo_shop = Inr (m, s') \<and>
     record_movement demo_shop_env demo_ctx (demo_receipt 7 ''k1'') s' =
       Inl (IDuplicateIdempotencyKey (sm_id m)))"
proof (intro conjI)
  show "record_movement demo_shop_env demo_ctx (demo_receipt (-1) ''k1'') demo_shop =
     Inl (WrongSignForReason ''receipt'' Positive (-1))"
    using movement_guards [of "demo_receipt (-1) ''k1''"] by (auto simp: demo_receipt_def)
  show "record_movement demo_shop_env demo_ctx ((demo_receipt 1 ''k1'')\<lparr>mi_product := ''p9''\<rparr>) demo_shop =
     Inl (IProductNotFound ''p9'')"
    using movement_guards [of "(demo_receipt 1 ''k1'')\<lparr>mi_product := ''p9''\<rparr>" demo_shop_env demo_ctx demo_shop]
    by (auto simp: demo_receipt_def demo_shop_facts validate_reason_sign_def product_live_def demo_product_def)
  obtain m s' where r: "record_movement demo_shop_env demo_ctx (demo_receipt 5 ''k1'') demo_shop = Inr (m, s')"
    using demo_receipt_ok by blast
  then show "\<exists>m s'. record_movement demo_shop_env demo_ctx (demo_receipt 5 ''k1'') demo_shop = Inr (m, s') \<and>
     record_movement demo_shop_env demo_ctx (demo_receipt 7 ''k1'') s' =
       Inl (IDuplicateIdempotencyKey (sm_id m))"
    using movement_guards [of "demo_receipt 5 ''k1''" demo_shop_env demo_ctx demo_shop m s' "demo_receipt 7 ''k1''"]
    by (auto simp: demo_receipt_def validate_reason_sign_def)
qed

section \<open>Rebuilding the cache\<close>

definition rebuild_frame :: "string \<Rightarrow> shop_db \<Rightarrow> shop_db \<Rightarrow> bool" where
  "rebuild_frame t s s' \<longleftrightarrow> movements s' = movements s \<and>
     map (\<lambda>r. (pr_id r, pr_tenant r)) (products s') = map (\<lambda>r. (pr_id r, pr_tenant r)) (products s) \<and>
     filter (\<lambda>r. pr_tenant r \<noteq> t) (products s') = filter (\<lambda>r. pr_tenant r \<noteq> t) (products s)"

definition rebuilt_for :: "string \<Rightarrow> string set \<Rightarrow> shop_db \<Rightarrow> bool" where
  "rebuilt_for t ids s \<longleftrightarrow>
     (\<forall>r \<in> set (products s). pr_tenant r = t \<and> pr_id r \<in> ids \<longrightarrow>
        pr_stock_qty r = Some (movement_sum t (pr_id r) s))"

lemma rebuild_product_step:
  assumes "shop_ok env" and "\<forall>m \<in> set (movements s). six_dec (mv_qty m)"
    and "rebuild_product env t p s = Inr ((), s1)" and "rebuilt_for t ids s"
  shows "rebuild_frame t s s1 \<and> rebuilt_for t (insert p ids) s1"
proof -
  from assms(3) obtain q where q: "sh_dec_store env (movement_sum t p s) = Some q"
    "s1 = s\<lparr>products := update_where (\<lambda>r. pr_tenant r = t \<and> pr_id r = p)
       (\<lambda>r. r\<lparr>pr_stock_qty := Some q,
              pr_last_movement_at := max_at (map mv_at (movements_of t p s))\<rparr>) (products s)\<rparr>"
    by (auto simp: rebuild_product_def op_simps)
  have "q = movement_sum t p s" by (rule shop_ok_store(2) [OF assms(1) q(1) movement_sum_six [OF assms(2)]])
  moreover have "movement_sum t p' s1 = movement_sum t p' s" for p'
    by (simp add: q(2) movement_sum_def movements_of_def)
  ultimately have "rebuilt_for t (insert p ids) s1"
    using assms(4) by (simp add: rebuilt_for_def ball_update_where q(2)) blast
  moreover have "filter (\<lambda>r. pr_tenant r \<noteq> t) (products s1) = filter (\<lambda>r. pr_tenant r \<noteq> t) (products s)"
    by (simp add: q(2), rule filter_update_where_other) simp
  ultimately show ?thesis by (simp add: rebuild_frame_def q(2) map_update_where_same)
qed

lemma rebuild_frame_trans: "rebuild_frame t s s1 \<Longrightarrow> rebuild_frame t s1 s2 \<Longrightarrow> rebuild_frame t s s2"
  by (simp add: rebuild_frame_def)

lemma rebuild_loop:
  assumes "shop_ok env" and "\<forall>m \<in> set (movements s). six_dec (mv_qty m)" and "rebuilt_for t done s"
    and "op_for (rebuild_product env t) ids s = Inr (us, s')"
  shows "rebuild_frame t s s' \<and> rebuilt_for t (done \<union> set ids) s' \<and> length us = length ids"
  using assms(2-)
proof (induction ids arbitrary: s us "done")
  case Nil
  then show ?case by (simp add: rebuild_frame_def)
next
  case (Cons p ids)
  obtain s1 us1 where r: "rebuild_product env t p s = Inr ((), s1)"
    "op_for (rebuild_product env t) ids s1 = Inr (us1, s')" "us = () # us1"
    using Cons.prems(3) by (auto simp: op_simps)
  have st: "rebuild_frame t s s1" "rebuilt_for t (insert p done) s1"
    using rebuild_product_step [OF assms(1) Cons.prems(1) r(1) Cons.prems(2)] by auto
  then have "\<forall>m \<in> set (movements s1). six_dec (mv_qty m)"
    using Cons.prems(1) by (simp add: rebuild_frame_def)
  from Cons.IH [OF this st(2) r(2)] show ?case
    using rebuild_frame_trans [OF st(1)] r(3) by (simp add: insert_commute)
qed

text \<open>
  Whatever the cache columns held, rebuilding the cache of a tenant leaves every product of
  the tenant with the sum of its movements; it changes no movement, adds and removes no product,
  leaves the other tenants' products as they were, and returns the number of the tenant's
  products.
\<close>

theorem rebuild_restores_cache:
  assumes "shop_ok env" and "\<forall>m \<in> set (movements s). six_dec (mv_qty m)"
    and "rebuild_stock_cache_for_tenant env t s = Inr (n, s')"
  shows "stock_cache_ok t s' \<and> rebuild_frame t s s' \<and>
    n = length (filter (\<lambda>r. pr_tenant r = t) (products s))"
proof -
  let ?ids = "map pr_id (filter (\<lambda>r. pr_tenant r = t) (products s))"
  obtain us where us: "op_for (rebuild_product env t) ?ids s = Inr (us, s')" "n = length us"
    using assms(3) by (auto simp: rebuild_stock_cache_for_tenant_def op_simps)
  have "rebuilt_for t {} s" by (simp add: rebuilt_for_def)
  from rebuild_loop [OF assms(1,2) this us(1)]
  have f: "rebuild_frame t s s'" "rebuilt_for t (set ?ids) s'" "n = length ?ids"
    using us(2) by auto
  have "pr_id r \<in> set ?ids" if "r \<in> set (products s')" "pr_tenant r = t" for r
  proof -
    have "(pr_id r, t) \<in> (\<lambda>r. (pr_id r, pr_tenant r)) ` set (products s')" using that by force
    then show ?thesis using f(1) unfolding rebuild_frame_def set_map [symmetric] by force
  qed
  then have "stock_cache_ok t s'"
    using f(1,2) assms(2) by (simp add: stock_cache_ok_def rebuilt_for_def rebuild_frame_def)
  then show ?thesis using f by simp
qed

definition demo_stale_shop :: shop_db where
  "demo_stale_shop = demo_shop\<lparr>products := [(demo_product ''p1'')\<lparr>pr_stock_qty := Some 9\<rparr>]\<rparr>"

lemma rebuild_restores_cache_witness:
  "\<exists>s'. rebuild_stock_cache_for_tenant demo_shop_env ''t1'' demo_stale_shop = Inr (1, s') \<and>
    stock_cache_ok ''t1'' s' \<and> \<not> stock_cache_ok ''t1'' demo_stale_shop"
proof -
  have z: "movement_sum t p demo_stale_shop = 0" "sh_dec_store demo_shop_env 0 = Some 0" for t p
    using demo_dec_store_int [of 0]
    by (simp_all add: demo_stale_shop_def movement_sum_def movements_of_def demo_shop_def)
  have "\<exists>s'. rebuild_stock_cache_for_tenant demo_shop_env ''t1'' demo_stale_shop = Inr (1, s')"
  proof -
    have ids: "map pr_id (filter (\<lambda>r. pr_tenant r = ''t1'') (products demo_stale_shop)) = [''p1'']"
      by (simp add: demo_stale_shop_def demo_product_def)
    show ?thesis
      unfolding rebuild_stock_cache_for_tenant_def op_bind_Inr op_get_Inr prod.inject simp_thms ex_simps
        HOL.simp_thms ids
      by (simp add: rebuild_product_def op_simps z ids)
  qed
  then obtain s' where s': "rebuild_stock_cache_for_tenant demo_shop_env ''t1'' demo_stale_shop = Inr (1, s')"
    by blast
  have "\<not> stock_cache_ok ''t1'' demo_stale_shop"
    using z(1) by (simp add: stock_cache_ok_def) (simp add: demo_stale_shop_def demo_product_def)
  then show ?thesis
    using s' rebuild_restores_cache [OF demo_shop_ok _ s'] by (simp add: demo_stale_shop_def demo_shop_facts)
qed

end
