(* ===== verification/Quality_Properties.thy ===== *)
theory Quality_Properties
  imports Quality Inventory_Properties
begin

text \<open>
  What holds of inspections: at most one is live per operation, the gate is what it says, a
  decision by another actor keeps the earlier one, only disposal moves stock.
\<close>

section \<open>Demonstration data\<close>

definition demo_inspection :: "string \<Rightarrow> string \<Rightarrow> string option \<Rightarrow> qa_row" where
  "demo_inspection qid st who =
     \<lparr>qr_id = qid, qr_tenant = ''t1'', qr_wo = ''w1'', qr_op = ''r1'', qr_state = st,
      qr_decided_at = None, qr_decided_by = who, qr_reason = None, qr_measurement = None,
      qr_source_event = None, qr_created_at = ''+'', qr_superseded_by = None\<rparr>"

definition demo_op :: "string \<Rightarrow> int \<Rightarrow> string \<Rightarrow> routing_row" where
  "demo_op rid n st =
     \<lparr>ro_id = rid, ro_tenant = ''t1'', ro_wo = ''w1'', ro_sequence = n, ro_name = ''mill'',
      ro_est_time = None, ro_est_cost = None, ro_state = st, ro_started_at = None, ro_completed_at = None\<rparr>"

definition demo_wo :: "string \<Rightarrow> wo_row" where
  "demo_wo st =
     \<lparr>wr_id = ''w1'', wr_tenant = ''t1'', wr_number = ''WO-1'', wr_product = ''p1'', wr_qty = 5,
      wr_state = st, wr_created_at = ''+'', wr_released_at = None, wr_started_at = None,
      wr_completed_at = None, wr_cancelled_at = None, wr_hold_reason = None, wr_notes = None,
      wr_source_quote = None, wr_minutes = None\<rparr>"

definition demo_qa_shop :: "qa_row list \<Rightarrow> shop_db" where
  "demo_qa_shop qs = demo_shop\<lparr>work_orders := [demo_wo ''in_progress''],
     routings := [demo_op ''r1'' 1 ''completed''], inspections := qs\<rparr>"

definition demo_decision :: "qa_decision \<Rightarrow> string \<Rightarrow> decide_inputs" where
  "demo_decision d k = \<lparr>dq_decision = d, dq_reason = None, dq_measurement = None,
     dq_source_event = None, dq_idem = k\<rparr>"

lemma demo_append_any:
  assumes "shop_ledger s' = []"
  shows "\<exists>s''. shop_append demo_shop_env demo_ctx err k pl idem s' = Inr ((), s'')"
  using demo_append_ok [of s' err k pl idem] demo_ledger_inv unfolding assms
  by (simp only: list.size) (metis add_0 one_less_numeral_iff one_less_power semiring_norm(76) zero_less_numeral)

section \<open>The live inspection\<close>

text \<open>
  C34: Opening an inspection and deciding one both keep at most one live inspection per routing
  operation. After opening, the live one is the new, pending inspection. After a decision, by
  whomever, the live one is the inspection the decision returns: it has the state the decision
  asks for and is signed by the deciding actor.
\<close>

theorem one_live_inspection:
  assumes "one_live (inspections s)"
  shows "(auto_create_inspection env ctx wo rop idem s = Inr (i, s1) \<longrightarrow>
      one_live (inspections s1) \<and>
      (\<exists>row. filter (qa_live_for (wc_tenant ctx) wo rop) (inspections s1) = [row] \<and>
        parse_inspection_row row = Inr i \<and> qr_state row = ''pending'')) \<and>
    (decide_qa env ctx qid inp s = Inr (out, s2) \<longrightarrow>
      one_live (inspections s2) \<and>
      (\<exists>row. filter (qa_live_for (wc_tenant ctx) (qi_wo (do_inspection out)) (qi_op (do_inspection out)))
          (inspections s2) = [row] \<and>
        parse_inspection_row row = Inr (do_inspection out) \<and>
        qi_state (do_inspection out) = qa_decision_to_state (dq_decision inp) \<and>
        qi_decided_by (do_inspection out) = Some (as_operator_string (wc_actor ctx))))"
proof (rule conjI; rule impI)
  assume a: "auto_create_inspection env ctx wo rop idem s = Inr (i, s1)"
  show "one_live (inspections s1) \<and>
      (\<exists>row. filter (qa_live_for (wc_tenant ctx) wo rop) (inspections s1) = [row] \<and>
        parse_inspection_row row = Inr i \<and> qr_state row = ''pending'')"
    by (rule conjI; rule auto_create_live [OF assms a])
next
  assume d: "decide_qa env ctx qid inp s = Inr (out, s2)"
  show "one_live (inspections s2) \<and>
      (\<exists>row. filter (qa_live_for (wc_tenant ctx) (qi_wo (do_inspection out)) (qi_op (do_inspection out)))
          (inspections s2) = [row] \<and>
        parse_inspection_row row = Inr (do_inspection out) \<and>
        qi_state (do_inspection out) = qa_decision_to_state (dq_decision inp) \<and>
        qi_decided_by (do_inspection out) = Some (as_operator_string (wc_actor ctx)))"
    by (rule conjI) (rule decide_live [OF assms d], rule decide_live_row [OF assms d])
qed

lemma demo_qa_facts:
  "inspections (demo_qa_shop qs) = qs" "shop_ledger (demo_qa_shop qs) = []" "tick (demo_qa_shop qs) = 0"
  "work_orders (demo_qa_shop qs) = [demo_wo ''in_progress'']"
  "routings (demo_qa_shop qs) = [demo_op ''r1'' 1 ''completed'']"
  "wc_tenant demo_ctx = ''t1''" "as_operator_string (wc_actor demo_ctx) = ''op''"
  by (simp_all add: demo_qa_shop_def demo_shop_def demo_ctx_def)

lemma demo_one_live: "one_live [demo_inspection ''qa_1'' ''pending'' None]"
  by (simp add: one_live_def)

lemma demo_create_runs:
  "\<exists>i s1. auto_create_inspection demo_shop_env demo_ctx ''w1'' ''r1'' ''k''
    (demo_qa_shop [demo_inspection ''qa_0'' ''pending'' None]) = Inr (i, s1)"
proof (rule auto_create_total)
  show "\<not> is_blank ''k''" by (simp add: is_blank_iff is_whitespace_def)
  show "''qa_'' @ ulid_to_string (sh_ledger demo_shop_env) (sup_ulid (sh_time demo_shop_env)
      (Suc (tick (demo_qa_shop [demo_inspection ''qa_0'' ''pending'' None])))) \<notin>
    set (map qr_id (inspections (demo_qa_shop [demo_inspection ''qa_0'' ''pending'' None])))"
    by (simp add: demo_qa_facts demo_inspection_def demo_shop_env_def demo_env_def)
qed (simp add: demo_append_any demo_qa_facts)

lemma demo_decide_runs:
  assumes "d \<in> {QaPass, QaFail}"
  shows "\<exists>out s'. decide_qa demo_shop_env demo_ctx ''qa_0'' (demo_decision d ''k'')
    (demo_qa_shop [demo_inspection ''qa_0'' ''pending'' None]) = Inr (out, s')"
proof (rule decide_total [where cur = QaPending and new = "qa_decision_to_state d"])
  show "\<not> is_blank (dq_idem (demo_decision d ''k''))"
    by (simp add: is_blank_iff is_whitespace_def demo_decision_def)
  show "qa_by_id (wc_tenant demo_ctx) ''qa_0'' (demo_qa_shop [demo_inspection ''qa_0'' ''pending'' None]) =
      Some (demo_inspection ''qa_0'' ''pending'' None)"
    by (simp add: qa_by_id_def demo_qa_facts) (simp add: demo_inspection_def)
  show "next_qa_state QaPending (dq_decision (demo_decision d ''k'')) = Inr (qa_decision_to_state d)"
    using assms by (auto simp: demo_decision_def)
  show "\<not> wo_cancelled (wo_by_id (wc_tenant demo_ctx) (qr_wo (demo_inspection ''qa_0'' ''pending'' None))
      (demo_qa_shop [demo_inspection ''qa_0'' ''pending'' None]))"
    by (simp add: wo_by_id_def demo_qa_facts) (simp add: wo_cancelled_def demo_wo_def demo_inspection_def)
qed (use assms in \<open>simp_all add: demo_append_any demo_qa_facts demo_inspection_def demo_decision_def
      qa_state_from_str_def decided_by_other_def\<close>)

lemma one_live_inspection_witness:
  "\<exists>(s1 :: shop_db) (out :: decide_outcome) (s2 :: shop_db). filter (qa_live_for ''t1'' ''w1'' ''r1'') (inspections s1) \<noteq> [] \<and>
    one_live (inspections s1) \<and> one_live (inspections s2) \<and>
    qi_state (do_inspection out) = QaPassed \<and> qi_decided_by (do_inspection out) = Some ''op''"
proof -
  let ?s = "demo_qa_shop [demo_inspection ''qa_0'' ''pending'' None]"
  have live: "one_live (inspections ?s)" by (simp add: demo_qa_facts one_live_def)
  obtain i s1 where c: "auto_create_inspection demo_shop_env demo_ctx ''w1'' ''r1'' ''k'' ?s = Inr (i, s1)"
    using demo_create_runs by blast
  obtain out s2 where d: "decide_qa demo_shop_env demo_ctx ''qa_0'' (demo_decision QaPass ''k'') ?s = Inr (out, s2)"
    using demo_decide_runs [of QaPass] by auto
  note r = one_live_inspection [OF live, of demo_shop_env demo_ctx "''w1''" "''r1''" "''k''" i s1
      "''qa_0''" "demo_decision QaPass ''k''" out s2]
  have "one_live (inspections s1) \<and> filter (qa_live_for ''t1'' ''w1'' ''r1'') (inspections s1) \<noteq> []"
    using conjunct1 [OF r] c by (auto simp: demo_qa_facts)
  moreover have "one_live (inspections s2) \<and> qi_state (do_inspection out) = QaPassed \<and>
      qi_decided_by (do_inspection out) = Some ''op''"
    using conjunct2 [OF r] d by (auto simp: demo_qa_facts demo_decision_def)
  ultimately show ?thesis by blast
qed

section \<open>The record of decisions\<close>

text \<open>
  When another actor decided before, the earlier decision stays in the table: its row changes
  only in being marked as superseded by the new row, every other row stays as it is, and the
  outcome names the superseded inspection. When the same actor decides again, or the inspection is
  still undecided, no row is added and nothing is superseded.
\<close>

theorem earlier_decision_is_kept:
  assumes "decide_qa env ctx qid inp s = Inr (out, s')" and "qa_by_id (wc_tenant ctx) qid s = Some q"
  shows "if decided_by_other q (as_operator_string (wc_actor ctx))
    then do_superseded out = Some qid \<and>
      (\<exists>row. inspections s' = update_where (\<lambda>r. qr_tenant r = wc_tenant ctx \<and> qr_id r = qid)
          (\<lambda>r. r\<lparr>qr_superseded_by := Some (qr_id row)\<rparr>) (inspections s) @ [row] \<and>
        qr_id row \<notin> set (map qr_id (inspections s)) \<and> qr_id row = qi_id (do_inspection out))
    else do_superseded out = None \<and> length (inspections s') = length (inspections s) \<and>
      qi_id (do_inspection out) = qid \<and>
      filter (\<lambda>r. qr_id r \<noteq> qid) (inspections s') = filter (\<lambda>r. qr_id r \<noteq> qid) (inspections s)"
  using assms(1)
proof (rule decide_qa_Inr)
  fix q' cur new now live old rework scrap s1 s2 pl key l
  let ?act = "as_operator_string (wc_actor ctx)"
  assume q': "qa_by_id (wc_tenant ctx) qid s = Some q'"
    and st: "store_decision env ctx q' new now inp (s\<lparr>tick := Suc (tick s)\<rparr>) = Inr ((live, old), s1)"
    and ef: "decision_effects env ctx q' live inp s1 = Inr ((rework, scrap), s2)"
    and app: "shop_append env ctx (QStorage ''audit append QaInspectionDecided'')
       (ShopEvent QaInspectionDecided) pl key s2 = Inr ((), s')"
    and l: "qa_by_id (wc_tenant ctx) live s' = Some l" "parse_inspection_row l = Inr (do_inspection out)"
    and old: "do_superseded out = old"
  have same: "inspections s' = inspections s1"
    using decision_effects_frame(1) [OF ef] shop_append_same(1) [OF app] by simp
  have q: "q' = q" "qr_id q = qid" "q \<in> set (inspections s)"
    using q' assms(2) qa_by_id_Some [OF assms(2)] by auto
  have id: "qi_id (do_inspection out) = live"
    using parse_fields(1) [OF l(2)] qa_by_id_Some [OF l(1)] by simp
  show ?thesis
  proof (cases "decided_by_other q ?act")
    case False
    note s1 = store_decision_same [OF st [unfolded q(1)] False]
    have "filter (\<lambda>r. qr_id r \<noteq> qid) (inspections s') = filter (\<lambda>r. qr_id r \<noteq> qid) (inspections s)"
      unfolding same s1(3) using q(2)
      by (simp, intro filter_update_where_other) (simp add: decided_row_def)
    then show ?thesis using False s1 old id q(2) by (simp add: same)
  next
    case True
    then show ?thesis
    proof (rule store_decision_other [OF st [unfolded q(1)]])
      fix row
      assume new: "live = qr_id row" "live \<notin> set (map qr_id (inspections (s\<lparr>tick := Suc (tick s)\<rparr>)))"
        "old = Some (qr_id q)"
        and s1: "s1 = s\<lparr>tick := Suc (tick s)\<rparr>\<lparr>tick := Suc (tick (s\<lparr>tick := Suc (tick s)\<rparr>)), inspections :=
          update_where (\<lambda>r. qr_tenant r = wc_tenant ctx \<and> qr_id r = qr_id q)
            (\<lambda>r. r\<lparr>qr_superseded_by := Some live\<rparr>) (inspections (s\<lparr>tick := Suc (tick s)\<rparr>) @ [row])\<rparr>"
      have "qr_id row \<noteq> qid" using new(1,2) q(2,3) by auto
      then have "inspections s' = update_where (\<lambda>r. qr_tenant r = wc_tenant ctx \<and> qr_id r = qid)
          (\<lambda>r. r\<lparr>qr_superseded_by := Some (qr_id row)\<rparr>) (inspections s) @ [row]"
        unfolding same s1 using q(2) new(1) by (simp add: update_where_def)
      then show ?thesis using True old new id q(2) by auto
    qed
  qed
qed

lemma demo_redecide_runs:
  "\<exists>out s'. decide_qa demo_shop_env demo_ctx ''qa_0'' (demo_decision QaFail ''k'')
    (demo_qa_shop [demo_inspection ''qa_0'' ''passed'' (Some ''op'')]) = Inr (out, s')"
proof (rule decide_total [where cur = QaPassed and new = QaFailed])
  show "qa_by_id (wc_tenant demo_ctx) ''qa_0'' (demo_qa_shop [demo_inspection ''qa_0'' ''passed'' (Some ''op'')]) =
      Some (demo_inspection ''qa_0'' ''passed'' (Some ''op''))"
    by (simp add: qa_by_id_def demo_qa_facts) (simp add: demo_inspection_def)
  show "\<not> wo_cancelled (wo_by_id (wc_tenant demo_ctx) (qr_wo (demo_inspection ''qa_0'' ''passed'' (Some ''op'')))
      (demo_qa_shop [demo_inspection ''qa_0'' ''passed'' (Some ''op'')]))"
    by (simp add: wo_by_id_def demo_qa_facts) (simp add: wo_cancelled_def demo_wo_def demo_inspection_def)
qed (simp_all add: demo_append_any demo_qa_facts demo_inspection_def demo_decision_def
      qa_state_from_str_def decided_by_other_def is_blank_iff is_whitespace_def)

lemma earlier_decision_is_kept_witness:
  "\<exists>(out :: decide_outcome) (s' :: shop_db). do_superseded out = None \<and> length (inspections s') = 1"
proof -
  obtain out s' where d: "decide_qa demo_shop_env demo_ctx ''qa_0'' (demo_decision QaFail ''k'')
      (demo_qa_shop [demo_inspection ''qa_0'' ''passed'' (Some ''op'')]) = Inr (out, s')"
    using demo_redecide_runs by blast
  have "qa_by_id (wc_tenant demo_ctx) ''qa_0'' (demo_qa_shop [demo_inspection ''qa_0'' ''passed'' (Some ''op'')]) =
      Some (demo_inspection ''qa_0'' ''passed'' (Some ''op''))"
    by (simp add: qa_by_id_def demo_qa_facts) (simp add: demo_inspection_def)
  from earlier_decision_is_kept [OF d this] have "do_superseded out = None \<and> length (inspections s') = 1"
    by (simp add: demo_qa_facts demo_inspection_def decided_by_other_def)
  then show ?thesis by blast
qed

section \<open>The gate\<close>

text \<open>
  C35: The completion gate of a work order holds exactly when the order has at least one routing
  operation and every one of them has a live inspection that passed (operation identifiers being
  unique, as the table's primary key makes them). An order without operations never passes, where the
  comment on the function says that it would, vacuously.
\<close>

theorem gate_is_every_operation_passed:
  assumes "distinct (map ro_id (routings s))"
  shows "all_live_inspections_passed_for_wo t wo s \<longleftrightarrow>
    ops_of_wo t wo s \<noteq> [] \<and>
    (\<forall>r \<in> set (ops_of_wo t wo s). \<exists>q \<in> set (inspections s).
       qr_tenant q = t \<and> qr_op q = ro_id r \<and> qr_superseded_by q = None \<and> qr_state q = ''passed'')"
proof -
  let ?ops = "ops_of_wo t wo s" and ?P = "\<lambda>r. exists_row (live_passed r) (inspections s)"
  have "distinct (map ro_id (filter ?P ?ops))"
    unfolding ops_of_wo_def filter_filter by (rule distinct_map_filter [OF assms])
  then have "length (remdups (map ro_id (filter ?P ?ops))) = length (filter ?P ?ops)"
    by (simp add: distinct_remdups_id)
  moreover have "length (filter ?P ?ops) = length ?ops \<longleftrightarrow> (\<forall>r \<in> set ?ops. ?P r)"
    by (metis (mono_tags, lifting) filter_True length_filter_less nat_less_le)
  moreover have "ro_tenant r = t" if "r \<in> set ?ops" for r using that by (simp add: ops_of_wo_def)
  ultimately show ?thesis
    by (auto simp: all_live_inspections_passed_for_wo_def Let_def live_passed_def)
qed

lemma gate_is_every_operation_passed_witness:
  "all_live_inspections_passed_for_wo ''t1'' ''w1'' (demo_qa_shop [demo_inspection ''qa_0'' ''passed'' None]) \<and>
   \<not> all_live_inspections_passed_for_wo ''t1'' ''w1'' (demo_qa_shop [demo_inspection ''qa_0'' ''failed'' None])"
proof -
  have "distinct (map ro_id (routings (demo_qa_shop qs)))" for qs by (simp add: demo_qa_facts)
  note g = gate_is_every_operation_passed [OF this]
  show ?thesis
    unfolding g by (simp add: ops_of_wo_def demo_qa_facts demo_op_def demo_inspection_def)
qed

section \<open>Effects outside the inspection\<close>

text \<open>
  C36: A decision keeps the whole stock invariant. Only disposal moves stock, by scrapping exactly
  the order's target quantity of its product; only rework touches the routing, putting exactly the
  inspected operation back to active with no completion time.
\<close>

theorem decision_effects_exact:
  assumes "stock_inv env ctx s" and "decide_qa env ctx qid inp s = Inr (out, s')"
    and "qa_by_id (wc_tenant ctx) qid s = Some q"
    and "\<forall>w \<in> set (work_orders s). six_dec (wr_qty w)"
  shows "stock_inv env ctx s' \<and>
    (if dq_decision inp = QaDispose
     then (\<exists>w. wo_by_id (wc_tenant ctx) (qr_wo q) s = Some w \<and>
       (\<forall>p. movement_sum (wc_tenant ctx) p s' =
         movement_sum (wc_tenant ctx) p s - (if p = wr_product w then wr_qty w else 0)))
     else movements s' = movements s) \<and>
    routings s' = (if dq_decision inp = QaRework
      then update_where (\<lambda>r. ro_tenant r = wc_tenant ctx \<and> ro_id r = qr_op q)
        (\<lambda>r. r\<lparr>ro_state := ''active'', ro_completed_at := None\<rparr>) (routings s)
      else routings s)"
  using assms(2)
proof (rule decide_qa_Inr)
  fix q' cur new now live old rework scrap s1 s2 pl key l
  let ?t = "wc_tenant ctx"
  assume q': "qa_by_id ?t qid s = Some q'"
    and st: "store_decision env ctx q' new now inp (s\<lparr>tick := Suc (tick s)\<rparr>) = Inr ((live, old), s1)"
    and ef: "decision_effects env ctx q' live inp s1 = Inr ((rework, scrap), s2)"
    and app: "shop_append env ctx (QStorage ''audit append QaInspectionDecided'')
       (ShopEvent QaInspectionDecided) pl key s2 = Inr ((), s')"
  have q: "q' = q" using q' assms(3) by simp
  note a = shop_append_same [OF app]
  have s1: "movements s1 = movements s" "routings s1 = routings s" "work_orders s1 = work_orders s"
    "products s1 = products s" "shop_ledger s1 = shop_ledger s"
    using st by (auto simp: store_decision_def Let_def op_simps update_qa_def insert_qa_def split: if_splits)
  have inv1: "stock_inv env ctx s1" using assms(1) stock_inv_same [OF s1(1,4,5)] by simp
  have inv: "stock_inv env ctx s'" by (rule preservesD [OF preserves_stock_decide assms(1,2)])
  show ?thesis
  proof (cases "dq_decision inp")
    case QaDispose
    from ef obtain w m where w: "wo_by_id ?t (qr_wo q) s1 = Some w"
      "record_movement env ctx (scrap_inputs w live inp) s1 = Inr (m, s2)"
      unfolding q by (auto simp: decision_effects_def QaDispose dispose_stock_def op_simps ok_or_eq_Inr)
    have w': "wo_by_id ?t (qr_wo q) s = Some w" using w(1) s1(3) by (simp add: wo_by_id_def)
    then have "six_dec (mi_qty (scrap_inputs w live inp))"
      using assms(4) select_one_Some [of _ "work_orders s" w]
      by (auto simp: scrap_inputs_def wo_by_id_def intro: six_dec_minus)
    from stock.record_stock [OF inv1 w(2) this]
    have "movement_sum ?t p s' = movement_sum ?t p s - (if p = wr_product w then wr_qty w else 0)" for p
      using movement_sum_same [OF a(6), of ?t p] movement_sum_same [OF s1(1), of ?t p]
      by (simp add: scrap_inputs_def)
    moreover have "routings s' = routings s"
      using a(3) record_movement_frame(3) [OF w(2)] s1(2) by simp
    ultimately show ?thesis using inv w' QaDispose by simp
  next
    case QaRework
    from ef obtain pl2 key2 where app2: "shop_append env ctx
        (QStorage ''audit append RoutingOpStateChanged (rework flip)'') (ShopEvent RoutingOpStateChanged)
        pl2 key2 (s1\<lparr>routings := update_where (\<lambda>r. ro_tenant r = ?t \<and> ro_id r = qr_op q)
          (\<lambda>r. r\<lparr>ro_state := ''active'', ro_completed_at := None\<rparr>) (routings s1)\<rparr>) = Inr ((), s2)"
      unfolding q by (auto simp: decision_effects_def QaRework rework_operation_def op_simps Let_def)
    from shop_append_same [OF app2] have "movements s2 = movements s1" "routings s2 =
        update_where (\<lambda>r. ro_tenant r = ?t \<and> ro_id r = qr_op q)
        (\<lambda>r. r\<lparr>ro_state := ''active'', ro_completed_at := None\<rparr>) (routings s1)" by simp_all
    then show ?thesis using inv a s1 QaRework by simp
  qed (use ef inv a s1 in \<open>simp_all add: decision_effects_def\<close>)
qed

lemma demo_qa_stock_inv: "stock_inv demo_shop_env demo_ctx (demo_qa_shop qs)"
  using demo_stock_inv stock_inv_same [of "demo_qa_shop qs" demo_shop] by (simp add: demo_qa_shop_def)

lemma decision_effects_exact_witness:
  "\<exists>(out :: decide_outcome) s'. decide_qa demo_shop_env demo_ctx ''qa_0'' (demo_decision QaFail ''k'')
      (demo_qa_shop [demo_inspection ''qa_0'' ''pending'' None]) = Inr (out, s') \<and>
    stock_inv demo_shop_env demo_ctx s' \<and> movements s' = [] \<and>
    routings s' = [demo_op ''r1'' 1 ''completed'']"
proof -
  let ?s = "demo_qa_shop [demo_inspection ''qa_0'' ''pending'' None]"
  obtain out s' where d: "decide_qa demo_shop_env demo_ctx ''qa_0'' (demo_decision QaFail ''k'') ?s = Inr (out, s')"
    using demo_decide_runs [of QaFail] by auto
  have q: "qa_by_id (wc_tenant demo_ctx) ''qa_0'' ?s = Some (demo_inspection ''qa_0'' ''pending'' None)"
    by (simp add: qa_by_id_def demo_qa_facts) (simp add: demo_inspection_def)
  have w: "\<forall>w \<in> set (work_orders ?s). six_dec (wr_qty w)"
    using six_dec_int [of 5] by (simp add: demo_qa_facts demo_wo_def)
  have "movements ?s = []" by (simp add: demo_qa_shop_def demo_shop_facts)
  with decision_effects_exact [OF demo_qa_stock_inv d q w] have
    "stock_inv demo_shop_env demo_ctx s' \<and> movements s' = [] \<and> routings s' = [demo_op ''r1'' 1 ''completed'']"
    by (simp add: demo_qa_facts demo_decision_def)
  then show ?thesis using d by blast
qed

section \<open>The inspection life cycle\<close>

lemma run_to_disposed:
  assumes "run_actions next_qa_state ds s = Inr t" and "s \<noteq> QaDisposed"
  shows "(t = QaDisposed \<longleftrightarrow> QaDispose \<in> set ds) \<and>
    (t = QaDisposed \<longrightarrow> last ds = QaDispose \<and> QaDispose \<notin> set (butlast ds) \<and>
      (s \<in> {QaPending, QaPassed} \<longrightarrow> QaFail \<in> set ds))"
  using assms
proof (induction ds arbitrary: s)
  case Nil
  then show ?case by (simp add: run_actions_def)
next
  case (Cons d ds)
  then obtain u where u: "next_qa_state s d = Inr u" "run_actions next_qa_state ds u = Inr t"
    by (auto simp: run_actions_def res_simps)
  show ?case
  proof (cases "u = QaDisposed")
    case True
    then have "ds = []" "t = QaDisposed" using u(2) qa_cycle.run_terminal [of u ds t] by auto
    with u(1) True show ?thesis by (cases "(s, d)" rule: next_qa_state.cases) auto
  next
    case False
    note ih = Cons.IH [OF u(2) False]
    from u(1) False have "d \<noteq> QaDispose" "d = QaFail \<or> u \<in> {QaPending, QaPassed} \<or> s \<notin> {QaPending, QaPassed}"
      by (cases "(s, d)" rule: next_qa_state.cases; auto)+
    moreover have "ds \<noteq> []" if "t = QaDisposed" using that u(2) False by (auto simp: run_actions_def)
    ultimately show ?thesis using ih by auto
  qed
qed

lemma disposal_reachable: "\<exists>es. run_actions next_qa_state es s = Inr QaDisposed"
proof -
  have "run_actions next_qa_state
    (case s of QaPending \<Rightarrow> [QaFail, QaDispose] | QaPassed \<Rightarrow> [QaFail, QaDispose] | QaFailed \<Rightarrow> [QaDispose]
       | QaReworking \<Rightarrow> [QaDispose] | QaDisposed \<Rightarrow> []) s = Inr QaDisposed"
    by (cases s) (simp_all add: run_actions_def)
  then show ?thesis by blast
qed

text \<open>
  C37: Along any legal sequence of decisions on a new inspection, the inspection is disposed exactly
  if a dispose decision was taken; that decision is then the last one, taken once, and some
  decision before it was to fail. Every sequence can be continued to disposal, and a disposed
  inspection accepts no further decision.
\<close>

theorem disposal_ends_inspection:
  assumes "run_actions next_qa_state ds QaPending = Inr t"
  shows "(t = QaDisposed \<longleftrightarrow> QaDispose \<in> set ds) \<and>
    (t = QaDisposed \<longrightarrow> last ds = QaDispose \<and> QaDispose \<notin> set (butlast ds) \<and> QaFail \<in> set ds \<and>
      (\<forall>d. \<exists>e. next_qa_state t d = Inl e)) \<and>
    (\<exists>es. run_actions next_qa_state (ds @ es) QaPending = Inr QaDisposed)"
proof -
  obtain es where "run_actions next_qa_state es t = Inr QaDisposed" using disposal_reachable by blast
  then have "run_actions next_qa_state (ds @ es) QaPending = Inr QaDisposed"
    using assms by (simp add: run_actions_def fold_res_append)
  moreover have "\<exists>e. next_qa_state QaDisposed d = Inl e" for d by (cases d) simp_all
  ultimately show ?thesis using run_to_disposed [OF assms] by auto
qed

lemma disposal_ends_inspection_witness:
  "last [QaPass, QaFail, QaRework, QaDispose] = QaDispose \<and>
   (\<exists>es. run_actions next_qa_state ([QaPass] @ es) QaPending = Inr QaDisposed)"
  using disposal_ends_inspection [of "[QaPass, QaFail, QaRework, QaDispose]" QaDisposed]
    disposal_ends_inspection [of "[QaPass]" QaPassed]
  by (simp add: run_actions_def)

section \<open>Refusals\<close>

text \<open>
  What a decision is refused for, before anything is written: an unknown inspection, one that
  was superseded, any decision but disposal on a cancelled order, and a decision the life cycle
  does not allow in the inspection's state.
\<close>

theorem decision_guards:
  assumes "\<not> is_blank (dq_idem inp)"
  shows "(qa_by_id (wc_tenant ctx) qid s = None \<longrightarrow>
      decide_qa env ctx qid inp s = Inl (QInspectionNotFound qid)) \<and>
    (\<forall>q. qa_by_id (wc_tenant ctx) qid s = Some q \<longrightarrow>
      (qr_superseded_by q \<noteq> None \<longrightarrow> decide_qa env ctx qid inp s = Inl (QAlreadySuperseded qid)) \<and>
      (\<forall>cur. qr_superseded_by q = None \<and> qa_state_from_str (qr_state q) = Inr cur \<longrightarrow>
        (wo_cancelled (wo_by_id (wc_tenant ctx) (qr_wo q) s) \<and> dq_decision inp \<noteq> QaDispose \<longrightarrow>
          decide_qa env ctx qid inp s = Inl (QValidation (''WO '' @ qr_wo q @
            '' is cancelled; only Dispose is legal against its QA inspections''))) \<and>
        (\<not> wo_cancelled (wo_by_id (wc_tenant ctx) (qr_wo q) s) \<and>
            next_qa_state cur (dq_decision inp) = Inl e \<longrightarrow>
          decide_qa env ctx qid inp s = Inl (QIllegalTransition e))))"
  using assms
  by (auto simp: decide_qa_def op_then_def op_bind_def op_defs simp del: append.simps)

lemma decision_guards_witness:
  "decide_qa demo_shop_env demo_ctx ''qa_9'' (demo_decision QaPass ''k'') (demo_qa_shop []) =
     Inl (QInspectionNotFound ''qa_9'') \<and>
   decide_qa demo_shop_env demo_ctx ''qa_0'' (demo_decision QaRework ''k'')
     (demo_qa_shop [demo_inspection ''qa_0'' ''passed'' None]) = Inl (QIllegalTransition (QaPassed, QaRework))"
proof -
  have b: "\<not> is_blank (dq_idem (demo_decision d ''k''))" for d
    by (simp add: is_blank_iff is_whitespace_def demo_decision_def)
  have q: "qa_by_id (wc_tenant demo_ctx) ''qa_9'' (demo_qa_shop []) = None"
    "qa_by_id (wc_tenant demo_ctx) ''qa_0'' (demo_qa_shop [demo_inspection ''qa_0'' ''passed'' None]) =
      Some (demo_inspection ''qa_0'' ''passed'' None)"
    by (simp_all add: qa_by_id_def demo_qa_facts) (simp_all add: demo_inspection_def)
  have w: "\<not> wo_cancelled (wo_by_id (wc_tenant demo_ctx) (qr_wo (demo_inspection ''qa_0'' ''passed'' None))
      (demo_qa_shop [demo_inspection ''qa_0'' ''passed'' None]))"
    by (simp add: wo_by_id_def demo_qa_facts) (simp add: wo_cancelled_def demo_wo_def demo_inspection_def)
  have st: "qr_superseded_by (demo_inspection ''qa_0'' ''passed'' None) = None"
    "qa_state_from_str (qr_state (demo_inspection ''qa_0'' ''passed'' None)) = Inr QaPassed"
    "next_qa_state QaPassed (dq_decision (demo_decision QaRework ''k'')) = Inl (QaPassed, QaRework)"
    by (simp_all add: demo_inspection_def qa_state_from_str_def demo_decision_def)
  show ?thesis
    using decision_guards [OF b [of QaPass], of demo_ctx "''qa_9''" "demo_qa_shop []" demo_shop_env]
      decision_guards [OF b [of QaRework], of demo_ctx "''qa_0''"
        "demo_qa_shop [demo_inspection ''qa_0'' ''passed'' None]" demo_shop_env "(QaPassed, QaRework)"] q w st
    by blast
qed

end
