(* ===== verification/Work_Orders_Properties.thy ===== *)
theory Work_Orders_Properties
  imports Work_Orders Quality_Properties
begin

text \<open>
  What holds of work orders: the life cycle, what each transition books on the stock, the
  cascade of the routing operations, and the automatic completion.
\<close>

section \<open>The order's life cycle\<close>

lemma run_wo_counts:
  assumes "run_actions next_wo_state as s = Inr t"
  shows "(t = WoCompleted \<longleftrightarrow> s = WoCompleted \<or> WoComplete \<in> set as) \<and>
    (t = WoCancelled \<longleftrightarrow> s = WoCancelled \<or> WoCancel \<in> set as) \<and>
    count_list as WoRelease \<le> (if s = WoCreated then 1 else 0) \<and>
    count_list as WoComplete \<le> (if s = WoCompleted \<or> s = WoCancelled then 0 else 1) \<and>
    (as \<noteq> [] \<longrightarrow> s = WoCreated \<longrightarrow> hd as = WoRelease \<or> as = [WoCancel]) \<and>
    (WoComplete \<in> set as \<longrightarrow> last as = WoComplete \<and>
      (s = WoInProgress \<or> WoStart \<in> set as \<or> WoResume \<in> set as))"
  using assms
proof (induction as arbitrary: s)
  case Nil
  then show ?case by (simp add: run_actions_def)
next
  case (Cons a as)
  then obtain u where u: "next_wo_state s a = Inr u" "run_actions next_wo_state as u = Inr t"
    by (auto simp: run_actions_def res_simps)
  note ih = Cons.IH [OF u(2)]
  have fin: "u = WoCompleted \<or> u = WoCancelled \<Longrightarrow> as = [] \<and> t = u"
    using wo_cycle.run_terminal [of u as t] u(2) by (auto simp: wo_is_terminal_def)
  show ?case
    using u(1)
  proof (cases rule: next_wo_state_cases)
  qed (use ih fin in \<open>auto split: if_splits\<close>)
qed

text \<open>
  C38: Along any legal sequence of actions on a new work order: the order is completed exactly if a
  complete action was taken and cancelled exactly if a cancel action was taken; the components are
  released at most once and the product is received at most once; a completion is the last action,
  the first was the release, and the order was started or resumed in between; no completed or
  cancelled order accepts an action.
\<close>

theorem order_life_cycle:
  assumes "run_actions next_wo_state as WoCreated = Inr t"
  shows "(t = WoCompleted \<longleftrightarrow> WoComplete \<in> set as) \<and> (t = WoCancelled \<longleftrightarrow> WoCancel \<in> set as) \<and>
    count_list as WoRelease \<le> 1 \<and> count_list as WoComplete \<le> 1 \<and>
    (t = WoCompleted \<longrightarrow> hd as = WoRelease \<and> last as = WoComplete \<and>
      (WoStart \<in> set as \<or> WoResume \<in> set as)) \<and>
    (wo_is_terminal t \<longleftrightarrow> (\<forall>a. \<exists>e. next_wo_state t a = Inl e))"
proof -
  note r = run_wo_counts [OF assms]
  have "wo_is_terminal t \<longleftrightarrow> (\<forall>a. \<exists>e. next_wo_state t a = Inl e)"
    unfolding wo_cycle.terminal_iff_stuck by (metis Inl_Inr_False sum.exhaust_sel)
  moreover have "t = WoCompleted \<Longrightarrow> hd as = WoRelease" using r by (cases as) auto
  ultimately show ?thesis using r by auto
qed

lemma order_life_cycle_witness:
  "last [WoRelease, WoStart, WoHold, WoResume, WoComplete] = WoComplete \<and>
   count_list [WoRelease, WoStart, WoHold, WoResume, WoComplete] WoRelease \<le> 1"
  using order_life_cycle [of "[WoRelease, WoStart, WoHold, WoResume, WoComplete]" WoCompleted]
  by (simp add: run_actions_def)

section \<open>Transitions of the order's row\<close>

text \<open>
  A successful transition takes the stored state along the state machine, returns the order as
  it is then stored, and leaves every other order as it was. Timestamps are set on first entry of
  the state they belong to and never change afterwards; a hold reason exists only on hold.
\<close>

theorem transition_stamps_order:
  assumes "transition_work_order env ctx wid inp s = Inr ((wo, ws), s')"
    and "wo_by_id (wc_tenant ctx) wid s = Some w"
  shows "(\<exists>cur. wo_state_from_str (wr_state w) = Inr cur \<and>
      next_wo_state cur (ti_action inp) = Inr (wo_state wo)) \<and>
    read_work_order (wc_tenant ctx) wid s' = Inr (Some wo) \<and>
    (\<forall>t i. (t, i) \<noteq> (wc_tenant ctx, wid) \<longrightarrow> wo_by_id t i s' = wo_by_id t i s) \<and>
    (wr_released_at w \<noteq> None \<longrightarrow> wo_released_at wo = wr_released_at w) \<and>
    (wr_started_at w \<noteq> None \<longrightarrow> wo_started_at wo = wr_started_at w) \<and>
    (wo_state wo = WoReleased \<longrightarrow> wo_released_at wo \<noteq> None) \<and>
    (wo_state wo = WoInProgress \<longrightarrow> wo_started_at wo \<noteq> None) \<and>
    (wo_state wo = WoCompleted \<longrightarrow> wo_completed_at wo \<noteq> None) \<and>
    (wo_state wo = WoCancelled \<longrightarrow> wo_cancelled_at wo \<noteq> None) \<and>
    (wo_hold_reason wo \<noteq> None \<longrightarrow> wo_state wo = WoOnHold)"
proof -
  let ?P = "\<lambda>w. wr_tenant w = wc_tenant ctx \<and> wr_id w = wid"
  obtain cur now where cur: "wo_state_from_str (wr_state w) = Inr cur"
      "next_wo_state cur (ti_action inp) = Inr (wo_state wo)"
    and upd: "work_orders s' = update_where ?P (apply_transition (wo_state wo) now inp) (work_orders s)"
    and row: "work_order_of_row (apply_transition (wo_state wo) now inp w) = Inr wo"
    using transition_wo_row [OF assms] by blast
  have by_id: "wo_by_id t i s' = (if (t, i) = (wc_tenant ctx, wid)
      then Some (apply_transition (wo_state wo) now inp w) else wo_by_id t i s)" for t i
  proof (cases "(t, i) = (wc_tenant ctx, wid)")
    case True
    then show ?thesis
      using assms(2) wo_by_id_Some [OF assms(2)]
      by (simp add: wo_by_id_def upd select_one_update_where apply_transition_def)
  next
    case False
    then show ?thesis
      unfolding wo_by_id_def upd by (simp only: if_False) (rule select_one_update_other, auto simp: apply_transition_def)
  qed
  then have "read_work_order (wc_tenant ctx) wid s' = Inr (Some wo)"
    using row by (simp add: read_work_order_def)
  then show ?thesis
    using cur by_id work_order_of_row_fields(3-) [OF row] work_order_of_row_hold [OF row]
    by (auto simp: apply_transition_def coalesce_def split: if_splits option.splits)
qed

section \<open>Demonstration data\<close>

definition demo_bom :: bom_row where
  "demo_bom = \<lparr>bm_id = ''b1'', bm_tenant = ''t1'', bm_product = ''p1'', bm_component = ''p2'', bm_qty = 2,
     bm_created_at = ''+'', bm_retired_at = None\<rparr>"

definition demo_wo_shop :: "string \<Rightarrow> string \<Rightarrow> string \<Rightarrow> shop_db" where
  "demo_wo_shop wst ost qst = demo_shop\<lparr>work_orders := [demo_wo wst], boms := [demo_bom],
     routings := [demo_op ''r1'' 1 ost, demo_op ''r2'' 2 ''pending''],
     inspections := [demo_inspection ''qa_1'' qst None, (demo_inspection ''qa_2'' qst None)\<lparr>qr_op := ''r2''\<rparr>]\<rparr>"

definition demo_transition :: "wo_action \<Rightarrow> transition_inputs" where
  "demo_transition a = \<lparr>ti_action = a, ti_reason = None, ti_source_event = None, ti_idem = ''k'',
     ti_minutes = None\<rparr>"

lemma demo_wo_shop_facts:
  "work_orders (demo_wo_shop w r q) = [demo_wo w]" "boms (demo_wo_shop w r q) = [demo_bom]"
  "routings (demo_wo_shop w r q) = [demo_op ''r1'' 1 r, demo_op ''r2'' 2 ''pending'']"
  "inspections (demo_wo_shop w r q) =
     [demo_inspection ''qa_1'' q None, (demo_inspection ''qa_2'' q None)\<lparr>qr_op := ''r2''\<rparr>]"
  "movements (demo_wo_shop w r q) = []" "products (demo_wo_shop w r q) = [demo_product ''p1'', demo_product ''p2'']"
  "shop_ledger (demo_wo_shop w r q) = []" "tick (demo_wo_shop w r q) = 0"
  "movement_sum t p (demo_wo_shop w r q) = 0"
  "wo_by_id ''t1'' ''w1'' (demo_wo_shop w r q) = Some (demo_wo w)"
  by (simp_all add: demo_wo_shop_def demo_shop_def movement_sum_def movements_of_def wo_by_id_def demo_wo_def)

lemma demo_gate: "all_live_inspections_passed_for_wo ''t1'' ''w1'' (demo_wo_shop w r q) \<longleftrightarrow> q = ''passed''"
proof -
  have ops: "ops_of_wo ''t1'' ''w1'' (demo_wo_shop w r q) = [demo_op ''r1'' 1 r, demo_op ''r2'' 2 ''pending'']"
    by (simp add: ops_of_wo_def demo_wo_shop_facts demo_op_def)
  have "exists_row (live_passed (demo_op i n st)) (inspections (demo_wo_shop w r q)) \<longleftrightarrow>
      q = ''passed'' \<and> (i = ''r1'' \<or> i = ''r2'')" for i n st
    unfolding exists_row_iff demo_wo_shop_facts
    by (auto simp: live_passed_def demo_op_def demo_inspection_def)
  moreover have "ro_id (demo_op i n st) = i" for i n st by (simp add: demo_op_def)
  ultimately show ?thesis
    unfolding all_live_inspections_passed_for_wo_def ops Let_def
    by (cases "q = ''passed''") (simp_all del: exists_row_iff)
qed

lemma demo_wo_stock_inv: "stock_inv demo_shop_env demo_ctx (demo_wo_shop w r q)"
  using demo_stock_inv stock_inv_same [of "demo_wo_shop w r q" demo_shop] by (simp add: demo_wo_shop_def)

lemma demo_append_room:
  assumes "stock_inv demo_shop_env demo_ctx s" and "length (shop_ledger s) + 1 < 2 ^ 63"
    and "shop_ledger s' = shop_ledger s"
  shows "\<exists>s''. shop_append demo_shop_env demo_ctx err k pl idem s' = Inr ((), s'')"
proof -
  have "sh_ledger demo_shop_env = demo_env" "wc_meta demo_ctx = demo_meta"
    by (simp_all add: demo_shop_env_def demo_ctx_def)
  then have "ledger_inv demo_env demo_meta (shop_ledger s')"
    using assms by (simp add: stock_inv_def shop_log_ok_def)
  then show ?thesis using demo_append_ok [of s' err k pl idem] assms(2,3) by auto
qed

lemma demo_ctx_facts [simp]:
  "wc_tenant demo_ctx = ''t1''" "as_operator_string (wc_actor demo_ctx) = ''op''"
  by (simp_all add: demo_ctx_def)

lemma record_ledger_length:
  "record_movement env ctx i s = Inr (m, s') \<Longrightarrow> length (shop_ledger s') = Suc (length (shop_ledger s))"
  by (erule record_movement_Inr) (simp add: record_effect_def)

lemma demo_complete_runs:
  "\<exists>wo ws s'. transition_work_order demo_shop_env demo_ctx ''w1'' (demo_transition WoComplete)
    (demo_wo_shop ''in_progress'' ''completed'' ''passed'') = Inr ((wo, ws), s')"
proof -
  let ?s = "demo_wo_shop ''in_progress'' ''completed'' ''passed''"
  let ?s1 = "?s\<lparr>tick := Suc (tick ?s)\<rparr>"
  let ?i = "completion_inputs ''w1'' ''k'' ''p1'' 5"
  have inv: "stock_inv demo_shop_env demo_ctx ?s1" using demo_wo_stock_inv by simp
  have "\<exists>m s2. record_movement demo_shop_env demo_ctx ?i ?s1 = Inr (m, s2)"
    by (rule demo_record_ok [where n = 5 and k = 0])
      (simp_all add: demo_wo_shop_facts demo_ledger_inv completion_inputs_def validate_reason_sign_def
        product_live_def demo_product_def movement_sum_def movements_of_def)
  then obtain m s2 where m: "record_movement demo_shop_env demo_ctx ?i ?s1 = Inr (m, s2)" by blast
  have inv2: "stock_inv demo_shop_env demo_ctx s2" by (rule stock.record_inv [OF inv m])
  have len: "length (shop_ledger s2) + 1 < 2 ^ 63"
    using record_ledger_length [OF m] by (simp add: demo_wo_shop_facts)
  have "transition_stock demo_shop_env demo_ctx (demo_wo ''in_progress'') ''w1'' (demo_transition WoComplete) ?s1 =
      Inr ([], s2)"
    using m by (simp add: transition_stock_def demo_transition_def demo_wo_def op_simps)
  moreover have "all_live_inspections_passed_for_wo ''t1'' ''w1'' ?s"
    by (simp add: demo_gate)
  ultimately have "\<exists>wo s'. transition_work_order demo_shop_env demo_ctx ''w1'' (demo_transition WoComplete) ?s =
      Inr ((wo, []), s')"
    using demo_append_room [OF inv2 len]
    by (intro transition_total [where w = "demo_wo ''in_progress''" and cur = WoInProgress and new = WoCompleted])
      (simp_all add: demo_wo_shop_facts, simp_all add: demo_transition_def demo_wo_def is_blank_iff
        is_whitespace_def wo_state_from_str_def)
  then show ?thesis by blast
qed

section \<open>Completion\<close>

text \<open>
  C39: A work order is completed only from in progress and only when every one of its operations has
  a live inspection that passed; completing it keeps the stock invariant and books exactly the
  order's quantity of its product into stock, and nothing else. While some operation lacks a
  passed inspection, the completion is refused with the names of those operations.
\<close>

theorem completion_gated:
  assumes "stock_inv env ctx s" and "wo_by_id (wc_tenant ctx) wid s = Some w"
    and "ti_action inp = WoComplete" and "six_dec (wr_qty w)"
  shows "(transition_work_order env ctx wid inp s = Inr ((wo, ws), s') \<longrightarrow>
      wr_state w = ''in_progress'' \<and> all_live_inspections_passed_for_wo (wc_tenant ctx) wid s \<and>
      wo_state wo = WoCompleted \<and> stock_inv env ctx s' \<and>
      (\<forall>p. movement_sum (wc_tenant ctx) p s' =
        movement_sum (wc_tenant ctx) p s + (if p = wr_product w then wr_qty w else 0))) \<and>
    (\<not> is_blank (ti_idem inp) \<and> wr_state w = ''in_progress'' \<and>
      \<not> all_live_inspections_passed_for_wo (wc_tenant ctx) wid s \<longrightarrow>
      transition_work_order env ctx wid inp s =
        Inl (WCompletionBlockedByQa (blocking_qa_op_names (wc_tenant ctx) wid s)))"
proof (rule conjI; rule impI)
  assume run: "transition_work_order env ctx wid inp s = Inr ((wo, ws), s')"
  then show "wr_state w = ''in_progress'' \<and> all_live_inspections_passed_for_wo (wc_tenant ctx) wid s \<and>
      wo_state wo = WoCompleted \<and> stock_inv env ctx s' \<and>
      (\<forall>p. movement_sum (wc_tenant ctx) p s' =
        movement_sum (wc_tenant ctx) p s + (if p = wr_product w then wr_qty w else 0))"
  proof (rule transition_wo_Inr)
    fix w' cur new now s1 pl key
    assume w': "wo_by_id (wc_tenant ctx) wid s = Some w'" "wo_state_from_str (wr_state w') = Inr cur"
      "next_wo_state cur (ti_action inp) = Inr new"
      and gate: "ti_action inp = WoComplete \<Longrightarrow> all_live_inspections_passed_for_wo (wc_tenant ctx) wid s"
      and st: "transition_stock env ctx w' wid inp (s\<lparr>tick := Suc (tick s)\<rparr>) = Inr (ws, s1)"
      and app: "shop_append env ctx (WStorage ''audit append WorkOrderStateChanged'')
         (ShopEvent WorkOrderStateChanged)
         pl key (s1\<lparr>work_orders := update_where (\<lambda>w. wr_tenant w = wc_tenant ctx \<and> wr_id w = wid)
           (apply_transition new now inp) (work_orders s1)\<rparr>) = Inr ((), s')"
    have ww: "w' = w" using w'(1) assms(2) by simp
    have cur: "cur = WoInProgress" using w'(3) assms(3) by (auto elim: next_wo_state_cases)
    then have "wr_state w = ''in_progress''" using wo_state_codec.as_from [OF w'(2)] ww by simp
    moreover have "wo_state wo = WoCompleted"
      using transition_wo_row [OF run assms(2)] w'(2) ww cur assms(3) by auto
    moreover obtain m where
      m: "record_movement env ctx (completion_inputs wid (ti_idem inp) (wr_product w) (wr_qty w))
        (s\<lparr>tick := Suc (tick s)\<rparr>) = Inr (m, s1)"
      using st unfolding ww by (auto simp: transition_stock_def assms(3) op_simps)
    have "movement_sum (wc_tenant ctx) p s' =
        movement_sum (wc_tenant ctx) p s + (if p = wr_product w then wr_qty w else 0)" for p
      using stock.record_stock [OF _ m, of p] assms(1,4) shop_append_same(6) [OF app]
        movement_sum_same [of s' s1] movement_sum_same [of "s\<lparr>tick := Suc (tick s)\<rparr>" s]
      by (simp add: completion_inputs_def)
    ultimately show ?thesis
      using gate [OF assms(3)] preservesD [OF preserves_stock_transition_wo assms(1) run] by blast
  qed
next
  assume a: "\<not> is_blank (ti_idem inp) \<and> wr_state w = ''in_progress'' \<and>
    \<not> all_live_inspections_passed_for_wo (wc_tenant ctx) wid s"
  moreover have "wo_state_from_str ''in_progress'' = Inr WoInProgress" by (simp add: wo_state_from_str_def)
  ultimately show "transition_work_order env ctx wid inp s =
      Inl (WCompletionBlockedByQa (blocking_qa_op_names (wc_tenant ctx) wid s))"
    using assms(2,3) by (simp add: transition_work_order_def op_then_def op_bind_def op_defs)
qed

lemma completion_gated_witness:
  "(\<exists>(wo :: work_order) (s' :: shop_db). wo_state wo = WoCompleted \<and> movement_sum ''t1'' ''p1'' s' = 5) \<and>
   transition_work_order demo_shop_env demo_ctx ''w1'' (demo_transition WoComplete)
     (demo_wo_shop ''in_progress'' ''completed'' ''failed'') =
     Inl (WCompletionBlockedByQa (blocking_qa_op_names ''t1'' ''w1''
       (demo_wo_shop ''in_progress'' ''completed'' ''failed'')))"
proof -
  have a: "ti_action (demo_transition WoComplete) = WoComplete" "\<not> is_blank (ti_idem (demo_transition WoComplete))"
    "wr_state (demo_wo ''in_progress'') = ''in_progress''" "wr_qty (demo_wo ''in_progress'') = 5"
    "wr_product (demo_wo ''in_progress'') = ''p1''" "six_dec (wr_qty (demo_wo ''in_progress''))"
    using six_dec_int [of 5] by (simp_all add: demo_transition_def is_blank_iff is_whitespace_def demo_wo_def)
  note c = completion_gated [OF demo_wo_stock_inv _ a(1,6), of "''w1''" _ _ _, unfolded demo_ctx_facts,
      OF demo_wo_shop_facts(10)]
  obtain wo ws s' where "transition_work_order demo_shop_env demo_ctx ''w1'' (demo_transition WoComplete)
    (demo_wo_shop ''in_progress'' ''completed'' ''passed'') = Inr ((wo, ws), s')"
    using demo_complete_runs by blast
  then have "wo_state wo = WoCompleted \<and> movement_sum ''t1'' ''p1'' s' = 5"
    using conjunct1 [OF c] a by (simp add: demo_wo_shop_facts)
  moreover have "\<not> all_live_inspections_passed_for_wo ''t1'' ''w1'' (demo_wo_shop ''in_progress'' ''completed'' ''failed'')"
    by (simp add: demo_gate)
  then have "transition_work_order demo_shop_env demo_ctx ''w1'' (demo_transition WoComplete)
     (demo_wo_shop ''in_progress'' ''completed'' ''failed'') =
     Inl (WCompletionBlockedByQa (blocking_qa_op_names ''t1'' ''w1''
       (demo_wo_shop ''in_progress'' ''completed'' ''failed'')))"
    using conjunct2 [OF c] a by blast
  ultimately show ?thesis by blast
qed

section \<open>Release\<close>

lemma op_for_release_routings:
  "op_for (release_line env ctx wid qty idem) ls s = Inr (ws, s') \<Longrightarrow> routings s' = routings s"
  by (erule op_for_frame) (rule release_line_routings)

text \<open>
  C40: A work order is released only when its product has an active bill of materials. The release
  takes from every component's stock exactly the bill's quantity times the order's quantity, summed
  over the component's lines, leaves every other product's stock, keeps the stock invariant, and
  activates the first pending operation of the order (if there is one) and no other. The products
  of the quantities must be exact to six decimals and below 2 to the 40, the column's range.
\<close>

theorem release_consumes_bom:
  assumes "stock_inv env ctx s" and "shop_ok env"
    and "transition_work_order env ctx wid inp s = Inr ((wo, ws), s')" and "ti_action inp = WoRelease"
    and "wo_by_id (wc_tenant ctx) wid s = Some w" and "six_dec (wr_qty w)"
    and "bom = list_active_bom_for_product (wc_tenant ctx) (wr_product w) s"
    and "\<forall>l \<in> set bom. six_dec (bl_qty l) \<and> six_dec (bl_qty l * wr_qty w) \<and> \<bar>bl_qty l * wr_qty w\<bar> < 2 ^ 40"
  shows "bom \<noteq> [] \<and> stock_inv env ctx s' \<and>
    (\<forall>p. movement_sum (wc_tenant ctx) p s' = movement_sum (wc_tenant ctx) p s -
      (\<Sum>l \<leftarrow> filter (\<lambda>l. bl_component l = p) bom. bl_qty l * wr_qty w)) \<and>
    (\<exists>now. routings s' = activated (wc_tenant ctx)
      (first_row op_order (filter (\<lambda>r. ro_tenant r = wc_tenant ctx \<and> ro_wo r = wid \<and> ro_state r = ''pending'')
        (routings s))) now (routings s))"
  using assms(3,4,5)
proof (rule transition_release)
  fix wss s1 s2 s3
  assume b: "list_active_bom_for_product (wc_tenant ctx) (wr_product w) s \<noteq> []"
    and s1: "s1 = s\<lparr>tick := Suc (tick s)\<rparr>"
    and run: "op_for (release_line env ctx wid (wr_qty w) (ti_idem inp))
       (list_active_bom_for_product (wc_tenant ctx) (wr_product w) s) s1 = Inr (wss, s2)"
    and casc: "cascade_first_pending_op_to_active env ctx wid (ti_idem inp) s2 = Inr ((), s3)"
    and same: "movements s' = movements s3" "routings s' = routings s3"
  have inv1: "stock_inv env ctx s1" using assms(1) by (simp add: s1)
  have "movement_sum (wc_tenant ctx) p s' = movement_sum (wc_tenant ctx) p s -
      (\<Sum>l \<leftarrow> filter (\<lambda>l. bl_component l = p) bom. bl_qty l * wr_qty w)" for p
    using stock_inv_release_lines [OF inv1 assms(2) run assms(6) assms(8) [unfolded assms(7)], of p]
      movement_sum_same [of s' s2] movement_sum_same [of s1 s] same(1) cascade_first_frame(1) [OF casc]
    by (simp add: s1 assms(7))
  moreover have "routings s2 = routings s" using op_for_release_routings [OF run] by (simp add: s1)
  ultimately show ?thesis
    using b assms(7) preservesD [OF preserves_stock_transition_wo assms(1,3)]
      cascade_first_routings [OF casc] same(2) by simp
qed

lemma demo_bom_active:
  "list_active_bom_for_product ''t1'' ''p1'' (demo_wo_shop w r q) =
     [\<lparr>bl_id = ''b1'', bl_product = ''p1'', bl_component = ''p2'', bl_qty = 2, bl_created_at = ''+'',
       bl_retired_at = None\<rparr>]"
  by (simp add: list_active_bom_for_product_def demo_wo_shop_facts bom_active_def demo_bom_def)

lemma bom_tick [simp]: "list_active_bom_for_product t p (s\<lparr>tick := n\<rparr>) = list_active_bom_for_product t p s"
  by (simp add: list_active_bom_for_product_def)

lemma preserves_stock_cascade:
  "preserves (stock_inv env ctx) (cascade_first_pending_op_to_active env ctx wid idem)"
  unfolding cascade_first_pending_op_to_active_def by (intro op_rules)

lemma cascade_ledger:
  "cascade_first_pending_op_to_active env ctx wid idem s = Inr (u, s') \<Longrightarrow>
   length (shop_ledger s') \<le> Suc (length (shop_ledger s))"
  unfolding cascade_first_pending_op_to_active_def activate_op_def emit_routing_op_state_changed_audit_def
  by (auto simp: op_simps simp del: append.simps dest!: shop_append_frame split: option.splits)

lemma demo_release_runs:
  "\<exists>wo ws s'. transition_work_order demo_shop_env demo_ctx ''w1'' (demo_transition WoRelease)
    (demo_wo_shop ''created'' ''pending'' ''pending'') = Inr ((wo, ws), s')"
proof -
  let ?s = "demo_wo_shop ''created'' ''pending'' ''pending''"
  let ?s1 = "?s\<lparr>tick := Suc (tick ?s)\<rparr>"
  let ?l = "\<lparr>bl_id = ''b1'', bl_product = ''p1'', bl_component = ''p2'', bl_qty = 2, bl_created_at = ''+'',
       bl_retired_at = None\<rparr>"
  let ?i = "release_inputs ''w1'' ''k'' ?l 10"
  have inv: "stock_inv demo_shop_env demo_ctx ?s1" using demo_wo_stock_inv by simp
  have "\<exists>m s2. record_movement demo_shop_env demo_ctx ?i ?s1 = Inr (m, s2)"
    by (rule demo_record_ok [where n = "- 10" and k = 0])
      (simp_all add: demo_wo_shop_facts demo_ledger_inv release_inputs_def validate_reason_sign_def
        product_live_def demo_product_def movement_sum_def movements_of_def)
  then obtain m s2 where m: "record_movement demo_shop_env demo_ctx ?i ?s1 = Inr (m, s2)" by blast
  have inv2: "stock_inv demo_shop_env demo_ctx s2" by (rule stock.record_inv [OF inv m])
  have len: "length (shop_ledger s2) = 1"
    using record_ledger_length [OF m] by (simp add: demo_wo_shop_facts)
  have rt: "routings s2 = [demo_op ''r1'' 1 ''pending'', demo_op ''r2'' 2 ''pending'']"
    using record_movement_frame(3) [OF m] by (simp add: demo_wo_shop_facts)
  have mul: "sh_dec_mul demo_shop_env 2 5 = Some 10" by (simp add: demo_shop_env_def)
  obtain w where line: "release_line demo_shop_env demo_ctx ''w1'' 5 ''k'' ?l ?s1 = Inr (w, s2)"
    using m mul by (simp add: release_line_def op_simps)
  have first: "first_row op_order (filter (\<lambda>r. ro_tenant r = ''t1'' \<and> ro_wo r = ''w1'' \<and> ro_state r = ''pending'')
      (routings s2)) = Some (demo_op ''r1'' 1 ''pending'')"
    unfolding rt by (simp add: demo_op_def first_row_def op_order_def)
  have "\<exists>s3. cascade_first_pending_op_to_active demo_shop_env demo_ctx ''w1'' ''k'' s2 = Inr ((), s3)"
    unfolding cascade_first_pending_op_to_active_def
    by (simp add: op_simps first activate_op_def emit_routing_op_state_changed_audit_def del: append.simps)
      (rule demo_append_room [OF inv2], simp_all add: len)
  then obtain s3 where casc: "cascade_first_pending_op_to_active demo_shop_env demo_ctx ''w1'' ''k'' s2 = Inr ((), s3)"
    by blast
  have st: "transition_stock demo_shop_env demo_ctx (demo_wo ''created'') ''w1'' (demo_transition WoRelease) ?s1 =
      Inr (w, s3)"
    using line casc demo_bom_active
    by (simp add: transition_stock_def demo_transition_def demo_wo_def release_stock_def op_simps)
  have inv3: "stock_inv demo_shop_env demo_ctx s3" by (rule preservesD [OF preserves_stock_cascade inv2 casc])
  have len3: "length (shop_ledger s3) + 1 < 2 ^ 63" using cascade_ledger [OF casc] by (simp add: len)
  have "\<exists>wo s'. transition_work_order demo_shop_env demo_ctx ''w1'' (demo_transition WoRelease) ?s =
      Inr ((wo, w), s')"
    using demo_append_room [OF inv3 len3] st
    by (intro transition_total [where w = "demo_wo ''created''" and cur = WoCreated and new = WoReleased])
      (simp_all add: demo_wo_shop_facts, simp_all add: demo_transition_def demo_wo_def is_blank_iff
        is_whitespace_def wo_state_from_str_def)
  then show ?thesis by blast
qed

lemma release_consumes_bom_witness:
  "\<exists>s'. movement_sum ''t1'' ''p2'' s' = - 10 \<and> movement_sum ''t1'' ''p1'' s' = 0 \<and>
    map ro_state (routings s') = [''active'', ''pending'']"
proof -
  let ?s = "demo_wo_shop ''created'' ''pending'' ''pending''"
  obtain wo ws s' where r: "transition_work_order demo_shop_env demo_ctx ''w1'' (demo_transition WoRelease) ?s =
      Inr ((wo, ws), s')"
    using demo_release_runs by blast
  have w: "wo_by_id (wc_tenant demo_ctx) ''w1'' ?s = Some (demo_wo ''created'')"
    "ti_action (demo_transition WoRelease) = WoRelease" "six_dec (wr_qty (demo_wo ''created''))"
    "wr_product (demo_wo ''created'') = ''p1''" "wr_qty (demo_wo ''created'') = 5"
    using six_dec_int [of 5] by (simp_all add: demo_wo_shop_facts, simp_all add: demo_transition_def demo_wo_def)
  have q: "six_dec 2" "six_dec 10" using six_dec_int [of 2] six_dec_int [of 10] by simp_all
  have b: "\<forall>l \<in> set (list_active_bom_for_product (wc_tenant demo_ctx) (wr_product (demo_wo ''created'')) ?s).
      six_dec (bl_qty l) \<and> six_dec (bl_qty l * wr_qty (demo_wo ''created'')) \<and>
      \<bar>bl_qty l * wr_qty (demo_wo ''created'')\<bar> < 2 ^ 40"
    using q by (simp add: w demo_bom_active)
  from release_consumes_bom [OF demo_wo_stock_inv demo_shop_ok r w(2,1,3) refl b] obtain now where
    m: "movement_sum ''t1'' p s' = - (\<Sum>l \<leftarrow> filter (\<lambda>l. bl_component l = p)
        (list_active_bom_for_product ''t1'' ''p1'' ?s). bl_qty l * 5)"
    and rt: "routings s' = activated ''t1'' (first_row op_order (filter (\<lambda>r. ro_tenant r = ''t1'' \<and>
      ro_wo r = ''w1'' \<and> ro_state r = ''pending'') (routings ?s))) now (routings ?s)" for p
    by (auto simp: w demo_wo_shop_facts)
  have "map ro_state (routings s') = [''active'', ''pending'']"
    unfolding rt demo_wo_shop_facts by (simp add: demo_op_def first_row_def op_order_def activated_def update_where_def)
  then show ?thesis using m [of "''p2''"] m [of "''p1''"] by (auto simp: demo_bom_active)
qed

section \<open>Completing an operation\<close>

text \<open>
  Completing a routing operation is possible only while it is active. It stores the operation as
  completed, opens a pending inspection that is the operation's only live one, and activates exactly
  the pending operation of the same order with the next higher sequence number (none, when there is
  none); it moves no stock and changes no order.
\<close>

theorem operation_completion_cascades:
  assumes "one_live (inspections s)" and "transition_routing_op env ctx rop inp s = Inr (out, s')"
    and "op_by_id (wc_tenant ctx) rop s = Some r"
  shows "ro_state r = ''active'' \<and> one_live (inspections s') \<and>
    (\<exists>q. filter (qa_live_for (wc_tenant ctx) (ro_wo r) rop) (inspections s') = [q] \<and>
      qr_state q = ''pending'' \<and> qr_id q = oo_qa_inspection out) \<and>
    movements s' = movements s \<and> work_orders s' = work_orders s \<and>
    (\<exists>now done nxt. done = update_where (\<lambda>r. ro_tenant r = wc_tenant ctx \<and> ro_id r = rop)
        (\<lambda>r. r\<lparr>ro_state := ''completed'', ro_completed_at := coalesce (ro_completed_at r) (Some now)\<rparr>)
        (routings s) \<and>
      nxt = first_row op_order (filter (\<lambda>x. ro_tenant x = wc_tenant ctx \<and> ro_wo x = ro_wo r \<and>
        ro_state x = ''pending'' \<and> ro_sequence x > ro_sequence r) done) \<and>
      routings s' = activated (wc_tenant ctx) nxt now done \<and>
      (nxt = None \<longrightarrow> oo_next_activated out = None))"
  using assms(2)
proof (rule transition_op_Inr)
  fix r' cur new now s1 insp s2
  assume r': "op_by_id (wc_tenant ctx) rop s = Some r'" "op_state_from_str (ro_state r') = Inr cur"
    "next_routing_op_state cur (oi_action inp) = Inr new"
    and s1: "routings s1 = update_where (\<lambda>r. ro_tenant r = wc_tenant ctx \<and> ro_id r = rop)
        (\<lambda>r. r\<lparr>ro_state := op_state_as_str new, ro_completed_at := coalesce (ro_completed_at r) (Some now)\<rparr>)
        (routings s)"
      "inspections s1 = inspections s" "movements s1 = movements s" "work_orders s1 = work_orders s"
    and cr: "auto_create_inspection env ctx (ro_wo r') rop (oi_idem inp @ '':qa-create'') s1 = Inr (insp, s2)"
    and nx: "cascade_next_op env ctx (ro_wo r') (ro_sequence r') now (oi_idem inp) s2 =
      Inr (oo_next_activated out, s')"
    and out: "oo_qa_inspection out = qi_id insp"
  have r: "r' = r" using r'(1) assms(3) by simp
  have new: "new = OpCompleted" "cur = OpActive"
    using r'(3) by (cases "(cur, oi_action inp)" rule: next_routing_op_state.cases; simp)+
  have live: "one_live (inspections s1)" using assms(1) s1(2) by simp
  obtain q where q: "filter (qa_live_for (wc_tenant ctx) (ro_wo r) rop) (inspections s2) = [q]"
    "parse_inspection_row q = Inr insp" "qr_state q = ''pending''"
    using auto_create_live(2) [OF live cr] r by blast
  note f = auto_create_frame [OF cr] cascade_next_effect [OF nx]
  let ?nxt = "first_row op_order (filter (\<lambda>x. ro_tenant x = wc_tenant ctx \<and> ro_wo x = ro_wo r \<and>
    ro_state x = ''pending'' \<and> ro_sequence x > ro_sequence r) (routings s2))"
  have completed: "routings s2 = update_where (\<lambda>r. ro_tenant r = wc_tenant ctx \<and> ro_id r = rop)
        (\<lambda>r. r\<lparr>ro_state := ''completed'', ro_completed_at := coalesce (ro_completed_at r) (Some now)\<rparr>)
        (routings s)"
    using f(1) s1(1) new by simp
  have eff: "routings s' = activated (wc_tenant ctx) ?nxt now (routings s2)"
    "?nxt = None \<longrightarrow> oo_next_activated out = None"
    using f(5,9) unfolding r by blast+
  have casc: "\<exists>now done nxt. done = update_where (\<lambda>r. ro_tenant r = wc_tenant ctx \<and> ro_id r = rop)
        (\<lambda>r. r\<lparr>ro_state := ''completed'', ro_completed_at := coalesce (ro_completed_at r) (Some now)\<rparr>)
        (routings s) \<and>
      nxt = first_row op_order (filter (\<lambda>x. ro_tenant x = wc_tenant ctx \<and> ro_wo x = ro_wo r \<and>
        ro_state x = ''pending'' \<and> ro_sequence x > ro_sequence r) done) \<and>
      routings s' = activated (wc_tenant ctx) nxt now done \<and>
      (nxt = None \<longrightarrow> oo_next_activated out = None)"
    by (rule exI [of _ now], rule exI [of _ "routings s2"], rule exI [of _ ?nxt])
      (rule conjI [OF completed conjI [OF refl conjI [OF eff]]])
  have "ro_state r = ''active''" using op_state_codec.as_from [OF r'(2)] r new by simp
  moreover have "one_live (inspections s')" using auto_create_live(1) [OF live cr] f by simp
  moreover have "\<exists>q. filter (qa_live_for (wc_tenant ctx) (ro_wo r) rop) (inspections s') = [q] \<and>
      qr_state q = ''pending'' \<and> qr_id q = oo_qa_inspection out"
    using q f out parse_fields(1) [OF q(2)] by simp
  moreover have "movements s' = movements s" "work_orders s' = work_orders s" using f s1 by simp_all
  ultimately show ?thesis using casc by blast
qed

definition demo_op_completion :: op_transition_inputs where
  "demo_op_completion = \<lparr>oi_action = OpComplete, oi_source_event = None, oi_idem = ''k''\<rparr>"

lemma demo_op_facts:
  "ro_id (demo_op i n st) = i" "ro_tenant (demo_op i n st) = ''t1''" "ro_wo (demo_op i n st) = ''w1''"
  "ro_sequence (demo_op i n st) = n" "ro_state (demo_op i n st) = st"
  "ro_completed_at (demo_op i n st) = None" "ro_started_at (demo_op i n st) = None"
  by (simp_all add: demo_op_def)

lemma read_op_total:
  assumes "op_by_id t i s = Some r" and "ro_state r = op_state_as_str st"
  shows "\<exists>p. read_routing_op t i s = Inr (Some p)"
  using assms by (simp add: read_routing_op_def routing_op_of_row_def op_state_codec.from_as)

lemma demo_emit_room:
  assumes "stock_inv demo_shop_env demo_ctx s" and "length (shop_ledger s) + 1 < 2 ^ 63"
    and "shop_ledger s' = shop_ledger s"
  shows "\<exists>s''. emit_routing_op_state_changed_audit demo_shop_env demo_ctx rop wid a b idem s' = Inr ((), s'')"
  unfolding emit_routing_op_state_changed_audit_def by (rule demo_append_room [OF assms])

lemma demo_op_runs:
  "\<exists>out s'. transition_routing_op demo_shop_env demo_ctx ''r1'' demo_op_completion
    (demo_wo_shop ''in_progress'' ''active'' ''pending'') = Inr (out, s')"
proof -
  let ?s = "demo_wo_shop ''in_progress'' ''active'' ''pending''"
  define now where "now = rfc3339_format (sh_ledger demo_shop_env) (sup_now (sh_time demo_shop_env) (tick ?s))"
  define s0 where "s0 = ?s\<lparr>tick := Suc (tick ?s), routings := update_where (\<lambda>r. ro_tenant r = ''t1'' \<and> ro_id r = ''r1'')
    (\<lambda>r. r\<lparr>ro_state := op_state_as_str OpCompleted, ro_completed_at := coalesce (ro_completed_at r) (Some now)\<rparr>)
    (routings ?s)\<rparr>"
  have inv0: "stock_inv demo_shop_env demo_ctx s0"
    using demo_wo_stock_inv stock_inv_same [of s0 ?s] by (simp add: s0_def)
  have len0: "length (shop_ledger s0) + 1 < 2 ^ 63" by (simp add: s0_def demo_wo_shop_facts)
  obtain s1 where s1: "emit_routing_op_state_changed_audit demo_shop_env demo_ctx ''r1'' ''w1'' OpActive OpCompleted
      ''k'' s0 = Inr ((), s1)"
    using demo_emit_room [OF inv0 len0 refl] by blast
  have inv1: "stock_inv demo_shop_env demo_ctx s1" by (rule preservesD [OF preserves_stock_emit inv0 s1])
  note e1 = s1 [unfolded emit_routing_op_state_changed_audit_def]
  have f1: "length (shop_ledger s1) = 1" "tick s1 = 2"
    using shop_append_frame [OF e1] by (auto simp: s0_def demo_wo_shop_facts)
  have "\<exists>i s2. auto_create_inspection demo_shop_env demo_ctx ''w1'' ''r1'' (''k'' @ '':qa-create'') s1 = Inr (i, s2)"
  proof (rule auto_create_total)
    show "\<not> is_blank (''k'' @ '':qa-create'')" by (simp add: is_blank_iff is_whitespace_def)
    show "''qa_'' @ ulid_to_string (sh_ledger demo_shop_env) (sup_ulid (sh_time demo_shop_env) (Suc (tick s1))) \<notin>
        set (map qr_id (inspections s1))"
      using shop_append_same(1) [OF e1]
      by (simp add: f1 s0_def demo_wo_shop_facts demo_inspection_def demo_shop_env_def demo_env_def
          numeral_3_eq_3)
  qed (use demo_append_room [OF inv1] f1 in simp)
  then obtain i s2 where s2: "auto_create_inspection demo_shop_env demo_ctx ''w1'' ''r1'' (''k'' @ '':qa-create'') s1 =
      Inr (i, s2)" by blast
  have inv2: "stock_inv demo_shop_env demo_ctx s2" by (rule preservesD [OF preserves_stock_auto_create inv1 s2])
  have len2: "length (shop_ledger s2) = 2" using s2 by (rule auto_create_Inr) (simp add: f1)
  have rt: "routings s2 = [(demo_op ''r1'' 1 ''completed'')\<lparr>ro_completed_at := Some now\<rparr>, demo_op ''r2'' 2 ''pending'']"
    using auto_create_frame(1) [OF s2] shop_append_same(3) [OF e1]
    by (simp add: s0_def demo_wo_shop_facts update_where_def demo_op_def coalesce_def)
  have nx: "first_row op_order (filter (\<lambda>r. ro_tenant r = ''t1'' \<and> ro_wo r = ''w1'' \<and> ro_state r = ''pending'' \<and>
      1 < ro_sequence r) (routings s2)) = Some (demo_op ''r2'' 2 ''pending'')"
    by (simp add: rt demo_op_facts first_row_def)
  define s3 where "s3 = s2\<lparr>routings := update_where (\<lambda>r. ro_tenant r = ''t1'' \<and> ro_id r = ''r2'')
    (\<lambda>r. r\<lparr>ro_state := ''active'', ro_started_at := coalesce (ro_started_at r) (Some now)\<rparr>) (routings s2)\<rparr>"
  have "shop_ledger s3 = shop_ledger s2" by (simp add: s3_def)
  then obtain s4 where s4: "emit_routing_op_state_changed_audit demo_shop_env demo_ctx ''r2'' ''w1'' OpPending OpActive
      (''k'' @ '':cascade'') s3 = Inr ((), s4)"
    using demo_emit_room [OF inv2] len2 by fastforce
  have rt4: "routings s4 = [(demo_op ''r1'' 1 ''completed'')\<lparr>ro_completed_at := Some now\<rparr>,
      (demo_op ''r2'' 2 ''active'')\<lparr>ro_started_at := Some now\<rparr>]"
    using shop_append_same(3) [OF s4 [unfolded emit_routing_op_state_changed_audit_def]]
    by (simp add: s3_def rt update_where_def demo_op_def coalesce_def)
  obtain p q where pq: "read_routing_op ''t1'' ''r2'' s4 = Inr (Some p)" "read_routing_op ''t1'' ''r1'' s4 = Inr (Some q)"
    using read_op_total [of "''t1''" "''r2''" s4 "(demo_op ''r2'' 2 ''active'')\<lparr>ro_started_at := Some now\<rparr>" OpActive]
      read_op_total [of "''t1''" "''r1''" s4 "(demo_op ''r1'' 1 ''completed'')\<lparr>ro_completed_at := Some now\<rparr>" OpCompleted]
    by (auto simp: op_by_id_def rt4 demo_op_facts)
  have casc: "cascade_next_op demo_shop_env demo_ctx ''w1'' 1 now ''k'' s2 = Inr (Some p, s4)"
    unfolding cascade_next_op_def using nx s4 pq
    by (simp add: op_simps activate_op_def demo_op_facts s3_def)
  have "op_by_id ''t1'' ''r1'' ?s = Some (demo_op ''r1'' 1 ''active'')"
    by (simp add: op_by_id_def demo_wo_shop_facts demo_op_facts)
  moreover have "\<not> is_blank ''k''" by (simp add: is_blank_iff is_whitespace_def)
  moreover have "op_state_from_str ''active'' = Inr OpActive" by (simp add: op_state_from_str_def)
  ultimately have "transition_routing_op demo_shop_env demo_ctx ''r1'' demo_op_completion ?s = Inr (\<lparr>oo_routing_op = q,
      oo_next_activated = Some p, oo_qa_inspection = qi_id i\<rparr>, s4)"
    unfolding transition_routing_op_def demo_op_completion_def
    using s1 s2 casc pq by (simp add: op_simps demo_op_facts s0_def now_def del: append.simps)
  then show ?thesis by blast
qed

lemma operation_completion_cascades_witness:
  "\<exists>s' :: shop_db. map ro_state (routings s') = [''completed'', ''active''] \<and> one_live (inspections s') \<and>
    (\<exists>q. filter (qa_live_for ''t1'' ''w1'' ''r1'') (inspections s') = [q] \<and> qr_state q = ''pending'')"
proof -
  let ?s = "demo_wo_shop ''in_progress'' ''active'' ''pending''"
  obtain out s' where r: "transition_routing_op demo_shop_env demo_ctx ''r1'' demo_op_completion ?s = Inr (out, s')"
    using demo_op_runs by blast
  have live: "one_live (inspections ?s)"
    by (auto simp: one_live_def demo_wo_shop_facts qa_live_for_def demo_inspection_def)
  have op: "op_by_id (wc_tenant demo_ctx) ''r1'' ?s = Some (demo_op ''r1'' 1 ''active'')"
    by (simp add: op_by_id_def demo_wo_shop_facts demo_op_facts)
  note c = operation_completion_cascades [OF live r op, unfolded demo_op_facts demo_ctx_facts]
  from c obtain now where rt: "routings s' = activated ''t1'' (first_row op_order (filter (\<lambda>x. ro_tenant x = ''t1'' \<and>
      ro_wo x = ''w1'' \<and> ro_state x = ''pending'' \<and> ro_sequence x > 1)
      (update_where (\<lambda>r. ro_tenant r = ''t1'' \<and> ro_id r = ''r1'')
        (\<lambda>r. r\<lparr>ro_state := ''completed'', ro_completed_at := coalesce (ro_completed_at r) (Some now)\<rparr>)
        (routings ?s)))) now (update_where (\<lambda>r. ro_tenant r = ''t1'' \<and> ro_id r = ''r1'')
        (\<lambda>r. r\<lparr>ro_state := ''completed'', ro_completed_at := coalesce (ro_completed_at r) (Some now)\<rparr>)
        (routings ?s))"
    by blast
  have "map ro_state (routings s') = [''completed'', ''active'']"
    unfolding rt demo_wo_shop_facts
    by (simp add: update_where_def demo_op_facts first_row_def activated_def)
  moreover have "one_live (inspections s')"
    "\<exists>q. filter (qa_live_for ''t1'' ''w1'' ''r1'') (inspections s') = [q] \<and> qr_state q = ''pending''"
    using c by blast+
  ultimately show ?thesis by (intro exI [of _ s'] conjI)
qed

lemma transition_stamps_order_witness:
  "\<exists>(wo :: work_order) (s' :: shop_db). wo_state wo = WoReleased \<and> wo_released_at wo \<noteq> None \<and>
    read_work_order ''t1'' ''w1'' s' = Inr (Some wo)"
proof -
  obtain wo ws s' where r: "transition_work_order demo_shop_env demo_ctx ''w1'' (demo_transition WoRelease)
      (demo_wo_shop ''created'' ''pending'' ''pending'') = Inr ((wo, ws), s')"
    using demo_release_runs by blast
  have w: "wo_by_id (wc_tenant demo_ctx) ''w1'' (demo_wo_shop ''created'' ''pending'' ''pending'') =
      Some (demo_wo ''created'')" by (simp add: demo_wo_shop_facts)
  note t = transition_stamps_order [OF r w]
  have "wo_state_from_str (wr_state (demo_wo ''created'')) = Inr WoCreated"
    by (simp add: demo_wo_def wo_state_from_str_def)
  then have "wo_state wo = WoReleased" using t by (auto simp: demo_transition_def)
  then show ?thesis using t by auto
qed

section \<open>Automatic completion\<close>

text \<open>
  The automatic completion completes an order only when it is in progress and every operation
  has passed; then the order is stored as completed. In every other case it changes nothing: it is
  not applicable for an unknown or completed order or a closed gate, and reports the order as
  blocked exactly when the gate is open and the order is in another state.
\<close>

theorem auto_completion_outcomes:
  assumes "try_auto_complete_wo env ctx wid seed ev s = Inr (out, s')"
  shows "case out of
      AutoCompleted i \<Rightarrow> i = wid \<and>
        all_live_inspections_passed_for_wo (wc_tenant ctx) wid s \<and>
        (\<exists>w. wo_by_id (wc_tenant ctx) wid s = Some w \<and> wr_state w = ''in_progress'') \<and>
        (\<exists>w. wo_by_id (wc_tenant ctx) wid s' = Some w \<and> wr_state w = ''completed'')
    | NotApplicable \<Rightarrow> s' = s \<and> (\<forall>w. wo_by_id (wc_tenant ctx) wid s = Some w \<longrightarrow>
        wr_state w = ''completed'' \<or> \<not> all_live_inspections_passed_for_wo (wc_tenant ctx) wid s)
    | AutoBlocked i st \<Rightarrow> s' = s \<and> i = wid \<and>
        all_live_inspections_passed_for_wo (wc_tenant ctx) wid s \<and>
        st \<noteq> WoInProgress \<and> st \<noteq> WoCompleted \<and>
        (\<exists>w. wo_by_id (wc_tenant ctx) wid s = Some w \<and> wr_state w = wo_state_as_str st)"
proof -
  define row where "row = wo_by_id (wc_tenant ctx) wid s"
  define gate where "gate = all_live_inspections_passed_for_wo (wc_tenant ctx) wid s"
  show ?thesis
  proof (cases row)
    case None
    then show ?thesis using assms(1) by (auto simp: try_auto_complete_wo_def op_simps row_def)
  next
    case (Some w)
    then obtain cur where cur: "wo_state_from_str (wr_state w) = Inr cur"
      using assms(1) by (auto simp: try_auto_complete_wo_def op_simps row_def)
    then have st: "wr_state w = wo_state_as_str cur" using wo_state_codec.as_from by simp
    show ?thesis
    proof (cases "gate \<and> cur = WoInProgress")
      case False
      then show ?thesis
        using assms(1) Some cur st by (auto simp: try_auto_complete_wo_def op_simps row_def gate_def split: if_splits)
    next
      case True
      then obtain wo ws where t: "transition_work_order env ctx wid
          \<lparr>ti_action = WoComplete, ti_reason = Some ''auto-completed: all QA inspections passed'',
           ti_source_event = ev, ti_idem = seed @ '':wo-auto-complete'', ti_minutes = None\<rparr> s = Inr ((wo, ws), s')"
        and out: "out = AutoCompleted wid"
        using assms(1) Some cur by (auto simp: try_auto_complete_wo_def op_simps row_def gate_def)
      note tr = transition_wo_row [OF t Some [unfolded row_def]]
      then obtain now where wos: "work_orders s' = update_where (\<lambda>w. wr_tenant w = wc_tenant ctx \<and> wr_id w = wid)
          (apply_transition WoCompleted now \<lparr>ti_action = WoComplete,
            ti_reason = Some ''auto-completed: all QA inspections passed'', ti_source_event = ev,
            ti_idem = seed @ '':wo-auto-complete'', ti_minutes = None\<rparr>) (work_orders s)"
        using cur True by auto
      then have "\<exists>w. wo_by_id (wc_tenant ctx) wid s' = Some w \<and> wr_state w = ''completed''"
        using Some [unfolded row_def] wo_by_id_Some [OF Some [unfolded row_def]]
        by (simp add: wo_by_id_def select_one_update_where apply_transition_def)
      then show ?thesis using out True Some st by (simp add: row_def gate_def)
    qed
  qed
qed

lemma auto_completion_outcomes_witness:
  "try_auto_complete_wo demo_shop_env demo_ctx ''w1'' ''k'' None (demo_wo_shop ''on_hold'' ''completed'' ''passed'') =
     Inr (AutoBlocked ''w1'' WoOnHold, demo_wo_shop ''on_hold'' ''completed'' ''passed'') \<and>
   all_live_inspections_passed_for_wo ''t1'' ''w1'' (demo_wo_shop ''on_hold'' ''completed'' ''passed'')"
proof -
  have "try_auto_complete_wo demo_shop_env demo_ctx ''w1'' ''k'' None (demo_wo_shop ''on_hold'' ''completed'' ''passed'') =
     Inr (AutoBlocked ''w1'' WoOnHold, demo_wo_shop ''on_hold'' ''completed'' ''passed'')"
    by (simp add: try_auto_complete_wo_def op_bind_def op_defs demo_gate demo_wo_shop_facts)
      (simp add: demo_wo_def wo_state_from_str_def demo_gate)
  from this auto_completion_outcomes [OF this] show ?thesis
    unfolding auto_complete_outcome.case demo_ctx_facts by blast
qed

end
