(* ===== verification/Dispatch_Properties.thy ===== *)
theory Dispatch_Properties
  imports Shop_System Work_Orders_Properties
begin

text \<open>
  What holds of dispatches: what a shipment books, what it is refused for, and that an order has at
  most one dispatch.
\<close>

section \<open>Demonstration data\<close>

definition demo_dispatch :: "string \<Rightarrow> dispatch_row" where
  "demo_dispatch st = \<lparr>dr_id = ''d1'', dr_tenant = ''t1'', dr_wo = ''w1'', dr_partner = ''c1'', dr_state = st,
     dr_created_at = ''+'', dr_shipped_at = None, dr_cancelled_at = None, dr_carrier = None,
     dr_tracking = None, dr_invoice = None, dr_notes = None\<rparr>"

definition demo_dispatch_shop :: "string \<Rightarrow> shop_db" where
  "demo_dispatch_shop st = (demo_wo_shop ''completed'' ''completed'' ''passed'')\<lparr>dispatches := [demo_dispatch st]\<rparr>"

definition demo_ports :: "export_provider \<Rightarrow> ship_ports" where
  "demo_ports xp = \<lparr>sp_spawn = noop_spawner, sp_bind = noop_binder, sp_provider = xp,
     sp_recipient = \<lparr>pty_name = ''c'', pty_country = Some ''hu''\<rparr>, sp_exporter = ''t1'', sp_operator = ''op'',
     sp_parse_ns = (\<lambda>_. Inr 0), sp_debug = id\<rparr>"

definition demo_ship :: ship_inputs where
  "demo_ship = \<lparr>sh_carrier = Gls, sh_tracking = None, sh_shipped_at = Some ''+'', sh_idem = ''k''\<rparr>"

lemma demo_dispatch_shop_facts:
  "work_orders (demo_dispatch_shop st) = [demo_wo ''completed'']" "dispatches (demo_dispatch_shop st) = [demo_dispatch st]"
  "movements (demo_dispatch_shop st) = []" "products (demo_dispatch_shop st) = [demo_product ''p1'', demo_product ''p2'']"
  "shop_ledger (demo_dispatch_shop st) = []" "tick (demo_dispatch_shop st) = 0"
  "movement_sum t p (demo_dispatch_shop st) = 0"
  "wo_by_id ''t1'' ''w1'' (demo_dispatch_shop st) = Some (demo_wo ''completed'')"
  by (simp_all add: demo_dispatch_shop_def demo_wo_shop_facts movement_sum_def movements_of_def wo_by_id_def demo_wo_def)

lemma demo_dispatch_stock_inv: "stock_inv demo_shop_env demo_ctx (demo_dispatch_shop st)"
  using demo_wo_stock_inv stock_inv_same [of "demo_dispatch_shop st" "demo_wo_shop ''completed'' ''completed'' ''passed''"]
  by (simp add: demo_dispatch_shop_def)

lemma demo_ports_ok: "ports_ok env ctx (demo_ports xp)"
  by (simp add: ports_ok_def demo_ports_def noop_ports_frame)

lemma demo_read_dispatch:
  "dispatch_state_from_str st = Inr x \<Longrightarrow> \<exists>d. read_dispatch_in_tx ''t1'' ''d1'' (demo_dispatch_shop st) = Inr (Some d) \<and>
     dp_state d = x \<and> dp_wo d = ''w1'' \<and> dp_id d = ''d1''"
  by (simp add: read_dispatch_in_tx_def dispatch_by_id_def demo_dispatch_shop_facts)
    (simp add: demo_dispatch_def parse_dispatch_row_def)

text \<open>Appends to the demonstration ledger keep succeeding while it is short.\<close>

lemma demo_append_step:
  fixes err :: 'e
  assumes "stock_inv demo_shop_env demo_ctx s" and "length (shop_ledger s) + 1 < 2 ^ 63"
    and "movements s' = movements s" and "products s' = products s" and "shop_ledger s' = shop_ledger s"
  shows "\<exists>s''. shop_append demo_shop_env demo_ctx err k pl idem s' = Inr ((), s'') \<and>
    stock_inv demo_shop_env demo_ctx s'' \<and> length (shop_ledger s'') = Suc (length (shop_ledger s)) \<and>
    movements s'' = movements s' \<and> products s'' = products s' \<and> dispatches s'' = dispatches s' \<and>
    tick s'' = Suc (tick s')"
proof -
  have "\<exists>s''. shop_append demo_shop_env demo_ctx err k pl idem s' = Inr ((), s'')"
    by (rule demo_append_room [OF assms(1,2,5)])
  then obtain s'' where r: "shop_append demo_shop_env demo_ctx err k pl idem s' = Inr ((), s'')" by blast
  have "stock_inv demo_shop_env demo_ctx s'" using assms(1) stock_inv_same [OF assms(3-5)] by simp
  then have "stock_inv demo_shop_env demo_ctx s''" by (rule preservesD [OF preserves_stock_append _ r])
  then show ?thesis using r shop_append_frame [OF r] assms(5) by auto
qed

section \<open>Shipping\<close>

text \<open>
  C33: A shipment succeeds only for a drafted dispatch whose consignee's screening does not block the
  export, or as a no-op for one that is already shipped, which changes nothing. When it ships, it
  takes exactly the order's quantity of the order's product out of stock, keeps the stock invariant,
  stores the dispatch as shipped with the invoice the spawner returned, and leaves every other
  dispatch and every order, inspection and operation as it was. The injected spawner and document
  binder must leave the manufacturing tables alone.
\<close>

theorem shipment_exact:
  assumes "stock_inv env ctx s" and "ports_ok env ctx ports"
    and "mark_shipped env ctx ports did inp s = Inr (out, s')"
    and "read_dispatch_in_tx (wc_tenant ctx) did s = Inr (Some prior)"
    and "\<forall>w \<in> set (work_orders s). six_dec (wr_qty w)"
  shows "(dp_state prior = Shipped \<and> s' = s \<and> so_dispatch out = prior) \<or>
    (dp_state prior = Drafted \<and> stock_inv env ctx s' \<and>
      (\<exists>r. xp_screen (sp_provider ports) (sp_recipient ports) = Inr r \<and> \<not> blocks_export (screening_decision r)) \<and>
      (\<exists>w. wo_by_id (wc_tenant ctx) (dp_wo prior) s = Some w \<and>
        (\<forall>p. movement_sum (wc_tenant ctx) p s' =
          movement_sum (wc_tenant ctx) p s - (if p = wr_product w then wr_qty w else 0))) \<and>
      read_dispatch_in_tx (wc_tenant ctx) did s' = Inr (Some (so_dispatch out)) \<and>
      dp_state (so_dispatch out) = Shipped \<and> dp_invoice (so_dispatch out) = so_invoice out \<and>
      (\<forall>t d. (t, d) \<noteq> (wc_tenant ctx, did) \<longrightarrow> dispatch_by_id t d s' = dispatch_by_id t d s) \<and>
      work_orders s' = work_orders s \<and> inspections s' = inspections s \<and> routings s' = routings s)"
  using assms(3)
proof (rule mark_shipped_Inr)
  fix prior'
  assume p: "read_dispatch_in_tx (wc_tenant ctx) did s = Inr (Some prior')"
    and c: "dp_state prior' = Shipped \<and> s' = s \<and> so_dispatch out = prior' \<and> so_invoice out = None \<or>
     dp_state prior' = Drafted \<and> mark_shipped_writes env ctx ports did inp prior' s = Inr (out, s')"
  have pp: "prior' = prior" using p assms(4) by simp
  show ?thesis
  proof (cases "dp_state prior = Shipped")
    case True
    then show ?thesis using c pp by simp
  next
    case False
    then have d: "dp_state prior = Drafted" and
      run: "mark_shipped_writes env ctx ports did inp prior s = Inr (out, s')" using c pp by auto
    from run assms(2) show ?thesis
    proof (rule mark_shipped_writes_effect)
      fix w now r m s2 s3
      assume w: "wo_by_id (wc_tenant ctx) (dp_wo prior) s = Some w"
        and r: "xp_screen (sp_provider ports) (sp_recipient ports) = Inr r" "\<not> blocks_export (screening_decision r)"
        and rm: "record_movement env ctx (ship_movement_inputs prior inp (wr_product w) (wr_qty w)) s2 = Inr (m, s3)"
        and s2: "movements s2 = movements s" "stock_inv env ctx s \<Longrightarrow> stock_inv env ctx s2"
        and mv: "movements s' = movements s3"
        and ds: "dispatches s' = update_where (\<lambda>d. dr_tenant d = wc_tenant ctx \<and> dr_id d = did)
          (store_shipment inp now (so_invoice out)) (dispatches s)"
        and rd: "read_dispatch_in_tx (wc_tenant ctx) did s' = Inr (Some (so_dispatch out))"
        and same: "work_orders s' = work_orders s" "inspections s' = inspections s" "routings s' = routings s"
      have "six_dec (mi_qty (ship_movement_inputs prior inp (wr_product w) (wr_qty w)))"
        using assms(5) wo_by_id_Some [OF w] by (auto simp: ship_movement_inputs_def intro: six_dec_minus)
      from stock.record_stock [OF s2(2) [OF assms(1)] rm this]
      have stock: "movement_sum (wc_tenant ctx) p s' =
          movement_sum (wc_tenant ctx) p s - (if p = wr_product w then wr_qty w else 0)" for p
        using movement_sum_same [OF mv] movement_sum_same [OF s2(1)] by (simp add: ship_movement_inputs_def)
      have other: "dispatch_by_id t d s' = dispatch_by_id t d s" if "(t, d) \<noteq> (wc_tenant ctx, did)" for t d
        unfolding dispatch_by_id_def ds using that
        by (intro select_one_update_other) (auto simp: store_shipment_def)
      note live = shipped_row [OF assms(4) ds rd]
      show ?thesis
        using d preservesD [OF preserves_stock_ship [OF assms(2)] assms(1,3)] r w stock rd live other same
        by blast
    qed
  qed
qed

lemma demo_ship_runs:
  "\<exists>out s'. mark_shipped demo_shop_env demo_ctx (demo_ports mock_provider) ''d1'' demo_ship
    (demo_dispatch_shop ''drafted'') = Inr (out, s')"
proof -
  let ?s = "demo_dispatch_shop ''drafted''" and ?ports = "demo_ports mock_provider"
  obtain prior where prior: "read_dispatch_in_tx ''t1'' ''d1'' ?s = Inr (Some prior)" "dp_state prior = Drafted"
    "dp_wo prior = ''w1''" "dp_id prior = ''d1''"
    using demo_read_dispatch [of "''drafted''" Drafted] by (auto simp: dispatch_state_from_str_def)
  let ?init = "?s\<lparr>tick := Suc (tick ?s)\<rparr>"
  have inv0: "stock_inv demo_shop_env demo_ctx ?init" using demo_dispatch_stock_inv by simp
  have room: "length (shop_ledger ?init) + 1 < 2 ^ 63" by (simp add: demo_dispatch_shop_facts)
  define ms where "ms = ms_of_nanos (sup_now (sh_time demo_shop_env) (tick ?s))"
  obtain s1 where a1: "shop_append demo_shop_env demo_ctx (DStorage ''audit append ExportClassificationSet'')
      (RecordEvent ExportClassificationSet) (classification_payload ?ports ''p1'' NotClassified ms)
      (''export_classify:'' @ sh_idem demo_ship) ?init = Inr ((), s1)"
    and e1: "stock_inv demo_shop_env demo_ctx s1 \<and> length (shop_ledger s1) = Suc (length (shop_ledger ?init)) \<and>
      movements s1 = movements ?init \<and> products s1 = products ?init \<and> dispatches s1 = dispatches ?init \<and>
      tick s1 = Suc (tick ?init)"
    using demo_append_step [where 'e = dispatch_error, OF inv0 _ refl refl refl] room by blast
  then have i1: "stock_inv demo_shop_env demo_ctx s1" "length (shop_ledger s1) = 1" "movements s1 = []"
      "products s1 = products ?s" "dispatches s1 = dispatches ?s" "tick s1 = 2"
    by (simp_all add: demo_dispatch_shop_facts)
  obtain s2 where a2: "shop_append demo_shop_env demo_ctx (DStorage ''audit append ExportAccessCheck'')
      (RecordEvent ExportAccessCheck) (access_payload ?ports ''d1'' NotScreened ms)
      (''export_access:'' @ sh_idem demo_ship) s1 = Inr ((), s2)"
    and e2: "stock_inv demo_shop_env demo_ctx s2 \<and> length (shop_ledger s2) = Suc (length (shop_ledger s1)) \<and>
      movements s2 = movements s1 \<and> products s2 = products s1 \<and> dispatches s2 = dispatches s1 \<and>
      tick s2 = Suc (tick s1)"
    using demo_append_step [where 'e = dispatch_error, OF i1(1) _ refl refl refl] i1(2) by fastforce
  then have i2: "stock_inv demo_shop_env demo_ctx s2" "length (shop_ledger s2) = 2" "movements s2 = []"
      "products s2 = products ?s" "dispatches s2 = dispatches ?s" "tick s2 = 3"
    using i1 by simp_all
  let ?i = "ship_movement_inputs prior demo_ship ''p1'' 5"
  have "sh_ledger demo_shop_env = demo_env" "wc_meta demo_ctx = demo_meta"
    by (simp_all add: demo_shop_env_def demo_ctx_def)
  then have log: "ledger_inv demo_env demo_meta (shop_ledger s2)"
    using i2(1,2) by (simp add: stock_inv_def shop_log_ok_def)
  have "\<exists>m s3. record_movement demo_shop_env demo_ctx ?i s2 = Inr (m, s3)"
    by (rule demo_record_ok [where n = "- 5" and k = 0])
      (use i2 log in \<open>simp_all add: demo_dispatch_shop_facts ship_movement_inputs_def validate_reason_sign_def
        product_live_def demo_product_def movement_sum_def movements_of_def demo_ship_def\<close>)
  then obtain m s3 where m: "record_movement demo_shop_env demo_ctx ?i s2 = Inr (m, s3)" by blast
  have i3: "stock_inv demo_shop_env demo_ctx s3" "length (shop_ledger s3) = 3" "dispatches s3 = dispatches ?s"
    using stock.record_inv [OF i2(1) m] record_ledger_length [OF m] i2 preservesD [OF kept_dispatches.preserves_record refl m]
    by simp_all
  define s4 where "s4 = s3\<lparr>dispatches := update_where (\<lambda>d. dr_tenant d = ''t1'' \<and> dr_id d = ''d1'')
    (store_shipment demo_ship ''+'' None) (dispatches s3)\<rparr>"
  have s4: "movements s4 = movements s3" "products s4 = products s3" "shop_ledger s4 = shop_ledger s3"
    by (simp_all add: s4_def)
  obtain s5 where a5: "shop_append demo_shop_env demo_ctx (DStorage ''audit append DispatchShipped'')
      (ShopEvent DispatchShipped) (shipped_payload prior demo_ship ''+'' None ''op'') (''ship:'' @ sh_idem demo_ship) s4 =
      Inr ((), s5)"
    and e5: "stock_inv demo_shop_env demo_ctx s5 \<and> length (shop_ledger s5) = Suc (length (shop_ledger s3)) \<and>
      dispatches s5 = dispatches s4"
    using demo_append_step [where 'e = dispatch_error, OF i3(1) _ s4] i3(2) by fastforce
  then have i5: "stock_inv demo_shop_env demo_ctx s5" "length (shop_ledger s5) = 4" "dispatches s5 = dispatches s4"
    using i3 by simp_all
  obtain s6 where a6: "shop_append demo_shop_env demo_ctx (DStorage ''audit append ExportShipmentLogged'')
      (RecordEvent ExportShipmentLogged) (shipment_payload ?ports prior NotClassified (ms_of_nanos 0))
      (''export_ship:'' @ sh_idem demo_ship) s5 = Inr ((), s6)"
    and e6: "dispatches s6 = dispatches s5"
    using demo_append_step [where 'e = dispatch_error, OF i5(1) _ refl refl refl] i5(2) by fastforce
  have i6: "dispatches s6 = dispatches s4" using e6 i5 by simp
  have "dispatch_by_id ''t1'' ''d1'' s6 = Some (store_shipment demo_ship ''+'' None (demo_dispatch ''drafted''))"
    by (simp add: dispatch_by_id_def i6 s4_def i3 demo_dispatch_shop_facts update_where_def)
      (simp add: demo_dispatch_def store_shipment_def)
  then obtain live where live: "read_dispatch_in_tx ''t1'' ''d1'' s6 = Inr (Some live)"
    by (simp add: read_dispatch_in_tx_def parse_dispatch_row_def store_shipment_def demo_dispatch_def
        dispatch_state_codec.from_as carrier_codec.from_as del: dispatch_state_as_str.simps carrier_as_str.simps)
  have w: "wr_product (demo_wo ''completed'') = ''p1''" "wr_qty (demo_wo ''completed'') = 5"
    by (simp_all add: demo_wo_def)
  have cl: "classify_shipment demo_shop_env demo_ctx ?ports demo_ship ''p1'' ms ?init = Inr (NotClassified, s1)"
    using a1 by (simp add: classify_shipment_def op_simps demo_ports_def mock_provider_def)
  have sc: "screen_shipment demo_shop_env demo_ctx ?ports demo_ship ''d1'' ms s1 = Inr ((), s2)"
    using a2 by (simp add: screen_shipment_def op_simps demo_ports_def mock_provider_def blocks_export_def)
  have "mark_shipped_writes demo_shop_env demo_ctx ?ports ''d1'' demo_ship prior ?s =
      Inr (\<lparr>so_dispatch = live, so_invoice = None, so_movement = sm_id m, so_reports = []\<rparr>, s6)"
  proof -
    have stamp: "ship_stamp demo_shop_env demo_ship ?s = Inr (''+'', ?s)"
      by (simp add: ship_stamp_def demo_ship_def)
    have parse: "rfc3339_to_epoch_ms ?ports ''+'' = Inr (ms_of_nanos 0)"
      by (simp add: rfc3339_to_epoch_ms_def demo_ports_def)
    have asked: "shop_instant demo_shop_env ?s = Inr (sup_now (sh_time demo_shop_env) (tick ?s), ?init)"
      by (simp only: shop_instant_def)
    have spawn: "sp_spawn ?ports prior ''p1'' 5 k s3 = Inr (None, s3)" for k
      by (simp add: demo_ports_def noop_spawner_def)
    have bind: "sp_bind ?ports t wo d s6 = Inr ([], s6)" for t wo d
      by (simp add: demo_ports_def noop_binder_def)
    have wo: "wo_by_id ''t1'' (dp_wo prior) ?s = Some (demo_wo ''completed'')"
      by (simp add: prior demo_dispatch_shop_facts)
    show ?thesis
      unfolding mark_shipped_writes_def op_then_def op_bind_def op_get_def op_lift_def op_modify_def op_map_err_def
        op_return_def
      using cl sc m a5 a6 live
      by (simp add: wo w stamp parse asked spawn bind ms_def [symmetric] s4_def [symmetric] del: append.simps)
  qed
  moreover have "\<not> is_blank (sh_idem demo_ship)" by (simp add: demo_ship_def is_blank_iff is_whitespace_def)
  ultimately show ?thesis
    unfolding mark_shipped_def using prior by (auto simp: op_simps)
qed

lemma shipment_exact_witness:
  "\<exists>(out :: ship_outcome) (s' :: shop_db). dp_state (so_dispatch out) = Shipped \<and> movement_sum ''t1'' ''p1'' s' = - 5 \<and>
    movement_sum ''t1'' ''p2'' s' = 0"
proof -
  obtain out s' where r: "mark_shipped demo_shop_env demo_ctx (demo_ports mock_provider) ''d1'' demo_ship
    (demo_dispatch_shop ''drafted'') = Inr (out, s')" using demo_ship_runs by blast
  obtain prior where prior: "read_dispatch_in_tx ''t1'' ''d1'' (demo_dispatch_shop ''drafted'') = Inr (Some prior)"
    "dp_state prior = Drafted" "dp_wo prior = ''w1''"
    using demo_read_dispatch [of "''drafted''" Drafted] by (auto simp: dispatch_state_from_str_def)
  have six: "\<forall>w \<in> set (work_orders (demo_dispatch_shop ''drafted'')). six_dec (wr_qty w)"
    using six_dec_int [of 5] by (simp add: demo_dispatch_shop_facts demo_wo_def)
  have w: "wr_product (demo_wo ''completed'') = ''p1''" "wr_qty (demo_wo ''completed'') = 5"
    by (simp_all add: demo_wo_def)
  from shipment_exact [OF demo_dispatch_stock_inv demo_ports_ok r _ six, of prior] prior
  have "dp_state (so_dispatch out) = Shipped \<and> movement_sum ''t1'' ''p1'' s' = - 5 \<and> movement_sum ''t1'' ''p2'' s' = 0"
    by (auto simp: demo_dispatch_shop_facts w)
  then show ?thesis by blast
qed

section \<open>The system\<close>

text \<open>
  C1: Whatever operations of the inventory, quality, work-order and dispatch crates succeed, in any
  order and by any actors of the tenant, the shop stays consistent: every product's cached stock is
  the sum of its movements, the audit ledger verifies as long as it has room, every operation has at
  most one live inspection, every order has at most one dispatch, and every dispatch, shipped or not,
  belongs to a completed order.
\<close>

theorem shop_stays_consistent:
  assumes "(shop_step env t meta)\<^sup>*\<^sup>* s s'" and "shop_inv env t meta s"
  shows "shop_inv env t meta s'"
  using assms(1) by (induction rule: rtranclp_induct) (use assms(2) shop_step_inv in blast)+

lemma shop_stays_consistent_witness:
  "\<exists>s s'. shop_step demo_shop_env ''t1'' demo_meta s s' \<and> shop_inv demo_shop_env ''t1'' demo_meta s \<and>
    shop_inv demo_shop_env ''t1'' demo_meta s'"
proof -
  let ?s = "demo_wo_shop ''created'' ''pending'' ''pending''"
  obtain wo ws s' where r: "transition_work_order demo_shop_env demo_ctx ''w1'' (demo_transition WoRelease) ?s =
      Inr ((wo, ws), s')"
    using demo_release_runs by blast
  have shop: "in_shop ''t1'' demo_meta demo_ctx" by (simp add: in_shop_def) (simp add: demo_ctx_def)
  have "one_live (inspections ?s)"
    by (auto simp: one_live_def demo_wo_shop_facts qa_live_for_def demo_inspection_def)
  moreover have "dispatches ?s = []" by (simp add: demo_wo_shop_def demo_shop_def)
  ultimately have inv: "shop_inv demo_shop_env ''t1'' demo_meta ?s"
    using demo_wo_stock_inv
    by (simp add: shop_inv_stock [OF shop] one_dispatch_def dispatched_completed_def)
  have step: "shop_step demo_shop_env ''t1'' demo_meta ?s s'" by (rule step_order [OF shop r])
  from shop_stays_consistent [OF r_into_rtranclp [of "shop_step demo_shop_env ''t1'' demo_meta", OF step] inv]
  show ?thesis using step inv by blast
qed

end
