(* ===== verification/Nav_Transport.thy ===== *)
theory Nav_Transport
  imports Audit_Mirror
begin

text \<open>
  The answers of NAV Online Szamla (crates/nav-transport/src: error.rs, endpoint.rs, cipher.rs,
  soap/mod.rs, operations/): the error type, the readers of an answer's XML, the decryption of
  the exchange token, and what each operation makes of an HTTP answer. An answer is what reqwest
  returns; the events of an XML document are what quick_xml returns, up to the end or the first
  error. Rendering a signed request is a parameter.
\<close>

section \<open>Errors\<close>

record technical_validation =
  tv_result_code :: "string option"
  tv_error_code :: "string option"
  tv_message :: "string option"
  tv_tag :: "string option"

text \<open>An error of the HTTP library or of the key chain is its text.\<close>

datatype nav_transport_error =
    EmbeddedPemMalformed string
  | EmbeddedCertificateRejected string
  | ClientBuild string
  | KeychainItemMissing string string
  | KeychainBackend string string
  | KeychainBlobMalformed string string
  | EnvelopeWriteFailed string
  | ManageInvoiceEmpty
  | ManageInvoiceTooManyItems nat
  | TokenExchangeHttp string
  | TokenExchangeHttpStatus nat "string option" "string option" "technical_validation list" string
  | TokenExchangeResponseParse string
  | TokenExchangeBase64Decode string
  | TokenExchangeBadCiphertextLength nat
  | TokenExchangeDecryptFailed string
  | ManageInvoiceHttp string
  | ManageInvoiceHttpStatus nat
  | ManageInvoiceResponseParse string
  | ManageInvoiceNonRetryable string string
  | ManageInvoiceRetryable string string
  | QueryTransactionStatusHttp string
  | QueryTransactionStatusHttpStatus nat
  | QueryTransactionStatusResponseParse string
  | QueryTransactionStatusNonRetryable string string
  | QueryTransactionStatusRetryable string string
  | ManageAnnulmentEmpty
  | ManageAnnulmentTooManyItems nat
  | ManageAnnulmentHttp string
  | ManageAnnulmentHttpStatus nat
  | ManageAnnulmentResponseParse string
  | ManageAnnulmentNonRetryable string string
  | ManageAnnulmentRetryable string string
  | QueryInvoiceDataHttp string
  | QueryInvoiceDataHttpStatus nat
  | QueryInvoiceDataResponseParse string
  | QueryInvoiceDataNonRetryable string string
  | QueryInvoiceDataRetryable string string
  | QueryInvoiceCheckHttp string
  | QueryInvoiceCheckHttpStatus nat
  | QueryInvoiceCheckResponseParse string
  | QueryInvoiceCheckNonRetryable string string
  | QueryInvoiceCheckRetryable string string
  | QueryInvoiceDigestHttp string
  | QueryInvoiceDigestHttpStatus nat
  | QueryInvoiceDigestResponseParse string
  | QueryInvoiceDigestNonRetryable string string
  | QueryInvoiceDigestRetryable string string

section \<open>Endpoints and operations\<close>

datatype nav_endpoint = NavTest | NavProduction

fun base_url :: "nav_endpoint \<Rightarrow> string" where
  "base_url NavTest = ''https://api-test.onlineszamla.nav.gov.hu/invoiceService/v3/''"
| "base_url NavProduction = ''https://api.onlineszamla.nav.gov.hu/invoiceService/v3/''"

datatype invoice_operation = OpCreate | OpModify | OpStorno

fun operation_as_nav_str :: "invoice_operation \<Rightarrow> string" where
  "operation_as_nav_str OpCreate = ''CREATE''"
| "operation_as_nav_str OpModify = ''MODIFY''"
| "operation_as_nav_str OpStorno = ''STORNO''"

section \<open>Reading the XML of an answer\<close>

text \<open>A text event holds its text unescaped, or None where unescaping fails.\<close>

datatype xml_event =
    XStart string
  | XEnd string
  | XEmpty string
  | XText "string option"
  | XOther
  | XErr

fun local_name :: "string \<Rightarrow> string" where
  \<comment> \<open>what follows the last colon\<close>
  "local_name [] = []"
| "local_name (c # cs) =
     (if CHR '':'' \<in> set cs then local_name cs else if c = CHR '':'' then cs else c # cs)"

definition local_name_matches :: "string \<Rightarrow> string \<Rightarrow> bool" where
  "local_name_matches qualified target \<longleftrightarrow> local_name qualified = target"

fun find_text_from ::
  "string \<Rightarrow> bool \<Rightarrow> string \<Rightarrow> xml_event list \<Rightarrow> nav_transport_error + string option" where
  "find_text_from target inside collected [] = Inr None"
| "find_text_from target inside collected (ev # evs) =
     (case ev of
        XStart n \<Rightarrow> find_text_from target (inside \<or> local_name_matches n target) collected evs
      | XEnd n \<Rightarrow>
          (if inside \<and> local_name_matches n target then Inr (Some collected)
           else find_text_from target inside collected evs)
      | XText t \<Rightarrow>
          (if inside then
             (case t of
                None \<Rightarrow> Inl (TokenExchangeResponseParse ''XML text unescape failed'')
              | Some s \<Rightarrow> find_text_from target inside (collected @ s) evs)
           else find_text_from target inside collected evs)
      | XErr \<Rightarrow> Inl (TokenExchangeResponseParse ''XML parse failed'')
      | _ \<Rightarrow> find_text_from target inside collected evs)"

definition find_first_text :: "xml_event list \<Rightarrow> string \<Rightarrow> nav_transport_error + string option" where
  "find_first_text xml target = find_text_from target False [] xml"

datatype nav_result_block = NrOk | NrError string string \<comment> \<open>code, message\<close>

definition unwrap_or :: "'a \<Rightarrow> 'a option \<Rightarrow> 'a" where
  "unwrap_or d r = (case r of None \<Rightarrow> d | Some x \<Rightarrow> x)"

definition parse_result_block ::
  "(string \<Rightarrow> nav_transport_error) \<Rightarrow> xml_event list \<Rightarrow> nav_transport_error + nav_result_block" where
  "parse_result_block parse_err xml =
     and_then (find_first_text xml ''funcCode'') (\<lambda>r.
     and_then (ok_or (parse_err ''response body missing <funcCode>'') r) (\<lambda>func_code.
       if func_code = ''OK'' then Inr NrOk
       else if func_code = ''ERROR'' then
         and_then (find_first_text xml ''errorCode'') (\<lambda>code.
         and_then (find_first_text xml ''message'') (\<lambda>message.
           Inr (NrError (unwrap_or ''UNKNOWN'' code) (unwrap_or ''<no message>'' message))))
       else Inl (parse_err ''response body has unexpected funcCode'')))"

definition is_non_retryable :: "string \<Rightarrow> bool" where
  "is_non_retryable code \<longleftrightarrow>
     code \<in> {''INVALID_SECURITY_USER'', ''INVALID_REQUEST_SIGNATURE'', ''INCORRECT_REQUEST_SCHEMA'',
             ''SCHEMA_VIOLATION'', ''INVOICE_NUMBER_NOT_UNIQUE''}"

subsection \<open>The fault of a refused token exchange\<close>

datatype validation_field = VfResultCode | VfErrorCode | VfMessage | VfTag

definition sub_field_for :: "string \<Rightarrow> validation_field option" where
  "sub_field_for qualified =
     (if local_name_matches qualified ''validationResultCode'' then Some VfResultCode
      else if local_name_matches qualified ''validationErrorCode'' then Some VfErrorCode
      else if local_name_matches qualified ''message'' then Some VfMessage
      else if local_name_matches qualified ''tag'' then Some VfTag else None)"

definition push_slot :: "string \<Rightarrow> string option \<Rightarrow> string option" where
  "push_slot value slot = (case slot of None \<Rightarrow> Some value | Some s \<Rightarrow> Some (s @ value))"

fun assign_sub_field ::
  "technical_validation \<Rightarrow> validation_field \<Rightarrow> string \<Rightarrow> technical_validation" where
  "assign_sub_field v VfResultCode s = v\<lparr>tv_result_code := push_slot s (tv_result_code v)\<rparr>"
| "assign_sub_field v VfErrorCode s = v\<lparr>tv_error_code := push_slot s (tv_error_code v)\<rparr>"
| "assign_sub_field v VfMessage s = v\<lparr>tv_message := push_slot s (tv_message v)\<rparr>"
| "assign_sub_field v VfTag s = v\<lparr>tv_tag := push_slot s (tv_tag v)\<rparr>"

definition no_validation :: technical_validation where
  "no_validation = \<lparr>tv_result_code = None, tv_error_code = None, tv_message = None, tv_tag = None\<rparr>"

fun technical_validations_from ::
  "nat \<Rightarrow> technical_validation \<Rightarrow> validation_field option \<Rightarrow> technical_validation list \<Rightarrow>
   xml_event list \<Rightarrow> nav_transport_error + technical_validation list" where
  "technical_validations_from depth cur sub out [] = Inr out"
| "technical_validations_from depth cur sub out (ev # evs) =
     (case ev of
        XStart n \<Rightarrow>
          (if depth = 0 then
             (if local_name_matches n ''technicalValidationMessages''
              then technical_validations_from 1 no_validation None out evs
              else technical_validations_from depth cur sub out evs)
           else if depth = 1 then technical_validations_from 2 cur (sub_field_for n) out evs
           else technical_validations_from (depth + 1) cur sub out evs)
      | XEnd n \<Rightarrow>
          (if depth = 1 \<and> local_name_matches n ''technicalValidationMessages''
           then technical_validations_from 0 no_validation None (out @ [cur]) evs
           else if 2 \<le> depth
           then technical_validations_from (depth - 1) cur (if depth - 1 = 1 then None else sub) out evs
           else technical_validations_from depth cur sub out evs)
      | XEmpty n \<Rightarrow>
          (case sub_field_for n of
             Some f \<Rightarrow> technical_validations_from depth
                         (if depth = 1 then assign_sub_field cur f [] else cur) sub out evs
           | None \<Rightarrow> technical_validations_from depth cur sub out evs)
      | XText t \<Rightarrow>
          (case (depth = 2, sub) of
             (True, Some f) \<Rightarrow>
               (case t of
                  None \<Rightarrow> Inl (TokenExchangeResponseParse
                            ''XML text unescape failed in technicalValidationMessages'')
                | Some s \<Rightarrow> technical_validations_from depth (assign_sub_field cur f s) sub out evs)
           | _ \<Rightarrow> technical_validations_from depth cur sub out evs)
      | XErr \<Rightarrow> Inl (TokenExchangeResponseParse ''XML parse failed'')
      | XOther \<Rightarrow> technical_validations_from depth cur sub out evs)"

definition find_all_technical_validations ::
  "xml_event list \<Rightarrow> nav_transport_error + technical_validation list" where
  "find_all_technical_validations xml = technical_validations_from 0 no_validation None [] xml"

section \<open>The libraries\<close>

text \<open>
  \<open>nl_lossy\<close> is \<open>String::from_utf8_lossy\<close>, one string of bytes per character;
  \<open>nl_aes\<close> decrypts one block of AES-128.
\<close>

record nav_lib =
  nl_xml :: "byte list \<Rightarrow> xml_event list"
  nl_lossy :: "byte list \<Rightarrow> string list"
  nl_base64 :: "string \<Rightarrow> string + byte list"
  nl_aes :: "byte list \<Rightarrow> byte list \<Rightarrow> byte list"

text \<open>\<open>send().await\<close> fails, or gives a status and a body whose reading may fail.\<close>

datatype http_answer = HttpFailed string | HttpBodyFailed nat string | HttpAnswer nat "byte list"

definition is_success :: "nat \<Rightarrow> bool" where
  "is_success status \<longleftrightarrow> 200 \<le> status \<and> status < 300"

definition http_body ::
  "(string \<Rightarrow> nav_transport_error) \<Rightarrow> http_answer \<Rightarrow> nav_transport_error + nat \<times> byte list" where
  "http_body err a =
     (case a of HttpFailed e \<Rightarrow> Inl (err e) | HttpBodyFailed _ e \<Rightarrow> Inl (err e)
      | HttpAnswer status body \<Rightarrow> Inr (status, body))"

section \<open>The exchange token\<close>

definition preview_limit :: nat where "preview_limit = 4000"

definition ellipsis :: string where
  "ellipsis = [char_of (226 :: nat), char_of (128 :: nat), char_of (166 :: nat)]"

definition em_dash :: string where
  "em_dash = [char_of (226 :: nat), char_of (128 :: nat), char_of (148 :: nat)]"

definition body_preview :: "nav_lib \<Rightarrow> byte list \<Rightarrow> string" where
  "body_preview lib xml =
     (let collapsed = map (\<lambda>c. if c = [CHR 0x0A] \<or> c = [CHR 0x0D] then '' '' else c) (nl_lossy lib xml)
      in if length collapsed \<le> preview_limit then concat collapsed
         else concat (take preview_limit collapsed) @ ellipsis)"

definition ok_flatten :: "'e + 'a option \<Rightarrow> 'a option" where
  \<comment> \<open>\<open>.ok().flatten()\<close>\<close>
  "ok_flatten r = (case r of Inl _ \<Rightarrow> None | Inr x \<Rightarrow> x)"

definition parse_nav_fault ::
  "nav_lib \<Rightarrow> byte list \<Rightarrow> string option \<times> string option \<times> technical_validation list \<times> string" where
  \<comment> \<open>code, message, validations, preview\<close>
  "parse_nav_fault lib body =
     (let xml = nl_xml lib body;
          error_code = ok_flatten (find_first_text xml ''errorCode'');
          message = ok_flatten (find_first_text xml ''message'');
          (code, msg) =
            (if error_code \<noteq> None \<or> message \<noteq> None then (error_code, message)
             else (ok_flatten (find_first_text xml ''faultcode''),
                   ok_flatten (find_first_text xml ''faultstring'')))
      in (code, msg,
          (case find_all_technical_validations xml of Inl _ \<Rightarrow> [] | Inr vs \<Rightarrow> vs),
          body_preview lib body))"

definition aes_block_size :: nat where "aes_block_size = 16"

fun chunks16 :: "byte list \<Rightarrow> byte list list" where
  "chunks16 [] = []"
| "chunks16 (b # bs) = take aes_block_size (b # bs) # chunks16 (drop 15 bs)"

definition strip_padding :: "byte list \<Rightarrow> byte list" where
  "strip_padding out =
     (let pad_len = (if out = [] then 0 else unat (last out)) in
      if 0 < pad_len \<and> pad_len \<le> aes_block_size then
        let data_len = length out - pad_len in
        if 0 < data_len \<and> (\<forall>b \<in> set (drop data_len out). b = of_nat pad_len)
        then take data_len out else out
      else out)"

definition decrypt_exchange_token ::
  "nav_lib \<Rightarrow> byte list \<Rightarrow> byte list \<Rightarrow> nav_transport_error + byte list" where
  "decrypt_exchange_token lib change_key ciphertext =
     and_then (check (length change_key = 16) (TokenExchangeDecryptFailed ''xmlChangeKey length'')) (\<lambda>_.
     and_then (check (ciphertext \<noteq> []) (TokenExchangeBadCiphertextLength 0)) (\<lambda>_.
     and_then (check (length ciphertext mod aes_block_size = 0)
                 (TokenExchangeBadCiphertextLength (length ciphertext))) (\<lambda>_.
       Inr (strip_padding (concat (map (nl_aes lib change_key) (chunks16 ciphertext)))))))"

definition text_of :: "byte list \<Rightarrow> string" where
  "text_of bs = map (\<lambda>b. char_of (unat b)) bs"

definition token_exchange_result ::
  "nav_lib \<Rightarrow> byte list \<Rightarrow> http_answer \<Rightarrow> nav_transport_error + string" where
  \<comment> \<open>token_exchange::call after the POST: the decoded token\<close>
  "token_exchange_result lib change_key a =
     and_then (http_body TokenExchangeHttp a) (\<lambda>(status, body).
     and_then (if is_success status then Inr ()
               else case parse_nav_fault lib body of (c, m, vs, p) \<Rightarrow>
                 Inl (TokenExchangeHttpStatus status c m vs p)) (\<lambda>_.
     and_then (parse_result_block TokenExchangeResponseParse (nl_xml lib body)) (\<lambda>blk.
     and_then (case blk of NrOk \<Rightarrow> Inr ()
               | NrError c m \<Rightarrow> Inl (TokenExchangeResponseParse
                   (''NAV returned funcCode=ERROR: '' @ c @ '' '' @ em_dash @ '' '' @ m))) (\<lambda>_.
     and_then (find_first_text (nl_xml lib body) ''encodedExchangeToken'') (\<lambda>r.
     and_then (ok_or (TokenExchangeResponseParse ''OK response missing <encodedExchangeToken>'') r) (\<lambda>encoded.
     and_then (map_err TokenExchangeBase64Decode (nl_base64 lib encoded)) (\<lambda>cipher.
     and_then (decrypt_exchange_token lib change_key cipher) (\<lambda>plain.
     and_then (check (utf8_valid plain)
                 (TokenExchangeDecryptFailed ''decrypted token is not valid UTF-8'')) (\<lambda>_.
       Inr (text_of plain))))))))))"

section \<open>The operations on an invoice\<close>

record send_outcome =
  so_transaction_id :: string
  so_response_xml :: "byte list"

definition manage_invoice_result ::
  "nav_lib \<Rightarrow> http_answer \<Rightarrow> nav_transport_error + send_outcome" where
  \<comment> \<open>manage_invoice::send_built_request after the POST\<close>
  "manage_invoice_result lib a =
     and_then (http_body ManageInvoiceHttp a) (\<lambda>(status, body).
     and_then (check (is_success status) (ManageInvoiceHttpStatus status)) (\<lambda>_.
     and_then (parse_result_block ManageInvoiceResponseParse (nl_xml lib body)) (\<lambda>blk.
     and_then (case blk of NrOk \<Rightarrow> Inr ()
               | NrError c m \<Rightarrow> Inl (if is_non_retryable c then ManageInvoiceNonRetryable c m
                                    else ManageInvoiceRetryable c m)) (\<lambda>_.
     and_then (find_first_text (nl_xml lib body) ''transactionId'') (\<lambda>r.
     and_then (ok_or (ManageInvoiceResponseParse ''OK response missing <transactionId>'') r) (\<lambda>txid.
       Inr \<lparr>so_transaction_id = txid, so_response_xml = body\<rparr>))))))"

datatype query_invoice_check_outcome = Exists | Absent

fun check_as_audit_str :: "query_invoice_check_outcome \<Rightarrow> string" where
  "check_as_audit_str Exists = ''exists''"
| "check_as_audit_str Absent = ''absent''"

definition from_check_result :: "bool \<Rightarrow> query_invoice_check_outcome" where
  "from_check_result b = (if b then Exists else Absent)"

definition query_invoice_check_result ::
  "nav_lib \<Rightarrow> http_answer \<Rightarrow> nav_transport_error + bool \<times> byte list" where
  "query_invoice_check_result lib a =
     and_then (http_body QueryInvoiceCheckHttp a) (\<lambda>(status, body).
     and_then (check (is_success status) (QueryInvoiceCheckHttpStatus status)) (\<lambda>_.
     and_then (parse_result_block QueryInvoiceCheckResponseParse (nl_xml lib body)) (\<lambda>blk.
     and_then (case blk of NrOk \<Rightarrow> Inr ()
               | NrError c m \<Rightarrow> Inl (if is_non_retryable c then QueryInvoiceCheckNonRetryable c m
                                    else QueryInvoiceCheckRetryable c m)) (\<lambda>_.
     and_then (find_first_text (nl_xml lib body) ''invoiceCheckResult'') (\<lambda>r.
     and_then (ok_or (QueryInvoiceCheckResponseParse ''OK response missing <invoiceCheckResult>'') r) (\<lambda>raw.
       if raw = ''true'' then Inr (True, body)
       else if raw = ''false'' then Inr (False, body)
       else Inl (QueryInvoiceCheckResponseParse ''unexpected <invoiceCheckResult> value'')))))))"

datatype processing_status = NsReceived | NsProcessing | NsSaved | NsAborted | NsUnknown

fun status_as_nav_str :: "processing_status \<Rightarrow> string" where
  "status_as_nav_str NsReceived = ''RECEIVED''"
| "status_as_nav_str NsProcessing = ''PROCESSING''"
| "status_as_nav_str NsSaved = ''SAVED''"
| "status_as_nav_str NsAborted = ''ABORTED''"
| "status_as_nav_str NsUnknown = ''UNKNOWN''"

definition status_from_nav_str :: "string \<Rightarrow> processing_status option" where
  "status_from_nav_str s =
     (if s = ''RECEIVED'' then Some NsReceived
      else if s = ''PROCESSING'' then Some NsProcessing
      else if s = ''SAVED'' then Some NsSaved
      else if s = ''ABORTED'' then Some NsAborted
      else if s = ''DONE'' then Some NsSaved else None)"

definition status_is_terminal :: "processing_status \<Rightarrow> bool" where
  "status_is_terminal s \<longleftrightarrow> s = NsSaved \<or> s = NsAborted"

definition parse_processing_status_forward_tolerant :: "string \<Rightarrow> processing_status" where
  "parse_processing_status_forward_tolerant raw = unwrap_or NsUnknown (status_from_nav_str raw)"

definition query_transaction_status_result ::
  "nav_lib \<Rightarrow> http_answer \<Rightarrow> nav_transport_error + processing_status \<times> byte list" where
  "query_transaction_status_result lib a =
     and_then (http_body QueryTransactionStatusHttp a) (\<lambda>(status, body).
     and_then (check (is_success status) (QueryTransactionStatusHttpStatus status)) (\<lambda>_.
     and_then (parse_result_block QueryTransactionStatusResponseParse (nl_xml lib body)) (\<lambda>blk.
     and_then (case blk of NrOk \<Rightarrow> Inr ()
               | NrError c m \<Rightarrow> Inl (if is_non_retryable c then QueryTransactionStatusNonRetryable c m
                                    else QueryTransactionStatusRetryable c m)) (\<lambda>_.
     and_then (find_first_text (nl_xml lib body) ''invoiceStatus'') (\<lambda>r.
     and_then (ok_or (QueryTransactionStatusResponseParse ''OK response missing <invoiceStatus>'') r) (\<lambda>raw.
       Inr (parse_processing_status_forward_tolerant raw, body)))))))"

section \<open>Facts\<close>

text \<open>The text of the first element with the given local name.\<close>

lemma find_text_skip:
  assumes "\<forall>ev \<in> set pre. ev \<noteq> XErr \<and> (\<forall>n. ev = XStart n \<longrightarrow> \<not> local_name_matches n t)"
  shows "find_text_from t False acc (pre @ evs) = find_text_from t False acc evs"
  using assms by (induction pre) (auto split: xml_event.splits)

lemma find_text_collect:
  assumes "local_name_matches c t"
  shows "find_text_from t True acc (map (\<lambda>s. XText (Some s)) ts @ XEnd c # rest) =
    Inr (Some (acc @ concat ts))"
  using assms by (induction ts arbitrary: acc) simp_all

lemma find_first_text_element:
  assumes "\<forall>ev \<in> set pre. ev \<noteq> XErr \<and> (\<forall>n. ev = XStart n \<longrightarrow> \<not> local_name_matches n t)"
    and "local_name_matches o' t" and "local_name_matches c t"
  shows "find_first_text (pre @ XStart o' # map (\<lambda>s. XText (Some s)) ts @ XEnd c # rest) t =
    Inr (Some (concat ts))"
  using find_text_skip [OF assms(1)] find_text_collect [OF assms(3)] assms(2)
  by (simp add: find_first_text_def)

lemma local_name_no_colon: "CHR '':'' \<notin> set s \<Longrightarrow> local_name s = s"
  by (cases s) auto

lemma local_name_prefix: "CHR '':'' \<notin> set s \<Longrightarrow> local_name (p @ CHR '':'' # s) = s"
  by (induction p) auto

lemma status_roundtrip: "s \<noteq> NsUnknown \<Longrightarrow> status_from_nav_str (status_as_nav_str s) = Some s"
  by (cases s) (simp_all add: status_from_nav_str_def)

lemma result_block_ok [simp]:
  "(case blk of NrOk \<Rightarrow> Inr () | NrError c m \<Rightarrow> Inl (f c m)) = Inr u \<longleftrightarrow> blk = NrOk"
  by (cases blk) simp_all

lemma parse_result_block_ok [simp]:
  "parse_result_block err xml = Inr NrOk \<longleftrightarrow> find_first_text xml ''funcCode'' = Inr (Some ''OK'')"
proof (cases "find_first_text xml ''funcCode''")
  case (Inr r)
  then show ?thesis
    by (cases r) (simp_all add: parse_result_block_def and_then_eq_Inr)
qed (simp add: parse_result_block_def)

lemma http_body_Inr [simp]: "http_body err a = Inr (st, body) \<longleftrightarrow> a = HttpAnswer st body"
  by (cases a) (auto simp: http_body_def)

lemma manage_invoice_result_Inr:
  "manage_invoice_result lib a = Inr so \<longleftrightarrow>
   (\<exists>status. a = HttpAnswer status (so_response_xml so) \<and> is_success status \<and>
     find_first_text (nl_xml lib (so_response_xml so)) ''funcCode'' = Inr (Some ''OK'') \<and>
     find_first_text (nl_xml lib (so_response_xml so)) ''transactionId'' =
       Inr (Some (so_transaction_id so)))"
  by (cases so) (auto simp: manage_invoice_result_def res_simps)

lemma check_text [simp]:
  "(if raw = ''true'' then Inr (True, body) else if raw = ''false'' then Inr (False, body) else Inl e) =
    Inr (b, bd) \<longleftrightarrow> bd = body \<and> raw = (if b then ''true'' else ''false'')"
  by (cases b) auto

lemma query_invoice_check_result_Inr:
  "query_invoice_check_result lib a = Inr (b, body) \<longleftrightarrow>
   (\<exists>status. a = HttpAnswer status body \<and> is_success status \<and>
     find_first_text (nl_xml lib body) ''funcCode'' = Inr (Some ''OK'') \<and>
     find_first_text (nl_xml lib body) ''invoiceCheckResult'' =
       Inr (Some (if b then ''true'' else ''false'')))"
  unfolding query_invoice_check_result_def  by (cases b) (auto simp: and_then_eq_Inr)

section \<open>Decrypting a padded token\<close>

definition pad16 :: "byte list \<Rightarrow> byte list" where
  \<comment> \<open>PKCS#7 to whole blocks\<close>
  "pad16 m = (let n = 16 - length m mod 16 in m @ replicate n (of_nat n))"

lemma pad16_length: "length (pad16 m) mod 16 = 0"
proof -
  have lt: "length m mod 16 < 16" by simp
  have "length (pad16 m) = length m + (16 - length m mod 16)" by (simp add: pad16_def Let_def)
  also have "\<dots> = 16 * (length m div 16) + 16"
    using lt div_mult_mod_eq [of "length m" 16] by linarith
  finally show ?thesis by simp
qed

lemma strip_pad16:
  assumes "m \<noteq> []"
  shows "strip_padding (pad16 m) = m"
proof -
  define n where "n = 16 - length m mod 16"
  have n: "0 < n" "n \<le> 16" by (simp_all add: n_def)
  have p: "pad16 m = m @ replicate n (of_nat n)" by (simp add: pad16_def n_def Let_def)
  have w: "unat (of_nat n :: byte) = n" using n by (simp add: unat_of_nat)
  show ?thesis
    using n assms by (simp add: strip_padding_def p w Let_def aes_block_size_def)
qed

lemma chunks16_append:
  assumes "length b = 16"
  shows "chunks16 (b @ bs) = b # chunks16 bs"
proof -
  obtain x xs where b: "b = x # xs" using assms by (cases b) auto
  then have "length xs = 15" using assms by simp
  then show ?thesis by (simp add: b aes_block_size_def)
qed

lemma chunks16_concat:
  assumes "\<forall>b \<in> set blocks. length b = 16"
  shows "chunks16 (concat blocks) = blocks"
  using assms by (induction blocks) (simp_all add: chunks16_append)

end
