(* ===== verification/Io_Monad.thy ===== *)
theory Io_Monad
  imports Prelude
begin

text \<open>
  Operations that keep their effect when they fail: what was written to a file, committed or sent
  before an error stays. An operation is a function from a state to a result and a state.
  \<open>io_run P m Q\<close> says what holds of the state after the operation, however it ended;
  the rules for the combinators are collected in \<open>io_rules\<close>.
\<close>

named_theorems io_rules \<open>rules for operations that keep their effect\<close>

type_synonym ('s, 'e, 'a) io_op = "'s \<Rightarrow> ('e + 'a) \<times> 's"

definition io_return :: "'a \<Rightarrow> ('s, 'e, 'a) io_op" where
  "io_return a s = (Inr a, s)"

definition io_fail :: "'e \<Rightarrow> ('s, 'e, 'a) io_op" where
  "io_fail e s = (Inl e, s)"

definition io_bind :: "('s, 'e, 'a) io_op \<Rightarrow> ('a \<Rightarrow> ('s, 'e, 'b) io_op) \<Rightarrow> ('s, 'e, 'b) io_op" where
  "io_bind m f s = (case m s of (Inl e, s') \<Rightarrow> (Inl e, s') | (Inr a, s') \<Rightarrow> f a s')"

definition io_get :: "('s \<Rightarrow> 'a) \<Rightarrow> ('s, 'e, 'a) io_op" where
  "io_get g s = (Inr (g s), s)"

definition io_modify :: "('s \<Rightarrow> 's) \<Rightarrow> ('s, 'e, unit) io_op" where
  "io_modify f s = (Inr (), f s)"

definition io_lift :: "'e + 'a \<Rightarrow> ('s, 'e, 'a) io_op" where
  "io_lift r s = (r, s)"

definition io_map_err :: "('e \<Rightarrow> 'f) \<Rightarrow> ('s, 'e, 'a) io_op \<Rightarrow> ('s, 'f, 'a) io_op" where
  "io_map_err g m s = (case m s of (r, s') \<Rightarrow> (map_err g r, s'))"

definition io_attempt :: "('s, 'e, 'a) io_op \<Rightarrow> ('s, 'f, 'e + 'a) io_op" where
  \<comment> \<open>the result as a value\<close>
  "io_attempt m s = (case m s of (r, s') \<Rightarrow> (Inr r, s'))"

lemmas io_defs =
  io_return_def io_fail_def io_get_def io_modify_def io_lift_def io_map_err_def io_attempt_def

lemma io_map_err_snd [simp]: "snd (io_map_err g m s) = snd (m s)"
  by (simp add: io_map_err_def split: prod.splits)

lemma io_attempt_snd [simp]: "snd (io_attempt m s) = snd (m s)"
  by (simp add: io_attempt_def split: prod.splits)

lemma io_bind_return [simp]: "io_bind (io_return a) f = f a"
  by (rule ext) (simp add: io_bind_def io_return_def)

lemma io_bind_fail [simp]: "io_bind (io_fail e) f = io_fail e"
  by (rule ext) (simp add: io_bind_def io_fail_def)

lemma io_bind_assoc: "io_bind (io_bind m f) g = io_bind m (\<lambda>a. io_bind (f a) g)"
  by (rule ext) (auto simp: io_bind_def split: prod.splits sum.splits)

lemma io_bind_Inr:
  "io_bind m f s = (Inr b, t) \<longleftrightarrow> (\<exists>a s'. m s = (Inr a, s') \<and> f a s' = (Inr b, t))"
  by (auto simp: io_bind_def split: prod.splits sum.splits)

lemma io_bind_run: "m s = (Inr a, s') \<Longrightarrow> io_bind m f s = f a s'"
  by (simp add: io_bind_def)

lemma io_bind_stop: "m s = (Inl e, s') \<Longrightarrow> io_bind m f s = (Inl e, s')"
  by (simp add: io_bind_def)

section \<open>What holds after an operation\<close>

definition io_run ::
  "('s \<Rightarrow> bool) \<Rightarrow> ('s, 'e, 'a) io_op \<Rightarrow> ('s \<Rightarrow> 'e + 'a \<Rightarrow> 's \<Rightarrow> bool) \<Rightarrow> bool" where
  "io_run P m Q \<longleftrightarrow> (\<forall>s. P s \<longrightarrow> Q s (fst (m s)) (snd (m s)))"

definition io_keeps :: "('s \<Rightarrow> bool) \<Rightarrow> ('s, 'e, 'a) io_op \<Rightarrow> bool" where
  "io_keeps P m \<longleftrightarrow> (\<forall>s. P s \<longrightarrow> P (snd (m s)))"

definition io_grows :: "('s \<Rightarrow> 's \<Rightarrow> bool) \<Rightarrow> ('s, 'e, 'a) io_op \<Rightarrow> bool" where
  \<comment> \<open>the state only moves along a reflexive and transitive relation\<close>
  "io_grows R m \<longleftrightarrow> (\<forall>s. R s (snd (m s)))"

lemma io_runI: "(\<And>s. P s \<Longrightarrow> Q s (fst (m s)) (snd (m s))) \<Longrightarrow> io_run P m Q"
  by (simp add: io_run_def)

lemma io_runD: "io_run P m Q \<Longrightarrow> P s \<Longrightarrow> m s = (r, t) \<Longrightarrow> Q s r t"
  by (auto simp: io_run_def dest: spec [of _ s])

lemma io_keepsI: "(\<And>s r t. P s \<Longrightarrow> m s = (r, t) \<Longrightarrow> P t) \<Longrightarrow> io_keeps P m"
  by (metis io_keeps_def prod.collapse)

lemma io_keepsD: "io_keeps P m \<Longrightarrow> P s \<Longrightarrow> m s = (r, t) \<Longrightarrow> P t"
  by (auto simp: io_keeps_def dest: spec [of _ s])

lemma io_keeps_snd: "io_keeps P m \<Longrightarrow> P s \<Longrightarrow> P (snd (m s))"
  by (simp add: io_keeps_def)

lemma io_keeps_return [io_rules]: "io_keeps P (io_return a)"
  by (simp add: io_keeps_def io_defs)

lemma io_keeps_fail [io_rules]: "io_keeps P (io_fail e)"
  by (simp add: io_keeps_def io_defs)

lemma io_keeps_get [io_rules]: "io_keeps P (io_get g)"
  by (simp add: io_keeps_def io_defs)

lemma io_keeps_lift [io_rules]: "io_keeps P (io_lift r)"
  by (simp add: io_keeps_def io_defs)

lemma io_keeps_modify: "(\<And>s. P s \<Longrightarrow> P (f s)) \<Longrightarrow> io_keeps P (io_modify f)"
  by (simp add: io_keeps_def io_defs)

lemma io_keeps_map_err [io_rules]: "io_keeps P m \<Longrightarrow> io_keeps P (io_map_err g m)"
  by (simp add: io_keeps_def)

lemma io_keeps_attempt [io_rules]: "io_keeps P m \<Longrightarrow> io_keeps P (io_attempt m)"
  by (simp add: io_keeps_def)

lemma io_keeps_bind [io_rules]:
  assumes m: "io_keeps P m" and f: "\<And>a. io_keeps P (f a)"
  shows "io_keeps P (io_bind m f)"
proof (rule io_keepsI)
  fix s r t assume s: "P s" and r: "io_bind m f s = (r, t)"
  obtain q s' where ms: "m s = (q, s')" by fastforce
  have p: "P s'" by (rule io_keepsD [OF m s ms])
  show "P t"
  proof (cases q)
    case (Inl e)
    then show ?thesis using r ms p by (simp add: io_bind_def)
  next
    case (Inr a)
    then have "f a s' = (r, t)" using r ms by (simp add: io_bind_def)
    then show ?thesis by (rule io_keepsD [OF f p])
  qed
qed

lemma io_keeps_if [io_rules]:
  "io_keeps P m \<Longrightarrow> io_keeps P n \<Longrightarrow> io_keeps P (if b then m else n)"
  by simp

lemma io_keeps_case_option [io_rules]:
  "io_keeps P m \<Longrightarrow> (\<And>x. io_keeps P (f x)) \<Longrightarrow>
   io_keeps P (case r of None \<Rightarrow> m | Some x \<Rightarrow> f x)"
  by (cases r) simp_all

lemma io_keeps_case_sum [io_rules]:
  "(\<And>e. io_keeps P (g e)) \<Longrightarrow> (\<And>x. io_keeps P (f x)) \<Longrightarrow>
   io_keeps P (case r of Inl e \<Rightarrow> g e | Inr x \<Rightarrow> f x)"
  by (cases r) simp_all

lemma io_keeps_case_prod [io_rules]:
  "(\<And>x y. io_keeps P (f x y)) \<Longrightarrow> io_keeps P (case p of (x, y) \<Rightarrow> f x y)"
  by (cases p) simp

lemma io_keeps_Let [io_rules]: "(\<And>x. io_keeps P (f x)) \<Longrightarrow> io_keeps P (let x = t in f x)"
  by simp

section \<open>States that only grow\<close>

locale growth =
  fixes leq :: "'s \<Rightarrow> 's \<Rightarrow> bool"
  assumes leq_refl: "leq s s"
    and leq_trans: "leq s t \<Longrightarrow> leq t u \<Longrightarrow> leq s u"
begin

lemma grows_return: "io_grows leq (io_return a)"
  by (simp add: io_grows_def io_defs leq_refl)

lemma grows_fail: "io_grows leq (io_fail e)"
  by (simp add: io_grows_def io_defs leq_refl)

lemma grows_get: "io_grows leq (io_get g)"
  by (simp add: io_grows_def io_defs leq_refl)

lemma grows_lift: "io_grows leq (io_lift r)"
  by (simp add: io_grows_def io_defs leq_refl)

lemma grows_map_err: "io_grows leq m \<Longrightarrow> io_grows leq (io_map_err g m)"
  by (simp add: io_grows_def)

lemma grows_attempt: "io_grows leq m \<Longrightarrow> io_grows leq (io_attempt m)"
  by (simp add: io_grows_def)

lemma grows_bind:
  assumes m: "io_grows leq m" and f: "\<And>a. io_grows leq (f a)"
  shows "io_grows leq (io_bind m f)"
  unfolding io_grows_def
proof
  fix s
  obtain q s' where ms: "m s = (q, s')" by fastforce
  have "leq s s'" using m ms by (auto simp: io_grows_def dest: spec [of _ s])
  moreover have "leq s' (snd (f a s'))" for a using f by (simp add: io_grows_def)
  ultimately show "leq s (snd (io_bind m f s))"
    by (cases q) (auto simp: io_bind_def ms intro: leq_trans)
qed

lemma grows_if: "io_grows leq m \<Longrightarrow> io_grows leq n \<Longrightarrow> io_grows leq (if b then m else n)"
  by simp

lemma grows_case_option:
  "io_grows leq m \<Longrightarrow> (\<And>x. io_grows leq (f x)) \<Longrightarrow>
   io_grows leq (case r of None \<Rightarrow> m | Some x \<Rightarrow> f x)"
  by (cases r) simp_all

lemma grows_case_sum:
  "(\<And>e. io_grows leq (g e)) \<Longrightarrow> (\<And>x. io_grows leq (f x)) \<Longrightarrow>
   io_grows leq (case r of Inl e \<Rightarrow> g e | Inr x \<Rightarrow> f x)"
  by (cases r) simp_all

lemma grows_case_prod:
  "(\<And>x y. io_grows leq (f x y)) \<Longrightarrow> io_grows leq (case p of (x, y) \<Rightarrow> f x y)"
  by (cases p) simp

lemma grows_Let: "(\<And>x. io_grows leq (f x)) \<Longrightarrow> io_grows leq (let x = t in f x)"
  by simp

lemmas grows_rules =
  grows_return grows_fail grows_get grows_lift grows_map_err grows_attempt grows_bind grows_if
  grows_case_option grows_case_sum grows_case_prod grows_Let

end

end
