(* ===== verification/Db_Handle.thy ===== *)
theory Db_Handle
  imports Io_Monad
begin

text \<open>
  The one shared database handle of a process (crates/aberp-db/src): the writer's window, the
  hooks of its end (data flush, mirror, checkpoint), the acknowledgement a caller claims after it,
  coherent reads, recovery from a poisoned lock, and the pace of checkpoints. The machine beneath
  it is part of the state: which file the database's path names, the content of each file as the
  database sees it and as stable storage has it (what the path would name after a crash), and the
  content of the mirror. The content is a type parameter; the answers of the machine are functions
  of a tick. A checkpoint is the sequence of fallible steps of the snapshot crate
  (crates/aberp-snapshot/src/crash_safe.rs). Another process may put a new file at the path at any
  time (\<open>external_swap\<close>).
\<close>

section \<open>The pace of checkpoints\<close>

record debouncer =
  de_min_interval :: nat
  de_last_checkpoint :: "nat option"
  de_dirty :: bool

definition default_min_checkpoint_interval :: nat where
  "default_min_checkpoint_interval = 60"

definition debouncer_new :: "nat \<Rightarrow> debouncer" where
  "debouncer_new i = \<lparr>de_min_interval = i, de_last_checkpoint = None, de_dirty = False\<rparr>"

definition note_write :: "debouncer \<Rightarrow> debouncer" where
  "note_write d = d\<lparr>de_dirty := True\<rparr>"

definition should_checkpoint_now :: "nat \<Rightarrow> debouncer \<Rightarrow> bool" where
  "should_checkpoint_now now d \<longleftrightarrow> de_dirty d \<and>
     (case de_last_checkpoint d of None \<Rightarrow> True
      | Some at \<Rightarrow> de_min_interval d \<le> now - at)"

definition should_checkpoint_on_idle :: "debouncer \<Rightarrow> bool" where
  "should_checkpoint_on_idle d \<longleftrightarrow> de_dirty d"

definition record_checkpoint :: "nat \<Rightarrow> debouncer \<Rightarrow> debouncer" where
  "record_checkpoint now d = d\<lparr>de_last_checkpoint := Some now, de_dirty := False\<rparr>"

section \<open>The handle\<close>

type_synonym inode = "nat \<times> nat"

datatype data_path = DpMain | DpWal | DpDir

datatype db_error =
    DbProdPath string
  | DbPoisoned
  | DbPoisonRecoveryFailed string
  | DbDuck string
  | DbDurableAck data_path string
  | DbLiveFileSwapped

record handle_config =
  hc_min_checkpoint_interval :: nat
  hc_checkpoint_enabled :: bool
  hc_disable_implicit_close_checkpoint :: bool

definition handle_config_default :: handle_config where
  "handle_config_default = \<lparr>hc_min_checkpoint_interval = default_min_checkpoint_interval,
     hc_checkpoint_enabled = True, hc_disable_implicit_close_checkpoint = True\<rparr>"

text \<open>
  The steps of a checkpoint. The live file is exported and the copy validated, built into a staging
  file, flushed and hashed; the intent is journaled; then the staging file is flushed again,
  renamed onto the path, the log of the old file is removed and the directory is flushed; then the
  journal is cleared and the marker of a verified file is written. Each may fail.
\<close>

datatype checkpoint_step =
    CsSource | CsExport | CsValidate | CsBuild | CsFlushStaging | CsHash | CsJournal
  | CsFlushStaged | CsRename | CsDropLog | CsFlushDir | CsClearIntent | CsMarker

record wal_fence =
  wf_present :: bool
  wf_size :: nat

datatype checkpoint_error =
    CeStep checkpoint_step string
  | CeLogChanged wal_fence wal_fence

definition wal_fence_violated :: "wal_fence \<Rightarrow> wal_fence \<Rightarrow> bool" where
  "wal_fence_violated before now \<longleftrightarrow>
     wf_size before < wf_size now \<or> wf_present before \<and> \<not> wf_present now \<or>
     wf_present before \<and> wf_present now \<and> wf_size now < wf_size before"

text \<open>
  The answers of the machine. \<open>he_stat\<close> says whether the live file can be examined;
  \<open>he_marked\<close> whether the marker beside it names its hash; \<open>he_staged\<close> which file a
  checkpoint builds; \<open>he_old_log\<close> what the database sees in an installed file while the old
  file's log is still beside it; \<open>he_unflushed\<close> what a crash leaves at the path between the
  rename and the flush of the directory, from what stable storage held before and the new content.
\<close>

record 'd handle_env =
  he_config :: handle_config
  he_unix :: bool
  he_stat :: "nat \<Rightarrow> bool"
  he_open :: "nat \<Rightarrow> string option"
  he_clone :: "nat \<Rightarrow> string option"
  he_fsync :: "nat \<Rightarrow> data_path \<Rightarrow> string option"
  he_wal_exists :: "nat \<Rightarrow> bool"
  he_has_parent :: bool
  he_now :: "nat \<Rightarrow> nat"
  he_wal :: "nat \<Rightarrow> wal_fence"
  he_marked :: "nat \<Rightarrow> bool"
  he_step :: "nat \<Rightarrow> checkpoint_step \<Rightarrow> string option"
  he_staged :: "nat \<Rightarrow> inode"
  he_dir_opens :: "nat \<Rightarrow> bool"
  he_old_log :: "nat \<Rightarrow> 'd \<Rightarrow> 'd"
  he_unflushed :: "nat \<Rightarrow> 'd \<Rightarrow> 'd \<Rightarrow> 'd"
  he_verify :: "'d \<Rightarrow> string + nat"
  he_recovery_row :: "nat \<Rightarrow> 'd \<Rightarrow> 'd"
  he_sync_mirror :: "nat \<Rightarrow> 'd \<Rightarrow> 'd \<Rightarrow> 'd"
  he_sync_error :: "nat \<Rightarrow> 'd \<Rightarrow> 'd \<Rightarrow> string option"

record 'd db_handle =
  hd_conn :: "inode option"
  hd_fence :: "inode option"
  hd_last_ack :: "(db_error + unit) option"
  hd_debouncer :: debouncer
  hd_poisoned :: bool
  hd_synced :: "data_path list"
  hd_live :: inode
  hd_data :: "inode \<Rightarrow> 'd"
  hd_stable :: "inode \<Rightarrow> 'd"
  hd_mirror :: 'd
  hd_tick :: nat

type_synonym ('d, 'a) handle_op = "('d db_handle, db_error, 'a) io_op"

definition file_id :: "'d handle_env \<Rightarrow> 'd db_handle \<Rightarrow> inode option" where
  "file_id env s = (if he_unix env \<and> he_stat env (hd_tick s) then Some (hd_live s) else None)"

definition live_file_swapped :: "'d handle_env \<Rightarrow> 'd db_handle \<Rightarrow> bool" where
  "live_file_swapped env s =
     (case (hd_fence s, file_id env s) of
        (Some opened_on, Some now) \<Rightarrow> opened_on \<noteq> now
      | _ \<Rightarrow> False)"

definition answer :: "(nat \<Rightarrow> string option) \<Rightarrow> (string \<Rightarrow> 'e) \<Rightarrow> ('d db_handle, 'e, unit) io_op" where
  "answer ans err s =
     (case ans (hd_tick s) of
        Some e \<Rightarrow> (Inl (err e), s\<lparr>hd_tick := hd_tick s + 1\<rparr>)
      | None \<Rightarrow> (Inr (), s\<lparr>hd_tick := hd_tick s + 1\<rparr>))"

definition open_runtime_connection :: "'d handle_env \<Rightarrow> ('d, unit) handle_op" where
  "open_runtime_connection env = answer (he_open env) DbDuck"

definition ensure_open :: "'d handle_env \<Rightarrow> ('d, unit) handle_op" where
  "ensure_open env =
     io_bind (io_get hd_conn) (\<lambda>c.
       if c = None then
         io_bind (open_runtime_connection env) (\<lambda>_.
           io_modify (\<lambda>s. s\<lparr>hd_conn := Some (hd_live s), hd_fence := file_id env s\<rparr>))
       else io_return ())"

definition conn_data :: "'d db_handle \<Rightarrow> 'd" where
  \<comment> \<open>what the open connection sees\<close>
  "conn_data s = hd_data s (the (hd_conn s))"

definition set_conn_data :: "'d \<Rightarrow> 'd db_handle \<Rightarrow> 'd db_handle" where
  "set_conn_data d s = s\<lparr>hd_data := (hd_data s)(the (hd_conn s) := d)\<rparr>"

definition emit_poison_recovery_audit :: "'d handle_env \<Rightarrow> ('d, unit) handle_op" where
  "emit_poison_recovery_audit env =
     io_modify (\<lambda>s. set_conn_data (he_recovery_row env (hd_tick s) (conn_data s)) s)"

definition recover_from_poison :: "'d handle_env \<Rightarrow> ('d, unit) handle_op" where
  "recover_from_poison env =
     io_bind (io_modify (\<lambda>s. s\<lparr>hd_conn := None\<rparr>)) (\<lambda>_.
     io_bind (ensure_open env) (\<lambda>_.
     io_bind (answer (he_clone env) DbDuck) (\<lambda>_.
     io_bind (io_get (\<lambda>s. he_verify env (conn_data s))) (\<lambda>r.
       case r of
         Inl e \<Rightarrow> io_fail (DbPoisonRecoveryFailed e)
       | Inr head_seq \<Rightarrow> emit_poison_recovery_audit env))))"

definition lock_recovering :: "'d handle_env \<Rightarrow> ('d, unit) handle_op" where
  "lock_recovering env =
     io_bind (io_get hd_poisoned) (\<lambda>p.
       if p then
         io_bind (io_modify (\<lambda>s. s\<lparr>hd_poisoned := False\<rparr>)) (\<lambda>_. recover_from_poison env)
       else io_return ())"

definition handle_write :: "'d handle_env \<Rightarrow> ('d, unit) handle_op" where
  "handle_write env = io_bind (lock_recovering env) (\<lambda>_. ensure_open env)"

definition handle_read :: "'d handle_env \<Rightarrow> ('d, 'd) handle_op" where
  \<comment> \<open>a clone of the connection: the content it sees\<close>
  "handle_read env =
     io_bind (lock_recovering env) (\<lambda>_.
     io_bind (io_modify (\<lambda>s. if live_file_swapped env s then s\<lparr>hd_conn := None, hd_fence := None\<rparr> else s)) (\<lambda>_.
     io_bind (ensure_open env) (\<lambda>_.
     io_bind (answer (he_clone env) DbDuck) (\<lambda>_.
       io_get conn_data))))"

section \<open>Flushing\<close>

definition fsync_and_record :: "'d handle_env \<Rightarrow> data_path \<Rightarrow> ('d, unit) handle_op" where
  "fsync_and_record env p =
     io_bind (answer (\<lambda>n. he_fsync env n p) (DbDurableAck p)) (\<lambda>_.
       io_modify (\<lambda>s. if p \<in> set (hd_synced s) then s else s\<lparr>hd_synced := hd_synced s @ [p]\<rparr>))"

definition stabilise :: "'d db_handle \<Rightarrow> 'd db_handle" where
  \<comment> \<open>the flushes go by path: it is the live file that is on stable storage\<close>
  "stabilise s = s\<lparr>hd_stable := (hd_stable s)(hd_live s := hd_data s (hd_live s))\<rparr>"

definition fsync_data_paths :: "'d handle_env \<Rightarrow> ('d, unit) handle_op" where
  "fsync_data_paths env =
     io_bind (fsync_and_record env DpMain) (\<lambda>_.
     io_bind (io_get (\<lambda>s. he_wal_exists env (hd_tick s))) (\<lambda>wal.
     io_bind (if wal then fsync_and_record env DpWal else io_return ()) (\<lambda>_.
     io_bind (if he_has_parent env then fsync_and_record env DpDir else io_return ()) (\<lambda>_.
       io_modify stabilise))))"

section \<open>Checkpoints\<close>

type_synonym ('d, 'a) checkpoint_op = "('d db_handle, checkpoint_error, 'a) io_op"

definition checkpoint_is_current :: "'d handle_env \<Rightarrow> 'd db_handle \<Rightarrow> bool" where
  "checkpoint_is_current env s \<longleftrightarrow>
     \<not> 0 < wf_size (he_wal env (hd_tick s)) \<and> he_marked env (hd_tick s)"

definition checkpoint_step :: "'d handle_env \<Rightarrow> checkpoint_step \<Rightarrow> ('d, unit) checkpoint_op" where
  "checkpoint_step env c = answer (\<lambda>n. he_step env n c) (CeStep c)"

definition stage_checkpoint :: "'d handle_env \<Rightarrow> ('d, inode) checkpoint_op" where
  \<comment> \<open>all that comes before the installation: it leaves the live file alone\<close>
  "stage_checkpoint env =
     io_bind (checkpoint_step env CsSource) (\<lambda>_.
     io_bind (io_get (\<lambda>s. he_wal env (hd_tick s))) (\<lambda>before.
     io_bind (checkpoint_step env CsExport) (\<lambda>_.
     io_bind (checkpoint_step env CsValidate) (\<lambda>_.
     io_bind (checkpoint_step env CsBuild) (\<lambda>_.
     io_bind (checkpoint_step env CsFlushStaging) (\<lambda>_.
     io_bind (checkpoint_step env CsHash) (\<lambda>_.
     io_bind (io_get (\<lambda>s. he_wal env (hd_tick s))) (\<lambda>now.
       if wal_fence_violated before now then io_fail (CeLogChanged before now)
       else
         io_bind (checkpoint_step env CsJournal) (\<lambda>_.
           io_get (\<lambda>s. he_staged env (hd_tick s)))))))))))"

definition rename_staged :: "'d handle_env \<Rightarrow> inode \<Rightarrow> 'd db_handle \<Rightarrow> 'd db_handle" where
  "rename_staged env i s =
     (let d = hd_data s (hd_live s)
      in s\<lparr>hd_live := i, hd_data := (hd_data s)(i := he_old_log env (hd_tick s) d),
           hd_stable := (hd_stable s)(i := he_unflushed env (hd_tick s) (hd_stable s (hd_live s)) d)\<rparr>)"

definition atomic_install :: "'d handle_env \<Rightarrow> inode \<Rightarrow> ('d, unit) checkpoint_op" where
  \<comment> \<open>a directory that cannot be opened is passed over without a flush\<close>
  "atomic_install env i =
     io_bind (checkpoint_step env CsFlushStaged) (\<lambda>_.
     io_bind (checkpoint_step env CsRename) (\<lambda>_.
     io_bind (io_get (\<lambda>s. hd_data s (hd_live s))) (\<lambda>d.
     io_bind (io_modify (rename_staged env i)) (\<lambda>_.
     io_bind (checkpoint_step env CsDropLog) (\<lambda>_.
     io_bind (io_modify (\<lambda>s. s\<lparr>hd_data := (hd_data s)(i := d)\<rparr>)) (\<lambda>_.
     io_bind (io_get (\<lambda>s. he_has_parent env \<and> he_dir_opens env (hd_tick s))) (\<lambda>flushes.
       if flushes then
         io_bind (checkpoint_step env CsFlushDir) (\<lambda>_.
           io_modify (\<lambda>s. s\<lparr>hd_stable := (hd_stable s)(i := d)\<rparr>))
       else io_return ())))))))"

definition durable_checkpoint :: "'d handle_env \<Rightarrow> ('d, unit) checkpoint_op" where
  "durable_checkpoint env =
     io_bind (stage_checkpoint env) (\<lambda>i.
     io_bind (atomic_install env i) (\<lambda>_.
     io_bind (checkpoint_step env CsClearIntent) (\<lambda>_.
       checkpoint_step env CsMarker)))"

definition live_durable_checkpoint :: "'d handle_env \<Rightarrow> ('d, bool) checkpoint_op" where
  \<comment> \<open>whether one was taken\<close>
  "live_durable_checkpoint env =
     io_bind (checkpoint_step env CsSource) (\<lambda>_.
     io_bind (io_get (checkpoint_is_current env)) (\<lambda>current.
       if current then io_return False
       else io_bind (durable_checkpoint env) (\<lambda>_. io_return True)))"

definition run_durable_checkpoint_locked :: "'d handle_env \<Rightarrow> ('d, bool) handle_op" where
  "run_durable_checkpoint_locked env =
     io_bind (io_modify (\<lambda>s. s\<lparr>hd_conn := None\<rparr>)) (\<lambda>_.
     io_bind (io_attempt (live_durable_checkpoint env)) (\<lambda>taken.
     io_bind (io_modify (\<lambda>s.
       if is_ok taken then s\<lparr>hd_debouncer := record_checkpoint (he_now env (hd_tick s)) (hd_debouncer s)\<rparr> else s)) (\<lambda>_.
     io_bind (io_modify (\<lambda>s. s\<lparr>hd_fence := file_id env s\<rparr>)) (\<lambda>_.
     io_bind (io_attempt (open_runtime_connection env)) (\<lambda>opened.
     io_bind (io_modify (\<lambda>s. case opened of
         Inl e \<Rightarrow> s | Inr _ \<Rightarrow> s\<lparr>hd_conn := Some (hd_live s)\<rparr>)) (\<lambda>_.
       io_return (is_ok taken)))))))"

definition checkpoint_on_idle :: "'d handle_env \<Rightarrow> ('d, unit) handle_op" where
  "checkpoint_on_idle env =
     (if hc_checkpoint_enabled (he_config env) then
        io_bind (io_attempt (lock_recovering env)) (\<lambda>r.
          case r of
            Inl e \<Rightarrow> io_return ()
          | Inr _ \<Rightarrow>
              io_bind (io_get hd_debouncer) (\<lambda>d.
                if should_checkpoint_on_idle d
                then io_bind (run_durable_checkpoint_locked env) (\<lambda>_. io_return ())
                else io_return ()))
      else io_return ())"

definition checkpoint_now :: "'d handle_env \<Rightarrow> ('d, bool) handle_op" where
  "checkpoint_now env =
     io_bind (io_attempt (lock_recovering env)) (\<lambda>r.
       case r of Inl e \<Rightarrow> io_return False | Inr _ \<Rightarrow> run_durable_checkpoint_locked env)"

section \<open>The end of a writer's window\<close>

definition park_ack :: "db_error + unit \<Rightarrow> 'd db_handle \<Rightarrow> 'd db_handle" where
  \<comment> \<open>an unclaimed failure sticks\<close>
  "park_ack ack s =
     (case hd_last_ack s of Some (Inl e) \<Rightarrow> s | _ \<Rightarrow> s\<lparr>hd_last_ack := Some ack\<rparr>)"

definition handle_sync_mirror :: "'d handle_env \<Rightarrow> 'd db_handle \<Rightarrow> 'd db_handle" where
  "handle_sync_mirror env s =
     (if hd_conn s = None then s
      else s\<lparr>hd_mirror := he_sync_mirror env (hd_tick s) (conn_data s) (hd_mirror s)\<rparr>)"

definition sync_mirror_from :: "'d handle_env \<Rightarrow> 'd \<Rightarrow> ('d db_handle, string, unit) io_op" where
  \<comment> \<open>the sync a command runs itself, from a content it has read; what was appended before a failure stays\<close>
  "sync_mirror_from env d s =
     ((case he_sync_error env (hd_tick s) d (hd_mirror s) of Some e \<Rightarrow> Inl e | None \<Rightarrow> Inr ()),
      s\<lparr>hd_mirror := he_sync_mirror env (hd_tick s) d (hd_mirror s), hd_tick := hd_tick s + 1\<rparr>)"

definition guard_drop :: "'d handle_env \<Rightarrow> ('d, unit) handle_op" where
  "guard_drop env =
     io_bind (io_get (live_file_swapped env)) (\<lambda>swapped.
       if swapped then
         io_modify (\<lambda>s. s\<lparr>hd_last_ack := Some (Inl DbLiveFileSwapped), hd_conn := None, hd_fence := None\<rparr>)
       else
         io_bind (io_attempt (fsync_data_paths env)) (\<lambda>ack.
         io_bind (io_modify (park_ack ack)) (\<lambda>_.
         io_bind (io_modify (\<lambda>s. if is_ok ack then handle_sync_mirror env s else s)) (\<lambda>_.
         io_bind (io_modify (\<lambda>s. s\<lparr>hd_debouncer := note_write (hd_debouncer s)\<rparr>)) (\<lambda>_.
         io_bind (io_get (\<lambda>s. hc_checkpoint_enabled (he_config env) \<and>
                     should_checkpoint_now (he_now env (hd_tick s)) (hd_debouncer s))) (\<lambda>due.
           if due then io_bind (run_durable_checkpoint_locked env) (\<lambda>_. io_return ())
           else io_return ()))))))"

definition durable_ack :: "'d handle_env \<Rightarrow> ('d, unit) handle_op" where
  "durable_ack env =
     io_bind (lock_recovering env) (\<lambda>_.
     io_bind (io_get (live_file_swapped env)) (\<lambda>swapped.
     io_bind (io_get hd_last_ack) (\<lambda>claimed.
     io_bind (io_modify (\<lambda>s. s\<lparr>hd_last_ack := None\<rparr>)) (\<lambda>_.
       case claimed of
         Some r \<Rightarrow> io_lift r
       | None \<Rightarrow> if swapped then io_fail DbLiveFileSwapped else fsync_data_paths env))))"

section \<open>Transactions and windows\<close>

text \<open>A transaction leaves the content alone when it fails.\<close>

definition transact :: "('d \<Rightarrow> 'e + 'a \<times> 'd) \<Rightarrow> ('d db_handle, 'e, 'a) io_op" where
  "transact f s =
     (case f (conn_data s) of
        Inl e \<Rightarrow> (Inl e, s)
      | Inr (a, d) \<Rightarrow> (Inr a, set_conn_data d s))"

text \<open>The guard is dropped at the end of its block, also when the block returns early.\<close>

definition in_window ::
  "'d handle_env \<Rightarrow> ('d db_handle, 'e, 'a) io_op \<Rightarrow> ('d db_handle, 'e, 'a) io_op" where
  "in_window env m s = (case m s of (r, s') \<Rightarrow> (r, snd (guard_drop env s')))"

definition db_write ::
  "'d handle_env \<Rightarrow> (db_error \<Rightarrow> 'e) \<Rightarrow> ('d \<Rightarrow> 'e + 'a \<times> 'd) \<Rightarrow> ('d db_handle, 'e, 'a) io_op" where
  "db_write env err f =
     io_bind (io_map_err err (handle_write env)) (\<lambda>_. in_window env (transact f))"

definition with_ledger ::
  "'d handle_env \<Rightarrow> (db_error \<Rightarrow> 'e) \<Rightarrow> ('d \<Rightarrow> 'e + 'a \<times> 'd) \<Rightarrow> ('d db_handle, 'e, 'a) io_op" where
  "with_ledger env err f =
     io_bind (io_map_err err (handle_write env)) (\<lambda>_.
       in_window env (io_bind (io_map_err err (answer (he_clone env) DbDuck)) (\<lambda>_. transact f)))"

definition handle_open ::
  "'d handle_env \<Rightarrow> string option \<Rightarrow> inode \<Rightarrow> (inode \<Rightarrow> 'd) \<Rightarrow> (inode \<Rightarrow> 'd) \<Rightarrow> 'd \<Rightarrow> nat \<Rightarrow>
   db_error + 'd db_handle" where
  \<comment> \<open>the first argument is what the check of the path says\<close>
  "handle_open env refused live files flushed mirror n =
     and_then (case refused of Some e \<Rightarrow> Inl (DbProdPath e) | None \<Rightarrow> Inr ()) (\<lambda>_.
     and_then (case he_open env n of Some e \<Rightarrow> Inl (DbDuck e) | None \<Rightarrow> Inr ()) (\<lambda>_.
       Inr \<lparr>hd_conn = Some live, hd_fence = (if he_unix env \<and> he_stat env n then Some live else None),
            hd_last_ack = None,
            hd_debouncer = debouncer_new (hc_min_checkpoint_interval (he_config env)),
            hd_poisoned = False, hd_synced = [], hd_live = live, hd_data = files,
            hd_stable = flushed, hd_mirror = mirror, hd_tick = n + 1\<rparr>))"

text \<open>
  What happens outside the handle: another process puts a file at the path; a thread panics
  inside its window, whose guard is dropped before the lock is poisoned; the machine stops, and
  a file has the content that stable storage has.
\<close>

definition external_swap :: "inode \<times> 'd \<Rightarrow> 'd db_handle \<Rightarrow> 'd db_handle" where
  "external_swap f s =
     s\<lparr>hd_live := fst f, hd_data := (hd_data s)(fst f := snd f),
       hd_stable := (hd_stable s)(fst f := snd f)\<rparr>"

definition panic_in_window :: "'d handle_env \<Rightarrow> 'd db_handle \<Rightarrow> 'd db_handle" where
  "panic_in_window env s = (snd (guard_drop env s))\<lparr>hd_poisoned := True\<rparr>"

end
