(* ===== verification/Nav_Ledger.thy ===== *)
theory Nav_Ledger
  imports Nav_Transport Billing_Duckdb Db_Handle
begin

text \<open>
  What the submission commands read from and write to the audit ledger (apps/aberp/src:
  audit_payloads.rs, audit_query.rs, submission_queue.rs): the payloads of the events of an
  invoice at NAV, the stuck precondition, the queues of invoices to submit and to retry, and the
  classification of a NAV error. The JSON form of a payload is a parameter (\<open>nav_codec\<close>).
\<close>

section \<open>Payloads\<close>

record draft_created_payload =
  dc_invoice_id :: string
  dc_line_count :: nat
  dc_idempotency_key :: string
  dc_nav_xml_path :: "string option"
  dc_currency :: "string option"
  dc_exchange_rate :: "string option"
  dc_exchange_rate_source :: "string option"
  dc_exchange_rate_date :: "string option"
  dc_huf_equivalent_total :: "string option"
  dc_bank_account_id :: "string option"
  dc_bank_account_currency :: "string option"
  dc_bank_account_number :: "string option"
  dc_bank_account_bank_name :: "string option"
  dc_bank_account_swift_bic :: "string option"
  dc_invoice_note :: "string option"
  dc_line_notes :: "string option list"
  dc_payment_deadline :: "string option"
  dc_delivery_date :: "string option"
  dc_delivery_date_override :: "string option"
  dc_customer_vat_status :: "string option"
  dc_customer_community_vat_number :: "string option"
  dc_source_dispatch_id :: "string option"
  dc_source_wo_id :: "string option"
  dc_source_draft_id :: "string option"

record attempt_payload =
  at_invoice_id :: string
  at_idempotency_key :: string
  at_endpoint :: string
  at_request_xml :: "byte list"

record response_payload =
  re_invoice_id :: string
  re_idempotency_key :: string
  re_transaction_id :: string
  re_response_xml :: "byte list"

record ack_status_payload =
  ak_invoice_id :: string
  ak_transaction_id :: string
  ak_ack_status :: string
  ak_response_xml :: "byte list"

record retry_requested_payload =
  rr_invoice_id :: string
  rr_idempotency_key :: string
  rr_prior_transaction_id :: "string option"
  rr_prior_last_ack_status :: "string option"
  rr_reason :: string

record marked_abandoned_payload =
  ma_invoice_id :: string
  ma_idempotency_key :: string
  ma_prior_transaction_id :: "string option"
  ma_prior_last_ack_status :: "string option"
  ma_reason :: string

record attempt_failed_payload =
  af_invoice_id :: string
  af_idempotency_key :: string
  af_endpoint :: string
  af_error_class :: string
  af_error_code :: "string option"
  af_error_message :: string
  af_response_xml :: "byte list option"

record check_performed_payload =
  cp_invoice_id :: string
  cp_idempotency_key :: string
  cp_endpoint :: string
  cp_nav_invoice_number :: string
  cp_outcome :: string
  cp_request_xml :: "byte list"
  cp_response_xml :: "byte list option"
  cp_failure_class :: "string option"
  cp_failure_code :: "string option"
  cp_failure_message :: "string option"

record storno_issued_payload =
  si_storno_invoice_id :: string
  si_storno_seq :: u64
  si_storno_reservation_id :: string
  si_idempotency_key :: string
  si_base_invoice_id :: string
  si_base_sequence_number :: u64
  si_modification_index :: nat

record modification_issued_payload =
  mi_modification_invoice_id :: string
  mi_modification_seq :: u64
  mi_modification_reservation_id :: string
  mi_idempotency_key :: string
  mi_base_invoice_id :: string
  mi_base_sequence_number :: u64
  mi_modification_index :: nat
  mi_modification_issue_date :: string

datatype pay_method = BankTransfer | CashPayment | CardPayment | OtherPayment

fun payment_method_as_wire_str :: "pay_method \<Rightarrow> string" where
  "payment_method_as_wire_str BankTransfer = ''BankTransfer''"
| "payment_method_as_wire_str CashPayment = ''Cash''"
| "payment_method_as_wire_str CardPayment = ''Card''"
| "payment_method_as_wire_str OtherPayment = ''Other''"

record payment_recorded_payload =
  pr_invoice_id :: string
  pr_idempotency_key :: string
  pr_paid_at :: string
  pr_amount_minor :: int
  pr_currency :: string
  pr_method :: pay_method
  pr_reference :: "string option"

text \<open>serde_json: the writer of each payload and its typed reader.\<close>

record nav_codec =
  draft_from_slice :: "byte list \<Rightarrow> draft_created_payload option"
  draft_to_bytes :: "draft_created_payload \<Rightarrow> byte list"
  attempt_from_slice :: "byte list \<Rightarrow> attempt_payload option"
  attempt_to_bytes :: "attempt_payload \<Rightarrow> byte list"
  response_from_slice :: "byte list \<Rightarrow> response_payload option"
  response_to_bytes :: "response_payload \<Rightarrow> byte list"
  ack_from_slice :: "byte list \<Rightarrow> ack_status_payload option"
  ack_to_bytes :: "ack_status_payload \<Rightarrow> byte list"
  retry_from_slice :: "byte list \<Rightarrow> retry_requested_payload option"
  retry_to_bytes :: "retry_requested_payload \<Rightarrow> byte list"
  abandoned_from_slice :: "byte list \<Rightarrow> marked_abandoned_payload option"
  abandoned_to_bytes :: "marked_abandoned_payload \<Rightarrow> byte list"
  failed_from_slice :: "byte list \<Rightarrow> attempt_failed_payload option"
  failed_to_bytes :: "attempt_failed_payload \<Rightarrow> byte list"
  check_from_slice :: "byte list \<Rightarrow> check_performed_payload option"
  check_to_bytes :: "check_performed_payload \<Rightarrow> byte list"
  storno_from_slice :: "byte list \<Rightarrow> storno_issued_payload option"
  storno_to_bytes :: "storno_issued_payload \<Rightarrow> byte list"
  modification_from_slice :: "byte list \<Rightarrow> modification_issued_payload option"
  modification_to_bytes :: "modification_issued_payload \<Rightarrow> byte list"
  payment_from_slice :: "byte list \<Rightarrow> payment_recorded_payload option"
  payment_to_bytes :: "payment_recorded_payload \<Rightarrow> byte list"

definition codec_ok :: "nav_codec \<Rightarrow> bool" where
  "codec_ok c \<longleftrightarrow>
     (\<forall>p. draft_from_slice c (draft_to_bytes c p) = Some p) \<and>
     (\<forall>p. attempt_from_slice c (attempt_to_bytes c p) = Some p) \<and>
     (\<forall>p. response_from_slice c (response_to_bytes c p) = Some p) \<and>
     (\<forall>p. ack_from_slice c (ack_to_bytes c p) = Some p) \<and>
     (\<forall>p. retry_from_slice c (retry_to_bytes c p) = Some p) \<and>
     (\<forall>p. abandoned_from_slice c (abandoned_to_bytes c p) = Some p) \<and>
     (\<forall>p. failed_from_slice c (failed_to_bytes c p) = Some p) \<and>
     (\<forall>p. check_from_slice c (check_to_bytes c p) = Some p) \<and>
     (\<forall>p. storno_from_slice c (storno_to_bytes c p) = Some p) \<and>
     (\<forall>p. modification_from_slice c (modification_to_bytes c p) = Some p) \<and>
     (\<forall>p. payment_from_slice c (payment_to_bytes c p) = Some p)"

section \<open>Errors of the commands\<close>

datatype not_stuck_reason = NeverSubmitted | AlreadyFinalized | AlreadyRejected | AlreadyAbandoned

fun not_stuck_message :: "not_stuck_reason \<Rightarrow> string" where
  "not_stuck_message NeverSubmitted =
     ''no InvoiceSubmissionResponse exists for this invoice '' @ em_dash @ '' run `aberp submit-invoice` first''"
| "not_stuck_message AlreadyFinalized =
     ''this invoice is already FINALIZED (last ack: SAVED) '' @ em_dash @ '' nothing to retry or abandon''"
| "not_stuck_message AlreadyRejected =
     ''this invoice is already REJECTED (last ack: ABORTED) '' @ em_dash @
       '' issue a corrective new invoice rather than retrying''"
| "not_stuck_message AlreadyAbandoned =
     ''this invoice was previously marked abandoned '' @ em_dash @ '' no further operator commands accepted''"

text \<open>What an \<open>anyhow::Error\<close> of a command carries.\<close>

datatype nav_error =
    NeDb db_error
  | NeAudit append_error
  | NeVerify ledger_verify_error
  | NeDecode event_kind u64
  | NeKeyParse string
  | NeNoDraft string
  | NeBilling billing_error
  | NeNoInvoice string
  | NeIdMismatch string
  | NeKeyMismatch string
  | NeNotStuck not_stuck_reason
  | NeNav nav_transport_error
  | NeFile string
  | NeSchema string
  | NeLock string
  | NeInProgress string
  | NeReasonMissing
  | NeTenant string
  | NeTaxNumber string
  | NeOverride string
  | NeNavSideExists string
  | NeCheckFailed string
  | NeTransportStop string
  | NeNoPath string
  | NeNoTransaction string
  | NeMirror string

section \<open>Walking the entries\<close>

definition decode :: "(byte list \<Rightarrow> 'p option) \<Rightarrow> entry \<Rightarrow> nav_error + 'p" where
  "decode from_slice e = ok_or (NeDecode (kind e) (seq e)) (from_slice (payload e))"

fun collect_some :: "('x \<Rightarrow> 'e + 'a option) \<Rightarrow> 'x list \<Rightarrow> 'e + 'a list" where
  "collect_some f [] = Inr []"
| "collect_some f (x # xs) =
     and_then (f x) (\<lambda>r. and_then (collect_some f xs) (\<lambda>as.
       Inr (case r of None \<Rightarrow> as | Some a \<Rightarrow> a # as)))"

fun find_some :: "('x \<Rightarrow> 'e + 'a option) \<Rightarrow> 'x list \<Rightarrow> 'e + 'a option" where
  \<comment> \<open>the walk ends at the first answer or the first error\<close>
  "find_some f [] = Inr None"
| "find_some f (x # xs) =
     and_then (f x) (\<lambda>r. case r of Some a \<Rightarrow> Inr (Some a) | None \<Rightarrow> find_some f xs)"

definition on_kind :: "invoice_event \<Rightarrow> (entry \<Rightarrow> nav_error + 'a option) \<Rightarrow> entry \<Rightarrow> nav_error + 'a option" where
  \<comment> \<open>an entry of another kind is skipped\<close>
  "on_kind k f e = (if kind e = InvoiceEvent k then f e else Inr None)"

definition parse_key :: "duck_env \<Rightarrow> string \<Rightarrow> nav_error + idem_key" where
  "parse_key env s = ok_or (NeKeyParse s) (idem_from_canonical_string (dk_ulid_parse env) s)"

section \<open>The stuck precondition\<close>

datatype stuck_stage = SsPending | SsAwaitingAck

record stuck_precondition_record =
  sp_stage :: stuck_stage
  sp_prior_transaction_id :: "string option"
  sp_prior_last_ack_status :: "string option"
  sp_idempotency_key :: idem_key

datatype stuck_outcome = Stuck stuck_precondition_record | NotStuck not_stuck_reason

definition has_marked_abandoned :: "nav_codec \<Rightarrow> entry list \<Rightarrow> string \<Rightarrow> nav_error + bool" where
  "has_marked_abandoned c es iid =
     and_then (find_some (on_kind InvoiceMarkedAbandoned (\<lambda>e.
         and_then (decode (abandoned_from_slice c) e) (\<lambda>p.
           Inr (if ma_invoice_id p = iid then Some () else None)))) es) (\<lambda>r. Inr (r \<noteq> None))"

definition latest_submission_response ::
  "duck_env \<Rightarrow> nav_codec \<Rightarrow> entry list \<Rightarrow> string \<Rightarrow> nav_error + (string \<times> idem_key) option" where
  "latest_submission_response env c es iid =
     find_some (on_kind InvoiceSubmissionResponse (\<lambda>e.
       and_then (decode (response_from_slice c) e) (\<lambda>p.
         if re_invoice_id p \<noteq> iid then Inr None
         else and_then (parse_key env (re_idempotency_key p)) (\<lambda>k.
                Inr (Some (re_transaction_id p, k)))))) (rev es)"

definition latest_submission_attempt ::
  "duck_env \<Rightarrow> nav_codec \<Rightarrow> entry list \<Rightarrow> string \<Rightarrow> nav_error + idem_key option" where
  "latest_submission_attempt env c es iid =
     find_some (on_kind InvoiceSubmissionAttempt (\<lambda>e.
       and_then (decode (attempt_from_slice c) e) (\<lambda>p.
         if at_invoice_id p \<noteq> iid then Inr None
         else and_then (parse_key env (at_idempotency_key p)) (\<lambda>k. Inr (Some k))))) (rev es)"

definition latest_ack_status :: "nav_codec \<Rightarrow> entry list \<Rightarrow> string \<Rightarrow> nav_error + string option" where
  "latest_ack_status c es iid =
     find_some (on_kind InvoiceAckStatus (\<lambda>e.
       and_then (decode (ack_from_slice c) e) (\<lambda>p.
         Inr (if ak_invoice_id p = iid then Some (ak_ack_status p) else None)))) (rev es)"

definition stuck_precondition ::
  "duck_env \<Rightarrow> nav_codec \<Rightarrow> entry list \<Rightarrow> string \<Rightarrow> nav_error + stuck_outcome" where
  "stuck_precondition env c es iid =
     and_then (has_marked_abandoned c es iid) (\<lambda>ab.
       if ab then Inr (NotStuck AlreadyAbandoned)
       else and_then (latest_submission_response env c es iid) (\<lambda>resp.
         case resp of
           Some (txid, key) \<Rightarrow>
             and_then (latest_ack_status c es iid) (\<lambda>ack.
               if ack = Some ''SAVED'' then Inr (NotStuck AlreadyFinalized)
               else if ack = Some ''ABORTED'' then Inr (NotStuck AlreadyRejected)
               else Inr (Stuck \<lparr>sp_stage = SsAwaitingAck, sp_prior_transaction_id = Some txid,
                                sp_prior_last_ack_status = ack, sp_idempotency_key = key\<rparr>))
         | None \<Rightarrow>
             and_then (latest_submission_attempt env c es iid) (\<lambda>att.
               case att of
                 Some key \<Rightarrow> Inr (Stuck \<lparr>sp_stage = SsPending, sp_prior_transaction_id = None,
                                         sp_prior_last_ack_status = None, sp_idempotency_key = key\<rparr>)
               | None \<Rightarrow> Inr (NotStuck NeverSubmitted))))"

definition latest_check_performed_outcome ::
  "nav_codec \<Rightarrow> entry list \<Rightarrow> string \<Rightarrow> nav_error + string option" where
  "latest_check_performed_outcome c es iid =
     find_some (on_kind InvoiceCheckPerformed (\<lambda>e.
       and_then (decode (check_from_slice c) e) (\<lambda>p.
         Inr (if cp_invoice_id p = iid then Some (cp_outcome p) else None)))) (rev es)"

record payment_record =
  pm_paid_at :: string
  pm_amount_minor :: int
  pm_currency :: string
  pm_method :: pay_method
  pm_reference :: "string option"

definition payment_of :: "payment_recorded_payload \<Rightarrow> payment_record" where
  "payment_of p = \<lparr>pm_paid_at = pr_paid_at p, pm_amount_minor = pr_amount_minor p,
     pm_currency = pr_currency p, pm_method = pr_method p, pm_reference = pr_reference p\<rparr>"

definition is_invoice_paid :: "nav_codec \<Rightarrow> entry list \<Rightarrow> string \<Rightarrow> nav_error + bool" where
  "is_invoice_paid c es iid =
     and_then (find_some (on_kind InvoicePaymentRecorded (\<lambda>e.
         and_then (decode (payment_from_slice c) e) (\<lambda>p.
           Inr (if pr_invoice_id p = iid then Some () else None)))) es) (\<lambda>r. Inr (r \<noteq> None))"

definition payment_record_for ::
  "nav_codec \<Rightarrow> entry list \<Rightarrow> string \<Rightarrow> nav_error + payment_record option" where
  "payment_record_for c es iid =
     find_some (on_kind InvoicePaymentRecorded (\<lambda>e.
       and_then (decode (payment_from_slice c) e) (\<lambda>p.
         Inr (if pr_invoice_id p = iid then Some (payment_of p) else None)))) (rev es)"

section \<open>The queues\<close>

definition hard_cap_pending :: nat where "hard_cap_pending = 50"
definition alert_pending_count :: nat where "alert_pending_count = 5"
definition alert_oldest_pending :: nat where "alert_oldest_pending = 30 * 60"

record pending_invoice =
  pi_invoice_id :: string
  pi_idempotency_key :: idem_key
  pi_nav_xml_path :: "string option"
  pi_issue_date :: int
  pi_operation :: invoice_operation

definition chain_child :: "nav_codec \<Rightarrow> entry \<Rightarrow> nav_error + (string + string) option" where
  \<comment> \<open>Inl a storno's id, Inr a modification's\<close>
  "chain_child c e =
     (if kind e = InvoiceEvent InvoiceStornoIssued then
        and_then (decode (storno_from_slice c) e) (\<lambda>p. Inr (Some (Inl (si_storno_invoice_id p))))
      else if kind e = InvoiceEvent InvoiceModificationIssued then
        and_then (decode (modification_from_slice c) e) (\<lambda>p.
          Inr (Some (Inr (mi_modification_invoice_id p))))
      else Inr None)"

definition lefts :: "('a + 'b) list \<Rightarrow> 'a list" where
  "lefts xs = List.map_filter (\<lambda>x. case x of Inl a \<Rightarrow> Some a | Inr _ \<Rightarrow> None) xs"

definition rights :: "('a + 'b) list \<Rightarrow> 'b list" where
  "rights xs = List.map_filter (\<lambda>x. case x of Inl _ \<Rightarrow> None | Inr b \<Rightarrow> Some b) xs"

definition chain_operation_sets ::
  "nav_codec \<Rightarrow> entry list \<Rightarrow> nav_error + string list \<times> string list" where
  "chain_operation_sets c es =
     and_then (collect_some (chain_child c) es) (\<lambda>xs. Inr (lefts xs, rights xs))"

definition operation_in :: "string list \<Rightarrow> string list \<Rightarrow> string \<Rightarrow> invoice_operation" where
  "operation_in storno_ids modify_ids iid =
     (if iid \<in> set modify_ids then OpModify
      else if iid \<in> set storno_ids then OpStorno else OpCreate)"

definition operation_for_invoice ::
  "nav_codec \<Rightarrow> entry list \<Rightarrow> string \<Rightarrow> nav_error + invoice_operation" where
  "operation_for_invoice c es iid =
     and_then (chain_operation_sets c es) (\<lambda>(storno_ids, modify_ids).
       Inr (operation_in storno_ids modify_ids iid))"

definition pending_excluded :: "nav_codec \<Rightarrow> entry \<Rightarrow> nav_error + string option" where
  "pending_excluded c e =
     (if kind e = InvoiceEvent InvoiceSubmissionResponse then
        and_then (decode (response_from_slice c) e) (\<lambda>p. Inr (Some (re_invoice_id p)))
      else if kind e = InvoiceEvent InvoiceMarkedAbandoned then
        and_then (decode (abandoned_from_slice c) e) (\<lambda>p. Inr (Some (ma_invoice_id p)))
      else if kind e = InvoiceEvent InvoiceSubmissionAttempt then
        and_then (decode (attempt_from_slice c) e) (\<lambda>p. Inr (Some (at_invoice_id p)))
      else Inr None)"

definition pending_entry ::
  "duck_env \<Rightarrow> nav_codec \<Rightarrow> string list \<Rightarrow> string list \<Rightarrow> string list \<Rightarrow> entry \<Rightarrow>
   nav_error + pending_invoice option" where
  "pending_entry env c excluded storno_ids modify_ids =
     on_kind InvoiceDraftCreated (\<lambda>e.
       and_then (decode (draft_from_slice c) e) (\<lambda>p.
         if dc_invoice_id p \<in> set excluded then Inr None
         else and_then (parse_key env (dc_idempotency_key p)) (\<lambda>k.
           Inr (Some \<lparr>pi_invoice_id = dc_invoice_id p, pi_idempotency_key = k,
                      pi_nav_xml_path = dc_nav_xml_path p, pi_issue_date = time_wall e,
                      pi_operation = operation_in storno_ids modify_ids (dc_invoice_id p)\<rparr>))))"

definition fifo :: "('p \<Rightarrow> int) \<Rightarrow> ('p \<Rightarrow> string) \<Rightarrow> 'p list \<Rightarrow> 'p list" where
  \<comment> \<open>a stable sort by the date, equal dates by the id: two stable sorts\<close>
  "fifo date iid xs = sort_key date (sort_key iid xs)"

definition classify_pending ::
  "duck_env \<Rightarrow> nav_codec \<Rightarrow> entry list \<Rightarrow> nav_error + pending_invoice list" where
  "classify_pending env c es =
     and_then (collect_some (pending_excluded c) es) (\<lambda>excluded.
     and_then (chain_operation_sets c es) (\<lambda>(storno_ids, modify_ids).
     and_then (collect_some (pending_entry env c excluded storno_ids modify_ids) es) (\<lambda>ps.
       Inr (fifo pi_issue_date pi_invoice_id ps))))"

record pending_retry =
  pt_invoice_id :: string
  pt_idempotency_key :: idem_key
  pt_nav_xml_path :: "string option"
  pt_issue_date :: int
  pt_operation :: invoice_operation

definition retry_excluded :: "nav_codec \<Rightarrow> entry \<Rightarrow> nav_error + string option" where
  "retry_excluded c e =
     (if kind e = InvoiceEvent InvoiceSubmissionResponse then
        and_then (decode (response_from_slice c) e) (\<lambda>p. Inr (Some (re_invoice_id p)))
      else if kind e = InvoiceEvent InvoiceMarkedAbandoned then
        and_then (decode (abandoned_from_slice c) e) (\<lambda>p. Inr (Some (ma_invoice_id p)))
      else Inr None)"

definition draft_meta_entry ::
  "nav_codec \<Rightarrow> entry \<Rightarrow> nav_error + (string \<times> string option \<times> int) option" where
  "draft_meta_entry c = on_kind InvoiceDraftCreated (\<lambda>e.
     and_then (decode (draft_from_slice c) e) (\<lambda>p.
       Inr (Some (dc_invoice_id p, dc_nav_xml_path p, time_wall e))))"

fun first_pass ::
  "nav_codec \<Rightarrow> string list \<Rightarrow> (string \<rightharpoonup> string option \<times> int) \<Rightarrow> entry list \<Rightarrow>
   nav_error + string list \<times> (string \<rightharpoonup> string option \<times> int)" where
  "first_pass c excluded metas [] = Inr (excluded, metas)"
| "first_pass c excluded metas (e # es) =
     and_then (retry_excluded c e) (\<lambda>x.
     and_then (draft_meta_entry c e) (\<lambda>m.
       first_pass c (case x of None \<Rightarrow> excluded | Some i \<Rightarrow> i # excluded)
         (case m of None \<Rightarrow> metas | Some (i, v) \<Rightarrow> metas(i \<mapsto> v)) es))"

fun retry_walk ::
  "duck_env \<Rightarrow> nav_codec \<Rightarrow> string list \<Rightarrow> (string \<rightharpoonup> string option \<times> int) \<Rightarrow> string list \<Rightarrow>
   string list \<Rightarrow> string list \<Rightarrow> entry list \<Rightarrow> nav_error + pending_retry list" where
  "retry_walk env c excluded metas storno_ids modify_ids seen [] = Inr []"
| "retry_walk env c excluded metas storno_ids modify_ids seen (e # es) =
     (if kind e \<noteq> InvoiceEvent InvoiceSubmissionAttempt
      then retry_walk env c excluded metas storno_ids modify_ids seen es
      else
        and_then (decode (attempt_from_slice c) e) (\<lambda>p.
          if at_invoice_id p \<in> set excluded \<or> at_invoice_id p \<in> set seen
          then retry_walk env c excluded metas storno_ids modify_ids seen es
          else
            and_then (parse_key env (at_idempotency_key p)) (\<lambda>k.
            and_then (ok_or (NeNoDraft (at_invoice_id p)) (metas (at_invoice_id p))) (\<lambda>(path, date).
            and_then (retry_walk env c excluded metas storno_ids modify_ids (at_invoice_id p # seen) es) (\<lambda>ps.
              Inr (\<lparr>pt_invoice_id = at_invoice_id p, pt_idempotency_key = k, pt_nav_xml_path = path,
                    pt_issue_date = date,
                    pt_operation = operation_in storno_ids modify_ids (at_invoice_id p)\<rparr> # ps))))))"

definition classify_pending_retries ::
  "duck_env \<Rightarrow> nav_codec \<Rightarrow> entry list \<Rightarrow> nav_error + pending_retry list" where
  "classify_pending_retries env c es =
     and_then (first_pass c [] Map.empty es) (\<lambda>(excluded, metas).
     and_then (chain_operation_sets c es) (\<lambda>(storno_ids, modify_ids).
     and_then (retry_walk env c excluded metas storno_ids modify_ids [] es) (\<lambda>ps.
       Inr (fifo pt_issue_date pt_invoice_id ps))))"

section \<open>NAV errors\<close>

definition is_transport_error :: "nav_transport_error \<Rightarrow> bool" where
  "is_transport_error e =
     (case e of ClientBuild _ \<Rightarrow> True | TokenExchangeHttp _ \<Rightarrow> True | ManageInvoiceHttp _ \<Rightarrow> True
      | _ \<Rightarrow> False)"

fun classify_attempt_failure :: "nav_transport_error \<Rightarrow> string \<times> string option" where
  "classify_attempt_failure (TokenExchangeHttp _) = (''transport'', None)"
| "classify_attempt_failure (ManageInvoiceHttp _) = (''transport'', None)"
| "classify_attempt_failure (QueryTransactionStatusHttp _) = (''transport'', None)"
| "classify_attempt_failure (ManageAnnulmentHttp _) = (''transport'', None)"
| "classify_attempt_failure (QueryInvoiceDataHttp _) = (''transport'', None)"
| "classify_attempt_failure (QueryInvoiceCheckHttp _) = (''transport'', None)"
| "classify_attempt_failure (QueryInvoiceDigestHttp _) = (''transport'', None)"
| "classify_attempt_failure (TokenExchangeHttpStatus s _ _ _ _) = (''http_status'', Some (show_nat s))"
| "classify_attempt_failure (ManageInvoiceHttpStatus s) = (''http_status'', Some (show_nat s))"
| "classify_attempt_failure (QueryTransactionStatusHttpStatus s) = (''http_status'', Some (show_nat s))"
| "classify_attempt_failure (ManageAnnulmentHttpStatus s) = (''http_status'', Some (show_nat s))"
| "classify_attempt_failure (QueryInvoiceDataHttpStatus s) = (''http_status'', Some (show_nat s))"
| "classify_attempt_failure (QueryInvoiceCheckHttpStatus s) = (''http_status'', Some (show_nat s))"
| "classify_attempt_failure (QueryInvoiceDigestHttpStatus s) = (''http_status'', Some (show_nat s))"
| "classify_attempt_failure (ManageInvoiceNonRetryable c _) = (''application'', Some c)"
| "classify_attempt_failure (QueryTransactionStatusNonRetryable c _) = (''application'', Some c)"
| "classify_attempt_failure (ManageAnnulmentNonRetryable c _) = (''application'', Some c)"
| "classify_attempt_failure (QueryInvoiceDataNonRetryable c _) = (''application'', Some c)"
| "classify_attempt_failure (QueryInvoiceCheckNonRetryable c _) = (''application'', Some c)"
| "classify_attempt_failure (QueryInvoiceDigestNonRetryable c _) = (''application'', Some c)"
| "classify_attempt_failure (ManageInvoiceRetryable c _) = (''retryable_application'', Some c)"
| "classify_attempt_failure (QueryTransactionStatusRetryable c _) = (''retryable_application'', Some c)"
| "classify_attempt_failure (ManageAnnulmentRetryable c _) = (''retryable_application'', Some c)"
| "classify_attempt_failure (QueryInvoiceDataRetryable c _) = (''retryable_application'', Some c)"
| "classify_attempt_failure (QueryInvoiceCheckRetryable c _) = (''retryable_application'', Some c)"
| "classify_attempt_failure (QueryInvoiceDigestRetryable c _) = (''retryable_application'', Some c)"
| "classify_attempt_failure (TokenExchangeResponseParse _) = (''application'', None)"
| "classify_attempt_failure (ManageInvoiceResponseParse _) = (''application'', None)"
| "classify_attempt_failure (QueryTransactionStatusResponseParse _) = (''application'', None)"
| "classify_attempt_failure (ManageAnnulmentResponseParse _) = (''application'', None)"
| "classify_attempt_failure (QueryInvoiceDataResponseParse _) = (''application'', None)"
| "classify_attempt_failure (QueryInvoiceCheckResponseParse _) = (''application'', None)"
| "classify_attempt_failure (QueryInvoiceDigestResponseParse _) = (''application'', None)"
| "classify_attempt_failure (TokenExchangeBase64Decode _) = (''application'', None)"
| "classify_attempt_failure (TokenExchangeBadCiphertextLength _) = (''application'', None)"
| "classify_attempt_failure (TokenExchangeDecryptFailed _) = (''application'', None)"
| "classify_attempt_failure (EnvelopeWriteFailed _) = (''envelope'', None)"
| "classify_attempt_failure ManageInvoiceEmpty = (''envelope'', None)"
| "classify_attempt_failure (ManageInvoiceTooManyItems _) = (''envelope'', None)"
| "classify_attempt_failure ManageAnnulmentEmpty = (''envelope'', None)"
| "classify_attempt_failure (ManageAnnulmentTooManyItems _) = (''envelope'', None)"
| "classify_attempt_failure (KeychainItemMissing _ _) = (''credential'', None)"
| "classify_attempt_failure (KeychainBackend _ _) = (''credential'', None)"
| "classify_attempt_failure (KeychainBlobMalformed _ _) = (''credential'', None)"
| "classify_attempt_failure (ClientBuild _) = (''client_build'', None)"
| "classify_attempt_failure (EmbeddedPemMalformed _) = (''client_build'', None)"
| "classify_attempt_failure (EmbeddedCertificateRejected _) = (''client_build'', None)"

end
