(* ===== verification/Nav_Submission.thy ===== *)
theory Nav_Submission
  imports Nav_Ledger
begin

text \<open>
  The commands that submit an invoice to NAV (apps/aberp/src): submit_invoice.rs,
  drain_submission_queue.rs, drain_pending_retries.rs, retry_submission.rs, mark_abandoned.rs and
  mark_invoice_paid.rs. The database is reached through the handle of \<open>Db_Handle\<close>; a request
  that is sent is logged in \<open>nv_wire\<close> with its answer and the rows that are on stable storage at
  the moment of the send.
  Commands keep their effects when they fail. NAV, the files, the signing of requests, the schema
  validator and the locks of other processes are functions of a tick. An error carries what its
  text is made of.
\<close>

section \<open>State and surroundings\<close>

record nav_db =
  nd_rows :: "ledger_row list"
  nd_duck :: duck_db

record wire_event =
  we_operation :: string
  we_body :: "byte list"
  we_answer :: http_answer
  we_stable :: "ledger_row list"

record nav_state =
  nv_handle :: "nav_db db_handle"
  nv_wire :: "wire_event list"
  nv_tick :: nat

record nav_env =
  ne_ledger :: ledger_env
  ne_duck :: duck_env
  ne_lib :: nav_lib
  ne_codec :: nav_codec
  ne_handle :: "nav_db handle_env"
  ne_display :: "nav_transport_error \<Rightarrow> string"
  ne_stamp :: "nat \<Rightarrow> append_stamp"
  ne_commit :: "nat \<Rightarrow> string option"
  ne_connect :: "nat \<Rightarrow> nav_transport_error option"
  ne_http :: "nat \<Rightarrow> string \<Rightarrow> byte list \<Rightarrow> http_answer"
  ne_token_request :: "nat \<Rightarrow> string \<Rightarrow> nav_transport_error + byte list"
  ne_manage_request ::
    "nat \<Rightarrow> string \<Rightarrow> string \<Rightarrow> (invoice_operation \<times> byte list) list \<Rightarrow> nav_transport_error + byte list"
  ne_check_request :: "nat \<Rightarrow> string \<Rightarrow> string \<Rightarrow> nav_transport_error + byte list"
  ne_change_key :: "byte list"
  ne_file :: "string \<Rightarrow> byte list option"
  ne_validate :: "byte list \<Rightarrow> bool"
  ne_invoice_number :: "byte list \<Rightarrow> string option"
  ne_try_acquire :: "nat \<Rightarrow> string \<Rightarrow> string + bool"
  ne_new_key :: "nat \<Rightarrow> idem_key"

record nav_ctx =
  nc_meta :: ledger_meta
  nc_actor :: actor
  nc_endpoint :: nav_endpoint
  nc_tax_number_8 :: string

type_synonym 'a nav_op = "(nav_state, nav_error, 'a) io_op"
type_synonym 'a wire_op = "(nav_state, nav_transport_error, 'a) io_op"

fun endpoint_label :: "nav_endpoint \<Rightarrow> string" where
  "endpoint_label NavTest = ''test''"
| "endpoint_label NavProduction = ''production''"

definition idem_text :: "nav_env \<Rightarrow> idem_key \<Rightarrow> string" where
  "idem_text env k = idem_to_canonical_string (dk_ulid_str (ne_duck env)) k"

definition is_digit :: "char \<Rightarrow> bool" where
  "is_digit c \<longleftrightarrow> CHR ''0'' \<le> c \<and> c \<le> CHR ''9''"

definition parse_tax_number_8 :: "string \<Rightarrow> nav_error + string" where
  \<comment> \<open>what precedes the first dash\<close>
  "parse_tax_number_8 raw =
     (let base = takeWhile (\<lambda>c. c \<noteq> CHR ''-'') raw in
      and_then (check (length base = 8 \<and> list_all is_digit base) (NeTaxNumber raw)) (\<lambda>_. Inr base))"

section \<open>The database\<close>

definition on_handle :: "(nav_db db_handle, 'e, 'a) io_op \<Rightarrow> (nav_state, 'e, 'a) io_op" where
  "on_handle m s = (case m (nv_handle s) of (r, h) \<Rightarrow> (r, s\<lparr>nv_handle := h\<rparr>))"

type_synonym audit_write = "invoice_event \<times> byte list \<times> idem_key"

fun append_writes ::
  "nav_env \<Rightarrow> nav_ctx \<Rightarrow> nat \<Rightarrow> audit_write list \<Rightarrow> ledger_row list \<Rightarrow> nav_error + ledger_row list" where
  "append_writes env ctx n [] rows = Inr rows"
| "append_writes env ctx n ((k, pl, key) # ws) rows =
     and_then (map_err NeAudit (append_in_tx (ne_ledger env) (nc_meta ctx) (ne_stamp env n)
       (InvoiceEvent k) pl (nc_actor ctx) (Some (idem_text env key)) rows)) (\<lambda>(_, rows').
       append_writes env ctx (n + 1) ws rows')"

definition audit_tx ::
  "nav_env \<Rightarrow> nav_ctx \<Rightarrow> nat \<Rightarrow> audit_write list \<Rightarrow> nav_db \<Rightarrow> nav_error + unit \<times> nav_db" where
  "audit_tx env ctx n ws d =
     and_then (append_writes env ctx n ws (nd_rows d)) (\<lambda>rows.
     and_then (case ne_commit env n of Some e \<Rightarrow> Inl (NeDb (DbDuck e)) | None \<Rightarrow> Inr ()) (\<lambda>_.
       Inr ((), d\<lparr>nd_rows := rows\<rparr>)))"

definition write_audit :: "nav_env \<Rightarrow> nav_ctx \<Rightarrow> audit_write list \<Rightarrow> unit nav_op" where
  \<comment> \<open>one transaction in a writer's window\<close>
  "write_audit env ctx ws s =
     (case db_write (ne_handle env) NeDb (audit_tx env ctx (nv_tick s) ws) (nv_handle s) of
        (r, h) \<Rightarrow> (r, s\<lparr>nv_handle := h, nv_tick := nv_tick s + length ws\<rparr>))"

definition nav_durable_ack :: "nav_env \<Rightarrow> unit nav_op" where
  "nav_durable_ack env = on_handle (io_map_err NeDb (durable_ack (ne_handle env)))"

definition nav_read :: "nav_env \<Rightarrow> nav_db nav_op" where
  "nav_read env = on_handle (io_map_err NeDb (handle_read (ne_handle env)))"

definition read_entries :: "nav_env \<Rightarrow> entry list nav_op" where
  "read_entries env = io_bind (nav_read env) (\<lambda>d.
     io_lift (map_err NeAudit (read_all_entries (ne_ledger env) (nd_rows d))))"

definition verify_chain_reusing_read :: "nav_env \<Rightarrow> nav_ctx \<Rightarrow> nat nav_op" where
  "verify_chain_reusing_read env ctx = io_bind (nav_read env) (\<lambda>d.
     io_lift (map_err NeVerify
       (ledger_verify_chain (ne_ledger env) (meta_tenant_id (nc_meta ctx)) (nd_rows d))))"

definition ledger_sync_mirror :: "nav_env \<Rightarrow> nav_db \<Rightarrow> unit nav_op" where
  "ledger_sync_mirror env d = on_handle (io_map_err NeMirror (sync_mirror_from (ne_handle env) d))"

definition verify_chain_and_sync_reusing_conn :: "nav_env \<Rightarrow> nav_ctx \<Rightarrow> nat nav_op" where
  "verify_chain_and_sync_reusing_conn env ctx =
     io_bind (nav_read env) (\<lambda>d.
     io_bind (io_lift (map_err NeVerify
       (ledger_verify_chain (ne_ledger env) (meta_tenant_id (nc_meta ctx)) (nd_rows d)))) (\<lambda>verified.
     io_bind (ledger_sync_mirror env d) (\<lambda>_.
       io_return verified)))"

text \<open>What follows the record of an answer: one command synchronises the mirror itself as well.\<close>

definition verify_after :: "nav_env \<Rightarrow> nav_ctx \<Rightarrow> bool \<Rightarrow> nat nav_op" where
  "verify_after env ctx sync =
     (if sync then verify_chain_and_sync_reusing_conn env ctx else verify_chain_reusing_read env ctx)"

definition load_issued_invoice :: "nav_env \<Rightarrow> string \<Rightarrow> (ready_invoice \<times> idem_key) nav_op" where
  "load_issued_invoice env iid = io_bind (nav_read env) (\<lambda>d.
     io_lift (and_then (map_err NeBilling (load_ready_invoice_by_id (ne_duck env) (nd_duck d) iid)) (\<lambda>r.
       ok_or (NeNoInvoice iid) r)))"

section \<open>The wire\<close>

definition stable_rows :: "nav_state \<Rightarrow> ledger_row list" where
  "stable_rows s = nd_rows (hd_stable (nv_handle s) (hd_live (nv_handle s)))"

definition next_tick :: "(nav_state, 'e, nat) io_op" where
  "next_tick s = (Inr (nv_tick s), s\<lparr>nv_tick := nv_tick s + 1\<rparr>)"

definition http_post :: "nav_env \<Rightarrow> string \<Rightarrow> byte list \<Rightarrow> (nav_state, 'e, http_answer) io_op" where
  "http_post env operation body s =
     (Inr (ne_http env (nv_tick s) operation body),
      s\<lparr>nv_wire := nv_wire s @ [\<lparr>we_operation = operation, we_body = body,
          we_answer = ne_http env (nv_tick s) operation body, we_stable = stable_rows s\<rparr>],
        nv_tick := nv_tick s + 1\<rparr>)"

definition transport_new :: "nav_env \<Rightarrow> unit wire_op" where
  "transport_new env = io_bind next_tick (\<lambda>n.
     case ne_connect env n of None \<Rightarrow> io_return () | Some e \<Rightarrow> io_fail e)"

definition token_exchange_call :: "nav_env \<Rightarrow> nav_ctx \<Rightarrow> string wire_op" where
  "token_exchange_call env ctx =
     io_bind next_tick (\<lambda>n.
     io_bind (io_lift (ne_token_request env n (nc_tax_number_8 ctx))) (\<lambda>body.
     io_bind (http_post env ''tokenExchange'' body) (\<lambda>a.
       io_lift (token_exchange_result (ne_lib env) (ne_change_key env) a))))"

definition build_request ::
  "nav_env \<Rightarrow> nav_ctx \<Rightarrow> string \<Rightarrow> (invoice_operation \<times> byte list) list \<Rightarrow> byte list wire_op" where
  \<comment> \<open>with the guards of \<open>render_manage_invoice_request\<close>\<close>
  "build_request env ctx token items =
     io_bind next_tick (\<lambda>n. io_lift (
       and_then (check (items \<noteq> []) ManageInvoiceEmpty) (\<lambda>_.
       and_then (check (length items \<le> 100) (ManageInvoiceTooManyItems (length items))) (\<lambda>_.
         ne_manage_request env n (nc_tax_number_8 ctx) token items))))"

definition send_built_request :: "nav_env \<Rightarrow> byte list \<Rightarrow> send_outcome wire_op" where
  "send_built_request env request_xml =
     io_bind (http_post env ''manageInvoice'' request_xml) (\<lambda>a.
       io_lift (manage_invoice_result (ne_lib env) a))"

definition prepare_for_attempt_audit ::
  "nav_env \<Rightarrow> nav_ctx \<Rightarrow> byte list \<Rightarrow> invoice_operation \<Rightarrow> byte list wire_op" where
  "prepare_for_attempt_audit env ctx invoice_xml operation =
     io_bind (transport_new env) (\<lambda>_.
     io_bind (token_exchange_call env ctx) (\<lambda>token.
       build_request env ctx token [(operation, invoice_xml)]))"

section \<open>What is written to the ledger\<close>

definition attempt_write :: "nav_env \<Rightarrow> nav_ctx \<Rightarrow> string \<Rightarrow> idem_key \<Rightarrow> byte list \<Rightarrow> audit_write" where
  "attempt_write env ctx iid key request_xml =
     (InvoiceSubmissionAttempt,
      attempt_to_bytes (ne_codec env)
        \<lparr>at_invoice_id = iid, at_idempotency_key = idem_text env key,
         at_endpoint = endpoint_label (nc_endpoint ctx), at_request_xml = request_xml\<rparr>, key)"

definition response_write :: "nav_env \<Rightarrow> string \<Rightarrow> idem_key \<Rightarrow> send_outcome \<Rightarrow> audit_write" where
  "response_write env iid key so =
     (InvoiceSubmissionResponse,
      response_to_bytes (ne_codec env)
        \<lparr>re_invoice_id = iid, re_idempotency_key = idem_text env key,
         re_transaction_id = so_transaction_id so, re_response_xml = so_response_xml so\<rparr>, key)"

definition attempt_failed_write ::
  "nav_env \<Rightarrow> nav_ctx \<Rightarrow> string \<Rightarrow> idem_key \<Rightarrow> nav_transport_error \<Rightarrow> audit_write" where
  "attempt_failed_write env ctx iid key e =
     (InvoiceSubmissionAttemptFailed,
      failed_to_bytes (ne_codec env)
        \<lparr>af_invoice_id = iid, af_idempotency_key = idem_text env key,
         af_endpoint = endpoint_label (nc_endpoint ctx),
         af_error_class = fst (classify_attempt_failure e),
         af_error_code = snd (classify_attempt_failure e),
         af_error_message = ne_display env e, af_response_xml = None\<rparr>, key)"

definition retry_requested_write ::
  "nav_env \<Rightarrow> string \<Rightarrow> idem_key \<Rightarrow> string option \<Rightarrow> string option \<Rightarrow> string \<Rightarrow> audit_write" where
  "retry_requested_write env iid key txid ack reason =
     (InvoiceRetryRequested,
      retry_to_bytes (ne_codec env)
        \<lparr>rr_invoice_id = iid, rr_idempotency_key = idem_text env key,
         rr_prior_transaction_id = txid, rr_prior_last_ack_status = ack, rr_reason = reason\<rparr>, key)"

definition check_outcome_write ::
  "nav_env \<Rightarrow> nav_ctx \<Rightarrow> string \<Rightarrow> idem_key \<Rightarrow> string \<Rightarrow> byte list \<Rightarrow>
   query_invoice_check_outcome \<Rightarrow> byte list \<Rightarrow> audit_write" where
  "check_outcome_write env ctx iid key number request_xml out response_xml =
     (InvoiceCheckPerformed,
      check_to_bytes (ne_codec env)
        \<lparr>cp_invoice_id = iid, cp_idempotency_key = idem_text env key,
         cp_endpoint = endpoint_label (nc_endpoint ctx), cp_nav_invoice_number = number,
         cp_outcome = check_as_audit_str out, cp_request_xml = request_xml,
         cp_response_xml = Some response_xml, cp_failure_class = None, cp_failure_code = None,
         cp_failure_message = None\<rparr>, key)"

definition check_failure_write ::
  "nav_env \<Rightarrow> nav_ctx \<Rightarrow> string \<Rightarrow> idem_key \<Rightarrow> string \<Rightarrow> byte list \<Rightarrow> nav_transport_error \<Rightarrow> audit_write" where
  "check_failure_write env ctx iid key number request_xml e =
     (InvoiceCheckPerformed,
      check_to_bytes (ne_codec env)
        \<lparr>cp_invoice_id = iid, cp_idempotency_key = idem_text env key,
         cp_endpoint = endpoint_label (nc_endpoint ctx), cp_nav_invoice_number = number,
         cp_outcome = ''failure'', cp_request_xml = request_xml, cp_response_xml = None,
         cp_failure_class = Some (fst (classify_attempt_failure e)),
         cp_failure_code = snd (classify_attempt_failure e),
         cp_failure_message = Some (ne_display env e)\<rparr>, key)"

definition abandoned_write ::
  "nav_env \<Rightarrow> string \<Rightarrow> idem_key \<Rightarrow> stuck_precondition_record \<Rightarrow> string \<Rightarrow> audit_write" where
  "abandoned_write env iid key stuck reason =
     (InvoiceMarkedAbandoned,
      abandoned_to_bytes (ne_codec env)
        \<lparr>ma_invoice_id = iid, ma_idempotency_key = idem_text env key,
         ma_prior_transaction_id = sp_prior_transaction_id stuck,
         ma_prior_last_ack_status = sp_prior_last_ack_status stuck, ma_reason = reason\<rparr>, key)"

section \<open>Attempt, send, record\<close>

definition record_answer ::
  "nav_env \<Rightarrow> nav_ctx \<Rightarrow> bool \<Rightarrow> string \<Rightarrow> idem_key \<Rightarrow> nav_transport_error + send_outcome \<Rightarrow>
   (nav_transport_error + string) nav_op" where
  \<comment> \<open>TX2: the response, or the failure of the attempt\<close>
  "record_answer env ctx sync iid key wire_result =
     io_bind (write_audit env ctx
       [case wire_result of Inr so \<Rightarrow> response_write env iid key so
        | Inl e \<Rightarrow> attempt_failed_write env ctx iid key e]) (\<lambda>_.
     io_bind (nav_durable_ack env) (\<lambda>_.
     io_bind (verify_after env ctx sync) (\<lambda>_.
       io_return (case wire_result of Inr so \<Rightarrow> Inr (so_transaction_id so) | Inl e \<Rightarrow> Inl e))))"

definition submit_prepared ::
  "nav_env \<Rightarrow> nav_ctx \<Rightarrow> bool \<Rightarrow> string \<Rightarrow> idem_key \<Rightarrow> audit_write list \<Rightarrow> byte list \<Rightarrow>
   (nav_transport_error + string) nav_op" where
  \<comment> \<open>TX1 in one transaction with what precedes the attempt, the flush, the send, TX2\<close>
  "submit_prepared env ctx sync iid key before request_xml =
     io_bind (write_audit env ctx (before @ [attempt_write env ctx iid key request_xml])) (\<lambda>_.
     io_bind (nav_durable_ack env) (\<lambda>_.
     io_bind (io_attempt (send_built_request env request_xml)) (\<lambda>wire_result.
       record_answer env ctx sync iid key wire_result)))"

section \<open>Draining the queue of new invoices\<close>

datatype drain_error = DrTransport string | DrApplication nav_error

definition classify_nav_error :: "nav_env \<Rightarrow> nav_transport_error \<Rightarrow> drain_error" where
  "classify_nav_error env e =
     (if is_transport_error e then DrTransport (ne_display env e) else DrApplication (NeNav e))"

definition resolve_xml_path :: "pending_invoice \<Rightarrow> (string \<rightharpoonup> string) \<Rightarrow> nav_error + string" where
  "resolve_xml_path pinv override_map =
     (case override_map (pi_invoice_id pinv) of
        Some p \<Rightarrow> Inr p
      | None \<Rightarrow> ok_or (NeNoPath (pi_invoice_id pinv)) (pi_nav_xml_path pinv))"

definition split_once :: "char \<Rightarrow> string \<Rightarrow> (string \<times> string) option" where
  "split_once c s =
     (if c \<in> set s then Some (takeWhile (\<lambda>d. d \<noteq> c) s, tl (dropWhile (\<lambda>d. d \<noteq> c) s)) else None)"

fun parse_xml_path_overrides :: "(string \<rightharpoonup> string) \<Rightarrow> string list \<Rightarrow> nav_error + (string \<rightharpoonup> string)" where
  "parse_xml_path_overrides m [] = Inr m"
| "parse_xml_path_overrides m (raw # rest) =
     and_then (ok_or (NeOverride raw) (split_once (CHR ''='') raw)) (\<lambda>(key, value).
     and_then (check (key \<noteq> []) (NeOverride raw)) (\<lambda>_.
     and_then (check (value \<noteq> []) (NeOverride raw)) (\<lambda>_.
     and_then (check (m key = None) (NeOverride raw)) (\<lambda>_.
       parse_xml_path_overrides (m(key \<mapsto> value)) rest))))"

definition read_invoice_xml :: "nav_env \<Rightarrow> string \<Rightarrow> nav_error + byte list" where
  \<comment> \<open>the file, not empty, valid against the schema's invariants\<close>
  "read_invoice_xml env path =
     and_then (ok_or (NeFile path) (ne_file env path)) (\<lambda>xml.
     and_then (check (xml \<noteq> []) (NeFile path)) (\<lambda>_.
     and_then (check (ne_validate env xml) (NeSchema path)) (\<lambda>_. Inr xml)))"

definition drive_one_invoice ::
  "nav_env \<Rightarrow> nav_ctx \<Rightarrow> (string \<rightharpoonup> string) \<Rightarrow> pending_invoice \<Rightarrow> (nav_state, drain_error, unit) io_op" where
  "drive_one_invoice env ctx override_map pinv =
     io_bind (io_lift (map_err DrApplication (resolve_xml_path pinv override_map))) (\<lambda>path.
     io_bind (io_lift (map_err DrApplication (read_invoice_xml env path))) (\<lambda>xml.
     io_bind (io_map_err (classify_nav_error env)
                (prepare_for_attempt_audit env ctx xml (pi_operation pinv))) (\<lambda>request_xml.
     io_bind (io_map_err DrApplication
                (submit_prepared env ctx False (pi_invoice_id pinv) (pi_idempotency_key pinv) [] request_xml)) (\<lambda>r.
       case r of Inl e \<Rightarrow> io_fail (classify_nav_error env e) | Inr _ \<Rightarrow> io_return ()))))"

definition try_acquire :: "nav_env \<Rightarrow> string \<Rightarrow> (nav_state, 'e, string + bool) io_op" where
  \<comment> \<open>the lock of an invoice: an error, held elsewhere, or acquired\<close>
  "try_acquire env iid = io_bind next_tick (\<lambda>n. io_return (ne_try_acquire env n iid))"

record drain_counts =
  dn_ok :: nat
  dn_exists :: nat
  dn_application :: nat
  dn_skipped :: nat
  dn_transport :: "string option"
  dn_stop :: "nat option"

definition no_counts :: drain_counts where
  "no_counts = \<lparr>dn_ok = 0, dn_exists = 0, dn_application = 0, dn_skipped = 0, dn_transport = None,
     dn_stop = None\<rparr>"

fun drain_loop ::
  "nav_env \<Rightarrow> nav_ctx \<Rightarrow> (string \<rightharpoonup> string) \<Rightarrow> nat \<Rightarrow> drain_counts \<Rightarrow> pending_invoice list \<Rightarrow>
   drain_counts nav_op" where
  "drain_loop env ctx ov idx n [] = io_return n"
| "drain_loop env ctx ov idx n (pinv # rest) =
     io_bind (try_acquire env (pi_invoice_id pinv)) (\<lambda>l.
       case l of
         Inl e \<Rightarrow> drain_loop env ctx ov (idx + 1) (n\<lparr>dn_application := dn_application n + 1\<rparr>) rest
       | Inr b \<Rightarrow>
           if \<not> b then drain_loop env ctx ov (idx + 1) (n\<lparr>dn_skipped := dn_skipped n + 1\<rparr>) rest
           else
             io_bind (io_attempt (drive_one_invoice env ctx ov pinv)) (\<lambda>r.
               case r of
                 Inr _ \<Rightarrow> drain_loop env ctx ov (idx + 1) (n\<lparr>dn_ok := dn_ok n + 1\<rparr>) rest
               | Inl (DrTransport msg) \<Rightarrow>
                   io_return (n\<lparr>dn_transport := Some msg, dn_stop := Some idx\<rparr>)
               | Inl (DrApplication e) \<Rightarrow>
                   drain_loop env ctx ov (idx + 1) (n\<lparr>dn_application := dn_application n + 1\<rparr>) rest))"

record drain_args =
  da_tenant :: string
  da_tax_number :: string
  da_max_invoices :: nat
  da_xml_path_overrides :: "string list"

definition drain_limit :: "nat \<Rightarrow> nat \<Rightarrow> nat" where
  "drain_limit max_invoices pending_count =
     (if max_invoices = 0 then pending_count else min max_invoices pending_count)"

definition finish_drain :: "drain_counts \<Rightarrow> drain_counts nav_op" where
  "finish_drain n =
     (case dn_transport n of Some msg \<Rightarrow> io_fail (NeTransportStop msg) | None \<Rightarrow> io_return n)"

definition drain_submission_queue :: "nav_env \<Rightarrow> nav_ctx \<Rightarrow> drain_args \<Rightarrow> drain_counts nav_op" where
  "drain_submission_queue env ctx args =
     io_bind (io_lift (ok_or (NeTenant (da_tenant args)) (tenant_new (da_tenant args)))) (\<lambda>_.
     io_bind (io_lift (parse_tax_number_8 (da_tax_number args))) (\<lambda>tax.
     io_bind (read_entries env) (\<lambda>es.
     io_bind (io_lift (classify_pending (ne_duck env) (ne_codec env) es)) (\<lambda>pending.
       if pending = [] then io_return no_counts
       else
         io_bind (io_lift (parse_xml_path_overrides Map.empty (da_xml_path_overrides args))) (\<lambda>ov.
         io_bind (drain_loop env (ctx\<lparr>nc_tax_number_8 := tax\<rparr>) ov 0 no_counts
                    (take (drain_limit (da_max_invoices args) (length pending)) pending)) (\<lambda>n.
           finish_drain n))))))"

section \<open>The check before a retry\<close>

datatype layer2_decision = SkipRePost | ProceedToRePost | AbortRetry string

definition perform_layer_2_check ::
  "nav_env \<Rightarrow> nav_ctx \<Rightarrow> string \<Rightarrow> string \<Rightarrow> idem_key \<Rightarrow> layer2_decision nav_op" where
  "perform_layer_2_check env ctx number iid key =
     io_bind (io_map_err NeNav (transport_new env)) (\<lambda>_.
     io_bind next_tick (\<lambda>n.
     io_bind (io_lift (map_err NeNav (ne_check_request env n (nc_tax_number_8 ctx) number))) (\<lambda>request_xml.
     io_bind (http_post env ''queryInvoiceCheck'' request_xml) (\<lambda>a.
     io_bind (io_return (case query_invoice_check_result (ne_lib env) a of
         Inr (b, response_xml) \<Rightarrow>
           (case from_check_result b of Exists \<Rightarrow> SkipRePost | Absent \<Rightarrow> ProceedToRePost,
            check_outcome_write env ctx iid key number request_xml (from_check_result b) response_xml)
       | Inl e \<Rightarrow>
           (AbortRetry (ne_display env e),
            check_failure_write env ctx iid key number request_xml e))) (\<lambda>(decision, w).
     io_bind (write_audit env ctx [w]) (\<lambda>_.
     io_bind (nav_durable_ack env) (\<lambda>_.
       io_return decision)))))))"

section \<open>Draining the pending retries\<close>

definition auto_reason :: string where
  "auto_reason = ''automatic state-2 retry (aberp drain-pending-retries; F45 closure / ADR-0032 '' @
     [char_of (194 :: nat), char_of (167 :: nat)] @ ''4)''"

datatype drive_outcome = RetriedOk | SkippedExists

definition lower :: "char \<Rightarrow> char" where
  "lower c = (if CHR ''A'' \<le> c \<and> c \<le> CHR ''Z'' then char_of (of_char c + 32 :: nat) else c)"

fun contains_text :: "string \<Rightarrow> string \<Rightarrow> bool" where
  "contains_text p [] = (p = [])"
| "contains_text p (c # s) = (take (length p) (c # s) = p \<or> contains_text p s)"

definition classify_layer_2_failure :: "string \<Rightarrow> drain_error" where
  "classify_layer_2_failure msg =
     (let l = map lower msg in
      if contains_text ''error sending request'' l \<or> contains_text ''tls'' l \<or> contains_text ''dns'' l \<or>
         contains_text ''connection'' l \<or> contains_text ''timed out'' l \<or> contains_text ''http transport'' l
      then DrTransport msg else DrApplication (NeCheckFailed msg))"

definition drive_one_retry ::
  "nav_env \<Rightarrow> nav_ctx \<Rightarrow> pending_retry \<Rightarrow> (nav_state, drain_error, drive_outcome) io_op" where
  "drive_one_retry env ctx retry =
     io_bind (io_lift (map_err DrApplication
       (ok_or (NeNoPath (pt_invoice_id retry)) (pt_nav_xml_path retry)))) (\<lambda>path.
     io_bind (io_lift (map_err DrApplication (read_invoice_xml env path))) (\<lambda>xml.
     io_bind (io_map_err DrApplication (load_issued_invoice env (pt_invoice_id retry))) (\<lambda>(pinv, key).
     io_bind (io_lift (check (key = pt_idempotency_key retry)
       (DrApplication (NeKeyMismatch (pt_invoice_id retry))))) (\<lambda>_.
     io_bind (io_lift (map_err DrApplication (ok_or (NeFile path) (ne_invoice_number env xml)))) (\<lambda>number.
     io_bind (io_map_err DrApplication (perform_layer_2_check env ctx number
       (invoice_key (ne_duck env) (ri_id pinv)) (pt_idempotency_key retry))) (\<lambda>decision.
       case decision of
         SkipRePost \<Rightarrow> io_return SkippedExists
       | AbortRetry msg \<Rightarrow> io_fail (classify_layer_2_failure msg)
       | ProceedToRePost \<Rightarrow>
           io_bind (io_map_err (classify_nav_error env)
             (prepare_for_attempt_audit env ctx xml (pt_operation retry))) (\<lambda>request_xml.
           io_bind (io_map_err DrApplication
             (submit_prepared env ctx False (invoice_key (ne_duck env) (ri_id pinv)) (pt_idempotency_key retry)
               [retry_requested_write env (invoice_key (ne_duck env) (ri_id pinv)) (pt_idempotency_key retry)
                  None None auto_reason] request_xml)) (\<lambda>r.
             case r of Inl e \<Rightarrow> io_fail (classify_nav_error env e) | Inr _ \<Rightarrow> io_return RetriedOk))))))))"

fun retry_loop ::
  "nav_env \<Rightarrow> nav_ctx \<Rightarrow> nat \<Rightarrow> drain_counts \<Rightarrow> pending_retry list \<Rightarrow> drain_counts nav_op" where
  "retry_loop env ctx idx n [] = io_return n"
| "retry_loop env ctx idx n (retry # rest) =
     io_bind (try_acquire env (pt_invoice_id retry)) (\<lambda>l.
       case l of
         Inl e \<Rightarrow> retry_loop env ctx (idx + 1) (n\<lparr>dn_application := dn_application n + 1\<rparr>) rest
       | Inr b \<Rightarrow>
           if \<not> b then retry_loop env ctx (idx + 1) (n\<lparr>dn_skipped := dn_skipped n + 1\<rparr>) rest
           else
             io_bind (io_attempt (drive_one_retry env ctx retry)) (\<lambda>r.
               case r of
                 Inr RetriedOk \<Rightarrow> retry_loop env ctx (idx + 1) (n\<lparr>dn_ok := dn_ok n + 1\<rparr>) rest
               | Inr SkippedExists \<Rightarrow> retry_loop env ctx (idx + 1) (n\<lparr>dn_exists := dn_exists n + 1\<rparr>) rest
               | Inl (DrTransport msg) \<Rightarrow>
                   io_return (n\<lparr>dn_transport := Some msg, dn_stop := Some idx\<rparr>)
               | Inl (DrApplication e) \<Rightarrow>
                   retry_loop env ctx (idx + 1) (n\<lparr>dn_application := dn_application n + 1\<rparr>) rest))"

definition drain_pending_retries :: "nav_env \<Rightarrow> nav_ctx \<Rightarrow> drain_args \<Rightarrow> drain_counts nav_op" where
  "drain_pending_retries env ctx args =
     io_bind (io_lift (ok_or (NeTenant (da_tenant args)) (tenant_new (da_tenant args)))) (\<lambda>_.
     io_bind (io_lift (parse_tax_number_8 (da_tax_number args))) (\<lambda>tax.
     io_bind (read_entries env) (\<lambda>es.
     io_bind (io_lift (classify_pending_retries (ne_duck env) (ne_codec env) es)) (\<lambda>pending.
       if pending = [] then io_return no_counts
       else
         io_bind (retry_loop env (ctx\<lparr>nc_tax_number_8 := tax\<rparr>) 0 no_counts
                    (take (drain_limit (da_max_invoices args) (length pending)) pending)) (\<lambda>n.
           finish_drain n)))))"

section \<open>Retrying one invoice\<close>

definition acquire_or_refuse :: "nav_env \<Rightarrow> string \<Rightarrow> unit nav_op" where
  "acquire_or_refuse env iid =
     io_bind (try_acquire env iid) (\<lambda>l.
       case l of Inl e \<Rightarrow> io_fail (NeLock e)
       | Inr b \<Rightarrow> if b then io_return () else io_fail (NeInProgress iid))"

definition load_requested_invoice :: "nav_env \<Rightarrow> string \<Rightarrow> (ready_invoice \<times> idem_key) nav_op" where
  "load_requested_invoice env iid =
     io_bind (load_issued_invoice env iid) (\<lambda>(pinv, key).
     io_bind (io_lift (check (invoice_key (ne_duck env) (ri_id pinv) = iid) (NeIdMismatch iid))) (\<lambda>_.
       io_return (pinv, key)))"

definition stuck_or_fail :: "idem_key \<Rightarrow> stuck_outcome \<Rightarrow> nav_error + stuck_precondition_record" where
  "stuck_or_fail key r =
     (case r of
        Stuck p \<Rightarrow> and_then (check (sp_idempotency_key p = key) (NeKeyMismatch [])) (\<lambda>_. Inr p)
      | NotStuck reason \<Rightarrow> Inl (NeNotStuck reason))"

definition resolve_stuck_or_loud_fail ::
  "nav_env \<Rightarrow> string \<Rightarrow> idem_key \<Rightarrow> (stuck_precondition_record \<times> invoice_operation) nav_op" where
  "resolve_stuck_or_loud_fail env iid key =
     io_bind (read_entries env) (\<lambda>es.
     io_lift (and_then (operation_for_invoice (ne_codec env) es iid) (\<lambda>operation.
       and_then (stuck_precondition (ne_duck env) (ne_codec env) es iid) (\<lambda>r.
       and_then (stuck_or_fail key r) (\<lambda>p. Inr (p, operation))))))"

record retry_args =
  ra_tenant :: string
  ra_tax_number :: string
  ra_invoice_id :: string
  ra_invoice_xml :: string
  ra_reason :: string

datatype retry_outcome = RsSkippedExists | RsSubmitted string

definition retry_post ::
  "nav_env \<Rightarrow> nav_ctx \<Rightarrow> string \<Rightarrow> idem_key \<Rightarrow> stuck_precondition_record \<Rightarrow> string \<Rightarrow> byte list \<Rightarrow>
   invoice_operation \<Rightarrow> retry_outcome nav_op" where
  "retry_post env ctx iid key stuck reason xml operation =
     io_bind (io_map_err NeNav (prepare_for_attempt_audit env ctx xml operation)) (\<lambda>request_xml.
     io_bind (submit_prepared env ctx False iid key
       [retry_requested_write env iid key (sp_prior_transaction_id stuck)
          (sp_prior_last_ack_status stuck) reason] request_xml) (\<lambda>r.
       case r of Inl e \<Rightarrow> io_fail (NeNav e) | Inr txid \<Rightarrow> io_return (RsSubmitted txid)))"

definition retry_submission :: "nav_env \<Rightarrow> nav_ctx \<Rightarrow> retry_args \<Rightarrow> retry_outcome nav_op" where
  "retry_submission env ctx0 args =
     io_bind (io_lift (ok_or (NeTenant (ra_tenant args)) (tenant_new (ra_tenant args)))) (\<lambda>_.
     io_bind (io_lift (parse_tax_number_8 (ra_tax_number args))) (\<lambda>tax.
     let ctx = ctx0\<lparr>nc_tax_number_8 := tax\<rparr>; reason = rust_trim (ra_reason args) in
     io_bind (io_lift (check (reason \<noteq> []) NeReasonMissing)) (\<lambda>_.
     io_bind (acquire_or_refuse env (ra_invoice_id args)) (\<lambda>_.
     io_bind (load_requested_invoice env (ra_invoice_id args)) (\<lambda>(pinv, key).
     io_bind (resolve_stuck_or_loud_fail env (ra_invoice_id args) key) (\<lambda>(stuck, operation).
     io_bind (io_lift (read_invoice_xml env (ra_invoice_xml args))) (\<lambda>xml.
       let iid = invoice_key (ne_duck env) (ri_id pinv) in
       if sp_stage stuck = SsPending then
         io_bind (io_lift (ok_or (NeFile (ra_invoice_xml args)) (ne_invoice_number env xml))) (\<lambda>number.
         io_bind (perform_layer_2_check env ctx number iid key) (\<lambda>decision.
           case decision of
             SkipRePost \<Rightarrow>
               io_bind (verify_chain_reusing_read env ctx) (\<lambda>_. io_return RsSkippedExists)
           | AbortRetry msg \<Rightarrow>
               io_bind (verify_chain_reusing_read env ctx) (\<lambda>_. io_fail (NeCheckFailed msg))
           | ProceedToRePost \<Rightarrow> retry_post env ctx iid key stuck reason xml operation))
       else retry_post env ctx iid key stuck reason xml operation)))))))"

section \<open>Abandoning an invoice\<close>

definition effective_reason_for_audit :: "string \<Rightarrow> bool \<Rightarrow> string" where
  "effective_reason_for_audit reason forced =
     (if forced then reason @ '' [forced-despite-nav-side-exists]'' else reason)"

definition mark_abandoned_from_inputs ::
  "nav_env \<Rightarrow> nav_ctx \<Rightarrow> string \<Rightarrow> string \<Rightarrow> bool \<Rightarrow> stuck_precondition_record nav_op" where
  "mark_abandoned_from_inputs env ctx iid reason force =
     io_bind (load_requested_invoice env iid) (\<lambda>(pinv, key).
     io_bind (read_entries env) (\<lambda>es.
     io_bind (io_lift (and_then (stuck_precondition (ne_duck env) (ne_codec env) es iid) (stuck_or_fail key))) (\<lambda>stuck.
     io_bind (read_entries env) (\<lambda>es'.
     io_bind (io_lift (latest_check_performed_outcome (ne_codec env) es' iid)) (\<lambda>latest.
     io_bind (io_lift (check (\<not> (latest = Some ''exists'' \<and> \<not> force)) (NeNavSideExists iid))) (\<lambda>_.
     io_bind (write_audit env ctx
       [abandoned_write env (invoice_key (ne_duck env) (ri_id pinv)) key stuck
          (effective_reason_for_audit reason (latest = Some ''exists'' \<and> force))]) (\<lambda>_.
     io_bind (nav_durable_ack env) (\<lambda>_.
     io_bind (verify_chain_reusing_read env ctx) (\<lambda>_.
       io_return stuck)))))))))"

definition mark_abandoned ::
  "nav_env \<Rightarrow> nav_ctx \<Rightarrow> string \<Rightarrow> string \<Rightarrow> string \<Rightarrow> bool \<Rightarrow> stuck_precondition_record nav_op" where
  "mark_abandoned env ctx tenant iid raw_reason force =
     io_bind (io_lift (ok_or (NeTenant tenant) (tenant_new tenant))) (\<lambda>_.
     io_bind (io_lift (check (rust_trim raw_reason \<noteq> []) NeReasonMissing)) (\<lambda>_.
       mark_abandoned_from_inputs env ctx iid (rust_trim raw_reason) force))"

section \<open>Submitting one invoice\<close>

record submit_inputs =
  sb_tenant :: string
  sb_invoice_id :: string
  sb_invoice_xml :: "byte list"
  sb_tax_number :: string

definition submit_from_inputs :: "nav_env \<Rightarrow> nav_ctx \<Rightarrow> submit_inputs \<Rightarrow> string nav_op" where
  "submit_from_inputs env ctx0 args =
     io_bind (io_lift (ok_or (NeTenant (sb_tenant args)) (tenant_new (sb_tenant args)))) (\<lambda>_.
     io_bind (io_lift (parse_tax_number_8 (sb_tax_number args))) (\<lambda>tax.
     let ctx = ctx0\<lparr>nc_tax_number_8 := tax\<rparr> in
     io_bind (acquire_or_refuse env (sb_invoice_id args)) (\<lambda>_.
     io_bind (io_lift (check (ne_validate env (sb_invoice_xml args)) (NeSchema []))) (\<lambda>_.
     io_bind (load_requested_invoice env (sb_invoice_id args)) (\<lambda>(pinv, key).
     io_bind (read_entries env) (\<lambda>es.
     io_bind (io_lift (operation_for_invoice (ne_codec env) es (sb_invoice_id args))) (\<lambda>operation.
     io_bind (io_map_err NeNav (prepare_for_attempt_audit env ctx (sb_invoice_xml args) operation)) (\<lambda>request_xml.
     io_bind (submit_prepared env ctx True (invoice_key (ne_duck env) (ri_id pinv)) key [] request_xml) (\<lambda>r.
       case r of Inl e \<Rightarrow> io_fail (NeNav e) | Inr txid \<Rightarrow> io_return txid)))))))))"

section \<open>Recording a payment\<close>

record mark_paid_input =
  mp_invoice_id :: string
  mp_paid_at :: string
  mp_amount_minor :: int
  mp_currency :: string
  mp_method :: pay_method
  mp_reference :: "string option"

datatype mark_paid_error = AlreadyPaid payment_record | InvalidPaidAt string | MarkPaidOther nav_error

definition is_canonical_iso_date :: "duck_env \<Rightarrow> string \<Rightarrow> bool" where
  "is_canonical_iso_date env s \<longleftrightarrow>
     length s = 10 \<and> s ! 4 = CHR ''-'' \<and> s ! 7 = CHR ''-'' \<and>
     list_all is_digit (take 4 s) \<and> list_all is_digit (take 2 (drop 5 s)) \<and>
     list_all is_digit (take 2 (drop 8 s)) \<and> dk_date_parse env s \<noteq> None"

definition payment_write :: "nav_env \<Rightarrow> idem_key \<Rightarrow> mark_paid_input \<Rightarrow> audit_write" where
  "payment_write env key i =
     (InvoicePaymentRecorded,
      payment_to_bytes (ne_codec env)
        \<lparr>pr_invoice_id = mp_invoice_id i, pr_idempotency_key = idem_text env key,
         pr_paid_at = mp_paid_at i, pr_amount_minor = mp_amount_minor i,
         pr_currency = mp_currency i, pr_method = mp_method i, pr_reference = mp_reference i\<rparr>, key)"

text \<open>The check and the write are separate accesses to the handle.\<close>

definition mark_paid_check ::
  "nav_env \<Rightarrow> mark_paid_input \<Rightarrow> (nav_state, mark_paid_error, unit) io_op" where
  "mark_paid_check env i =
     io_bind (io_lift (check (is_canonical_iso_date (ne_duck env) (mp_paid_at i))
       (InvalidPaidAt (mp_paid_at i)))) (\<lambda>_.
     io_bind (io_map_err MarkPaidOther (read_entries env)) (\<lambda>es.
     io_bind (io_lift (map_err MarkPaidOther
       (payment_record_for (ne_codec env) es (mp_invoice_id i)))) (\<lambda>r.
       case r of Some existing \<Rightarrow> io_fail (AlreadyPaid existing) | None \<Rightarrow> io_return ())))"

definition mark_paid_write ::
  "nav_env \<Rightarrow> nav_ctx \<Rightarrow> mark_paid_input \<Rightarrow> (nav_state, mark_paid_error, payment_record \<times> nat) io_op" where
  "mark_paid_write env ctx i =
     io_bind next_tick (\<lambda>n.
     io_bind (io_map_err MarkPaidOther (write_audit env ctx [payment_write env (ne_new_key env n) i])) (\<lambda>_.
     io_bind (io_map_err MarkPaidOther (verify_chain_reusing_read env ctx)) (\<lambda>verified.
     io_bind (io_map_err MarkPaidOther (nav_durable_ack env)) (\<lambda>_.
       io_return (\<lparr>pm_paid_at = mp_paid_at i, pm_amount_minor = mp_amount_minor i,
                   pm_currency = mp_currency i, pm_method = mp_method i,
                   pm_reference = mp_reference i\<rparr>, verified)))))"

definition mark_paid ::
  "nav_env \<Rightarrow> nav_ctx \<Rightarrow> mark_paid_input \<Rightarrow> (nav_state, mark_paid_error, payment_record \<times> nat) io_op" where
  "mark_paid env ctx i = io_bind (mark_paid_check env i) (\<lambda>_. mark_paid_write env ctx i)"

end
