(* ===== verification/Db_Handle_Properties.thy ===== *)
theory Db_Handle_Properties
  imports Db_Handle
begin

text \<open>
  What the database handle promises: a write that is acknowledged is in the live file and on
  stable storage, whatever another process did to the path before the window closed; and the
  mirror is never ahead of what stable storage holds.
\<close>

section \<open>What the flush and the checkpoint change\<close>

definition same_but_flushed :: "'d db_handle \<Rightarrow> 'd db_handle \<Rightarrow> bool" where
  "same_but_flushed s t \<longleftrightarrow>
     hd_conn t = hd_conn s \<and> hd_fence t = hd_fence s \<and> hd_last_ack t = hd_last_ack s \<and>
     hd_debouncer t = hd_debouncer s \<and> hd_poisoned t = hd_poisoned s \<and> hd_live t = hd_live s \<and>
     hd_data t = hd_data s \<and> hd_mirror t = hd_mirror s"

lemma answer_cases:
  obtains e where "answer ans err s = (Inl e, s\<lparr>hd_tick := hd_tick s + 1\<rparr>)"
  | "answer ans err s = (Inr (), s\<lparr>hd_tick := hd_tick s + 1\<rparr>)"
  by (cases "ans (hd_tick s)") (auto simp: answer_def)

lemma fsync_and_record_frame:
  assumes "fsync_and_record env p s = (r, t)"
  shows "same_but_flushed s t \<and> hd_stable t = hd_stable s"
  by (rule answer_cases [of "\<lambda>n. he_fsync env n p" "DbDurableAck p" s])
    (use assms in \<open>auto simp: fsync_and_record_def io_bind_def io_defs same_but_flushed_def split: if_splits\<close>)

lemma fsync_step_frame:
  assumes "(if b then fsync_and_record env p else io_return ()) s = (r, t)"
  shows "same_but_flushed s t \<and> hd_stable t = hd_stable s"
  using assms fsync_and_record_frame [of env p s r t]
  by (cases b) (auto simp: io_defs same_but_flushed_def)

lemma same_but_flushed_trans:
  "same_but_flushed s t \<Longrightarrow> same_but_flushed t u \<Longrightarrow> same_but_flushed s u"
  by (simp add: same_but_flushed_def)

lemma fsync_data_paths_frame:
  assumes "fsync_data_paths env s = (r, t)"
  shows "same_but_flushed s t \<and>
    hd_stable t = (case r of Inl e \<Rightarrow> hd_stable s
                   | Inr _ \<Rightarrow> (hd_stable s)(hd_live s := hd_data s (hd_live s)))"
proof -
  obtain r1 s1 where 1: "fsync_and_record env DpMain s = (r1, s1)" by fastforce
  have f1: "same_but_flushed s s1 \<and> hd_stable s1 = hd_stable s" by (rule fsync_and_record_frame [OF 1])
  define w where "w = he_wal_exists env (hd_tick s1)"
  obtain r2 s2 where 2: "(if w then fsync_and_record env DpWal else io_return ()) s1 = (r2, s2)"
    by fastforce
  have f2: "same_but_flushed s1 s2 \<and> hd_stable s2 = hd_stable s1" by (rule fsync_step_frame [OF 2])
  obtain r3 s3 where 3:
    "(if he_has_parent env then fsync_and_record env DpDir else io_return ()) s2 = (r3, s3)"
    by fastforce
  have f3: "same_but_flushed s2 s3 \<and> hd_stable s3 = hd_stable s2" by (rule fsync_step_frame [OF 3])
  note frames = f1 f2 f3
  have run: "fsync_data_paths env s =
      (case r1 of Inl e \<Rightarrow> (Inl e, s1) | Inr _ \<Rightarrow>
        (case r2 of Inl e \<Rightarrow> (Inl e, s2) | Inr _ \<Rightarrow>
          (case r3 of Inl e \<Rightarrow> (Inl e, s3) | Inr _ \<Rightarrow> (Inr (), stabilise s3))))"
    using 1 2 3
    by (cases r1; cases r2; cases r3)
      (simp_all add: fsync_data_paths_def io_bind_def io_get_def io_modify_def w_def)
  show ?thesis
    using frames assms unfolding run
    by (cases r1; cases r2; cases r3) (auto simp: same_but_flushed_def stabilise_def)
qed

section \<open>The steps of a checkpoint\<close>

definition ticked :: "'d db_handle \<Rightarrow> 'd db_handle \<Rightarrow> bool" where
  "ticked s t \<longleftrightarrow> (\<exists>n. t = s\<lparr>hd_tick := n\<rparr>)"

lemma ticked_refl: "ticked s s"
  unfolding ticked_def by (rule exI [of _ "hd_tick s"]) simp

lemma ticked_trans: "ticked s t \<Longrightarrow> ticked t u \<Longrightarrow> ticked s u"
  by (auto simp: ticked_def)

interpretation tk: growth ticked
  by unfold_locales (fact ticked_refl, fact ticked_trans)

lemma ticked_answer: "io_grows ticked (answer ans err)"
  unfolding io_grows_def
proof
  fix s :: "'d db_handle"
  show "ticked s (snd (answer ans err s))"
    by (rule answer_cases [of ans err s]) (auto simp: ticked_def)
qed

lemma ticked_step: "io_grows ticked (checkpoint_step env c)"
  by (simp add: checkpoint_step_def ticked_answer)

lemma ticked_stage: "io_grows ticked (stage_checkpoint env)"
  unfolding stage_checkpoint_def by (intro tk.grows_rules ticked_step)

lemma checkpoint_step_run:
  "checkpoint_step env c s =
     (case he_step env (hd_tick s) c of
        Some e \<Rightarrow> (Inl (CeStep c e), s\<lparr>hd_tick := hd_tick s + 1\<rparr>)
      | None \<Rightarrow> (Inr (), s\<lparr>hd_tick := hd_tick s + 1\<rparr>))"
  by (simp add: checkpoint_step_def answer_def)

text \<open>
  An installation that got past its rename is finished: the old file's log is removed, and there
  is a directory, which opens and is flushed.
\<close>

definition finishes_installs :: "'d handle_env \<Rightarrow> bool" where
  "finishes_installs env \<longleftrightarrow> he_has_parent env \<and>
     (\<forall>n. he_dir_opens env n \<and> he_step env n CsDropLog = None \<and> he_step env n CsFlushDir = None)"

definition copied :: "inode \<Rightarrow> nat \<Rightarrow> 'd db_handle \<Rightarrow> 'd db_handle" where
  "copied i n s = s\<lparr>hd_live := i, hd_data := (hd_data s)(i := hd_data s (hd_live s)),
     hd_stable := (hd_stable s)(i := hd_data s (hd_live s)), hd_tick := n\<rparr>"

definition installed :: "'d db_handle \<Rightarrow> 'd db_handle \<Rightarrow> bool" where
  \<comment> \<open>nothing was done, or a flushed copy of the live file has its place\<close>
  "installed s t \<longleftrightarrow> ticked s t \<or> (\<exists>i n. t = copied i n s)"

lemma copied_tick: "(copied i n s)\<lparr>hd_tick := m\<rparr> = copied i m s" "copied i n (s\<lparr>hd_tick := m\<rparr>) = copied i n s"
  by (simp_all add: copied_def)

lemma ticked_installed: "ticked s t \<Longrightarrow> installed s t"
  by (simp add: installed_def)

lemma installed_ticked:
  assumes "installed s t" and "ticked t u"
  shows "installed s u"
  using assms(1) unfolding installed_def
proof
  assume "ticked s t"
  then show "ticked s u \<or> (\<exists>i n. u = copied i n s)" using ticked_trans [OF _ assms(2)] by blast
next
  assume "\<exists>i n. t = copied i n s"
  then show "ticked s u \<or> (\<exists>i n. u = copied i n s)"
    using assms(2) unfolding ticked_def by (metis copied_tick(1))
qed

lemma ticked_then_installed:
  assumes "ticked s t" and "installed t u"
  shows "installed s u"
  using assms(2) unfolding installed_def
proof
  assume "ticked t u"
  then show "ticked s u \<or> (\<exists>i n. u = copied i n s)" using ticked_trans [OF assms(1)] by blast
next
  assume "\<exists>i n. u = copied i n t"
  then show "ticked s u \<or> (\<exists>i n. u = copied i n s)"
    using assms(1) unfolding ticked_def by (metis copied_tick(2))
qed

lemma atomic_install_finished:
  assumes "finishes_installs env"
  shows "io_grows installed (atomic_install env i)"
  unfolding io_grows_def
proof
  fix s
  have fin: "he_step env n CsDropLog = None" "he_step env n CsFlushDir = None"
    "he_dir_opens env n" "he_has_parent env" for n
    using assms by (simp_all add: finishes_installs_def)
  show "installed s (snd (atomic_install env i s))"
  proof (cases "he_step env (hd_tick s) CsFlushStaged")
    case (Some e)
    then show ?thesis
      by (auto simp: atomic_install_def io_bind_def checkpoint_step_run installed_def ticked_def)
  next
    case None
    note flushed = this
    show ?thesis
    proof (cases "he_step env (hd_tick s + 1) CsRename")
      case (Some e)
      with flushed show ?thesis
        by (auto simp: atomic_install_def io_bind_def checkpoint_step_run installed_def ticked_def)
    next
      case None
      have "snd (atomic_install env i s) = copied i (hd_tick s + 4) s"
        using flushed None
        by (simp add: atomic_install_def io_bind_def checkpoint_step_run io_get_def io_modify_def
            rename_staged_def Let_def fin copied_def)
      then show ?thesis unfolding installed_def by blast
    qed
  qed
qed

lemma installed_return: "io_grows installed (io_return a)"
  by (simp add: io_grows_def io_return_def ticked_installed ticked_refl)

lemma installed_bind:
  assumes m: "io_grows installed m" and f: "\<And>a. io_grows ticked (f a)"
  shows "io_grows installed (io_bind m f)"
  unfolding io_grows_def
proof
  fix s
  obtain q s' where ms: "m s = (q, s')" by fastforce
  have "installed s s'" using m ms by (auto simp: io_grows_def dest: spec [of _ s])
  moreover have "ticked s' (snd (f a s'))" for a using f by (simp add: io_grows_def)
  ultimately show "installed s (snd (io_bind m f s))"
    by (cases q) (auto simp: io_bind_def ms intro: installed_ticked)
qed

lemma ticked_then_bind:
  assumes m: "io_grows ticked m" and f: "\<And>a. io_grows installed (f a)"
  shows "io_grows installed (io_bind m f)"
  unfolding io_grows_def
proof
  fix s
  obtain q s' where ms: "m s = (q, s')" by fastforce
  have "ticked s s'" using m ms by (auto simp: io_grows_def dest: spec [of _ s])
  moreover have "installed s' (snd (f a s'))" for a using f by (simp add: io_grows_def)
  ultimately show "installed s (snd (io_bind m f s))"
    by (cases q) (auto simp: io_bind_def ms intro: ticked_then_installed ticked_installed)
qed

lemma live_durable_checkpoint_finished:
  assumes "finishes_installs env"
  shows "io_grows installed (live_durable_checkpoint env)"
proof -
  have "io_grows installed (durable_checkpoint env)"
    unfolding durable_checkpoint_def
    by (intro ticked_then_bind [OF ticked_stage] installed_bind [OF atomic_install_finished [OF assms]]
        tk.grows_rules ticked_step)
  then have "io_grows installed (io_bind (durable_checkpoint env) (\<lambda>_. io_return True))"
    by (intro installed_bind tk.grows_rules)
  then show ?thesis
    unfolding live_durable_checkpoint_def
    by (intro ticked_then_bind [OF ticked_step] ticked_then_bind [OF tk.grows_get])
      (simp add: installed_return)
qed

definition checkpointed :: "'d db_handle \<Rightarrow> 'd db_handle \<Rightarrow> bool" where
  "checkpointed s t \<longleftrightarrow>
     hd_last_ack t = hd_last_ack s \<and> hd_poisoned t = hd_poisoned s \<and> hd_mirror t = hd_mirror s \<and>
     hd_data t (hd_live t) = hd_data s (hd_live s) \<and>
     (hd_conn t = None \<or> hd_conn t = Some (hd_live t)) \<and>
     (hd_live t = hd_live s \<and> hd_data t = hd_data s \<and> hd_stable t = hd_stable s \<or>
      (\<exists>i. hd_live t = i \<and> hd_data t = (hd_data s)(i := hd_data s (hd_live s)) \<and>
           hd_stable t = (hd_stable s)(i := hd_data s (hd_live s))))"

lemma reopened:
  fixes s :: "'d db_handle"
  shows "\<exists>o'. (io_attempt (open_runtime_connection env) s :: (db_error + _) \<times> _) =
    (Inr o', s\<lparr>hd_tick := hd_tick s + 1\<rparr>)"
  by (rule answer_cases [of "he_open env" DbDuck s])
    (auto simp: open_runtime_connection_def io_attempt_def)

text \<open>The fence names the file the connection has open; or could not be read at all.\<close>

definition identified :: "'d handle_env \<Rightarrow> bool" where
  \<comment> \<open>the live file can always be told from another\<close>
  "identified env \<longleftrightarrow> he_unix env \<and> (\<forall>n. he_stat env n)"

definition fenced :: "'d handle_env \<Rightarrow> 'd db_handle \<Rightarrow> bool" where
  "fenced env s \<longleftrightarrow>
     (\<forall>i. hd_conn s = Some i \<longrightarrow> hd_fence s = Some i \<or> hd_fence s = None \<and> \<not> identified env)"

lemma run_checkpoint_run:
  assumes "run_durable_checkpoint_locked env s = (r, t)"
  obtains q s1 d n where
    "live_durable_checkpoint env (s\<lparr>hd_conn := None\<rparr>) = (q, s1)"
    and "r = Inr (is_ok q)"
    and "t = s1\<lparr>hd_debouncer := d, hd_fence := file_id env s1, hd_tick := n\<rparr> \<or>
         t = s1\<lparr>hd_debouncer := d, hd_fence := file_id env s1, hd_tick := n,
                hd_conn := Some (hd_live s1)\<rparr>"
proof -
  obtain q s1 where 1: "live_durable_checkpoint env (s\<lparr>hd_conn := None\<rparr>) = (q, s1)"
    by fastforce
  define s2 where "s2 = (if is_ok q then s1\<lparr>hd_debouncer :=
      record_checkpoint (he_now env (hd_tick s1)) (hd_debouncer s1)\<rparr> else s1)"
  define s3 where "s3 = s2\<lparr>hd_fence := file_id env s2\<rparr>"
  have s3: "s3 = s1\<lparr>hd_debouncer := hd_debouncer s2, hd_fence := file_id env s1\<rparr>"
    by (simp add: s3_def s2_def file_id_def)
  obtain o' where 4: "(io_attempt (open_runtime_connection env) s3 :: (db_error + _) \<times> _) =
      (Inr o', s3\<lparr>hd_tick := hd_tick s3 + 1\<rparr>)"
    using reopened by blast
  have "run_durable_checkpoint_locked env s =
      (Inr (is_ok q), (case o' of Inl e \<Rightarrow> s3\<lparr>hd_tick := hd_tick s3 + 1\<rparr>
                | Inr _ \<Rightarrow> s3\<lparr>hd_tick := hd_tick s3 + 1, hd_conn := Some (hd_live s3)\<rparr>))"
    using 1 4 by (auto simp: run_durable_checkpoint_locked_def io_bind_def io_modify_def io_return_def
        io_attempt_def s2_def [symmetric] s3_def [symmetric] split: sum.splits prod.splits)
  then have "r = Inr (is_ok q)" and "t = (case o' of Inl e \<Rightarrow> s3\<lparr>hd_tick := hd_tick s3 + 1\<rparr>
                | Inr _ \<Rightarrow> s3\<lparr>hd_tick := hd_tick s3 + 1, hd_conn := Some (hd_live s3)\<rparr>)"
    using assms by auto
  then show ?thesis
    using that [OF 1, where d = "hd_debouncer s2" and n = "hd_tick s3 + 1"] by (cases o') (simp_all add: s3)
qed

lemma run_checkpoint_frame:
  assumes fin: "finishes_installs env" and run: "run_durable_checkpoint_locked env s = (r, t)"
  shows "checkpointed s t \<and> (\<exists>ok. r = Inr ok) \<and> fenced env t"
proof -
  obtain q s1 d n where 1: "live_durable_checkpoint env (s\<lparr>hd_conn := None\<rparr>) = (q, s1)"
    and r: "r = Inr (is_ok q)"
    and t: "t = s1\<lparr>hd_debouncer := d, hd_fence := file_id env s1, hd_tick := n\<rparr> \<or>
         t = s1\<lparr>hd_debouncer := d, hd_fence := file_id env s1, hd_tick := n,
                hd_conn := Some (hd_live s1)\<rparr>"
    by (rule run_checkpoint_run [OF run])
  have "installed (s\<lparr>hd_conn := None\<rparr>) s1"
    using live_durable_checkpoint_finished [OF fin] 1
    by (auto simp: io_grows_def dest: spec [of _ "s\<lparr>hd_conn := None\<rparr>"])
  then have k: "checkpointed s s1" "hd_conn s1 = None"
    by (auto simp: installed_def ticked_def checkpointed_def copied_def)
  have f: "hd_fence t = file_id env s1" "hd_conn t = None \<or> hd_conn t = Some (hd_live s1)"
    using t k(2) by auto
  have "fenced env t"
    using f by (auto simp: fenced_def file_id_def identified_def)
  moreover have "checkpointed s t" using t k by (auto simp: checkpointed_def)
  ultimately show ?thesis using r by simp
qed

text \<open>Whatever becomes of the installation, what is parked and the mirror stay.\<close>

definition ack_kept :: "'d db_handle \<Rightarrow> 'd db_handle \<Rightarrow> bool" where
  "ack_kept s t \<longleftrightarrow> hd_last_ack t = hd_last_ack s \<and> hd_poisoned t = hd_poisoned s \<and>
     hd_mirror t = hd_mirror s"

interpretation ak: growth ack_kept
  by unfold_locales (simp_all add: ack_kept_def)

lemma ack_kept_step: "io_grows ack_kept (checkpoint_step env c)"
  by (simp add: io_grows_def checkpoint_step_run ack_kept_def split: option.splits)

lemma ack_kept_modify: "(\<And>s. ack_kept s (f s)) \<Longrightarrow> io_grows ack_kept (io_modify f)"
  by (simp add: io_grows_def io_modify_def)

lemma live_durable_checkpoint_keeps: "io_grows ack_kept (live_durable_checkpoint env)"
  unfolding live_durable_checkpoint_def durable_checkpoint_def stage_checkpoint_def atomic_install_def
  by (intro ak.grows_rules ack_kept_step ack_kept_modify)
    (simp_all add: ack_kept_def rename_staged_def Let_def)

lemma run_checkpoint_keeps:
  assumes "run_durable_checkpoint_locked env s = (r, t)"
  shows "ack_kept s t \<and> (\<exists>ok. r = Inr ok)"
proof -
  obtain q s1 d n where 1: "live_durable_checkpoint env (s\<lparr>hd_conn := None\<rparr>) = (q, s1)"
    and r: "r = Inr (is_ok q)"
    and t: "t = s1\<lparr>hd_debouncer := d, hd_fence := file_id env s1, hd_tick := n\<rparr> \<or>
         t = s1\<lparr>hd_debouncer := d, hd_fence := file_id env s1, hd_tick := n,
                hd_conn := Some (hd_live s1)\<rparr>"
    by (rule run_checkpoint_run [OF assms])
  have "ack_kept (s\<lparr>hd_conn := None\<rparr>) s1"
    using live_durable_checkpoint_keeps [of env] 1
    by (auto simp: io_grows_def dest: spec [of _ "s\<lparr>hd_conn := None\<rparr>"])
  then show ?thesis using t r by (auto simp: ack_kept_def)
qed

section \<open>The window\<close>

definition windowed :: "'d handle_env \<Rightarrow> 'd db_handle \<Rightarrow> bool" where
  \<comment> \<open>what holds inside a window\<close>
  "windowed env s \<longleftrightarrow> fenced env s \<and> hd_conn s \<noteq> None \<and> \<not> hd_poisoned s"

lemma ensure_open_frame:
  assumes "ensure_open env s = (r, t)"
  shows "hd_live t = hd_live s \<and> hd_data t = hd_data s \<and> hd_stable t = hd_stable s \<and>
    hd_mirror t = hd_mirror s \<and> hd_poisoned t = hd_poisoned s \<and> hd_last_ack t = hd_last_ack s \<and>
    (fenced env s \<longrightarrow> fenced env t) \<and> (r = Inr () \<longrightarrow> hd_conn t \<noteq> None) \<and>
    (hd_conn t = hd_conn s \<or> hd_conn t = Some (hd_live s))"
  by (rule answer_cases [of "he_open env" DbDuck s])
    (use assms in \<open>auto simp: ensure_open_def open_runtime_connection_def io_bind_def io_get_def
      io_modify_def io_return_def fenced_def file_id_def identified_def split: if_splits\<close>)

lemma answer_frame:
  assumes "answer ans err s = (r, t)"
  shows "t = s\<lparr>hd_tick := hd_tick s + 1\<rparr>"
  by (rule answer_cases [of ans err s]) (use assms in auto)

definition recovered :: "'d handle_env \<Rightarrow> 'd db_handle \<Rightarrow> 'd db_handle \<Rightarrow> bool" where
  "recovered env s t \<longleftrightarrow>
     hd_live t = hd_live s \<and> hd_stable t = hd_stable s \<and> hd_mirror t = hd_mirror s \<and>
     hd_last_ack t = hd_last_ack s \<and> \<not> hd_poisoned t \<and>
     (hd_conn t = hd_conn s \<or> hd_conn t = None \<or> hd_conn t = Some (hd_live s)) \<and>
     (hd_data t = hd_data s \<or>
      (\<exists>n. hd_data t = (hd_data s)(hd_live s := he_recovery_row env n (hd_data s (hd_live s)))))"

lemma recover_from_poison_frame:
  assumes "recover_from_poison env s = (r, t)" and "\<not> hd_poisoned s" and "fenced env s"
  shows "recovered env s t \<and> fenced env t"
proof -
  define s0 where "s0 = s\<lparr>hd_conn := None\<rparr>"
  obtain r1 s1 where 1: "ensure_open env s0 = (r1, s1)" by fastforce
  obtain r2 s2 where 2: "answer (he_clone env) DbDuck s1 = (r2, s2)" by fastforce
  have s2: "s2 = s1\<lparr>hd_tick := hd_tick s1 + 1\<rparr>" by (rule answer_frame [OF 2])
  note f = ensure_open_frame [OF 1]
  have f0: "fenced env s0" by (simp add: fenced_def s0_def)
  have run: "recover_from_poison env s =
      (case r1 of Inl e \<Rightarrow> (Inl e, s1) | Inr _ \<Rightarrow>
        (case r2 of Inl e \<Rightarrow> (Inl e, s2) | Inr _ \<Rightarrow>
          (case he_verify env (conn_data s2) of
             Inl e \<Rightarrow> (Inl (DbPoisonRecoveryFailed e), s2)
           | Inr _ \<Rightarrow> (Inr (), set_conn_data (he_recovery_row env (hd_tick s2) (conn_data s2)) s2))))"
    using 1 2
    by (cases r1; cases r2)
      (simp_all add: recover_from_poison_def io_bind_def io_get_def io_modify_def s0_def [symmetric]
        emit_poison_recovery_audit_def io_fail_def split: sum.splits)
  have base: "recovered env s s1 \<and> fenced env s1 \<and> recovered env s s2 \<and> fenced env s2"
    using f f0 assms(2) by (auto simp: recovered_def s2 s0_def fenced_def)
  show ?thesis
  proof (cases "\<exists>u v w. r1 = Inr u \<and> r2 = Inr v \<and> he_verify env (conn_data s2) = Inr w")
    case False
    then show ?thesis using assms(1) base unfolding run by (auto split: sum.splits)
  next
    case True
    then have t: "t = set_conn_data (he_recovery_row env (hd_tick s2) (conn_data s2)) s2"
      using assms(1) unfolding run by auto
    have "hd_conn s2 = Some (hd_live s)" using f True by (auto simp: s2 s0_def)
    moreover have "hd_data s2 = hd_data s" using f by (simp add: s2 s0_def)
    ultimately show ?thesis
      using base by (auto simp: t recovered_def set_conn_data_def conn_data_def fenced_def)
  qed
qed

lemma lock_recovering_frame:
  assumes "lock_recovering env s = (r, t)" and "fenced env s"
  shows "recovered env s t \<and> fenced env t"
proof (cases "hd_poisoned s")
  case True
  have "recover_from_poison env (s\<lparr>hd_poisoned := False\<rparr>) = (r, t)"
    using assms(1) True by (simp add: lock_recovering_def io_bind_def io_get_def io_modify_def)
  from recover_from_poison_frame [OF this] assms(2) show ?thesis
    by (auto simp: recovered_def fenced_def)
next
  case False
  then show ?thesis
    using assms by (auto simp: lock_recovering_def io_bind_def io_get_def io_return_def recovered_def)
qed

lemma lock_recovering_clean:
  "\<not> hd_poisoned s \<Longrightarrow> lock_recovering env s = (Inr (), s)"
  by (simp add: lock_recovering_def io_bind_def io_get_def io_return_def)

lemma recovered_then_open:
  assumes "recovered env s s1" and "hd_live t = hd_live s1" "hd_data t = hd_data s1"
    "hd_stable t = hd_stable s1" "hd_mirror t = hd_mirror s1" "hd_poisoned t = hd_poisoned s1"
    "hd_last_ack t = hd_last_ack s1" "hd_conn t = hd_conn s1 \<or> hd_conn t = None \<or> hd_conn t = Some (hd_live s1)"
  shows "recovered env s t"
  using assms by (auto simp: recovered_def)

lemma handle_write_frame:
  assumes "handle_write env s = (r, t)" and "fenced env s"
  shows "recovered env s t \<and> fenced env t \<and> (r = Inr () \<longrightarrow> windowed env t)"
proof -
  obtain r1 s1 where 1: "lock_recovering env s = (r1, s1)" by fastforce
  note f1 = lock_recovering_frame [OF 1 assms(2)]
  show ?thesis
  proof (cases r1)
    case (Inl e)
    then show ?thesis using assms(1) 1 f1 by (auto simp: handle_write_def io_bind_def)
  next
    case (Inr u)
    then have 2: "ensure_open env s1 = (r, t)" using assms(1) 1 by (simp add: handle_write_def io_bind_def)
    note f2 = ensure_open_frame [OF 2]
    have "recovered env s t" by (rule recovered_then_open [OF conjunct1 [OF f1]]) (use f2 in auto)
    then show ?thesis using f1 f2 by (auto simp: windowed_def recovered_def)
  qed
qed

lemma guard_drop_swapped:
  assumes "live_file_swapped env s"
  shows "guard_drop env s =
    (Inr (), s\<lparr>hd_last_ack := Some (Inl DbLiveFileSwapped), hd_conn := None, hd_fence := None\<rparr>)"
  using assms by (simp add: guard_drop_def io_bind_def io_get_def io_modify_def)

text \<open>After the flush: what is parked, the mirror, and the state before a checkpoint.\<close>

definition dropped :: "'d handle_env \<Rightarrow> db_error + unit \<Rightarrow> 'd db_handle \<Rightarrow> 'd db_handle" where
  "dropped env ack s =
     (let s1 = park_ack ack s;
          s2 = (if is_ok ack then handle_sync_mirror env s1 else s1)
      in s2\<lparr>hd_debouncer := note_write (hd_debouncer s2)\<rparr>)"

lemma guard_drop_run:
  assumes "\<not> live_file_swapped env s"
  obtains ack s1 where "fsync_data_paths env s = (ack, s1)"
    and "guard_drop env s = (Inr (), dropped env ack s1) \<or>
      (\<exists>ok t. run_durable_checkpoint_locked env (dropped env ack s1) = (Inr ok, t) \<and>
              guard_drop env s = (Inr (), t))"
proof -
  obtain ack s1 where 1: "fsync_data_paths env s = (ack, s1)" by fastforce
  obtain ok t where 2: "run_durable_checkpoint_locked env (dropped env ack s1) = (Inr ok, t)"
    using run_checkpoint_keeps [of env "dropped env ack s1"] by (metis surj_pair)
  have "guard_drop env s =
      (if hc_checkpoint_enabled (he_config env) \<and>
          should_checkpoint_now (he_now env (hd_tick (dropped env ack s1))) (hd_debouncer (dropped env ack s1))
       then (Inr (), t) else (Inr (), dropped env ack s1))"
    using assms 1 2
    by (simp add: guard_drop_def io_bind_def io_get_def io_modify_def io_attempt_def io_return_def
        dropped_def Let_def)
  then show ?thesis using that 1 2 by auto
qed

lemma dropped_frame:
  "hd_live (dropped env ack s) = hd_live s" "hd_data (dropped env ack s) = hd_data s"
  "hd_stable (dropped env ack s) = hd_stable s" "hd_poisoned (dropped env ack s) = hd_poisoned s"
  "hd_conn (dropped env ack s) = hd_conn s" "hd_fence (dropped env ack s) = hd_fence s"
  by (auto simp: dropped_def Let_def park_ack_def handle_sync_mirror_def split: option.splits sum.splits)

lemma dropped_ack:
  "hd_last_ack (dropped env ack s) =
     (case hd_last_ack s of Some (Inl e) \<Rightarrow> Some (Inl e) | _ \<Rightarrow> Some ack)"
  by (auto simp: dropped_def Let_def park_ack_def handle_sync_mirror_def split: option.splits sum.splits)

lemma dropped_mirror:
  "hd_mirror (dropped env ack s) = hd_mirror s \<or>
   is_ok ack \<and> hd_conn s \<noteq> None \<and>
   (\<exists>n. hd_mirror (dropped env ack s) = he_sync_mirror env n (conn_data s) (hd_mirror s))"
  by (auto simp: dropped_def Let_def park_ack_def handle_sync_mirror_def conn_data_def
      split: option.splits sum.splits)

lemma guard_drop_poison: "guard_drop env s = (r, t) \<Longrightarrow> hd_poisoned t = hd_poisoned s"
proof (cases "live_file_swapped env s")
  case False
  assume g: "guard_drop env s = (r, t)"
  obtain ack s1 where 1: "fsync_data_paths env s = (ack, s1)"
    and 2: "guard_drop env s = (Inr (), dropped env ack s1) \<or>
      (\<exists>ok t. run_durable_checkpoint_locked env (dropped env ack s1) = (Inr ok, t) \<and>
              guard_drop env s = (Inr (), t))"
    by (rule guard_drop_run [OF False])
  have "hd_poisoned s1 = hd_poisoned s"
    using fsync_data_paths_frame [OF 1] by (simp add: same_but_flushed_def)
  then show ?thesis
    using 2 g run_checkpoint_keeps by (fastforce simp: dropped_frame ack_kept_def)
qed (auto simp: guard_drop_swapped)

section \<open>An acknowledged write\<close>

lemma external_swaps_frame:
  "hd_conn (fold external_swap xs s) = hd_conn s \<and> hd_fence (fold external_swap xs s) = hd_fence s \<and>
   hd_last_ack (fold external_swap xs s) = hd_last_ack s \<and>
   hd_poisoned (fold external_swap xs s) = hd_poisoned s \<and>
   hd_mirror (fold external_swap xs s) = hd_mirror s"
  by (induction xs arbitrary: s) (simp_all add: external_swap_def)

lemma external_swaps_live:
  "hd_live (fold external_swap xs s) = (if xs = [] then hd_live s else fst (last xs))"
  by (induction xs arbitrary: s) (auto simp: external_swap_def)

lemma fenced_swaps: "fenced env (fold external_swap xs s) \<longleftrightarrow> fenced env s"
  using external_swaps_frame [of xs s] by (simp add: fenced_def)

lemma guard_drop_parks:
  assumes fin: "finishes_installs env" and g: "guard_drop env s = (r, t)" and nf: "hd_last_ack s = None \<or> hd_last_ack s = Some (Inr ())"
    and ack: "hd_last_ack t = Some (Inr ())"
  shows "\<not> live_file_swapped env s \<and> hd_data t (hd_live t) = hd_data s (hd_live s) \<and>
    hd_stable t (hd_live t) = hd_data s (hd_live s)"
proof (cases "live_file_swapped env s")
  case True
  then show ?thesis using g ack by (auto simp: guard_drop_swapped)
next
  case False
  obtain a s1 where 1: "fsync_data_paths env s = (a, s1)"
    and 2: "guard_drop env s = (Inr (), dropped env a s1) \<or>
      (\<exists>ok t. run_durable_checkpoint_locked env (dropped env a s1) = (Inr ok, t) \<and>
              guard_drop env s = (Inr (), t))"
    by (rule guard_drop_run [OF False])
  note f = fsync_data_paths_frame [OF 1]
  have same: "hd_last_ack s1 = hd_last_ack s" "hd_live s1 = hd_live s" "hd_data s1 = hd_data s"
    using f by (simp_all add: same_but_flushed_def)
  from 2 have 3: "t = dropped env a s1 \<or>
      (\<exists>ok. run_durable_checkpoint_locked env (dropped env a s1) = (Inr ok, t))"
    using g by auto
  then have "hd_last_ack t = hd_last_ack (dropped env a s1)"
    using run_checkpoint_keeps by (fastforce simp: ack_kept_def)
  then have a: "a = Inr ()"
    using ack nf by (auto simp: dropped_ack same split: option.splits sum.splits)
  have st: "hd_stable (dropped env a s1) = (hd_stable s)(hd_live s := hd_data s (hd_live s))"
    using f a by (simp add: dropped_frame)
  from 3 show ?thesis
  proof
    assume "t = dropped env a s1"
    then show ?thesis using False st by (simp add: dropped_frame same)
  next
    assume "\<exists>ok. run_durable_checkpoint_locked env (dropped env a s1) = (Inr ok, t)"
    then have "checkpointed (dropped env a s1) t" using run_checkpoint_frame [OF fin] by blast
    then show ?thesis using False st by (auto simp: checkpointed_def dropped_frame same)
  qed
qed

lemma durable_ack_claims:
  assumes "\<not> hd_poisoned s" and "durable_ack env s = (Inr (), t)"
  shows "(hd_last_ack s = Some (Inr ()) \<and> t = s\<lparr>hd_last_ack := None\<rparr>) \<or>
    (hd_last_ack s = None \<and> \<not> live_file_swapped env s \<and>
     fsync_data_paths env (s\<lparr>hd_last_ack := None\<rparr>) = (Inr (), t))"
  using assms
  by (auto simp: durable_ack_def lock_recovering_clean io_bind_def io_get_def io_modify_def
      io_lift_def io_fail_def split: option.splits sum.splits if_splits)

lemma guard_drop_parks_something:
  assumes g: "guard_drop env s = (r, t)"
  shows "hd_last_ack t \<noteq> None"
proof (cases "live_file_swapped env s")
  case True
  then show ?thesis using g by (auto simp: guard_drop_swapped)
next
  case False
  obtain a s1 where 1: "fsync_data_paths env s = (a, s1)"
    and 2: "guard_drop env s = (Inr (), dropped env a s1) \<or>
      (\<exists>ok t. run_durable_checkpoint_locked env (dropped env a s1) = (Inr ok, t) \<and>
              guard_drop env s = (Inr (), t))"
    by (rule guard_drop_run [OF False])
  have "hd_last_ack (dropped env a s1) \<noteq> None"
    by (simp add: dropped_ack split: option.splits sum.splits)
  then show ?thesis
    using 2 g run_checkpoint_keeps by (fastforce simp: ack_kept_def)
qed

text \<open>An unclaimed failure stays parked, so the next acknowledgement reports it.\<close>

lemma guard_drop_keeps_failure:
  assumes g: "guard_drop env s = (r, t)" and f: "hd_last_ack s = Some (Inl e)"
  shows "\<exists>e'. hd_last_ack t = Some (Inl e')"
proof (cases "live_file_swapped env s")
  case True
  then show ?thesis using g by (auto simp: guard_drop_swapped)
next
  case False
  obtain a s1 where 1: "fsync_data_paths env s = (a, s1)"
    and 2: "guard_drop env s = (Inr (), dropped env a s1) \<or>
      (\<exists>ok t. run_durable_checkpoint_locked env (dropped env a s1) = (Inr ok, t) \<and>
              guard_drop env s = (Inr (), t))"
    by (rule guard_drop_run [OF False])
  have "hd_last_ack s1 = Some (Inl e)"
    using fsync_data_paths_frame [OF 1] f by (simp add: same_but_flushed_def)
  then have "hd_last_ack (dropped env a s1) = Some (Inl e)" by (simp add: dropped_ack)
  then show ?thesis
    using 2 g run_checkpoint_keeps by (fastforce simp: ack_kept_def)
qed

lemma ack_after_drop:
  assumes fin: "finishes_installs env" and g: "guard_drop env s = (r, t)" and p: "\<not> hd_poisoned s"
    and a: "durable_ack env t = (Inr (), u)"
  shows "\<not> live_file_swapped env s \<and> hd_live u = hd_live t \<and>
    hd_data u (hd_live u) = hd_data s (hd_live s) \<and> hd_stable u (hd_live u) = hd_data s (hd_live s)"
proof -
  have "\<not> hd_poisoned t" using guard_drop_poison [OF g] p by simp
  from durable_ack_claims [OF this a] guard_drop_parks_something [OF g]
  have c: "hd_last_ack t = Some (Inr ())" "u = t\<lparr>hd_last_ack := None\<rparr>" by auto
  have "hd_last_ack s = None \<or> hd_last_ack s = Some (Inr ())"
  proof (cases "hd_last_ack s")
    case (Some q)
    then show ?thesis using guard_drop_keeps_failure [OF g] c(1) by (cases q) auto
  qed simp
  from guard_drop_parks [OF fin g this c(1)] show ?thesis by (simp add: c(2))
qed

text \<open>C4: When the window of a write is followed by its acknowledgement and that succeeds, the
  content the transaction produced is what the database's path names, in the running system and on
  stable storage, whatever was parked before and whether or not a checkpoint replaced the file. It
  holds on unix when the live file can be examined each time the handle looks at it: then whatever
  files another process puts at the path before the window and inside it (a file put there inside
  the window is a new one: its inode is not the one the connection holds). And it holds everywhere
  when no other process puts a file at the path and the handle's connection, if open, is on the
  live file. In both cases a checkpoint that got past its rename is taken to finish: the old file's
  log is removed, and the directory opens and is flushed. The other steps of a checkpoint may
  fail.\<close>

theorem acked_write_is_durable:
  assumes place: "he_unix env \<and> (\<forall>n. he_stat env n) \<or>
      xs = [] \<and> ys = [] \<and> (hd_conn s = None \<or> hd_conn s = Some (hd_live s))"
    and fin: "finishes_installs env" and fen: "fenced env s"
    and w: "handle_write env (fold external_swap xs s) = (Inr (), s1)"
    and tx: "transact f s1 = (Inr a, s2)"
    and fresh: "\<forall>y \<in> set ys. hd_conn s1 \<noteq> Some (fst y)"
    and g: "guard_drop env (fold external_swap ys s2) = (r, s3)"
    and ack: "durable_ack env s3 = (Inr (), s4)"
  shows "\<exists>d. f (conn_data s1) = Inr (a, d) \<and>
    hd_data s4 (hd_live s4) = d \<and> hd_stable s4 (hd_live s4) = d"
proof -
  obtain i where i: "hd_conn s1 = Some i" "\<not> hd_poisoned s1"
    using handle_write_frame [OF w] fen by (auto simp: fenced_swaps windowed_def)
  obtain d where d: "f (conn_data s1) = Inr (a, d)" "s2 = set_conn_data d s1"
    using tx by (auto simp: transact_def split: sum.splits)
  define u where "u = fold external_swap ys s2"
  have u: "hd_fence u = hd_fence s1" "hd_conn u = Some i" "\<not> hd_poisoned u"
    using external_swaps_frame [of ys s2] i by (simp_all add: u_def d set_conn_data_def)
  from ack_after_drop [OF fin g [folded u_def] u(3) ack]
  have c: "\<not> live_file_swapped env u" "hd_data s4 (hd_live s4) = hd_data u (hd_live u)"
    "hd_stable s4 (hd_live s4) = hd_data u (hd_live u)" by blast+
  have "ys = [] \<and> hd_live u = i"
    using place
  proof
    assume id: "he_unix env \<and> (\<forall>n. he_stat env n)"
    have "fenced env s1" using handle_write_frame [OF w] fen by (simp add: fenced_swaps)
    then have "hd_fence s1 = Some i" using id i by (simp add: fenced_def identified_def)
    then have live: "hd_live u = i" using c(1) u id by (simp add: live_file_swapped_def file_id_def)
    moreover have "ys = []"
    proof (rule ccontr)
      assume "ys \<noteq> []"
      then have "fst (last ys) = i" using live by (simp add: u_def external_swaps_live)
      then show False using fresh \<open>ys \<noteq> []\<close> i(1) last_in_set by fastforce
    qed
    ultimately show ?thesis by simp
  next
    assume alone: "xs = [] \<and> ys = [] \<and> (hd_conn s = None \<or> hd_conn s = Some (hd_live s))"
    then have "recovered env s s1" using handle_write_frame [of env s] w fen by simp
    then show ?thesis
      using alone i by (auto simp: recovered_def u_def d set_conn_data_def)
  qed
  then have "hd_data u (hd_live u) = d"
    using i by (auto simp: u_def d set_conn_data_def)
  then show ?thesis using c d by auto
qed

section \<open>The mirror and stable storage\<close>

text \<open>
  For a log that only grows: \<open>le\<close> orders contents, transactions and the row of a recovery
  only extend, and a mirror that is not ahead of the content it is given is not ahead after a sync
  either, which may have appended a part of what is missing; installations that got past their
  rename are finished.
\<close>

definition log_order :: "('d \<Rightarrow> 'd \<Rightarrow> bool) \<Rightarrow> 'd handle_env \<Rightarrow> bool" where
  "log_order le env \<longleftrightarrow>
     (\<forall>d. le d d) \<and> (\<forall>a b c. le a b \<longrightarrow> le b c \<longrightarrow> le a c) \<and>
     (\<forall>n d. le d (he_recovery_row env n d)) \<and>
     (\<forall>n d m. le m d \<longrightarrow> le (he_sync_mirror env n d m) d) \<and> finishes_installs env"

definition behind :: "('d \<Rightarrow> 'd \<Rightarrow> bool) \<Rightarrow> 'd handle_env \<Rightarrow> 'd db_handle \<Rightarrow> bool" where
  "behind le env s \<longleftrightarrow>
     fenced env s \<and> (\<forall>i. hd_conn s = Some i \<longrightarrow> i = hd_live s) \<and>
     le (hd_mirror s) (hd_stable s (hd_live s)) \<and> (\<forall>i. le (hd_stable s i) (hd_data s i))"

text \<open>
  The life of a handle that no other process disturbs: windows whose transactions extend the
  content, acknowledgements, reads, checkpoints, a panic in a window, and a crash, after which
  every file has the content of stable storage and a new handle is opened.
\<close>

inductive handle_life :: "('d \<Rightarrow> 'd \<Rightarrow> bool) \<Rightarrow> 'd handle_env \<Rightarrow> 'd db_handle \<Rightarrow> 'd db_handle \<Rightarrow> bool"
  for le env s0 where
  hl_start: "handle_life le env s0 s0"
| hl_write: "handle_life le env s0 s \<Longrightarrow> (\<forall>d a d'. f d = Inr (a, d') \<longrightarrow> le d d') \<Longrightarrow>
    db_write env err f s = (r :: db_error + 'd, t) \<Longrightarrow> handle_life le env s0 t"
| hl_ack: "handle_life le env s0 s \<Longrightarrow> durable_ack env s = (r, t) \<Longrightarrow> handle_life le env s0 t"
| hl_read: "handle_life le env s0 s \<Longrightarrow> handle_read env s = (r, t) \<Longrightarrow> handle_life le env s0 t"
| hl_idle: "handle_life le env s0 s \<Longrightarrow> checkpoint_on_idle env s = (r, t) \<Longrightarrow> handle_life le env s0 t"
| hl_checkpoint: "handle_life le env s0 s \<Longrightarrow> checkpoint_now env s = (r, t) \<Longrightarrow> handle_life le env s0 t"
| hl_panic: "handle_life le env s0 s \<Longrightarrow> handle_write env s = (Inr (), t) \<Longrightarrow>
    le (conn_data t) d \<Longrightarrow> handle_life le env s0 (panic_in_window env (set_conn_data d t))"
| hl_crash: "handle_life le env s0 s \<Longrightarrow>
    handle_open env refused (hd_live s) (hd_stable s) (hd_stable s) (hd_mirror s) n = Inr t \<Longrightarrow>
    handle_life le env s0 t"

lemma behindD:
  assumes "behind le env s"
  shows "fenced env s" "hd_conn s = Some i \<Longrightarrow> i = hd_live s"
    "le (hd_mirror s) (hd_stable s (hd_live s))" "le (hd_stable s i) (hd_data s i)"
  using assms unfolding behind_def by blast+

lemma behindI:
  assumes "fenced env s" "hd_conn s = None \<or> hd_conn s = Some (hd_live s)"
    "le (hd_mirror s) (hd_stable s (hd_live s))" "\<And>i. le (hd_stable s i) (hd_data s i)"
  shows "behind le env s"
  using assms unfolding behind_def by fastforce

lemma behind_conn: "behind le env s \<Longrightarrow> hd_conn s = None \<or> hd_conn s = Some (hd_live s)"
  by (cases "hd_conn s") (auto dest: behindD(2))

lemma log_orderD:
  assumes "log_order le env"
  shows "le d d" "le a b \<Longrightarrow> le b c \<Longrightarrow> le a c" "le d (he_recovery_row env n d)"
    "le m d \<Longrightarrow> le (he_sync_mirror env n d m) d" "finishes_installs env"
  using assms unfolding log_order_def by blast+

lemma not_swapped_behind:
  assumes "behind le env s" and "hd_conn s \<noteq> None"
  shows "\<not> live_file_swapped env s"
  using assms by (auto simp: behind_def fenced_def live_file_swapped_def file_id_def
      split: option.splits if_splits)

lemma behind_recovered:
  assumes lo: "log_order le env" and b: "behind le env s" and r: "recovered env s t" and f: "fenced env t"
  shows "behind le env t"
proof (rule behindI [OF f])
  note same = r [unfolded recovered_def]
  show "hd_conn t = None \<or> hd_conn t = Some (hd_live t)" using same behind_conn [OF b] by auto
  show "le (hd_mirror t) (hd_stable t (hd_live t))" using same behindD(3) [OF b] by simp
  fix i
  have base: "le (hd_stable s i) (hd_data s i)" by (rule behindD(4) [OF b])
  have "le (hd_stable s i) (((hd_data s)(hd_live s := he_recovery_row env n (hd_data s (hd_live s)))) i)" for n
    using base log_orderD(2) [OF lo base log_orderD(3) [OF lo]] by (cases "i = hd_live s") simp_all
  then show "le (hd_stable t i) (hd_data t i)" using same base by fastforce
qed

lemma behind_live: "log_order le env \<Longrightarrow> behind le env s \<Longrightarrow> le (hd_mirror s) (hd_data s (hd_live s))"
  by (rule log_orderD(2) [OF _ behindD(3) behindD(4)])

lemma behind_checkpointed:
  assumes lo: "log_order le env" and b: "behind le env s" and c: "checkpointed s t" and f: "fenced env t"
  shows "behind le env t"
proof -
  have conn: "hd_conn t = None \<or> hd_conn t = Some (hd_live t)" and mir: "hd_mirror t = hd_mirror s"
    using c by (auto simp: checkpointed_def)
  from c consider "hd_live t = hd_live s" "hd_data t = hd_data s" "hd_stable t = hd_stable s"
    | "hd_data t = (hd_data s)(hd_live t := hd_data s (hd_live s))"
        "hd_stable t = (hd_stable s)(hd_live t := hd_data s (hd_live s))"
    unfolding checkpointed_def by blast
  then show ?thesis
  proof cases
    case 1
    show ?thesis
      by (rule behindI [OF f conn]) (simp_all add: 1 mir behindD(3,4) [OF b])
  next
    case 2
    show ?thesis
      by (rule behindI [OF f conn])
        (simp_all add: 2 mir behind_live [OF lo b] behindD(4) [OF b] log_orderD(1) [OF lo])
  qed
qed

lemma behind_flushed:
  assumes lo: "log_order le env" and b: "behind le env s"
    and f: "same_but_flushed s t \<and>
      hd_stable t = (case r of Inl e \<Rightarrow> hd_stable s
                     | Inr _ \<Rightarrow> (hd_stable s)(hd_live s := hd_data s (hd_live s)))"
  shows "behind le env t"
proof (rule behindI)
  note same = conjunct1 [OF f, unfolded same_but_flushed_def]
  show "fenced env t" using behindD(1) [OF b] same by (simp add: fenced_def)
  show "hd_conn t = None \<or> hd_conn t = Some (hd_live t)" using same behind_conn [OF b] by simp
  show "le (hd_mirror t) (hd_stable t (hd_live t))"
    using same conjunct2 [OF f] behindD(3) [OF b] behind_live [OF lo b] by (cases r) simp_all
  show "le (hd_stable t i) (hd_data t i)" for i
    using same conjunct2 [OF f] behindD(4) [OF b] log_orderD(1) [OF lo] by (cases r) simp_all
qed

lemma behind_tick [simp]: "behind le env (s\<lparr>hd_tick := n\<rparr>) \<longleftrightarrow> behind le env s"
  by (simp add: behind_def fenced_def)

lemma behind_ack [simp]: "behind le env (s\<lparr>hd_last_ack := a\<rparr>) \<longleftrightarrow> behind le env s"
  by (simp add: behind_def fenced_def)

lemma behind_poison [simp]: "behind le env (s\<lparr>hd_poisoned := p\<rparr>) \<longleftrightarrow> behind le env s"
  by (simp add: behind_def fenced_def)

lemma behind_guard_drop:
  assumes lo: "log_order le env" and b: "behind le env s" and g: "guard_drop env s = (r, t)"
  shows "behind le env t"
proof (cases "live_file_swapped env s")
  case True
  then show ?thesis using g b by (auto simp: guard_drop_swapped behind_def fenced_def)
next
  case False
  obtain a s1 where 1: "fsync_data_paths env s = (a, s1)"
    and 2: "guard_drop env s = (Inr (), dropped env a s1) \<or>
      (\<exists>ok t. run_durable_checkpoint_locked env (dropped env a s1) = (Inr ok, t) \<and>
              guard_drop env s = (Inr (), t))"
    by (rule guard_drop_run [OF False])
  note f = fsync_data_paths_frame [OF 1]
  have b1: "behind le env s1" by (rule behind_flushed [OF lo b f])
  have b2: "behind le env (dropped env a s1)"
  proof -
    consider "hd_mirror (dropped env a s1) = hd_mirror s1"
      | n where "is_ok a" "hd_conn s1 \<noteq> None"
        "hd_mirror (dropped env a s1) = he_sync_mirror env n (conn_data s1) (hd_mirror s1)"
      using dropped_mirror [of env a s1] by blast
    then have "le (hd_mirror (dropped env a s1)) (hd_stable s1 (hd_live s1))"
    proof cases
      case 2
      then have "hd_conn s1 = Some (hd_live s1)" using behindD(2) [OF b1] by auto
      then have "conn_data s1 = hd_stable s1 (hd_live s1)"
        using 2(1) f by (auto simp: is_ok_iff same_but_flushed_def conn_data_def)
      then show ?thesis
        using 2(3) log_orderD(4) [OF lo, of "hd_mirror s1" "conn_data s1" n] behindD(3) [OF b1] by simp
    qed (use behindD(3) [OF b1] in simp)
    then show ?thesis
      using behindD(1,4) [OF b1] behind_conn [OF b1]
      by (intro behindI) (simp_all add: dropped_frame fenced_def)
  qed
  from 2 consider "t = dropped env a s1"
    | ok where "run_durable_checkpoint_locked env (dropped env a s1) = (Inr ok, t)"
    using g by auto
  then show ?thesis
  proof cases
    case 2
    then show ?thesis
      using behind_checkpointed [OF lo b2] run_checkpoint_frame [OF log_orderD(5) [OF lo]] by blast
  qed (use b2 in simp)
qed

lemma behind_lock_recovering:
  assumes lo: "log_order le env" and b: "behind le env s" and l: "lock_recovering env s = (r, t)"
  shows "behind le env t"
  using behind_recovered [OF lo b] lock_recovering_frame [OF l behindD(1) [OF b]] by blast

lemma behind_ensure_open:
  assumes b: "behind le env s" and l: "ensure_open env s = (r, t)"
  shows "behind le env t"
proof (rule behindI)
  note f = ensure_open_frame [OF l]
  show "fenced env t" using f behindD(1) [OF b] by blast
  show "hd_conn t = None \<or> hd_conn t = Some (hd_live t)" using f behind_conn [OF b] by metis
  show "le (hd_mirror t) (hd_stable t (hd_live t))" using f behindD(3) [OF b] by simp
  show "le (hd_stable t i) (hd_data t i)" for i using f behindD(4) [OF b] by simp
qed

lemma behind_handle_write:
  assumes lo: "log_order le env" and b: "behind le env s" and l: "handle_write env s = (r, t)"
  shows "behind le env t"
  using behind_recovered [OF lo b] handle_write_frame [OF l behindD(1) [OF b]] by blast

lemma behind_set_conn_data:
  assumes lo: "log_order le env" and b: "behind le env s" and d: "le (conn_data s) d"
  shows "behind le env (set_conn_data d s)"
proof -
  have base: "le (hd_stable s i) (hd_data s i)" for i by (rule behindD(4) [OF b])
  have "le (hd_stable s (the (hd_conn s))) d"
    using log_orderD(2) [OF lo base] d by (simp add: conn_data_def)
  then show ?thesis
    using behindD(1,3) [OF b] behind_conn [OF b] base
    by (intro behindI) (simp_all add: set_conn_data_def fenced_def)
qed

lemma behind_transact:
  assumes lo: "log_order le env" and b: "behind le env s" and t: "transact f s = (r, t)"
    and mono: "\<forall>d a d'. f d = Inr (a, d') \<longrightarrow> le d d'"
  shows "behind le env t"
proof (cases "f (conn_data s)")
  case (Inl e)
  then show ?thesis using t b by (simp add: transact_def)
next
  case (Inr p)
  obtain a d where p: "p = (a, d)" by fastforce
  then have "le (conn_data s) d" using mono Inr by blast
  from behind_set_conn_data [OF lo b this] show ?thesis using t Inr p by (auto simp: transact_def)
qed

lemma behind_db_write:
  assumes lo: "log_order le env" and b: "behind le env s"
    and mono: "\<forall>d a d'. f d = Inr (a, d') \<longrightarrow> le d d'"
    and w: "db_write env err f s = (r, t)"
  shows "behind le env t"
proof -
  obtain r1 s1 where 1: "handle_write env s = (r1, s1)" by fastforce
  have b1: "behind le env s1" by (rule behind_handle_write [OF lo b 1])
  show ?thesis
  proof (cases r1)
    case (Inl e)
    then show ?thesis using w 1 b1 by (simp add: db_write_def io_bind_def io_map_err_def)
  next
    case (Inr u)
    obtain r2 s2 where 2: "transact f s1 = (r2, s2)" by fastforce
    obtain r3 s3 where 3: "guard_drop env s2 = (r3, s3)" by fastforce
    have "t = s3"
      using w 1 2 3 Inr by (simp add: db_write_def io_bind_def io_map_err_def in_window_def)
    then show ?thesis
      using behind_guard_drop [OF lo behind_transact [OF lo b1 2 mono] 3] by simp
  qed
qed

lemma behind_durable_ack:
  assumes lo: "log_order le env" and b: "behind le env s" and w: "durable_ack env s = (r, t)"
  shows "behind le env t"
proof -
  obtain r1 s1 where 1: "lock_recovering env s = (r1, s1)" by fastforce
  have b1: "behind le env s1" by (rule behind_lock_recovering [OF lo b 1])
  obtain r2 s2 where 2: "fsync_data_paths env (s1\<lparr>hd_last_ack := None\<rparr>) = (r2, s2)" by fastforce
  have "behind le env (s1\<lparr>hd_last_ack := None\<rparr>)" using b1 by simp
  from behind_flushed [OF lo this fsync_data_paths_frame [OF 2]] have b2: "behind le env s2" .
  show ?thesis
    using w 1 2 b1 b2
    by (auto simp: durable_ack_def io_bind_def io_get_def io_modify_def io_lift_def io_fail_def
        split: sum.splits option.splits if_splits)
qed

lemma behind_read:
  assumes lo: "log_order le env" and b: "behind le env s" and w: "handle_read env s = (r, t)"
  shows "behind le env t"
proof -
  obtain r1 s1 where 1: "lock_recovering env s = (r1, s1)" by fastforce
  have b1: "behind le env s1" by (rule behind_lock_recovering [OF lo b 1])
  define s2 where "s2 = (if live_file_swapped env s1 then s1\<lparr>hd_conn := None, hd_fence := None\<rparr> else s1)"
  have b2: "behind le env s2" using b1 by (auto simp: s2_def behind_def fenced_def)
  obtain r3 s3 where 3: "ensure_open env s2 = (r3, s3)" by fastforce
  have b3: "behind le env s3" by (rule behind_ensure_open [OF b2 3])
  obtain r4 s4 where 4: "answer (he_clone env) DbDuck s3 = (r4, s4)" by fastforce
  have b4: "behind le env s4" using b3 answer_frame [OF 4] by simp
  show ?thesis
    using w 1 3 4 b1 b3 b4
    by (auto simp: handle_read_def io_bind_def io_get_def io_modify_def s2_def [symmetric]
        split: sum.splits)
qed

lemma behind_run_checkpoint:
  assumes lo: "log_order le env" and b: "behind le env s"
    and w: "run_durable_checkpoint_locked env s = (r, t)"
  shows "behind le env t"
  using behind_checkpointed [OF lo b] run_checkpoint_frame [OF log_orderD(5) [OF lo] w] by blast

lemma behind_checkpoint_now:
  assumes lo: "log_order le env" and b: "behind le env s" and w: "checkpoint_now env s = (r, t)"
  shows "behind le env t"
proof -
  obtain r1 s1 where 1: "lock_recovering env s = (r1, s1)" by fastforce
  have b1: "behind le env s1" by (rule behind_lock_recovering [OF lo b 1])
  show ?thesis
    using w 1 b1 behind_run_checkpoint [OF lo b1]
    by (auto simp: checkpoint_now_def io_bind_def io_attempt_def io_return_def split: sum.splits)
qed

lemma behind_idle:
  assumes lo: "log_order le env" and b: "behind le env s" and w: "checkpoint_on_idle env s = (r, t)"
  shows "behind le env t"
proof -
  obtain r1 s1 where 1: "lock_recovering env s = (r1, s1)" by fastforce
  have b1: "behind le env s1" by (rule behind_lock_recovering [OF lo b 1])
  obtain r2 s2 where 2: "run_durable_checkpoint_locked env s1 = (r2, s2)" by fastforce
  have b2: "behind le env s2" by (rule behind_run_checkpoint [OF lo b1 2])
  show ?thesis
    using w 1 2 b b1 b2
    by (auto simp: checkpoint_on_idle_def io_bind_def io_attempt_def io_return_def io_get_def
        split: sum.splits if_splits)
qed

lemma behind_panic:
  assumes lo: "log_order le env" and b: "behind le env s"
  shows "behind le env (panic_in_window env s)"
proof -
  obtain r t where "guard_drop env s = (r, t)" by fastforce
  with behind_guard_drop [OF lo b this] show ?thesis by (simp add: panic_in_window_def)
qed

lemma behind_open:
  assumes "handle_open env refused live files flushed mirror n = Inr t"
    and "le mirror (flushed live)" and "\<forall>i. le (flushed i) (files i)"
  shows "behind le env t"
  using assms by (auto simp: handle_open_def res_simps behind_def fenced_def identified_def split: if_splits)

lemma behind_life:
  assumes "handle_life le env s0 s" and lo: "log_order le env" and b: "behind le env s0"
  shows "behind le env s"
  using assms(1)
proof induction
  case hl_start
  show ?case by (rule b)
next
  case (hl_write s f err r t)
  show ?case by (rule behind_db_write [OF lo hl_write.IH hl_write.hyps(2,3)])
next
  case (hl_ack s r t)
  show ?case by (rule behind_durable_ack [OF lo hl_ack.IH hl_ack.hyps(2)])
next
  case (hl_read s r t)
  show ?case by (rule behind_read [OF lo hl_read.IH hl_read.hyps(2)])
next
  case (hl_idle s r t)
  show ?case by (rule behind_idle [OF lo hl_idle.IH hl_idle.hyps(2)])
next
  case (hl_checkpoint s r t)
  show ?case by (rule behind_checkpoint_now [OF lo hl_checkpoint.IH hl_checkpoint.hyps(2)])
next
  case (hl_panic s t d)
  show ?case
    by (rule behind_panic [OF lo behind_set_conn_data [OF lo behind_handle_write [OF lo hl_panic.IH hl_panic.hyps(2)] hl_panic.hyps(3)]])
next
  case (hl_crash s refused n t)
  show ?case
    by (rule behind_open [where le = le, OF hl_crash.hyps(2) behindD(3) [OF hl_crash.IH]])
      (simp add: log_orderD(1) [OF lo])
qed

text \<open>C5: The mirror is never ahead of the database: in every state of a handle's life, with
  windows, acknowledgements, reads, checkpoints, panics, flushes that fail at any path and crashes
  in between, what the mirror holds is contained in what the live file has on stable storage. So a
  crash never leaves rows in the mirror that the database has lost. (A checkpoint may fail at any
  step, but one that got past its rename is taken to finish: \<open>finishes_installs\<close>.)\<close>

theorem mirror_never_ahead:
  assumes "handle_open env refused live files files mirror n = Inr s0"
    and "log_order le env" and "le mirror (files live)"
    and "handle_life le env s0 s"
  shows "le (hd_mirror s) (hd_stable s (hd_live s)) \<and> le (hd_stable s (hd_live s)) (hd_data s (hd_live s))"
proof -
  have "behind le env s0"
    by (rule behind_open [where le = le, OF assms(1,3)]) (simp add: log_orderD(1) [OF assms(2)])
  from behind_life [OF assms(4,2) this] show ?thesis using behindD(3,4) by blast
qed

section \<open>Concrete runs\<close>

definition demo_handle_env :: "nat list handle_env" where
  "demo_handle_env = \<lparr>he_config = handle_config_default\<lparr>hc_checkpoint_enabled := False\<rparr>, he_unix = True, he_stat = (\<lambda>_. True), he_open = (\<lambda>_. None),
     he_clone = (\<lambda>_. None), he_fsync = (\<lambda>_ _. None), he_wal_exists = (\<lambda>_. True),
     he_has_parent = True, he_now = (\<lambda>n. n), he_wal = (\<lambda>_. \<lparr>wf_present = True, wf_size = 1\<rparr>), he_marked = (\<lambda>_. False),
     he_step = (\<lambda>_ _. None), he_staged = (\<lambda>n. (1, n)), he_dir_opens = (\<lambda>_. True),
     he_old_log = (\<lambda>_ d. d), he_unflushed = (\<lambda>_ _ d. d),
     he_verify = (\<lambda>_. Inr 0), he_recovery_row = (\<lambda>_ d. d), he_sync_mirror = (\<lambda>_ d _. d),
     he_sync_error = (\<lambda>_ _ _. None)\<rparr>"

definition demo_opened :: "nat list db_handle" where
  "demo_opened = \<lparr>hd_conn = Some (0, 0), hd_fence = Some (0, 0), hd_last_ack = None,
     hd_debouncer = debouncer_new 60, hd_poisoned = False, hd_synced = [], hd_live = (0, 0),
     hd_data = (\<lambda>_. []), hd_stable = (\<lambda>_. []), hd_mirror = [], hd_tick = 1\<rparr>"

definition push :: "nat \<Rightarrow> nat list \<Rightarrow> db_error + unit \<times> nat list" where
  "push x d = Inr ((), d @ [x])"

lemmas demo_handle_simps = demo_handle_env_def demo_opened_def push_def handle_write_def
  lock_recovering_def ensure_open_def io_bind_def io_get_def io_return_def io_modify_def io_fail_def
  io_attempt_def io_lift_def io_map_err_def answer_def transact_def conn_data_def set_conn_data_def
  guard_drop_def live_file_swapped_def file_id_def fsync_data_paths_def fsync_and_record_def
  stabilise_def park_ack_def handle_sync_mirror_def handle_config_default_def
  should_checkpoint_now_def note_write_def debouncer_new_def default_min_checkpoint_interval_def
  run_durable_checkpoint_locked_def live_durable_checkpoint_def durable_checkpoint_def
  stage_checkpoint_def atomic_install_def rename_staged_def checkpoint_step_def
  checkpoint_is_current_def wal_fence_violated_def
  record_checkpoint_def open_runtime_connection_def durable_ack_def external_swap_def
  handle_open_def db_write_def in_window_def

definition run_window :: "nat \<Rightarrow> (inode \<times> nat list) list \<Rightarrow> nat list db_handle \<Rightarrow> nat list db_handle" where
  \<comment> \<open>a window that pushes a number, with files put at the path inside it\<close>
  "run_window x ys s =
     snd (guard_drop demo_handle_env
       (fold external_swap ys (snd (transact (push x) (snd (handle_write demo_handle_env s))))))"

definition demo_pushed :: "nat list db_handle" where
  \<comment> \<open>a transaction inside the window\<close>
  "demo_pushed = demo_opened\<lparr>hd_data := (\<lambda>_. [])((0, 0) := [7])\<rparr>"

definition demo_dropped :: "nat list db_handle" where
  "demo_dropped = demo_pushed\<lparr>hd_last_ack := Some (Inr ()), hd_stable := (\<lambda>_. [])((0, 0) := [7]),
     hd_mirror := [7], hd_synced := [DpMain, DpWal, DpDir], hd_tick := 4,
     hd_debouncer := note_write (debouncer_new 60)\<rparr>"

lemma demo_write: "handle_write demo_handle_env demo_opened = (Inr (), demo_opened)"
  by (simp add: demo_handle_simps)

lemma demo_push: "transact (push 7) demo_opened = (Inr (), demo_pushed)"
  by (simp add: demo_handle_simps demo_pushed_def)

lemma demo_drop: "guard_drop demo_handle_env demo_pushed = (Inr (), demo_dropped)"
  by (simp add: demo_handle_simps demo_pushed_def demo_dropped_def)

lemma demo_ack: "durable_ack demo_handle_env demo_dropped = (Inr (), demo_dropped\<lparr>hd_last_ack := None\<rparr>)"
  by (simp add: demo_handle_simps demo_pushed_def demo_dropped_def)

lemma demo_window: "run_window 7 [] demo_opened = demo_dropped"
  by (simp add: run_window_def demo_write demo_push demo_drop)

theorem acked_write_is_durable_witness:
  "hd_data (snd (durable_ack demo_handle_env (run_window 7 [] demo_opened))) (0, 0) = [7] \<and>
   hd_stable (snd (durable_ack demo_handle_env (run_window 7 [] demo_opened))) (0, 0) = [7]"
proof -
  have live: "hd_live (demo_dropped\<lparr>hd_last_ack := None\<rparr>) = (0, 0)" "conn_data demo_opened = []"
    by (simp_all add: demo_dropped_def demo_pushed_def demo_opened_def conn_data_def)
  have "fenced demo_handle_env demo_opened" "he_unix demo_handle_env \<and> (\<forall>n. he_stat demo_handle_env n)"
    "finishes_installs demo_handle_env"
    by (simp_all add: fenced_def demo_opened_def demo_handle_env_def finishes_installs_def)
  then show ?thesis
    using acked_write_is_durable [where xs = "[]" and ys = "[]", OF _ _ _ _ demo_push _ _ demo_ack]
      demo_write demo_drop live
    by (simp add: demo_window demo_ack push_def)
qed

text \<open>
  A failure claimed by another writer: the first writer's commit goes to a file that was swapped
  away, the second writer's window reopens the live file and its acknowledgement reports the first
  writer's failure; the first writer then finds nothing parked, flushes the live file and is told
  its lost write is durable.
\<close>

definition demo_claimed :: "nat list db_handle" where
  \<comment> \<open>after the first writer's window\<close>
  "demo_claimed = demo_opened\<lparr>hd_conn := None, hd_fence := None,
     hd_last_ack := Some (Inl DbLiveFileSwapped), hd_live := (9, 9),
     hd_data := (\<lambda>_. [])((0, 0) := [7], (9, 9) := [1]), hd_stable := (\<lambda>_. [])((9, 9) := [1])\<rparr>"

definition demo_after :: "nat list db_handle" where
  \<comment> \<open>after the second writer's window\<close>
  "demo_after = demo_claimed\<lparr>hd_conn := Some (9, 9), hd_fence := Some (9, 9),
     hd_data := (hd_data demo_claimed)((9, 9) := [1, 8]), hd_stable := (\<lambda>_. [])((9, 9) := [1, 8]),
     hd_mirror := [1, 8], hd_synced := [DpMain, DpWal, DpDir], hd_tick := 5,
     hd_debouncer := note_write (debouncer_new 60)\<rparr>"

lemma demo_claimed_run: "run_window 7 [((9, 9), [1])] demo_opened = demo_claimed"
  by (simp add: demo_handle_simps run_window_def demo_claimed_def)

lemma demo_after_run: "run_window 8 [] demo_claimed = demo_after"
  by (simp add: demo_handle_simps run_window_def demo_claimed_def demo_after_def)

theorem failure_claimed_by_another_writer:
  defines "b \<equiv> run_window 8 [] (run_window 7 [((9, 9), [1])] demo_opened)"
  shows "fst (durable_ack demo_handle_env b) = Inl DbLiveFileSwapped"
    and "fst (durable_ack demo_handle_env (snd (durable_ack demo_handle_env b))) = Inr ()"
    and "hd_data b (hd_live b) = [1, 8]"
  unfolding b_def demo_claimed_run demo_after_run
  by (simp_all add: demo_handle_simps demo_after_def demo_claimed_def)

text \<open>
  An installation that is not finished: the rename is done, the flush of the directory fails, and
  the handle only logs the failure. The write before it is acknowledged, while a crash would leave
  what the file system kept of the two names.
\<close>

definition torn_env :: "nat list handle_env" where
  "torn_env = demo_handle_env\<lparr>he_config := handle_config_default, he_unflushed := (\<lambda>_ _ _. []),
     he_staged := (\<lambda>_. (1, 1)), he_step := (\<lambda>_ c. if c = CsFlushDir then Some ''EIO'' else None)\<rparr>"

definition torn_dropped :: "nat list db_handle" where
  \<comment> \<open>after the window\<close>
  "torn_dropped = demo_dropped\<lparr>hd_live := (1, 1), hd_conn := Some (1, 1), hd_fence := Some (1, 1),
     hd_data := (\<lambda>_. [])((0, 0) := [7], (1, 1) := [7]),
     hd_stable := (\<lambda>_. [])((0, 0) := [7], (1, 1) := []), hd_tick := 17\<rparr>"

lemma torn_drop: "guard_drop torn_env demo_pushed = (Inr (), torn_dropped)"
  by (simp add: demo_handle_simps torn_env_def demo_pushed_def torn_dropped_def demo_dropped_def)

lemma torn_ack: "durable_ack torn_env torn_dropped = (Inr (), torn_dropped\<lparr>hd_last_ack := None\<rparr>)"
  by (simp add: durable_ack_def lock_recovering_def io_bind_def io_get_def io_return_def io_modify_def
      io_lift_def torn_dropped_def demo_dropped_def demo_pushed_def demo_opened_def)

lemma unfinished_install_is_acknowledged:
  defines "u \<equiv> snd (guard_drop torn_env demo_pushed)"
  shows "fst (durable_ack torn_env u) = Inr ()" and "hd_data u (hd_live u) = [7]"
    and "hd_stable u (hd_live u) = []"
  unfolding u_def torn_drop by (simp_all add: torn_ack) (simp_all add: torn_dropped_def)

theorem mirror_never_ahead_witness:
  "(\<lambda>a b. take (length a) b = a) (hd_mirror (run_window 7 [] demo_opened))
     (hd_stable (run_window 7 [] demo_opened) (hd_live (run_window 7 [] demo_opened)))"
proof -
  let ?le = "\<lambda>a b :: nat list. take (length a) b = a"
  have lo: "log_order ?le demo_handle_env"
    by (auto simp: log_order_def demo_handle_env_def finishes_installs_def) (metis min.absorb1 length_take take_take le_cases take_all)
  have o': "handle_open demo_handle_env None (0, 0) (\<lambda>_. []) (\<lambda>_. []) [] 0 = Inr demo_opened"
    by (simp add: demo_handle_simps)
  have w: "handle_life ?le demo_handle_env demo_opened (run_window 7 [] demo_opened)"
  proof (rule hl_write [OF hl_start, where f = "\<lambda>d. Inr (d, d @ [7])" and err = "\<lambda>e. e" and
        r = "Inr []"])
    have "(transact (\<lambda>d. Inr (d, d @ [7])) demo_opened :: (db_error + _) \<times> _) = (Inr [], demo_pushed)"
      by (simp add: demo_handle_simps demo_pushed_def)
    then show "db_write demo_handle_env (\<lambda>e. e) (\<lambda>d. Inr (d, d @ [7])) demo_opened =
        (Inr [], run_window 7 [] demo_opened)"
      by (simp add: db_write_def io_bind_def io_map_err_def demo_write in_window_def demo_drop demo_window)
  qed simp
  from mirror_never_ahead [OF o' lo _ w] show ?thesis by simp
qed

end
