(* ===== verification/Nav_Invariant.thy ===== *)
theory Nav_Invariant
  imports Nav_Submission Db_Handle_Properties "HOL-Library.Sublist"
begin

text \<open>
  What holds throughout the submission commands: the handle's mirror stays behind, the ledger
  verifies, rows are only added, and a request is posted to NAV only when stable storage holds an
  attempt with that request. The facts of the handle come first, then those of the operations the
  commands are made of.
\<close>

section \<open>Windows and reads of an undisturbed handle\<close>

definition live_content :: "'d db_handle \<Rightarrow> 'd" where
  "live_content s = hd_data s (hd_live s)"

definition live_stable :: "'d db_handle \<Rightarrow> 'd" where
  "live_stable s = hd_stable s (hd_live s)"

definition settled :: "('d \<Rightarrow> 'd \<Rightarrow> bool) \<Rightarrow> 'd handle_env \<Rightarrow> 'd db_handle \<Rightarrow> bool" where
  "settled le env s \<longleftrightarrow> behind le env s \<and> \<not> hd_poisoned s"

text \<open>From one state to another the content is the same and stable storage may catch up.\<close>

definition caught_up :: "('d \<Rightarrow> 'd \<Rightarrow> bool) \<Rightarrow> 'd handle_env \<Rightarrow> 'd db_handle \<Rightarrow> 'd db_handle \<Rightarrow> bool" where
  "caught_up le env s t \<longleftrightarrow> settled le env t \<and> live_content t = live_content s \<and>
     (live_stable t = live_stable s \<or> live_stable t = live_content s)"

lemma settledD: "settled le env s \<Longrightarrow> behind le env s" "settled le env s \<Longrightarrow> \<not> hd_poisoned s"
  by (simp_all add: settled_def)

lemma stable_le_content: "behind le env s \<Longrightarrow> le (live_stable s) (live_content s)"
  unfolding live_stable_def live_content_def by (rule behindD(4))

lemma caught_up_refl: "settled le env s \<Longrightarrow> caught_up le env s s"
  by (simp add: caught_up_def)

lemma caught_up_trans: "caught_up le env s t \<Longrightarrow> caught_up le env t u \<Longrightarrow> caught_up le env s u"
  by (auto simp: caught_up_def)

lemma caught_up_stable:
  "log_order le env \<Longrightarrow> settled le env s \<Longrightarrow> caught_up le env s t \<Longrightarrow> le (live_stable s) (live_stable t)"
  using stable_le_content [of le env s] by (auto simp: caught_up_def settled_def dest: log_orderD(1))

lemma conn_is_live: "behind le env s \<Longrightarrow> hd_conn s \<noteq> None \<Longrightarrow> conn_data s = live_content s"
  using behind_conn [of le env s] by (auto simp: conn_data_def live_content_def)

lemma ensure_open_settled:
  assumes s: "settled le env s" and e: "ensure_open env s = (r, t)"
  shows "caught_up le env s t \<and> (r = Inr () \<longrightarrow> hd_conn t \<noteq> None)"
  using ensure_open_frame [OF e] behind_ensure_open [OF settledD(1) [OF s] e] settledD(2) [OF s]
  by (simp add: caught_up_def settled_def live_content_def live_stable_def)

lemma handle_write_settled:
  assumes s: "settled le env s" and e: "handle_write env s = (r, t)"
  shows "caught_up le env s t \<and> (r = Inr () \<longrightarrow> hd_conn t \<noteq> None)"
proof -
  have "ensure_open env s = (r, t)"
    using e lock_recovering_clean [OF settledD(2) [OF s]] by (simp add: handle_write_def io_bind_def)
  then show ?thesis by (rule ensure_open_settled [OF s])
qed

lemma handle_read_settled:
  assumes s: "settled le env s" and e: "handle_read env s = (r, t)"
  shows "caught_up le env s t \<and> (\<forall>d. r = Inr d \<longrightarrow> d = live_content s)"
proof -
  define s2 where "s2 = (if live_file_swapped env s then s\<lparr>hd_conn := None, hd_fence := None\<rparr> else s)"
  have b2: "behind le env s2"
    using settledD(1) [OF s] by (auto simp: s2_def behind_def fenced_def)
  then have q2: "caught_up le env s s2" "settled le env s2"
    using settledD(2) [OF s] by (auto simp: caught_up_def settled_def s2_def live_content_def live_stable_def)
  obtain r3 s3 where 3: "ensure_open env s2 = (r3, s3)" by fastforce
  note f3 = ensure_open_settled [OF q2(2) 3]
  have q3: "caught_up le env s s3" using caught_up_trans [OF q2(1) conjunct1 [OF f3]] .
  obtain r4 s4 where 4: "answer (he_clone env) DbDuck s3 = (r4, s4)" by fastforce
  have s4: "s4 = s3\<lparr>hd_tick := hd_tick s3 + 1\<rparr>" by (rule answer_frame [OF 4])
  have q4: "caught_up le env s s4"
    using q3 by (auto simp: s4 caught_up_def settled_def live_content_def live_stable_def)
  have run: "handle_read env s =
      (case r3 of Inl e \<Rightarrow> (Inl e, s3) | Inr _ \<Rightarrow>
        (case r4 of Inl e \<Rightarrow> (Inl e, s4) | Inr _ \<Rightarrow> (Inr (conn_data s4), s4)))"
    using 3 4 lock_recovering_clean [OF settledD(2) [OF s]]
    by (cases r3; cases r4)
      (simp_all add: handle_read_def io_bind_def io_get_def io_modify_def s2_def [symmetric])
  have "conn_data s4 = live_content s" if "r3 = Inr ()"
  proof -
    have "hd_conn s4 \<noteq> None" using f3 that by (simp add: s4)
    moreover have "behind le env s4" using q4 by (simp add: caught_up_def settled_def)
    ultimately have "conn_data s4 = live_content s4" by (simp add: conn_is_live)
    then show ?thesis using q4 by (simp add: caught_up_def)
  qed
  then show ?thesis
    using e q3 q4 unfolding run by (auto split: sum.splits)
qed

lemma guard_drop_settled:
  assumes lo: "log_order le env" and s: "settled le env s" and g: "guard_drop env s = (r, t)"
  shows "caught_up le env s t"
proof -
  have set: "settled le env t"
    using behind_guard_drop [OF lo settledD(1) [OF s] g] guard_drop_poison [OF g] settledD(2) [OF s]
    by (simp add: settled_def)
  show ?thesis
  proof (cases "live_file_swapped env s")
    case True
    then show ?thesis using g set
      by (auto simp: guard_drop_swapped caught_up_def live_content_def live_stable_def)
  next
    case False
    obtain a s1 where 1: "fsync_data_paths env s = (a, s1)"
      and 2: "guard_drop env s = (Inr (), dropped env a s1) \<or>
        (\<exists>ok t. run_durable_checkpoint_locked env (dropped env a s1) = (Inr ok, t) \<and>
                guard_drop env s = (Inr (), t))"
      by (rule guard_drop_run [OF False])
    note f = fsync_data_paths_frame [OF 1]
    have st: "live_stable (dropped env a s1) = live_stable s \<or>
        live_stable (dropped env a s1) = live_content s"
      "live_content (dropped env a s1) = live_content s"
      using f by (cases a; simp add: dropped_frame same_but_flushed_def live_stable_def live_content_def)+
    from 2 g consider "t = dropped env a s1" | "checkpointed (dropped env a s1) t"
      using run_checkpoint_frame [OF log_orderD(5) [OF lo]] by fastforce
    then show ?thesis
    proof cases
      case 1
      then show ?thesis using st set by (simp add: caught_up_def)
    next
      case 2
      then have "live_content t = live_content (dropped env a s1)"
        "live_stable t = live_stable (dropped env a s1) \<or> live_stable t = live_content (dropped env a s1)"
        by (auto simp: checkpointed_def live_content_def live_stable_def)
      then show ?thesis using st set by (auto simp: caught_up_def)
    qed
  qed
qed

lemma durable_ack_settled:
  assumes lo: "log_order le env" and s: "settled le env s" and a: "durable_ack env s = (r, t)"
  shows "caught_up le env s t"
proof -
  have run: "durable_ack env s = (case hd_last_ack s of
      Some q \<Rightarrow> (q, s\<lparr>hd_last_ack := None\<rparr>)
    | None \<Rightarrow> if live_file_swapped env s then (Inl DbLiveFileSwapped, s\<lparr>hd_last_ack := None\<rparr>)
              else fsync_data_paths env (s\<lparr>hd_last_ack := None\<rparr>))"
    using lock_recovering_clean [OF settledD(2) [OF s]]
    by (simp add: durable_ack_def io_bind_def io_get_def io_modify_def io_lift_def io_fail_def
        split: option.splits)
  let ?s1 = "s\<lparr>hd_last_ack := None\<rparr>"
  have q1: "caught_up le env s ?s1"
    using s by (auto simp: caught_up_def settled_def live_content_def live_stable_def)
  obtain r2 s2 where 2: "fsync_data_paths env ?s1 = (r2, s2)" by fastforce
  have b1: "behind le env ?s1" using settledD(1) [OF s] by simp
  note f = fsync_data_paths_frame [OF 2]
  have b2: "behind le env s2" by (rule behind_flushed [OF lo b1 f])
  have q2: "caught_up le env s s2"
    using b2 f settledD(2) [OF s]
    by (cases r2) (auto simp: caught_up_def settled_def same_but_flushed_def live_content_def live_stable_def)
  show ?thesis
    using a 2 q1 q2 unfolding run by (auto split: option.splits if_splits)
qed

text \<open>A window: either nothing was written, or the transaction's content is there; and then the
  acknowledgement, when it succeeds, finds that content on stable storage.\<close>

lemma db_write_settled:
  assumes lo: "log_order le env" and s: "settled le env s"
    and mono: "\<forall>d a d'. f d = Inr (a, d') \<longrightarrow> le d d'"
    and w: "db_write env err f s = (r, t)"
  shows "settled le env t \<and> le (live_stable s) (live_stable t) \<and>
    (case r of Inl e \<Rightarrow> live_content t = live_content s
     | Inr a \<Rightarrow> f (live_content s) = Inr (a, live_content t)) \<and>
    (\<forall>u a. r = Inr a \<longrightarrow> durable_ack env t = (Inr (), u) \<longrightarrow> live_stable u = live_content t)"
proof -
  obtain r1 s1 where 1: "handle_write env s = (r1, s1)" by fastforce
  note f1 = handle_write_settled [OF s 1]
  have st1: "settled le env s1" and c1: "live_content s1 = live_content s"
    using f1 by (simp_all add: caught_up_def)
  have l1: "le (live_stable s) (live_stable s1)" by (rule caught_up_stable [OF lo s conjunct1 [OF f1]])
  show ?thesis
  proof (cases r1)
    case (Inl e)
    then have "r = Inl (err e)" "t = s1"
      using w 1 by (simp_all add: db_write_def io_bind_def io_map_err_def)
    then show ?thesis using st1 c1 l1 by simp
  next
    case (Inr u)
    have cd: "conn_data s1 = live_content s"
      using f1 Inr conn_is_live [OF settledD(1) [OF st1]] c1 by simp
    obtain r2 s2 where 2: "transact f s1 = (r2, s2)" by fastforce
    obtain r3 s3 where 3: "guard_drop env s2 = (r3, s3)" by fastforce
    have rt: "r = r2" "t = s3"
      using w 1 2 3 Inr by (simp_all add: db_write_def io_bind_def io_map_err_def in_window_def)
    have b2: "behind le env s2" by (rule behind_transact [OF lo settledD(1) [OF st1] 2 mono])
    have p2: "\<not> hd_poisoned s2" and stable2: "live_stable s2 = live_stable s1"
      using 2 settledD(2) [OF st1]
      by (auto simp: transact_def set_conn_data_def live_stable_def split: sum.splits)
    have st2: "settled le env s2" using b2 p2 by (simp add: settled_def)
    note f3 = guard_drop_settled [OF lo st2 3]
    have l3: "le (live_stable s) (live_stable t)"
      using log_orderD(2) [OF lo l1] caught_up_stable [OF lo st2 f3] by (simp add: rt stable2)
    have conn: "hd_conn s1 = Some (hd_live s1)"
      using f1 Inr behind_conn [OF settledD(1) [OF st1]] by auto
    have c2: "case r2 of Inl e \<Rightarrow> live_content s2 = live_content s
        | Inr a \<Rightarrow> f (live_content s) = Inr (a, live_content s2)"
      using 2 cd conn c1
      by (auto simp: transact_def set_conn_data_def live_content_def split: sum.splits)
    have ack: "live_stable u = live_content t" if "durable_ack env t = (Inr (), u)" for u
    proof -
      have "live_stable u = live_content s2"
        using ack_after_drop [OF log_orderD(5) [OF lo] 3 p2 that [unfolded rt]] unfolding live_stable_def live_content_def by blast
      then show ?thesis using f3 by (simp add: caught_up_def rt)
    qed
    show ?thesis
      using f3 c2 l3 ack by (cases r2) (simp_all add: rt caught_up_def)
  qed
qed

section \<open>The rows\<close>

definition nd_le :: "nav_db \<Rightarrow> nav_db \<Rightarrow> bool" where
  "nd_le a b \<longleftrightarrow> (\<exists>xs. nd_rows b = nd_rows a @ xs)"

definition nav_rows :: "nav_state \<Rightarrow> ledger_row list" where
  "nav_rows s = nd_rows (live_content (nv_handle s))"

definition nav_env_ok :: "nav_env \<Rightarrow> bool" where
  "nav_env_ok env \<longleftrightarrow>
     env_ok (ne_ledger env) \<and> codec_ok (ne_codec env) \<and> duck_ok (ne_duck env) \<and>
     log_order nd_le (ne_handle env)"

lemma nav_env_okD:
  assumes "nav_env_ok env"
  shows "env_ok (ne_ledger env)" "codec_ok (ne_codec env)" "log_order nd_le (ne_handle env)"
  using assms by (simp_all add: nav_env_ok_def)

text \<open>A row that a write makes.\<close>

definition row_of_write :: "nav_env \<Rightarrow> audit_write \<Rightarrow> ledger_row \<Rightarrow> bool" where
  "row_of_write env w r \<longleftrightarrow> (case w of (k, pl, key) \<Rightarrow>
     r_kind r = event_kind_as_str (InvoiceEvent k) \<and> r_payload r = pl \<and>
     r_idempotency_key r = Some (idem_text env key))"

lemma next_entry_unsigned:
  "kind (next_entry env meta st k [] pl act idem None sq prev) = k"
  "payload (next_entry env meta st k [] pl act idem None sq prev) = pl"
  "idempotency_key (next_entry env meta st k [] pl act idem None sq prev) = idem"
  by (simp_all add: next_entry_def session_columns_def Let_def)

lemma append_in_tx_row:
  assumes "append_in_tx env meta st k pl act idem rows = Inr (i, rows')"
  shows "\<exists>r. rows' = rows @ [r] \<and> r_kind r = event_kind_as_str k \<and> r_payload r = pl \<and>
    r_idempotency_key r = idem"
proof -
  from assms obtain sq prev where
    "rows' = rows @ [row_of_entry env (next_entry env meta st k [] pl act idem None sq prev)]"
    by (auto simp: append_in_tx_def append_in_tx_signed_def insert_entry_verbatim_def res_simps Let_def)
  then show ?thesis by (simp add: row_of_entry_def next_entry_unsigned)
qed

lemma append_in_tx_inv:
  assumes inv: "ledger_inv env meta rows" and room: "length rows + 1 < 2 ^ 63"
    and a: "append_in_tx env meta st k pl act idem rows = Inr (i, rows')"
  shows "ledger_inv env meta rows'"
proof -
  define rq where "rq = \<lparr>rq_stamp = st, rq_kind = k, rq_subject = [], rq_payload = pl, rq_actor = act,
    rq_idem = idem, rq_session = None\<rparr>"
  have "ledger_append env meta rq rows = Inr (i, rows')"
    using a by (simp add: ledger_append_def append_in_tx_def rq_def)
  moreover have "length (ledger_entries env rows) + 1 < 2 ^ 63"
    using room ledger_inv_length [OF inv] by simp
  ultimately show ?thesis using sink.append_inv [OF inv] by blast
qed

lemma append_writes_rows:
  assumes "append_writes env ctx n ws rows = Inr rows'"
  shows "\<exists>new. rows' = rows @ new \<and> list_all2 (row_of_write env) ws new"
  using assms
proof (induction ws arbitrary: n rows)
  case (Cons w ws)
  obtain k pl key where w: "w = (k, pl, key)" by (cases w)
  from Cons.prems obtain i rows1 where
    1: "append_in_tx (ne_ledger env) (nc_meta ctx) (ne_stamp env n) (InvoiceEvent k) pl (nc_actor ctx)
          (Some (idem_text env key)) rows = Inr (i, rows1)"
    and 2: "append_writes env ctx (n + 1) ws rows1 = Inr rows'"
    by (auto simp: w res_simps)
  from append_in_tx_row [OF 1] obtain r where
    r: "rows1 = rows @ [r]" "row_of_write env w r" by (auto simp: row_of_write_def w)
  from Cons.IH [OF 2] obtain new where "rows' = rows1 @ new" "list_all2 (row_of_write env) ws new"
    by blast
  with r show ?case by (intro exI [of _ "r # new"]) simp
qed simp

lemma append_writes_inv:
  assumes "append_writes env ctx n ws rows = Inr rows'" and "ledger_inv (ne_ledger env) (nc_meta ctx) rows"
    and "length rows' < 2 ^ 63"
  shows "ledger_inv (ne_ledger env) (nc_meta ctx) rows'"
  using assms
proof (induction ws arbitrary: n rows)
  case (Cons w ws)
  obtain k pl key where w: "w = (k, pl, key)" by (cases w)
  from Cons.prems(1) obtain i rows1 where
    1: "append_in_tx (ne_ledger env) (nc_meta ctx) (ne_stamp env n) (InvoiceEvent k) pl (nc_actor ctx)
          (Some (idem_text env key)) rows = Inr (i, rows1)"
    and 2: "append_writes env ctx (n + 1) ws rows1 = Inr rows'"
    by (auto simp: w res_simps)
  have "length rows1 = length rows + 1" using append_in_tx_row [OF 1] by auto
  moreover have "length rows1 \<le> length rows'" using append_writes_rows [OF 2] by auto
  ultimately have "length rows + 1 < 2 ^ 63" using Cons.prems(3) by simp
  from append_in_tx_inv [OF Cons.prems(2) this 1] show ?case by (rule Cons.IH [OF 2 _ Cons.prems(3)])
qed simp

section \<open>The invariant of the commands\<close>

definition is_attempt :: "nav_env \<Rightarrow> byte list \<Rightarrow> ledger_row \<Rightarrow> bool" where
  \<comment> \<open>a row that records an attempt to send the request\<close>
  "is_attempt env body r \<longleftrightarrow> r_kind r = event_kind_as_str (InvoiceEvent InvoiceSubmissionAttempt) \<and>
     (\<exists>p. attempt_from_slice (ne_codec env) (r_payload r) = Some p \<and> at_request_xml p = body)"

definition posted_after_attempt :: "nav_env \<Rightarrow> nav_state \<Rightarrow> bool" where
  "posted_after_attempt env s \<longleftrightarrow>
     (\<forall>w \<in> set (nv_wire s).
        prefix (we_stable w) (stable_rows s) \<and>
        (we_operation w = ''manageInvoice'' \<longrightarrow> (\<exists>r \<in> set (we_stable w). is_attempt env (we_body w) r)))"

definition nav_inv :: "nav_env \<Rightarrow> nav_ctx \<Rightarrow> nav_state \<Rightarrow> bool" where
  "nav_inv env ctx s \<longleftrightarrow>
     settled nd_le (ne_handle env) (nv_handle s) \<and> posted_after_attempt env s \<and>
     (length (nav_rows s) < 2 ^ 63 \<longrightarrow> ledger_inv (ne_ledger env) (nc_meta ctx) (nav_rows s))"

lemma nav_invD:
  assumes "nav_inv env ctx s"
  shows "settled nd_le (ne_handle env) (nv_handle s)" "posted_after_attempt env s"
    "length (nav_rows s) < 2 ^ 63 \<Longrightarrow> ledger_inv (ne_ledger env) (nc_meta ctx) (nav_rows s)"
  using assms by (simp_all add: nav_inv_def)

lemma stable_rows_live: "stable_rows s = nd_rows (live_stable (nv_handle s))"
  by (simp add: stable_rows_def live_stable_def)

text \<open>What an operation adds: rows at the end of the ledger and requests at the end of the wire. What
  is on stable storage stays there.\<close>

definition adds ::
  "nav_env \<Rightarrow> nav_ctx \<Rightarrow> nav_state \<Rightarrow> nav_state \<Rightarrow> ledger_row list \<Rightarrow> wire_event list \<Rightarrow> bool" where
  "adds env ctx s t rows wire \<longleftrightarrow>
     nav_inv env ctx t \<and> nav_rows t = nav_rows s @ rows \<and> nv_wire t = nv_wire s @ wire \<and>
     prefix (stable_rows s) (stable_rows t)"

lemma adds_trans:
  "adds env ctx s t r1 w1 \<Longrightarrow> adds env ctx t u r2 w2 \<Longrightarrow> adds env ctx s u (r1 @ r2) (w1 @ w2)"
  unfolding adds_def by (auto intro: prefix_order.trans)

lemma adds_inv: "adds env ctx s t r w \<Longrightarrow> nav_inv env ctx t"
  by (simp add: adds_def)

lemma adds_refl: "nav_inv env ctx s \<Longrightarrow> adds env ctx s s [] []"
  by (simp add: adds_def)

lemma posted_mono:
  assumes "posted_after_attempt env s" and "nv_wire t = nv_wire s"
    and "prefix (stable_rows s) (stable_rows t)"
  shows "posted_after_attempt env t"
  using assms unfolding posted_after_attempt_def by (auto intro: prefix_order.trans)

lemma inv_caught_up:
  assumes ok: "nav_env_ok env" and i: "nav_inv env ctx s"
    and c: "caught_up nd_le (ne_handle env) (nv_handle s) h"
  shows "adds env ctx s (s\<lparr>nv_handle := h, nv_tick := n\<rparr>) [] []"
proof -
  let ?t = "s\<lparr>nv_handle := h, nv_tick := n\<rparr>"
  have rows: "nav_rows ?t = nav_rows s" using c by (simp add: nav_rows_def caught_up_def)
  have "nd_le (live_stable (nv_handle s)) (live_stable h)"
    by (rule caught_up_stable [OF nav_env_okD(3) [OF ok] nav_invD(1) [OF i] c])
  then have st: "prefix (stable_rows s) (stable_rows ?t)"
    by (simp add: stable_rows_live nd_le_def prefix_def)
  from posted_mono [OF nav_invD(2) [OF i] _ st] have "posted_after_attempt env ?t" by simp
  then show ?thesis
    using c i rows st by (simp add: adds_def nav_inv_def caught_up_def)
qed

lemma inv_caught_up_handle:
  assumes ok: "nav_env_ok env" and i: "nav_inv env ctx s"
    and c: "caught_up nd_le (ne_handle env) (nv_handle s) h"
  shows "adds env ctx s (s\<lparr>nv_handle := h\<rparr>) [] []"
proof -
  have "s\<lparr>nv_handle := h, nv_tick := nv_tick s\<rparr> = s\<lparr>nv_handle := h\<rparr>" by simp
  then show ?thesis using inv_caught_up [OF ok i c, of "nv_tick s"] by simp
qed

section \<open>Writes, flushes and reads\<close>

lemma audit_tx_Inr:
  "audit_tx env ctx n ws d = Inr (u, d') \<Longrightarrow> append_writes env ctx n ws (nd_rows d) = Inr (nd_rows d')"
  by (auto simp: audit_tx_def res_simps split: option.splits)

lemma audit_tx_le: "audit_tx env ctx n ws d = Inr (u, d') \<Longrightarrow> nd_le d d'"
  by (auto simp: nd_le_def dest!: audit_tx_Inr append_writes_rows)

lemma nav_inv_tick [simp]: "nav_inv env ctx (s\<lparr>nv_tick := n\<rparr>) = nav_inv env ctx s"
  by (simp add: nav_inv_def posted_after_attempt_def stable_rows_def nav_rows_def)

lemma nav_inv_tax [simp]: "nav_inv env (ctx\<lparr>nc_tax_number_8 := x\<rparr>) s = nav_inv env ctx s"
  by (simp add: nav_inv_def)

lemma adds_tax [simp]: "adds env (ctx\<lparr>nc_tax_number_8 := x\<rparr>) s t r w = adds env ctx s t r w"
  by (simp add: adds_def)

text \<open>A failed transaction adds nothing; after one that succeeds, an acknowledged flush means that
  the rows are on stable storage.\<close>

lemma write_audit_adds:
  assumes ok: "nav_env_ok env" and i: "nav_inv env ctx s" and w: "write_audit env ctx ws s = (r, t)"
  shows "\<exists>new. adds env ctx s t new [] \<and>
    (case r of Inl e \<Rightarrow> new = [] | Inr u \<Rightarrow> list_all2 (row_of_write env) ws new)"
    and "r = Inr () \<Longrightarrow> durable_ack (ne_handle env) (nv_handle t) = (Inr (), h) \<Longrightarrow>
      nd_rows (live_stable h) = nav_rows t"
proof -
  let ?f = "audit_tx env ctx (nv_tick s) ws"
  obtain h1 where d: "db_write (ne_handle env) NeDb ?f (nv_handle s) = (r, h1)"
    and t: "t = s\<lparr>nv_handle := h1, nv_tick := nv_tick s + length ws\<rparr>"
    using w by (auto simp: write_audit_def split: prod.splits)
  have mono: "\<forall>d a d'. ?f d = Inr (a, d') \<longrightarrow> nd_le d d'" using audit_tx_le by blast
  note D = db_write_settled [OF nav_env_okD(3) [OF ok] nav_invD(1) [OF i] mono d]
  have st: "prefix (stable_rows s) (stable_rows t)"
    using D by (simp add: stable_rows_live nd_le_def prefix_def t)
  from posted_mono [OF nav_invD(2) [OF i] _ st] have p: "posted_after_attempt env t" by (simp add: t)
  have ok': "settled nd_le (ne_handle env) (nv_handle t)" using D by (simp add: t)
  show "\<exists>new. adds env ctx s t new [] \<and>
    (case r of Inl e \<Rightarrow> new = [] | Inr u \<Rightarrow> list_all2 (row_of_write env) ws new)"
  proof (cases r)
    case (Inl e)
    then have "nav_rows t = nav_rows s" using D by (simp add: nav_rows_def t)
    then have "adds env ctx s t [] []" using p ok' st nav_invD(3) [OF i] by (simp add: adds_def nav_inv_def t)
    then show ?thesis using Inl by simp
  next
    case (Inr u)
    then have "?f (live_content (nv_handle s)) = Inr (u, live_content h1)" using D by simp
    from audit_tx_Inr [OF this] have a: "append_writes env ctx (nv_tick s) ws (nav_rows s) = Inr (nav_rows t)"
      by (simp add: nav_rows_def t)
    from append_writes_rows [OF a] obtain new where
      n: "nav_rows t = nav_rows s @ new" "list_all2 (row_of_write env) ws new" by blast
    have "ledger_inv (ne_ledger env) (nc_meta ctx) (nav_rows t)" if "length (nav_rows t) < 2 ^ 63"
    proof -
      have "length (nav_rows s) < 2 ^ 63" using that n by simp
      from append_writes_inv [OF a nav_invD(3) [OF i this] that] show ?thesis .
    qed
    then have "adds env ctx s t new []" using p ok' n st by (simp add: adds_def nav_inv_def t)
    then show ?thesis using Inr n by auto
  qed
  show "nd_rows (live_stable h) = nav_rows t"
    if "r = Inr ()" "durable_ack (ne_handle env) (nv_handle t) = (Inr (), h)"
    using D that by (simp add: nav_rows_def t)
qed

lemma nav_durable_ack_adds:
  assumes ok: "nav_env_ok env" and i: "nav_inv env ctx s" and a: "nav_durable_ack env s = (r, t)"
  shows "adds env ctx s t [] [] \<and>
    (r = Inr () \<longrightarrow> (\<exists>h. durable_ack (ne_handle env) (nv_handle s) = (Inr (), h) \<and> t = s\<lparr>nv_handle := h\<rparr>))"
proof -
  obtain q h where d: "durable_ack (ne_handle env) (nv_handle s) = (q, h)" by fastforce
  then have t: "r = map_err NeDb q" "t = s\<lparr>nv_handle := h\<rparr>"
    using a by (simp_all add: nav_durable_ack_def on_handle_def io_map_err_def)
  have "caught_up nd_le (ne_handle env) (nv_handle s) h"
    by (rule durable_ack_settled [OF nav_env_okD(3) [OF ok] nav_invD(1) [OF i] d])
  from inv_caught_up_handle [OF ok i this] show ?thesis using d t by (cases q) auto
qed

lemma nav_read_adds:
  assumes ok: "nav_env_ok env" and i: "nav_inv env ctx s" and a: "nav_read env s = (r, t)"
  shows "adds env ctx s t [] [] \<and> (\<forall>d. r = Inr d \<longrightarrow> d = live_content (nv_handle s))"
proof -
  obtain q h where d: "handle_read (ne_handle env) (nv_handle s) = (q, h)" by fastforce
  then have t: "r = map_err NeDb q" "t = s\<lparr>nv_handle := h\<rparr>"
    using a by (simp_all add: nav_read_def on_handle_def io_map_err_def)
  note h = handle_read_settled [OF nav_invD(1) [OF i] d]
  from inv_caught_up_handle [OF ok i conjunct1 [OF h]] show ?thesis using h t by (cases q) auto
qed

lemma nav_read_content:
  assumes ok: "nav_env_ok env" and i: "nav_inv env ctx s" and a: "nav_read env s = (r, t)"
  shows "live_content (nv_handle t) = live_content (nv_handle s)"
proof -
  obtain q h where d: "handle_read (ne_handle env) (nv_handle s) = (q, h)" by fastforce
  then have "t = s\<lparr>nv_handle := h\<rparr>"
    using a by (simp add: nav_read_def on_handle_def io_map_err_def)
  then show ?thesis
    using handle_read_settled [OF nav_invD(1) [OF i] d] by (simp add: caught_up_def)
qed

section \<open>Operations that extend the ledger and the wire\<close>

definition nav_extends :: "nav_env \<Rightarrow> nav_ctx \<Rightarrow> nav_state \<Rightarrow> nav_state \<Rightarrow> bool" where
  "nav_extends env ctx s t \<longleftrightarrow> (nav_inv env ctx s \<longrightarrow> (\<exists>rows wire. adds env ctx s t rows wire))"

interpretation nx: growth "nav_extends env ctx" for env ctx
proof
  show "nav_extends env ctx s s" for s
    by (auto simp: nav_extends_def intro: adds_refl)
  show "nav_extends env ctx s u" if "nav_extends env ctx s t" "nav_extends env ctx t u" for s t u
    using that unfolding nav_extends_def by (blast intro: adds_trans dest: adds_inv)
qed

named_theorems nav_grows \<open>operations that extend the ledger and the wire\<close>

lemma growsI:
  assumes "\<And>s r t. nav_inv env ctx s \<Longrightarrow> m s = (r, t) \<Longrightarrow> \<exists>rows wire. adds env ctx s t rows wire"
  shows "io_grows (nav_extends env ctx) m"
  unfolding io_grows_def nav_extends_def using assms by (metis prod.collapse)

lemma nav_extends_tax [simp]: "nav_extends env (ctx\<lparr>nc_tax_number_8 := x\<rparr>) = nav_extends env ctx"
  by (simp add: fun_eq_iff nav_extends_def)

lemma nav_extendsD:
  assumes "io_grows (nav_extends env ctx) m" and "nav_inv env ctx s" and "m s = (r, t)"
  obtains rows wire where "adds env ctx s t rows wire"
  using assms unfolding io_grows_def nav_extends_def by (metis snd_conv)

lemma grows_nav_read [nav_grows]: "nav_env_ok env \<Longrightarrow> io_grows (nav_extends env ctx) (nav_read env)"
  by (rule growsI) (blast dest: nav_read_adds)

lemma grows_nav_durable_ack [nav_grows]:
  "nav_env_ok env \<Longrightarrow> io_grows (nav_extends env ctx) (nav_durable_ack env)"
  by (rule growsI) (blast dest: nav_durable_ack_adds)

lemma grows_write_audit [nav_grows]:
  "nav_env_ok env \<Longrightarrow> io_grows (nav_extends env ctx) (write_audit env ctx ws)"
  by (rule growsI) (blast dest: write_audit_adds(1))

lemma adds_tick: "nav_inv env ctx s \<Longrightarrow> adds env ctx s (s\<lparr>nv_tick := n\<rparr>) [] []"
  by (simp add: adds_def nav_rows_def stable_rows_def)

lemma grows_next_tick [nav_grows]: "io_grows (nav_extends env ctx) next_tick"
  by (rule growsI) (auto simp: next_tick_def intro: adds_tick)

lemma adds_post:
  assumes i: "nav_inv env ctx s" and p: "http_post env operation body s = (r, t)"
    and a: "operation = ''manageInvoice'' \<longrightarrow> (\<exists>x \<in> set (stable_rows s). is_attempt env body x)"
  shows "\<exists>a. r = Inr a \<and> a = ne_http env (nv_tick s) operation body \<and>
    adds env ctx s t [] [\<lparr>we_operation = operation, we_body = body, we_answer = a, we_stable = stable_rows s\<rparr>]"
proof -
  let ?a = "ne_http env (nv_tick s) operation body"
  have t: "nv_handle t = nv_handle s" "r = Inr ?a"
    "nv_wire t = nv_wire s @ [\<lparr>we_operation = operation, we_body = body, we_answer = ?a, we_stable = stable_rows s\<rparr>]"
    using p by (auto simp: http_post_def)
  have st: "stable_rows t = stable_rows s" "nav_rows t = nav_rows s"
    by (simp_all add: stable_rows_def nav_rows_def t)
  have "posted_after_attempt env t"
    using nav_invD(2) [OF i] a by (auto simp: posted_after_attempt_def t st)
  then show ?thesis using i by (simp add: adds_def nav_inv_def t st)
qed

lemma grows_http_post [nav_grows]:
  "operation \<noteq> ''manageInvoice'' \<Longrightarrow> io_grows (nav_extends env ctx) (http_post env operation body)"
  by (rule growsI) (blast dest: adds_post)

lemma grows_transport_new [nav_grows]: "io_grows (nav_extends env ctx) (transport_new env)"
  unfolding transport_new_def by (intro nx.grows_rules nav_grows)

lemma grows_token_exchange [nav_grows]: "io_grows (nav_extends env ctx) (token_exchange_call env ctx)"
  unfolding token_exchange_call_def by (intro nx.grows_rules nav_grows) simp

lemma grows_build_request [nav_grows]:
  "io_grows (nav_extends env ctx) (build_request env ctx token items)"
  unfolding build_request_def by (intro nx.grows_rules nav_grows)

lemma grows_prepare [nav_grows]:
  "io_grows (nav_extends env ctx) (prepare_for_attempt_audit env ctx xml operation)"
  unfolding prepare_for_attempt_audit_def by (intro nx.grows_rules nav_grows)

section \<open>Attempt, send, record\<close>

lemma stable_below: "nav_inv env ctx s \<Longrightarrow> prefix (stable_rows s) (nav_rows s)"
  using stable_le_content [OF settledD(1) [OF nav_invD(1)], of env ctx s]
  by (auto simp: nav_rows_def stable_rows_live nd_le_def)

lemma adds_stable:
  "adds env ctx s t [] wire \<Longrightarrow> stable_rows s = nav_rows s \<Longrightarrow> stable_rows t = nav_rows t"
  using stable_below [of env ctx t] by (auto simp: adds_def dest: prefix_order.antisym)

lemma grows_read_entries [nav_grows]: "nav_env_ok env \<Longrightarrow> io_grows (nav_extends env ctx) (read_entries env)"
  unfolding read_entries_def by (intro nx.grows_rules nav_grows)

lemma grows_verify [nav_grows]:
  "nav_env_ok env \<Longrightarrow> io_grows (nav_extends env ctx) (verify_chain_reusing_read env ctx')"
  unfolding verify_chain_reusing_read_def by (intro nx.grows_rules nav_grows)

lemma grows_load_issued [nav_grows]:
  "nav_env_ok env \<Longrightarrow> io_grows (nav_extends env ctx) (load_issued_invoice env iid)"
  unfolding load_issued_invoice_def by (intro nx.grows_rules nav_grows)

lemma read_then_lift_adds:
  assumes ok: "nav_env_ok env" and i: "nav_inv env ctx s"
    and m: "io_bind (nav_read env) (\<lambda>d. io_lift (f d)) s = (r, t)"
  shows "adds env ctx s t [] [] \<and> (\<forall>a. r = Inr a \<longrightarrow> f (live_content (nv_handle s)) = Inr a)"
proof -
  obtain q u where q: "nav_read env s = (q, u)" by fastforce
  note h = nav_read_adds [OF ok i q]
  show ?thesis
  proof (cases q)
    case (Inl e)
    then have "r = Inl e" "t = u" using m q by (simp_all add: io_bind_def)
    then show ?thesis using h by simp
  next
    case (Inr d)
    then have "r = f d" "t = u" using m q by (simp_all add: io_bind_def io_lift_def)
    then show ?thesis using h Inr by simp
  qed
qed

lemma verify_adds:
  "nav_env_ok env \<Longrightarrow> nav_inv env ctx s \<Longrightarrow> verify_chain_reusing_read env ctx' s = (r, t) \<Longrightarrow>
   adds env ctx s t [] []"
  unfolding verify_chain_reusing_read_def by (rule conjunct1 [OF read_then_lift_adds])

lemma read_entries_adds:
  "nav_env_ok env \<Longrightarrow> nav_inv env ctx s \<Longrightarrow> read_entries env s = (r, t) \<Longrightarrow>
   adds env ctx s t [] [] \<and>
   (\<forall>es. r = Inr es \<longrightarrow> map_err NeAudit (read_all_entries (ne_ledger env) (nav_rows s)) = Inr es)"
  unfolding read_entries_def nav_rows_def by (rule read_then_lift_adds)

text \<open>A write and its flush: what was written is on stable storage when both succeed.\<close>

definition flushed_write :: "nav_env \<Rightarrow> nav_ctx \<Rightarrow> audit_write list \<Rightarrow> unit nav_op" where
  "flushed_write env ctx ws = io_bind (write_audit env ctx ws) (\<lambda>_. nav_durable_ack env)"

lemma flushed_write_adds:
  assumes ok: "nav_env_ok env" and i: "nav_inv env ctx s" and w: "flushed_write env ctx ws s = (r, t)"
  shows "\<exists>new. adds env ctx s t new [] \<and>
    (case r of Inl e \<Rightarrow> new = [] \<or> list_all2 (row_of_write env) ws new
     | Inr u \<Rightarrow> list_all2 (row_of_write env) ws new \<and> stable_rows t = nav_rows t)"
proof -
  obtain q u where q: "write_audit env ctx ws s = (q, u)" by fastforce
  from write_audit_adds(1) [OF ok i q] obtain new where new: "adds env ctx s u new []"
    "case q of Inl e \<Rightarrow> new = [] | Inr u \<Rightarrow> list_all2 (row_of_write env) ws new" by blast
  show ?thesis
  proof (cases q)
    case (Inl e)
    then have "r = Inl e" "t = u" using w q by (simp_all add: flushed_write_def io_bind_def)
    then show ?thesis using new Inl by auto
  next
    case (Inr x)
    then have a: "nav_durable_ack env u = (r, t)" using w q by (simp add: flushed_write_def io_bind_def)
    note h = nav_durable_ack_adds [OF ok adds_inv [OF new(1)] a]
    have t: "adds env ctx s t new []" using adds_trans [OF new(1) conjunct1 [OF h]] by simp
    show ?thesis
    proof (cases r)
      case (Inl e)
      then show ?thesis using t new \<open>q = Inr x\<close> by auto
    next
      case (Inr y)
      then obtain hh where hh: "durable_ack (ne_handle env) (nv_handle u) = (Inr (), hh)" "t = u\<lparr>nv_handle := hh\<rparr>"
        using h by auto
      have "nd_rows (live_stable hh) = nav_rows u"
        using write_audit_adds(2) [OF ok i q _ hh(1)] \<open>q = Inr x\<close> by simp
      moreover have "nav_rows t = nav_rows u" using h by (simp add: adds_def)
      ultimately have "stable_rows t = nav_rows t" by (simp add: stable_rows_live hh(2))
      then show ?thesis using t new Inr \<open>q = Inr x\<close> by auto
    qed
  qed
qed

definition answer_write ::
  "nav_env \<Rightarrow> nav_ctx \<Rightarrow> string \<Rightarrow> idem_key \<Rightarrow> nav_transport_error + send_outcome \<Rightarrow> audit_write" where
  "answer_write env ctx iid key wire_result =
     (case wire_result of Inr so \<Rightarrow> response_write env iid key so
      | Inl e \<Rightarrow> attempt_failed_write env ctx iid key e)"

definition answer_value :: "nav_transport_error + send_outcome \<Rightarrow> nav_transport_error + string" where
  "answer_value wire_result = (case wire_result of Inr so \<Rightarrow> Inr (so_transaction_id so) | Inl e \<Rightarrow> Inl e)"

lemma record_answer_flushed:
  "record_answer env ctx b iid key q =
     io_bind (flushed_write env ctx [answer_write env ctx iid key q]) (\<lambda>_.
     io_bind (verify_after env ctx b) (\<lambda>_. io_return (answer_value q)))"
  by (simp add: record_answer_def flushed_write_def answer_write_def answer_value_def io_bind_assoc)

lemma submit_prepared_flushed:
  "submit_prepared env ctx b iid key before request_xml =
     io_bind (flushed_write env ctx (before @ [attempt_write env ctx iid key request_xml])) (\<lambda>_.
     io_bind (io_attempt (send_built_request env request_xml)) (\<lambda>q. record_answer env ctx b iid key q))"
  by (simp add: submit_prepared_def flushed_write_def io_bind_assoc)

text \<open>
  The sync that \<open>submit_invoice.rs\<close> runs itself comes after a successful acknowledgement: all
  that is read is on stable storage then, so the mirror stays behind it.
\<close>

lemma behind_mirror:
  "behind le env s \<Longrightarrow> le m (live_stable s) \<Longrightarrow> behind le env (s\<lparr>hd_mirror := m, hd_tick := n\<rparr>)"
  by (simp add: behind_def fenced_def live_stable_def)

lemma sync_adds:
  assumes ok: "nav_env_ok env" and i: "nav_inv env ctx s"
    and st: "stable_rows s = nav_rows s" and m: "ledger_sync_mirror env (live_content (nv_handle s)) s = (r, t)"
  shows "adds env ctx s t [] []"
proof -
  let ?h = "nv_handle s" and ?e = "ne_handle env"
  define m' where "m' = he_sync_mirror ?e (hd_tick ?h) (live_content ?h) (hd_mirror ?h)"
  define h where "h = ?h\<lparr>hd_mirror := m', hd_tick := hd_tick ?h + 1\<rparr>"
  have t: "t = s\<lparr>nv_handle := h\<rparr>"
    using m by (auto simp: ledger_sync_mirror_def on_handle_def io_map_err_def sync_mirror_from_def h_def m'_def)
  note lo = nav_env_okD(3) [OF ok]
  note b = settledD(1) [OF nav_invD(1) [OF i]]
  have "nd_le (hd_mirror ?h) (live_content ?h)"
    using behind_live [OF lo b] by (simp add: live_content_def)
  then have "nd_le m' (live_content ?h)" unfolding m'_def by (rule log_orderD(4) [OF lo])
  then have "nd_le m' (live_stable ?h)"
    using st by (simp add: nd_le_def stable_rows_live nav_rows_def)
  from behind_mirror [OF b this] have "settled nd_le ?e h"
    using settledD(2) [OF nav_invD(1) [OF i]] by (simp add: settled_def h_def)
  then have "caught_up nd_le ?e ?h h"
    by (simp add: caught_up_def h_def live_content_def live_stable_def)
  from inv_caught_up_handle [OF ok i this] show ?thesis by (simp add: t)
qed

lemma verify_after_adds:
  assumes ok: "nav_env_ok env" and i: "nav_inv env ctx s" and st: "stable_rows s = nav_rows s"
    and m: "verify_after env ctx b s = (r, t)"
  shows "adds env ctx s t [] []"
proof (cases b)
  case False
  then show ?thesis using verify_adds [OF ok i] m by (simp add: verify_after_def)
next
  case True
  obtain q u where q: "nav_read env s = (q, u)" by fastforce
  note h = nav_read_adds [OF ok i q]
  show ?thesis
  proof (cases q)
    case (Inl e)
    then have "t = u"
      using m True q by (simp add: verify_after_def verify_chain_and_sync_reusing_conn_def io_bind_def)
    then show ?thesis using h by simp
  next
    case (Inr d)
    let ?v = "ledger_verify_chain (ne_ledger env) (meta_tenant_id (nc_meta ctx)) (nd_rows d)"
    obtain x v where x: "ledger_sync_mirror env d u = (x, v)" by fastforce
    have d: "d = live_content (nv_handle u)"
      using h Inr nav_read_content [OF ok i q] by simp
    have uv: "adds env ctx u v [] []"
      by (rule sync_adds [OF ok adds_inv [OF conjunct1 [OF h]] adds_stable [OF conjunct1 [OF h] st] x [unfolded d]])
    have "t = u \<or> t = v"
      using m True q Inr x
      by (cases ?v; cases x)
        (simp_all add: verify_after_def verify_chain_and_sync_reusing_conn_def io_bind_def
          io_lift_def io_return_def)
    then show ?thesis using h adds_trans [OF conjunct1 [OF h] uv] by auto
  qed
qed

lemma record_answer_adds:
  assumes ok: "nav_env_ok env" and i: "nav_inv env ctx s" and m: "record_answer env ctx b iid key q s = (r, t)"
  shows "\<exists>new. adds env ctx s t new [] \<and>
    (new = [] \<or> list_all2 (row_of_write env) [answer_write env ctx iid key q] new) \<and>
    (\<forall>v. r = Inr v \<longrightarrow> new \<noteq> [] \<and> v = answer_value q \<and> stable_rows t = nav_rows t)"
proof -
  obtain r1 u where 1: "flushed_write env ctx [answer_write env ctx iid key q] s = (r1, u)" by fastforce
  from flushed_write_adds [OF ok i 1] obtain new where new: "adds env ctx s u new []"
    "case r1 of Inl e \<Rightarrow> new = [] \<or> list_all2 (row_of_write env) [answer_write env ctx iid key q] new
     | Inr _ \<Rightarrow> list_all2 (row_of_write env) [answer_write env ctx iid key q] new \<and>
         stable_rows u = nav_rows u" by blast
  show ?thesis
  proof (cases r1)
    case (Inl e)
    then have "r = Inl e" "t = u" using m 1 by (simp_all add: record_answer_flushed io_bind_def)
    then show ?thesis using new Inl by auto
  next
    case (Inr x)
    obtain r2 v where 2: "verify_after env ctx b u = (r2, v)" by fastforce
    have h: "adds env ctx u v [] []"
      using verify_after_adds [OF ok adds_inv [OF new(1)] _ 2] new(2) Inr by simp
    have rt: "t = v" "r = (case r2 of Inl e \<Rightarrow> Inl e | Inr _ \<Rightarrow> Inr (answer_value q))"
      using m 1 2 Inr by (cases r2; simp add: record_answer_flushed io_bind_def io_return_def)+
    have "adds env ctx s t new []" using adds_trans [OF new(1) h] by (simp add: rt)
    moreover have "stable_rows t = nav_rows t" using adds_stable [OF h] new(2) Inr by (simp add: rt)
    moreover have "list_all2 (row_of_write env) [answer_write env ctx iid key q] new" using new(2) Inr by simp
    ultimately show ?thesis using rt by (cases r2) auto
  qed
qed

text \<open>All the ends of a submission: nothing or the rows before the answer were written and nothing
  was posted; or exactly one request was posted, with those rows on stable storage, and its answer
  was recorded unless the write of it failed.\<close>

definition submitted ::
  "nav_env \<Rightarrow> nav_ctx \<Rightarrow> string \<Rightarrow> idem_key \<Rightarrow> audit_write list \<Rightarrow> byte list \<Rightarrow> nav_state \<Rightarrow>
   ledger_row list \<Rightarrow> wire_event list \<Rightarrow> (nav_transport_error + string) option \<Rightarrow> bool" where
  "submitted env ctx iid key before request_xml s rows wire v \<longleftrightarrow>
     (\<exists>new1 new2 q.
        rows = new1 @ new2 \<and>
        list_all2 (row_of_write env) (before @ [attempt_write env ctx iid key request_xml]) new1 \<and>
        (\<exists>a. q = manage_invoice_result (ne_lib env) a \<and>
           wire = [\<lparr>we_operation = ''manageInvoice'', we_body = request_xml, we_answer = a,
                    we_stable = nav_rows s @ new1\<rparr>]) \<and>
        (new2 = [] \<and> v = None \<or>
         list_all2 (row_of_write env) [answer_write env ctx iid key q] new2 \<and>
         (v = None \<or> v = Some (answer_value q))))"

lemma attempt_row_is_attempt:
  assumes "nav_env_ok env" and "row_of_write env (attempt_write env ctx iid key xml) r"
  shows "is_attempt env xml r"
  using assms nav_env_okD(2) [of env]
  by (auto simp: is_attempt_def row_of_write_def attempt_write_def codec_ok_def)

lemma submit_prepared_adds:
  assumes ok: "nav_env_ok env" and i: "nav_inv env ctx s"
    and m: "submit_prepared env ctx b iid key before request_xml s = (r, t)"
  shows "\<exists>rows wire. adds env ctx s t rows wire \<and>
    (wire = [] \<and> is_ok r = False \<and>
       (rows = [] \<or> list_all2 (row_of_write env) (before @ [attempt_write env ctx iid key request_xml]) rows) \<or>
     submitted env ctx iid key before request_xml s rows wire (case r of Inl e \<Rightarrow> None | Inr v \<Rightarrow> Some v)) \<and>
    (is_ok r \<longrightarrow> stable_rows t = nav_rows t)"
proof -
  let ?ws = "before @ [attempt_write env ctx iid key request_xml]"
  obtain r1 u where 1: "flushed_write env ctx ?ws s = (r1, u)" by fastforce
  from flushed_write_adds [OF ok i 1] obtain new1 where new1: "adds env ctx s u new1 []"
    "case r1 of Inl e \<Rightarrow> new1 = [] \<or> list_all2 (row_of_write env) ?ws new1
     | Inr _ \<Rightarrow> list_all2 (row_of_write env) ?ws new1 \<and> stable_rows u = nav_rows u" by blast
  have i1: "nav_inv env ctx u" by (rule adds_inv [OF new1(1)])
  show ?thesis
  proof (cases r1)
    case (Inl e)
    then have "r = Inl e" "t = u" using m 1 by (simp_all add: submit_prepared_flushed io_bind_def)
    then show ?thesis using new1 Inl by (intro exI [of _ new1] exI [of _ "[]"]) (simp add: is_ok_def)
  next
    case (Inr x)
    then have l: "list_all2 (row_of_write env) ?ws new1" and st: "stable_rows u = nav_rows u"
      using new1(2) by simp_all
    have ru: "nav_rows u = nav_rows s @ new1" using new1(1) by (simp add: adds_def)
    define a where "a = ne_http env (nv_tick u) ''manageInvoice'' request_xml"
    obtain v where p: "http_post env ''manageInvoice'' request_xml u = (Inr a :: nav_transport_error + _, v)"
      unfolding http_post_def a_def by blast
    define q where "q = manage_invoice_result (ne_lib env) a"
    let ?ev = "\<lparr>we_operation = ''manageInvoice'', we_body = request_xml, we_answer = a, we_stable = nav_rows s @ new1\<rparr>"
    from l have "\<exists>x0 \<in> set new1. row_of_write env (attempt_write env ctx iid key request_xml) x0"
      by (auto simp: list_all2_append1 list_all2_Cons1)
    then have "\<exists>x \<in> set (stable_rows u). is_attempt env request_xml x"
      unfolding st ru set_append using attempt_row_is_attempt [OF ok] by blast
    then have 2: "adds env ctx u v [] [?ev]" using adds_post [OF i1 p] by (auto simp: st ru)
    have 3: "record_answer env ctx b iid key q v = (r, t)"
      using m 1 p Inr
      by (simp add: submit_prepared_flushed send_built_request_def io_bind_def io_attempt_def io_lift_def q_def)
    from record_answer_adds [OF ok adds_inv [OF 2] 3] obtain new2 where
      n: "adds env ctx v t new2 []"
        "new2 = [] \<or> list_all2 (row_of_write env) [answer_write env ctx iid key q] new2"
        "\<forall>v. r = Inr v \<longrightarrow> new2 \<noteq> [] \<and> v = answer_value q \<and> stable_rows t = nav_rows t" by blast
    have added: "adds env ctx s t (new1 @ new2) [?ev]"
      using adds_trans [OF adds_trans [OF new1(1) 2] n(1)] by simp
    have v: "new2 = [] \<and> (case r of Inl e \<Rightarrow> None | Inr v \<Rightarrow> Some v) = None \<or>
        list_all2 (row_of_write env) [answer_write env ctx iid key q] new2 \<and>
        ((case r of Inl e \<Rightarrow> None | Inr v \<Rightarrow> Some v) = None \<or>
         (case r of Inl e \<Rightarrow> None | Inr v \<Rightarrow> Some v) = Some (answer_value q))"
      using n(2,3) by (cases r) simp_all
    from v have sub: "submitted env ctx iid key before request_xml s (new1 @ new2) [?ev]
        (case r of Inl e \<Rightarrow> None | Inr v \<Rightarrow> Some v)"
      unfolding submitted_def using l q_def by blast
    have "is_ok r \<longrightarrow> stable_rows t = nav_rows t" using n(3) by (cases r) simp_all
    with added sub show ?thesis by blast
  qed
qed

lemma grows_submit_prepared [nav_grows]:
  "nav_env_ok env \<Longrightarrow> io_grows (nav_extends env ctx) (submit_prepared env ctx b iid key before request_xml)"
  by (rule growsI) (blast dest: submit_prepared_adds)

section \<open>Every command\<close>

lemma grows_decision [nav_grows]:
  "io_grows L m \<Longrightarrow> io_grows L n \<Longrightarrow> (\<And>x. io_grows L (f x)) \<Longrightarrow>
   io_grows L (case d of SkipRePost \<Rightarrow> m | ProceedToRePost \<Rightarrow> n | AbortRetry x \<Rightarrow> f x)"
  by (cases d) simp_all

lemma grows_try_acquire [nav_grows]: "io_grows (nav_extends env ctx) (try_acquire env iid)"
  unfolding try_acquire_def by (intro nx.grows_rules nav_grows)

lemma grows_acquire_or_refuse [nav_grows]: "io_grows (nav_extends env ctx) (acquire_or_refuse env iid)"
  unfolding acquire_or_refuse_def by (intro nx.grows_rules nav_grows)

lemma grows_layer_2 [nav_grows]:
  assumes ok: "nav_env_ok env"
  shows "io_grows (nav_extends env ctx) (perform_layer_2_check env ctx number iid key)"
  unfolding perform_layer_2_check_def by (intro nx.grows_rules nav_grows ok) simp

lemma grows_load_requested [nav_grows]:
  assumes ok: "nav_env_ok env"
  shows "io_grows (nav_extends env ctx) (load_requested_invoice env iid)"
  unfolding load_requested_invoice_def by (intro nx.grows_rules nav_grows ok)

lemma grows_resolve_stuck [nav_grows]:
  assumes ok: "nav_env_ok env"
  shows "io_grows (nav_extends env ctx) (resolve_stuck_or_loud_fail env iid key)"
  unfolding resolve_stuck_or_loud_fail_def by (intro nx.grows_rules nav_grows ok)

lemma grows_drive_one_invoice [nav_grows]:
  assumes ok: "nav_env_ok env"
  shows "io_grows (nav_extends env ctx) (drive_one_invoice env ctx ov pinv)"
  unfolding drive_one_invoice_def by (intro nx.grows_rules nav_grows ok)

lemma grows_drive_one_retry [nav_grows]:
  assumes ok: "nav_env_ok env"
  shows "io_grows (nav_extends env ctx) (drive_one_retry env ctx retry)"
  unfolding drive_one_retry_def by (intro nx.grows_rules nav_grows ok)

lemma grows_case_drive [nav_grows]:
  "(\<And>x. io_grows L (f x)) \<Longrightarrow> (\<And>m. io_grows L (g m)) \<Longrightarrow> (\<And>e. io_grows L (h e)) \<Longrightarrow>
   io_grows L (case r of Inr x \<Rightarrow> f x | Inl (DrTransport m) \<Rightarrow> g m | Inl (DrApplication e) \<Rightarrow> h e)"
  by (cases r; (cases "projl r")?) simp_all

lemma grows_case_outcome [nav_grows]:
  "io_grows L m \<Longrightarrow> io_grows L n \<Longrightarrow> io_grows L (case x of RetriedOk \<Rightarrow> m | SkippedExists \<Rightarrow> n)"
  by (cases x) simp_all

lemma grows_drain_loop [nav_grows]:
  assumes ok: "nav_env_ok env"
  shows "io_grows (nav_extends env ctx) (drain_loop env ctx ov idx n ps)"
proof (induction ps arbitrary: idx n)
  case (Cons p ps)
  show ?case unfolding drain_loop.simps by (intro nx.grows_rules nav_grows ok Cons.IH)
qed (simp add: nx.grows_return)

lemma grows_retry_loop [nav_grows]:
  assumes ok: "nav_env_ok env"
  shows "io_grows (nav_extends env ctx) (retry_loop env ctx idx n ps)"
proof (induction ps arbitrary: idx n)
  case (Cons p ps)
  show ?case unfolding retry_loop.simps by (intro nx.grows_rules nav_grows ok Cons.IH)
qed (simp add: nx.grows_return)

lemma grows_finish [nav_grows]: "io_grows (nav_extends env ctx) (finish_drain n)"
  unfolding finish_drain_def by (intro nx.grows_rules)

text \<open>The commands run with the tax number they were given.\<close>

lemma grows_tax:
  "io_grows (nav_extends env (ctx\<lparr>nc_tax_number_8 := x\<rparr>)) m \<Longrightarrow> io_grows (nav_extends env ctx) m"
  by simp

lemma grows_drain_submission_queue [nav_grows]:
  assumes ok: "nav_env_ok env"
  shows "io_grows (nav_extends env ctx) (drain_submission_queue env ctx args)"
  unfolding drain_submission_queue_def
  by (intro nx.grows_rules nav_grows ok grows_tax [OF grows_drain_loop])

lemma grows_drain_pending_retries [nav_grows]:
  assumes ok: "nav_env_ok env"
  shows "io_grows (nav_extends env ctx) (drain_pending_retries env ctx args)"
  unfolding drain_pending_retries_def
  by (intro nx.grows_rules nav_grows ok grows_tax [OF grows_retry_loop])

lemma grows_retry_post [nav_grows]:
  assumes ok: "nav_env_ok env"
  shows "io_grows (nav_extends env ctx) (retry_post env ctx iid key stuck reason xml operation)"
  unfolding retry_post_def by (intro nx.grows_rules nav_grows ok)

lemma grows_retry_submission [nav_grows]:
  assumes ok: "nav_env_ok env"
  shows "io_grows (nav_extends env ctx) (retry_submission env ctx args)"
  unfolding retry_submission_def Let_def
  by (intro nx.grows_rules nav_grows ok grows_tax [OF grows_layer_2] grows_tax [OF grows_retry_post])

lemma grows_abandon_inputs [nav_grows]:
  assumes ok: "nav_env_ok env"
  shows "io_grows (nav_extends env ctx) (mark_abandoned_from_inputs env ctx iid reason force)"
  unfolding mark_abandoned_from_inputs_def by (intro nx.grows_rules nav_grows ok)

lemma grows_mark_abandoned [nav_grows]:
  assumes ok: "nav_env_ok env"
  shows "io_grows (nav_extends env ctx) (mark_abandoned env ctx tenant iid reason force)"
  unfolding mark_abandoned_def by (intro nx.grows_rules nav_grows ok)

lemma grows_submit [nav_grows]:
  assumes ok: "nav_env_ok env"
  shows "io_grows (nav_extends env ctx) (submit_from_inputs env ctx args)"
  unfolding submit_from_inputs_def Let_def
  by (intro nx.grows_rules nav_grows ok grows_tax [OF grows_prepare] grows_tax [OF grows_submit_prepared])

lemma grows_mark_paid_check [nav_grows]:
  assumes ok: "nav_env_ok env"
  shows "io_grows (nav_extends env ctx) (mark_paid_check env i)"
  unfolding mark_paid_check_def by (intro nx.grows_rules nav_grows ok)

lemma grows_mark_paid_write [nav_grows]:
  assumes ok: "nav_env_ok env"
  shows "io_grows (nav_extends env ctx) (mark_paid_write env ctx i)"
  unfolding mark_paid_write_def by (intro nx.grows_rules nav_grows ok)

end
