(* ===== verification/Nav_Calm.thy ===== *)
theory Nav_Calm
  imports Nav_Invariant
begin

text \<open>
  The submission commands when nothing goes wrong below them: the connection is open, no failure
  is parked, the file system and the engine answer, and the transactions commit. Then reads, writes
  and flushes succeed.
\<close>

section \<open>The handle\<close>

definition undisturbed :: "'d handle_env \<Rightarrow> bool" where
  "undisturbed env \<longleftrightarrow>
     (\<forall>n. he_open env n = None) \<and> (\<forall>n. he_clone env n = None) \<and> (\<forall>n p. he_fsync env n p = None)"

definition calm :: "('d \<Rightarrow> 'd \<Rightarrow> bool) \<Rightarrow> 'd handle_env \<Rightarrow> 'd db_handle \<Rightarrow> bool" where
  "calm le env h \<longleftrightarrow> settled le env h \<and> hd_conn h \<noteq> None \<and> (\<forall>e. hd_last_ack h \<noteq> Some (Inl e))"

lemma calmD:
  assumes "calm le env h"
  shows "settled le env h" "behind le env h" "\<not> hd_poisoned h" "hd_conn h \<noteq> None"
    "hd_last_ack h = None \<or> hd_last_ack h = Some (Inr ())" "\<not> live_file_swapped env h"
proof -
  show "settled le env h" "behind le env h" "\<not> hd_poisoned h" "hd_conn h \<noteq> None"
    using assms by (simp_all add: calm_def settled_def)
  show "hd_last_ack h = None \<or> hd_last_ack h = Some (Inr ())"
    using assms by (cases "hd_last_ack h"; cases "the (hd_last_ack h)") (auto simp: calm_def)
  show "\<not> live_file_swapped env h"
    by (rule not_swapped_behind [where le = le]) (use assms in \<open>simp_all add: calm_def settled_def\<close>)
qed

lemma ensure_open_open: "hd_conn s \<noteq> None \<Longrightarrow> ensure_open env s = (Inr (), s)"
  unfolding ensure_open_def io_bind_def io_get_def by (simp add: io_return_def del: not_None_eq)

lemma calm_handle_write:
  assumes "calm le env s"
  shows "handle_write env s = (Inr (), s)"
  using lock_recovering_clean [OF calmD(3) [OF assms]] ensure_open_open [OF calmD(4) [OF assms]]
  by (simp add: handle_write_def io_bind_def)

lemma calm_read:
  assumes u: "undisturbed env" and c: "calm le env s"
  shows "\<exists>t. handle_read env s = (Inr (live_content s), t) \<and> calm le env t"
proof -
  let ?t = "s\<lparr>hd_tick := hd_tick s + 1\<rparr>"
  have "handle_read env s = (Inr (conn_data ?t), ?t)"
    using u calmD(6) [OF c] lock_recovering_clean [OF calmD(3) [OF c]] ensure_open_open [OF calmD(4) [OF c]]
    by (simp add: handle_read_def io_bind_def io_modify_def io_get_def answer_def undisturbed_def)
  moreover have "conn_data ?t = live_content s"
    using conn_is_live [OF calmD(2,4) [OF c]] by (simp add: conn_data_def)
  moreover have "calm le env ?t" using c by (simp add: calm_def settled_def)
  ultimately show ?thesis by auto
qed

lemma undisturbed_flush:
  assumes "undisturbed env"
  shows "\<exists>t. fsync_data_paths env s = (Inr (), t)"
  using assms
  by (simp add: fsync_data_paths_def fsync_and_record_def answer_def undisturbed_def io_bind_def
      io_get_def io_modify_def io_return_def)

lemma undisturbed_checkpoint:
  assumes "undisturbed env" and "run_durable_checkpoint_locked env s = (r, t)"
  shows "hd_conn t \<noteq> None"
proof -
  obtain q s1 where 1: "live_durable_checkpoint env (s\<lparr>hd_conn := None\<rparr>) = (q, s1)" by fastforce
  show ?thesis using assms 1
    by (auto simp: run_durable_checkpoint_locked_def io_bind_def io_modify_def io_return_def
        io_attempt_def open_runtime_connection_def answer_def undisturbed_def)
qed

lemma calm_drop:
  assumes lo: "log_order le env" and u: "undisturbed env" and c: "calm le env s"
    and g: "guard_drop env s = (r, t)"
  shows "calm le env t"
proof -
  have set: "settled le env t"
    using guard_drop_settled [OF lo calmD(1) [OF c] g] by (simp add: caught_up_def)
  obtain a s1 where 1: "fsync_data_paths env s = (a, s1)"
    and 2: "guard_drop env s = (Inr (), dropped env a s1) \<or>
      (\<exists>ok t. run_durable_checkpoint_locked env (dropped env a s1) = (Inr ok, t) \<and>
              guard_drop env s = (Inr (), t))"
    by (rule guard_drop_run [OF calmD(6) [OF c]])
  have a: "a = Inr ()" using undisturbed_flush [OF u, of s] 1 by auto
  have f: "hd_last_ack s1 = hd_last_ack s" "hd_conn s1 = hd_conn s"
    using fsync_data_paths_frame [OF 1] by (simp_all add: same_but_flushed_def)
  have d: "hd_last_ack (dropped env a s1) = Some (Inr ())" "hd_conn (dropped env a s1) \<noteq> None"
    using calmD(4,5) [OF c] by (auto simp: dropped_ack dropped_frame f a)
  from 2 g consider "t = dropped env a s1"
    | ok where "run_durable_checkpoint_locked env (dropped env a s1) = (Inr ok, t)" by auto
  then show ?thesis
  proof cases
    case 1
    then show ?thesis using set d by (simp add: calm_def)
  next
    case 2
    have "hd_last_ack t = Some (Inr ())"
      using run_checkpoint_frame [OF log_orderD(5) [OF lo] 2] d by (simp add: checkpointed_def)
    then show ?thesis using set undisturbed_checkpoint [OF u 2] by (simp add: calm_def)
  qed
qed

lemma calm_ack:
  assumes lo: "log_order le env" and u: "undisturbed env" and c: "calm le env s"
  shows "\<exists>t. durable_ack env s = (Inr (), t) \<and> calm le env t"
proof -
  let ?s1 = "s\<lparr>hd_last_ack := None\<rparr>"
  have run: "durable_ack env s = (case hd_last_ack s of
      Some q \<Rightarrow> (q, ?s1) | None \<Rightarrow> fsync_data_paths env ?s1)"
    using lock_recovering_clean [OF calmD(3) [OF c]] calmD(6) [OF c]
    by (simp add: durable_ack_def io_bind_def io_get_def io_modify_def io_lift_def split: option.splits)
  obtain t where 2: "fsync_data_paths env ?s1 = (Inr (), t)" using undisturbed_flush [OF u] by blast
  obtain x where x: "durable_ack env s = (Inr (), x)"
    "hd_conn x = hd_conn s \<and> hd_last_ack x = None"
    using calmD(5) [OF c] fsync_data_paths_frame [OF 2] 2 unfolding run
    by (auto simp: same_but_flushed_def)
  have "settled le env x"
    using durable_ack_settled [OF lo calmD(1) [OF c] x(1)] by (simp add: caught_up_def)
  then show ?thesis using x calmD(4) [OF c] by (auto simp: calm_def)
qed

lemma calm_db_write:
  assumes lo: "log_order le env" and u: "undisturbed env" and c: "calm le env s"
    and mono: "\<forall>d a d'. f d = Inr (a, d') \<longrightarrow> le d d'"
    and f: "f (live_content s) = Inr (a, d)"
  shows "\<exists>t. db_write env err f s = (Inr a, t) \<and> calm le env t"
proof -
  have t: "transact f s = (Inr a, set_conn_data d s)"
    using f conn_is_live [OF calmD(2,4) [OF c]] by (simp add: transact_def)
  obtain r g where g: "guard_drop env (set_conn_data d s) = (r, g)" by fastforce
  have "behind le env (set_conn_data d s)"
    by (rule behind_set_conn_data [OF lo calmD(2) [OF c]])
      (use mono f conn_is_live [OF calmD(2,4) [OF c]] in auto)
  then have "calm le env (set_conn_data d s)"
    using c by (simp add: calm_def settled_def set_conn_data_def)
  from calm_drop [OF lo u this g] have "calm le env g" .
  moreover have "db_write env err f s = (Inr a, g)"
    using calm_handle_write [OF c] t g by (simp add: db_write_def io_bind_def io_map_err_def in_window_def)
  ultimately show ?thesis by blast
qed

section \<open>The commands' accesses\<close>

text \<open>
  \<open>nav_smooth\<close>: the engine and the disk answer, transactions commit, and the mirror can be
  synchronised when it is not ahead of the ledger.
\<close>

definition nav_smooth :: "nav_env \<Rightarrow> bool" where
  "nav_smooth env \<longleftrightarrow> nav_env_ok env \<and> undisturbed (ne_handle env) \<and> (\<forall>n. ne_commit env n = None) \<and>
     (\<forall>n d m. nd_le m d \<longrightarrow> he_sync_error (ne_handle env) n d m = None)"

definition nav_calm :: "nav_env \<Rightarrow> nav_ctx \<Rightarrow> nat \<Rightarrow> nav_state \<Rightarrow> bool" where
  \<comment> \<open>with room for that many rows\<close>
  "nav_calm env ctx k s \<longleftrightarrow> nav_inv env ctx s \<and> calm nd_le (ne_handle env) (nv_handle s) \<and>
     length (nav_rows s) + k < 2 ^ 63"

lemma nav_smoothD:
  assumes "nav_smooth env"
  shows "nav_env_ok env" "undisturbed (ne_handle env)" "ne_commit env n = None"
    "log_order nd_le (ne_handle env)" "nd_le m d \<Longrightarrow> he_sync_error (ne_handle env) n' d m = None"
  using assms nav_env_okD(3) by (simp_all add: nav_smooth_def)

lemma nav_calmD:
  assumes "nav_calm env ctx k s"
  shows "nav_inv env ctx s" "calm nd_le (ne_handle env) (nv_handle s)" "length (nav_rows s) + k < 2 ^ 63"
    "ledger_inv (ne_ledger env) (nc_meta ctx) (nav_rows s)"
  using assms nav_invD(3) [of env ctx s] by (simp_all add: nav_calm_def)

lemma nav_calm_tax [simp]: "nav_calm env (ctx\<lparr>nc_tax_number_8 := x\<rparr>) k s = nav_calm env ctx k s"
  by (simp add: nav_calm_def)

lemma append_writes_succeed:
  assumes "ledger_inv (ne_ledger env) (nc_meta ctx) rows" and "length rows + length ws < 2 ^ 63"
  shows "\<exists>rows'. append_writes env ctx n ws rows = Inr rows'"
  using assms
proof (induction ws arbitrary: n rows)
  case (Cons w ws)
  obtain k pl key where w: "w = (k, pl, key)" by (cases w)
  define rq where "rq = \<lparr>rq_stamp = ne_stamp env n, rq_kind = InvoiceEvent k, rq_subject = [],
    rq_payload = pl, rq_actor = nc_actor ctx, rq_idem = Some (idem_text env key), rq_session = None\<rparr>"
  have "length (ledger_entries (ne_ledger env) rows) + 1 < 2 ^ 63"
    using Cons.prems ledger_inv_length [OF Cons.prems(1)] by simp
  from sink.append_ok [OF Cons.prems(1) this, of rq] obtain i rows1 where
    "ledger_append (ne_ledger env) (nc_meta ctx) rq rows = Inr (i, rows1)" by blast
  then have 1: "append_in_tx (ne_ledger env) (nc_meta ctx) (ne_stamp env n) (InvoiceEvent k) pl (nc_actor ctx)
      (Some (idem_text env key)) rows = Inr (i, rows1)"
    by (simp add: ledger_append_def append_in_tx_def rq_def)
  have l: "length rows1 = length rows + 1" using append_in_tx_row [OF 1] by auto
  have "ledger_inv (ne_ledger env) (nc_meta ctx) rows1"
    by (rule append_in_tx_inv [OF Cons.prems(1) _ 1]) (use Cons.prems(2) in simp)
  from Cons.IH [OF this, of "n + 1"] obtain rows' where "append_writes env ctx (n + 1) ws rows1 = Inr rows'"
    using l Cons.prems(2) by auto
  then show ?case by (simp add: w 1)
qed simp

lemma calm_write_audit:
  assumes sm: "nav_smooth env" and c: "nav_calm env ctx (length ws + k) s"
  shows "\<exists>t. write_audit env ctx ws s = (Inr (), t) \<and> nav_calm env ctx k t"
proof -
  have "length (nav_rows s) + length ws < 2 ^ 63" using nav_calmD(3) [OF c] by simp
  from append_writes_succeed [OF nav_calmD(4) [OF c] this, of "nv_tick s"] obtain rows' where
    "append_writes env ctx (nv_tick s) ws (nav_rows s) = Inr rows'" by blast
  then have f: "audit_tx env ctx (nv_tick s) ws (live_content (nv_handle s)) =
      Inr ((), (live_content (nv_handle s))\<lparr>nd_rows := rows'\<rparr>)"
    using nav_smoothD(3) [OF sm] by (simp add: audit_tx_def nav_rows_def)
  have mono: "\<forall>d a d'. audit_tx env ctx (nv_tick s) ws d = Inr (a, d') \<longrightarrow> nd_le d d'"
    using audit_tx_le by blast
  from calm_db_write [OF nav_smoothD(4,2) [OF sm] nav_calmD(2) [OF c] mono f, of NeDb] obtain h where
    "db_write (ne_handle env) NeDb (audit_tx env ctx (nv_tick s) ws) (nv_handle s) = (Inr (), h)"
    and h: "calm nd_le (ne_handle env) h" by blast
  then have w: "write_audit env ctx ws s = (Inr (), s\<lparr>nv_handle := h, nv_tick := nv_tick s + length ws\<rparr>)"
    by (simp add: write_audit_def)
  from write_audit_adds(1) [OF nav_smoothD(1) [OF sm] nav_calmD(1) [OF c] w] obtain new where
    new: "adds env ctx s (s\<lparr>nv_handle := h, nv_tick := nv_tick s + length ws\<rparr>) new []"
    "list_all2 (row_of_write env) ws new" by auto
  have "nav_calm env ctx k (s\<lparr>nv_handle := h, nv_tick := nv_tick s + length ws\<rparr>)"
    using new h nav_calmD(3) [OF c] by (simp add: nav_calm_def adds_def list_all2_lengthD)
  then show ?thesis using w by blast
qed

lemma calm_nav_durable_ack:
  assumes sm: "nav_smooth env" and c: "nav_calm env ctx k s"
  shows "\<exists>t. nav_durable_ack env s = (Inr (), t) \<and> nav_calm env ctx k t"
proof -
  from calm_ack [OF nav_smoothD(4,2) [OF sm] nav_calmD(2) [OF c]] obtain h where
    "durable_ack (ne_handle env) (nv_handle s) = (Inr (), h)" and h: "calm nd_le (ne_handle env) h" by blast
  then have a: "nav_durable_ack env s = (Inr (), s\<lparr>nv_handle := h\<rparr>)"
    by (simp add: nav_durable_ack_def on_handle_def io_map_err_def)
  with nav_durable_ack_adds [OF nav_smoothD(1) [OF sm] nav_calmD(1) [OF c] a] h nav_calmD(3) [OF c]
  show ?thesis by (simp add: nav_calm_def adds_def)
qed

lemma calm_nav_read:
  assumes sm: "nav_smooth env" and c: "nav_calm env ctx k s"
  shows "\<exists>t. nav_read env s = (Inr (live_content (nv_handle s)), t) \<and> nav_calm env ctx k t \<and>
    live_content (nv_handle t) = live_content (nv_handle s) \<and> nv_wire t = nv_wire s \<and>
    nv_tick t = nv_tick s"
proof -
  from calm_read [OF nav_smoothD(2) [OF sm] nav_calmD(2) [OF c]] obtain h where
    1: "handle_read (ne_handle env) (nv_handle s) = (Inr (live_content (nv_handle s)), h)"
    and h: "calm nd_le (ne_handle env) h" by blast
  then have a: "nav_read env s = (Inr (live_content (nv_handle s)), s\<lparr>nv_handle := h\<rparr>)"
    by (simp add: nav_read_def on_handle_def io_map_err_def)
  have "live_content h = live_content (nv_handle s)"
    using handle_read_settled [OF calmD(1) [OF nav_calmD(2) [OF c]] 1] by (simp add: caught_up_def)
  with a nav_read_adds [OF nav_smoothD(1) [OF sm] nav_calmD(1) [OF c] a] h nav_calmD(3) [OF c]
  show ?thesis by (simp add: nav_calm_def adds_def)
qed

end
