(* ===== verification/Nav_Quiet.thy ===== *)
theory Nav_Quiet
  imports Nav_Calm
begin

text \<open>
  The part of a command before anything is written or an invoice is posted: it reads, checks and
  asks NAV for a token. What holds after the rest of a command is stated from the state the command
  began in.
\<close>

definition posts :: "wire_event list \<Rightarrow> wire_event list" where
  "posts wire = filter (\<lambda>w. we_operation w = ''manageInvoice'') wire"

lemma posts_append [simp]: "posts (a @ b) = posts a @ posts b"
  by (simp add: posts_def)

lemma posts_Nil [simp]: "posts [] = []"
  by (simp add: posts_def)

definition quiet_from :: "nav_env \<Rightarrow> nav_ctx \<Rightarrow> nav_state \<Rightarrow> nav_state \<Rightarrow> bool" where
  "quiet_from env ctx s t \<longleftrightarrow> (\<exists>wire. adds env ctx s t [] wire \<and> posts wire = []) \<and>
     live_content (nv_handle t) = live_content (nv_handle s)"

definition nav_quiet :: "nav_env \<Rightarrow> nav_ctx \<Rightarrow> nav_state \<Rightarrow> nav_state \<Rightarrow> bool" where
  "nav_quiet env ctx s t \<longleftrightarrow> (nav_inv env ctx s \<longrightarrow> quiet_from env ctx s t)"

lemma quiet_from_refl: "nav_inv env ctx s \<Longrightarrow> quiet_from env ctx s s"
  by (auto simp: quiet_from_def intro: adds_refl)

lemma quiet_from_trans: "quiet_from env ctx s t \<Longrightarrow> quiet_from env ctx t u \<Longrightarrow> quiet_from env ctx s u"
  unfolding quiet_from_def by (metis adds_trans append_Nil posts_append)

lemma quiet_from_inv: "quiet_from env ctx s t \<Longrightarrow> nav_inv env ctx t"
  by (auto simp: quiet_from_def dest: adds_inv)

lemma quiet_from_rows:
  "quiet_from env ctx s t \<Longrightarrow> nav_rows t = nav_rows s"
  by (simp add: quiet_from_def nav_rows_def)

lemma quiet_from_tax [simp]: "quiet_from env (ctx\<lparr>nc_tax_number_8 := x\<rparr>) = quiet_from env ctx"
  by (simp add: fun_eq_iff quiet_from_def)

lemma quiet_then_adds:
  assumes "quiet_from env ctx s u" and "adds env ctx u t rows wire"
  shows "\<exists>w. adds env ctx s t rows w \<and> posts w = posts wire"
proof -
  from assms(1) obtain w0 where "adds env ctx s u [] w0" "posts w0 = []" by (auto simp: quiet_from_def)
  with adds_trans [OF this(1) assms(2)] show ?thesis by (intro exI [of _ "w0 @ wire"]) simp
qed

interpretation qx: growth "nav_quiet env ctx" for env ctx
proof
  show "nav_quiet env ctx s s" for s by (simp add: nav_quiet_def quiet_from_refl)
  show "nav_quiet env ctx s u" if "nav_quiet env ctx s t" "nav_quiet env ctx t u" for s t u
    using that unfolding nav_quiet_def by (blast intro: quiet_from_trans dest: quiet_from_inv)
qed

named_theorems nav_quiets \<open>operations that write nothing and post no invoice\<close>

lemma quietI:
  assumes "\<And>s r t. nav_inv env ctx s \<Longrightarrow> m s = (r, t) \<Longrightarrow> quiet_from env ctx s t"
  shows "io_grows (nav_quiet env ctx) m"
  unfolding io_grows_def nav_quiet_def using assms by (metis prod.collapse)

lemma quiet_nav_read [nav_quiets]:
  assumes ok: "nav_env_ok env"
  shows "io_grows (nav_quiet env ctx) (nav_read env)"
proof (rule quietI)
  fix s r t assume i: "nav_inv env ctx s" and m: "nav_read env s = (r, t)"
  obtain q h where d: "handle_read (ne_handle env) (nv_handle s) = (q, h)" by fastforce
  then have "t = s\<lparr>nv_handle := h\<rparr>"
    using m by (simp add: nav_read_def on_handle_def io_map_err_def)
  moreover have "live_content h = live_content (nv_handle s)"
    using handle_read_settled [OF nav_invD(1) [OF i] d] by (simp add: caught_up_def)
  ultimately show "quiet_from env ctx s t"
    using nav_read_adds [OF ok i m] by (auto simp: quiet_from_def)
qed

lemma quiet_next_tick [nav_quiets]: "io_grows (nav_quiet env ctx) next_tick"
  by (rule quietI) (auto simp: next_tick_def quiet_from_def intro: adds_tick)

lemma quiet_http_post [nav_quiets]:
  assumes "operation \<noteq> ''manageInvoice''"
  shows "io_grows (nav_quiet env ctx) (http_post env operation body)"
proof (rule quietI)
  fix s r t assume i: "nav_inv env ctx s" and m: "http_post env operation body s = (r, t)"
  have "nv_handle t = nv_handle s" using m by (auto simp: http_post_def)
  then show "quiet_from env ctx s t"
    using adds_post [OF i m] assms by (fastforce simp: quiet_from_def posts_def)
qed

lemma quiet_transport_new [nav_quiets]: "io_grows (nav_quiet env ctx) (transport_new env)"
  unfolding transport_new_def by (intro qx.grows_rules nav_quiets)

lemma quiet_prepare [nav_quiets]:
  "io_grows (nav_quiet env ctx) (prepare_for_attempt_audit env ctx' xml operation)"
  unfolding prepare_for_attempt_audit_def token_exchange_call_def build_request_def
  by (intro qx.grows_rules nav_quiets) simp

lemma quiet_read_entries [nav_quiets]:
  "nav_env_ok env \<Longrightarrow> io_grows (nav_quiet env ctx) (read_entries env)"
  unfolding read_entries_def by (intro qx.grows_rules nav_quiets)

lemma quiet_verify [nav_quiets]:
  "nav_env_ok env \<Longrightarrow> io_grows (nav_quiet env ctx) (verify_chain_reusing_read env ctx')"
  unfolding verify_chain_reusing_read_def by (intro qx.grows_rules nav_quiets)

lemma quiet_load_issued [nav_quiets]:
  "nav_env_ok env \<Longrightarrow> io_grows (nav_quiet env ctx) (load_issued_invoice env iid)"
  unfolding load_issued_invoice_def by (intro qx.grows_rules nav_quiets)

lemma quiet_load_requested [nav_quiets]:
  "nav_env_ok env \<Longrightarrow> io_grows (nav_quiet env ctx) (load_requested_invoice env iid)"
  unfolding load_requested_invoice_def by (intro qx.grows_rules nav_quiets)

lemma quiet_try_acquire [nav_quiets]: "io_grows (nav_quiet env ctx) (try_acquire env iid)"
  unfolding try_acquire_def by (intro qx.grows_rules nav_quiets)

lemma quiet_acquire_or_refuse [nav_quiets]: "io_grows (nav_quiet env ctx) (acquire_or_refuse env iid)"
  unfolding acquire_or_refuse_def by (intro qx.grows_rules nav_quiets)

lemma quiet_resolve_stuck [nav_quiets]:
  "nav_env_ok env \<Longrightarrow> io_grows (nav_quiet env ctx) (resolve_stuck_or_loud_fail env iid key)"
  unfolding resolve_stuck_or_loud_fail_def by (intro qx.grows_rules nav_quiets)

lemma quiet_mark_paid_check [nav_quiets]:
  "nav_env_ok env \<Longrightarrow> io_grows (nav_quiet env ctx) (mark_paid_check env i)"
  unfolding mark_paid_check_def by (intro qx.grows_rules nav_quiets)

lemma quiet_from_run:
  "io_grows (nav_quiet env ctx) m \<Longrightarrow> quiet_from env ctx s0 s \<Longrightarrow> m s = (r, t) \<Longrightarrow> quiet_from env ctx s0 t"
  unfolding io_grows_def nav_quiet_def by (metis quiet_from_inv quiet_from_trans snd_conv)

section \<open>What holds after the rest\<close>

definition after ::
  "nav_env \<Rightarrow> nav_ctx \<Rightarrow> nav_state \<Rightarrow> (nav_state, 'e, 'a) io_op \<Rightarrow> ('e + 'a \<Rightarrow> nav_state \<Rightarrow> bool) \<Rightarrow> bool" where
  \<comment> \<open>the operation fails quietly, or the rest brings it to an end of that kind\<close>
  "after env ctx s0 m R \<longleftrightarrow>
     (\<forall>s r t. quiet_from env ctx s0 s \<longrightarrow> m s = (r, t) \<longrightarrow>
        (\<not> is_ok r \<and> quiet_from env ctx s0 t) \<or> R r t)"

lemma after_tax [simp]: "after env (ctx\<lparr>nc_tax_number_8 := x\<rparr>) = after env ctx"
  by (simp add: fun_eq_iff after_def)

lemma afterI:
  assumes "\<And>s r t. quiet_from env ctx s0 s \<Longrightarrow> m s = (r, t) \<Longrightarrow>
    (\<not> is_ok r \<and> quiet_from env ctx s0 t) \<or> R r t"
  shows "after env ctx s0 m R"
  using assms by (simp add: after_def)

lemma afterD:
  assumes "after env ctx s0 m R" and "nav_inv env ctx s0" and "m s0 = (r, t)"
  shows "(\<not> is_ok r \<and> quiet_from env ctx s0 t) \<or> R r t"
  using assms quiet_from_refl by (auto simp: after_def)

lemma after_bind:
  assumes m: "io_grows (nav_quiet env ctx) m"
    and f: "\<And>a s u. quiet_from env ctx s0 s \<Longrightarrow> m s = (Inr a, u) \<Longrightarrow> after env ctx s0 (f a) R"
  shows "after env ctx s0 (io_bind m f) R"
proof (rule afterI)
  fix s r t assume s: "quiet_from env ctx s0 s" and r: "io_bind m f s = (r, t)"
  obtain q u where q: "m s = (q, u)" by fastforce
  have u: "quiet_from env ctx s0 u" by (rule quiet_from_run [OF m s q])
  show "(\<not> is_ok r \<and> quiet_from env ctx s0 t) \<or> R r t"
  proof (cases q)
    case (Inl e)
    then have "r = Inl e" "t = u" using r q by (simp_all add: io_bind_def)
    then show ?thesis using u by simp
  next
    case (Inr a)
    then have "f a u = (r, t)" using r q by (simp add: io_bind_def)
    with f [OF s q [unfolded Inr]] u show ?thesis by (simp add: after_def)
  qed
qed

lemma after_bind_lift:
  assumes "\<And>a. x = Inr a \<Longrightarrow> after env ctx s0 (f a) R"
  shows "after env ctx s0 (io_bind (io_lift x) f) R"
  by (rule after_bind [OF qx.grows_lift]) (simp add: io_lift_def assms)

lemma after_fail: "after env ctx s0 (io_fail e) R"
  by (rule afterI) (auto simp: io_fail_def)

lemma after_map_err_bind:
  assumes m: "io_grows (nav_quiet env ctx) m"
    and f: "\<And>a s u. quiet_from env ctx s0 s \<Longrightarrow> m s = (Inr a, u) \<Longrightarrow> after env ctx s0 (f a) R"
  shows "after env ctx s0 (io_bind (io_map_err g m) f) R"
proof (rule after_bind [OF qx.grows_map_err [OF m]])
  fix a s u assume "quiet_from env ctx s0 s" and "io_map_err g m s = (Inr a, u)"
  then show "after env ctx s0 (f a) R"
    by (intro f [of s a u]) (auto simp: io_map_err_def split: prod.splits sum.splits)
qed

text \<open>What the reads find.\<close>

lemma quiet_entries:
  assumes ok: "nav_env_ok env" and q: "quiet_from env ctx s0 s" and m: "read_entries env s = (Inr es, t)"
  shows "read_all_entries (ne_ledger env) (nav_rows s0) = Inr es"
proof -
  have "map_err NeAudit (read_all_entries (ne_ledger env) (nav_rows s)) = Inr es"
    using read_entries_adds [OF ok quiet_from_inv [OF q] m] by simp
  then show ?thesis using quiet_from_rows [OF q] by (cases "read_all_entries (ne_ledger env) (nav_rows s)") auto
qed

definition loads :: "nav_env \<Rightarrow> nav_state \<Rightarrow> string \<Rightarrow> ready_invoice \<times> idem_key \<Rightarrow> bool" where
  "loads env s iid r \<longleftrightarrow>
     load_ready_invoice_by_id (ne_duck env) (nd_duck (live_content (nv_handle s))) iid = Inr (Some r)"

lemma quiet_loads:
  assumes ok: "nav_env_ok env" and q: "quiet_from env ctx s0 s"
    and m: "load_issued_invoice env iid s = (Inr r, t)"
  shows "loads env s0 iid r"
proof -
  have "live_content (nv_handle s) = live_content (nv_handle s0)" using q by (simp add: quiet_from_def)
  with read_then_lift_adds [OF ok quiet_from_inv [OF q] m [unfolded load_issued_invoice_def]]
  show ?thesis by (auto simp: loads_def res_simps split: option.splits sum.splits)
qed

lemma quiet_loads_requested:
  assumes ok: "nav_env_ok env" and q: "quiet_from env ctx s0 s"
    and m: "load_requested_invoice env iid s = (Inr (pinv, key), t)"
  shows "loads env s0 iid (pinv, key) \<and> invoice_key (ne_duck env) (ri_id pinv) = iid"
proof -
  from m obtain u where u: "load_issued_invoice env iid s = (Inr (pinv, key), u)"
    and "invoice_key (ne_duck env) (ri_id pinv) = iid"
    by (auto simp: load_requested_invoice_def io_bind_Inr io_lift_def io_return_def check_def split: if_splits)
  then show ?thesis using quiet_loads [OF ok q u] by simp
qed

end
