(* ===== verification/Nav_Runs.thy ===== *)
theory Nav_Runs
  imports Nav_Quiet
begin

text \<open>
  Runs of the submission commands that succeed: nothing goes wrong below them, NAV is reached,
  grants a token and answers with a transaction. What a run reads is what the database holds.
\<close>

section \<open>Steps that succeed\<close>

definition calm_at :: "nav_env \<Rightarrow> nav_ctx \<Rightarrow> nat \<Rightarrow> nav_db \<Rightarrow> nav_state \<Rightarrow> bool" where
  "calm_at env ctx k c s \<longleftrightarrow> nav_calm env ctx k s \<and> live_content (nv_handle s) = c"

definition quietly ::
  "nav_env \<Rightarrow> nav_ctx \<Rightarrow> nat \<Rightarrow> nav_db \<Rightarrow> (nav_state, 'e, 'a) io_op \<Rightarrow> ('a \<Rightarrow> bool) \<Rightarrow> bool" where
  "quietly env ctx k c m P \<longleftrightarrow>
     (\<forall>s. calm_at env ctx k c s \<longrightarrow> (\<exists>a t. m s = (Inr a, t) \<and> P a \<and> calm_at env ctx k c t))"

definition succeeds ::
  "nav_env \<Rightarrow> nav_ctx \<Rightarrow> nat \<Rightarrow> nav_db \<Rightarrow> (nav_state, 'e, 'a) io_op \<Rightarrow> ('a \<Rightarrow> bool) \<Rightarrow> bool" where
  \<comment> \<open>with the room for the rows that are written\<close>
  "succeeds env ctx k c m P \<longleftrightarrow>
     (\<forall>s. calm_at env ctx k c s \<longrightarrow> (\<exists>a t. m s = (Inr a, t) \<and> P a \<and> nav_calm env ctx 0 t))"

named_theorems nav_steps \<open>steps that succeed\<close>

lemma calm_at_tax [simp]: "calm_at env (ctx\<lparr>nc_tax_number_8 := x\<rparr>) = calm_at env ctx"
  by (simp add: fun_eq_iff calm_at_def)

lemma quietly_tax [simp]: "quietly env (ctx\<lparr>nc_tax_number_8 := x\<rparr>) = quietly env ctx"
  by (simp add: fun_eq_iff quietly_def)

lemma succeeds_tax [simp]: "succeeds env (ctx\<lparr>nc_tax_number_8 := x\<rparr>) = succeeds env ctx"
  by (simp add: fun_eq_iff succeeds_def)

lemma calm_at_here: "nav_calm env ctx k s \<Longrightarrow> calm_at env ctx k (live_content (nv_handle s)) s"
  by (simp add: calm_at_def)

lemma quietly_return: "P a \<Longrightarrow> quietly env ctx k c (io_return a) P"
  by (simp add: quietly_def io_return_def)

lemma quietly_lift: "r = Inr a \<Longrightarrow> P a \<Longrightarrow> quietly env ctx k c (io_lift r) P"
  by (simp add: quietly_def io_lift_def)

lemma quietly_bind:
  assumes "quietly env ctx k c m P" and "\<And>a. P a \<Longrightarrow> quietly env ctx k c (f a) Q"
  shows "quietly env ctx k c (io_bind m f) Q"
  unfolding quietly_def
proof (intro allI impI)
  fix s assume "calm_at env ctx k c s"
  with assms(1) obtain a u where "m s = (Inr a, u)" "P a" "calm_at env ctx k c u"
    unfolding quietly_def by blast
  then show "\<exists>a t. io_bind m f s = (Inr a, t) \<and> Q a \<and> calm_at env ctx k c t"
    using assms(2) [of a] by (simp add: quietly_def io_bind_run)
qed

lemma quietly_map_err: "quietly env ctx k c m P \<Longrightarrow> quietly env ctx k c (io_map_err g m) P"
  unfolding quietly_def io_map_err_def by fastforce

lemma quietly_weaken: "quietly env ctx k c m P \<Longrightarrow> (\<And>a. P a \<Longrightarrow> Q a) \<Longrightarrow> quietly env ctx k c m Q"
  unfolding quietly_def by blast

lemma succeeds_bind:
  assumes "quietly env ctx k c m P" and "\<And>a. P a \<Longrightarrow> succeeds env ctx k c (f a) Q"
  shows "succeeds env ctx k c (io_bind m f) Q"
  unfolding succeeds_def
proof (intro allI impI)
  fix s assume "calm_at env ctx k c s"
  with assms(1) obtain a u where "m s = (Inr a, u)" "P a" "calm_at env ctx k c u"
    unfolding quietly_def by blast
  then show "\<exists>a t. io_bind m f s = (Inr a, t) \<and> Q a \<and> nav_calm env ctx 0 t"
    using assms(2) [of a] by (simp add: succeeds_def io_bind_run)
qed

lemma succeeds_weaken: "succeeds env ctx k c m P \<Longrightarrow> (\<And>a. P a \<Longrightarrow> Q a) \<Longrightarrow> succeeds env ctx k c m Q"
  unfolding succeeds_def by blast

lemma succeeds_lift:
  assumes "r = Inr a" and "succeeds env ctx k c (f a) Q"
  shows "succeeds env ctx k c (io_bind (io_lift r) f) Q"
  using assms by (simp add: succeeds_def io_bind_def io_lift_def)

lemma succeeds_then:
  assumes "succeeds env ctx k c m P"
    and "\<And>a s. P a \<Longrightarrow> nav_calm env ctx 0 s \<Longrightarrow> \<exists>b t. f a s = (Inr b, t) \<and> Q b \<and> nav_calm env ctx 0 t"
  shows "succeeds env ctx k c (io_bind m f) Q"
  unfolding succeeds_def
proof (intro allI impI)
  fix s assume "calm_at env ctx k c s"
  with assms(1) obtain a u where "m s = (Inr a, u)" "P a" "nav_calm env ctx 0 u"
    unfolding succeeds_def by blast
  then show "\<exists>b t. io_bind m f s = (Inr b, t) \<and> Q b \<and> nav_calm env ctx 0 t"
    using assms(2) [of a u] by (simp add: io_bind_run)
qed

lemma succeeds_run:
  "succeeds env ctx k c m P \<Longrightarrow> calm_at env ctx k c s \<Longrightarrow> \<exists>a t. m s = (Inr a, t) \<and> P a \<and> nav_calm env ctx 0 t"
  by (simp add: succeeds_def)

section \<open>Reads\<close>

lemma quietly_nav_read:
  assumes "nav_smooth env"
  shows "quietly env ctx k c (nav_read env) (\<lambda>d. d = c)"
  using calm_nav_read [OF assms] unfolding quietly_def calm_at_def by fastforce

lemma calm_entries:
  assumes "calm_at env ctx k c s"
  shows "read_all_entries (ne_ledger env) (nd_rows c) = Inr (ledger_entries (ne_ledger env) (nd_rows c))"
proof -
  have "ledger_inv (ne_ledger env) (nc_meta ctx) (nd_rows c)"
    using assms nav_calmD(4) by (auto simp: calm_at_def nav_rows_def)
  then show ?thesis by (auto simp: ledger_inv_rep intro: rep_read_all)
qed

lemma quietly_read_entries:
  assumes "nav_smooth env"
  shows "quietly env ctx k c (read_entries env) (\<lambda>es. es = ledger_entries (ne_ledger env) (nd_rows c))"
proof -
  have "\<exists>a t. read_entries env s = (Inr a, t) \<and> a = ledger_entries (ne_ledger env) (nd_rows c) \<and>
      calm_at env ctx k c t" if s: "calm_at env ctx k c s" for s
  proof -
    from quietly_nav_read [OF assms] s obtain t where "nav_read env s = (Inr c, t)" "calm_at env ctx k c t"
      unfolding quietly_def by blast
    then show ?thesis
      by (simp add: read_entries_def io_bind_def io_lift_def calm_entries [OF s])
  qed
  then show ?thesis unfolding quietly_def by blast
qed

lemma quietly_verify:
  assumes "nav_smooth env"
  shows "quietly env ctx k c (verify_chain_reusing_read env ctx) (\<lambda>n. n = length (nd_rows c))"
proof -
  have "\<exists>a t. verify_chain_reusing_read env ctx s = (Inr a, t) \<and> a = length (nd_rows c) \<and>
      calm_at env ctx k c t" if s: "calm_at env ctx k c s" for s
  proof -
    from quietly_nav_read [OF assms] s obtain t where "nav_read env s = (Inr c, t)" "calm_at env ctx k c t"
      unfolding quietly_def by blast
    moreover have "ledger_inv (ne_ledger env) (nc_meta ctx) (nd_rows c)"
      using s nav_calmD(4) by (auto simp: calm_at_def nav_rows_def)
    ultimately show ?thesis
      by (simp add: verify_chain_reusing_read_def io_bind_def io_lift_def ledger_inv_verifies)
  qed
  then show ?thesis unfolding quietly_def by blast
qed

lemma quietly_load_requested:
  assumes sm: "nav_smooth env"
    and l: "load_ready_invoice_by_id (ne_duck env) (nd_duck c) iid = Inr (Some (pinv, key))"
    and k: "invoice_key (ne_duck env) (ri_id pinv) = iid"
  shows "quietly env ctx n c (load_requested_invoice env iid) (\<lambda>r. r = (pinv, key))"
  unfolding load_requested_invoice_def load_issued_invoice_def
  by (rule quietly_bind [where P = "\<lambda>r. r = (pinv, key)"], rule quietly_bind [OF quietly_nav_read [OF sm]])
    (simp_all add: l k quietly_def io_lift_def io_bind_def io_return_def check_def)

lemma quietly_load_issued:
  assumes sm: "nav_smooth env"
    and l: "load_ready_invoice_by_id (ne_duck env) (nd_duck c) iid = Inr (Some (pinv, key))"
  shows "quietly env ctx n c (load_issued_invoice env iid) (\<lambda>r. r = (pinv, key))"
  unfolding load_issued_invoice_def
  by (rule quietly_bind [OF quietly_nav_read [OF sm]]) (simp add: l quietly_def io_lift_def)

section \<open>NAV\<close>

text \<open>NAV is reached and answers: a token for every request for one, and for every invoice the
  outcome given. The locks of invoices are free.\<close>

definition nav_accepts :: "nav_env \<Rightarrow> send_outcome \<Rightarrow> bool" where
  "nav_accepts env so \<longleftrightarrow>
     (\<forall>n iid. ne_try_acquire env n iid = Inr True) \<and>
     (\<forall>n. ne_connect env n = None) \<and>
     (\<forall>n tax. \<exists>b. ne_token_request env n tax = Inr b) \<and>
     (\<forall>n b. \<exists>tok. token_exchange_result (ne_lib env) (ne_change_key env)
                     (ne_http env n ''tokenExchange'' b) = Inr tok) \<and>
     (\<forall>n tax tok items. \<exists>b. ne_manage_request env n tax tok items = Inr b) \<and>
     (\<forall>n b. manage_invoice_result (ne_lib env) (ne_http env n ''manageInvoice'' b) = Inr so)"

lemma calm_at_frame:
  assumes "calm_at env ctx k c s" and "nv_handle t = nv_handle s" and "nav_inv env ctx t"
  shows "calm_at env ctx k c t"
  using assms by (auto simp: calm_at_def nav_calm_def nav_rows_def)

lemma quietly_next_tick: "quietly env ctx k c next_tick (\<lambda>n. True)"
  unfolding quietly_def next_tick_def by (auto simp: calm_at_def nav_calm_def nav_rows_def)

lemma quietly_http_post:
  assumes "operation \<noteq> ''manageInvoice''"
  shows "quietly env ctx k c (http_post env operation body) (\<lambda>a. \<exists>n. a = ne_http env n operation body)"
  unfolding quietly_def
proof (intro allI impI)
  fix s assume s: "calm_at env ctx k c s"
  obtain a t where p: "(http_post env operation body s :: ('a + _) \<times> _) = (Inr a, t)" unfolding http_post_def by blast
  have "nav_inv env ctx s" using s by (simp add: calm_at_def nav_calm_def)
  from adds_post [OF this p] assms have "nav_inv env ctx t" by (auto dest: adds_inv)
  moreover have "nv_handle t = nv_handle s" using p by (auto simp: http_post_def)
  ultimately have "calm_at env ctx k c t" using calm_at_frame [OF s] by blast
  moreover have "a = ne_http env (nv_tick s) operation body" using p by (simp add: http_post_def)
  ultimately show "\<exists>a t. (http_post env operation body s :: ('a + _) \<times> _) = (Inr a, t) \<and>
      (\<exists>n. a = ne_http env n operation body) \<and> calm_at env ctx k c t"
    using p by blast
qed

lemma quietly_prepare:
  assumes a: "nav_accepts env so"
  shows "quietly env ctx k c (prepare_for_attempt_audit env ctx' xml operation) (\<lambda>_. True)"
  unfolding prepare_for_attempt_audit_def
proof (rule quietly_bind [where P = "\<lambda>_. True"])
  show "quietly env ctx k c (transport_new env) (\<lambda>_. True)"
    unfolding transport_new_def
    by (rule quietly_bind [OF quietly_next_tick])
      (use a in \<open>simp add: nav_accepts_def quietly_def io_return_def\<close>)
  have tok: "quietly env ctx k c (token_exchange_call env ctx') (\<lambda>_. True)"
    unfolding token_exchange_call_def
  proof (rule quietly_bind [OF quietly_next_tick])
    fix n
    from a obtain b where b: "ne_token_request env n (nc_tax_number_8 ctx') = Inr b"
      unfolding nav_accepts_def by blast
    have fin: "quietly env ctx k c (io_lift (token_exchange_result (ne_lib env) (ne_change_key env)
        (ne_http env n' ''tokenExchange'' b))) (\<lambda>_. True)" for n'
    proof -
      from a obtain tk where "token_exchange_result (ne_lib env) (ne_change_key env)
        (ne_http env n' ''tokenExchange'' b) = Inr tk" unfolding nav_accepts_def by blast
      then show ?thesis by (simp add: quietly_def io_lift_def)
    qed
    have "quietly env ctx k c (io_bind (http_post env ''tokenExchange'' b) (\<lambda>a.
       io_lift (token_exchange_result (ne_lib env) (ne_change_key env) a))) (\<lambda>_. True)"
      by (rule quietly_bind [OF quietly_http_post]) (use fin in auto)
    then show "quietly env ctx k c (io_bind (io_lift (ne_token_request env n (nc_tax_number_8 ctx'))) (\<lambda>body.
     io_bind (http_post env ''tokenExchange'' body) (\<lambda>a.
       io_lift (token_exchange_result (ne_lib env) (ne_change_key env) a)))) (\<lambda>_. True)"
      by (simp add: b io_bind_def io_lift_def quietly_def)
  qed
  have build: "quietly env ctx k c (build_request env ctx' token [(operation, xml)]) (\<lambda>_. True)" for token
    unfolding build_request_def
  proof (rule quietly_bind [OF quietly_next_tick])
    fix n
    from a obtain b where "ne_manage_request env n (nc_tax_number_8 ctx') token [(operation, xml)] = Inr b"
      unfolding nav_accepts_def by blast
    then show "quietly env ctx k c (io_lift (and_then (check ([(operation, xml)] \<noteq> []) ManageInvoiceEmpty) (\<lambda>_.
       and_then (check (length [(operation, xml)] \<le> 100) (ManageInvoiceTooManyItems (length [(operation, xml)]))) (\<lambda>_.
         ne_manage_request env n (nc_tax_number_8 ctx') token [(operation, xml)])))) (\<lambda>_. True)"
      by (simp add: quietly_def io_lift_def check_def)
  qed
  show "quietly env ctx k c (io_bind (token_exchange_call env ctx') (\<lambda>token.
       build_request env ctx' token [(operation, xml)])) (\<lambda>_. True)"
    by (rule quietly_bind [OF tok build])
qed

section \<open>Writing, sending, recording\<close>

lemma calm_flushed_write:
  assumes sm: "nav_smooth env" and c: "nav_calm env ctx (length ws + k) s"
  shows "\<exists>t. flushed_write env ctx ws s = (Inr (), t) \<and> nav_calm env ctx k t"
proof -
  from calm_write_audit [OF sm c] obtain u where
    u: "write_audit env ctx ws s = (Inr (), u)" "nav_calm env ctx k u" by blast
  from calm_nav_durable_ack [OF sm u(2)] obtain t where
    "nav_durable_ack env u = (Inr (), t)" "nav_calm env ctx k t" by blast
  with u(1) show ?thesis by (simp add: flushed_write_def io_bind_run)
qed

lemma calm_verify:
  assumes sm: "nav_smooth env" and c: "nav_calm env ctx k s"
  shows "\<exists>t n. verify_chain_reusing_read env ctx s = (Inr n, t) \<and> nav_calm env ctx k t"
  using quietly_verify [OF sm] calm_at_here [OF c] unfolding quietly_def by (metis calm_at_def)

lemma calm_sync:
  assumes sm: "nav_smooth env" and c: "nav_calm env ctx k s" and st: "stable_rows s = nav_rows s"
  shows "\<exists>t. ledger_sync_mirror env (live_content (nv_handle s)) s = (Inr (), t) \<and> nav_calm env ctx k t"
proof -
  let ?h = "nv_handle s"
  have "nd_le (hd_mirror ?h) (live_content ?h)"
    using behind_live [OF nav_smoothD(4) [OF sm] calmD(2) [OF nav_calmD(2) [OF c]]]
    by (simp add: live_content_def)
  then obtain t where t: "ledger_sync_mirror env (live_content ?h) s = (Inr (), t)"
    using nav_smoothD(5) [OF sm]
    by (simp add: ledger_sync_mirror_def on_handle_def io_map_err_def sync_mirror_from_def)
  have a: "adds env ctx s t [] []" by (rule sync_adds [OF nav_smoothD(1) [OF sm] nav_calmD(1) [OF c] st t])
  have "hd_conn (nv_handle t) = hd_conn ?h" "hd_last_ack (nv_handle t) = hd_last_ack ?h"
    using t by (auto simp: ledger_sync_mirror_def on_handle_def io_map_err_def sync_mirror_from_def)
  then have "calm nd_le (ne_handle env) (nv_handle t)"
    using nav_calmD(2) [OF c] nav_invD(1) [OF adds_inv [OF a]] by (simp add: calm_def)
  then have "nav_calm env ctx k t" using a nav_calmD(3) [OF c] by (simp add: nav_calm_def adds_def)
  then show ?thesis using t by blast
qed

lemma calm_verify_after:
  assumes sm: "nav_smooth env" and c: "nav_calm env ctx k s" and st: "stable_rows s = nav_rows s"
  shows "\<exists>t n. verify_after env ctx b s = (Inr n, t) \<and> nav_calm env ctx k t"
proof (cases b)
  case False
  then show ?thesis using calm_verify [OF sm c] by (simp add: verify_after_def)
next
  case True
  from calm_verify [OF sm c] obtain v n where
    v: "verify_chain_reusing_read env ctx s = (Inr n, v)" by blast
  from calm_nav_read [OF sm c] obtain u where
    u: "nav_read env s = (Inr (live_content (nv_handle s)), u)" "nav_calm env ctx k u"
      "live_content (nv_handle u) = live_content (nv_handle s)" by blast
  have "stable_rows u = nav_rows u"
    by (rule adds_stable [OF conjunct1 [OF nav_read_adds [OF nav_smoothD(1) [OF sm] nav_calmD(1) [OF c] u(1)]] st])
  from calm_sync [OF sm u(2) this] obtain t where
    t: "ledger_sync_mirror env (live_content (nv_handle s)) u = (Inr (), t)" "nav_calm env ctx k t"
    using u(3) by auto
  have "verify_after env ctx b s = (Inr n, t)"
    using v u(1) t(1) True
    by (simp add: verify_after_def verify_chain_and_sync_reusing_conn_def verify_chain_reusing_read_def
        io_bind_def io_lift_def io_return_def)
  then show ?thesis using t(2) by blast
qed

lemma submit_prepared_succeeds:
  assumes sm: "nav_smooth env" and a: "nav_accepts env so" and k: "k = length before + 2"
  shows "succeeds env ctx k c (submit_prepared env ctx b iid key before req)
    (\<lambda>r. r = Inr (so_transaction_id so))"
  unfolding succeeds_def
proof (intro allI impI)
  fix s assume "calm_at env ctx k c s"
  then have s: "nav_calm env ctx (length (before @ [attempt_write env ctx iid key req]) + 1) s"
    by (simp add: calm_at_def k)
  from calm_flushed_write [OF sm s] obtain u where
    u: "flushed_write env ctx (before @ [attempt_write env ctx iid key req]) s = (Inr (), u)"
    and cu: "nav_calm env ctx 1 u" by blast
  from flushed_write_adds [OF nav_smoothD(1) [OF sm] nav_calmD(1) [OF s] u] obtain new where
    new: "adds env ctx s u new []" "stable_rows u = nav_rows u"
    "list_all2 (row_of_write env) (before @ [attempt_write env ctx iid key req]) new" by auto
  obtain w v where p: "http_post env ''manageInvoice'' req u = (Inr w :: nav_transport_error + _, v)"
    unfolding http_post_def by blast
  have w: "manage_invoice_result (ne_lib env) w = Inr so"
    using p a by (auto simp: http_post_def nav_accepts_def)
  from new(3) have "\<exists>x \<in> set new. row_of_write env (attempt_write env ctx iid key req) x"
    by (auto simp: list_all2_append1 list_all2_Cons1)
  moreover have "set new \<subseteq> set (stable_rows u)" using new(1,2) by (simp add: adds_def)
  ultimately have "\<exists>x \<in> set (stable_rows u). is_attempt env req x"
    using attempt_row_is_attempt [OF nav_smoothD(1) [OF sm]] by blast
  with adds_post [OF nav_calmD(1) [OF cu] p] have "nav_inv env ctx v" by (auto dest: adds_inv)
  moreover have "nv_handle v = nv_handle u" using p by (auto simp: http_post_def)
  ultimately have cv: "nav_calm env ctx 1 v" using cu by (simp add: nav_calm_def nav_rows_def)
  from calm_flushed_write [OF sm, of ctx "[answer_write env ctx iid key (Inr so)]" 0 v] cv obtain x where
    x: "flushed_write env ctx [answer_write env ctx iid key (Inr so)] v = (Inr (), x)"
    and cx: "nav_calm env ctx 0 x" by auto
  have "stable_rows x = nav_rows x"
    using flushed_write_adds [OF nav_smoothD(1) [OF sm] nav_calmD(1) [OF cv] x] by auto
  from calm_verify_after [OF sm cx this] obtain t n where
    t: "verify_after env ctx b x = (Inr n, t)" "nav_calm env ctx 0 t" by blast
  have "submit_prepared env ctx b iid key before req s = (Inr (Inr (so_transaction_id so)), t)"
    using u p w x t(1)
    by (simp add: submit_prepared_flushed send_built_request_def io_bind_def io_attempt_def io_lift_def
        record_answer_flushed io_return_def answer_value_def)
  then show "\<exists>r t. submit_prepared env ctx b iid key before req s = (Inr r, t) \<and>
      r = Inr (so_transaction_id so) \<and> nav_calm env ctx 0 t" using t(2) by blast
qed

text \<open>The submission of an issued invoice.\<close>

definition issued :: "nav_env \<Rightarrow> nav_db \<Rightarrow> string \<Rightarrow> bool" where
  "issued env c iid \<longleftrightarrow> (\<exists>pinv key. load_ready_invoice_by_id (ne_duck env) (nd_duck c) iid = Inr (Some (pinv, key)) \<and>
     invoice_key (ne_duck env) (ri_id pinv) = iid)"

definition submit_accepted :: "nav_env \<Rightarrow> submit_inputs \<Rightarrow> bool" where
  "submit_accepted env args \<longleftrightarrow> tenant_new (sb_tenant args) \<noteq> None \<and>
     is_ok (parse_tax_number_8 (sb_tax_number args)) \<and> ne_validate env (sb_invoice_xml args)"

lemma submit_succeeds:
  assumes sm: "nav_smooth env" and a: "nav_accepts env so" and args: "submit_accepted env args"
    and i: "issued env c (sb_invoice_id args)"
    and op: "is_ok (operation_for_invoice (ne_codec env) (ledger_entries (ne_ledger env) (nd_rows c)) (sb_invoice_id args))"
  shows "succeeds env ctx 2 c (submit_from_inputs env ctx args) (\<lambda>r. r = so_transaction_id so)"
proof -
  from args obtain ten tax where t: "tenant_new (sb_tenant args) = Some ten"
    "parse_tax_number_8 (sb_tax_number args) = Inr tax" "ne_validate env (sb_invoice_xml args)"
    by (auto simp: submit_accepted_def is_ok_def split: sum.splits)
  from i obtain pinv key where l: "load_ready_invoice_by_id (ne_duck env) (nd_duck c) (sb_invoice_id args) = Inr (Some (pinv, key))"
    "invoice_key (ne_duck env) (ri_id pinv) = sb_invoice_id args" unfolding issued_def by blast
  from op obtain operation where o': "operation_for_invoice (ne_codec env)
      (ledger_entries (ne_ledger env) (nd_rows c)) (sb_invoice_id args) = Inr operation"
    by (auto simp: is_ok_def split: sum.splits)
  let ?ctx = "ctx\<lparr>nc_tax_number_8 := tax\<rparr>"
  have send: "succeeds env ctx 2 c (io_bind (submit_prepared env ?ctx True (sb_invoice_id args) key [] req) (\<lambda>r.
       case r of Inl e \<Rightarrow> io_fail (NeNav e) | Inr txid \<Rightarrow> io_return txid)) (\<lambda>r. r = so_transaction_id so)" for req
    by (rule succeeds_then [where P = "\<lambda>r. r = Inr (so_transaction_id so)"])
      (use submit_prepared_succeeds [OF sm a, of 2 "[]" ?ctx] in \<open>simp_all add: io_return_def\<close>)
  have acq: "quietly env ctx 2 c (acquire_or_refuse env (sb_invoice_id args)) (\<lambda>_. True)"
    unfolding acquire_or_refuse_def try_acquire_def
    by (rule quietly_bind [where P = "\<lambda>l. l = Inr True"], rule quietly_bind [OF quietly_next_tick])
      (use a in \<open>simp_all add: nav_accepts_def quietly_def io_return_def\<close>)
  show ?thesis
    unfolding submit_from_inputs_def Let_def t(1,2) ok_or_def option.case
  proof (rule succeeds_lift [OF refl], rule succeeds_lift [OF refl], rule succeeds_bind [OF acq],
      rule succeeds_lift [where a = "()"])
    show "check (ne_validate env (sb_invoice_xml args)) (NeSchema []) = Inr ()" using t(3) by (simp add: check_def)
    show "succeeds env ctx 2 c (io_bind (load_requested_invoice env (sb_invoice_id args)) (\<lambda>(pinv, key).
     io_bind (read_entries env) (\<lambda>es.
     io_bind (io_lift (operation_for_invoice (ne_codec env) es (sb_invoice_id args))) (\<lambda>operation.
     io_bind (io_map_err NeNav (prepare_for_attempt_audit env ?ctx (sb_invoice_xml args) operation)) (\<lambda>request_xml.
     io_bind (submit_prepared env ?ctx True (invoice_key (ne_duck env) (ri_id pinv)) key [] request_xml) (\<lambda>r.
       case r of Inl e \<Rightarrow> io_fail (NeNav e) | Inr txid \<Rightarrow> io_return txid)))))) (\<lambda>r. r = so_transaction_id so)"
      by (rule succeeds_bind [OF quietly_load_requested [OF sm l]], simp add: l(2),
          rule succeeds_bind [OF quietly_read_entries [OF sm]], simp,
          rule succeeds_lift [OF o'], rule succeeds_bind [OF quietly_map_err [OF quietly_prepare [OF a]] send])
  qed
qed

section \<open>Driving a queue\<close>

lemma quietly_try_acquire:
  "nav_accepts env so \<Longrightarrow> quietly env ctx k c (try_acquire env iid) (\<lambda>l. l = Inr True)"
  unfolding try_acquire_def
  by (rule quietly_bind [OF quietly_next_tick]) (simp add: nav_accepts_def quietly_def io_return_def)

lemma succeeds_attempt:
  assumes "succeeds env ctx k c m P"
  shows "succeeds env ctx k c (io_attempt m) (\<lambda>r. \<exists>a. r = Inr a \<and> P a)"
  using assms unfolding succeeds_def io_attempt_def by fastforce

lemma succeeds_map_err: "succeeds env ctx k c m P \<Longrightarrow> succeeds env ctx k c (io_map_err g m) P"
  unfolding succeeds_def io_map_err_def by fastforce

lemma succeeds_return: "P a \<Longrightarrow> succeeds env ctx 0 c (io_return a) P"
  by (auto simp: succeeds_def io_return_def calm_at_def)

lemma read_xml_ok:
  "ne_file env path = Some xml \<Longrightarrow> xml \<noteq> [] \<Longrightarrow> ne_validate env xml \<Longrightarrow> read_invoice_xml env path = Inr xml"
  by (simp add: read_invoice_xml_def ok_or_def check_def)

lemma drive_one_invoice_succeeds:
  assumes sm: "nav_smooth env" and a: "nav_accepts env so"
    and p: "resolve_xml_path pinv ov = Inr path" and x: "read_invoice_xml env path = Inr xml"
  shows "succeeds env ctx 2 c (drive_one_invoice env ctx ov pinv) (\<lambda>_. True)"
  unfolding drive_one_invoice_def
proof (rule succeeds_lift [where a = path], simp add: p, rule succeeds_lift [where a = xml], simp add: x,
    rule succeeds_bind [OF quietly_map_err [OF quietly_prepare [OF a]]])
  fix req
  show "succeeds env ctx 2 c (io_bind (io_map_err DrApplication (submit_prepared env ctx False (pi_invoice_id pinv)
      (pi_idempotency_key pinv) [] req)) (\<lambda>r. case r of Inl e \<Rightarrow> io_fail (classify_nav_error env e)
      | Inr _ \<Rightarrow> io_return ())) (\<lambda>_. True)"
    by (rule succeeds_then [OF succeeds_map_err [OF submit_prepared_succeeds [OF sm a]]])
      (simp_all add: io_return_def)
qed

lemma layer_2_proceeds:
  assumes sm: "nav_smooth env" and a: "nav_accepts env so" and c: "nav_calm env ctx (1 + k) s"
    and q: "\<And>n. ne_check_request env n (nc_tax_number_8 ctx) number = Inr body"
    and h: "\<And>n. query_invoice_check_result (ne_lib env) (ne_http env n ''queryInvoiceCheck'' body) = Inr (False, resp)"
  shows "\<exists>t. perform_layer_2_check env ctx number iid key s = (Inr ProceedToRePost, t) \<and> nav_calm env ctx k t"
proof -
  let ?w = "check_outcome_write env ctx iid key number body Absent resp"
  have pre: "quietly env ctx (1 + k) c (io_bind (io_map_err NeNav (transport_new env)) (\<lambda>_. io_bind next_tick (\<lambda>n.
      io_bind (io_lift (map_err NeNav (ne_check_request env n (nc_tax_number_8 ctx) number))) (\<lambda>req.
      http_post env ''queryInvoiceCheck'' req)))) (\<lambda>r. \<exists>n. r = ne_http env n ''queryInvoiceCheck'' body)" for c
  proof (rule quietly_bind)
    show "quietly env ctx (1 + k) c (io_map_err NeNav (transport_new env)) (\<lambda>_. True)"
      unfolding transport_new_def
      by (rule quietly_map_err, rule quietly_bind [OF quietly_next_tick])
        (use a in \<open>simp add: nav_accepts_def quietly_def io_return_def\<close>)
    show "quietly env ctx (1 + k) c (io_bind next_tick (\<lambda>n.
      io_bind (io_lift (map_err NeNav (ne_check_request env n (nc_tax_number_8 ctx) number))) (\<lambda>req.
      http_post env ''queryInvoiceCheck'' req))) (\<lambda>r. \<exists>n. r = ne_http env n ''queryInvoiceCheck'' body)"
      by (rule quietly_bind [OF quietly_next_tick], rule quietly_bind [OF quietly_lift [where P = "\<lambda>b. b = body"]])
        (simp_all add: q quietly_http_post)
  qed
  from pre calm_at_here [OF c] obtain r u where
    u: "io_bind (io_map_err NeNav (transport_new env)) (\<lambda>_. io_bind next_tick (\<lambda>n.
      io_bind (io_lift (map_err NeNav (ne_check_request env n (nc_tax_number_8 ctx) number))) (\<lambda>req.
      http_post env ''queryInvoiceCheck'' req))) s = (Inr r, u)"
    and r: "\<exists>n. r = ne_http env n ''queryInvoiceCheck'' body" and cu: "nav_calm env ctx (1 + k) u"
    unfolding quietly_def calm_at_def by blast
  have res: "query_invoice_check_result (ne_lib env) r = Inr (False, resp)" using r h by auto
  from u q obtain v w where 1: "(io_map_err NeNav (transport_new env) s :: (nav_error + _) \<times> _) = (Inr (), v)"
    "(next_tick v :: (nav_error + _) \<times> _) = (Inr (nv_tick v), w)"
    "(http_post env ''queryInvoiceCheck'' body w :: (nav_error + _) \<times> _) = (Inr r, u)"
    by (auto simp: io_bind_def io_lift_def next_tick_def split: prod.splits sum.splits)
  from calm_flushed_write [OF sm, of ctx "[?w]" k u] cu obtain t where
    t: "flushed_write env ctx [?w] u = (Inr (), t)" "nav_calm env ctx k t" by auto
  have "io_bind (write_audit env ctx [?w]) (\<lambda>_. io_bind (nav_durable_ack env) (\<lambda>_. io_return ProceedToRePost)) u =
      io_bind (flushed_write env ctx [?w]) (\<lambda>_. io_return ProceedToRePost) u"
    by (simp add: flushed_write_def io_bind_assoc)
  then have "perform_layer_2_check env ctx number iid key s = (Inr ProceedToRePost, t)"
    using 1 q res t(1)
    by (simp add: perform_layer_2_check_def io_bind_run [of "io_map_err NeNav (transport_new env)"]
        io_bind_run [of next_tick] io_bind_run [of "io_lift _"] io_lift_def
        io_bind_run [of "http_post env ''queryInvoiceCheck'' body"] from_check_result_def
        io_bind_run [of "flushed_write env ctx _"] io_return_def)
  then show ?thesis using t(2) by blast
qed

lemma drive_one_retry_succeeds:
  assumes sm: "nav_smooth env" and a: "nav_accepts env so"
    and p: "pt_nav_xml_path rt = Some path" and x: "read_invoice_xml env path = Inr xml"
    and n: "ne_invoice_number env xml = Some number"
    and l: "load_ready_invoice_by_id (ne_duck env) (nd_duck c) (pt_invoice_id rt) = Inr (Some (pinv, pt_idempotency_key rt))"
    and q: "\<And>n. ne_check_request env n (nc_tax_number_8 ctx) number = Inr body"
    and h: "\<And>n. query_invoice_check_result (ne_lib env) (ne_http env n ''queryInvoiceCheck'' body) = Inr (False, resp)"
  shows "succeeds env ctx 4 c (drive_one_retry env ctx rt) (\<lambda>r. r = RetriedOk)"
  unfolding drive_one_retry_def
proof (rule succeeds_lift [where a = path], simp add: p ok_or_def, rule succeeds_lift [where a = xml], simp add: x,
    rule succeeds_bind [OF quietly_map_err [OF quietly_load_issued [OF sm l]]], clarify,
    rule succeeds_lift [where a = "()"])
  show "check (pt_idempotency_key rt = pt_idempotency_key rt) (DrApplication (NeKeyMismatch (pt_invoice_id rt))) = Inr ()"
    by (simp add: check_def)
  let ?iid = "invoice_key (ne_duck env) (ri_id pinv)" and ?key = "pt_idempotency_key rt"
  let ?before = "[retry_requested_write env ?iid ?key None None auto_reason]"
  let ?rest = "io_bind (io_map_err (classify_nav_error env) (prepare_for_attempt_audit env ctx xml (pt_operation rt)))
     (\<lambda>request_xml. io_bind (io_map_err DrApplication (submit_prepared env ctx False ?iid ?key ?before request_xml)) (\<lambda>r.
        case r of Inl e \<Rightarrow> io_fail (classify_nav_error env e) | Inr _ \<Rightarrow> io_return RetriedOk))"
  have rest: "succeeds env ctx 3 d ?rest (\<lambda>r. r = RetriedOk)" for d
  proof (rule succeeds_bind [OF quietly_map_err [OF quietly_prepare [OF a]]])
    fix req
    show "succeeds env ctx 3 d (io_bind (io_map_err DrApplication (submit_prepared env ctx False ?iid ?key ?before req)) (\<lambda>r.
        case r of Inl e \<Rightarrow> io_fail (classify_nav_error env e) | Inr _ \<Rightarrow> io_return RetriedOk)) (\<lambda>r. r = RetriedOk)"
      by (rule succeeds_then [OF succeeds_map_err [OF submit_prepared_succeeds [OF sm a]]])
        (simp_all add: io_return_def)
  qed
  show "succeeds env ctx 4 c (io_bind (io_lift (map_err DrApplication (ok_or (NeFile path) (ne_invoice_number env xml)))) (\<lambda>number.
      io_bind (io_map_err DrApplication (perform_layer_2_check env ctx number ?iid ?key)) (\<lambda>decision.
       case decision of SkipRePost \<Rightarrow> io_return SkippedExists
       | ProceedToRePost \<Rightarrow> ?rest
       | AbortRetry msg \<Rightarrow> io_fail (classify_layer_2_failure msg)))) (\<lambda>r. r = RetriedOk)"
  proof (rule succeeds_lift [where a = number], simp add: n ok_or_def)
    show "succeeds env ctx 4 c (io_bind (io_map_err DrApplication (perform_layer_2_check env ctx number ?iid ?key)) (\<lambda>decision.
       case decision of SkipRePost \<Rightarrow> io_return SkippedExists
       | ProceedToRePost \<Rightarrow> ?rest
       | AbortRetry msg \<Rightarrow> io_fail (classify_layer_2_failure msg))) (\<lambda>r. r = RetriedOk)"
      unfolding succeeds_def
    proof (intro allI impI)
      fix s assume "calm_at env ctx 4 c s"
      then have "nav_calm env ctx (1 + 3) s" by (simp add: calm_at_def)
      from layer_2_proceeds [OF sm a this q h] obtain u where
        u: "perform_layer_2_check env ctx number ?iid ?key s = (Inr ProceedToRePost, u)" "nav_calm env ctx 3 u" by blast
      from succeeds_run [OF rest calm_at_here [OF u(2)]] obtain t where
        t: "?rest u = (Inr RetriedOk, t)" "nav_calm env ctx 0 t" by blast
      show "\<exists>r t. io_bind (io_map_err DrApplication (perform_layer_2_check env ctx number ?iid ?key)) (\<lambda>decision.
         case decision of SkipRePost \<Rightarrow> io_return SkippedExists
         | ProceedToRePost \<Rightarrow> ?rest
         | AbortRetry msg \<Rightarrow> io_fail (classify_layer_2_failure msg)) s = (Inr r, t) \<and> r = RetriedOk \<and> nav_calm env ctx 0 t"
        by (intro exI [of _ RetriedOk] exI [of _ t])
          (simp add: t(2), simp add: io_bind_def [of "io_map_err DrApplication (perform_layer_2_check env ctx number ?iid ?key)"]
            io_map_err_def [of DrApplication "perform_layer_2_check env ctx number ?iid ?key"] u(1) t(1))
    qed
  qed
qed

section \<open>The ledger after a write\<close>

lemma write_audit_duck:
  assumes ok: "nav_env_ok env" and i: "nav_inv env ctx s" and w: "write_audit env ctx ws s = (Inr (), t)"
  shows "nd_duck (live_content (nv_handle t)) = nd_duck (live_content (nv_handle s))"
proof -
  let ?f = "audit_tx env ctx (nv_tick s) ws"
  obtain h1 where d: "db_write (ne_handle env) NeDb ?f (nv_handle s) = (Inr (), h1)" and t: "nv_handle t = h1"
    using w by (auto simp: write_audit_def split: prod.splits)
  have mono: "\<forall>d a d'. ?f d = Inr (a, d') \<longrightarrow> nd_le d d'" using audit_tx_le by blast
  have "?f (live_content (nv_handle s)) = Inr ((), live_content h1)"
    using db_write_settled [OF nav_env_okD(3) [OF ok] nav_invD(1) [OF i] mono d] by simp
  then have "\<exists>x. live_content h1 = (live_content (nv_handle s))\<lparr>nd_rows := x\<rparr>"
    by (auto simp: audit_tx_def res_simps split: option.splits) (metis)
  then show ?thesis by (auto simp: t)
qed

lemma entries_of_writes:
  assumes i: "ledger_inv lenv meta rows" and w: "list_all2 (row_of_write env) ws rows"
  shows "list_all2 (\<lambda>w e. kind e = InvoiceEvent (fst w) \<and> payload e = fst (snd w)) ws (ledger_entries lenv rows)"
proof -
  have rows: "rows = map (row_of_entry lenv) (ledger_entries lenv rows)"
    using i by (auto simp: ledger_inv_rep ledger_rep_def)
  have "list_all2 (\<lambda>w e. row_of_write env w (row_of_entry lenv e)) ws (ledger_entries lenv rows)"
    using w by (subst (asm) rows) (simp add: list_all2_map2)
  then show ?thesis
    by (rule list_all2_mono)
      (auto simp: row_of_write_def row_of_entry_def simp del: event_kind_as_str.simps
        dest: event_kind_as_str_inj split: prod.splits)
qed

end
