(* ===== verification/Nav_Demo_Codec.thy ===== *)
theory Nav_Demo_Codec
  imports Nav_Ledger Audit_Properties Billing_Duckdb_Properties
begin

text \<open>
  A concrete form of the payloads in which every reader undoes its writer, for the witnesses; nothing
  here models code.
\<close>

instance pay_method :: countable
  by countable_datatype

definition unary :: "'a :: countable \<Rightarrow> byte list" where
  "unary x = replicate (to_nat x) 0"

definition from_unary :: "byte list \<Rightarrow> 'a :: countable" where
  "from_unary bs = from_nat (length bs)"

lemma from_unary_unary [simp]: "from_unary (unary x) = x"
  by (simp add: from_unary_def unary_def)

definition unbytes :: "nat list \<Rightarrow> byte list" where
  "unbytes = map of_nat"

lemma unbytes_unat [simp]: "unbytes (map unat bs) = bs"
  by (induction bs) (simp_all add: unbytes_def)

definition map_bytes :: "byte list option \<Rightarrow> nat list option" where
  "map_bytes = map_option (map unat)"

lemma unmap_bytes [simp]: "map_option unbytes (map_bytes r) = r"
  by (cases r) (simp_all add: map_bytes_def)

definition demo_codec :: nav_codec where
  "demo_codec =
     \<lparr>draft_from_slice = (\<lambda>bs. let (i, n, k, path, cur, (er, es, ed, h), (b1, b2, b3, b4, b5), note, ln, (pd, dd, dov),
          (v, cv), (sd, sw, sf)) = from_unary bs in
        Some \<lparr>dc_invoice_id = i, dc_line_count = n, dc_idempotency_key = k, dc_nav_xml_path = path,
          dc_currency = cur, dc_exchange_rate = er, dc_exchange_rate_source = es, dc_exchange_rate_date = ed,
          dc_huf_equivalent_total = h, dc_bank_account_id = b1, dc_bank_account_currency = b2,
          dc_bank_account_number = b3, dc_bank_account_bank_name = b4, dc_bank_account_swift_bic = b5,
          dc_invoice_note = note, dc_line_notes = ln, dc_payment_deadline = pd, dc_delivery_date = dd,
          dc_delivery_date_override = dov, dc_customer_vat_status = v,
          dc_customer_community_vat_number = cv, dc_source_dispatch_id = sd,
          dc_source_wo_id = sw, dc_source_draft_id = sf\<rparr>),
      draft_to_bytes = (\<lambda>p. unary (dc_invoice_id p, dc_line_count p, dc_idempotency_key p, dc_nav_xml_path p,
          dc_currency p, (dc_exchange_rate p, dc_exchange_rate_source p, dc_exchange_rate_date p,
          dc_huf_equivalent_total p), (dc_bank_account_id p, dc_bank_account_currency p,
          dc_bank_account_number p, dc_bank_account_bank_name p, dc_bank_account_swift_bic p),
          dc_invoice_note p, dc_line_notes p, (dc_payment_deadline p, dc_delivery_date p,
          dc_delivery_date_override p), (dc_customer_vat_status p,
          dc_customer_community_vat_number p), (dc_source_dispatch_id p, dc_source_wo_id p,
          dc_source_draft_id p))),
      attempt_from_slice = (\<lambda>bs. let (i, k, e, x) = from_unary bs in
        Some \<lparr>at_invoice_id = i, at_idempotency_key = k, at_endpoint = e, at_request_xml = unbytes x\<rparr>),
      attempt_to_bytes = (\<lambda>p. unary (at_invoice_id p, at_idempotency_key p, at_endpoint p, map unat (at_request_xml p))),
      response_from_slice = (\<lambda>bs. let (i, k, t, x) = from_unary bs in
        Some \<lparr>re_invoice_id = i, re_idempotency_key = k, re_transaction_id = t, re_response_xml = unbytes x\<rparr>),
      response_to_bytes = (\<lambda>p. unary (re_invoice_id p, re_idempotency_key p, re_transaction_id p,
        map unat (re_response_xml p))),
      ack_from_slice = (\<lambda>bs. let (i, t, a, x) = from_unary bs in
        Some \<lparr>ak_invoice_id = i, ak_transaction_id = t, ak_ack_status = a, ak_response_xml = unbytes x\<rparr>),
      ack_to_bytes = (\<lambda>p. unary (ak_invoice_id p, ak_transaction_id p, ak_ack_status p, map unat (ak_response_xml p))),
      retry_from_slice = (\<lambda>bs. let (i, k, t, a, r) = from_unary bs in
        Some \<lparr>rr_invoice_id = i, rr_idempotency_key = k, rr_prior_transaction_id = t,
          rr_prior_last_ack_status = a, rr_reason = r\<rparr>),
      retry_to_bytes = (\<lambda>p. unary (rr_invoice_id p, rr_idempotency_key p, rr_prior_transaction_id p,
        rr_prior_last_ack_status p, rr_reason p)),
      abandoned_from_slice = (\<lambda>bs. let (i, k, t, a, r) = from_unary bs in
        Some \<lparr>ma_invoice_id = i, ma_idempotency_key = k, ma_prior_transaction_id = t,
          ma_prior_last_ack_status = a, ma_reason = r\<rparr>),
      abandoned_to_bytes = (\<lambda>p. unary (ma_invoice_id p, ma_idempotency_key p, ma_prior_transaction_id p,
        ma_prior_last_ack_status p, ma_reason p)),
      failed_from_slice = (\<lambda>bs. let (i, k, e, c, d, m, x) = from_unary bs in
        Some \<lparr>af_invoice_id = i, af_idempotency_key = k, af_endpoint = e, af_error_class = c,
          af_error_code = d, af_error_message = m, af_response_xml = map_option unbytes x\<rparr>),
      failed_to_bytes = (\<lambda>p. unary (af_invoice_id p, af_idempotency_key p, af_endpoint p, af_error_class p,
        af_error_code p, af_error_message p, map_bytes (af_response_xml p))),
      check_from_slice = (\<lambda>bs. let (i, k, e, n, out, q, x, c, d, m) = from_unary bs in
        Some \<lparr>cp_invoice_id = i, cp_idempotency_key = k, cp_endpoint = e, cp_nav_invoice_number = n,
          cp_outcome = out, cp_request_xml = unbytes q, cp_response_xml = map_option unbytes x,
          cp_failure_class = c, cp_failure_code = d, cp_failure_message = m\<rparr>),
      check_to_bytes = (\<lambda>p. unary (cp_invoice_id p, cp_idempotency_key p, cp_endpoint p,
        cp_nav_invoice_number p, cp_outcome p, map unat (cp_request_xml p), map_bytes (cp_response_xml p),
        cp_failure_class p, cp_failure_code p, cp_failure_message p)),
      storno_from_slice = (\<lambda>bs. let (i, n, r, k, b, m, x) = from_unary bs in
        Some \<lparr>si_storno_invoice_id = i, si_storno_seq = of_nat n, si_storno_reservation_id = r,
          si_idempotency_key = k, si_base_invoice_id = b, si_base_sequence_number = of_nat m,
          si_modification_index = x\<rparr>),
      storno_to_bytes = (\<lambda>p. unary (si_storno_invoice_id p, unat (si_storno_seq p), si_storno_reservation_id p,
        si_idempotency_key p, si_base_invoice_id p, unat (si_base_sequence_number p), si_modification_index p)),
      modification_from_slice = (\<lambda>bs. let (i, n, r, k, b, m, x, d) = from_unary bs in
        Some \<lparr>mi_modification_invoice_id = i, mi_modification_seq = of_nat n, mi_modification_reservation_id = r,
          mi_idempotency_key = k, mi_base_invoice_id = b, mi_base_sequence_number = of_nat m,
          mi_modification_index = x, mi_modification_issue_date = d\<rparr>),
      modification_to_bytes = (\<lambda>p. unary (mi_modification_invoice_id p, unat (mi_modification_seq p),
        mi_modification_reservation_id p, mi_idempotency_key p, mi_base_invoice_id p,
        unat (mi_base_sequence_number p), mi_modification_index p, mi_modification_issue_date p)),
      payment_from_slice = (\<lambda>bs. let (i, k, t, a, c, m, r) = from_unary bs in
        Some \<lparr>pr_invoice_id = i, pr_idempotency_key = k, pr_paid_at = t, pr_amount_minor = a,
          pr_currency = c, pr_method = m, pr_reference = r\<rparr>),
      payment_to_bytes = (\<lambda>p. unary (pr_invoice_id p, pr_idempotency_key p, pr_paid_at p, pr_amount_minor p,
        pr_currency p, pr_method p, pr_reference p))\<rparr>"

lemma demo_codec_ok: "codec_ok demo_codec"
  by (simp add: codec_ok_def demo_codec_def)

text \<open>The readers and writers of the demonstration, as rewrite rules.\<close>

lemma demo_reads [simp]:
  "draft_from_slice demo_codec (draft_to_bytes demo_codec p1) = Some p1"
  "attempt_from_slice demo_codec (attempt_to_bytes demo_codec p2) = Some p2"
  "response_from_slice demo_codec (response_to_bytes demo_codec p3) = Some p3"
  "abandoned_from_slice demo_codec (abandoned_to_bytes demo_codec p4) = Some p4"
  "payment_from_slice demo_codec (payment_to_bytes demo_codec p5) = Some p5"
  using demo_codec_ok by (simp_all add: codec_ok_def)

definition demo_iid :: string where "demo_iid = ''inv_x''"

definition demo_key_text :: string where
  "demo_key_text = idem_to_canonical_string (dk_ulid_str demo_duck) 7"

lemma demo_key_parses [simp]: "parse_key demo_duck demo_key_text = Inr 7"
  using strip_prefix_append [of "''idem_''" "replicate 7 CHR ''x''"]
  by (simp add: parse_key_def ok_or_def demo_duck_def demo_key_text_def idem_to_canonical_string_def
      idem_from_canonical_string_def)

definition demo_draft :: "string \<Rightarrow> draft_created_payload" where
  "demo_draft iid = \<lparr>dc_invoice_id = iid, dc_line_count = 1, dc_idempotency_key = demo_key_text,
     dc_nav_xml_path = Some ''p'', dc_currency = None, dc_exchange_rate = None,
     dc_exchange_rate_source = None, dc_exchange_rate_date = None, dc_huf_equivalent_total = None,
     dc_bank_account_id = None, dc_bank_account_currency = None, dc_bank_account_number = None,
     dc_bank_account_bank_name = None, dc_bank_account_swift_bic = None, dc_invoice_note = None,
     dc_line_notes = [], dc_payment_deadline = None, dc_delivery_date = None,
     dc_delivery_date_override = None, dc_customer_vat_status = None,
     dc_customer_community_vat_number = None, dc_source_dispatch_id = None,
     dc_source_wo_id = None, dc_source_draft_id = None\<rparr>"

definition demo_attempt :: "string \<Rightarrow> attempt_payload" where
  "demo_attempt iid = \<lparr>at_invoice_id = iid, at_idempotency_key = demo_key_text, at_endpoint = ''test'',
     at_request_xml = [2]\<rparr>"

end
