(* ===== verification/Nav_Queues.thy ===== *)
theory Nav_Queues
  imports Nav_Demo_Codec
begin

text \<open>
  What the walks over the ledger compute: the two queues and the stuck precondition, in terms of
  the invoices that have a draft, an attempt, an answer or an abandonment.
\<close>

section \<open>The walks\<close>

lemma collect_some_Inr:
  "collect_some f xs = Inr as \<Longrightarrow>
   (\<forall>x \<in> set xs. \<exists>r. f x = Inr r) \<and> set as = {a. \<exists>x \<in> set xs. f x = Inr (Some a)}"
proof (induction xs arbitrary: as)
  case (Cons x xs)
  from Cons.prems obtain r bs where 1: "f x = Inr r" "collect_some f xs = Inr bs"
    "as = (case r of None \<Rightarrow> bs | Some a \<Rightarrow> a # bs)" by (auto simp: res_simps)
  from Cons.IH [OF 1(2)] 1(1,3) show ?case by (auto split: option.splits)
qed simp

lemma find_some_None: "find_some f xs = Inr None \<longleftrightarrow> (\<forall>x \<in> set xs. f x = Inr None)"
  by (induction xs) (auto simp: res_simps and_then_def split: sum.splits option.splits)

lemma find_some_Some: "find_some f xs = Inr (Some a) \<Longrightarrow> \<exists>x \<in> set xs. f x = Inr (Some a)"
  by (induction xs) (auto simp: res_simps and_then_def split: sum.splits option.splits)

definition invoices_with ::
  "invoice_event \<Rightarrow> (byte list \<Rightarrow> 'p option) \<Rightarrow> ('p \<Rightarrow> string) \<Rightarrow> entry list \<Rightarrow> string set" where
  "invoices_with k from_slice iid es =
     {i. \<exists>e \<in> set es. kind e = InvoiceEvent k \<and> (\<exists>p. from_slice (payload e) = Some p \<and> iid p = i)}"

definition drafted :: "nav_codec \<Rightarrow> entry list \<Rightarrow> string set" where
  "drafted c = invoices_with InvoiceDraftCreated (draft_from_slice c) dc_invoice_id"

definition attempted :: "nav_codec \<Rightarrow> entry list \<Rightarrow> string set" where
  "attempted c = invoices_with InvoiceSubmissionAttempt (attempt_from_slice c) at_invoice_id"

definition answered :: "nav_codec \<Rightarrow> entry list \<Rightarrow> string set" where
  "answered c = invoices_with InvoiceSubmissionResponse (response_from_slice c) re_invoice_id"

definition abandoned :: "nav_codec \<Rightarrow> entry list \<Rightarrow> string set" where
  "abandoned c = invoices_with InvoiceMarkedAbandoned (abandoned_from_slice c) ma_invoice_id"

lemmas invoice_sets = drafted_def attempted_def answered_def abandoned_def invoices_with_def

lemma decode_Inr: "decode f e = Inr p \<longleftrightarrow> f (payload e) = Some p"
  by (cases "f (payload e)") (simp_all add: decode_def ok_or_def)

lemma pending_excluded_set:
  assumes "collect_some (pending_excluded c) es = Inr xs"
  shows "set xs = answered c es \<union> abandoned c es \<union> attempted c es"
proof -
  have "pending_excluded c e = Inr (Some i) \<longleftrightarrow>
      (kind e = InvoiceEvent InvoiceSubmissionResponse \<and>
        (\<exists>p. response_from_slice c (payload e) = Some p \<and> re_invoice_id p = i)) \<or>
      (kind e = InvoiceEvent InvoiceMarkedAbandoned \<and>
        (\<exists>p. abandoned_from_slice c (payload e) = Some p \<and> ma_invoice_id p = i)) \<or>
      (kind e = InvoiceEvent InvoiceSubmissionAttempt \<and>
        (\<exists>p. attempt_from_slice c (payload e) = Some p \<and> at_invoice_id p = i))" for e i
    by (auto simp: pending_excluded_def res_simps decode_Inr)
  then show ?thesis
    using collect_some_Inr [OF assms] by (auto simp: invoice_sets)
qed

lemma fifo_set [simp]: "set (fifo date iid xs) = set xs"
  by (simp add: fifo_def)

lemma fifo_distinct [simp]: "distinct (map f (fifo date iid xs)) = distinct (map f xs)"
  by (simp add: fifo_def distinct_map)

lemma sort_key_lex:
  "sorted_wrt (\<lambda>a b. date a < date b \<or> date a = date b \<and> iid a \<le> iid b) (fifo date iid xs)"
proof -
  let ?ys = "fifo date iid xs"
  have d: "sorted (map date ?ys)" by (simp add: fifo_def)
  have i: "sorted (map iid (filter (\<lambda>x. date x = d) ?ys))" for d
  proof -
    have "filter (\<lambda>x. date x = d) ?ys = filter (\<lambda>x. date x = d) (sort_key iid xs)"
      unfolding fifo_def by (rule sort_key_stable)
    also have "map iid \<dots> = map iid (sort_key iid (filter (\<lambda>x. date x = d) xs))"
      by (simp add: filter_sort)
    finally show ?thesis by simp
  qed
  have "sorted_wrt (\<lambda>a b. date a < date b \<or> date a = date b \<and> iid a \<le> iid b) zs"
    if "sorted (map date zs)" "\<And>d. sorted (map iid (filter (\<lambda>x. date x = d) zs))" for zs
    using that
  proof (induction zs)
    case (Cons z zs)
    have tail: "sorted (map iid (filter (\<lambda>x. date x = d) zs))" for d
      using Cons.prems(2) [of d] by (cases "date z = d") auto
    have "date z < date b \<or> date z = date b \<and> iid z \<le> iid b" if "b \<in> set zs" for b
    proof (cases "date z = date b")
      case True
      then have "b \<in> set (filter (\<lambda>x. date x = date z) zs)" using that by simp
      then show ?thesis using Cons.prems(2) [of "date z"] True by simp
    next
      case False
      have "date z \<le> date b" using Cons.prems(1) that by simp
      with False show ?thesis by simp
    qed
    with Cons.IH [OF _ tail] Cons.prems(1) show ?case by simp
  qed simp
  from this [OF d i] show ?thesis .
qed

lemma classify_pending_Inr:
  assumes "classify_pending env c es = Inr ps"
  shows "pi_invoice_id ` set ps = drafted c es - attempted c es - answered c es - abandoned c es"
proof -
  from assms obtain xs st mo qs where 1: "collect_some (pending_excluded c) es = Inr xs"
    and 2: "collect_some (pending_entry env c xs st mo) es = Inr qs"
    and p: "ps = fifo pi_issue_date pi_invoice_id qs"
    by (auto simp: classify_pending_def res_simps split: prod.splits)
  note C = collect_some_Inr [OF 2]
  have draft: "\<exists>k. pending_entry env c xs st mo e = Inr (Some \<lparr>pi_invoice_id = dc_invoice_id p,
      pi_idempotency_key = k, pi_nav_xml_path = dc_nav_xml_path p, pi_issue_date = time_wall e,
      pi_operation = operation_in st mo (dc_invoice_id p)\<rparr>)"
    if "e \<in> set es" "kind e = InvoiceEvent InvoiceDraftCreated" "draft_from_slice c (payload e) = Some p"
      "dc_invoice_id p \<notin> set xs" for e p
  proof -
    from C that(1) obtain r where "pending_entry env c xs st mo e = Inr r" by blast
    then show ?thesis using that(2-4) by (auto simp: pending_entry_def on_kind_def res_simps decode_def ok_or_def)
  qed
  have "i \<in> pi_invoice_id ` set qs \<longleftrightarrow> i \<in> drafted c es - set xs" for i
  proof
    assume "i \<in> pi_invoice_id ` set qs"
    then obtain e q where "e \<in> set es" "pending_entry env c xs st mo e = Inr (Some q)" "i = pi_invoice_id q"
      using C by auto
    then show "i \<in> drafted c es - set xs"
      by (auto simp: pending_entry_def on_kind_def res_simps decode_Inr invoice_sets split: if_splits)
  next
    assume i: "i \<in> drafted c es - set xs"
    then obtain e p where e: "e \<in> set es" "kind e = InvoiceEvent InvoiceDraftCreated"
      "draft_from_slice c (payload e) = Some p" "dc_invoice_id p = i" by (auto simp: invoice_sets)
    with draft [OF e(1-3)] i obtain q where "pending_entry env c xs st mo e = Inr (Some q)" "pi_invoice_id q = i"
      by auto
    then show "i \<in> pi_invoice_id ` set qs" using C e(1) by (auto intro!: image_eqI [of _ _ q])
  qed
  then have "pi_invoice_id ` set qs = drafted c es - set xs" by blast
  then show ?thesis by (auto simp: p pending_excluded_set [OF 1])
qed

section \<open>The retries\<close>

lemma first_pass_excluded:
  "first_pass c ex metas es = Inr (xs, m) \<Longrightarrow> set xs = set ex \<union> answered c es \<union> abandoned c es"
proof (induction es arbitrary: ex metas)
  case Nil
  then show ?case by (simp add: invoice_sets)
next
  case (Cons e es)
  from Cons.prems obtain x d where 1: "retry_excluded c e = Inr x" "draft_meta_entry c e = Inr d"
    "first_pass c (case x of None \<Rightarrow> ex | Some i \<Rightarrow> i # ex)
       (case d of None \<Rightarrow> metas | Some (i, v) \<Rightarrow> metas(i \<mapsto> v)) es = Inr (xs, m)"
    by (auto simp: res_simps)
  have "x = Some i \<longleftrightarrow> i \<in> answered c [e] \<union> abandoned c [e]" for i
  proof -
    consider "kind e = InvoiceEvent InvoiceSubmissionResponse" | "kind e = InvoiceEvent InvoiceMarkedAbandoned"
      | "kind e \<noteq> InvoiceEvent InvoiceSubmissionResponse" "kind e \<noteq> InvoiceEvent InvoiceMarkedAbandoned"
      by blast
    then show ?thesis
    proof cases
      case 1
      from \<open>retry_excluded c e = Inr x\<close> obtain p where "response_from_slice c (payload e) = Some p"
        "x = Some (re_invoice_id p)" by (auto simp: 1 retry_excluded_def res_simps decode_Inr)
      then show ?thesis by (auto simp: 1 invoice_sets)
    next
      case 2
      from \<open>retry_excluded c e = Inr x\<close> obtain p where "abandoned_from_slice c (payload e) = Some p"
        "x = Some (ma_invoice_id p)" by (auto simp: 2 retry_excluded_def res_simps decode_Inr)
      then show ?thesis by (auto simp: 2 invoice_sets)
    next
      case 3
      then have "x = None" using \<open>retry_excluded c e = Inr x\<close> by (simp add: retry_excluded_def)
      then show ?thesis using 3 by (simp add: invoice_sets)
    qed
  qed
  then have x: "{i. x = Some i} = answered c [e] \<union> abandoned c [e]" by blast
  have ex: "set (case x of None \<Rightarrow> ex | Some i \<Rightarrow> i # ex) = set ex \<union> {i. x = Some i}" by (cases x) auto
  have es: "answered c (e # es) = answered c [e] \<union> answered c es"
    "abandoned c (e # es) = abandoned c [e] \<union> abandoned c es" by (auto simp: invoice_sets)
  show ?case using Cons.IH [OF 1(3)] unfolding ex x es by (simp add: Un_ac)
qed

lemma retry_walk_Inr:
  "retry_walk env c xs metas st mo seen es = Inr qs \<Longrightarrow>
   pt_invoice_id ` set qs = attempted c es - set xs - set seen \<and> distinct (map pt_invoice_id qs)"
proof (induction es arbitrary: seen qs)
  case Nil
  then show ?case by (simp add: invoice_sets)
next
  case (Cons e es)
  show ?case
  proof (cases "kind e = InvoiceEvent InvoiceSubmissionAttempt")
    case False
    then have "attempted c (e # es) = attempted c es" by (auto simp: invoice_sets)
    with False Cons show ?thesis by simp
  next
    case True
    then obtain p where p: "attempt_from_slice c (payload e) = Some p"
      using Cons.prems by (auto simp: res_simps decode_Inr)
    have a: "attempted c (e # es) = insert (at_invoice_id p) (attempted c es)"
      using True p by (auto simp: invoice_sets)
    show ?thesis
    proof (cases "at_invoice_id p \<in> set xs \<or> at_invoice_id p \<in> set seen")
      case skip: True
      have "retry_walk env c xs metas st mo seen es = Inr qs"
        using Cons.prems True p skip by (auto simp: decode_def ok_or_def and_then_def)
      from Cons.IH [OF this] show ?thesis using skip by (auto simp: a)
    next
      case fresh: False
      from Cons.prems True p fresh obtain q qs' where q: "qs = q # qs'" "pt_invoice_id q = at_invoice_id p"
        "retry_walk env c xs metas st mo (at_invoice_id p # seen) es = Inr qs'"
        by (auto simp: decode_def ok_or_def res_simps and_then_def split: option.splits sum.splits prod.splits)
      note IH = Cons.IH [OF q(3)]
      have "at_invoice_id p \<notin> pt_invoice_id ` set qs'" using IH by auto
      then show ?thesis using IH fresh by (auto simp: a q(1,2))
    qed
  qed
qed

lemma classify_retries_Inr:
  assumes "classify_pending_retries env c es = Inr qs"
  shows "pt_invoice_id ` set qs = attempted c es - answered c es - abandoned c es"
    and "distinct (map pt_invoice_id qs)"
proof -
  from assms obtain xs m st mo rs where 1: "first_pass c [] Map.empty es = Inr (xs, m)"
    and 2: "retry_walk env c xs m st mo [] es = Inr rs" and q: "qs = fifo pt_issue_date pt_invoice_id rs"
    by (auto simp: classify_pending_retries_def res_simps split: prod.splits)
  note R = retry_walk_Inr [OF 2]
  show "pt_invoice_id ` set qs = attempted c es - answered c es - abandoned c es"
    using R first_pass_excluded [OF 1] by (auto simp: q)
  show "distinct (map pt_invoice_id qs)" using R by (simp add: q)
qed

lemma classify_pending_sorted:
  assumes "classify_pending env c es = Inr ps"
  shows "sorted_wrt (\<lambda>a b. pi_issue_date a < pi_issue_date b \<or>
    pi_issue_date a = pi_issue_date b \<and> pi_invoice_id a \<le> pi_invoice_id b) ps"
  using assms by (auto simp: classify_pending_def res_simps sort_key_lex split: prod.splits)

lemma classify_retries_sorted:
  assumes "classify_pending_retries env c es = Inr qs"
  shows "sorted_wrt (\<lambda>a b. pt_issue_date a < pt_issue_date b \<or>
    pt_issue_date a = pt_issue_date b \<and> pt_invoice_id a \<le> pt_invoice_id b) qs"
  using assms by (auto simp: classify_pending_retries_def res_simps sort_key_lex split: prod.splits)

text \<open>C12: The two queues over one ledger: the queue of new invoices holds those with a draft and no
  attempt, answer or abandonment, the queue of retries those with an attempt and no answer or
  abandonment, the latter each once; no invoice is in both; both are in order of issue, equal times
  by the invoice's id.\<close>

theorem queues_partition:
  assumes "classify_pending env c es = Inr ps" and "classify_pending_retries env c es = Inr qs"
  shows "pi_invoice_id ` set ps = drafted c es - attempted c es - answered c es - abandoned c es \<and>
    pt_invoice_id ` set qs = attempted c es - answered c es - abandoned c es \<and>
    distinct (map pt_invoice_id qs) \<and>
    pi_invoice_id ` set ps \<inter> pt_invoice_id ` set qs = {} \<and>
    sorted_wrt (\<lambda>a b. pi_issue_date a < pi_issue_date b \<or>
      pi_issue_date a = pi_issue_date b \<and> pi_invoice_id a \<le> pi_invoice_id b) ps \<and>
    sorted_wrt (\<lambda>a b. pt_issue_date a < pt_issue_date b \<or>
      pt_issue_date a = pt_issue_date b \<and> pt_invoice_id a \<le> pt_invoice_id b) qs"
proof (intro conjI)
  show "pi_invoice_id ` set ps = drafted c es - attempted c es - answered c es - abandoned c es"
    by (rule classify_pending_Inr [OF assms(1)])
  show "pt_invoice_id ` set qs = attempted c es - answered c es - abandoned c es"
    by (rule classify_retries_Inr(1) [OF assms(2)])
  show "pi_invoice_id ` set ps \<inter> pt_invoice_id ` set qs = {}"
    unfolding classify_pending_Inr [OF assms(1)] classify_retries_Inr(1) [OF assms(2)] by blast
qed (rule classify_retries_Inr(2) [OF assms(2)] classify_pending_sorted [OF assms(1)]
      classify_retries_sorted [OF assms(2)])+

section \<open>The stuck precondition\<close>

lemma on_kind_Inr:
  "on_kind k (\<lambda>e. and_then (decode f e) g) e = Inr (Some a) \<longleftrightarrow>
   kind e = InvoiceEvent k \<and> (\<exists>p. f (payload e) = Some p \<and> g p = Inr (Some a))"
  "on_kind k (\<lambda>e. and_then (decode f e) g) e = Inr None \<longleftrightarrow>
   (kind e = InvoiceEvent k \<longrightarrow> (\<exists>p. f (payload e) = Some p \<and> g p = Inr None))"
  by (auto simp: on_kind_def res_simps decode_Inr)

lemma find_on_kind:
  assumes r: "find_some (on_kind k (\<lambda>e. and_then (decode f e) g)) es = Inr r"
    and g: "\<And>p. iid p = i \<Longrightarrow> g p \<noteq> Inr None" "\<And>p a. g p = Inr (Some a) \<Longrightarrow> iid p = i"
  shows "r \<noteq> None \<longleftrightarrow> i \<in> invoices_with k f iid es"
proof (cases r)
  case None
  have "i \<notin> invoices_with k f iid es"
  proof
    assume "i \<in> invoices_with k f iid es"
    then obtain e p where e: "e \<in> set es" "kind e = InvoiceEvent k" "f (payload e) = Some p" "iid p = i"
      by (auto simp: invoices_with_def)
    from r e(1) have "on_kind k (\<lambda>e. and_then (decode f e) g) e = Inr None"
      by (simp add: None find_some_None)
    then show False using e g(1) by (simp add: on_kind_Inr)
  qed
  then show ?thesis by (simp add: None)
next
  case (Some a)
  with find_some_Some [of _ es a] r obtain e where "e \<in> set es"
    "on_kind k (\<lambda>e. and_then (decode f e) g) e = Inr (Some a)" by blast
  then show ?thesis using g(2) by (auto simp: Some on_kind_Inr invoices_with_def)
qed

lemma invoices_with_rev [simp]: "invoices_with k f iid (rev es) = invoices_with k f iid es"
  by (simp add: invoices_with_def)

lemma has_marked_abandoned_iff:
  assumes "has_marked_abandoned c es i = Inr b"
  shows "b \<longleftrightarrow> i \<in> abandoned c es"
proof -
  from assms obtain r where r: "find_some (on_kind InvoiceMarkedAbandoned (\<lambda>e.
      and_then (decode (abandoned_from_slice c) e) (\<lambda>p.
        Inr (if ma_invoice_id p = i then Some () else None)))) es = Inr r" and b: "b = (r \<noteq> None)"
    by (auto simp: has_marked_abandoned_def res_simps)
  have "r \<noteq> None \<longleftrightarrow> i \<in> abandoned c es"
    unfolding abandoned_def by (rule find_on_kind [OF r]) (auto split: if_splits)
  then show ?thesis by (simp add: b)
qed

lemma latest_response_iff:
  assumes "latest_submission_response env c es i = Inr r"
  shows "r \<noteq> None \<longleftrightarrow> i \<in> answered c es"
proof -
  have "r \<noteq> None \<longleftrightarrow> i \<in> invoices_with InvoiceSubmissionResponse (response_from_slice c) re_invoice_id (rev es)"
    by (rule find_on_kind [OF assms [unfolded latest_submission_response_def]])
      (auto simp: res_simps split: if_splits)
  then show ?thesis by (simp add: answered_def)
qed

lemma latest_attempt_iff:
  assumes "latest_submission_attempt env c es i = Inr r"
  shows "r \<noteq> None \<longleftrightarrow> i \<in> attempted c es"
proof -
  have "r \<noteq> None \<longleftrightarrow> i \<in> invoices_with InvoiceSubmissionAttempt (attempt_from_slice c) at_invoice_id (rev es)"
    by (rule find_on_kind [OF assms [unfolded latest_submission_attempt_def]])
      (auto simp: res_simps split: if_splits)
  then show ?thesis by (simp add: attempted_def)
qed

text \<open>The precondition by cases: abandoned comes first, then the answer, then the attempt.\<close>

lemma stuck_precondition_cases:
  assumes "stuck_precondition env c es i = Inr r"
  obtains "i \<in> abandoned c es" "r = NotStuck AlreadyAbandoned"
  | "i \<notin> abandoned c es" "i \<in> answered c es"
      "r = NotStuck AlreadyFinalized \<or> r = NotStuck AlreadyRejected \<or> (\<exists>p. r = Stuck p \<and> sp_stage p = SsAwaitingAck)"
  | p where "i \<notin> abandoned c es" "i \<notin> answered c es" "i \<in> attempted c es" "r = Stuck p" "sp_stage p = SsPending"
  | "i \<notin> abandoned c es" "i \<notin> answered c es" "i \<notin> attempted c es" "r = NotStuck NeverSubmitted"
proof -
  from assms obtain ab where ab: "has_marked_abandoned c es i = Inr ab"
    by (auto simp: stuck_precondition_def res_simps)
  note A = has_marked_abandoned_iff [OF ab]
  show thesis
  proof (cases ab)
    case True
    then show thesis using assms ab A that(1) by (simp add: stuck_precondition_def)
  next
    case False
    from assms ab False obtain resp where resp: "latest_submission_response env c es i = Inr resp"
      by (auto simp: stuck_precondition_def res_simps)
    note B = latest_response_iff [OF resp]
    show thesis
    proof (cases resp)
      case (Some q)
      obtain txid key where q: "q = (txid, key)" by (cases q)
      from assms ab False resp Some q have
        "r = NotStuck AlreadyFinalized \<or> r = NotStuck AlreadyRejected \<or> (\<exists>p. r = Stuck p \<and> sp_stage p = SsAwaitingAck)"
        by (auto simp: stuck_precondition_def res_simps split: if_splits)
      then show thesis using A B False Some that(2) by simp
    next
      case None
      from assms ab False resp None obtain att where att: "latest_submission_attempt env c es i = Inr att"
        by (auto simp: stuck_precondition_def res_simps)
      note C = latest_attempt_iff [OF att]
      show thesis
      proof (cases att)
        case (Some key)
        then have "r = Stuck \<lparr>sp_stage = SsPending, sp_prior_transaction_id = None,
            sp_prior_last_ack_status = None, sp_idempotency_key = key\<rparr>"
          using assms ab False resp None att by (simp add: stuck_precondition_def)
        from that(3) [OF _ _ _ this] show thesis using False None Some A B C by simp
      next
        case no: None
        then show thesis using assms ab False resp None att A B C that(4)
          by (simp add: stuck_precondition_def)
      qed
    qed
  qed
qed

text \<open>C13: The precondition of the operator's commands and the queues of the drains read the ledger
  separately and agree: an invoice is in the queue of retries exactly when the precondition finds
  it stuck with no answer; one in the queue of new invoices was, for the precondition, never
  submitted; and one the precondition finds stuck with an answer, finished, rejected or abandoned is
  in neither queue.\<close>

theorem precondition_agrees_with_queues:
  assumes "classify_pending env c es = Inr ps" and "classify_pending_retries env c es = Inr qs"
    and "stuck_precondition env c es i = Inr r"
  shows "(i \<in> pt_invoice_id ` set qs \<longleftrightarrow> (\<exists>p. r = Stuck p \<and> sp_stage p = SsPending)) \<and>
    (i \<in> pi_invoice_id ` set ps \<longleftrightarrow> i \<in> drafted c es \<and> r = NotStuck NeverSubmitted) \<and>
    (i \<notin> pi_invoice_id ` set ps \<union> pt_invoice_id ` set qs \<longleftrightarrow>
       (\<exists>p. r = Stuck p \<and> sp_stage p = SsAwaitingAck) \<or> r = NotStuck AlreadyFinalized \<or>
       r = NotStuck AlreadyRejected \<or> r = NotStuck AlreadyAbandoned \<or>
       i \<notin> drafted c es \<and> r = NotStuck NeverSubmitted)"
  unfolding classify_pending_Inr [OF assms(1)] classify_retries_Inr(1) [OF assms(2)]
  using assms(3) by (cases rule: stuck_precondition_cases) auto

section \<open>The queues of a small ledger\<close>

definition demo_walk_entry :: "invoice_event \<Rightarrow> byte list \<Rightarrow> int \<Rightarrow> entry" where
  "demo_walk_entry k pl t = (demo_entry 1 [])\<lparr>kind := InvoiceEvent k, payload := pl, time_wall := t\<rparr>"

definition demo_walk :: "entry list" where
  \<comment> \<open>two drafts, one of them attempted\<close>
  "demo_walk =
     [demo_walk_entry InvoiceDraftCreated (draft_to_bytes demo_codec (demo_draft ''inv_x'')) 1,
      demo_walk_entry InvoiceDraftCreated (draft_to_bytes demo_codec (demo_draft ''inv_xx'')) 2,
      demo_walk_entry InvoiceSubmissionAttempt (attempt_to_bytes demo_codec (demo_attempt ''inv_xx'')) 3]"

lemmas demo_walk_simps = demo_walk_def demo_walk_entry_def demo_draft_def demo_attempt_def decode_def ok_or_def
  on_kind_def chain_operation_sets_def chain_child_def operation_in_def lefts_def rights_def
  List.map_filter_simps

lemma demo_walk_pending:
  "classify_pending demo_duck demo_codec demo_walk = Inr [\<lparr>pi_invoice_id = ''inv_x'', pi_idempotency_key = 7,
     pi_nav_xml_path = Some ''p'', pi_issue_date = 1, pi_operation = OpCreate\<rparr>]"
  by (simp add: classify_pending_def pending_excluded_def pending_entry_def fifo_def demo_walk_simps)

lemma demo_walk_retries:
  "classify_pending_retries demo_duck demo_codec demo_walk = Inr [\<lparr>pt_invoice_id = ''inv_xx'',
     pt_idempotency_key = 7, pt_nav_xml_path = Some ''p'', pt_issue_date = 2, pt_operation = OpCreate\<rparr>]"
  by (simp add: classify_pending_retries_def retry_excluded_def draft_meta_entry_def fifo_def demo_walk_simps)

lemma demo_walk_stuck:
  "stuck_precondition demo_duck demo_codec demo_walk ''inv_xx'' = Inr (Stuck \<lparr>sp_stage = SsPending,
     sp_prior_transaction_id = None, sp_prior_last_ack_status = None, sp_idempotency_key = 7\<rparr>)"
  by (simp add: stuck_precondition_def has_marked_abandoned_def latest_submission_response_def
      latest_submission_attempt_def demo_walk_simps)

theorem queues_partition_witness:
  "\<exists>ps qs. classify_pending demo_duck demo_codec demo_walk = Inr ps \<and>
     classify_pending_retries demo_duck demo_codec demo_walk = Inr qs \<and>
     pi_invoice_id ` set ps = {''inv_x''} \<and> pt_invoice_id ` set qs = {''inv_xx''} \<and>
     pi_invoice_id ` set ps \<inter> pt_invoice_id ` set qs = {} \<and> distinct (map pt_invoice_id qs)"
  using queues_partition [OF demo_walk_pending demo_walk_retries] demo_walk_pending demo_walk_retries by auto

theorem precondition_agrees_with_queues_witness:
  "\<exists>ps qs p. classify_pending demo_duck demo_codec demo_walk = Inr ps \<and>
     classify_pending_retries demo_duck demo_codec demo_walk = Inr qs \<and>
     stuck_precondition demo_duck demo_codec demo_walk ''inv_xx'' = Inr (Stuck p) \<and> sp_stage p = SsPending \<and>
     ''inv_xx'' \<in> pt_invoice_id ` set qs \<and> ''inv_xx'' \<notin> pi_invoice_id ` set ps"
  using precondition_agrees_with_queues [OF demo_walk_pending demo_walk_retries demo_walk_stuck]
    demo_walk_pending demo_walk_retries demo_walk_stuck by auto

end
