(* ===== verification/Nav_Demo.thy ===== *)
theory Nav_Demo
  imports Nav_Runs Nav_Queues
begin

text \<open>
  A small installation for the witnesses: an issued invoice, a NAV that accepts invoices and has
  none of them, and a disk that works. Nothing here models code.
\<close>

section \<open>The installation\<close>

definition text_element :: "string \<Rightarrow> string \<Rightarrow> xml_event list" where
  "text_element tag t = [XStart tag, XText (Some t), XEnd tag]"

definition demo_lib :: nav_lib where
  "demo_lib =
     \<lparr>nl_xml = (\<lambda>b. text_element ''funcCode'' ''OK'' @
        (if b = [1] then text_element ''encodedExchangeToken'' ''t''
         else if b = [2] then text_element ''transactionId'' ''T1''
         else text_element ''invoiceCheckResult'' ''false'')),
      nl_lossy = (\<lambda>b. [text_of b]), nl_base64 = (\<lambda>s. Inr (replicate 16 65)), nl_aes = (\<lambda>k b. b)\<rparr>"

definition demo_http :: "nat \<Rightarrow> string \<Rightarrow> byte list \<Rightarrow> http_answer" where
  "demo_http n operation body = HttpAnswer 200
     (if operation = ''tokenExchange'' then [1] else if operation = ''manageInvoice'' then [2] else [3])"

definition demo_nav_handle_env :: "nav_db handle_env" where
  "demo_nav_handle_env = \<lparr>he_config = handle_config_default, he_unix = True, he_stat = (\<lambda>_. True), he_open = (\<lambda>_. None),
     he_clone = (\<lambda>_. None), he_fsync = (\<lambda>_ _. None), he_wal_exists = (\<lambda>_. True),
     he_has_parent = True, he_now = (\<lambda>n. n), he_wal = (\<lambda>_. \<lparr>wf_present = True, wf_size = 1\<rparr>),
     he_marked = (\<lambda>_. False), he_step = (\<lambda>_ _. None), he_staged = (\<lambda>n. (1, n)),
     he_dir_opens = (\<lambda>_. True), he_old_log = (\<lambda>_ d. d), he_unflushed = (\<lambda>_ _ d. d),
     he_verify = (\<lambda>_. Inr 0), he_recovery_row = (\<lambda>_ d. d), he_sync_mirror = (\<lambda>_ d _. d),
     he_sync_error = (\<lambda>_ _ _. None)\<rparr>"

definition demo_nav :: nav_env where
  "demo_nav =
     \<lparr>ne_ledger = demo_env, ne_duck = demo_duck, ne_lib = demo_lib, ne_codec = demo_codec,
      ne_handle = demo_nav_handle_env, ne_display = (\<lambda>e. ''error''), ne_stamp = demo_stamp,
      ne_commit = (\<lambda>n. None), ne_connect = (\<lambda>n. None), ne_http = demo_http,
      ne_token_request = (\<lambda>n tax. Inr [9]), ne_manage_request = (\<lambda>n tax tok items. Inr [2]),
      ne_check_request = (\<lambda>n tax number. Inr [8]), ne_change_key = replicate 16 1,
      ne_file = (\<lambda>p. Some [5]), ne_validate = (\<lambda>xml. True), ne_invoice_number = (\<lambda>xml. Some ''N1''),
      ne_try_acquire = (\<lambda>n iid. Inr True), ne_new_key = (\<lambda>n. n)\<rparr>"

definition demo_ctx :: nav_ctx where
  "demo_ctx = \<lparr>nc_meta = demo_meta, nc_actor = demo_actor, nc_endpoint = NavTest, nc_tax_number_8 = ''12345678''\<rparr>"

definition demo_invoice_row :: invoice_row where
  "demo_invoice_row = \<lparr>iv_id = demo_iid, iv_series = ''srs_x'', iv_customer = ''cus_x'', iv_issue_date = ''x'',
     iv_number = 1, iv_fiscal_year = 2026, iv_idem = demo_key_text, iv_currency = None, iv_rate = None,
     iv_rate_source = None, iv_rate_date = None, iv_huf_equivalent = None, iv_bank_id = None,
     iv_bank_currency = None, iv_bank_number = None, iv_bank_name = None, iv_bank_swift = None,
     iv_note = None, iv_deadline = None, iv_delivery = None, iv_email = None\<rparr>"

definition demo_nav_db :: nav_db where
  "demo_nav_db = \<lparr>nd_rows = [], nd_duck = duck_new\<lparr>dd_invoices := [demo_invoice_row]\<rparr>\<rparr>"

definition demo_nav_state :: nav_state where
  "demo_nav_state =
     \<lparr>nv_handle = \<lparr>hd_conn = Some (0, 0), hd_fence = Some (0, 0), hd_last_ack = None,
        hd_debouncer = debouncer_new 60, hd_poisoned = False, hd_synced = [], hd_live = (0, 0),
        hd_data = (\<lambda>_. demo_nav_db), hd_stable = (\<lambda>_. demo_nav_db), hd_mirror = demo_nav_db, hd_tick = 1\<rparr>,
      nv_wire = [], nv_tick = 1\<rparr>"

lemma demo_nav_fields [simp]:
  "ne_codec demo_nav = demo_codec" "ne_duck demo_nav = demo_duck" "ne_ledger demo_nav = demo_env"
  "ne_lib demo_nav = demo_lib" "ne_http demo_nav = demo_http"
  "ne_file demo_nav p = Some [5]" "ne_validate demo_nav xml" "ne_invoice_number demo_nav xml = Some ''N1''"
  by (simp_all add: demo_nav_def)

lemma nd_le_order: "log_order nd_le demo_nav_handle_env"
  by (auto simp: log_order_def nd_le_def demo_nav_handle_env_def finishes_installs_def)

lemma demo_nav_ok: "nav_env_ok demo_nav"
  using demo_env_ok demo_codec_ok demo_duck_ok nd_le_order by (simp add: nav_env_ok_def demo_nav_def)

lemma demo_nav_smooth: "nav_smooth demo_nav"
  using demo_nav_ok by (simp add: nav_smooth_def undisturbed_def demo_nav_def demo_nav_handle_env_def)

lemma demo_text_element:
  "find_first_text (text_element tag t @ evs) tag' =
     (if local_name tag = tag' then Inr (Some t) else find_first_text evs tag')"
  by (auto simp: find_first_text_def text_element_def local_name_matches_def)

lemma demo_token:
  "token_exchange_result demo_lib (replicate 16 1) (HttpAnswer 200 [1]) = Inr (text_of (replicate 16 65))"
  by code_simp

lemma demo_manage:
  "manage_invoice_result demo_lib (HttpAnswer 200 [2]) = Inr \<lparr>so_transaction_id = ''T1'', so_response_xml = [2]\<rparr>"
  by code_simp

lemma demo_check: "query_invoice_check_result demo_lib (HttpAnswer 200 [3]) = Inr (False, [3])"
  by code_simp

lemma demo_nav_accepts: "nav_accepts demo_nav \<lparr>so_transaction_id = ''T1'', so_response_xml = [2]\<rparr>"
  by (simp add: nav_accepts_def demo_nav_def demo_http_def demo_token demo_manage)

lemma demo_nav_inv: "nav_inv demo_nav demo_ctx demo_nav_state"
  using demo_ledger_inv
  by (simp add: nav_inv_def settled_def behind_def fenced_def posted_after_attempt_def nav_rows_def
      live_content_def demo_nav_state_def demo_nav_def demo_nav_db_def demo_ctx_def nd_le_def)

lemma demo_nav_calm: "k < 2 ^ 63 \<Longrightarrow> nav_calm demo_nav demo_ctx k demo_nav_state"
  using demo_nav_inv nav_invD(1) [OF demo_nav_inv]
  by (simp add: nav_calm_def calm_def nav_rows_def live_content_def demo_nav_state_def demo_nav_db_def)

lemma demo_loads:
  "load_ready_invoice_by_id demo_duck (duck_new\<lparr>dd_invoices := [demo_invoice_row]\<rparr>) demo_iid =
     Inr (Some (\<lparr>ri_id = InvoiceId 1, ri_series_id = SeriesId 1, ri_customer_id = CustomerId 1, ri_lines = [],
       ri_issue_date = 1, ri_payment_deadline = be_date (dk_billing demo_duck) 1,
       ri_delivery_date = be_date (dk_billing demo_duck) 1, ri_sequence_number = 1, ri_fiscal_year = 2026\<rparr>, 7))"
  by code_simp

lemma demo_invoice_key: "invoice_key demo_duck (InvoiceId 1) = demo_iid"
  by code_simp

lemma demo_issued: "nd_duck c = nd_duck demo_nav_db \<Longrightarrow> issued demo_nav c demo_iid"
  using demo_loads demo_invoice_key by (simp add: issued_def demo_nav_db_def)

end
