(* ===== verification/Nav_Properties.thy ===== *)
theory Nav_Properties
  imports Nav_Demo
begin

text \<open>
  Properties of the submission commands: what NAV receives is attested on stable storage, the
  ledger verifies throughout, a drain goes in order, the two queues are apart, a retry is preceded
  by NAV's answer that it does not have the invoice, an abandoned invoice is left alone, and an
  undisturbed submission ends with NAV's transaction.
\<close>

section \<open>Lives of the commands\<close>

text \<open>
  From one state, in any order: every command with any arguments, the two halves of
  \<open>mark_paid\<close> separately, transactions of other writers that append to the ledger, flushes and
  reads by others, checkpoints, and a stop of the machine after which the handle is opened on what
  stable storage has.
\<close>

inductive nav_step :: "nav_env \<Rightarrow> nav_ctx \<Rightarrow> nav_state \<Rightarrow> nav_state \<Rightarrow> bool" for env ctx where
  ns_submit: "submit_from_inputs env ctx args s = (r, t) \<Longrightarrow> nav_step env ctx s t"
| ns_drain: "drain_submission_queue env ctx dargs s = (r, t) \<Longrightarrow> nav_step env ctx s t"
| ns_retries: "drain_pending_retries env ctx dargs s = (r, t) \<Longrightarrow> nav_step env ctx s t"
| ns_retry: "retry_submission env ctx rargs s = (r, t) \<Longrightarrow> nav_step env ctx s t"
| ns_abandon: "mark_abandoned env ctx tenant iid reason force s = (r, t) \<Longrightarrow> nav_step env ctx s t"
| ns_paid_check: "mark_paid_check env inp s = (r, t) \<Longrightarrow> nav_step env ctx s t"
| ns_paid_write: "mark_paid_write env ctx inp s = (r, t) \<Longrightarrow> nav_step env ctx s t"
| ns_append: "write_audit env ctx ws s = (r, t) \<Longrightarrow> nav_step env ctx s t"
| ns_flush: "nav_durable_ack env s = (r, t) \<Longrightarrow> nav_step env ctx s t"
| ns_read: "read_entries env s = (r, t) \<Longrightarrow> nav_step env ctx s t"
| ns_checkpoint: "checkpoint_now (ne_handle env) (nv_handle s) = (r, h) \<Longrightarrow>
    nav_step env ctx s (s\<lparr>nv_handle := h\<rparr>)"
| ns_crash: "length (nav_rows s) < 2 ^ 63 \<Longrightarrow>
    handle_open (ne_handle env) refused (hd_live (nv_handle s)) (hd_stable (nv_handle s))
      (hd_stable (nv_handle s)) (hd_mirror (nv_handle s)) n = Inr h \<Longrightarrow>
    nav_step env ctx s (s\<lparr>nv_handle := h\<rparr>)"

definition nav_life :: "nav_env \<Rightarrow> nav_ctx \<Rightarrow> nav_state \<Rightarrow> nav_state \<Rightarrow> bool" where
  "nav_life env ctx = (nav_step env ctx)\<^sup>*\<^sup>*"

lemma grows_inv:
  "io_grows (nav_extends env ctx) m \<Longrightarrow> nav_inv env ctx s \<Longrightarrow> m s = (r, t) \<Longrightarrow> nav_inv env ctx t"
  by (erule (2) nav_extendsD) (rule adds_inv)

lemma checkpoint_settled:
  assumes lo: "log_order le env" and s: "settled le env s" and c: "checkpoint_now env s = (r, t)"
  shows "caught_up le env s t"
proof -
  obtain q u where q: "run_durable_checkpoint_locked env s = (q, u)" by fastforce
  have t: "t = u"
    using c q lock_recovering_clean [OF settledD(2) [OF s]]
    by (simp add: checkpoint_now_def io_bind_def io_attempt_def io_return_def)
  note f = run_checkpoint_frame [OF log_orderD(5) [OF lo] q]
  have "live_content t = live_content s"
    "live_stable t = live_stable s \<or> live_stable t = live_content s" "hd_poisoned t = hd_poisoned s"
    using f by (auto simp: t checkpointed_def live_content_def live_stable_def)
  then show ?thesis
    using behind_checkpoint_now [OF lo settledD(1) [OF s] c] settledD(2) [OF s]
    by (simp add: caught_up_def settled_def)
qed

lemma ledger_inv_prefix:
  assumes "ledger_inv env meta rows" and "prefix p rows"
  shows "ledger_inv env meta p"
proof -
  from assms(2) obtain zs where rows: "rows = p @ zs" by (auto simp: prefix_def)
  from assms(1) obtain es where rep: "ledger_rep env (meta_tenant_id meta) es rows"
    and ok: "env_ok env" "meta_ok meta" by (auto simp: ledger_inv_def ledger_ok_def)
  define es1 where "es1 = take (length p) es"
  define es2 where "es2 = drop (length p) es"
  have es: "es = es1 @ es2" by (simp add: es1_def es2_def)
  have "rows = map (row_of_entry env) es" using rep by (simp add: ledger_rep_def)
  then have "take (length p) rows = map (row_of_entry env) es1" by (simp add: es1_def take_map)
  then have p: "p = map (row_of_entry env) es1" by (simp add: rows)
  have "ledger_rep env (meta_tenant_id meta) es1 p"
    using rep by (auto simp: ledger_rep_def p es chained_append)
  then show ?thesis using ok by (auto simp: ledger_inv_def ledger_ok_def)
qed

lemma crash_inv:
  assumes i: "nav_inv env ctx s" and room: "length (nav_rows s) < 2 ^ 63"
    and ok: "nav_env_ok env"
    and o': "handle_open (ne_handle env) refused (hd_live (nv_handle s)) (hd_stable (nv_handle s))
      (hd_stable (nv_handle s)) (hd_mirror (nv_handle s)) n = Inr h"
  shows "nav_inv env ctx (s\<lparr>nv_handle := h\<rparr>) \<and> stable_rows (s\<lparr>nv_handle := h\<rparr>) = stable_rows s"
proof -
  have h: "hd_live h = hd_live (nv_handle s)" "hd_stable h = hd_stable (nv_handle s)"
    "hd_data h = hd_stable (nv_handle s)" "\<not> hd_poisoned h"
    using o' by (auto simp: handle_open_def res_simps)
  have "behind nd_le (ne_handle env) h"
    by (rule behind_open [where le = nd_le, OF o' behindD(3) [OF settledD(1) [OF nav_invD(1) [OF i]]]])
      (simp add: log_orderD(1) [OF nav_env_okD(3) [OF ok]])
  then have set: "settled nd_le (ne_handle env) h" using h by (simp add: settled_def)
  have st: "stable_rows (s\<lparr>nv_handle := h\<rparr>) = stable_rows s" by (simp add: stable_rows_def h)
  have rows: "nav_rows (s\<lparr>nv_handle := h\<rparr>) = stable_rows s"
    by (simp add: nav_rows_def live_content_def stable_rows_def h)
  have "posted_after_attempt env (s\<lparr>nv_handle := h\<rparr>)"
    by (rule posted_mono [OF nav_invD(2) [OF i]]) (simp_all add: st)
  moreover have "ledger_inv (ne_ledger env) (nc_meta ctx) (stable_rows s)"
    by (rule ledger_inv_prefix [OF nav_invD(3) [OF i room] stable_below [OF i]])
  ultimately show ?thesis using set st rows by (simp add: nav_inv_def)
qed

lemma grows_stable:
  assumes "io_grows (nav_extends env ctx) m" and "nav_inv env ctx s" and "m s = (r, t)"
  shows "nav_inv env ctx t \<and> prefix (stable_rows s) (stable_rows t)"
  using assms(2,1,3) by (auto elim!: nav_extendsD simp: adds_def)

lemma nav_step_keeps:
  assumes "nav_step env ctx s t" and ok: "nav_env_ok env" and i: "nav_inv env ctx s"
  shows "nav_inv env ctx t \<and> prefix (stable_rows s) (stable_rows t)"
  using assms(1)
proof cases
  case (ns_submit args r)
  show ?thesis by (rule grows_stable [OF grows_submit [OF ok] i ns_submit])
next
  case (ns_drain dargs r)
  show ?thesis by (rule grows_stable [OF grows_drain_submission_queue [OF ok] i ns_drain])
next
  case (ns_retries dargs r)
  show ?thesis by (rule grows_stable [OF grows_drain_pending_retries [OF ok] i ns_retries])
next
  case (ns_retry rargs r)
  show ?thesis by (rule grows_stable [OF grows_retry_submission [OF ok] i ns_retry])
next
  case (ns_abandon tenant iid reason force r)
  show ?thesis by (rule grows_stable [OF grows_mark_abandoned [OF ok] i ns_abandon])
next
  case (ns_paid_check inp r)
  show ?thesis by (rule grows_stable [OF grows_mark_paid_check [OF ok] i ns_paid_check])
next
  case (ns_paid_write inp r)
  show ?thesis by (rule grows_stable [OF grows_mark_paid_write [OF ok] i ns_paid_write])
next
  case (ns_append ws r)
  show ?thesis by (rule grows_stable [OF grows_write_audit [OF ok] i ns_append])
next
  case (ns_flush r)
  show ?thesis by (rule grows_stable [OF grows_nav_durable_ack [OF ok] i ns_flush])
next
  case (ns_read r)
  show ?thesis by (rule grows_stable [OF grows_read_entries [OF ok] i ns_read])
next
  case (ns_checkpoint r h)
  have "caught_up nd_le (ne_handle env) (nv_handle s) h"
    by (rule checkpoint_settled [OF nav_env_okD(3) [OF ok] nav_invD(1) [OF i] ns_checkpoint(2)])
  from inv_caught_up_handle [OF ok i this] show ?thesis by (simp add: adds_def ns_checkpoint(1))
next
  case (ns_crash refused n h)
  show ?thesis using crash_inv [OF i ns_crash(2) ok ns_crash(3)] by (simp add: ns_crash(1))
qed

lemma nav_life_stable:
  assumes "nav_life env ctx s0 s" and ok: "nav_env_ok env" and i: "nav_inv env ctx s0"
  shows "nav_inv env ctx s \<and> prefix (stable_rows s0) (stable_rows s)"
  using assms(1) unfolding nav_life_def
proof induction
  case base
  show ?case by (simp add: i)
next
  case (step y z)
  then show ?case using nav_step_keeps [OF step.hyps(2) ok] by (auto intro: prefix_order.trans)
qed

lemma nav_life_inv:
  "nav_life env ctx s0 s \<Longrightarrow> nav_env_ok env \<Longrightarrow> nav_inv env ctx s0 \<Longrightarrow> nav_inv env ctx s"
  by (simp add: nav_life_stable)

section \<open>The ends of a submission\<close>

lemma writes_tax [simp]:
  "attempt_write env (ctx\<lparr>nc_tax_number_8 := x\<rparr>) = attempt_write env ctx"
  "answer_write env (ctx\<lparr>nc_tax_number_8 := x\<rparr>) = answer_write env ctx"
  "check_outcome_write env (ctx\<lparr>nc_tax_number_8 := x\<rparr>) = check_outcome_write env ctx"
  "check_failure_write env (ctx\<lparr>nc_tax_number_8 := x\<rparr>) = check_failure_write env ctx"
  by (simp_all add: fun_eq_iff attempt_write_def answer_write_def attempt_failed_write_def
      check_outcome_write_def check_failure_write_def split: sum.splits)

lemma submitted_tax [simp]: "submitted env (ctx\<lparr>nc_tax_number_8 := x\<rparr>) = submitted env ctx"
  by (simp add: fun_eq_iff submitted_def)

lemma submitted_rows: "nav_rows s = nav_rows u \<Longrightarrow> submitted env ctx iid key b req s = submitted env ctx iid key b req u"
  by (simp add: fun_eq_iff submitted_def)

definition sent ::
  "nav_env \<Rightarrow> nav_ctx \<Rightarrow> nav_state \<Rightarrow> string \<Rightarrow> idem_key \<Rightarrow> audit_write list \<Rightarrow>
   (nav_transport_error + string) option \<Rightarrow> nav_state \<Rightarrow> bool" where
  \<comment> \<open>the end of a submission that began in the first state, with what NAV said when it was recorded\<close>
  "sent env ctx s0 iid key before v t \<longleftrightarrow>
     (\<exists>rows wire req. adds env ctx s0 t rows wire \<and>
        (posts wire = [] \<and> v = None \<and>
           (rows = [] \<or> list_all2 (row_of_write env) (before @ [attempt_write env ctx iid key req]) rows) \<or>
         submitted env ctx iid key before req s0 rows (posts wire) v) \<and>
        (v \<noteq> None \<longrightarrow> stable_rows t = nav_rows t))"

lemma sent_tax [simp]: "sent env (ctx\<lparr>nc_tax_number_8 := x\<rparr>) = sent env ctx"
  by (simp add: fun_eq_iff sent_def)

definition recorded :: "'e + 'a \<Rightarrow> 'a option" where
  "recorded r = (case r of Inl e \<Rightarrow> None | Inr v \<Rightarrow> Some v)"

lemma recorded_simps [simp]: "recorded (Inl e) = None" "recorded (Inr v) = Some v"
  by (simp_all add: recorded_def)

lemma submit_prepared_sent:
  assumes ok: "nav_env_ok env" and q: "quiet_from env ctx s0 s"
    and m: "submit_prepared env ctx b iid key before req s = (r, t)"
  shows "sent env ctx s0 iid key before (recorded r) t"
proof -
  from submit_prepared_adds [OF ok quiet_from_inv [OF q] m] obtain rows wire where
    a: "adds env ctx s t rows wire"
    and e: "wire = [] \<and> is_ok r = False \<and>
       (rows = [] \<or> list_all2 (row_of_write env) (before @ [attempt_write env ctx iid key req]) rows) \<or>
     submitted env ctx iid key before req s rows wire (recorded r)"
    and st: "is_ok r \<longrightarrow> stable_rows t = nav_rows t"
    unfolding recorded_def by blast
  from quiet_then_adds [OF q a] obtain w where w: "adds env ctx s0 t rows w" "posts w = posts wire" by blast
  have sub: "submitted env ctx iid key before req s0 rows wire (recorded r) \<Longrightarrow> posts wire = wire"
    by (auto simp: submitted_def posts_def)
  have e': "posts w = [] \<and> recorded r = None \<and>
       (rows = [] \<or> list_all2 (row_of_write env) (before @ [attempt_write env ctx iid key req]) rows) \<or>
     submitted env ctx iid key before req s0 rows (posts w) (recorded r)"
    using e
  proof
    assume "wire = [] \<and> is_ok r = False \<and>
       (rows = [] \<or> list_all2 (row_of_write env) (before @ [attempt_write env ctx iid key req]) rows)"
    then show ?thesis using w(2) by (cases r) simp_all
  next
    assume "submitted env ctx iid key before req s rows wire (recorded r)"
    then have "submitted env ctx iid key before req s0 rows wire (recorded r)"
      using submitted_rows [OF quiet_from_rows [OF q]] by simp
    then show ?thesis using sub w(2) by simp
  qed
  have "recorded r \<noteq> None \<longrightarrow> stable_rows t = nav_rows t" using st by (cases r) simp_all
  with w(1) e' show ?thesis unfolding sent_def by blast
qed

lemma after_sent_map:
  assumes ok: "nav_env_ok env"
    and R: "\<And>r t v. sent env ctx s0 iid key before v t \<Longrightarrow>
      \<forall>x. r = Inr x \<longrightarrow> (\<exists>txid. v = Some (Inr txid) \<and> x = k txid) \<Longrightarrow> R r t"
  shows "after env ctx s0 (io_bind (io_map_err g (submit_prepared env ctx b iid key before req)) (\<lambda>r.
      case r of Inl e \<Rightarrow> io_fail (h e) | Inr txid \<Rightarrow> io_return (k txid))) R"
proof (rule afterI, rule disjI2)
  fix s r t assume q: "quiet_from env ctx s0 s"
    and m: "io_bind (io_map_err g (submit_prepared env ctx b iid key before req)) (\<lambda>r.
      case r of Inl e \<Rightarrow> io_fail (h e) | Inr txid \<Rightarrow> io_return (k txid)) s = (r, t)"
  obtain w u where w: "submit_prepared env ctx b iid key before req s = (w, u)" by fastforce
  have "u = t" "\<forall>x. r = Inr x \<longrightarrow> (\<exists>txid. recorded w = Some (Inr txid) \<and> x = k txid)"
    using m w by (auto simp: io_bind_def io_map_err_def io_fail_def io_return_def split: sum.splits)
  then show "R r t" using R [OF submit_prepared_sent [OF ok q w]] by blast
qed

lemma io_map_err_id: "io_map_err (\<lambda>e. e) m = m"
  by (auto simp: fun_eq_iff io_map_err_def map_err_def split: prod.splits sum.splits)

lemmas after_sent = after_sent_map [where g = "\<lambda>e. e", unfolded io_map_err_id]

lemma submit_after:
  assumes ok: "nav_env_ok env"
  shows "after env ctx s0 (submit_from_inputs env ctx args)
    (\<lambda>r t. \<exists>pinv key v. loads env s0 (sb_invoice_id args) (pinv, key) \<and>
       sent env ctx s0 (sb_invoice_id args) key [] v t \<and>
       (\<forall>txid. r = Inr txid \<longrightarrow> v = Some (Inr txid)))"
  unfolding submit_from_inputs_def Let_def
proof (intro after_bind_lift)
  fix tax
  let ?ctx = "ctx\<lparr>nc_tax_number_8 := tax\<rparr>" and ?iid = "sb_invoice_id args"
  let ?R = "\<lambda>r t. \<exists>pinv key v. loads env s0 ?iid (pinv, key) \<and>
       sent env ctx s0 ?iid key [] v t \<and> (\<forall>txid. r = Inr txid \<longrightarrow> v = Some (Inr txid))"
  show "after env ctx s0 (io_bind (acquire_or_refuse env ?iid) (\<lambda>_.
     io_bind (io_lift (check (ne_validate env (sb_invoice_xml args)) (NeSchema []))) (\<lambda>_.
     io_bind (load_requested_invoice env ?iid) (\<lambda>(pinv, key).
     io_bind (read_entries env) (\<lambda>es.
     io_bind (io_lift (operation_for_invoice (ne_codec env) es ?iid)) (\<lambda>operation.
     io_bind (io_map_err NeNav (prepare_for_attempt_audit env ?ctx (sb_invoice_xml args) operation)) (\<lambda>request_xml.
     io_bind (submit_prepared env ?ctx True (invoice_key (ne_duck env) (ri_id pinv)) key [] request_xml) (\<lambda>r.
       case r of Inl e \<Rightarrow> io_fail (NeNav e) | Inr txid \<Rightarrow> io_return txid)))))))) ?R"
  proof (intro after_bind_lift after_bind [OF quiet_acquire_or_refuse] after_bind [OF quiet_load_requested [OF ok]],
      clarify)
    fix u pinv key v s
    assume q: "quiet_from env ctx s0 s" and l: "load_requested_invoice env ?iid s = (Inr (pinv, key), v)"
    note ld = quiet_loads_requested [OF ok q l]
    have last: "after env ?ctx s0 (io_bind (submit_prepared env ?ctx True ?iid key [] request_xml) (\<lambda>r.
       case r of Inl e \<Rightarrow> io_fail (NeNav e) | Inr txid \<Rightarrow> io_return txid)) ?R" for request_xml
      using ld by (intro after_sent [OF ok]) auto
    show "after env ctx s0 (io_bind (read_entries env) (\<lambda>es.
     io_bind (io_lift (operation_for_invoice (ne_codec env) es ?iid)) (\<lambda>operation.
     io_bind (io_map_err NeNav (prepare_for_attempt_audit env ?ctx (sb_invoice_xml args) operation)) (\<lambda>request_xml.
     io_bind (submit_prepared env ?ctx True (invoice_key (ne_duck env) (ri_id pinv)) key [] request_xml) (\<lambda>r.
       case r of Inl e \<Rightarrow> io_fail (NeNav e) | Inr txid \<Rightarrow> io_return txid))))) ?R"
      using last ld
      by (intro after_bind [OF quiet_read_entries [OF ok]] after_bind_lift
          after_bind [OF qx.grows_map_err [OF quiet_prepare]]) simp
  qed
qed

text \<open>The request on the wire and the rows of a submission, without the ends of the proof above.\<close>

lemma sent_cases:
  assumes "sent env ctx s iid key [] v t"
  obtains wire where "adds env ctx s t [] wire" "posts wire = []" "v = None"
  | r1 wire req where "adds env ctx s t [r1] wire" "posts wire = []" "v = None"
      "row_of_write env (attempt_write env ctx iid key req) r1"
  | r1 wire req a where "adds env ctx s t [r1] wire" "v = None"
      "row_of_write env (attempt_write env ctx iid key req) r1"
      "posts wire = [\<lparr>we_operation = ''manageInvoice'', we_body = req, we_answer = a, we_stable = nav_rows s @ [r1]\<rparr>]"
  | r1 r2 wire req q a where "adds env ctx s t [r1, r2] wire"
      "row_of_write env (attempt_write env ctx iid key req) r1"
      "row_of_write env (answer_write env ctx iid key q) r2"
      "posts wire = [\<lparr>we_operation = ''manageInvoice'', we_body = req, we_answer = a, we_stable = nav_rows s @ [r1]\<rparr>]"
      "q = manage_invoice_result (ne_lib env) a"
      "v = None \<or> v = Some (answer_value q) \<and> stable_rows t = nav_rows t"
proof -
  from assms obtain rows wire req where a: "adds env ctx s t rows wire"
    and e: "posts wire = [] \<and> v = None \<and>
           (rows = [] \<or> list_all2 (row_of_write env) [attempt_write env ctx iid key req] rows) \<or>
         submitted env ctx iid key [] req s rows (posts wire) v"
    and st: "v \<noteq> None \<longrightarrow> stable_rows t = nav_rows t"
    unfolding sent_def append_Nil by blast
  from e show thesis
  proof
    assume "posts wire = [] \<and> v = None \<and>
           (rows = [] \<or> list_all2 (row_of_write env) [attempt_write env ctx iid key req] rows)"
    then show thesis using a that(1,2) by (auto simp: list_all2_Cons1)
  next
    assume "submitted env ctx iid key [] req s rows (posts wire) v"
    then obtain r1 new2 q ans where r: "rows = r1 # new2" "row_of_write env (attempt_write env ctx iid key req) r1"
      "posts wire = [\<lparr>we_operation = ''manageInvoice'', we_body = req, we_answer = ans, we_stable = nav_rows s @ [r1]\<rparr>]"
      "new2 = [] \<and> v = None \<or>
         list_all2 (row_of_write env) [answer_write env ctx iid key q] new2 \<and>
         (v = None \<or> v = Some (answer_value q))"
      and q: "q = manage_invoice_result (ne_lib env) ans"
      unfolding submitted_def by (auto simp: list_all2_Cons1)
    from r(4) show thesis
    proof
      assume "new2 = [] \<and> v = None"
      then show thesis using a r that(3) by blast
    next
      assume l: "list_all2 (row_of_write env) [answer_write env ctx iid key q] new2 \<and>
         (v = None \<or> v = Some (answer_value q))"
      then obtain r2 where "new2 = [r2]" "row_of_write env (answer_write env ctx iid key q) r2"
        by (auto simp: list_all2_Cons1)
      then show thesis using a r l q st that(4) by blast
    qed
  qed
qed

text \<open>C3: A submission that returns a transaction has posted exactly one request, after an
  attempt with that request was on stable storage, and has recorded that attempt and NAV's answer
  with that transaction, both under the key the invoice was issued with; both rows are on stable
  storage when it returns. One that fails has posted nothing, with no row or only an attempt added;
  or has posted the one request, with the attempt and at most its answer recorded.\<close>

theorem submission_ends:
  assumes "nav_env_ok env" and "nav_inv env ctx s" and "submit_from_inputs env ctx args s = (r, t)"
  shows "case r of
      Inr txid \<Rightarrow> (\<exists>pinv key req so a r1 r2 wire. loads env s (sb_invoice_id args) (pinv, key) \<and>
        adds env ctx s t [r1, r2] wire \<and> so_transaction_id so = txid \<and>
        row_of_write env (attempt_write env ctx (sb_invoice_id args) key req) r1 \<and>
        row_of_write env (response_write env (sb_invoice_id args) key so) r2 \<and>
        manage_invoice_result (ne_lib env) a = Inr so \<and>
        posts wire = [\<lparr>we_operation = ''manageInvoice'', we_body = req, we_answer = a, we_stable = nav_rows s @ [r1]\<rparr>] \<and>
        stable_rows t = nav_rows t)
    | Inl e \<Rightarrow> (\<exists>rows wire key req q a. adds env ctx s t rows wire \<and>
        (rows = [] \<and> posts wire = [] \<or>
         (\<exists>r1 rest. rows = r1 # rest \<and> row_of_write env (attempt_write env ctx (sb_invoice_id args) key req) r1 \<and>
           (rest = [] \<or> list_all2 (row_of_write env) [answer_write env ctx (sb_invoice_id args) key q] rest) \<and>
           (posts wire = [] \<and> rest = [] \<or>
            posts wire = [\<lparr>we_operation = ''manageInvoice'', we_body = req, we_answer = a, we_stable = nav_rows s @ [r1]\<rparr>] \<and>
            (rest = [] \<or> q = manage_invoice_result (ne_lib env) a)))))"
proof -
  from afterD [OF submit_after [OF assms(1)] assms(2,3)] show ?thesis
  proof
    assume q: "\<not> is_ok r \<and> quiet_from env ctx s t"
    then show ?thesis by (cases r) (auto simp: quiet_from_def)
  next
    assume "\<exists>pinv key v. loads env s (sb_invoice_id args) (pinv, key) \<and>
       sent env ctx s (sb_invoice_id args) key [] v t \<and> (\<forall>txid. r = Inr txid \<longrightarrow> v = Some (Inr txid))"
    then obtain pinv key v where l: "loads env s (sb_invoice_id args) (pinv, key)"
      and e: "sent env ctx s (sb_invoice_id args) key [] v t"
      and v: "\<forall>txid. r = Inr txid \<longrightarrow> v = Some (Inr txid)" by blast
    from e show ?thesis
    proof (cases rule: sent_cases)
      case (1 wire)
      then show ?thesis using v by (cases r) auto
    next
      case (2 r1 wire req)
      then show ?thesis using v by (cases r) fastforce+
    next
      case (3 r1 wire req a)
      then show ?thesis using v by (cases r) fastforce+
    next
      case (4 r1 r2 wire req q a)
      show ?thesis
      proof (cases r)
        case (Inl e)
        have "list_all2 (row_of_write env) [answer_write env ctx (sb_invoice_id args) key q] [r2]"
          using 4(3) by simp
        then show ?thesis using 4(1,2,4,5) Inl by fastforce
      next
        case (Inr txid)
        then have "answer_value q = Inr txid" and st: "stable_rows t = nav_rows t" using v 4(6) by auto
        then obtain so where q: "q = Inr so" "so_transaction_id so = txid"
          by (cases q) (auto simp: answer_value_def)
        have "row_of_write env (response_write env (sb_invoice_id args) key so) r2"
          using 4(3) by (simp add: q answer_write_def)
        with l 4(1,2,4) st q(2) 4(5) [unfolded q, symmetric] show ?thesis unfolding Inr sum.case by blast
      qed
    qed
  qed
qed

section \<open>A drain\<close>

definition attempt_ids :: "nav_env \<Rightarrow> ledger_row list \<Rightarrow> string list" where
  \<comment> \<open>the invoices of the attempts among the rows\<close>
  "attempt_ids env rows = List.map_filter (\<lambda>r.
     if r_kind r = event_kind_as_str (InvoiceEvent InvoiceSubmissionAttempt)
     then map_option at_invoice_id (attempt_from_slice (ne_codec env) (r_payload r)) else None) rows"

lemma attempt_ids_simps [simp]:
  "attempt_ids env [] = []"
  "attempt_ids env (a @ b) = attempt_ids env a @ attempt_ids env b"
  by (simp_all add: attempt_ids_def List.map_filter_simps List.map_filter_def)

lemma attempt_ids_Cons: "attempt_ids env (r # rows) = attempt_ids env [r] @ attempt_ids env rows"
  by (simp add: attempt_ids_def List.map_filter_def)

lemma attempt_ids_attempt:
  assumes "nav_env_ok env" and "row_of_write env (attempt_write env ctx iid key req) r"
  shows "attempt_ids env [r] = [iid]"
  using assms(2) nav_env_okD(2) [OF assms(1)]
  by (simp add: attempt_ids_def List.map_filter_def row_of_write_def attempt_write_def codec_ok_def)

lemma attempt_ids_other:
  assumes "row_of_write env w r" and "fst w \<noteq> InvoiceSubmissionAttempt"
  shows "attempt_ids env [r] = []"
  using assms event_kind_as_str_inj [of "InvoiceEvent (fst w)" "InvoiceEvent InvoiceSubmissionAttempt"]
  by (auto simp: attempt_ids_def List.map_filter_def row_of_write_def split: prod.splits)

lemma answer_write_kind: "fst (answer_write env ctx iid key q) \<noteq> InvoiceSubmissionAttempt"
  by (simp add: answer_write_def response_write_def attempt_failed_write_def split: sum.splits)

lemma attempt_ids_others:
  "list_all2 (row_of_write env) ws rows \<Longrightarrow> \<forall>w \<in> set ws. fst w \<noteq> InvoiceSubmissionAttempt \<Longrightarrow>
   attempt_ids env rows = []"
proof (induction rule: list_all2_induct)
  case (Cons w ws r rows)
  then show ?case using attempt_ids_other [of env w r] by (subst attempt_ids_Cons) simp
qed simp

lemma sent_attempts:
  assumes ok: "nav_env_ok env" and s: "sent env ctx s iid key before v t"
    and b: "\<forall>w \<in> set before. fst w \<noteq> InvoiceSubmissionAttempt"
  shows "\<exists>rows wire. adds env ctx s t rows wire \<and> (attempt_ids env rows = [] \<or> attempt_ids env rows = [iid]) \<and>
    length (posts wire) \<le> length (attempt_ids env rows) \<and> (v \<noteq> None \<longrightarrow> length (posts wire) = 1)"
proof -
  have all: "attempt_ids env new1 = [iid]"
    if l: "list_all2 (row_of_write env) (before @ [attempt_write env ctx iid key req]) new1" for new1 req
  proof -
    from l obtain bs r1 where "new1 = bs @ [r1]" "list_all2 (row_of_write env) before bs"
      "row_of_write env (attempt_write env ctx iid key req) r1"
      by (auto simp: list_all2_append1 list_all2_Cons1)
    then show ?thesis using attempt_ids_others [of env before bs] b attempt_ids_attempt [OF ok] by simp
  qed
  have answer: "attempt_ids env new2 = []"
    if "list_all2 (row_of_write env) [answer_write env ctx iid key q] new2" for new2 q
    by (rule attempt_ids_others [OF that]) (simp add: answer_write_kind)
  from s obtain rows wire req where a: "adds env ctx s t rows wire"
    and e: "posts wire = [] \<and> v = None \<and>
           (rows = [] \<or> list_all2 (row_of_write env) (before @ [attempt_write env ctx iid key req]) rows) \<or>
         submitted env ctx iid key before req s rows (posts wire) v"
    unfolding sent_def by blast
  from e show ?thesis
  proof
    assume "posts wire = [] \<and> v = None \<and>
           (rows = [] \<or> list_all2 (row_of_write env) (before @ [attempt_write env ctx iid key req]) rows)"
    then show ?thesis using a all by (intro exI [of _ rows] exI [of _ wire]) auto
  next
    assume "submitted env ctx iid key before req s rows (posts wire) v"
    then obtain new1 new2 q ans where n: "rows = new1 @ new2"
      "list_all2 (row_of_write env) (before @ [attempt_write env ctx iid key req]) new1"
      "posts wire = [\<lparr>we_operation = ''manageInvoice'', we_body = req, we_answer = ans, we_stable = nav_rows s @ new1\<rparr>]"
      "new2 = [] \<or> list_all2 (row_of_write env) [answer_write env ctx iid key q] new2"
      unfolding submitted_def by blast
    have "attempt_ids env rows = [iid]" using all [OF n(2)] answer n(1,4) by auto
    then show ?thesis using a n(3) by (intro exI [of _ rows] exI [of _ wire]) simp
  qed
qed

text \<open>Which errors an operation can end with.\<close>

definition io_errs :: "('e \<Rightarrow> bool) \<Rightarrow> ('s, 'e, 'a) io_op \<Rightarrow> bool" where
  "io_errs P m \<longleftrightarrow> (\<forall>s e t. m s = (Inl e, t) \<longrightarrow> P e)"

named_theorems io_err_rules \<open>rules for the errors of operations\<close>

lemma errs_return [io_err_rules]: "io_errs P (io_return a)"
  by (simp add: io_errs_def io_return_def)

lemma errs_fail: "P e \<Longrightarrow> io_errs P (io_fail e)"
  by (simp add: io_errs_def io_fail_def)

lemma errs_lift: "(\<And>e. x = Inl e \<Longrightarrow> P e) \<Longrightarrow> io_errs P (io_lift x)"
  by (simp add: io_errs_def io_lift_def)

lemma errs_attempt [io_err_rules]: "io_errs P (io_attempt m)"
  by (auto simp: io_errs_def io_attempt_def split: prod.splits)

lemma errs_map_err: "io_errs (\<lambda>e. P (g e)) m \<Longrightarrow> io_errs P (io_map_err g m)"
  by (auto simp: io_errs_def io_map_err_def map_err_def split: prod.splits sum.splits)

lemma errs_bind [io_err_rules]: "io_errs P m \<Longrightarrow> (\<And>a. io_errs P (f a)) \<Longrightarrow> io_errs P (io_bind m f)"
  unfolding io_errs_def io_bind_def by (fastforce split: prod.splits sum.splits)

lemma errs_case_sum [io_err_rules]:
  "(\<And>e. io_errs P (g e)) \<Longrightarrow> (\<And>x. io_errs P (f x)) \<Longrightarrow>
   io_errs P (case r of Inl e \<Rightarrow> g e | Inr x \<Rightarrow> f x)"
  by (cases r) simp_all

lemma errs_mono: "io_errs P m \<Longrightarrow> (\<And>e. P e \<Longrightarrow> Q e) \<Longrightarrow> io_errs Q m"
  by (auto simp: io_errs_def)

definition not_nav :: "nav_error \<Rightarrow> bool" where
  "not_nav e \<longleftrightarrow> (\<forall>x. e \<noteq> NeNav x)"

lemma errs_on_handle: "(\<And>e. not_nav (g e)) \<Longrightarrow> io_errs not_nav (on_handle (io_map_err g m))"
  by (auto simp: io_errs_def on_handle_def io_map_err_def map_err_def split: prod.splits sum.splits)

lemma append_writes_errs: "append_writes env ctx n ws rows = Inl e \<Longrightarrow> not_nav e"
  by (induction ws arbitrary: n rows) (fastforce simp: not_nav_def res_simps and_then_def map_err_def split: sum.splits prod.splits)+

lemma errs_write_audit: "io_errs not_nav (write_audit env ctx ws)"
proof -
  have f: "audit_tx env ctx n ws d = Inl e \<Longrightarrow> not_nav e" for n d e
    using append_writes_errs [of env ctx n ws "nd_rows d"]
    by (auto simp: audit_tx_def and_then_def not_nav_def split: sum.splits option.splits)
  show ?thesis
    unfolding io_errs_def
  proof (intro allI impI)
    fix s e t assume "write_audit env ctx ws s = (Inl e, t)"
    then obtain h where "db_write (ne_handle env) NeDb (audit_tx env ctx (nv_tick s) ws) (nv_handle s) = (Inl e, h)"
      by (auto simp: write_audit_def split: prod.splits)
    then show "not_nav e"
      using f by (auto simp: db_write_def io_bind_def io_map_err_def map_err_def in_window_def transact_def
          not_nav_def split: prod.splits sum.splits)
  qed
qed

lemma errs_submit_prepared: "io_errs not_nav (submit_prepared env ctx False iid key before req)"
  unfolding submit_prepared_def record_answer_def verify_after_def verify_chain_reusing_read_def
    nav_durable_ack_def nav_read_def if_False
  by (intro io_err_rules errs_write_audit errs_on_handle errs_lift)
    (auto simp: not_nav_def map_err_def split: sum.splits)

text \<open>A drain stops at an error of the transport, and only there.\<close>

definition drain_error_ok :: "nav_env \<Rightarrow> drain_error \<Rightarrow> bool" where
  "drain_error_ok env e \<longleftrightarrow> (case e of
     DrTransport msg \<Rightarrow> \<exists>x. is_transport_error x \<and> msg = ne_display env x
   | DrApplication a \<Rightarrow> \<forall>x. a = NeNav x \<longrightarrow> \<not> is_transport_error x)"

lemma classified_error_ok: "drain_error_ok env (classify_nav_error env e)"
  by (auto simp: drain_error_ok_def classify_nav_error_def)

lemma errs_drive_one_invoice: "io_errs (drain_error_ok env) (drive_one_invoice env ctx ov pinv)"
proof -
  have plain: "drain_error_ok env (DrApplication a)" if "not_nav a" for a
    using that by (simp add: drain_error_ok_def not_nav_def)
  have path: "resolve_xml_path pinv ov = Inl e \<Longrightarrow> not_nav e" for e
    by (auto simp: resolve_xml_path_def ok_or_def not_nav_def split: option.splits)
  have xml: "read_invoice_xml env q = Inl e \<Longrightarrow> not_nav e" for q e
    by (auto simp: read_invoice_xml_def ok_or_def check_def and_then_def not_nav_def
        split: option.splits if_splits sum.splits)
  have sub: "io_errs (drain_error_ok env) (io_map_err DrApplication
      (submit_prepared env ctx False iid key before req))" for iid key before req
    by (rule errs_map_err) (rule errs_mono [OF errs_submit_prepared plain])
  have prep: "io_errs (drain_error_ok env) (io_map_err (classify_nav_error env) m)" for m :: "'z wire_op"
    by (rule errs_map_err) (simp add: io_errs_def classified_error_ok)
  show ?thesis
    unfolding drive_one_invoice_def
    by (intro io_err_rules sub prep errs_lift errs_fail classified_error_ok)
      (auto simp: map_err_def split: sum.splits intro!: plain dest: path xml)
qed

text \<open>The end of an invoice a drain has taken up.\<close>

datatype item_end = ItLocked | ItLockFailed string | ItDone | ItFailed nav_error | ItStopped string

definition item ::
  "nav_env \<Rightarrow> nav_ctx \<Rightarrow> (string \<rightharpoonup> string) \<Rightarrow> nav_state \<Rightarrow> pending_invoice \<Rightarrow> item_end \<Rightarrow>
   ledger_row list \<Rightarrow> wire_event list \<Rightarrow> nav_state \<Rightarrow> bool" where
  \<comment> \<open>the rows and the requests between the two states belong to this invoice\<close>
  "item env ctx ov s p x rows wire u \<longleftrightarrow>
     adds env ctx s u rows wire \<and> length (posts wire) \<le> length (attempt_ids env rows) \<and>
     (attempt_ids env rows = [] \<or> attempt_ids env rows = [pi_invoice_id p]) \<and>
     (case x of
        ItLocked \<Rightarrow> ne_try_acquire env (nv_tick s) (pi_invoice_id p) = Inr False \<and> rows = [] \<and> wire = []
      | ItLockFailed e \<Rightarrow> ne_try_acquire env (nv_tick s) (pi_invoice_id p) = Inl e \<and> rows = [] \<and> wire = []
      | _ \<Rightarrow> ne_try_acquire env (nv_tick s) (pi_invoice_id p) = Inr True \<and>
          (case x of
             ItDone \<Rightarrow> (\<exists>key req so r1 r2. rows = [r1, r2] \<and> length (posts wire) = 1 \<and>
                row_of_write env (attempt_write env ctx (pi_invoice_id p) key req) r1 \<and>
                row_of_write env (response_write env (pi_invoice_id p) key so) r2)
           | ItFailed e \<Rightarrow> (\<forall>n. e = NeNav n \<longrightarrow> \<not> is_transport_error n) \<and>
               fst (drive_one_invoice env ctx ov p (s\<lparr>nv_tick := nv_tick s + 1\<rparr>)) = Inl (DrApplication e)
           | ItStopped msg \<Rightarrow> (\<exists>n. is_transport_error n \<and> msg = ne_display env n) \<and>
               fst (drive_one_invoice env ctx ov p (s\<lparr>nv_tick := nv_tick s + 1\<rparr>)) = Inl (DrTransport msg)))"

fun worked ::
  "nav_env \<Rightarrow> nav_ctx \<Rightarrow> (string \<rightharpoonup> string) \<Rightarrow> nav_state \<Rightarrow> pending_invoice list \<Rightarrow> item_end list \<Rightarrow>
   nav_state \<Rightarrow> bool" where
  \<comment> \<open>the invoices are taken up one after the other from the front\<close>
  "worked env ctx ov s ps [] t \<longleftrightarrow> t = s"
| "worked env ctx ov s [] (x # xs) t \<longleftrightarrow> False"
| "worked env ctx ov s (p # ps) (x # xs) t \<longleftrightarrow>
     (\<exists>rows wire u. item env ctx ov s p x rows wire u \<and> worked env ctx ov u ps xs t)"

fun is_stop :: "item_end \<Rightarrow> bool" where
  "is_stop (ItStopped msg) = True"
| "is_stop x = False"

fun is_failure :: "item_end \<Rightarrow> bool" where
  "is_failure (ItFailed e) = True"
| "is_failure (ItLockFailed e) = True"
| "is_failure x = False"

definition tallied :: "nat \<Rightarrow> drain_counts \<Rightarrow> nat \<Rightarrow> item_end list \<Rightarrow> drain_counts \<Rightarrow> bool" where
  \<comment> \<open>the ends, counted on top of the first counts; a stop is the last of them, else there is one for
      each of the invoices\<close>
  "tallied idx n k xs m \<longleftrightarrow>
     dn_ok m = dn_ok n + count_list xs ItDone \<and> dn_exists m = dn_exists n \<and>
     dn_skipped m = dn_skipped n + count_list xs ItLocked \<and>
     dn_application m = dn_application n + length (filter is_failure xs) \<and>
     (case dn_transport m of
        None \<Rightarrow> dn_stop m = None \<and> length xs = k \<and> (\<forall>x \<in> set xs. \<not> is_stop x)
      | Some msg \<Rightarrow> length xs \<le> k \<and> (\<exists>ys. xs = ys @ [ItStopped msg] \<and> (\<forall>x \<in> set ys. \<not> is_stop x) \<and>
          dn_stop m = Some (idx + length ys)))"

lemma tallied_Nil: "dn_stop n = None \<Longrightarrow> dn_transport n = None \<Longrightarrow> tallied idx n 0 [] n"
  by (simp add: tallied_def)

lemma tallied_stop:
  "tallied idx n (Suc k) [ItStopped msg] (n\<lparr>dn_transport := Some msg, dn_stop := Some idx\<rparr>)"
  by (simp add: tallied_def)

lemma tallied_Cons:
  assumes t: "tallied (idx + 1) n' k xs m" and x: "\<not> is_stop x"
    and n: "dn_ok n' = dn_ok n + (if x = ItDone then 1 else 0)" "dn_exists n' = dn_exists n"
      "dn_skipped n' = dn_skipped n + (if x = ItLocked then 1 else 0)"
      "dn_application n' = dn_application n + (if is_failure x then 1 else 0)"
  shows "tallied idx n (Suc k) (x # xs) m"
proof (cases "dn_transport m")
  case None
  then show ?thesis using t x n by (auto simp: tallied_def)
next
  case (Some msg)
  with t obtain ys where "xs = ys @ [ItStopped msg]" "\<forall>x \<in> set ys. \<not> is_stop x"
    "dn_stop m = Some (idx + 1 + length ys)" "length xs \<le> k" by (auto simp: tallied_def)
  then have "\<exists>zs. x # xs = zs @ [ItStopped msg] \<and> (\<forall>x \<in> set zs. \<not> is_stop x) \<and>
      dn_stop m = Some (idx + length zs)"
    using x by (intro exI [of _ "x # ys"]) simp
  then show ?thesis using t n Some by (auto simp: tallied_def)
qed

text \<open>One step of the loop.\<close>

lemma drive_one_invoice_item:
  assumes ok: "nav_env_ok env" and i: "nav_inv env ctx s"
    and l: "ne_try_acquire env (nv_tick s) (pi_invoice_id p) = Inr True"
    and m: "drive_one_invoice env ctx ov p (s\<lparr>nv_tick := nv_tick s + 1\<rparr>) = (r, u)"
  shows "\<exists>rows wire. item env ctx ov s p
    (case r of Inr _ \<Rightarrow> ItDone | Inl (DrApplication e) \<Rightarrow> ItFailed e | Inl (DrTransport msg) \<Rightarrow> ItStopped msg) rows wire u"
proof -
  let ?s1 = "s\<lparr>nv_tick := nv_tick s + 1\<rparr>" and ?iid = "pi_invoice_id p"
  have a1: "adds env ctx s ?s1 [] []" by (rule adds_tick [OF i])
  have i1: "nav_inv env ctx ?s1" using i by simp
  have "after env ctx ?s1 (drive_one_invoice env ctx ov p) (\<lambda>r t. \<exists>v. sent env ctx ?s1 ?iid (pi_idempotency_key p) [] v t \<and>
      (is_ok r \<longrightarrow> (\<exists>txid. v = Some (Inr txid))))"
    unfolding drive_one_invoice_def
  proof (intro after_bind_lift after_bind [OF qx.grows_map_err [OF quiet_prepare]] after_sent_map [OF ok])
    fix r :: "drain_error + unit" and t v req
    assume v: "sent env ctx ?s1 ?iid (pi_idempotency_key p) [] v t"
      "\<forall>x. r = Inr x \<longrightarrow> (\<exists>txid. v = Some (Inr txid) \<and> x = ())"
    then show "\<exists>v. sent env ctx ?s1 ?iid (pi_idempotency_key p) [] v t \<and> (is_ok r \<longrightarrow> (\<exists>txid. v = Some (Inr txid)))"
      by (cases r) auto
  qed
  from afterD [OF this i1 m] have e: "(\<not> is_ok r \<and> quiet_from env ctx ?s1 u) \<or>
      (\<exists>v. sent env ctx ?s1 ?iid (pi_idempotency_key p) [] v u \<and> (is_ok r \<longrightarrow> (\<exists>txid. v = Some (Inr txid))))" .
  have some: "\<exists>rows wire. adds env ctx s u rows wire \<and> (attempt_ids env rows = [] \<or> attempt_ids env rows = [?iid]) \<and>
      length (posts wire) \<le> length (attempt_ids env rows)"
    using e
  proof
    assume "\<not> is_ok r \<and> quiet_from env ctx ?s1 u"
    then obtain w where "adds env ctx ?s1 u [] w" "posts w = []" by (auto simp: quiet_from_def)
    with adds_trans [OF a1 this(1)] show ?thesis by (intro exI [of _ "[]"] exI [of _ w]) simp
  next
    assume "\<exists>v. sent env ctx ?s1 ?iid (pi_idempotency_key p) [] v u \<and> (is_ok r \<longrightarrow> (\<exists>txid. v = Some (Inr txid)))"
    then obtain v where "sent env ctx ?s1 ?iid (pi_idempotency_key p) [] v u" by blast
    from sent_attempts [OF ok this] obtain rows w where a: "adds env ctx ?s1 u rows w"
      "attempt_ids env rows = [] \<or> attempt_ids env rows = [?iid]"
      "length (posts w) \<le> length (attempt_ids env rows)" by auto
    with adds_trans [OF a1 a(1)] show ?thesis by (intro exI [of _ rows] exI [of _ w]) simp
  qed
  consider x where "r = Inr x" | e where "r = Inl (DrApplication e)" | msg where "r = Inl (DrTransport msg)"
    by (cases r; cases "projl r") auto
  then show ?thesis
  proof cases
    case 1
    with e obtain txid where "sent env ctx ?s1 ?iid (pi_idempotency_key p) [] (Some (Inr txid)) u" by auto
    then obtain r1 r2 wire req q a where d: "adds env ctx ?s1 u [r1, r2] wire"
      "row_of_write env (attempt_write env ctx ?iid (pi_idempotency_key p) req) r1"
      "row_of_write env (answer_write env ctx ?iid (pi_idempotency_key p) q) r2"
      "posts wire = [\<lparr>we_operation = ''manageInvoice'', we_body = req, we_answer = a, we_stable = nav_rows ?s1 @ [r1]\<rparr>]"
      "answer_value q = Inr txid"
      by (cases rule: sent_cases) auto
    from d(5) obtain so where q: "q = Inr so" by (cases q) (auto simp: answer_value_def)
    have r2: "row_of_write env (response_write env ?iid (pi_idempotency_key p) so) r2"
      using d(3) by (simp add: q answer_write_def)
    have "attempt_ids env [r1, r2] = [?iid]"
      using attempt_ids_attempt [OF ok d(2)] attempt_ids_other [OF d(3) answer_write_kind]
      by (subst attempt_ids_Cons) simp
    moreover have "adds env ctx s u [r1, r2] wire" using adds_trans [OF a1 d(1)] by simp
    ultimately have "item env ctx ov s p ItDone [r1, r2] wire u"
      using d(2,4) r2 l unfolding item_def by auto
    then show ?thesis using 1 by auto
  next
    case 2
    then have "drain_error_ok env (DrApplication e)" using errs_drive_one_invoice m unfolding io_errs_def by blast
    then show ?thesis using some 2 m l by (auto simp: item_def drain_error_ok_def)
  next
    case 3
    then have "drain_error_ok env (DrTransport msg)" using errs_drive_one_invoice m unfolding io_errs_def by blast
    then show ?thesis using some 3 m l by (auto simp: item_def drain_error_ok_def)
  qed
qed

lemma drain_loop_end:
  assumes ok: "nav_env_ok env"
  shows "nav_inv env ctx s \<Longrightarrow> dn_stop n = None \<Longrightarrow> dn_transport n = None \<Longrightarrow>
    drain_loop env ctx ov idx n ps s = (r, t) \<Longrightarrow>
    \<exists>m xs. r = Inr m \<and> worked env ctx ov s ps xs t \<and> tallied idx n (length ps) xs m"
proof (induction ps arbitrary: idx n s)
  case Nil
  have "worked env ctx ov s [] [] t" using Nil by (simp add: io_return_def)
  then show ?case using Nil tallied_Nil [of n idx] by (intro exI [of _ n] exI [of _ "[]"]) (simp add: io_return_def)
next
  case (Cons p ps)
  let ?s1 = "s\<lparr>nv_tick := nv_tick s + 1\<rparr>" and ?ans = "ne_try_acquire env (nv_tick s) (pi_invoice_id p)"
  have acq: "(try_acquire env (pi_invoice_id p) s :: (nav_error + _) \<times> _) = (Inr ?ans, ?s1)"
    by (simp add: try_acquire_def next_tick_def io_bind_def io_return_def)
  have a1: "adds env ctx s ?s1 [] []" by (rule adds_tick [OF Cons.prems(1)])
  have i1: "nav_inv env ctx ?s1" using Cons.prems(1) by simp
  have run: "drain_loop env ctx ov idx n (p # ps) s =
      (case ?ans of
         Inl e \<Rightarrow> drain_loop env ctx ov (idx + 1) (n\<lparr>dn_application := dn_application n + 1\<rparr>) ps ?s1
       | Inr b \<Rightarrow> if \<not> b then drain_loop env ctx ov (idx + 1) (n\<lparr>dn_skipped := dn_skipped n + 1\<rparr>) ps ?s1
           else (case drive_one_invoice env ctx ov p ?s1 of (q, u) \<Rightarrow> (case q of
                 Inr _ \<Rightarrow> drain_loop env ctx ov (idx + 1) (n\<lparr>dn_ok := dn_ok n + 1\<rparr>) ps u
               | Inl (DrTransport msg) \<Rightarrow> (Inr (n\<lparr>dn_transport := Some msg, dn_stop := Some idx\<rparr>), u)
               | Inl (DrApplication e) \<Rightarrow>
                   drain_loop env ctx ov (idx + 1) (n\<lparr>dn_application := dn_application n + 1\<rparr>) ps u)))"
    by (simp add: io_bind_def acq io_attempt_def io_return_def split: sum.splits prod.splits drain_error.splits)
  note prem = Cons.prems(4) [unfolded run]
  have go: "\<exists>m xs. r = Inr m \<and> worked env ctx ov s (p # ps) xs t \<and> tallied idx n (length (p # ps)) xs m"
    if it: "item env ctx ov s p x rows wire u" and x: "\<not> is_stop x"
      and n': "dn_stop n' = None" "dn_transport n' = None"
        "dn_ok n' = dn_ok n + (if x = ItDone then 1 else 0)" "dn_exists n' = dn_exists n"
        "dn_skipped n' = dn_skipped n + (if x = ItLocked then 1 else 0)"
        "dn_application n' = dn_application n + (if is_failure x then 1 else 0)"
      and rest: "drain_loop env ctx ov (idx + 1) n' ps u = (r, t)" for x rows wire u n'
  proof -
    have "nav_inv env ctx u" using it by (auto simp: item_def dest: adds_inv)
    from Cons.IH [OF this n'(1,2) rest] obtain m xs where
      m: "r = Inr m" "worked env ctx ov u ps xs t" "tallied (idx + 1) n' (length ps) xs m" by blast
    from tallied_Cons [OF m(3) x n'(3-6)] have "tallied idx n (length (p # ps)) (x # xs) m" by simp
    moreover have "worked env ctx ov s (p # ps) (x # xs) t" using it m(2) by auto
    ultimately show ?thesis using m(1) by blast
  qed
  show ?case
  proof (cases ?ans)
    case (Inl e)
    have "item env ctx ov s p (ItLockFailed e) [] [] ?s1" using a1 Inl by (simp add: item_def)
    then show ?thesis
      by (rule go [where n' = "n\<lparr>dn_application := dn_application n + 1\<rparr>"])
        (use Cons.prems(2,3) prem Inl in simp_all)
  next
    case (Inr b)
    show ?thesis
    proof (cases b)
      case False
      have "item env ctx ov s p ItLocked [] [] ?s1" using a1 Inr False by (simp add: item_def)
      then show ?thesis
        by (rule go [where n' = "n\<lparr>dn_skipped := dn_skipped n + 1\<rparr>"])
          (use Cons.prems(2,3) prem Inr False in simp_all)
    next
      case True
      obtain q u where q: "drive_one_invoice env ctx ov p ?s1 = (q, u)" by fastforce
      obtain rows wire where it: "item env ctx ov s p (case q of Inr _ \<Rightarrow> ItDone
          | Inl (DrApplication e) \<Rightarrow> ItFailed e | Inl (DrTransport msg) \<Rightarrow> ItStopped msg) rows wire u"
        using drive_one_invoice_item [OF ok Cons.prems(1) _ q] Inr True by auto
      consider x where "q = Inr x" | msg where "q = Inl (DrTransport msg)" | e where "q = Inl (DrApplication e)"
        by (cases q; cases "projl q") auto
      then show ?thesis
      proof cases
        case 1
        then have "item env ctx ov s p ItDone rows wire u" using it by simp
        then show ?thesis
          by (rule go [where n' = "n\<lparr>dn_ok := dn_ok n + 1\<rparr>"])
            (use Cons.prems(2,3) prem Inr True q 1 in simp_all)
      next
        case 2
        then have w: "worked env ctx ov s (p # ps) [ItStopped msg] u" using it by auto
        have "r = Inr (n\<lparr>dn_transport := Some msg, dn_stop := Some idx\<rparr>)" "t = u"
          using prem Inr True q 2 by auto
        then show ?thesis
          using w tallied_stop [of idx n "length ps" msg]
          by (intro exI [of _ "n\<lparr>dn_transport := Some msg, dn_stop := Some idx\<rparr>"] exI [of _ "[ItStopped msg]"])
            simp
      next
        case 3
        then have "item env ctx ov s p (ItFailed e) rows wire u" using it by simp
        then show ?thesis
          by (rule go [where n' = "n\<lparr>dn_application := dn_application n + 1\<rparr>"])
            (use Cons.prems(2,3) prem Inr True q 3 in simp_all)
      qed
    qed
  qed
qed

lemma worked_adds:
  "nav_inv env ctx s \<Longrightarrow> worked env ctx ov s ps xs t \<Longrightarrow>
   \<exists>rows wire. adds env ctx s t rows wire \<and> subseq (attempt_ids env rows) (map pi_invoice_id ps) \<and>
     length (posts wire) \<le> length (attempt_ids env rows)"
proof (induction xs arbitrary: s ps)
  case Nil
  then show ?case by (intro exI [of _ "[]"]) (simp add: adds_refl)
next
  case (Cons x xs)
  obtain p qs where ps: "ps = p # qs" using Cons.prems(2) by (cases ps) auto
  with Cons.prems(2) obtain rows1 wire1 u where it: "item env ctx ov s p x rows1 wire1 u"
    and w: "worked env ctx ov u qs xs t" by auto
  have a: "adds env ctx s u rows1 wire1" and b: "attempt_ids env rows1 = [] \<or> attempt_ids env rows1 = [pi_invoice_id p]"
    and l: "length (posts wire1) \<le> length (attempt_ids env rows1)"
    using it by (simp_all add: item_def)
  from Cons.IH [OF adds_inv [OF a] w] obtain rows2 wire2 where 2: "adds env ctx u t rows2 wire2"
    "subseq (attempt_ids env rows2) (map pi_invoice_id qs)"
    "length (posts wire2) \<le> length (attempt_ids env rows2)" by blast
  have "subseq (attempt_ids env (rows1 @ rows2)) (map pi_invoice_id ps)"
    using b 2(2) by (auto simp: ps subseq_Cons')
  with adds_trans [OF a 2(1)] l 2(3) show ?case
    by (intro exI [of _ "rows1 @ rows2"] exI [of _ "wire1 @ wire2"]) simp
qed

lemma worked_tax: "worked env (ctx\<lparr>nc_tax_number_8 := x\<rparr>) ov s ps xs t \<Longrightarrow> nav_inv env ctx s \<Longrightarrow>
   \<exists>rows wire. adds env ctx s t rows wire \<and> subseq (attempt_ids env rows) (map pi_invoice_id ps) \<and>
     length (posts wire) \<le> length (attempt_ids env rows)"
  using worked_adds [of env "ctx\<lparr>nc_tax_number_8 := x\<rparr>"] by simp

text \<open>What a drain is to work through: the invoices of the queue from the front, up to the limit.\<close>

definition drain_plan ::
  "nav_env \<Rightarrow> drain_args \<Rightarrow> nav_error + entry list \<Rightarrow> nav_error + string \<times> (string \<rightharpoonup> string) \<times> pending_invoice list" where
  "drain_plan env args entries =
     and_then (ok_or (NeTenant (da_tenant args)) (tenant_new (da_tenant args))) (\<lambda>_.
     and_then (parse_tax_number_8 (da_tax_number args)) (\<lambda>tax.
     and_then entries (\<lambda>es.
     and_then (classify_pending (ne_duck env) (ne_codec env) es) (\<lambda>pending.
       if pending = [] then Inr (tax, Map.empty, [])
       else and_then (parse_xml_path_overrides Map.empty (da_xml_path_overrides args)) (\<lambda>ov.
         Inr (tax, ov, take (drain_limit (da_max_invoices args) (length pending)) pending))))))"

lemma drain_by_plan:
  assumes "read_entries env s = (q, u)"
  shows "case drain_plan env args q of
      Inl e \<Rightarrow> drain_submission_queue env ctx args s \<in> {(Inl e, s), (Inl e, u)}
    | Inr (tax, ov, todo) \<Rightarrow> drain_submission_queue env ctx args s =
        io_bind (drain_loop env (ctx\<lparr>nc_tax_number_8 := tax\<rparr>) ov 0 no_counts todo) finish_drain u"
proof -
  have none: "io_bind (drain_loop env c ov 0 no_counts []) finish_drain u = (Inr no_counts, u)" for c ov
    by (simp add: io_return_def finish_drain_def no_counts_def)
  show ?thesis
    unfolding drain_plan_def drain_submission_queue_def
    by (auto simp: io_bind_def [where f = "\<lambda>_. io_bind _ _"] io_bind_def io_lift_def io_return_def and_then_def assms
        none [unfolded io_bind_def] split: sum.splits simp del: drain_loop.simps)
qed

lemma drain_loop_run:
  assumes ok: "nav_env_ok env" and a: "adds env ctx s u [] []"
    and m: "io_bind (drain_loop env (ctx\<lparr>nc_tax_number_8 := tax\<rparr>) ov 0 no_counts todo) finish_drain u = (r, t)"
  shows "\<exists>xs m rows wire.
      worked env (ctx\<lparr>nc_tax_number_8 := tax\<rparr>) ov u todo xs t \<and> tallied 0 no_counts (length todo) xs m \<and>
      r = (case dn_transport m of Some msg \<Rightarrow> Inl (NeTransportStop msg) | None \<Rightarrow> Inr m) \<and>
      adds env ctx s t rows wire \<and> subseq (attempt_ids env rows) (map pi_invoice_id todo) \<and>
      length (posts wire) \<le> length (attempt_ids env rows)"
proof -
  obtain x v where x: "drain_loop env (ctx\<lparr>nc_tax_number_8 := tax\<rparr>) ov 0 no_counts todo u = (x, v)" by fastforce
  have "nav_inv env (ctx\<lparr>nc_tax_number_8 := tax\<rparr>) u" using adds_inv [OF a] by simp
  from drain_loop_end [OF ok this _ _ x] obtain k xs where k: "x = Inr k"
    "worked env (ctx\<lparr>nc_tax_number_8 := tax\<rparr>) ov u todo xs v" "tallied 0 no_counts (length todo) xs k"
    by (auto simp: no_counts_def)
  have tv: "t = v" and r: "r = (case dn_transport k of Some msg \<Rightarrow> Inl (NeTransportStop msg) | None \<Rightarrow> Inr k)"
    using m x k(1) by (auto simp: io_bind_def finish_drain_def io_fail_def io_return_def split: option.splits)
  from worked_tax [OF k(2) adds_inv [OF a]] obtain rows wire where w: "adds env ctx u v rows wire"
    "subseq (attempt_ids env rows) (map pi_invoice_id todo)"
    "length (posts wire) \<le> length (attempt_ids env rows)" by blast
  from adds_trans [OF a w(1)] have "adds env ctx s t rows wire" by (simp add: tv)
  then show ?thesis using k(2,3) r tv w(2,3) by blast
qed

text \<open>C22: A drain works through the queue that the ledger's entries give, oldest invoice first and
  up to the limit, one element after the other: each element taken up is passed over because its lock
  is held, fails with an error of its lock or of its submission, or is done, with one request posted and
  the attempt and NAV's response recorded for it; each is counted as just that. An error of the
  transport, and no other, ends the drain there, and the drain fails with it; otherwise every element
  has been taken up. The attempts recorded are for elements of the queue, in its order, each element
  at most once (an invoice that was drafted twice stands in it twice), and no request is posted without
  such an attempt. A drain that cannot begin fails with the first reason and adds nothing.\<close>

theorem drain_in_order:
  assumes "nav_env_ok env" and "nav_inv env ctx s" and "drain_submission_queue env ctx args s = (r, t)"
  shows "(\<forall>es. fst (read_entries env s) = Inr es \<longrightarrow> read_all_entries (ne_ledger env) (nav_rows s) = Inr es) \<and>
    (case drain_plan env args (fst (read_entries env s)) of
       Inl e \<Rightarrow> r = Inl e \<and> adds env ctx s t [] []
     | Inr (tax, ov, todo) \<Rightarrow> (\<exists>u xs m rows wire.
         adds env ctx s u [] [] \<and> worked env (ctx\<lparr>nc_tax_number_8 := tax\<rparr>) ov u todo xs t \<and>
         tallied 0 no_counts (length todo) xs m \<and>
         r = (case dn_transport m of Some msg \<Rightarrow> Inl (NeTransportStop msg) | None \<Rightarrow> Inr m) \<and>
         adds env ctx s t rows wire \<and> subseq (attempt_ids env rows) (map pi_invoice_id todo) \<and>
         length (posts wire) \<le> length (attempt_ids env rows)))"
proof -
  obtain q u where q: "read_entries env s = (q, u)" by fastforce
  note h = read_entries_adds [OF assms(1,2) q]
  have a: "adds env ctx s u [] []" using h by simp
  have read: "\<forall>es. fst (read_entries env s) = Inr es \<longrightarrow> read_all_entries (ne_ledger env) (nav_rows s) = Inr es"
    using h q by (cases "read_all_entries (ne_ledger env) (nav_rows s)") auto
  note plan = drain_by_plan [OF q, where args = args and ctx = ctx, unfolded assms(3)]
  show ?thesis
  proof (cases "drain_plan env args q")
    case (Inl e)
    then have "r = Inl e \<and> adds env ctx s t [] []"
      using plan a adds_refl [OF assms(2)] by auto
    then show ?thesis using read by (simp add: q Inl)
  next
    case (Inr x)
    obtain tax ov todo where x: "x = (tax, ov, todo)" by (cases x)
    have "io_bind (drain_loop env (ctx\<lparr>nc_tax_number_8 := tax\<rparr>) ov 0 no_counts todo) finish_drain u = (r, t)"
      using plan by (simp add: Inr x)
    from drain_loop_run [OF assms(1) a this] a read show ?thesis
      unfolding q fst_conv Inr x sum.case prod.case by blast
  qed
qed

section \<open>A retry\<close>

definition said_absent ::
  "nav_env \<Rightarrow> nav_ctx \<Rightarrow> string \<Rightarrow> string \<Rightarrow> idem_key \<Rightarrow> wire_event \<Rightarrow> ledger_row \<Rightarrow> bool" where
  \<comment> \<open>NAV was asked about that number and answered that it does not have it; the record of it\<close>
  "said_absent env ctx number iid key q c \<longleftrightarrow>
     (\<exists>n b resp. we_operation q = ''queryInvoiceCheck'' \<and>
        ne_check_request env n (nc_tax_number_8 ctx) number = Inr (we_body q) \<and>
        query_invoice_check_result (ne_lib env) (we_answer q) = Inr (b, resp) \<and> from_check_result b = Absent \<and>
        row_of_write env (check_outcome_write env ctx iid key number (we_body q) Absent resp) c)"

lemma check_recorded:
  assumes ok: "nav_env_ok env" and i: "nav_inv env ctx v"
    and m: "io_bind (write_audit env ctx [w]) (\<lambda>_. io_bind (nav_durable_ack env) (\<lambda>_. io_return d)) v = (r, t)"
  shows "\<exists>new. adds env ctx v t new [] \<and> (new = [] \<or> list_all2 (row_of_write env) [w] new) \<and>
    (\<forall>x. r = Inr x \<longrightarrow> x = d \<and> list_all2 (row_of_write env) [w] new)"
proof -
  obtain x u where x: "flushed_write env ctx [w] v = (x, u)" by fastforce
  have rt: "t = u" "r = (case x of Inl e \<Rightarrow> Inl e | Inr _ \<Rightarrow> Inr d)"
    using m x by (auto simp: flushed_write_def io_bind_def io_return_def split: prod.splits sum.splits)
  from flushed_write_adds [OF ok i x] obtain new where n: "adds env ctx v u new []"
    "case x of Inl e \<Rightarrow> new = [] \<or> list_all2 (row_of_write env) [w] new
     | Inr u' \<Rightarrow> list_all2 (row_of_write env) [w] new \<and> stable_rows u = nav_rows u" by blast
  show ?thesis using n rt by (intro exI [of _ new]) (cases x; simp)
qed

lemma layer_2_ends:
  assumes ok: "nav_env_ok env" and i: "nav_inv env ctx s"
    and m: "perform_layer_2_check env ctx number iid key s = (r, t)"
  shows "\<exists>rows wire. adds env ctx s t rows wire \<and> posts wire = [] \<and>
    (r = Inr ProceedToRePost \<longrightarrow> (\<exists>c \<in> set rows. \<exists>q \<in> set wire. said_absent env ctx number iid key q c))"
proof -
  let ?R = "\<lambda>r t. \<exists>rows wire. adds env ctx s t rows wire \<and> posts wire = [] \<and>
    (r = Inr ProceedToRePost \<longrightarrow> (\<exists>c \<in> set rows. \<exists>q \<in> set wire. said_absent env ctx number iid key q c))"
  let ?out = "\<lambda>req a. case query_invoice_check_result (ne_lib env) a of
      Inr (b, response_xml) \<Rightarrow>
        (case from_check_result b of Exists \<Rightarrow> SkipRePost | Absent \<Rightarrow> ProceedToRePost,
         check_outcome_write env ctx iid key number req (from_check_result b) response_xml)
    | Inl e \<Rightarrow> (AbortRetry (ne_display env e), check_failure_write env ctx iid key number req e)"
  have asked: "after env ctx s (io_bind (http_post env ''queryInvoiceCheck'' req) (\<lambda>a.
      io_bind (io_return (?out req a)) (\<lambda>(decision, w). io_bind (write_audit env ctx [w]) (\<lambda>_.
      io_bind (nav_durable_ack env) (\<lambda>_. io_return decision))))) ?R"
    if req: "map_err NeNav (ne_check_request env n (nc_tax_number_8 ctx) number) = Inr req" for n req
  proof (rule afterI, rule disjI2)
    fix u r t assume q: "quiet_from env ctx s u"
      and run: "io_bind (http_post env ''queryInvoiceCheck'' req) (\<lambda>a.
      io_bind (io_return (?out req a)) (\<lambda>(decision, w). io_bind (write_audit env ctx [w]) (\<lambda>_.
      io_bind (nav_durable_ack env) (\<lambda>_. io_return decision)))) u = (r, t)"
    obtain a v where p: "(http_post env ''queryInvoiceCheck'' req u :: (nav_error + _) \<times> _) = (Inr a, v)"
      unfolding http_post_def by blast
    let ?ev = "\<lparr>we_operation = ''queryInvoiceCheck'', we_body = req, we_answer = a, we_stable = stable_rows u\<rparr>"
    have 1: "adds env ctx u v [] [?ev]" using adds_post [OF quiet_from_inv [OF q] p] by auto
    define d w where "d = fst (?out req a)" and "w = snd (?out req a)"
    then have dw: "?out req a = (d, w)" by (simp only: prod.collapse)
    have "io_bind (write_audit env ctx [w]) (\<lambda>_. io_bind (nav_durable_ack env) (\<lambda>_. io_return d)) v = (r, t)"
      using run p by (simp add: io_bind_run dw)
    from check_recorded [OF ok adds_inv [OF 1] this] obtain new where n: "adds env ctx v t new []"
      "\<forall>x. r = Inr x \<longrightarrow> x = d \<and> list_all2 (row_of_write env) [w] new" by blast
    from q obtain w0 where w0: "adds env ctx s u [] w0" "posts w0 = []" by (auto simp: quiet_from_def)
    have a: "adds env ctx s t new (w0 @ [?ev])"
      using adds_trans [OF adds_trans [OF w0(1) 1] n(1)] by simp
    have "\<exists>c \<in> set new. said_absent env ctx number iid key ?ev c" if r: "r = Inr ProceedToRePost"
    proof -
      from n(2) r obtain c where c: "c \<in> set new" "row_of_write env w c" "d = ProceedToRePost"
        by (auto simp: list_all2_Cons1)
      with dw obtain b resp where b: "query_invoice_check_result (ne_lib env) a = Inr (b, resp)"
        "w = check_outcome_write env ctx iid key number req (from_check_result b) resp" "from_check_result b = Absent"
        by (cases "query_invoice_check_result (ne_lib env) a"; cases "from_check_result (fst (projr (query_invoice_check_result (ne_lib env) a)))")
          (auto split: prod.splits)
      have "ne_check_request env n (nc_tax_number_8 ctx) number = Inr req"
        using req by (cases "ne_check_request env n (nc_tax_number_8 ctx) number") simp_all
      with b c have "said_absent env ctx number iid key ?ev c"
        unfolding said_absent_def by auto
      with c(1) show ?thesis by blast
    qed
    moreover have "posts (w0 @ [?ev]) = []" using w0(2) by (simp add: posts_def)
    ultimately show "?R r t" using a by (intro exI [of _ new] exI [of _ "w0 @ [?ev]"]) auto
  qed
  have "after env ctx s (perform_layer_2_check env ctx number iid key) ?R"
    unfolding perform_layer_2_check_def
    by (intro after_bind_lift after_bind [OF qx.grows_map_err [OF quiet_transport_new]]
        after_bind [OF quiet_next_tick] asked)
  from afterD [OF this i m] show ?thesis
    unfolding quiet_from_def by (metis is_ok_Inr)
qed

text \<open>The invoice of a pending retry: its XML, the number in it, and its id in canonical form.\<close>

definition retry_source :: "nav_env \<Rightarrow> pending_retry \<Rightarrow> byte list \<Rightarrow> string \<Rightarrow> string \<Rightarrow> bool" where
  "retry_source env retry xml number iid \<longleftrightarrow>
     (\<exists>path i. pt_nav_xml_path retry = Some path \<and> read_invoice_xml env path = Inr xml \<and>
        ne_invoice_number env xml = Some number \<and>
        parse_prefixed_ulid (ne_duck env) ''inv'' (pt_invoice_id retry) = Inr i \<and>
        iid = invoice_key (ne_duck env) (InvoiceId i))"

text \<open>A request that is posted for a pending retry: NAV was asked about the invoice's number before,
  and its answer and the attempt were recorded and on stable storage, both since the first state.\<close>

definition asked_first ::
  "nav_env \<Rightarrow> nav_ctx \<Rightarrow> nav_state \<Rightarrow> pending_retry \<Rightarrow> wire_event list \<Rightarrow> wire_event \<Rightarrow> bool" where
  "asked_first env ctx s retry us w \<longleftrightarrow>
     (\<exists>xml number iid q m tok xs c a. retry_source env retry xml number iid \<and>
        q \<in> set us \<and> said_absent env ctx number iid (pt_idempotency_key retry) q c \<and>
        ne_manage_request env m (nc_tax_number_8 ctx) tok [(pt_operation retry, xml)] = Inr (we_body w) \<and>
        row_of_write env (attempt_write env ctx iid (pt_idempotency_key retry) (we_body w)) a \<and>
        we_stable w = nav_rows s @ xs \<and> c \<in> set xs \<and> a \<in> set xs)"

definition all_asked ::
  "nav_env \<Rightarrow> nav_ctx \<Rightarrow> pending_retry set \<Rightarrow> nav_state \<Rightarrow> wire_event list \<Rightarrow> bool" where
  "all_asked env ctx R s wire \<longleftrightarrow>
     (\<forall>us w vs. wire = us @ w # vs \<longrightarrow> we_operation w = ''manageInvoice'' \<longrightarrow>
        (\<exists>retry \<in> R. asked_first env ctx s retry us w))"

lemma all_asked_quiet: "posts wire = [] \<Longrightarrow> all_asked env ctx R s wire"
  by (auto simp: all_asked_def posts_def)

lemma asked_later:
  assumes "asked_first env ctx t retry us w" and "nav_rows t = nav_rows s @ rows"
  shows "asked_first env ctx s retry (us0 @ us) w"
proof -
  from assms(1) obtain xml number iid q m tok xs c a where
    "retry_source env retry xml number iid" "q \<in> set us"
    "said_absent env ctx number iid (pt_idempotency_key retry) q c"
    "ne_manage_request env m (nc_tax_number_8 ctx) tok [(pt_operation retry, xml)] = Inr (we_body w)"
    "row_of_write env (attempt_write env ctx iid (pt_idempotency_key retry) (we_body w)) a"
    "we_stable w = nav_rows t @ xs" "c \<in> set xs" "a \<in> set xs"
    unfolding asked_first_def by blast
  with assms(2) show ?thesis
    unfolding asked_first_def
    by (intro exI [of _ xml] exI [of _ number] exI [of _ iid] exI [of _ q] exI [of _ m] exI [of _ tok]
        exI [of _ "rows @ xs"] exI [of _ c] exI [of _ a]) simp
qed

lemma all_asked_append:
  assumes 1: "all_asked env ctx R s w1" and 2: "all_asked env ctx R t w2"
    and rows: "nav_rows t = nav_rows s @ rows"
  shows "all_asked env ctx R s (w1 @ w2)"
  unfolding all_asked_def
proof (intro allI impI)
  fix us w vs assume e: "w1 @ w2 = us @ w # vs" and w: "we_operation w = ''manageInvoice''"
  then consider zs where "w1 = us @ w # zs" | zs where "us = w1 @ zs" "w2 = zs @ w # vs"
    by (auto simp: append_eq_append_conv2 append_eq_Cons_conv Cons_eq_append_conv)
  then show "\<exists>retry \<in> R. asked_first env ctx s retry us w"
  proof cases
    case 1
    then show ?thesis using assms(1) w by (auto simp: all_asked_def)
  next
    case 2
    then obtain retry where "retry \<in> R" "asked_first env ctx t retry zs w"
      using assms(2) w unfolding all_asked_def by blast
    then show ?thesis using asked_later [OF _ rows, of env ctx retry zs w w1] 2(1) by blast
  qed
qed

lemma all_asked_post:
  assumes "posts w0 = []" and "asked_first env ctx s retry w0 w" and "retry \<in> R"
  shows "all_asked env ctx R s (w0 @ [w])"
  unfolding all_asked_def
proof (intro allI impI)
  fix us x vs assume e: "w0 @ [w] = us @ x # vs" and x: "we_operation x = ''manageInvoice''"
  have "x \<notin> set w0" using assms(1) x by (auto simp: posts_def filter_empty_conv)
  with e have "us = w0" "x = w" by (auto simp: append_eq_append_conv2 append_eq_Cons_conv Cons_eq_append_conv)
  then show "\<exists>retry \<in> R. asked_first env ctx s retry us x" using assms(2,3) by blast
qed

definition nav_retried :: "nav_env \<Rightarrow> nav_ctx \<Rightarrow> pending_retry set \<Rightarrow> nav_state \<Rightarrow> nav_state \<Rightarrow> bool" where
  "nav_retried env ctx R s t \<longleftrightarrow> (nav_inv env ctx s \<longrightarrow>
     (\<exists>rows wire. adds env ctx s t rows wire \<and> all_asked env ctx R s wire))"

interpretation rx: growth "nav_retried env ctx R" for env ctx R
proof
  show "nav_retried env ctx R s s" for s
    by (auto simp: nav_retried_def intro!: exI [of _ "[]"] adds_refl all_asked_quiet)
  show "nav_retried env ctx R s u" if 1: "nav_retried env ctx R s t" and 2: "nav_retried env ctx R t u" for s t u
    unfolding nav_retried_def
  proof
    assume "nav_inv env ctx s"
    with 1 obtain rows wire where a: "adds env ctx s t rows wire" "all_asked env ctx R s wire"
      by (auto simp: nav_retried_def)
    with 2 obtain rows' wire' where b: "adds env ctx t u rows' wire'" "all_asked env ctx R t wire'"
      by (auto simp: nav_retried_def dest: adds_inv)
    have "nav_rows t = nav_rows s @ rows" using a(1) by (simp add: adds_def)
    then show "\<exists>rows wire. adds env ctx s u rows wire \<and> all_asked env ctx R s wire"
      using adds_trans [OF a(1) b(1)] all_asked_append [OF a(2) b(2)] by blast
  qed
qed

lemma quiet_retried: "io_grows (nav_quiet env ctx) m \<Longrightarrow> io_grows (nav_retried env ctx R) m"
  unfolding io_grows_def nav_quiet_def nav_retried_def quiet_from_def by (metis all_asked_quiet)

lemma quiet_from_retried: "quiet_from env ctx s t \<Longrightarrow> nav_retried env ctx R s t"
  by (auto simp: nav_retried_def quiet_from_def intro: all_asked_quiet)

lemma grows_runD: "io_grows L m \<Longrightarrow> m s = (r, t) \<Longrightarrow> L s t"
  by (auto simp: io_grows_def dest: spec [of _ s])

text \<open>Steps that keep what they found.\<close>

lemma retried_bind_run:
  assumes m: "io_grows (nav_quiet env ctx) m"
    and f: "\<And>a s u. nav_inv env ctx s \<Longrightarrow> m s = (Inr a, u) \<Longrightarrow> io_grows (nav_retried env ctx R) (f a)"
  shows "io_grows (nav_retried env ctx R) (io_bind m f)"
  unfolding io_grows_def
proof
  fix s
  obtain q u where q: "m s = (q, u)" by fastforce
  show "nav_retried env ctx R s (snd (io_bind m f s))"
  proof (cases "nav_inv env ctx s")
    case False
    then show ?thesis by (simp add: nav_retried_def)
  next
    case True
    have su: "nav_retried env ctx R s u"
      by (rule quiet_from_retried [OF quiet_from_run [OF m quiet_from_refl [OF True] q]])
    show ?thesis
    proof (cases q)
      case (Inl e)
      then show ?thesis using su q by (simp add: io_bind_def)
    next
      case (Inr a)
      then have "nav_retried env ctx R u (snd (f a u))"
        using f [OF True q [unfolded Inr]] by (simp add: io_grows_def)
      then show ?thesis using rx.leq_trans [OF su] q Inr by (simp add: io_bind_def)
    qed
  qed
qed

lemma retried_bind_lift:
  assumes "\<And>a. x = Inr a \<Longrightarrow> io_grows (nav_retried env ctx R) (f a)"
  shows "io_grows (nav_retried env ctx R) (io_bind (io_lift x) f)"
  by (rule retried_bind_run [OF qx.grows_lift]) (simp add: io_lift_def assms)

lemma retried_bind_pair:
  assumes m: "io_grows (nav_quiet env ctx) m"
    and f: "\<And>a b s u. nav_inv env ctx s \<Longrightarrow> m s = (Inr (a, b), u) \<Longrightarrow> io_grows (nav_retried env ctx R) (f a b)"
  shows "io_grows (nav_retried env ctx R) (io_bind m (\<lambda>(a, b). f a b))"
  by (rule retried_bind_run [OF m]) (clarsimp, rule f)

lemma prepared_request:
  assumes "prepare_for_attempt_audit env ctx xml operation u = (Inr req, v)"
  shows "\<exists>m tok. ne_manage_request env m (nc_tax_number_8 ctx) tok [(operation, xml)] = Inr req"
  using assms
  by (auto simp: prepare_for_attempt_audit_def io_bind_Inr build_request_def io_lift_def check_def res_simps)

text \<open>The check and what follows it.\<close>

lemma posted_after_check:
  assumes ok: "nav_env_ok env" and a: "adds env ctx s u rows wire" "posts wire = []"
    and c: "c \<in> set rows" "q \<in> set wire" "said_absent env ctx number iid (pt_idempotency_key retry) q c"
    and src: "retry_source env retry xml number iid" and R: "retry \<in> R"
    and p: "prepare_for_attempt_audit env ctx xml (pt_operation retry) u = (Inr req, v)"
    and m: "submit_prepared env ctx False iid (pt_idempotency_key retry) before req v = (r, t)"
  shows "\<exists>rows wire. adds env ctx s t rows wire \<and> all_asked env ctx R s wire"
proof -
  have qv: "quiet_from env ctx u v"
    by (rule quiet_from_run [OF quiet_prepare quiet_from_refl [OF adds_inv [OF a(1)]] p])
  then obtain w0 where w0: "adds env ctx u v [] w0" "posts w0 = []" by (auto simp: quiet_from_def)
  have sv: "adds env ctx s v rows (wire @ w0)" using adds_trans [OF a(1) w0(1)] by simp
  have rv: "nav_rows v = nav_rows s @ rows" using sv by (simp add: adds_def)
  from submit_prepared_adds [OF ok adds_inv [OF sv] m] obtain rows2 wire2 where b: "adds env ctx v t rows2 wire2"
    and e: "wire2 = [] \<or> submitted env ctx iid (pt_idempotency_key retry) before req v rows2 wire2
       (case r of Inl e \<Rightarrow> None | Inr v \<Rightarrow> Some v)" by blast
  have st: "adds env ctx s t (rows @ rows2) ((wire @ w0) @ wire2)" by (rule adds_trans [OF sv b])
  have quiet: "posts (wire @ w0) = []" using a(2) w0(2) by simp
  show ?thesis
  proof (cases "wire2 = []")
    case True
    with st show ?thesis using all_asked_quiet [OF quiet, of env ctx R s]
      by (intro exI [of _ "rows @ rows2"] exI [of _ "wire @ w0"]) simp
  next
    case False
    with e obtain new1 ans where
      l: "list_all2 (row_of_write env) (before @ [attempt_write env ctx iid (pt_idempotency_key retry) req]) new1"
      and w: "wire2 = [\<lparr>we_operation = ''manageInvoice'', we_body = req, we_answer = ans, we_stable = nav_rows v @ new1\<rparr>]"
      unfolding submitted_def by blast
    from l have "\<exists>a0 \<in> set new1. row_of_write env (attempt_write env ctx iid (pt_idempotency_key retry) req) a0"
      by (auto simp: list_all2_append1 list_all2_Cons1)
    then obtain a0 where a0: "a0 \<in> set new1"
      "row_of_write env (attempt_write env ctx iid (pt_idempotency_key retry) req) a0" by blast
    from prepared_request [OF p] obtain m tok where
      "ne_manage_request env m (nc_tax_number_8 ctx) tok [(pt_operation retry, xml)] = Inr req" by blast
    with src c a0 have "asked_first env ctx s retry (wire @ w0)
        \<lparr>we_operation = ''manageInvoice'', we_body = req, we_answer = ans, we_stable = nav_rows v @ new1\<rparr>"
      unfolding asked_first_def rv
      by (intro exI [of _ xml] exI [of _ number] exI [of _ iid] exI [of _ q] exI [of _ m] exI [of _ tok]
          exI [of _ "rows @ new1"] exI [of _ c] exI [of _ a0]) simp
    from all_asked_post [OF quiet this R] st show ?thesis unfolding w by blast
  qed
qed

lemma retried_after_check:
  assumes ok: "nav_env_ok env" and R: "retry \<in> R" and src: "retry_source env retry xml number iid"
    and m1: "io_grows (nav_quiet env ctx) m1" and m2: "\<And>msg. io_grows (nav_quiet env ctx) (m2 msg)"
    and k: "\<And>v. io_grows (nav_quiet env ctx) (k v)"
  shows "io_grows (nav_retried env ctx R)
    (io_bind (io_map_err g (perform_layer_2_check env ctx number iid (pt_idempotency_key retry))) (\<lambda>decision.
       case decision of SkipRePost \<Rightarrow> m1 | AbortRetry msg \<Rightarrow> m2 msg
       | ProceedToRePost \<Rightarrow>
           io_bind (io_map_err h (prepare_for_attempt_audit env ctx xml (pt_operation retry))) (\<lambda>req.
           io_bind (io_map_err h' (submit_prepared env ctx False iid (pt_idempotency_key retry) before req)) k)))"
    (is "io_grows _ (io_bind _ ?rest)")
  unfolding io_grows_def
proof
  fix s
  obtain d u where d: "perform_layer_2_check env ctx number iid (pt_idempotency_key retry) s = (d, u)" by fastforce
  obtain r T where run: "io_bind (io_map_err g (perform_layer_2_check env ctx number iid
      (pt_idempotency_key retry))) ?rest s = (r, T)" by fastforce
  have "nav_retried env ctx R s T"
  proof (cases "nav_inv env ctx s")
    case False
    then show ?thesis by (simp add: nav_retried_def)
  next
    case True
    from layer_2_ends [OF ok True d] obtain rows wire where a: "adds env ctx s u rows wire" "posts wire = []"
      and absent: "d = Inr ProceedToRePost \<longrightarrow>
        (\<exists>c \<in> set rows. \<exists>q \<in> set wire. said_absent env ctx number iid (pt_idempotency_key retry) q c)" by blast
    have su: "nav_retried env ctx R s u"
      using a by (auto simp: nav_retried_def intro: all_asked_quiet)
    have then_quiet: "nav_retried env ctx R s (snd (m u))" if "io_grows (nav_quiet env ctx) m"
      for m :: "(nav_state, 'a, 'b) io_op"
      by (rule rx.leq_trans [OF su]) (use quiet_retried [OF that] in \<open>simp add: io_grows_def\<close>)
    show ?thesis
    proof (cases d)
      case (Inl e)
      then show ?thesis using d run su by (simp add: io_bind_def io_map_err_def)
    next
      case (Inr x)
      then have T: "T = snd (?rest x u)" using d run by (simp add: io_bind_def io_map_err_def)
      show ?thesis
      proof (cases x)
        case SkipRePost
        then show ?thesis using then_quiet [OF m1] T by simp
      next
        case (AbortRetry msg)
        then show ?thesis using then_quiet [OF m2] T by simp
      next
        case ProceedToRePost
        then obtain c q where c: "c \<in> set rows" "q \<in> set wire"
          "said_absent env ctx number iid (pt_idempotency_key retry) q c" using absent Inr by auto
        obtain p v where p: "prepare_for_attempt_audit env ctx xml (pt_operation retry) u = (p, v)" by fastforce
        show ?thesis
        proof (cases p)
          case (Inl e)
          then have "T = v" using T ProceedToRePost p by (simp add: io_bind_def io_map_err_def)
          then show ?thesis
            using rx.leq_trans [OF su grows_runD [OF quiet_retried [OF quiet_prepare] p]] by simp
        next
          case (Inr req)
          obtain q' x' where q': "submit_prepared env ctx False iid (pt_idempotency_key retry) before req v = (q', x')"
            by fastforce
          have sx: "nav_retried env ctx R s x'"
            using posted_after_check [OF ok a c src R p [unfolded Inr] q'] by (simp add: nav_retried_def)
          have "T = (case q' of Inl e \<Rightarrow> x' | Inr v \<Rightarrow> snd (k v x'))"
            using T ProceedToRePost p q' Inr by (simp add: io_bind_def io_map_err_def split: sum.splits)
          moreover have "nav_retried env ctx R s (snd (k v x'))" for v
            by (rule rx.leq_trans [OF sx]) (use quiet_retried [OF k] in \<open>simp add: io_grows_def\<close>)
          ultimately show ?thesis using sx by (cases q') simp_all
        qed
      qed
    qed
  qed
  then show "nav_retried env ctx R s (snd (io_bind (io_map_err g (perform_layer_2_check env ctx number iid
      (pt_idempotency_key retry))) ?rest s))" by (simp add: run)
qed

lemma loaded_id:
  assumes ok: "nav_env_ok env" and i: "nav_inv env ctx s"
    and m: "io_map_err g (load_issued_invoice env iid) s = (Inr (pinv, key), u)"
  shows "\<exists>n. parse_prefixed_ulid (ne_duck env) ''inv'' iid = Inr n \<and> ri_id pinv = InvoiceId n"
proof -
  have "load_issued_invoice env iid s = (Inr (pinv, key), u)"
    using m by (auto simp: io_map_err_def map_err_def split: prod.splits sum.splits)
  from quiet_loads [OF ok quiet_from_refl [OF i] this] show ?thesis
    by (auto simp: loads_def load_ready_invoice_by_id_def load_invoice_def res_simps split: option.splits)
qed

lemma retried_drive:
  assumes ok: "nav_env_ok env" and R: "retry \<in> R"
  shows "io_grows (nav_retried env ctx R) (drive_one_retry env ctx retry)"
proof -
  have src: "retry_source env retry xml number (invoice_key (ne_duck env) (ri_id pinv))"
    if "map_err DrApplication (ok_or e1 (pt_nav_xml_path retry)) = Inr path"
      "map_err DrApplication (read_invoice_xml env path) = Inr xml"
      "map_err DrApplication (ok_or e2 (ne_invoice_number env xml)) = Inr number"
      "nav_inv env ctx s" "io_map_err DrApplication (load_issued_invoice env (pt_invoice_id retry)) s = (Inr (pinv, key), u)"
    for e1 e2 path xml number pinv key s u
  proof -
    have "pt_nav_xml_path retry = Some path" "ne_invoice_number env xml = Some number"
      "read_invoice_xml env path = Inr xml"
      using that(1-3) by (auto simp: ok_or_def map_err_def split: option.splits sum.splits)
    then show ?thesis using loaded_id [OF ok that(4,5)] by (auto simp: retry_source_def)
  qed
  show ?thesis
    unfolding drive_one_retry_def
    by (intro retried_bind_lift retried_bind_pair [OF qx.grows_map_err [OF quiet_load_issued [OF ok]]]
        retried_after_check [OF ok R src] qx.grows_rules) assumption+
qed

lemma retried_loop:
  assumes ok: "nav_env_ok env"
  shows "set ps \<subseteq> R \<Longrightarrow> io_grows (nav_retried env ctx R) (retry_loop env ctx idx n ps)"
proof (induction ps arbitrary: idx n)
  case (Cons p ps)
  have p: "p \<in> R" and ps: "set ps \<subseteq> R" using Cons.prems by simp_all
  show ?case unfolding retry_loop.simps
    by (intro rx.grows_rules quiet_retried [OF quiet_try_acquire] retried_drive [OF ok p] grows_case_drive
        grows_case_outcome Cons.IH [OF ps])
qed (simp add: rx.grows_return)

lemma drain_retried:
  assumes ok: "nav_env_ok env" and i: "nav_inv env ctx s" and m: "drain_pending_retries env ctx args s = (r, t)"
  obtains rows wire where "adds env ctx s t rows wire" "posts wire = []"
  | rows wire tax es pending where "adds env ctx s t rows wire"
      "parse_tax_number_8 (da_tax_number args) = Inr tax"
      "read_all_entries (ne_ledger env) (nav_rows s) = Inr es"
      "classify_pending_retries (ne_duck env) (ne_codec env) es = Inr pending"
      "all_asked env (ctx\<lparr>nc_tax_number_8 := tax\<rparr>)
         (set (take (drain_limit (da_max_invoices args) (length pending)) pending)) s wire"
proof -
  let ?todo = "\<lambda>pending. take (drain_limit (da_max_invoices args) (length pending)) pending"
  let ?R = "\<lambda>r t. (\<exists>rows wire. adds env ctx s t rows wire \<and> posts wire = []) \<or>
    (\<exists>rows wire tax es pending. adds env ctx s t rows wire \<and>
      parse_tax_number_8 (da_tax_number args) = Inr tax \<and>
      read_all_entries (ne_ledger env) (nav_rows s) = Inr es \<and>
      classify_pending_retries (ne_duck env) (ne_codec env) es = Inr pending \<and>
      all_asked env (ctx\<lparr>nc_tax_number_8 := tax\<rparr>) (set (?todo pending)) s wire)"
  have "after env ctx s (drain_pending_retries env ctx args) ?R"
    unfolding drain_pending_retries_def
  proof (intro after_bind_lift after_bind [OF quiet_read_entries [OF ok]])
    fix tax es u v pending
    assume tax: "parse_tax_number_8 (da_tax_number args) = Inr tax"
      and "quiet_from env ctx s u" and "read_entries env u = (Inr es, v)"
      and c: "classify_pending_retries (ne_duck env) (ne_codec env) es = Inr pending"
    let ?ctx = "ctx\<lparr>nc_tax_number_8 := tax\<rparr>"
    from quiet_entries [OF ok \<open>quiet_from env ctx s u\<close> \<open>read_entries env u = (Inr es, v)\<close>]
    have es: "read_all_entries (ne_ledger env) (nav_rows s) = Inr es" .
    have loop: "io_grows (nav_retried env ?ctx (set (?todo pending)))
        (io_bind (retry_loop env ?ctx 0 no_counts (?todo pending)) finish_drain)"
      unfolding finish_drain_def by (intro rx.grows_rules retried_loop [OF ok] order_refl)
    show "after env ctx s (if pending = [] then io_return no_counts
        else io_bind (retry_loop env ?ctx 0 no_counts (?todo pending)) finish_drain) ?R"
    proof (rule afterI, rule disjI2)
      fix x r t assume q: "quiet_from env ctx s x"
        and run: "(if pending = [] then io_return no_counts
          else io_bind (retry_loop env ?ctx 0 no_counts (?todo pending)) finish_drain) x = (r, t)"
      show "?R r t"
      proof (cases "pending = []")
        case True
        then show ?thesis using run q by (auto simp: io_return_def quiet_from_def)
      next
        case False
        have sx: "nav_retried env ?ctx (set (?todo pending)) s x"
          by (rule quiet_from_retried) (use q in simp)
        have xt: "nav_retried env ?ctx (set (?todo pending)) x t"
          by (rule grows_runD [OF loop, of x r t]) (use run False in simp)
        from rx.leq_trans [OF sx xt] show ?thesis
          using i tax es c unfolding nav_retried_def by auto
      qed
    qed
  qed
  from afterD [OF this i m] show thesis
    using that unfolding quiet_from_def by blast
qed

text \<open>C11: A drain of the pending retries posts a request only for an invoice of its queue, up to
  the limit, and only after it has asked NAV, in this drain, about the number in that invoice's XML
  and NAV has answered that it does not have it. The request is the one built from that XML with the
  invoice's operation; that answer and the attempt with the request are recorded for the invoice under
  its key, and are on stable storage before the request leaves.\<close>

theorem retry_only_when_absent:
  assumes "nav_env_ok env" and "nav_inv env ctx s" and "drain_pending_retries env ctx args s = (r, t)"
  shows "\<exists>rows wire. adds env ctx s t rows wire \<and>
    (\<forall>us w vs. wire = us @ w # vs \<longrightarrow> we_operation w = ''manageInvoice'' \<longrightarrow>
      (\<exists>tax es pending retry path xml number i iid q n b resp m tok xs c a.
         parse_tax_number_8 (da_tax_number args) = Inr tax \<and>
         read_all_entries (ne_ledger env) (nav_rows s) = Inr es \<and>
         classify_pending_retries (ne_duck env) (ne_codec env) es = Inr pending \<and>
         retry \<in> set (take (drain_limit (da_max_invoices args) (length pending)) pending) \<and>
         pt_nav_xml_path retry = Some path \<and> read_invoice_xml env path = Inr xml \<and>
         ne_invoice_number env xml = Some number \<and>
         parse_prefixed_ulid (ne_duck env) ''inv'' (pt_invoice_id retry) = Inr i \<and>
         iid = invoice_key (ne_duck env) (InvoiceId i) \<and>
         q \<in> set us \<and> we_operation q = ''queryInvoiceCheck'' \<and>
         ne_check_request env n tax number = Inr (we_body q) \<and>
         query_invoice_check_result (ne_lib env) (we_answer q) = Inr (b, resp) \<and> from_check_result b = Absent \<and>
         ne_manage_request env m tax tok [(pt_operation retry, xml)] = Inr (we_body w) \<and>
         we_stable w = nav_rows s @ xs \<and> c \<in> set xs \<and> a \<in> set xs \<and>
         row_of_write env (check_outcome_write env ctx iid (pt_idempotency_key retry) number (we_body q) Absent resp) c \<and>
         row_of_write env (attempt_write env ctx iid (pt_idempotency_key retry) (we_body w)) a))"
  using assms
proof (cases rule: drain_retried)
  case (1 rows wire)
  then show ?thesis by (intro exI [of _ rows] exI [of _ wire]) (auto simp: posts_def)
next
  case (2 rows wire tax es pending)
  show ?thesis
  proof (rule exI [of _ rows], rule exI [of _ wire], rule conjI [OF 2(1)], intro allI impI)
    fix us w vs assume "wire = us @ w # vs" and "we_operation w = ''manageInvoice''"
    with 2(5) obtain retry where retry: "retry \<in> set (take (drain_limit (da_max_invoices args) (length pending)) pending)"
      and "asked_first env (ctx\<lparr>nc_tax_number_8 := tax\<rparr>) s retry us w"
      unfolding all_asked_def by blast
    then obtain xml number iid q m tok xs c a where src: "retry_source env retry xml number iid"
      and said: "said_absent env (ctx\<lparr>nc_tax_number_8 := tax\<rparr>) number iid (pt_idempotency_key retry) q c"
      and req: "ne_manage_request env m tax tok [(pt_operation retry, xml)] = Inr (we_body w)"
      and rows: "q \<in> set us" "we_stable w = nav_rows s @ xs" "c \<in> set xs" "a \<in> set xs"
        "row_of_write env (attempt_write env ctx iid (pt_idempotency_key retry) (we_body w)) a"
      unfolding asked_first_def by auto
    from src obtain path i where src': "pt_nav_xml_path retry = Some path" "read_invoice_xml env path = Inr xml"
      "ne_invoice_number env xml = Some number" "iid = invoice_key (ne_duck env) (InvoiceId i)"
      "parse_prefixed_ulid (ne_duck env) ''inv'' (pt_invoice_id retry) = Inr i"
      unfolding retry_source_def by blast
    from said obtain n b resp where said': "we_operation q = ''queryInvoiceCheck''"
      "ne_check_request env n tax number = Inr (we_body q)"
      "query_invoice_check_result (ne_lib env) (we_answer q) = Inr (b, resp)" "from_check_result b = Absent"
      "row_of_write env (check_outcome_write env ctx iid (pt_idempotency_key retry) number (we_body q) Absent resp) c"
      unfolding said_absent_def by auto
    show "\<exists>tax es pending retry path xml number i iid q n b resp m tok xs c a.
         parse_tax_number_8 (da_tax_number args) = Inr tax \<and>
         read_all_entries (ne_ledger env) (nav_rows s) = Inr es \<and>
         classify_pending_retries (ne_duck env) (ne_codec env) es = Inr pending \<and>
         retry \<in> set (take (drain_limit (da_max_invoices args) (length pending)) pending) \<and>
         pt_nav_xml_path retry = Some path \<and> read_invoice_xml env path = Inr xml \<and>
         ne_invoice_number env xml = Some number \<and>
         parse_prefixed_ulid (ne_duck env) ''inv'' (pt_invoice_id retry) = Inr i \<and>
         iid = invoice_key (ne_duck env) (InvoiceId i) \<and>
         q \<in> set us \<and> we_operation q = ''queryInvoiceCheck'' \<and>
         ne_check_request env n tax number = Inr (we_body q) \<and>
         query_invoice_check_result (ne_lib env) (we_answer q) = Inr (b, resp) \<and> from_check_result b = Absent \<and>
         ne_manage_request env m tax tok [(pt_operation retry, xml)] = Inr (we_body w) \<and>
         we_stable w = nav_rows s @ xs \<and> c \<in> set xs \<and> a \<in> set xs \<and>
         row_of_write env (check_outcome_write env ctx iid (pt_idempotency_key retry) number (we_body q) Absent resp) c \<and>
         row_of_write env (attempt_write env ctx iid (pt_idempotency_key retry) (we_body w)) a"
      by (rule exI [where x = tax], rule exI [where x = es], rule exI [where x = pending],
          rule exI [where x = retry], rule exI [where x = path], rule exI [where x = xml],
          rule exI [where x = number], rule exI [where x = i], rule exI [where x = iid],
          rule exI [where x = q], rule exI [where x = n], rule exI [where x = b],
          rule exI [where x = resp], rule exI [where x = m], rule exI [where x = tok],
          rule exI [where x = xs], rule exI [where x = c], rule exI [where x = a])
        (intro conjI; fact 2(2-4) retry src' said' req rows)
  qed
qed

section \<open>What stays in the ledger\<close>

lemma nav_life_keeps:
  assumes "nav_life env ctx t u" and "nav_env_ok env" and "nav_inv env ctx t"
    and "stable_rows t = nav_rows t"
  shows "prefix (nav_rows t) (nav_rows u)"
  using nav_life_stable [OF assms(1-3)] stable_below [OF nav_life_inv [OF assms(1-3)]] assms(4)
  by (auto intro: prefix_order.trans)

text \<open>A row in the table is an entry of the walks.\<close>

lemma row_entry:
  assumes i: "nav_inv env ctx u" and room: "length (nav_rows u) < 2 ^ 63"
    and es: "read_all_entries (ne_ledger env) (nav_rows u) = Inr es"
    and r: "r \<in> set (nav_rows u)" "row_of_write env (k, pl, key) r"
  shows "\<exists>e \<in> set es. kind e = InvoiceEvent k \<and> payload e = pl"
proof -
  from nav_invD(3) [OF i room] obtain es' where ok: "env_ok (ne_ledger env)"
    and rep: "ledger_rep (ne_ledger env) (meta_tenant_id (nc_meta ctx)) es' (nav_rows u)"
    by (auto simp: ledger_inv_def ledger_ok_def)
  then have "es' = es" using rep_read_all [OF ok rep] es by simp
  with rep r(1) obtain e where e: "e \<in> set es" "r = row_of_entry (ne_ledger env) e"
    by (auto simp: ledger_rep_def)
  then have "event_kind_as_str (kind e) = event_kind_as_str (InvoiceEvent k)" "payload e = pl"
    using r(2) by (simp_all add: row_of_write_def row_of_entry_def)
  then show ?thesis using e(1) event_kind_as_str_inj by blast
qed

lemma in_prefix: "prefix a b \<Longrightarrow> x \<in> set a \<Longrightarrow> x \<in> set b"
  by (auto dest: set_mono_prefix)

section \<open>Abandonment\<close>

lemma precondition_abandoned:
  assumes "stuck_precondition denv c es iid = Inr r" and "iid \<in> abandoned c es"
  shows "r = NotStuck AlreadyAbandoned"
  using assms by (cases rule: stuck_precondition_cases) auto

text \<open>The rest of a command whose invoice is not stuck is never reached.\<close>

lemma abandoned_stops:
  assumes ok: "nav_env_ok env" and i: "nav_inv env ctx u" and room: "length (nav_rows u) < 2 ^ 63"
    and ab: "r \<in> set (nav_rows u)" "row_of_write env (abandoned_write env iid key0 p0 reason0) r"
    and q: "quiet_from env ctx u s" and m: "read_entries env s = (Inr es, t)"
    and sp: "stuck_precondition (ne_duck env) (ne_codec env) es iid = Inr x"
  shows "x = NotStuck AlreadyAbandoned"
proof -
  have es: "read_all_entries (ne_ledger env) (nav_rows u) = Inr es" by (rule quiet_entries [OF ok q m])
  let ?p = "\<lparr>ma_invoice_id = iid, ma_idempotency_key = idem_text env key0,
         ma_prior_transaction_id = sp_prior_transaction_id p0,
         ma_prior_last_ack_status = sp_prior_last_ack_status p0, ma_reason = reason0\<rparr>"
  from row_entry [OF i room es ab(1) ab(2) [unfolded abandoned_write_def]] obtain e where
    "e \<in> set es" "kind e = InvoiceEvent InvoiceMarkedAbandoned"
    "payload e = abandoned_to_bytes (ne_codec env) ?p" by blast
  then have "iid \<in> abandoned (ne_codec env) es"
    using nav_env_okD(2) [OF ok] by (auto simp: invoice_sets codec_ok_def intro!: bexI [of _ e])
  then show ?thesis by (rule precondition_abandoned [OF sp])
qed

lemma stuck_or_fail_Inr: "stuck_or_fail key x = Inr p \<Longrightarrow> x = Stuck p"
  by (auto simp: stuck_or_fail_def res_simps split: stuck_outcome.splits)

lemma abandoned_refused:
  assumes ok: "nav_env_ok env" and i: "nav_inv env ctx u" and room: "length (nav_rows u) < 2 ^ 63"
    and ab: "r0 \<in> set (nav_rows u)" "row_of_write env (abandoned_write env iid key0 p0 reason0) r0"
  shows "after env ctx u (resolve_stuck_or_loud_fail env iid key) (\<lambda>r t. False)"
    and "after env ctx u (mark_abandoned_from_inputs env ctx iid reason force) (\<lambda>r t. False)"
proof -
  note stops = abandoned_stops [OF ok i room ab]
  show "after env ctx u (resolve_stuck_or_loud_fail env iid key) (\<lambda>r t. False)"
    unfolding resolve_stuck_or_loud_fail_def
  proof (rule after_bind [OF quiet_read_entries [OF ok]])
    fix es s t assume q: "quiet_from env ctx u s" "read_entries env s = (Inr es, t)"
    have "\<not> is_ok (and_then (operation_for_invoice (ne_codec env) es iid) (\<lambda>operation.
       and_then (stuck_precondition (ne_duck env) (ne_codec env) es iid) (\<lambda>r.
       and_then (stuck_or_fail key r) (\<lambda>p. Inr (p, operation)))))"
      using stops [OF q] stuck_or_fail_Inr [of key]
      by (auto simp: is_ok_def res_simps split: sum.splits dest!: stuck_or_fail_Inr)
    then show "after env ctx u (io_lift (and_then (operation_for_invoice (ne_codec env) es iid) (\<lambda>operation.
       and_then (stuck_precondition (ne_duck env) (ne_codec env) es iid) (\<lambda>r.
       and_then (stuck_or_fail key r) (\<lambda>p. Inr (p, operation)))))) (\<lambda>r t. False)"
      by (intro afterI) (auto simp: io_lift_def)
  qed
  show "after env ctx u (mark_abandoned_from_inputs env ctx iid reason force) (\<lambda>r t. False)"
    unfolding mark_abandoned_from_inputs_def
  proof (rule after_bind [OF quiet_load_requested [OF ok]], clarify,
      rule after_bind [OF quiet_read_entries [OF ok]], rule after_bind_lift)
    fix pinv key v s es w st p
    assume q: "quiet_from env ctx u s" "read_entries env s = (Inr es, w)"
    assume "and_then (stuck_precondition (ne_duck env) (ne_codec env) es iid) (stuck_or_fail key) = Inr p"
    then have False using stops [OF q] by (auto simp: res_simps dest!: stuck_or_fail_Inr)
    then show "after env ctx u (io_bind (read_entries env) (\<lambda>es'.
       io_bind (io_lift (latest_check_performed_outcome (ne_codec env) es' iid)) (\<lambda>latest.
       io_bind (io_lift (check (\<not> (latest = Some ''exists'' \<and> \<not> force)) (NeNavSideExists iid))) (\<lambda>_.
       io_bind (write_audit env ctx [abandoned_write env (invoice_key (ne_duck env) (ri_id pinv)) key p
          (effective_reason_for_audit reason (latest = Some ''exists'' \<and> force))]) (\<lambda>_.
       io_bind (nav_durable_ack env) (\<lambda>_.
       io_bind (verify_chain_reusing_read env ctx) (\<lambda>_. io_return p))))))) (\<lambda>r t. False)" ..
  qed
qed

lemma mark_abandoned_Inr:
  assumes ok: "nav_env_ok env" and i: "nav_inv env ctx s"
    and m: "mark_abandoned env ctx tenant iid reason force s = (Inr p, t)"
  shows "\<exists>key p0 reason0 r0. nav_inv env ctx t \<and> stable_rows t = nav_rows t \<and> r0 \<in> set (nav_rows t) \<and>
    row_of_write env (abandoned_write env iid key p0 reason0) r0"
proof -
  have "after env ctx s (mark_abandoned env ctx tenant iid reason force) (\<lambda>r t. is_ok r \<longrightarrow>
      (\<exists>key p0 reason0 r0. nav_inv env ctx t \<and> stable_rows t = nav_rows t \<and> r0 \<in> set (nav_rows t) \<and>
         row_of_write env (abandoned_write env iid key p0 reason0) r0))"
    unfolding mark_abandoned_def mark_abandoned_from_inputs_def
  proof (rule after_bind_lift, rule after_bind_lift, rule after_bind [OF quiet_load_requested [OF ok]],
      clarify, rule after_bind [OF quiet_read_entries [OF ok]], rule after_bind_lift,
      rule after_bind [OF quiet_read_entries [OF ok]], rule after_bind_lift, rule after_bind_lift,
      rule afterI, rule disjI2, rule impI)
    fix pinv key s1 u1 s2 es u2 p0 s3 es' u3 latest u4 v z
      and r :: "nav_error + stuck_precondition_record"
    assume q1: "quiet_from env ctx s s1" "load_requested_invoice env iid s1 = (Inr (pinv, key), u1)"
      and q: "quiet_from env ctx s v" and r: "is_ok r"
    let ?reason = "effective_reason_for_audit (rust_trim reason) (latest = Some ''exists'' \<and> force)"
    let ?w = "abandoned_write env (invoice_key (ne_duck env) (ri_id pinv)) key p0 ?reason"
    assume m: "io_bind (write_audit env ctx [?w]) (\<lambda>_. io_bind (nav_durable_ack env) (\<lambda>_.
       io_bind (verify_chain_reusing_read env ctx) (\<lambda>_. io_return p0))) v = (r, z)"
    have m': "io_bind (flushed_write env ctx [?w]) (\<lambda>_.
       io_bind (verify_chain_reusing_read env ctx) (\<lambda>_. io_return p0)) v = (r, z)"
      using m by (simp add: flushed_write_def io_bind_assoc)
    obtain p1 where "r = Inr p1" using r by (cases r) simp_all
    from m' [unfolded this io_bind_Inr] obtain a y q' z' where x: "flushed_write env ctx [?w] v = (Inr a, y)"
      and v: "verify_chain_reusing_read env ctx y = (Inr q', z')" and "io_return p0 z' = (Inr p1 :: nav_error + _, z)" by (elim exE conjE)
    then have z: "z = z'" by (simp add: io_return_def)
    from flushed_write_adds [OF ok quiet_from_inv [OF q] x] obtain new where
      n: "adds env ctx v y new []" "list_all2 (row_of_write env) [?w] new" "stable_rows y = nav_rows y"
      by auto
    note vv = verify_adds [OF ok adds_inv [OF n(1)] v]
    have st: "stable_rows z = nav_rows z" using adds_stable [OF vv n(3)] by (simp add: z)
    have "nav_rows z = nav_rows v @ new" using n(1) vv by (simp add: adds_def z)
    moreover from n(2) obtain r0 where "new = [r0]" "row_of_write env ?w r0" by (auto simp: list_all2_Cons1)
    moreover have "invoice_key (ne_duck env) (ri_id pinv) = iid"
      using quiet_loads_requested [OF ok q1] by simp
    ultimately show "\<exists>key p0 reason0 r0. nav_inv env ctx z \<and> stable_rows z = nav_rows z \<and>
        r0 \<in> set (nav_rows z) \<and> row_of_write env (abandoned_write env iid key p0 reason0) r0"
      using st adds_inv [OF vv] z by (intro exI [of _ key] exI [of _ p0] exI [of _ ?reason] exI [of _ r0]) simp
  qed
  from afterD [OF this i m] show ?thesis by simp
qed

text \<open>C10: An abandonment that returned is final for the operator's commands: in every later state,
  also after a stop of the machine, a retry or another abandonment of the invoice fails, writes
  nothing and posts nothing.\<close>

theorem abandonment_is_final:
  assumes "nav_env_ok env" and "nav_inv env ctx s"
    and "mark_abandoned env ctx tenant iid reason force s = (Inr p, t)"
    and "nav_life env ctx t u" and "length (nav_rows u) < 2 ^ 63"
  shows "(\<forall>args r v. ra_invoice_id args = iid \<longrightarrow> retry_submission env ctx args u = (r, v) \<longrightarrow>
      \<not> is_ok r \<and> nav_rows v = nav_rows u \<and> posts (nv_wire v) = posts (nv_wire u)) \<and>
    (\<forall>tenant' reason' force' r v. mark_abandoned env ctx tenant' iid reason' force' u = (r, v) \<longrightarrow>
      \<not> is_ok r \<and> nav_rows v = nav_rows u \<and> posts (nv_wire v) = posts (nv_wire u))"
proof -
  note ok = assms(1)
  from mark_abandoned_Inr [OF ok assms(2,3)] obtain key p0 reason0 r0 where
    t: "nav_inv env ctx t" "stable_rows t = nav_rows t"
    and r0: "r0 \<in> set (nav_rows t)" "row_of_write env (abandoned_write env iid key p0 reason0) r0" by blast
  have iu: "nav_inv env ctx u" by (rule nav_life_inv [OF assms(4) ok t(1)])
  have ru: "r0 \<in> set (nav_rows u)" by (rule in_prefix [OF nav_life_keeps [OF assms(4) ok t] r0(1)])
  note refused = abandoned_refused [OF ok iu assms(5) ru r0(2)]
  have quiet: "nav_rows v = nav_rows u \<and> posts (nv_wire v) = posts (nv_wire u)" if "quiet_from env ctx u v" for v
    using that quiet_from_rows [OF that] by (auto simp: quiet_from_def adds_def)
  have retry: "after env ctx u (retry_submission env ctx args) (\<lambda>r t. False)" if "ra_invoice_id args = iid" for args
  proof -
    have "after env ctx u (io_bind (resolve_stuck_or_loud_fail env iid k) f) (\<lambda>r t. False)" for k and f :: "_ \<Rightarrow> retry_outcome nav_op"
    proof (rule after_bind [OF quiet_resolve_stuck [OF ok]])
      fix a w x assume "quiet_from env ctx u w" "resolve_stuck_or_loud_fail env iid k w = (Inr a, x)"
      then have False using refused(1) [of k] unfolding after_def by fastforce
      then show "after env ctx u (f a) (\<lambda>r t. False)" ..
    qed
    then show ?thesis unfolding retry_submission_def Let_def that
      by (intro after_bind_lift after_bind [OF quiet_acquire_or_refuse]
          after_bind [OF quiet_load_requested [OF ok]]) (simp add: case_prod_beta)
  qed
  have abandon: "after env ctx u (mark_abandoned env ctx tenant' iid reason' force') (\<lambda>r t. False)" for tenant' reason' force'
    unfolding mark_abandoned_def by (intro after_bind_lift refused(2))
  show ?thesis
    using afterD [OF retry iu] afterD [OF abandon iu] quiet by blast
qed

section \<open>Payments\<close>

lemma io_map_err_Inr: "io_map_err g m s = (Inr a, t) \<longleftrightarrow> m s = (Inr a, t)"
  by (cases "m s"; cases "fst (m s)") (simp_all add: io_map_err_def)

lemma read_keeps_ack:
  assumes s: "settled le env s" and r: "handle_read env s = (r, t)"
  shows "hd_last_ack t = hd_last_ack s"
proof -
  define s2 where "s2 = (if live_file_swapped env s then s\<lparr>hd_conn := None, hd_fence := None\<rparr> else s)"
  obtain r3 s3 where 3: "ensure_open env s2 = (r3, s3)" by fastforce
  obtain r4 s4 where 4: "answer (he_clone env) DbDuck s3 = (r4, s4)" by fastforce
  have "hd_last_ack s3 = hd_last_ack s"
    using ensure_open_frame [OF 3] by (simp add: s2_def)
  moreover have "hd_last_ack s4 = hd_last_ack s3" using answer_frame [OF 4] by simp
  moreover have "t = s3 \<or> t = s4"
    using r 3 4 lock_recovering_clean [OF settledD(2) [OF s]]
    by (cases r3; cases r4)
      (simp_all add: handle_read_def io_bind_def io_get_def io_modify_def s2_def [symmetric])
  ultimately show ?thesis by auto
qed

lemma write_parks:
  assumes ok: "nav_env_ok env" and i: "nav_inv env ctx s" and w: "write_audit env ctx ws s = (Inr (), t)"
  shows "hd_last_ack (nv_handle t) \<noteq> None"
proof -
  let ?f = "audit_tx env ctx (nv_tick s) ws"
  obtain h1 where d: "db_write (ne_handle env) NeDb ?f (nv_handle s) = (Inr (), h1)"
    and t: "nv_handle t = h1"
    using w by (auto simp: write_audit_def split: prod.splits)
  obtain r1 s1 where 1: "handle_write (ne_handle env) (nv_handle s) = (r1, s1)" by fastforce
  obtain r2 s2 where 2: "transact ?f s1 = (r2, s2)" by fastforce
  obtain r3 s3 where 3: "guard_drop (ne_handle env) s2 = (r3, s3)" by fastforce
  have "h1 = s3"
    using d 1 2 3 by (cases r1) (simp_all add: db_write_def io_bind_def io_map_err_def in_window_def)
  then show ?thesis using guard_drop_parks_something [OF 3] by (simp add: t)
qed

lemma write_then_read_then_ack:
  assumes ok: "nav_env_ok env" and i: "nav_inv env ctx s" and w: "write_audit env ctx ws s = (Inr (), t)"
    and v: "verify_chain_reusing_read env ctx t = (q, u)" and a: "nav_durable_ack env u = (Inr (), x)"
  shows "stable_rows x = nav_rows x \<and> nav_rows x = nav_rows t"
proof -
  from write_audit_adds(1) [OF ok i w] have it: "nav_inv env ctx t" by (auto dest: adds_inv)
  note st = nav_invD(1) [OF it]
  obtain qq h where r: "handle_read (ne_handle env) (nv_handle t) = (qq, h)" by fastforce
  have u: "u = t\<lparr>nv_handle := h\<rparr>"
    using v r by (cases qq)
      (simp_all add: verify_chain_reusing_read_def nav_read_def on_handle_def io_bind_def io_map_err_def io_lift_def)
  note vv = verify_adds [OF ok it v]
  note aa = nav_durable_ack_adds [OF ok adds_inv [OF vv] a]
  from aa obtain h2 where h2: "durable_ack (ne_handle env) h = (Inr (), h2)" by (auto simp: u)
  have last: "hd_last_ack h = hd_last_ack (nv_handle t)" by (rule read_keeps_ack [OF st r])
  have np: "\<not> hd_poisoned h" using handle_read_settled [OF st r] by (simp add: caught_up_def settled_def)
  from durable_ack_claims [OF np h2] write_parks [OF ok i w] last
  have "hd_last_ack (nv_handle t) = Some (Inr ())" by auto
  then have "durable_ack (ne_handle env) (nv_handle t) = (Inr (), (nv_handle t)\<lparr>hd_last_ack := None\<rparr>)"
    using lock_recovering_clean [OF settledD(2) [OF st]]
    by (simp add: durable_ack_def io_bind_def io_get_def io_modify_def io_lift_def)
  from write_audit_adds(2) [OF ok i w refl this] have "stable_rows t = nav_rows t"
    by (simp add: stable_rows_live live_stable_def)
  then have "stable_rows u = nav_rows u" by (rule adds_stable [OF vv])
  then have "stable_rows x = nav_rows x" by (rule adds_stable [OF conjunct1 [OF aa]])
  then show ?thesis using vv aa by (simp add: adds_def)
qed

lemma mark_paid_Inr:
  assumes ok: "nav_env_ok env" and i: "nav_inv env ctx s" and m: "mark_paid env ctx inp s = (Inr x, t)"
  shows "\<exists>key r0. nav_inv env ctx t \<and> stable_rows t = nav_rows t \<and> nav_rows t = nav_rows s @ [r0] \<and>
    row_of_write env (payment_write env key inp) r0"
proof -
  have "after env ctx s (mark_paid env ctx inp) (\<lambda>r t. is_ok r \<longrightarrow>
      (\<exists>key r0. nav_inv env ctx t \<and> stable_rows t = nav_rows t \<and> nav_rows t = nav_rows s @ [r0] \<and>
         row_of_write env (payment_write env key inp) r0))"
    unfolding mark_paid_def mark_paid_write_def
  proof (rule after_bind [OF quiet_mark_paid_check [OF ok]], rule after_bind [OF quiet_next_tick],
      rule afterI, rule disjI2, rule impI)
    fix u1 s1 n s2 u2 v z and r :: "mark_paid_error + payment_record \<times> nat"
    assume q: "quiet_from env ctx s v" and r: "is_ok r"
    let ?w = "payment_write env (ne_new_key env n) inp"
    assume m: "io_bind (io_map_err MarkPaidOther (write_audit env ctx [?w])) (\<lambda>_.
      io_bind (io_map_err MarkPaidOther (verify_chain_reusing_read env ctx)) (\<lambda>verified.
      io_bind (io_map_err MarkPaidOther (nav_durable_ack env)) (\<lambda>_.
      io_return (\<lparr>pm_paid_at = mp_paid_at inp, pm_amount_minor = mp_amount_minor inp,
                   pm_currency = mp_currency inp, pm_method = mp_method inp,
                   pm_reference = mp_reference inp\<rparr>, verified)))) v = (r, z)"
    obtain p1 where "r = Inr p1" using r by (cases r) simp_all
    from m [unfolded this io_bind_Inr io_map_err_Inr] obtain a1 v1 q2 v2 a3 v3
      where 1: "write_audit env ctx [?w] v = (Inr a1, v1)"
        and 2: "verify_chain_reusing_read env ctx v1 = (Inr q2, v2)"
        and 3: "nav_durable_ack env v2 = (Inr a3, v3)" and "z = v3"
      by (elim exE conjE) (simp add: io_return_def)
    then have z: "a1 = ()" "a3 = ()" "z = v3" by simp_all
    note st = write_then_read_then_ack [OF ok quiet_from_inv [OF q] 1 [unfolded z] 2 3 [unfolded z(2)]]
    from write_audit_adds(1) [OF ok quiet_from_inv [OF q] 1] obtain new where
      n: "adds env ctx v v1 new []" "list_all2 (row_of_write env) [?w] new" by (auto simp: z)
    then obtain r0 where r0: "new = [r0]" "row_of_write env ?w r0" by (auto simp: list_all2_Cons1)
    have "nav_inv env ctx v3"
      using nav_durable_ack_adds [OF ok adds_inv [OF verify_adds [OF ok adds_inv [OF n(1)] 2]] 3]
      by (auto dest: adds_inv)
    then show "\<exists>key r0. nav_inv env ctx z \<and> stable_rows z = nav_rows z \<and> nav_rows z = nav_rows s @ [r0] \<and>
         row_of_write env (payment_write env key inp) r0"
      using st n(1) r0 quiet_from_rows [OF q]
      by (intro exI [of _ "ne_new_key env n"] exI [of _ r0]) (simp add: z adds_def)
  qed
  from afterD [OF this i m] show ?thesis by simp
qed

definition paid :: "nav_codec \<Rightarrow> entry list \<Rightarrow> string set" where
  "paid c = invoices_with InvoicePaymentRecorded (payment_from_slice c) pr_invoice_id"

lemma payment_record_for_iff:
  assumes "payment_record_for c es i = Inr r"
  shows "r \<noteq> None \<longleftrightarrow> i \<in> paid c es"
proof -
  have "r \<noteq> None \<longleftrightarrow> i \<in> invoices_with InvoicePaymentRecorded (payment_from_slice c) pr_invoice_id (rev es)"
    by (rule find_on_kind [OF assms [unfolded payment_record_for_def]]) (auto split: if_splits)
  then show ?thesis by (simp add: paid_def)
qed

text \<open>C23: Commands that run one after the other record at most one payment of an invoice: once one
  has returned, every later one for the invoice, also after a stop of the machine, fails and writes
  nothing.\<close>

theorem payment_recorded_once:
  assumes "nav_env_ok env" and "nav_inv env ctx s" and "mark_paid env ctx i s = (Inr x, t)"
    and "nav_life env ctx t u" and "length (nav_rows u) < 2 ^ 63"
    and "mark_paid env ctx j u = (r, v)" and "mp_invoice_id j = mp_invoice_id i"
  shows "\<not> is_ok r \<and> nav_rows v = nav_rows u"
proof -
  note ok = assms(1)
  from mark_paid_Inr [OF ok assms(2,3)] obtain key r0 where
    t: "nav_inv env ctx t" "stable_rows t = nav_rows t" and "nav_rows t = nav_rows s @ [r0]"
    and r0: "row_of_write env (payment_write env key i) r0" by blast
  then have "r0 \<in> set (nav_rows u)" using in_prefix [OF nav_life_keeps [OF assms(4) ok t]] by simp
  note iu = nav_life_inv [OF assms(4) ok t(1)]
  have "after env ctx u (mark_paid env ctx j) (\<lambda>r t. False)"
    unfolding mark_paid_def
  proof (rule after_bind [OF quiet_mark_paid_check [OF ok]])
    fix a s1 u1 assume q: "quiet_from env ctx u s1" and c: "mark_paid_check env j s1 = (Inr a, u1)"
    from c obtain es w where e: "read_entries env s1 = (Inr es, w)"
      and p: "payment_record_for (ne_codec env) es (mp_invoice_id j) = Inr None"
      by (auto simp: mark_paid_check_def io_bind_def io_lift_def io_map_err_def io_return_def io_fail_def
          check_def map_err_def split: if_splits prod.splits sum.splits option.splits)
    note es = quiet_entries [OF ok q e]
    from row_entry [OF iu assms(5) es \<open>r0 \<in> set (nav_rows u)\<close> r0 [unfolded payment_write_def]]
    have "mp_invoice_id j \<in> paid (ne_codec env) es"
      using nav_env_okD(2) [OF ok] assms(7)
      by (auto simp: paid_def invoices_with_def codec_ok_def)
    then have False using payment_record_for_iff [OF p] by simp
    then show "after env ctx u (mark_paid_write env ctx j) (\<lambda>r t. False)" ..
  qed
  from afterD [OF this iu assms(6)] show ?thesis using quiet_from_rows by blast
qed

section \<open>What NAV has received\<close>

text \<open>C2: Whatever commands run, in any order, with crashes, checkpoints and other writers between
  them: for every invoice request NAV has received, an attempt with that very request was on stable
  storage when it left and still is; so no invoice can reach NAV that the ledger does not know of.\<close>

theorem posts_are_attested:
  assumes "nav_env_ok env" and "settled nd_le (ne_handle env) (nv_handle s0)" and "nv_wire s0 = []"
    and "ledger_inv (ne_ledger env) (nc_meta ctx) (nav_rows s0)" and "nav_life env ctx s0 s"
  shows "\<forall>w \<in> set (nv_wire s). we_operation w = ''manageInvoice'' \<longrightarrow>
    prefix (we_stable w) (stable_rows s) \<and>
    (\<exists>r \<in> set (we_stable w). r_kind r = event_kind_as_str (InvoiceEvent InvoiceSubmissionAttempt) \<and>
       (\<exists>p. attempt_from_slice (ne_codec env) (r_payload r) = Some p \<and> at_request_xml p = we_body w))"
proof -
  have "nav_inv env ctx s0" using assms(2-4) by (simp add: nav_inv_def posted_after_attempt_def)
  from nav_life_inv [OF assms(5,1) this] show ?thesis
    unfolding nav_inv_def posted_after_attempt_def is_attempt_def by blast
qed

text \<open>C24: The ledger stays whole under the submission commands: after any run of them the table
  verifies with the number of its rows, what stable storage holds of it is a part that verifies too,
  and rows that were on stable storage are still there.\<close>

theorem submissions_keep_the_chain:
  assumes "nav_env_ok env" and "settled nd_le (ne_handle env) (nv_handle s0)" and "nv_wire s0 = []"
    and "ledger_inv (ne_ledger env) (nc_meta ctx) (nav_rows s0)" and "nav_life env ctx s0 s"
    and "length (nav_rows s) < 2 ^ 63"
  shows "ledger_verify_chain (ne_ledger env) (meta_tenant_id (nc_meta ctx)) (nav_rows s) = Inr (length (nav_rows s)) \<and>
    ledger_verify_chain (ne_ledger env) (meta_tenant_id (nc_meta ctx)) (stable_rows s) = Inr (length (stable_rows s)) \<and>
    prefix (stable_rows s0) (stable_rows s) \<and> prefix (stable_rows s) (nav_rows s)"
proof -
  have i0: "nav_inv env ctx s0" using assms(2-4) by (simp add: nav_inv_def posted_after_attempt_def)
  note st = nav_life_stable [OF assms(5,1) i0]
  then have i: "nav_inv env ctx s" by blast
  note rows = nav_invD(3) [OF i assms(6)]
  show ?thesis
    using ledger_inv_verifies [OF rows] ledger_inv_verifies [OF ledger_inv_prefix [OF rows stable_below [OF i]]]
      stable_below [OF i] st by simp
qed

section \<open>A submission that succeeds\<close>

text \<open>C25: A submission returns: when the disk and the engine work, the mirror can be synchronised
  whenever it is not ahead of the ledger, the invoice is issued, its lock is free and NAV accepts, the
  command ends with NAV's transaction, whatever the ledger held before, as long as there is room for
  two rows. That includes the verification and the sync of the mirror that this command runs after
  the answer is recorded.\<close>

theorem submission_succeeds:
  assumes "nav_smooth env" and "nav_accepts env so" and "nav_calm env ctx 2 s"
    and "submit_accepted env args" and "issued env (live_content (nv_handle s)) (sb_invoice_id args)"
    and "is_ok (operation_for_invoice (ne_codec env) (ledger_entries (ne_ledger env) (nav_rows s)) (sb_invoice_id args))"
  shows "\<exists>t. submit_from_inputs env ctx args s = (Inr (so_transaction_id so), t)"
  using succeeds_run [OF submit_succeeds [OF assms(1,2,4,5) assms(6) [unfolded nav_rows_def]] calm_at_here [OF assms(3)]]
  by blast

section \<open>The demonstration\<close>

definition demo_submit :: submit_inputs where
  "demo_submit = \<lparr>sb_tenant = ''t1'', sb_invoice_id = demo_iid, sb_invoice_xml = [5], sb_tax_number = ''12345678-1-42''\<rparr>"

lemma demo_submit_accepted: "submit_accepted demo_nav demo_submit"
  unfolding submit_accepted_def by (simp add: demo_submit_def tenant_new_def parse_tax_number_8_def check_def is_digit_def Let_def)

lemma demo_no_operation: "operation_for_invoice c [] i = Inr OpCreate"
  by (simp add: operation_for_invoice_def chain_operation_sets_def lefts_def rights_def operation_in_def
      List.map_filter_simps)

lemma demo_nav_empty: "ledger_entries demo_env (nav_rows demo_nav_state) = []"
  by (simp add: ledger_entries_def nav_rows_def live_content_def demo_nav_state_def demo_nav_db_def
      read_all_entries_def order_by_seq_def)

lemma demo_submitted:
  "\<exists>t. submit_from_inputs demo_nav demo_ctx demo_submit demo_nav_state = (Inr ''T1'', t) \<and>
     nav_inv demo_nav demo_ctx t \<and> posts (nv_wire t) \<noteq> []"
proof -
  have op: "is_ok (operation_for_invoice (ne_codec demo_nav) (ledger_entries (ne_ledger demo_nav)
      (nd_rows (live_content (nv_handle demo_nav_state)))) (sb_invoice_id demo_submit))"
    using demo_nav_empty by (simp add: nav_rows_def demo_no_operation)
  have iss: "issued demo_nav (live_content (nv_handle demo_nav_state)) (sb_invoice_id demo_submit)"
    by (simp add: demo_submit_def) (rule demo_issued, simp add: live_content_def demo_nav_state_def)
  have "calm_at demo_nav demo_ctx 2 (live_content (nv_handle demo_nav_state)) demo_nav_state"
    by (rule calm_at_here [OF demo_nav_calm]) simp
  from succeeds_run [OF submit_succeeds [OF demo_nav_smooth demo_nav_accepts demo_submit_accepted iss op] this]
  obtain t where t: "submit_from_inputs demo_nav demo_ctx demo_submit demo_nav_state = (Inr ''T1'', t)"
    and c: "nav_calm demo_nav demo_ctx 0 t" by auto
  from afterD [OF submit_after [OF demo_nav_ok] demo_nav_inv t] obtain key where
    "sent demo_nav demo_ctx demo_nav_state (sb_invoice_id demo_submit) key [] (Some (Inr ''T1'')) t" by auto
  then have "posts (nv_wire t) \<noteq> []"
    by (cases rule: sent_cases) (auto simp: adds_def demo_nav_state_def)
  then show ?thesis using t nav_calmD(1) [OF c] by blast
qed

lemma demo_nav_start:
  "settled nd_le (ne_handle demo_nav) (nv_handle demo_nav_state)" "nv_wire demo_nav_state = []"
  "ledger_inv (ne_ledger demo_nav) (nc_meta demo_ctx) (nav_rows demo_nav_state)"
  using nav_invD(1) [OF demo_nav_inv] demo_ledger_inv
  by (simp_all add: demo_nav_state_def nav_rows_def live_content_def demo_nav_db_def demo_ctx_def)

lemma nav_life_step: "nav_step env ctx s t \<Longrightarrow> nav_life env ctx s t"
  by (simp add: nav_life_def)

theorem submission_ends_witness:
  "\<exists>t pinv key req so r1 r2 wire. submit_from_inputs demo_nav demo_ctx demo_submit demo_nav_state = (Inr ''T1'', t) \<and>
     loads demo_nav demo_nav_state demo_iid (pinv, key) \<and> adds demo_nav demo_ctx demo_nav_state t [r1, r2] wire \<and>
     row_of_write demo_nav (attempt_write demo_nav demo_ctx demo_iid key req) r1 \<and>
     row_of_write demo_nav (response_write demo_nav demo_iid key so) r2 \<and> so_transaction_id so = ''T1''"
proof -
  from demo_submitted obtain t where
    t: "submit_from_inputs demo_nav demo_ctx demo_submit demo_nav_state = (Inr ''T1'', t)" by blast
  from submission_ends [OF demo_nav_ok demo_nav_inv t] show ?thesis
    unfolding sum.case using t by (simp add: demo_submit_def) blast
qed

theorem posts_are_attested_witness:
  "\<exists>s w. nav_life demo_nav demo_ctx demo_nav_state s \<and> w \<in> set (nv_wire s) \<and>
     we_operation w = ''manageInvoice'' \<and> prefix (we_stable w) (stable_rows s) \<and>
     (\<exists>r \<in> set (we_stable w). r_kind r = event_kind_as_str (InvoiceEvent InvoiceSubmissionAttempt))"
proof -
  from demo_submitted obtain t where t: "submit_from_inputs demo_nav demo_ctx demo_submit demo_nav_state = (Inr ''T1'', t)"
    "posts (nv_wire t) \<noteq> []" by blast
  from t(2) obtain w where w: "w \<in> set (nv_wire t)" "we_operation w = ''manageInvoice''"
    by (auto simp: posts_def filter_empty_conv)
  have l: "nav_life demo_nav demo_ctx demo_nav_state t" by (rule nav_life_step [OF ns_submit [OF t(1)]])
  from posts_are_attested [OF demo_nav_ok demo_nav_start l] w l show ?thesis by blast
qed

theorem submissions_keep_the_chain_witness:
  "\<exists>s. nav_life demo_nav demo_ctx demo_nav_state s \<and> posts (nv_wire s) \<noteq> [] \<and>
     ledger_verify_chain demo_env ''t1'' (nav_rows s) = Inr (length (nav_rows s))"
proof -
  from demo_submitted obtain t where t: "submit_from_inputs demo_nav demo_ctx demo_submit demo_nav_state = (Inr ''T1'', t)"
    "posts (nv_wire t) \<noteq> []" by blast
  from afterD [OF submit_after [OF demo_nav_ok] demo_nav_inv t(1)] obtain key where
    "sent demo_nav demo_ctx demo_nav_state (sb_invoice_id demo_submit) key [] (Some (Inr ''T1'')) t" by auto
  then have "length (nav_rows t) < 2 ^ 63"
    by (cases rule: sent_cases)
      (auto simp: adds_def nav_rows_def live_content_def demo_nav_state_def demo_nav_db_def)
  from submissions_keep_the_chain [OF demo_nav_ok demo_nav_start nav_life_step [OF ns_submit [OF t(1)]] this]
  show ?thesis using t(2) nav_life_step [OF ns_submit [OF t(1)]]
    by (auto simp: demo_ctx_def demo_meta_def)
qed

theorem submission_succeeds_witness:
  "\<exists>t. submit_from_inputs demo_nav demo_ctx demo_submit demo_nav_state = (Inr ''T1'', t)"
proof -
  have "\<exists>t. submit_from_inputs demo_nav demo_ctx demo_submit demo_nav_state =
      (Inr (so_transaction_id \<lparr>so_transaction_id = ''T1'', so_response_xml = [2]\<rparr>), t)"
  proof (rule submission_succeeds [OF demo_nav_smooth demo_nav_accepts demo_nav_calm demo_submit_accepted])
    show "issued demo_nav (live_content (nv_handle demo_nav_state)) (sb_invoice_id demo_submit)"
      by (simp add: demo_submit_def) (rule demo_issued, simp add: live_content_def demo_nav_state_def)
  qed (simp_all add: demo_nav_empty demo_no_operation)
  then show ?thesis by simp
qed

text \<open>States with rows: the first state after one write of them.\<close>

definition demo_with :: "audit_write list \<Rightarrow> nav_state" where
  "demo_with ws = snd (write_audit demo_nav demo_ctx ws demo_nav_state)"

lemma demo_with:
  assumes "length ws \<le> 9"
  shows "nav_calm demo_nav demo_ctx 9 (demo_with ws)"
    and "nd_duck (live_content (nv_handle (demo_with ws))) = nd_duck demo_nav_db"
    and "list_all2 (row_of_write demo_nav) ws (nav_rows (demo_with ws))"
    and "list_all2 (\<lambda>w e. kind e = InvoiceEvent (fst w) \<and> payload e = fst (snd w)) ws
      (ledger_entries demo_env (nd_rows (live_content (nv_handle (demo_with ws)))))"
    and "posts (nv_wire (demo_with ws)) = []"
proof -
  have c: "nav_calm demo_nav demo_ctx (length ws + 9) demo_nav_state"
    by (rule demo_nav_calm) (use assms in simp)
  from calm_write_audit [OF demo_nav_smooth c] obtain t where
    t: "write_audit demo_nav demo_ctx ws demo_nav_state = (Inr (), t)" "nav_calm demo_nav demo_ctx 9 t" by blast
  have d: "demo_with ws = t" by (simp add: demo_with_def t(1))
  from write_audit_adds(1) [OF demo_nav_ok demo_nav_inv t(1)] obtain new where
    n: "adds demo_nav demo_ctx demo_nav_state t new []" "list_all2 (row_of_write demo_nav) ws new" by auto
  have "nav_rows demo_nav_state = []" by (simp add: nav_rows_def live_content_def demo_nav_state_def demo_nav_db_def)
  then have rows: "nav_rows t = new" using n(1) by (simp add: adds_def)
  show "nav_calm demo_nav demo_ctx 9 (demo_with ws)" using t(2) by (simp add: d)
  show "nd_duck (live_content (nv_handle (demo_with ws))) = nd_duck demo_nav_db"
    using write_audit_duck [OF demo_nav_ok demo_nav_inv t(1)] by (simp add: d live_content_def demo_nav_state_def)
  show "list_all2 (row_of_write demo_nav) ws (nav_rows (demo_with ws))" using n(2) by (simp add: d rows)
  show "list_all2 (\<lambda>w e. kind e = InvoiceEvent (fst w) \<and> payload e = fst (snd w)) ws
      (ledger_entries demo_env (nd_rows (live_content (nv_handle (demo_with ws)))))"
    using entries_of_writes [OF nav_calmD(4) [OF t(2)] n(2) [folded rows]] by (simp add: d nav_rows_def)
  show "posts (nv_wire (demo_with ws)) = []" using n(1) by (simp add: d adds_def demo_nav_state_def)
qed

definition demo_draft_write :: audit_write where
  "demo_draft_write = (InvoiceDraftCreated, draft_to_bytes demo_codec (demo_draft demo_iid), 7)"

definition demo_attempt_write :: audit_write where
  "demo_attempt_write = (InvoiceSubmissionAttempt, attempt_to_bytes demo_codec (demo_attempt demo_iid), 7)"

lemma demo_drafted:
  obtains e where "ledger_entries demo_env (nd_rows (live_content (nv_handle (demo_with [demo_draft_write])))) = [e]"
    "kind e = InvoiceEvent InvoiceDraftCreated" "payload e = draft_to_bytes demo_codec (demo_draft demo_iid)"
  using demo_with(4) [of "[demo_draft_write]"] by (auto simp: list_all2_Cons1 demo_draft_write_def)

lemma demo_pending:
  assumes "kind e = InvoiceEvent InvoiceDraftCreated" and "payload e = draft_to_bytes demo_codec (demo_draft i)"
  shows "classify_pending demo_duck demo_codec [e] = Inr [\<lparr>pi_invoice_id = i, pi_idempotency_key = 7,
     pi_nav_xml_path = Some ''p'', pi_issue_date = time_wall e, pi_operation = OpCreate\<rparr>]"
  by (simp add: classify_pending_def pending_excluded_def pending_entry_def fifo_def demo_walk_simps assms)

definition demo_drain :: drain_args where
  "demo_drain = \<lparr>da_tenant = ''t1'', da_tax_number = ''12345678-1-42'', da_max_invoices = 0, da_xml_path_overrides = []\<rparr>"

lemma demo_drain_ok:
  "ok_or (NeTenant (da_tenant demo_drain)) (tenant_new (da_tenant demo_drain)) = Inr ''t1''"
  "parse_tax_number_8 (da_tax_number demo_drain) = Inr ''12345678''"
  "parse_xml_path_overrides Map.empty (da_xml_path_overrides demo_drain) = Inr Map.empty"
  by (simp_all add: demo_drain_def ok_or_def tenant_new_def parse_tax_number_8_def check_def is_digit_def Let_def)

lemma demo_drain_max: "da_max_invoices demo_drain = 0"
  by (simp add: demo_drain_def)

lemma demo_xml: "read_invoice_xml demo_nav p = Inr [5]"
  by (rule read_xml_ok) simp_all

lemma demo_drained:
  "\<exists>t. drain_submission_queue demo_nav demo_ctx demo_drain (demo_with [demo_draft_write]) =
     (Inr (no_counts\<lparr>dn_ok := 1\<rparr>), t)"
proof -
  let ?s = "demo_with [demo_draft_write]" and ?ctx = "demo_ctx\<lparr>nc_tax_number_8 := ''12345678''\<rparr>"
  let ?c = "live_content (nv_handle ?s)"
  obtain e where e: "ledger_entries demo_env (nd_rows ?c) = [e]" "kind e = InvoiceEvent InvoiceDraftCreated"
    "payload e = draft_to_bytes demo_codec (demo_draft demo_iid)" by (rule demo_drafted)
  define p where "p = \<lparr>pi_invoice_id = demo_iid, pi_idempotency_key = 7, pi_nav_xml_path = Some ''p'',
    pi_issue_date = time_wall e, pi_operation = OpCreate\<rparr>"
  have pending: "classify_pending demo_duck demo_codec [e] = Inr [p]"
    unfolding p_def by (rule demo_pending [OF e(2,3)])
  have one: "succeeds demo_nav demo_ctx 2 ?c (drive_one_invoice demo_nav ?ctx Map.empty p) (\<lambda>_. True)"
    using drive_one_invoice_succeeds [OF demo_nav_smooth demo_nav_accepts _ demo_xml, of p Map.empty "''p''" ?ctx ?c]
    by (simp add: resolve_xml_path_def p_def ok_or_def)
  have loop: "succeeds demo_nav demo_ctx 2 ?c (io_bind (drain_loop demo_nav ?ctx Map.empty 0 no_counts [p]) finish_drain)
      (\<lambda>m. m = no_counts\<lparr>dn_ok := 1\<rparr>)"
    unfolding drain_loop.simps io_bind_assoc
  proof (rule succeeds_bind [OF quietly_try_acquire [OF demo_nav_accepts]], simp only: sum.case if_False not_True_eq_False)
    show "succeeds demo_nav demo_ctx 2 ?c (io_bind (io_bind (io_attempt (drive_one_invoice demo_nav ?ctx Map.empty p)) (\<lambda>r.
        case r of Inl (DrTransport msg) \<Rightarrow> io_return (no_counts\<lparr>dn_transport := Some msg, dn_stop := Some 0\<rparr>)
        | Inl (DrApplication e) \<Rightarrow> io_return (no_counts\<lparr>dn_application := dn_application no_counts + 1\<rparr>)
        | Inr _ \<Rightarrow> io_return (no_counts\<lparr>dn_ok := dn_ok no_counts + 1\<rparr>))) finish_drain)
      (\<lambda>m. m = no_counts\<lparr>dn_ok := 1\<rparr>)"
      unfolding io_bind_assoc
      by (rule succeeds_then [OF succeeds_attempt [OF one]])
        (auto simp: finish_drain_def no_counts_def io_return_def io_bind_def)
  qed
  have lims: "take (drain_limit (da_max_invoices demo_drain) (length [p])) [p] = [p]"
    by (simp add: drain_limit_def demo_drain_max)
  have all: "succeeds demo_nav demo_ctx 2 ?c (drain_submission_queue demo_nav demo_ctx demo_drain)
      (\<lambda>m. m = no_counts\<lparr>dn_ok := 1\<rparr>)"
    unfolding drain_submission_queue_def
  proof (rule succeeds_lift [OF demo_drain_ok(1)], rule succeeds_lift [OF demo_drain_ok(2)],
      rule succeeds_bind [OF quietly_read_entries [OF demo_nav_smooth]])
    fix es assume "es = ledger_entries (ne_ledger demo_nav) (nd_rows ?c)"
    then have es: "es = [e]" by (simp add: e(1))
    show "succeeds demo_nav demo_ctx 2 ?c (io_bind (io_lift (classify_pending (ne_duck demo_nav) (ne_codec demo_nav) es)) (\<lambda>pending.
       if pending = [] then io_return no_counts
       else io_bind (io_lift (parse_xml_path_overrides Map.empty (da_xml_path_overrides demo_drain))) (\<lambda>ov.
         io_bind (drain_loop demo_nav ?ctx ov 0 no_counts
           (take (drain_limit (da_max_invoices demo_drain) (length pending)) pending)) finish_drain)))
      (\<lambda>m. m = no_counts\<lparr>dn_ok := 1\<rparr>)"
    proof (rule succeeds_lift [where a = "[p]"])
      show "classify_pending (ne_duck demo_nav) (ne_codec demo_nav) es = Inr [p]" by (simp add: es pending)
      have "succeeds demo_nav demo_ctx 2 ?c (io_bind (io_lift (parse_xml_path_overrides Map.empty
          (da_xml_path_overrides demo_drain))) (\<lambda>ov. io_bind (drain_loop demo_nav ?ctx ov 0 no_counts [p]) finish_drain))
        (\<lambda>m. m = no_counts\<lparr>dn_ok := 1\<rparr>)"
        by (rule succeeds_lift [OF demo_drain_ok(3)]) (rule loop)
      then show "succeeds demo_nav demo_ctx 2 ?c (if [p] = [] then io_return no_counts
         else io_bind (io_lift (parse_xml_path_overrides Map.empty (da_xml_path_overrides demo_drain))) (\<lambda>ov.
           io_bind (drain_loop demo_nav ?ctx ov 0 no_counts
             (take (drain_limit (da_max_invoices demo_drain) (length [p])) [p])) finish_drain))
        (\<lambda>m. m = no_counts\<lparr>dn_ok := 1\<rparr>)"
        unfolding lims by (simp only: list.distinct(2) if_False)
    qed
  qed
  have "calm_at demo_nav demo_ctx 2 ?c ?s"
    using demo_with(1) [of "[demo_draft_write]"] by (simp add: calm_at_def nav_calm_def)
  from succeeds_run [OF all this] show ?thesis by blast
qed

lemma demo_drain_plan:
  "\<exists>p. pi_invoice_id p = demo_iid \<and>
     drain_plan demo_nav demo_drain (fst (read_entries demo_nav (demo_with [demo_draft_write]))) =
       Inr (''12345678'', Map.empty, [p])"
proof -
  let ?s = "demo_with [demo_draft_write]"
  let ?c = "live_content (nv_handle ?s)"
  obtain e where e: "ledger_entries demo_env (nd_rows ?c) = [e]" "kind e = InvoiceEvent InvoiceDraftCreated"
    "payload e = draft_to_bytes demo_codec (demo_draft demo_iid)" by (rule demo_drafted)
  have "calm_at demo_nav demo_ctx 0 ?c ?s"
    using demo_with(1) [of "[demo_draft_write]"] by (simp add: calm_at_def nav_calm_def)
  with quietly_read_entries [OF demo_nav_smooth, of demo_ctx 0 ?c] have "fst (read_entries demo_nav ?s) = Inr [e]"
    unfolding quietly_def by (auto simp: e(1) dest: spec [of _ ?s])
  then show ?thesis
    using demo_pending [OF e(2,3)] demo_drain_ok
    by (simp add: drain_plan_def drain_limit_def demo_drain_max)
qed

theorem drain_in_order_witness:
  "\<exists>t u p xs. drain_submission_queue demo_nav demo_ctx demo_drain (demo_with [demo_draft_write]) =
       (Inr (no_counts\<lparr>dn_ok := 1\<rparr>), t) \<and> pi_invoice_id p = demo_iid \<and>
     worked demo_nav (demo_ctx\<lparr>nc_tax_number_8 := ''12345678''\<rparr>) Map.empty u [p] xs t \<and>
     tallied 0 no_counts 1 xs (no_counts\<lparr>dn_ok := 1\<rparr>)"
proof -
  have i: "nav_inv demo_nav demo_ctx (demo_with [demo_draft_write])"
    by (rule nav_calmD(1) [OF demo_with(1)]) simp
  from demo_drained obtain t where
    t: "drain_submission_queue demo_nav demo_ctx demo_drain (demo_with [demo_draft_write]) =
       (Inr (no_counts\<lparr>dn_ok := 1\<rparr>), t)" by blast
  from demo_drain_plan obtain p where p: "pi_invoice_id p = demo_iid"
    "drain_plan demo_nav demo_drain (fst (read_entries demo_nav (demo_with [demo_draft_write]))) =
       Inr (''12345678'', Map.empty, [p])" by blast
  from conjunct2 [OF drain_in_order [OF demo_nav_ok i t]] obtain u xs m where
    "worked demo_nav (demo_ctx\<lparr>nc_tax_number_8 := ''12345678''\<rparr>) Map.empty u [p] xs t"
    "tallied 0 no_counts 1 xs m"
    "Inr (no_counts\<lparr>dn_ok := 1\<rparr>) = (case dn_transport m of Some msg \<Rightarrow> Inl (NeTransportStop msg) | None \<Rightarrow> Inr m)"
    unfolding p(2) by auto
  then show ?thesis using t p(1) by (auto split: option.splits)
qed

text \<open>A retry: a draft and an attempt that was never answered.\<close>

lemma demo_attempted:
  obtains d e where "ledger_entries demo_env (nd_rows (live_content (nv_handle (demo_with [demo_draft_write, demo_attempt_write])))) = [d, e]"
    "kind d = InvoiceEvent InvoiceDraftCreated" "payload d = draft_to_bytes demo_codec (demo_draft demo_iid)"
    "kind e = InvoiceEvent InvoiceSubmissionAttempt" "payload e = attempt_to_bytes demo_codec (demo_attempt demo_iid)"
  using demo_with(4) [of "[demo_draft_write, demo_attempt_write]"]
  by (auto simp: list_all2_Cons1 demo_draft_write_def demo_attempt_write_def)

lemma demo_retries:
  assumes "kind d = InvoiceEvent InvoiceDraftCreated" and "payload d = draft_to_bytes demo_codec (demo_draft i)"
    and "kind e = InvoiceEvent InvoiceSubmissionAttempt" and "payload e = attempt_to_bytes demo_codec (demo_attempt i)"
  shows "classify_pending_retries demo_duck demo_codec [d, e] = Inr [\<lparr>pt_invoice_id = i, pt_idempotency_key = 7,
     pt_nav_xml_path = Some ''p'', pt_issue_date = time_wall d, pt_operation = OpCreate\<rparr>]"
    and "stuck_precondition demo_duck demo_codec [d, e] i = Inr (Stuck \<lparr>sp_stage = SsPending,
     sp_prior_transaction_id = None, sp_prior_last_ack_status = None, sp_idempotency_key = 7\<rparr>)"
    and "latest_check_performed_outcome demo_codec [d, e] i = Inr None"
    and "payment_record_for demo_codec [d, e] i = Inr None"
  by (simp_all add: classify_pending_retries_def retry_excluded_def draft_meta_entry_def fifo_def demo_walk_simps assms
      stuck_precondition_def has_marked_abandoned_def latest_submission_response_def latest_submission_attempt_def
      latest_check_performed_outcome_def payment_record_for_def)

lemma demo_retried:
  "\<exists>t. drain_pending_retries demo_nav demo_ctx demo_drain (demo_with [demo_draft_write, demo_attempt_write]) =
     (Inr (no_counts\<lparr>dn_ok := 1\<rparr>), t)"
proof -
  let ?s = "demo_with [demo_draft_write, demo_attempt_write]" and ?ctx = "demo_ctx\<lparr>nc_tax_number_8 := ''12345678''\<rparr>"
  let ?c = "live_content (nv_handle ?s)"
  obtain d e where e: "ledger_entries demo_env (nd_rows ?c) = [d, e]" "kind d = InvoiceEvent InvoiceDraftCreated"
    "payload d = draft_to_bytes demo_codec (demo_draft demo_iid)" "kind e = InvoiceEvent InvoiceSubmissionAttempt"
    "payload e = attempt_to_bytes demo_codec (demo_attempt demo_iid)" by (rule demo_attempted)
  define p where "p = \<lparr>pt_invoice_id = demo_iid, pt_idempotency_key = 7, pt_nav_xml_path = Some ''p'',
    pt_issue_date = time_wall d, pt_operation = OpCreate\<rparr>"
  have pending: "classify_pending_retries demo_duck demo_codec [d, e] = Inr [p]"
    unfolding p_def by (rule demo_retries(1) [OF e(2-5)])
  have duck: "nd_duck ?c = duck_new\<lparr>dd_invoices := [demo_invoice_row]\<rparr>"
    using demo_with(2) [of "[demo_draft_write, demo_attempt_write]"] by (simp add: demo_nav_db_def)
  have one: "succeeds demo_nav ?ctx 4 ?c (drive_one_retry demo_nav ?ctx p) (\<lambda>r. r = RetriedOk)"
  proof (rule drive_one_retry_succeeds [OF demo_nav_smooth demo_nav_accepts _ demo_xml])
    show "load_ready_invoice_by_id (ne_duck demo_nav) (nd_duck ?c) (pt_invoice_id p) = Inr (Some
      (\<lparr>ri_id = InvoiceId 1, ri_series_id = SeriesId 1, ri_customer_id = CustomerId 1, ri_lines = [],
       ri_issue_date = 1, ri_payment_deadline = be_date (dk_billing demo_duck) 1,
       ri_delivery_date = be_date (dk_billing demo_duck) 1, ri_sequence_number = 1, ri_fiscal_year = 2026\<rparr>,
       pt_idempotency_key p))"
      using demo_loads by (simp add: duck p_def)
    show "ne_check_request demo_nav n (nc_tax_number_8 ?ctx) ''N1'' = Inr [8]" for n by (simp add: demo_nav_def)
    show "query_invoice_check_result (ne_lib demo_nav) (ne_http demo_nav n ''queryInvoiceCheck'' [8]) = Inr (False, [3])" for n
      by (simp add: demo_http_def demo_check)
  qed (simp_all add: p_def)
  then have one: "succeeds demo_nav demo_ctx 4 ?c (drive_one_retry demo_nav ?ctx p) (\<lambda>r. r = RetriedOk)" by simp
  have loop: "succeeds demo_nav demo_ctx 4 ?c (io_bind (retry_loop demo_nav ?ctx 0 no_counts [p]) finish_drain)
      (\<lambda>m. m = no_counts\<lparr>dn_ok := 1\<rparr>)"
    unfolding retry_loop.simps io_bind_assoc
  proof (rule succeeds_bind [OF quietly_try_acquire [OF demo_nav_accepts]], simp only: sum.case if_False not_True_eq_False)
    show "succeeds demo_nav demo_ctx 4 ?c (io_bind (io_bind (io_attempt (drive_one_retry demo_nav ?ctx p)) (\<lambda>r.
        case r of Inl (DrTransport msg) \<Rightarrow> io_return (no_counts\<lparr>dn_transport := Some msg, dn_stop := Some 0\<rparr>)
        | Inl (DrApplication e) \<Rightarrow> io_return (no_counts\<lparr>dn_application := dn_application no_counts + 1\<rparr>)
        | Inr RetriedOk \<Rightarrow> io_return (no_counts\<lparr>dn_ok := dn_ok no_counts + 1\<rparr>)
        | Inr SkippedExists \<Rightarrow> io_return (no_counts\<lparr>dn_exists := dn_exists no_counts + 1\<rparr>))) finish_drain)
      (\<lambda>m. m = no_counts\<lparr>dn_ok := 1\<rparr>)"
      unfolding io_bind_assoc
      by (rule succeeds_then [OF succeeds_attempt [OF one]])
        (auto simp: finish_drain_def no_counts_def io_return_def io_bind_def)
  qed
  have lims: "take (drain_limit (da_max_invoices demo_drain) (length [p])) [p] = [p]"
    by (simp add: drain_limit_def demo_drain_max)
  have all: "succeeds demo_nav demo_ctx 4 ?c (drain_pending_retries demo_nav demo_ctx demo_drain)
      (\<lambda>m. m = no_counts\<lparr>dn_ok := 1\<rparr>)"
    unfolding drain_pending_retries_def
  proof (rule succeeds_lift [OF demo_drain_ok(1)], rule succeeds_lift [OF demo_drain_ok(2)],
      rule succeeds_bind [OF quietly_read_entries [OF demo_nav_smooth]], rule succeeds_lift [where a = "[p]"])
    fix es assume "es = ledger_entries (ne_ledger demo_nav) (nd_rows ?c)"
    then show "classify_pending_retries (ne_duck demo_nav) (ne_codec demo_nav) es = Inr [p]"
      by (simp add: e(1) pending)
    show "succeeds demo_nav demo_ctx 4 ?c (if [p] = [] then io_return no_counts
       else io_bind (retry_loop demo_nav ?ctx 0 no_counts
           (take (drain_limit (da_max_invoices demo_drain) (length [p])) [p])) finish_drain)
      (\<lambda>m. m = no_counts\<lparr>dn_ok := 1\<rparr>)"
      unfolding lims using loop by (simp only: list.distinct(2) if_False)
  qed
  have "calm_at demo_nav demo_ctx 4 ?c ?s"
    using demo_with(1) [of "[demo_draft_write, demo_attempt_write]"] by (simp add: calm_at_def nav_calm_def)
  from succeeds_run [OF all this] show ?thesis by blast
qed

theorem retry_only_when_absent_witness:
  "\<exists>t rows wire. drain_pending_retries demo_nav demo_ctx demo_drain (demo_with [demo_draft_write, demo_attempt_write]) =
       (Inr (no_counts\<lparr>dn_ok := 1\<rparr>), t) \<and>
     adds demo_nav demo_ctx (demo_with [demo_draft_write, demo_attempt_write]) t rows wire"
proof -
  have i: "nav_inv demo_nav demo_ctx (demo_with [demo_draft_write, demo_attempt_write])"
    by (rule nav_calmD(1) [OF demo_with(1)]) simp
  from demo_retried obtain t where
    t: "drain_pending_retries demo_nav demo_ctx demo_drain (demo_with [demo_draft_write, demo_attempt_write]) =
       (Inr (no_counts\<lparr>dn_ok := 1\<rparr>), t)" by blast
  from retry_only_when_absent [OF demo_nav_ok i t] show ?thesis using t by blast
qed

text \<open>An abandonment of that invoice.\<close>

lemma demo_trim: "rust_trim ''lost'' = ''lost''"
  by code_simp

lemma demo_abandoned:
  "\<exists>p t. mark_abandoned demo_nav demo_ctx ''t1'' demo_iid ''lost'' False (demo_with [demo_draft_write, demo_attempt_write]) =
     (Inr p, t) \<and> length (nav_rows t) < 2 ^ 63"
proof -
  let ?s = "demo_with [demo_draft_write, demo_attempt_write]"
  let ?c = "live_content (nv_handle ?s)"
  obtain d e where e: "ledger_entries demo_env (nd_rows ?c) = [d, e]" "kind d = InvoiceEvent InvoiceDraftCreated"
    "payload d = draft_to_bytes demo_codec (demo_draft demo_iid)" "kind e = InvoiceEvent InvoiceSubmissionAttempt"
    "payload e = attempt_to_bytes demo_codec (demo_attempt demo_iid)" by (rule demo_attempted)
  note R = demo_retries [OF e(2-5)]
  have duck: "nd_duck ?c = duck_new\<lparr>dd_invoices := [demo_invoice_row]\<rparr>"
    using demo_with(2) [of "[demo_draft_write, demo_attempt_write]"] by (simp add: demo_nav_db_def)
  let ?stuck = "\<lparr>sp_stage = SsPending, sp_prior_transaction_id = None, sp_prior_last_ack_status = None,
     sp_idempotency_key = 7\<rparr>"
  have load: "quietly demo_nav demo_ctx 1 ?c (load_requested_invoice demo_nav demo_iid) (\<lambda>r. snd r = 7 \<and>
      invoice_key demo_duck (ri_id (fst r)) = demo_iid)"
    by (rule quietly_weaken [OF quietly_load_requested [OF demo_nav_smooth]])
      (auto simp: duck demo_loads demo_invoice_key [unfolded One_nat_def] simp del: invoice_key.simps)
  have written: "succeeds demo_nav demo_ctx 1 ?c (io_bind (write_audit demo_nav demo_ctx [w]) (\<lambda>_.
     io_bind (nav_durable_ack demo_nav) (\<lambda>_. io_bind (verify_chain_reusing_read demo_nav demo_ctx) (\<lambda>_. io_return p))))
     (\<lambda>r. r = p)" for w and p :: stuck_precondition_record
  proof -
    have "succeeds demo_nav demo_ctx 1 ?c (flushed_write demo_nav demo_ctx [w]) (\<lambda>_. True)"
      using calm_flushed_write [OF demo_nav_smooth, of demo_ctx "[w]" 0] by (auto simp: succeeds_def calm_at_def)
    then have "succeeds demo_nav demo_ctx 1 ?c (io_bind (flushed_write demo_nav demo_ctx [w]) (\<lambda>_.
       io_bind (verify_chain_reusing_read demo_nav demo_ctx) (\<lambda>_. io_return p))) (\<lambda>r. r = p)"
    proof (rule succeeds_then)
      fix u assume "nav_calm demo_nav demo_ctx 0 u"
      from calm_verify [OF demo_nav_smooth this] show "\<exists>b t. io_bind (verify_chain_reusing_read demo_nav demo_ctx)
          (\<lambda>_. io_return p) u = (Inr b, t) \<and> b = p \<and> nav_calm demo_nav demo_ctx 0 t"
        by (auto simp: io_bind_def io_return_def)
    qed
    then show ?thesis by (simp add: flushed_write_def io_bind_assoc)
  qed
  have all: "succeeds demo_nav demo_ctx 1 ?c (mark_abandoned demo_nav demo_ctx ''t1'' demo_iid ''lost'' False) (\<lambda>_. True)"
    unfolding mark_abandoned_def mark_abandoned_from_inputs_def
  proof (rule succeeds_lift [where a = "''t1''"], simp add: ok_or_def tenant_new_def,
      rule succeeds_lift [where a = "()"], simp add: check_def demo_trim, rule succeeds_bind [OF load], clarify,
      rule succeeds_bind [OF quietly_read_entries [OF demo_nav_smooth]], rule succeeds_lift [where a = ?stuck])
    fix pinv :: ready_invoice and key :: idem_key and es assume k: "snd (pinv, key) = 7" and "es = ledger_entries (ne_ledger demo_nav) (nd_rows ?c)"
    then show "and_then (stuck_precondition (ne_duck demo_nav) (ne_codec demo_nav) es demo_iid) (stuck_or_fail key) = Inr ?stuck"
      using R(2) by (simp add: e(1) stuck_or_fail_def check_def)
    show "succeeds demo_nav demo_ctx 1 ?c (io_bind (read_entries demo_nav) (\<lambda>es'.
     io_bind (io_lift (latest_check_performed_outcome (ne_codec demo_nav) es' demo_iid)) (\<lambda>latest.
     io_bind (io_lift (check (\<not> (latest = Some ''exists'' \<and> \<not> False)) (NeNavSideExists demo_iid))) (\<lambda>_.
     io_bind (write_audit demo_nav demo_ctx [abandoned_write demo_nav (invoice_key (ne_duck demo_nav) (ri_id pinv)) key ?stuck
          (effective_reason_for_audit (rust_trim ''lost'') (latest = Some ''exists'' \<and> False))]) (\<lambda>_.
     io_bind (nav_durable_ack demo_nav) (\<lambda>_.
     io_bind (verify_chain_reusing_read demo_nav demo_ctx) (\<lambda>_. io_return ?stuck))))))) (\<lambda>_. True)"
    proof (rule succeeds_bind [OF quietly_read_entries [OF demo_nav_smooth]], rule succeeds_lift [where a = None],
        rule_tac [2] succeeds_lift [where a = "()"])
      fix es' assume "es' = ledger_entries (ne_ledger demo_nav) (nd_rows ?c)"
      then show "latest_check_performed_outcome (ne_codec demo_nav) es' demo_iid = Inr None" by (simp add: e(1) R(3))
    qed (simp add: check_def, rule succeeds_weaken [OF written], simp)
  qed
  have "calm_at demo_nav demo_ctx 1 ?c ?s"
    using demo_with(1) [of "[demo_draft_write, demo_attempt_write]"] by (simp add: calm_at_def nav_calm_def)
  from succeeds_run [OF all this] nav_calmD(3) show ?thesis by fastforce
qed

theorem abandonment_is_final_witness:
  "\<exists>p t. mark_abandoned demo_nav demo_ctx ''t1'' demo_iid ''lost'' False (demo_with [demo_draft_write, demo_attempt_write]) = (Inr p, t) \<and>
     (\<forall>reason force r v. mark_abandoned demo_nav demo_ctx ''t1'' demo_iid reason force t = (r, v) \<longrightarrow>
        \<not> is_ok r \<and> nav_rows v = nav_rows t)"
proof -
  have i: "nav_inv demo_nav demo_ctx (demo_with [demo_draft_write, demo_attempt_write])"
    by (rule nav_calmD(1) [OF demo_with(1)]) simp
  from demo_abandoned obtain p t where
    t: "mark_abandoned demo_nav demo_ctx ''t1'' demo_iid ''lost'' False (demo_with [demo_draft_write, demo_attempt_write]) = (Inr p, t)"
    "length (nav_rows t) < 2 ^ 63" by blast
  have l: "nav_life demo_nav demo_ctx t t" by (simp add: nav_life_def)
  from abandonment_is_final [OF demo_nav_ok i t(1) l t(2)] t(1) show ?thesis by blast
qed

section \<open>Two payments at once\<close>

lemma mark_paid_write_succeeds:
  assumes sm: "nav_smooth env" and c: "nav_calm env ctx (1 + k) s"
  shows "\<exists>x t key r0. mark_paid_write env ctx inp s = (Inr x, t) \<and> nav_calm env ctx k t \<and>
    nav_rows t = nav_rows s @ [r0] \<and> row_of_write env (payment_write env key inp) r0"
proof -
  let ?s = "s\<lparr>nv_tick := nv_tick s + 1\<rparr>" and ?w = "payment_write env (ne_new_key env (nv_tick s)) inp"
  have cs: "nav_calm env ctx (length [?w] + k) ?s" using c by (simp add: nav_calm_def nav_rows_def)
  from calm_write_audit [OF sm cs] obtain u where u: "write_audit env ctx [?w] ?s = (Inr (), u)" "nav_calm env ctx k u" by blast
  from write_audit_adds(1) [OF nav_smoothD(1) [OF sm] nav_calmD(1) [OF cs] u(1)] obtain new where
    n: "adds env ctx ?s u new []" "list_all2 (row_of_write env) [?w] new" by auto
  then obtain r0 where r0: "new = [r0]" "row_of_write env ?w r0" by (auto simp: list_all2_Cons1)
  from calm_verify [OF sm u(2)] obtain v m where v: "verify_chain_reusing_read env ctx u = (Inr m, v)" "nav_calm env ctx k v" by blast
  from calm_nav_durable_ack [OF sm v(2)] obtain t where t: "nav_durable_ack env v = (Inr (), t)" "nav_calm env ctx k t" by blast
  have rows: "nav_rows t = nav_rows s @ [r0]"
    using n(1) r0(1) verify_adds [OF nav_smoothD(1) [OF sm] nav_calmD(1) [OF u(2)] v(1)]
      nav_durable_ack_adds [OF nav_smoothD(1) [OF sm] nav_calmD(1) [OF v(2)] t(1)]
    by (simp add: adds_def nav_rows_def)
  have "\<exists>x. mark_paid_write env ctx inp s = (Inr x, t)"
    using u(1) v(1) t(1)
    by (simp add: mark_paid_write_def io_bind_def next_tick_def io_map_err_def io_return_def)
  then show ?thesis using t(2) rows r0(2) by blast
qed

lemma mark_paid_check_passes:
  assumes sm: "nav_smooth env" and c: "calm_at env ctx k c s"
    and d: "is_canonical_iso_date (ne_duck env) (mp_paid_at inp)"
    and p: "payment_record_for (ne_codec env) (ledger_entries (ne_ledger env) (nd_rows c)) (mp_invoice_id inp) = Inr None"
  shows "\<exists>t. mark_paid_check env inp s = (Inr (), t) \<and> calm_at env ctx k c t"
proof -
  have "quietly env ctx k c (mark_paid_check env inp) (\<lambda>_. True)"
    unfolding mark_paid_check_def
  proof (rule quietly_bind [OF quietly_lift [where P = "\<lambda>_. True" and a = "()"]])
    show "quietly env ctx k c (io_bind (io_map_err MarkPaidOther (read_entries env)) (\<lambda>es.
      io_bind (io_lift (map_err MarkPaidOther (payment_record_for (ne_codec env) es (mp_invoice_id inp)))) (\<lambda>r.
       case r of Some existing \<Rightarrow> io_fail (AlreadyPaid existing) | None \<Rightarrow> io_return ()))) (\<lambda>_. True)"
      by (rule quietly_bind [OF quietly_map_err [OF quietly_read_entries [OF sm]]],
          rule quietly_bind [OF quietly_lift [where P = "\<lambda>r. r = None" and a = None]])
        (simp_all add: p quietly_return)
  qed (simp_all add: d check_def)
  with c show ?thesis unfolding quietly_def by auto
qed

text \<open>The check and the write of a payment are two accesses to the handle with nothing held between
  them. Two calls for one invoice, both past the check before either has written, record two
  payments.\<close>

lemma two_payments_recorded:
  assumes sm: "nav_smooth env" and c: "nav_calm env ctx 2 s"
    and i: "is_canonical_iso_date (ne_duck env) (mp_paid_at i)" and j: "is_canonical_iso_date (ne_duck env) (mp_paid_at j)"
    and same: "mp_invoice_id j = mp_invoice_id i"
    and p: "payment_record_for (ne_codec env) (ledger_entries (ne_ledger env) (nav_rows s)) (mp_invoice_id i) = Inr None"
  shows "\<exists>s1 s2 s3 t x y ri rj ki kj. mark_paid_check env i s = (Inr (), s1) \<and>
    mark_paid_check env j s1 = (Inr (), s2) \<and> mark_paid_write env ctx i s2 = (Inr x, s3) \<and>
    mark_paid_write env ctx j s3 = (Inr y, t) \<and> nav_rows t = nav_rows s @ [ri, rj] \<and>
    row_of_write env (payment_write env ki i) ri \<and> row_of_write env (payment_write env kj j) rj"
proof -
  let ?c = "live_content (nv_handle s)"
  from mark_paid_check_passes [OF sm calm_at_here [OF c] i] p obtain s1 where
    1: "mark_paid_check env i s = (Inr (), s1)" "calm_at env ctx 2 ?c s1" by (auto simp: nav_rows_def)
  from mark_paid_check_passes [OF sm 1(2) j] p same obtain s2 where
    2: "mark_paid_check env j s1 = (Inr (), s2)" "calm_at env ctx 2 ?c s2" by (auto simp: nav_rows_def)
  have c2: "nav_calm env ctx (1 + 1) s2" "nav_rows s2 = nav_rows s" using 2(2) by (simp_all add: calm_at_def nav_rows_def numeral_2_eq_2)
  from mark_paid_write_succeeds [OF sm c2(1), of i] obtain x s3 ki ri where
    3: "mark_paid_write env ctx i s2 = (Inr x, s3)" "nav_calm env ctx 1 s3" "nav_rows s3 = nav_rows s2 @ [ri]"
      "row_of_write env (payment_write env ki i) ri" by blast
  from 3(2) have "nav_calm env ctx (1 + 0) s3" by simp
  from mark_paid_write_succeeds [OF sm this, of j] obtain y t kj rj where
    4: "mark_paid_write env ctx j s3 = (Inr y, t)" "nav_rows t = nav_rows s3 @ [rj]"
      "row_of_write env (payment_write env kj j) rj" by blast
  show ?thesis using 1(1) 2(1) 3(1,3,4) 4 c2(2) by fastforce
qed

definition demo_payment :: mark_paid_input where
  "demo_payment = \<lparr>mp_invoice_id = demo_iid, mp_paid_at = ''2026-05-01'', mp_amount_minor = 100,
     mp_currency = ''HUF'', mp_method = BankTransfer, mp_reference = None\<rparr>"

lemma demo_payment_date: "is_canonical_iso_date demo_duck (mp_paid_at demo_payment)"
  by code_simp

lemma demo_paid: "\<exists>x t. mark_paid demo_nav demo_ctx demo_payment demo_nav_state = (Inr x, t) \<and> length (nav_rows t) < 2 ^ 63"
proof -
  have c: "nav_calm demo_nav demo_ctx (1 + 0) demo_nav_state" by (rule demo_nav_calm) simp
  have none: "payment_record_for demo_codec [] i = Inr None" for i by (simp add: payment_record_for_def)
  from mark_paid_check_passes [OF demo_nav_smooth calm_at_here [OF c], of demo_payment] obtain u where
    u: "mark_paid_check demo_nav demo_payment demo_nav_state = (Inr (), u)"
    "calm_at demo_nav demo_ctx (1 + 0) (live_content (nv_handle demo_nav_state)) u"
    using demo_payment_date demo_nav_empty none by (auto simp: nav_rows_def)
  have "nav_calm demo_nav demo_ctx (1 + 0) u" using u(2) by (simp add: calm_at_def)
  from mark_paid_write_succeeds [OF demo_nav_smooth this, of demo_payment] obtain x t where
    "mark_paid_write demo_nav demo_ctx demo_payment u = (Inr x, t)" "nav_calm demo_nav demo_ctx 0 t" by blast
  then show ?thesis using u(1) nav_calmD(3) [of demo_nav demo_ctx 0 t] by (simp add: mark_paid_def io_bind_def)
qed

theorem payment_recorded_once_witness:
  "\<exists>x t. mark_paid demo_nav demo_ctx demo_payment demo_nav_state = (Inr x, t) \<and>
     (\<forall>r v. mark_paid demo_nav demo_ctx demo_payment t = (r, v) \<longrightarrow> \<not> is_ok r \<and> nav_rows v = nav_rows t)"
proof -
  from demo_paid obtain x t where t: "mark_paid demo_nav demo_ctx demo_payment demo_nav_state = (Inr x, t)"
    "length (nav_rows t) < 2 ^ 63" by blast
  have l: "nav_life demo_nav demo_ctx t t" by (simp add: nav_life_def)
  from payment_recorded_once [OF demo_nav_ok demo_nav_inv t(1) l t(2) _ refl] t(1) show ?thesis by blast
qed

end
