(* ===== verification/Spec2Isabelle.thy ===== *)
theory Spec2Isabelle
  imports Event_Kind Audit_Mirror_Properties Billing_Duckdb_Properties Dispatch_Properties
    Nav_Properties
begin

text \<open>
  A verification development for ABERP, an ERP for a Hungarian manufacturing company: invoicing
  under the tax authority's rules, an append-only audit ledger, and shop-floor records.

  The program's parts. Every write of the program goes through one database transaction which
  also appends to the audit ledger (crates/audit-ledger): entries form a SHA-256 hash chain per
  tenant, and entries written in an operator session carry a signature, anchored at the session's
  ends by a time-stamping authority. A plain-text mirror next to the database follows every commit
  and is the witness of what a damaged database lost. Billing (modules/billing) allocates gapless invoice numbers
  through a store port and computes invoice amounts in checked 64-bit integers. Inventory
  (crates/aberp-inventory) records stock movements and keeps the stock of each product as a cache
  of their sum. Work orders (crates/aberp-work-orders) consume components when released and receive
  the product when completed; each completed routing operation opens a quality inspection
  (crates/aberp-qa), and an order completes only when all of its inspections passed. A completed
  order is dispatched (crates/aberp-dispatch): shipping passes an export-control gate
  (crates/aberp-compliance) and takes the product out of stock. All of a process shares one handle
  on the database (crates/aberp-db), which flushes, mirrors and checkpoints after every write. An
  issued invoice is reported to the tax authority's server NAV (crates/nav-transport) by commands of
  apps/aberp, which record each attempt before the request leaves and the answer after it.

  Theories and the code they model.

  \<^item> \<open>Prelude\<close>: results as sums, tables as lists of rows with the queries the code uses, 64-bit
    ranges, truncating division, strings; the locales \<open>storage_codec\<close> (an enumeration and its
    storage strings) and \<open>lifecycle\<close> (a state machine with terminal states).
  \<^item> \<open>Event_Kind\<close>: the 198 event kinds and their storage strings.
  \<^item> \<open>Audit_Entry\<close>, \<open>Audit_Chain\<close>: identifiers, entries, the canonical CBOR value, the hash chain
    and its verifier (entry/, canonical.rs, chain/).
  \<^item> \<open>Audit_Storage\<close>: the ledger table, appending, reading back, the constraint migration
    (storage/mod.rs). The locale \<open>audit_sink\<close> is the ledger as its callers see it.
  \<^item> \<open>Audit_Session\<close>: sessions, anchors, crash recovery, the extended verifier (session/).
  \<^item> \<open>Audit_Demo\<close>, \<open>Audit_Properties\<close>: a concrete environment; the properties of the ledger.
  \<^item> \<open>Audit_Mirror\<close>, \<open>Audit_Mirror_Properties\<close>: the ledger's plain-text mirror (mirror.rs): its lines,
    reading with the torn-tail policy, backups, synchronisation, reconciliation at boot, replay.
    The state is the bytes of the files; the locale \<open>keeps_evidence\<close> is what every operation on
    them promises.
  \<^item> \<open>Billing_Money\<close>, \<open>Billing_Invoice\<close>: money, lines, vocabularies, the invoice lifecycle
    (domain/).
  \<^item> \<open>Billing_Store\<close>, \<open>Billing_Issue\<close>: the store port and its in-memory adapter, the issue-invoice
    handler over any store (locale \<open>billing_store\<close>), interpreted on both adapters.
  \<^item> \<open>Billing_Duckdb\<close>, \<open>Billing_Duckdb_Refinement\<close>, \<open>Billing_Duckdb_Properties\<close>: the persistent
    store (adapters/duckdb_store.rs): tables with their constraints, the allocator, the read paths;
    the representation relation to the in-memory store and what follows from it.
  \<^item> \<open>Op_Monad\<close>, \<open>Shop_Db\<close>: operations in a transaction, the manufacturing tables.
  \<^item> \<open>Decimal_Text\<close>: decimal digits of numbers.
  \<^item> \<open>Inventory\<close>, \<open>Inventory_Properties\<close>: stock movements (crates/aberp-inventory); the locale
    \<open>stock_ledger\<close> is what the other manufacturing crates use.
  \<^item> \<open>Quality\<close>, \<open>Quality_Properties\<close>: inspections, decisions, the completion gate
    (crates/aberp-qa).
  \<^item> \<open>Work_Orders\<close>, \<open>Work_Orders_Properties\<close>: bills of materials, orders, routing operations
    (crates/aberp-work-orders).
  \<^item> \<open>Export_Control\<close>, \<open>Dispatch\<close>, \<open>Dispatch_Properties\<close>: the export vocabulary, drafting,
    shipping and cancelling dispatches (crates/aberp-dispatch).
  \<^item> \<open>Shop_System\<close>: every operation of these crates as one step relation and the invariant they
    keep together; the locale \<open>kept_table\<close> is a table that movements and the ledger leave alone.
  \<^item> \<open>Io_Monad\<close>: operations that keep their effect when they fail, with the rules for what holds
    after them; the locale \<open>growth\<close> is a relation between states that operations preserve.
  \<^item> \<open>Db_Handle\<close>, \<open>Db_Handle_Properties\<close>: the shared handle (crates/aberp-db): the window of a
    write, what its end does, the acknowledgement, reads, checkpoints, poisoned locks. The state
    holds the files by inode, as the database sees them and as stable storage has them. A checkpoint
    (durable_checkpoint of crates/aberp-snapshot) goes step by step: staging a copy, checking that the
    log has not changed, renaming, removing the old log, flushing the directory, and a failure may
    come between any two. \<open>he_unix\<close> and \<open>he_stat\<close> say whether the swap fence can identify the live
    file; \<open>finishes_installs\<close> (a part of \<open>log_order\<close>) says that a rename once done is followed by
    the removal of the log and the flush of the directory, which the theorem on acknowledged writes
    needs (\<open>unfinished_install_is_acknowledged\<close>).
  \<^item> \<open>Nav_Transport\<close>: reading NAV's answers (crates/nav-transport).
  \<^item> \<open>Nav_Ledger\<close>: payloads, the stuck precondition, the queues, the classes of failures
    (apps/aberp: audit_payloads.rs, audit_query.rs, submission_queue.rs).
  \<^item> \<open>Nav_Submission\<close>: submitting, draining both queues, retrying, abandoning, recording a payment
    (submit_invoice.rs, drain_submission_queue.rs, drain_pending_retries.rs, retry_submission.rs,
    mark_abandoned.rs, mark_invoice_paid.rs). Every request that is sent is logged with the answer it
    got and the rows stable storage holds at that moment. A submission ends with the check of the chain
    and, in submit_invoice.rs, a second synchronisation of the mirror, either of which may fail it.
  \<^item> \<open>Nav_Invariant\<close>: what every command preserves; \<open>Nav_Quiet\<close>: the part of a command that reads
    and asks; \<open>Nav_Calm\<close>, \<open>Nav_Runs\<close>: runs in which nothing below the commands fails;
    \<open>Nav_Queues\<close>: what the walks over the ledger compute.
  \<^item> \<open>Nav_Demo_Codec\<close>, \<open>Nav_Demo\<close>, \<open>Nav_Properties\<close>: a concrete installation; the properties of
    the commands over lives that mix them with crashes, checkpoints and other writers.

  Correspondence. A database table is the list of its rows in insertion order; an operation in a
  transaction is a function from the tables to an error or to a result and new tables (an error
  rolls the transaction back, so it leaves no tables). An operation on the mirror is a function from
  the files to a result and the files, since a failed one keeps what it wrote; the same holds of the
  handle and of the submission commands. Rust results are sums, options are options,
  machine integers are words or integers with an explicit range check, \<open>Decimal\<close> is a rational
  with the overflow and rounding of the library as parameters. Clock readings and ULIDs are
  functions of a tick counter. Functions that are not in the repository (SHA-256, Ed25519, CBOR,
  RFC 3339, ULID and JSON formatting, decimal arithmetic, the DECIMAL(18,6) column) are fields of
  environment records; \<open>env_ok\<close>, \<open>decimal_ok\<close>, \<open>duck_ok\<close>, \<open>shop_ok\<close>, \<open>codec_ok\<close> and \<open>log_order\<close> state
  their documented laws, and the demonstration environments satisfy them. For NAV these are the
  JSON form of the payloads, the XML reader, base64 and AES, the rendering of signed requests, the
  schema validator, the lock files and NAV itself, whose answers are arbitrary functions of a tick. No collision freedom of SHA-256 is assumed: the
  theorems on tampering exhibit the collision a tamperer would need.

  No recursion needs fuel: every loop of the modelled code runs over a list it has read, except
  the wait for the mirror's lock, which ends because each poll moves the clock towards the deadline.
  Where a theorem needs room in the ledger it says so: fewer than 2^63 rows, the range of the
  sequence number's column.

  Not modelled. The HTTP server and desktop application and the rest of the commands of apps/, among
  them polling NAV for the fate of a transaction, annulments and recovery from NAV; the rendering of
  NAV requests and the schema validation; the portal, PDF rendering, the machine adapters, the
  snapshot files: input and output around the modelled core. The quality control plans and reports
  (crates/aberp-qa/src/qc), the quote engine and the compliance registers are left out. Of the
  billing adapter, the schema migrations are left out: the tables have their final columns. Of the
  mirror, the log lines, fsync and the numbers in error texts are left out, and concurrent processes
  appear only as the answers of the lock and as the database contents a step finds. Of the handle,
  checkpoint_now_within is left out; its life (\<open>handle_life\<close>) has panics and crashes, and the
  theorem on acknowledged writes has files swapped by other processes. In the lives of the commands
  (\<open>nav_step\<close>) there are neither panics nor swapped files: the commands hold the lock of the whole
  database. The texts for the operator are left out. An \<open>OffsetDateTime\<close> is modelled as its instant: the
  program only writes UTC, and the offset of a stored text that names another one is dropped. The
  handle and the commands see the mirror through one law: a synchronisation of a mirror that is not
  ahead of the content it is given leaves one that is not, whether it succeeds, fails or stops half way
  (\<open>log_order\<close>); the mirror's own theories model it line by line. The spawner of draft
  invoices and the binder of shipment documents, which crates/aberp-dispatch takes as trait objects, are
  parameters of \<open>mark_shipped\<close> with a frame law (\<open>ports_ok\<close>).
\<close>

end
